(* ===== verification/Prelude.thy ===== *)
theory Prelude
  imports Xi_Error "HOL-Library.Word" "HOL-Library.Monad_Syntax" "HOL-Library.Multiset"
begin

text \<open>
  Shared vocabulary of the development: the status codes of the public API
  (\<open>include/xively_error.h\<close>), the narrowing conversions the C code performs on its integer
  types, the allocator the whole library goes through
  (\<open>src/libxively/memory/xi_allocator.c\<close> and the allocation macros of \<open>xi_macros.h\<close>),
  and the generic lemmas on lists and options that the component theories share.

  Conventions. A function of the library that contains assertions, dereferences or array
  accesses is modelled by a function into \<open>option\<close>: \<open>None\<close> is an assertion that
  fails or an access outside the object (undefined behaviour in C), \<open>Some r\<close> is an
  execution that reaches its \<open>return\<close>. Error codes the code returns are ordinary values
  inside \<open>Some\<close>. A pointer is a natural number, \<open>0\<close> is \<open>NULL\<close>.
\<close>

section \<open>Narrow integers\<close>

text \<open>
  \<open>int8 x\<close> is the conversion of an \<open>int\<close> to \<open>int8_t\<close> (two's complement, the
  implementation-defined conversion every compiler the library supports performs);
  \<open>int32 x\<close> is the conversion to \<open>int32_t\<close>, \<open>size_t_of x\<close> the conversion of a
  signed value to a 64-bit \<open>size_t\<close>.
\<close>

definition int8 :: "int \<Rightarrow> int" where
  "int8 x = (x + 128) mod 256 - 128"

definition int32 :: "int \<Rightarrow> int" where
  "int32 x = (x + 2147483648) mod 4294967296 - 2147483648"

definition size_t_of :: "int \<Rightarrow> nat" where
  "size_t_of x = nat (x mod 2 ^ 64)"

lemma int8_id [simp]: "-128 \<le> x \<Longrightarrow> x \<le> 127 \<Longrightarrow> int8 x = x"
  by (simp add: int8_def)

lemma int8_wrap: "128 \<le> x \<Longrightarrow> x \<le> 383 \<Longrightarrow> int8 x = x - 256"
proof -
  assume x: "128 \<le> x" "x \<le> 383"
  have "x + 128 = (x - 128) + 256" by simp
  then have "(x + 128) mod 256 = (x - 128) mod 256" by (simp only: mod_add_self2)
  also have "\<dots> = x - 128" using x by (intro mod_pos_pos_trivial) simp_all
  finally show ?thesis by (simp add: int8_def)
qed

lemma int8_bounds: "-128 \<le> int8 x" "int8 x \<le> 127"
  using pos_mod_bound [of 256 "x + 128"] by (simp_all add: int8_def)

lemma int32_id [simp]: "-2147483648 \<le> x \<Longrightarrow> x \<le> 2147483647 \<Longrightarrow> int32 x = x"
  by (simp add: int32_def)

lemma size_t_of_nonneg [simp]: "0 \<le> x \<Longrightarrow> x < 2 ^ 64 \<Longrightarrow> size_t_of x = nat x"
  by (simp add: size_t_of_def)

lemma size_t_of_neg: "- (2 ^ 63) \<le> x \<Longrightarrow> x < 0 \<Longrightarrow> size_t_of x = nat (x + 2 ^ 64)"
proof -
  assume x: "- (2 ^ 63) \<le> x" "x < 0"
  have "x mod 2 ^ 64 = (x + 2 ^ 64) mod 2 ^ 64" by simp
  also have "\<dots> = x + 2 ^ 64" using x by (intro mod_pos_pos_trivial) simp_all
  finally show ?thesis by (simp add: size_t_of_def)
qed

section \<open>The allocator\<close>

text \<open>
  \<open>xi_alloc\<close> and \<open>xi_free\<close> are thin wrappers of the board support package's
  \<open>malloc\<close> and \<open>free\<close>. The environment's choice of which allocations succeed is the
  script \<open>alloc_script\<close>: the next allocation takes its first element (an exhausted script
  lets every allocation succeed), so a theorem about all scripts is a theorem about every
  pattern of allocation failures. A request larger than \<open>PTRDIFF_MAX\<close> is refused, as
  \<open>malloc\<close> does. Addresses are never reused, and \<open>live_blocks\<close> is the set of blocks
  that are allocated and not yet freed.
\<close>

type_synonym addr = nat

abbreviation (input) NULL :: addr where "NULL \<equiv> 0"

record xi_memory =
  alloc_script :: "bool list"
  next_block :: addr
  live_blocks :: "addr set"

definition PTRDIFF_MAX :: nat where
  "PTRDIFF_MAX = 9223372036854775807"

definition xi_alloc :: "nat \<Rightarrow> xi_memory \<Rightarrow> addr \<times> xi_memory" where
  "xi_alloc n m =
     (if n > PTRDIFF_MAX then (NULL, m)
      else if alloc_script m \<noteq> [] \<and> \<not> hd (alloc_script m)
      then (NULL, m\<lparr>alloc_script := tl (alloc_script m)\<rparr>)
      else (next_block m,
            m\<lparr>alloc_script := tl (alloc_script m), next_block := Suc (next_block m),
              live_blocks := insert (next_block m) (live_blocks m)\<rparr>))"

definition xi_free :: "addr \<Rightarrow> xi_memory \<Rightarrow> xi_memory" where
  "xi_free p m = (if p = NULL then m else m\<lparr>live_blocks := live_blocks m - {p}\<rparr>)"

text \<open>
  What the allocator keeps: fresh addresses are not \<open>NULL\<close> and lie above every live
  block, so an allocation never returns a block in use.
\<close>

definition mem_ok :: "xi_memory \<Rightarrow> bool" where
  "mem_ok m \<longleftrightarrow> 0 < next_block m \<and> (\<forall>a \<in> live_blocks m. 0 < a \<and> a < next_block m)"

definition initial_memory :: "bool list \<Rightarrow> xi_memory" where
  "initial_memory script = \<lparr>alloc_script = script, next_block = 1, live_blocks = {}\<rparr>"

lemma mem_ok_initial [simp]: "mem_ok (initial_memory script)"
  by (simp add: mem_ok_def initial_memory_def)

lemma xi_alloc_cases:
  assumes "xi_alloc n m = (p, m')"
  obtains (fail) "p = NULL" "live_blocks m' = live_blocks m" "next_block m' = next_block m"
  | (ok) "p = next_block m" "live_blocks m' = insert p (live_blocks m)"
      "next_block m' = Suc (next_block m)" "n \<le> PTRDIFF_MAX"
  using assms by (auto simp: xi_alloc_def split: if_splits)

lemma xi_alloc_mem_ok: "xi_alloc n m = (p, m') \<Longrightarrow> mem_ok m \<Longrightarrow> mem_ok m'"
  by (auto simp: xi_alloc_def mem_ok_def less_Suc_eq split: if_splits)

lemma xi_alloc_fresh:
  "xi_alloc n m = (p, m') \<Longrightarrow> mem_ok m \<Longrightarrow> p \<noteq> NULL \<Longrightarrow>
     p \<notin> live_blocks m \<and> p \<in> live_blocks m' \<and> p = next_block m"
  by (auto simp: xi_alloc_def mem_ok_def split: if_splits)

lemma xi_alloc_live:
  "xi_alloc n m = (p, m') \<Longrightarrow>
     live_blocks m' = (if p = NULL then live_blocks m else insert p (live_blocks m))"
  if "mem_ok m"
  using that by (auto simp: xi_alloc_def mem_ok_def split: if_splits)

lemma xi_alloc_too_big: "PTRDIFF_MAX < n \<Longrightarrow> xi_alloc n m = (NULL, m)"
  by (simp add: xi_alloc_def)

lemma xi_alloc_next_mono: "xi_alloc n m = (p, m') \<Longrightarrow> next_block m \<le> next_block m'"
  by (auto simp: xi_alloc_def split: if_splits)

lemma xi_free_simps [simp]:
  "live_blocks (xi_free p m) = live_blocks m - (if p = NULL then {} else {p})"
  "next_block (xi_free p m) = next_block m"
  "alloc_script (xi_free p m) = alloc_script m"
  by (simp_all add: xi_free_def)

lemma xi_free_NULL [simp]: "xi_free NULL m = m"
  by (simp add: xi_free_def)

lemma xi_free_mem_ok [simp]: "mem_ok m \<Longrightarrow> mem_ok (xi_free p m)"
  by (auto simp: mem_ok_def)

section \<open>Assertions\<close>

text \<open>\<open>assert( c ); k\<close>: the continuation runs only where the assertion holds.\<close>

definition xi_assert :: "bool \<Rightarrow> unit option" where
  "xi_assert c = (if c then Some () else None)"

lemma xi_assert_simps [simp]:
  "xi_assert True = Some ()" "xi_assert False = None"
  "xi_assert c = Some u \<longleftrightarrow> c" "xi_assert c = None \<longleftrightarrow> \<not> c"
  by (simp_all add: xi_assert_def)

section \<open>Lists\<close>

text \<open>A C array access with a signed index: inside the block or undefined.\<close>

definition arr_get :: "'a list \<Rightarrow> int \<Rightarrow> 'a option" where
  "arr_get xs i = (if 0 \<le> i \<and> i < int (length xs) then Some (xs ! nat i) else None)"

definition arr_set :: "'a list \<Rightarrow> int \<Rightarrow> 'a \<Rightarrow> 'a list option" where
  "arr_set xs i x =
     (if 0 \<le> i \<and> i < int (length xs) then Some (xs[nat i := x]) else None)"

lemma arr_get_Some [simp]:
  "0 \<le> i \<Longrightarrow> i < int (length xs) \<Longrightarrow> arr_get xs i = Some (xs ! nat i)"
  by (simp add: arr_get_def)

lemma arr_set_Some [simp]:
  "0 \<le> i \<Longrightarrow> i < int (length xs) \<Longrightarrow> arr_set xs i x = Some (xs[nat i := x])"
  by (simp add: arr_set_def)

text \<open>A loop over a list whose body may fail, and the loop that pops \<open>n\<close> elements.\<close>

primrec fold_option :: "('a \<Rightarrow> 's \<Rightarrow> 's option) \<Rightarrow> 'a list \<Rightarrow> 's \<Rightarrow> 's option" where
  "fold_option f [] s = Some s"
| "fold_option f (x # xs) s = f x s \<bind> fold_option f xs"

primrec pops :: "('s \<Rightarrow> ('e \<times> 's) option) \<Rightarrow> nat \<Rightarrow> 's \<Rightarrow> ('e list \<times> 's) option" where
  "pops pop 0 s = Some ([], s)"
| "pops pop (Suc n) s = do { (e, t) \<leftarrow> pop s; (es, u) \<leftarrow> pops pop n t; Some (e # es, u) }"

lemma fold_option_append:
  "fold_option f (xs @ ys) s = fold_option f xs s \<bind> fold_option f ys"
  by (induction xs arbitrary: s) (auto simp: bind_assoc split: bind_split)

lemma take_list_update_last:
  "n < length xs \<Longrightarrow> take (Suc n) (xs[n := x]) = take n xs @ [x]"
  by (simp add: take_Suc_conv_app_nth)

lemma take_swap_adjacent:
  assumes "Suc i < length xs"
  shows "xs[i := xs ! Suc i, Suc i := xs ! i] =
           take i xs @ [xs ! Suc i, xs ! i] @ drop (Suc (Suc i)) xs"
proof (rule nth_equalityI)
  show "length (xs[i := xs ! Suc i, Suc i := xs ! i]) =
          length (take i xs @ [xs ! Suc i, xs ! i] @ drop (Suc (Suc i)) xs)"
    using assms by simp
next
  fix k
  assume "k < length (xs[i := xs ! Suc i, Suc i := xs ! i])"
  then have len: "k < length xs" by simp
  consider (below) "k < i" | (left) "k = i" | (right) "k = Suc i" | (above) "Suc i < k"
    by linarith
  then show "xs[i := xs ! Suc i, Suc i := xs ! i] ! k =
      (take i xs @ [xs ! Suc i, xs ! i] @ drop (Suc (Suc i)) xs) ! k"
  proof cases
    case above
    then obtain d where "k = Suc (Suc i) + d" by (metis Suc_leI le_Suc_ex)
    then show ?thesis using assms len by (simp add: nth_append)
  qed (use assms in \<open>simp_all add: nth_append\<close>)
qed

text \<open>The first index of a range, split off.\<close>

lemma int_all_from: "(\<forall>k::int. i \<le> k \<longrightarrow> P k) \<longleftrightarrow> P i \<and> (\<forall>k. i + 1 \<le> k \<longrightarrow> P k)"
  by (metis order_refl zle_add1_eq_le less_le add1_zle_eq)

section \<open>Moving one element of a keyed list to its place\<close>

text \<open>
  \<open>sift_down\<close> moves the element at index \<open>n\<close> left past every element with a larger
  key, \<open>sift_up\<close> moves it right past every element with a smaller key.
\<close>

definition sift_down :: "('a \<Rightarrow> int) \<Rightarrow> nat \<Rightarrow> 'a list \<Rightarrow> 'a list" where
  "sift_down k n xs = takeWhile (\<lambda>y. k y \<le> k (xs ! n)) (take n xs) @ xs ! n
     # dropWhile (\<lambda>y. k y \<le> k (xs ! n)) (take n xs) @ drop (Suc n) xs"

definition sift_up :: "('a \<Rightarrow> int) \<Rightarrow> nat \<Rightarrow> 'a list \<Rightarrow> 'a list" where
  "sift_up k n xs = take n xs @ takeWhile (\<lambda>y. k y < k (xs ! n)) (drop (Suc n) xs) @ xs ! n
     # dropWhile (\<lambda>y. k y < k (xs ! n)) (drop (Suc n) xs)"

lemma dropWhile_le_sorted:
  "sorted (map k xs) \<Longrightarrow> y \<in> set (dropWhile (\<lambda>y. k y \<le> (c::int)) xs) \<Longrightarrow> c < k y"
  by (induction xs) (auto split: if_splits)

lemma dropWhile_less_sorted:
  "sorted (map k xs) \<Longrightarrow> y \<in> set (dropWhile (\<lambda>y. k y < (c::int)) xs) \<Longrightarrow> c \<le> k y"
  by (induction xs) (auto split: if_splits)

lemma sorted_takeWhile_map: "sorted (map k xs) \<Longrightarrow> sorted (map k (takeWhile P xs))"
  by (induction xs) (auto dest: set_takeWhileD)

lemma sorted_dropWhile_map: "sorted (map k xs) \<Longrightarrow> sorted (map k (dropWhile P xs))"
  by (induction xs) auto

lemma sorted_insert_down:
  fixes k :: "'a \<Rightarrow> int"
  assumes "sorted (map k (xs @ zs))" "\<forall>z \<in> set zs. k x \<le> k z"
  shows "sorted (map k (takeWhile (\<lambda>y. k y \<le> k x) xs @ x # dropWhile (\<lambda>y. k y \<le> k x) xs @ zs))"
proof -
  let ?A = "takeWhile (\<lambda>y. k y \<le> k x) xs" and ?B = "dropWhile (\<lambda>y. k y \<le> k x) xs"
  have xs: "sorted (map k xs)" and zs: "sorted (map k zs)"
    and cross: "\<And>y z. y \<in> set xs \<Longrightarrow> z \<in> set zs \<Longrightarrow> k y \<le> k z"
    using assms(1) by (auto simp: sorted_append)
  have A: "\<And>y. y \<in> set ?A \<Longrightarrow> k y \<le> k x" by (auto dest: set_takeWhileD)
  have B: "\<And>y. y \<in> set ?B \<Longrightarrow> k x < k y \<and> y \<in> set xs"
    using dropWhile_le_sorted [OF xs] by (auto dest: set_dropWhileD)
  have "sorted (map k (x # ?B @ zs))"
    using xs zs assms(2) by (auto simp: sorted_append sorted_dropWhile_map dest: B intro: cross)
  moreover have "\<forall>y \<in> set (x # ?B @ zs). k x \<le> k y"
    using assms(2) by (auto dest: B)
  moreover have "sorted (map k ?A)" "\<forall>y \<in> set ?A. k y \<le> k x"
    using xs A by (auto intro: sorted_takeWhile_map)
  ultimately have "sorted (map k (?A @ x # ?B @ zs))"
    unfolding map_append sorted_append by (auto simp: ball_Un intro: order_trans)
  then show ?thesis by simp
qed

lemma sorted_insert_up:
  fixes k :: "'a \<Rightarrow> int"
  assumes "sorted (map k (xs @ zs))" "\<forall>y \<in> set xs. k y \<le> k x"
  shows "sorted (map k (xs @ takeWhile (\<lambda>y. k y < k x) zs @ x # dropWhile (\<lambda>y. k y < k x) zs))"
proof -
  let ?A = "takeWhile (\<lambda>y. k y < k x) zs" and ?B = "dropWhile (\<lambda>y. k y < k x) zs"
  have xs: "sorted (map k xs)" and zs: "sorted (map k zs)"
    and cross: "\<And>y z. y \<in> set xs \<Longrightarrow> z \<in> set zs \<Longrightarrow> k y \<le> k z"
    using assms(1) by (auto simp: sorted_append)
  have A: "\<And>y. y \<in> set ?A \<Longrightarrow> k y < k x \<and> y \<in> set zs" by (auto dest: set_takeWhileD)
  have B: "\<And>y. y \<in> set ?B \<Longrightarrow> k x \<le> k y"
    using dropWhile_less_sorted [OF zs] by (auto dest: set_dropWhileD)
  have "sorted (map k (xs @ ?A))"
    using xs zs by (auto simp: sorted_append sorted_takeWhile_map dest: A intro: cross)
  moreover have "\<forall>y \<in> set (xs @ ?A). k y \<le> k x"
    using assms(2) by (auto dest: A)
  moreover have "sorted (map k (x # ?B))"
    using zs by (auto simp: sorted_dropWhile_map dest: B)
  ultimately have "sorted (map k ((xs @ ?A) @ x # ?B))"
    unfolding map_append sorted_append by (auto simp: ball_Un dest!: B intro: order_trans)
  then show ?thesis by simp
qed

lemma mset_insert_while:
  "mset (takeWhile P xs @ x # dropWhile P xs) = add_mset x (mset xs)"
  by (metis add_mset_add_single mset.simps(2) mset_append takeWhile_dropWhile_id union_mset_add_mset_right)

lemma mset_remove_nth: "n < length xs \<Longrightarrow> add_mset (xs ! n) (mset (take n xs @ drop (Suc n) xs)) = mset xs"
  by (subst id_take_nth_drop [of n xs]) (simp_all del: append_take_drop_id)

lemma remove1_nth: "distinct xs \<Longrightarrow> n < length xs \<Longrightarrow> remove1 (xs ! n) xs = take n xs @ drop (Suc n) xs"
proof -
  assume d: "distinct xs" and n: "n < length xs"
  have "xs = take n xs @ xs ! n # drop (Suc n) xs" using n by (rule id_take_nth_drop)
  moreover have "xs ! n \<notin> set (take n xs)"
    using d n by (auto simp: in_set_conv_nth nth_eq_iff_index_eq)
  ultimately show ?thesis by (metis remove1.simps(2) remove1_append)
qed

end
