(* ===== verification/Xi_Vector.thy ===== *)
theory Xi_Vector
  imports Prelude "HOL-Library.Multiset"
begin

text \<open>
  \<open>src/libxively/datastructures/xi_vector.c\<close>: the growable array every container of the
  library is built on. The element type is polymorphic (the C union of a pointer, an
  \<open>intptr_t\<close> and two 32-bit integers); \<open>0\<close> is the element \<open>memset\<close> writes. The
  element counters are \<open>int8_t\<close>, so a vector can never hold more than 64 elements: the
  model keeps the width and shows what happens at the limit.
\<close>

section \<open>Data\<close>

datatype xi_memory_type =
  XI_MEMORY_TYPE_UNKNOWN | XI_MEMORY_TYPE_MANAGED | XI_MEMORY_TYPE_UNMANAGED

text \<open>
  \<open>vec_block\<close> is the address of the structure itself, \<open>array_block\<close> the address of the
  block \<open>array\<close> points to and \<open>array\<close> its contents.
\<close>

record 'a xi_vector =
  vec_block :: addr
  array_block :: addr
  array :: "'a list"
  elem_no :: int
  capacity :: int
  memory_type :: xi_memory_type

definition sizeof_xi_vector :: nat where "sizeof_xi_vector = 16"
definition sizeof_xi_vector_elem :: int where "sizeof_xi_vector_elem = 8"
definition XI_VECTOR_DEFAULT_CAPACITY :: int where "XI_VECTOR_DEFAULT_CAPACITY = 2"

section \<open>Operations\<close>

definition xi_vector_realloc ::
    "('a::zero) xi_vector \<Rightarrow> int \<Rightarrow> xi_memory \<Rightarrow> (int \<times> 'a xi_vector \<times> xi_memory) option" where
  "xi_vector_realloc vector new_size m = do {
     xi_assert (new_size \<noteq> 0 \<and> new_size \<noteq> capacity vector);
     if memory_type vector \<noteq> XI_MEMORY_TYPE_MANAGED then Some (0, vector, m)
     else let elems_size = size_t_of (new_size * sizeof_xi_vector_elem);
              (new_array, m1) = xi_alloc elems_size m
          in if new_array = NULL then Some (0, vector, m1)
             else do {
               xi_assert (elem_no vector \<le> new_size \<and> elem_no vector \<le> int (length (array vector)));
               Some (1, vector\<lparr>array_block := new_array,
                               array := take (nat (elem_no vector)) (array vector)
                                        @ replicate (nat new_size - nat (elem_no vector)) 0,
                               capacity := new_size\<rparr>,
                     xi_free (array_block vector) m1) } }"

definition xi_vector_create :: "xi_memory \<Rightarrow> (('a::zero) xi_vector option \<times> xi_memory) option" where
  "xi_vector_create m =
     (let (ret, m1) = xi_alloc sizeof_xi_vector m
      in if ret = NULL then Some (None, m1)
         else do {
           (ok, v, m2) \<leftarrow> xi_vector_realloc
             \<lparr>vec_block = ret, array_block = NULL, array = [], elem_no = 0, capacity = 0,
              memory_type = XI_MEMORY_TYPE_MANAGED\<rparr> XI_VECTOR_DEFAULT_CAPACITY m1;
           if ok = 0
           then Some (None, xi_free ret (xi_free (array_block v) m2))
           else Some (Some v, m2) })"

definition xi_vector_create_from ::
    "addr \<Rightarrow> 'a list \<Rightarrow> nat \<Rightarrow> xi_memory_type \<Rightarrow> xi_memory
       \<Rightarrow> ('a xi_vector option \<times> xi_memory) option" where
  "xi_vector_create_from arr_block arr len mtype m = do {
     xi_assert (arr_block \<noteq> NULL);
     xi_assert (0 < len);
     let (ret, m1) = xi_alloc sizeof_xi_vector m
     in if ret = NULL then Some (None, m1)
        else Some (Some \<lparr>vec_block = ret, array_block = arr_block, array = arr,
                         elem_no = int8 (int len), capacity = int8 (int len),
                         memory_type = mtype\<rparr>, m1) }"

definition xi_vector_reserve ::
    "('a::zero) xi_vector \<Rightarrow> int \<Rightarrow> xi_memory \<Rightarrow> (int \<times> 'a xi_vector \<times> xi_memory) option" where
  "xi_vector_reserve vector n m = do {
     xi_assert (0 < n);
     if n = capacity vector then Some (1, vector, m)
     else do {
       let vector1 = (if elem_no vector > n then vector\<lparr>elem_no := n\<rparr> else vector);
       (result, vector2, m1) \<leftarrow> xi_vector_realloc vector1 n m;
       if result = 0 then Some (0, vector2, m1) else Some (1, vector2, m1) } }"

definition xi_vector_destroy :: "'a xi_vector \<Rightarrow> xi_memory \<Rightarrow> xi_memory option" where
  "xi_vector_destroy vector m = do {
     xi_assert (array_block vector \<noteq> NULL);
     let m1 = (if memory_type vector = XI_MEMORY_TYPE_MANAGED
               then xi_free (array_block vector) m else m);
     Some (xi_free (vec_block vector) m1) }"

text \<open>\<open>Some i\<close> is the returned pointer \<open>&vector->array[i]\<close>, \<open>None\<close> is \<open>NULL\<close>.\<close>

definition xi_vector_push ::
    "('a::zero) xi_vector \<Rightarrow> 'a \<Rightarrow> xi_memory
       \<Rightarrow> (int option \<times> 'a xi_vector \<times> xi_memory) option" where
  "xi_vector_push vector value m = do {
     (ok, vector1, m1) \<leftarrow>
       (if elem_no vector + 1 > capacity vector
        then xi_vector_realloc vector (int8 (capacity vector * 2)) m
        else Some (1, vector, m));
     if ok = 0 then Some (None, vector1, m1)
     else do {
       array1 \<leftarrow> arr_set (array vector1) (elem_no vector1) value;
       let vector2 = vector1\<lparr>array := array1, elem_no := int8 (elem_no vector1 + 1)\<rparr>;
       Some (Some (elem_no vector2 - 1), vector2, m1) } }"

definition xi_vector_swap_elems :: "'a xi_vector \<Rightarrow> int \<Rightarrow> int \<Rightarrow> 'a xi_vector option" where
  "xi_vector_swap_elems vector i0 i1 = do {
     xi_assert (i0 \<ge> 0 \<and> i1 \<ge> 0 \<and> i0 \<le> elem_no vector - 1 \<and> i1 \<le> elem_no vector - 1);
     tmp_value \<leftarrow> arr_get (array vector) i0;
     other \<leftarrow> arr_get (array vector) i1;
     array1 \<leftarrow> arr_set (array vector) i0 other;
     array2 \<leftarrow> arr_set array1 i1 tmp_value;
     Some (vector\<lparr>array := array2\<rparr>) }"

definition xi_vector_del :: "('a::zero) xi_vector \<Rightarrow> int \<Rightarrow> 'a xi_vector option" where
  "xi_vector_del vector index = do {
     xi_assert (index \<ge> 0);
     xi_assert (elem_no vector > 0 \<and> index < elem_no vector);
     vector1 \<leftarrow> (if index \<noteq> elem_no vector - 1
                then xi_vector_swap_elems vector index (elem_no vector - 1)
                else Some vector);
     let n = int8 (elem_no vector1 - 1);
     array1 \<leftarrow> arr_set (array vector1) n 0;
     Some (vector1\<lparr>array := array1, elem_no := n\<rparr>) }"

text \<open>The loop of \<open>xi_vector_find\<close>, from index \<open>i\<close>; the comparison may dereference.\<close>

function xi_vector_find_from ::
    "'a xi_vector \<Rightarrow> 'v \<Rightarrow> ('a \<Rightarrow> 'v \<Rightarrow> int option) \<Rightarrow> int \<Rightarrow> int option" where
  "xi_vector_find_from vector value fun_cmp i =
     (if i < elem_no vector then do {
        e \<leftarrow> arr_get (array vector) i;
        c \<leftarrow> fun_cmp e value;
        if c = 0 then Some i else xi_vector_find_from vector value fun_cmp (i + 1) }
      else Some (-1))"
  by pat_completeness auto
termination
  by (relation "measure (\<lambda>(v, _, _, i). nat (elem_no v - i))") auto

definition xi_vector_find ::
    "'a xi_vector \<Rightarrow> 'v \<Rightarrow> ('a \<Rightarrow> 'v \<Rightarrow> int option) \<Rightarrow> int option" where
  "xi_vector_find vector value fun_cmp = xi_vector_find_from vector value fun_cmp 0"

text \<open>
  \<open>xi_vector_for_each\<close> calls \<open>fun_for\<close> on every element from \<open>offset\<close> on; the
  callback works on a state \<open>'s\<close>.
\<close>

function xi_vector_for_each_loop ::
    "'a xi_vector \<Rightarrow> ('a \<Rightarrow> 's \<Rightarrow> 's option) \<Rightarrow> int \<Rightarrow> 's \<Rightarrow> 's option" where
  "xi_vector_for_each_loop vector fun_for i s =
     (if i < elem_no vector then do {
        e \<leftarrow> arr_get (array vector) i;
        s1 \<leftarrow> fun_for e s;
        xi_vector_for_each_loop vector fun_for (i + 1) s1 }
      else Some s)"
  by pat_completeness auto
termination
  by (relation "measure (\<lambda>(v, _, i, _). nat (elem_no v - i))") auto

definition xi_vector_for_each ::
    "'a xi_vector \<Rightarrow> ('a \<Rightarrow> 's \<Rightarrow> 's option) \<Rightarrow> int \<Rightarrow> 's \<Rightarrow> 's option" where
  "xi_vector_for_each vector fun_for offset s = do {
     xi_assert (0 \<le> offset \<and> offset \<le> elem_no vector);
     xi_vector_for_each_loop vector fun_for offset s }"

text \<open>\<open>NULL\<close> (the zero element) outside the vector.\<close>

definition xi_vector_get :: "('a::zero) xi_vector \<Rightarrow> int \<Rightarrow> 'a option" where
  "xi_vector_get vector index =
     (if elem_no vector \<le> index \<or> index < 0 then Some 0 else arr_get (array vector) index)"

function xi_vector_remove_if_from ::
    "('a::zero) xi_vector \<Rightarrow> ('a \<Rightarrow> int) \<Rightarrow> int \<Rightarrow> 'a xi_vector option" where
  "xi_vector_remove_if_from vector fun_pred i =
     (if i \<ge> 0 then do {
        e \<leftarrow> arr_get (array vector) i;
        vector1 \<leftarrow> (if fun_pred e = 1 then xi_vector_del vector i else Some vector);
        xi_vector_remove_if_from vector1 fun_pred (i - 1) }
      else Some vector)"
  by pat_completeness auto
termination
  by (relation "measure (\<lambda>(_, _, i). nat (i + 1))") auto

definition xi_vector_remove_if ::
    "('a::zero) xi_vector \<Rightarrow> ('a \<Rightarrow> int) \<Rightarrow> 'a xi_vector option" where
  "xi_vector_remove_if vector fun_pred =
     xi_vector_remove_if_from vector fun_pred (elem_no vector - 1)"

declare xi_vector_find_from.simps [simp del] xi_vector_for_each_loop.simps [simp del]
  xi_vector_remove_if_from.simps [simp del]

section \<open>Well-formed vectors\<close>

text \<open>
  The counters agree with the allocated block and stay within \<open>int8_t\<close>;
  \<open>elems\<close> is the sequence the vector represents.
\<close>

definition vec_ok :: "'a xi_vector \<Rightarrow> bool" where
  "vec_ok v \<longleftrightarrow> 0 \<le> elem_no v \<and> elem_no v \<le> capacity v \<and> 0 < capacity v \<and> capacity v \<le> 127
     \<and> int (length (array v)) = capacity v"

definition elems :: "'a xi_vector \<Rightarrow> 'a list" where
  "elems v = take (nat (elem_no v)) (array v)"

text \<open>The two blocks a managed vector owns.\<close>

definition vec_owned :: "'a xi_vector \<Rightarrow> xi_memory \<Rightarrow> bool" where
  "vec_owned v m \<longleftrightarrow> memory_type v = XI_MEMORY_TYPE_MANAGED \<and> vec_block v \<noteq> array_block v
     \<and> vec_block v \<in> live_blocks m \<and> array_block v \<in> live_blocks m"

lemma vec_okD:
  assumes "vec_ok v"
  shows "0 \<le> elem_no v" "elem_no v \<le> capacity v" "0 < capacity v" "capacity v \<le> 127"
    "int (length (array v)) = capacity v" "elem_no v \<le> int (length (array v))"
    "nat (elem_no v) \<le> length (array v)"
  using assms by (auto simp: vec_ok_def)

lemma length_elems [simp]: "vec_ok v \<Longrightarrow> length (elems v) = nat (elem_no v)"
  by (auto simp: elems_def vec_ok_def)

lemma int_length_elems: "vec_ok v \<Longrightarrow> int (length (elems v)) = elem_no v"
  by (simp add: vec_okD)

lemma elems_nth: "vec_ok v \<Longrightarrow> 0 \<le> i \<Longrightarrow> i < elem_no v \<Longrightarrow> elems v ! nat i = array v ! nat i"
  by (simp add: elems_def)

lemma vec_get_in:
  "vec_ok v \<Longrightarrow> 0 \<le> i \<Longrightarrow> i < elem_no v \<Longrightarrow> arr_get (array v) i = Some (elems v ! nat i)"
  by (simp add: elems_nth vec_ok_def)

section \<open>Allocation and growth\<close>

lemma xi_vector_realloc_spec:
  assumes ok: "vec_ok v" and mem: "mem_ok m"
    and new: "n \<noteq> 0" "n \<noteq> capacity v" "-128 \<le> n" "n \<le> 127" and fits: "0 \<le> n \<Longrightarrow> elem_no v \<le> n"
  obtains (fail) m' where "xi_vector_realloc v n m = Some (0, v, m')"
      "live_blocks m' = live_blocks m" "mem_ok m'"
  | (success) p m' where "memory_type v = XI_MEMORY_TYPE_MANAGED" "0 < n" "p \<noteq> NULL" "p \<notin> live_blocks m"
      "xi_vector_realloc v n m = Some (1, v\<lparr>array_block := p,
         array := elems v @ replicate (nat n - nat (elem_no v)) 0, capacity := n\<rparr>, m')"
      "live_blocks m' = insert p (live_blocks m) - (if array_block v = NULL then {} else {array_block v})"
      "mem_ok m'"
proof (cases "memory_type v = XI_MEMORY_TYPE_MANAGED")
  case False
  then show thesis using fail mem new by (simp add: xi_vector_realloc_def)
next
  case managed: True
  obtain p m1 where al: "xi_alloc (size_t_of (n * sizeof_xi_vector_elem)) m = (p, m1)"
    by fastforce
  show thesis
  proof (cases "p = NULL")
    case True
    with al managed new mem show thesis
      by (intro fail [of m1])
        (auto simp: xi_vector_realloc_def xi_alloc_live [OF mem] dest: xi_alloc_mem_ok)
  next
    case False
    with al have "size_t_of (n * sizeof_xi_vector_elem) \<le> PTRDIFF_MAX"
      using xi_alloc_too_big [of "size_t_of (n * sizeof_xi_vector_elem)" m]
      by (cases "PTRDIFF_MAX < size_t_of (n * sizeof_xi_vector_elem)") auto
    with new have pos: "0 < n"
      by (cases "0 \<le> n") (auto simp: size_t_of_neg sizeof_xi_vector_elem_def PTRDIFF_MAX_def)
    note fr = xi_alloc_fresh [OF al mem False] and lv = xi_alloc_live [OF mem al]
    show thesis
      using al managed new pos fits False fr lv mem ok
      by (intro success [of p "xi_free (array_block v) m1"])
        (auto simp: xi_vector_realloc_def elems_def vec_okD xi_alloc_mem_ok [OF al mem])
  qed
qed

text \<open>
  A fresh vector is empty, well formed and owns its two blocks; a failed creation gives
  back whatever it had allocated.
\<close>

lemma xi_vector_create_spec:
  fixes m :: xi_memory
  assumes mem: "mem_ok m"
  obtains (fail) m' where "xi_vector_create m = Some (None :: ('a::zero) xi_vector option, m')"
      "live_blocks m' = live_blocks m" "mem_ok m'"
  | (success) v m' where "xi_vector_create m = Some (Some (v :: 'a xi_vector), m')"
      "vec_ok v" "elems v = []" "capacity v = 2" "vec_owned v m'" "mem_ok m'"
      "live_blocks m' = insert (vec_block v) (insert (array_block v) (live_blocks m))"
      "vec_block v \<notin> live_blocks m" "array_block v \<notin> live_blocks m"
proof -
  obtain ret m1 where a1: "xi_alloc sizeof_xi_vector m = (ret, m1)" by fastforce
  show thesis
  proof (cases "ret = NULL")
    case True
    with a1 mem show thesis
      by (intro fail [of m1])
        (auto simp: xi_vector_create_def xi_alloc_live [OF mem] dest: xi_alloc_mem_ok)
  next
    case ret: False
    note mem1 = xi_alloc_mem_ok [OF a1 mem]
      and f1 = xi_alloc_fresh [OF a1 mem ret] and l1 = xi_alloc_live [OF mem a1]
    obtain p m2 where a2: "xi_alloc (size_t_of (2 * sizeof_xi_vector_elem)) m1 = (p, m2)"
      by fastforce
    note mem2 = xi_alloc_mem_ok [OF a2 mem1] and l2 = xi_alloc_live [OF mem1 a2]
    show thesis
    proof (cases "p = NULL")
      case True
      have "live_blocks (xi_free ret m2) = live_blocks m"
        using True ret l1 l2 f1 by auto
      moreover have "xi_vector_create m = Some (None :: 'a xi_vector option, xi_free ret m2)"
        using True ret a1 a2
        by (simp add: xi_vector_create_def xi_vector_realloc_def XI_VECTOR_DEFAULT_CAPACITY_def)
      ultimately show thesis using mem2 by (intro fail [of "xi_free ret m2"]) simp_all
    next
      case False
      note f2 = xi_alloc_fresh [OF a2 mem1 False]
      let ?v = "\<lparr>vec_block = ret, array_block = p, array = [0, 0], elem_no = 0, capacity = 2,
                memory_type = XI_MEMORY_TYPE_MANAGED\<rparr> :: 'a xi_vector"
      have "xi_vector_create m = Some (Some ?v, m2)"
        using ret False a1 a2
        by (simp add: xi_vector_create_def xi_vector_realloc_def XI_VECTOR_DEFAULT_CAPACITY_def
            eval_nat_numeral)
      moreover have "live_blocks m2 = insert ret (insert p (live_blocks m))"
        using ret False l1 l2 by auto
      moreover have "ret \<notin> live_blocks m" "p \<notin> live_blocks m" "ret \<noteq> p"
        using f1 f2 l1 ret by auto
      ultimately show thesis
        using mem2 by (intro success [of ?v m2]) (simp_all add: vec_ok_def elems_def vec_owned_def)
    qed
  qed
qed

text \<open>
  The next growth step is a doubling computed in \<open>int8_t\<close>: below 64 it is the exact
  double, from 64 on it wraps to a negative value and the allocation is refused.
\<close>

lemma int8_double:
  "0 < c \<Longrightarrow> c \<le> 127 \<Longrightarrow> int8 (c * 2) = (if c < 64 then c * 2 else c * 2 - 256)"
  by (simp add: int8_wrap)

lemma xi_vector_push_spec:
  assumes ok: "vec_ok v" and mem: "mem_ok m"
  obtains (fail) m' where "xi_vector_push v x m = Some (None, v, m')"
      "live_blocks m' = live_blocks m" "mem_ok m'" "elem_no v = capacity v"
  | (success) v' m' where "xi_vector_push v x m = Some (Some (elem_no v), v', m')"
      "vec_ok v'" "elems v' = elems v @ [x]" "elem_no v' = elem_no v + 1" "mem_ok m'"
      "vec_block v' = vec_block v" "memory_type v' = memory_type v"
      "array_block v' = array_block v \<and> live_blocks m' = live_blocks m
         \<and> capacity v' = capacity v \<and> array v' = (array v)[nat (elem_no v) := x] \<and> m' = m
       \<or> array_block v' \<notin> live_blocks m \<and> array_block v' \<noteq> NULL \<and> memory_type v = XI_MEMORY_TYPE_MANAGED
         \<and> live_blocks m' = insert (array_block v') (live_blocks m)
               - (if array_block v = NULL then {} else {array_block v})
         \<and> capacity v' = 2 * capacity v \<and> capacity v < 64 \<and> elem_no v = capacity v"
proof (cases "elem_no v + 1 > capacity v")
  case False
  let ?v = "v\<lparr>array := (array v)[nat (elem_no v) := x], elem_no := elem_no v + 1\<rparr>"
  have "xi_vector_push v x m = Some (Some (elem_no v), ?v, m)"
    using False vec_okD [OF ok] by (simp add: xi_vector_push_def)
  moreover have "elems ?v = elems v @ [x]"
    using False vec_okD [OF ok]
    by (simp add: elems_def nat_add_distrib take_list_update_last)
  ultimately show thesis
    using False ok mem by (intro success [of ?v m]) (auto simp: vec_ok_def)
next
  case True
  note okd = vec_okD [OF ok]
  have full: "elem_no v = capacity v" using True okd by simp
  have n: "int8 (capacity v * 2) \<noteq> 0" "int8 (capacity v * 2) \<noteq> capacity v"
    using okd by (auto simp: int8_double)
  from ok mem n int8_bounds show thesis
  proof (rule xi_vector_realloc_spec)
    show "0 \<le> int8 (capacity v * 2) \<Longrightarrow> elem_no v \<le> int8 (capacity v * 2)"
      using okd by (auto simp: int8_double split: if_splits)
  next
    fix m'
    assume "xi_vector_realloc v (int8 (capacity v * 2)) m = Some (0, v, m')"
      "live_blocks m' = live_blocks m" "mem_ok m'"
    then show thesis using True full by (intro fail [of m']) (simp_all add: xi_vector_push_def)
  next
    fix p m'
    let ?c = "int8 (capacity v * 2)"
    let ?w = "v\<lparr>array_block := p, array := elems v @ replicate (nat ?c - nat (elem_no v)) 0,
               capacity := ?c\<rparr>"
    assume r: "memory_type v = XI_MEMORY_TYPE_MANAGED" "0 < ?c" "p \<noteq> NULL" "p \<notin> live_blocks m"
      "xi_vector_realloc v ?c m = Some (1, ?w, m')"
      "live_blocks m' = insert p (live_blocks m) - (if array_block v = NULL then {} else {array_block v})"
      "mem_ok m'"
    have c: "?c = capacity v * 2" "capacity v < 64"
      using r(2) okd by (auto simp: int8_double split: if_splits)
    let ?v = "?w\<lparr>array := (array ?w)[nat (elem_no v) := x], elem_no := elem_no v + 1\<rparr>"
    have len: "nat (elem_no v) < length (array ?w)"
      using c okd full ok by simp
    have "arr_set (array ?w) (elem_no v) x = Some ((array ?w)[nat (elem_no v) := x])"
      using len okd by (simp add: arr_set_def nat_less_iff)
    then have "xi_vector_push v x m = Some (Some (elem_no v), ?v, m')"
      using True r(5) c okd full unfolding c(1) by (simp add: xi_vector_push_def)
    moreover have "elems ?v = elems v @ [x]"
    proof -
      have "take (Suc (nat (elem_no v))) ((array ?w)[nat (elem_no v) := x]) =
              take (nat (elem_no v)) (array ?w) @ [x]"
        using len by (rule take_list_update_last)
      also have "take (nat (elem_no v)) (array ?w) = elems v"
        using ok by simp
      finally show ?thesis using okd by (simp add: elems_def nat_add_distrib)
    qed
    moreover have "vec_ok ?v"
      using c okd full ok by (simp add: vec_ok_def)
    ultimately show thesis
      using r c full by (intro success [of ?v m']) simp_all
  qed
qed

text \<open>Addresses only grow: a new array block lies above every address handed out before.\<close>

lemma xi_vector_push_next:
  assumes "xi_vector_push v x m = Some (r, v', m')"
  shows "next_block m \<le> next_block m'"
    "array_block v' = array_block v \<or> next_block m \<le> array_block v'"
  using assms
  by (auto simp: xi_vector_push_def xi_vector_realloc_def xi_alloc_def Let_def
      split: if_splits option.splits bind_splits)

text \<open>A vector whose capacity reached 64 refuses every further element, whatever the allocator does.\<close>

lemma xi_vector_push_full:
  assumes ok: "vec_ok v" and mem: "mem_ok m" and full: "elem_no v = capacity v" "64 \<le> capacity v"
  shows "\<exists>m'. xi_vector_push v x m = Some (None, v, m') \<and> live_blocks m' = live_blocks m"
  using ok mem
proof (rule xi_vector_push_spec)
  fix v' m'
  assume "vec_ok v'" "elem_no v' = elem_no v + 1"
    and cap: "array_block v' = array_block v \<and> live_blocks m' = live_blocks m
         \<and> capacity v' = capacity v \<and> array v' = (array v)[nat (elem_no v) := x] \<and> m' = m
       \<or> array_block v' \<notin> live_blocks m \<and> array_block v' \<noteq> NULL \<and> memory_type v = XI_MEMORY_TYPE_MANAGED
         \<and> live_blocks m' = insert (array_block v') (live_blocks m)
               - (if array_block v = NULL then {} else {array_block v})
         \<and> capacity v' = 2 * capacity v \<and> capacity v < 64 \<and> elem_no v = capacity v"
  then have False using full vec_okD(2) [OF \<open>vec_ok v'\<close>] by auto
  then show ?thesis ..
qed auto

section \<open>Exchange, removal and search\<close>

lemma xi_vector_swap_elems_spec:
  assumes ok: "vec_ok v" and i: "0 \<le> i" "i < elem_no v" and j: "0 \<le> j" "j < elem_no v"
  shows "xi_vector_swap_elems v i j =
    Some (v\<lparr>array := (array v)[nat i := array v ! nat j, nat j := array v ! nat i]\<rparr>)"
  using i j vec_okD [OF ok] by (simp add: xi_vector_swap_elems_def)

lemma vec_ok_array_update [simp]:
  "length xs = length (array v) \<Longrightarrow> vec_ok (v\<lparr>array := xs\<rparr>) = vec_ok v"
  by (simp add: vec_ok_def)

lemma elems_swap:
  assumes "vec_ok v" "0 \<le> i" "i < elem_no v" "0 \<le> j" "j < elem_no v"
  shows "elems (v\<lparr>array := (array v)[nat i := array v ! nat j, nat j := array v ! nat i]\<rparr>) =
    (elems v)[nat i := elems v ! nat j, nat j := elems v ! nat i]"
  using assms by (simp add: elems_def take_update_swap)

text \<open>
  Deletion moves the last element into the hole; the vector stays well formed, and as a
  multiset it loses exactly the element at \<open>index\<close>.
\<close>

lemma xi_vector_del_spec:
  fixes v :: "('a::zero) xi_vector"
  assumes ok: "vec_ok v" and i: "0 \<le> i" "i < elem_no v"
  obtains v' where "xi_vector_del v i = Some v'" "vec_ok v'"
    "elems v' = butlast ((elems v)[nat i := last (elems v)])"
    "elem_no v' = elem_no v - 1" "capacity v' = capacity v" "vec_block v' = vec_block v"
    "array_block v' = array_block v" "memory_type v' = memory_type v"
proof -
  note okd = vec_okD [OF ok]
  let ?n = "elem_no v - 1"
  have len: "length (elems v) = nat (elem_no v)" using ok by simp
  then have ne: "elems v \<noteq> []" using i by auto
  have last: "last (elems v) = array v ! nat ?n"
    using ne len i okd by (simp add: last_conv_nth elems_def nat_diff_distrib)
  let ?a = "if i \<noteq> ?n then (array v)[nat i := array v ! nat ?n, nat ?n := array v ! nat i] else array v"
  let ?w = "v\<lparr>array := ?a[nat ?n := 0], elem_no := ?n\<rparr>"
  have "xi_vector_del v i = Some ?w"
    using i okd xi_vector_swap_elems_spec [OF ok, of i ?n] by (auto simp: xi_vector_del_def Let_def)
  moreover have "vec_ok ?w" using ok i by (simp add: vec_ok_def)
  moreover have "elems ?w = butlast ((elems v)[nat i := last (elems v)])"
  proof (rule nth_equalityI)
    show "length (elems ?w) = length (butlast ((elems v)[nat i := last (elems v)]))"
      using i okd len by (simp add: elems_def nat_diff_distrib)
  next
    fix k
    assume "k < length (elems ?w)"
    then have k: "k < nat ?n" by (simp add: elems_def)
    then have "butlast ((elems v)[nat i := last (elems v)]) ! k = (elems v)[nat i := last (elems v)] ! k"
      using len by (intro nth_butlast) (simp add: nat_diff_distrib)
    with k i okd last show "elems ?w ! k = butlast ((elems v)[nat i := last (elems v)]) ! k"
      by (auto simp: elems_def nth_list_update)
  qed
  ultimately show thesis using that [of ?w] by simp
qed

lemma mset_butlast_update:
  assumes "k < length xs"
  shows "mset (butlast (xs[k := last xs])) = mset xs - {#xs ! k#}"
proof (cases xs rule: rev_cases)
  case (snoc ys y)
  show ?thesis
  proof (cases "k = length ys")
    case False
    with snoc assms have "k < length ys" by simp
    with snoc show ?thesis by (simp add: list_update_append nth_append mset_update)
  qed (use snoc in \<open>simp add: nth_append\<close>)
qed (use assms in simp)

lemma xi_vector_del_mset:
  assumes "vec_ok v" "0 \<le> i" "i < elem_no v" "xi_vector_del v i = Some v'"
  shows "vec_ok v' \<and> mset (elems v') = mset (elems v) - {#elems v ! nat i#}"
proof -
  from assms(1-3) obtain w where "xi_vector_del v i = Some w" "vec_ok w"
    "elems w = butlast ((elems v)[nat i := last (elems v)])"
    by (rule xi_vector_del_spec)
  with assms show ?thesis by (simp add: mset_butlast_update)
qed

text \<open>The search returns the least matching index, or \<open>-1\<close> when there is none.\<close>

lemma xi_vector_find_from_spec:
  assumes ok: "vec_ok v" and i: "0 \<le> i"
    and cmp: "\<And>x. x \<in> set (elems v) \<Longrightarrow> f x y = Some (c x)"
  shows "\<exists>r. xi_vector_find_from v y f i = Some r \<and>
    (r = -1 \<and> (\<forall>k. i \<le> k \<longrightarrow> k < elem_no v \<longrightarrow> c (elems v ! nat k) \<noteq> 0)
     \<or> i \<le> r \<and> r < elem_no v \<and> c (elems v ! nat r) = 0
       \<and> (\<forall>k. i \<le> k \<longrightarrow> k < r \<longrightarrow> c (elems v ! nat k) \<noteq> 0))"
  using i
proof (induction "nat (elem_no v - i)" arbitrary: i rule: less_induct)
  case less
  show ?case
  proof (cases "i < elem_no v")
    case False
    then show ?thesis by (subst xi_vector_find_from.simps) auto
  next
    case True
    have get: "arr_get (array v) i = Some (elems v ! nat i)"
      using ok less.prems True by (rule vec_get_in)
    have "elems v ! nat i \<in> set (elems v)"
      using ok less.prems True by simp
    note step = cmp [OF this]
    show ?thesis
    proof (cases "c (elems v ! nat i) = 0")
      case zero: True
      then have "xi_vector_find_from v y f i = Some i"
        using True get step by (subst xi_vector_find_from.simps) simp
      with zero True show ?thesis by (intro exI [of _ i]) auto
    next
      case nz: False
      have eq: "xi_vector_find_from v y f i = xi_vector_find_from v y f (i + 1)"
        using True get step nz by (subst xi_vector_find_from.simps) simp
      obtain r where r: "xi_vector_find_from v y f (i + 1) = Some r"
        "r = -1 \<and> (\<forall>k. i + 1 \<le> k \<longrightarrow> k < elem_no v \<longrightarrow> c (elems v ! nat k) \<noteq> 0)
         \<or> i + 1 \<le> r \<and> r < elem_no v \<and> c (elems v ! nat r) = 0
           \<and> (\<forall>k. i + 1 \<le> k \<longrightarrow> k < r \<longrightarrow> c (elems v ! nat k) \<noteq> 0)"
        using less.hyps [of "i + 1"] less.prems True by auto
      with eq nz show ?thesis by (intro exI [of _ r]) (auto simp: int_all_from [of i])
    qed
  qed
qed

lemma xi_vector_find_spec:
  assumes ok: "vec_ok v" and cmp: "\<And>x. x \<in> set (elems v) \<Longrightarrow> f x y = Some (c x)"
  obtains (absent) "xi_vector_find v y f = Some (-1)" "\<forall>x \<in> set (elems v). c x \<noteq> 0"
  | (found) r where "xi_vector_find v y f = Some r" "0 \<le> r" "r < elem_no v"
      "c (elems v ! nat r) = 0" "\<forall>k < nat r. c (elems v ! k) \<noteq> 0"
proof -
  obtain r where r: "xi_vector_find v y f = Some r"
    and "r = -1 \<and> (\<forall>k. 0 \<le> k \<longrightarrow> k < elem_no v \<longrightarrow> c (elems v ! nat k) \<noteq> 0)
       \<or> 0 \<le> r \<and> r < elem_no v \<and> c (elems v ! nat r) = 0
         \<and> (\<forall>k. 0 \<le> k \<longrightarrow> k < r \<longrightarrow> c (elems v ! nat k) \<noteq> 0)" (is "?A \<or> ?B")
    using xi_vector_find_from_spec [OF ok, of 0 f y c] cmp unfolding xi_vector_find_def by auto
  then consider ?A | ?B by blast
  then show thesis
  proof cases
    case 1
    have "\<forall>x \<in> set (elems v). c x \<noteq> 0"
    proof
      fix x assume "x \<in> set (elems v)"
      then obtain k where "k < length (elems v)" "x = elems v ! k" by (auto simp: in_set_conv_nth)
      with 1 ok show "c x \<noteq> 0" by (auto dest: spec [of _ "int k"])
    qed
    with 1 r show thesis by (intro absent) simp_all
  next
    case 2
    then have "\<forall>k < nat r. c (elems v ! k) \<noteq> 0" by (metis nat_int of_nat_0_le_iff zless_nat_eq_int_zless)
    with 2 r show thesis by (intro found) simp_all
  qed
qed

lemma xi_vector_get_spec:
  "vec_ok v \<Longrightarrow> xi_vector_get v i = Some (if 0 \<le> i \<and> i < elem_no v then elems v ! nat i else 0)"
  by (auto simp: xi_vector_get_def vec_get_in)

text \<open>
  \<open>xi_vector_remove_if\<close> walks down while deletion moves the last element into the hole it
  leaves; everything above the cursor has been examined already, so exactly the elements
  the predicate rejects remain.
\<close>

lemma xi_vector_remove_if_from_spec:
  fixes v :: "('a::zero) xi_vector"
  assumes "vec_ok v" "-1 \<le> i" "i < elem_no v" "\<forall>k. i < int k \<longrightarrow> k < length (elems v) \<longrightarrow> p (elems v ! k) \<noteq> 1"
  shows "\<exists>v'. xi_vector_remove_if_from v p i = Some v' \<and> vec_ok v' \<and>
    mset (elems v') = filter_mset (\<lambda>x. p x \<noteq> 1) (mset (elems v))"
  using assms
proof (induction "nat (i + 1)" arbitrary: i v rule: less_induct)
  case less
  note ok = less.prems(1)
  show ?case
  proof (cases "0 \<le> i")
    case False
    then have "i = -1" using less.prems by simp
    then have "\<forall>x \<in> set (elems v). p x \<noteq> 1"
      using less.prems(4) by (auto simp: in_set_conv_nth)
    then have "filter_mset (\<lambda>x. p x \<noteq> 1) (mset (elems v)) = mset (elems v)"
      by (auto simp: filter_mset_eq_conv)
    with False ok show ?thesis by (subst xi_vector_remove_if_from.simps) auto
  next
    case True
    note get = vec_get_in [OF ok True less.prems(3)]
    have len: "length (elems v) = nat (elem_no v)" using ok by simp
    show ?thesis
    proof (cases "p (elems v ! nat i) = 1")
      case hit: True
      from ok True less.prems(3) obtain w where w: "xi_vector_del v i = Some w" "vec_ok w"
        "elems w = butlast ((elems v)[nat i := last (elems v)])" "elem_no w = elem_no v - 1"
        by (rule xi_vector_del_spec)
      have ne: "elems v \<noteq> []" using len True less.prems(3) by auto
      have above: "p (elems w ! k) \<noteq> 1" if k: "i - 1 < int k" "k < length (elems w)" for k
      proof -
        have "elems w ! k = (elems v)[nat i := last (elems v)] ! k"
          using k(2) w(3) by (simp add: nth_butlast)
        moreover have "i < elem_no v - 1" using k w ok by auto
        ultimately show ?thesis
          using k w len less.prems(4) True
          by (cases "k = nat i") (auto simp: last_conv_nth [OF ne] nth_list_update)
      qed
      obtain v' where v': "xi_vector_remove_if_from w p (i - 1) = Some v'" "vec_ok v'"
        "mset (elems v') = filter_mset (\<lambda>x. p x \<noteq> 1) (mset (elems w))"
        using less.hyps [of "i - 1" w] w less.prems True above by auto
      have "mset (elems w) = mset (elems v) - {#elems v ! nat i#}"
        using w(3) len less.prems(3) True by (simp add: mset_butlast_update)
      then have "filter_mset (\<lambda>x. p x \<noteq> 1) (mset (elems w)) = filter_mset (\<lambda>x. p x \<noteq> 1) (mset (elems v))"
        using hit by simp
      with v' w(1) hit True get show ?thesis
        by (subst xi_vector_remove_if_from.simps) simp
    next
      case miss: False
      have "p (elems v ! k) \<noteq> 1" if "i - 1 < int k" "k < length (elems v)" for k
        using that miss less.prems(4) by (cases "int k = i") auto
      then obtain v' where "xi_vector_remove_if_from v p (i - 1) = Some v'" "vec_ok v'"
        "mset (elems v') = filter_mset (\<lambda>x. p x \<noteq> 1) (mset (elems v))"
        using less.hyps [of "i - 1" v] ok less.prems True by auto
      with miss True get show ?thesis by (subst xi_vector_remove_if_from.simps) simp
    qed
  qed
qed

text \<open>A traversal visits the represented sequence from \<open>offset\<close> on, left to right.\<close>

lemma xi_vector_for_each_from:
  assumes v: "vec_ok v"
  shows "i = elem_no v - int n \<Longrightarrow> 0 \<le> i \<Longrightarrow>
    xi_vector_for_each_loop v f i s = fold_option f (drop (nat i) (elems v)) s"
proof (induction n arbitrary: i s)
  case 0
  then show ?case using v by (subst xi_vector_for_each_loop.simps) simp
next
  case (Suc n)
  have i: "0 \<le> i" "i < elem_no v" using Suc.prems by simp_all
  have "drop (nat i) (elems v) = elems v ! nat i # drop (nat (i + 1)) (elems v)"
    using i v by (simp add: Cons_nth_drop_Suc nat_add_distrib)
  moreover have "xi_vector_for_each_loop v f (i + 1) = fold_option f (drop (nat (i + 1)) (elems v))"
    using Suc.IH [of "i + 1"] Suc.prems i by (intro ext) simp
  ultimately show ?case
    using vec_get_in [OF v i] i by (subst xi_vector_for_each_loop.simps) simp
qed

lemma xi_vector_for_each_spec:
  "vec_ok v \<Longrightarrow> xi_vector_for_each v f 0 s = fold_option f (elems v) s"
  using xi_vector_for_each_from [of v 0 "nat (elem_no v)" f s] by (simp add: xi_vector_for_each_def vec_okD)

section \<open>Properties\<close>

text \<open>A full vector of two elements, for the witnesses.\<close>

definition vector_example :: "nat xi_vector" where
  "vector_example = \<lparr>vec_block = 1, array_block = 2, array = [7, 8], elem_no = 2, capacity = 2,
     memory_type = XI_MEMORY_TYPE_MANAGED\<rparr>"

definition vector_memory_example :: "bool list \<Rightarrow> xi_memory" where
  "vector_memory_example script = \<lparr>alloc_script = script, next_block = 3, live_blocks = {1, 2}\<rparr>"

lemma vector_example_ok: "vec_ok vector_example" "mem_ok (vector_memory_example script)"
  "elems vector_example = [7, 8]"
  by (simp_all add: vec_ok_def mem_ok_def vector_example_def vector_memory_example_def elems_def)

text \<open>
  Pushing appends exactly the new element, keeps the vector well formed and reports the
  slot it was stored in; when the vector has to grow and cannot, it reports \<open>NULL\<close> and the
  vector and the set of live blocks are unchanged.
\<close>

lemma vector_push_correct:
  assumes "vec_ok v" "mem_ok m"
  shows "\<exists>r v' m'. xi_vector_push v x m = Some (r, v', m') \<and> vec_ok v' \<and> mem_ok m'
    \<and> (r = Some (elem_no v) \<and> elems v' = elems v @ [x]
       \<or> r = None \<and> v' = v \<and> live_blocks m' = live_blocks m \<and> elem_no v = capacity v)"
  using assms by (rule xi_vector_push_spec [where x = x]) (use assms in blast)+

text \<open>
  The \<open>int8_t\<close> counters limit every vector to 64 elements: a full vector whose capacity
  reached 64 refuses the next element even when memory is available, because the doubled
  capacity wraps to a negative number.
\<close>

lemma vector_push_limit:
  assumes "vec_ok v" "mem_ok m" "elem_no v = capacity v" "64 \<le> capacity v"
  shows "\<exists>m'. xi_vector_push v x m = Some (None, v, m') \<and> live_blocks m' = live_blocks m"
  by (rule xi_vector_push_full [OF assms])

text \<open>
  Conditional removal keeps exactly the elements (with multiplicity) for which the
  predicate does not answer 1.
\<close>

lemma vector_remove_if_correct:
  fixes v :: "('a::zero) xi_vector"
  assumes "vec_ok v"
  shows "\<exists>v'. xi_vector_remove_if v p = Some v' \<and> vec_ok v'
    \<and> mset (elems v') = filter_mset (\<lambda>x. p x \<noteq> 1) (mset (elems v))"
  unfolding xi_vector_remove_if_def
  by (rule xi_vector_remove_if_from_spec) (use assms vec_okD [OF assms] in auto)

text \<open>
  Shrinking with \<open>xi_vector_reserve\<close> drops the elements beyond the new capacity before it
  asks for memory: when that allocation fails, the call reports failure and the elements are
  lost all the same.
\<close>

lemma vector_reserve_failure_loses_elements:
  fixes v :: "('a::zero) xi_vector"
  assumes "vec_ok v" "0 < n" "n < elem_no v" "memory_type v = XI_MEMORY_TYPE_MANAGED"
    "alloc_script m = False # script"
  shows "\<exists>v' m'. xi_vector_reserve v n m = Some (0, v', m') \<and> elems v' = take (nat n) (elems v)
    \<and> capacity v' = capacity v"
proof -
  have n: "size_t_of (n * sizeof_xi_vector_elem) \<le> PTRDIFF_MAX" "n < capacity v"
    using assms(1-3) vec_okD [OF assms(1)]
    by (simp_all add: sizeof_xi_vector_elem_def PTRDIFF_MAX_def)
  then show ?thesis
    using assms vec_okD [OF assms(1)]
    by (simp add: xi_vector_reserve_def xi_vector_realloc_def xi_alloc_def elems_def min_def not_less)
qed

end
