(* ===== verification/Xi_Time_Event.thy ===== *)
theory Xi_Time_Event
  imports Xi_Vector
begin

text \<open>
  \<open>src/libxively/event_dispatcher/xi_time_event.c\<close>: the container of time events, a vector of
  pointers kept sorted by execution time, in which every event knows its own index
  (\<open>position\<close>) and every handle a user holds points at that index.

  The store is explicit because the code relies on aliasing: the vector holds addresses of
  events, \<open>tevs\<close> is the events' memory, and \<open>handles h\<close> is the content of the
  handle cell at address \<open>h\<close>: the event whose \<open>position\<close> field \<open>ptr_to_position\<close>
  points at, or \<open>NULL\<close>. An access to an event that is not a live block is \<open>None\<close>.
\<close>

section \<open>State\<close>

record 'h xi_time_event =
  event_handle :: 'h
  time_of_execution :: int
  position :: int
  time_event_handle :: addr

record 'h time_events =
  tv :: "addr xi_vector"
  tevs :: "addr \<Rightarrow> 'h xi_time_event"
  handles :: "addr \<Rightarrow> addr"
  tmem :: xi_memory

definition XI_TIME_EVENT_POSITION_INVALID :: int where
  "XI_TIME_EVENT_POSITION_INVALID = -1"

definition deref_event :: "('h, 'z) time_events_scheme \<Rightarrow> addr \<Rightarrow> 'h xi_time_event option" where
  "deref_event s p = (if p \<noteq> NULL \<and> p \<in> live_blocks (tmem s) then Some (tevs s p) else None)"

definition update_event ::
    "addr \<Rightarrow> ('h xi_time_event \<Rightarrow> 'h xi_time_event) \<Rightarrow> ('h, 'z) time_events_scheme
       \<Rightarrow> ('h, 'z) time_events_scheme option" where
  "update_event p f s =
     (if p \<noteq> NULL \<and> p \<in> live_blocks (tmem s)
      then Some (s\<lparr>tevs := (tevs s)(p := f (tevs s p))\<rparr>) else None)"

section \<open>Internal functions\<close>

definition xi_swap_time_events ::
    "('h, 'z) time_events_scheme \<Rightarrow> int \<Rightarrow> int \<Rightarrow> ('h, 'z) time_events_scheme option" where
  "xi_swap_time_events s lhs_index rhs_index = do {
     xi_assert (lhs_index < elem_no (tv s) \<and> rhs_index < elem_no (tv s)
                \<and> lhs_index \<ge> 0 \<and> rhs_index \<ge> 0);
     lhs_time_event \<leftarrow> arr_get (array (tv s)) lhs_index;
     rhs_time_event \<leftarrow> arr_get (array (tv s)) rhs_index;
     v \<leftarrow> xi_vector_swap_elems (tv s) lhs_index rhs_index;
     s1 \<leftarrow> update_event lhs_time_event (\<lambda>e. e\<lparr>position := rhs_index\<rparr>) (s\<lparr>tv := v\<rparr>);
     update_event rhs_time_event (\<lambda>e. e\<lparr>position := lhs_index\<rparr>) s1 }"

text \<open>
  The loop of the bubbling function. \<open>idx\<close> is the C pointer \<open>elem_to_bubble\<close> as an
  index; the second assertion says that it still points between \<open>begin\<close> and \<open>end\<close>,
  which the code needs for every access it makes.
\<close>

function xi_time_event_bubble_loop ::
    "('h, 'z) time_events_scheme \<Rightarrow> int \<Rightarrow> int \<Rightarrow> int \<Rightarrow> (int \<times> ('h, 'z) time_events_scheme) option"
where
  "xi_time_event_bubble_loop s idx dir end = do {
     xi_assert (dir = -1 \<or> dir = 1);
     xi_assert (0 \<le> idx \<and> idx \<le> end);
     if (if dir < 0 then idx \<noteq> 0 else idx \<noteq> end)
     then do {
       to_cmp \<leftarrow> arr_get (array (tv s)) (idx + dir);
       to_bubble \<leftarrow> arr_get (array (tv s)) idx;
       time_event_to_cmp \<leftarrow> deref_event s to_cmp;
       time_event_to_bubble \<leftarrow> deref_event s to_bubble;
       if (if dir < 0
           then time_of_execution time_event_to_bubble < time_of_execution time_event_to_cmp
           else time_of_execution time_event_to_bubble > time_of_execution time_event_to_cmp)
       then do {
         s1 \<leftarrow> xi_swap_time_events s (position time_event_to_cmp) (position time_event_to_bubble);
         xi_time_event_bubble_loop s1 (idx + dir) dir end }
       else Some (idx, s) }
     else Some (idx, s) }"
  by pat_completeness auto
termination
  by (relation "measure (\<lambda>(s, idx, dir, end). nat (if dir < 0 then idx else end - idx))")
    (auto split: if_splits)

declare xi_time_event_bubble_loop.simps [simp del]

definition xi_time_event_bubble_core ::
    "('h, 'z) time_events_scheme \<Rightarrow> int \<Rightarrow> int \<Rightarrow> (int \<times> ('h, 'z) time_events_scheme) option" where
  "xi_time_event_bubble_core s index dir = do {
     xi_assert (elem_no (tv s) > 0 \<and> index \<ge> 0 \<and> index < elem_no (tv s));
     xi_assert (dir = -1 \<or> dir = 1);
     (idx, s1) \<leftarrow> xi_time_event_bubble_loop s index dir (max (elem_no (tv s) - 1) 0);
     bubbled \<leftarrow> arr_get (array (tv s1)) idx;
     e \<leftarrow> deref_event s1 bubbled;
     Some (position e, s1) }"

definition xi_time_event_bubble_and_sort_down ::
    "('h, 'z) time_events_scheme \<Rightarrow> int \<Rightarrow> (int \<times> ('h, 'z) time_events_scheme) option" where
  "xi_time_event_bubble_and_sort_down s index = do {
     xi_assert (index \<ge> 0 \<and> index < elem_no (tv s));
     xi_time_event_bubble_core s index (-1) }"

definition xi_time_event_bubble_and_sort_up ::
    "('h, 'z) time_events_scheme \<Rightarrow> int \<Rightarrow> (int \<times> ('h, 'z) time_events_scheme) option" where
  "xi_time_event_bubble_and_sort_up s index = do {
     xi_assert (index \<ge> 0 \<and> index < elem_no (tv s));
     xi_time_event_bubble_core s index 1 }"

function xi_time_event_move_loop ::
    "('h, 'z) time_events_scheme \<Rightarrow> int \<Rightarrow> int \<Rightarrow> ('h, 'z) time_events_scheme option" where
  "xi_time_event_move_loop s index last_elem_index =
     (if index < last_elem_index then do {
        s1 \<leftarrow> xi_swap_time_events s index (index + 1);
        xi_time_event_move_loop s1 (index + 1) last_elem_index }
      else Some s)"
  by pat_completeness auto
termination
  by (relation "measure (\<lambda>(s, i, n). nat (n - i))") auto

declare xi_time_event_move_loop.simps [simp del]

definition xi_time_event_move_to_the_end ::
    "('h, 'z) time_events_scheme \<Rightarrow> int \<Rightarrow> ('h, 'z) time_events_scheme option" where
  "xi_time_event_move_to_the_end s index = do {
     xi_assert (elem_no (tv s) > 0 \<and> index < elem_no (tv s) \<and> index \<ge> 0);
     xi_time_event_move_loop s index (elem_no (tv s) - 1) }"

text \<open>\<open>Some i\<close> stands for the returned \<open>&vector->array[i]\<close>, \<open>None\<close> for \<open>NULL\<close>.\<close>

definition xi_insert_time_event ::
    "('h, 'z) time_events_scheme \<Rightarrow> addr \<Rightarrow> (int option \<times> ('h, 'z) time_events_scheme) option" where
  "xi_insert_time_event s time_event = do {
     xi_assert (time_event \<noteq> NULL);
     (inserted_element, v, m) \<leftarrow> xi_vector_push (tv s) time_event (tmem s);
     if inserted_element = None then Some (None, s\<lparr>tv := v, tmem := m\<rparr>)
     else do {
       s1 \<leftarrow> update_event time_event (\<lambda>e. e\<lparr>position := elem_no v - 1\<rparr>) (s\<lparr>tv := v, tmem := m\<rparr>);
       (index, s2) \<leftarrow> xi_time_event_bubble_and_sort_down s1 (elem_no (tv s1) - 1);
       Some (Some index, s2) } }"

definition xi_time_event_dispose_time_event ::
    "('h, 'z) time_events_scheme \<Rightarrow> addr \<Rightarrow> ('h, 'z) time_events_scheme option" where
  "xi_time_event_dispose_time_event s time_event = do {
     e \<leftarrow> deref_event s time_event;
     if time_event_handle e \<noteq> NULL
     then Some (s\<lparr>handles := (handles s)(time_event_handle e := NULL)\<rparr>)
     else Some s }"

definition xi_time_event_destructor ::
    "addr \<Rightarrow> ('h, 'z) time_events_scheme \<Rightarrow> ('h, 'z) time_events_scheme option" where
  "xi_time_event_destructor time_event s = do {
     s1 \<leftarrow> update_event time_event (\<lambda>e. e\<lparr>position := XI_TIME_EVENT_POSITION_INVALID\<rparr>) s;
     Some (s1\<lparr>tmem := xi_free time_event (tmem s1)\<rparr>) }"

section \<open>Public functions\<close>

text \<open>\<open>ret_handle\<close> is the address of the caller's handle cell, or \<open>NULL\<close>.\<close>

definition xi_time_event_add ::
    "('h, 'z) time_events_scheme \<Rightarrow> addr \<Rightarrow> addr \<Rightarrow> (xi_state \<times> ('h, 'z) time_events_scheme) option"
where
  "xi_time_event_add s time_event ret_handle = do {
     xi_assert (time_event \<noteq> NULL);
     xi_assert (ret_handle \<noteq> NULL \<and> handles s ret_handle = NULL \<or> ret_handle = NULL);
     (elem, s1) \<leftarrow> xi_insert_time_event s time_event;
     (case elem of
        None \<Rightarrow> Some (XI_OUT_OF_MEMORY, s1)
      | Some i \<Rightarrow> do {
          added_time_event \<leftarrow> arr_get (array (tv s1)) i;
          xi_assert (added_time_event = time_event);
          if ret_handle \<noteq> NULL
          then do {
            s2 \<leftarrow> update_event added_time_event (\<lambda>e. e\<lparr>time_event_handle := ret_handle\<rparr>)
                    (s1\<lparr>handles := (handles s1)(ret_handle := added_time_event)\<rparr>);
            Some (XI_STATE_OK, s2) }
          else Some (XI_STATE_OK, s1) }) }"

definition xi_time_event_get_top ::
    "('h, 'z) time_events_scheme \<Rightarrow> (addr \<times> ('h, 'z) time_events_scheme) option" where
  "xi_time_event_get_top s =
     (if elem_no (tv s) = 0 then Some (NULL, s)
      else do {
        top_one \<leftarrow> arr_get (array (tv s)) 0;
        s1 \<leftarrow> (if elem_no (tv s) > 1 then xi_time_event_move_to_the_end s 0 else Some s);
        v \<leftarrow> xi_vector_del (tv s1) (elem_no (tv s1) - 1);
        s2 \<leftarrow> xi_time_event_dispose_time_event (s1\<lparr>tv := v\<rparr>) top_one;
        Some (top_one, s2) })"

definition xi_time_event_peek_top :: "('h, 'z) time_events_scheme \<Rightarrow> addr option" where
  "xi_time_event_peek_top s =
     (if elem_no (tv s) = 0 then Some NULL else arr_get (array (tv s)) 0)"

text \<open>\<open>*time_event_handle->ptr_to_position\<close>.\<close>

definition handle_position :: "('h, 'z) time_events_scheme \<Rightarrow> addr \<Rightarrow> int option" where
  "handle_position s h = map_option position (deref_event s (handles s h))"

definition xi_time_event_restart ::
    "('h, 'z) time_events_scheme \<Rightarrow> addr \<Rightarrow> int \<Rightarrow> (xi_state \<times> ('h, 'z) time_events_scheme) option"
where
  "xi_time_event_restart s time_event_handle_ptr new_time = do {
     xi_assert (time_event_handle_ptr \<noteq> NULL);
     index \<leftarrow> handle_position s time_event_handle_ptr;
     if index \<ge> elem_no (tv s) \<or> index < 0 then Some (XI_ELEMENT_NOT_FOUND, s)
     else do {
       time_event \<leftarrow> arr_get (array (tv s)) index;
       e \<leftarrow> deref_event s time_event;
       xi_assert (time_event_handle e = time_event_handle_ptr);
       let old_time = time_of_execution e;
       s1 \<leftarrow> update_event time_event (\<lambda>e. e\<lparr>time_of_execution := new_time\<rparr>) s;
       (_, s2) \<leftarrow> (if new_time < old_time then xi_time_event_bubble_and_sort_down s1 index
                  else xi_time_event_bubble_and_sort_up s1 index);
       Some (XI_STATE_OK, s2) } }"

text \<open>The returned address is the value written to \<open>*cancelled_time_event\<close>, if one is.\<close>

definition xi_time_event_cancel ::
    "('h, 'z) time_events_scheme \<Rightarrow> addr
       \<Rightarrow> (xi_state \<times> addr option \<times> ('h, 'z) time_events_scheme) option" where
  "xi_time_event_cancel s time_event_handle_ptr = do {
     xi_assert (time_event_handle_ptr \<noteq> NULL);
     xi_assert (handles s time_event_handle_ptr \<noteq> NULL);
     index \<leftarrow> handle_position s time_event_handle_ptr;
     if index \<ge> elem_no (tv s) \<or> index < 0 then Some (XI_ELEMENT_NOT_FOUND, None, s)
     else do {
       s1 \<leftarrow> (if index < elem_no (tv s) - 1 then xi_time_event_move_to_the_end s index
             else Some s);
       cancelled \<leftarrow> arr_get (array (tv s1)) (elem_no (tv s1) - 1);
       v \<leftarrow> xi_vector_del (tv s1) (elem_no (tv s1) - 1);
       s2 \<leftarrow> xi_time_event_dispose_time_event (s1\<lparr>tv := v\<rparr>) cancelled;
       Some (XI_STATE_OK, Some cancelled, s2) } }"

definition xi_time_event_destroy ::
    "('h, 'z) time_events_scheme \<Rightarrow> ('h, 'z) time_events_scheme option" where
  "xi_time_event_destroy s = xi_vector_for_each (tv s) xi_time_event_destructor 0 s"

section \<open>Invariant\<close>

definition event_key :: "('h, 'z) time_events_scheme \<Rightarrow> addr \<Rightarrow> int" where
  "event_key s p = time_of_execution (tevs s p)"

abbreviation queue :: "('h, 'z) time_events_scheme \<Rightarrow> addr list" where
  "queue s \<equiv> elems (tv s)"

text \<open>
  The structural part: the vector is well formed and owns its blocks, the queued events are
  distinct live blocks, every event knows its index, and the handle cells and the queued
  events agree: a handle that is not \<open>NULL\<close> belongs to a queued event that points back.
\<close>

definition queue_live :: "('h, 'z) time_events_scheme \<Rightarrow> bool" where
  "queue_live s \<longleftrightarrow> distinct (queue s) \<and>
     (\<forall>p \<in> set (queue s). p \<noteq> NULL \<and> p \<in> live_blocks (tmem s)
        \<and> p \<noteq> vec_block (tv s) \<and> p \<noteq> array_block (tv s))"

definition queue_positions :: "('h, 'z) time_events_scheme \<Rightarrow> bool" where
  "queue_positions s \<longleftrightarrow> (\<forall>i < length (queue s). position (tevs s (queue s ! i)) = int i)"

definition queue_handles :: "('h, 'z) time_events_scheme \<Rightarrow> bool" where
  "queue_handles s \<longleftrightarrow>
     (\<forall>p \<in> set (queue s). time_event_handle (tevs s p) \<noteq> NULL
        \<longrightarrow> handles s (time_event_handle (tevs s p)) = p) \<and>
     (\<forall>h. handles s h \<noteq> NULL \<longrightarrow> h \<noteq> NULL \<and> handles s h \<in> set (queue s)
        \<and> time_event_handle (tevs s (handles s h)) = h)"

definition tev_struct :: "('h, 'z) time_events_scheme \<Rightarrow> bool" where
  "tev_struct s \<longleftrightarrow> vec_ok (tv s) \<and> vec_owned (tv s) (tmem s) \<and> mem_ok (tmem s)
     \<and> queue_live s \<and> queue_positions s \<and> queue_handles s"

definition tev_ok :: "('h, 'z) time_events_scheme \<Rightarrow> bool" where
  "tev_ok s \<longleftrightarrow> tev_struct s \<and> sorted (map (event_key s) (queue s))"

text \<open>
  \<open>reordered s t\<close>: \<open>t\<close> differs from \<open>s\<close> in the order of the vector and the events'
  \<open>position\<close> fields only.
\<close>

definition reordered ::
    "('h, 'z) time_events_scheme \<Rightarrow> ('h, 'z) time_events_scheme \<Rightarrow> bool" where
  "reordered s t \<longleftrightarrow> (\<exists>xs e. t = s\<lparr>tv := (tv s)\<lparr>array := xs\<rparr>, tevs := e\<rparr>
     \<and> length xs = length (array (tv s))
     \<and> mset (elems ((tv s)\<lparr>array := xs\<rparr>)) = mset (elems (tv s))
     \<and> (\<forall>p. (e p)\<lparr>position := 0\<rparr> = (tevs s p)\<lparr>position := 0\<rparr>))"

lemma event_eq_upto_position:
  assumes "(a :: 'h xi_time_event)\<lparr>position := 0\<rparr> = b\<lparr>position := 0\<rparr>"
  shows "time_of_execution a = time_of_execution b" "event_handle a = event_handle b"
    "time_event_handle a = time_event_handle b"
  using arg_cong [OF assms, of time_of_execution] arg_cong [OF assms, of event_handle]
    arg_cong [OF assms, of time_event_handle] by simp_all

lemma reordered_refl [simp]: "reordered s s"
  unfolding reordered_def by (intro exI [of _ "array (tv s)"] exI [of _ "tevs s"]) simp

lemma reordered_trans: "reordered s t \<Longrightarrow> reordered t u \<Longrightarrow> reordered s u"
  unfolding reordered_def by force

lemma reorderedD:
  assumes "reordered s t"
  shows "mset (queue t) = mset (queue s)" "set (queue t) = set (queue s)"
    "length (queue t) = length (queue s)" "handles t = handles s" "tmem t = tmem s"
    "elem_no (tv t) = elem_no (tv s)" "capacity (tv t) = capacity (tv s)"
    "vec_block (tv t) = vec_block (tv s)" "array_block (tv t) = array_block (tv s)"
    "memory_type (tv t) = memory_type (tv s)" "time_events.more t = time_events.more s"
    "event_key t = event_key s"
    "time_event_handle (tevs t p) = time_event_handle (tevs s p)"
    "event_handle (tevs t p) = event_handle (tevs s p)"
proof -
  from assms obtain xs e where t: "t = s\<lparr>tv := (tv s)\<lparr>array := xs\<rparr>, tevs := e\<rparr>"
    and ms: "mset (elems ((tv s)\<lparr>array := xs\<rparr>)) = mset (elems (tv s))"
    and ev: "\<And>p. (e p)\<lparr>position := 0\<rparr> = (tevs s p)\<lparr>position := 0\<rparr>"
    by (auto simp: reordered_def)
  show m: "mset (queue t) = mset (queue s)" using ms by (simp add: t)
  show "set (queue t) = set (queue s)" using mset_eq_setD [OF m] .
  show "length (queue t) = length (queue s)" using mset_eq_length [OF m] .
  show "event_key t = event_key s"
    using event_eq_upto_position(1) [OF ev] by (simp add: t event_key_def fun_eq_iff)
  show "time_event_handle (tevs t p) = time_event_handle (tevs s p)"
    "event_handle (tevs t p) = event_handle (tevs s p)"
    using event_eq_upto_position [OF ev] by (simp_all add: t)
qed (use assms in \<open>auto simp: reordered_def\<close>)

lemma reordered_vec_ok: "reordered s t \<Longrightarrow> vec_ok (tv s) \<Longrightarrow> vec_ok (tv t)"
  by (auto simp: reordered_def)

lemma reordered_struct:
  assumes r: "reordered s t" and s: "tev_struct s" and "queue_positions t"
  shows "tev_struct t"
proof -
  note d = reorderedD [OF r]
  have "vec_ok (tv t)" using reordered_vec_ok [OF r] s by (simp add: tev_struct_def)
  moreover have "vec_owned (tv t) (tmem t)"
    using s by (simp add: tev_struct_def vec_owned_def d)
  moreover have "mem_ok (tmem t)" using s by (simp add: tev_struct_def d)
  moreover have "queue_live t"
    using s mset_eq_imp_distinct_iff [OF d(1)] by (simp add: tev_struct_def queue_live_def d)
  moreover have "queue_handles t"
    using s unfolding tev_struct_def queue_handles_def d by blast
  ultimately show ?thesis using assms(3) by (simp add: tev_struct_def)
qed

lemma tev_structD:
  assumes "tev_struct s"
  shows "vec_ok (tv s)" "mem_ok (tmem s)" "vec_owned (tv s) (tmem s)" "distinct (queue s)"
    "\<And>i. i < length (queue s) \<Longrightarrow> position (tevs s (queue s ! i)) = int i"
    "\<And>p. p \<in> set (queue s) \<Longrightarrow> deref_event s p = Some (tevs s p)"
    "\<And>p f. p \<in> set (queue s) \<Longrightarrow> update_event p f s = Some (s\<lparr>tevs := (tevs s)(p := f (tevs s p))\<rparr>)"
    "int (length (queue s)) = elem_no (tv s)"
  using assms int_length_elems [of "tv s"]
  by (auto simp: tev_struct_def queue_live_def queue_positions_def deref_event_def update_event_def)

text \<open>Exchanging two events also exchanges their recorded positions.\<close>

lemma xi_swap_time_events_spec:
  assumes s: "tev_struct s" and i: "0 \<le> i" "i < elem_no (tv s)" and j: "0 \<le> j" "j < elem_no (tv s)"
  obtains t where "xi_swap_time_events s i j = Some t" "tev_struct t" "reordered s t"
    "queue t = (queue s)[nat i := queue s ! nat j, nat j := queue s ! nat i]"
proof -
  note st = tev_structD [OF s]
  let ?p = "queue s ! nat i" and ?q = "queue s ! nat j"
  let ?v = "(tv s)\<lparr>array := (array (tv s))[nat i := array (tv s) ! nat j, nat j := array (tv s) ! nat i]\<rparr>"
  let ?e = "(tevs s)(?p := (tevs s ?p)\<lparr>position := j\<rparr>)"
  let ?f = "?e(?q := (?e ?q)\<lparr>position := i\<rparr>)"
  let ?t = "s\<lparr>tv := ?v, tevs := ?f\<rparr>"
  have ni: "nat i < length (queue s)" "nat j < length (queue s)"
    using i j st(1) by simp_all
  then have mem: "?p \<in> set (queue s)" "?q \<in> set (queue s)" by simp_all
  have live: "?p \<noteq> NULL" "?p \<in> live_blocks (tmem s)" "?q \<noteq> NULL" "?q \<in> live_blocks (tmem s)"
    using s mem by (auto simp: tev_struct_def queue_live_def)
  have el: "elems ?v = (queue s)[nat i := ?q, nat j := ?p]"
    using st(1) i j by (rule elems_swap)
  have "xi_swap_time_events s i j = Some ?t"
    using i j vec_get_in [OF st(1)] xi_vector_swap_elems_spec [OF st(1) i j] live
    by (simp add: xi_swap_time_events_def update_event_def)
  moreover have r: "reordered s ?t"
    unfolding reordered_def
    using ni el by (intro exI [of _ "array ?v"] exI [of _ ?f]) (auto simp: mset_swap)
  moreover have "queue_positions ?t"
    unfolding queue_positions_def
  proof (intro allI impI)
    fix k
    assume k: "k < length (queue ?t)"
    then have "k < length (queue s)" using el by simp
    then show "position (tevs ?t (queue ?t ! k)) = int k"
      using ni i j el st(4,5) nth_eq_iff_index_eq [OF st(4)]
      by (auto simp: nth_list_update)
  qed
  ultimately show thesis
    using that [of ?t] el reordered_struct [OF r s] by simp
qed

section \<open>Bubbling is sifting\<close>

lemma swap_adjacent:
  assumes s: "tev_struct s" and n: "Suc n < length (queue s)"
    and ij: "i = int n \<and> j = int n + 1 \<or> i = int n + 1 \<and> j = int n"
  shows "\<exists>u. xi_swap_time_events s i j = Some u \<and> tev_struct u \<and> reordered s u
    \<and> queue u = take n (queue s) @ [queue s ! Suc n, queue s ! n] @ drop (Suc (Suc n)) (queue s)"
proof -
  have idx: "0 \<le> i" "i < elem_no (tv s)" "0 \<le> j" "j < elem_no (tv s)"
    using n ij tev_structD(8) [OF s] by auto
  obtain u where u: "xi_swap_time_events s i j = Some u" "tev_struct u" "reordered s u"
    "queue u = (queue s)[nat i := queue s ! nat j, nat j := queue s ! nat i]"
    using s idx by (rule xi_swap_time_events_spec)
  have "queue u = (queue s)[n := queue s ! Suc n, Suc n := queue s ! n]"
    using u(4) ij by (auto simp: nat_add_distrib list_update_swap [of "Suc n" n])
  then show ?thesis using u(1-3) n by (auto simp: take_swap_adjacent)
qed

lemma nth_less_int: "n < length (queue s) \<Longrightarrow> vec_ok (tv s) \<Longrightarrow> int n < elem_no (tv s)"
  by simp

lemma bubble_down_spec:
  assumes "tev_struct s" "n < length (queue s)" "sorted (map (event_key s) (take n (queue s)))"
    "int n \<le> e"
  shows "\<exists>i t. xi_time_event_bubble_loop s (int n) (-1) e = Some (i, t) \<and> tev_struct t
    \<and> reordered s t \<and> queue t = sift_down (event_key s) n (queue s)
    \<and> 0 \<le> i \<and> i \<le> int n \<and> queue t ! nat i = queue s ! n"
  using assms
proof (induction n arbitrary: s)
  case 0
  then show ?case
    by (subst xi_time_event_bubble_loop.simps) (auto simp: sift_down_def Cons_nth_drop_Suc)
next
  case (Suc m)
  let ?q = "queue s" and ?k = "event_key s"
  let ?x = "?q ! Suc m" and ?y = "?q ! m"
  note st = tev_structD [OF Suc.prems(1)]
  have m: "m < length ?q" using Suc.prems(2) by simp
  have idx: "int m < elem_no (tv s)" "int (Suc m) < elem_no (tv s)"
    using Suc.prems(2) st(8) by simp_all
  have get: "arr_get (array (tv s)) (int (Suc m) + -1) = Some ?y"
      "arr_get (array (tv s)) (int (Suc m)) = Some ?x"
    using vec_get_in [OF st(1), of "int m"] vec_get_in [OF st(1), of "int (Suc m)"] idx
    by (simp_all add: nat_add_distrib)
  have ev: "deref_event s ?y = Some (tevs s ?y)" "deref_event s ?x = Some (tevs s ?x)"
    using st(6) m Suc.prems(2) by simp_all
  have takeS: "take (Suc m) ?q = take m ?q @ [?y]" using m by (simp add: take_Suc_conv_app_nth)
  show ?case
  proof (cases "?k ?x < ?k ?y")
    case True
    obtain u where u: "xi_swap_time_events s (int m) (int (Suc m)) = Some u"
      "tev_struct u" "reordered s u" and qu: "queue u = take m ?q @ [?x, ?y] @ drop (Suc (Suc m)) ?q"
      using swap_adjacent [OF Suc.prems(1,2), of "int m" "int (Suc m)"] by auto
    note ru = reorderedD [OF u(3)]
    have tu: "take m (queue u) = take m ?q" "queue u ! m = ?x"
        "drop (Suc m) (queue u) = ?y # drop (Suc (Suc m)) ?q"
      using qu m by (simp_all add: nth_append)
    have "sorted (map ?k (take m ?q))" using Suc.prems(3) by (simp add: takeS sorted_append)
    then obtain i t where t: "xi_time_event_bubble_loop u (int m) (-1) e = Some (i, t)" "tev_struct t"
        "reordered u t" "queue t = sift_down ?k m (queue u)" "0 \<le> i" "i \<le> int m" "queue t ! nat i = ?x"
      using Suc.IH [of u] u(2) tu ru Suc.prems m by auto
    have "queue t = sift_down ?k (Suc m) ?q"
      using True tu t(4)
      by (simp add: sift_down_def takeS takeWhile_tail dropWhile_append3 del: drop_Suc_Cons)
    moreover have "xi_time_event_bubble_loop s (int (Suc m)) (-1) e = Some (i, t)"
      using get ev True u(1) t(1) st(5) m Suc.prems(2,4)
      by (subst xi_time_event_bubble_loop.simps) (simp add: event_key_def)
    ultimately show ?thesis
      using t reordered_trans [OF u(3) t(3)] by (intro exI [of _ i] exI [of _ t]) simp
  next
    case False
    have "\<forall>z \<in> set (take (Suc m) ?q). ?k z \<le> ?k ?x"
      using False Suc.prems(3) by (auto simp: takeS sorted_append)
    then have tw: "takeWhile (\<lambda>z. ?k z \<le> ?k ?x) (take (Suc m) ?q) = take (Suc m) ?q"
      "dropWhile (\<lambda>z. ?k z \<le> ?k ?x) (take (Suc m) ?q) = []"
      by (auto simp: takeWhile_eq_all_conv)
    have "sift_down ?k (Suc m) ?q = ?q"
      by (simp only: sift_down_def tw append_Nil id_take_nth_drop [OF Suc.prems(2), symmetric])
    moreover have "xi_time_event_bubble_loop s (int (Suc m)) (-1) e = Some (int (Suc m), s)"
      using get ev False Suc.prems(4)
      by (subst xi_time_event_bubble_loop.simps) (simp add: event_key_def)
    ultimately show ?thesis
      using Suc.prems(1)
      by (intro exI [of _ "int (Suc m)"] exI [of _ s]) (simp add: nat_add_distrib)
  qed
qed

lemma bubble_up_spec:
  assumes "tev_struct s" "n < length (queue s)" "sorted (map (event_key s) (drop (Suc n) (queue s)))"
    "e = elem_no (tv s) - 1"
  shows "\<exists>i t. xi_time_event_bubble_loop s (int n) 1 e = Some (i, t) \<and> tev_struct t
    \<and> reordered s t \<and> queue t = sift_up (event_key s) n (queue s)
    \<and> int n \<le> i \<and> i \<le> e \<and> queue t ! nat i = queue s ! n"
  using assms
proof (induction "length (queue s) - n" arbitrary: n s)
  case 0
  then show ?case by simp
next
  case (Suc d)
  let ?q = "queue s" and ?k = "event_key s"
  let ?x = "?q ! n" and ?y = "?q ! Suc n"
  note st = tev_structD [OF Suc.prems(1)]
  show ?case
  proof (cases "int n = e")
    case True
    then have "drop (Suc n) ?q = []" using Suc.prems(4) st(8) by simp
    moreover have "take (Suc n) ?q = ?q" using True Suc.prems(4) st(8) by simp
    ultimately have "sift_up ?k n ?q = ?q"
      using Suc.prems(2) take_Suc_conv_app_nth [OF Suc.prems(2)] by (simp add: sift_up_def)
    with True Suc.prems(1) show ?thesis
      by (intro exI [of _ e] exI [of _ s], subst xi_time_event_bubble_loop.simps) auto
  next
    case False
    then have n: "Suc n < length ?q" using Suc.prems(2,4) st(8) by linarith
    have idx: "int n < elem_no (tv s)" "int n + 1 < elem_no (tv s)"
      using n st(8) by linarith+
    have get: "arr_get (array (tv s)) (int n + 1) = Some ?y" "arr_get (array (tv s)) (int n) = Some ?x"
      using vec_get_in [OF st(1), of "int n + 1"] vec_get_in [OF st(1), of "int n"] idx
      by (simp_all add: nat_add_distrib)
    have ev: "deref_event s ?y = Some (tevs s ?y)" "deref_event s ?x = Some (tevs s ?x)"
      using st(6) n by simp_all
    have dropS: "drop (Suc n) ?q = ?y # drop (Suc (Suc n)) ?q"
      using n by (simp add: Cons_nth_drop_Suc)
    have bounds: "int n \<le> e" using idx Suc.prems(4) by simp
    show ?thesis
    proof (cases "?k ?x > ?k ?y")
      case True
      obtain u where u: "xi_swap_time_events s (int n + 1) (int n) = Some u"
        "tev_struct u" "reordered s u" and qu: "queue u = take n ?q @ [?y, ?x] @ drop (Suc (Suc n)) ?q"
        using swap_adjacent [OF Suc.prems(1) n, of "int n + 1" "int n"] by auto
      note ru = reorderedD [OF u(3)]
      have tu: "take (Suc n) (queue u) = take n ?q @ [?y]" "queue u ! Suc n = ?x"
          "drop (Suc (Suc n)) (queue u) = drop (Suc (Suc n)) ?q"
        using qu n by (simp_all add: nth_append)
      have "sorted (map ?k (drop (Suc (Suc n)) ?q))" using Suc.prems(3) by (simp add: dropS)
      moreover have "d = length (queue u) - Suc n" using Suc.hyps(2) ru(3) by simp
      ultimately obtain i t where t: "xi_time_event_bubble_loop u (int (Suc n)) 1 e = Some (i, t)"
          "tev_struct t" "reordered u t" "queue t = sift_up ?k (Suc n) (queue u)"
          "int (Suc n) \<le> i" "i \<le> e" "queue t ! nat i = ?x"
        using Suc.hyps(1) [of u "Suc n"] u(2) tu ru n Suc.prems(4) by auto
      have "queue t = sift_up ?k n ?q"
        using True tu t(4) by (simp add: sift_up_def dropS)
      moreover have "xi_time_event_bubble_loop s (int n) 1 e = Some (i, t)"
        using get ev True u(1) t(1) st(5) [of n] st(5) [of "Suc n"] n bounds False
        by (subst xi_time_event_bubble_loop.simps) (simp add: event_key_def add.commute)
      ultimately show ?thesis
        using t reordered_trans [OF u(3) t(3)] by (intro exI [of _ i] exI [of _ t]) simp
    next
      case ge: False
      then have "sift_up ?k n ?q = ?q"
        using id_take_nth_drop [OF Suc.prems(2)] by (simp add: sift_up_def dropS)
      moreover have "xi_time_event_bubble_loop s (int n) 1 e = Some (int n, s)"
        using get ev ge bounds by (subst xi_time_event_bubble_loop.simps) (simp add: event_key_def)
      ultimately show ?thesis
        using Suc.prems(1) bounds by (intro exI [of _ "int n"] exI [of _ s]) simp
    qed
  qed
qed

lemma move_loop_spec:
  assumes "tev_struct s" "n < length (queue s)"
  shows "\<exists>t. xi_time_event_move_loop s (int n) (elem_no (tv s) - 1) = Some t \<and> tev_struct t
    \<and> reordered s t \<and> queue t = take n (queue s) @ drop (Suc n) (queue s) @ [queue s ! n]"
  using assms
proof (induction "length (queue s) - n" arbitrary: n s)
  case 0
  then show ?case by simp
next
  case (Suc d)
  let ?q = "queue s"
  note st = tev_structD [OF Suc.prems(1)]
  show ?case
  proof (cases "Suc n < length ?q")
    case False
    then have n: "length ?q = Suc n" using Suc.prems(2) by simp
    then have "\<not> int n < elem_no (tv s) - 1" using st(8) by simp
    moreover have "take n ?q @ [?q ! n] = ?q"
      using n take_Suc_conv_app_nth [OF Suc.prems(2)] by simp
    ultimately show ?thesis
      using Suc.prems(1) n by (intro exI [of _ s], subst xi_time_event_move_loop.simps) simp
  next
    case True
    have idx: "int n + 1 < elem_no (tv s)" using True st(8) by linarith
    obtain u where u: "xi_swap_time_events s (int n) (int n + 1) = Some u"
      "tev_struct u" "reordered s u"
      and qu: "queue u = take n ?q @ [?q ! Suc n, ?q ! n] @ drop (Suc (Suc n)) ?q"
      using swap_adjacent [OF Suc.prems(1) True, of "int n" "int n + 1"] by auto
    note ru = reorderedD [OF u(3)]
    have tu: "take (Suc n) (queue u) = take n ?q @ [?q ! Suc n]" "queue u ! Suc n = ?q ! n"
        "drop (Suc (Suc n)) (queue u) = drop (Suc (Suc n)) ?q"
      using qu True by (simp_all add: nth_append)
    have "d = length (queue u) - Suc n" using Suc.hyps(2) ru(3) by simp
    then obtain t where t: "xi_time_event_move_loop u (int (Suc n)) (elem_no (tv u) - 1) = Some t"
        "tev_struct t" "reordered u t"
        "queue t = take (Suc n) (queue u) @ drop (Suc (Suc n)) (queue u) @ [queue u ! Suc n]"
      using Suc.hyps(1) [of u "Suc n"] u(2) ru(3) True by auto
    have "drop (Suc n) ?q = ?q ! Suc n # drop (Suc (Suc n)) ?q"
      using True by (simp add: Cons_nth_drop_Suc)
    then have "queue t = take n ?q @ drop (Suc n) ?q @ [?q ! n]" using t(4) tu by simp
    moreover have "xi_time_event_move_loop s (int n) (elem_no (tv s) - 1) = Some t"
      using idx u(1) t(1) ru(6) by (subst xi_time_event_move_loop.simps) (simp add: add.commute)
    ultimately show ?thesis
      using t reordered_trans [OF u(3) t(3)] by (intro exI [of _ t]) simp
  qed
qed

section \<open>Insertion\<close>

text \<open>An address a caller may queue: a live block outside the container, with no handle yet.\<close>

definition queueable :: "('h, 'z) time_events_scheme \<Rightarrow> addr \<Rightarrow> bool" where
  "queueable s p \<longleftrightarrow> p \<noteq> NULL \<and> p \<in> live_blocks (tmem s) \<and> p \<notin> set (queue s)
     \<and> p \<noteq> vec_block (tv s) \<and> p \<noteq> array_block (tv s) \<and> time_event_handle (tevs s p) = NULL"

text \<open>The queue with \<open>p\<close> behind every event that is not later than \<open>p\<close>.\<close>

definition insert_by_time :: "('h, 'z) time_events_scheme \<Rightarrow> addr \<Rightarrow> addr list" where
  "insert_by_time s p = takeWhile (\<lambda>y. event_key s y \<le> event_key s p) (queue s) @ p
     # dropWhile (\<lambda>y. event_key s y \<le> event_key s p) (queue s)"

lemma queue_handlesI:
  assumes "\<And>p. p \<in> set (queue s) \<Longrightarrow> time_event_handle (tevs s p) \<noteq> NULL
      \<Longrightarrow> handles s (time_event_handle (tevs s p)) = p"
    and "\<And>h. handles s h \<noteq> NULL \<Longrightarrow> h \<noteq> NULL \<and> handles s h \<in> set (queue s)
        \<and> time_event_handle (tevs s (handles s h)) = h"
  shows "queue_handles s"
  using assms unfolding queue_handles_def by blast

lemma queue_handlesD:
  assumes "queue_handles s"
  shows "p \<in> set (queue s) \<Longrightarrow> time_event_handle (tevs s p) \<noteq> NULL
      \<Longrightarrow> handles s (time_event_handle (tevs s p)) = p"
    and "handles s h \<noteq> NULL \<Longrightarrow> h \<noteq> NULL"
    and "handles s h \<noteq> NULL \<Longrightarrow> handles s h \<in> set (queue s)"
    and "handles s h \<noteq> NULL \<Longrightarrow> time_event_handle (tevs s (handles s h)) = h"
  using assms unfolding queue_handles_def by blast+

text \<open>The invariant needs of the allocator only that the container's blocks are live.\<close>

definition timer_blocks :: "('h, 'z) time_events_scheme \<Rightarrow> addr set" where
  "timer_blocks s = {vec_block (tv s), array_block (tv s)} \<union> set (queue s)"

lemma tev_ok_live: "tev_ok s \<Longrightarrow> timer_blocks s \<subseteq> live_blocks (tmem s)"
  by (auto simp: tev_ok_def tev_struct_def vec_owned_def queue_live_def timer_blocks_def)

lemma tev_ok_mem:
  assumes "tev_ok s" "mem_ok m" "timer_blocks s \<subseteq> live_blocks m"
  shows "tev_ok (s\<lparr>tmem := m\<rparr>)"
proof -
  let ?t = "s\<lparr>tmem := m\<rparr>"
  have "queue_handles ?t = queue_handles s" "queue_positions ?t = queue_positions s"
    "event_key ?t = event_key s"
    by (simp_all add: queue_handles_def queue_positions_def event_key_def fun_eq_iff)
  moreover have "queue_live ?t" "vec_owned (tv ?t) m"
    using assms by (auto simp: tev_ok_def tev_struct_def queue_live_def vec_owned_def timer_blocks_def)
  ultimately show ?thesis using assms(1,2) by (simp add: tev_ok_def tev_struct_def)
qed

lemma tev_ok_same_live:
  assumes "tev_ok s" "mem_ok m" "live_blocks m = live_blocks (tmem s)"
  shows "tev_ok (s\<lparr>tmem := m\<rparr>)"
  using assms(1,2) by (rule tev_ok_mem) (use tev_ok_live [OF assms(1)] assms(3) in simp)

text \<open>Writing to an event that is not queued changes nothing the invariant speaks of.\<close>

lemma tev_ok_new_event:
  assumes "tev_ok s" "p \<notin> set (queue s)"
  shows "tev_ok (s\<lparr>tevs := (tevs s)(p := e)\<rparr>)" (is "tev_ok ?t")
proof -
  have same: "x \<in> set (queue s) \<Longrightarrow> tevs ?t x = tevs s x" for x using assms(2) by auto
  have qh: "queue_handles s" using assms(1) by (simp add: tev_ok_def tev_struct_def)
  have "queue_handles ?t"
  proof (rule queue_handlesI)
    fix x
    assume "x \<in> set (queue ?t)" "time_event_handle (tevs ?t x) \<noteq> NULL"
    then show "handles ?t (time_event_handle (tevs ?t x)) = x"
      using queue_handlesD(1) [OF qh, of x] same [of x] by simp
  next
    fix h
    assume "handles ?t h \<noteq> NULL"
    then have "handles s h \<noteq> NULL" by simp
    note d = queue_handlesD(2-4) [OF qh this]
    then show "h \<noteq> NULL \<and> handles ?t h \<in> set (queue ?t) \<and> time_event_handle (tevs ?t (handles ?t h)) = h"
      using same [OF d(2)] by simp
  qed
  moreover have "queue_positions ?t"
    using assms(1) same by (auto simp: queue_positions_def tev_ok_def tev_struct_def)
  moreover have "queue_live ?t" using assms(1) by (simp add: queue_live_def tev_ok_def tev_struct_def)
  moreover have m: "map (event_key ?t) (queue ?t) = map (event_key s) (queue s)"
    using same by (auto simp: event_key_def)
  moreover have "sorted (map (event_key ?t) (queue ?t))"
    unfolding m using assms(1) by (simp add: tev_ok_def)
  ultimately show ?thesis using assms(1) by (simp add: tev_ok_def tev_struct_def)
qed

lemma tev_ok_cong:
  assumes "tv t = tv s" "tevs t = tevs s" "handles t = handles s" "tmem t = tmem s"
  shows "tev_ok t \<longleftrightarrow> tev_ok s"
  using assms
  by (simp add: tev_ok_def tev_struct_def queue_live_def queue_positions_def queue_handles_def
      event_key_def [abs_def])

lemma tev_struct_append:
  assumes s: "tev_struct s" and p: "queueable s p"
    and v: "vec_ok v" "elems v = queue s @ [p]" "vec_block v = vec_block (tv s)"
      "memory_type v = memory_type (tv s)"
    and m: "mem_ok m"
      "array_block v = array_block (tv s) \<and> live_blocks m = live_blocks (tmem s)
       \<or> array_block v \<notin> live_blocks (tmem s)
         \<and> live_blocks m = insert (array_block v) (live_blocks (tmem s)) - {array_block (tv s)}"
    and t: "t = s\<lparr>tv := v, tmem := m, tevs := (tevs s)(p := (tevs s p)\<lparr>position := elem_no v - 1\<rparr>)\<rparr>"
  shows "tev_struct t"
proof -
  have own: "vec_block (tv s) \<noteq> array_block (tv s)" "vec_block (tv s) \<in> live_blocks (tmem s)"
    "array_block (tv s) \<in> live_blocks (tmem s)" "memory_type (tv s) = XI_MEMORY_TYPE_MANAGED"
    using s by (auto simp: tev_struct_def vec_owned_def)
  have ql: "distinct (queue s)" "\<And>x. x \<in> set (queue s) \<Longrightarrow> x \<noteq> NULL \<and> x \<in> live_blocks (tmem s)
      \<and> x \<noteq> vec_block (tv s) \<and> x \<noteq> array_block (tv s)"
    using s by (auto simp: tev_struct_def queue_live_def)
  have len: "elem_no v - 1 = int (length (queue s))"
    using int_length_elems [OF v(1)] v(2) by simp
  have "vec_owned v m"
    using m(2)
  proof (elim disjE conjE)
    assume "array_block v = array_block (tv s)" "live_blocks m = live_blocks (tmem s)"
    then show ?thesis using own v(3,4) by (simp add: vec_owned_def)
  next
    assume "array_block v \<notin> live_blocks (tmem s)"
      and l: "live_blocks m = insert (array_block v) (live_blocks (tmem s)) - {array_block (tv s)}"
    then have "array_block v \<noteq> vec_block v" "array_block v \<noteq> array_block (tv s)"
      using own v(3) by metis+
    then show ?thesis using own v(3,4) l by (simp add: vec_owned_def)
  qed
  moreover have "queue_live t"
  proof -
    have keep: "x \<noteq> NULL \<and> x \<in> live_blocks m \<and> x \<noteq> vec_block v \<and> x \<noteq> array_block v"
      if "x \<noteq> NULL" "x \<in> live_blocks (tmem s)" "x \<noteq> vec_block (tv s)" "x \<noteq> array_block (tv s)" for x
      using m(2) that v(3) by (elim disjE conjE) auto
    have "\<forall>x \<in> set (elems v). x \<noteq> NULL \<and> x \<in> live_blocks m \<and> x \<noteq> vec_block v \<and> x \<noteq> array_block v"
      using ql(2) p keep unfolding v(2) queueable_def by simp
    moreover have "distinct (elems v)" using ql(1) p unfolding v(2) queueable_def by simp
    ultimately show ?thesis by (simp add: t queue_live_def)
  qed
  moreover have "queue_positions t"
    unfolding queue_positions_def
  proof (intro allI impI)
    fix i
    assume "i < length (queue t)"
    then consider "i < length (queue s)" | "i = length (queue s)" using v(2) t by fastforce
    then show "position (tevs t (queue t ! i)) = int i"
    proof cases
      case 1
      then have "queue s ! i \<noteq> p" using p by (auto simp: queueable_def)
      with 1 show ?thesis using v(2) tev_structD(5) [OF s] by (simp add: t nth_append)
    next
      case 2
      then show ?thesis using v(2) len by (simp add: t)
    qed
  qed
  moreover have "queue_handles t"
  proof (rule queue_handlesI)
    have qh: "queue_handles s" using s by (simp add: tev_struct_def)
    fix x
    assume "x \<in> set (queue t)" "time_event_handle (tevs t x) \<noteq> NULL"
    then have "x \<noteq> p" "x \<in> set (queue s)" "time_event_handle (tevs s x) \<noteq> NULL"
      using p v(2) by (auto simp: t queueable_def split: if_splits)
    then show "handles t (time_event_handle (tevs t x)) = x"
      using queue_handlesD(1) [OF qh] by (simp add: t)
  next
    have qh: "queue_handles s" using s by (simp add: tev_struct_def)
    fix h
    assume "handles t h \<noteq> NULL"
    then have "handles s h \<noteq> NULL" by (simp add: t)
    note d = queue_handlesD(2-4) [OF qh this]
    moreover have "handles s h \<noteq> p" using d(2) p by (auto simp: queueable_def)
    ultimately show "h \<noteq> NULL \<and> handles t h \<in> set (queue t) \<and> time_event_handle (tevs t (handles t h)) = h"
      using v(2) by (simp add: t)
  qed
  ultimately show ?thesis using v(1) m(1) by (simp add: tev_struct_def t)
qed

lemma tev_struct_attach:
  assumes s: "tev_struct s" and p: "p \<in> set (queue s)" "time_event_handle (tevs s p) = NULL"
    and h: "h \<noteq> NULL" "handles s h = NULL"
  shows "tev_struct (s\<lparr>handles := (handles s)(h := p),
    tevs := (tevs s)(p := (tevs s p)\<lparr>time_event_handle := h\<rparr>)\<rparr>)" (is "tev_struct ?t")
proof -
  have nn: "\<And>x. x \<in> set (queue s) \<Longrightarrow> x \<noteq> NULL"
    using s by (auto simp: tev_struct_def queue_live_def)
  have qh: "queue_handles s" using s by (simp add: tev_struct_def)
  have "queue_handles ?t"
  proof (rule queue_handlesI)
    fix x
    assume x: "x \<in> set (queue ?t)" "time_event_handle (tevs ?t x) \<noteq> NULL"
    show "handles ?t (time_event_handle (tevs ?t x)) = x"
    proof (cases "x = p")
      case False
      then have "handles s (time_event_handle (tevs s x)) = x"
        using x queue_handlesD(1) [OF qh] by simp
      moreover have "time_event_handle (tevs s x) \<noteq> h"
        using calculation h(2) x(1) nn [of x] by auto
      ultimately show ?thesis using False by simp
    qed simp
  next
    fix g
    assume g: "handles ?t g \<noteq> NULL"
    show "g \<noteq> NULL \<and> handles ?t g \<in> set (queue ?t) \<and> time_event_handle (tevs ?t (handles ?t g)) = g"
    proof (cases "g = h")
      case False
      then have "handles s g \<noteq> NULL" using g by simp
      note d = queue_handlesD(2-4) [OF qh this]
      moreover have "handles s g \<noteq> p" using d p(2) by auto
      ultimately show ?thesis using False by simp
    qed (use h p in simp)
  qed
  moreover have "queue_positions ?t"
    using s by (auto simp: tev_struct_def queue_positions_def)
  moreover have "queue_live ?t" using s by (simp add: tev_struct_def queue_live_def)
  ultimately show ?thesis using s by (simp add: tev_struct_def)
qed

lemma xi_insert_time_event_spec:
  assumes s: "tev_ok s" and p: "queueable s p"
  obtains (fail) t where "xi_insert_time_event s p = Some (None, t)" "tev_ok t"
      "t = s\<lparr>tmem := tmem t\<rparr>" "live_blocks (tmem t) = live_blocks (tmem s)"
      "elem_no (tv s) = capacity (tv s)" "next_block (tmem s) \<le> next_block (tmem t)"
  | (success) i t where "xi_insert_time_event s p = Some (Some i, t)" "tev_ok t"
      "queue t = insert_by_time s p" "arr_get (array (tv t)) i = Some p" "event_key t = event_key s"
      "handles t = handles s" "time_events.more t = time_events.more s"
      "\<And>x. event_handle (tevs t x) = event_handle (tevs s x)"
      "\<And>x. time_event_handle (tevs t x) = time_event_handle (tevs s x)"
      "live_blocks (tmem t) = insert (array_block (tv t)) (live_blocks (tmem s) - {array_block (tv s)})"
      "vec_block (tv t) = vec_block (tv s)"
      "array_block (tv t) = array_block (tv s)
        \<or> array_block (tv t) \<notin> live_blocks (tmem s) \<and> next_block (tmem s) \<le> array_block (tv t)"
      "next_block (tmem s) \<le> next_block (tmem t)"
proof -
  have st: "tev_struct s" and sorted: "sorted (map (event_key s) (queue s))"
    using s by (simp_all add: tev_ok_def)
  have pn: "p \<noteq> NULL" "p \<in> live_blocks (tmem s)" "p \<noteq> array_block (tv s)"
    using p by (auto simp: queueable_def)
  have ab: "array_block (tv s) \<noteq> NULL" "array_block (tv s) \<in> live_blocks (tmem s)"
    using st by (auto simp: tev_struct_def vec_owned_def mem_ok_def)
  from tev_structD(1) [OF st] tev_structD(2) [OF st] show thesis
  proof (rule xi_vector_push_spec [where x = p])
    fix m'
    assume r: "xi_vector_push (tv s) p (tmem s) = Some (None, tv s, m')"
      "live_blocks m' = live_blocks (tmem s)" "mem_ok m'" "elem_no (tv s) = capacity (tv s)"
    have "xi_insert_time_event s p = Some (None, s\<lparr>tmem := m'\<rparr>)"
      using r pn by (simp add: xi_insert_time_event_def)
    moreover have "tev_ok (s\<lparr>tmem := m'\<rparr>)"
      using tev_ok_same_live [OF s r(3,2)] .
    ultimately show thesis
      using r xi_vector_push_next(1) [OF r(1)] by (intro fail [of "s\<lparr>tmem := m'\<rparr>"]) simp_all
  next
    fix v m'
    assume r: "xi_vector_push (tv s) p (tmem s) = Some (Some (elem_no (tv s)), v, m')"
      "vec_ok v" "elems v = queue s @ [p]" "elem_no v = elem_no (tv s) + 1" "mem_ok m'"
      "vec_block v = vec_block (tv s)" "memory_type v = memory_type (tv s)"
      and al: "array_block v = array_block (tv s) \<and> live_blocks m' = live_blocks (tmem s)
         \<and> capacity v = capacity (tv s) \<and> array v = (array (tv s))[nat (elem_no (tv s)) := p]
         \<and> m' = tmem s
       \<or> array_block v \<notin> live_blocks (tmem s) \<and> array_block v \<noteq> NULL
         \<and> memory_type (tv s) = XI_MEMORY_TYPE_MANAGED
         \<and> live_blocks m' = insert (array_block v) (live_blocks (tmem s))
               - (if array_block (tv s) = NULL then {} else {array_block (tv s)})
         \<and> capacity v = 2 * capacity (tv s) \<and> capacity (tv s) < 64
         \<and> elem_no (tv s) = capacity (tv s)"
    have live: "live_blocks m' = insert (array_block v) (live_blocks (tmem s) - {array_block (tv s)})"
      using al ab(2) by (elim disjE conjE) (force simp: ab(1) insert_absorb)+
    let ?u = "s\<lparr>tv := v, tmem := m', tevs := (tevs s)(p := (tevs s p)\<lparr>position := elem_no v - 1\<rparr>)\<rparr>"
    have u: "tev_struct ?u"
      using st p r(2,3,6,7,5) al ab by (intro tev_struct_append [OF st p r(2,3,6,7,5)]) auto
    have key: "event_key ?u = event_key s" by (auto simp: event_key_def fun_eq_iff)
    let ?n = "length (queue s)"
    have n: "?n < length (queue ?u)" "take ?n (queue ?u) = queue s" "queue ?u ! ?n = p"
        "drop (Suc ?n) (queue ?u) = []"
      using r(3) by simp_all
    have e: "int ?n = elem_no v - 1" using int_length_elems [OF r(2)] r(3) by simp
    obtain i t where t: "xi_time_event_bubble_loop ?u (int ?n) (-1) (elem_no v - 1) = Some (i, t)"
        "tev_struct t" "reordered ?u t" "queue t = sift_down (event_key ?u) ?n (queue ?u)"
        "0 \<le> i" "i \<le> int ?n" "queue t ! nat i = p"
      using bubble_down_spec [OF u n(1), of "elem_no v - 1"] n sorted key e by auto
    note rd = reorderedD [OF t(3)] and tt = tev_structD [OF t(2)]
    have i: "i < elem_no (tv t)" using t(6) rd(6) e by simp
    have ni: "nat i < length (queue t)" using i t(5) tt(8) by simp
    have get: "arr_get (array (tv t)) i = Some p" using vec_get_in [OF tt(1) t(5) i] t(7) by simp
    have "p \<in> set (queue t)" using t(7) ni by (metis nth_mem)
    then have "deref_event t p = Some (tevs t p)" by (rule tt(6))
    moreover have "position (tevs t p) = i" using tt(5) [OF ni] t(5,7) by simp
    moreover have "max (elem_no v - 1) 0 = elem_no v - 1" "0 \<le> elem_no v - 1" using e by linarith+
    ultimately have "xi_time_event_bubble_and_sort_down ?u (elem_no v - 1) = Some (i, t)"
      using t(1) get e unfolding xi_time_event_bubble_and_sort_down_def xi_time_event_bubble_core_def
      by simp
    then have "xi_insert_time_event s p = Some (Some i, t)"
      using r pn live by (simp add: xi_insert_time_event_def update_event_def)
    moreover have q: "queue t = insert_by_time s p"
      using t(4) n key by (simp add: sift_down_def insert_by_time_def)
    moreover have "sorted (map (event_key t) (queue t))"
      using sorted_insert_down [of "event_key s" "queue s" "[]" p] sorted q rd(12) key
      by (simp add: insert_by_time_def)
    then have "tev_ok t" using t(2) by (simp add: tev_ok_def)
    moreover have "\<And>x. event_handle (tevs t x) = event_handle (tevs s x)"
      "\<And>x. time_event_handle (tevs t x) = time_event_handle (tevs s x)"
      using rd(13,14) by simp_all
    ultimately show thesis
      using get rd key live al r(6) xi_vector_push_next [OF r(1)]
      by (intro success [of i t]) auto
  qed
qed

lemma set_insert_by_time [simp]: "set (insert_by_time s p) = insert p (set (queue s))"
  using arg_cong [OF mset_insert_while [of "\<lambda>y. event_key s y \<le> event_key s p" "queue s" p], of set_mset]
  by (simp add: insert_by_time_def)

lemma xi_time_event_add_spec:
  assumes s: "tev_ok s" and p: "queueable s p" and h: "h \<noteq> NULL \<Longrightarrow> handles s h = NULL"
  obtains (fail) t where "xi_time_event_add s p h = Some (XI_OUT_OF_MEMORY, t)" "tev_ok t"
      "t = s\<lparr>tmem := tmem t\<rparr>" "live_blocks (tmem t) = live_blocks (tmem s)"
      "elem_no (tv s) = capacity (tv s)" "next_block (tmem s) \<le> next_block (tmem t)"
  | (success) t where "xi_time_event_add s p h = Some (XI_STATE_OK, t)" "tev_ok t"
      "queue t = insert_by_time s p" "event_key t = event_key s"
      "handles t = (if h = NULL then handles s else (handles s)(h := p))"
      "time_event_handle (tevs t p) = h" "time_events.more t = time_events.more s"
      "\<And>x. event_handle (tevs t x) = event_handle (tevs s x)"
      "\<And>x. x \<noteq> p \<Longrightarrow> time_event_handle (tevs t x) = time_event_handle (tevs s x)"
      "live_blocks (tmem t) = insert (array_block (tv t)) (live_blocks (tmem s) - {array_block (tv s)})"
      "vec_block (tv t) = vec_block (tv s)"
      "array_block (tv t) = array_block (tv s)
        \<or> array_block (tv t) \<notin> live_blocks (tmem s) \<and> next_block (tmem s) \<le> array_block (tv t)"
      "next_block (tmem s) \<le> next_block (tmem t)"
  using s p
proof (rule xi_insert_time_event_spec)
  have pre: "p \<noteq> NULL" "h \<noteq> NULL \<and> handles s h = NULL \<or> h = NULL"
    using p h by (auto simp: queueable_def)
  fix t
  assume r: "xi_insert_time_event s p = Some (None, t)" "tev_ok t"
      "t = s\<lparr>tmem := tmem t\<rparr>" "live_blocks (tmem t) = live_blocks (tmem s)"
      "elem_no (tv s) = capacity (tv s)" "next_block (tmem s) \<le> next_block (tmem t)"
  have "xi_time_event_add s p h = Some (XI_OUT_OF_MEMORY, t)"
    using r(1) pre by (simp add: xi_time_event_add_def)
  then show thesis using r by (intro fail [of t])
next
  have pre: "p \<noteq> NULL" "h \<noteq> NULL \<and> handles s h = NULL \<or> h = NULL"
    using p h by (auto simp: queueable_def)
  fix i t
  assume r: "xi_insert_time_event s p = Some (Some i, t)" "tev_ok t"
      "queue t = insert_by_time s p" "arr_get (array (tv t)) i = Some p" "event_key t = event_key s"
      "handles t = handles s" "time_events.more t = time_events.more s"
      "\<And>x. event_handle (tevs t x) = event_handle (tevs s x)"
      "\<And>x. time_event_handle (tevs t x) = time_event_handle (tevs s x)"
      "live_blocks (tmem t) = insert (array_block (tv t)) (live_blocks (tmem s) - {array_block (tv s)})"
      "vec_block (tv t) = vec_block (tv s)"
      "array_block (tv t) = array_block (tv s)
        \<or> array_block (tv t) \<notin> live_blocks (tmem s) \<and> next_block (tmem s) \<le> array_block (tv t)"
      "next_block (tmem s) \<le> next_block (tmem t)"
  have hp: "time_event_handle (tevs t p) = NULL" using p r(9) by (simp add: queueable_def)
  have st: "tev_struct t" "sorted (map (event_key t) (queue t))" using r(2) by (simp_all add: tev_ok_def)
  have inq: "p \<in> set (queue t)" using r(3) by simp
  then have live: "p \<in> live_blocks (tmem t)" using st by (simp add: tev_struct_def queue_live_def)
  show thesis
  proof (cases "h = NULL")
    case True
    have "xi_time_event_add s p h = Some (XI_STATE_OK, t)"
      using r(1,4) pre(1) True by (simp add: xi_time_event_add_def)
    then show thesis using r True hp by (intro success [of t]) simp_all
  next
    case False
    let ?u = "t\<lparr>handles := (handles t)(h := p), tevs := (tevs t)(p := (tevs t p)\<lparr>time_event_handle := h\<rparr>)\<rparr>"
    have "xi_time_event_add s p h = Some (XI_STATE_OK, ?u)"
      using r(1,4) pre False live by (simp add: xi_time_event_add_def update_event_def)
    moreover have key: "event_key ?u = event_key t" by (auto simp: event_key_def fun_eq_iff)
    moreover have "tev_struct ?u"
      using tev_struct_attach [OF st(1) inq hp False] r(6) pre False by simp
    then have "tev_ok ?u" using st(2) key by (simp add: tev_ok_def)
    ultimately show thesis using r False by (intro success [of ?u]) simp_all
  qed
qed

section \<open>Removal\<close>

text \<open>
  What \<open>get_top\<close> and \<open>cancel\<close> have in common: the event at index \<open>n\<close> leaves the
  queue, the others keep their order, and the handle of the removed event becomes \<open>NULL\<close>.
\<close>

definition removed_at ::
    "nat \<Rightarrow> ('h, 'z) time_events_scheme \<Rightarrow> ('h, 'z) time_events_scheme \<Rightarrow> bool" where
  "removed_at n s t \<longleftrightarrow> tev_struct t
     \<and> queue t = take n (queue s) @ drop (Suc n) (queue s)
     \<and> event_key t = event_key s \<and> tmem t = tmem s \<and> time_events.more t = time_events.more s
     \<and> vec_block (tv t) = vec_block (tv s) \<and> array_block (tv t) = array_block (tv s)
     \<and> (\<forall>x. event_handle (tevs t x) = event_handle (tevs s x))
     \<and> (\<forall>x. time_event_handle (tevs t x) = time_event_handle (tevs s x))
     \<and> handles t = (if time_event_handle (tevs s (queue s ! n)) = NULL then handles s
                    else (handles s)(time_event_handle (tevs s (queue s ! n)) := NULL))"

lemma tev_struct_drop_last:
  assumes t: "tev_struct t" and q: "queue t = xs @ [p]"
    and v: "vec_ok v" "elems v = xs" "vec_block v = vec_block (tv t)" "array_block v = array_block (tv t)"
      "memory_type v = memory_type (tv t)"
    and g: "g = (if time_event_handle (tevs t p) = NULL then handles t
             else (handles t)(time_event_handle (tevs t p) := NULL))"
  shows "tev_struct (t\<lparr>tv := v, handles := g\<rparr>)" (is "tev_struct ?u")
proof -
  have qh: "queue_handles t" and dist: "distinct (queue t)"
    using t by (auto simp: tev_struct_def queue_live_def)
  have pn: "p \<notin> set xs" "p \<in> set (queue t)" using dist q by auto
  have nn: "\<And>x. x \<in> set (queue t) \<Longrightarrow> x \<noteq> NULL"
    using t by (auto simp: tev_struct_def queue_live_def)
  have "queue_handles ?u"
  proof (rule queue_handlesI)
    fix x
    assume x: "x \<in> set (queue ?u)" "time_event_handle (tevs ?u x) \<noteq> NULL"
    then have "handles t (time_event_handle (tevs t x)) = x"
      using queue_handlesD(1) [OF qh, of x] q v(2) by simp
    moreover have "time_event_handle (tevs t p) \<noteq> NULL \<Longrightarrow> handles t (time_event_handle (tevs t p)) = p"
      using queue_handlesD(1) [OF qh pn(2)] .
    moreover have "x \<noteq> p" using x v(2) pn by auto
    ultimately show "handles ?u (time_event_handle (tevs ?u x)) = x"
      by (simp add: g) metis
  next
    fix h
    assume h: "handles ?u h \<noteq> NULL"
    then have ht: "handles t h \<noteq> NULL" "handles t h = handles ?u h" by (auto simp: g split: if_splits)
    note d = queue_handlesD(2-4) [OF qh ht(1)]
    have "handles t h \<noteq> p"
    proof
      assume "handles t h = p"
      then have "time_event_handle (tevs t p) = h" using d(3) by simp
      with d(1) h show False by (simp add: g)
    qed
    with d ht(2) q v(2) show "h \<noteq> NULL \<and> handles ?u h \<in> set (queue ?u)
        \<and> time_event_handle (tevs ?u (handles ?u h)) = h"
      by auto
  qed
  moreover have "queue_positions ?u"
    unfolding queue_positions_def
  proof (intro allI impI)
    fix i
    assume "i < length (queue ?u)"
    then have "queue t ! i = queue ?u ! i" "i < length (queue t)"
      using q v(2) by (simp_all add: nth_append)
    then show "position (tevs ?u (queue ?u ! i)) = int i"
      using tev_structD(5) [OF t, of i] by simp
  qed
  moreover have "queue_live ?u"
    using t q v by (auto simp: tev_struct_def queue_live_def)
  moreover have "vec_owned v (tmem t)" using t v by (simp add: tev_struct_def vec_owned_def)
  ultimately show ?thesis using t v(1) by (simp add: tev_struct_def)
qed

lemma remove_at_spec:
  assumes s: "tev_struct s" and n: "n < length (queue s)"
  obtains t v u where
    "(if int n < elem_no (tv s) - 1 then xi_time_event_move_to_the_end s (int n) else Some s) = Some t"
    "elem_no (tv t) = elem_no (tv s)"
    "arr_get (array (tv t)) (elem_no (tv t) - 1) = Some (queue s ! n)"
    "xi_vector_del (tv t) (elem_no (tv t) - 1) = Some v"
    "xi_time_event_dispose_time_event (t\<lparr>tv := v\<rparr>) (queue s ! n) = Some u" "removed_at n s u"
proof -
  let ?p = "queue s ! n"
  note st = tev_structD [OF s]
  have idx: "int n < elem_no (tv s)" using n st(8) by linarith
  obtain t where t: "(if int n < elem_no (tv s) - 1 then xi_time_event_move_to_the_end s (int n) else Some s) = Some t"
      "tev_struct t" "reordered s t"
      "queue t = (take n (queue s) @ drop (Suc n) (queue s)) @ [?p]"
  proof (cases "int n < elem_no (tv s) - 1")
    case True
    then show thesis
      using move_loop_spec [OF s n] idx that by (auto simp: xi_time_event_move_to_the_end_def)
  next
    case False
    then have "length (queue s) = Suc n" using idx st(8) by linarith
    then have "drop (Suc n) (queue s) = []" "take n (queue s) @ [?p] = queue s"
      using take_Suc_conv_app_nth [OF n] by simp_all
    then show thesis using False s that [of s] by simp
  qed
  let ?xs = "take n (queue s) @ drop (Suc n) (queue s)"
  note tt = tev_structD [OF t(2)] and rd = reorderedD [OF t(3)]
  have last: "0 \<le> elem_no (tv t) - 1" "elem_no (tv t) - 1 < elem_no (tv t)"
    using tt(8) t(4) by auto
  have len: "nat (elem_no (tv t) - 1) = length ?xs" using tt(8) t(4) by auto
  have get: "arr_get (array (tv t)) (elem_no (tv t) - 1) = Some ?p"
    using vec_get_in [OF tt(1) last] unfolding t(4) len nth_append_length .
  obtain v where v: "xi_vector_del (tv t) (elem_no (tv t) - 1) = Some v" "vec_ok v"
    "elems v = butlast ((queue t)[nat (elem_no (tv t) - 1) := last (queue t)])"
    "vec_block v = vec_block (tv t)" "array_block v = array_block (tv t)" "memory_type v = memory_type (tv t)"
    using tt(1) last by (rule xi_vector_del_spec) blast
  have ev: "elems v = ?xs"
    using v(3) unfolding len t(4) by (simp only: last_snoc list_update_length butlast_snoc)
  have live: "?p \<noteq> NULL" "?p \<in> live_blocks (tmem t)"
    using t(2,4) by (auto simp: tev_struct_def queue_live_def)
  let ?h = "time_event_handle (tevs t ?p)"
  define g where "g = (if ?h = NULL then handles t else (handles t)(?h := NULL))"
  let ?u = "t\<lparr>tv := v, handles := g\<rparr>"
  have "xi_time_event_dispose_time_event (t\<lparr>tv := v\<rparr>) ?p = Some ?u"
    using live by (simp add: xi_time_event_dispose_time_event_def deref_event_def g_def)
  moreover have "tev_struct ?u"
    using tev_struct_drop_last [OF t(2,4) v(2) ev v(4,5,6) g_def] .
  moreover have "event_key ?u = event_key s"
    using rd(12) by (simp add: event_key_def fun_eq_iff)
  ultimately have "removed_at n s ?u"
    using ev v rd by (simp add: removed_at_def g_def)
  then show thesis
    using that [OF t(1) rd(6) get v(1)] \<open>xi_time_event_dispose_time_event (t\<lparr>tv := v\<rparr>) ?p = Some ?u\<close>
    by blast
qed

lemma sorted_remove_nth: "sorted xs \<Longrightarrow> sorted (take n xs @ drop (Suc n) xs)"
proof -
  assume s: "sorted xs"
  have "sorted (take n xs @ drop n xs)" using s by simp
  moreover have "set (drop (Suc n) xs) \<subseteq> set (drop n xs)" by (rule set_drop_subset_set_drop) simp
  moreover have "sorted (drop (Suc n) xs)" using s by (rule sorted_wrt_drop)
  ultimately show ?thesis unfolding sorted_append by blast
qed

lemma removed_at_ok: "tev_ok s \<Longrightarrow> removed_at n s t \<Longrightarrow> tev_ok t"
  using sorted_remove_nth [of "map (event_key s) (queue s)" n]
  by (simp add: tev_ok_def removed_at_def take_map drop_map)

lemma xi_time_event_get_top_spec:
  assumes s: "tev_ok s" and q: "queue s = p # ps"
  obtains t where "xi_time_event_get_top s = Some (p, t)" "removed_at 0 s t" "tev_ok t" "queue t = ps"
proof -
  have st: "tev_struct s" using s by (simp add: tev_ok_def)
  have n: "0 < length (queue s)" using q by simp
  have pos: "0 < elem_no (tv s)" using tev_structD(8) [OF st] q by auto
  obtain t v u where r: "(if int 0 < elem_no (tv s) - 1 then xi_time_event_move_to_the_end s (int 0) else Some s) = Some t"
    "elem_no (tv t) = elem_no (tv s)" "xi_vector_del (tv t) (elem_no (tv t) - 1) = Some v"
    "xi_time_event_dispose_time_event (t\<lparr>tv := v\<rparr>) (queue s ! 0) = Some u" "removed_at 0 s u"
    using st n by (rule remove_at_spec) blast
  have "arr_get (array (tv s)) 0 = Some p"
    using vec_get_in [OF tev_structD(1) [OF st], of 0] pos q by simp
  then have "xi_time_event_get_top s = Some (p, u)"
    using r(1-4) pos q by (auto simp: xi_time_event_get_top_def split: if_splits)
  then show thesis
    using that [OF _ r(5) removed_at_ok [OF s r(5)]] r(5) q by (simp add: removed_at_def)
qed

lemma handle_cell:
  assumes s: "tev_struct s" and h: "handles s h \<noteq> NULL"
  obtains n where "n < length (queue s)" "queue s ! n = handles s h" "handle_position s h = Some (int n)"
    "time_event_handle (tevs s (queue s ! n)) = h" "h \<noteq> NULL" "int n < elem_no (tv s)"
proof -
  have qh: "queue_handles s" using s by (simp add: tev_struct_def)
  note d = queue_handlesD(2-4) [OF qh h]
  obtain n where n: "n < length (queue s)" "queue s ! n = handles s h"
    using d(2) by (auto simp: in_set_conv_nth)
  moreover have "handle_position s h = Some (int n)"
    using tev_structD(5) [OF s n(1)] tev_structD(6) [OF s d(2)] n(2) by (simp add: handle_position_def)
  ultimately show thesis using that d tev_structD(8) [OF s] by simp
qed

lemma xi_time_event_cancel_spec:
  assumes s: "tev_ok s" and h: "handles s h \<noteq> NULL"
  obtains n t where "xi_time_event_cancel s h = Some (XI_STATE_OK, Some (handles s h), t)"
    "n < length (queue s)" "queue s ! n = handles s h" "removed_at n s t" "tev_ok t"
    "queue t = remove1 (handles s h) (queue s)" "handles t = (handles s)(h := NULL)"
proof -
  have st: "tev_struct s" using s by (simp add: tev_ok_def)
  obtain n where n: "n < length (queue s)" "queue s ! n = handles s h"
      "handle_position s h = Some (int n)" "time_event_handle (tevs s (queue s ! n)) = h"
      "h \<noteq> NULL" "int n < elem_no (tv s)"
    using st h by (rule handle_cell)
  obtain t v u where r: "(if int n < elem_no (tv s) - 1 then xi_time_event_move_to_the_end s (int n) else Some s) = Some t"
    "elem_no (tv t) = elem_no (tv s)" "arr_get (array (tv t)) (elem_no (tv t) - 1) = Some (queue s ! n)"
    "xi_vector_del (tv t) (elem_no (tv t) - 1) = Some v"
    "xi_time_event_dispose_time_event (t\<lparr>tv := v\<rparr>) (queue s ! n) = Some u" "removed_at n s u"
    using st n(1) by (rule remove_at_spec)
  have "xi_time_event_cancel s h = Some (XI_STATE_OK, Some (handles s h), u)"
    using r(1-5) n h by (simp add: xi_time_event_cancel_def)
  moreover have "queue u = remove1 (handles s h) (queue s)"
    using r(6) remove1_nth [OF tev_structD(4) [OF st] n(1)] n(2) by (simp add: removed_at_def)
  moreover have "handles u = (handles s)(h := NULL)"
    using r(6) n(4,5) by (simp add: removed_at_def)
  ultimately show thesis using that n r(6) removed_at_ok [OF s r(6)] by blast
qed

section \<open>Restart\<close>

lemma tev_struct_same_key:
  assumes "tev_struct s"
  shows "tev_struct (s\<lparr>tevs := (tevs s)(p := (tevs s p)\<lparr>time_of_execution := x\<rparr>)\<rparr>)" (is "tev_struct ?t")
proof -
  have e: "position (tevs ?t y) = position (tevs s y)"
    "time_event_handle (tevs ?t y) = time_event_handle (tevs s y)" for y
    by simp_all
  have "queue_positions ?t = queue_positions s" "queue_live ?t = queue_live s"
    unfolding queue_positions_def queue_live_def e by simp_all
  moreover have "queue_handles ?t = queue_handles s"
    unfolding queue_handles_def e by simp
  ultimately show ?thesis using assms by (simp add: tev_struct_def)
qed

lemma sift_down_props:
  assumes s: "sorted (map k (take n xs @ drop (Suc n) xs))" and n: "n < length xs"
    and le: "\<forall>z \<in> set (drop (Suc n) xs). k (xs ! n) \<le> k z"
  shows "sorted (map k (sift_down k n xs))" "mset (sift_down k n xs) = mset xs"
proof -
  show "sorted (map k (sift_down k n xs))"
    using sorted_insert_down [OF s le] by (simp add: sift_down_def)
  have "mset (sift_down k n xs) = mset (take n xs) + mset (drop (Suc n) xs) + {#xs ! n#}"
    using mset_insert_while [of "\<lambda>y. k y \<le> k (xs ! n)" "take n xs" "xs ! n"]
    by (simp add: sift_down_def)
  then show "mset (sift_down k n xs) = mset xs" using mset_remove_nth [OF n] by simp
qed

lemma sift_up_props:
  assumes s: "sorted (map k (take n xs @ drop (Suc n) xs))" and n: "n < length xs"
    and le: "\<forall>z \<in> set (take n xs). k z \<le> k (xs ! n)"
  shows "sorted (map k (sift_up k n xs))" "mset (sift_up k n xs) = mset xs"
proof -
  show "sorted (map k (sift_up k n xs))"
    using sorted_insert_up [OF s le] by (simp add: sift_up_def)
  have "mset (sift_up k n xs) = mset (take n xs) + mset (drop (Suc n) xs) + {#xs ! n#}"
    using mset_insert_while [of "\<lambda>y. k y < k (xs ! n)" "drop (Suc n) xs" "xs ! n"]
    by (simp add: sift_up_def)
  then show "mset (sift_up k n xs) = mset xs" using mset_remove_nth [OF n] by simp
qed

text \<open>Bubbling in terms of the two sifts, from any position of the queue.\<close>

lemma bubble_core_spec:
  assumes st: "tev_struct s" and n: "n < length (queue s)"
    and l: "xi_time_event_bubble_loop s (int n) dir (max (elem_no (tv s) - 1) 0) = Some (i, t)"
    and dir: "dir = -1 \<or> dir = 1"
    and t: "tev_struct t" "reordered s t" "0 \<le> i" "i < elem_no (tv s)"
  shows "xi_time_event_bubble_core s (int n) dir = Some (i, t)"
proof -
  note rd = reorderedD [OF t(2)] and tt = tev_structD [OF t(1)]
  have i: "nat i < length (queue t)" using t(3,4) rd(6) tt(8) by simp
  have "arr_get (array (tv t)) i = Some (queue t ! nat i)"
    using vec_get_in [OF tt(1) t(3)] t(4) rd(6) by simp
  moreover have "deref_event t (queue t ! nat i) = Some (tevs t (queue t ! nat i))" using tt(6) i by simp
  moreover have "int n < elem_no (tv s)" using n tev_structD(8) [OF st] by linarith
  moreover have "position (tevs t (queue t ! nat i)) = i" using tt(5) [OF i] t(3) by simp
  ultimately show ?thesis using l dir by (auto simp: xi_time_event_bubble_core_def)
qed

lemma xi_time_event_restart_spec:
  assumes s: "tev_ok s" and h: "handles s h \<noteq> NULL"
  obtains (restarted) t where "xi_time_event_restart s h new_time = Some (XI_STATE_OK, t)" "tev_ok t"
    "mset (queue t) = mset (queue s)" "event_key t = (event_key s)(handles s h := new_time)"
    "handles t = handles s" "tmem t = tmem s" "time_events.more t = time_events.more s"
    "vec_block (tv t) = vec_block (tv s)" "array_block (tv t) = array_block (tv s)"
    "\<And>x. event_handle (tevs t x) = event_handle (tevs s x)"
    "\<And>x. time_event_handle (tevs t x) = time_event_handle (tevs s x)"
proof -
  have st: "tev_struct s" and so: "sorted (map (event_key s) (queue s))"
    using s by (simp_all add: tev_ok_def)
  let ?p = "handles s h"
  obtain n where n: "n < length (queue s)" "queue s ! n = ?p"
      "handle_position s h = Some (int n)" "time_event_handle (tevs s (queue s ! n)) = h"
      "h \<noteq> NULL" "int n < elem_no (tv s)"
    using st h by (rule handle_cell)
  let ?s = "s\<lparr>tevs := (tevs s)(?p := (tevs s ?p)\<lparr>time_of_execution := new_time\<rparr>)\<rparr>"
  let ?k = "event_key ?s"
  have key: "?k = (event_key s)(?p := new_time)" by (auto simp: event_key_def fun_eq_iff)
  have st1: "tev_struct ?s" using tev_struct_same_key [OF st] .
  have "distinct (take n (queue s) @ ?p # drop (Suc n) (queue s))"
    using tev_structD(4) [OF st] id_take_nth_drop [OF n(1)] n(2) by simp
  then have notin: "?p \<notin> set (take n (queue s))" "?p \<notin> set (drop (Suc n) (queue s))"
    by simp_all
  have mk: "map ?k (take n (queue s)) = map (event_key s) (take n (queue s))"
    "map ?k (drop (Suc n) (queue s)) = map (event_key s) (drop (Suc n) (queue s))"
    using notin by (auto simp: key)
  have split: "sorted (map (event_key s) (take n (queue s) @ queue s ! n # drop (Suc n) (queue s)))"
    using so id_take_nth_drop [OF n(1)] by simp
  then have so1: "sorted (map ?k (take n (queue s) @ drop (Suc n) (queue s)))"
    unfolding map_append mk by (auto simp: sorted_append)
  have lo: "\<forall>z \<in> set (take n (queue s)). ?k z \<le> event_key s ?p"
    and hi: "\<forall>z \<in> set (drop (Suc n) (queue s)). event_key s ?p \<le> ?k z"
    using split notin n(2) by (auto simp: key sorted_append)
  have pre: "arr_get (array (tv s)) (int n) = Some ?p"
      "deref_event s ?p = Some (tevs s ?p)" "update_event ?p (\<lambda>e. e\<lparr>time_of_execution := new_time\<rparr>) s = Some ?s"
  proof -
    have "?p \<in> set (queue s)" using n(1,2) by (metis nth_mem)
    then show "deref_event s ?p = Some (tevs s ?p)"
      "update_event ?p (\<lambda>e. e\<lparr>time_of_execution := new_time\<rparr>) s = Some ?s"
      by (rule tev_structD(6) [OF st], rule tev_structD(7) [OF st])
    show "arr_get (array (tv s)) (int n) = Some ?p"
      using vec_get_in [OF tev_structD(1) [OF st], of "int n"] n(2,6) by simp
  qed
  have finish: thesis
    if b: "(if new_time < event_key s ?p then xi_time_event_bubble_and_sort_down ?s (int n)
         else xi_time_event_bubble_and_sort_up ?s (int n)) = Some (i, t)"
      and t: "tev_struct t" "reordered ?s t" "sorted (map ?k (queue t))" for i t
  proof -
    note rd = reorderedD [OF t(2)]
    have "xi_time_event_restart s h new_time = Some (XI_STATE_OK, t)"
      using pre n b by (simp add: xi_time_event_restart_def event_key_def Let_def)
    moreover have "tev_ok t" using t rd(12) by (simp add: tev_ok_def)
    ultimately show thesis
      using rd key by (intro restarted [of t]) (simp_all add: fun_upd_def)
  qed
  have bnd: "max (elem_no (tv s) - 1) 0 = elem_no (tv s) - 1" "int n \<le> elem_no (tv s) - 1"
    using n(6) by linarith+
  show thesis
  proof (cases "new_time < event_key s ?p")
    case True
    obtain i t where t: "xi_time_event_bubble_loop ?s (int n) (-1) (elem_no (tv s) - 1) = Some (i, t)"
        "tev_struct t" "reordered ?s t" "queue t = sift_down ?k n (queue s)" "0 \<le> i" "i \<le> int n"
      using bubble_down_spec [OF st1, of n "elem_no (tv s) - 1"] n(1) so1 bnd
      by (auto simp: sorted_append)
    have "\<forall>z \<in> set (drop (Suc n) (queue s)). ?k (queue s ! n) \<le> ?k z"
      using hi True n(2) key by force
    then have so2: "sorted (map ?k (queue t))" using sift_down_props(1) [OF so1 n(1)] t(4) by simp
    have "xi_time_event_bubble_and_sort_down ?s (int n) = Some (i, t)"
      using bubble_core_spec [OF st1 _ _ _ t(2,3), of n "-1" i] t(1,5,6) n(1,6) bnd
      by (simp add: xi_time_event_bubble_and_sort_down_def)
    then show thesis using finish [OF _ t(2,3) so2] True by simp
  next
    case False
    obtain i t where t: "xi_time_event_bubble_loop ?s (int n) 1 (elem_no (tv s) - 1) = Some (i, t)"
        "tev_struct t" "reordered ?s t" "queue t = sift_up ?k n (queue s)" "int n \<le> i"
        "i \<le> elem_no (tv s) - 1"
      using bubble_up_spec [OF st1, of n "elem_no (tv s) - 1"] n(1) so1
      by (auto simp: sorted_append)
    have "\<forall>z \<in> set (take n (queue s)). ?k z \<le> ?k (queue s ! n)"
      using lo False n(2) key by force
    then have so2: "sorted (map ?k (queue t))" using sift_up_props(1) [OF so1 n(1)] t(4) by simp
    have "xi_time_event_bubble_and_sort_up ?s (int n) = Some (i, t)"
      using bubble_core_spec [OF st1 _ _ _ t(2,3), of n 1 i] t(1,5,6) n(1,6) bnd
      by (simp add: xi_time_event_bubble_and_sort_up_def)
    then show thesis using finish [OF _ t(2,3) so2] False by simp
  qed
qed

section \<open>Destruction\<close>

lemma destructor_fold:
  assumes "set ps \<subseteq> live_blocks (tmem s)" "NULL \<notin> set ps" "distinct ps"
  shows "\<exists>t. fold_option xi_time_event_destructor ps s = Some t
    \<and> live_blocks (tmem t) = live_blocks (tmem s) - set ps \<and> tv t = tv s \<and> handles t = handles s
    \<and> (\<forall>p \<in> set ps. position (tevs t p) = XI_TIME_EVENT_POSITION_INVALID)
    \<and> (\<forall>p. p \<notin> set ps \<longrightarrow> tevs t p = tevs s p) \<and> time_events.more t = time_events.more s"
  using assms
proof (induction ps arbitrary: s)
  case Nil
  then show ?case by simp
next
  case (Cons p ps)
  let ?s = "s\<lparr>tevs := (tevs s)(p := (tevs s p)\<lparr>position := XI_TIME_EVENT_POSITION_INVALID\<rparr>),
      tmem := xi_free p (tmem s)\<rparr>"
  have "xi_time_event_destructor p s = Some ?s"
    using Cons.prems by (simp add: xi_time_event_destructor_def update_event_def)
  moreover have "set ps \<subseteq> live_blocks (tmem ?s)" using Cons.prems by auto
  then obtain t where t: "fold_option xi_time_event_destructor ps ?s = Some t"
    "live_blocks (tmem t) = live_blocks (tmem ?s) - set ps" "tv t = tv s" "handles t = handles s"
    "\<forall>p \<in> set ps. position (tevs t p) = XI_TIME_EVENT_POSITION_INVALID"
    "\<forall>p. p \<notin> set ps \<longrightarrow> tevs t p = tevs ?s p" "time_events.more t = time_events.more s"
    using Cons.IH [of ?s] Cons.prems by auto
  moreover have "live_blocks (tmem t) = live_blocks (tmem s) - set (p # ps)"
    using t(2) Cons.prems by auto
  moreover have "position (tevs t p) = XI_TIME_EVENT_POSITION_INVALID"
    using t(6) Cons.prems(3) by simp
  ultimately show ?case by (intro exI [of _ t]) simp
qed

lemma xi_time_event_destroy_spec:
  assumes s: "tev_struct s"
  obtains t where "xi_time_event_destroy s = Some t"
    "live_blocks (tmem t) = live_blocks (tmem s) - set (queue s)" "tv t = tv s" "handles t = handles s"
    "\<forall>p \<in> set (queue s). position (tevs t p) = XI_TIME_EVENT_POSITION_INVALID"
    "time_events.more t = time_events.more s"
proof -
  have "set (queue s) \<subseteq> live_blocks (tmem s)" "NULL \<notin> set (queue s)" "distinct (queue s)" "vec_ok (tv s)"
    using s by (auto simp: tev_struct_def queue_live_def)
  then show thesis
    using that destructor_fold [of "queue s" s]
      xi_vector_for_each_spec [of "tv s" xi_time_event_destructor s]
    by (auto simp: xi_time_event_destroy_def)
qed

section \<open>The timer queue as an interface\<close>

text \<open>
  What the event dispatcher relies on: the events are kept in the order of their execution
  times, and taking the top one removes the first and keeps the rest as it is.
\<close>

locale timer_queue =
  fixes ok :: "'s \<Rightarrow> bool"
    and pending :: "'s \<Rightarrow> 'e list"
    and due :: "'s \<Rightarrow> 'e \<Rightarrow> int"
    and pop :: "'s \<Rightarrow> ('e \<times> 's) option"
  assumes pending_sorted: "ok s \<Longrightarrow> sorted (map (due s) (pending s))"
    and pop_law: "ok s \<Longrightarrow> pending s = e # es \<Longrightarrow>
      \<exists>t. pop s = Some (e, t) \<and> ok t \<and> pending t = es \<and> due t = due s"
begin

lemma pop_earliest:
  assumes "ok s" "pending s \<noteq> []"
  shows "\<exists>e t. pop s = Some (e, t) \<and> ok t \<and> e \<in> set (pending s) \<and> (\<forall>x \<in> set (pending s). due s e \<le> due s x)"
  using assms pop_law [of s "hd (pending s)" "tl (pending s)"] pending_sorted [of s]
  by (cases "pending s") auto

lemma pops_in_order:
  "ok s \<Longrightarrow> n \<le> length (pending s) \<Longrightarrow>
     \<exists>t. pops pop n s = Some (take n (pending s), t) \<and> ok t \<and> pending t = drop n (pending s)
       \<and> due t = due s"
proof (induction n arbitrary: s)
  case (Suc n)
  then obtain e es where p: "pending s = e # es" by (cases "pending s") auto
  obtain t where t: "pop s = Some (e, t)" "ok t" "pending t = es" "due t = due s"
    using pop_law [OF Suc.prems(1) p] by blast
  obtain u where "pops pop n t = Some (take n es, u)" "ok u" "pending u = drop n es" "due u = due t"
    using Suc.IH [of t] t Suc.prems(2) p by auto
  then show ?case using t p by simp
qed simp

lemma pops_sorted:
  assumes "ok s"
  shows "\<exists>es t. pops pop (length (pending s)) s = Some (es, t) \<and> mset es = mset (pending s)
    \<and> sorted (map (due s) es) \<and> pending t = []"
  using pops_in_order [OF assms, of "length (pending s)"] pending_sorted [OF assms] by auto

end

text \<open>
  Timers a user can cancel: \<open>cell s c\<close> is the event the handle \<open>c\<close> stands for, and
  cancelling removes exactly that event.
\<close>

locale cancellable_timer_queue = timer_queue ok pending due pop
  for ok :: "'s \<Rightarrow> bool" and pending :: "'s \<Rightarrow> 'e list" and due and pop +
  fixes cell :: "'s \<Rightarrow> 'c \<Rightarrow> 'e option"
    and cancel :: "'s \<Rightarrow> 'c \<Rightarrow> 's option"
  assumes pending_distinct: "ok s \<Longrightarrow> distinct (pending s)"
    and cell_pending: "ok s \<Longrightarrow> cell s c = Some e \<Longrightarrow> e \<in> set (pending s)"
    and cancel_law: "ok s \<Longrightarrow> cell s c = Some e \<Longrightarrow>
      \<exists>t. cancel s c = Some t \<and> ok t \<and> pending t = remove1 e (pending s) \<and> due t = due s
        \<and> cell t c = None"
begin

lemma cancelled_never_pops:
  assumes s: "ok s" and c: "cell s c = Some e"
  shows "\<exists>t. cancel s c = Some t \<and> (\<forall>n \<le> length (pending t). \<exists>es u. pops pop n t = Some (es, u)
    \<and> e \<notin> set es \<and> e \<notin> set (pending u))"
proof -
  obtain t where t: "cancel s c = Some t" "ok t" "pending t = remove1 e (pending s)"
    using cancel_law [OF s c] by blast
  have "e \<notin> set (pending t)" using t(3) pending_distinct [OF s] by (simp add: set_remove1_eq)
  then have "\<exists>es u. pops pop n t = Some (es, u) \<and> e \<notin> set es \<and> e \<notin> set (pending u)"
    if "n \<le> length (pending t)" for n
    using pops_in_order [OF t(2) that] by (metis in_set_dropD in_set_takeD)
  then show ?thesis using t(1) by blast
qed

end

definition event_of_handle :: "('h, 'z) time_events_scheme \<Rightarrow> addr \<Rightarrow> addr option" where
  "event_of_handle s h = (if handles s h = NULL then None else Some (handles s h))"

definition cancel_handle ::
    "('h, 'z) time_events_scheme \<Rightarrow> addr \<Rightarrow> ('h, 'z) time_events_scheme option" where
  "cancel_handle s h = map_option (\<lambda>(_, _, t). t) (xi_time_event_cancel s h)"

interpretation tq: timer_queue tev_ok queue event_key xi_time_event_get_top
proof
  fix s :: "('h, 'z) time_events_scheme" and e es
  assume s: "tev_ok s"
  then show "sorted (map (event_key s) (queue s))" by (simp add: tev_ok_def)
  assume "queue s = e # es"
  with s obtain t where "xi_time_event_get_top s = Some (e, t)" "removed_at 0 s t" "tev_ok t" "queue t = es"
    by (rule xi_time_event_get_top_spec)
  then show "\<exists>t. xi_time_event_get_top s = Some (e, t) \<and> tev_ok t \<and> queue t = es \<and> event_key t = event_key s"
    by (auto simp: removed_at_def)
qed

interpretation ctq: cancellable_timer_queue tev_ok queue event_key xi_time_event_get_top
  event_of_handle cancel_handle
proof
  fix s :: "('h, 'z) time_events_scheme" and c e
  assume s: "tev_ok s"
  then have st: "tev_struct s" by (simp add: tev_ok_def)
  then show "distinct (queue s)" by (rule tev_structD(4))
  assume "event_of_handle s c = Some e"
  then have e: "handles s c \<noteq> NULL" "handles s c = e"
    by (auto simp: event_of_handle_def split: if_splits)
  obtain n where "n < length (queue s)" "queue s ! n = handles s c"
    using st e(1) by (rule handle_cell)
  then show "e \<in> set (queue s)" using e(2) by (metis nth_mem)
  obtain n t where t: "xi_time_event_cancel s c = Some (XI_STATE_OK, Some (handles s c), t)"
      "removed_at n s t" "tev_ok t" "queue t = remove1 (handles s c) (queue s)"
      "handles t = (handles s)(c := NULL)"
    using s e(1) by (rule xi_time_event_cancel_spec)
  moreover have "event_key t = event_key s" using t(2) by (simp add: removed_at_def)
  moreover have "handles t c = NULL" using t(5) by simp
  ultimately show "\<exists>t. cancel_handle s c = Some t \<and> tev_ok t \<and> queue t = remove1 e (queue s)
      \<and> event_key t = event_key s \<and> event_of_handle t c = None"
    using e(2) by (simp add: cancel_handle_def event_of_handle_def)
qed

section \<open>Properties\<close>

text \<open>
  The state the witnesses run on: two queued events at addresses 3 and 4 (due at 10 and 20,
  the second one held by the handle at address 100), a third event at address 5 ready to be
  added, and an allocator that lets everything succeed.
\<close>

definition time_events_example :: "nat time_events" where
  "time_events_example = \<lparr>
     tv = \<lparr>vec_block = 1, array_block = 2, array = [3, 4], elem_no = 2, capacity = 2,
           memory_type = XI_MEMORY_TYPE_MANAGED\<rparr>,
     tevs = (\<lambda>p. \<lparr>event_handle = 7 + p, time_of_execution = if p = 3 then 10 else if p = 4 then 20 else 15,
        position = int p - 3, time_event_handle = if p = 4 then 100 else NULL\<rparr>),
     handles = (\<lambda>h. if h = 100 then 4 else NULL),
     tmem = \<lparr>alloc_script = [], next_block = 6, live_blocks = {1, 2, 3, 4, 5}\<rparr>\<rparr>"

lemma time_events_example_ok: "tev_ok time_events_example"
  by (auto simp: time_events_example_def tev_ok_def tev_struct_def vec_ok_def vec_owned_def
      mem_ok_def queue_live_def queue_positions_def queue_handles_def elems_def event_key_def
      less_Suc_eq numeral_2_eq_2)

lemma time_events_example_queue: "queue time_events_example = [3, 4]"
  by (simp add: time_events_example_def elems_def)

lemma time_events_example_queueable: "queueable time_events_example 5"
  by (simp add: queueable_def time_events_example_def elems_def)

text \<open>
  Adding a time event keeps the container's invariant on every path. Either the event is
  queued behind all events that are not later than it and the caller's handle designates it,
  or the vector cannot grow, the result is \<open>XI_OUT_OF_MEMORY\<close> and queue, handles and the set
  of live blocks are what they were.
\<close>

lemma time_event_add_correct:
  assumes "tev_ok s" "queueable s p" "h \<noteq> NULL \<Longrightarrow> handles s h = NULL"
  shows "\<exists>r t. xi_time_event_add s p h = Some (r, t) \<and> tev_ok t
    \<and> (r = XI_STATE_OK \<and> queue t = insert_by_time s p \<and> event_key t = event_key s
         \<and> handles t = (if h = NULL then handles s else (handles s)(h := p))
       \<or> r = XI_OUT_OF_MEMORY \<and> elem_no (tv s) = capacity (tv s) \<and> queue t = queue s
         \<and> handles t = handles s \<and> live_blocks (tmem t) = live_blocks (tmem s))"
  using assms
proof (rule xi_time_event_add_spec)
  fix t
  assume f: "xi_time_event_add s p h = Some (XI_OUT_OF_MEMORY, t)" "tev_ok t" "t = s\<lparr>tmem := tmem t\<rparr>"
    "live_blocks (tmem t) = live_blocks (tmem s)" "elem_no (tv s) = capacity (tv s)"
  moreover have "queue t = queue s" "handles t = handles s"
    using arg_cong [OF f(3), of tv] arg_cong [OF f(3), of handles] by simp_all
  ultimately show ?thesis by blast
qed blast+

text \<open>
  C12: Popping the whole queue returns every queued event exactly once, in the order of their
  execution times, and leaves it empty.
\<close>

theorem time_event_queue_drains_in_order:
  assumes "tev_ok s"
  shows "\<exists>es t. pops xi_time_event_get_top (length (queue s)) s = Some (es, t)
    \<and> mset es = mset (queue s) \<and> sorted (map (event_key s) es) \<and> queue t = []"
  by (rule tq.pops_sorted [OF assms])

theorem time_event_queue_drains_in_order_witness:
  "\<exists>es t. pops xi_time_event_get_top 2 time_events_example = Some (es, t)
    \<and> mset es = {#3, 4#} \<and> sorted (map (event_key time_events_example) es) \<and> queue t = []"
  using time_event_queue_drains_in_order [OF time_events_example_ok]
  by (simp add: time_events_example_queue numeral_2_eq_2 eval_nat_numeral)

text \<open>
  C14: Cancelling through a live handle succeeds, returns the event the handle designates,
  takes exactly that event out of the queue (the others keep their order) and clears the
  handle, so the same handle cannot cancel twice.
\<close>

theorem time_event_cancel_correct:
  assumes "tev_ok s" "handles s h \<noteq> NULL"
  shows "\<exists>t. xi_time_event_cancel s h = Some (XI_STATE_OK, Some (handles s h), t) \<and> tev_ok t
    \<and> queue t = remove1 (handles s h) (queue s) \<and> handles t = (handles s)(h := NULL)
    \<and> xi_time_event_cancel t h = None"
  using assms
proof (rule xi_time_event_cancel_spec)
  fix n t
  assume t: "xi_time_event_cancel s h = Some (XI_STATE_OK, Some (handles s h), t)" "tev_ok t"
    "queue t = remove1 (handles s h) (queue s)" "handles t = (handles s)(h := NULL)"
  moreover have "xi_time_event_cancel t h = None"
    using t(4) by (simp add: xi_time_event_cancel_def xi_assert_def)
  ultimately show ?thesis by blast
qed

theorem time_event_cancel_correct_witness:
  "\<exists>t. xi_time_event_cancel time_events_example 100 = Some (XI_STATE_OK, Some 4, t)
    \<and> queue t = [3] \<and> handles t 100 = NULL"
proof -
  have "handles time_events_example 100 = 4" by (simp add: time_events_example_def)
  then show ?thesis
    using time_event_cancel_correct [OF time_events_example_ok, of 100]
    by (auto simp: time_events_example_queue)
qed

text \<open>
  A cancelled event is never returned by any later sequence of pops, and stays in no
  later queue.
\<close>

lemma time_event_cancelled_never_fires:
  assumes "tev_ok s" "handles s h \<noteq> NULL"
  shows "\<exists>t. cancel_handle s h = Some t \<and> (\<forall>n \<le> length (queue t). \<exists>es u.
    pops xi_time_event_get_top n t = Some (es, u) \<and> handles s h \<notin> set es \<and> handles s h \<notin> set (queue u))"
  by (rule ctq.cancelled_never_pops) (use assms in \<open>simp_all add: event_of_handle_def\<close>)

text \<open>
  C13: Restarting a timer changes the execution time of the event its handle designates,
  keeps every other event's time and the set of queued events, and moves the event (in either
  direction) so that the queue stays sorted; handles stay valid.
\<close>

theorem time_event_restart_correct:
  assumes "tev_ok s" "handles s h \<noteq> NULL"
  shows "\<exists>t. xi_time_event_restart s h new_time = Some (XI_STATE_OK, t) \<and> tev_ok t
    \<and> mset (queue t) = mset (queue s) \<and> event_key t = (event_key s)(handles s h := new_time)
    \<and> handles t = handles s"
  using assms by (rule xi_time_event_restart_spec [where new_time = new_time]) blast

theorem time_event_restart_correct_witness:
  "\<exists>t. xi_time_event_restart time_events_example 100 5 = Some (XI_STATE_OK, t) \<and> tev_ok t
    \<and> mset (queue t) = {#3, 4#} \<and> event_key t 4 = 5"
proof -
  have "handles time_events_example 100 = 4" by (simp add: time_events_example_def)
  then show ?thesis
    using time_event_restart_correct [OF time_events_example_ok, of 100 5]
    by (auto simp: time_events_example_queue)
qed

text \<open>
  Destroying the container frees every queued event and marks it as no longer queued, but
  it leaves the users' handle cells as they are: a handle of a queued event still holds the
  address of the freed block afterwards.
\<close>

lemma time_event_destroy_leaves_dangling_handles:
  assumes "tev_struct s" "handles s h \<noteq> NULL"
  shows "\<exists>t. xi_time_event_destroy s = Some t
    \<and> live_blocks (tmem t) = live_blocks (tmem s) - set (queue s)
    \<and> handles t h = handles s h \<and> handles t h \<notin> live_blocks (tmem t)"
proof -
  have "queue_handles s" using assms(1) by (simp add: tev_struct_def)
  then have "handles s h \<in> set (queue s)" using queue_handlesD(3) assms(2) by blast
  then show ?thesis using assms(1) by (auto elim: xi_time_event_destroy_spec)
qed

end
