(* ===== verification/Xi_Event_Handle.thy ===== *)
theory Xi_Event_Handle
  imports Xi_Vector
begin

text \<open>
  \<open>src/libxively/event_dispatcher/xi_event_handle.c\<close> and \<open>xi_event_handle_typedef.h\<close>: an
  event handle is a function pointer together with its arguments. The tagged union of the
  source is a datatype; \<open>'f\<close> is the type of function pointers, data pointers are addresses.
  The debug fields (file and line of creation) carry no behaviour and are left out.
\<close>

datatype 'f xi_handlers =
    XI_EVENT_HANDLE_UNSET
  | XI_EVENT_HANDLE_ARGC0 'f
  | XI_EVENT_HANDLE_ARGC1 'f addr
  | XI_EVENT_HANDLE_ARGC2 'f addr addr
  | XI_EVENT_HANDLE_ARGC3 'f addr addr xi_state
  | XI_EVENT_HANDLE_ARGC4 'f addr addr xi_state addr
  | XI_EVENT_HANDLE_ARGC5 'f addr addr xi_state addr addr
  | XI_EVENT_HANDLE_ARGC6 'f addr addr xi_state addr addr addr

record 'f xi_event_handle =
  handlers :: "'f xi_handlers"
  target_tid :: nat

section \<open>Constructors\<close>

definition xi_make_empty_handle_impl :: "nat \<Rightarrow> 'f xi_event_handle" where
  "xi_make_empty_handle_impl tid = \<lparr>handlers = XI_EVENT_HANDLE_UNSET, target_tid = tid\<rparr>"

definition xi_make_handle_argc0 :: "nat \<Rightarrow> 'f \<Rightarrow> 'f xi_event_handle" where
  "xi_make_handle_argc0 tid fn = \<lparr>handlers = XI_EVENT_HANDLE_ARGC0 fn, target_tid = tid\<rparr>"

definition xi_make_handle_argc1 :: "nat \<Rightarrow> 'f \<Rightarrow> addr \<Rightarrow> 'f xi_event_handle" where
  "xi_make_handle_argc1 tid fn a1 = \<lparr>handlers = XI_EVENT_HANDLE_ARGC1 fn a1, target_tid = tid\<rparr>"

definition xi_make_handle_argc2 :: "nat \<Rightarrow> 'f \<Rightarrow> addr \<Rightarrow> addr \<Rightarrow> 'f xi_event_handle" where
  "xi_make_handle_argc2 tid fn a1 a2 =
     \<lparr>handlers = XI_EVENT_HANDLE_ARGC2 fn a1 a2, target_tid = tid\<rparr>"

definition xi_make_handle_argc3 :: "nat \<Rightarrow> 'f \<Rightarrow> addr \<Rightarrow> addr \<Rightarrow> xi_state \<Rightarrow> 'f xi_event_handle" where
  "xi_make_handle_argc3 tid fn a1 a2 a3 =
     \<lparr>handlers = XI_EVENT_HANDLE_ARGC3 fn a1 a2 a3, target_tid = tid\<rparr>"

definition xi_make_handle_argc4 ::
    "nat \<Rightarrow> 'f \<Rightarrow> addr \<Rightarrow> addr \<Rightarrow> xi_state \<Rightarrow> addr \<Rightarrow> 'f xi_event_handle" where
  "xi_make_handle_argc4 tid fn a1 a2 a3 a4 =
     \<lparr>handlers = XI_EVENT_HANDLE_ARGC4 fn a1 a2 a3 a4, target_tid = tid\<rparr>"

definition xi_make_handle_argc5 ::
    "nat \<Rightarrow> 'f \<Rightarrow> addr \<Rightarrow> addr \<Rightarrow> xi_state \<Rightarrow> addr \<Rightarrow> addr \<Rightarrow> 'f xi_event_handle" where
  "xi_make_handle_argc5 tid fn a1 a2 a3 a4 a5 =
     \<lparr>handlers = XI_EVENT_HANDLE_ARGC5 fn a1 a2 a3 a4 a5, target_tid = tid\<rparr>"

definition xi_make_handle_argc6 ::
    "nat \<Rightarrow> 'f \<Rightarrow> addr \<Rightarrow> addr \<Rightarrow> xi_state \<Rightarrow> addr \<Rightarrow> addr \<Rightarrow> addr \<Rightarrow> 'f xi_event_handle" where
  "xi_make_handle_argc6 tid fn a1 a2 a3 a4 a5 a6 =
     \<lparr>handlers = XI_EVENT_HANDLE_ARGC6 fn a1 a2 a3 a4 a5 a6, target_tid = tid\<rparr>"

section \<open>Copies and disposal\<close>

definition sizeof_xi_event_handle :: nat where "sizeof_xi_event_handle = 72"

text \<open>
  \<open>pointer\<close> is the address of the caller's pointer (\<open>NULL\<close> or not), \<open>current\<close> the value it
  holds; the result is the state, the value written through the pointer with the contents of
  the new block, and the memory.
\<close>

definition xi_pointerize_handle ::
    "'f xi_event_handle \<Rightarrow> addr \<Rightarrow> addr \<Rightarrow> xi_memory
       \<Rightarrow> xi_state \<times> (addr \<times> 'f xi_event_handle) option \<times> xi_memory" where
  "xi_pointerize_handle handle pointer current m =
     (if pointer = NULL then (XI_INVALID_PARAMETER, None, m)
      else if current \<noteq> NULL then (XI_INVALID_PARAMETER, None, m)
      else let (p, m1) = xi_alloc sizeof_xi_event_handle m
           in if p = NULL then (XI_OUT_OF_MEMORY, None, m1)
              else (XI_STATE_OK, Some (p, handle), m1))"

definition xi_dispose_handle :: "'f xi_event_handle \<Rightarrow> 'f xi_event_handle" where
  "xi_dispose_handle handle = \<lparr>handlers = XI_EVENT_HANDLE_UNSET, target_tid = 0\<rparr>"

definition xi_handle_disposed :: "'f xi_event_handle \<Rightarrow> nat" where
  "xi_handle_disposed handle = (case handlers handle of XI_EVENT_HANDLE_UNSET \<Rightarrow> 1 | _ \<Rightarrow> 0)"

section \<open>Calling a handle\<close>

text \<open>
  The code behind the function pointers is the application: a function of the pointer, the
  arguments and the state it runs on, \<open>None\<close> when the call has no defined result. A handle's
  call is the pointer with its arguments, if it has one.
\<close>

datatype xi_argument = Pointer addr | State xi_state

type_synonym ('f, 's) xi_environment = "'f \<Rightarrow> xi_argument list \<Rightarrow> 's \<Rightarrow> (xi_state \<times> 's) option"

fun handle_call :: "'f xi_handlers \<Rightarrow> ('f \<times> xi_argument list) option" where
  "handle_call XI_EVENT_HANDLE_UNSET = None"
| "handle_call (XI_EVENT_HANDLE_ARGC0 fn) = Some (fn, [])"
| "handle_call (XI_EVENT_HANDLE_ARGC1 fn a1) = Some (fn, [Pointer a1])"
| "handle_call (XI_EVENT_HANDLE_ARGC2 fn a1 a2) = Some (fn, [Pointer a1, Pointer a2])"
| "handle_call (XI_EVENT_HANDLE_ARGC3 fn a1 a2 a3) = Some (fn, [Pointer a1, Pointer a2, State a3])"
| "handle_call (XI_EVENT_HANDLE_ARGC4 fn a1 a2 a3 a4) =
     Some (fn, [Pointer a1, Pointer a2, State a3, Pointer a4])"
| "handle_call (XI_EVENT_HANDLE_ARGC5 fn a1 a2 a3 a4 a5) =
     Some (fn, [Pointer a1, Pointer a2, State a3, Pointer a4, Pointer a5])"
| "handle_call (XI_EVENT_HANDLE_ARGC6 fn a1 a2 a3 a4 a5 a6) =
     Some (fn, [Pointer a1, Pointer a2, State a3, Pointer a4, Pointer a5, Pointer a6])"

definition xi_evtd_execute_handle ::
    "('f, 's) xi_environment \<Rightarrow> 'f xi_event_handle \<Rightarrow> 's \<Rightarrow> (xi_state \<times> 's) option" where
  "xi_evtd_execute_handle env handle s = (case handle_call (handlers handle) of
     None \<Rightarrow> Some (XI_UNSET_HANDLER_ERROR, s)
   | Some (fn, args) \<Rightarrow> env fn args s)"

lemma execute_unset [simp]:
  "handlers handle = XI_EVENT_HANDLE_UNSET \<Longrightarrow>
     xi_evtd_execute_handle env handle s = Some (XI_UNSET_HANDLER_ERROR, s)"
  by (simp add: xi_evtd_execute_handle_def)

lemma handle_disposed_iff: "xi_handle_disposed h = 1 \<longleftrightarrow> handle_call (handlers h) = None"
  by (cases "handlers h") (simp_all add: xi_handle_disposed_def)

lemma dispose_disposes [simp]: "xi_handle_disposed (xi_dispose_handle h) = 1"
  "handlers (xi_dispose_handle h) = XI_EVENT_HANDLE_UNSET"
  by (simp_all add: xi_dispose_handle_def xi_handle_disposed_def)

end
