(* ===== verification/Xi_Event_Dispatcher.thy ===== *)
theory Xi_Event_Dispatcher
  imports Xi_Time_Event Xi_Event_Handle
begin

unbundle bit_operations_syntax

text \<open>
  \<open>src/libxively/event_dispatcher/xi_event_dispatcher.c\<close>: the scheduler of the library. An
  instance keeps a queue of calls to make, a container of timed events, and two vectors of
  registrations of file descriptors. The instance extends the record of the timer container;
  the registrations are a store of tuples the vectors point into. The critical sections are
  the empty ones of the single-threaded build.
\<close>

section \<open>State\<close>

datatype xi_evtd_fd_type = XI_EVTD_FD_TYPE_SOCKET | XI_EVTD_FD_TYPE_FILE

text \<open>\<open>xi_event_type_t\<close> is a bit set.\<close>

type_synonym xi_event_type = "32 word"

definition XI_EVENT_WANT_READ :: xi_event_type where "XI_EVENT_WANT_READ = 2"
definition XI_EVENT_WANT_WRITE :: xi_event_type where "XI_EVENT_WANT_WRITE = 4"
definition XI_EVENT_ERROR :: xi_event_type where "XI_EVENT_ERROR = 8"
definition XI_EVENT_WANT_CONNECT :: xi_event_type where "XI_EVENT_WANT_CONNECT = 16"

record 'f xi_evtd_fd_tuple =
  fd :: int
  handle :: "'f xi_event_handle"
  read_handle :: "'f xi_event_handle"
  event_type :: xi_event_type
  fd_type :: xi_evtd_fd_type

text \<open>
  \<open>call_queue\<close> is the linked list: the address of each node with the handle it holds.
\<close>

record 'f xi_evtd_instance = "'f xi_event_handle time_events" +
  evtd_block :: addr
  current_step :: int
  call_queue :: "(addr \<times> 'f xi_event_handle) list"
  handles_and_socket_fd :: "addr xi_vector"
  handles_and_file_fd :: "addr xi_vector"
  fd_tuples :: "addr \<Rightarrow> 'f xi_evtd_fd_tuple"
  on_empty :: "'f xi_event_handle"
  stop :: nat

definition sizeof_xi_evtd_fd_tuple :: nat where "sizeof_xi_evtd_fd_tuple = 160"
definition sizeof_xi_event_handle_queue :: nat where "sizeof_xi_event_handle_queue = 80"
definition sizeof_xi_time_event :: nat where "sizeof_xi_time_event = 96"
definition sizeof_xi_evtd_instance :: nat where "sizeof_xi_evtd_instance = 128"

text \<open>The addition of two \<open>long\<close> values: out of range it has no defined result.\<close>

definition long_add :: "int \<Rightarrow> int \<Rightarrow> int option" where
  "long_add a b = (if - (2 ^ 63) \<le> a + b \<and> a + b < 2 ^ 63 then Some (a + b) else None)"

section \<open>File descriptors\<close>

definition deref_tuple :: "('f, 'z) xi_evtd_instance_scheme \<Rightarrow> addr \<Rightarrow> 'f xi_evtd_fd_tuple option" where
  "deref_tuple s p = (if p \<noteq> NULL \<and> p \<in> live_blocks (tmem s) then Some (fd_tuples s p) else None)"

definition xi_evtd_cmp_fd :: "('f, 'z) xi_evtd_instance_scheme \<Rightarrow> addr \<Rightarrow> int \<Rightarrow> int option" where
  "xi_evtd_cmp_fd s e0 value = do {
     tuple \<leftarrow> deref_tuple s e0;
     Some (if fd tuple = value then 0 else -1) }"

text \<open>The two containers, by the type of the descriptors they hold.\<close>

definition container ::
    "xi_evtd_fd_type \<Rightarrow> ('f, 'z) xi_evtd_instance_scheme \<Rightarrow> addr xi_vector" where
  "container ty s = (case ty of XI_EVTD_FD_TYPE_SOCKET \<Rightarrow> handles_and_socket_fd s
                     | XI_EVTD_FD_TYPE_FILE \<Rightarrow> handles_and_file_fd s)"

definition set_container ::
    "xi_evtd_fd_type \<Rightarrow> addr xi_vector \<Rightarrow> ('f, 'z) xi_evtd_instance_scheme
       \<Rightarrow> ('f, 'z) xi_evtd_instance_scheme" where
  "set_container ty v s = (case ty of XI_EVTD_FD_TYPE_SOCKET \<Rightarrow> s\<lparr>handles_and_socket_fd := v\<rparr>
                           | XI_EVTD_FD_TYPE_FILE \<Rightarrow> s\<lparr>handles_and_file_fd := v\<rparr>)"

text \<open>The container is the one of \<open>fd_type\<close> in both callers.\<close>

definition xi_evtd_register_fd ::
    "('f, 'z) xi_evtd_instance_scheme \<Rightarrow> xi_event_type \<Rightarrow> xi_evtd_fd_type \<Rightarrow> int
       \<Rightarrow> 'f xi_event_handle \<Rightarrow> 'f xi_event_handle
       \<Rightarrow> (int \<times> ('f, 'z) xi_evtd_instance_scheme) option" where
  "xi_evtd_register_fd s etype ftype fd0 rhandle chandle = do {
     found \<leftarrow> xi_vector_find (container ftype s) fd0 (xi_evtd_cmp_fd s);
     xi_assert (found = -1);
     let (tuple, m1) = xi_alloc sizeof_xi_evtd_fd_tuple (tmem s);
     if tuple = NULL then Some (0, s\<lparr>tmem := m1\<rparr>)
     else do {
       let s1 = s\<lparr>tmem := m1, fd_tuples := (fd_tuples s)(tuple :=
             \<lparr>fd = fd0, handle = chandle, read_handle = rhandle, event_type = etype, fd_type = ftype\<rparr>)\<rparr>;
       (e, v, m2) \<leftarrow> xi_vector_push (container ftype s1) tuple (tmem s1);
       if e = None
       then Some (0, set_container ftype v (s1\<lparr>tmem := xi_free tuple m2\<rparr>))
       else Some (1, set_container ftype v (s1\<lparr>tmem := m2\<rparr>)) } }"

definition xi_evtd_register_file_fd ::
    "('f, 'z) xi_evtd_instance_scheme \<Rightarrow> xi_event_type \<Rightarrow> int \<Rightarrow> 'f xi_event_handle
       \<Rightarrow> (int \<times> ('f, 'z) xi_evtd_instance_scheme) option" where
  "xi_evtd_register_file_fd s etype fd0 h =
     xi_evtd_register_fd s etype XI_EVTD_FD_TYPE_FILE fd0 h h"

definition xi_evtd_register_socket_fd ::
    "('f, 'z) xi_evtd_instance_scheme \<Rightarrow> int \<Rightarrow> 'f xi_event_handle
       \<Rightarrow> (int \<times> ('f, 'z) xi_evtd_instance_scheme) option" where
  "xi_evtd_register_socket_fd s fd0 h =
     xi_evtd_register_fd s XI_EVENT_WANT_READ XI_EVTD_FD_TYPE_SOCKET fd0 h h"

definition xi_evtd_unregister_fd ::
    "('f, 'z) xi_evtd_instance_scheme \<Rightarrow> xi_evtd_fd_type \<Rightarrow> int
       \<Rightarrow> (int \<times> ('f, 'z) xi_evtd_instance_scheme) option" where
  "xi_evtd_unregister_fd s ftype fd0 = do {
     id0 \<leftarrow> xi_vector_find (container ftype s) fd0 (xi_evtd_cmp_fd s);
     if id0 \<noteq> -1
     then do {
       p \<leftarrow> arr_get (array (container ftype s)) id0;
       xi_assert (p \<noteq> NULL);
       cells \<leftarrow> arr_set (array (container ftype s)) id0 NULL;
       v \<leftarrow> xi_vector_del ((container ftype s)\<lparr>array := cells\<rparr>) id0;
       Some (1, set_container ftype v (s\<lparr>tmem := xi_free p (tmem s)\<rparr>)) }
     else Some (-1, s) }"

definition xi_evtd_unregister_file_fd ::
    "('f, 'z) xi_evtd_instance_scheme \<Rightarrow> int \<Rightarrow> (int \<times> ('f, 'z) xi_evtd_instance_scheme) option" where
  "xi_evtd_unregister_file_fd s fd0 = xi_evtd_unregister_fd s XI_EVTD_FD_TYPE_FILE fd0"

definition xi_evtd_unregister_socket_fd ::
    "('f, 'z) xi_evtd_instance_scheme \<Rightarrow> int \<Rightarrow> (int \<times> ('f, 'z) xi_evtd_instance_scheme) option" where
  "xi_evtd_unregister_socket_fd s fd0 = xi_evtd_unregister_fd s XI_EVTD_FD_TYPE_SOCKET fd0"

definition xi_evtd_continue_when_evt_on_socket ::
    "('f, 'z) xi_evtd_instance_scheme \<Rightarrow> xi_event_type \<Rightarrow> 'f xi_event_handle \<Rightarrow> int
       \<Rightarrow> (int \<times> ('f, 'z) xi_evtd_instance_scheme) option" where
  "xi_evtd_continue_when_evt_on_socket s etype h fd0 = do {
     id0 \<leftarrow> xi_vector_find (handles_and_socket_fd s) fd0 (xi_evtd_cmp_fd s);
     if id0 \<noteq> -1
     then do {
       p \<leftarrow> arr_get (array (handles_and_socket_fd s)) id0;
       tuple \<leftarrow> deref_tuple s p;
       xi_assert (fd_type tuple = XI_EVTD_FD_TYPE_SOCKET);
       Some (1, s\<lparr>fd_tuples := (fd_tuples s)(p := tuple\<lparr>event_type := etype, handle := h\<rparr>)\<rparr>) }
     else Some (-1, s) }"

section \<open>Calls and timed calls\<close>

definition xi_evtd_continue_when_empty ::
    "('f, 'z) xi_evtd_instance_scheme \<Rightarrow> 'f xi_event_handle \<Rightarrow> ('f, 'z) xi_evtd_instance_scheme" where
  "xi_evtd_continue_when_empty s h = s\<lparr>on_empty := h\<rparr>"

text \<open>The result is the address of the queue element, or \<open>NULL\<close>.\<close>

definition xi_evtd_execute ::
    "('f, 'z) xi_evtd_instance_scheme \<Rightarrow> 'f xi_event_handle
       \<Rightarrow> addr \<times> ('f, 'z) xi_evtd_instance_scheme" where
  "xi_evtd_execute s h =
     (let (queue_elem, m1) = xi_alloc sizeof_xi_event_handle_queue (tmem s)
      in if queue_elem = NULL then (NULL, s\<lparr>tmem := m1\<rparr>)
         else (queue_elem, s\<lparr>tmem := m1, call_queue := call_queue s @ [(queue_elem, h)]\<rparr>))"

definition xi_evtd_execute_in ::
    "('f, 'z) xi_evtd_instance_scheme \<Rightarrow> 'f xi_event_handle \<Rightarrow> int \<Rightarrow> addr
       \<Rightarrow> (xi_state \<times> ('f, 'z) xi_evtd_instance_scheme) option" where
  "xi_evtd_execute_in s h time_diff ret_time_event_handle = do {
     let (time_event, m1) = xi_alloc sizeof_xi_time_event (tmem s);
     if time_event = NULL then Some (XI_OUT_OF_MEMORY, s\<lparr>tmem := m1\<rparr>)
     else do {
       t \<leftarrow> long_add (current_step s) time_diff;
       xi_time_event_add
         (s\<lparr>tmem := m1, tevs := (tevs s)(time_event :=
              \<lparr>event_handle = h, time_of_execution = t, position = 0, time_event_handle = NULL\<rparr>)\<rparr>)
         time_event ret_time_event_handle } }"

definition xi_evtd_cancel ::
    "('f, 'z) xi_evtd_instance_scheme \<Rightarrow> addr \<Rightarrow> (xi_state \<times> ('f, 'z) xi_evtd_instance_scheme) option"
where
  "xi_evtd_cancel s h = do {
     (ret_state, time_event, s1) \<leftarrow> xi_time_event_cancel s h;
     (case time_event of
        None \<Rightarrow> Some (ret_state, s1)
      | Some p \<Rightarrow> Some (ret_state, s1\<lparr>tmem := xi_free p (tmem s1)\<rparr>)) }"

definition xi_evtd_restart ::
    "('f, 'z) xi_evtd_instance_scheme \<Rightarrow> addr \<Rightarrow> int
       \<Rightarrow> (xi_state \<times> ('f, 'z) xi_evtd_instance_scheme) option" where
  "xi_evtd_restart s h new_time = do {
     t \<leftarrow> long_add (current_step s) new_time;
     xi_time_event_restart s h t }"

section \<open>Life cycle\<close>

text \<open>
  The rest of the extended state, the application's \<open>z\<close>, is not touched by the instance. A
  failing allocation ends in \<open>XI_SAFE_FREE( evtd_instance )\<close>. \<open>cs_state\<close> is the result of
  \<open>xi_init_critical_section\<close>, provided by the platform.
\<close>

definition xi_evtd_create_instance ::
    "xi_state \<Rightarrow> xi_memory \<Rightarrow> (addr \<times> 'f xi_evtd_instance option \<times> xi_memory) option" where
  "xi_evtd_create_instance cs_state m = do {
     let (evtd_instance, m1) = xi_alloc sizeof_xi_evtd_instance m;
     if evtd_instance = NULL then Some (NULL, None, m1)
     else do {
       (v1, m2) \<leftarrow> xi_vector_create m1;
       (case v1 of None \<Rightarrow> Some (NULL, None, xi_free evtd_instance m2) | Some events \<Rightarrow> do {
         (v2, m3) \<leftarrow> xi_vector_create m2;
         (case v2 of None \<Rightarrow> Some (NULL, None, xi_free evtd_instance m3) | Some sockets \<Rightarrow> do {
           (v3, m4) \<leftarrow> xi_vector_create m3;
           (case v3 of None \<Rightarrow> Some (NULL, None, xi_free evtd_instance m4) | Some files \<Rightarrow>
             if cs_state \<noteq> XI_STATE_OK then Some (NULL, None, xi_free evtd_instance m4)
             else Some (evtd_instance, Some
               \<lparr>tv = events, tevs = (\<lambda>_. \<lparr>event_handle = xi_make_empty_handle_impl 0,
                    time_of_execution = 0, position = 0, time_event_handle = NULL\<rparr>),
                handles = (\<lambda>_. NULL), tmem = m4, evtd_block = evtd_instance, current_step = 0,
                call_queue = [], handles_and_socket_fd = sockets, handles_and_file_fd = files,
                fd_tuples = (\<lambda>_. \<lparr>fd = 0, handle = xi_make_empty_handle_impl 0,
                    read_handle = xi_make_empty_handle_impl 0, event_type = 0,
                    fd_type = XI_EVTD_FD_TYPE_SOCKET\<rparr>),
                on_empty = xi_make_empty_handle_impl 0, stop = 0\<rparr>, m4)) }) }) } }"

definition xi_evtd_destroy_instance ::
    "('f, 'z) xi_evtd_instance_scheme \<Rightarrow> xi_memory option" where
  "xi_evtd_destroy_instance s = do {
     m1 \<leftarrow> xi_vector_destroy (handles_and_file_fd s) (tmem s);
     m2 \<leftarrow> xi_vector_destroy (handles_and_socket_fd s) m1;
     s1 \<leftarrow> xi_time_event_destroy (s\<lparr>tmem := m2\<rparr>);
     m3 \<leftarrow> xi_vector_destroy (tv s1) (tmem s1);
     Some (xi_free (evtd_block s) m3) }"

section \<open>The step\<close>

definition xi_state_is_fatal :: "xi_state \<Rightarrow> bool" where
  "xi_state_is_fatal e = (e = XI_OUT_OF_MEMORY \<or> e = XI_INTERNAL_ERROR \<or> e = XI_MQTT_UNKNOWN_MESSAGE_ID)"

definition xi_evtd_stop :: "('f, 'z) xi_evtd_instance_scheme \<Rightarrow> ('f, 'z) xi_evtd_instance_scheme" where
  "xi_evtd_stop s = s\<lparr>stop := 1\<rparr>"

definition xi_evtd_single_step ::
    "('f, ('f, 'z) xi_evtd_instance_scheme) xi_environment \<Rightarrow> ('f, 'z) xi_evtd_instance_scheme \<Rightarrow> int
       \<Rightarrow> (nat \<times> ('f, 'z) xi_evtd_instance_scheme) option" where
  "xi_evtd_single_step env s new_step =
     (case call_queue s of
        [] \<Rightarrow> Some (0, s\<lparr>current_step := new_step\<rparr>)
      | (queue_elem, h) # rest \<Rightarrow> do {
          (result, s1) \<leftarrow> xi_evtd_execute_handle env h (s\<lparr>current_step := new_step, call_queue := rest\<rparr>);
          Some (1, s1\<lparr>tmem := xi_free queue_elem (tmem s1)\<rparr>) })"

text \<open>The three loops of a step may run forever when handlers keep posting: \<open>None\<close>.\<close>

partial_function (option) xi_evtd_timed_loop ::
    "('f, ('f, 'z) xi_evtd_instance_scheme) xi_environment \<Rightarrow> ('f, 'z) xi_evtd_instance_scheme
       \<Rightarrow> ('f, 'z) xi_evtd_instance_scheme option" where
  "xi_evtd_timed_loop env s =
     (if elem_no (tv s) = 0 then Some s
      else do {
        top_one \<leftarrow> xi_time_event_peek_top s;
        e \<leftarrow> deref_event s top_one;
        if time_of_execution e \<le> current_step s
        then do {
          (tmp, s1) \<leftarrow> xi_time_event_get_top s;
          e1 \<leftarrow> deref_event s1 tmp;
          (result, s2) \<leftarrow> xi_evtd_execute_handle env (event_handle e1) s1;
          let s3 = s2\<lparr>tmem := xi_free tmp (tmem s2)\<rparr>;
          xi_evtd_timed_loop env (if xi_state_is_fatal result then xi_evtd_stop s3 else s3) }
        else Some s })"

partial_function (option) xi_evtd_call_loop ::
    "('f, ('f, 'z) xi_evtd_instance_scheme) xi_environment \<Rightarrow> int \<Rightarrow> ('f, 'z) xi_evtd_instance_scheme
       \<Rightarrow> ('f, 'z) xi_evtd_instance_scheme option" where
  "xi_evtd_call_loop env new_step s = do {
     (more_calls, s1) \<leftarrow> xi_evtd_single_step env s new_step;
     if more_calls \<noteq> 0 then xi_evtd_call_loop env new_step s1 else Some s1 }"

definition xi_evtd_step ::
    "('f, ('f, 'z) xi_evtd_instance_scheme) xi_environment \<Rightarrow> ('f, 'z) xi_evtd_instance_scheme \<Rightarrow> int
       \<Rightarrow> ('f, 'z) xi_evtd_instance_scheme option" where
  "xi_evtd_step env s new_step = do {
     s1 \<leftarrow> xi_evtd_timed_loop env (s\<lparr>current_step := new_step\<rparr>);
     s2 \<leftarrow> xi_evtd_call_loop env new_step s1;
     if elem_no (tv s2) = 0 \<and> handlers (on_empty s2) \<noteq> XI_EVENT_HANDLE_UNSET
     then do {
       (_, s3) \<leftarrow> xi_evtd_execute_handle env (on_empty s2) s2;
       Some (s3\<lparr>on_empty := xi_dispose_handle (on_empty s3)\<rparr>) }
     else Some s2 }"

text \<open>\<open>None\<close> is a \<open>NULL\<close> instance.\<close>

definition xi_evtd_dispatcher_continue :: "('f, 'z) xi_evtd_instance_scheme option \<Rightarrow> bool" where
  "xi_evtd_dispatcher_continue inst = (case inst of None \<Rightarrow> False | Some s \<Rightarrow> stop s \<noteq> 1)"

fun xi_evtd_all_continue :: "('f, 'z) xi_evtd_instance_scheme option list \<Rightarrow> bool" where
  "xi_evtd_all_continue [] = True"
| "xi_evtd_all_continue (d # ds) = (if xi_evtd_dispatcher_continue d then xi_evtd_all_continue ds else False)"

section \<open>Updates from the platform's event loop\<close>

definition xi_evtd_update_event_on_fd ::
    "('f, ('f, 'z) xi_evtd_instance_scheme) xi_environment \<Rightarrow> ('f, 'z) xi_evtd_instance_scheme
       \<Rightarrow> xi_evtd_fd_type \<Rightarrow> int \<Rightarrow> (xi_state \<times> ('f, 'z) xi_evtd_instance_scheme) option" where
  "xi_evtd_update_event_on_fd env s ftype fd0 = do {
     id0 \<leftarrow> xi_vector_find (container ftype s) fd0 (xi_evtd_cmp_fd s);
     if id0 \<noteq> -1
     then do {
       p \<leftarrow> arr_get (array (container ftype s)) id0;
       tuple \<leftarrow> deref_tuple s p;
       let to_exec = handle tuple;
       let s1 = (if fd_type tuple = XI_EVTD_FD_TYPE_SOCKET
                 then s\<lparr>fd_tuples := (fd_tuples s)(p :=
                        tuple\<lparr>event_type := XI_EVENT_WANT_READ, handle := read_handle tuple\<rparr>)\<rparr>
                 else s);
       (_, s2) \<leftarrow> xi_evtd_execute_handle env to_exec s1;
       Some (XI_STATE_OK, s2) }
     else Some (XI_FD_HANDLER_NOT_FOUND, xi_evtd_stop s) }"

definition xi_evtd_update_event_on_socket ::
    "('f, ('f, 'z) xi_evtd_instance_scheme) xi_environment \<Rightarrow> ('f, 'z) xi_evtd_instance_scheme
       \<Rightarrow> int \<Rightarrow> (xi_state \<times> ('f, 'z) xi_evtd_instance_scheme) option" where
  "xi_evtd_update_event_on_socket env s fd0 = xi_evtd_update_event_on_fd env s XI_EVTD_FD_TYPE_SOCKET fd0"

definition xi_evtd_update_event_on_file ::
    "('f, ('f, 'z) xi_evtd_instance_scheme) xi_environment \<Rightarrow> ('f, 'z) xi_evtd_instance_scheme
       \<Rightarrow> int \<Rightarrow> (xi_state \<times> ('f, 'z) xi_evtd_instance_scheme) option" where
  "xi_evtd_update_event_on_file env s fd0 = xi_evtd_update_event_on_fd env s XI_EVTD_FD_TYPE_FILE fd0"

text \<open>
  The loop re-reads \<open>elem_no\<close> after every handler, and the index is an \<open>int8_t\<close>: the vector
  holds fewer than 128 elements, so the increment does not wrap. A handler may keep adding
  files, so the loop is partial.
\<close>

partial_function (option) xi_evtd_file_loop ::
    "('f, ('f, 'z) xi_evtd_instance_scheme) xi_environment \<Rightarrow> int \<Rightarrow> nat
       \<Rightarrow> ('f, 'z) xi_evtd_instance_scheme \<Rightarrow> (nat \<times> ('f, 'z) xi_evtd_instance_scheme) option" where
  "xi_evtd_file_loop env i was_there_an_event s =
     (if i < elem_no (handles_and_file_fd s)
      then do {
        p \<leftarrow> arr_get (array (handles_and_file_fd s)) i;
        tuple \<leftarrow> deref_tuple s p;
        xi_assert (fd_type tuple = XI_EVTD_FD_TYPE_FILE);
        if event_type tuple AND XI_EVENT_WANT_READ \<noteq> 0 \<or> event_type tuple AND XI_EVENT_WANT_WRITE \<noteq> 0
           \<or> event_type tuple AND XI_EVENT_ERROR \<noteq> 0
        then do {
          (_, s1) \<leftarrow> xi_evtd_update_event_on_file env s (fd tuple);
          xi_evtd_file_loop env (i + 1) 1 s1 }
        else xi_evtd_file_loop env (i + 1) was_there_an_event s }
      else Some (was_there_an_event, s))"

definition xi_evtd_update_file_fd_events ::
    "('f, ('f, 'z) xi_evtd_instance_scheme) xi_environment \<Rightarrow> ('f, 'z) xi_evtd_instance_scheme
       \<Rightarrow> (nat \<times> ('f, 'z) xi_evtd_instance_scheme) option" where
  "xi_evtd_update_file_fd_events env s = xi_evtd_file_loop env 0 0 s"

text \<open>The time is written only when the result is \<open>XI_STATE_OK\<close>.\<close>

definition xi_evtd_get_time_of_earliest_event ::
    "('f, 'z) xi_evtd_instance_scheme \<Rightarrow> (xi_state \<times> int option) option" where
  "xi_evtd_get_time_of_earliest_event s =
     (if elem_no (tv s) \<noteq> 0
      then do {
        p \<leftarrow> xi_time_event_peek_top s;
        e \<leftarrow> deref_event s p;
        Some (XI_STATE_OK, Some (time_of_execution e)) }
      else Some (XI_ELEMENT_NOT_FOUND, None))"

end
