(* ===== verification/Xi_Event_Dispatcher_Invariant.thy ===== *)
theory Xi_Event_Dispatcher_Invariant
  imports Xi_Event_Dispatcher
begin

text \<open>
  The invariant of an event dispatcher instance, the frame every operation keeps, and the
  proof that each operation of \<open>xi_event_dispatcher.c\<close> keeps both.
\<close>

section \<open>The invariant\<close>

text \<open>
  The blocks an instance owns beside the timer container: itself, the two vectors of
  registrations, the nodes of the call queue and the registered tuples.
\<close>

definition other_blocks :: "('f, 'z) xi_evtd_instance_scheme \<Rightarrow> addr list" where
  "other_blocks s = [evtd_block s,
     vec_block (handles_and_socket_fd s), array_block (handles_and_socket_fd s),
     vec_block (handles_and_file_fd s), array_block (handles_and_file_fd s)]
     @ map fst (call_queue s) @ elems (handles_and_socket_fd s) @ elems (handles_and_file_fd s)"

definition registrations_ok :: "('f, 'z) xi_evtd_instance_scheme \<Rightarrow> xi_evtd_fd_type \<Rightarrow> bool" where
  "registrations_ok s ty \<longleftrightarrow> vec_ok (container ty s)
     \<and> memory_type (container ty s) = XI_MEMORY_TYPE_MANAGED
     \<and> distinct (map (\<lambda>p. fd (fd_tuples s p)) (elems (container ty s)))
     \<and> (\<forall>p \<in> set (elems (container ty s)). fd_type (fd_tuples s p) = ty)"

definition evtd_ok :: "('f, 'z) xi_evtd_instance_scheme \<Rightarrow> bool" where
  "evtd_ok s \<longleftrightarrow> tev_ok s \<and> distinct (other_blocks s)
     \<and> set (other_blocks s) \<subseteq> live_blocks (tmem s) \<and> set (other_blocks s) \<inter> timer_blocks s = {}
     \<and> (\<forall>ty. registrations_ok s ty)"

definition evtd_blocks :: "('f, 'z) xi_evtd_instance_scheme \<Rightarrow> addr set" where
  "evtd_blocks s = set (other_blocks s) \<union> timer_blocks s"

text \<open>
  What every operation, and therefore every handler that works through them, leaves behind: an
  instance that is well formed and owns no block that was not its own or freshly allocated.
\<close>

definition evtd_frame ::
    "('f, 'z) xi_evtd_instance_scheme \<Rightarrow> ('f, 'z) xi_evtd_instance_scheme \<Rightarrow> bool" where
  "evtd_frame s t \<longleftrightarrow> evtd_ok t \<and> next_block (tmem s) \<le> next_block (tmem t)
     \<and> evtd_blocks t \<subseteq> evtd_blocks s \<union> {a. next_block (tmem s) \<le> a}"

lemma evtd_frame_refl: "evtd_ok s \<Longrightarrow> evtd_frame s s"
  by (simp add: evtd_frame_def)

lemma evtd_frame_trans: "evtd_frame s t \<Longrightarrow> evtd_frame t u \<Longrightarrow> evtd_frame s u"
  by (fastforce simp: evtd_frame_def)

lemma evtd_okD:
  assumes "evtd_ok s"
  shows "tev_ok s" "mem_ok (tmem s)" "evtd_blocks s \<subseteq> live_blocks (tmem s)"
    "\<And>a. a \<in> evtd_blocks s \<Longrightarrow> a \<noteq> NULL \<and> a < next_block (tmem s)"
    "registrations_ok s ty" "vec_ok (container ty s)"
proof -
  show t: "tev_ok s" and "registrations_ok s ty" using assms by (simp_all add: evtd_ok_def)
  then show "vec_ok (container ty s)" by (simp add: registrations_ok_def)
  show m: "mem_ok (tmem s)" using t by (simp add: tev_ok_def tev_struct_def)
  show l: "evtd_blocks s \<subseteq> live_blocks (tmem s)"
    using assms tev_ok_live [OF t] by (auto simp: evtd_ok_def evtd_blocks_def)
  then show "\<And>a. a \<in> evtd_blocks s \<Longrightarrow> a \<noteq> NULL \<and> a < next_block (tmem s)"
    using m by (auto simp: mem_ok_def)
qed

text \<open>The fields an operation of the timer container cannot see.\<close>

lemma same_more:
  fixes s t :: "('f, 'z) xi_evtd_instance_scheme"
  assumes "time_events.more t = time_events.more s"
  shows "evtd_block t = evtd_block s" "current_step t = current_step s" "call_queue t = call_queue s"
    "handles_and_socket_fd t = handles_and_socket_fd s" "handles_and_file_fd t = handles_and_file_fd s"
    "fd_tuples t = fd_tuples s" "on_empty t = on_empty s" "stop t = stop s"
    "xi_evtd_instance.more t = xi_evtd_instance.more s"
  using assms by (cases t; cases s; simp)+

lemma same_others:
  fixes s t :: "('f, 'z) xi_evtd_instance_scheme"
  assumes "time_events.more t = time_events.more s"
  shows "other_blocks t = other_blocks s" "registrations_ok t ty = registrations_ok s ty"
    "container ty t = container ty s"
  using same_more [OF assms]
  by (simp_all add: other_blocks_def registrations_ok_def container_def split: xi_evtd_fd_type.split)

text \<open>A change of the timer container.\<close>

lemma evtd_ok_timer:
  fixes s t :: "('f, 'z) xi_evtd_instance_scheme"
  assumes "evtd_ok s" "time_events.more t = time_events.more s" "tev_ok t"
    "set (other_blocks s) \<subseteq> live_blocks (tmem t)" "timer_blocks t \<inter> set (other_blocks s) = {}"
  shows "evtd_ok t"
  using assms same_others [OF assms(2)] by (auto simp: evtd_ok_def)

text \<open>Freeing a block the instance does not own.\<close>

lemma evtd_ok_free:
  assumes s: "evtd_ok s" and p: "p \<notin> evtd_blocks s"
  shows "evtd_ok (s\<lparr>tmem := xi_free p (tmem s)\<rparr>)"
proof -
  have "tev_ok (s\<lparr>tmem := xi_free p (tmem s)\<rparr>)"
    using evtd_okD(1-3) [OF s] p by (intro tev_ok_mem) (auto simp: evtd_blocks_def)
  moreover have "set (other_blocks s) \<subseteq> live_blocks (xi_free p (tmem s))"
    using evtd_okD(3) [OF s] p by (auto simp: evtd_blocks_def)
  ultimately show ?thesis
    using s by (intro evtd_ok_timer [OF s]) (auto simp: evtd_ok_def timer_blocks_def)
qed

lemma evtd_blocks_mem [simp]: "evtd_blocks (s\<lparr>tmem := m\<rparr>) = evtd_blocks s"
  by (simp add: evtd_blocks_def other_blocks_def timer_blocks_def)

lemma evtd_frame_free:
  assumes "evtd_frame s t" "p \<notin> evtd_blocks s" "p < next_block (tmem s)"
  shows "evtd_frame s (t\<lparr>tmem := xi_free p (tmem t)\<rparr>)"
proof -
  have "p \<notin> evtd_blocks t" using assms by (auto simp: evtd_frame_def)
  then show ?thesis using assms(1) evtd_ok_free [of t p] by (simp add: evtd_frame_def)
qed

text \<open>The fields that neither the blocks nor the invariant depend on.\<close>

lemma tev_ok_irrelevant [simp]:
  fixes s :: "('f, 'z) xi_evtd_instance_scheme"
  shows "tev_ok (s\<lparr>current_step := i\<rparr>) = tev_ok s" "tev_ok (s\<lparr>stop := n\<rparr>) = tev_ok s"
    "tev_ok (s\<lparr>on_empty := h\<rparr>) = tev_ok s" "tev_ok (xi_evtd_instance.more_update f s) = tev_ok s"
    "tev_ok (s\<lparr>call_queue := cs\<rparr>) = tev_ok s" "tev_ok (s\<lparr>fd_tuples := ts\<rparr>) = tev_ok s"
    "tev_ok (s\<lparr>handles_and_socket_fd := v\<rparr>) = tev_ok s"
    "tev_ok (s\<lparr>handles_and_file_fd := v\<rparr>) = tev_ok s"
  by (rule tev_ok_cong; simp)+

lemma evtd_ok_irrelevant [simp]:
  "evtd_ok (s\<lparr>current_step := i\<rparr>) = evtd_ok s" "evtd_ok (s\<lparr>stop := n\<rparr>) = evtd_ok s"
  "evtd_ok (s\<lparr>on_empty := h\<rparr>) = evtd_ok s" "evtd_ok (xi_evtd_instance.more_update f s) = evtd_ok s"
  "evtd_blocks (s\<lparr>current_step := i\<rparr>) = evtd_blocks s" "evtd_blocks (s\<lparr>stop := n\<rparr>) = evtd_blocks s"
  "evtd_blocks (s\<lparr>on_empty := h\<rparr>) = evtd_blocks s"
  "evtd_blocks (xi_evtd_instance.more_update f s) = evtd_blocks s"
  by (simp_all add: evtd_ok_def evtd_blocks_def other_blocks_def timer_blocks_def registrations_ok_def
      container_def cong: xi_evtd_fd_type.case_cong)

lemma evtd_frame_irrelevant [simp]:
  "evtd_frame s (t\<lparr>current_step := i\<rparr>) = evtd_frame s t" "evtd_frame s (t\<lparr>stop := n\<rparr>) = evtd_frame s t"
  "evtd_frame s (t\<lparr>on_empty := h\<rparr>) = evtd_frame s t"
  "evtd_frame s (xi_evtd_instance.more_update f t) = evtd_frame s t"
  "evtd_frame (s\<lparr>current_step := i\<rparr>) t = evtd_frame s t"
  by (simp_all add: evtd_frame_def)

section \<open>Calls and timed calls\<close>

lemma xi_evtd_execute_spec:
  assumes s: "evtd_ok s"
  obtains (fail) t where "xi_evtd_execute s h = (NULL, t)" "evtd_frame s t" "t = s\<lparr>tmem := tmem t\<rparr>"
      "live_blocks (tmem t) = live_blocks (tmem s)"
  | (success) p t where "xi_evtd_execute s h = (p, t)" "p \<noteq> NULL" "evtd_frame s t"
      "t = s\<lparr>tmem := tmem t, call_queue := call_queue s @ [(p, h)]\<rparr>"
proof -
  note ok = evtd_okD [OF s]
  obtain p m where a: "xi_alloc sizeof_xi_event_handle_queue (tmem s) = (p, m)" by fastforce
  note m = xi_alloc_mem_ok [OF a ok(2)] and l = xi_alloc_live [OF ok(2) a]
    and n = xi_alloc_next_mono [OF a]
  have t: "tev_ok (s\<lparr>tmem := m\<rparr>)"
    using tev_ok_mem [OF ok(1) m] tev_ok_live [OF ok(1)] l by (auto split: if_splits)
  show thesis
  proof (cases "p = NULL")
    case True
    let ?t = "s\<lparr>tmem := m\<rparr>"
    have "evtd_ok ?t"
      using s l True by (intro evtd_ok_timer [OF s _ t]) (auto simp: evtd_ok_def timer_blocks_def)
    then show thesis
      using a True l n by (intro fail [of ?t]) (simp_all add: xi_evtd_execute_def evtd_frame_def)
  next
    case False
    let ?t = "s\<lparr>tmem := m, call_queue := call_queue s @ [(p, h)]\<rparr>"
    have p: "p \<notin> live_blocks (tmem s)" "p = next_block (tmem s)"
      using xi_alloc_fresh [OF a ok(2) False] by blast+
    then have new: "p \<notin> set (other_blocks s)" "p \<notin> timer_blocks s"
      using ok(3) by (auto simp: evtd_blocks_def)
    have t1: "tev_ok ?t" using t by simp
    have "set (other_blocks ?t) = insert p (set (other_blocks s))" "timer_blocks ?t = timer_blocks s"
      by (auto simp: other_blocks_def timer_blocks_def)
    moreover have "distinct (other_blocks ?t)"
      using s new by (auto simp: evtd_ok_def other_blocks_def)
    moreover have "registrations_ok ?t ty = registrations_ok s ty" for ty
      by (simp add: registrations_ok_def container_def split: xi_evtd_fd_type.split)
    ultimately have "evtd_ok ?t" "evtd_blocks ?t = insert p (evtd_blocks s)"
      using s t1 new l False by (auto simp: evtd_ok_def evtd_blocks_def)
    then show thesis
      using a False p n by (intro success [of p ?t]) (auto simp: xi_evtd_execute_def evtd_frame_def)
  qed
qed

text \<open>
  A timed call. \<open>leak\<close>: the event was allocated but the container could not take it, and the
  block is neither queued nor freed.
\<close>

lemma xi_evtd_execute_in_spec:
  assumes s: "evtd_ok s" and h: "c \<noteq> NULL \<Longrightarrow> handles s c = NULL"
    and t0: "long_add (current_step s) d = Some time"
  obtains (fail) t where "xi_evtd_execute_in s h d c = Some (XI_OUT_OF_MEMORY, t)" "evtd_frame s t"
      "t = s\<lparr>tmem := tmem t\<rparr>" "live_blocks (tmem t) = live_blocks (tmem s)"
  | (leak) t p where "xi_evtd_execute_in s h d c = Some (XI_OUT_OF_MEMORY, t)" "evtd_frame s t"
      "p \<notin> live_blocks (tmem s)" "live_blocks (tmem t) = insert p (live_blocks (tmem s))"
      "p \<notin> evtd_blocks t" "queue t = queue s" "handles t = handles s"
      "elem_no (tv s) = capacity (tv s)" "time_events.more t = time_events.more s"
  | (success) t p where "xi_evtd_execute_in s h d c = Some (XI_STATE_OK, t)" "evtd_frame s t"
      "p \<notin> live_blocks (tmem s)"
      "queue t = takeWhile (\<lambda>y. event_key s y \<le> time) (queue s) @ p
         # dropWhile (\<lambda>y. event_key s y \<le> time) (queue s)"
      "event_key t = (event_key s)(p := time)" "event_handle (tevs t p) = h"
      "handles t = (if c = NULL then handles s else (handles s)(c := p))"
      "time_events.more t = time_events.more s"
proof -
  note ok = evtd_okD [OF s]
  obtain p m where a: "xi_alloc sizeof_xi_time_event (tmem s) = (p, m)" by fastforce
  note m = xi_alloc_mem_ok [OF a ok(2)] and l = xi_alloc_live [OF ok(2) a]
    and n = xi_alloc_next_mono [OF a]
  have t: "tev_ok (s\<lparr>tmem := m\<rparr>)"
    using tev_ok_mem [OF ok(1) m] tev_ok_live [OF ok(1)] l by (auto split: if_splits)
  have o: "set (other_blocks s) \<subseteq> live_blocks m" "timer_blocks s \<inter> set (other_blocks s) = {}"
    using s l by (auto simp: evtd_ok_def)
  show thesis
  proof (cases "p = NULL")
    case True
    let ?t = "s\<lparr>tmem := m\<rparr>"
    have "evtd_ok ?t"
      using o by (intro evtd_ok_timer [OF s _ t]) (auto simp: timer_blocks_def)
    then show thesis
      using a True l n by (intro fail [of ?t]) (simp_all add: xi_evtd_execute_in_def evtd_frame_def)
  next
    case False
    let ?e = "\<lparr>event_handle = h, time_of_execution = time, position = 0, time_event_handle = NULL\<rparr>"
    let ?s = "s\<lparr>tmem := m, tevs := (tevs s)(p := ?e)\<rparr>"
    have p: "p \<notin> live_blocks (tmem s)" "p = next_block (tmem s)" "p \<in> live_blocks m"
      using xi_alloc_fresh [OF a ok(2) False] by blast+
    then have new: "p \<notin> set (other_blocks s)" "p \<notin> timer_blocks s"
      using ok(3) by (auto simp: evtd_blocks_def)
    have pq: "p \<notin> set (queue s)" using new by (simp add: timer_blocks_def)
    have s1: "tev_ok ?s"
      using tev_ok_new_event [OF t, of p] pq by simp
    have q: "queueable ?s p"
      using new False p(3) by (auto simp: queueable_def timer_blocks_def)
    have hc: "c \<noteq> NULL \<Longrightarrow> handles ?s c = NULL" using h by simp
    have ex: "xi_evtd_execute_in s h d c = xi_time_event_add ?s p c"
      using a False t0 by (simp add: xi_evtd_execute_in_def)
    have nb: "p < next_block m" using p(3) m by (auto simp: mem_ok_def)
    from s1 q hc show thesis
    proof (rule xi_time_event_add_spec)
      fix t
      assume r: "xi_time_event_add ?s p c = Some (XI_OUT_OF_MEMORY, t)" "tev_ok t"
        "t = ?s\<lparr>tmem := tmem t\<rparr>" "live_blocks (tmem t) = live_blocks (tmem ?s)"
        "elem_no (tv ?s) = capacity (tv ?s)" "next_block (tmem ?s) \<le> next_block (tmem t)"
      have mt: "time_events.more t = time_events.more s" "tv t = tv s" "handles t = handles s"
        using arg_cong [OF r(3), of time_events.more] arg_cong [OF r(3), of tv]
          arg_cong [OF r(3), of handles] by simp_all
      have tb: "timer_blocks t = timer_blocks s" using mt(2) by (simp add: timer_blocks_def)
      have "evtd_ok t"
        using s mt(1) r(2) by (rule evtd_ok_timer) (use o r(4) tb in simp_all)
      moreover have bl: "evtd_blocks t = evtd_blocks s"
        using same_others(1) [OF mt(1)] tb by (simp add: evtd_blocks_def)
      ultimately have "evtd_frame s t" using n r(6) by (simp add: evtd_frame_def)
      then show thesis
        using ex r l p(1) False bl mt new by (intro leak [of t p]) (simp_all add: evtd_blocks_def)
    next
      fix t
      assume r: "xi_time_event_add ?s p c = Some (XI_STATE_OK, t)" "tev_ok t"
        "queue t = insert_by_time ?s p" "event_key t = event_key ?s"
        "handles t = (if c = NULL then handles ?s else (handles ?s)(c := p))"
        "time_events.more t = time_events.more ?s"
        "\<And>x. event_handle (tevs t x) = event_handle (tevs ?s x)"
        "live_blocks (tmem t) = insert (array_block (tv t)) (live_blocks (tmem ?s) - {array_block (tv ?s)})"
        "vec_block (tv t) = vec_block (tv ?s)"
        "array_block (tv t) = array_block (tv ?s)
          \<or> array_block (tv t) \<notin> live_blocks (tmem ?s) \<and> next_block (tmem ?s) \<le> array_block (tv t)"
        "next_block (tmem ?s) \<le> next_block (tmem t)"
      have mt: "time_events.more t = time_events.more s" using r(6) by simp
      have key: "event_key ?s = (event_key s)(p := time)" by (auto simp: event_key_def fun_eq_iff)
      have qt: "queue t = takeWhile (\<lambda>y. event_key s y \<le> time) (queue s) @ p
         # dropWhile (\<lambda>y. event_key s y \<le> time) (queue s)"
      proof -
        have "takeWhile (\<lambda>y. event_key ?s y \<le> event_key ?s p) (queue s) = takeWhile (\<lambda>y. event_key s y \<le> time) (queue s)"
          unfolding key by (rule takeWhile_cong) (use pq in auto)
        moreover have "dropWhile (\<lambda>y. event_key ?s y \<le> event_key ?s p) (queue s) = dropWhile (\<lambda>y. event_key s y \<le> time) (queue s)"
          unfolding key by (rule dropWhile_cong) (use pq in auto)
        ultimately show ?thesis using r(3) by (simp add: insert_by_time_def)
      qed
      have tb: "timer_blocks t \<subseteq> insert p (insert (array_block (tv t)) (timer_blocks s))"
        using r(3,9) by (auto simp: timer_blocks_def)
      have ab: "array_block (tv t) \<notin> set (other_blocks s)"
        "array_block (tv t) \<in> timer_blocks s \<or> next_block m \<le> array_block (tv t)"
        using r(10) o by (auto simp: timer_blocks_def)
      have "evtd_ok t"
        using s mt r(2)
      proof (rule evtd_ok_timer)
        show "timer_blocks t \<inter> set (other_blocks s) = {}" using tb ab o new by auto
        show "set (other_blocks s) \<subseteq> live_blocks (tmem t)"
          using r(8) o by (auto simp: timer_blocks_def)
      qed
      moreover have "evtd_blocks t \<subseteq> evtd_blocks s \<union> {a. next_block (tmem s) \<le> a}"
        using same_others(1) [OF mt] tb ab(2) n p(2) by (auto simp: evtd_blocks_def)
      ultimately have "evtd_frame s t" using n r(11) by (simp add: evtd_frame_def)
      then show thesis
        using ex r p(1) qt key mt by (intro success [of t p]) simp_all
    qed
  qed
qed

lemma evtd_frame_pop:
  assumes s: "evtd_ok s" and r: "removed_at n s t" and n: "n < length (queue s)"
  shows "evtd_frame s t" "queue s ! n \<notin> evtd_blocks t" "queue s ! n < next_block (tmem s)"
    "queue s ! n \<in> evtd_blocks s"
proof -
  note ok = evtd_okD [OF s]
  have mt: "time_events.more t = time_events.more s" "tmem t = tmem s" using r by (simp_all add: removed_at_def)
  have t: "tev_ok t" using ok(1) r by (rule removed_at_ok)
  have tb: "timer_blocks t \<subseteq> timer_blocks s"
    using r set_take_subset [of n "queue s"] set_drop_subset [of "Suc n" "queue s"]
    by (auto simp: removed_at_def timer_blocks_def)
  have o: "set (other_blocks s) \<subseteq> live_blocks (tmem s)" "timer_blocks s \<inter> set (other_blocks s) = {}"
    using s by (auto simp: evtd_ok_def)
  have "evtd_ok t" using s mt(1) t by (rule evtd_ok_timer) (use o mt(2) tb in auto)
  then show "evtd_frame s t"
    using same_others(1) [OF mt(1)] tb mt(2) by (auto simp: evtd_frame_def evtd_blocks_def)
  have st: "tev_struct s" using ok(1) by (simp add: tev_ok_def)
  have p: "queue s ! n \<in> set (queue s)" using n by simp
  then have "queue s ! n \<in> timer_blocks s" by (simp add: timer_blocks_def)
  then show "queue s ! n \<in> evtd_blocks s" by (simp add: evtd_blocks_def)
  then show "queue s ! n < next_block (tmem s)" using ok(4) by blast
  have "distinct (queue s)" using tev_structD(4) [OF st] .
  moreover from this have "queue t = remove1 (queue s ! n) (queue s)"
    using r remove1_nth [of "queue s" n] n by (simp add: removed_at_def)
  ultimately have "queue s ! n \<notin> set (queue t)" by (simp add: set_remove1_eq)
  moreover have "queue s ! n \<notin> {vec_block (tv t), array_block (tv t)}"
    using r p st by (auto simp: removed_at_def tev_struct_def queue_live_def)
  moreover have "queue s ! n \<notin> set (other_blocks t)"
    using same_others(1) [OF mt(1)] o(2) \<open>queue s ! n \<in> timer_blocks s\<close> by auto
  ultimately show "queue s ! n \<notin> evtd_blocks t" by (auto simp: evtd_blocks_def timer_blocks_def)
qed

lemma xi_evtd_cancel_spec:
  assumes s: "evtd_ok s" and h: "handles s h \<noteq> NULL"
  obtains t where "xi_evtd_cancel s h = Some (XI_STATE_OK, t)" "evtd_frame s t"
    "queue t = remove1 (handles s h) (queue s)" "handles t = (handles s)(h := NULL)"
    "live_blocks (tmem t) = live_blocks (tmem s) - {handles s h}"
    "time_events.more t = time_events.more s"
proof -
  obtain n t where t: "xi_time_event_cancel s h = Some (XI_STATE_OK, Some (handles s h), t)"
    "n < length (queue s)" "queue s ! n = handles s h" "removed_at n s t"
    "queue t = remove1 (handles s h) (queue s)" "handles t = (handles s)(h := NULL)"
    using evtd_okD(1) [OF s] h by (rule xi_time_event_cancel_spec)
  note f = evtd_frame_pop [OF s t(4,2), unfolded t(3)]
  have "evtd_ok (t\<lparr>tmem := xi_free (handles s h) (tmem t)\<rparr>)"
    using f(1,2) by (intro evtd_ok_free) (simp_all add: evtd_frame_def)
  then show thesis
    using t f h that [of "t\<lparr>tmem := xi_free (handles s h) (tmem t)\<rparr>"]
    by (simp add: xi_evtd_cancel_def evtd_frame_def removed_at_def)
qed

lemma xi_evtd_restart_spec:
  assumes s: "evtd_ok s" and h: "handles s h \<noteq> NULL"
    and t0: "long_add (current_step s) d = Some time"
  obtains t where "xi_evtd_restart s h d = Some (XI_STATE_OK, t)" "evtd_frame s t"
    "mset (queue t) = mset (queue s)" "event_key t = (event_key s)(handles s h := time)"
    "handles t = handles s" "time_events.more t = time_events.more s"
proof -
  obtain t where t: "xi_time_event_restart s h time = Some (XI_STATE_OK, t)" "tev_ok t"
    "mset (queue t) = mset (queue s)" "event_key t = (event_key s)(handles s h := time)"
    "handles t = handles s" "tmem t = tmem s" "time_events.more t = time_events.more s"
    "vec_block (tv t) = vec_block (tv s)" "array_block (tv t) = array_block (tv s)"
    using evtd_okD(1) [OF s] h by (rule xi_time_event_restart_spec)
  have tb: "timer_blocks t = timer_blocks s"
    using mset_eq_setD [OF t(3)] t(8,9) by (simp add: timer_blocks_def)
  have "evtd_ok t"
    using s t(7,2) by (rule evtd_ok_timer) (use s t(6) tb in \<open>auto simp: evtd_ok_def\<close>)
  then have "evtd_frame s t"
    using same_others(1) [OF t(7)] tb t(6) by (simp add: evtd_frame_def evtd_blocks_def)
  then show thesis using that t t0 by (simp add: xi_evtd_restart_def)
qed

section \<open>File descriptors\<close>

definition registered :: "xi_evtd_fd_type \<Rightarrow> ('f, 'z) xi_evtd_instance_scheme \<Rightarrow> int list" where
  "registered ty s = map (\<lambda>p. fd (fd_tuples s p)) (elems (container ty s))"

lemma container_blocks:
  "set (elems (container ty s)) \<subseteq> set (other_blocks s)"
  "vec_block (container ty s) \<in> set (other_blocks s)" "array_block (container ty s) \<in> set (other_blocks s)"
  by (cases ty; auto simp: container_def other_blocks_def)+

lemma deref_tuple_ok:
  "evtd_ok s \<Longrightarrow> p \<in> set (elems (container ty s)) \<Longrightarrow> deref_tuple s p = Some (fd_tuples s p)"
  using container_blocks(1) [of ty s] evtd_okD(3,4) [of s]
  by (auto simp: deref_tuple_def evtd_blocks_def subset_iff)

lemma find_fd_spec:
  assumes s: "evtd_ok s"
  obtains (absent) "xi_vector_find (container ty s) n (xi_evtd_cmp_fd s) = Some (-1)"
      "n \<notin> set (registered ty s)"
  | (found) i p where "xi_vector_find (container ty s) n (xi_evtd_cmp_fd s) = Some i" "0 \<le> i"
      "i < elem_no (container ty s)" "elems (container ty s) ! nat i = p"
      "arr_get (array (container ty s)) i = Some p" "p \<in> set (elems (container ty s))"
      "fd (fd_tuples s p) = n" "deref_tuple s p = Some (fd_tuples s p)"
proof -
  let ?c = "\<lambda>p. if fd (fd_tuples s p) = n then 0 else - 1 :: int"
  have v: "vec_ok (container ty s)" using evtd_okD(6) [OF s] .
  have "\<And>x. x \<in> set (elems (container ty s)) \<Longrightarrow> xi_evtd_cmp_fd s x n = Some (?c x)"
    using deref_tuple_ok [OF s] by (simp add: xi_evtd_cmp_fd_def)
  with v show thesis
  proof (rule xi_vector_find_spec [where c = ?c])
    assume "xi_vector_find (container ty s) n (xi_evtd_cmp_fd s) = Some (- 1)"
      "\<forall>x \<in> set (elems (container ty s)). ?c x \<noteq> 0"
    then show thesis by (intro absent) (auto simp: registered_def split: if_splits)
  next
    fix i
    assume i: "xi_vector_find (container ty s) n (xi_evtd_cmp_fd s) = Some i" "0 \<le> i"
      "i < elem_no (container ty s)" "?c (elems (container ty s) ! nat i) = 0"
    then have "elems (container ty s) ! nat i \<in> set (elems (container ty s))" using v by simp
    with i show thesis
      using vec_get_in [OF v i(2,3)] deref_tuple_ok [OF s]
      by (intro found [of i "elems (container ty s) ! nat i"]) (simp_all split: if_splits)
  qed
qed

text \<open>Replacing the vector of one type and the tuples.\<close>

lemma container_set_container:
  "container ty (set_container ty v s) = v"
  "ty \<noteq> ty' \<Longrightarrow> container ty' (set_container ty v s) = container ty' s"
  "tmem (set_container ty v s) = tmem s" "fd_tuples (set_container ty v s) = fd_tuples s"
  "tv (set_container ty v s) = tv s" "tev_ok (set_container ty v s) = tev_ok s"
  "call_queue (set_container ty v s) = call_queue s" "evtd_block (set_container ty v s) = evtd_block s"
  "timer_blocks (set_container ty v s) = timer_blocks s"
  by (cases ty; cases ty'; simp add: container_def set_container_def timer_blocks_def)+

definition rest_blocks :: "xi_evtd_fd_type \<Rightarrow> ('f, 'z) xi_evtd_instance_scheme \<Rightarrow> addr list" where
  "rest_blocks ty s = (let o' = container (case ty of XI_EVTD_FD_TYPE_SOCKET \<Rightarrow> XI_EVTD_FD_TYPE_FILE
       | XI_EVTD_FD_TYPE_FILE \<Rightarrow> XI_EVTD_FD_TYPE_SOCKET) s
     in [evtd_block s, vec_block o', array_block o'] @ map fst (call_queue s) @ elems o')"

lemma other_blocks_split:
  "mset (other_blocks s) = mset ([vec_block (container ty s), array_block (container ty s)]
     @ elems (container ty s) @ rest_blocks ty s)"
  by (cases ty) (simp_all add: other_blocks_def rest_blocks_def container_def Let_def)

lemma distinct_other_blocks:
  "distinct (other_blocks s) \<longleftrightarrow> distinct ([vec_block (container ty s), array_block (container ty s)]
     @ elems (container ty s) @ rest_blocks ty s)"
  by (rule mset_eq_imp_distinct_iff [OF other_blocks_split])

lemma set_other_blocks:
  "set (other_blocks s) = {vec_block (container ty s), array_block (container ty s)}
     \<union> set (elems (container ty s)) \<union> set (rest_blocks ty s)"
  using mset_eq_setD [OF other_blocks_split [of s ty]] by auto

lemma rest_blocks_set_container [simp]: "rest_blocks ty (set_container ty v s) = rest_blocks ty s"
  by (cases ty) (simp_all add: rest_blocks_def container_def set_container_def Let_def)

lemma rest_blocks_mem [simp]:
  "rest_blocks ty (s\<lparr>tmem := m\<rparr>) = rest_blocks ty s"
  "rest_blocks ty (s\<lparr>fd_tuples := ft\<rparr>) = rest_blocks ty s"
  by (cases ty; simp add: rest_blocks_def container_def)+

lemma other_blocks_set_container:
  assumes d: "distinct (other_blocks s)" and v: "vec_block v = vec_block (container ty s)"
    and a: "array_block v = array_block (container ty s) \<or> array_block v \<notin> set (other_blocks s)"
    and e: "distinct (elems v)" "set (elems v) \<inter> (set (other_blocks s) - set (elems (container ty s))) = {}"
      "array_block v \<notin> set (elems v)"
  shows "distinct (other_blocks (set_container ty v s))"
    "set (other_blocks (set_container ty v s)) \<subseteq>
       insert (array_block v) (set (elems v) \<union> (set (other_blocks s) - set (elems (container ty s))))"
proof -
  note d' = d [unfolded distinct_other_blocks [of s ty]] and so = set_other_blocks [of s ty]
  have e2: "set (elems v) \<inter> set (rest_blocks ty s) = {}" "vec_block (container ty s) \<notin> set (elems v)"
    using e(2) d' unfolding so by auto
  have a2: "array_block v \<noteq> vec_block (container ty s)" "array_block v \<notin> set (rest_blocks ty s)"
    using a d' unfolding so by auto
  show "distinct (other_blocks (set_container ty v s))"
    unfolding distinct_other_blocks [of _ ty] using d' e e2 a2 v by (auto simp: container_set_container)
  show "set (other_blocks (set_container ty v s)) \<subseteq>
       insert (array_block v) (set (elems v) \<union> (set (other_blocks s) - set (elems (container ty s))))"
    unfolding set_other_blocks [of _ ty] using d' v by (auto simp: container_set_container)
qed

lemma evtd_ok_container:
  assumes s: "evtd_ok s" and v: "vec_ok v" "memory_type v = XI_MEMORY_TYPE_MANAGED"
    and t: "t = set_container ty v (s\<lparr>tmem := m, fd_tuples := ft\<rparr>)"
    and m: "mem_ok m" "timer_blocks s \<subseteq> live_blocks m"
    and o: "distinct (other_blocks t)" "set (other_blocks t) \<subseteq> live_blocks m"
      "set (other_blocks t) \<inter> timer_blocks s = {}"
    and r: "distinct (map (\<lambda>p. fd (ft p)) (elems v))" "\<forall>p \<in> set (elems v). fd_type (ft p) = ty"
    and f: "\<And>p. p \<in> set (other_blocks s) \<Longrightarrow> ft p = fd_tuples s p"
  shows "evtd_ok t"
proof -
  have "tev_ok t"
    using tev_ok_mem [OF evtd_okD(1) [OF s] m] by (simp add: t container_set_container)
  moreover have "registrations_ok t ty'" for ty'
  proof (cases "ty' = ty")
    case True
    then show ?thesis using v r by (simp add: registrations_ok_def t container_set_container)
  next
    case False
    have "\<And>p. p \<in> set (elems (container ty' s)) \<Longrightarrow> ft p = fd_tuples s p"
      using container_blocks(1) [of ty' s] f by blast
    moreover have "container ty' t = container ty' s"
      using False by (cases ty; cases ty'; simp add: t container_def set_container_def)
    ultimately show ?thesis
      using evtd_okD(5) [OF s, of ty']
      by (simp add: registrations_ok_def t container_set_container cong: map_cong)
  qed
  ultimately show ?thesis
    using o by (simp add: evtd_ok_def t container_set_container timer_blocks_def)
qed

lemma other_blocks_simps [simp]:
  "other_blocks (s\<lparr>tmem := m\<rparr>) = other_blocks s" "other_blocks (s\<lparr>fd_tuples := ft\<rparr>) = other_blocks s"
  "timer_blocks (s\<lparr>tmem := m\<rparr>) = timer_blocks s" "timer_blocks (s\<lparr>fd_tuples := ft\<rparr>) = timer_blocks s"
  "container ty (s\<lparr>tmem := m\<rparr>) = container ty s" "container ty (s\<lparr>fd_tuples := ft\<rparr>) = container ty s"
  by (simp_all add: other_blocks_def timer_blocks_def container_def split: xi_evtd_fd_type.split)

lemma xi_evtd_register_fd_spec:
  assumes s: "evtd_ok s" and n: "n \<notin> set (registered ty s)"
  obtains (fail) t where "xi_evtd_register_fd s et ty n rh ch = Some (0, t)" "evtd_frame s t"
      "live_blocks (tmem t) = live_blocks (tmem s)" "\<And>ty'. container ty' t = container ty' s"
      "\<And>p. p \<in> evtd_blocks s \<Longrightarrow> fd_tuples t p = fd_tuples s p"
  | (success) t p where "xi_evtd_register_fd s et ty n rh ch = Some (1, t)" "evtd_frame s t"
      "p \<notin> live_blocks (tmem s)" "elems (container ty t) = elems (container ty s) @ [p]"
      "\<And>ty'. ty' \<noteq> ty \<Longrightarrow> container ty' t = container ty' s"
      "fd_tuples t = (fd_tuples s)(p :=
         \<lparr>fd = n, handle = ch, read_handle = rh, event_type = et, fd_type = ty\<rparr>)"
proof -
  note ok = evtd_okD [OF s]
  let ?c = "container ty s" and ?T = "\<lparr>fd = n, handle = ch, read_handle = rh, event_type = et, fd_type = ty\<rparr>"
  obtain p m where a: "xi_alloc sizeof_xi_evtd_fd_tuple (tmem s) = (p, m)" by fastforce
  note m = xi_alloc_mem_ok [OF a ok(2)] and l = xi_alloc_live [OF ok(2) a]
    and nx = xi_alloc_next_mono [OF a]
  have find: "xi_vector_find ?c n (xi_evtd_cmp_fd s) = Some (-1)"
    using s by (rule find_fd_spec [where n = n and ty = ty]) (use n in \<open>auto simp: registered_def\<close>)
  have o: "set (other_blocks s) \<subseteq> live_blocks (tmem s)" "timer_blocks s \<inter> set (other_blocks s) = {}"
      "distinct (other_blocks s)" "timer_blocks s \<subseteq> live_blocks (tmem s)"
    using s tev_ok_live [OF ok(1)] by (auto simp: evtd_ok_def)
  have vm: "vec_ok ?c" "memory_type ?c = XI_MEMORY_TYPE_MANAGED"
    using ok(5) [of ty] by (simp_all add: registrations_ok_def)
  show thesis
  proof (cases "p = NULL")
    case True
    let ?t = "s\<lparr>tmem := m\<rparr>"
    have "tev_ok ?t" using tev_ok_mem [OF ok(1) m] o l True by simp
    then have "evtd_ok ?t" using o l True by (intro evtd_ok_timer [OF s]) auto
    then show thesis
      using find a True l nx by (intro fail [of ?t]) (simp_all add: xi_evtd_register_fd_def evtd_frame_def)
  next
    case False
    have p: "p \<notin> live_blocks (tmem s)" "p = next_block (tmem s)" "p \<in> live_blocks m"
      using xi_alloc_fresh [OF a ok(2) False] by blast+
    let ?ft = "(fd_tuples s)(p := ?T)"
    let ?s = "s\<lparr>tmem := m, fd_tuples := ?ft\<rparr>"
    have new: "p \<notin> set (other_blocks s)" "p \<notin> timer_blocks s" using p(1) o by auto
    have ft: "\<And>q. q \<in> evtd_blocks s \<Longrightarrow> ?ft q = fd_tuples s q"
      using new by (auto simp: evtd_blocks_def)
    from vm(1) m show thesis
    proof (rule xi_vector_push_spec [where x = p])
      fix m'
      assume r: "xi_vector_push ?c p m = Some (None, ?c, m')" "live_blocks m' = live_blocks m" "mem_ok m'"
      let ?t = "set_container ty ?c (s\<lparr>tmem := xi_free p m', fd_tuples := ?ft\<rparr>)"
      have same: "?t = s\<lparr>tmem := xi_free p m', fd_tuples := ?ft\<rparr>"
        by (cases ty; simp add: set_container_def container_def)
      have ev: "xi_evtd_register_fd s et ty n rh ch = Some (0, ?t)"
        using find a False r by (simp add: xi_evtd_register_fd_def set_container_def split: xi_evtd_fd_type.split)
      have live: "live_blocks (xi_free p m') = live_blocks (tmem s)" using r(2) l p(1) False by auto
      have "evtd_ok ?t"
        using s vm refl
      proof (rule evtd_ok_container)
        show "set (other_blocks ?t) \<subseteq> live_blocks (xi_free p m')"
          "set (other_blocks ?t) \<inter> timer_blocks s = {}" "distinct (other_blocks ?t)"
          using o live unfolding same by auto
        show "distinct (map (\<lambda>q. fd (?ft q)) (elems ?c))" "\<forall>q \<in> set (elems ?c). fd_type (?ft q) = ty"
          using ok(5) [of ty] ft container_blocks(1) [of ty s]
          by (auto simp: registrations_ok_def evtd_blocks_def subset_iff cong: map_cong)
      qed (use r o live ft in \<open>auto simp: evtd_blocks_def\<close>)
      moreover have "evtd_blocks ?t = evtd_blocks s" unfolding same by (simp add: evtd_blocks_def)
      moreover have "next_block (tmem s) \<le> next_block (tmem ?t)"
        using nx xi_vector_push_next(1) [OF r(1)] unfolding same by simp
      ultimately show thesis
        using ev live ft by (intro fail [of ?t]) (simp_all add: evtd_frame_def, simp_all add: same)
    next
      fix v m'
      assume r: "xi_vector_push ?c p m = Some (Some (elem_no ?c), v, m')" "vec_ok v"
        "elems v = elems ?c @ [p]" "mem_ok m'" "vec_block v = vec_block ?c" "memory_type v = memory_type ?c"
        and al: "array_block v = array_block ?c \<and> live_blocks m' = live_blocks m
           \<and> capacity v = capacity ?c \<and> array v = (array ?c)[nat (elem_no ?c) := p] \<and> m' = m
         \<or> array_block v \<notin> live_blocks m \<and> array_block v \<noteq> NULL \<and> memory_type ?c = XI_MEMORY_TYPE_MANAGED
           \<and> live_blocks m' = insert (array_block v) (live_blocks m)
                 - (if array_block ?c = NULL then {} else {array_block ?c})
           \<and> capacity v = 2 * capacity ?c \<and> capacity ?c < 64 \<and> elem_no ?c = capacity ?c"
      let ?t = "set_container ty v (s\<lparr>tmem := m', fd_tuples := ?ft\<rparr>)"
      have ev: "xi_evtd_register_fd s et ty n rh ch = Some (1, ?t)"
        using find a False r by (cases ty; simp add: xi_evtd_register_fd_def set_container_def)
      have ab: "array_block v = array_block ?c \<or> array_block v \<notin> live_blocks m" using al by blast
      have cb: "array_block ?c \<in> set (other_blocks s)" "set (elems ?c) \<subseteq> set (other_blocks s)"
        using container_blocks by metis+
      have keep: "live_blocks m - {array_block ?c} \<union> {array_block v} \<subseteq> live_blocks m'"
        using al cb o l False by (elim disjE conjE) (auto split: if_splits)
      have abp: "array_block v \<noteq> p" using ab p(3) cb(1) new by auto
      have abt: "array_block v \<notin> timer_blocks s" using ab cb(1) o l False by auto
      have ac: "array_block v = array_block ?c \<or> array_block v \<notin> set (other_blocks s)"
        using ab o l False by auto
      have dis: "array_block ?c \<notin> set (elems ?c)" "distinct (elems ?c)"
        using o(3) [unfolded distinct_other_blocks [of s ty]] by auto
      have pe: "p \<notin> set (elems ?c)" using new cb(2) by auto
      have ev': "distinct (elems v)" "array_block v \<notin> set (elems v)"
          "set (elems v) \<inter> (set (other_blocks s) - set (elems ?c)) = {}"
        using r(3) dis pe abp ac cb(2) new by auto
      have ob: "distinct (other_blocks ?t)"
        "set (other_blocks ?t) \<subseteq> insert (array_block v) (set (elems v) \<union> (set (other_blocks s) - set (elems ?c)))"
        using other_blocks_set_container [of "s\<lparr>tmem := m', fd_tuples := ?ft\<rparr>" v ty] o(3) r(5) ac ev'
        by simp_all
      have gone: "array_block ?c \<in> set (other_blocks ?t) \<Longrightarrow> array_block v = array_block ?c"
        using o(3) [unfolded distinct_other_blocks [of s ty]] new(1) r(3,5)
        unfolding set_other_blocks [of _ ty] by (auto simp: container_set_container rest_blocks_mem)
      have fds: "map (\<lambda>q. fd (?ft q)) (elems ?c) = registered ty s" "\<forall>q \<in> set (elems ?c). fd_type (?ft q) = ty"
        using pe ok(5) [of ty] by (auto simp: registered_def registrations_ok_def)
      have sub: "set (other_blocks ?t) \<subseteq> insert (array_block v) (insert p (set (other_blocks s)))"
        using ob(2) r(3) cb(2) by auto
      have "evtd_ok ?t"
        using s r(2) _ refl
      proof (rule evtd_ok_container)
        show "memory_type v = XI_MEMORY_TYPE_MANAGED" using r(6) vm by simp
        show "set (other_blocks ?t) \<subseteq> live_blocks m'"
        proof
          fix x
          assume x: "x \<in> set (other_blocks ?t)"
          show "x \<in> live_blocks m'"
          proof (cases "x = array_block ?c \<or> x = array_block v")
            case True
            then have "x = array_block v" using gone x by metis
            then show ?thesis using keep by blast
          next
            case False
            then have "x \<in> insert p (live_blocks (tmem s))" using subsetD [OF sub x] o(1) by blast
            then have "x \<in> live_blocks m" using l \<open>p \<noteq> NULL\<close> by simp
            then show ?thesis using keep False by blast
          qed
        qed
        show "set (other_blocks ?t) \<inter> timer_blocks s = {}" using sub abt new o by auto
        show "timer_blocks s \<subseteq> live_blocks m'" using keep o l cb(1) False by auto
        show "distinct (map (\<lambda>q. fd (?ft q)) (elems v))"
        proof -
          have "distinct (registered ty s)"
            using ok(5) [of ty] by (simp add: registrations_ok_def registered_def)
          then show ?thesis using n unfolding r(3) map_append fds(1) by simp
        qed
        show "\<forall>q \<in> set (elems v). fd_type (?ft q) = ty" using fds by (simp add: r(3))
      qed (use r ob ft in \<open>auto simp: evtd_blocks_def\<close>)
      moreover have "evtd_blocks ?t \<subseteq> evtd_blocks s \<union> {a. next_block (tmem s) \<le> a}"
        using sub p(2) xi_vector_push_next(2) [OF r(1)] nx cb(1)
        by (auto simp: evtd_blocks_def container_set_container)
      moreover have "next_block (tmem s) \<le> next_block (tmem ?t)"
        using nx xi_vector_push_next(1) [OF r(1)] by (simp add: container_set_container)
      ultimately show thesis
        using ev p(1) r(3) by (intro success [of ?t p]) (simp_all add: evtd_frame_def container_set_container)
    qed
  qed
qed

text \<open>The element at an index is overwritten with \<open>NULL\<close> and deleted.\<close>

lemma null_and_delete:
  fixes c :: "addr xi_vector"
  assumes c: "vec_ok c" "0 \<le> i" "i < elem_no c"
  obtains cells v where "arr_set (array c) i NULL = Some cells"
    "xi_vector_del (c\<lparr>array := cells\<rparr>) i = Some v" "vec_ok v"
    "add_mset (elems c ! nat i) (mset (elems v)) = mset (elems c)"
    "vec_block v = vec_block c" "array_block v = array_block c" "memory_type v = memory_type c"
proof -
  let ?w = "c\<lparr>array := (array c)[nat i := NULL]\<rparr>"
  have w: "vec_ok ?w" "0 \<le> i" "i < elem_no ?w" using c by simp_all
  have ni: "nat i < length (elems c)" using c by simp
  have ew: "elems ?w = (elems c)[nat i := NULL]" by (simp add: elems_def take_update_swap)
  obtain v where v: "xi_vector_del ?w i = Some v" "vec_ok v" "vec_block v = vec_block ?w"
    "array_block v = array_block ?w" "memory_type v = memory_type ?w"
    using w by (rule xi_vector_del_spec)
  have "mset (elems v) = mset (elems ?w) - {#elems ?w ! nat i#}"
    using xi_vector_del_mset [OF w v(1)] by simp
  also have "\<dots> = mset (elems c) - {#elems c ! nat i#}"
    unfolding ew using ni by (simp add: mset_update)
  finally have "add_mset (elems c ! nat i) (mset (elems v)) = mset (elems c)"
    using ni by (simp add: insert_DiffM)
  moreover have "arr_set (array c) i NULL = Some ((array c)[nat i := NULL])"
    using c vec_okD(6) [OF c(1)] by (intro arr_set_Some) auto
  ultimately show thesis using that v by simp
qed

lemma xi_evtd_unregister_fd_spec:
  assumes s: "evtd_ok s"
  obtains (absent) "xi_evtd_unregister_fd s ty n = Some (-1, s)" "n \<notin> set (registered ty s)"
  | (removed) t p where "xi_evtd_unregister_fd s ty n = Some (1, t)" "evtd_frame s t"
      "p \<in> set (elems (container ty s))" "fd (fd_tuples s p) = n"
      "add_mset p (mset (elems (container ty t))) = mset (elems (container ty s))"
      "\<And>ty'. ty' \<noteq> ty \<Longrightarrow> container ty' t = container ty' s" "fd_tuples t = fd_tuples s"
      "live_blocks (tmem t) = live_blocks (tmem s) - {p}"
  using s
proof (rule find_fd_spec [where ty = ty and n = n])
  assume "xi_vector_find (container ty s) n (xi_evtd_cmp_fd s) = Some (- 1)" "n \<notin> set (registered ty s)"
  then show thesis by (intro absent) (simp_all add: xi_evtd_unregister_fd_def)
next
  fix i p
  let ?c = "container ty s"
  assume f: "xi_vector_find ?c n (xi_evtd_cmp_fd s) = Some i" "0 \<le> i" "i < elem_no ?c"
    "elems ?c ! nat i = p" "arr_get (array ?c) i = Some p" "p \<in> set (elems ?c)"
    "fd (fd_tuples s p) = n"
  note ok = evtd_okD [OF s]
  obtain cells v where v: "arr_set (array ?c) i NULL = Some cells"
    "xi_vector_del (?c\<lparr>array := cells\<rparr>) i = Some v" "vec_ok v"
    "add_mset (elems ?c ! nat i) (mset (elems v)) = mset (elems ?c)"
    "vec_block v = vec_block ?c" "array_block v = array_block ?c" "memory_type v = memory_type ?c"
    using ok(6) f(2,3) by (rule null_and_delete)
  have o: "set (other_blocks s) \<subseteq> live_blocks (tmem s)" "timer_blocks s \<inter> set (other_blocks s) = {}"
      "distinct (other_blocks s)" "timer_blocks s \<subseteq> live_blocks (tmem s)"
    using s tev_ok_live [OF ok(1)] by (auto simp: evtd_ok_def)
  have po: "p \<in> set (other_blocks s)" using f(6) container_blocks(1) [of ty s] by blast
  have pn: "p \<noteq> NULL" using po ok(4) by (auto simp: evtd_blocks_def)
  have mv: "mset (p # elems v) = mset (elems ?c)" using v(4) f(4) by simp
  let ?m = "xi_free p (tmem s)"
  let ?t = "set_container ty v (s\<lparr>tmem := ?m\<rparr>)"
  have t: "?t = set_container ty v (s\<lparr>tmem := ?m, fd_tuples := fd_tuples s\<rparr>)" by simp
  have ev: "xi_evtd_unregister_fd s ty n = Some (1, ?t)"
    using f v pn by (simp add: xi_evtd_unregister_fd_def)
  note dc = o(3) [unfolded distinct_other_blocks [of s ty]]
  have dv: "distinct (p # elems v)" using mset_eq_imp_distinct_iff [OF mv] dc by simp
  have sv: "insert p (set (elems v)) = set (elems ?c)" using mset_eq_setD [OF mv] by simp
  have ob: "distinct (other_blocks ?t)" "p \<notin> set (other_blocks ?t)"
    "set (other_blocks ?t) \<subseteq> set (other_blocks s)"
  proof -
    show "distinct (other_blocks ?t)"
      unfolding distinct_other_blocks [of _ ty] using dc dv sv v(5,6)
      by (auto simp: container_set_container)
    show "p \<notin> set (other_blocks ?t)"
      unfolding set_other_blocks [of _ ty] using dc dv sv v(5,6) by (auto simp: container_set_container)
    show "set (other_blocks ?t) \<subseteq> set (other_blocks s)"
      unfolding set_other_blocks [of _ ty] using sv v(5,6) by (auto simp: container_set_container)
  qed
  have live: "live_blocks ?m = live_blocks (tmem s) - {p}" using pn by simp
  have "evtd_ok ?t"
    using s v(3) _ t
  proof (rule evtd_ok_container)
    show "memory_type v = XI_MEMORY_TYPE_MANAGED" using v(7) ok(5) [of ty] by (simp add: registrations_ok_def)
    show "mem_ok ?m" using ok(2) by simp
    show "timer_blocks s \<subseteq> live_blocks ?m" using o po live by auto
    show "distinct (other_blocks ?t)" by (rule ob(1))
    show "set (other_blocks ?t) \<subseteq> live_blocks ?m" using ob o live by auto
    show "set (other_blocks ?t) \<inter> timer_blocks s = {}" using ob o by auto
    have "mset (map (\<lambda>q. fd (fd_tuples s q)) (p # elems v)) = mset (map (\<lambda>q. fd (fd_tuples s q)) (elems ?c))"
      unfolding mset_map mv ..
    from mset_eq_imp_distinct_iff [OF this]
    show "distinct (map (\<lambda>q. fd (fd_tuples s q)) (elems v))"
      using ok(5) [of ty] by (simp add: registrations_ok_def)
    show "\<forall>q \<in> set (elems v). fd_type (fd_tuples s q) = ty"
      using ok(5) [of ty] sv by (auto simp: registrations_ok_def)
  qed simp
  then have "evtd_frame s ?t"
    using ob(3) by (auto simp: evtd_frame_def evtd_blocks_def container_set_container)
  then show thesis
    using ev f(6,7) v(4) f(4) live
    by (intro removed [of ?t p]) (simp_all add: container_set_container)
qed

text \<open>Changing the handles and events of a registered tuple.\<close>

lemma evtd_frame_tuple:
  assumes s: "evtd_ok s" and t: "t = s\<lparr>fd_tuples := (fd_tuples s)(p := u)\<rparr>"
    and u: "fd u = fd (fd_tuples s p)" "fd_type u = fd_type (fd_tuples s p)"
  shows "evtd_frame s t" "registered ty t = registered ty s"
proof -
  have f: "fd (fd_tuples t q) = fd (fd_tuples s q)" "fd_type (fd_tuples t q) = fd_type (fd_tuples s q)" for q
    using u by (simp_all add: t)
  have c: "container ty t = container ty s" for ty by (simp add: t)
  have "registrations_ok t ty" for ty
    using evtd_okD(5) [OF s, of ty] by (simp add: registrations_ok_def f c)
  moreover have "tev_ok t" "other_blocks t = other_blocks s" "timer_blocks t = timer_blocks s"
    using evtd_okD(1) [OF s] by (simp_all add: t)
  ultimately show "evtd_frame s t"
    using s by (simp add: evtd_frame_def evtd_ok_def evtd_blocks_def t)
  show "registered ty t = registered ty s" by (simp add: registered_def f c)
qed

lemma xi_evtd_continue_when_spec:
  assumes s: "evtd_ok s"
  obtains (absent) "xi_evtd_continue_when_evt_on_socket s et h n = Some (-1, s)"
      "n \<notin> set (registered XI_EVTD_FD_TYPE_SOCKET s)"
  | (updated) t p where "xi_evtd_continue_when_evt_on_socket s et h n = Some (1, t)" "evtd_frame s t"
      "p \<in> set (elems (handles_and_socket_fd s))" "fd (fd_tuples s p) = n"
      "t = s\<lparr>fd_tuples := (fd_tuples s)(p := (fd_tuples s p)\<lparr>event_type := et, handle := h\<rparr>)\<rparr>"
  using s
proof (rule find_fd_spec [where ty = XI_EVTD_FD_TYPE_SOCKET and n = n])
  let ?c = "container XI_EVTD_FD_TYPE_SOCKET s"
  assume "xi_vector_find ?c n (xi_evtd_cmp_fd s) = Some (- 1)" "n \<notin> set (registered XI_EVTD_FD_TYPE_SOCKET s)"
  then show thesis
    by (intro absent) (simp_all add: xi_evtd_continue_when_evt_on_socket_def container_def)
next
  let ?c = "container XI_EVTD_FD_TYPE_SOCKET s"
  fix i p
  assume f: "xi_vector_find ?c n (xi_evtd_cmp_fd s) = Some i" "0 \<le> i" "arr_get (array ?c) i = Some p"
    "p \<in> set (elems ?c)" "fd (fd_tuples s p) = n" "deref_tuple s p = Some (fd_tuples s p)"
  let ?u = "(fd_tuples s p)\<lparr>event_type := et, handle := h\<rparr>"
  let ?t = "s\<lparr>fd_tuples := (fd_tuples s)(p := ?u)\<rparr>"
  have "fd_type (fd_tuples s p) = XI_EVTD_FD_TYPE_SOCKET"
    using evtd_okD(5) [OF s, of XI_EVTD_FD_TYPE_SOCKET] f(4) by (simp add: registrations_ok_def)
  then have "xi_evtd_continue_when_evt_on_socket s et h n = Some (1, ?t)"
    using f by (simp add: xi_evtd_continue_when_evt_on_socket_def container_def)
  moreover have "evtd_frame s ?t" using s refl by (rule evtd_frame_tuple) simp_all
  ultimately show thesis using f by (intro updated [of ?t p]) (simp_all add: container_def)
qed

end
