(* ===== verification/Xi_Layer.thy ===== *)
theory Xi_Layer
  imports Xi_Event_Dispatcher_Invariant
begin

text \<open>
  \<open>src/libxively/xi_layer_api.c\<close>: how a layer hands data to another one. The call is posted on
  the dispatcher, and the state of the layer that makes the call moves on. A layer's table of
  functions has seven entries, all different.
\<close>

datatype xi_layer_state =
    XI_LAYER_STATE_NONE | XI_LAYER_STATE_CONNECTING | XI_LAYER_STATE_CONNECTED
  | XI_LAYER_STATE_CLOSING | XI_LAYER_STATE_CLOSED

datatype xi_layer_op = Push | Pull | Close | Close_Externally | Init | Connect_Layer | Post_Connect

fun get_next_layer_state :: "xi_layer_op \<Rightarrow> xi_layer_state \<Rightarrow> xi_state \<Rightarrow> xi_layer_state" where
  "get_next_layer_state Close from_state st =
     (if from_state = XI_LAYER_STATE_CONNECTED then XI_LAYER_STATE_CLOSING else from_state)"
| "get_next_layer_state Close_Externally from_state st = XI_LAYER_STATE_CLOSED"
| "get_next_layer_state Connect_Layer from_state st =
     (if st = XI_STATE_OK then XI_LAYER_STATE_CONNECTED else XI_LAYER_STATE_CLOSED)"
| "get_next_layer_state Init from_state st = XI_LAYER_STATE_CONNECTING"
| "get_next_layer_state Pull from_state st = from_state"
| "get_next_layer_state Push from_state st = from_state"
| "get_next_layer_state Post_Connect from_state st = from_state"

definition XI_THIS_LAYER_NOT_OPERATIONAL :: "xi_layer_state \<Rightarrow> bool" where
  "XI_THIS_LAYER_NOT_OPERATIONAL layer_state \<longleftrightarrow>
     layer_state = XI_LAYER_STATE_CLOSING \<or> layer_state = XI_LAYER_STATE_CLOSED"

text \<open>
  \<open>func\<close> is the entry \<open>op\<close> of the target's table, \<open>None\<close> when there is no such layer;
  \<open>from_state\<close> is the state of the calling layer.
\<close>

definition xi_layer_continue_with_impl ::
    "'f option \<Rightarrow> xi_layer_op \<Rightarrow> xi_layer_state \<Rightarrow> addr \<Rightarrow> addr \<Rightarrow> xi_state
       \<Rightarrow> ('f, 'z) xi_evtd_instance_scheme \<Rightarrow> xi_state \<times> xi_layer_state \<times> ('f, 'z) xi_evtd_instance_scheme"
where
  "xi_layer_continue_with_impl func op from_state context data st s =
     (case func of
        None \<Rightarrow> (XI_STATE_OK, from_state, s)
      | Some fn \<Rightarrow>
          let (e_ptr, s1) = xi_evtd_execute s (xi_make_handle_argc3 0 fn context data st)
          in if e_ptr = NULL then (XI_OUT_OF_MEMORY, from_state, s1)
             else (XI_STATE_OK, get_next_layer_state op from_state st, s1))"

end
