(* ===== verification/Xi_Event_Dispatcher_Step.thy ===== *)
theory Xi_Event_Dispatcher_Step
  imports Xi_Event_Dispatcher_Invariant
begin

text \<open>
  The step of the event dispatcher with the handlers it calls: the contract a handler has to
  keep, that the library's own operations keep it in every combination, and what a step does
  with handlers that only work on the application's state.
\<close>

section \<open>The contract of the handlers\<close>

locale handler_environment =
  fixes env :: "('f, ('f, 'z) xi_evtd_instance_scheme) xi_environment"
  assumes env_frame: "evtd_ok s \<Longrightarrow> env fn args s = Some (r, t) \<Longrightarrow> evtd_frame s t"
begin

lemma execute_frame:
  "evtd_ok s \<Longrightarrow> xi_evtd_execute_handle env h s = Some (r, t) \<Longrightarrow> evtd_frame s t"
  by (auto simp: xi_evtd_execute_handle_def evtd_frame_refl split: option.splits intro: env_frame)

lemma pop_call_frame:
  assumes s: "evtd_ok s" and q: "call_queue s = (p, h) # rest"
  shows "evtd_frame s (s\<lparr>current_step := i, call_queue := rest\<rparr>)"
    "p \<notin> evtd_blocks (s\<lparr>current_step := i, call_queue := rest\<rparr>)" "p < next_block (tmem s)"
proof -
  let ?t = "s\<lparr>current_step := i, call_queue := rest\<rparr>"
  have p: "p \<in> evtd_blocks s" by (simp add: evtd_blocks_def other_blocks_def q)
  then show "p < next_block (tmem s)" using evtd_okD(4) [OF s] by blast
  have tb: "timer_blocks ?t = timer_blocks s" by (simp add: timer_blocks_def)
  have d: "distinct (other_blocks ?t)" "p \<notin> set (other_blocks ?t)" "set (other_blocks ?t) \<subseteq> set (other_blocks s)"
    using s by (auto simp: evtd_ok_def other_blocks_def q)
  have o: "set (other_blocks s) \<inter> timer_blocks s = {}" "p \<in> set (other_blocks s)"
    using s by (auto simp: evtd_ok_def other_blocks_def q)
  show "p \<notin> evtd_blocks ?t" using d o tb by (auto simp: evtd_blocks_def)
  have "registrations_ok ?t ty" for ty
    using evtd_okD(5) [OF s, of ty] by (cases ty) (simp_all add: registrations_ok_def container_def)
  then have "evtd_ok ?t" using s d o(1) tb by (auto simp: evtd_ok_def)
  then show "evtd_frame s ?t" using d tb by (auto simp: evtd_frame_def evtd_blocks_def)
qed

lemma single_step_frame:
  assumes s: "evtd_ok s" and r: "xi_evtd_single_step env s i = Some (n, t)"
  shows "evtd_frame s t"
proof (cases "call_queue s")
  case Nil
  then show ?thesis using s r by (auto simp: xi_evtd_single_step_def evtd_frame_refl)
next
  case (Cons c rest)
  obtain p h where c: "c = (p, h)" by fastforce
  note q = Cons [unfolded c]
  note f = pop_call_frame(1,2) [OF s q, of i] pop_call_frame(3) [OF s q]
  obtain x u where u: "xi_evtd_execute_handle env h (s\<lparr>current_step := i, call_queue := rest\<rparr>) = Some (x, u)"
    "t = u\<lparr>tmem := xi_free p (tmem u)\<rparr>"
    using r q by (auto simp: xi_evtd_single_step_def split: bind_splits)
  let ?s = "s\<lparr>current_step := i, call_queue := rest\<rparr>"
  have "evtd_ok ?s" using f(1) by (simp add: evtd_frame_def)
  then have "evtd_frame ?s u" using u(1) by (rule execute_frame)
  then have "evtd_frame ?s t" unfolding u(2) by (rule evtd_frame_free) (use f(2,3) in simp_all)
  then show ?thesis using f(1) evtd_frame_trans by blast
qed

lemma timed_loop_frame:
  assumes "xi_evtd_timed_loop env s = Some t"
  shows "evtd_ok s \<longrightarrow> evtd_frame s t"
proof (rule xi_evtd_timed_loop.raw_induct [OF _ assms, where P = "\<lambda>e s t. e = env \<longrightarrow> evtd_ok s \<longrightarrow> evtd_frame s t",
      THEN mp, OF _ refl], intro impI)
  fix loop and e :: "('f, ('f, 'z) xi_evtd_instance_scheme) xi_environment" and s t :: "('f, 'z) xi_evtd_instance_scheme"
  assume IH: "\<And>(e :: ('f, ('f, 'z) xi_evtd_instance_scheme) xi_environment) (s :: ('f, 'z) xi_evtd_instance_scheme) t.
      loop e s = Some t \<Longrightarrow> e = env \<longrightarrow> evtd_ok s \<longrightarrow> evtd_frame s t"
  assume e: "e = env" and s: "evtd_ok s"
  assume b: "(if elem_no (tv s) = 0 then Some s
      else do {
        top_one \<leftarrow> xi_time_event_peek_top s;
        ev \<leftarrow> deref_event s top_one;
        if time_of_execution ev \<le> current_step s
        then do {
          (tmp, s1) \<leftarrow> xi_time_event_get_top s;
          e1 \<leftarrow> deref_event s1 tmp;
          (result, s2) \<leftarrow> xi_evtd_execute_handle e (event_handle e1) s1;
          let s3 = s2\<lparr>tmem := xi_free tmp (tmem s2)\<rparr>;
          loop e (if xi_state_is_fatal result then xi_evtd_stop s3 else s3) }
        else Some s }) = Some t"
  show "evtd_frame s t"
  proof (cases "queue s")
    case Nil
    then have "elem_no (tv s) = 0"
      using tev_structD(8) [of s] evtd_okD(1) [OF s] by (simp add: tev_ok_def)
    then show ?thesis using b s by (simp add: evtd_frame_refl)
  next
    case (Cons p ps)
    then have ne: "elem_no (tv s) \<noteq> 0"
      using tev_structD(8) [of s] evtd_okD(1) [OF s] by (auto simp: tev_ok_def)
    obtain s1 where g: "xi_time_event_get_top s = Some (p, s1)" "removed_at 0 s s1"
      using evtd_okD(1) [OF s] Cons by (rule xi_time_event_get_top_spec)
    note f = evtd_frame_pop [OF s g(2), unfolded Cons, simplified]
    show ?thesis
    proof (cases "t = s")
      case False
      then obtain hd1 x s2 v where r: "xi_evtd_execute_handle env hd1 s1 = Some (x, s2)"
        "loop env v = Some t" "v = xi_evtd_stop (s2\<lparr>tmem := xi_free p (tmem s2)\<rparr>)
           \<or> v = s2\<lparr>tmem := xi_free p (tmem s2)\<rparr>"
        using b ne g(1) e by (auto simp: Let_def split: bind_splits if_splits)
      let ?u = "s2\<lparr>tmem := xi_free p (tmem s2)\<rparr>"
      have "evtd_frame s1 s2" using f(1) r(1) by (intro execute_frame) (simp_all add: evtd_frame_def)
      then have su: "evtd_frame s1 ?u"
        by (rule evtd_frame_free) (use f g(2) in \<open>simp_all add: removed_at_def\<close>)
      have sv: "evtd_frame s1 v" using su r(3) by (auto simp: xi_evtd_stop_def)
      then have "evtd_frame v t" using IH [OF r(2)] by (simp add: evtd_frame_def)
      then show ?thesis using f(1) sv evtd_frame_trans by blast
    qed (use s evtd_frame_refl in simp)
  qed
qed

lemma call_loop_frame:
  assumes "xi_evtd_call_loop env i s = Some t"
  shows "evtd_ok s \<longrightarrow> evtd_frame s t"
proof (rule xi_evtd_call_loop.raw_induct [OF _ assms, where P = "\<lambda>e i s t. e = env \<longrightarrow> evtd_ok s \<longrightarrow> evtd_frame s t",
      THEN mp, OF _ refl], intro impI)
  fix loop and e :: "('f, ('f, 'z) xi_evtd_instance_scheme) xi_environment" and i :: int and s t :: "('f, 'z) xi_evtd_instance_scheme"
  assume IH: "\<And>(e :: ('f, ('f, 'z) xi_evtd_instance_scheme) xi_environment) (i :: int) (s :: ('f, 'z) xi_evtd_instance_scheme) t.
      loop e i s = Some t \<Longrightarrow> e = env \<longrightarrow> evtd_ok s \<longrightarrow> evtd_frame s t"
  assume e: "e = env" and s: "evtd_ok s"
  assume "do { (more_calls, s1) \<leftarrow> xi_evtd_single_step e s i;
      if more_calls \<noteq> 0 then loop e i s1 else Some s1 } = Some t"
  then obtain n s1 where r: "xi_evtd_single_step env s i = Some (n, s1)"
      "(if n \<noteq> 0 then loop env i s1 else Some s1) = Some t"
    using e by (auto split: bind_splits)
  have f: "evtd_frame s s1" using s r(1) by (rule single_step_frame)
  show "evtd_frame s t"
  proof (cases "n = 0")
    case False
    then have "evtd_frame s1 t" using IH [of env i s1 t] r(2) f by (simp add: evtd_frame_def)
    then show ?thesis using f evtd_frame_trans by blast
  qed (use r(2) f in simp)
qed

lemma step_frame:
  assumes s: "evtd_ok s" and r: "xi_evtd_step env s now = Some t"
  shows "evtd_frame s t"
proof -
  obtain s1 s2 where l: "xi_evtd_timed_loop env (s\<lparr>current_step := now\<rparr>) = Some s1"
    "xi_evtd_call_loop env now s1 = Some s2" and
    e: "(if elem_no (tv s2) = 0 \<and> handlers (on_empty s2) \<noteq> XI_EVENT_HANDLE_UNSET
     then do { (_, s3) \<leftarrow> xi_evtd_execute_handle env (on_empty s2) s2;
               Some (s3\<lparr>on_empty := xi_dispose_handle (on_empty s3)\<rparr>) }
     else Some s2) = Some t"
    using r by (auto simp: xi_evtd_step_def split: bind_splits)
  have f1: "evtd_frame s s1" using timed_loop_frame [OF l(1)] s by simp
  then have f2: "evtd_frame s s2"
    using call_loop_frame [OF l(2)] evtd_frame_trans by (auto simp: evtd_frame_def)
  show ?thesis
  proof (cases "t = s2")
    case False
    then obtain x s3 where "xi_evtd_execute_handle env (on_empty s2) s2 = Some (x, s3)"
      "t = s3\<lparr>on_empty := xi_dispose_handle (on_empty s3)\<rparr>"
      using e by (auto split: if_splits bind_splits)
    then show ?thesis using f2 execute_frame [of s2] evtd_frame_trans [OF f2, of s3]
      by (simp add: evtd_frame_def)
  qed (use f2 in simp)
qed

lemma update_event_frame:
  assumes s: "evtd_ok s" and r: "xi_evtd_update_event_on_fd env s ty n = Some (st, t)"
  shows "evtd_frame s t"
  using s
proof (rule find_fd_spec [where ty = ty and n = n])
  assume "xi_vector_find (container ty s) n (xi_evtd_cmp_fd s) = Some (- 1)"
  then show ?thesis using s r
    by (auto simp: xi_evtd_update_event_on_fd_def xi_evtd_stop_def evtd_frame_refl)
next
  fix i p
  assume f: "xi_vector_find (container ty s) n (xi_evtd_cmp_fd s) = Some i" "0 \<le> i"
    "arr_get (array (container ty s)) i = Some p" "deref_tuple s p = Some (fd_tuples s p)"
  let ?u = "(fd_tuples s p)\<lparr>event_type := XI_EVENT_WANT_READ, handle := read_handle (fd_tuples s p)\<rparr>"
  let ?s = "if fd_type (fd_tuples s p) = XI_EVTD_FD_TYPE_SOCKET
            then s\<lparr>fd_tuples := (fd_tuples s)(p := ?u)\<rparr> else s"
  obtain x where x: "xi_evtd_execute_handle env (handle (fd_tuples s p)) ?s = Some (x, t)"
    using r f by (auto simp: xi_evtd_update_event_on_fd_def split: bind_splits)
  have fs: "evtd_frame s ?s"
    using evtd_frame_tuple(1) [OF s refl, of ?u p] evtd_frame_refl [OF s] by simp
  then have "evtd_frame ?s t" using x by (intro execute_frame) (simp_all add: evtd_frame_def)
  then show ?thesis using fs evtd_frame_trans by blast
qed

end

section \<open>Handlers built from the library's operations\<close>

text \<open>
  A call a handler can make on its dispatcher, and the handlers whose code is a sequence of
  such calls: the program of a function pointer and its arguments.
\<close>

datatype 'f evtd_call =
    Execute "'f xi_event_handle"
  | Execute_in "'f xi_event_handle" int addr
  | Cancel addr
  | Restart addr int
  | Register xi_evtd_fd_type xi_event_type int "'f xi_event_handle"
  | Unregister xi_evtd_fd_type int
  | Continue_when xi_event_type "'f xi_event_handle" int
  | Continue_when_empty "'f xi_event_handle"
  | Stop

definition run_call ::
    "'f evtd_call \<Rightarrow> ('f, 'z) xi_evtd_instance_scheme \<Rightarrow> ('f, 'z) xi_evtd_instance_scheme option" where
  "run_call c s = (case c of
     Execute h \<Rightarrow> Some (snd (xi_evtd_execute s h))
   | Execute_in h d cell \<Rightarrow> map_option snd (xi_evtd_execute_in s h d cell)
   | Cancel cell \<Rightarrow> map_option snd (xi_evtd_cancel s cell)
   | Restart cell d \<Rightarrow> map_option snd (xi_evtd_restart s cell d)
   | Register ty et n h \<Rightarrow> map_option snd (xi_evtd_register_fd s et ty n h h)
   | Unregister ty n \<Rightarrow> map_option snd (xi_evtd_unregister_fd s ty n)
   | Continue_when et h n \<Rightarrow> map_option snd (xi_evtd_continue_when_evt_on_socket s et h n)
   | Continue_when_empty h \<Rightarrow> Some (xi_evtd_continue_when_empty s h)
   | Stop \<Rightarrow> Some (xi_evtd_stop s))"

definition program_env ::
    "('f \<Rightarrow> xi_argument list \<Rightarrow> 'f evtd_call list \<times> xi_state)
       \<Rightarrow> ('f, ('f, 'z) xi_evtd_instance_scheme) xi_environment" where
  "program_env prog fn args s =
     map_option (\<lambda>t. (snd (prog fn args), t)) (fold_option run_call (fst (prog fn args)) s)"

lemma failed_alloc_frame:
  assumes s: "evtd_ok s" and a: "xi_alloc n (tmem s) = (NULL, m)"
  shows "evtd_frame s (s\<lparr>tmem := m\<rparr>)"
proof -
  note ok = evtd_okD [OF s] and l = xi_alloc_live [OF evtd_okD(2) [OF s] a]
  have "tev_ok (s\<lparr>tmem := m\<rparr>)"
    using tev_ok_mem [OF ok(1) xi_alloc_mem_ok [OF a ok(2)]] tev_ok_live [OF ok(1)] l by simp
  then have "evtd_ok (s\<lparr>tmem := m\<rparr>)"
    using s l by (intro evtd_ok_timer [OF s]) (auto simp: evtd_ok_def)
  then show ?thesis using xi_alloc_next_mono [OF a] by (simp add: evtd_frame_def)
qed

lemma execute_in_frame:
  assumes s: "evtd_ok s" and r: "xi_evtd_execute_in s h d c = Some (st, t)"
  shows "evtd_frame s t"
proof (cases "xi_alloc sizeof_xi_time_event (tmem s)")
  case (Pair p m)
  show ?thesis
  proof (cases "p = NULL")
    case True
    then show ?thesis using r Pair failed_alloc_frame [OF s, of _ m] by (auto simp: xi_evtd_execute_in_def)
  next
    case False
    then obtain time where time: "long_add (current_step s) d = Some time"
      using r Pair by (auto simp: xi_evtd_execute_in_def split: bind_splits)
    have "c \<noteq> NULL \<Longrightarrow> handles s c = NULL"
      using r Pair False by (auto simp: xi_evtd_execute_in_def xi_time_event_add_def split: bind_splits)
    from s this time show ?thesis
      by (rule xi_evtd_execute_in_spec [where h = h]) (use r in auto)
  qed
qed

lemma run_call_frame:
  assumes s: "evtd_ok s" and r: "run_call c s = Some t"
  shows "evtd_frame s t"
proof (cases c)
  case (Execute h)
  then show ?thesis using s r by (cases rule: xi_evtd_execute_spec [OF s, of h]) (auto simp: run_call_def)
next
  case (Execute_in h d cell)
  then show ?thesis using r execute_in_frame [OF s, of h d cell] by (auto simp: run_call_def)
next
  case (Cancel cell)
  have "handles s cell \<noteq> NULL"
    using Cancel r by (auto simp: run_call_def xi_evtd_cancel_def xi_time_event_cancel_def split: bind_splits)
  with s obtain t' where "xi_evtd_cancel s cell = Some (XI_STATE_OK, t')" "evtd_frame s t'"
    by (rule xi_evtd_cancel_spec)
  then show ?thesis using Cancel r by (simp add: run_call_def)
next
  case (Restart cell d)
  then obtain time st where t: "long_add (current_step s) d = Some time" "xi_time_event_restart s cell time = Some (st, t)"
    using r by (auto simp: run_call_def xi_evtd_restart_def split: bind_splits)
  then have "handles s cell \<noteq> NULL"
    by (auto simp: xi_time_event_restart_def handle_position_def deref_event_def split: bind_splits if_splits)
  with s obtain t' where "xi_evtd_restart s cell d = Some (XI_STATE_OK, t')" "evtd_frame s t'"
    using t(1) by (rule xi_evtd_restart_spec)
  then show ?thesis using Restart r by (simp add: run_call_def)
next
  case (Register ty et n h)
  have "n \<notin> set (registered ty s)"
  proof (rule find_fd_spec [OF s, of ty n])
    fix i p
    assume "xi_vector_find (container ty s) n (xi_evtd_cmp_fd s) = Some i" "0 \<le> i"
    then show ?thesis
      using Register r by (auto simp: run_call_def xi_evtd_register_fd_def)
  qed
  with s show ?thesis
    by (cases rule: xi_evtd_register_fd_spec [of s n ty et h h]) (use Register r in \<open>auto simp: run_call_def\<close>)
next
  case (Unregister ty n)
  then show ?thesis
    using s r by (cases rule: xi_evtd_unregister_fd_spec [OF s, of ty n]) (auto simp: run_call_def evtd_frame_refl)
next
  case (Continue_when et h n)
  then show ?thesis
    using s r by (cases rule: xi_evtd_continue_when_spec [OF s, of et h n]) (auto simp: run_call_def evtd_frame_refl)
qed (use s r evtd_frame_refl [OF s] in
    \<open>auto simp: run_call_def xi_evtd_continue_when_empty_def xi_evtd_stop_def\<close>)

lemma run_calls_frame: "evtd_ok s \<Longrightarrow> fold_option run_call cs s = Some t \<Longrightarrow> evtd_frame s t"
proof (induction cs arbitrary: s)
  case (Cons c cs)
  then obtain u where u: "run_call c s = Some u" "fold_option run_call cs u = Some t"
    by (auto split: bind_splits)
  have "evtd_frame s u" using Cons.prems(1) u(1) by (rule run_call_frame)
  then show ?case using Cons.IH [OF _ u(2)] evtd_frame_trans by (auto simp: evtd_frame_def)
qed (simp add: evtd_frame_refl)

interpretation program: handler_environment "program_env prog" for prog
  by unfold_locales (auto simp: program_env_def intro: run_calls_frame)

section \<open>Handlers that work on the application's state\<close>

definition application_env ::
    "('f \<Rightarrow> xi_argument list \<Rightarrow> 'z \<Rightarrow> xi_state \<times> 'z) \<Rightarrow> ('f, ('f, 'z) xi_evtd_instance_scheme) xi_environment"
where
  "application_env g fn args s = Some (fst (g fn args (xi_evtd_instance.more s)),
     xi_evtd_instance.more_update (\<lambda>z. snd (g fn args z)) s)"

text \<open>The effect of a handle on the application's state; none for an unset handle.\<close>

definition handle_effect ::
    "('f \<Rightarrow> xi_argument list \<Rightarrow> 'z \<Rightarrow> xi_state \<times> 'z) \<Rightarrow> 'f xi_event_handle \<Rightarrow> 'z \<Rightarrow> 'z" where
  "handle_effect g h z = (case handle_call (handlers h) of None \<Rightarrow> z | Some (fn, args) \<Rightarrow> snd (g fn args z))"

lemma execute_application:
  obtains r where "xi_evtd_execute_handle (application_env g) h s
    = Some (r, xi_evtd_instance.more_update (handle_effect g h) s)"
proof (cases "handle_call (handlers h)")
  case None
  then have "handle_effect g h = id" by (simp add: handle_effect_def fun_eq_iff)
  then show thesis using that None by (simp add: xi_evtd_execute_handle_def id_def)
next
  case (Some c)
  then have "handle_effect g h = (\<lambda>z. snd (g (fst c) (snd c) z))"
    by (simp add: handle_effect_def fun_eq_iff split: prod.split)
  then show thesis
    using that Some by (cases c) (simp add: xi_evtd_execute_handle_def application_env_def)
qed

interpretation application: handler_environment "application_env g" for g
  by unfold_locales (auto simp: application_env_def evtd_frame_refl)

abbreviation event_handles :: "('f, 'z) xi_evtd_instance_scheme \<Rightarrow> addr list \<Rightarrow> 'f xi_event_handle list" where
  "event_handles s ps \<equiv> map (\<lambda>p. event_handle (tevs s p)) ps"

text \<open>What the loops leave alone.\<close>

definition same_timers ::
    "('f, 'z) xi_evtd_instance_scheme \<Rightarrow> ('f, 'z) xi_evtd_instance_scheme \<Rightarrow> bool" where
  "same_timers s t \<longleftrightarrow> event_key t = event_key s
     \<and> (\<forall>p. event_handle (tevs t p) = event_handle (tevs s p))
     \<and> on_empty t = on_empty s \<and> current_step t = current_step s"

text \<open>A round of the loop over the timers, when nothing is due and when the first timer is.\<close>

lemma timed_loop_not_due:
  assumes s: "evtd_ok s" and q: "\<And>p. p \<in> set (queue s) \<Longrightarrow> current_step s < event_key s p"
  shows "xi_evtd_timed_loop env s = Some s"
proof (cases "queue s")
  case Nil
  then have "elem_no (tv s) = 0"
    using tev_structD(8) [of s] evtd_okD(1) [OF s] by (simp add: tev_ok_def)
  then show ?thesis by (subst xi_evtd_timed_loop.simps) simp
next
  case (Cons p ps)
  have st: "tev_struct s" using evtd_okD(1) [OF s] by (simp add: tev_ok_def)
  have ne: "elem_no (tv s) \<noteq> 0" "0 < elem_no (tv s)" using tev_structD(8) [OF st] Cons by auto
  have peek: "xi_time_event_peek_top s = Some p"
    using vec_get_in [OF tev_structD(1) [OF st], of 0] ne Cons by (simp add: xi_time_event_peek_top_def)
  have d: "deref_event s p = Some (tevs s p)" using tev_structD(6) [OF st] Cons by simp
  show ?thesis
    using q [of p] Cons ne peek d by (subst xi_evtd_timed_loop.simps) (simp add: event_key_def)
qed

text \<open>One round of the first loop: the earliest event is due, is taken and called, and freed.\<close>

lemma timed_loop_due:
  assumes s: "evtd_ok s" and q: "queue s = p # ps" and due: "event_key s p \<le> current_step s"
  obtains s1 where "removed_at 0 s s1" "queue s1 = ps" "evtd_frame s s1" "p \<notin> evtd_blocks s1"
    "p < next_block (tmem s)" "event_handle (tevs s1 p) = event_handle (tevs s p)"
    "xi_evtd_timed_loop env s = do {
       (result, s2) \<leftarrow> xi_evtd_execute_handle env (event_handle (tevs s p)) s1;
       let s3 = s2\<lparr>tmem := xi_free p (tmem s2)\<rparr>;
       xi_evtd_timed_loop env (if xi_state_is_fatal result then xi_evtd_stop s3 else s3) }"
proof -
  have st: "tev_struct s" using evtd_okD(1) [OF s] by (simp add: tev_ok_def)
  have ne: "elem_no (tv s) \<noteq> 0" "0 < elem_no (tv s)" using tev_structD(8) [OF st] q by auto
  have peek: "xi_time_event_peek_top s = Some p"
    using vec_get_in [OF tev_structD(1) [OF st], of 0] ne q by (simp add: xi_time_event_peek_top_def)
  have d: "deref_event s p = Some (tevs s p)" using tev_structD(6) [OF st] q by simp
  obtain s1 where g1: "xi_time_event_get_top s = Some (p, s1)" "removed_at 0 s s1" "queue s1 = ps"
    using evtd_okD(1) [OF s] q by (rule xi_time_event_get_top_spec)
  note f = evtd_frame_pop [OF s g1(2), unfolded q, simplified]
  have r1: "tmem s1 = tmem s" "event_handle (tevs s1 p) = event_handle (tevs s p)"
    using g1(2) by (simp_all add: removed_at_def)
  have d1: "deref_event s1 p = Some (tevs s1 p)"
    using d r1(1) by (auto simp: deref_event_def split: if_splits)
  have "xi_evtd_timed_loop env s = do {
       (result, s2) \<leftarrow> xi_evtd_execute_handle env (event_handle (tevs s p)) s1;
       let s3 = s2\<lparr>tmem := xi_free p (tmem s2)\<rparr>;
       xi_evtd_timed_loop env (if xi_state_is_fatal result then xi_evtd_stop s3 else s3) }"
    using ne peek d g1(1) d1 r1(2) due
    by (subst xi_evtd_timed_loop.simps) (simp add: event_key_def)
  then show thesis using that [of s1] g1 f r1 by blast
qed

lemma timed_loop_application:
  assumes "evtd_ok s"
  shows "\<exists>t. xi_evtd_timed_loop (application_env g) s = Some t \<and> evtd_ok t \<and> same_timers s t
    \<and> queue t = dropWhile (\<lambda>p. event_key s p \<le> current_step s) (queue s) \<and> call_queue t = call_queue s
    \<and> xi_evtd_instance.more t = fold (handle_effect g)
        (event_handles s (takeWhile (\<lambda>p. event_key s p \<le> current_step s) (queue s)))
        (xi_evtd_instance.more s)"
  using assms
proof (induction "queue s" arbitrary: s)
  case Nil
  then have "xi_evtd_timed_loop (application_env g) s = Some s" by (intro timed_loop_not_due) auto
  then show ?case using Nil by (auto simp: same_timers_def)
next
  case (Cons p ps)
  note s = Cons.prems and q = Cons.hyps(2) [symmetric]
  show ?case
  proof (cases "event_key s p \<le> current_step s")
    case False
    have "sorted (map (event_key s) (queue s))" using evtd_okD(1) [OF s] by (simp add: tev_ok_def)
    then have "xi_evtd_timed_loop (application_env g) s = Some s"
      using s False q by (intro timed_loop_not_due) auto
    then show ?thesis using False s q by (auto simp: same_timers_def)
  next
    case True
    obtain s1 where g1: "removed_at 0 s s1" "queue s1 = ps" "evtd_frame s s1" "p \<notin> evtd_blocks s1"
      and l: "xi_evtd_timed_loop (application_env g) s = do {
         (result, s2) \<leftarrow> xi_evtd_execute_handle (application_env g) (event_handle (tevs s p)) s1;
         let s3 = s2\<lparr>tmem := xi_free p (tmem s2)\<rparr>;
         xi_evtd_timed_loop (application_env g)
           (if xi_state_is_fatal result then xi_evtd_stop s3 else s3) }"
      using s q True by (rule timed_loop_due [where env = "application_env g"])
    have r1: "time_events.more s1 = time_events.more s" "tmem s1 = tmem s" "event_key s1 = event_key s"
      "\<And>x. event_handle (tevs s1 x) = event_handle (tevs s x)"
      using g1(1) by (simp_all add: removed_at_def)
    note m1 = same_more [OF r1(1)]
    obtain r where x: "xi_evtd_execute_handle (application_env g) (event_handle (tevs s p)) s1
        = Some (r, xi_evtd_instance.more_update (handle_effect g (event_handle (tevs s p))) s1)"
      by (rule execute_application)
    let ?s2 = "xi_evtd_instance.more_update (handle_effect g (event_handle (tevs s p))) s1"
    let ?s3 = "?s2\<lparr>tmem := xi_free p (tmem s1)\<rparr>"
    let ?s4 = "if xi_state_is_fatal r then xi_evtd_stop ?s3 else ?s3"
    have "evtd_ok ?s3" using g1(3,4) evtd_ok_free [of ?s2 p] by (simp add: evtd_frame_def)
    then have ok4: "evtd_ok ?s4" by (simp add: xi_evtd_stop_def)
    have q4: "queue ?s4 = ps" "event_key ?s4 = event_key s" "current_step ?s4 = current_step s"
      "on_empty ?s4 = on_empty s" "call_queue ?s4 = call_queue s"
      "\<And>x. event_handle (tevs ?s4 x) = event_handle (tevs s x)"
      "xi_evtd_instance.more ?s4 = handle_effect g (event_handle (tevs s p)) (xi_evtd_instance.more s)"
      using g1(2) r1 m1 by (simp_all add: xi_evtd_stop_def event_key_def [abs_def])
    obtain t where t: "xi_evtd_timed_loop (application_env g) ?s4 = Some t" "evtd_ok t" "same_timers ?s4 t"
      "queue t = dropWhile (\<lambda>p. event_key s p \<le> current_step s) ps" "call_queue t = call_queue s"
      "xi_evtd_instance.more t = fold (handle_effect g)
        (event_handles s (takeWhile (\<lambda>p. event_key s p \<le> current_step s) ps)) (xi_evtd_instance.more ?s4)"
      using Cons.hyps(1) [of ?s4] ok4 unfolding q4 by auto
    have "xi_evtd_timed_loop (application_env g) s = Some t"
      using l x t(1) by (cases "xi_state_is_fatal r") (simp_all add: Let_def)
    moreover have "same_timers s t" using t(3) unfolding same_timers_def q4 .
    ultimately show ?thesis using t(2,4-6) True q q4(7) by (intro exI [of _ t]) simp
  qed
qed

lemma call_loop_application:
  assumes "evtd_ok s"
  shows "\<exists>t. xi_evtd_call_loop (application_env g) now s = Some t \<and> evtd_ok t \<and> tv t = tv s
    \<and> tevs t = tevs s \<and> on_empty t = on_empty s \<and> current_step t = now \<and> call_queue t = []
    \<and> xi_evtd_instance.more t = fold (handle_effect g) (map snd (call_queue s)) (xi_evtd_instance.more s)"
  using assms
proof (induction "call_queue s" arbitrary: s)
  case Nil
  note q = Nil.hyps(1) [symmetric]
  have "xi_evtd_call_loop (application_env g) now s = Some (s\<lparr>current_step := now\<rparr>)"
    by (subst xi_evtd_call_loop.simps) (simp add: xi_evtd_single_step_def q)
  then show ?case using Nil.prems q by auto
next
  case (Cons c rest)
  obtain p h where c: "c = (p, h)" by fastforce
  note q = Cons.hyps(2) [symmetric, unfolded c] and s = Cons.prems
  let ?s1 = "s\<lparr>current_step := now, call_queue := rest\<rparr>"
  note f = application.pop_call_frame(1,2) [OF s q, of now]
  obtain r where x: "xi_evtd_execute_handle (application_env g) h ?s1
      = Some (r, xi_evtd_instance.more_update (handle_effect g h) ?s1)"
    by (rule execute_application)
  let ?s2 = "xi_evtd_instance.more_update (handle_effect g h) ?s1"
  let ?s3 = "?s2\<lparr>tmem := xi_free p (tmem s)\<rparr>"
  have single: "xi_evtd_single_step (application_env g) s now = Some (1, ?s3)"
    using x by (simp add: xi_evtd_single_step_def q)
  have ok3: "evtd_ok ?s3" using evtd_ok_free [of ?s2 p] f by (simp add: evtd_frame_def)
  have q3: "call_queue ?s3 = rest" "tv ?s3 = tv s" "tevs ?s3 = tevs s" "on_empty ?s3 = on_empty s"
    "xi_evtd_instance.more ?s3 = handle_effect g h (xi_evtd_instance.more s)"
    by simp_all
  obtain t where t: "xi_evtd_call_loop (application_env g) now ?s3 = Some t" "evtd_ok t" "tv t = tv s"
    "tevs t = tevs s" "on_empty t = on_empty s" "current_step t = now" "call_queue t = []"
    "xi_evtd_instance.more t = fold (handle_effect g) (map snd rest) (handle_effect g h (xi_evtd_instance.more s))"
    using Cons.hyps(1) [of ?s3] ok3 unfolding q3 by auto
  have "xi_evtd_call_loop (application_env g) now s = Some t"
    using single t(1) by (subst xi_evtd_call_loop.simps) simp
  then show ?case using t q by (intro exI [of _ t]) simp
qed

lemma takeWhile_sorted_filter:
  "sorted (map k xs) \<Longrightarrow> takeWhile (\<lambda>x. k x \<le> (c::int)) xs = filter (\<lambda>x. k x \<le> c) xs"
  "sorted (map k xs) \<Longrightarrow> dropWhile (\<lambda>x. k x \<le> (c::int)) xs = filter (\<lambda>x. c < k x) xs"
  by (induction xs) (auto intro!: filter_False [symmetric] filter_True [symmetric])

lemma step_application:
  assumes s: "evtd_ok s"
  obtains t where "xi_evtd_step (application_env g) s now = Some t" "evtd_ok t"
    "queue t = filter (\<lambda>p. now < event_key s p) (queue s)" "call_queue t = []"
    "xi_evtd_instance.more t = fold (handle_effect g)
       (event_handles s (filter (\<lambda>p. event_key s p \<le> now) (queue s)) @ map snd (call_queue s)
        @ (if queue t = [] then [on_empty s] else []))
       (xi_evtd_instance.more s)"
    "handlers (on_empty t) = (if queue t = [] then XI_EVENT_HANDLE_UNSET else handlers (on_empty s))"
proof -
  let ?s = "s\<lparr>current_step := now\<rparr>"
  have so: "sorted (map (event_key s) (queue s))" using evtd_okD(1) [OF s] by (simp add: tev_ok_def)
  have key: "event_key ?s = event_key s" by (simp add: event_key_def [abs_def])
  have oks: "evtd_ok ?s" using s by simp
  obtain s1 where l1: "xi_evtd_timed_loop (application_env g) ?s = Some s1" "evtd_ok s1" "same_timers ?s s1"
    "queue s1 = filter (\<lambda>p. now < event_key s p) (queue s)" "call_queue s1 = call_queue s"
    "xi_evtd_instance.more s1 = fold (handle_effect g)
        (event_handles s (filter (\<lambda>p. event_key s p \<le> now) (queue s))) (xi_evtd_instance.more s)"
    using timed_loop_application [OF oks, of g] takeWhile_sorted_filter [OF so, of now]
    unfolding key by auto
  obtain s2 where l2: "xi_evtd_call_loop (application_env g) now s1 = Some s2" "evtd_ok s2" "tv s2 = tv s1"
    "tevs s2 = tevs s1" "on_empty s2 = on_empty s1" "call_queue s2 = []"
    "xi_evtd_instance.more s2 = fold (handle_effect g) (map snd (call_queue s1)) (xi_evtd_instance.more s1)"
    using call_loop_application [OF l1(2), of g now] by auto
  have e2: "on_empty s2 = on_empty s" using l1(3) l2(5) by (simp add: same_timers_def)
  have z: "elem_no (tv s2) = 0 \<longleftrightarrow> queue s2 = []"
    using tev_structD(8) [of s2] evtd_okD(1) [OF l2(2)] by (auto simp: tev_ok_def)
  show thesis
  proof (cases "queue s2 = [] \<and> handlers (on_empty s2) \<noteq> XI_EVENT_HANDLE_UNSET")
    case False
    then have "xi_evtd_step (application_env g) s now = Some s2"
      using l1(1) l2(1) z by (auto simp: xi_evtd_step_def)
    moreover have "handlers (on_empty s) = XI_EVENT_HANDLE_UNSET \<Longrightarrow> handle_effect g (on_empty s) = id"
      by (simp add: handle_effect_def fun_eq_iff)
    ultimately show thesis
      using that [of s2] l1 l2 False e2 by (auto simp: o_def)
  next
    case True
    obtain r where x: "xi_evtd_execute_handle (application_env g) (on_empty s2) s2
        = Some (r, xi_evtd_instance.more_update (handle_effect g (on_empty s2)) s2)"
      by (rule execute_application)
    let ?t = "(xi_evtd_instance.more_update (handle_effect g (on_empty s2)) s2)
      \<lparr>on_empty := xi_dispose_handle (on_empty s2)\<rparr>"
    have "xi_evtd_step (application_env g) s now = Some ?t"
      using l1(1) l2(1) z True x by (simp add: xi_evtd_step_def)
    then show thesis using that [of ?t] l1 l2 True e2 by simp
  qed
qed

section \<open>Life cycle\<close>

lemma vec_owned_destroy:
  assumes "array_block v \<noteq> NULL" "memory_type v = XI_MEMORY_TYPE_MANAGED"
  shows "xi_vector_destroy v m = Some (xi_free (vec_block v) (xi_free (array_block v) m))"
  using assms by (simp add: xi_vector_destroy_def)

lemma destroy_instance_spec:
  assumes s: "evtd_ok s"
  obtains m where "xi_evtd_destroy_instance s = Some m"
    "live_blocks m = live_blocks (tmem s) - (timer_blocks s \<union> {evtd_block s,
       vec_block (handles_and_socket_fd s), array_block (handles_and_socket_fd s),
       vec_block (handles_and_file_fd s), array_block (handles_and_file_fd s)})"
proof -
  note ok = evtd_okD [OF s]
  let ?k = "handles_and_socket_fd s" and ?f = "handles_and_file_fd s"
  have mt: "memory_type ?k = XI_MEMORY_TYPE_MANAGED" "memory_type ?f = XI_MEMORY_TYPE_MANAGED"
    using ok(5) [of XI_EVTD_FD_TYPE_SOCKET] ok(5) [of XI_EVTD_FD_TYPE_FILE]
    by (simp_all add: registrations_ok_def container_def)
  have st: "tev_struct s" using ok(1) by (simp add: tev_ok_def)
  have bl: "evtd_block s \<in> evtd_blocks s" "vec_block ?k \<in> evtd_blocks s" "array_block ?k \<in> evtd_blocks s"
    "vec_block ?f \<in> evtd_blocks s" "array_block ?f \<in> evtd_blocks s" "vec_block (tv s) \<in> evtd_blocks s"
    "array_block (tv s) \<in> evtd_blocks s"
    by (simp_all add: evtd_blocks_def other_blocks_def timer_blocks_def)
  then have nn: "evtd_block s \<noteq> NULL" "vec_block ?k \<noteq> NULL" "array_block ?k \<noteq> NULL" "vec_block ?f \<noteq> NULL"
    "array_block ?f \<noteq> NULL" "vec_block (tv s) \<noteq> NULL" "array_block (tv s) \<noteq> NULL"
    using ok(4) by blast+
  let ?m = "xi_free (vec_block ?k) (xi_free (array_block ?k) (xi_free (vec_block ?f) (xi_free (array_block ?f) (tmem s))))"
  have "set (other_blocks s) \<inter> timer_blocks s = {}" using s by (simp add: evtd_ok_def)
  then have "timer_blocks s \<subseteq> live_blocks ?m"
    using tev_ok_live [OF ok(1)] nn by (auto simp: other_blocks_def)
  then have "tev_ok (s\<lparr>tmem := ?m\<rparr>)" using ok(1,2) by (intro tev_ok_mem) simp_all
  then have "tev_struct (s\<lparr>tmem := ?m\<rparr>)" by (simp add: tev_ok_def)
  then obtain t where t: "xi_time_event_destroy (s\<lparr>tmem := ?m\<rparr>) = Some t"
    "live_blocks (tmem t) = live_blocks (tmem (s\<lparr>tmem := ?m\<rparr>)) - set (queue (s\<lparr>tmem := ?m\<rparr>))"
    "tv t = tv (s\<lparr>tmem := ?m\<rparr>)"
    by (rule xi_time_event_destroy_spec)
  have "memory_type (tv s) = XI_MEMORY_TYPE_MANAGED" using st by (simp add: tev_struct_def vec_owned_def)
  then have "xi_evtd_destroy_instance s
      = Some (xi_free (evtd_block s) (xi_free (vec_block (tv s)) (xi_free (array_block (tv s)) (tmem t))))"
    using t mt nn by (simp add: xi_evtd_destroy_instance_def vec_owned_destroy)
  then show thesis using that t(2) nn by (fastforce simp: timer_blocks_def)
qed

section \<open>Properties\<close>

text \<open>
  The instance the witnesses run on: two timers due at 10 and 20 (addresses 3 and 4), the
  socket 5 registered by the tuple at 9, and one queued call in the node at 12. A handler is
  a number, and the application's state is the list of the handlers that ran.
\<close>

definition example_handle :: "nat \<Rightarrow> nat xi_event_handle" where
  "example_handle n = xi_make_handle_argc0 0 n"

definition evtd_example :: "(nat, nat list) xi_evtd_instance_scheme" where
  "evtd_example = \<lparr>
     tv = \<lparr>vec_block = 1, array_block = 2, array = [3, 4], elem_no = 2, capacity = 2,
           memory_type = XI_MEMORY_TYPE_MANAGED\<rparr>,
     tevs = (\<lambda>p. \<lparr>event_handle = example_handle p, time_of_execution = if p = 3 then 10 else 20,
        position = int p - 3, time_event_handle = NULL\<rparr>),
     handles = (\<lambda>_. NULL),
     tmem = \<lparr>alloc_script = [], next_block = 13, live_blocks = {1, 2, 3, 4, 6, 7, 8, 9, 10, 11, 12}\<rparr>,
     evtd_block = 6, current_step = 0, call_queue = [(12, example_handle 50)],
     handles_and_socket_fd = \<lparr>vec_block = 7, array_block = 8, array = [9, 0], elem_no = 1, capacity = 2,
           memory_type = XI_MEMORY_TYPE_MANAGED\<rparr>,
     handles_and_file_fd = \<lparr>vec_block = 10, array_block = 11, array = [0, 0], elem_no = 0, capacity = 2,
           memory_type = XI_MEMORY_TYPE_MANAGED\<rparr>,
     fd_tuples = (\<lambda>_. \<lparr>fd = 5, handle = example_handle 60, read_handle = example_handle 61,
           event_type = XI_EVENT_WANT_WRITE, fd_type = XI_EVTD_FD_TYPE_SOCKET\<rparr>),
     on_empty = example_handle 70, stop = 0, \<dots> = []\<rparr>"

lemma evtd_example_tev_ok: "tev_ok evtd_example"
  by (auto simp: evtd_example_def tev_ok_def tev_struct_def vec_ok_def vec_owned_def
      mem_ok_def queue_live_def queue_positions_def queue_handles_def elems_def event_key_def
      less_Suc_eq numeral_2_eq_2)

lemma evtd_example_ok: "evtd_ok evtd_example"
proof -
  have "registrations_ok evtd_example ty" for ty
    by (cases ty) (simp_all add: registrations_ok_def container_def evtd_example_def vec_ok_def elems_def)
  then show ?thesis
    using evtd_example_tev_ok
    by (simp add: evtd_ok_def other_blocks_def timer_blocks_def evtd_example_def elems_def)
qed

lemma evtd_example_facts:
  "queue evtd_example = [3, 4]" "call_queue evtd_example = [(12, example_handle 50)]"
  "event_key evtd_example 3 = 10" "event_key evtd_example 4 = 20" "current_step evtd_example = 0"
  "event_handle (tevs evtd_example p) = example_handle p" "xi_evtd_instance.more evtd_example = []"
  "on_empty evtd_example = example_handle 70" "handles evtd_example c = NULL"
  "handles_and_socket_fd evtd_example = \<lparr>vec_block = 7, array_block = 8, array = [9, 0], elem_no = 1,
     capacity = 2, memory_type = XI_MEMORY_TYPE_MANAGED\<rparr>"
  "handles_and_file_fd evtd_example = \<lparr>vec_block = 10, array_block = 11, array = [0, 0], elem_no = 0,
     capacity = 2, memory_type = XI_MEMORY_TYPE_MANAGED\<rparr>"
  by (simp_all add: evtd_example_def elems_def event_key_def)

text \<open>The application whose handlers append their number to the log.\<close>

definition logging :: "nat \<Rightarrow> xi_argument list \<Rightarrow> nat list \<Rightarrow> xi_state \<times> nat list" where
  "logging n args z = (XI_STATE_OK, z @ [n])"

text \<open>
  C8: One step of the dispatcher with handlers that only work on the application's state (they
  always return, in whatever state, and do not post, schedule or cancel, as the library's own
  handlers do: \<open>application_env\<close>)
  terminates and runs exactly: the timers that are due, in the order of their execution times,
  then the queued calls in the order they were posted, then, if no timer is left, the
  on-empty handler, which is unset afterwards. The timers that are not due stay queued, the
  call queue is empty, and the invariant is kept. With handlers that post, a step need not end; what
  then holds of every step that does is \<open>evtd_step_preserves_invariant\<close>.
\<close>

theorem evtd_step_order:
  assumes "evtd_ok s"
  shows "\<exists>t. xi_evtd_step (application_env g) s now = Some t \<and> evtd_ok t
    \<and> queue t = filter (\<lambda>p. now < event_key s p) (queue s) \<and> call_queue t = []
    \<and> xi_evtd_instance.more t = fold (handle_effect g)
       (event_handles s (filter (\<lambda>p. event_key s p \<le> now) (queue s)) @ map snd (call_queue s)
        @ (if queue t = [] then [on_empty s] else [])) (xi_evtd_instance.more s)
    \<and> handlers (on_empty t) = (if queue t = [] then XI_EVENT_HANDLE_UNSET else handlers (on_empty s))
    \<and> sorted (map (event_key s) (queue s))"
proof -
  have "sorted (map (event_key s) (queue s))" using evtd_okD(1) [OF assms] by (simp add: tev_ok_def)
  then show ?thesis using step_application [OF assms, of g now] by metis
qed

theorem evtd_step_order_witness:
  "\<exists>t. xi_evtd_step (application_env logging) evtd_example 15 = Some t \<and> queue t = [4]
    \<and> xi_evtd_instance.more t = [3, 50]"
  using evtd_step_order [OF evtd_example_ok, of logging 15]
  by (auto simp: evtd_example_facts handle_effect_def logging_def example_handle_def
      xi_make_handle_argc0_def)

text \<open>
  C9: Whatever sequences of the library's operations (posting calls, scheduling, cancelling
  and restarting timers, registering and unregistering descriptors, stopping) the handlers
  perform, a step that returns keeps the dispatcher's invariant, and the blocks the instance
  owns afterwards are its own or were allocated during the step.
\<close>

theorem evtd_step_preserves_invariant:
  assumes "evtd_ok s" "xi_evtd_step (program_env prog) s now = Some t"
  shows "evtd_ok t \<and> evtd_blocks t \<subseteq> evtd_blocks s \<union> {a. next_block (tmem s) \<le> a}"
  using program.step_frame [OF assms] by (simp add: evtd_frame_def)

theorem evtd_step_preserves_invariant_witness:
  "\<exists>t. xi_evtd_step (program_env (\<lambda>_ _. ([Stop], XI_STATE_OK))) evtd_example 5 = Some t
    \<and> evtd_ok t \<and> stop t = 1"
proof -
  let ?e = "program_env (\<lambda>_ _. ([Stop], XI_STATE_OK)) :: (nat, (nat, nat list) xi_evtd_instance_scheme) xi_environment"
  let ?s = "evtd_example\<lparr>current_step := 5\<rparr>"
  let ?t = "?s\<lparr>call_queue := [], stop := 1, tmem := xi_free 12 (tmem evtd_example)\<rparr>"
  have l1: "xi_evtd_timed_loop ?e ?s = Some ?s"
    by (subst xi_evtd_timed_loop.simps)
      (simp add: evtd_example_def xi_time_event_peek_top_def deref_event_def)
  have x: "xi_evtd_execute_handle ?e (example_handle 50) (?s\<lparr>call_queue := []\<rparr>)
      = Some (XI_STATE_OK, ?s\<lparr>call_queue := [], stop := 1\<rparr>)"
    by (simp add: xi_evtd_execute_handle_def example_handle_def xi_make_handle_argc0_def program_env_def
        run_call_def xi_evtd_stop_def)
  have l2: "xi_evtd_call_loop ?e 5 ?s = Some ?t"
    using x
    by (subst xi_evtd_call_loop.simps, simp add: xi_evtd_single_step_def evtd_example_facts)
      (subst xi_evtd_call_loop.simps, simp add: xi_evtd_single_step_def evtd_example_facts)
  have "elem_no (tv ?t) \<noteq> 0" by (simp add: evtd_example_def)
  then have r: "xi_evtd_step ?e evtd_example 5 = Some ?t" using l1 l2 by (simp add: xi_evtd_step_def)
  then show ?thesis using evtd_step_preserves_invariant [OF evtd_example_ok r] by auto
qed

text \<open>
  Scheduling a call has three outcomes. It succeeds, and a fresh event with the requested
  time is queued behind all events that are not later; the allocation of the event fails and
  nothing changes; or the container cannot grow, the call reports \<open>XI_OUT_OF_MEMORY\<close>, the
  queue is unchanged, and the event it allocated stays allocated although nothing refers to it.
\<close>

lemma evtd_execute_in_outcomes:
  assumes "evtd_ok s" "c \<noteq> NULL \<Longrightarrow> handles s c = NULL" "long_add (current_step s) d = Some time"
  shows "\<exists>r t. xi_evtd_execute_in s h d c = Some (r, t) \<and> evtd_ok t \<and>
    (r = XI_STATE_OK \<and> (\<exists>p. p \<notin> live_blocks (tmem s) \<and> event_handle (tevs t p) = h
        \<and> queue t = takeWhile (\<lambda>y. event_key s y \<le> time) (queue s) @ p
             # dropWhile (\<lambda>y. event_key s y \<le> time) (queue s)
        \<and> event_key t = (event_key s)(p := time))
     \<or> r = XI_OUT_OF_MEMORY \<and> queue t = queue s \<and> live_blocks (tmem t) = live_blocks (tmem s)
     \<or> r = XI_OUT_OF_MEMORY \<and> queue t = queue s \<and> (\<exists>p. p \<notin> live_blocks (tmem s)
        \<and> live_blocks (tmem t) = insert p (live_blocks (tmem s)) \<and> p \<notin> evtd_blocks t))"
  using assms
proof (rule xi_evtd_execute_in_spec [where h = h])
  fix t
  assume t: "xi_evtd_execute_in s h d c = Some (XI_OUT_OF_MEMORY, t)" "evtd_frame s t"
    "t = s\<lparr>tmem := tmem t\<rparr>" "live_blocks (tmem t) = live_blocks (tmem s)"
  have "queue t = queue s" using arg_cong [OF t(3), of tv] by simp
  then show ?thesis using t by (auto simp: evtd_frame_def)
qed (auto simp: evtd_frame_def)

text \<open>
  Registering a descriptor that is not registered, when it succeeds, makes it and only it
  known in its container; unregistering it afterwards succeeds, gives its memory back and
  leaves the set of registered descriptors of both containers as it was. A failing
  registration leaks nothing.
\<close>

lemma evtd_register_unregister:
  assumes "evtd_ok s" "n \<notin> set (registered ty s)"
  shows "\<exists>r t. xi_evtd_register_fd s et ty n rh ch = Some (r, t) \<and> evtd_ok t
    \<and> (r = 0 \<and> live_blocks (tmem t) = live_blocks (tmem s)
       \<or> r = 1 \<and> set (registered ty t) = insert n (set (registered ty s))
         \<and> (\<exists>u. xi_evtd_unregister_fd t ty n = Some (1, u) \<and> evtd_ok u
              \<and> set (registered ty u) = set (registered ty s)
              \<and> (\<forall>ty'. ty' \<noteq> ty \<longrightarrow> container ty' u = container ty' s)))"
  using assms
proof (rule xi_evtd_register_fd_spec [where et = et and rh = rh and ch = ch])
  fix t p
  assume t: "xi_evtd_register_fd s et ty n rh ch = Some (1, t)" "evtd_frame s t"
    "p \<notin> live_blocks (tmem s)" "elems (container ty t) = elems (container ty s) @ [p]"
    "\<And>ty'. ty' \<noteq> ty \<Longrightarrow> container ty' t = container ty' s"
    "fd_tuples t = (fd_tuples s)(p := \<lparr>fd = n, handle = ch, read_handle = rh, event_type = et, fd_type = ty\<rparr>)"
  have okt: "evtd_ok t" using t(2) by (simp add: evtd_frame_def)
  have "p \<notin> set (elems (container ty s))"
    using t(3) evtd_okD(3) [OF assms(1)] container_blocks(1) [of ty s] by (auto simp: evtd_blocks_def)
  then have reg: "registered ty t = registered ty s @ [n]"
    using t(4,6) by (auto simp: registered_def)
  show ?thesis
  proof (rule xi_evtd_unregister_fd_spec [OF okt, of ty n])
    assume "n \<notin> set (registered ty t)"
    then show ?thesis using reg by simp
  next
    fix u q
    assume u: "xi_evtd_unregister_fd t ty n = Some (1, u)" "evtd_frame t u" "fd (fd_tuples t q) = n"
      "add_mset q (mset (elems (container ty u))) = mset (elems (container ty t))"
      "\<And>ty'. ty' \<noteq> ty \<Longrightarrow> container ty' u = container ty' t" "fd_tuples u = fd_tuples t"
    have "image_mset (\<lambda>p. fd (fd_tuples t p)) (add_mset q (mset (elems (container ty u))))
        = mset (registered ty t)"
      unfolding u(4) by (simp add: registered_def)
    then have "add_mset n (mset (registered ty u)) = mset (registered ty t)"
      using u(3,6) by (simp add: registered_def)
    also have "\<dots> = add_mset n (mset (registered ty s))" unfolding reg by simp
    finally have "add_mset n (mset (registered ty u)) = add_mset n (mset (registered ty s))" .
    then have "set (registered ty u) = set (registered ty s)" by (metis add_mset_add_mset_same_iff set_mset_mset)
    then show ?thesis using t u okt reg by (auto simp: evtd_frame_def)
  qed
qed (auto simp: evtd_frame_def)

text \<open>
  An event on a registered socket runs the handler that was waiting for it exactly once,
  on a state in which the registration has already fallen back to the default (wait for
  reading, with the read handler), so a handler that re-arms the socket is not overwritten.
  An event on an unknown socket stops the dispatcher.
\<close>

lemma evtd_update_event_on_socket_one_shot:
  assumes "evtd_ok s"
  shows "(n \<notin> set (registered XI_EVTD_FD_TYPE_SOCKET s) \<longrightarrow>
      xi_evtd_update_event_on_socket env s n = Some (XI_FD_HANDLER_NOT_FOUND, s\<lparr>stop := 1\<rparr>))
    \<and> (\<forall>p \<in> set (elems (handles_and_socket_fd s)). fd (fd_tuples s p) = n \<longrightarrow>
      xi_evtd_update_event_on_socket env s n =
        map_option (\<lambda>(_, t). (XI_STATE_OK, t)) (xi_evtd_execute_handle env (handle (fd_tuples s p))
          (s\<lparr>fd_tuples := (fd_tuples s)(p := (fd_tuples s p)\<lparr>event_type := XI_EVENT_WANT_READ,
               handle := read_handle (fd_tuples s p)\<rparr>)\<rparr>)))"
  using assms
proof (rule find_fd_spec [where ty = XI_EVTD_FD_TYPE_SOCKET and n = n])
  let ?c = "container XI_EVTD_FD_TYPE_SOCKET s"
  assume "xi_vector_find ?c n (xi_evtd_cmp_fd s) = Some (- 1)" "n \<notin> set (registered XI_EVTD_FD_TYPE_SOCKET s)"
  then show ?thesis
    by (auto simp: xi_evtd_update_event_on_socket_def xi_evtd_update_event_on_fd_def xi_evtd_stop_def
        registered_def container_def)
next
  let ?c = "container XI_EVTD_FD_TYPE_SOCKET s"
  fix i p
  assume f: "xi_vector_find ?c n (xi_evtd_cmp_fd s) = Some i" "0 \<le> i" "arr_get (array ?c) i = Some p"
    "p \<in> set (elems ?c)" "fd (fd_tuples s p) = n" "deref_tuple s p = Some (fd_tuples s p)"
  have c: "?c = handles_and_socket_fd s" by (simp add: container_def)
  have r: "registrations_ok s XI_EVTD_FD_TYPE_SOCKET" using evtd_okD(5) [OF assms] .
  have ty: "fd_type (fd_tuples s p) = XI_EVTD_FD_TYPE_SOCKET" using r f(4) by (simp add: registrations_ok_def)
  have unique: "q = p" if "q \<in> set (elems (handles_and_socket_fd s))" "fd (fd_tuples s q) = n" for q
    using r that f(4,5) unfolding registrations_ok_def c distinct_map by (auto dest: inj_onD)
  have "n \<in> set (registered XI_EVTD_FD_TYPE_SOCKET s)" using f(4,5) by (auto simp: registered_def)
  moreover have "xi_evtd_update_event_on_socket env s n =
      map_option (\<lambda>(_, t). (XI_STATE_OK, t)) (xi_evtd_execute_handle env (handle (fd_tuples s p))
        (s\<lparr>fd_tuples := (fd_tuples s)(p := (fd_tuples s p)\<lparr>event_type := XI_EVENT_WANT_READ,
             handle := read_handle (fd_tuples s p)\<rparr>)\<rparr>))"
    using f ty by (auto simp: xi_evtd_update_event_on_socket_def xi_evtd_update_event_on_fd_def
        map_option_case split: option.split)
  ultimately show ?thesis using unique by auto
qed

text \<open>
  The earliest event the dispatcher reports is the minimum of the execution times of all
  queued timers; with no timer queued it reports \<open>XI_ELEMENT_NOT_FOUND\<close>.
\<close>

lemma evtd_earliest_event_is_minimum:
  assumes "evtd_ok s"
  shows "xi_evtd_get_time_of_earliest_event s = Some (if queue s = [] then (XI_ELEMENT_NOT_FOUND, None)
    else (XI_STATE_OK, Some (Min (event_key s ` set (queue s)))))"
proof -
  have st: "tev_struct s" and so: "sorted (map (event_key s) (queue s))"
    using evtd_okD(1) [OF assms] by (simp_all add: tev_ok_def)
  show ?thesis
  proof (cases "queue s")
    case Nil
    then show ?thesis
      using tev_structD(8) [OF st] by (simp add: xi_evtd_get_time_of_earliest_event_def)
  next
    case (Cons p ps)
    have ne: "elem_no (tv s) \<noteq> 0" "0 < elem_no (tv s)" using tev_structD(8) [OF st] Cons by auto
    have "xi_time_event_peek_top s = Some p"
      using vec_get_in [OF tev_structD(1) [OF st], of 0] ne Cons by (simp add: xi_time_event_peek_top_def)
    moreover have "deref_event s p = Some (tevs s p)" using tev_structD(6) [OF st] Cons by simp
    moreover have "Min (event_key s ` set (queue s)) = event_key s p"
      using so Cons by (intro Min_eqI) auto
    ultimately show ?thesis using ne Cons by (simp add: xi_evtd_get_time_of_earliest_event_def event_key_def)
  qed
qed

text \<open>
  C15: Destroying an instance frees the instance, its three vectors and the queued timers, but
  neither the nodes of the call queue nor the tuples of registered descriptors: they stay
  allocated with nothing left that refers to them.
\<close>

theorem evtd_destroy_leaks_calls_and_registrations:
  assumes "evtd_ok s"
  shows "\<exists>m. xi_evtd_destroy_instance s = Some m
    \<and> timer_blocks s \<inter> live_blocks m = {} \<and> evtd_block s \<notin> live_blocks m
    \<and> fst ` set (call_queue s) \<subseteq> live_blocks m
    \<and> (\<forall>ty. vec_block (container ty s) \<notin> live_blocks m \<and> array_block (container ty s) \<notin> live_blocks m
         \<and> set (elems (container ty s)) \<subseteq> live_blocks m)"
proof -
  let ?X = "{evtd_block s, vec_block (handles_and_socket_fd s), array_block (handles_and_socket_fd s),
     vec_block (handles_and_file_fd s), array_block (handles_and_file_fd s)}"
  let ?Y = "fst ` set (call_queue s) \<union> set (elems (handles_and_socket_fd s)) \<union> set (elems (handles_and_file_fd s))"
  obtain m where m: "xi_evtd_destroy_instance s = Some m"
    "live_blocks m = live_blocks (tmem s) - (timer_blocks s \<union> ?X)"
    using assms by (rule destroy_instance_spec)
  have "distinct (other_blocks s)" "set (other_blocks s) \<inter> timer_blocks s = {}"
    "set (other_blocks s) \<subseteq> live_blocks (tmem s)" "set (other_blocks s) = ?X \<union> ?Y"
    using assms by (auto simp: evtd_ok_def other_blocks_def)
  moreover from this(1) have "?X \<inter> ?Y = {}" by (auto simp: other_blocks_def)
  ultimately have "?Y \<subseteq> live_blocks m" unfolding m(2) by blast
  then show ?thesis using m by (intro exI [of _ m]) (auto simp: container_def split: xi_evtd_fd_type.split)
qed

theorem evtd_destroy_leaks_calls_and_registrations_witness:
  "\<exists>m. xi_evtd_destroy_instance evtd_example = Some m \<and> 12 \<in> live_blocks m"
  using evtd_destroy_leaks_calls_and_registrations [OF evtd_example_ok]
  by (auto simp: evtd_example_facts)

lemma create_instance_spec:
  assumes m: "mem_ok m"
  shows "\<exists>p i m'. (xi_evtd_create_instance XI_STATE_OK m :: (addr \<times> 'f xi_evtd_instance option \<times> xi_memory) option)
      = Some (p, i, m') \<and> (case i of None \<Rightarrow> p = NULL
       | Some s \<Rightarrow> p \<noteq> NULL \<and> evtd_ok s \<and> tmem s = m' \<and> queue s = [] \<and> call_queue s = []
            \<and> (\<forall>ty. registered ty s = []) \<and> stop s = 0)"
proof -
  obtain p0 m1 where a: "xi_alloc sizeof_xi_evtd_instance m = (p0, m1)" by fastforce
  note m1 = xi_alloc_mem_ok [OF a m] and l1 = xi_alloc_live [OF m a]
  show ?thesis
  proof (cases "p0 = NULL")
    case True
    then show ?thesis using a by (simp add: xi_evtd_create_instance_def)
  next
    case p0: False
    note f0 = xi_alloc_fresh [OF a m p0]
    from m1 show ?thesis
    proof (rule xi_vector_create_spec)
      fix m2
      assume "xi_vector_create m1 = Some (None :: addr xi_vector option, m2)"
      then show ?thesis using a p0 by (simp add: xi_evtd_create_instance_def)
    next
      fix v1 :: "addr xi_vector" and m2
      assume v1: "xi_vector_create m1 = Some (Some v1, m2)" "vec_ok v1" "elems v1 = []"
        "vec_owned v1 m2" "mem_ok m2"
        "live_blocks m2 = insert (vec_block v1) (insert (array_block v1) (live_blocks m1))"
        "vec_block v1 \<notin> live_blocks m1" "array_block v1 \<notin> live_blocks m1"
      from v1(5) show ?thesis
      proof (rule xi_vector_create_spec)
        fix m3
        assume "xi_vector_create m2 = Some (None :: addr xi_vector option, m3)"
        then show ?thesis using a p0 v1(1) by (simp add: xi_evtd_create_instance_def)
      next
        fix v2 :: "addr xi_vector" and m3
        assume v2: "xi_vector_create m2 = Some (Some v2, m3)" "vec_ok v2" "elems v2 = []"
          "vec_owned v2 m3" "mem_ok m3"
          "live_blocks m3 = insert (vec_block v2) (insert (array_block v2) (live_blocks m2))"
          "vec_block v2 \<notin> live_blocks m2" "array_block v2 \<notin> live_blocks m2"
        from v2(5) show ?thesis
        proof (rule xi_vector_create_spec)
          fix m4
          assume "xi_vector_create m3 = Some (None :: addr xi_vector option, m4)"
          then show ?thesis using a p0 v1(1) v2(1) by (simp add: xi_evtd_create_instance_def)
        next
          fix v3 :: "addr xi_vector" and m4
          assume v3: "xi_vector_create m3 = Some (Some v3, m4)" "vec_ok v3" "elems v3 = []"
            "vec_owned v3 m4" "mem_ok m4"
            "live_blocks m4 = insert (vec_block v3) (insert (array_block v3) (live_blocks m3))"
            "vec_block v3 \<notin> live_blocks m3" "array_block v3 \<notin> live_blocks m3"
          obtain s :: "'f xi_evtd_instance" where s: "xi_evtd_create_instance XI_STATE_OK m = Some (p0, Some s, m4)"
            "tv s = v1" "handles s = (\<lambda>_. NULL)" "tmem s = m4" "evtd_block s = p0" "call_queue s = []"
            "handles_and_socket_fd s = v2" "handles_and_file_fd s = v3" "stop s = 0"
            using a p0 v1(1) v2(1) v3(1) by (simp add: xi_evtd_create_instance_def)
          have live: "live_blocks m4 = {vec_block v3, array_block v3, vec_block v2, array_block v2,
              vec_block v1, array_block v1, p0} \<union> live_blocks m"
            using v1(6) v2(6) v3(6) l1 p0 by auto
          have "vec_owned v1 m4" using v1(4) live by (simp add: vec_owned_def)
          then have "tev_ok s"
            using v1(2,3) v3(5) by (simp add: tev_ok_def tev_struct_def queue_live_def queue_positions_def
                queue_handles_def s)
          moreover have "distinct (other_blocks s) \<and> set (other_blocks s) \<inter> timer_blocks s = {}"
            using v1 v2 v3 f0 l1 p0
            by (auto simp: other_blocks_def timer_blocks_def s vec_owned_def)
          moreover have "set (other_blocks s) \<subseteq> live_blocks m4"
            using live v2(3) v3(3) by (simp add: other_blocks_def s)
          moreover have "registrations_ok s ty \<and> registered ty s = []" for ty
            using v2 v3 by (cases ty) (simp_all add: registrations_ok_def registered_def container_def s vec_owned_def)
          ultimately have "evtd_ok s" "\<forall>ty. registered ty s = []" by (simp_all add: evtd_ok_def s)
          then show ?thesis using s p0 v1(3) by (intro exI [of _ p0] exI [of _ "Some s"] exI [of _ m4]) simp
        qed
      qed
    qed
  qed
qed

text \<open>
  Creating an instance yields either a well-formed instance with nothing queued and
  nothing registered, or \<open>NULL\<close>. In the second case the error path frees the instance only:
  when the first vector was created and the second one could not be, the two blocks of the
  first one stay allocated.
\<close>

lemma evtd_create_instance_outcomes:
  assumes "mem_ok m"
  shows "(\<exists>p i m'. (xi_evtd_create_instance XI_STATE_OK m :: (addr \<times> 'f xi_evtd_instance option \<times> xi_memory) option)
      = Some (p, i, m') \<and> (case i of None \<Rightarrow> p = NULL
       | Some s \<Rightarrow> p \<noteq> NULL \<and> evtd_ok s \<and> tmem s = m' \<and> queue s = [] \<and> call_queue s = []
            \<and> (\<forall>ty. registered ty s = []) \<and> stop s = 0))
    \<and> (alloc_script m = [True, True, True, False] \<longrightarrow>
        (\<exists>m'. (xi_evtd_create_instance XI_STATE_OK m :: (addr \<times> 'f xi_evtd_instance option \<times> xi_memory) option)
          = Some (NULL, None, m') \<and> live_blocks m' = insert (next_block m + 1) (insert (next_block m + 2) (live_blocks m))))"
proof (intro conjI impI)
  assume a: "alloc_script m = [True, True, True, False]"
  have nb: "0 < next_block m" "next_block m \<notin> live_blocks m" using assms by (auto simp: mem_ok_def)
  have big: "sizeof_xi_evtd_instance \<le> PTRDIFF_MAX" "sizeof_xi_vector \<le> PTRDIFF_MAX" "16 \<le> PTRDIFF_MAX"
    by (simp_all add: sizeof_xi_evtd_instance_def sizeof_xi_vector_def PTRDIFF_MAX_def)
  show "\<exists>m'. (xi_evtd_create_instance XI_STATE_OK m :: (addr \<times> 'f xi_evtd_instance option \<times> xi_memory) option)
      = Some (NULL, None, m') \<and> live_blocks m' = insert (next_block m + 1) (insert (next_block m + 2) (live_blocks m))"
    using a nb big
    by (auto simp: xi_evtd_create_instance_def xi_vector_create_def xi_vector_realloc_def xi_alloc_def
        XI_VECTOR_DEFAULT_CAPACITY_def sizeof_xi_vector_elem_def not_less)
qed (rule create_instance_spec [OF assms])

end
