(* ===== verification/Xi_Backoff.thy ===== *)
theory Xi_Backoff
  imports Xi_Event_Dispatcher_Step "HOL-Library.Signed_Division"
begin

text \<open>
  \<open>src/libxively/xi_backoff_status_api.c\<close>: the penalty a client waits before it connects
  again. An index into a table of waiting times goes up with every failure and comes down
  through a timed event on the global dispatcher, the cooldown. The two tables are vectors of
  \<open>uint32_t\<close>; the fields of \<open>xi_globals.backoff_status\<close> extend the record of the
  dispatcher \<open>xi_globals.evtd_instance\<close>, which lives from the first context to the last.
  \<open>next_update\<close> is the address of the handle cell of that name; its content is the
  dispatcher's \<open>handles\<close> at this address.
\<close>

section \<open>State\<close>

datatype xi_backoff_class =
  XI_BACKOFF_CLASS_NONE | XI_BACKOFF_CLASS_RECOVERABLE | XI_BACKOFF_CLASS_TERMINAL

text \<open>The function pointers on the global dispatcher: this component's callback, and others.\<close>

datatype 'f global_fn = Apply_Cooldown | Other_Fn 'f

record 'f xi_globals = "'f global_fn xi_evtd_instance" +
  next_update :: addr
  backoff_lut :: "32 word xi_vector option"
  decay_lut :: "32 word xi_vector option"
  backoff_class :: xi_backoff_class
  backoff_lut_i :: int

text \<open>\<open>lut->array[i].selector_t.ui32_value\<close>.\<close>

definition lut_at :: "32 word xi_vector option \<Rightarrow> int \<Rightarrow> 32 word option" where
  "lut_at lut i = do { v \<leftarrow> lut; arr_get (array v) i }"

text \<open>A result of \<open>int\<close> arithmetic: out of range it has no defined value.\<close>

definition int_result :: "int \<Rightarrow> int option" where
  "int_result x = (if - 2147483648 \<le> x \<and> x \<le> 2147483647 then Some x else None)"

section \<open>Operations\<close>

definition xi_restart_update_time ::
    "('f, 'z) xi_globals_scheme \<Rightarrow> (xi_state \<times> ('f, 'z) xi_globals_scheme) option" where
  "xi_restart_update_time s = do {
     decay \<leftarrow> lut_at (decay_lut s) (backoff_lut_i s);
     if handles s (next_update s) \<noteq> NULL
     then xi_evtd_restart s (next_update s) (uint decay)
     else xi_evtd_execute_in s (xi_make_handle_argc0 0 Apply_Cooldown) (uint decay) (next_update s) }"

definition xi_inc_backoff_penalty ::
    "('f, 'z) xi_globals_scheme \<Rightarrow> ('f, 'z) xi_globals_scheme option" where
  "xi_inc_backoff_penalty s = do {
     lut \<leftarrow> backoff_lut s;
     let s1 = s\<lparr>backoff_lut_i := int8 (min (backoff_lut_i s + 1) (elem_no lut - 1))\<rparr>;
     (_, s2) \<leftarrow> xi_restart_update_time s1;
     Some s2 }"

definition xi_dec_backoff_penalty :: "('f, 'z) xi_globals_scheme \<Rightarrow> ('f, 'z) xi_globals_scheme" where
  "xi_dec_backoff_penalty s = s\<lparr>backoff_lut_i := int8 (max (backoff_lut_i s - 1) 0)\<rparr>"

text \<open>
  \<open>random\<close> is the value of \<open>xi_bsp_rng_get()\<close>. The remainder is taken of two
  \<open>uint32_t\<close> values; a divisor of zero has no defined result.
\<close>

definition xi_get_backoff_penalty :: "('f, 'z) xi_globals_scheme \<Rightarrow> 32 word \<Rightarrow> 32 word option" where
  "xi_get_backoff_penalty s random = do {
     let prev_backoff_index = int8 (max (backoff_lut_i s - 1) 0);
     prev \<leftarrow> lut_at (backoff_lut s) prev_backoff_index;
     let prev_backoff_base_value = int32 (uint prev);
     let full_range = (if backoff_lut_i s = 0 then 0 else prev_backoff_base_value);
     base \<leftarrow> lut_at (backoff_lut s) (backoff_lut_i s);
     let base_value = int32 (uint base);
     let half_range = max (full_range sdiv 2) 1;
     range1 \<leftarrow> int_result (full_range + 1);
     xi_assert (range1 \<noteq> 0);
     let rand_value = int32 (uint random mod (range1 mod 4294967296));
     sum \<leftarrow> int_result (base_value + rand_value);
     backoff_value \<leftarrow> int_result (sum - half_range);
     first \<leftarrow> lut_at (backoff_lut s) 0;
     let ret_value = max backoff_value (int32 (uint first));
     Some (of_int ret_value) }"

definition xi_cancel_backoff_event ::
    "('f, 'z) xi_globals_scheme \<Rightarrow> ('f, 'z) xi_globals_scheme option" where
  "xi_cancel_backoff_event s =
     (if handles s (next_update s) \<noteq> NULL
      then do { (_, t) \<leftarrow> xi_evtd_cancel s (next_update s); Some t }
      else Some s)"

definition xi_backoff_release_luts ::
    "('f, 'z) xi_globals_scheme \<Rightarrow> ('f, 'z) xi_globals_scheme option" where
  "xi_backoff_release_luts s = do {
     s1 \<leftarrow> (case backoff_lut s of
             None \<Rightarrow> Some s
           | Some v \<Rightarrow> do { m \<leftarrow> xi_vector_destroy v (tmem s);
                           Some (s\<lparr>tmem := m, backoff_lut := None\<rparr>) });
     (case decay_lut s1 of
        None \<Rightarrow> Some s1
      | Some v \<Rightarrow> do { m \<leftarrow> xi_vector_destroy v (tmem s1);
                      Some (s1\<lparr>tmem := m, decay_lut := None\<rparr>) }) }"

definition xi_backoff_release ::
    "('f, 'z) xi_globals_scheme \<Rightarrow> ('f, 'z) xi_globals_scheme option" where
  "xi_backoff_release s = xi_backoff_release_luts s"

text \<open>An array argument is its address and its contents.\<close>

definition xi_backoff_configure_using_data ::
    "('f, 'z) xi_globals_scheme \<Rightarrow> addr \<times> 32 word list \<Rightarrow> addr \<times> 32 word list \<Rightarrow> nat
       \<Rightarrow> xi_memory_type \<Rightarrow> (xi_state \<times> ('f, 'z) xi_globals_scheme) option" where
  "xi_backoff_configure_using_data s backoff decay len mtype =
     (if fst backoff = NULL \<or> fst decay = NULL \<or> len = 0 then Some (XI_INVALID_PARAMETER, s)
      else do {
        s1 \<leftarrow> xi_backoff_release_luts s;
        (v1, m1) \<leftarrow> xi_vector_create_from (fst backoff) (snd backoff) len mtype (tmem s1);
        let s2 = s1\<lparr>tmem := m1, backoff_lut := v1\<rparr>;
        if v1 = None then Some (XI_OUT_OF_MEMORY, s2)
        else do {
          (v2, m2) \<leftarrow> xi_vector_create_from (fst decay) (snd decay) len mtype (tmem s2);
          let s3 = s2\<lparr>tmem := m2, decay_lut := v2\<rparr>;
          Some (if v2 = None then XI_OUT_OF_MEMORY else XI_STATE_OK, s3) } })"

fun xi_backoff_classify_state :: "xi_state \<Rightarrow> xi_backoff_class" where
  "xi_backoff_classify_state XI_CONNECTION_RESET_BY_PEER_ERROR = XI_BACKOFF_CLASS_TERMINAL"
| "xi_backoff_classify_state XI_MQTT_UNACCEPTABLE_PROTOCOL_VERSION = XI_BACKOFF_CLASS_TERMINAL"
| "xi_backoff_classify_state XI_MQTT_IDENTIFIER_REJECTED = XI_BACKOFF_CLASS_TERMINAL"
| "xi_backoff_classify_state XI_MQTT_BAD_USERNAME_OR_PASSWORD = XI_BACKOFF_CLASS_TERMINAL"
| "xi_backoff_classify_state XI_MQTT_NOT_AUTHORIZED = XI_BACKOFF_CLASS_TERMINAL"
| "xi_backoff_classify_state XI_STATE_OK = XI_BACKOFF_CLASS_NONE"
| "xi_backoff_classify_state XI_STATE_WRITTEN = XI_BACKOFF_CLASS_NONE"
| "xi_backoff_classify_state _ = XI_BACKOFF_CLASS_RECOVERABLE"

definition xi_update_backoff_penalty ::
    "('f, 'z) xi_globals_scheme \<Rightarrow> xi_state
       \<Rightarrow> (xi_backoff_class \<times> ('f, 'z) xi_globals_scheme) option" where
  "xi_update_backoff_penalty s state = do {
     let cls = xi_backoff_classify_state state;
     let s1 = s\<lparr>backoff_class := cls\<rparr>;
     s2 \<leftarrow> (case cls of
             XI_BACKOFF_CLASS_TERMINAL \<Rightarrow> xi_inc_backoff_penalty s1
           | XI_BACKOFF_CLASS_RECOVERABLE \<Rightarrow> xi_inc_backoff_penalty s1
           | XI_BACKOFF_CLASS_NONE \<Rightarrow> Some s1);
     Some (cls, s2) }"

definition xi_apply_cooldown ::
    "('f, 'z) xi_globals_scheme \<Rightarrow> (xi_state \<times> ('f, 'z) xi_globals_scheme) option" where
  "xi_apply_cooldown s = do {
     xi_assert (handles s (next_update s) = NULL);
     let s1 = (if backoff_class s = XI_BACKOFF_CLASS_NONE then xi_dec_backoff_penalty s else s);
     if backoff_lut_i s1 > 0 then xi_restart_update_time s1 else Some (XI_STATE_OK, s1) }"

text \<open>The tables of \<open>xi_backoff_lut_config.h\<close>.\<close>

definition XI_BACKOFF_LUT :: "32 word list" where
  "XI_BACKOFF_LUT = [0, 2, 4, 8, 16, 32, 64, 128, 256, 512]"

definition XI_DECAY_LUT :: "32 word list" where
  "XI_DECAY_LUT = [4, 4, 8, 16, 30, 30, 30, 30, 30, 30]"

text \<open>
  The calls the dispatcher makes: the cooldown runs the function above, every other function
  pointer the code \<open>env\<close> behind it.
\<close>

definition globals_env ::
    "('f global_fn, ('f, 'z) xi_globals_scheme) xi_environment
       \<Rightarrow> ('f global_fn, ('f, 'z) xi_globals_scheme) xi_environment" where
  "globals_env env fn args s = (case fn of
     Apply_Cooldown \<Rightarrow> xi_apply_cooldown s | Other_Fn f \<Rightarrow> env fn args s)"

section \<open>The invariant\<close>

definition lut_ok :: "32 word xi_vector option \<Rightarrow> int \<Rightarrow> bool" where
  "lut_ok lut n \<longleftrightarrow> (\<exists>v. lut = Some v \<and> elem_no v = n \<and> n \<le> int (length (array v)))"

text \<open>
  Both tables are installed with the same number of entries, the index is one of theirs, and
  the dispatcher is well formed with a clock far from the ends of \<open>long\<close>.
\<close>

definition backoff_ok :: "('f, 'z) xi_globals_scheme \<Rightarrow> bool" where
  "backoff_ok s \<longleftrightarrow> evtd_ok s \<and> next_update s \<noteq> NULL
     \<and> (\<exists>n. 0 < n \<and> n \<le> 127 \<and> lut_ok (backoff_lut s) n \<and> lut_ok (decay_lut s) n
          \<and> 0 \<le> backoff_lut_i s \<and> backoff_lut_i s < n)
     \<and> - (2 ^ 62) \<le> current_step s \<and> current_step s < 2 ^ 62"

definition lut_size :: "('f, 'z) xi_globals_scheme \<Rightarrow> int" where
  "lut_size s = (case backoff_lut s of None \<Rightarrow> 0 | Some v \<Rightarrow> elem_no v)"

text \<open>The seconds until the next cooldown at the present index.\<close>

definition decay_at :: "('f, 'z) xi_globals_scheme \<Rightarrow> int \<Rightarrow> int" where
  "decay_at s i = (case decay_lut s of None \<Rightarrow> 0 | Some v \<Rightarrow> uint (array v ! nat i))"

lemma lut_at_ok: "lut_ok lut n \<Longrightarrow> 0 \<le> i \<Longrightarrow> i < n \<Longrightarrow> lut_at lut i = Some (array (the lut) ! nat i)"
  by (auto simp: lut_ok_def lut_at_def)

lemma decay_at_bounds: "0 \<le> decay_at s i" "decay_at s i < 2 ^ 32"
  using uint_lt2p [where 'a = 32] by (auto simp: decay_at_def split: option.split)

text \<open>The fields of this component are none of the dispatcher's.\<close>

lemma tev_ok_backoff [simp]:
  fixes s :: "('f, 'z) xi_globals_scheme"
  shows "tev_ok (s\<lparr>backoff_lut_i := i\<rparr>) = tev_ok s" "tev_ok (s\<lparr>backoff_class := c\<rparr>) = tev_ok s"
    "tev_ok (s\<lparr>backoff_lut := l\<rparr>) = tev_ok s" "tev_ok (s\<lparr>decay_lut := l\<rparr>) = tev_ok s"
  by (rule tev_ok_cong; simp)+

lemma evtd_ok_backoff [simp]:
  fixes s :: "('f, 'z) xi_globals_scheme"
  shows "evtd_ok (s\<lparr>backoff_lut_i := i\<rparr>) = evtd_ok s" "evtd_ok (s\<lparr>backoff_class := c\<rparr>) = evtd_ok s"
    "evtd_ok (s\<lparr>backoff_lut := l\<rparr>) = evtd_ok s" "evtd_ok (s\<lparr>decay_lut := l\<rparr>) = evtd_ok s"
    "evtd_blocks (s\<lparr>backoff_lut_i := i\<rparr>) = evtd_blocks s"
    "evtd_blocks (s\<lparr>backoff_class := c\<rparr>) = evtd_blocks s"
  by (simp_all add: evtd_ok_def evtd_blocks_def other_blocks_def timer_blocks_def registrations_ok_def
      container_def cong: xi_evtd_fd_type.case_cong)

lemma evtd_frame_backoff [simp]:
  fixes s :: "('f, 'z) xi_globals_scheme"
  shows "evtd_frame s (t\<lparr>backoff_lut_i := i\<rparr>) = evtd_frame s t"
    "evtd_frame s (t\<lparr>backoff_class := c\<rparr>) = evtd_frame s t"
    "evtd_frame (s\<lparr>backoff_lut_i := i\<rparr>) t = evtd_frame s t"
    "evtd_frame (s\<lparr>backoff_class := c\<rparr>) t = evtd_frame s t"
  by (simp_all add: evtd_frame_def)

lemma backoff_okD:
  assumes "backoff_ok s"
  shows "evtd_ok s" "next_update s \<noteq> NULL" "0 \<le> backoff_lut_i s" "backoff_lut_i s < lut_size s"
    "lut_size s \<le> 127" "lut_ok (backoff_lut s) (lut_size s)" "lut_ok (decay_lut s) (lut_size s)"
    "- (2 ^ 62) \<le> current_step s" "current_step s < 2 ^ 62"
  using assms by (auto simp: backoff_ok_def lut_ok_def lut_size_def)

lemma backoff_ok_index:
  "backoff_ok s \<Longrightarrow> 0 \<le> i \<Longrightarrow> i < lut_size s \<Longrightarrow> backoff_ok (s\<lparr>backoff_lut_i := i\<rparr>)"
  by (auto simp: backoff_ok_def lut_ok_def lut_size_def)

text \<open>What the operations on the dispatcher leave of the backoff state.\<close>

lemma same_backoff:
  fixes s t :: "('f, 'z) xi_globals_scheme"
  assumes "xi_evtd_instance.more t = xi_evtd_instance.more s"
  shows "next_update t = next_update s" "backoff_lut t = backoff_lut s" "decay_lut t = decay_lut s"
    "backoff_class t = backoff_class s" "backoff_lut_i t = backoff_lut_i s"
proof -
  show "next_update t = next_update s" using assms by (cases t, cases s) simp
  show "backoff_lut t = backoff_lut s" using assms by (cases t, cases s) simp
  show "decay_lut t = decay_lut s" using assms by (cases t, cases s) simp
  show "backoff_class t = backoff_class s" using assms by (cases t, cases s) simp
  show "backoff_lut_i t = backoff_lut_i s" using assms by (cases t, cases s) simp
qed

lemma same_globals:
  fixes s t :: "('f, 'z) xi_globals_scheme"
  assumes "time_events.more t = time_events.more s"
  shows "next_update t = next_update s" "backoff_lut t = backoff_lut s" "decay_lut t = decay_lut s"
    "backoff_class t = backoff_class s" "backoff_lut_i t = backoff_lut_i s"
    "current_step t = current_step s" "lut_size t = lut_size s" "decay_at t = decay_at s"
    "call_queue t = call_queue s" "on_empty t = on_empty s"
  using same_more [OF assms] same_backoff [OF same_more(9) [OF assms]]
  by (simp_all add: lut_size_def decay_at_def fun_eq_iff)

lemma backoff_ok_same:
  assumes "backoff_ok s" "time_events.more t = time_events.more s" "evtd_ok t"
  shows "backoff_ok t"
  using assms(1,3) unfolding backoff_ok_def same_globals [OF assms(2)] by simp

section \<open>The operations keep it\<close>

lemma long_add_ok: "- (2 ^ 62) \<le> a \<Longrightarrow> a < 2 ^ 62 \<Longrightarrow> 0 \<le> b \<Longrightarrow> b < 2 ^ 32 \<Longrightarrow> long_add a b = Some (a + b)"
  by (simp add: long_add_def)

text \<open>
  The timer is restarted or posted at the decay of the index; without memory it is not posted.
\<close>

lemma xi_restart_update_time_spec:
  assumes s: "backoff_ok s"
  obtains (armed) t where "xi_restart_update_time s = Some (XI_STATE_OK, t)" "backoff_ok t"
      "evtd_frame s t" "time_events.more t = time_events.more s" "handles t (next_update s) \<noteq> NULL"
      "event_key t (handles t (next_update s)) = current_step s + decay_at s (backoff_lut_i s)"
      "handles s (next_update s) = NULL \<Longrightarrow>
         event_handle (tevs t (handles t (next_update s))) = xi_make_handle_argc0 0 Apply_Cooldown"
      "handles s (next_update s) = NULL \<Longrightarrow> queue s = [] \<Longrightarrow> queue t = [handles t (next_update s)]"
  | (unarmed) t where "xi_restart_update_time s = Some (XI_OUT_OF_MEMORY, t)" "backoff_ok t"
      "evtd_frame s t" "time_events.more t = time_events.more s" "handles t (next_update s) = NULL"
      "handles s (next_update s) = NULL"
      "xi_evtd_execute_in s (xi_make_handle_argc0 0 Apply_Cooldown)
         (decay_at s (backoff_lut_i s)) (next_update s) = Some (XI_OUT_OF_MEMORY, t)"
proof -
  note ok = backoff_okD [OF s]
  obtain v where v: "decay_lut s = Some v" "backoff_lut_i s < int (length (array v))"
    using ok by (auto simp: lut_ok_def)
  let ?d = "array v ! nat (backoff_lut_i s)"
  have l: "lut_at (decay_lut s) (backoff_lut_i s) = Some ?d" using v ok(3) by (simp add: lut_at_def)
  have d: "uint ?d = decay_at s (backoff_lut_i s)" using v by (simp add: decay_at_def)
  have t0: "long_add (current_step s) (uint ?d) = Some (current_step s + uint ?d)"
    using ok(8,9) decay_at_bounds [of s "backoff_lut_i s"] d by (intro long_add_ok) simp_all
  show thesis
  proof (cases "handles s (next_update s) = NULL")
    case False
    obtain t where t: "xi_evtd_restart s (next_update s) (uint ?d) = Some (XI_STATE_OK, t)" "evtd_frame s t"
      "event_key t = (event_key s)(handles s (next_update s) := current_step s + uint ?d)"
      "handles t = handles s" "time_events.more t = time_events.more s"
      using ok(1) False t0 by (rule xi_evtd_restart_spec) blast
    then show thesis
      using armed [of t] backoff_ok_same [OF s t(5)] False l d
      by (simp add: xi_restart_update_time_def evtd_frame_def)
  next
    case True
    let ?h = "xi_make_handle_argc0 0 Apply_Cooldown"
    have r: "xi_restart_update_time s = xi_evtd_execute_in s ?h (uint ?d) (next_update s)"
      using True l by (simp add: xi_restart_update_time_def)
    from ok(1) True t0 show thesis
    proof (rule xi_evtd_execute_in_spec [where h = ?h])
      fix t
      assume t: "xi_evtd_execute_in s ?h (uint ?d) (next_update s) = Some (XI_OUT_OF_MEMORY, t)"
        "evtd_frame s t" "t = s\<lparr>tmem := tmem t\<rparr>"
      have "time_events.more t = time_events.more s" "handles t = handles s"
        using arg_cong [OF t(3), of time_events.more] arg_cong [OF t(3), of handles] by simp_all
      then show thesis
        using unarmed [of t] r t(1,2) True backoff_ok_same [OF s] d by (simp add: evtd_frame_def)
    next
      fix t
      assume "xi_evtd_execute_in s ?h (uint ?d) (next_update s) = Some (XI_OUT_OF_MEMORY, t)"
        "evtd_frame s t" "handles t = handles s" "time_events.more t = time_events.more s"
      then show thesis
        using unarmed [of t] r True backoff_ok_same [OF s] d by (simp add: evtd_frame_def)
    next
      fix t p
      assume t: "xi_evtd_execute_in s ?h (uint ?d) (next_update s) = Some (XI_STATE_OK, t)"
        "evtd_frame s t" "p \<notin> live_blocks (tmem s)"
        "queue t = takeWhile (\<lambda>y. event_key s y \<le> current_step s + uint ?d) (queue s) @ p
           # dropWhile (\<lambda>y. event_key s y \<le> current_step s + uint ?d) (queue s)"
        "event_key t = (event_key s)(p := current_step s + uint ?d)" "event_handle (tevs t p) = ?h"
        "handles t = (if next_update s = NULL then handles s else (handles s)(next_update s := p))"
        "time_events.more t = time_events.more s"
      have "p \<in> evtd_blocks t" using t(4) by (auto simp: evtd_blocks_def timer_blocks_def)
      then have "p \<noteq> NULL" using evtd_okD(4) t(2) by (auto simp: evtd_frame_def)
      then show thesis
        using armed [of t] r t ok(2) backoff_ok_same [OF s t(8)] d by (simp add: evtd_frame_def)
    qed
  qed
qed

lemma xi_inc_backoff_penalty_eq:
  assumes s: "backoff_ok s"
  shows "xi_inc_backoff_penalty s =
    map_option snd (xi_restart_update_time (s\<lparr>backoff_lut_i := min (backoff_lut_i s + 1) (lut_size s - 1)\<rparr>))"
proof -
  note ok = backoff_okD [OF s]
  obtain v where v: "backoff_lut s = Some v" "elem_no v = lut_size s" using ok by (auto simp: lut_ok_def)
  have "int8 (min (backoff_lut_i s + 1) (lut_size s - 1)) = min (backoff_lut_i s + 1) (lut_size s - 1)"
    using ok(3-5) by (intro int8_id) simp_all
  then show ?thesis using v by (auto simp: xi_inc_backoff_penalty_def split: bind_splits option.splits prod.splits)
qed

lemma xi_dec_backoff_penalty_eq:
  assumes s: "backoff_ok s"
  shows "xi_dec_backoff_penalty s = s\<lparr>backoff_lut_i := max (backoff_lut_i s - 1) 0\<rparr>"
    "backoff_ok (xi_dec_backoff_penalty s)"
proof -
  note ok = backoff_okD [OF s]
  have "int8 (max (backoff_lut_i s - 1) 0) = max (backoff_lut_i s - 1) 0"
    using ok(3-5) by (intro int8_id) simp_all
  then show eq: "xi_dec_backoff_penalty s = s\<lparr>backoff_lut_i := max (backoff_lut_i s - 1) 0\<rparr>"
    by (simp add: xi_dec_backoff_penalty_def)
  show "backoff_ok (xi_dec_backoff_penalty s)"
    unfolding eq using s by (rule backoff_ok_index) (use ok(3,4) in simp_all)
qed

lemma xi_apply_cooldown_frame:
  assumes "evtd_ok s" "xi_apply_cooldown s = Some (r, t)"
  shows "evtd_frame s t"
proof -
  let ?s = "if backoff_class s = XI_BACKOFF_CLASS_NONE then xi_dec_backoff_penalty s else s"
  have s: "evtd_ok ?s" "evtd_frame s ?s"
    using assms(1) by (simp_all add: xi_dec_backoff_penalty_def evtd_frame_refl)
  have "handles ?s (next_update ?s) = NULL" using assms(2)
    by (auto simp: xi_apply_cooldown_def xi_dec_backoff_penalty_def split: bind_splits if_splits)
  then show ?thesis
    using assms(2) s execute_in_frame [OF s(1)] evtd_frame_trans [OF s(2)]
    by (auto simp: xi_apply_cooldown_def xi_restart_update_time_def Let_def split: bind_splits if_splits)
qed

text \<open>
  The cooldown keeps the contract of a handler beside every other handler that works through
  the library's operations.
\<close>

interpretation globals: handler_environment "globals_env (program_env prog)" for prog
  by unfold_locales
    (auto simp: globals_env_def xi_apply_cooldown_frame program.env_frame split: global_fn.splits)

section \<open>Cooling down\<close>

text \<open>
  Memory is at hand: no allocation fails. What the two allocations of a timed call keep of it.
\<close>

lemma xi_alloc_unscripted: "alloc_script m = [] \<Longrightarrow> xi_alloc n m = (p, m') \<Longrightarrow> alloc_script m' = []"
  by (auto simp: xi_alloc_def split: if_splits)

lemma xi_swap_time_events_tmem: "xi_swap_time_events s i j = Some t \<Longrightarrow> tmem t = tmem s"
  by (auto simp: xi_swap_time_events_def update_event_def split: bind_splits if_splits)

lemma bubble_loop_tmem: "xi_time_event_bubble_loop s i d e = Some (j, t) \<Longrightarrow> tmem t = tmem s"
proof (induction "nat (if d < 0 then i else e - i)" arbitrary: s i rule: less_induct)
  case less
  have step: "tmem t = tmem s"
    if "d = -1 \<or> d = 1" "0 \<le> i" "i \<le> e" "if d < 0 then i \<noteq> 0 else i \<noteq> e"
      "xi_swap_time_events s k l = Some u" "xi_time_event_bubble_loop u (i + d) d e = Some (j, t)" for k l u
    using less.hyps [OF _ that(6)] xi_swap_time_events_tmem [OF that(5)] that(1-4) by auto
  show ?case
    using less.prems
    by (subst (asm) xi_time_event_bubble_loop.simps) (auto split: bind_splits if_splits intro: step)
qed

lemma xi_vector_push_room:
  assumes "elem_no v < capacity v" "xi_vector_push v x m = Some (r, v', m')"
  shows "r \<noteq> None" "m' = m"
  using assms by (auto simp: xi_vector_push_def Let_def split: bind_splits if_splits)

lemma xi_time_event_add_room:
  assumes q: "elem_no (tv s) < capacity (tv s)" and r: "xi_time_event_add s p c = Some (st, t)"
  shows "st = XI_STATE_OK \<and> tmem t = tmem s"
proof -
  obtain r1 s1 where i: "xi_insert_time_event s p = Some (r1, s1)" and
    e: "(case r1 of None \<Rightarrow> Some (XI_OUT_OF_MEMORY, s1)
      | Some i \<Rightarrow> do {
          added_time_event \<leftarrow> arr_get (array (tv s1)) i;
          xi_assert (added_time_event = p);
          if c \<noteq> NULL
          then do {
            s2 \<leftarrow> update_event added_time_event (\<lambda>e. e\<lparr>time_event_handle := c\<rparr>)
                    (s1\<lparr>handles := (handles s1)(c := added_time_event)\<rparr>);
            Some (XI_STATE_OK, s2) }
          else Some (XI_STATE_OK, s1) }) = Some (st, t)"
    using r by (auto simp: xi_time_event_add_def split: bind_splits)
  have "r1 \<noteq> None \<and> tmem s1 = tmem s"
    using i xi_vector_push_room(1) [OF q, of p "tmem s" None] xi_vector_push_room(2) [OF q]
    by (auto simp: xi_insert_time_event_def xi_time_event_bubble_and_sort_down_def
        xi_time_event_bubble_core_def update_event_def split: bind_splits if_splits dest!: bubble_loop_tmem)
  then show ?thesis using e by (auto simp: update_event_def split: bind_splits if_splits)
qed

lemma xi_evtd_execute_in_room:
  assumes s: "evtd_ok s" and m: "alloc_script (tmem s) = []" and q: "elem_no (tv s) < capacity (tv s)"
    and r: "xi_evtd_execute_in s h d c = Some (st, t)"
  shows "st = XI_STATE_OK \<and> alloc_script (tmem t) = []"
proof -
  obtain p m1 where a: "xi_alloc sizeof_xi_time_event (tmem s) = (p, m1)" by fastforce
  have p: "p \<noteq> NULL" "alloc_script m1 = []"
    using a m evtd_okD(2) [OF s] xi_alloc_unscripted [OF m a]
    by (auto simp: xi_alloc_def sizeof_xi_time_event_def PTRDIFF_MAX_def mem_ok_def)
  then obtain x where x: "xi_time_event_add (s\<lparr>tmem := m1, tevs := (tevs s)(p :=
      \<lparr>event_handle = h, time_of_execution = x, position = 0, time_event_handle = NULL\<rparr>)\<rparr>) p c = Some (st, t)"
    using a r by (auto simp: xi_evtd_execute_in_def split: bind_splits)
  then show ?thesis using xi_time_event_add_room [OF _ x] p(2) q by simp
qed

text \<open>
  The state in which only the cooldown's timer \<open>p\<close> is left on the dispatcher and no failure
  has been reported since.
\<close>

definition cooling :: "('f, 'z) xi_globals_scheme \<Rightarrow> addr \<Rightarrow> bool" where
  "cooling s p \<longleftrightarrow> backoff_ok s \<and> backoff_class s = XI_BACKOFF_CLASS_NONE \<and> queue s = [p]
     \<and> handles s (next_update s) = p \<and> event_handle (tevs s p) = xi_make_handle_argc0 0 Apply_Cooldown
     \<and> call_queue s = [] \<and> handlers (on_empty s) = XI_EVENT_HANDLE_UNSET
     \<and> alloc_script (tmem s) = [] \<and> (\<forall>i. 0 \<le> i \<and> i < lut_size s \<longrightarrow> 0 < decay_at s i)"

lemma call_loop_idle:
  "call_queue s = [] \<Longrightarrow> xi_evtd_call_loop env now s = Some (s\<lparr>current_step := now\<rparr>)"
  by (subst xi_evtd_call_loop.simps) (simp add: xi_evtd_single_step_def)

text \<open>One step of the dispatcher at a time the cooldown is due.\<close>

lemma cooldown_step:
  assumes c: "cooling s p" and due: "event_key s p \<le> now" "- (2 ^ 62) \<le> now" "now < 2 ^ 62"
  obtains t where "xi_evtd_step (globals_env env) s now = Some t" "backoff_ok t"
    "backoff_lut_i t = max (backoff_lut_i s - 1) 0" "decay_at t = decay_at s" "lut_size t = lut_size s"
    "backoff_lut_i t = 0 \<Longrightarrow> queue t = [] \<and> handles t (next_update t) = NULL"
    "0 < backoff_lut_i t \<Longrightarrow>
       \<exists>q. cooling t q \<and> event_key t q = now + decay_at s (backoff_lut_i t)"
proof -
  have ok: "backoff_ok s" and q: "queue s = [p]" and h: "handles s (next_update s) = p"
    using c by (simp_all add: cooling_def)
  let ?s = "s\<lparr>current_step := now\<rparr>"
  have ok0: "backoff_ok ?s" using ok due by (auto simp: backoff_ok_def)
  note e0 = backoff_okD(1) [OF ok0]
  have st: "tev_struct ?s" using evtd_okD(1) [OF e0] by (simp add: tev_ok_def)
  have pn: "p \<noteq> NULL" using evtd_okD(4) [OF e0, of p] q by (auto simp: evtd_blocks_def timer_blocks_def)
  have ph: "time_event_handle (tevs s p) = next_update s"
    using handle_cell [OF st, of "next_update s"] h pn q by auto
  have due0: "event_key ?s p \<le> current_step ?s" "queue ?s = [p]" using due q by (simp_all add: event_key_def)
  obtain s1 where g: "removed_at 0 ?s s1" "queue s1 = []" "evtd_frame ?s s1" "p \<notin> evtd_blocks s1"
      "p < next_block (tmem ?s)"
    and l: "xi_evtd_timed_loop (globals_env env) ?s = do {
       (result, s2) \<leftarrow> xi_evtd_execute_handle (globals_env env) (event_handle (tevs ?s p)) s1;
       let s3 = s2\<lparr>tmem := xi_free p (tmem s2)\<rparr>;
       xi_evtd_timed_loop (globals_env env) (if xi_state_is_fatal result then xi_evtd_stop s3 else s3) }"
    using e0 due0(2,1) by (rule timed_loop_due [where env = "globals_env env"])
  have m1: "time_events.more s1 = time_events.more ?s" "tmem s1 = tmem s"
    "handles s1 = (handles s)(next_update s := NULL)"
    using g(1) q ph backoff_okD(2) [OF ok] by (simp_all add: removed_at_def)
  have e1: "evtd_ok s1" using g(3) by (simp add: evtd_frame_def)
  have ok1: "backoff_ok s1" using ok0 m1(1) e1 by (rule backoff_ok_same)
  note m = same_globals [OF m1(1)]
  let ?d = "xi_dec_backoff_penalty s1"
  note dec = xi_dec_backoff_penalty_eq [OF ok1]
  have cd: "xi_apply_cooldown s1 =
      (if backoff_lut_i ?d > 0 then xi_restart_update_time ?d else Some (XI_STATE_OK, ?d))"
    using c m m1(3) by (simp add: xi_apply_cooldown_def cooling_def)
  have x: "xi_evtd_execute_handle (globals_env env) (event_handle (tevs ?s p)) s1 = xi_apply_cooldown s1"
    using c by (simp add: cooling_def xi_evtd_execute_handle_def xi_make_handle_argc0_def globals_env_def)
  have step: "xi_evtd_step (globals_env env) s now = Some (t\<lparr>current_step := now\<rparr>)"
    if "xi_evtd_timed_loop (globals_env env) ?s = Some t" "call_queue t = []"
      "handlers (on_empty t) = XI_EVENT_HANDLE_UNSET" for t
    using that by (simp add: xi_evtd_step_def call_loop_idle)
  have idle: "call_queue s1 = []" "handlers (on_empty s1) = XI_EVENT_HANDLE_UNSET"
    using c m by (simp_all add: cooling_def)
  show thesis
  proof (cases "backoff_lut_i ?d > 0")
    case False
    have d: "evtd_ok ?d" "p \<notin> evtd_blocks ?d" "queue ?d = []" "call_queue ?d = []"
      "handlers (on_empty ?d) = XI_EVENT_HANDLE_UNSET" "backoff_lut_i ?d = 0"
      using dec backoff_okD(1,3) [OF dec(2)] g(2,4) idle False by (simp_all add: dec(1))
    let ?t = "?d\<lparr>tmem := xi_free p (tmem ?d)\<rparr>"
    have okt: "backoff_ok ?t"
      using dec(2) by (rule backoff_ok_same) (simp_all add: evtd_ok_free d)
    have "xi_evtd_timed_loop (globals_env env) ?s = xi_evtd_timed_loop (globals_env env) ?t"
      using l x cd False by (simp add: xi_state_is_fatal_def)
    also have "\<dots> = Some ?t" using d backoff_okD(1) [OF okt] by (intro timed_loop_not_due) simp_all
    finally have "xi_evtd_step (globals_env env) s now = Some (?t\<lparr>current_step := now\<rparr>)"
      using d by (intro step) simp_all
    moreover have "backoff_ok (?t\<lparr>current_step := now\<rparr>)" using okt due by (auto simp: backoff_ok_def)
    ultimately show thesis
      using d dec(1) m m1(3) False
      by (intro that [of "?t\<lparr>current_step := now\<rparr>"])
        (simp_all add: decay_at_def [abs_def] lut_size_def)
  next
    case True
    have md: "time_events.more (s1\<lparr>backoff_lut_i := i\<rparr>\<lparr>tmem := x\<rparr>) = time_events.more (s1\<lparr>backoff_lut_i := i\<rparr>)" for i x
      by simp
    have d: "evtd_ok ?d" "p \<notin> evtd_blocks ?d" "queue ?d = []" "call_queue ?d = []"
      "handlers (on_empty ?d) = XI_EVENT_HANDLE_UNSET" "backoff_lut_i ?d = backoff_lut_i s - 1"
      "handles ?d (next_update ?d) = NULL" "current_step ?d = now" "next_update ?d = next_update s"
      "decay_at ?d = decay_at s" "lut_size ?d = lut_size s" "alloc_script (tmem ?d) = []"
      "backoff_class ?d = XI_BACKOFF_CLASS_NONE" "p < next_block (tmem ?d)"
      using dec backoff_okD(1) [OF dec(2)] g(2,4,5) idle True m m1(2,3) c
      by (simp_all add: dec(1) decay_at_def [abs_def] lut_size_def cooling_def)
    have room: "elem_no (tv ?d) < capacity (tv ?d)"
      using d(3) tev_structD(1,8) [of ?d] evtd_okD(1) [OF d(1)] vec_okD(3) [of "tv ?d"]
      by (auto simp: tev_ok_def)
    from dec(2) obtain t where t: "xi_restart_update_time ?d = Some (XI_STATE_OK, t)" "backoff_ok t"
      "evtd_frame ?d t" "time_events.more t = time_events.more ?d" "handles t (next_update ?d) \<noteq> NULL"
      "event_key t (handles t (next_update ?d)) = current_step ?d + decay_at ?d (backoff_lut_i ?d)"
      "event_handle (tevs t (handles t (next_update ?d))) = xi_make_handle_argc0 0 Apply_Cooldown"
      "queue t = [handles t (next_update ?d)]" "alloc_script (tmem t) = []"
    proof (rule xi_restart_update_time_spec)
      fix t
      assume "xi_evtd_execute_in ?d (xi_make_handle_argc0 0 Apply_Cooldown)
         (decay_at ?d (backoff_lut_i ?d)) (next_update ?d) = Some (XI_OUT_OF_MEMORY, t)"
      then show thesis using xi_evtd_execute_in_room [OF d(1,12) room] by fastforce
    next
      fix t
      assume t: "xi_restart_update_time ?d = Some (XI_STATE_OK, t)" "backoff_ok t"
        "evtd_frame ?d t" "time_events.more t = time_events.more ?d" "handles t (next_update ?d) \<noteq> NULL"
        "event_key t (handles t (next_update ?d)) = current_step ?d + decay_at ?d (backoff_lut_i ?d)"
        "handles ?d (next_update ?d) = NULL \<Longrightarrow>
           event_handle (tevs t (handles t (next_update ?d))) = xi_make_handle_argc0 0 Apply_Cooldown"
        "handles ?d (next_update ?d) = NULL \<Longrightarrow> queue ?d = [] \<Longrightarrow> queue t = [handles t (next_update ?d)]"
      have "alloc_script (tmem t) = []"
        using t(1) d(7) xi_evtd_execute_in_room [OF d(1,12) room]
        by (auto simp: xi_restart_update_time_def split: bind_splits)
      then show thesis using that [of t] t d(3,7) by blast
    qed
    note mt = same_globals [OF t(4)]
    let ?q = "handles t (next_update s)"
    let ?t = "t\<lparr>tmem := xi_free p (tmem t)\<rparr>"
    have ft: "evtd_frame ?d ?t" using t(3) d(2,14) by (rule evtd_frame_free)
    have okt: "backoff_ok ?t" using t(2) by (rule backoff_ok_same) (use ft in \<open>simp_all add: evtd_frame_def\<close>)
    have key: "event_key ?t ?q = now + decay_at s (backoff_lut_i s - 1)" "event_key t ?q = now + decay_at s (backoff_lut_i s - 1)"
      using t(6) d by (simp_all add: event_key_def)
    have pos: "0 < decay_at s (backoff_lut_i s - 1)"
      using c True d(6) backoff_okD(4) [OF ok] by (simp add: cooling_def)
    have "xi_evtd_timed_loop (globals_env env) ?s = xi_evtd_timed_loop (globals_env env) ?t"
      using l x cd True t(1) by (simp add: xi_state_is_fatal_def)
    also have "\<dots> = Some ?t"
      using backoff_okD(1) [OF okt] by (rule timed_loop_not_due) (use t(8) d key pos mt in simp)
    finally have st: "xi_evtd_step (globals_env env) s now = Some (?t\<lparr>current_step := now\<rparr>)"
      using d mt by (intro step) simp_all
    have "backoff_ok (?t\<lparr>current_step := now\<rparr>)" using okt due by (auto simp: backoff_ok_def)
    then have "cooling (?t\<lparr>current_step := now\<rparr>) ?q"
      using t(5,7-9) d mt c by (simp add: cooling_def lut_size_def decay_at_def [abs_def])
    then show thesis
      using st \<open>backoff_ok (?t\<lparr>current_step := now\<rparr>)\<close> d mt True key(2)
      by (intro that [of "?t\<lparr>current_step := now\<rparr>"])
        (auto simp: decay_at_def [abs_def] lut_size_def event_key_def intro!: exI [of _ ?q])
  qed
qed

text \<open>
  Times at which the dispatcher is stepped: the first is not before \<open>t\<close>, and each is at
  least \<open>d\<close> seconds behind the one before it.
\<close>

fun spaced_times :: "int \<Rightarrow> int \<Rightarrow> int list \<Rightarrow> bool" where
  "spaced_times d t [] = True"
| "spaced_times d t (now # nows) =
     (t \<le> now \<and> - (2 ^ 62) \<le> now \<and> now < 2 ^ 62 \<and> spaced_times d (now + d) nows)"

lemma spaced_times_mono: "spaced_times d t nows \<Longrightarrow> t' \<le> t \<Longrightarrow> spaced_times d t' nows"
  by (cases nows) auto

lemma cooldown_rounds:
  assumes "cooling s p" "spaced_times d (event_key s p) nows" "int (length nows) = backoff_lut_i s"
    "nows \<noteq> []" "\<forall>i. 0 \<le> i \<and> i < lut_size s \<longrightarrow> decay_at s i \<le> d"
  shows "\<exists>t. fold_option (\<lambda>now s. xi_evtd_step (globals_env env) s now) nows s = Some t
    \<and> backoff_ok t \<and> backoff_lut_i t = 0 \<and> queue t = [] \<and> handles t (next_update t) = NULL"
  using assms
proof (induction nows arbitrary: s p)
  case (Cons now nows)
  have due: "event_key s p \<le> now" "- (2 ^ 62) \<le> now" "now < 2 ^ 62" and
    rest: "spaced_times d (now + d) nows" using Cons.prems(2) by simp_all
  obtain t where t: "xi_evtd_step (globals_env env) s now = Some t" "backoff_ok t"
    "backoff_lut_i t = max (backoff_lut_i s - 1) 0" "decay_at t = decay_at s" "lut_size t = lut_size s"
    "backoff_lut_i t = 0 \<Longrightarrow> queue t = [] \<and> handles t (next_update t) = NULL"
    "0 < backoff_lut_i t \<Longrightarrow>
       \<exists>q. cooling t q \<and> event_key t q = now + decay_at s (backoff_lut_i t)"
    using Cons.prems(1) due by (rule cooldown_step [where env = env]) blast
  show ?case
  proof (cases "nows = []")
    case True
    then show ?thesis using t Cons.prems(3) by auto
  next
    case False
    then have pos: "0 < backoff_lut_i t" and len: "int (length nows) = backoff_lut_i t"
      using Cons.prems(3) t(3) by (auto simp: neq_Nil_conv)
    obtain q where q: "cooling t q" "event_key t q = now + decay_at s (backoff_lut_i t)"
      using t(7) pos by blast
    have "decay_at s (backoff_lut_i t) \<le> d"
      using Cons.prems(5) backoff_okD(3,4) [OF t(2)] t(5) by simp
    then have "spaced_times d (event_key t q) nows" using rest q(2) spaced_times_mono by simp
    then show ?thesis using Cons.IH [OF q(1) _ len False] Cons.prems(5) t(1,4,5) by simp
  qed
qed simp

section \<open>Properties\<close>

text \<open>
  The state the witnesses run on: the shipped tables, the index 2, and the cooldown's timer,
  due at 10, as the only timer (address 3, its handle cell at 100).
\<close>

definition lut_example :: "addr \<Rightarrow> 32 word list \<Rightarrow> 32 word xi_vector" where
  "lut_example b xs = \<lparr>vec_block = b, array_block = Suc b, array = xs, elem_no = 10, capacity = 10,
     memory_type = XI_MEMORY_TYPE_UNMANAGED\<rparr>"

definition backoff_example :: "nat xi_globals" where
  "backoff_example = \<lparr>
     tv = \<lparr>vec_block = 1, array_block = 2, array = [3, 0], elem_no = 1, capacity = 2,
           memory_type = XI_MEMORY_TYPE_MANAGED\<rparr>,
     tevs = (\<lambda>p. \<lparr>event_handle = xi_make_handle_argc0 0 Apply_Cooldown, time_of_execution = 10,
        position = 0, time_event_handle = 100\<rparr>),
     handles = (\<lambda>c. if c = 100 then 3 else NULL),
     tmem = \<lparr>alloc_script = [], next_block = 50, live_blocks = {1, 2, 3, 6, 7, 8, 10, 11, 20, 30}\<rparr>,
     evtd_block = 6, current_step = 0, call_queue = [],
     handles_and_socket_fd = \<lparr>vec_block = 7, array_block = 8, array = [0, 0], elem_no = 0, capacity = 2,
           memory_type = XI_MEMORY_TYPE_MANAGED\<rparr>,
     handles_and_file_fd = \<lparr>vec_block = 10, array_block = 11, array = [0, 0], elem_no = 0, capacity = 2,
           memory_type = XI_MEMORY_TYPE_MANAGED\<rparr>,
     fd_tuples = (\<lambda>_. \<lparr>fd = 5, handle = xi_make_empty_handle_impl 0, read_handle = xi_make_empty_handle_impl 0,
           event_type = XI_EVENT_WANT_READ, fd_type = XI_EVTD_FD_TYPE_SOCKET\<rparr>),
     on_empty = xi_make_empty_handle_impl 0, stop = 0,
     next_update = 100, backoff_lut = Some (lut_example 20 XI_BACKOFF_LUT),
     decay_lut = Some (lut_example 30 XI_DECAY_LUT), backoff_class = XI_BACKOFF_CLASS_NONE,
     backoff_lut_i = 2\<rparr>"

lemma backoff_example_evtd_ok: "evtd_ok backoff_example"
proof -
  have "tev_ok backoff_example"
    by (auto simp: backoff_example_def tev_ok_def tev_struct_def vec_ok_def vec_owned_def
        mem_ok_def queue_live_def queue_positions_def queue_handles_def elems_def event_key_def)
  moreover have "registrations_ok backoff_example ty" for ty
    by (cases ty) (simp_all add: registrations_ok_def container_def backoff_example_def vec_ok_def elems_def)
  ultimately show ?thesis
    by (simp add: evtd_ok_def other_blocks_def timer_blocks_def backoff_example_def elems_def)
qed

lemma backoff_example_facts:
  "lut_size backoff_example = 10" "backoff_lut_i backoff_example = 2" "current_step backoff_example = 0"
  "event_key backoff_example 3 = 10" "handles backoff_example 100 = 3" "next_update backoff_example = 100"
  "backoff_lut backoff_example = Some (lut_example 20 XI_BACKOFF_LUT)"
  "decay_at backoff_example i = uint (XI_DECAY_LUT ! nat i)"
  by (simp_all add: lut_size_def backoff_example_def lut_example_def event_key_def decay_at_def)

lemma decay_lut_bounds:
  assumes "0 \<le> i" "i < 10"
  shows "0 < uint (XI_DECAY_LUT ! nat i)" "uint (XI_DECAY_LUT ! nat i) \<le> 30"
proof -
  have "\<forall>x \<in> set XI_DECAY_LUT. 0 < uint x \<and> uint x \<le> 30" by (simp add: XI_DECAY_LUT_def)
  moreover have "XI_DECAY_LUT ! nat i \<in> set XI_DECAY_LUT"
    using assms by (intro nth_mem) (simp add: XI_DECAY_LUT_def)
  ultimately show "0 < uint (XI_DECAY_LUT ! nat i)" "uint (XI_DECAY_LUT ! nat i) \<le> 30" by blast+
qed

lemma backoff_example_ok: "backoff_ok backoff_example"
  using backoff_example_evtd_ok
  by (auto simp: backoff_ok_def lut_ok_def backoff_example_def lut_example_def XI_BACKOFF_LUT_def XI_DECAY_LUT_def)

lemma backoff_example_cooling: "cooling backoff_example 3"
  using backoff_example_ok
  by (simp add: cooling_def backoff_example_facts decay_lut_bounds)
    (simp add: backoff_example_def elems_def xi_make_empty_handle_impl_def)

text \<open>
  Every state the connection reports is classified and recorded. A success changes nothing
  else; a failure moves the index up by one, at most to the last entry of the tables, and has the
  cooldown's timer due the decay of the new index from now, unless there was no timer and no
  memory for one. The invariant of the component and of the dispatcher holds afterwards.
\<close>

lemma update_backoff_penalty_correct:
  assumes "backoff_ok s"
  shows "\<exists>t. xi_update_backoff_penalty s st = Some (xi_backoff_classify_state st, t) \<and> backoff_ok t
    \<and> backoff_class t = xi_backoff_classify_state st
    \<and> (xi_backoff_classify_state st = XI_BACKOFF_CLASS_NONE \<longrightarrow> t = s\<lparr>backoff_class := XI_BACKOFF_CLASS_NONE\<rparr>)
    \<and> (xi_backoff_classify_state st \<noteq> XI_BACKOFF_CLASS_NONE \<longrightarrow>
         backoff_lut_i t = min (backoff_lut_i s + 1) (lut_size s - 1)
         \<and> (handles t (next_update t) \<noteq> NULL
              \<and> event_key t (handles t (next_update t)) = current_step s + decay_at s (backoff_lut_i t)
            \<or> handles t (next_update t) = NULL \<and> handles s (next_update s) = NULL))"
proof (cases "xi_backoff_classify_state st = XI_BACKOFF_CLASS_NONE")
  case True
  have "backoff_ok (s\<lparr>backoff_class := XI_BACKOFF_CLASS_NONE\<rparr>)" using assms by (simp add: backoff_ok_def)
  then show ?thesis using True by (simp add: xi_update_backoff_penalty_def)
next
  case False
  let ?c = "xi_backoff_classify_state st" and ?i = "min (backoff_lut_i s + 1) (lut_size s - 1)"
  let ?s = "s\<lparr>backoff_class := ?c, backoff_lut_i := ?i\<rparr>"
  have c: "backoff_ok (s\<lparr>backoff_class := ?c\<rparr>)" using assms by (simp add: backoff_ok_def)
  have ok: "backoff_ok ?s"
    using c by (rule backoff_ok_index) (use backoff_okD(3,4) [OF assms] in \<open>simp_all add: lut_size_def\<close>)
  have eq: "xi_update_backoff_penalty s st = map_option (\<lambda>r. (?c, snd r)) (xi_restart_update_time ?s)"
    using False xi_inc_backoff_penalty_eq [OF c]
    by (cases ?c) (auto simp: xi_update_backoff_penalty_def lut_size_def map_option_case split: option.splits)
  from ok show ?thesis
  proof (rule xi_restart_update_time_spec)
    fix t
    assume t: "xi_restart_update_time ?s = Some (XI_STATE_OK, t)" "backoff_ok t"
      "time_events.more t = time_events.more ?s" "handles t (next_update ?s) \<noteq> NULL"
      "event_key t (handles t (next_update ?s)) = current_step ?s + decay_at ?s (backoff_lut_i ?s)"
    show ?thesis
      using eq t False same_globals [OF t(3)] by (intro exI [of _ t]) (simp add: decay_at_def)
  next
    fix t
    assume t: "xi_restart_update_time ?s = Some (XI_OUT_OF_MEMORY, t)" "backoff_ok t"
      "time_events.more t = time_events.more ?s" "handles t (next_update ?s) = NULL"
      "handles ?s (next_update ?s) = NULL"
    show ?thesis using eq t False same_globals [OF t(3)] by (intro exI [of _ t]) simp
  qed
qed

text \<open>
  Whatever the random number, the penalty is the entry of the table at the index, moved by
  at most half of the entry before it (rounded down, but at least 1 downwards), and never below
  the first entry. Nothing overflows as long as the entries are below 2^30.
\<close>

lemma backoff_penalty_bounds:
  assumes "backoff_ok s" "backoff_lut s = Some v" "\<forall>x \<in> set (array v). uint x < 2 ^ 30"
    "full = (if backoff_lut_i s = 0 then 0 else uint (array v ! nat (backoff_lut_i s - 1)))"
    "base = uint (array v ! nat (backoff_lut_i s))" "half = max (full div 2) 1"
  shows "\<exists>p. xi_get_backoff_penalty s random = Some p
    \<and> max (uint (array v ! 0)) (base - half) \<le> uint p
    \<and> uint p \<le> max (uint (array v ! 0)) (base - half + full)"
proof -
  note ok = backoff_okD [OF assms(1)]
  have n: "elem_no v = lut_size s" "lut_size s \<le> int (length (array v))" using ok(6) assms(2) by (auto simp: lut_ok_def)
  let ?i = "backoff_lut_i s" let ?prev = "array v ! nat (max (?i - 1) 0)"
  let ?rand = "uint random mod (full + 1)"
  have at: "lut_at (backoff_lut s) j = Some (array v ! nat j)" if "0 \<le> j" "j < lut_size s" for j
    using that n assms(2) by (simp add: lut_at_def)
  have small: "0 \<le> uint (array v ! nat j)" "uint (array v ! nat j) < 2 ^ 30" if "0 \<le> j" "j < lut_size s" for j
    using that n assms(3) by auto
  have i8: "int8 (max (?i - 1) 0) = max (?i - 1) 0" using ok(3-5) by (intro int8_id) simp_all
  have prev: "0 \<le> uint ?prev" "uint ?prev < 2 ^ 30" using small [of "max (?i - 1) 0"] ok(3,4) by auto
  have full: "full = (if ?i = 0 then 0 else uint ?prev)" "0 \<le> full" "full < 2 ^ 30"
    using assms(4) prev ok(3) by auto
  have base: "0 \<le> base" "base < 2 ^ 30" using small [of ?i] ok(3,4) assms(5) by simp_all
  have first: "0 \<le> uint (array v ! 0)" "uint (array v ! 0) < 2 ^ 30" using small [of 0] ok(3,4) by auto
  have half: "full sdiv 2 = full div 2" "1 \<le> half" "half \<le> 2 ^ 29"
    using full(2,3) assms(6) by (auto simp: signed_divide_int_def sgn_if)
  have rand: "0 \<le> ?rand" "?rand \<le> full"
    using full(2) pos_mod_bound [of "full + 1" "uint random"] by simp_all
  let ?r = "max (base + ?rand - half) (uint (array v ! 0))"
  have r: "0 \<le> ?r" "?r < 2 ^ 32" using base full(3) first rand half(2) by (auto simp: le_max_iff_disj)
  have lut: "lut_at (backoff_lut s) (max (?i - 1) 0) = Some ?prev"
    "lut_at (backoff_lut s) ?i = Some (array v ! nat ?i)" "lut_at (backoff_lut s) 0 = Some (array v ! 0)"
    using at [of "max (?i - 1) 0"] at [of ?i] at [of 0] ok(3,4) by simp_all
  have i32: "int32 x = x" if "0 \<le> x" "x < 2 ^ 30" for x using that by simp
  have conv: "int32 (uint ?prev) = uint ?prev" "int32 base = base" "int32 ?rand = ?rand"
    "int32 (uint (array v ! 0)) = uint (array v ! 0)"
    using i32 [OF prev] i32 [OF base] i32 [OF first] i32 [OF rand(1) le_less_trans [OF rand(2) full(3)]]
    by blast+
  have sums: "int_result (base + x) = Some (base + x)" "int_result (base + x - half) = Some (base + x - half)"
    if "0 \<le> x" "x \<le> full" for x
    using that full(2,3) base half(2,3) by (simp_all add: int_result_def)
  have range: "(full + 1) mod 4294967296 = full + 1" "int_result (full + 1) = Some (full + 1)"
    "int_result (base + ?rand) = Some (base + ?rand)"
    "int_result (base + ?rand - half) = Some (base + ?rand - half)" "full + 1 \<noteq> 0"
    using full(2,3) sums [OF rand] by (simp_all add: int_result_def)
  have "xi_get_backoff_penalty s random = Some (of_int ?r)"
    unfolding xi_get_backoff_penalty_def Let_def i8 lut bind.bind_lunit conv(1) full(1) [symmetric]
      half(1) assms(6) [symmetric] assms(5) [symmetric] conv(2) range(1,2)
    using range conv by simp
  moreover have "uint (of_int ?r :: 32 word) = ?r" using r by (simp add: unsigned_of_int take_bit_eq_mod)
  ultimately show ?thesis using rand by (intro exI [of _ "of_int ?r"]) auto
qed

text \<open>
  C21: Cooling down ends: with the connection well, the cooldown's timer the only one on the
  dispatcher and memory at hand, stepping the dispatcher as many times as the index, the first
  time when the timer is due and then with gaps of at least the longest decay, brings the index to
  0 and leaves no timer behind.
\<close>

theorem backoff_cools_down:
  assumes "cooling s p" "spaced_times d (event_key s p) nows" "int (length nows) = backoff_lut_i s"
    "nows \<noteq> []" "\<forall>i. 0 \<le> i \<and> i < lut_size s \<longrightarrow> decay_at s i \<le> d"
  shows "\<exists>t. fold_option (\<lambda>now s. xi_evtd_step (globals_env env) s now) nows s = Some t
    \<and> backoff_ok t \<and> backoff_lut_i t = 0 \<and> queue t = [] \<and> handles t (next_update t) = NULL"
  using assms by (rule cooldown_rounds)

theorem backoff_cools_down_witness:
  "\<exists>t. fold_option (\<lambda>now s. xi_evtd_step (globals_env (\<lambda>_ _ _. None)) s now) [12, 50] backoff_example = Some t
    \<and> backoff_lut_i t = 0 \<and> queue t = []"
  using backoff_cools_down [OF backoff_example_cooling, of 30 "[12, 50]" "\<lambda>_ _ _. None"]
  by (auto simp: backoff_example_facts decay_lut_bounds)

text \<open>
  Installing two tables of up to 127 entries either succeeds with both installed, or
  reports out of memory. Then at least one table is missing, and the next failure that is
  reported dereferences \<open>NULL\<close>.
\<close>

lemma backoff_configure_outcomes:
  assumes "fst backoff \<noteq> NULL" "fst decay \<noteq> NULL" "0 < len" "len \<le> 127"
    "\<forall>v. backoff_lut s = Some v \<or> decay_lut s = Some v \<longrightarrow> array_block v \<noteq> NULL"
  shows "\<exists>r t. xi_backoff_configure_using_data s backoff decay len mtype = Some (r, t)
    \<and> (r = XI_STATE_OK \<and> lut_size t = int len \<and> map_option array (backoff_lut t) = Some (snd backoff)
         \<and> map_option array (decay_lut t) = Some (snd decay) \<and> backoff_lut_i t = backoff_lut_i s
       \<or> r = XI_OUT_OF_MEMORY \<and> (backoff_lut t = None \<or> decay_lut t = None)
         \<and> (\<forall>st. xi_backoff_classify_state st \<noteq> XI_BACKOFF_CLASS_NONE \<longrightarrow> xi_update_backoff_penalty t st = None))"
proof -
  obtain s1 where s1: "xi_backoff_release_luts s = Some s1" "backoff_lut s1 = None" "decay_lut s1 = None"
    "backoff_lut_i s1 = backoff_lut_i s"
    using assms(5)
    by (cases "backoff_lut s"; cases "decay_lut s") (auto simp: xi_backoff_release_luts_def xi_vector_destroy_def Let_def)
  have none: "xi_update_backoff_penalty t st = None"
    if "backoff_lut t = None \<or> decay_lut t = None" "xi_backoff_classify_state st \<noteq> XI_BACKOFF_CLASS_NONE"
    for t :: "('a, 'b) xi_globals_scheme" and st
    using that
    by (cases "xi_backoff_classify_state st"; cases "backoff_lut t")
      (simp_all add: xi_update_backoff_penalty_def xi_inc_backoff_penalty_def Let_def xi_restart_update_time_def lut_at_def)
  obtain p m where a: "xi_alloc sizeof_xi_vector (tmem s1) = (p, m)" by fastforce
  obtain q m' where b: "xi_alloc sizeof_xi_vector m = (q, m')" by fastforce
  show ?thesis
    using assms(1-4) s1 a b
    by (cases "p = NULL"; cases "q = NULL")
      (auto simp: xi_backoff_configure_using_data_def xi_vector_create_from_def Let_def lut_size_def none)
qed

end
