(* ===== verification/Xi_Helpers.thy ===== *)
theory Xi_Helpers
  imports Prelude
begin

unbundle bit_operations_syntax

text \<open>
  \<open>src/libxively/xi_helpers.c\<close>: the string helpers and the bit trick the buffer growth
  strategy is built on. A C string in memory is the list of the bytes from the pointer to the
  end of its object; reading past that end is \<open>None\<close>.
\<close>

type_synonym byte = "8 word"

section \<open>C strings\<close>

definition c_strlen :: "byte list \<Rightarrow> nat option" where
  "c_strlen s = (if 0 \<in> set s then Some (length (takeWhile (\<lambda>c. c \<noteq> 0) s)) else None)"

text \<open>\<open>c_string xs\<close> is the object that holds the characters \<open>xs\<close> and their terminator.\<close>

definition c_string :: "byte list \<Rightarrow> byte list" where
  "c_string xs = xs @ [0]"

lemma takeWhile_nonzero: "0 \<notin> set xs \<Longrightarrow> takeWhile (\<lambda>c. c \<noteq> (0::byte)) (xs @ 0 # ys) = xs"
  by (induction xs) auto

lemma c_strlen_c_string [simp]: "0 \<notin> set xs \<Longrightarrow> c_strlen (c_string xs @ ys) = Some (length xs)"
  using takeWhile_nonzero [of xs ys] by (simp add: c_strlen_def c_string_def)

lemma c_strlen_c_string_nil [simp]: "0 \<notin> set xs \<Longrightarrow> c_strlen (c_string xs) = Some (length xs)"
  using c_strlen_c_string [of xs "[]"] by simp

section \<open>Copying and concatenation\<close>

text \<open>The result is the address of the new block with its contents, or \<open>NULL\<close>.\<close>

definition xi_str_dup :: "byte list \<Rightarrow> xi_memory \<Rightarrow> ((addr \<times> byte list) option \<times> xi_memory) option" where
  "xi_str_dup s m = do {
     len \<leftarrow> c_strlen s;
     let (ret, m1) = xi_alloc (len + 1) m;
     if ret = NULL then Some (None, m1) else Some (Some (ret, take (len + 1) s), m1) }"

definition xi_str_cat ::
    "byte list \<Rightarrow> byte list \<Rightarrow> xi_memory \<Rightarrow> ((addr \<times> byte list) option \<times> xi_memory) option" where
  "xi_str_cat s1 s2 m = do {
     len1 \<leftarrow> c_strlen s1;
     len2 \<leftarrow> c_strlen s2;
     let (ret, m1) = xi_alloc (len1 + len2 + 1) m;
     if ret = NULL then Some (None, m1)
     else Some (Some (ret, take len1 s1 @ take (len2 + 1) s2), m1) }"

definition xi_str_cat_three ::
    "byte list \<Rightarrow> byte list \<Rightarrow> byte list \<Rightarrow> xi_memory \<Rightarrow> ((addr \<times> byte list) option \<times> xi_memory) option"
where
  "xi_str_cat_three s1 s2 s3 m = do {
     len1 \<leftarrow> c_strlen s1;
     len2 \<leftarrow> c_strlen s2;
     len3 \<leftarrow> c_strlen s3;
     let (ret, m1) = xi_alloc (len1 + len2 + len3 + 1) m;
     if ret = NULL then Some (None, m1)
     else Some (Some (ret, take len1 s1 @ take len2 s2 @ take (len3 + 1) s3), m1) }"

text \<open>
  The copy loop: \<open>dst\<close> and \<open>src\<close> are the objects from the current pointers on, the result is
  the number of characters copied and the destination object, and every read and write is
  checked against the object it falls into.
\<close>

fun xi_str_copy_untiln_loop ::
    "byte list \<Rightarrow> nat \<Rightarrow> byte list \<Rightarrow> byte \<Rightarrow> nat \<Rightarrow> (nat \<times> byte list) option" where
  "xi_str_copy_untiln_loop dst real_size [] delim counter = None"
| "xi_str_copy_untiln_loop dst real_size (c # src) delim counter =
     (if c \<noteq> delim \<and> counter < real_size \<and> c \<noteq> 0
      then (case dst of [] \<Rightarrow> None
            | _ # dst' \<Rightarrow> map_option (\<lambda>(n, d). (n, c # d))
                (xi_str_copy_untiln_loop dst' real_size src delim (counter + 1)))
      else (case dst of [] \<Rightarrow> None | _ # dst' \<Rightarrow> Some (counter, 0 # dst')))"

definition xi_str_copy_untiln ::
    "byte list \<Rightarrow> nat \<Rightarrow> byte list \<Rightarrow> byte \<Rightarrow> (nat \<times> byte list) option" where
  "xi_str_copy_untiln dst dst_size src delim = do {
     xi_assert (dst_size > 1);
     xi_str_copy_untiln_loop dst (dst_size - 1) src delim 0 }"

text \<open>The result is the object from the repositioned pointer on.\<close>

fun xi_str_reposition_after_first_n_char :: "byte \<Rightarrow> nat \<Rightarrow> byte list \<Rightarrow> byte list option" where
  "xi_str_reposition_after_first_n_char ch num [] = None"
| "xi_str_reposition_after_first_n_char ch num (c # s) =
     (if c \<noteq> 0 \<and> 0 < num
      then xi_str_reposition_after_first_n_char ch (if ch = c then num - 1 else num) s
      else Some (c # s))"

text \<open>The result is the buffer and the index the returned pointer has in it.\<close>

fun xi_replace_with :: "byte \<Rightarrow> byte \<Rightarrow> byte list \<Rightarrow> nat \<Rightarrow> (nat \<times> byte list) option" where
  "xi_replace_with p r [] max_chars = None"
| "xi_replace_with p r (c # buffer) max_chars =
     (if c \<noteq> 0 \<and> max_chars \<noteq> 0
      then map_option (\<lambda>(n, b). (n + 1, (if c = p then r else c) # b))
             (xi_replace_with p r buffer (max_chars - 1))
      else Some (0, c # buffer))"

section \<open>The highest bit\<close>

definition xi_highest_bit_filter :: "32 word \<Rightarrow> 32 word" where
  "xi_highest_bit_filter value0 =
     (let value1 = value0 OR drop_bit 1 value0;
          value2 = value1 OR drop_bit 2 value1;
          value3 = value2 OR drop_bit 4 value2;
          value4 = value3 OR drop_bit 8 value3;
          value5 = value4 OR drop_bit 16 value4
      in value5 AND NOT (drop_bit 1 value5))"

text \<open>Each step doubles the width of the window a result bit is the disjunction of.\<close>

lemma smear_step:
  fixes w v :: "32 word"
  assumes "\<And>i. bit w i \<longleftrightarrow> (\<exists>d < k. bit v (i + d))"
  shows "bit (w OR drop_bit k w) i \<longleftrightarrow> (\<exists>d < 2 * k. bit v (i + d))"
proof -
  have "(\<exists>d < 2 * k. bit v (i + d)) \<longleftrightarrow> (\<exists>d < k. bit v (i + d)) \<or> (\<exists>d < k. bit v (i + k + d))"
  proof
    assume "\<exists>d < 2 * k. bit v (i + d)"
    then obtain d where d: "d < 2 * k" "bit v (i + d)" by blast
    show "(\<exists>d < k. bit v (i + d)) \<or> (\<exists>d < k. bit v (i + k + d))"
    proof (cases "d < k")
      case False
      then have "d - k < k" "i + k + (d - k) = i + d" using d(1) by auto
      then show ?thesis using d(2) by metis
    qed (use d in blast)
  next
    assume "(\<exists>d < k. bit v (i + d)) \<or> (\<exists>d < k. bit v (i + k + d))"
    then obtain d where "d < k" "bit v (i + d) \<or> bit v (i + k + d)" by blast
    then show "\<exists>d < 2 * k. bit v (i + d)"
      by (elim disjE) (intro exI [of _ d], simp, intro exI [of _ "k + d"], simp add: add.assoc)
  qed
  then show ?thesis using assms by (simp add: bit_or_iff bit_drop_bit_eq add.commute add.left_commute)
qed

lemma highest_bit_smeared:
  fixes v :: "32 word"
  shows "bit (xi_highest_bit_filter v) i \<longleftrightarrow> bit v i \<and> (\<forall>j. i < j \<longrightarrow> \<not> bit v j)"
proof -
  let ?v1 = "v OR drop_bit 1 v"
  let ?v2 = "?v1 OR drop_bit 2 ?v1"
  let ?v3 = "?v2 OR drop_bit 4 ?v2"
  let ?v4 = "?v3 OR drop_bit 8 ?v3"
  let ?v5 = "?v4 OR drop_bit 16 ?v4"
  have "bit v i \<longleftrightarrow> (\<exists>d < 1. bit v (i + d))" for i by simp
  then have "bit ?v1 i \<longleftrightarrow> (\<exists>d < 2. bit v (i + d))" for i using smear_step [of v 1 v i] by simp
  then have "bit ?v2 i \<longleftrightarrow> (\<exists>d < 4. bit v (i + d))" for i using smear_step [of ?v1 2 v i] by simp
  then have "bit ?v3 i \<longleftrightarrow> (\<exists>d < 8. bit v (i + d))" for i using smear_step [of ?v2 4 v i] by simp
  then have "bit ?v4 i \<longleftrightarrow> (\<exists>d < 16. bit v (i + d))" for i using smear_step [of ?v3 8 v i] by simp
  then have v5: "bit ?v5 i \<longleftrightarrow> (\<exists>d < 32. bit v (i + d))" for i using smear_step [of ?v4 16 v i] by simp
  have all: "(\<exists>d < 32. bit v (i + d)) \<longleftrightarrow> (\<exists>j. i \<le> j \<and> bit v j)" for i
  proof
    assume "\<exists>j. i \<le> j \<and> bit v j"
    then obtain j where j: "i \<le> j" "bit v j" by blast
    then have "j < 32" using bit_imp_le_length [OF j(2)] by simp
    then show "\<exists>d < 32. bit v (i + d)" using j by (intro exI [of _ "j - i"]) simp
  qed (metis le_add1)
  have "xi_highest_bit_filter v = (?v5 AND NOT (drop_bit 1 ?v5))"
    unfolding xi_highest_bit_filter_def Let_def ..
  moreover have "bit (w AND NOT (drop_bit 1 w)) i \<longleftrightarrow> i < 32 \<and> bit w i \<and> \<not> bit w (Suc i)" for w :: "32 word"
    by (auto simp: bit_and_iff bit_not_iff bit_drop_bit_eq dest: bit_imp_le_length)
  ultimately have "bit (xi_highest_bit_filter v) i \<longleftrightarrow> i < 32 \<and> bit ?v5 i \<and> \<not> bit ?v5 (Suc i)"
    by (simp only:)
  also have "\<dots> \<longleftrightarrow> i < 32 \<and> (\<exists>j \<ge> i. bit v j) \<and> \<not> (\<exists>j \<ge> Suc i. bit v j)"
    unfolding v5 all by blast
  also have "\<dots> \<longleftrightarrow> bit v i \<and> (\<forall>j. i < j \<longrightarrow> \<not> bit v j)"
    using bit_imp_le_length [of v i]
    by (auto simp: Suc_le_eq) (metis le_eq_less_or_eq)+
  finally show ?thesis .
qed

lemma unat_two_power: "n < LENGTH('a) \<Longrightarrow> unat (2 ^ n :: 'a::len word) = 2 ^ n"
  by (rule of_nat_inverse) (simp_all add: power_strict_increasing)

lemma xi_highest_bit_filter_zero [simp]: "xi_highest_bit_filter 0 = 0"
  by (simp add: xi_highest_bit_filter_def Let_def)

lemma xi_highest_bit_filter_power:
  fixes v :: "32 word"
  assumes "v \<noteq> 0"
  obtains n where "n < 32" "xi_highest_bit_filter v = 2 ^ n" "2 ^ n \<le> unat v" "unat v < 2 ^ Suc n"
proof -
  have fin: "finite {j. bit v j}"
    using bit_imp_le_length [of v] by (intro finite_subset [of "{j. bit v j}" "{..<32}"]) auto
  have ne: "{j. bit v j} \<noteq> {}" using assms by (auto simp: bit_eq_iff)
  define n where "n = Max {j. bit v j}"
  have n: "bit v n" "\<And>j. bit v j \<Longrightarrow> j \<le> n"
    using Max_in [OF fin ne] Max_ge [OF fin] by (auto simp: n_def)
  then have n32: "n < 32" using bit_imp_le_length [of v n] by simp
  have "xi_highest_bit_filter v = 2 ^ n"
  proof (rule bit_word_eqI)
    fix i
    assume "i < LENGTH(32)"
    then show "bit (xi_highest_bit_filter v) i = bit (2 ^ n :: 32 word) i"
      using n(1) n(2) [of i] le_neq_implies_less [of i n] highest_bit_smeared [of v i]
      by (cases "i = n") (auto simp: bit_exp_iff dest: n(2))
  qed
  moreover have "2 ^ n \<le> unat v"
  proof (rule ccontr)
    assume "\<not> 2 ^ n \<le> unat v"
    then have "unat v div 2 ^ n = 0" by simp
    moreover have "bit (unat v) n" using n(1) by (simp add: bit_unsigned_iff n32)
    ultimately show False by (simp add: bit_iff_odd)
  qed
  moreover have "v = take_bit (Suc n) v"
    by (rule bit_word_eqI) (use n(2) in \<open>auto simp: bit_take_bit_iff less_Suc_eq_le\<close>)
  then have "unat v = take_bit (Suc n) (unat v)" by (metis unsigned_take_bit_eq)
  then have "unat v < 2 ^ Suc n" by (metis take_bit_nat_less_exp)
  ultimately show thesis using that n32 by blast
qed

section \<open>What the string helpers compute\<close>

lemma take_c_string [simp]: "take (Suc (length xs)) (c_string xs @ ys) = c_string xs"
  by (simp add: c_string_def)

lemma copy_loop_spec:
  assumes "0 \<notin> set xs" "Suc real_size \<le> counter + length dst" "counter \<le> real_size"
  shows "\<exists>n rest. xi_str_copy_untiln_loop dst real_size (c_string xs @ ys) delim counter
    = Some (counter + n, take n xs @ 0 # rest)
    \<and> n = min (length (takeWhile (\<lambda>c. c \<noteq> delim) xs)) (real_size - counter)
    \<and> length (take n xs @ 0 # rest) = length dst"
  using assms
proof (induction xs arbitrary: dst counter)
  case Nil
  then obtain d dst' where "dst = d # dst'" by (cases dst) auto
  then show ?case by (auto simp: c_string_def)
next
  case (Cons x xs)
  then obtain d dst' where d: "dst = d # dst'" by (cases dst) auto
  show ?case
  proof (cases "x \<noteq> delim \<and> counter < real_size")
    case True
    then obtain n rest where
      "xi_str_copy_untiln_loop dst' real_size (c_string xs @ ys) delim (Suc counter)
        = Some (Suc counter + n, take n xs @ 0 # rest)"
      "n = min (length (takeWhile (\<lambda>c. c \<noteq> delim) xs)) (real_size - Suc counter)"
      "length (take n xs @ 0 # rest) = length dst'"
      using Cons.IH [of "Suc counter" dst'] Cons.prems d by auto
    then show ?thesis
      using True d Cons.prems
      by (intro exI [of _ "Suc n"] exI [of _ rest]) (auto simp: c_string_def)
  next
    case False
    then show ?thesis using d Cons.prems
      by (intro exI [of _ 0] exI [of _ dst']) (auto simp: c_string_def)
  qed
qed

text \<open>The first \<open>n\<close> characters with \<open>p\<close> replaced by \<open>r\<close>.\<close>

lemma replace_with_spec:
  "0 \<notin> set xs \<Longrightarrow> xi_replace_with p r (c_string xs @ ys) n
     = Some (min n (length xs), map (\<lambda>c. if c = p then r else c) (take n xs) @ drop (min n (length xs)) (c_string xs @ ys))"
  by (induction xs arbitrary: n) (auto simp: c_string_def take_Cons' drop_Cons' min_def)

section \<open>Properties\<close>

text \<open>
  The bit filter returns the highest power of two that is not above its argument (and 0
  for 0).
\<close>

lemma highest_bit_filter_correct:
  "xi_highest_bit_filter 0 = 0 \<and>
   (v \<noteq> 0 \<longrightarrow> (\<exists>n < 32. xi_highest_bit_filter v = 2 ^ n \<and> 2 ^ n \<le> unat v \<and> unat v < 2 ^ Suc n))"
  using xi_highest_bit_filter_power [of v] by (metis xi_highest_bit_filter_zero)

text \<open>
  The bounded copy copies the part of the source before the delimiter, as far as it fits,
  terminates it, returns the number of characters copied and writes no byte outside the
  destination.
\<close>

lemma str_copy_untiln_correct:
  assumes "0 \<notin> set xs" "1 < dst_size" "dst_size \<le> length dst"
  shows "\<exists>rest. xi_str_copy_untiln dst dst_size (c_string xs @ ys) delim
      = Some (min (length (takeWhile (\<lambda>c. c \<noteq> delim) xs)) (dst_size - 1),
          take (dst_size - 1) (takeWhile (\<lambda>c. c \<noteq> delim) xs) @ 0 # rest)
    \<and> length (take (dst_size - 1) (takeWhile (\<lambda>c. c \<noteq> delim) xs) @ 0 # rest) = length dst"
proof -
  obtain n rest where r: "xi_str_copy_untiln_loop dst (dst_size - 1) (c_string xs @ ys) delim 0
      = Some (n, take n xs @ 0 # rest)"
    "n = min (length (takeWhile (\<lambda>c. c \<noteq> delim) xs)) (dst_size - 1)"
    "length (take n xs @ 0 # rest) = length dst"
    using copy_loop_spec [where xs = xs and counter = 0 and dst = dst and ys = ys and delim = delim
        and real_size = "dst_size - 1"] assms by auto
  have t: "take n xs = take (dst_size - 1) (takeWhile (\<lambda>c. c \<noteq> delim) xs)"
    unfolding r(2) using arg_cong [OF takeWhile_eq_take [of "\<lambda>c. c \<noteq> delim" xs], of "take (dst_size - 1)"]
    by (simp add: min.commute)
  have "xi_str_copy_untiln dst dst_size (c_string xs @ ys) delim = Some (n, take n xs @ 0 # rest)"
    using r(1) assms(2) by (simp add: xi_str_copy_untiln_def)
  then show ?thesis using r(3) unfolding t unfolding r(2) by blast
qed

end
