(* ===== verification/Xi_Data_Desc.thy ===== *)
theory Xi_Data_Desc
  imports Xi_Helpers Xi_Vector
begin

text \<open>
  \<open>src/libxively/xi_data_desc.c\<close>: the byte buffers every layer reads and writes. A descriptor
  is the record of its fields with the contents of the block \<open>data_ptr\<close> points to
  (\<open>data_bytes\<close>); the three counters are \<open>uint32_t\<close> and stay 32-bit words, lengths passed
  as \<open>size_t\<close> are naturals below \<open>2 ^ 64\<close>, and the sums the code forms are taken modulo
  \<open>2 ^ 64\<close> or truncated to 32 bits where the code does. The link field \<open>__next\<close> is not
  used by the operations of this file.
\<close>

record xi_data_desc =
  desc_block :: addr
  data_ptr :: addr
  data_bytes :: "byte list"
  desc_capacity :: "32 word"
  desc_length :: "32 word"
  curr_pos :: "32 word"
  desc_memory_type :: xi_memory_type

definition sizeof_xi_data_desc :: nat where "sizeof_xi_data_desc = 40"

text \<open>\<open>memset( desc, 0, sizeof( xi_data_desc_t ) )\<close>.\<close>

definition zero_desc :: "addr \<Rightarrow> xi_data_desc" where
  "zero_desc p = \<lparr>desc_block = p, data_ptr = NULL, data_bytes = [], desc_capacity = 0,
     desc_length = 0, curr_pos = 0, desc_memory_type = XI_MEMORY_TYPE_UNKNOWN\<rparr>"

section \<open>Creation and disposal\<close>

definition xi_free_desc :: "xi_data_desc option \<Rightarrow> xi_memory \<Rightarrow> xi_memory option" where
  "xi_free_desc desc m = (case desc of
     None \<Rightarrow> Some m
   | Some d \<Rightarrow> do {
       xi_assert (desc_memory_type d \<noteq> XI_MEMORY_TYPE_UNKNOWN);
       let m1 = (if desc_memory_type d = XI_MEMORY_TYPE_MANAGED then xi_free (data_ptr d) m else m);
       Some (xi_free (desc_block d) m1) })"

definition xi_make_empty_desc_alloc ::
    "nat \<Rightarrow> xi_memory \<Rightarrow> (xi_data_desc option \<times> xi_memory) option" where
  "xi_make_empty_desc_alloc cap m = do {
     xi_assert (cap > 0);
     let (data_desc, m1) = xi_alloc sizeof_xi_data_desc m;
     if data_desc = NULL then do { m2 \<leftarrow> xi_free_desc None m1; Some (None, m2) }
     else do {
       let (p, m2) = xi_alloc cap m1;
       if p = NULL then do { m3 \<leftarrow> xi_free_desc (Some (zero_desc data_desc)) m2; Some (None, m3) }
       else Some (Some ((zero_desc data_desc)\<lparr>data_ptr := p, data_bytes := replicate cap 0,
              desc_length := 0, desc_capacity := of_nat cap,
              desc_memory_type := XI_MEMORY_TYPE_MANAGED\<rparr>), m2) } }"

definition xi_make_desc_from_buffer_copy ::
    "byte list \<Rightarrow> nat \<Rightarrow> xi_memory \<Rightarrow> (xi_data_desc option \<times> xi_memory) option" where
  "xi_make_desc_from_buffer_copy buffer len m = do {
     let (data_desc, m1) = xi_alloc sizeof_xi_data_desc m;
     if data_desc = NULL then do { m2 \<leftarrow> xi_free_desc None m1; Some (None, m2) }
     else do {
       let (p, m2) = xi_alloc len m1;
       if p = NULL then do { m3 \<leftarrow> xi_free_desc (Some (zero_desc data_desc)) m2; Some (None, m3) }
       else do {
         xi_assert (len \<le> length buffer);
         Some (Some ((zero_desc data_desc)\<lparr>data_ptr := p, data_bytes := take len buffer,
              desc_capacity := of_nat len, desc_length := of_nat len,
              desc_memory_type := XI_MEMORY_TYPE_MANAGED\<rparr>), m2) } } }"

text \<open>The shared variants take the address of the caller's buffer and its contents.\<close>

definition xi_make_desc_from_buffer_share ::
    "addr \<Rightarrow> byte list \<Rightarrow> nat \<Rightarrow> xi_memory \<Rightarrow> (xi_data_desc option \<times> xi_memory) option" where
  "xi_make_desc_from_buffer_share buffer contents len m = do {
     xi_assert (buffer \<noteq> NULL);
     let (data_desc, m1) = xi_alloc sizeof_xi_data_desc m;
     if data_desc = NULL then do { m2 \<leftarrow> xi_free_desc None m1; Some (None, m2) }
     else Some (Some ((zero_desc data_desc)\<lparr>desc_capacity := of_nat len, desc_length := of_nat len,
            data_ptr := buffer, data_bytes := contents,
            desc_memory_type := XI_MEMORY_TYPE_UNMANAGED\<rparr>), m1) }"

definition xi_make_desc_from_string_copy ::
    "byte list option \<Rightarrow> xi_memory \<Rightarrow> (xi_data_desc option \<times> xi_memory) option" where
  "xi_make_desc_from_string_copy str m = (case str of
     None \<Rightarrow> Some (None, m)
   | Some s \<Rightarrow> do {
       len \<leftarrow> c_strlen s;
       let (data_desc, m1) = xi_alloc sizeof_xi_data_desc m;
       if data_desc = NULL then do { m2 \<leftarrow> xi_free_desc None m1; Some (None, m2) }
       else do {
         let (p, m2) = xi_alloc len m1;
         if p = NULL then do { m3 \<leftarrow> xi_free_desc (Some (zero_desc data_desc)) m2; Some (None, m3) }
         else Some (Some ((zero_desc data_desc)\<lparr>data_ptr := p, data_bytes := take len s,
                desc_capacity := of_nat len, desc_length := of_nat len,
                desc_memory_type := XI_MEMORY_TYPE_MANAGED\<rparr>), m2) } })"

definition xi_make_desc_from_string_share ::
    "addr \<Rightarrow> byte list \<Rightarrow> xi_memory \<Rightarrow> (xi_data_desc option \<times> xi_memory) option" where
  "xi_make_desc_from_string_share str s m =
     (if str = NULL then Some (None, m)
      else do {
        len \<leftarrow> c_strlen s;
        let (data_desc, m1) = xi_alloc sizeof_xi_data_desc m;
        if data_desc = NULL then do { m2 \<leftarrow> xi_free_desc None m1; Some (None, m2) }
        else Some (Some ((zero_desc data_desc)\<lparr>data_ptr := str, data_bytes := s,
               desc_capacity := of_nat len, desc_length := of_nat len,
               desc_memory_type := XI_MEMORY_TYPE_UNMANAGED\<rparr>), m1) })"

text \<open>\<open>acc\<close>: the four bytes of the representation of the \<open>float\<close>.\<close>

definition xi_make_desc_from_float_copy ::
    "byte list \<Rightarrow> xi_memory \<Rightarrow> (xi_data_desc option \<times> xi_memory) option" where
  "xi_make_desc_from_float_copy acc m = do {
     xi_assert (length acc = 4);
     let (data_desc, m1) = xi_alloc sizeof_xi_data_desc m;
     if data_desc = NULL then do { m2 \<leftarrow> xi_free_desc None m1; Some (None, m2) }
     else do {
       let (p, m2) = xi_alloc 4 m1;
       if p = NULL then do { m3 \<leftarrow> xi_free_desc (Some (zero_desc data_desc)) m2; Some (None, m3) }
       else Some (Some ((zero_desc data_desc)\<lparr>data_ptr := p, data_bytes := map (\<lambda>i. acc ! i) [0..<4],
              desc_capacity := 4, desc_length := 4,
              desc_memory_type := XI_MEMORY_TYPE_MANAGED\<rparr>), m2) } }"

section \<open>Growth and appending\<close>

text \<open>\<open>desc->length + len\<close> is computed in \<open>size_t\<close>.\<close>

definition xi_data_desc_will_it_fit :: "xi_data_desc \<Rightarrow> nat \<Rightarrow> bool" where
  "xi_data_desc_will_it_fit desc len =
     (\<not> unat (desc_capacity desc) < (unat (desc_length desc) + len) mod 2 ^ 64)"

definition xi_data_desc_find_pow2_capacity :: "32 word \<Rightarrow> 32 word \<Rightarrow> 32 word" where
  "xi_data_desc_find_pow2_capacity original desire =
     (if desire \<le> original then original
      else (let tmp = xi_highest_bit_filter desire
            in if tmp < desire then push_bit 1 tmp else tmp))"

definition xi_data_desc_pow2_realloc_strategy :: "32 word \<Rightarrow> 32 word \<Rightarrow> 32 word" where
  "xi_data_desc_pow2_realloc_strategy original desired =
     xi_data_desc_find_pow2_capacity original desired"

text \<open>
  The copy of the old contents reads and writes \<open>desc->capacity\<close> bytes: both blocks have to
  hold them. \<open>strategy = None\<close> is the \<open>NULL\<close> function pointer.
\<close>

definition xi_data_desc_realloc ::
    "xi_data_desc \<Rightarrow> 32 word \<Rightarrow> (32 word \<Rightarrow> 32 word \<Rightarrow> 32 word) option \<Rightarrow> xi_memory
       \<Rightarrow> (xi_state \<times> xi_data_desc \<times> xi_memory) option" where
  "xi_data_desc_realloc desc new_capacity strategy m = do {
     xi_assert (desc_memory_type desc \<noteq> XI_MEMORY_TYPE_UNKNOWN);
     (case strategy of
        None \<Rightarrow> Some (XI_INVALID_PARAMETER, desc, m)
      | Some f \<Rightarrow> do {
          let calculated_capacity = f (desc_capacity desc) new_capacity;
          let (new_buf, m1) = xi_alloc (unat calculated_capacity) m;
          if new_buf = NULL then Some (XI_OUT_OF_MEMORY, desc, m1)
          else do {
            let n = unat (desc_capacity desc);
            xi_assert (n \<le> length (data_bytes desc) \<and> n \<le> unat calculated_capacity);
            let m2 = (if desc_memory_type desc = XI_MEMORY_TYPE_MANAGED
                      then xi_free (data_ptr desc) m1 else m1);
            Some (XI_STATE_OK, desc\<lparr>data_ptr := new_buf,
              data_bytes := take n (data_bytes desc) @ replicate (unat calculated_capacity - n) 0,
              desc_capacity := calculated_capacity,
              desc_memory_type := XI_MEMORY_TYPE_MANAGED\<rparr>, m2) } }) }"

definition xi_data_desc_assure_buf_len ::
    "xi_data_desc \<Rightarrow> nat \<Rightarrow> xi_memory \<Rightarrow> (xi_state \<times> xi_data_desc \<times> xi_memory) option" where
  "xi_data_desc_assure_buf_len out len m =
     (if \<not> xi_data_desc_will_it_fit out len
      then xi_data_desc_realloc out (of_nat (unat (desc_length out) + len))
             (Some xi_data_desc_pow2_realloc_strategy) m
      else Some (XI_STATE_OK, out, m))"

text \<open>\<open>memcpy( out->data_ptr + out->length, data, len )\<close> and \<open>out->length += len\<close>.\<close>

definition append_memcpy :: "xi_data_desc \<Rightarrow> byte list \<Rightarrow> nat \<Rightarrow> xi_data_desc option" where
  "append_memcpy out src len = do {
     let n = unat (desc_length out);
     xi_assert (len \<le> length src \<and> n + len \<le> length (data_bytes out));
     Some (out\<lparr>data_bytes := take n (data_bytes out) @ take len src @ drop (n + len) (data_bytes out),
               desc_length := desc_length out + of_nat len\<rparr>) }"

text \<open>A \<open>None\<close> argument is a \<open>NULL\<close> pointer.\<close>

definition xi_data_desc_append_data_resize ::
    "xi_data_desc option \<Rightarrow> byte list option \<Rightarrow> nat \<Rightarrow> xi_memory
       \<Rightarrow> (xi_state \<times> xi_data_desc option \<times> xi_memory) option" where
  "xi_data_desc_append_data_resize out data len m =
     (if out = None \<or> data = None then Some (XI_INVALID_PARAMETER, out, m)
      else do {
        (ret_state, out1, m1) \<leftarrow> xi_data_desc_assure_buf_len (the out) len m;
        if ret_state \<noteq> XI_STATE_OK then Some (ret_state, Some out1, m1)
        else do {
          out2 \<leftarrow> append_memcpy out1 (the data) len;
          Some (ret_state, Some out2, m1) } })"

definition xi_data_desc_append_bytes ::
    "xi_data_desc option \<Rightarrow> byte list option \<Rightarrow> nat \<Rightarrow> (xi_state \<times> xi_data_desc option) option" where
  "xi_data_desc_append_bytes out bytes len =
     (if out = None \<or> bytes = None then Some (XI_INVALID_PARAMETER, out)
      else if xi_data_desc_will_it_fit (the out) len
      then do { out1 \<leftarrow> append_memcpy (the out) (the bytes) len; Some (XI_STATE_OK, Some out1) }
      else Some (XI_BUFFER_OVERFLOW, out))"

definition xi_data_desc_append_byte ::
    "xi_data_desc option \<Rightarrow> byte \<Rightarrow> (xi_state \<times> xi_data_desc option) option" where
  "xi_data_desc_append_byte out byte =
     (if out = None then Some (XI_INVALID_PARAMETER, out)
      else if xi_data_desc_will_it_fit (the out) 1
      then do {
        bs \<leftarrow> arr_set (data_bytes (the out)) (int (unat (desc_length (the out)))) byte;
        Some (XI_STATE_OK, Some ((the out)\<lparr>data_bytes := bs, desc_length := desc_length (the out) + 1\<rparr>)) }
      else Some (XI_BUFFER_OVERFLOW, out))"

definition xi_data_desc_append_data ::
    "xi_data_desc option \<Rightarrow> xi_data_desc option \<Rightarrow> (xi_state \<times> xi_data_desc option) option" where
  "xi_data_desc_append_data out src =
     (if out = None \<or> src = None then Some (XI_INVALID_PARAMETER, out)
      else xi_data_desc_append_bytes out (Some (data_bytes (the src))) (unat (desc_length (the src))))"

section \<open>Well-formed descriptors\<close>

definition desc_ok :: "xi_data_desc \<Rightarrow> bool" where
  "desc_ok d \<longleftrightarrow> desc_length d \<le> desc_capacity d \<and> unat (desc_capacity d) \<le> length (data_bytes d)
     \<and> desc_memory_type d \<noteq> XI_MEMORY_TYPE_UNKNOWN"

definition contents :: "xi_data_desc \<Rightarrow> byte list" where
  "contents d = take (unat (desc_length d)) (data_bytes d)"

lemma length_contents: "desc_ok d \<Longrightarrow> length (contents d) = unat (desc_length d)"
  unfolding contents_def desc_ok_def by (simp add: word_le_nat_alt)

text \<open>The growth strategy reaches the desired capacity exactly as long as it is at most \<open>2 ^ 31\<close>.\<close>

lemma pow2_capacity_spec:
  assumes "unat desire \<le> 2 ^ 31"
  shows "desire \<le> xi_data_desc_pow2_realloc_strategy original desire"
    "original \<le> xi_data_desc_pow2_realloc_strategy original desire"
proof -
  have "desire \<le> xi_data_desc_pow2_realloc_strategy original desire \<and>
        original \<le> xi_data_desc_pow2_realloc_strategy original desire"
  proof (cases "desire \<le> original")
    case False
    then have "desire \<noteq> 0" by auto
    then obtain n where n: "n < 32" "xi_highest_bit_filter desire = 2 ^ n" "2 ^ n \<le> unat desire"
        "unat desire < 2 ^ Suc n"
      by (rule xi_highest_bit_filter_power)
    have u: "unat (2 ^ n :: 32 word) = 2 ^ n" using n(1) by (intro unat_two_power) simp
    show ?thesis
    proof (cases "(2 ^ n :: 32 word) < desire")
      case True
      then have "2 ^ n < unat desire" using u by (simp add: word_less_nat_alt)
      then have "(2::nat) ^ n < 2 ^ 31" using assms by simp
      then have "n < 31" by (rule power_less_imp_less_exp [rotated]) simp
      then have "unat (2 ^ Suc n :: 32 word) = 2 ^ Suc n" by (intro unat_two_power) simp
      then have "desire \<le> 2 ^ Suc n" using n(4) by (simp add: word_le_nat_alt del: power_Suc)
      moreover have "push_bit 1 (2 ^ n :: 32 word) = 2 ^ Suc n" by (simp add: push_bit_eq_mult)
      ultimately show ?thesis
        using False True n(2) order_trans [of original desire "2 ^ Suc n"]
        by (simp add: mult.commute xi_data_desc_pow2_realloc_strategy_def xi_data_desc_find_pow2_capacity_def)
    next
      case le: False
      then have "desire \<le> 2 ^ n" "original \<le> 2 ^ n" using False by simp_all
      then show ?thesis
        using le False n(2)
        by (simp add: xi_data_desc_pow2_realloc_strategy_def xi_data_desc_find_pow2_capacity_def)
    qed
  qed (simp add: xi_data_desc_pow2_realloc_strategy_def xi_data_desc_find_pow2_capacity_def)
  then show "desire \<le> xi_data_desc_pow2_realloc_strategy original desire"
    "original \<le> xi_data_desc_pow2_realloc_strategy original desire" by simp_all
qed

text \<open>Above \<open>2 ^ 31\<close> the doubling overflows and the strategy asks for an empty buffer.\<close>

lemma pow2_capacity_overflow:
  assumes "original < desire" "2 ^ 31 < unat desire"
  shows "xi_data_desc_pow2_realloc_strategy original desire = 0"
proof -
  have "desire \<noteq> 0" using assms(1) by auto
  then obtain n where n: "n < 32" "xi_highest_bit_filter desire = 2 ^ n" "2 ^ n \<le> unat desire"
      "unat desire < 2 ^ Suc n"
    by (rule xi_highest_bit_filter_power)
  have "(2::nat) ^ 31 < 2 ^ Suc n" using assms(2) n(4) by linarith
  then have "31 < Suc n" by (rule power_less_imp_less_exp [rotated]) simp
  then have n31: "n = 31" using n(1) by simp
  then have "xi_highest_bit_filter desire < desire"
    using assms(2) n(2) by (simp add: word_less_nat_alt)
  moreover have "push_bit 1 (2 ^ 31 :: 32 word) = 0" by (simp add: push_bit_eq_mult)
  ultimately show ?thesis
    using assms(1) n(2) n31 leD [of desire original]
    by (auto simp: xi_data_desc_pow2_realloc_strategy_def xi_data_desc_find_pow2_capacity_def)
qed

section \<open>What appending does\<close>

lemma append_memcpy_spec:
  assumes d: "desc_ok d" and len: "len \<le> length src" "unat (desc_length d) + len \<le> unat (desc_capacity d)"
  obtains e where "append_memcpy d src len = Some e" "desc_ok e" "contents e = contents d @ take len src"
    "data_ptr e = data_ptr d" "desc_block e = desc_block d" "desc_capacity e = desc_capacity d"
    "desc_memory_type e = desc_memory_type d" "unat (desc_length e) = unat (desc_length d) + len"
proof -
  let ?n = "unat (desc_length d)"
  let ?e = "d\<lparr>data_bytes := take ?n (data_bytes d) @ take len src @ drop (?n + len) (data_bytes d),
      desc_length := desc_length d + of_nat len\<rparr>"
  have b: "?n + len \<le> length (data_bytes d)" "?n + len < 2 ^ 32"
    using d len unsigned_less [of "desc_capacity d", where 'a = nat] by (simp_all add: desc_ok_def)
  have l: "unat (desc_length d + of_nat len) = ?n + len"
    by (rule of_nat_inverse) (use b(2) in simp_all)
  have "append_memcpy d src len = Some ?e" using len b by (simp add: append_memcpy_def Let_def)
  moreover have "desc_ok ?e"
    using d len b l by (simp add: desc_ok_def word_le_nat_alt)
  moreover have "contents ?e = contents d @ take len src"
    using b len l by (simp add: contents_def)
  ultimately show thesis using that [of ?e] l by simp
qed

lemma will_it_fit_iff:
  assumes "unat (desc_length d) + len < 2 ^ 64"
  shows "xi_data_desc_will_it_fit d len \<longleftrightarrow> unat (desc_length d) + len \<le> unat (desc_capacity d)"
  using assms by (simp add: xi_data_desc_will_it_fit_def not_less)

lemma realloc_pow2_spec:
  assumes d: "desc_ok d" and n: "unat n \<le> 2 ^ 31" and m: "mem_ok m"
  obtains (fail) m' where
      "xi_data_desc_realloc d n (Some xi_data_desc_pow2_realloc_strategy) m = Some (XI_OUT_OF_MEMORY, d, m')"
      "live_blocks m' = live_blocks m" "mem_ok m'"
  | (success) e m' where
      "xi_data_desc_realloc d n (Some xi_data_desc_pow2_realloc_strategy) m = Some (XI_STATE_OK, e, m')"
      "desc_ok e" "contents e = contents d" "n \<le> desc_capacity e" "desc_length e = desc_length d"
      "desc_block e = desc_block d" "mem_ok m'" "desc_memory_type e = XI_MEMORY_TYPE_MANAGED"
      "live_blocks m' = insert (data_ptr e) (live_blocks m)
         - (if desc_memory_type d = XI_MEMORY_TYPE_MANAGED \<and> data_ptr d \<noteq> NULL then {data_ptr d} else {})"
      "data_ptr e \<notin> live_blocks m"
proof -
  let ?c = "xi_data_desc_pow2_realloc_strategy (desc_capacity d) n"
  note c = pow2_capacity_spec [OF n, of "desc_capacity d"]
  have u: "desc_memory_type d \<noteq> XI_MEMORY_TYPE_UNKNOWN" and cap: "unat (desc_capacity d) \<le> length (data_bytes d)"
    and len: "desc_length d \<le> desc_capacity d"
    using d by (simp_all add: desc_ok_def)
  obtain p m1 where a: "xi_alloc (unat ?c) m = (p, m1)" by fastforce
  show thesis
  proof (cases "p = NULL")
    case True
    then have "xi_data_desc_realloc d n (Some xi_data_desc_pow2_realloc_strategy) m = Some (XI_OUT_OF_MEMORY, d, m1)"
      using a u by (simp add: xi_data_desc_realloc_def)
    then show thesis
      using fail [of m1] True xi_alloc_live [OF m a] xi_alloc_mem_ok [OF a m] by simp
  next
    case False
    let ?k = "unat (desc_capacity d)"
    let ?m2 = "if desc_memory_type d = XI_MEMORY_TYPE_MANAGED then xi_free (data_ptr d) m1 else m1"
    let ?e = "d\<lparr>data_ptr := p, data_bytes := take ?k (data_bytes d) @ replicate (unat ?c - ?k) 0,
              desc_capacity := ?c, desc_memory_type := XI_MEMORY_TYPE_MANAGED\<rparr>"
    have k: "?k \<le> unat ?c" using c(2) by (simp add: word_le_nat_alt)
    have "xi_data_desc_realloc d n (Some xi_data_desc_pow2_realloc_strategy) m = Some (XI_STATE_OK, ?e, ?m2)"
      using a u False cap k by (simp add: xi_data_desc_realloc_def Let_def)
    moreover have "desc_ok ?e"
      using cap k c len by (simp add: desc_ok_def min_absorb2 order_trans [OF len])
    moreover have "contents ?e = contents d"
      using len cap by (simp add: contents_def word_le_nat_alt)
    moreover have "live_blocks ?m2 = insert p (live_blocks m)
         - (if desc_memory_type d = XI_MEMORY_TYPE_MANAGED \<and> data_ptr d \<noteq> NULL then {data_ptr d} else {})"
      using xi_alloc_live [OF m a] False by auto
    moreover have "mem_ok ?m2" using xi_alloc_mem_ok [OF a m] by simp
    moreover have "p \<notin> live_blocks m" using a m False by (auto elim: xi_alloc_cases simp: mem_ok_def)
    ultimately show thesis using c(1) by (intro success [of ?e ?m2]) simp_all
  qed
qed

text \<open>With every allocation granted, creating and growing a buffer succeed.\<close>

lemma make_empty_desc_granted:
  assumes m: "mem_ok m" "alloc_script m = []" and cap: "0 < cap" "cap < 2 ^ 32"
  obtains d m' where "xi_make_empty_desc_alloc cap m = Some (Some d, m')" "desc_ok d" "contents d = []"
    "desc_length d = 0" "mem_ok m'" "alloc_script m' = []" "live_blocks m \<subseteq> live_blocks m'"
proof -
  have c: "unat (of_nat cap :: 32 word) = cap" using cap(2) by (intro of_nat_inverse) simp_all
  have big: "\<not> PTRDIFF_MAX < cap" "\<not> PTRDIFF_MAX < sizeof_xi_data_desc"
    using cap(2) by (simp_all add: PTRDIFF_MAX_def sizeof_xi_data_desc_def)
  have nb: "next_block m \<noteq> 0" using m(1) by (simp add: mem_ok_def)
  let ?d = "(zero_desc (next_block m))\<lparr>data_ptr := Suc (next_block m), data_bytes := replicate cap 0,
              desc_length := 0, desc_capacity := of_nat cap, desc_memory_type := XI_MEMORY_TYPE_MANAGED\<rparr>"
  let ?m = "m\<lparr>next_block := Suc (Suc (next_block m)),
                live_blocks := insert (Suc (next_block m)) (insert (next_block m) (live_blocks m))\<rparr>"
  have "xi_make_empty_desc_alloc cap m = Some (Some ?d, ?m)"
    using m cap big nb by (simp add: xi_make_empty_desc_alloc_def xi_alloc_def)
  moreover have "desc_ok ?d" "contents ?d = []" using c by (simp_all add: desc_ok_def contents_def)
  moreover have "mem_ok ?m" using m(1) by (auto simp: mem_ok_def)
  ultimately show thesis using that [of ?d ?m] m(2) by (simp add: subset_insertI2)
qed

lemma append_resize_granted:
  assumes d: "desc_ok d" and m: "mem_ok m" "alloc_script m = []"
    and len: "len \<le> length src" "unat (desc_length d) + len \<le> 2 ^ 31"
  obtains e m' where "xi_data_desc_append_data_resize (Some d) (Some src) len m = Some (XI_STATE_OK, Some e, m')"
    "desc_ok e" "contents e = contents d @ take len src" "mem_ok m'" "alloc_script m' = []"
    "unat (desc_length e) = unat (desc_length d) + len"
proof (cases "unat (desc_length d) + len \<le> unat (desc_capacity d)")
  case True
  obtain e where "append_memcpy d src len = Some e" "desc_ok e" "contents e = contents d @ take len src"
    "unat (desc_length e) = unat (desc_length d) + len"
    using d len(1) True by (rule append_memcpy_spec)
  then show thesis
    using True that [of e m] len(2) will_it_fit_iff [of d len] m
    by (simp add: xi_data_desc_append_data_resize_def xi_data_desc_assure_buf_len_def)
next
  case False
  let ?n = "of_nat (unat (desc_length d) + len) :: 32 word"
  have n: "unat ?n = unat (desc_length d) + len" using len(2) by (intro of_nat_inverse) simp_all
  have fit: "\<not> xi_data_desc_will_it_fit d len" using False len(2) will_it_fit_iff [of d len] by simp
  let ?c = "xi_data_desc_pow2_realloc_strategy (desc_capacity d) ?n"
  have c: "?n \<le> ?c" "desc_capacity d \<le> ?c" using pow2_capacity_spec [of ?n] n len(2) by simp_all
  have b: "desc_length d \<le> desc_capacity d" "unat (desc_capacity d) \<le> length (data_bytes d)"
    "desc_memory_type d \<noteq> XI_MEMORY_TYPE_UNKNOWN" "unat (desc_capacity d) \<le> unat ?c"
    using d c(2) by (simp_all add: desc_ok_def word_le_nat_alt)
  obtain p m1 where a: "xi_alloc (unat ?c) m = (p, m1)" by fastforce
  have "\<not> PTRDIFF_MAX < unat ?c"
    using unsigned_less [of ?c, where 'a = nat] by (simp add: PTRDIFF_MAX_def)
  then have p: "p \<noteq> NULL" "alloc_script m1 = []" "mem_ok m1"
    using a m xi_alloc_mem_ok [OF a m(1)] by (auto simp: xi_alloc_def mem_ok_def)
  let ?k = "unat (desc_capacity d)"
  let ?m2 = "if desc_memory_type d = XI_MEMORY_TYPE_MANAGED then xi_free (data_ptr d) m1 else m1"
  let ?e = "d\<lparr>data_ptr := p, data_bytes := take ?k (data_bytes d) @ replicate (unat ?c - ?k) 0,
            desc_capacity := ?c, desc_memory_type := XI_MEMORY_TYPE_MANAGED\<rparr>"
  have r: "xi_data_desc_realloc d ?n (Some xi_data_desc_pow2_realloc_strategy) m = Some (XI_STATE_OK, ?e, ?m2)"
    using a b p(1) by (simp add: xi_data_desc_realloc_def Let_def)
  have e: "desc_ok ?e" "contents ?e = contents d"
    using b c(2) by (auto simp add: desc_ok_def contents_def word_le_nat_alt)
  have "unat (desc_length ?e) + len \<le> unat (desc_capacity ?e)"
    using c(1) n by (simp add: word_le_nat_alt)
  with e(1) len(1) obtain f where "append_memcpy ?e src len = Some f" "desc_ok f"
      "contents f = contents ?e @ take len src" "unat (desc_length f) = unat (desc_length ?e) + len"
    by (rule append_memcpy_spec)
  then show thesis
    using that [of f ?m2] r e(2) fit p
    by (simp add: xi_data_desc_append_data_resize_def xi_data_desc_assure_buf_len_def xi_free_def mem_ok_def)
qed

section \<open>Properties\<close>

text \<open>A descriptor of two bytes with capacity two, for the witnesses.\<close>

definition desc_example :: xi_data_desc where
  "desc_example = \<lparr>desc_block = 1, data_ptr = 2, data_bytes = [10, 11], desc_capacity = 2,
     desc_length = 2, curr_pos = 0, desc_memory_type = XI_MEMORY_TYPE_MANAGED\<rparr>"

definition desc_memory_example :: xi_memory where
  "desc_memory_example = \<lparr>alloc_script = [], next_block = 3, live_blocks = {1, 2}\<rparr>"

lemma desc_example_ok: "desc_ok desc_example" "mem_ok desc_memory_example" "contents desc_example = [10, 11]"
  "desc_length desc_example = 2"
  by (simp_all add: desc_ok_def desc_example_def contents_def mem_ok_def desc_memory_example_def)

text \<open>
  C16: Appending with resize: as long as the total stays within \<open>2 ^ 31\<close> bytes, the buffer
  afterwards holds the old contents followed by the new bytes, or the allocation failed, the
  result is \<open>XI_OUT_OF_MEMORY\<close> and the descriptor is unchanged.
\<close>

theorem append_data_resize_correct:
  assumes "desc_ok d" "mem_ok m" "len \<le> length src" "unat (desc_length d) + len \<le> 2 ^ 31"
  shows "\<exists>r e m'. xi_data_desc_append_data_resize (Some d) (Some src) len m = Some (r, Some e, m')
    \<and> desc_ok e \<and> mem_ok m'
    \<and> (r = XI_STATE_OK \<and> contents e = contents d @ take len src
       \<or> r = XI_OUT_OF_MEMORY \<and> e = d \<and> live_blocks m' = live_blocks m)"
proof (cases "unat (desc_length d) + len \<le> unat (desc_capacity d)")
  case True
  obtain e where "append_memcpy d src len = Some e" "desc_ok e" "contents e = contents d @ take len src"
    using assms(1,3) True by (rule append_memcpy_spec)
  then show ?thesis
    using True assms(2,4) will_it_fit_iff [of d len]
    by (simp add: xi_data_desc_append_data_resize_def xi_data_desc_assure_buf_len_def)
next
  case False
  let ?n = "of_nat (unat (desc_length d) + len) :: 32 word"
  have n: "unat ?n = unat (desc_length d) + len" using assms(4) by (intro of_nat_inverse) simp_all
  have fit: "\<not> xi_data_desc_will_it_fit d len" using False assms(4) will_it_fit_iff [of d len] by simp
  have n31: "unat ?n \<le> 2 ^ 31" using n assms(4) by simp
  from assms(1) n31 assms(2) show ?thesis
  proof (rule realloc_pow2_spec)
    fix m'
    assume "xi_data_desc_realloc d ?n (Some xi_data_desc_pow2_realloc_strategy) m = Some (XI_OUT_OF_MEMORY, d, m')"
      "live_blocks m' = live_blocks m" "mem_ok m'"
    then show ?thesis
      using fit assms(1) by (simp add: xi_data_desc_append_data_resize_def xi_data_desc_assure_buf_len_def)
  next
    fix e m'
    assume e: "xi_data_desc_realloc d ?n (Some xi_data_desc_pow2_realloc_strategy) m = Some (XI_STATE_OK, e, m')"
      "desc_ok e" "contents e = contents d" "?n \<le> desc_capacity e" "desc_length e = desc_length d" "mem_ok m'"
    have "unat (desc_length e) + len \<le> unat (desc_capacity e)"
      using e(4,5) n by (simp add: word_le_nat_alt)
    with e(2) assms(3) obtain f where "append_memcpy e src len = Some f" "desc_ok f"
        "contents f = contents e @ take len src"
      by (rule append_memcpy_spec)
    then show ?thesis
      using e fit by (simp add: xi_data_desc_append_data_resize_def xi_data_desc_assure_buf_len_def)
  qed
qed

theorem append_data_resize_correct_witness:
  "\<exists>r e m'. xi_data_desc_append_data_resize (Some desc_example) (Some [1, 2, 3]) 3 desc_memory_example
      = Some (r, Some e, m')
    \<and> (r = XI_STATE_OK \<and> contents e = [10, 11, 1, 2, 3] \<or> r = XI_OUT_OF_MEMORY)"
  using append_data_resize_correct [OF desc_example_ok(1,2), of 3 "[1, 2, 3]"]
  by (fastforce simp: desc_example_ok)

text \<open>
  C17: The guard is tight. When the buffer has to grow beyond \<open>2 ^ 31\<close> bytes (and below \<open>2 ^ 32\<close>), the
  power-of-two strategy wraps around to a capacity of 0, which is less than the old contents that are
  copied into the new block. Where the allocation of that block is refused, the call returns
  \<open>XI_OUT_OF_MEMORY\<close> and leaves the buffer alone; where it is granted, already the growth has no
  defined execution, whatever is to be appended, because the copy runs past the end of the block.
\<close>

theorem append_data_resize_overflow:
  assumes "desc_ok d" "0 < unat (desc_capacity d)" "unat (desc_capacity d) < unat (desc_length d) + len"
    "2 ^ 31 < unat (desc_length d) + len" "unat (desc_length d) + len < 2 ^ 32" "len \<le> length src"
    "alloc_script m = []" "0 < next_block m"
  shows "xi_data_desc_pow2_realloc_strategy (desc_capacity d) (of_nat (unat (desc_length d) + len)) = 0
    \<and> (\<exists>p m'. xi_alloc 0 m = (p, m') \<and> p \<noteq> NULL \<and> p \<in> live_blocks m')
    \<and> xi_data_desc_realloc d (of_nat (unat (desc_length d) + len)) (Some xi_data_desc_pow2_realloc_strategy) m = None
    \<and> xi_data_desc_append_data_resize (Some d) (Some src) len m = None
    \<and> xi_data_desc_append_data_resize (Some d) (Some src) len (m\<lparr>alloc_script := [False]\<rparr>) = Some (XI_OUT_OF_MEMORY, Some d, m)"
proof -
  let ?n = "of_nat (unat (desc_length d) + len) :: 32 word"
  have n: "unat ?n = unat (desc_length d) + len" using assms(5) by (intro of_nat_inverse) simp_all
  have z: "xi_data_desc_pow2_realloc_strategy (desc_capacity d) ?n = 0"
    using n assms(3,4) by (intro pow2_capacity_overflow) (simp_all add: word_less_nat_alt)
  have a: "\<exists>p m'. xi_alloc 0 m = (p, m') \<and> p \<noteq> NULL \<and> p \<in> live_blocks m'"
    using assms(7,8) by (simp add: xi_alloc_def)
  have r: "xi_data_desc_realloc d ?n (Some xi_data_desc_pow2_realloc_strategy) m = None"
    using z assms(1,2,7,8) by (simp add: xi_data_desc_realloc_def xi_alloc_def desc_ok_def)
  have f: "\<not> xi_data_desc_will_it_fit d len"
    using assms(3,5) will_it_fit_iff [of d len] by simp
  have "xi_data_desc_realloc d ?n (Some xi_data_desc_pow2_realloc_strategy) (m\<lparr>alloc_script := [False]\<rparr>) = Some (XI_OUT_OF_MEMORY, d, m)"
    using z assms(1,7) by (simp add: xi_data_desc_realloc_def xi_alloc_def desc_ok_def)
  then show ?thesis
    using z a r f by (simp add: xi_data_desc_append_data_resize_def xi_data_desc_assure_buf_len_def)
qed

theorem append_data_resize_overflow_witness:
  "\<exists>src. length src = 2 ^ 31 \<and> xi_data_desc_append_data_resize (Some desc_example) (Some src) (2 ^ 31) desc_memory_example = None
    \<and> xi_data_desc_append_data_resize (Some desc_example) (Some src) (2 ^ 31) (desc_memory_example\<lparr>alloc_script := [False]\<rparr>)
        = Some (XI_OUT_OF_MEMORY, Some desc_example, desc_memory_example)"
proof -
  obtain src :: "byte list" where src: "length src = 2 ^ 31" using Ex_list_of_length by blast
  have d: "unat (desc_capacity desc_example) = 2" "unat (desc_length desc_example) = 2" by (simp_all add: desc_example_def)
  have m: "alloc_script desc_memory_example = []" "0 < next_block desc_memory_example" by (simp_all add: desc_memory_example_def)
  show ?thesis
    using append_data_resize_overflow [OF desc_example_ok(1) _ _ _ _ _ m, of "2 ^ 31" src] src d by (intro exI [of _ src]) simp
qed

text \<open>
  Appending without resize never writes past the capacity: the bytes are appended when
  they fit, and otherwise the result is \<open>XI_BUFFER_OVERFLOW\<close> and the buffer is unchanged.
\<close>

lemma append_bytes_correct:
  assumes "desc_ok d" "len \<le> length src" "unat (desc_length d) + len < 2 ^ 64"
  shows "\<exists>r e. xi_data_desc_append_bytes (Some d) (Some src) len = Some (r, Some e) \<and> desc_ok e
    \<and> desc_capacity e = desc_capacity d
    \<and> (if unat (desc_length d) + len \<le> unat (desc_capacity d)
       then r = XI_STATE_OK \<and> contents e = contents d @ take len src
       else r = XI_BUFFER_OVERFLOW \<and> e = d)"
proof (cases "unat (desc_length d) + len \<le> unat (desc_capacity d)")
  case True
  obtain e where "append_memcpy d src len = Some e" "desc_ok e" "contents e = contents d @ take len src"
    "desc_capacity e = desc_capacity d"
    using assms(1,2) True by (rule append_memcpy_spec)
  then show ?thesis using True will_it_fit_iff [OF assms(3)] by (simp add: xi_data_desc_append_bytes_def)
qed (use assms will_it_fit_iff [OF assms(3)] in \<open>simp add: xi_data_desc_append_bytes_def\<close>)

text \<open>
  Creating an empty buffer: with both allocations granted the descriptor is empty, holds
  the requested capacity and owns two fresh blocks, and disposing of it returns them; when the
  first allocation fails the result is \<open>NULL\<close>; when only the second one fails the error
  path disposes of a descriptor whose memory type is still \<open>XI_MEMORY_TYPE_UNKNOWN\<close> and runs
  into the assertion of \<open>xi_free_desc\<close>.
\<close>

lemma make_empty_desc_alloc_cases:
  assumes "mem_ok m" "0 < cap" "cap < 2 ^ 32"
  shows "(alloc_script m = [] \<longrightarrow> (\<exists>d m'. xi_make_empty_desc_alloc cap m = Some (Some d, m')
            \<and> desc_ok d \<and> contents d = [] \<and> unat (desc_capacity d) = cap
            \<and> live_blocks m' = {desc_block d, data_ptr d} \<union> live_blocks m
            \<and> desc_block d \<notin> live_blocks m \<and> data_ptr d \<notin> live_blocks m
            \<and> (\<exists>m''. xi_free_desc (Some d) m' = Some m'' \<and> live_blocks m'' = live_blocks m)))
    \<and> (alloc_script m = [False] \<longrightarrow> (\<exists>m'. xi_make_empty_desc_alloc cap m = Some (None, m')
            \<and> live_blocks m' = live_blocks m))
    \<and> (alloc_script m = [True, False] \<longrightarrow> xi_make_empty_desc_alloc cap m = None)"
proof (intro conjI impI)
  have cap: "unat (of_nat cap :: 32 word) = cap" using assms(3) by (intro of_nat_inverse) simp_all
  have big: "cap \<le> PTRDIFF_MAX" "sizeof_xi_data_desc \<le> PTRDIFF_MAX"
    using assms(3) by (simp_all add: PTRDIFF_MAX_def sizeof_xi_data_desc_def)
  have nb: "0 < next_block m" "next_block m \<notin> live_blocks m" "Suc (next_block m) \<notin> live_blocks m"
    using assms(1) by (auto simp: mem_ok_def)
  {
    assume a: "alloc_script m = []"
    let ?m = "m\<lparr>next_block := Suc (Suc (next_block m)),
                live_blocks := insert (Suc (next_block m)) (insert (next_block m) (live_blocks m))\<rparr>"
    let ?d = "(zero_desc (next_block m))\<lparr>data_ptr := Suc (next_block m), data_bytes := replicate cap 0,
              desc_length := 0, desc_capacity := of_nat cap, desc_memory_type := XI_MEMORY_TYPE_MANAGED\<rparr>"
    have "xi_make_empty_desc_alloc cap m = Some (Some ?d, ?m)"
      using a assms(2) big nb by (simp add: xi_make_empty_desc_alloc_def xi_alloc_def not_less)
    moreover have "desc_ok ?d" "contents ?d = []" using cap by (simp_all add: desc_ok_def contents_def)
    moreover have "xi_free_desc (Some ?d) ?m
        = Some (xi_free (next_block m) (xi_free (Suc (next_block m)) ?m))"
      by (simp add: xi_free_desc_def zero_desc_def)
    moreover have "live_blocks (xi_free (next_block m) (xi_free (Suc (next_block m)) ?m)) = live_blocks m"
      using nb by auto
    ultimately show "\<exists>d m'. xi_make_empty_desc_alloc cap m = Some (Some d, m')
            \<and> desc_ok d \<and> contents d = [] \<and> unat (desc_capacity d) = cap
            \<and> live_blocks m' = {desc_block d, data_ptr d} \<union> live_blocks m
            \<and> desc_block d \<notin> live_blocks m \<and> data_ptr d \<notin> live_blocks m
            \<and> (\<exists>m''. xi_free_desc (Some d) m' = Some m'' \<and> live_blocks m'' = live_blocks m)"
      using cap nb by (intro exI [of _ ?d] exI [of _ ?m]) (simp add: zero_desc_def insert_commute)
  next
    assume "alloc_script m = [False]"
    then show "\<exists>m'. xi_make_empty_desc_alloc cap m = Some (None, m') \<and> live_blocks m' = live_blocks m"
      using assms(2) big by (simp add: xi_make_empty_desc_alloc_def xi_alloc_def xi_free_desc_def not_less)
  next
    assume "alloc_script m = [True, False]"
    then show "xi_make_empty_desc_alloc cap m = None"
      using assms(2) big nb
      by (simp add: xi_make_empty_desc_alloc_def xi_alloc_def xi_free_desc_def zero_desc_def not_less)
  }
qed

end
