(* ===== verification/Mqtt_Message.thy ===== *)
theory Mqtt_Message
  imports Xi_Data_Desc
begin

unbundle bit_operations_syntax

text \<open>
  \<open>src/libxively/mqtt/codec/xi_mqtt_message.c\<close> and \<open>xi_mqtt_message.h\<close>: MQTT control
  packets. The C union is a record of the fields its views name; the views of different
  packet types that share a field (the packet identifier, the topics) share it here, and a
  packet uses the fields of the view its type selects. The bit fields of the first byte and
  of the CONNECT flags are read off the byte, least significant bit first, as the ABI of every
  supported platform lays them out.
\<close>

section \<open>Packet types\<close>

definition XI_MQTT_TYPE_NONE :: nat where [simp]: "XI_MQTT_TYPE_NONE = 0"
definition XI_MQTT_TYPE_CONNECT :: nat where [simp]: "XI_MQTT_TYPE_CONNECT = 1"
definition XI_MQTT_TYPE_CONNACK :: nat where [simp]: "XI_MQTT_TYPE_CONNACK = 2"
definition XI_MQTT_TYPE_PUBLISH :: nat where [simp]: "XI_MQTT_TYPE_PUBLISH = 3"
definition XI_MQTT_TYPE_PUBACK :: nat where [simp]: "XI_MQTT_TYPE_PUBACK = 4"
definition XI_MQTT_TYPE_PUBREC :: nat where [simp]: "XI_MQTT_TYPE_PUBREC = 5"
definition XI_MQTT_TYPE_PUBREL :: nat where [simp]: "XI_MQTT_TYPE_PUBREL = 6"
definition XI_MQTT_TYPE_PUBCOMP :: nat where [simp]: "XI_MQTT_TYPE_PUBCOMP = 7"
definition XI_MQTT_TYPE_SUBSCRIBE :: nat where [simp]: "XI_MQTT_TYPE_SUBSCRIBE = 8"
definition XI_MQTT_TYPE_SUBACK :: nat where [simp]: "XI_MQTT_TYPE_SUBACK = 9"
definition XI_MQTT_TYPE_UNSUBSCRIBE :: nat where [simp]: "XI_MQTT_TYPE_UNSUBSCRIBE = 10"
definition XI_MQTT_TYPE_UNSUBACK :: nat where [simp]: "XI_MQTT_TYPE_UNSUBACK = 11"
definition XI_MQTT_TYPE_PINGREQ :: nat where [simp]: "XI_MQTT_TYPE_PINGREQ = 12"
definition XI_MQTT_TYPE_PINGRESP :: nat where [simp]: "XI_MQTT_TYPE_PINGRESP = 13"
definition XI_MQTT_TYPE_DISCONNECT :: nat where [simp]: "XI_MQTT_TYPE_DISCONNECT = 14"

datatype xi_mqtt_message_class =
    XI_MQTT_MESSAGE_CLASS_UNKNOWN
  | XI_MQTT_MESSAGE_CLASS_TO_SERVER
  | XI_MQTT_MESSAGE_CLASS_FROM_SERVER

datatype xi_mqtt_error =
    XI_MQTT_ERROR_NONE
  | XI_MQTT_ERROR_PARSER_INVALID_STATE
  | XI_MQTT_ERROR_PARSER_INVALID_REMAINING_LENGTH
  | XI_MQTT_ERROR_PARSER_INVALID_MESSAGE_ID
  | XI_MQTT_ERROR_SERIALISER_INVALID_MESSAGE_ID

section \<open>The packet\<close>

text \<open>\<open>payload_byte\<close> is the union of the requested QoS and of the SUBACK status.\<close>

record xi_mqtt_topicpair =
  topicpair_block :: addr
  topic_filter :: "xi_data_desc option"
  payload_byte :: byte

record xi_mqtt_message =
  message_block :: addr
  common_value :: byte
  remaining_length_field :: "32 word"
  protocol_name :: "xi_data_desc option"
  protocol_version :: byte
  flags_value :: byte
  keepalive :: "16 word"
  client_id :: "xi_data_desc option"
  will_topic :: "xi_data_desc option"
  will_message :: "xi_data_desc option"
  username :: "xi_data_desc option"
  password :: "xi_data_desc option"
  connack_unused :: byte
  return_code :: byte
  topic_name :: "xi_data_desc option"
  publish_content :: "xi_data_desc option"
  message_id :: "16 word"
  topics :: "xi_mqtt_topicpair option"

definition empty_message :: "addr \<Rightarrow> xi_mqtt_message" where
  "empty_message p = \<lparr>message_block = p, common_value = 0, remaining_length_field = 0,
     protocol_name = None, protocol_version = 0, flags_value = 0, keepalive = 0, client_id = None,
     will_topic = None, will_message = None, username = None, password = None, connack_unused = 0,
     return_code = 0, topic_name = None, publish_content = None, message_id = 0, topics = None\<rparr>"

text \<open>The bit fields \<open>retain\<close>, \<open>qos\<close>, \<open>dup\<close> and \<open>type\<close> of the first byte.\<close>

definition common_retain :: "byte \<Rightarrow> nat" where "common_retain b = unat (b AND 1)"
definition common_qos :: "byte \<Rightarrow> nat" where "common_qos b = unat (drop_bit 1 b AND 3)"
definition common_dup :: "byte \<Rightarrow> nat" where "common_dup b = unat (drop_bit 3 b AND 1)"
definition common_type :: "byte \<Rightarrow> nat" where "common_type b = unat (drop_bit 4 b)"

definition msg_type :: "xi_mqtt_message \<Rightarrow> nat" where "msg_type m = common_type (common_value m)"
definition msg_qos :: "xi_mqtt_message \<Rightarrow> nat" where "msg_qos m = common_qos (common_value m)"

text \<open>The bit fields of the CONNECT flags the codec reads.\<close>

definition flag_will :: "xi_mqtt_message \<Rightarrow> bool" where "flag_will m = bit (flags_value m) 2"
definition flag_password_follows :: "xi_mqtt_message \<Rightarrow> bool" where
  "flag_password_follows m = bit (flags_value m) 6"
definition flag_username_follows :: "xi_mqtt_message \<Rightarrow> bool" where
  "flag_username_follows m = bit (flags_value m) 7"

section \<open>Disposal\<close>

definition free_if :: "xi_data_desc option \<Rightarrow> xi_memory \<Rightarrow> xi_memory option" where
  "free_if d m = (if d \<noteq> None then xi_free_desc d m else Some m)"

definition xi_mqtt_message_free :: "xi_mqtt_message option \<Rightarrow> xi_memory \<Rightarrow> xi_memory option" where
  "xi_mqtt_message_free msg m = (case msg of
     None \<Rightarrow> Some m
   | Some msg \<Rightarrow> do {
       m1 \<leftarrow> (if msg_type msg = XI_MQTT_TYPE_CONNECT then
               free_if (client_id msg) m \<bind> free_if (password msg) \<bind> free_if (username msg)
                 \<bind> free_if (protocol_name msg) \<bind> free_if (will_message msg) \<bind> free_if (will_topic msg)
             else if msg_type msg = XI_MQTT_TYPE_PUBLISH then
               free_if (publish_content msg) m \<bind> free_if (topic_name msg)
             else if msg_type msg = XI_MQTT_TYPE_SUBSCRIBE then
               (case topics msg of None \<Rightarrow> Some m
                | Some t \<Rightarrow> map_option (xi_free (topicpair_block t)) (xi_free_desc (topic_filter t) m))
             else if msg_type msg = XI_MQTT_TYPE_SUBACK then
               (case topics msg of None \<Rightarrow> Some m
                | Some t \<Rightarrow> map_option (xi_free (topicpair_block t)) (free_if (topic_filter t) m))
             else Some m);
       Some (xi_free (message_block msg) m1) })"

section \<open>Classification and conversions\<close>

definition xi_mqtt_get_message_id :: "xi_mqtt_message \<Rightarrow> 16 word" where
  "xi_mqtt_get_message_id msg =
     (if msg_type msg \<in> {XI_MQTT_TYPE_PUBLISH, XI_MQTT_TYPE_PUBACK, XI_MQTT_TYPE_PUBREC,
        XI_MQTT_TYPE_PUBREL, XI_MQTT_TYPE_PUBCOMP, XI_MQTT_TYPE_SUBSCRIBE, XI_MQTT_TYPE_SUBACK,
        XI_MQTT_TYPE_UNSUBACK} then message_id msg else 0)"

definition xi_mqtt_class_msg_type_receiving :: "nat \<Rightarrow> xi_mqtt_message_class" where
  "xi_mqtt_class_msg_type_receiving ty =
     (if ty \<in> {XI_MQTT_TYPE_PUBLISH, XI_MQTT_TYPE_PUBREL} then XI_MQTT_MESSAGE_CLASS_FROM_SERVER
      else if ty \<in> {XI_MQTT_TYPE_PUBACK, XI_MQTT_TYPE_PUBREC, XI_MQTT_TYPE_PUBCOMP,
        XI_MQTT_TYPE_SUBACK, XI_MQTT_TYPE_UNSUBACK, XI_MQTT_TYPE_PINGRESP}
      then XI_MQTT_MESSAGE_CLASS_TO_SERVER
      else XI_MQTT_MESSAGE_CLASS_UNKNOWN)"

definition xi_mqtt_class_msg_type_sending :: "nat \<Rightarrow> xi_mqtt_message_class" where
  "xi_mqtt_class_msg_type_sending ty =
     (if ty \<in> {XI_MQTT_TYPE_PUBACK, XI_MQTT_TYPE_PUBREC, XI_MQTT_TYPE_PUBCOMP}
      then XI_MQTT_MESSAGE_CLASS_FROM_SERVER
      else if ty \<in> {XI_MQTT_TYPE_PUBLISH, XI_MQTT_TYPE_PUBREL, XI_MQTT_TYPE_SUBSCRIBE,
        XI_MQTT_TYPE_UNSUBSCRIBE, XI_MQTT_TYPE_PINGREQ, XI_MQTT_TYPE_DISCONNECT}
      then XI_MQTT_MESSAGE_CLASS_TO_SERVER
      else XI_MQTT_MESSAGE_CLASS_UNKNOWN)"

datatype xi_mqtt_qos = XI_MQTT_QOS_AT_MOST_ONCE | XI_MQTT_QOS_AT_LEAST_ONCE | XI_MQTT_QOS_EXACTLY_ONCE
datatype xi_mqtt_dup = XI_MQTT_DUP_FALSE | XI_MQTT_DUP_TRUE
datatype xi_mqtt_retain = XI_MQTT_RETAIN_FALSE | XI_MQTT_RETAIN_TRUE

text \<open>\<open>qos_out\<close> tells whether the pointer is not \<open>NULL\<close>; the second component is what is written.\<close>

definition xi_mqtt_convert_to_qos :: "nat \<Rightarrow> bool \<Rightarrow> xi_state \<times> xi_mqtt_qos option" where
  "xi_mqtt_convert_to_qos qos qos_out =
     (if \<not> qos_out then (XI_INVALID_PARAMETER, None)
      else if qos = 0 then (XI_STATE_OK, Some XI_MQTT_QOS_AT_MOST_ONCE)
      else if qos = 1 then (XI_STATE_OK, Some XI_MQTT_QOS_AT_LEAST_ONCE)
      else if qos = 2 then (XI_STATE_OK, Some XI_MQTT_QOS_EXACTLY_ONCE)
      else (XI_INVALID_PARAMETER, None))"

definition xi_mqtt_convert_to_dup :: "nat \<Rightarrow> bool \<Rightarrow> xi_state \<times> xi_mqtt_dup option" where
  "xi_mqtt_convert_to_dup dup dup_out =
     (if \<not> dup_out then (XI_INVALID_PARAMETER, None)
      else if dup = 0 then (XI_STATE_OK, Some XI_MQTT_DUP_FALSE)
      else if dup = 1 then (XI_STATE_OK, Some XI_MQTT_DUP_TRUE)
      else (XI_INVALID_PARAMETER, None))"

definition xi_mqtt_convert_to_retain :: "nat \<Rightarrow> bool \<Rightarrow> xi_state \<times> xi_mqtt_retain option" where
  "xi_mqtt_convert_to_retain retain retain_out =
     (if \<not> retain_out then (XI_INVALID_PARAMETER, None)
      else if retain = 0 then (XI_STATE_OK, Some XI_MQTT_RETAIN_FALSE)
      else if retain = 1 then (XI_STATE_OK, Some XI_MQTT_RETAIN_TRUE)
      else (XI_INVALID_PARAMETER, None))"

text \<open>The opposite ends of an exchange classify its packets the same way.\<close>

lemma classes_agree:
  assumes "xi_mqtt_class_msg_type_sending ty \<noteq> XI_MQTT_MESSAGE_CLASS_UNKNOWN"
    "xi_mqtt_class_msg_type_receiving ty \<noteq> XI_MQTT_MESSAGE_CLASS_UNKNOWN"
  shows "xi_mqtt_class_msg_type_sending ty \<noteq> xi_mqtt_class_msg_type_receiving ty"
  using assms
  by (auto simp: xi_mqtt_class_msg_type_sending_def xi_mqtt_class_msg_type_receiving_def split: if_splits)

end
