(* ===== verification/Mqtt_Serialiser.thy ===== *)
theory Mqtt_Serialiser
  imports Mqtt_Message
begin

unbundle bit_operations_syntax

text \<open>
  \<open>src/libxively/mqtt/codec/xi_mqtt_serialiser.c\<close>: the size computation and the writer of
  outgoing packets. Sizes are \<open>size_t\<close>; dereferencing a missing descriptor is \<open>None\<close>.
\<close>

section \<open>Size\<close>

definition xi_mqtt_get_remaining_length_bytes :: "nat \<Rightarrow> nat option" where
  "xi_mqtt_get_remaining_length_bytes remaining_length =
     (if remaining_length \<le> 127 then Some 1
      else if remaining_length \<le> 16383 then Some 2
      else if remaining_length \<le> 2097151 then Some 3
      else if remaining_length \<le> 268435455 then Some 4
      else None)"

text \<open>\<open>desc->length\<close> through a pointer that must not be \<open>NULL\<close>.\<close>

definition desc_len :: "xi_data_desc option \<Rightarrow> nat option" where
  "desc_len d = map_option (\<lambda>d. unat (desc_length d)) d"

text \<open>
  The lengths are added up as naturals: every descriptor is shorter than \<open>2 ^ 32\<close> bytes and a
  packet has at most six of them, so the sums stay below \<open>2 ^ 64\<close>. The result is the state with
  \<open>msg_len\<close>, \<open>remaining_len\<close> and \<open>publish_payload_len\<close>; \<open>outs\<close> tells whether the pointers to
  these three are given.
\<close>

definition xi_mqtt_serialiser_size :: "bool \<Rightarrow> xi_mqtt_message \<Rightarrow> (xi_state \<times> nat \<times> nat \<times> nat) option" where
  "xi_mqtt_serialiser_size outs message = (if \<not> outs then Some (XI_INVALID_PARAMETER, 0, 0, 0) else do {
     let ty = msg_type message;
     r \<leftarrow>
      (if ty = XI_MQTT_TYPE_CONNECT then do {
         let n = 1 + 6 + 1 + 1 + 2 + 2;
         let n = n + (case client_id message of None \<Rightarrow> 0 | Some d \<Rightarrow> unat (desc_length d));
         n \<leftarrow> (if flag_username_follows message then map_option (\<lambda>l. n + 2 + l) (desc_len (username message))
               else Some n);
         n \<leftarrow> (if flag_password_follows message then map_option (\<lambda>l. n + 2 + l) (desc_len (password message))
               else Some n);
         n \<leftarrow> (if flag_will message then do {
                 a \<leftarrow> desc_len (will_topic message);
                 b \<leftarrow> desc_len (will_message message);
                 Some (n + 4 + a + b) }
               else Some n);
         Some (Some (n, 0)) }
       else if ty = XI_MQTT_TYPE_CONNACK then Some (Some (1 + 2, 0))
       else if ty = XI_MQTT_TYPE_PUBLISH then do {
         a \<leftarrow> desc_len (topic_name message);
         let n = 1 + 2 + a;
         let n = (if msg_qos message > 0 then n + 2 else n);
         c \<leftarrow> desc_len (publish_content message);
         Some (Some (n + c, c)) }
       else if ty = XI_MQTT_TYPE_PUBACK then Some (Some (1 + 2, 0))
       else if ty = XI_MQTT_TYPE_DISCONNECT then Some (Some (1, 0))
       else if ty = XI_MQTT_TYPE_SUBSCRIBE then do {
         t \<leftarrow> topics message;
         a \<leftarrow> desc_len (topic_filter t);
         Some (Some (1 + 2 + 2 + a + 1, 0)) }
       else if ty = XI_MQTT_TYPE_SUBACK then Some (Some (1 + 2 + 1, 0))
       else if ty = XI_MQTT_TYPE_PINGREQ then Some (Some (1, 0))
       else Some None);
     (case r of
        None \<Rightarrow> Some (XI_MQTT_SERIALIZER_ERROR, 1, 0, 0)
      | Some (n, p) \<Rightarrow> do {
          l \<leftarrow> xi_mqtt_get_remaining_length_bytes (n - 1);
          Some (XI_STATE_OK, n + l, n - 1, p) }) })"

section \<open>Writing\<close>

text \<open>
  The writer threads the output descriptor; \<open>Inl buffer\<close> is the jump to \<open>err_handling\<close> with
  what has been written so far, \<open>Inr buffer\<close> goes on. Outer \<open>None\<close> is undefined behaviour.
\<close>

type_synonym writer = "xi_data_desc \<Rightarrow> (xi_data_desc + xi_data_desc) option"

definition then_write :: "writer \<Rightarrow> writer \<Rightarrow> writer" where
  "then_write f g out = (case f out of None \<Rightarrow> None | Some (Inl e) \<Rightarrow> Some (Inl e) | Some (Inr o1) \<Rightarrow> g o1)"

definition check_state :: "(xi_state \<times> xi_data_desc option) option \<Rightarrow> (xi_data_desc + xi_data_desc) option" where
  "check_state r = (case r of
     Some (st, Some out) \<Rightarrow> Some (if st = XI_STATE_OK then Inr out else Inl out)
   | _ \<Rightarrow> None)"

definition WRITE_8 :: "byte \<Rightarrow> writer" where
  "WRITE_8 b out = check_state (xi_data_desc_append_byte (Some out) b)"

text \<open>\<open>value >> 8\<close> and \<open>value & 0xFF\<close>, each converted to \<open>uint8_t\<close>.\<close>

definition WRITE_16 :: "32 word \<Rightarrow> writer" where
  "WRITE_16 value = then_write (WRITE_8 (ucast (drop_bit 8 value))) (WRITE_8 (ucast (value AND 0xFF)))"

definition WRITE_STRING :: "xi_data_desc option \<Rightarrow> writer" where
  "WRITE_STRING str = (case str of
     Some s \<Rightarrow> then_write (WRITE_16 (desc_length s))
                (\<lambda>out. check_state (xi_data_desc_append_data (Some out) (Some s)))
   | None \<Rightarrow> WRITE_16 0)"

definition write_if :: "bool \<Rightarrow> writer \<Rightarrow> writer" where
  "write_if c w = (if c then w else (\<lambda>out. Some (Inr out)))"

text \<open>The loop that writes the remaining length, seven bits at a time.\<close>

function write_remaining_length :: "nat \<Rightarrow> writer" where
  "write_remaining_length tmp_remaining_len out =
     (let value = (of_nat tmp_remaining_len :: 32 word) AND 0x7f;
          rest = tmp_remaining_len div 128
      in case WRITE_8 (ucast (value OR (if rest > 0 then 0x80 else 0))) out of
           None \<Rightarrow> None
         | Some (Inl e) \<Rightarrow> Some (Inl e)
         | Some (Inr out1) \<Rightarrow> if rest > 0 then write_remaining_length rest out1 else Some (Inr out1))"
  by pat_completeness auto
termination by (relation "measure fst") auto

declare write_remaining_length.simps [simp del]

datatype xi_mqtt_serialiser_rc = XI_MQTT_SERIALISER_RC_ERROR | XI_MQTT_SERIALISER_RC_SUCCESS

text \<open>The body by packet type; \<open>None\<close> when the serialiser does not know the type.\<close>

definition body_writer :: "xi_mqtt_message \<Rightarrow> writer option" where
  "body_writer message =
     (let ty = msg_type message in
      if ty = XI_MQTT_TYPE_CONNECT then Some
        (then_write (WRITE_STRING (protocol_name message))
        (then_write (WRITE_8 (protocol_version message))
        (then_write (WRITE_8 (flags_value message))
        (then_write (WRITE_16 (ucast (keepalive message)))
        (then_write (WRITE_STRING (client_id message))
        (then_write (write_if (flag_will message)
                       (then_write (WRITE_STRING (will_topic message)) (WRITE_STRING (will_message message))))
        (then_write (write_if (flag_username_follows message) (WRITE_STRING (username message)))
                    (write_if (flag_password_follows message) (WRITE_STRING (password message)))))))))) 
      else if ty = XI_MQTT_TYPE_CONNACK then Some
        (then_write (WRITE_8 (connack_unused message)) (WRITE_8 (return_code message)))
      else if ty = XI_MQTT_TYPE_PUBLISH then Some
        (then_write (WRITE_STRING (topic_name message))
                    (write_if (msg_qos message > 0) (WRITE_16 (ucast (message_id message)))))
      else if ty = XI_MQTT_TYPE_PUBACK then Some (WRITE_16 (ucast (message_id message)))
      else if ty = XI_MQTT_TYPE_SUBSCRIBE then Some
        (then_write (WRITE_16 (ucast (message_id message)))
           (case topics message of None \<Rightarrow> (\<lambda>_. None)
            | Some t \<Rightarrow> then_write (WRITE_STRING (topic_filter t)) (WRITE_8 (payload_byte t))))
      else if ty = XI_MQTT_TYPE_SUBACK then Some
        (then_write (WRITE_16 (ucast (message_id message)))
           (case topics message of None \<Rightarrow> (\<lambda>_. None) | Some t \<Rightarrow> WRITE_8 (payload_byte t)))
      else if ty = XI_MQTT_TYPE_DISCONNECT \<or> ty = XI_MQTT_TYPE_PINGREQ then Some (\<lambda>out. Some (Inr out))
      else None)"

text \<open>The return code, the serialiser's error and the output buffer.\<close>

definition xi_mqtt_serialiser_write ::
    "xi_mqtt_error \<Rightarrow> xi_mqtt_message \<Rightarrow> xi_data_desc \<Rightarrow> nat
       \<Rightarrow> (xi_mqtt_serialiser_rc \<times> xi_mqtt_error \<times> xi_data_desc) option" where
  "xi_mqtt_serialiser_write err message buffer remaining_len =
     (case then_write (WRITE_8 (common_value message)) (write_remaining_length remaining_len) buffer of
        None \<Rightarrow> None
      | Some (Inl b) \<Rightarrow> Some (XI_MQTT_SERIALISER_RC_ERROR, err, b)
      | Some (Inr b) \<Rightarrow>
          (case body_writer message of
             None \<Rightarrow> Some (XI_MQTT_SERIALISER_RC_ERROR, XI_MQTT_ERROR_SERIALISER_INVALID_MESSAGE_ID, b)
           | Some w \<Rightarrow> (case w b of
               None \<Rightarrow> None
             | Some (Inl b1) \<Rightarrow> Some (XI_MQTT_SERIALISER_RC_ERROR, err, b1)
             | Some (Inr b1) \<Rightarrow> Some (XI_MQTT_SERIALISER_RC_SUCCESS, err, b1))))"

section \<open>The bytes of a packet\<close>

text \<open>The wire format, independently of buffers.\<close>

definition bytes_16 :: "nat \<Rightarrow> byte list" where
  "bytes_16 n = [of_nat (n div 256), of_nat n]"

definition string_bytes :: "xi_data_desc option \<Rightarrow> byte list" where
  "string_bytes d = (case d of None \<Rightarrow> [0, 0] | Some s \<Rightarrow> bytes_16 (unat (desc_length s)) @ contents s)"

fun remaining_length_bytes :: "nat \<Rightarrow> byte list" where
  "remaining_length_bytes n =
     (if n < 128 then [of_nat n] else of_nat (n mod 128 + 128) # remaining_length_bytes (n div 128))"

declare remaining_length_bytes.simps [simp del]

definition body_bytes :: "xi_mqtt_message \<Rightarrow> byte list" where
  "body_bytes m =
     (let ty = msg_type m; ident = bytes_16 (unat (message_id m)) in
      if ty = XI_MQTT_TYPE_CONNECT then
        string_bytes (protocol_name m) @ [protocol_version m, flags_value m] @ bytes_16 (unat (keepalive m))
        @ string_bytes (client_id m)
        @ (if flag_will m then string_bytes (will_topic m) @ string_bytes (will_message m) else [])
        @ (if flag_username_follows m then string_bytes (username m) else [])
        @ (if flag_password_follows m then string_bytes (password m) else [])
      else if ty = XI_MQTT_TYPE_CONNACK then [connack_unused m, return_code m]
      else if ty = XI_MQTT_TYPE_PUBLISH then string_bytes (topic_name m) @ (if msg_qos m > 0 then ident else [])
      else if ty = XI_MQTT_TYPE_PUBACK then ident
      else if ty = XI_MQTT_TYPE_SUBSCRIBE then ident @ string_bytes (topic_filter (the (topics m))) @ [payload_byte (the (topics m))]
      else if ty = XI_MQTT_TYPE_SUBACK then ident @ [payload_byte (the (topics m))]
      else [])"

definition packet_bytes :: "xi_mqtt_message \<Rightarrow> nat \<Rightarrow> byte list" where
  "packet_bytes m remaining_len = common_value m # remaining_length_bytes remaining_len @ body_bytes m"

section \<open>Writers append\<close>

text \<open>
  \<open>writes w bs\<close>: on a well-formed buffer with room for \<open>bs\<close> the writer appends exactly \<open>bs\<close>;
  without room it reports the overflow, having appended a prefix.
\<close>

definition writes :: "writer \<Rightarrow> byte list \<Rightarrow> bool" where
  "writes w bs \<longleftrightarrow> (\<forall>out. desc_ok out \<longrightarrow>
     (if unat (desc_length out) + length bs \<le> unat (desc_capacity out)
      then \<exists>o1. w out = Some (Inr o1) \<and> desc_ok o1 \<and> contents o1 = contents out @ bs
             \<and> desc_capacity o1 = desc_capacity out
      else \<exists>o1 k. w out = Some (Inl o1) \<and> desc_ok o1 \<and> contents o1 = contents out @ take k bs
             \<and> desc_capacity o1 = desc_capacity out))"

lemma writes_fits:
  assumes "writes w bs" "desc_ok out" "unat (desc_length out) + length bs \<le> unat (desc_capacity out)"
  obtains o1 where "w out = Some (Inr o1)" "desc_ok o1" "contents o1 = contents out @ bs"
    "desc_capacity o1 = desc_capacity out"
  using assms(1) [unfolded writes_def, rule_format, OF assms(2)] assms(3) that by auto

lemma writes_overflows:
  assumes "writes w bs" "desc_ok out" "\<not> unat (desc_length out) + length bs \<le> unat (desc_capacity out)"
  obtains o1 k where "w out = Some (Inl o1)" "desc_ok o1" "contents o1 = contents out @ take k bs"
    "desc_capacity o1 = desc_capacity out"
  using assms(1) [unfolded writes_def, rule_format, OF assms(2)] assms(3) that by auto

lemma writes_then:
  assumes f: "writes f xs" and g: "writes g ys"
  shows "writes (then_write f g) (xs @ ys)"
  unfolding writes_def
proof (intro allI impI)
  fix out
  assume ok: "desc_ok out"
  let ?n = "unat (desc_length out)" and ?c = "unat (desc_capacity out)"
  show "if ?n + length (xs @ ys) \<le> ?c
      then \<exists>o1. then_write f g out = Some (Inr o1) \<and> desc_ok o1 \<and> contents o1 = contents out @ xs @ ys
             \<and> desc_capacity o1 = desc_capacity out
      else \<exists>o1 k. then_write f g out = Some (Inl o1) \<and> desc_ok o1 \<and> contents o1 = contents out @ take k (xs @ ys)
             \<and> desc_capacity o1 = desc_capacity out"
  proof (cases "?n + length xs \<le> ?c")
    case False
    with f ok obtain o1 k where o1: "f out = Some (Inl o1)" "desc_ok o1" "contents o1 = contents out @ take k xs"
      "desc_capacity o1 = desc_capacity out"
      by (rule writes_overflows)
    then have "contents o1 = contents out @ take (min k (length xs)) (xs @ ys)"
      by (simp add: min_def)
    then show ?thesis using False o1 by (auto simp: then_write_def simp del: take_append)
  next
    case True
    with f ok obtain o1 where o1: "f out = Some (Inr o1)" "desc_ok o1" "contents o1 = contents out @ xs"
      "desc_capacity o1 = desc_capacity out"
      by (rule writes_fits)
    have n1: "unat (desc_length o1) = ?n + length xs"
      using o1(2,3) ok length_contents [of o1] length_contents [of out] by simp
    have step: "then_write f g out = g o1" by (simp add: then_write_def o1(1))
    show ?thesis
    proof (cases "unat (desc_length o1) + length ys \<le> ?c")
      case True
      with g o1(2,4) obtain o2 where "g o1 = Some (Inr o2)" "desc_ok o2" "contents o2 = contents o1 @ ys"
        "desc_capacity o2 = desc_capacity out"
        by (metis writes_fits)
      then show ?thesis using True n1 o1(3) step by simp
    next
      case False
      with g o1(2,4) obtain o2 k where "g o1 = Some (Inl o2)" "desc_ok o2" "contents o2 = contents o1 @ take k ys"
        "desc_capacity o2 = desc_capacity out"
        by (metis writes_overflows)
      moreover have "xs @ take k ys = take (length xs + k) (xs @ ys)" by simp
      ultimately show ?thesis using False n1 o1(3) step by (auto simp: add.assoc simp del: take_append)
    qed
  qed
qed

lemma writes_nothing: "writes (\<lambda>out. Some (Inr out)) []"
  by (auto simp: writes_def desc_ok_def word_le_nat_alt)

lemma writes_if: "writes w bs \<Longrightarrow> writes (write_if c w) (if c then bs else [])"
  by (auto simp: write_if_def writes_nothing)

lemma writes_append_bytes:
  assumes "\<And>out. desc_ok out \<Longrightarrow>
    w out = check_state (xi_data_desc_append_bytes (Some out) (Some src) len)"
    "len \<le> length src" "len < 2 ^ 32"
  shows "writes w (take len src)"
  unfolding writes_def
proof (intro allI impI)
  fix out
  assume ok: "desc_ok out"
  have lt: "unat (desc_length out) + len < 2 ^ 64"
    using unsigned_less [of "desc_length out", where 'a = nat] assms(3) by simp
  show "if unat (desc_length out) + length (take len src) \<le> unat (desc_capacity out)
    then \<exists>o1. w out = Some (Inr o1) \<and> desc_ok o1 \<and> contents o1 = contents out @ take len src
           \<and> desc_capacity o1 = desc_capacity out
    else \<exists>o1 k. w out = Some (Inl o1) \<and> desc_ok o1 \<and> contents o1 = contents out @ take k (take len src)
           \<and> desc_capacity o1 = desc_capacity out"
  proof (cases "unat (desc_length out) + len \<le> unat (desc_capacity out)")
    case True
    obtain e where "append_memcpy out src len = Some e" "desc_ok e" "contents e = contents out @ take len src"
      "desc_capacity e = desc_capacity out"
      using ok assms(2) True by (rule append_memcpy_spec)
    then show ?thesis
      using True assms(1) [OF ok] assms(2) will_it_fit_iff [OF lt]
      by (simp add: xi_data_desc_append_bytes_def check_state_def)
  next
    case False
    then show ?thesis
      using ok assms(1) [OF ok] assms(2) will_it_fit_iff [OF lt]
      by (auto simp: xi_data_desc_append_bytes_def check_state_def intro!: exI [of _ 0])
  qed
qed

lemma append_byte_bytes:
  assumes "desc_ok out"
  shows "xi_data_desc_append_byte (Some out) b = xi_data_desc_append_bytes (Some out) (Some [b]) 1"
proof (cases "xi_data_desc_will_it_fit out 1")
  case True
  then have lt: "unat (desc_length out) < length (data_bytes out)"
    using assms will_it_fit_iff [of out 1] unsigned_less [of "desc_length out", where 'a = nat]
    by (simp add: desc_ok_def)
  have "arr_set (data_bytes out) (int (unat (desc_length out))) b
      = Some ((data_bytes out)[unat (desc_length out) := b])"
    using arr_set_Some [of "int (unat (desc_length out))" "data_bytes out" b] lt
    by (simp only: nat_int of_nat_less_iff of_nat_0_le_iff)
  then show ?thesis
    using True lt
    by (simp only: xi_data_desc_append_byte_def xi_data_desc_append_bytes_def append_memcpy_def option.sel)
      (simp add: upd_conv_take_nth_drop Let_def)
qed (simp add: xi_data_desc_append_byte_def xi_data_desc_append_bytes_def)

lemma writes_8: "writes (WRITE_8 b) [b]"
  using writes_append_bytes [where w = "WRITE_8 b" and src = "[b]" and len = 1]
  by (simp add: WRITE_8_def append_byte_bytes)

lemma ucast_drop_8: "(ucast (drop_bit 8 (v :: 32 word)) :: byte) = of_nat (unat v div 256)"
proof -
  have "unat (drop_bit 8 v) = unat v div 256" by (simp only: unat_drop_bit_eq drop_bit_nat_def) simp
  then show ?thesis by (metis of_nat_unat)
qed

lemma ucast_low_8: "(ucast ((v :: 32 word) AND 0xFF) :: byte) = of_nat (unat v)"
proof -
  have "(0xFF :: 32 word) = mask 8" by (simp add: mask_eq_exp_minus_1)
  then have "ucast (v AND 0xFF) = (ucast v :: byte)"
    by (simp add: bit_eq_iff bit_simps)
  then show ?thesis by (simp add: of_nat_unat)
qed

lemma unat_ucast_16: "unat (ucast (v :: 16 word) :: 32 word) = unat v"
  by (simp add: unsigned_ucast_eq take_bit_nat_eq_self unsigned_less [of v, where 'a = nat, THEN less_trans])

lemma writes_16: "unat v = n \<Longrightarrow> writes (WRITE_16 v) (bytes_16 n)"
  using writes_then [OF writes_8 writes_8]
  by (auto simp: WRITE_16_def bytes_16_def ucast_drop_8 ucast_low_8)

definition str_ok :: "xi_data_desc option \<Rightarrow> bool" where
  "str_ok d \<longleftrightarrow> (\<forall>s. d = Some s \<longrightarrow> desc_ok s)"

lemma writes_string:
  assumes "str_ok d"
  shows "writes (WRITE_STRING d) (string_bytes d)"
proof (cases d)
  case None
  then show ?thesis using writes_16 [of 0 0] by (simp add: WRITE_STRING_def string_bytes_def bytes_16_def)
next
  case (Some s)
  then have ok: "desc_ok s" using assms by (simp add: str_ok_def)
  have "writes (\<lambda>out. check_state (xi_data_desc_append_data (Some out) (Some s)))
      (take (unat (desc_length s)) (data_bytes s))"
    by (rule writes_append_bytes)
      (use ok unsigned_less [of "desc_length s", where 'a = nat] in
        \<open>simp_all add: xi_data_desc_append_data_def desc_ok_def word_le_nat_alt\<close>)
  then show ?thesis
    using Some writes_then [OF writes_16] by (simp add: WRITE_STRING_def string_bytes_def contents_def)
qed

lemma ucast_of_nat_8: "(ucast (of_nat n :: 32 word) :: byte) = of_nat n"
  by (rule bit_word_eqI) (simp add: bit_ucast_iff bit_of_nat_iff)

lemma remaining_length_byte:
  "(ucast ((of_nat n :: 32 word) AND 0x7f OR (if n div 128 > 0 then 0x80 else 0)) :: byte)
     = of_nat (if n < 128 then n else n mod 128 + 128)"
proof -
  have low: "(of_nat n :: 32 word) AND 0x7f = of_nat (n mod 128)"
  proof -
    have "(0x7f :: 32 word) = mask 7" by (simp add: mask_eq_exp_minus_1)
    then have "(of_nat n :: 32 word) AND 0x7f = take_bit 7 (of_nat n)" by (simp add: take_bit_eq_mask)
    moreover have "take_bit 7 (of_nat n :: 32 word) = of_nat (take_bit 7 n)" by (simp only: take_bit_of_nat)
    ultimately show ?thesis by (simp only: take_bit_nat_def) simp
  qed
  have high: "(of_nat (n mod 128) :: 32 word) OR 0x80 = of_nat (n mod 128 + 128)"
  proof -
    have "\<not> bit (of_nat (n mod 128) :: 32 word) 7"
      unfolding bit_of_nat_iff bit_iff_odd [of "n mod 128" 7] by simp
    then have "(of_nat (n mod 128) :: 32 word) AND 0x80 = 0"
      using and_exp_eq_0_iff_not_bit [of "of_nat (n mod 128) :: 32 word" 7] by simp
    then show ?thesis by (simp add: flip: disjunctive_add_eq_or)
  qed
  show ?thesis
  proof (cases "n < 128")
    case True
    then show ?thesis by (simp only: low) (simp add: ucast_of_nat_8)
  next
    case False
    then have "n div 128 > 0" by (simp add: div_greater_zero_iff)
    then show ?thesis using False by (simp only: low high if_True if_False ucast_of_nat_8)
  qed
qed

lemma writes_remaining_length: "writes (write_remaining_length n) (remaining_length_bytes n)"
proof (induction n rule: less_induct)
  case (less n)
  show ?case
  proof (cases "n < 128")
    case True
    then have "write_remaining_length n out = WRITE_8 (of_nat n) out" for out
      using remaining_length_byte [of n]
      by (subst write_remaining_length.simps) (auto simp: Let_def split: option.splits sum.splits)
    moreover have "remaining_length_bytes n = [of_nat n]"
      using True by (subst remaining_length_bytes.simps) simp
    ultimately show ?thesis using writes_8 [of "of_nat n"] by (simp add: writes_def)
  next
    case False
    then have "write_remaining_length n
        = then_write (WRITE_8 (of_nat (n mod 128 + 128))) (write_remaining_length (n div 128))"
      using remaining_length_byte [of n] div_greater_zero_iff [of n 128]
      by (intro ext, subst write_remaining_length.simps)
        (auto simp: Let_def then_write_def split: option.splits sum.splits)
    moreover have "remaining_length_bytes n = [of_nat (n mod 128 + 128)] @ remaining_length_bytes (n div 128)"
      using False by (subst remaining_length_bytes.simps) simp
    moreover have "n div 128 < n" using False by simp
    ultimately show ?thesis using writes_then [OF writes_8 less.IH] by metis
  qed
qed

lemma length_remaining_length_bytes:
  "n \<le> 268435455 \<Longrightarrow> xi_mqtt_get_remaining_length_bytes n = Some (length (remaining_length_bytes n))"
  unfolding xi_mqtt_get_remaining_length_bytes_def
  by (subst remaining_length_bytes.simps, subst remaining_length_bytes.simps,
      subst remaining_length_bytes.simps, subst remaining_length_bytes.simps) auto

section \<open>Serialisable packets\<close>

text \<open>
  What the callers of the serialiser provide: a packet type it knows, well-formed descriptors,
  and the fields the type and the flags announce. The protocol name has the four bytes of
  \<open>MQTT\<close>, which the size computation takes for granted.
\<close>

definition known_type :: "nat \<Rightarrow> bool" where
  "known_type ty \<longleftrightarrow> ty \<in> {XI_MQTT_TYPE_CONNECT, XI_MQTT_TYPE_CONNACK, XI_MQTT_TYPE_PUBLISH,
     XI_MQTT_TYPE_PUBACK, XI_MQTT_TYPE_SUBSCRIBE, XI_MQTT_TYPE_SUBACK, XI_MQTT_TYPE_DISCONNECT,
     XI_MQTT_TYPE_PINGREQ}"

definition fields_ok :: "xi_mqtt_message \<Rightarrow> bool" where
  "fields_ok m \<longleftrightarrow> str_ok (protocol_name m) \<and> str_ok (client_id m) \<and> str_ok (will_topic m)
     \<and> str_ok (will_message m) \<and> str_ok (username m) \<and> str_ok (password m) \<and> str_ok (topic_name m)
     \<and> str_ok (publish_content m) \<and> (\<forall>t. topics m = Some t \<longrightarrow> str_ok (topic_filter t))"

definition fields_present :: "xi_mqtt_message \<Rightarrow> bool" where
  "fields_present m \<longleftrightarrow>
     (msg_type m = XI_MQTT_TYPE_CONNECT \<longrightarrow> desc_len (protocol_name m) = Some 4
        \<and> (flag_will m \<longrightarrow> will_topic m \<noteq> None \<and> will_message m \<noteq> None)
        \<and> (flag_username_follows m \<longrightarrow> username m \<noteq> None)
        \<and> (flag_password_follows m \<longrightarrow> password m \<noteq> None))
   \<and> (msg_type m = XI_MQTT_TYPE_PUBLISH \<longrightarrow> topic_name m \<noteq> None \<and> publish_content m \<noteq> None)
   \<and> (msg_type m = XI_MQTT_TYPE_SUBSCRIBE \<longrightarrow> (\<exists>t. topics m = Some t \<and> topic_filter t \<noteq> None))
   \<and> (msg_type m = XI_MQTT_TYPE_SUBACK \<longrightarrow> topics m \<noteq> None)"

lemma desc_len_Some [simp]: "desc_len (Some d) = Some (unat (desc_length d))"
  by (simp add: desc_len_def)

lemma length_bytes_16 [simp]: "length (bytes_16 n) = 2"
  by (simp add: bytes_16_def)

lemma length_string_bytes:
  "str_ok d \<Longrightarrow> length (string_bytes d) = 2 + (case d of None \<Rightarrow> 0 | Some s \<Rightarrow> unat (desc_length s))"
  by (auto simp: string_bytes_def str_ok_def length_contents split: option.splits)

lemma body_writer_writes:
  assumes "known_type (msg_type m)" "fields_ok m" "fields_present m"
  shows "\<exists>w. body_writer m = Some w \<and> writes w (body_bytes m)"
proof -
  note s = writes_string
  have ok: "writes (WRITE_STRING (protocol_name m)) (string_bytes (protocol_name m))"
    "writes (WRITE_STRING (client_id m)) (string_bytes (client_id m))"
    "writes (WRITE_STRING (will_topic m)) (string_bytes (will_topic m))"
    "writes (WRITE_STRING (will_message m)) (string_bytes (will_message m))"
    "writes (WRITE_STRING (username m)) (string_bytes (username m))"
    "writes (WRITE_STRING (password m)) (string_bytes (password m))"
    "writes (WRITE_STRING (topic_name m)) (string_bytes (topic_name m))"
    using assms(2) by (simp_all add: fields_ok_def s)
  have idw: "writes (WRITE_16 (ucast (message_id m))) (bytes_16 (unat (message_id m)))"
    by (rule writes_16) (simp add: unat_ucast_16)
  have ka: "writes (WRITE_16 (ucast (keepalive m))) (bytes_16 (unat (keepalive m)))"
    by (rule writes_16) (simp add: unat_ucast_16)
  have two: "writes (then_write (WRITE_8 a) (WRITE_8 b)) [a, b]" for a b
    using writes_then [OF writes_8 writes_8] by force
  consider "msg_type m = XI_MQTT_TYPE_CONNECT" | "msg_type m = XI_MQTT_TYPE_CONNACK"
    | "msg_type m = XI_MQTT_TYPE_PUBLISH" | "msg_type m = XI_MQTT_TYPE_PUBACK"
    | "msg_type m = XI_MQTT_TYPE_SUBSCRIBE" | "msg_type m = XI_MQTT_TYPE_SUBACK"
    | "msg_type m \<in> {XI_MQTT_TYPE_DISCONNECT, XI_MQTT_TYPE_PINGREQ}"
    using assms(1) unfolding known_type_def by blast
  then show ?thesis
  proof cases
    case 1
    have "writes (then_write (WRITE_STRING (protocol_name m))
        (then_write (WRITE_8 (protocol_version m))
        (then_write (WRITE_8 (flags_value m))
        (then_write (WRITE_16 (ucast (keepalive m)))
        (then_write (WRITE_STRING (client_id m))
        (then_write (write_if (flag_will m)
                       (then_write (WRITE_STRING (will_topic m)) (WRITE_STRING (will_message m))))
        (then_write (write_if (flag_username_follows m) (WRITE_STRING (username m)))
                    (write_if (flag_password_follows m) (WRITE_STRING (password m))))))))))
      (string_bytes (protocol_name m) @ [protocol_version m] @ [flags_value m] @ bytes_16 (unat (keepalive m))
        @ string_bytes (client_id m)
        @ (if flag_will m then string_bytes (will_topic m) @ string_bytes (will_message m) else [])
        @ (if flag_username_follows m then string_bytes (username m) else [])
        @ (if flag_password_follows m then string_bytes (password m) else []))"
      by (intro writes_then writes_8 writes_if ka ok)
    then show ?thesis using 1 by (simp add: body_writer_def body_bytes_def)
  next
    case 2
    then show ?thesis using two by (simp add: body_writer_def body_bytes_def)
  next
    case 3
    then show ?thesis using writes_then [OF ok(7) writes_if [OF idw]]
      by (simp add: body_writer_def body_bytes_def)
  next
    case 4
    then show ?thesis using idw by (simp add: body_writer_def body_bytes_def)
  next
    case 5
    then obtain t where t: "topics m = Some t" using assms(3) by (auto simp: fields_present_def)
    then have "str_ok (topic_filter t)" using assms(2) by (simp add: fields_ok_def)
    then show ?thesis
      using 5 t writes_then [OF idw writes_then [OF s [of "topic_filter t"] writes_8]]
      by (simp add: body_writer_def body_bytes_def)
  next
    case 6
    then obtain t where t: "topics m = Some t" using assms(3) by (auto simp: fields_present_def)
    then show ?thesis
      using 6 writes_then [OF idw writes_8] by (simp add: body_writer_def body_bytes_def)
  next
    case 7
    then show ?thesis using writes_nothing by (auto simp: body_writer_def body_bytes_def)
  qed
qed

definition payload_length :: "xi_mqtt_message \<Rightarrow> nat" where
  "payload_length m = (if msg_type m = XI_MQTT_TYPE_PUBLISH then length (contents (the (publish_content m))) else 0)"

lemma serialiser_size_spec:
  assumes "known_type (msg_type m)" "fields_ok m" "fields_present m"
    "length (body_bytes m) + payload_length m \<le> 268435455"
  shows "xi_mqtt_serialiser_size True m = Some (XI_STATE_OK,
     1 + length (remaining_length_bytes (length (body_bytes m) + payload_length m))
       + length (body_bytes m) + payload_length m,
     length (body_bytes m) + payload_length m, payload_length m)"
proof -
  note L = length_remaining_length_bytes [OF assms(4)]
  consider "msg_type m = XI_MQTT_TYPE_CONNECT" | "msg_type m = XI_MQTT_TYPE_CONNACK"
    | "msg_type m = XI_MQTT_TYPE_PUBLISH" | "msg_type m = XI_MQTT_TYPE_PUBACK"
    | "msg_type m = XI_MQTT_TYPE_SUBSCRIBE" | "msg_type m = XI_MQTT_TYPE_SUBACK"
    | "msg_type m = XI_MQTT_TYPE_DISCONNECT" | "msg_type m = XI_MQTT_TYPE_PINGREQ"
    using assms(1) unfolding known_type_def by blast
  then show ?thesis
  proof cases
    case 1
    have protocol: "(case protocol_name m of None \<Rightarrow> 0 | Some s \<Rightarrow> unat (desc_length s)) = 4"
      using 1 assms(3) by (auto simp: fields_present_def desc_len_def)
    have p: "payload_length m = 0" using 1 by (simp add: payload_length_def)
    from 1 have n: "length (body_bytes m)
        = 12 + (case client_id m of None \<Rightarrow> 0 | Some d \<Rightarrow> unat (desc_length d))
          + (if flag_will m then 4 + the (desc_len (will_topic m)) + the (desc_len (will_message m)) else 0)
          + (if flag_username_follows m then 2 + the (desc_len (username m)) else 0)
          + (if flag_password_follows m then 2 + the (desc_len (password m)) else 0)"
      using assms(2,3) protocol
      by (auto simp: body_bytes_def payload_length_def fields_ok_def fields_present_def length_string_bytes)
    show ?thesis
      using 1 L [unfolded p n] assms(3)
      unfolding xi_mqtt_serialiser_size_def n p
      by (auto simp: fields_present_def ac_simps)
  next
    case 2
    then show ?thesis using L by (simp add: xi_mqtt_serialiser_size_def body_bytes_def payload_length_def numeral_2_eq_2 numeral_3_eq_3)
  next
    case 3
    then obtain t c where t: "topic_name m = Some t" "publish_content m = Some c"
      using assms(3) by (auto simp: fields_present_def)
    moreover have "desc_ok t" "desc_ok c" using t assms(2) by (auto simp: fields_ok_def str_ok_def)
    ultimately show ?thesis using 3 L
      by (auto simp: xi_mqtt_serialiser_size_def body_bytes_def payload_length_def length_contents
          length_string_bytes str_ok_def ac_simps)
  next
    case 4
    then show ?thesis using L by (simp add: xi_mqtt_serialiser_size_def body_bytes_def payload_length_def numeral_2_eq_2 numeral_3_eq_3)
  next
    case 5
    then obtain t s where t: "topics m = Some t" "topic_filter t = Some s"
      using assms(3) by (auto simp: fields_present_def)
    moreover have "desc_ok s" using t assms(2) by (auto simp: fields_ok_def str_ok_def)
    ultimately show ?thesis using 5 L
      by (auto simp: xi_mqtt_serialiser_size_def body_bytes_def payload_length_def
          length_string_bytes str_ok_def ac_simps)
  next
    case 6
    then show ?thesis using L by (simp add: xi_mqtt_serialiser_size_def body_bytes_def payload_length_def numeral_2_eq_2 numeral_3_eq_3)
  next
    case 7
    then show ?thesis using L by (simp add: xi_mqtt_serialiser_size_def body_bytes_def payload_length_def numeral_2_eq_2 numeral_3_eq_3)
  next
    case 8
    then show ?thesis using L by (simp add: xi_mqtt_serialiser_size_def body_bytes_def payload_length_def numeral_2_eq_2 numeral_3_eq_3)
  qed
qed

lemma serialiser_write_spec:
  assumes "known_type (msg_type m)" "fields_ok m" "fields_present m" "desc_ok buffer"
  shows "if unat (desc_length buffer) + length (packet_bytes m remaining_len) \<le> unat (desc_capacity buffer)
    then \<exists>b. xi_mqtt_serialiser_write err m buffer remaining_len = Some (XI_MQTT_SERIALISER_RC_SUCCESS, err, b)
           \<and> desc_ok b \<and> contents b = contents buffer @ packet_bytes m remaining_len
           \<and> desc_capacity b = desc_capacity buffer
    else \<exists>b k. xi_mqtt_serialiser_write err m buffer remaining_len = Some (XI_MQTT_SERIALISER_RC_ERROR, err, b)
           \<and> desc_ok b \<and> contents b = contents buffer @ take k (packet_bytes m remaining_len)
           \<and> desc_capacity b = desc_capacity buffer"
proof -
  obtain w where w: "body_writer m = Some w" "writes w (body_bytes m)"
    using body_writer_writes [OF assms(1-3)] by blast
  let ?h = "then_write (WRITE_8 (common_value m)) (write_remaining_length remaining_len)"
  let ?all = "then_write ?h w"
  have all: "writes ?all (packet_bytes m remaining_len)"
    using writes_then [OF writes_then [OF writes_8 writes_remaining_length] w(2),
        of "common_value m" remaining_len]
    by (simp add: packet_bytes_def)
  have written: "xi_mqtt_serialiser_write err m buffer remaining_len = (case ?all buffer of
      None \<Rightarrow> None
    | Some (Inl b) \<Rightarrow> Some (XI_MQTT_SERIALISER_RC_ERROR, err, b)
    | Some (Inr b) \<Rightarrow> Some (XI_MQTT_SERIALISER_RC_SUCCESS, err, b))"
    unfolding xi_mqtt_serialiser_write_def w(1) then_write_def [of ?h w]
    by (simp split: option.splits sum.splits)
  show ?thesis
  proof (cases "unat (desc_length buffer) + length (packet_bytes m remaining_len) \<le> unat (desc_capacity buffer)")
    case True
    with all assms(4) obtain b where "?all buffer = Some (Inr b)" "desc_ok b"
      "contents b = contents buffer @ packet_bytes m remaining_len" "desc_capacity b = desc_capacity buffer"
      by (rule writes_fits)
    then show ?thesis using True written by simp
  next
    case False
    with all assms(4) obtain b k where "?all buffer = Some (Inl b)" "desc_ok b"
      "contents b = contents buffer @ take k (packet_bytes m remaining_len)"
      "desc_capacity b = desc_capacity buffer"
      by (rule writes_overflows)
    then show ?thesis using False written by auto
  qed
qed

section \<open>Properties\<close>

text \<open>A PUBLISH packet of quality of service 1 on topic \<open>ab\<close> with three bytes of payload.\<close>

definition bytes_desc :: "addr \<Rightarrow> byte list \<Rightarrow> xi_data_desc" where
  "bytes_desc p bs = \<lparr>desc_block = p, data_ptr = Suc p, data_bytes = bs, desc_capacity = of_nat (length bs),
     desc_length = of_nat (length bs), curr_pos = 0, desc_memory_type = XI_MEMORY_TYPE_MANAGED\<rparr>"

definition publish_example :: xi_mqtt_message where
  "publish_example = (empty_message 1)\<lparr>common_value := 0x32, topic_name := Some (bytes_desc 2 [97, 98]),
     publish_content := Some (bytes_desc 4 [1, 2, 3]), message_id := 258\<rparr>"

definition connect_example :: xi_mqtt_message where
  "connect_example = (empty_message 1)\<lparr>common_value := 0x10,
     protocol_name := Some (bytes_desc 2 [77, 81, 84, 84]), protocol_version := 4, flags_value := 0xC2,
     keepalive := 60, client_id := Some (bytes_desc 4 [120]), username := Some (bytes_desc 6 [117]),
     password := Some (bytes_desc 8 [112])\<rparr>"

definition buffer_example :: "nat \<Rightarrow> xi_data_desc" where
  "buffer_example n = \<lparr>desc_block = 10, data_ptr = 11, data_bytes = replicate n 0, desc_capacity = of_nat n,
     desc_length = 0, curr_pos = 0, desc_memory_type = XI_MEMORY_TYPE_MANAGED\<rparr>"

lemma bytes_desc_ok:
  assumes "length bs < 2 ^ 32"
  shows "desc_ok (bytes_desc p bs)" "contents (bytes_desc p bs) = bs"
    "unat (desc_length (bytes_desc p bs)) = length bs"
proof -
  have "unat (of_nat (length bs) :: 32 word) = length bs" using assms by (intro of_nat_inverse) simp_all
  then show "desc_ok (bytes_desc p bs)" "contents (bytes_desc p bs) = bs"
    "unat (desc_length (bytes_desc p bs)) = length bs"
    by (simp_all add: desc_ok_def contents_def bytes_desc_def)
qed

lemma buffer_example_ok:
  assumes "n < 2 ^ 32"
  shows "desc_ok (buffer_example n)" "contents (buffer_example n) = []" "desc_length (buffer_example n) = 0"
    "unat (desc_capacity (buffer_example n)) = n"
proof -
  have "unat (of_nat n :: 32 word) = n" using assms by (intro of_nat_inverse) simp_all
  then show "desc_ok (buffer_example n)" "contents (buffer_example n) = []" "desc_length (buffer_example n) = 0"
    "unat (desc_capacity (buffer_example n)) = n"
    by (simp_all add: desc_ok_def contents_def buffer_example_def)
qed

lemma publish_example_ok:
  "known_type (msg_type publish_example)" "fields_ok publish_example" "fields_present publish_example"
  "packet_bytes publish_example 9 = [0x32, 9, 0, 2, 97, 98, 1, 2]"
proof -
  show "known_type (msg_type publish_example)" by code_simp
  show "fields_ok publish_example"
    by (simp add: fields_ok_def str_ok_def publish_example_def empty_message_def bytes_desc_ok)
  have "msg_type publish_example = 3" by code_simp
  then show "fields_present publish_example" by (simp add: fields_present_def publish_example_def)
  show "packet_bytes publish_example 9 = [0x32, 9, 0, 2, 97, 98, 1, 2]" by code_simp
qed

lemma connect_example_ok:
  "known_type (msg_type connect_example)" "fields_ok connect_example" "fields_present connect_example"
  "length (body_bytes connect_example) = 19" "payload_length connect_example = 0"
proof -
  show "known_type (msg_type connect_example)" by code_simp
  show "fields_ok connect_example"
    by (simp add: fields_ok_def str_ok_def connect_example_def empty_message_def bytes_desc_ok)
  have "msg_type connect_example = 1" "\<not> flag_will connect_example"
    "desc_len (protocol_name connect_example) = Some 4" by code_simp+
  then show "fields_present connect_example" by (simp add: fields_present_def connect_example_def)
  show "length (body_bytes connect_example) = 19" "payload_length connect_example = 0" by code_simp+
qed

text \<open>
  C18: Sizing and writing agree. For a serialisable packet the size computation succeeds, its
  remaining length is the length of what follows the fixed header, and an empty buffer of
  \<open>msg_len - publish_payload_len\<close> bytes, which is what the codec layer allocates, is filled
  exactly with the packet: the first byte, the remaining length and the body of its type.
\<close>

theorem serialiser_fills_the_computed_size:
  assumes "known_type (msg_type m)" "fields_ok m" "fields_present m"
    "length (body_bytes m) + payload_length m \<le> 268435455"
    "desc_ok buffer" "desc_length buffer = 0"
  shows "\<exists>msg_len remaining_len. xi_mqtt_serialiser_size True m
      = Some (XI_STATE_OK, msg_len, remaining_len, payload_length m)
    \<and> remaining_len = length (body_bytes m) + payload_length m
    \<and> (unat (desc_capacity buffer) = msg_len - payload_length m \<longrightarrow>
        (\<exists>b. xi_mqtt_serialiser_write err m buffer remaining_len = Some (XI_MQTT_SERIALISER_RC_SUCCESS, err, b)
           \<and> contents b = packet_bytes m remaining_len \<and> desc_length b = desc_capacity b))"
proof -
  let ?r = "length (body_bytes m) + payload_length m"
  have size: "xi_mqtt_serialiser_size True m = Some (XI_STATE_OK,
     length (packet_bytes m ?r) + payload_length m, ?r, payload_length m)"
    using serialiser_size_spec [OF assms(1-4)] by (simp add: packet_bytes_def)
  have written: "\<exists>b. xi_mqtt_serialiser_write err m buffer ?r = Some (XI_MQTT_SERIALISER_RC_SUCCESS, err, b)
      \<and> contents b = packet_bytes m ?r \<and> desc_length b = desc_capacity b"
    if cap: "unat (desc_capacity buffer) = length (packet_bytes m ?r)"
  proof -
    have e: "contents buffer = []" using assms(6) by (simp add: contents_def)
    obtain b where b: "xi_mqtt_serialiser_write err m buffer ?r = Some (XI_MQTT_SERIALISER_RC_SUCCESS, err, b)"
      "desc_ok b" "contents b = packet_bytes m ?r" "desc_capacity b = desc_capacity buffer"
      using serialiser_write_spec [OF assms(1-3,5), of ?r err] cap assms(6) by (auto simp: e)
    then have "unat (desc_length b) = unat (desc_capacity b)"
      using cap length_contents [of b] by simp
    then show ?thesis using b by (auto simp: word_unat_eq_iff)
  qed
  show ?thesis using size written by simp
qed

theorem serialiser_fills_the_computed_size_witness:
  "\<exists>b. xi_mqtt_serialiser_size True connect_example = Some (XI_STATE_OK, 21, 19, 0)
    \<and> xi_mqtt_serialiser_write XI_MQTT_ERROR_NONE connect_example (buffer_example 21) 19
        = Some (XI_MQTT_SERIALISER_RC_SUCCESS, XI_MQTT_ERROR_NONE, b)
    \<and> contents b = packet_bytes connect_example 19 \<and> desc_length b = desc_capacity b"
proof -
  have size: "xi_mqtt_serialiser_size True connect_example = Some (XI_STATE_OK, 21, 19, 0)" by code_simp
  show ?thesis
    using serialiser_fills_the_computed_size [where m = connect_example and buffer = "buffer_example 21"
        and err = XI_MQTT_ERROR_NONE] size
    by (simp add: connect_example_ok buffer_example_ok del: known_type_def)
qed

text \<open>
  Writing stays inside the buffer: with enough room the packet is appended and nothing
  before it changes; without, the serialiser reports an error, having written a prefix of the
  packet and nothing past the capacity.
\<close>

lemma serialiser_write_outcomes:
  assumes "known_type (msg_type m)" "fields_ok m" "fields_present m" "desc_ok buffer"
  shows "\<exists>rc b k. xi_mqtt_serialiser_write err m buffer remaining_len = Some (rc, err, b) \<and> desc_ok b
    \<and> contents b = contents buffer @ take k (packet_bytes m remaining_len)
    \<and> desc_capacity b = desc_capacity buffer
    \<and> (rc = XI_MQTT_SERIALISER_RC_SUCCESS \<longleftrightarrow>
        unat (desc_length buffer) + length (packet_bytes m remaining_len) \<le> unat (desc_capacity buffer))
    \<and> (rc = XI_MQTT_SERIALISER_RC_SUCCESS \<longrightarrow> k = length (packet_bytes m remaining_len))"
proof (cases "unat (desc_length buffer) + length (packet_bytes m remaining_len) \<le> unat (desc_capacity buffer)")
  case True
  then show ?thesis
    using serialiser_write_spec [OF assms, of remaining_len err]
    by (intro exI [of _ XI_MQTT_SERIALISER_RC_SUCCESS]) auto
next
  case False
  then show ?thesis
    using serialiser_write_spec [OF assms, of remaining_len err]
    by (intro exI [of _ XI_MQTT_SERIALISER_RC_ERROR]) auto
qed

text \<open>
  A packet type the serialiser does not know is refused by both functions; the writer has
  by then put the fixed header into the buffer.
\<close>

lemma serialiser_refuses_unknown_types:
  assumes "\<not> known_type (msg_type m)" "desc_ok buffer"
    "unat (desc_length buffer) + 1 + length (remaining_length_bytes remaining_len) \<le> unat (desc_capacity buffer)"
  shows "xi_mqtt_serialiser_size True m = Some (XI_MQTT_SERIALIZER_ERROR, 1, 0, 0)
    \<and> (\<exists>b. xi_mqtt_serialiser_write err m buffer remaining_len
         = Some (XI_MQTT_SERIALISER_RC_ERROR, XI_MQTT_ERROR_SERIALISER_INVALID_MESSAGE_ID, b)
       \<and> contents b = contents buffer @ common_value m # remaining_length_bytes remaining_len)"
proof -
  let ?h = "then_write (WRITE_8 (common_value m)) (write_remaining_length remaining_len)"
  have h: "writes ?h (common_value m # remaining_length_bytes remaining_len)"
    using writes_then [OF writes_8 writes_remaining_length] by simp
  obtain b where "?h buffer = Some (Inr b)"
    "contents b = contents buffer @ common_value m # remaining_length_bytes remaining_len"
    by (rule writes_fits [OF h assms(2)]) (use assms(3) in simp_all)
  moreover have "body_writer m = None" "xi_mqtt_serialiser_size True m = Some (XI_MQTT_SERIALIZER_ERROR, 1, 0, 0)"
    using assms(1) by (auto simp: known_type_def body_writer_def xi_mqtt_serialiser_size_def Let_def)
  ultimately show ?thesis by (simp add: xi_mqtt_serialiser_write_def)
qed

text \<open>
  A string of 65536 bytes or more is written in full behind a length field that holds its
  length modulo 65536, which makes the packet unreadable for the receiver.
\<close>

lemma serialiser_truncates_string_lengths:
  assumes "desc_ok s" "65536 \<le> unat (desc_length s)" "desc_ok buffer"
    "unat (desc_length buffer) + 2 + unat (desc_length s) \<le> unat (desc_capacity buffer)"
  shows "\<exists>b hi lo. WRITE_STRING (Some s) buffer = Some (Inr b)
    \<and> contents b = contents buffer @ hi # lo # contents s
    \<and> 256 * unat hi + unat lo = unat (desc_length s) mod 65536
    \<and> 256 * unat hi + unat lo < length (contents s)"
proof -
  let ?n = "unat (desc_length s)"
  have w: "writes (WRITE_STRING (Some s)) (string_bytes (Some s))"
    using assms(1) by (intro writes_string) (simp add: str_ok_def)
  have len: "length (string_bytes (Some s)) = 2 + ?n"
    using assms(1) by (simp add: length_string_bytes str_ok_def)
  obtain b where "WRITE_STRING (Some s) buffer = Some (Inr b)" "contents b = contents buffer @ string_bytes (Some s)"
    by (rule writes_fits [OF w assms(3)]) (use len assms(4) in simp_all)
  moreover have "256 * unat (of_nat (?n div 256) :: byte) + unat (of_nat ?n :: byte) = ?n mod 65536"
    using mod_mult2_eq [of ?n 256 256] by (simp only: unat_of_nat) simp
  moreover have "?n mod 65536 < ?n" using assms(2) mod_less_divisor [of 65536 ?n] by linarith
  ultimately show ?thesis
    using length_contents [OF assms(1)] by (auto simp: string_bytes_def bytes_16_def)
qed

end
