(* ===== verification/Mqtt_Parser.thy ===== *)
theory Mqtt_Parser
  imports Mqtt_Serialiser
begin

unbundle bit_operations_syntax

text \<open>
  \<open>src/libxively/mqtt/codec/xi_mqtt_parser.c\<close>: the incremental parser, a coroutine
  (\<open>xi_coroutine.h\<close>) that returns \<open>XI_STATE_WANT_READ\<close> where its input buffer is used up and
  goes on from there when it is called with the next buffer. The saved state is the line of
  the \<open>XI_CR_YIELD\<close> macro in the source; each piece of code between two such places is a
  definition that takes the parse state, so that entering the \<open>switch\<close> at a label is calling
  the definition of the code after it. The labels are the source's line numbers.

  A resumed \<open>XI_CR_YIELD_ON\<close> does not check its condition again: the code after it reads from
  the new buffer at once. \<open>size_t\<close> is a 64-bit word. \<open>None\<close> is an access outside a buffer or a
  failed assertion.
\<close>

section \<open>State\<close>

record xi_mqtt_parser =
  parser_error :: xi_mqtt_error
  cs :: nat
  read_cs :: nat
  buffer_pending :: bool
  parser_buffer :: addr
  parser_buffer_length :: "64 word"
  digit_bytes :: "64 word"
  multiplier :: "64 word"
  remaining_length :: "64 word"
  str_length :: "64 word"
  data_length :: "64 word"

text \<open>
  What a call works on. \<open>local_state\<close> is the \<open>static\<close> variable of \<open>xi_mqtt_parser_execute\<close>:
  one cell for all parsers of the program, not part of any of them.
\<close>

record parse_state =
  parser :: xi_mqtt_parser
  message :: xi_mqtt_message
  input :: xi_data_desc
  local_state :: xi_state
  memory :: xi_memory

type_synonym parse = "parse_state \<Rightarrow> (xi_state \<times> parse_state) option"

definition xi_mqtt_parser_init :: "xi_mqtt_parser \<Rightarrow> xi_mqtt_parser" where
  "xi_mqtt_parser_init p = \<lparr>parser_error = XI_MQTT_ERROR_NONE, cs = 0, read_cs = 0, buffer_pending = False,
     parser_buffer = NULL, parser_buffer_length = 0, digit_bytes = 0, multiplier = 0, remaining_length = 0,
     str_length = 0, data_length = 0\<rparr>"

definition xi_mqtt_parser_buffer :: "xi_mqtt_parser \<Rightarrow> addr \<Rightarrow> 64 word \<Rightarrow> xi_mqtt_parser" where
  "xi_mqtt_parser_buffer p buffer buffer_length =
     p\<lparr>buffer_pending := True, parser_buffer := buffer, parser_buffer_length := buffer_length\<rparr>"

section \<open>The input buffer\<close>

text \<open>\<open>( src->curr_pos - src->length ) == 0\<close> and \<open>src->data_ptr[src->curr_pos]\<close>.\<close>

definition at_end :: "xi_data_desc \<Rightarrow> bool" where
  "at_end d \<longleftrightarrow> curr_pos d - desc_length d = 0"

definition byte_at :: "xi_data_desc \<Rightarrow> byte option" where
  "byte_at d = (if unat (curr_pos d) < length (data_bytes d) then Some (data_bytes d ! unat (curr_pos d)) else None)"

definition skip :: "32 word \<Rightarrow> xi_data_desc \<Rightarrow> xi_data_desc" where
  "skip n d = d\<lparr>curr_pos := curr_pos d + n\<rparr>"

section \<open>Reading strings and data\<close>

text \<open>The state of \<open>read_string\<close> and \<open>read_data\<close>: parser, destination, source and memory.\<close>

type_synonym read_state = "xi_mqtt_parser \<times> xi_data_desc option \<times> xi_data_desc \<times> xi_memory"

text \<open>
  The body shared by the two functions: the appending loop, entered with the amount still to
  read. One iteration ends the call: either everything was there or the loop yields.
  \<open>counted\<close> tells whether \<open>data_length\<close> is kept up, \<open>label\<close> is the resumption point.
\<close>

definition read_loop :: "nat \<Rightarrow> bool \<Rightarrow> 64 word \<Rightarrow> 64 word \<Rightarrow> read_state \<Rightarrow> (xi_state \<times> read_state) option" where
  "read_loop label counted to_read len_to_read = (\<lambda>(p, dst, src, m).
     if to_read > 0 then do {
       (st, dst1, m1) \<leftarrow> xi_data_desc_append_data_resize dst (Some (drop (unat (curr_pos src)) (data_bytes src)))
                          (unat len_to_read) m;
       if st \<noteq> XI_STATE_OK then Some (st, p\<lparr>read_cs := 1\<rparr>, dst1, src, m1)
       else do {
         let src1 = skip (ucast len_to_read) src;
         let left = to_read - len_to_read;
         let p1 = (if counted then p\<lparr>data_length := data_length p + len_to_read\<rparr> else p);
         if left > 0 then Some (XI_STATE_WANT_READ, p1\<lparr>read_cs := label\<rparr>, dst1, src1, m1)
         else Some (XI_STATE_OK, p1\<lparr>read_cs := 0\<rparr>, dst1, src1, m1) } }
     else Some (XI_STATE_OK, p\<lparr>read_cs := 0\<rparr>, dst, src, m))"

text \<open>\<open>to_read\<close> and \<open>len_to_read\<close> as the functions compute them; the difference of the two
  \<open>uint32_t\<close> counters of the source is taken in 32 bits.\<close>

definition to_read_of :: "xi_mqtt_parser \<Rightarrow> xi_data_desc \<Rightarrow> 64 word" where
  "to_read_of p d = str_length p - ucast (desc_length d)"

definition src_left_of :: "xi_data_desc \<Rightarrow> 64 word" where
  "src_left_of src = ucast (desc_length src - curr_pos src)"

definition read_loop_of :: "nat \<Rightarrow> bool \<Rightarrow> xi_data_desc \<Rightarrow> read_state \<Rightarrow> (xi_state \<times> read_state) option" where
  "read_loop_of label counted d = (\<lambda>(p, dst, src, m).
     read_loop label counted (to_read_of p d) (min (to_read_of p d) (src_left_of src)) (p, dst, src, m))"

text \<open>After the third yield, after the second and after the first one of \<open>read_string\<close>.\<close>

definition read_string_low :: "xi_data_desc \<Rightarrow> read_state \<Rightarrow> (xi_state \<times> read_state) option" where
  "read_string_low d = (\<lambda>(p, dst, src, m). do {
     b \<leftarrow> byte_at src;
     let p1 = p\<lparr>str_length := str_length p + ucast b, data_length := data_length p + 1\<rparr>;
     let src1 = skip 1 src;
     if at_end src1 then Some (XI_STATE_WANT_READ, p1\<lparr>read_cs := 62\<rparr>, dst, src1, m)
     else read_loop_of 77 True d (p1, dst, src1, m) })"

definition read_string_high :: "xi_data_desc \<Rightarrow> read_state \<Rightarrow> (xi_state \<times> read_state) option" where
  "read_string_high d = (\<lambda>(p, dst, src, m). do {
     b \<leftarrow> byte_at src;
     let p1 = p\<lparr>str_length := push_bit 8 (ucast b), data_length := data_length p + 1\<rparr>;
     let src1 = skip 1 src;
     if at_end src1 then Some (XI_STATE_WANT_READ, p1\<lparr>read_cs := 53\<rparr>, dst, src1, m)
     else read_string_low d (p1, dst, src1, m) })"

text \<open>The allocation both functions start with; its failure ends the coroutine.\<close>

definition with_destination ::
    "(xi_data_desc \<Rightarrow> read_state \<Rightarrow> (xi_state \<times> read_state) option)
       \<Rightarrow> read_state \<Rightarrow> (xi_state \<times> read_state) option" where
  "with_destination k = (\<lambda>(p, dst, src, m). case dst of
     Some d \<Rightarrow> k d (p, dst, src, m)
   | None \<Rightarrow> do {
       (dst1, m1) \<leftarrow> xi_make_empty_desc_alloc 4 m;
       case dst1 of
         None \<Rightarrow> Some (XI_OUT_OF_MEMORY, p\<lparr>read_cs := 1\<rparr>, None, src, m1)
       | Some d \<Rightarrow> k d (p, Some d, src, m1) })"

definition read_string :: "read_state \<Rightarrow> (xi_state \<times> read_state) option" where
  "read_string = with_destination (\<lambda>d (p, dst, src, m).
     if read_cs p = 53 then read_string_low d (p, dst, src, m)
     else if read_cs p = 62 \<or> read_cs p = 77 then read_loop_of 77 True d (p, dst, src, m)
     else if read_cs p = 46 then read_string_high d (p, dst, src, m)
     else if at_end src then Some (XI_STATE_WANT_READ, p\<lparr>read_cs := 46\<rparr>, dst, src, m)
     else read_string_high d (p, dst, src, m))"

definition read_data :: "read_state \<Rightarrow> (xi_state \<times> read_state) option" where
  "read_data = with_destination (\<lambda>d (p, dst, src, m).
     if read_cs p = 134 \<or> read_cs p = 146 then read_loop_of 146 False d (p, dst, src, m)
     else if at_end src then Some (XI_STATE_WANT_READ, p\<lparr>read_cs := 134\<rparr>, dst, src, m)
     else read_loop_of 146 False d (p, dst, src, m))"

text \<open>The status byte of a SUBACK; the second component is what is stored.\<close>

definition xi_mqtt_parse_suback_response :: "byte \<Rightarrow> xi_state \<times> byte option" where
  "xi_mqtt_parse_suback_response resp =
     (if resp \<in> {0x00, 0x01, 0x02, 0x80} then (XI_STATE_OK, Some resp) else (XI_MQTT_PARSER_ERROR, None))"

section \<open>The coroutine macros\<close>

definition set_cs :: "nat \<Rightarrow> parse_state \<Rightarrow> parse_state" where
  "set_cs l s = s\<lparr>parser := (parser s)\<lparr>cs := l\<rparr>\<rparr>"

definition CR_EXIT :: "xi_state \<Rightarrow> parse" where
  "CR_EXIT r s = Some (r, set_cs 1 s)"

definition YIELD_ON_END :: "nat \<Rightarrow> parse \<Rightarrow> parse" where
  "YIELD_ON_END l k s = (if at_end (input s) then Some (XI_STATE_WANT_READ, set_cs l s) else k s)"

text \<open>
  \<open>READ_STRING\<close> and \<open>READ_DATA\<close>, with the field they fill as a pair of functions. Resuming
  them jumps to the test of the loop, which looks at the static \<open>local_state\<close>.
\<close>

type_synonym field =
  "(xi_mqtt_message \<Rightarrow> xi_data_desc option option) \<times> (xi_data_desc option \<Rightarrow> xi_mqtt_message \<Rightarrow> xi_mqtt_message)"

definition READ_INTO :: "(read_state \<Rightarrow> (xi_state \<times> read_state) option) \<Rightarrow> nat \<Rightarrow> field \<Rightarrow> parse \<Rightarrow> parse" where
  "READ_INTO rd l into k s = do {
     dst \<leftarrow> fst into (message s);
     (st, p1, dst1, src1, m1) \<leftarrow> rd (parser s, dst, input s, memory s);
     let s1 = s\<lparr>parser := p1, message := snd into dst1 (message s), input := src1, local_state := st, memory := m1\<rparr>;
     if st = XI_STATE_WANT_READ then Some (XI_STATE_WANT_READ, set_cs l s1)
     else if st \<noteq> XI_STATE_OK then CR_EXIT st s1
     else k s1 }"

definition RESUME_INTO :: "(read_state \<Rightarrow> (xi_state \<times> read_state) option) \<Rightarrow> nat \<Rightarrow> field \<Rightarrow> parse \<Rightarrow> parse" where
  "RESUME_INTO rd l into k s = (if local_state s \<noteq> XI_STATE_OK then READ_INTO rd l into k s else k s)"

abbreviation "READ_STRING \<equiv> READ_INTO read_string"
abbreviation "READ_DATA \<equiv> READ_INTO read_data"

definition protocol_name_field :: field where
  "protocol_name_field = (\<lambda>m. Some (protocol_name m), \<lambda>d m. m\<lparr>protocol_name := d\<rparr>)"
definition client_id_field :: field where
  "client_id_field = (\<lambda>m. Some (client_id m), \<lambda>d m. m\<lparr>client_id := d\<rparr>)"
definition will_topic_field :: field where
  "will_topic_field = (\<lambda>m. Some (will_topic m), \<lambda>d m. m\<lparr>will_topic := d\<rparr>)"
definition will_message_field :: field where
  "will_message_field = (\<lambda>m. Some (will_message m), \<lambda>d m. m\<lparr>will_message := d\<rparr>)"
definition username_field :: field where
  "username_field = (\<lambda>m. Some (username m), \<lambda>d m. m\<lparr>username := d\<rparr>)"
definition password_field :: field where
  "password_field = (\<lambda>m. Some (password m), \<lambda>d m. m\<lparr>password := d\<rparr>)"
definition topic_name_field :: field where
  "topic_name_field = (\<lambda>m. Some (topic_name m), \<lambda>d m. m\<lparr>topic_name := d\<rparr>)"
definition content_field :: field where
  "content_field = (\<lambda>m. Some (publish_content m), \<lambda>d m. m\<lparr>publish_content := d\<rparr>)"
definition topic_filter_field :: field where
  "topic_filter_field = (\<lambda>m. map_option topic_filter (topics m),
     \<lambda>d m. m\<lparr>topics := map_option (\<lambda>t. t\<lparr>topic_filter := d\<rparr>) (topics m)\<rparr>)"

text \<open>Reading one byte of the packet, counting it.\<close>

definition take_byte :: "(byte \<Rightarrow> xi_mqtt_message \<Rightarrow> xi_mqtt_message) \<Rightarrow> parse \<Rightarrow> parse" where
  "take_byte put k s = do {
     b \<leftarrow> byte_at (input s);
     k (s\<lparr>message := put b (message s), input := skip 1 (input s),
         parser := (parser s)\<lparr>data_length := data_length (parser s) + 1\<rparr>\<rparr>) }"

definition put_id_high :: "byte \<Rightarrow> xi_mqtt_message \<Rightarrow> xi_mqtt_message" where
  "put_id_high b m = m\<lparr>message_id := push_bit 8 (ucast b)\<rparr>"

definition put_id_low :: "byte \<Rightarrow> xi_mqtt_message \<Rightarrow> xi_mqtt_message" where
  "put_id_low b m = m\<lparr>message_id := message_id m + ucast b\<rparr>"

section \<open>The packets\<close>

text \<open>CONNECT, from its last field to its first.\<close>

definition connect_password :: parse where
  "connect_password s =
     (if flag_password_follows (message s) then READ_STRING 297 password_field (CR_EXIT XI_STATE_OK) s
      else CR_EXIT XI_STATE_OK s)"

definition connect_username :: parse where
  "connect_username s =
     (if flag_username_follows (message s) then READ_STRING 292 username_field connect_password s
      else connect_password s)"

definition connect_will_message :: parse where
  "connect_will_message s =
     (if flag_will (message s) then READ_STRING 287 will_message_field connect_username s
      else connect_username s)"

definition connect_will_topic :: parse where
  "connect_will_topic s =
     (if flag_will (message s) then READ_STRING 282 will_topic_field connect_will_message s
      else connect_will_message s)"

definition connect_client_id :: parse where
  "connect_client_id = READ_STRING 278 client_id_field connect_will_topic"

definition connect_keepalive_low :: parse where
  "connect_keepalive_low = take_byte (\<lambda>b m. m\<lparr>keepalive := keepalive m + ucast b\<rparr>) connect_client_id"

definition connect_keepalive_high :: parse where
  "connect_keepalive_high = take_byte (\<lambda>b m. m\<lparr>keepalive := push_bit 8 (ucast b)\<rparr>)
     (YIELD_ON_END 271 connect_keepalive_low)"

definition connect_flags :: parse where
  "connect_flags = take_byte (\<lambda>b m. m\<lparr>flags_value := b\<rparr>) (YIELD_ON_END 264 connect_keepalive_high)"

definition connect_version :: parse where
  "connect_version = take_byte (\<lambda>b m. m\<lparr>protocol_version := b\<rparr>) (YIELD_ON_END 256 connect_flags)"

definition parse_connect :: parse where
  "parse_connect = READ_STRING 246 protocol_name_field (YIELD_ON_END 248 connect_version)"

text \<open>CONNACK.\<close>

definition connack_code :: parse where
  "connack_code = take_byte (\<lambda>b m. m\<lparr>return_code := b\<rparr>) (CR_EXIT XI_STATE_OK)"

definition connack_unused_byte :: parse where
  "connack_unused_byte = take_byte (\<lambda>b m. m\<lparr>connack_unused := b\<rparr>) (YIELD_ON_END 311 connack_code)"

definition parse_connack :: parse where
  "parse_connack = YIELD_ON_END 304 connack_unused_byte"

text \<open>PUBLISH; the length of the payload is what the strings before it leave over.\<close>

definition publish_payload :: parse where
  "publish_payload s =
     (let p = parser s; n = (remaining_length p + 2) - data_length p; s1 = s\<lparr>parser := p\<lparr>str_length := n\<rparr>\<rparr>
      in if n > 0 then READ_DATA 348 content_field (CR_EXIT XI_STATE_OK) s1 else CR_EXIT XI_STATE_OK s1)"

definition publish_id_low :: parse where
  "publish_id_low = take_byte put_id_low publish_payload"

definition publish_id :: parse where
  "publish_id s =
     (if msg_qos (message s) > 0 then take_byte put_id_high (YIELD_ON_END 336 publish_id_low) s
      else publish_payload s)"

definition publish_topic :: parse where
  "publish_topic = READ_STRING 325 topic_name_field (YIELD_ON_END 327 publish_id)"

definition parse_publish :: parse where
  "parse_publish = YIELD_ON_END 322 publish_topic"

text \<open>PUBACK, PUBREC, PUBREL and PUBCOMP consist of a packet identifier.\<close>

definition ident_low :: parse where
  "ident_low = take_byte put_id_low (CR_EXIT XI_STATE_OK)"

definition ident_high :: "nat \<Rightarrow> parse" where
  "ident_high l = take_byte put_id_high (YIELD_ON_END l ident_low)"

definition parse_puback :: parse where "parse_puback = YIELD_ON_END 355 (ident_high 362)"
definition parse_pubrec :: parse where "parse_pubrec = YIELD_ON_END 373 (ident_high 380)"
definition parse_pubrel :: parse where "parse_pubrel = YIELD_ON_END 391 (ident_high 398)"
definition parse_pubcomp :: parse where "parse_pubcomp = YIELD_ON_END 409 (ident_high 416)"

text \<open>The allocation of the topic pair; its failure jumps to \<open>err_handling\<close>.\<close>

definition sizeof_xi_mqtt_topicpair :: nat where "sizeof_xi_mqtt_topicpair = 24"

definition ALLOC_TOPICS :: "parse \<Rightarrow> parse" where
  "ALLOC_TOPICS k s =
     (let (p, m1) = xi_alloc sizeof_xi_mqtt_topicpair (memory s)
      in if p = NULL
         then CR_EXIT XI_OUT_OF_MEMORY
           (s\<lparr>message := (message s)\<lparr>topics := None\<rparr>, local_state := XI_OUT_OF_MEMORY, memory := m1\<rparr>)
         else k (s\<lparr>message := (message s)\<lparr>topics := Some \<lparr>topicpair_block = p, topic_filter = None,
                    payload_byte = 0\<rparr>\<rparr>, memory := m1\<rparr>))"

text \<open>SUBSCRIBE.\<close>

definition subscribe_qos :: parse where
  "subscribe_qos s = do {
     t \<leftarrow> topics (message s);
     take_byte (\<lambda>b m. m\<lparr>topics := Some (t\<lparr>payload_byte := b\<rparr>)\<rparr>) (CR_EXIT XI_STATE_OK) s }"

definition subscribe_topic :: parse where
  "subscribe_topic = ALLOC_TOPICS (READ_STRING 446 topic_filter_field (YIELD_ON_END 448 subscribe_qos))"

definition subscribe_id_low :: parse where
  "subscribe_id_low = take_byte put_id_low (YIELD_ON_END 441 subscribe_topic)"

definition subscribe_id_high :: parse where
  "subscribe_id_high = take_byte put_id_high (YIELD_ON_END 434 subscribe_id_low)"

definition parse_subscribe :: parse where
  "parse_subscribe = YIELD_ON_END 427 subscribe_id_high"

text \<open>SUBACK: an unknown status jumps to \<open>err_handling\<close> before the byte is consumed.\<close>

definition suback_status :: parse where
  "suback_status = ALLOC_TOPICS (\<lambda>s. do {
     b \<leftarrow> byte_at (input s);
     t \<leftarrow> topics (message s);
     case xi_mqtt_parse_suback_response b of
       (st, None) \<Rightarrow> CR_EXIT st (s\<lparr>local_state := st\<rparr>)
     | (st, Some v) \<Rightarrow>
         take_byte (\<lambda>_ m. m\<lparr>topics := Some (t\<lparr>payload_byte := v\<rparr>)\<rparr>) (CR_EXIT XI_STATE_OK)
           (s\<lparr>local_state := st\<rparr>) })"

definition suback_id_low :: parse where
  "suback_id_low = take_byte put_id_low (YIELD_ON_END 474 suback_status)"

definition suback_id_high :: parse where
  "suback_id_high = take_byte put_id_high (YIELD_ON_END 467 suback_id_low)"

definition parse_suback :: parse where
  "parse_suback = YIELD_ON_END 460 suback_id_high"

section \<open>The fixed header\<close>

definition parse_unknown :: parse where
  "parse_unknown s = CR_EXIT XI_MQTT_PARSER_ERROR
     (s\<lparr>parser := (parser s)\<lparr>parser_error := XI_MQTT_ERROR_PARSER_INVALID_MESSAGE_ID, read_cs := 2\<rparr>\<rparr>)"

text \<open>The dispatch on the packet type.\<close>

definition parse_body :: parse where
  "parse_body s = (let ty = msg_type (message s) in
     if ty = XI_MQTT_TYPE_CONNECT then parse_connect s
     else if ty = XI_MQTT_TYPE_CONNACK then parse_connack s
     else if ty = XI_MQTT_TYPE_PUBLISH then parse_publish s
     else if ty = XI_MQTT_TYPE_PUBACK then parse_puback s
     else if ty = XI_MQTT_TYPE_PUBREC then parse_pubrec s
     else if ty = XI_MQTT_TYPE_PUBREL then parse_pubrel s
     else if ty = XI_MQTT_TYPE_PUBCOMP then parse_pubcomp s
     else if ty = XI_MQTT_TYPE_SUBSCRIBE then parse_subscribe s
     else if ty = XI_MQTT_TYPE_SUBACK then parse_suback s
     else if ty = XI_MQTT_TYPE_PINGRESP then CR_EXIT XI_STATE_OK s
     else if ty = XI_MQTT_TYPE_DISCONNECT then CR_EXIT XI_STATE_OK s
     else parse_unknown s)"

text \<open>After the loop over the remaining length; \<open>b\<close> is its last byte.\<close>

definition header_done :: "byte \<Rightarrow> parse" where
  "header_done b s =
     (if b \<ge> 0x80
      then CR_EXIT XI_MQTT_PARSER_ERROR
        (s\<lparr>parser := (parser s)\<lparr>parser_error := XI_MQTT_ERROR_PARSER_INVALID_REMAINING_LENGTH\<rparr>\<rparr>)
      else parse_body (s\<lparr>message := (message s)\<lparr>remaining_length_field := ucast (remaining_length (parser s))\<rparr>,
             input := skip 1 (input s), parser := (parser s)\<lparr>data_length := data_length (parser s) + 1\<rparr>\<rparr>))"

text \<open>The body of the loop after its yield, with the next round.\<close>

function remaining_length_digit :: parse where
  "remaining_length_digit s = (case byte_at (input s) of None \<Rightarrow> None | Some b \<Rightarrow>
     (let p = parser s;
          s1 = s\<lparr>parser := p\<lparr>remaining_length := remaining_length p + ucast (b AND 0x7f) * multiplier p,
                            multiplier := multiplier p * 128\<rparr>\<rparr>
      in if b AND 0x80 \<noteq> 0 \<and> digit_bytes p < 4
         then (let s2 = s1\<lparr>input := skip 1 (input s1),
                           parser := (parser s1)\<lparr>digit_bytes := digit_bytes p + 1\<rparr>\<rparr>
               in if at_end (input s2) then Some (XI_STATE_WANT_READ, set_cs 223 s2) else remaining_length_digit s2)
         else header_done b s1))"
  by pat_completeness auto
termination
proof (relation "measure (\<lambda>s. unat (4 - digit_bytes (parser s)))")
  fix s :: parse_state and b p s1 s2
  assume "p = parser s" "s1 = s\<lparr>parser := p\<lparr>remaining_length := remaining_length p + ucast (b AND 0x7f) * multiplier p,
                            multiplier := multiplier p * 128\<rparr>\<rparr>"
    "b AND 0x80 \<noteq> 0 \<and> digit_bytes p < 4"
    "s2 = s1\<lparr>input := skip 1 (input s1), parser := (parser s1)\<lparr>digit_bytes := digit_bytes p + 1\<rparr>\<rparr>"
  then show "(s2, s) \<in> measure (\<lambda>s. unat (4 - digit_bytes (parser s)))"
    by simp unat_arith
qed simp

declare remaining_length_digit.simps [simp del]

text \<open>After the first yield: the first byte, and the loop's first round up to its yield.\<close>

definition first_byte :: parse where
  "first_byte s = do {
     b \<leftarrow> byte_at (input s);
     let s1 = s\<lparr>message := (message s)\<lparr>common_value := b\<rparr>, input := skip 1 (input s),
                parser := (parser s)\<lparr>multiplier := 1, remaining_length := 0, data_length := 1, digit_bytes := 1\<rparr>\<rparr>;
     YIELD_ON_END 223 remaining_length_digit s1 }"

definition parser_start :: parse where
  "parser_start s = YIELD_ON_END 207 first_byte (s\<lparr>local_state := XI_STATE_OK\<rparr>)"

section \<open>Entering the coroutine\<close>

definition xi_mqtt_parser_execute :: parse where
  "xi_mqtt_parser_execute s = (let l = cs (parser s) in
     if l = 207 then first_byte s
     else if l = 223 then remaining_length_digit s
     else if l = 246 then RESUME_INTO read_string 246 protocol_name_field (YIELD_ON_END 248 connect_version) s
     else if l = 248 then connect_version s
     else if l = 256 then connect_flags s
     else if l = 264 then connect_keepalive_high s
     else if l = 271 then connect_keepalive_low s
     else if l = 278 then RESUME_INTO read_string 278 client_id_field connect_will_topic s
     else if l = 282 then RESUME_INTO read_string 282 will_topic_field connect_will_message s
     else if l = 287 then RESUME_INTO read_string 287 will_message_field connect_username s
     else if l = 292 then RESUME_INTO read_string 292 username_field connect_password s
     else if l = 297 then RESUME_INTO read_string 297 password_field (CR_EXIT XI_STATE_OK) s
     else if l = 304 then connack_unused_byte s
     else if l = 311 then connack_code s
     else if l = 322 then publish_topic s
     else if l = 325 then RESUME_INTO read_string 325 topic_name_field (YIELD_ON_END 327 publish_id) s
     else if l = 327 then publish_id s
     else if l = 336 then publish_id_low s
     else if l = 348 then RESUME_INTO read_data 348 content_field (CR_EXIT XI_STATE_OK) s
     else if l = 355 then ident_high 362 s
     else if l = 362 then ident_low s
     else if l = 373 then ident_high 380 s
     else if l = 380 then ident_low s
     else if l = 391 then ident_high 398 s
     else if l = 398 then ident_low s
     else if l = 409 then ident_high 416 s
     else if l = 416 then ident_low s
     else if l = 427 then subscribe_id_high s
     else if l = 434 then subscribe_id_low s
     else if l = 441 then subscribe_topic s
     else if l = 446 then RESUME_INTO read_string 446 topic_filter_field (YIELD_ON_END 448 subscribe_qos) s
     else if l = 448 then subscribe_qos s
     else if l = 460 then suback_id_high s
     else if l = 467 then suback_id_low s
     else if l = 474 then suback_status s
     else parser_start s)"

end
