(* ===== verification/Mqtt_Parser_Stream.thy ===== *)
theory Mqtt_Parser_Stream
  imports Mqtt_Parser
begin

text \<open>
  Feeding the parser: how the codec layer drives the coroutine, one received buffer after the
  other, and what each piece of the parser does on a byte stream that is cut into buffers in
  an arbitrary way. The lemmas describe a step by the parser state it leads to and the bytes
  of the stream that are left, so that the packets' proofs do not see the buffers at all.
\<close>

section \<open>Feeding buffers\<close>

definition rest :: "xi_data_desc \<Rightarrow> byte list" where
  "rest d = drop (unat (curr_pos d)) (contents d)"

definition src_ok :: "xi_data_desc \<Rightarrow> bool" where
  "src_ok d \<longleftrightarrow> desc_ok d \<and> curr_pos d \<le> desc_length d"

text \<open>A received buffer: fresh and not empty.\<close>

definition received :: "xi_data_desc \<Rightarrow> bool" where
  "received d \<longleftrightarrow> desc_ok d \<and> curr_pos d = 0 \<and> desc_length d \<noteq> 0"

definition granted :: "xi_memory \<Rightarrow> bool" where
  "granted m \<longleftrightarrow> mem_ok m \<and> alloc_script m = []"

text \<open>
  Another buffer arrives: the rest of the program has run in between and may have changed the
  memory in any way in which allocations are still granted.
\<close>

type_synonym arrival = "xi_data_desc \<times> (xi_memory \<Rightarrow> xi_memory)"

definition arrives :: "arrival \<Rightarrow> bool" where
  "arrives a \<longleftrightarrow> src_ok (fst a) \<and> rest (fst a) \<noteq> [] \<and> (\<forall>m. granted m \<longrightarrow> granted (snd a m))"

definition arrive :: "arrival \<Rightarrow> parse_state \<Rightarrow> parse_state" where
  "arrive a s = s\<lparr>input := fst a, memory := snd a (memory s)\<rparr>"

text \<open>
  The loop of \<open>xi_mqtt_codec_layer_pull\<close> around the parser: while it wants to read, the next
  buffer takes the place of the old one. The result has the buffers not used.
\<close>

fun feed :: "parse \<Rightarrow> parse_state \<Rightarrow> arrival list \<Rightarrow> (xi_state \<times> parse_state \<times> arrival list) option" where
  "feed k s [] = map_option (\<lambda>(st, s1). (st, s1, [])) (k s)"
| "feed k s (a # ds) = (case k s of None \<Rightarrow> None | Some (st, s1) \<Rightarrow>
     if st = XI_STATE_WANT_READ then feed xi_mqtt_parser_execute (arrive a s1) ds else Some (st, s1, a # ds))"

fun arriving :: "arrival list \<Rightarrow> byte list" where
  "arriving [] = []"
| "arriving (a # ds) = rest (fst a) @ arriving ds"

definition stream :: "parse_state \<Rightarrow> arrival list \<Rightarrow> byte list" where
  "stream s ds = rest (input s) @ arriving ds"

definition reading_labels :: "nat set" where
  "reading_labels = {46, 53, 62, 77, 134, 146}"

text \<open>Between two fields of a packet: no string is being read.\<close>

definition ready :: "parse_state \<Rightarrow> arrival list \<Rightarrow> bool" where
  "ready s ds \<longleftrightarrow> src_ok (input s) \<and> (\<forall>a \<in> set ds. arrives a) \<and> granted (memory s)
     \<and> read_cs (parser s) \<notin> reading_labels"

definition progress :: "parse_state \<Rightarrow> parse_state \<Rightarrow> nat \<Rightarrow> bool" where
  "progress s t n \<longleftrightarrow> remaining_length (parser t) = remaining_length (parser s)
     \<and> data_length (parser t) = data_length (parser s) + of_nat n"

section \<open>Input buffers\<close>

lemma length_rest: "src_ok d \<Longrightarrow> length (rest d) = unat (desc_length d) - unat (curr_pos d)"
  by (simp add: src_ok_def rest_def length_contents)

lemma at_end_iff: assumes "src_ok d" shows "at_end d \<longleftrightarrow> rest d = []"
proof -
  have "at_end d \<longleftrightarrow> unat (curr_pos d) = unat (desc_length d)"
    unfolding at_end_def right_minus_eq by (rule word_unat_eq_iff)
  then show ?thesis using assms by (auto simp: rest_def src_ok_def length_contents word_le_nat_alt)
qed

lemma received_src_ok: "received d \<Longrightarrow> src_ok d"
  by (simp add: received_def src_ok_def)

lemma received_rest: "received d \<Longrightarrow> rest d = contents d \<and> contents d \<noteq> []"
  using length_contents [of d] by (auto simp: received_def rest_def unat_eq_zero)

lemma arrive_fields [simp]:
  "parser (arrive a s) = parser s" "message (arrive a s) = message s" "input (arrive a s) = fst a"
  "local_state (arrive a s) = local_state s" "memory (arrive a s) = snd a (memory s)"
  by (simp_all add: arrive_def)

lemma arrivesD:
  assumes "arrives a"
  shows "src_ok (fst a)" "rest (fst a) \<noteq> []" "granted m \<Longrightarrow> granted (snd a m)"
  using assms by (auto simp: arrives_def)

lemma received_arrives: "received d \<Longrightarrow> arrives (d, id)"
  using received_src_ok received_rest by (simp add: arrives_def)

lemma skip_fields [simp]:
  "contents (skip n d) = contents d" "desc_ok (skip n d) = desc_ok d" "desc_length (skip n d) = desc_length d"
  "data_bytes (skip n d) = data_bytes d"
  by (simp_all add: skip_def contents_def desc_ok_def)

lemma skip_rest:
  assumes "src_ok d" "n \<le> length (rest d)"
  shows "src_ok (skip (of_nat n) d)" "rest (skip (of_nat n) d) = drop n (rest d)"
proof -
  have l: "unat (curr_pos d) + n \<le> unat (desc_length d)"
    using assms(2) length_rest [OF assms(1)] assms(1) [unfolded src_ok_def word_le_nat_alt] by linarith
  moreover have "unat (desc_length d) < 2 ^ 32" using unsigned_less [of "desc_length d", where 'a = nat] by simp
  ultimately have u: "unat (curr_pos d + of_nat n) = unat (curr_pos d) + n"
    by (intro of_nat_inverse) simp_all
  show "src_ok (skip (of_nat n) d)"
    using assms(1) l u by (simp add: src_ok_def skip_def desc_ok_def word_le_nat_alt)
  have "rest (skip (of_nat n) d) = drop (unat (curr_pos d + of_nat n)) (contents d)"
    unfolding rest_def by (simp add: skip_def contents_def)
  then show "rest (skip (of_nat n) d) = drop n (rest d)" unfolding u by (simp add: rest_def add.commute)
qed

lemma byte_at_rest:
  assumes "src_ok d" "rest d = b # bs"
  shows "byte_at d = Some b" "src_ok (skip 1 d)" "rest (skip 1 d) = bs"
proof -
  have lt: "unat (curr_pos d) < unat (desc_length d)"
    using length_rest [OF assms(1)] assms(2) by simp
  moreover have "unat (desc_length d) \<le> length (data_bytes d)"
    using assms(1) by (simp add: src_ok_def desc_ok_def word_le_nat_alt)
  moreover have "contents d ! unat (curr_pos d) = b"
    using assms(2) unfolding rest_def by (metis append_take_drop_id drop_eq_Nil hd_drop_conv_nth list.distinct(1) list.sel(1) not_le)
  ultimately show "byte_at d = Some b" by (simp add: byte_at_def contents_def)
  show "src_ok (skip 1 d)" "rest (skip 1 d) = bs"
    using skip_rest [of d 1] assms by simp_all
qed

section \<open>Steps of the coroutine\<close>

lemma feed_cong: "k s = j t \<Longrightarrow> feed k s ds = feed j t ds"
  by (cases ds) simp_all

lemma feed_done: "k s = Some (st, t) \<Longrightarrow> st \<noteq> XI_STATE_WANT_READ \<Longrightarrow> feed k s ds = Some (st, t, ds)"
  by (cases ds) simp_all

lemma feed_exit: "st \<noteq> XI_STATE_WANT_READ \<Longrightarrow> feed (CR_EXIT st) s ds = Some (st, set_cs 1 s, ds)"
  by (rule feed_done) (simp_all add: CR_EXIT_def)

lemma set_cs_fields [simp]:
  "message (set_cs l s) = message s" "input (set_cs l s) = input s" "memory (set_cs l s) = memory s"
  "local_state (set_cs l s) = local_state s" "cs (parser (set_cs l s)) = l"
  "read_cs (parser (set_cs l s)) = read_cs (parser s)"
  "remaining_length (parser (set_cs l s)) = remaining_length (parser s)"
  "data_length (parser (set_cs l s)) = data_length (parser s)"
  "str_length (parser (set_cs l s)) = str_length (parser s)"
  "multiplier (parser (set_cs l s)) = multiplier (parser s)"
  "digit_bytes (parser (set_cs l s)) = digit_bytes (parser s)"
  "parser_error (parser (set_cs l s)) = parser_error (parser s)"
  by (simp_all add: set_cs_def)

text \<open>A yield with bytes to come ends up in the code after it, at a buffer that is not used up.\<close>

lemma feed_yield:
  assumes resume: "\<And>t. cs (parser t) = l \<Longrightarrow> xi_mqtt_parser_execute t = k t"
    and s: "ready s ds" "stream s ds \<noteq> []"
  obtains t ds' where "feed (YIELD_ON_END l k) s ds = feed k t ds'" "ready t ds'" "stream t ds' = stream s ds"
    "rest (input t) \<noteq> []" "message t = message s" "local_state t = local_state s" "progress s t 0"
    "multiplier (parser t) = multiplier (parser s)" "digit_bytes (parser t) = digit_bytes (parser s)"
proof (cases "rest (input s) = []")
  case True
  then obtain d ds' where ds: "ds = d # ds'" using s(2) by (cases ds) (auto simp: stream_def)
  let ?t = "arrive d (set_cs l s)"
  have "arrives d" using s(1) ds by (simp add: ready_def)
  note d = arrivesD [OF this]
  have "feed (YIELD_ON_END l k) s ds = feed xi_mqtt_parser_execute ?t ds'"
    using True s(1) by (simp add: ds YIELD_ON_END_def at_end_iff ready_def)
  also have "\<dots> = feed k ?t ds'" by (rule feed_cong) (rule resume, simp)
  finally show thesis
    using that [of ?t ds'] s(1) d True ds by (simp add: ready_def stream_def progress_def)
next
  case False
  then have "feed (YIELD_ON_END l k) s ds = feed k s ds"
    using s(1) by (intro feed_cong) (simp add: YIELD_ON_END_def at_end_iff ready_def)
  then show thesis using that [of s ds] s(1) False by (simp add: progress_def)
qed

lemma feed_take:
  assumes "ready s ds" "rest (input s) = b # bs"
  obtains t where "feed (take_byte put k) s ds = feed k t ds" "ready t ds" "stream t ds = tl (stream s ds)"
    "message t = put b (message s)" "local_state t = local_state s" "progress s t 1"
proof -
  let ?t = "s\<lparr>message := put b (message s), input := skip 1 (input s),
         parser := (parser s)\<lparr>data_length := data_length (parser s) + 1\<rparr>\<rparr>"
  have b: "byte_at (input s) = Some b" "src_ok (skip 1 (input s))" "rest (skip 1 (input s)) = bs"
    using byte_at_rest [of "input s"] assms by (simp_all add: ready_def)
  then have "feed (take_byte put k) s ds = feed k ?t ds" by (intro feed_cong) (simp add: take_byte_def)
  then show thesis using that [of ?t] assms b by (simp add: ready_def stream_def progress_def)
qed

text \<open>The two together: the next byte of the stream.\<close>

lemma feed_byte:
  assumes resume: "\<And>t. cs (parser t) = l \<Longrightarrow> xi_mqtt_parser_execute t = take_byte put k t"
    and s: "ready s ds" "stream s ds = b # bs"
  obtains t ds' where "feed (YIELD_ON_END l (take_byte put k)) s ds = feed k t ds'" "ready t ds'"
    "stream t ds' = bs" "message t = put b (message s)" "progress s t 1"
proof -
  from s(2) have ne: "stream s ds \<noteq> []" by simp
  obtain u ds' where u: "feed (YIELD_ON_END l (take_byte put k)) s ds = feed (take_byte put k) u ds'"
    "ready u ds'" "stream u ds' = stream s ds" "rest (input u) \<noteq> []" "message u = message s" "progress s u 0"
    by (rule feed_yield [OF resume s(1) ne])
  then obtain bs' where r: "rest (input u) = b # bs'" using s(2) by (cases "rest (input u)") (auto simp: stream_def)
  from u(2) r obtain t where "feed (take_byte put k) u ds' = feed k t ds'" "ready t ds'"
    "stream t ds' = tl (stream u ds')" "message t = put b (message u)" "progress u t 1"
    by (rule feed_take)
  then show thesis using that [of t ds'] u s(2) by (simp add: progress_def)
qed

section \<open>Reading strings\<close>

lemma take_rest:
  assumes "src_ok d" "n \<le> length (rest d)"
  shows "take n (drop (unat (curr_pos d)) (data_bytes d)) = take n (rest d)"
    "n \<le> length (drop (unat (curr_pos d)) (data_bytes d))"
proof -
  have "n \<le> unat (desc_length d) - unat (curr_pos d)" using assms length_rest by simp
  moreover have "unat (desc_length d) \<le> length (data_bytes d)"
    using assms(1) by (simp add: src_ok_def desc_ok_def word_le_nat_alt)
  ultimately show "take n (drop (unat (curr_pos d)) (data_bytes d)) = take n (rest d)"
    "n \<le> length (drop (unat (curr_pos d)) (data_bytes d))"
    by (simp_all add: rest_def contents_def drop_take min_def)
qed

lemma unat_of_nat_64: "n < 2 ^ 64 \<Longrightarrow> unat (of_nat n :: 64 word) = n"
  by (rule of_nat_inverse) simp_all

lemma min_of_nat_64: "a < 2 ^ 64 \<Longrightarrow> b < 2 ^ 64 \<Longrightarrow> min (of_nat a :: 64 word) (of_nat b) = of_nat (min a b)"
  by (simp add: min_def word_le_nat_alt unat_of_nat_64)

lemma src_left_of_rest: "src_ok d \<Longrightarrow> src_left_of d = of_nat (length (rest d))"
proof -
  assume d: "src_ok d"
  then have "unat (desc_length d - curr_pos d) = length (rest d)"
    by (simp add: length_rest src_ok_def unat_sub)
  then show ?thesis unfolding src_left_of_def by (metis of_nat_unat)
qed

text \<open>One pass through the appending loop takes what is there of the \<open>n\<close> bytes to read.\<close>

lemma read_loop_spec:
  fixes n :: nat
  assumes d: "desc_ok d" and src: "src_ok src" and m: "granted m"
    and n: "to_read_of p d = of_nat n" "n < 2 ^ 64" "length (contents d) + min n (length (rest src)) \<le> 2 ^ 31"
  defines "j \<equiv> min n (length (rest src))"
  obtains e m' where "read_loop_of label counted d (p, Some d, src, m) =
      Some (if n \<le> length (rest src) then XI_STATE_OK else XI_STATE_WANT_READ,
        p\<lparr>data_length := data_length p + (if counted then of_nat j else 0),
          read_cs := (if n \<le> length (rest src) then 0 else label)\<rparr>,
        Some e, skip (of_nat j) src, m')"
    "desc_ok e" "contents e = contents d @ take j (rest src)" "granted m'"
proof -
  have r: "length (rest src) < 2 ^ 32"
    using length_rest [OF src] unsigned_less [of "desc_length src", where 'a = nat] by simp
  have j64: "min (to_read_of p d) (src_left_of src) = of_nat j" "unat (of_nat j :: 64 word) = j"
    using r n(2) by (simp_all add: n(1) src_left_of_rest [OF src] min_of_nat_64 unat_of_nat_64 j_def)
  have loop: "read_loop_of label counted d (p, Some d, src, m)
      = read_loop label counted (of_nat n) (of_nat j) (p, Some d, src, m)"
    by (simp only: read_loop_of_def prod.case j64(1)) (simp only: n(1))
  have n0: "(0 < (of_nat n :: 64 word)) = (0 < n)" using n(2) by (simp add: word_less_nat_alt unat_of_nat_64)
  show thesis
  proof (cases "n = 0")
    case True
    then have "read_loop_of label counted d (p, Some d, src, m) = Some (XI_STATE_OK, p\<lparr>read_cs := 0\<rparr>, Some d, src, m)"
      using loop by (simp add: read_loop_def)
    then show thesis using that [of d m] True d m by (simp add: j_def skip_def)
  next
    case False
    have jr: "j \<le> length (rest src)" by (simp add: j_def)
    have tot: "unat (desc_length d) + j \<le> 2 ^ 31" using n(3) length_contents [OF d] by (simp add: j_def)
    obtain e m' where a: "xi_data_desc_append_data_resize (Some d) (Some (drop (unat (curr_pos src)) (data_bytes src))) j m
        = Some (XI_STATE_OK, Some e, m')"
      "desc_ok e" "contents e = contents d @ take j (drop (unat (curr_pos src)) (data_bytes src))"
      "mem_ok m'" "alloc_script m' = []"
      using append_resize_granted [OF d _ _ take_rest(2) [OF src jr] tot] m unfolding granted_def by metis
    have jn: "(of_nat n - of_nat j > (0 :: 64 word)) \<longleftrightarrow> \<not> n \<le> length (rest src)"
    proof -
      have "(of_nat n - of_nat j :: 64 word) = of_nat (n - j)" by (simp add: of_nat_diff j_def)
      moreover have "unat (of_nat (n - j) :: 64 word) = n - j" using n(2) by (intro unat_of_nat_64) simp
      ultimately show ?thesis by (simp only: word_less_nat_alt) (simp add: j_def, arith)
    qed
    have u: "(ucast (of_nat j :: 64 word) :: 32 word) = of_nat j"
      by (rule bit_word_eqI) (simp add: bit_ucast_iff bit_of_nat_iff)
    have "read_loop_of label counted d (p, Some d, src, m) =
      Some (if n \<le> length (rest src) then XI_STATE_OK else XI_STATE_WANT_READ,
        p\<lparr>data_length := data_length p + (if counted then of_nat j else 0),
          read_cs := (if n \<le> length (rest src) then 0 else label)\<rparr>,
        Some e, skip (of_nat j) src, m')"
      unfolding loop read_loop_def using False a(1) jn
      by (simp add: n0 j64(2) u)
    then show thesis using that [of e m'] a take_rest(1) [OF src jr] by (simp add: granted_def)
  qed
qed

lemma to_read_of_length:
  assumes "desc_ok d"
  shows "to_read_of p d = str_length p - of_nat (length (contents d))"
proof -
  have "ucast (desc_length d) = (of_nat (length (contents d)) :: 64 word)"
    using length_contents [OF assms] by (metis of_nat_unat)
  then show ?thesis by (simp add: to_read_of_def)
qed

lemma feed_read_on:
  assumes "\<And>t. cs (parser t) = l \<Longrightarrow> xi_mqtt_parser_execute t = RESUME_INTO rd l into k t"
    "fst into (message s) = Some dst" "rd (parser s, dst, input s, memory s) = Some (XI_STATE_WANT_READ, p1, dst1, src1, m1)"
  shows "feed (READ_INTO rd l into k) s (d # ds) = feed (READ_INTO rd l into k)
     (arrive d (set_cs l (s\<lparr>parser := p1, message := snd into dst1 (message s), input := src1,
       local_state := XI_STATE_WANT_READ, memory := m1\<rparr>))) ds"
proof -
  let ?t = "arrive d (set_cs l (s\<lparr>parser := p1, message := snd into dst1 (message s), input := src1,
       local_state := XI_STATE_WANT_READ, memory := m1\<rparr>))"
  have "feed (READ_INTO rd l into k) s (d # ds) = feed xi_mqtt_parser_execute ?t ds"
    using assms(2,3) by (simp add: READ_INTO_def Let_def)
  also have "\<dots> = feed (READ_INTO rd l into k) ?t ds"
    by (rule feed_cong) (subst assms(1), simp_all add: RESUME_INTO_def)
  finally show ?thesis .
qed

lemma feed_read_ok:
  assumes "fst into (message s) = Some dst" "rd (parser s, dst, input s, memory s) = Some (XI_STATE_OK, p1, dst1, src1, m1)"
  shows "feed (READ_INTO rd l into k) s ds = feed k
     (s\<lparr>parser := p1, message := snd into dst1 (message s), input := src1,
       local_state := XI_STATE_OK, memory := m1\<rparr>) ds"
  by (rule feed_cong) (use assms in \<open>simp add: READ_INTO_def\<close>)

text \<open>
  The interface of the two readers towards the packets: resumed inside or before the
  appending loop, they run one pass of it.
\<close>

locale chunked_reader =
  fixes rd :: "read_state \<Rightarrow> (xi_state \<times> read_state) option" and label entry :: nat and counted :: bool
  assumes resumed: "read_cs p = label \<or> read_cs p = entry \<Longrightarrow>
    rd (p, Some d, src, m) = read_loop_of label counted d (p, Some d, src, m)"
begin

lemma feed_loop_enough:
  assumes "\<And>t. cs (parser t) = l \<Longrightarrow> xi_mqtt_parser_execute t = RESUME_INTO rd l into k t"
    "\<And>d. fst into (snd into d (message s)) = Some d"
    "\<And>d e. snd into d (snd into e (message s)) = snd into d (message s)"
    "read_cs (parser s) = label \<or> read_cs (parser s) = entry" "fst into (message s) = Some (Some d)" "desc_ok d"
    "src_ok (input s)" "\<forall>a \<in> set ds. arrives a" "granted (memory s)"
    "str_length (parser s) = of_nat (length (contents d) + length xs)"
    "length (contents d) + length xs \<le> 2 ^ 31" "stream s ds = xs @ tail"
    "length xs \<le> length (rest (input s))"
  shows "\<exists>t ds' e. feed (READ_INTO rd l into k) s ds = feed k t ds' \<and> ready t ds' \<and> stream t ds' = tail
    \<and> message t = snd into (Some e) (message s) \<and> desc_ok e \<and> contents e = contents d @ xs
    \<and> progress s t (if counted then length xs else 0)"
proof -
  note loop = resumed [OF assms(4), of d "input s" "memory s"]
  let ?r = "rest (input s)"
  have n: "to_read_of (parser s) d = of_nat (length xs)" "length xs < 2 ^ 64"
    "length (contents d) + min (length xs) (length ?r) \<le> 2 ^ 31"
    using assms(10,11) to_read_of_length [OF assms(6)] by simp_all
  obtain e m' where rd: "rd (parser s, Some d, input s, memory s) = Some (XI_STATE_OK,
        (parser s)\<lparr>data_length := data_length (parser s) + (if counted then of_nat (length xs) else 0), read_cs := 0\<rparr>,
        Some e, skip (of_nat (length xs)) (input s), m')"
    "desc_ok e" "contents e = contents d @ take (length xs) ?r" "granted m'"
    by (rule read_loop_spec [OF assms(6,7,9) n, of label counted])
      (use assms(13) in \<open>simp add: loop min_absorb1\<close>)
  let ?t = "s\<lparr>parser := (parser s)\<lparr>data_length := data_length (parser s)
          + (if counted then of_nat (length xs) else 0), read_cs := 0\<rparr>,
      message := snd into (Some e) (message s), input := skip (of_nat (length xs)) (input s),
      local_state := XI_STATE_OK, memory := m'\<rparr>"
  have "feed (READ_INTO rd l into k) s ds = feed k ?t ds"
    by (rule feed_read_ok [where rd = rd and s = s and into = into, OF assms(5) rd(1)])
  moreover have "take (length xs) ?r = xs" "drop (length xs) ?r @ arriving ds = tail"
    using assms(13) arg_cong [OF assms(12), of "take (length xs)"] arg_cong [OF assms(12), of "drop (length xs)"]
    by (simp_all add: stream_def)
  ultimately show ?thesis
    using rd skip_rest [OF assms(7,13)] assms(8)
    by (intro exI [of _ ?t] exI [of _ ds] exI [of _ e])
      (simp add: ready_def reading_labels_def stream_def progress_def)
qed

lemma feed_loop:
  assumes "\<And>t. cs (parser t) = l \<Longrightarrow> xi_mqtt_parser_execute t = RESUME_INTO rd l into k t"
    "\<And>d. fst into (snd into d (message s)) = Some d"
    "\<And>d e. snd into d (snd into e (message s)) = snd into d (message s)"
    "read_cs (parser s) = label \<or> read_cs (parser s) = entry" "fst into (message s) = Some (Some d)" "desc_ok d"
    "src_ok (input s)" "\<forall>a \<in> set ds. arrives a" "granted (memory s)"
    "str_length (parser s) = of_nat (length (contents d) + length xs)"
    "length (contents d) + length xs \<le> 2 ^ 31" "stream s ds = xs @ tail"
  shows "\<exists>t ds' e. feed (READ_INTO rd l into k) s ds = feed k t ds' \<and> ready t ds' \<and> stream t ds' = tail
    \<and> message t = snd into (Some e) (message s) \<and> desc_ok e \<and> contents e = contents d @ xs
    \<and> progress s t (if counted then length xs else 0)"
  using assms
proof (induction ds arbitrary: s d xs)
  case Nil
  have "length xs \<le> length (rest (input s))" using Nil.prems(12) by (simp add: stream_def)
  with Nil.prems show ?case by (rule feed_loop_enough)
next
  case (Cons c ds)
  note loop = resumed [OF Cons.prems(4), of d "input s" "memory s"]
  let ?r = "rest (input s)"
  show ?case
  proof (cases "length xs \<le> length ?r")
    case True
    with Cons.prems show ?thesis by (rule feed_loop_enough)
  next
    case gt: False
    let ?n = "length ?r"
    have n: "to_read_of (parser s) d = of_nat (length xs)" "length xs < 2 ^ 64"
      "length (contents d) + min (length xs) ?n \<le> 2 ^ 31"
      using Cons.prems(10,11) to_read_of_length [OF Cons.prems(6)] by simp_all
    obtain e m' where rd: "rd (parser s, Some d, input s, memory s) = Some (XI_STATE_WANT_READ,
          (parser s)\<lparr>data_length := data_length (parser s) + (if counted then of_nat ?n else 0), read_cs := label\<rparr>,
          Some e, skip (of_nat ?n) (input s), m')"
      "desc_ok e" "contents e = contents d @ take ?n ?r" "granted m'"
      by (rule read_loop_spec [OF Cons.prems(6,7,9) n, of label counted])
        (use gt in \<open>simp add: loop min_absorb2\<close>)
    let ?s = "arrive c (set_cs l (s\<lparr>parser := (parser s)\<lparr>data_length := data_length (parser s)
            + (if counted then of_nat ?n else 0), read_cs := label\<rparr>, message := snd into (Some e) (message s),
          input := skip (of_nat ?n) (input s), local_state := XI_STATE_WANT_READ, memory := m'\<rparr>))"
    have step: "feed (READ_INTO rd l into k) s (c # ds) = feed (READ_INTO rd l into k) ?s ds"
      by (rule feed_read_on [where into = into and s = s and rd = rd and l = l and k = k, OF Cons.prems(1,5) rd(1)])
    have xs: "xs = ?r @ drop ?n xs" "rest (fst c) @ arriving ds = drop ?n xs @ tail"
      using gt arg_cong [OF Cons.prems(12), of "take ?n"] arg_cong [OF Cons.prems(12), of "drop ?n"]
      by (simp_all add: stream_def)
        (metis append_take_drop_id)
    have len: "length xs = ?n + length (drop ?n xs)" using gt by simp
    have sum: "length (contents e) + length (drop ?n xs) = length (contents d) + length xs"
      using rd(3) gt by simp
    have c: "arrives c" using Cons.prems(8) by simp
    have "\<exists>t ds' e'. feed (READ_INTO rd l into k) ?s ds = feed k t ds' \<and> ready t ds' \<and> stream t ds' = tail
      \<and> message t = snd into (Some e') (message ?s) \<and> desc_ok e' \<and> contents e' = contents e @ drop ?n xs
      \<and> progress ?s t (if counted then length (drop ?n xs) else 0)"
    proof (rule Cons.IH)
      show "str_length (parser ?s) = of_nat (length (contents e) + length (drop ?n xs))"
        "length (contents e) + length (drop ?n xs) \<le> 2 ^ 31"
        using Cons.prems(10,11) unfolding sum by simp_all
      show "stream ?s ds = drop ?n xs @ tail"
        using xs(2) arrivesD [OF c] by (simp add: stream_def)
      show "\<And>t. cs (parser t) = l \<Longrightarrow> xi_mqtt_parser_execute t = RESUME_INTO rd l into k t"
        by (rule Cons.prems(1))
      show "\<And>d. fst into (snd into d (message ?s)) = Some d"
        "\<And>d e. snd into d (snd into e (message ?s)) = snd into d (message ?s)"
        "fst into (message ?s) = Some (Some e)"
        by (simp_all add: Cons.prems(2,3))
      show "\<forall>a \<in> set ds. arrives a" using Cons.prems(8) by simp
    qed (use rd arrivesD [OF c] in simp_all)
    then obtain t ds' e' where t: "feed (READ_INTO rd l into k) ?s ds = feed k t ds'" "ready t ds'" "stream t ds' = tail"
      "message t = snd into (Some e') (message ?s)" "desc_ok e'" "contents e' = contents e @ drop ?n xs"
      "progress ?s t (if counted then length (drop ?n xs) else 0)" by blast
    have "message t = snd into (Some e') (message s)" using t(4) by (simp add: Cons.prems(3))
    moreover have "contents e' = contents d @ xs" using t(6) rd(3) xs(1) by simp
    moreover have "progress s t (if counted then length xs else 0)"
      using t(7) gt by (auto simp: progress_def simp flip: of_nat_add)
    ultimately show ?thesis using trans [OF step t(1)] t(2,3,5) by blast
  qed
qed

text \<open>A reader that waits for more than the stream holds takes all of it and goes on waiting.\<close>

lemma feed_starved:
  assumes "\<And>t. cs (parser t) = l \<Longrightarrow> xi_mqtt_parser_execute t = RESUME_INTO rd l into k t"
    "\<And>d. fst into (snd into d (message s)) = Some d"
    "\<And>d e. snd into d (snd into e (message s)) = snd into d (message s)"
    "read_cs (parser s) = label \<or> read_cs (parser s) = entry" "fst into (message s) = Some (Some d)" "desc_ok d"
    "src_ok (input s)" "\<forall>a \<in> set ds. arrives a" "granted (memory s)"
    "to_read_of (parser s) d = of_nat n" "n < 2 ^ 64" "length (stream s ds) < n"
    "length (contents d) + length (stream s ds) \<le> 2 ^ 31"
  shows "\<exists>t e. feed (READ_INTO rd l into k) s ds = Some (XI_STATE_WANT_READ, t, [])
    \<and> message t = snd into (Some e) (message s) \<and> contents e = contents d @ stream s ds \<and> rest (input t) = []
    \<and> str_length (parser t) = str_length (parser s)"
  using assms
proof (induction ds arbitrary: s d n)
  case Nil
  note loop = resumed [OF Nil.prems(4), of d "input s" "memory s"]
  let ?r = "rest (input s)"
  have gt: "length ?r < n" "length (contents d) + min n (length ?r) \<le> 2 ^ 31"
    using Nil.prems(12,13) by (simp_all add: stream_def)
  obtain e m' where rd: "rd (parser s, Some d, input s, memory s) = Some (XI_STATE_WANT_READ,
        (parser s)\<lparr>data_length := data_length (parser s) + (if counted then of_nat (length ?r) else 0), read_cs := label\<rparr>,
        Some e, skip (of_nat (length ?r)) (input s), m')"
    "contents e = contents d @ ?r"
    by (rule read_loop_spec [OF Nil.prems(6,7,9,10,11) gt(2), of label counted])
      (use gt in \<open>simp add: loop min_absorb2\<close>)
  show ?case
    using rd Nil.prems(5) skip_rest(2) [OF Nil.prems(7), of "length ?r"]
    by (auto simp add: READ_INTO_def stream_def)
next
  case (Cons c ds)
  note loop = resumed [OF Cons.prems(4), of d "input s" "memory s"]
  let ?r = "rest (input s)"
  have gt: "length ?r < n" "length (contents d) + min n (length ?r) \<le> 2 ^ 31"
    using Cons.prems(12,13) by (simp_all add: stream_def)
  obtain e m' where rd: "rd (parser s, Some d, input s, memory s) = Some (XI_STATE_WANT_READ,
        (parser s)\<lparr>data_length := data_length (parser s) + (if counted then of_nat (length ?r) else 0), read_cs := label\<rparr>,
        Some e, skip (of_nat (length ?r)) (input s), m')"
    "desc_ok e" "contents e = contents d @ ?r" "granted m'"
    by (rule read_loop_spec [OF Cons.prems(6,7,9,10,11) gt(2), of label counted])
      (use gt in \<open>simp add: loop min_absorb2\<close>)
  let ?s = "arrive c (set_cs l (s\<lparr>parser := (parser s)\<lparr>data_length := data_length (parser s)
          + (if counted then of_nat (length ?r) else 0), read_cs := label\<rparr>, message := snd into (Some e) (message s),
        input := skip (of_nat (length ?r)) (input s), local_state := XI_STATE_WANT_READ, memory := m'\<rparr>))"
  have step: "feed (READ_INTO rd l into k) s (c # ds) = feed (READ_INTO rd l into k) ?s ds"
    by (rule feed_read_on [where into = into and s = s and rd = rd and l = l and k = k, OF Cons.prems(1,5) rd(1)])
  have c: "arrives c" using Cons.prems(8) by simp
  have str: "stream s (c # ds) = ?r @ stream ?s ds" using arrivesD [OF c] by (simp add: stream_def)
  have "\<exists>t e'. feed (READ_INTO rd l into k) ?s ds = Some (XI_STATE_WANT_READ, t, [])
    \<and> message t = snd into (Some e') (message ?s) \<and> contents e' = contents e @ stream ?s ds \<and> rest (input t) = []
    \<and> str_length (parser t) = str_length (parser ?s)"
  proof (rule Cons.IH)
    show "\<And>t. cs (parser t) = l \<Longrightarrow> xi_mqtt_parser_execute t = RESUME_INTO rd l into k t"
      by (rule Cons.prems(1))
    show "\<And>d. fst into (snd into d (message ?s)) = Some d"
      "\<And>d e. snd into d (snd into e (message ?s)) = snd into d (message ?s)"
      "fst into (message ?s) = Some (Some e)"
      by (simp_all add: Cons.prems(2,3))
    show "\<forall>a \<in> set ds. arrives a" using Cons.prems(8) by simp
    have "to_read_of (parser ?s) e = str_length (parser s) - of_nat (length (contents d) + length ?r)"
      unfolding to_read_of_length [OF rd(2)] rd(3) by simp
    also have "\<dots> = (str_length (parser s) - of_nat (length (contents d))) - of_nat (length ?r)"
      by (simp only: of_nat_add diff_diff_eq)
    also have "\<dots> = of_nat n - of_nat (length ?r)"
      using Cons.prems(10) unfolding to_read_of_length [OF Cons.prems(6)] by simp
    also have "\<dots> = of_nat (n - length ?r)" using gt(1) by (simp add: of_nat_diff)
    finally show "to_read_of (parser ?s) e = of_nat (n - length ?r)" .
    show "n - length ?r < 2 ^ 64" using Cons.prems(11) by simp
    show "length (stream ?s ds) < n - length ?r" using Cons.prems(12) str by simp
    show "length (contents e) + length (stream ?s ds) \<le> 2 ^ 31" using Cons.prems(13) str rd(3) by simp
  qed (use rd arrivesD [OF c] in simp_all)
  then obtain t e' where t: "feed (READ_INTO rd l into k) ?s ds = Some (XI_STATE_WANT_READ, t, [])"
    "message t = snd into (Some e') (message ?s)" "contents e' = contents e @ stream ?s ds" "rest (input t) = []"
    "str_length (parser t) = str_length (parser ?s)" by blast
  have "message t = snd into (Some e') (message s)" using t(2) by (simp add: Cons.prems(3))
  moreover have "contents e' = contents d @ stream s (c # ds)" using t(3) rd(3) str by simp
  moreover have "str_length (parser t) = str_length (parser s)" using t(5) by simp
  ultimately show ?case using trans [OF step t(1)] t(4) by blast
qed

end

interpretation string_reader: chunked_reader read_string 77 62 True
  by unfold_locales (auto simp: read_string_def with_destination_def)

interpretation data_reader: chunked_reader read_data 146 134 False
  by unfold_locales (auto simp: read_data_def with_destination_def)

text \<open>What a resumption of \<open>READ_INTO\<close> needs to know about the place it is used at.\<close>

definition resumes :: "(read_state \<Rightarrow> (xi_state \<times> read_state) option) \<Rightarrow> nat \<Rightarrow> field \<Rightarrow> parse \<Rightarrow> bool" where
  "resumes rd l into k \<longleftrightarrow> (\<forall>t. cs (parser t) = l \<longrightarrow> xi_mqtt_parser_execute t = RESUME_INTO rd l into k t)"

definition lens :: "field \<Rightarrow> xi_mqtt_message \<Rightarrow> bool" where
  "lens into m \<longleftrightarrow> (\<forall>d. fst into (snd into d m) = Some d)
     \<and> (\<forall>d e. snd into d (snd into e m) = snd into d m)"

lemma lensD:
  "lens into m \<Longrightarrow> fst into (snd into d m) = Some d"
  "lens into m \<Longrightarrow> snd into d (snd into e m) = snd into d m"
  "lens into m \<Longrightarrow> lens into (snd into d m)"
  by (simp_all add: lens_def)

text \<open>
  The first two bytes of a string: with more to come, reading a byte leaves the reader in the
  state after it, at a buffer that is not used up, whether or not the buffer ended there.
\<close>

definition at_phase :: "nat \<Rightarrow> field \<Rightarrow> xi_data_desc \<Rightarrow> parse_state \<Rightarrow> arrival list \<Rightarrow> bool" where
  "at_phase q into d s ds \<longleftrightarrow> read_cs (parser s) = q \<and> fst into (message s) = Some (Some d) \<and> lens into (message s)
     \<and> src_ok (input s) \<and> rest (input s) \<noteq> [] \<and> (\<forall>a \<in> set ds. arrives a) \<and> granted (memory s)"

lemma read_string_byte:
  assumes "read_cs p = q" "q = 46 \<and> q' = 53 \<and> f b = push_bit 8 (ucast b)
      \<or> q = 53 \<and> q' = 62 \<and> f b = str_length p + ucast b"
    and src: "src_ok src" "rest src = b # bs"
  defines "p1 \<equiv> p\<lparr>str_length := f b, data_length := data_length p + 1, read_cs := q'\<rparr>"
  shows "read_string (p, Some d, src, m) = (if bs = [] then Some (XI_STATE_WANT_READ, p1, Some d, skip 1 src, m)
    else read_string (p1, Some d, skip 1 src, m))"
proof -
  note b = byte_at_rest [OF src]
  have e: "at_end (skip 1 src) \<longleftrightarrow> bs = []" using at_end_iff [OF b(2)] b(3) by simp
  have loop: "read_loop_of l c d (p\<lparr>read_cs := x\<rparr>, Some d, t, m) = read_loop_of l c d (p, Some d, t, m)" for l c p x t
    by (simp add: read_loop_of_def read_loop_def to_read_of_def Let_def split: bind_splits prod.splits)
  consider "q = 46" "q' = 53" "f b = push_bit 8 (ucast b)" | "q = 53" "q' = 62" "f b = str_length p + ucast b"
    using assms(2) by blast
  then show ?thesis
  proof cases
    case 1
    then show ?thesis
      using assms(1) b(1) e
      by (cases p) (simp add: p1_def read_string_def with_destination_def read_string_high_def
          read_string_low_def read_loop_of_def read_loop_def to_read_of_def Let_def split: bind_splits)
  next
    case 2
    then show ?thesis
      using assms(1) b(1) e loop [where x = 62]
      by (simp add: p1_def read_string_def with_destination_def read_string_low_def)
  qed
qed

lemma feed_string_byte:
  assumes "resumes read_string l into k" "at_phase q into d s ds"
    "q = 46 \<and> q' = 53 \<and> (\<forall>b. f b = push_bit 8 (ucast b))
      \<or> q = 53 \<and> q' = 62 \<and> (\<forall>b. f b = str_length (parser s) + ucast b)"
    "stream s ds = b # bs" "bs \<noteq> []"
  shows "\<exists>t ds' m. feed (READ_STRING l into k) s ds = feed (READ_STRING l into k) t ds' \<and> at_phase q' into d t ds'
    \<and> stream t ds' = bs \<and> (message t = message s \<or> message t = snd into (Some d) (message s))
    \<and> str_length (parser t) = f b \<and> progress s t 1"
proof -
  from assms(2) have s: "read_cs (parser s) = q" "fst into (message s) = Some (Some d)" "lens into (message s)"
    "src_ok (input s)" "rest (input s) \<noteq> []" "\<forall>a \<in> set ds. arrives a" "granted (memory s)"
    by (simp_all add: at_phase_def)
  obtain bs' where r: "rest (input s) = b # bs'" "bs = bs' @ arriving ds"
    using s(5) assms(4) by (cases "rest (input s)") (auto simp: stream_def)
  let ?p = "(parser s)\<lparr>str_length := f b, data_length := data_length (parser s) + 1, read_cs := q'\<rparr>"
  have rd: "read_string (parser s, Some d, input s, memory s) =
      (if bs' = [] then Some (XI_STATE_WANT_READ, ?p, Some d, skip 1 (input s), memory s)
       else read_string (?p, Some d, skip 1 (input s), memory s))"
    using assms(3) by (intro read_string_byte [OF s(1) _ s(4) r(1)]) auto
  note b = byte_at_rest [OF s(4) r(1)]
  show ?thesis
  proof (cases "bs' = []")
    case True
    then obtain c ds' where ds: "ds = c # ds'" using assms(5) r(2) by (cases ds) auto
    then have c: "arrives c" using s(6) by simp
    let ?t = "arrive c (set_cs l (s\<lparr>parser := ?p, message := snd into (Some d) (message s), input := skip 1 (input s),
       local_state := XI_STATE_WANT_READ, memory := memory s\<rparr>))"
    have "feed (READ_STRING l into k) s ds = feed (READ_STRING l into k) ?t ds'"
      unfolding ds
      by (rule feed_read_on [where into = into and s = s and rd = read_string and l = l and k = k])
        (use assms(1) s(2) rd True in \<open>simp_all add: resumes_def\<close>)
    then show ?thesis
      using True s c r(2) ds arrivesD [OF c]
      by (intro exI [of _ ?t] exI [of _ ds']) (simp add: at_phase_def stream_def progress_def lensD)
  next
    case False
    let ?t = "s\<lparr>parser := ?p, input := skip 1 (input s)\<rparr>"
    have "READ_STRING l into k s = READ_STRING l into k ?t"
      using rd False s(2) by (simp add: READ_INTO_def)
    then have "feed (READ_STRING l into k) s ds = feed (READ_STRING l into k) ?t ds" by (rule feed_cong)
    then show ?thesis
      using False s b r
      by (intro exI [of _ ?t] exI [of _ ds]) (simp add: at_phase_def stream_def progress_def)
  qed
qed

lemma with_destination_new:
  assumes "granted m" "read_cs p \<notin> reading_labels"
  obtains d m' where "desc_ok d" "contents d = []" "granted m'"
    "read_string (p, None, src, m) = (if at_end src then Some (XI_STATE_WANT_READ, p\<lparr>read_cs := 46\<rparr>, Some d, src, m')
       else read_string (p\<lparr>read_cs := 46\<rparr>, Some d, src, m'))"
    "read_data (p, None, src, m) = (if at_end src then Some (XI_STATE_WANT_READ, p\<lparr>read_cs := 134\<rparr>, Some d, src, m')
       else read_data (p\<lparr>read_cs := 134\<rparr>, Some d, src, m'))"
proof -
  obtain d m' where d: "xi_make_empty_desc_alloc 4 m = Some (Some d, m')" "desc_ok d" "contents d = []"
    "mem_ok m'" "alloc_script m' = []"
    by (rule make_empty_desc_granted [of m 4]) (use assms(1) in \<open>simp_all add: granted_def\<close>)
  have "read_string (p, None, src, m) = (if at_end src then Some (XI_STATE_WANT_READ, p\<lparr>read_cs := 46\<rparr>, Some d, src, m')
       else read_string (p\<lparr>read_cs := 46\<rparr>, Some d, src, m'))"
    using d(1) assms(2)
    by (cases p) (simp add: read_string_def with_destination_def read_string_high_def read_string_low_def
        read_loop_of_def read_loop_def to_read_of_def Let_def reading_labels_def split: bind_splits)
  moreover have "read_data (p, None, src, m) = (if at_end src then Some (XI_STATE_WANT_READ, p\<lparr>read_cs := 134\<rparr>, Some d, src, m')
       else read_data (p\<lparr>read_cs := 134\<rparr>, Some d, src, m'))"
    using d(1) assms(2)
    by (cases p) (simp add: read_data_def with_destination_def
        read_loop_of_def read_loop_def to_read_of_def Let_def reading_labels_def split: bind_splits)
  ultimately show thesis using that d by (simp add: granted_def)
qed

text \<open>The first call for a field allocates its descriptor and gets to the first byte.\<close>

lemma feed_new:
  assumes "resumes rd l into k" "rd = read_string \<and> q = 46 \<or> rd = read_data \<and> q = 134"
    "lens into (message s)" "ready s ds" "fst into (message s) = Some None" "stream s ds \<noteq> []"
  shows "\<exists>t ds' d. feed (READ_INTO rd l into k) s ds = feed (READ_INTO rd l into k) t ds' \<and> at_phase q into d t ds'
    \<and> stream t ds' = stream s ds \<and> message t = snd into (Some d) (message s) \<and> desc_ok d \<and> contents d = []
    \<and> str_length (parser t) = str_length (parser s) \<and> progress s t 0"
proof -
  have s: "src_ok (input s)" "\<forall>a \<in> set ds. arrives a" "granted (memory s)" "read_cs (parser s) \<notin> reading_labels"
    using assms(4) by (simp_all add: ready_def)
  let ?p = "(parser s)\<lparr>read_cs := q\<rparr>"
  obtain d m' where d: "desc_ok d" "contents d = []" "granted m'"
    "rd (parser s, None, input s, memory s) = (if at_end (input s) then Some (XI_STATE_WANT_READ, ?p, Some d, input s, m')
       else rd (?p, Some d, input s, m'))"
    by (rule with_destination_new [OF s(3,4), of "input s"]) (use assms(2) in auto)
  show ?thesis
  proof (cases "rest (input s) = []")
    case True
    then obtain c ds' where ds: "ds = c # ds'" using assms(6) by (cases ds) (auto simp: stream_def)
    then have c: "arrives c" using s(2) by simp
    let ?t = "arrive c (set_cs l (s\<lparr>parser := ?p, message := snd into (Some d) (message s), input := input s,
       local_state := XI_STATE_WANT_READ, memory := m'\<rparr>))"
    have "feed (READ_INTO rd l into k) s ds = feed (READ_INTO rd l into k) ?t ds'"
      unfolding ds
      by (rule feed_read_on [where into = into and s = s and rd = rd and l = l and k = k])
        (use assms(1,5) s d True at_end_iff [OF s(1)] in \<open>simp_all add: resumes_def\<close>)
    then show ?thesis
      using True s c ds arrivesD [OF c] d assms(3)
      by (intro exI [of _ ?t] exI [of _ ds'] exI [of _ d]) (simp add: at_phase_def stream_def progress_def lensD)
  next
    case False
    let ?t = "s\<lparr>parser := ?p, message := snd into (Some d) (message s), memory := m'\<rparr>"
    have "READ_INTO rd l into k s = READ_INTO rd l into k ?t"
      using d(4) False assms(3,5) at_end_iff [OF s(1)]
      by (simp add: READ_INTO_def lensD split: bind_splits)
    then have "feed (READ_INTO rd l into k) s ds = feed (READ_INTO rd l into k) ?t ds" by (rule feed_cong)
    then show ?thesis
      using False s d assms(3)
      by (intro exI [of _ ?t] exI [of _ ds] exI [of _ d]) (simp add: at_phase_def stream_def progress_def lensD)
  qed
qed

lemma progress_trans: "progress s t a \<Longrightarrow> progress t u b \<Longrightarrow> progress s u (a + b)"
  by (simp add: progress_def)

lemma string_length_word:
  "push_bit 8 (ucast (hi :: byte)) + ucast (lo :: byte) = (of_nat (256 * unat hi + unat lo) :: 64 word)"
proof -
  have "(ucast hi :: 64 word) = of_nat (unat hi)" "(ucast lo :: 64 word) = of_nat (unat lo)"
    by simp_all
  then show ?thesis by (simp add: push_bit_eq_mult mult.commute)
qed

text \<open>A whole string field.\<close>

lemma feed_string:
  assumes "resumes read_string l into k" "lens into (message s)" "ready s ds" "fst into (message s) = Some None"
    "stream s ds = bytes_16 (length xs) @ xs @ tail" "length xs < 65536" "xs @ tail \<noteq> []"
  obtains t ds' e where "feed (READ_STRING l into k) s ds = feed k t ds'" "ready t ds'" "stream t ds' = tail"
    "message t = snd into (Some e) (message s)" "desc_ok e" "contents e = xs" "progress s t (2 + length xs)"
proof -
  define hi lo :: byte where "hi = of_nat (length xs div 256)" and "lo = of_nat (length xs)"
  have bytes: "stream s ds = hi # lo # xs @ tail" using assms(5) by (simp add: bytes_16_def hi_def lo_def)
  have n: "256 * unat hi + unat lo = length xs"
    using assms(6) by (simp add: hi_def lo_def unat_of_nat)
  obtain t1 ds1 d where t1: "feed (READ_STRING l into k) s ds = feed (READ_STRING l into k) t1 ds1"
    "at_phase 46 into d t1 ds1" "stream t1 ds1 = hi # lo # xs @ tail" "message t1 = snd into (Some d) (message s)"
    "desc_ok d" "contents d = []" "progress s t1 0"
    using feed_new [where rd = read_string and q = 46, OF assms(1) _ assms(2-4)] bytes by auto
  obtain t2 ds2 where t2: "feed (READ_STRING l into k) t1 ds1 = feed (READ_STRING l into k) t2 ds2"
    "at_phase 53 into d t2 ds2" "stream t2 ds2 = lo # xs @ tail"
    "message t2 = message t1 \<or> message t2 = snd into (Some d) (message t1)"
    "str_length (parser t2) = push_bit 8 (ucast hi)" "progress t1 t2 1"
    using feed_string_byte [where q = 46 and q' = 53 and f = "\<lambda>b. push_bit 8 (ucast b)", OF assms(1) t1(2) _ t1(3)]
    by auto
  obtain t3 ds3 where t3: "feed (READ_STRING l into k) t2 ds2 = feed (READ_STRING l into k) t3 ds3"
    "at_phase 62 into d t3 ds3" "stream t3 ds3 = xs @ tail"
    "message t3 = message t2 \<or> message t3 = snd into (Some d) (message t2)"
    "str_length (parser t3) = push_bit 8 (ucast hi) + ucast lo" "progress t2 t3 1"
    using feed_string_byte [where q = 53 and q' = 62 and f = "\<lambda>b. str_length (parser t2) + ucast b",
        OF assms(1) t2(2) _ t2(3) assms(7)] t2(5) by auto
  have m3: "message t3 = snd into (Some d) (message s)"
    using t1(4) t2(4) t3(4) assms(2) by (auto simp: lensD)
  have l3: "lens into (message t3)" using m3 assms(2) by (simp add: lensD)
  have sl: "str_length (parser t3) = of_nat (length (contents d) + length xs)"
    using t3(5) string_length_word [of hi lo] n t1(6) by simp
  obtain t ds' e where t: "feed (READ_STRING l into k) t3 ds3 = feed k t ds'" "ready t ds'" "stream t ds' = tail"
    "message t = snd into (Some e) (message t3)" "desc_ok e" "contents e = contents d @ xs"
    "progress t3 t (length xs)"
    using string_reader.feed_loop [of l into k t3 d ds3 xs tail] assms(1,6) l3 t3(2,3) t1(5,6) sl
    unfolding at_phase_def resumes_def lens_def by auto
  show thesis
  proof (rule that)
    show "feed (READ_STRING l into k) s ds = feed k t ds'" using t1(1) t2(1) t3(1) t(1) by simp
    show "message t = snd into (Some e) (message s)" using t(4) m3 assms(2) by (simp add: lensD)
    show "progress s t (2 + length xs)"
      using progress_trans [OF t1(7) progress_trans [OF t2(6) progress_trans [OF t3(6) t(7)]]] by simp
  qed (use t t1(6) in simp_all)
qed

text \<open>The payload.\<close>

lemma feed_data:
  assumes "resumes read_data l into k" "lens into (message s)" "ready s ds" "fst into (message s) = Some None"
    "stream s ds = xs @ tail" "str_length (parser s) = of_nat (length xs)" "length xs \<le> 2 ^ 31" "xs \<noteq> []"
  obtains t ds' e where "feed (READ_DATA l into k) s ds = feed k t ds'" "ready t ds'" "stream t ds' = tail"
    "message t = snd into (Some e) (message s)" "desc_ok e" "contents e = xs" "progress s t 0"
proof -
  obtain t1 ds1 d where t1: "feed (READ_DATA l into k) s ds = feed (READ_DATA l into k) t1 ds1"
    "at_phase 134 into d t1 ds1" "stream t1 ds1 = xs @ tail" "message t1 = snd into (Some d) (message s)"
    "desc_ok d" "contents d = []" "str_length (parser t1) = of_nat (length (contents d) + length xs)" "progress s t1 0"
    using feed_new [where rd = read_data and q = 134, OF assms(1) _ assms(2-4)] assms(5,6,8) by auto
  have l1: "lens into (message t1)" using t1(4) assms(2) by (simp add: lensD)
  obtain t ds' e where t: "feed (READ_DATA l into k) t1 ds1 = feed k t ds'" "ready t ds'" "stream t ds' = tail"
    "message t = snd into (Some e) (message t1)" "desc_ok e" "contents e = contents d @ xs" "progress t1 t 0"
    using data_reader.feed_loop [of l into k t1 d ds1 xs tail] assms(1,7) l1 t1
    unfolding at_phase_def resumes_def lens_def by auto
  show thesis
  proof (rule that)
    show "message t = snd into (Some e) (message s)" using t(4) t1(4) assms(2) by (simp add: lensD)
    show "progress s t 0" using progress_trans [OF t1(8) t(7)] by simp
  qed (use t t1(1,6) in simp_all)
qed

lemma feed_data_starved:
  assumes "resumes read_data l into k" "lens into (message s)" "ready s ds" "fst into (message s) = Some None"
    "str_length (parser s) = of_nat n" "n < 2 ^ 64" "stream s ds \<noteq> []" "length (stream s ds) < n"
    "length (stream s ds) \<le> 2 ^ 31"
  obtains t e where "feed (READ_DATA l into k) s ds = Some (XI_STATE_WANT_READ, t, [])"
    "message t = snd into (Some e) (message s)" "contents e = stream s ds" "rest (input t) = []"
    "str_length (parser t) = of_nat n"
proof -
  obtain t1 ds1 d where t1: "feed (READ_DATA l into k) s ds = feed (READ_DATA l into k) t1 ds1"
    "at_phase 134 into d t1 ds1" "stream t1 ds1 = stream s ds" "message t1 = snd into (Some d) (message s)"
    "desc_ok d" "contents d = []" "str_length (parser t1) = of_nat n"
    using feed_new [where rd = read_data and q = 134, OF assms(1) _ assms(2-4)] assms(5,7) by auto
  have l1: "lens into (message t1)" using t1(4) assms(2) by (simp add: lensD)
  have to: "to_read_of (parser t1) d = of_nat n" using t1(5-7) by (simp add: to_read_of_length)
  obtain t e where t: "feed (READ_DATA l into k) t1 ds1 = Some (XI_STATE_WANT_READ, t, [])"
    "message t = snd into (Some e) (message t1)" "contents e = contents d @ stream t1 ds1" "rest (input t) = []"
    "str_length (parser t) = str_length (parser t1)"
    using data_reader.feed_starved [of l into k t1 d ds1 n] assms(1,6,8,9) l1 t1 to
    unfolding at_phase_def resumes_def lens_def by auto
  show thesis
  proof (rule that)
    show "message t = snd into (Some e) (message s)" using t(2) t1(4) assms(2) by (simp add: lensD)
  qed (use t t1 in simp_all)
qed

end
