(* ===== verification/Mqtt_Round_Trip.thy ===== *)
theory Mqtt_Round_Trip
  imports Mqtt_Parser_Stream
begin

unbundle bit_operations_syntax

text \<open>
  The parser reads what the serialiser writes, however the bytes are cut into buffers, and the
  places where it does not: packets that end in an empty field, remaining lengths that
  contradict the fields, and two parsers that take turns.
\<close>

section \<open>The remaining length\<close>

lemma low_seven_bits: "(of_nat n :: byte) AND 0x7f = of_nat (n mod 128)"
proof -
  have "(0x7f :: byte) = mask 7" by (simp add: mask_eq_exp_minus_1)
  then have "(of_nat n :: byte) AND 0x7f = take_bit 7 (of_nat n)" by (simp add: take_bit_eq_mask)
  moreover have "take_bit 7 (of_nat n :: byte) = of_nat (take_bit 7 n)" by (simp only: take_bit_of_nat)
  ultimately show ?thesis by (simp only: take_bit_nat_def) simp
qed

lemma continuation_bit: "n < 256 \<Longrightarrow> (of_nat n :: byte) AND 0x80 = 0 \<longleftrightarrow> n < 128"
proof -
  assume n: "n < 256"
  have "(of_nat n :: byte) AND 0x80 = 0 \<longleftrightarrow> \<not> bit (of_nat n :: byte) 7"
    using and_exp_eq_0_iff_not_bit [of "of_nat n :: byte" 7] by simp
  also have "\<dots> \<longleftrightarrow> even (n div 128)" unfolding bit_of_nat_iff bit_iff_odd [of n 7] by simp
  also have "\<dots> \<longleftrightarrow> n < 128"
  proof -
    have "n div 128 = 0 \<or> n div 128 = 1" using n by auto
    then show ?thesis by auto
  qed
  finally show ?thesis .
qed

lemma byte_to_64: "n < 256 \<Longrightarrow> (ucast (of_nat n :: byte) :: 64 word) = of_nat n"
proof -
  assume "n < 256"
  then have "unat (of_nat n :: byte) = n" by (intro of_nat_inverse) simp_all
  then show ?thesis by (metis of_nat_unat)
qed

lemma remaining_length_bytes_not_Nil [simp]: "remaining_length_bytes n \<noteq> []"
  by (subst remaining_length_bytes.simps) simp

lemma feed_remaining_length:
  fixes n i :: nat
  assumes "ready s ds" "stream s ds = remaining_length_bytes n @ tail"
    "multiplier (parser s) = 128 ^ i" "digit_bytes (parser s) = of_nat (Suc i)"
    "i + length (remaining_length_bytes n) \<le> 4"
  shows "\<exists>t ds'. feed (YIELD_ON_END 223 remaining_length_digit) s ds = feed parse_body t ds' \<and> ready t ds'
    \<and> stream t ds' = tail
    \<and> remaining_length (parser t) = remaining_length (parser s) + of_nat n * 128 ^ i
    \<and> message t = (message s)\<lparr>remaining_length_field := ucast (remaining_length (parser t))\<rparr>
    \<and> data_length (parser t) = data_length (parser s) + 1"
  using assms
proof (induction n arbitrary: s ds i rule: less_induct)
  case (less n)
  have ne: "stream s ds \<noteq> []" using less.prems(2) by simp
  have resume: "cs (parser t) = 223 \<Longrightarrow> xi_mqtt_parser_execute t = remaining_length_digit t" for t
    by (simp add: xi_mqtt_parser_execute_def)
  obtain u ds' where u: "feed (YIELD_ON_END 223 remaining_length_digit) s ds = feed remaining_length_digit u ds'"
    "ready u ds'" "stream u ds' = stream s ds" "rest (input u) \<noteq> []" "message u = message s" "progress s u 0"
    "multiplier (parser u) = multiplier (parser s)" "digit_bytes (parser u) = digit_bytes (parser s)"
    by (rule feed_yield [OF resume less.prems(1) ne])
  have src: "src_ok (input u)" using u(2) by (simp add: ready_def)
  show ?case
  proof (cases "n < 128")
    case True
    then have str: "stream u ds' = of_nat n # tail"
      using u(3) less.prems(2) by (subst (asm) remaining_length_bytes.simps) simp
    then obtain bs where r: "rest (input u) = of_nat n # bs" "tail = bs @ arriving ds'"
      using u(4) by (cases "rest (input u)") (auto simp: stream_def)
    note b = byte_at_rest [OF src r(1)]
    let ?p = "(parser u)\<lparr>remaining_length := remaining_length (parser u) + of_nat n * 128 ^ i,
        multiplier := multiplier (parser u) * 128\<rparr>"
    let ?t = "u\<lparr>message := (message u)\<lparr>remaining_length_field := ucast (remaining_length ?p)\<rparr>,
        input := skip 1 (input u), parser := ?p\<lparr>data_length := data_length (parser u) + 1\<rparr>\<rparr>"
    have hd: "\<not> (of_nat n :: byte) \<ge> 0x80"
    proof -
      have "unat (of_nat n :: byte) = n" using True by (intro of_nat_inverse) simp_all
      then show ?thesis using True by (simp only: word_le_nat_alt) simp
    qed
    have "remaining_length_digit u = parse_body ?t"
      using b(1) True continuation_bit [of n] u(7) less.prems(3) hd byte_to_64 [of n]
      by (subst remaining_length_digit.simps)
        (simp add: Let_def low_seven_bits header_done_def)
    then have "feed remaining_length_digit u ds' = feed parse_body ?t ds'" by (rule feed_cong)
    then show ?thesis
      using u b r(2) by (intro exI [of _ ?t] exI [of _ ds']) (auto simp: ready_def stream_def progress_def)
  next
    case False
    let ?b = "of_nat (n mod 128 + 128) :: byte"
    have eq: "remaining_length_bytes n = ?b # remaining_length_bytes (n div 128)"
      using False by (subst remaining_length_bytes.simps) simp
    have str: "stream u ds' = ?b # remaining_length_bytes (n div 128) @ tail"
      using u(3) less.prems(2) eq by simp
    then obtain bs where r: "rest (input u) = ?b # bs" "remaining_length_bytes (n div 128) @ tail = bs @ arriving ds'"
      using u(4) by (cases "rest (input u)") (auto simp: stream_def)
    note b = byte_at_rest [OF src r(1)]
    have len: "Suc i + length (remaining_length_bytes (n div 128)) \<le> 4"
      using less.prems(5) eq by simp
    moreover have "0 < length (remaining_length_bytes (n div 128))" by simp
    ultimately have i: "Suc i < 4" by linarith
    have i4: "(of_nat (Suc i) :: 64 word) < 4"
      using i unat_of_nat_64 [of "Suc i"] by (simp only: word_less_nat_alt) simp
    have cont: "?b AND 0x80 \<noteq> 0" using continuation_bit [of "n mod 128 + 128"] by simp
    have low: "(ucast (?b AND 0x7f) :: 64 word) = of_nat (n mod 128)"
      unfolding low_seven_bits using byte_to_64 [of "n mod 128"] by simp
    let ?t = "u\<lparr>parser := (parser u)\<lparr>remaining_length := remaining_length (parser u) + of_nat (n mod 128) * 128 ^ i,
        multiplier := multiplier (parser u) * 128, digit_bytes := digit_bytes (parser u) + 1\<rparr>,
        input := skip 1 (input u)\<rparr>"
    have "remaining_length_digit u = YIELD_ON_END 223 remaining_length_digit ?t"
      using b(1) cont i4 u(7,8) less.prems(3,4) low
      by (subst remaining_length_digit.simps) (cases u, simp add: Let_def YIELD_ON_END_def)
    then have f: "feed remaining_length_digit u ds' = feed (YIELD_ON_END 223 remaining_length_digit) ?t ds'"
      by (rule feed_cong)
    have "\<exists>t ds''. feed (YIELD_ON_END 223 remaining_length_digit) ?t ds' = feed parse_body t ds'' \<and> ready t ds''
      \<and> stream t ds'' = tail
      \<and> remaining_length (parser t) = remaining_length (parser ?t) + of_nat (n div 128) * 128 ^ Suc i
      \<and> message t = (message ?t)\<lparr>remaining_length_field := ucast (remaining_length (parser t))\<rparr>
      \<and> data_length (parser t) = data_length (parser ?t) + 1"
    proof (rule less.IH)
      show "n div 128 < n" using False by simp
      show "ready ?t ds'" using u(2) b(2) by (simp add: ready_def)
      show "stream ?t ds' = remaining_length_bytes (n div 128) @ tail" using b(3) r(2) by (simp add: stream_def)
    qed (use u(7,8) less.prems(3,4) len in simp_all)
    moreover have "of_nat (n mod 128) * 128 ^ i + of_nat (n div 128) * 128 ^ Suc i = (of_nat n * 128 ^ i :: 64 word)"
    proof -
      have "(of_nat n :: 64 word) = of_nat (n mod 128 + n div 128 * 128)" by simp
      then show ?thesis by (simp only: of_nat_add of_nat_mult) (simp add: algebra_simps)
    qed
    ultimately show ?thesis using f u(1,5,6) by (auto simp: progress_def add.assoc)
  qed
qed

section \<open>What a packet says\<close>

text \<open>The abstraction of a message: the contents its type gives a meaning to.\<close>

definition str :: "xi_data_desc option \<Rightarrow> byte list" where
  "str d = (case d of None \<Rightarrow> [] | Some s \<Rightarrow> contents s)"

datatype packet =
    Connect "byte list" byte byte "16 word" "byte list" "(byte list \<times> byte list) option"
      "byte list option" "byte list option"
  | Connack byte byte
  | Publish byte "byte list" "16 word option" "byte list"
  | Puback "16 word"
  | Subscribe "16 word" "byte list" byte
  | Suback "16 word" byte
  | Disconnect
  | Other nat

definition packet_of :: "xi_mqtt_message \<Rightarrow> packet" where
  "packet_of m = (let ty = msg_type m in
     if ty = XI_MQTT_TYPE_CONNECT then
       Connect (str (protocol_name m)) (protocol_version m) (flags_value m) (keepalive m) (str (client_id m))
         (if flag_will m then Some (str (will_topic m), str (will_message m)) else None)
         (if flag_username_follows m then Some (str (username m)) else None)
         (if flag_password_follows m then Some (str (password m)) else None)
     else if ty = XI_MQTT_TYPE_CONNACK then Connack (connack_unused m) (return_code m)
     else if ty = XI_MQTT_TYPE_PUBLISH then
       Publish (common_value m) (str (topic_name m)) (if msg_qos m > 0 then Some (message_id m) else None)
         (str (publish_content m))
     else if ty = XI_MQTT_TYPE_PUBACK then Puback (message_id m)
     else if ty = XI_MQTT_TYPE_SUBSCRIBE then
       Subscribe (message_id m) (str (topic_filter (the (topics m)))) (payload_byte (the (topics m)))
     else if ty = XI_MQTT_TYPE_SUBACK then Suback (message_id m) (payload_byte (the (topics m)))
     else if ty = XI_MQTT_TYPE_DISCONNECT then Disconnect
     else Other ty)"

text \<open>Every string fits its length field, and a SUBACK carries a status the parser accepts.\<close>

definition parsable :: "xi_mqtt_message \<Rightarrow> bool" where
  "parsable m \<longleftrightarrow> msg_type m \<in> {XI_MQTT_TYPE_CONNECT, XI_MQTT_TYPE_CONNACK, XI_MQTT_TYPE_PUBLISH,
       XI_MQTT_TYPE_PUBACK, XI_MQTT_TYPE_SUBSCRIBE, XI_MQTT_TYPE_SUBACK, XI_MQTT_TYPE_PINGRESP, XI_MQTT_TYPE_DISCONNECT}
     \<and> (\<forall>d \<in> {protocol_name m, client_id m, will_topic m, will_message m, username m, password m, topic_name m}
          \<union> topic_filter ` set_option (topics m). length (str d) < 65536)
     \<and> (msg_type m = XI_MQTT_TYPE_SUBACK \<longrightarrow> payload_byte (the (topics m)) \<in> {0x00, 0x01, 0x02, 0x80})"

text \<open>
  The parser reports a packet only once it sees a byte behind an empty trailing field; these
  are the packets that do not end in one.
\<close>

definition ends_in_bytes :: "xi_mqtt_message \<Rightarrow> bool" where
  "ends_in_bytes m \<longleftrightarrow>
     (msg_type m = XI_MQTT_TYPE_CONNECT \<longrightarrow>
        (if flag_password_follows m then str (password m) \<noteq> []
         else if flag_username_follows m then str (username m) \<noteq> []
         else if flag_will m then str (will_message m) \<noteq> [] else str (client_id m) \<noteq> []))
   \<and> (msg_type m = XI_MQTT_TYPE_PUBLISH \<longrightarrow> msg_qos m > 0 \<or> str (publish_content m) \<noteq> [])"

lemma string_bytes_str: "str_ok d \<Longrightarrow> string_bytes d = bytes_16 (length (str d)) @ str d"
  by (auto simp: string_bytes_def str_def str_ok_def length_contents bytes_16_def split: option.splits)

lemma bytes_16_word:
  fixes w :: "16 word"
  shows "\<exists>hi lo. bytes_16 (unat w) = [hi, lo] \<and> push_bit 8 (ucast hi) + ucast lo = w"
proof -
  have lt: "unat w < 65536" using unsigned_less [of w, where 'a = nat] by simp
  let ?hi = "of_nat (unat w div 256) :: byte" and ?lo = "of_nat (unat w) :: byte"
  have "unat ?hi = unat w div 256" using lt by (intro of_nat_inverse) (simp_all add: less_mult_imp_div_less)
  then have "(ucast ?hi :: 16 word) = of_nat (unat w div 256)" by (metis of_nat_unat)
  moreover have "unat ?lo = unat w mod 256" by (simp only: unat_of_nat) simp
  then have "(ucast ?lo :: 16 word) = of_nat (unat w mod 256)" by (metis of_nat_unat)
  moreover have "(256 * of_nat (unat w div 256) + of_nat (unat w mod 256) :: 16 word)
      = of_nat (256 * (unat w div 256) + unat w mod 256)" by (simp only: of_nat_add of_nat_mult) simp
  ultimately have "push_bit 8 (ucast ?hi) + ucast ?lo = w"
    by (simp only: push_bit_eq_mult) (simp add: mult.commute)
  then show ?thesis unfolding bytes_16_def by blast
qed

section \<open>The packets\<close>

text \<open>Where the coroutine resumes, and which fields of the message are independent.\<close>

lemma resume_points:
  "resumes read_string 246 protocol_name_field (YIELD_ON_END 248 connect_version)"
  "resumes read_string 278 client_id_field connect_will_topic"
  "resumes read_string 282 will_topic_field connect_will_message"
  "resumes read_string 287 will_message_field connect_username"
  "resumes read_string 292 username_field connect_password"
  "resumes read_string 297 password_field (CR_EXIT XI_STATE_OK)"
  "resumes read_string 325 topic_name_field (YIELD_ON_END 327 publish_id)"
  "resumes read_string 446 topic_filter_field (YIELD_ON_END 448 subscribe_qos)"
  "resumes read_data 348 content_field (CR_EXIT XI_STATE_OK)"
  by (simp_all add: resumes_def xi_mqtt_parser_execute_def)

lemma execute_at:
  shows at_248: "cs (parser t) = 248 \<Longrightarrow> xi_mqtt_parser_execute t = connect_version t"
    and at_256: "cs (parser t) = 256 \<Longrightarrow> xi_mqtt_parser_execute t = connect_flags t"
    and at_264: "cs (parser t) = 264 \<Longrightarrow> xi_mqtt_parser_execute t = connect_keepalive_high t"
    and at_271: "cs (parser t) = 271 \<Longrightarrow> xi_mqtt_parser_execute t = connect_keepalive_low t"
    and at_304: "cs (parser t) = 304 \<Longrightarrow> xi_mqtt_parser_execute t = connack_unused_byte t"
    and at_311: "cs (parser t) = 311 \<Longrightarrow> xi_mqtt_parser_execute t = connack_code t"
    and at_322: "cs (parser t) = 322 \<Longrightarrow> xi_mqtt_parser_execute t = publish_topic t"
    and at_327: "cs (parser t) = 327 \<Longrightarrow> xi_mqtt_parser_execute t = publish_id t"
    and at_336: "cs (parser t) = 336 \<Longrightarrow> xi_mqtt_parser_execute t = publish_id_low t"
    and at_355: "cs (parser t) = 355 \<Longrightarrow> xi_mqtt_parser_execute t = ident_high 362 t"
    and at_362: "cs (parser t) = 362 \<Longrightarrow> xi_mqtt_parser_execute t = ident_low t"
    and at_427: "cs (parser t) = 427 \<Longrightarrow> xi_mqtt_parser_execute t = subscribe_id_high t"
    and at_434: "cs (parser t) = 434 \<Longrightarrow> xi_mqtt_parser_execute t = subscribe_id_low t"
    and at_441: "cs (parser t) = 441 \<Longrightarrow> xi_mqtt_parser_execute t = subscribe_topic t"
    and at_448: "cs (parser t) = 448 \<Longrightarrow> xi_mqtt_parser_execute t = subscribe_qos t"
    and at_460: "cs (parser t) = 460 \<Longrightarrow> xi_mqtt_parser_execute t = suback_id_high t"
    and at_467: "cs (parser t) = 467 \<Longrightarrow> xi_mqtt_parser_execute t = suback_id_low t"
    and at_474: "cs (parser t) = 474 \<Longrightarrow> xi_mqtt_parser_execute t = suback_status t"
    and at_207: "cs (parser t) = 207 \<Longrightarrow> xi_mqtt_parser_execute t = first_byte t"
  by (simp_all add: xi_mqtt_parser_execute_def)

lemmas field_defs = protocol_name_field_def client_id_field_def will_topic_field_def will_message_field_def
  username_field_def password_field_def topic_name_field_def content_field_def topic_filter_field_def

lemma lenses [simp]:
  "lens protocol_name_field m" "lens client_id_field m" "lens will_topic_field m" "lens will_message_field m"
  "lens username_field m" "lens password_field m" "lens topic_name_field m" "lens content_field m"
  by (simp_all add: lens_def field_defs)

definition parsed :: "parse \<Rightarrow> parse_state \<Rightarrow> arrival list \<Rightarrow> byte list \<Rightarrow> (xi_mqtt_message \<Rightarrow> bool) \<Rightarrow> bool" where
  "parsed k s ds tail P \<longleftrightarrow> (\<exists>t ds'. feed k s ds = Some (XI_STATE_OK, t, ds') \<and> ready t ds' \<and> stream t ds' = tail
     \<and> P (message t))"

lemma parsed_cong: "feed k s ds = feed j t ds' \<Longrightarrow> parsed k s ds tail P = parsed j t ds' tail P"
  by (simp add: parsed_def)

lemma parsed_exit:
  "ready s ds \<Longrightarrow> stream s ds = tail \<Longrightarrow> P (message s) \<Longrightarrow> parsed (CR_EXIT XI_STATE_OK) s ds tail P"
  by (simp add: parsed_def feed_exit stream_def ready_def)

text \<open>A packet identifier, read by two labels of any packet.\<close>

lemma feed_ident:
  assumes "\<And>t. cs (parser t) = l1 \<Longrightarrow> xi_mqtt_parser_execute t = take_byte put_id_high (YIELD_ON_END l2 (take_byte put_id_low k)) t"
    "\<And>t. cs (parser t) = l2 \<Longrightarrow> xi_mqtt_parser_execute t = take_byte put_id_low k t"
    "ready s ds" "stream s ds = bytes_16 (unat w) @ tail"
  obtains t ds' where
    "feed (YIELD_ON_END l1 (take_byte put_id_high (YIELD_ON_END l2 (take_byte put_id_low k)))) s ds = feed k t ds'"
    "ready t ds'" "stream t ds' = tail" "message t = (message s)\<lparr>message_id := w\<rparr>" "progress s t 2"
proof -
  obtain hi lo where b: "bytes_16 (unat w) = [hi, lo]" "push_bit 8 (ucast hi) + ucast lo = w"
    using bytes_16_word [of w] by blast
  have s1: "stream s ds = hi # lo # tail" using assms(4) b(1) by simp
  obtain t ds1 where t: "feed (YIELD_ON_END l1 (take_byte put_id_high (YIELD_ON_END l2 (take_byte put_id_low k)))) s ds
      = feed (YIELD_ON_END l2 (take_byte put_id_low k)) t ds1"
    "ready t ds1" "stream t ds1 = lo # tail" "message t = put_id_high hi (message s)" "progress s t 1"
    by (rule feed_byte [OF assms(1,3) s1])
  obtain u ds2 where u: "feed (YIELD_ON_END l2 (take_byte put_id_low k)) t ds1 = feed k u ds2"
    "ready u ds2" "stream u ds2 = tail" "message u = put_id_low lo (message t)" "progress t u 1"
    by (rule feed_byte [OF assms(2) t(2,3)])
  have "message u = (message s)\<lparr>message_id := w\<rparr>" using u(4) t(4) b(2) by (simp add: put_id_high_def put_id_low_def)
  moreover have "progress s u 2" using progress_trans [OF t(5) u(5)] by (simp add: numeral_2_eq_2)
  ultimately show thesis using that [of u ds2] u t(1) by simp
qed

lemma parsed_puback:
  assumes "ready s ds" "stream s ds = bytes_16 (unat w) @ tail" "P ((message s)\<lparr>message_id := w\<rparr>)"
  shows "parsed parse_puback s ds tail P"
proof -
  obtain t ds' where t: "feed (YIELD_ON_END 355 (take_byte put_id_high (YIELD_ON_END 362 (take_byte put_id_low (CR_EXIT XI_STATE_OK))))) s ds
      = feed (CR_EXIT XI_STATE_OK) t ds'" "ready t ds'" "stream t ds' = tail" "message t = (message s)\<lparr>message_id := w\<rparr>"
    by (rule feed_ident [OF at_355 [unfolded ident_high_def ident_low_def] at_362 [unfolded ident_low_def] assms(1,2)])
  then show ?thesis
    unfolding parse_puback_def ident_high_def ident_low_def parsed_cong [OF t(1)]
    using assms(3) t by (intro parsed_exit) simp_all
qed

lemma parsed_connack:
  assumes "ready s ds" "stream s ds = a # b # tail" "P ((message s)\<lparr>connack_unused := a, return_code := b\<rparr>)"
  shows "parsed parse_connack s ds tail P"
proof -
  obtain t ds1 where t: "feed parse_connack s ds = feed (YIELD_ON_END 311 connack_code) t ds1"
    "ready t ds1" "stream t ds1 = b # tail" "message t = (message s)\<lparr>connack_unused := a\<rparr>"
    unfolding parse_connack_def connack_unused_byte_def
    by (rule feed_byte [OF at_304 [unfolded connack_unused_byte_def] assms(1,2)])
  obtain u ds2 where u: "feed (YIELD_ON_END 311 connack_code) t ds1 = feed (CR_EXIT XI_STATE_OK) u ds2"
    "ready u ds2" "stream u ds2 = tail" "message u = (message t)\<lparr>return_code := b\<rparr>"
    unfolding connack_code_def
    by (rule feed_byte [OF at_311 [unfolded connack_code_def] t(2,3)])
  show ?thesis unfolding parsed_cong [OF t(1)] parsed_cong [OF u(1)]
    using u t assms(3) by (intro parsed_exit) simp_all
qed

text \<open>The optional strings of a CONNECT, each followed by code that is itself correct.\<close>

lemma parsed_string:
  assumes "resumes read_string l into k" "lens into (message s)" "ready s ds" "fst into (message s) = Some None"
    "stream s ds = bytes_16 (length xs) @ xs @ tail" "length xs < 65536" "xs @ tail \<noteq> []"
    "\<And>t ds' e. ready t ds' \<Longrightarrow> stream t ds' = tail \<Longrightarrow> message t = snd into (Some e) (message s)
       \<Longrightarrow> contents e = xs \<Longrightarrow> progress s t (2 + length xs) \<Longrightarrow> parsed k t ds' final P"
  shows "parsed (READ_STRING l into k) s ds final P"
proof -
  obtain t ds' e where t: "feed (READ_STRING l into k) s ds = feed k t ds'" "ready t ds'" "stream t ds' = tail"
    "message t = snd into (Some e) (message s)" "contents e = xs" "progress s t (2 + length xs)"
    using feed_string [OF assms(1-7)] by metis
  show ?thesis unfolding parsed_cong [OF t(1)] by (rule assms(8) [OF t(2-6)])
qed

lemma parsed_byte:
  assumes "\<And>t. cs (parser t) = l \<Longrightarrow> xi_mqtt_parser_execute t = take_byte put k t"
    "ready s ds" "stream s ds = b # bs"
    "\<And>t ds'. ready t ds' \<Longrightarrow> stream t ds' = bs \<Longrightarrow> message t = put b (message s) \<Longrightarrow> progress s t 1
       \<Longrightarrow> parsed k t ds' final P"
  shows "parsed (YIELD_ON_END l (take_byte put k)) s ds final P"
proof -
  obtain t ds' where t: "feed (YIELD_ON_END l (take_byte put k)) s ds = feed k t ds'" "ready t ds'"
    "stream t ds' = bs" "message t = put b (message s)" "progress s t 1"
    by (rule feed_byte [OF assms(1-3)])
  show ?thesis unfolding parsed_cong [OF t(1)] by (rule assms(4) [OF t(2-5)])
qed

lemma parsed_yield:
  assumes "\<And>t. cs (parser t) = l \<Longrightarrow> xi_mqtt_parser_execute t = k t" "ready s ds" "stream s ds \<noteq> []"
    "\<And>t ds'. ready t ds' \<Longrightarrow> stream t ds' = stream s ds \<Longrightarrow> message t = message s \<Longrightarrow> progress s t 0
       \<Longrightarrow> rest (input t) \<noteq> [] \<Longrightarrow> parsed k t ds' final P"
  shows "parsed (YIELD_ON_END l k) s ds final P"
proof -
  obtain t ds' where t: "feed (YIELD_ON_END l k) s ds = feed k t ds'" "ready t ds'" "stream t ds' = stream s ds"
    "message t = message s" "progress s t 0" "rest (input t) \<noteq> []"
    by (rule feed_yield [OF assms(1-3)])
  show ?thesis unfolding parsed_cong [OF t(1)] by (rule assms(4) [OF t(2-6)])
qed

lemma parsed_take:
  assumes "ready s ds" "stream s ds = b # bs" "rest (input s) \<noteq> []"
    "\<And>t. ready t ds \<Longrightarrow> stream t ds = bs \<Longrightarrow> message t = put b (message s) \<Longrightarrow> progress s t 1 \<Longrightarrow> parsed k t ds final P"
  shows "parsed (take_byte put k) s ds final P"
proof -
  obtain bs' where r: "rest (input s) = b # bs'" using assms(2,3) by (cases "rest (input s)") (auto simp: stream_def)
  obtain t where t: "feed (take_byte put k) s ds = feed k t ds" "ready t ds" "stream t ds = tl (stream s ds)"
    "message t = put b (message s)" "progress s t 1"
    by (rule feed_take [OF assms(1) r])
  show ?thesis unfolding parsed_cong [OF t(1)] using t assms(2,4) by simp
qed

lemma parsed_ident:
  assumes "\<And>t. cs (parser t) = l1 \<Longrightarrow> xi_mqtt_parser_execute t = take_byte put_id_high (YIELD_ON_END l2 (take_byte put_id_low k)) t"
    "\<And>t. cs (parser t) = l2 \<Longrightarrow> xi_mqtt_parser_execute t = take_byte put_id_low k t"
    "ready s ds" "stream s ds = bytes_16 (unat w) @ tail"
    "\<And>t ds'. ready t ds' \<Longrightarrow> stream t ds' = tail \<Longrightarrow> message t = (message s)\<lparr>message_id := w\<rparr>
      \<Longrightarrow> progress s t 2 \<Longrightarrow> parsed k t ds' final P"
  shows "parsed (YIELD_ON_END l1 (take_byte put_id_high (YIELD_ON_END l2 (take_byte put_id_low k)))) s ds final P"
proof -
  obtain t ds' where t:
    "feed (YIELD_ON_END l1 (take_byte put_id_high (YIELD_ON_END l2 (take_byte put_id_low k)))) s ds = feed k t ds'"
    "ready t ds'" "stream t ds' = tail" "message t = (message s)\<lparr>message_id := w\<rparr>" "progress s t 2"
    by (rule feed_ident [OF assms(1-4)])
  show ?thesis unfolding parsed_cong [OF t(1)] by (rule assms(5) [OF t(2-5)])
qed

lemma parsed_step: "k s = j t \<Longrightarrow> parsed j t ds final P \<Longrightarrow> parsed k s ds final P"
  using parsed_cong [OF feed_cong [of k s j t ds]] by simp

lemma parsed_opt_string:
  assumes "k s = (if c then READ_STRING l into j s else j s)" "resumes read_string l into j" "lens into (message s)"
    "ready s ds" "fst into (message s) = Some None"
    "stream s ds = (if c then bytes_16 (length xs) @ xs else []) @ tail" "length xs < 65536" "c \<longrightarrow> xs @ tail \<noteq> []"
    "\<And>t ds' e. ready t ds' \<Longrightarrow> stream t ds' = tail \<Longrightarrow> c \<longrightarrow> contents e = xs
       \<Longrightarrow> message t = (if c then snd into (Some e) (message s) else message s) \<Longrightarrow> parsed j t ds' final P"
  shows "parsed k s ds final P"
proof (cases c)
  case True
  then have k: "k s = READ_STRING l into j s" using assms(1) by simp
  show ?thesis
    by (rule parsed_step [where k = k and s = s and j = "READ_STRING l into j", OF k],
        rule parsed_string [OF assms(2-5), of xs tail])
      (use assms(6-9) True in auto)
next
  case False
  then have k: "k s = j s" using assms(1) by simp
  have "parsed j s ds final P"
    using False assms(4,6) by (intro assms(9)) auto
  then show ?thesis by (rule parsed_step [where k = k and s = s and j = j, OF k])
qed

text \<open>CONNECT: the strings after the fixed part, then the fixed part.\<close>

definition connect_strings :: "xi_mqtt_message \<Rightarrow> byte list" where
  "connect_strings m = string_bytes (client_id m)
     @ (if flag_will m then string_bytes (will_topic m) @ string_bytes (will_message m) else [])
     @ (if flag_username_follows m then string_bytes (username m) else [])
     @ (if flag_password_follows m then string_bytes (password m) else [])"

lemma string_bytes_not_Nil [simp]: "string_bytes d \<noteq> []"
  by (simp add: string_bytes_def bytes_16_def split: option.splits)

lemma flags_from_value:
  "flags_value m = flags_value m' \<Longrightarrow> flag_will m = flag_will m'"
  "flags_value m = flags_value m' \<Longrightarrow> flag_username_follows m = flag_username_follows m'"
  "flags_value m = flags_value m' \<Longrightarrow> flag_password_follows m = flag_password_follows m'"
  by (simp_all add: flag_will_def flag_username_follows_def flag_password_follows_def)

lemma parsed_connect_tail:
  assumes m: "fields_ok m" "parsable m" "ends_in_bytes m \<or> tail \<noteq> []" "msg_type m = XI_MQTT_TYPE_CONNECT"
    and s: "ready s ds" "stream s ds = connect_strings m @ tail" "flags_value (message s) = flags_value m"
    "client_id (message s) = None" "will_topic (message s) = None" "will_message (message s) = None"
    "username (message s) = None" "password (message s) = None"
    and P: "\<And>c wt wm u pw. str c = str (client_id m) \<Longrightarrow> (flag_will m \<longrightarrow> str wt = str (will_topic m) \<and> str wm = str (will_message m))
      \<Longrightarrow> (flag_username_follows m \<longrightarrow> str u = str (username m)) \<Longrightarrow> (flag_password_follows m \<longrightarrow> str pw = str (password m))
      \<Longrightarrow> P ((message s)\<lparr>client_id := c, will_topic := wt, will_message := wm, username := u, password := pw\<rparr>)"
  shows "parsed connect_client_id s ds tail P"
proof -
  let ?w = "flag_will m" and ?u = "flag_username_follows m" and ?p = "flag_password_follows m"
  have short: "length (str (client_id m)) < 65536" "length (str (will_topic m)) < 65536"
    "length (str (will_message m)) < 65536" "length (str (username m)) < 65536" "length (str (password m)) < 65536"
    using m(2) by (simp_all add: parsable_def)
  have bytes: "string_bytes (client_id m) = bytes_16 (length (str (client_id m))) @ str (client_id m)"
    "string_bytes (will_topic m) = bytes_16 (length (str (will_topic m))) @ str (will_topic m)"
    "string_bytes (will_message m) = bytes_16 (length (str (will_message m))) @ str (will_message m)"
    "string_bytes (username m) = bytes_16 (length (str (username m))) @ str (username m)"
    "string_bytes (password m) = bytes_16 (length (str (password m))) @ str (password m)"
    using m(1) by (simp_all add: fields_ok_def string_bytes_str)
  define b5 where "b5 = (if ?p then string_bytes (password m) else []) @ tail"
  define b4 where "b4 = (if ?u then string_bytes (username m) else []) @ b5"
  define b3 where "b3 = (if ?w then string_bytes (will_message m) else []) @ b4"
  define b2 where "b2 = (if ?w then string_bytes (will_topic m) else []) @ b3"
  have ends: "?p \<longrightarrow> str (password m) @ tail \<noteq> []" "?u \<longrightarrow> str (username m) @ b5 \<noteq> []"
    "?w \<longrightarrow> str (will_message m) @ b4 \<noteq> []" "?w \<longrightarrow> str (will_topic m) @ b3 \<noteq> []"
    "str (client_id m) @ b2 \<noteq> []"
    using m(3,4) by (auto simp: ends_in_bytes_def b5_def b4_def b3_def b2_def)
  have S: "stream s ds = bytes_16 (length (str (client_id m))) @ str (client_id m) @ b2"
    using s(2) bytes(1) by (simp add: connect_strings_def b2_def b3_def b4_def b5_def)
  note flags = flags_from_value [where m' = m]
  show ?thesis
    unfolding connect_client_id_def
  proof (rule parsed_string [OF resume_points(2) lenses(2) s(1) _ S short(1) ends(5)])
    show "fst client_id_field (message s) = Some None" using s(4) by (simp add: field_defs)
    fix t1 ds1 e1
    assume t1: "ready t1 ds1" "stream t1 ds1 = b2" "message t1 = snd client_id_field (Some e1) (message s)"
      "contents e1 = str (client_id m)"
    show "parsed connect_will_topic t1 ds1 tail P"
    proof (rule parsed_opt_string [where c = ?w, OF _ resume_points(3) lenses(3) t1(1) _ _ short(2) ends(4)])
      show "connect_will_topic t1 = (if ?w then READ_STRING 282 will_topic_field connect_will_message t1 else connect_will_message t1)"
        using t1(3) s(3) flags(1) [of "message t1"] by (simp add: connect_will_topic_def field_defs)
      fix t2 ds2 e2
      assume t2: "ready t2 ds2" "stream t2 ds2 = b3" "?w \<longrightarrow> contents e2 = str (will_topic m)"
        "message t2 = (if ?w then snd will_topic_field (Some e2) (message t1) else message t1)"
      show "parsed connect_will_message t2 ds2 tail P"
      proof (rule parsed_opt_string [where c = ?w, OF _ resume_points(4) lenses(4) t2(1) _ _ short(3) ends(3)])
        show "connect_will_message t2 = (if ?w then READ_STRING 287 will_message_field connect_username t2 else connect_username t2)"
          using t1(3) t2(4) s(3) flags(1) [of "message t2"] by (simp add: connect_will_message_def field_defs)
        fix t3 ds3 e3
        assume t3: "ready t3 ds3" "stream t3 ds3 = b4" "?w \<longrightarrow> contents e3 = str (will_message m)"
          "message t3 = (if ?w then snd will_message_field (Some e3) (message t2) else message t2)"
        show "parsed connect_username t3 ds3 tail P"
        proof (rule parsed_opt_string [where c = ?u, OF _ resume_points(5) lenses(5) t3(1) _ _ short(4) ends(2)])
          show "connect_username t3 = (if ?u then READ_STRING 292 username_field connect_password t3 else connect_password t3)"
            using t1(3) t2(4) t3(4) s(3) flags(2) [of "message t3"] by (simp add: connect_username_def field_defs)
          fix t4 ds4 e4
          assume t4: "ready t4 ds4" "stream t4 ds4 = b5" "?u \<longrightarrow> contents e4 = str (username m)"
            "message t4 = (if ?u then snd username_field (Some e4) (message t3) else message t3)"
          show "parsed connect_password t4 ds4 tail P"
          proof (rule parsed_opt_string [where c = ?p, OF _ resume_points(6) lenses(6) t4(1) _ _ short(5) ends(1)])
            show "connect_password t4 = (if ?p then READ_STRING 297 password_field (CR_EXIT XI_STATE_OK) t4 else CR_EXIT XI_STATE_OK t4)"
              using t1(3) t2(4) t3(4) t4(4) s(3) flags(3) [of "message t4"]
              by (simp add: connect_password_def field_defs)
            fix t5 ds5 e5
            assume t5: "ready t5 ds5" "stream t5 ds5 = tail" "?p \<longrightarrow> contents e5 = str (password m)"
              "message t5 = (if ?p then snd password_field (Some e5) (message t4) else message t4)"
            have "message t5 = (message s)\<lparr>client_id := Some e1, will_topic := (if ?w then Some e2 else None),
                will_message := (if ?w then Some e3 else None), username := (if ?u then Some e4 else None),
                password := (if ?p then Some e5 else None)\<rparr>"
              using t1(3) t2(4) t3(4) t4(4) t5(4) s(4-8) by (cases "message s") (auto simp: field_defs)
            then show "parsed (CR_EXIT XI_STATE_OK) t5 ds5 tail P"
              using t1(4) t2(3) t3(3) t4(3) t5(1,2,3) by (intro parsed_exit) (auto intro!: P simp: str_def [of "Some _"])
          qed (use t1 t2 t3 t4 s bytes in \<open>simp_all add: field_defs b5_def\<close>)
        qed (use t1 t2 t3 s bytes in \<open>simp_all add: field_defs b4_def\<close>)
      qed (use t1 t2 s bytes in \<open>simp_all add: field_defs b3_def\<close>)
    qed (use t1 s bytes in \<open>simp_all add: field_defs b2_def\<close>)
  qed
qed

definition blank :: "xi_mqtt_message \<Rightarrow> bool" where
  "blank m \<longleftrightarrow> protocol_name m = None \<and> client_id m = None \<and> will_topic m = None \<and> will_message m = None
     \<and> username m = None \<and> password m = None \<and> topic_name m = None \<and> publish_content m = None \<and> topics m = None"

text \<open>The parsed message says the same as the packet that was written.\<close>

definition reads_back :: "xi_mqtt_message \<Rightarrow> xi_mqtt_message \<Rightarrow> xi_mqtt_message \<Rightarrow> bool" where
  "reads_back m m0 m' \<longleftrightarrow> packet_of m' = packet_of m \<and> common_value m' = common_value m
     \<and> remaining_length_field m' = remaining_length_field m0"

lemma types_from_value:
  "common_value m = common_value m' \<Longrightarrow> msg_type m = msg_type m'"
  "common_value m = common_value m' \<Longrightarrow> msg_qos m = msg_qos m'"
  by (simp_all add: msg_type_def msg_qos_def)

lemma parsed_connect:
  assumes m: "fields_ok m" "parsable m" "ends_in_bytes m \<or> tail \<noteq> []" "msg_type m = XI_MQTT_TYPE_CONNECT"
    and s: "ready s ds" "stream s ds = body_bytes m @ tail" "blank (message s)" "common_value (message s) = common_value m"
  shows "parsed parse_connect s ds tail (reads_back m (message s))"
proof -
  obtain hi lo where ka: "bytes_16 (unat (keepalive m)) = [hi, lo]" "push_bit 8 (ucast hi) + ucast lo = keepalive m"
    using bytes_16_word by blast
  let ?b = "protocol_version m # flags_value m # hi # lo # connect_strings m @ tail"
  have S: "stream s ds = bytes_16 (length (str (protocol_name m))) @ str (protocol_name m) @ ?b"
    using s(2) m(1,4) ka(1) string_bytes_str [of "protocol_name m"]
    by (simp add: body_bytes_def connect_strings_def fields_ok_def)
  have short: "length (str (protocol_name m)) < 65536" using m(2) by (simp add: parsable_def)
  have ty: "common_value x = common_value m \<Longrightarrow> msg_type x = 1" for x
    using types_from_value(1) [of x m] m(4) by simp
  show ?thesis
    unfolding parse_connect_def
  proof (rule parsed_string [OF resume_points(1) lenses(1) s(1) _ S short])
    show "fst protocol_name_field (message s) = Some None" using s(3) by (simp add: field_defs blank_def)
    fix t1 ds1 e1
    assume t1: "ready t1 ds1" "stream t1 ds1 = ?b" "message t1 = snd protocol_name_field (Some e1) (message s)"
      "contents e1 = str (protocol_name m)"
    show "parsed (YIELD_ON_END 248 connect_version) t1 ds1 tail (reads_back m (message s))"
      unfolding connect_version_def
    proof (rule parsed_byte [OF at_248 [unfolded connect_version_def] t1(1,2)])
      fix t2 ds2
      assume t2: "ready t2 ds2" "stream t2 ds2 = flags_value m # hi # lo # connect_strings m @ tail"
        "message t2 = (message t1)\<lparr>protocol_version := protocol_version m\<rparr>"
      show "parsed (YIELD_ON_END 256 connect_flags) t2 ds2 tail (reads_back m (message s))"
        unfolding connect_flags_def
      proof (rule parsed_byte [OF at_256 [unfolded connect_flags_def] t2(1,2)])
        fix t3 ds3
        assume t3: "ready t3 ds3" "stream t3 ds3 = hi # lo # connect_strings m @ tail"
          "message t3 = (message t2)\<lparr>flags_value := flags_value m\<rparr>"
        show "parsed (YIELD_ON_END 264 connect_keepalive_high) t3 ds3 tail (reads_back m (message s))"
          unfolding connect_keepalive_high_def
        proof (rule parsed_byte [OF at_264 [unfolded connect_keepalive_high_def] t3(1,2)])
          fix t4 ds4
          assume t4: "ready t4 ds4" "stream t4 ds4 = lo # connect_strings m @ tail"
            "message t4 = (message t3)\<lparr>keepalive := push_bit 8 (ucast hi)\<rparr>"
          show "parsed (YIELD_ON_END 271 connect_keepalive_low) t4 ds4 tail (reads_back m (message s))"
            unfolding connect_keepalive_low_def
          proof (rule parsed_byte [OF at_271 [unfolded connect_keepalive_low_def] t4(1,2)])
            fix t5 ds5
            assume t5: "ready t5 ds5" "stream t5 ds5 = connect_strings m @ tail"
              "message t5 = (message t4)\<lparr>keepalive := keepalive (message t4) + ucast lo\<rparr>"
            have f: "message t5 = (message s)\<lparr>protocol_name := Some e1, protocol_version := protocol_version m,
                flags_value := flags_value m, keepalive := keepalive m\<rparr>"
              using t1(3) t2(3) t3(3) t4(3) t5(3) ka(2) by (simp add: field_defs)
            show "parsed connect_client_id t5 ds5 tail (reads_back m (message s))"
              by (rule parsed_connect_tail [OF m t5(1,2)])
                (use s(3,4) m(4) t1(4) in \<open>auto simp: f blank_def reads_back_def packet_of_def ty flag_will_def
                  flag_username_follows_def flag_password_follows_def str_def [of "Some _"]\<close>)
          qed
        qed
      qed
    qed
  qed simp
qed

text \<open>PUBLISH: the payload is as long as the remaining length says.\<close>

lemma parsed_publish_payload:
  assumes s: "ready s ds" "stream s ds = xs @ tail" "length xs \<le> 2 ^ 31" "publish_content (message s) = None"
    "remaining_length (parser s) + 2 - data_length (parser s) = of_nat (length xs)"
    and P: "\<And>d. str d = xs \<Longrightarrow> P ((message s)\<lparr>publish_content := d\<rparr>)"
  shows "parsed publish_payload s ds tail P"
proof -
  let ?s = "s\<lparr>parser := (parser s)\<lparr>str_length := of_nat (length xs)\<rparr>\<rparr>"
  have n: "(of_nat (length xs) > (0 :: 64 word)) \<longleftrightarrow> xs \<noteq> []"
    using s(3) unat_of_nat_64 [of "length xs"] by (simp add: word_less_nat_alt)
  have ready: "ready ?s ds" "stream ?s ds = stream s ds" using s(1) by (simp_all add: ready_def stream_def)
  show ?thesis
  proof (cases "xs = []")
    case True
    then have "publish_payload s = CR_EXIT XI_STATE_OK ?s" using s(5) by (simp add: publish_payload_def Let_def)
    moreover have "parsed (CR_EXIT XI_STATE_OK) ?s ds tail P"
    proof (rule parsed_exit)
      have "(message s)\<lparr>publish_content := None\<rparr> = message s" using s(4) by (cases "message s") simp
      then show "P (message ?s)" using P [of None] True by (simp add: str_def)
    qed (use True s(2) ready in simp_all)
    ultimately show ?thesis by (rule parsed_step [where k = publish_payload and s = s and j = "CR_EXIT XI_STATE_OK" and t = ?s])
  next
    case False
    then have step: "publish_payload s = READ_DATA 348 content_field (CR_EXIT XI_STATE_OK) ?s"
      using s(5) n by (simp add: publish_payload_def Let_def)
    have f: "fst content_field (message ?s) = Some None" using s(4) by (simp add: field_defs)
    have S: "stream ?s ds = xs @ tail" "str_length (parser ?s) = of_nat (length xs)" using s(2) ready(2) by simp_all
    obtain t ds' e where t: "feed (READ_DATA 348 content_field (CR_EXIT XI_STATE_OK)) ?s ds = feed (CR_EXIT XI_STATE_OK) t ds'"
      "ready t ds'" "stream t ds' = tail" "message t = snd content_field (Some e) (message ?s)" "contents e = xs"
      by (rule feed_data [OF resume_points(9) lenses(8) ready(1) f S s(3) False])
    have "parsed (CR_EXIT XI_STATE_OK) t ds' tail P"
      using t P [of "Some e"] by (intro parsed_exit) (simp_all add: field_defs str_def)
    then have "parsed (READ_DATA 348 content_field (CR_EXIT XI_STATE_OK)) ?s ds tail P"
      unfolding parsed_cong [OF t(1)] .
    with step show ?thesis
      by (rule parsed_step [where k = publish_payload and s = s and j = "READ_DATA 348 content_field (CR_EXIT XI_STATE_OK)" and t = ?s])
  qed
qed

lemma parsed_publish:
  fixes m :: xi_mqtt_message
  defines "xs \<equiv> str (publish_content m)"
  assumes m: "fields_ok m" "parsable m" "ends_in_bytes m \<or> tail \<noteq> []" "msg_type m = XI_MQTT_TYPE_PUBLISH"
    "length (body_bytes m) + length xs \<le> 268435455"
    and s: "ready s ds" "stream s ds = body_bytes m @ xs @ tail" "blank (message s)"
    "common_value (message s) = common_value m" "data_length (parser s) = 2"
    "remaining_length (parser s) = of_nat (length (body_bytes m) + length xs)"
  shows "parsed parse_publish s ds tail (reads_back m (message s))"
proof -
  let ?t = "str (topic_name m)" and ?q = "msg_qos m > 0"
  let ?i = "if ?q then bytes_16 (unat (message_id m)) else []"
  have body: "body_bytes m = bytes_16 (length ?t) @ ?t @ ?i"
    using m(1,4) string_bytes_str [of "topic_name m"] by (simp add: body_bytes_def fields_ok_def)
  have short: "length ?t < 65536" using m(2) by (simp add: parsable_def)
  have ne: "?i @ xs @ tail \<noteq> []" using m(3,4) by (auto simp: ends_in_bytes_def xs_def bytes_16_def)
  have ty: "common_value x = common_value m \<Longrightarrow> msg_type x = 3 \<and> msg_qos x = msg_qos m" for x
    using types_from_value [of x m] m(4) by simp
  have len: "length (body_bytes m) = 2 + length ?t + (if ?q then 2 else 0)" by (simp add: body)
  show ?thesis
    unfolding parse_publish_def
  proof (rule parsed_yield [OF at_322 s(1)])
    show "stream s ds \<noteq> []" using s(2) by (simp add: body bytes_16_def)
    fix t1 ds1
    assume t1: "ready t1 ds1" "stream t1 ds1 = stream s ds" "message t1 = message s" "progress s t1 0"
    have S1: "stream t1 ds1 = bytes_16 (length ?t) @ ?t @ ?i @ xs @ tail" using t1(2) s(2) by (simp add: body)
    show "parsed publish_topic t1 ds1 tail (reads_back m (message s))"
      unfolding publish_topic_def
    proof (rule parsed_string [OF resume_points(7) lenses(7) t1(1) _ S1 short])
      show "fst topic_name_field (message t1) = Some None" using s(3) t1(3) by (simp add: field_defs blank_def)
      show "?t @ ?i @ xs @ tail \<noteq> []" using ne by blast
      fix t2 ds2 e
      assume t2: "ready t2 ds2" "stream t2 ds2 = ?i @ xs @ tail" "message t2 = snd topic_name_field (Some e) (message t1)"
        "contents e = ?t" "progress t1 t2 (2 + length ?t)"
      have p2: "progress s t2 (2 + length ?t)" using progress_trans [OF t1(4) t2(5)] by simp
      show "parsed (YIELD_ON_END 327 publish_id) t2 ds2 tail (reads_back m (message s))"
      proof (rule parsed_yield [OF at_327 t2(1)])
        show "stream t2 ds2 \<noteq> []" using ne t2(2) by simp
        fix t3 ds3
        assume t3: "ready t3 ds3" "stream t3 ds3 = stream t2 ds2" "message t3 = message t2" "progress t2 t3 0"
          "rest (input t3) \<noteq> []"
        have p3: "progress s t3 (2 + length ?t)" using progress_trans [OF p2 t3(4)] by simp
        have m3: "message t3 = (message s)\<lparr>topic_name := Some e\<rparr>" using t1(3) t2(3) t3(3) by (simp add: field_defs)
        have q: "msg_qos (message t3) = msg_qos m" using ty [of "message t3"] s(4) m3 by simp
        have xs31: "length xs \<le> 2 ^ 31" using m(5) by simp
        have done_: "parsed publish_payload t ds' tail (reads_back m (message s))"
          if t: "ready t ds'" "stream t ds' = xs @ tail" "progress s t (length (body_bytes m))"
            "message t = (message t3)\<lparr>message_id := (if ?q then message_id m else message_id (message t3))\<rparr>" for t ds'
        proof (rule parsed_publish_payload [OF t(1,2) xs31])
          show "publish_content (message t) = None" using t(4) m3 s(3) by (simp add: blank_def)
          show "remaining_length (parser t) + 2 - data_length (parser t) = of_nat (length xs)"
            using t(3) s(5,6) by (simp add: progress_def)
          fix d
          assume "str d = xs"
          then show "reads_back m (message s) ((message t)\<lparr>publish_content := d\<rparr>)"
            using t(4) m3 s(4) t2(4) m(4) ty [of "(message t)\<lparr>publish_content := d\<rparr>"]
            by (auto simp: reads_back_def packet_of_def xs_def str_def [of "Some _"])
        qed
        show "parsed publish_id t3 ds3 tail (reads_back m (message s))"
        proof (cases ?q)
          case True
          obtain hi lo where b: "bytes_16 (unat (message_id m)) = [hi, lo]" "push_bit 8 (ucast hi) + ucast lo = message_id m"
            using bytes_16_word by blast
          have S3: "stream t3 ds3 = hi # lo # xs @ tail" using t3(2) t2(2) b(1) True by simp
          have step: "publish_id t3 = take_byte put_id_high (YIELD_ON_END 336 publish_id_low) t3"
            using True q by (simp add: publish_id_def)
          show ?thesis
          proof (rule parsed_step [where k = publish_id and s = t3 and t = t3 and j = "take_byte put_id_high (YIELD_ON_END 336 publish_id_low)", OF step])
            show "parsed (take_byte put_id_high (YIELD_ON_END 336 publish_id_low)) t3 ds3 tail (reads_back m (message s))"
            proof (rule parsed_take [OF t3(1) S3 t3(5)])
              fix t4
              assume t4: "ready t4 ds3" "stream t4 ds3 = lo # xs @ tail" "message t4 = put_id_high hi (message t3)"
                "progress t3 t4 1"
              show "parsed (YIELD_ON_END 336 publish_id_low) t4 ds3 tail (reads_back m (message s))"
                unfolding publish_id_low_def
              proof (rule parsed_byte [OF at_336 [unfolded publish_id_low_def] t4(1,2)])
                fix t5 ds5
                assume t5: "ready t5 ds5" "stream t5 ds5 = xs @ tail" "message t5 = put_id_low lo (message t4)"
                  "progress t4 t5 1"
                have p5: "progress s t5 (length (body_bytes m))"
                  using progress_trans [OF p3 progress_trans [OF t4(4) t5(4)]] True len by (simp add: numeral_2_eq_2)
                show "parsed publish_payload t5 ds5 tail (reads_back m (message s))"
                  by (rule done_ [OF t5(1,2) p5])
                    (use True t4(3) t5(3) b(2) in \<open>simp add: put_id_high_def put_id_low_def\<close>)
              qed
            qed
          qed
        next
          case False
          then have "publish_id t3 = publish_payload t3" using q by (simp add: publish_id_def)
          moreover have "parsed publish_payload t3 ds3 tail (reads_back m (message s))"
            using False t3 t2(2) p3 len by (intro done_) simp_all
          ultimately show ?thesis
            by (rule parsed_step [where k = publish_id and s = t3 and t = t3 and j = publish_payload])
        qed
      qed
    qed
  qed
qed

text \<open>SUBSCRIBE and SUBACK allocate their topic pair.\<close>

lemma alloc_topics_granted:
  assumes "ready s ds"
  obtains t p where "ALLOC_TOPICS k s = k t" "ready t ds" "stream t ds = stream s ds" "input t = input s"
    "message t = (message s)\<lparr>topics := Some \<lparr>topicpair_block = p, topic_filter = None, payload_byte = 0\<rparr>\<rparr>"
proof -
  obtain p m1 where a: "xi_alloc sizeof_xi_mqtt_topicpair (memory s) = (p, m1)" by fastforce
  have g: "mem_ok (memory s)" "alloc_script (memory s) = []" using assms by (simp_all add: ready_def granted_def)
  have "p \<noteq> NULL" "alloc_script m1 = []" "mem_ok m1"
    using a g xi_alloc_mem_ok [OF a g(1)]
    by (auto simp: xi_alloc_def mem_ok_def sizeof_xi_mqtt_topicpair_def PTRDIFF_MAX_def)
  then show thesis
    using that [of "s\<lparr>message := (message s)\<lparr>topics := Some \<lparr>topicpair_block = p, topic_filter = None,
                    payload_byte = 0\<rparr>\<rparr>, memory := m1\<rparr>" p] a assms
    by (simp add: ALLOC_TOPICS_def ready_def granted_def stream_def)
qed

lemma topic_lens: "topics m = Some t \<Longrightarrow> lens topic_filter_field m"
  by (simp add: lens_def field_defs)

lemma parsed_subscribe:
  assumes m: "fields_ok m" "parsable m" "topics m = Some tp" "msg_type m = XI_MQTT_TYPE_SUBSCRIBE"
    and s: "ready s ds" "stream s ds = body_bytes m @ tail" "common_value (message s) = common_value m"
  shows "parsed parse_subscribe s ds tail (reads_back m (message s))"
proof -
  let ?f = "str (topic_filter tp)"
  have short: "length ?f < 65536" using m(2,3) by (simp add: parsable_def)
  have S: "stream s ds = bytes_16 (unat (message_id m)) @ bytes_16 (length ?f) @ ?f @ payload_byte tp # tail"
    using s(2) m(1,3,4) string_bytes_str [of "topic_filter tp"] by (simp add: body_bytes_def fields_ok_def)
  have ty: "common_value x = common_value m \<Longrightarrow> msg_type x = 8" for x
    using types_from_value(1) [of x m] m(4) by simp
  show ?thesis
    unfolding parse_subscribe_def subscribe_id_high_def subscribe_id_low_def
  proof (rule parsed_ident [OF at_427 [unfolded subscribe_id_high_def subscribe_id_low_def]
        at_434 [unfolded subscribe_id_low_def] s(1) S])
    fix t1 ds1
    assume t1: "ready t1 ds1" "stream t1 ds1 = bytes_16 (length ?f) @ ?f @ payload_byte tp # tail"
      "message t1 = (message s)\<lparr>message_id := message_id m\<rparr>"
    show "parsed (YIELD_ON_END 441 subscribe_topic) t1 ds1 tail (reads_back m (message s))"
    proof (rule parsed_yield [OF at_441 t1(1)])
      show "stream t1 ds1 \<noteq> []" using t1(2) by simp
      fix t2 ds2
      assume t2: "ready t2 ds2" "stream t2 ds2 = stream t1 ds1" "message t2 = message t1"
      let ?k = "READ_STRING 446 topic_filter_field (YIELD_ON_END 448 subscribe_qos)"
      obtain t3 p where t3: "ALLOC_TOPICS ?k t2 = ?k t3" "ready t3 ds2" "stream t3 ds2 = stream t2 ds2"
        "message t3 = (message t2)\<lparr>topics := Some \<lparr>topicpair_block = p, topic_filter = None, payload_byte = 0\<rparr>\<rparr>"
        by (rule alloc_topics_granted [OF t2(1)])
      have S3: "stream t3 ds2 = bytes_16 (length ?f) @ ?f @ payload_byte tp # tail" using t3(3) t2(2) t1(2) by simp
      have l3: "lens topic_filter_field (message t3)" by (rule topic_lens) (simp add: t3(4))
      have "parsed ?k t3 ds2 tail (reads_back m (message s))"
      proof (rule parsed_string [OF resume_points(8) l3 t3(2) _ S3 short])
        show "fst topic_filter_field (message t3) = Some None" by (simp add: t3(4) field_defs)
        fix t4 ds4 e
        assume t4: "ready t4 ds4" "stream t4 ds4 = payload_byte tp # tail"
          "message t4 = snd topic_filter_field (Some e) (message t3)" "contents e = ?f"
        show "parsed (YIELD_ON_END 448 subscribe_qos) t4 ds4 tail (reads_back m (message s))"
        proof (rule parsed_yield [OF at_448 t4(1)])
          show "stream t4 ds4 \<noteq> []" using t4(2) by simp
          fix t5 ds5
          assume t5: "ready t5 ds5" "stream t5 ds5 = stream t4 ds4" "message t5 = message t4" "rest (input t5) \<noteq> []"
          let ?t = "\<lparr>topicpair_block = p, topic_filter = Some e, payload_byte = 0\<rparr>"
          let ?put = "\<lambda>b m. m\<lparr>topics := Some (?t\<lparr>payload_byte := b\<rparr>)\<rparr>"
          have q: "subscribe_qos t5 = take_byte ?put (CR_EXIT XI_STATE_OK) t5"
            using t5(3) t4(3) t3(4) by (simp add: subscribe_qos_def field_defs)
          have S5: "stream t5 ds5 = payload_byte tp # tail" using t5(2) t4(2) by simp
          have "parsed (take_byte ?put (CR_EXIT XI_STATE_OK)) t5 ds5 tail (reads_back m (message s))"
          proof (rule parsed_take [OF t5(1) S5 t5(4)])
            fix t6
            assume t6: "ready t6 ds5" "stream t6 ds5 = tail" "message t6 = (message t5)\<lparr>topics := Some (?t\<lparr>payload_byte := payload_byte tp\<rparr>)\<rparr>"
            have "message t6 = (message s)\<lparr>message_id := message_id m, topics := Some (?t\<lparr>payload_byte := payload_byte tp\<rparr>)\<rparr>"
              using t6(3) t5(3) t4(3) t3(4) t2(3) t1(3) by (simp add: field_defs)
            then show "parsed (CR_EXIT XI_STATE_OK) t6 ds5 tail (reads_back m (message s))"
              using t6(1,2) s(3) m(3,4) t4(4) ty [of "message t6"]
              by (intro parsed_exit) (simp_all add: reads_back_def packet_of_def str_def [of "Some _"])
          qed
          with q show "parsed subscribe_qos t5 ds5 tail (reads_back m (message s))"
            by (rule parsed_step [where k = subscribe_qos and s = t5 and t = t5 and j = "take_byte ?put (CR_EXIT XI_STATE_OK)"])
        qed
      qed simp
      then show "parsed subscribe_topic t2 ds2 tail (reads_back m (message s))"
        unfolding subscribe_topic_def
        by (rule parsed_step [where k = "ALLOC_TOPICS ?k" and s = t2 and t = t3 and j = ?k, OF t3(1)])
    qed
  qed
qed

lemma parsed_suback:
  assumes m: "parsable m" "topics m = Some tp" "msg_type m = XI_MQTT_TYPE_SUBACK"
    and s: "ready s ds" "stream s ds = body_bytes m @ tail" "common_value (message s) = common_value m"
  shows "parsed parse_suback s ds tail (reads_back m (message s))"
proof -
  have status: "payload_byte tp \<in> {0x00, 0x01, 0x02, 0x80}" using m by (simp add: parsable_def)
  have S: "stream s ds = bytes_16 (unat (message_id m)) @ payload_byte tp # tail"
    using s(2) m(2,3) by (simp add: body_bytes_def)
  have ty: "common_value x = common_value m \<Longrightarrow> msg_type x = 9" for x
    using types_from_value(1) [of x m] m(3) by simp
  show ?thesis
    unfolding parse_suback_def suback_id_high_def suback_id_low_def
  proof (rule parsed_ident [OF at_460 [unfolded suback_id_high_def suback_id_low_def]
        at_467 [unfolded suback_id_low_def] s(1) S])
    fix t1 ds1
    assume t1: "ready t1 ds1" "stream t1 ds1 = payload_byte tp # tail"
      "message t1 = (message s)\<lparr>message_id := message_id m\<rparr>"
    show "parsed (YIELD_ON_END 474 suback_status) t1 ds1 tail (reads_back m (message s))"
    proof (rule parsed_yield [OF at_474 t1(1)])
      show "stream t1 ds1 \<noteq> []" using t1(2) by simp
      fix t2 ds2
      assume t2: "ready t2 ds2" "stream t2 ds2 = stream t1 ds1" "message t2 = message t1" "rest (input t2) \<noteq> []"
      let ?put = "\<lambda>tp' v _ m. m\<lparr>topics := Some (tp'\<lparr>payload_byte := v\<rparr>)\<rparr>"
      let ?k = "\<lambda>s. do { b \<leftarrow> byte_at (input s); t \<leftarrow> topics (message s);
        case xi_mqtt_parse_suback_response b of
          (st, None) \<Rightarrow> CR_EXIT st (s\<lparr>local_state := st\<rparr>)
        | (st, Some v) \<Rightarrow> take_byte (?put t v) (CR_EXIT XI_STATE_OK) (s\<lparr>local_state := st\<rparr>) }"
      obtain t3 p where t3: "ALLOC_TOPICS ?k t2 = ?k t3" "ready t3 ds2" "stream t3 ds2 = stream t2 ds2" "input t3 = input t2"
        "message t3 = (message t2)\<lparr>topics := Some \<lparr>topicpair_block = p, topic_filter = None, payload_byte = 0\<rparr>\<rparr>"
        by (rule alloc_topics_granted [OF t2(1)])
      obtain bs where r: "rest (input t3) = payload_byte tp # bs"
        using t3(3,4) t2(2,4) t1(2) by (cases "rest (input t3)") (auto simp: stream_def)
      have b: "byte_at (input t3) = Some (payload_byte tp)"
        using byte_at_rest(1) [OF _ r] t3(2) by (simp add: ready_def)
      let ?tp = "\<lparr>topicpair_block = p, topic_filter = None, payload_byte = 0\<rparr>"
      let ?t4 = "t3\<lparr>local_state := XI_STATE_OK\<rparr>"
      have k: "?k t3 = take_byte (?put ?tp (payload_byte tp)) (CR_EXIT XI_STATE_OK) ?t4"
        using b t3(5) status by (simp add: xi_mqtt_parse_suback_response_def)
      have t4: "ready ?t4 ds2" "stream ?t4 ds2 = payload_byte tp # tail" "rest (input ?t4) \<noteq> []"
        using t3 t2 t1 r by (simp_all add: ready_def stream_def)
      have "parsed (take_byte (?put ?tp (payload_byte tp)) (CR_EXIT XI_STATE_OK)) ?t4 ds2 tail (reads_back m (message s))"
      proof (rule parsed_take [OF t4])
        fix t5
        assume t5: "ready t5 ds2" "stream t5 ds2 = tail" "message t5 = (message ?t4)\<lparr>topics := Some (?tp\<lparr>payload_byte := payload_byte tp\<rparr>)\<rparr>"
        have "message t5 = (message s)\<lparr>message_id := message_id m, topics := Some (?tp\<lparr>payload_byte := payload_byte tp\<rparr>)\<rparr>"
          using t5(3) t3(5) t2(3) t1(3) by simp
        then show "parsed (CR_EXIT XI_STATE_OK) t5 ds2 tail (reads_back m (message s))"
          using t5(1,2) s(3) m(2,3) ty [of "message t5"]
          by (intro parsed_exit) (simp_all add: reads_back_def packet_of_def)
      qed
      then show "parsed suback_status t2 ds2 tail (reads_back m (message s))"
        unfolding suback_status_def
        by (rule parsed_step [where k = "ALLOC_TOPICS ?k" and s = t2 and t = ?t4
              and j = "take_byte (?put ?tp (payload_byte tp)) (CR_EXIT XI_STATE_OK)", OF trans [OF t3(1) k]])
    qed
  qed
qed

section \<open>The whole packet\<close>

lemma feed_header:
  assumes "ready s ds" "cs (parser s) = 0" "stream s ds = c # remaining_length_bytes n @ bs" "n \<le> 268435455"
  obtains t ds' where "feed xi_mqtt_parser_execute s ds = feed parse_body t ds'" "ready t ds'" "stream t ds' = bs"
    "message t = (message s)\<lparr>common_value := c, remaining_length_field := of_nat n\<rparr>"
    "remaining_length (parser t) = of_nat n" "data_length (parser t) = 2"
proof -
  let ?s = "s\<lparr>local_state := XI_STATE_OK\<rparr>"
  have "xi_mqtt_parser_execute s = YIELD_ON_END 207 first_byte ?s"
    using assms(2) by (simp add: xi_mqtt_parser_execute_def parser_start_def)
  then have f0: "feed xi_mqtt_parser_execute s ds = feed (YIELD_ON_END 207 first_byte) ?s ds" by (rule feed_cong)
  have s: "ready ?s ds" "stream ?s ds = c # remaining_length_bytes n @ bs" "stream ?s ds \<noteq> []"
    using assms(1,3) by (simp_all add: ready_def stream_def)
  obtain t1 ds1 where t1: "feed (YIELD_ON_END 207 first_byte) ?s ds = feed first_byte t1 ds1" "ready t1 ds1"
    "stream t1 ds1 = stream ?s ds" "rest (input t1) \<noteq> []" "message t1 = message ?s"
    by (rule feed_yield [OF at_207 s(1,3)])
  obtain bs' where r: "rest (input t1) = c # bs'" "remaining_length_bytes n @ bs = bs' @ arriving ds1"
    using t1(3,4) s(2) by (cases "rest (input t1)") (auto simp: stream_def)
  have src: "src_ok (input t1)" using t1(2) by (simp add: ready_def)
  note b = byte_at_rest [OF src r(1)]
  let ?t = "t1\<lparr>message := (message t1)\<lparr>common_value := c\<rparr>, input := skip 1 (input t1),
                parser := (parser t1)\<lparr>multiplier := 1, remaining_length := 0, data_length := 1, digit_bytes := 1\<rparr>\<rparr>"
  have f1: "feed first_byte t1 ds1 = feed (YIELD_ON_END 223 remaining_length_digit) ?t ds1"
    by (rule feed_cong) (simp add: first_byte_def b(1))
  have t: "ready ?t ds1" "stream ?t ds1 = remaining_length_bytes n @ bs"
    using t1(2) b r(2) by (simp_all add: ready_def stream_def)
  have "length (remaining_length_bytes n) \<le> 4"
    using length_remaining_length_bytes [OF assms(4)]
    by (auto simp: xi_mqtt_get_remaining_length_bytes_def split: if_splits)
  then obtain t2 ds2 where t2: "feed (YIELD_ON_END 223 remaining_length_digit) ?t ds1 = feed parse_body t2 ds2"
    "ready t2 ds2" "stream t2 ds2 = bs" "remaining_length (parser t2) = of_nat n"
    "message t2 = (message ?t)\<lparr>remaining_length_field := ucast (remaining_length (parser t2))\<rparr>"
    "data_length (parser t2) = 2"
    using feed_remaining_length [where i = 0, OF t] by auto
  have "(ucast (of_nat n :: 64 word) :: 32 word) = of_nat n"
    by (rule bit_word_eqI) (simp add: bit_ucast_iff bit_of_nat_iff)
  then show thesis
    using that [of t2 ds2] f0 f1 t1(1,5) t2 by simp
qed

definition payload :: "xi_mqtt_message \<Rightarrow> byte list" where
  "payload m = (if msg_type m = XI_MQTT_TYPE_PUBLISH then str (publish_content m) else [])"

lemma parsed_body:
  assumes m: "fields_ok m" "fields_present m" "parsable m" "ends_in_bytes m \<or> tail \<noteq> []"
    "length (body_bytes m) + length (payload m) \<le> 268435455"
    and s: "ready s ds" "stream s ds = body_bytes m @ payload m @ tail" "blank (message s)"
    "common_value (message s) = common_value m" "data_length (parser s) = 2"
    "remaining_length (parser s) = of_nat (length (body_bytes m) + length (payload m))"
  shows "parsed parse_body s ds tail (reads_back m (message s))"
proof -
  have ty: "msg_type (message s) = msg_type m" using types_from_value(1) s(4) .
  show ?thesis
  proof -
    consider "msg_type m = XI_MQTT_TYPE_CONNECT" | "msg_type m = XI_MQTT_TYPE_CONNACK"
      | "msg_type m = XI_MQTT_TYPE_PUBLISH" | "msg_type m = XI_MQTT_TYPE_PUBACK"
      | "msg_type m = XI_MQTT_TYPE_SUBSCRIBE" | "msg_type m = XI_MQTT_TYPE_SUBACK"
      | "msg_type m = XI_MQTT_TYPE_PINGRESP" | "msg_type m = XI_MQTT_TYPE_DISCONNECT"
      using m(3) unfolding parsable_def by blast
    then show ?thesis
    proof cases
      case 1
      then have "parse_body s = parse_connect s" using ty by (simp add: parse_body_def)
      moreover have "parsed parse_connect s ds tail (reads_back m (message s))"
        by (rule parsed_connect [OF m(1,3,4) 1 s(1) _ s(3,4)]) (use s(2) 1 in \<open>simp add: payload_def\<close>)
      ultimately show ?thesis by (rule parsed_step [where k = parse_body and s = s and t = s and j = parse_connect])
    next
      case 2
      then have "parse_body s = parse_connack s" using ty by (simp add: parse_body_def)
      moreover have "parsed parse_connack s ds tail (reads_back m (message s))"
        by (rule parsed_connack [OF s(1), of "connack_unused m" "return_code m"])
          (use s(2,4) 2 types_from_value(1) [of "_\<lparr>connack_unused := _, return_code := _\<rparr>" m]
            in \<open>auto simp: payload_def body_bytes_def reads_back_def packet_of_def\<close>)
      ultimately show ?thesis by (rule parsed_step [where k = parse_body and s = s and t = s and j = parse_connack])
    next
      case 3
      then have "parse_body s = parse_publish s" using ty by (simp add: parse_body_def)
      moreover have "parsed parse_publish s ds tail (reads_back m (message s))"
        by (rule parsed_publish [OF m(1,3,4) 3 _ s(1) _ s(3,4,5)]) (use s(2,6) m(5) 3 in \<open>simp_all add: payload_def\<close>)
      ultimately show ?thesis by (rule parsed_step [where k = parse_body and s = s and t = s and j = parse_publish])
    next
      case 4
      then have "parse_body s = parse_puback s" using ty by (simp add: parse_body_def)
      moreover have "parsed parse_puback s ds tail (reads_back m (message s))"
        by (rule parsed_puback [OF s(1), of "message_id m"])
          (use s(2,4) 4 types_from_value(1) [of "_\<lparr>message_id := _\<rparr>" m]
            in \<open>auto simp: payload_def body_bytes_def reads_back_def packet_of_def\<close>)
      ultimately show ?thesis by (rule parsed_step [where k = parse_body and s = s and t = s and j = parse_puback])
    next
      case 5
      then obtain tp where tp: "topics m = Some tp" using m(2) by (auto simp: fields_present_def)
      have "parse_body s = parse_subscribe s" using ty 5 by (simp add: parse_body_def)
      moreover have "parsed parse_subscribe s ds tail (reads_back m (message s))"
        by (rule parsed_subscribe [OF m(1,3) tp 5 s(1) _ s(4)]) (use s(2) 5 in \<open>simp add: payload_def\<close>)
      ultimately show ?thesis by (rule parsed_step [where k = parse_body and s = s and t = s and j = parse_subscribe])
    next
      case 6
      then obtain tp where tp: "topics m = Some tp" using m(2) by (auto simp: fields_present_def)
      have "parse_body s = parse_suback s" using ty 6 by (simp add: parse_body_def)
      moreover have "parsed parse_suback s ds tail (reads_back m (message s))"
        by (rule parsed_suback [OF m(3) tp 6 s(1) _ s(4)]) (use s(2) 6 in \<open>simp add: payload_def\<close>)
      ultimately show ?thesis by (rule parsed_step [where k = parse_body and s = s and t = s and j = parse_suback])
    next
      case 7
      then have "parse_body s = CR_EXIT XI_STATE_OK s" using ty by (simp add: parse_body_def)
      moreover have "parsed (CR_EXIT XI_STATE_OK) s ds tail (reads_back m (message s))"
        by (rule parsed_exit [OF s(1)]) (use s(2,4) 7 ty in \<open>auto simp: payload_def body_bytes_def reads_back_def packet_of_def\<close>)
      ultimately show ?thesis by (rule parsed_step [where k = parse_body and s = s and t = s and j = "CR_EXIT XI_STATE_OK"])
    next
      case 8
      then have "parse_body s = CR_EXIT XI_STATE_OK s" using ty by (simp add: parse_body_def)
      moreover have "parsed (CR_EXIT XI_STATE_OK) s ds tail (reads_back m (message s))"
        by (rule parsed_exit [OF s(1)]) (use s(2,4) 8 ty in \<open>auto simp: payload_def body_bytes_def reads_back_def packet_of_def\<close>)
      ultimately show ?thesis by (rule parsed_step [where k = parse_body and s = s and t = s and j = "CR_EXIT XI_STATE_OK"])
    qed
  qed
qed

section \<open>Properties\<close>

text \<open>A parser after \<open>xi_mqtt_parser_init\<close> with a new message and its first buffer.\<close>

definition fresh_parse :: "xi_mqtt_parser \<Rightarrow> addr \<Rightarrow> xi_data_desc \<Rightarrow> xi_state \<Rightarrow> xi_memory \<Rightarrow> parse_state" where
  "fresh_parse p b d st mem = \<lparr>parser = xi_mqtt_parser_init p, message = empty_message b, input = d,
     local_state = st, memory = mem\<rparr>"

lemma fresh_parse_ready:
  assumes "received d \<and> (\<forall>a \<in> set ds. arrives a)" "granted mem"
  shows "ready (fresh_parse p b d st mem) ds" "cs (parser (fresh_parse p b d st mem)) = 0"
    "stream (fresh_parse p b d st mem) ds = contents d @ arriving ds"
    "message (fresh_parse p b d st mem) = empty_message b"
  using assms received_src_ok [of d] received_rest [of d]
  by (simp_all add: ready_def stream_def fresh_parse_def xi_mqtt_parser_init_def reading_labels_def)

lemma blank_empty [simp]: "blank (empty_message b)" "blank (m\<lparr>common_value := c\<rparr>) = blank m"
  "blank (m\<lparr>remaining_length_field := n\<rparr>) = blank m"
  by (simp_all add: blank_def empty_message_def)

text \<open>An uninitialised parser structure, for the witnesses.\<close>

definition raw_parser :: xi_mqtt_parser where
  "raw_parser = \<lparr>parser_error = XI_MQTT_ERROR_PARSER_INVALID_STATE, cs = 9, read_cs = 9, buffer_pending = True,
     parser_buffer = 5, parser_buffer_length = 5, digit_bytes = 5, multiplier = 5, remaining_length = 5,
     str_length = 5, data_length = 5\<rparr>"

text \<open>A received buffer with the given bytes, and memory that grants every allocation.\<close>

lemma received_bytes_desc: "bs \<noteq> [] \<Longrightarrow> length bs < 2 ^ 32 \<Longrightarrow> received (bytes_desc p bs)"
  using bytes_desc_ok [of bs p] by (auto simp: received_def bytes_desc_def unat_eq_zero)

lemma bytes_desc_arrives:
  "bs \<noteq> [] \<Longrightarrow> length bs < 2 ^ 32 \<Longrightarrow> src_ok (bytes_desc p bs) \<and> rest (bytes_desc p bs) = bs"
  using received_bytes_desc [of bs p] received_src_ok received_rest bytes_desc_ok [of bs p] by simp

lemma granted_initial: "granted (initial_memory [])"
  by (simp add: granted_def mem_ok_initial) (simp add: initial_memory_def)

lemma publish_example_parsable:
  "parsable publish_example" "ends_in_bytes publish_example" "payload publish_example = [1, 2, 3]"
  "body_bytes publish_example = [0, 2, 97, 98, 1, 2]"
proof -
  have [simp]: "msg_type publish_example = 3" "msg_qos publish_example = 1" by code_simp+
  show "parsable publish_example"
    by (simp add: parsable_def) (simp add: publish_example_def empty_message_def str_def bytes_desc_ok)
  show "ends_in_bytes publish_example" by (simp add: ends_in_bytes_def)
  show "payload publish_example = [1, 2, 3]"
    by (simp add: payload_def) (simp add: publish_example_def str_def bytes_desc_ok)
  show "body_bytes publish_example = [0, 2, 97, 98, 1, 2]" by code_simp
qed

lemma parser_reads_on:
  assumes "fields_ok m" "fields_present m" "parsable m" "ends_in_bytes m \<or> tail \<noteq> []"
    "n = length (body_bytes m) + length (payload m)" "n \<le> 268435455"
    "src_ok d" "\<forall>a \<in> set ds. arrives a" "granted mem"
    "rest d @ arriving ds = packet_bytes m n @ payload m @ tail"
  shows "\<exists>t ds'. feed xi_mqtt_parser_execute (fresh_parse p b d st mem) ds = Some (XI_STATE_OK, t, ds')
    \<and> packet_of (message t) = packet_of m \<and> common_value (message t) = common_value m
    \<and> unat (remaining_length_field (message t)) = n \<and> stream t ds' = tail \<and> ready t ds'"
proof -
  have f: "ready (fresh_parse p b d st mem) ds" "cs (parser (fresh_parse p b d st mem)) = 0"
    "stream (fresh_parse p b d st mem) ds = rest d @ arriving ds" "message (fresh_parse p b d st mem) = empty_message b"
    using assms(7-9)
    by (simp_all add: ready_def stream_def fresh_parse_def xi_mqtt_parser_init_def reading_labels_def)
  have S: "stream (fresh_parse p b d st mem) ds
      = common_value m # remaining_length_bytes n @ body_bytes m @ payload m @ tail"
    using f(3) assms(10) by (simp add: packet_bytes_def)
  obtain t ds' where t: "feed xi_mqtt_parser_execute (fresh_parse p b d st mem) ds = feed parse_body t ds'" "ready t ds'"
    "stream t ds' = body_bytes m @ payload m @ tail"
    "message t = (message (fresh_parse p b d st mem))\<lparr>common_value := common_value m, remaining_length_field := of_nat n\<rparr>"
    "remaining_length (parser t) = of_nat n" "data_length (parser t) = 2"
    by (rule feed_header [OF f(1,2) S assms(6)])
  have "parsed parse_body t ds' tail (reads_back m (message t))"
    by (rule parsed_body [OF assms(1-4) _ t(2,3)]) (use assms(5,6) t(4-6) f(4) in simp_all)
  moreover have "unat (of_nat n :: 32 word) = n" using assms(6) by (intro of_nat_inverse) simp_all
  ultimately show ?thesis
    using t(1,4) f(4) by (auto simp: parsed_def reads_back_def)
qed

lemma parser_round_trip:
  assumes "fields_ok m" "fields_present m" "parsable m" "ends_in_bytes m \<or> tail \<noteq> []"
    "n = length (body_bytes m) + length (payload m)" "n \<le> 268435455"
    "received d \<and> (\<forall>a \<in> set ds. arrives a)" "granted mem"
    "contents d @ arriving ds = packet_bytes m n @ payload m @ tail"
  shows "\<exists>t ds'. feed xi_mqtt_parser_execute (fresh_parse p b d st mem) ds = Some (XI_STATE_OK, t, ds')
    \<and> packet_of (message t) = packet_of m \<and> common_value (message t) = common_value m
    \<and> unat (remaining_length_field (message t)) = n \<and> stream t ds' = tail \<and> ready t ds'"
proof -
  have d: "src_ok d" "\<forall>a \<in> set ds. arrives a" "rest d @ arriving ds = packet_bytes m n @ payload m @ tail"
    using assms(7,9) received_src_ok [of d] received_rest [of d] by simp_all
  show ?thesis by (rule parser_reads_on [OF assms(1-6) d(1,2) assms(8) d(3)])
qed

text \<open>
  C5: The parser reads what the serialiser writes, however the bytes arrive. A serialisable
  packet, its payload and whatever follows them are cut into any sequence of non-empty
  buffers, and between two of them the rest of the program changes the memory in any way;
  feeding these to a fresh parser ends with \<open>XI_STATE_OK\<close>, with a message that says
  the same as the packet, and exactly at the first byte behind it.
  The packet is \<open>parsable\<close>, that is of a type the parser reads (not PINGREQ), with strings that fit
  their 16-bit lengths and, in a SUBACK, a valid status; its body and payload have at most 268435455
  bytes; memory is granted. A packet that ends in an empty field (a PUBLISH of QoS 0 without a
  payload, a CONNECT whose last field is empty) must have a byte behind it:
  \<open>ends_in_bytes m \<or> tail \<noteq> []\<close>, cf. \<open>empty_publish_stalls\<close>.
\<close>

theorem parser_reads_what_the_serialiser_writes:
  assumes "fields_ok m" "fields_present m" "parsable m" "ends_in_bytes m \<or> tail \<noteq> []"
    "n = length (body_bytes m) + length (payload m)" "n \<le> 268435455"
    "received d \<and> (\<forall>a \<in> set ds. arrives a)" "granted mem"
    "contents d @ arriving ds = packet_bytes m n @ payload m @ tail"
  shows "\<exists>t ds'. feed xi_mqtt_parser_execute (fresh_parse p b d st mem) ds = Some (XI_STATE_OK, t, ds')
    \<and> packet_of (message t) = packet_of m \<and> common_value (message t) = common_value m
    \<and> unat (remaining_length_field (message t)) = n \<and> stream t ds' = tail"
  using parser_round_trip [OF assms] by blast

theorem parser_reads_what_the_serialiser_writes_witness:
  "\<exists>t ds'. feed xi_mqtt_parser_execute (fresh_parse raw_parser 1 (bytes_desc 20 [0x32, 9, 0]) XI_STATE_OK (initial_memory []))
        [(bytes_desc 30 [2, 97, 98, 1, 2, 1], id), (bytes_desc 40 [2, 3, 0xD0], id)] = Some (XI_STATE_OK, t, ds')
    \<and> packet_of (message t) = packet_of publish_example \<and> stream t ds' = [0xD0]"
proof -
  have "\<exists>t ds'. feed xi_mqtt_parser_execute (fresh_parse raw_parser 1 (bytes_desc 20 [0x32, 9, 0]) XI_STATE_OK (initial_memory []))
        [(bytes_desc 30 [2, 97, 98, 1, 2, 1], id), (bytes_desc 40 [2, 3, 0xD0], id)] = Some (XI_STATE_OK, t, ds')
    \<and> packet_of (message t) = packet_of publish_example \<and> common_value (message t) = common_value publish_example
    \<and> unat (remaining_length_field (message t)) = 9 \<and> stream t ds' = [0xD0]"
    by (rule parser_reads_what_the_serialiser_writes)
      (simp_all add: publish_example_ok publish_example_parsable arrives_def bytes_desc_arrives received_bytes_desc
        granted_initial bytes_desc_ok)
  then show ?thesis by blast
qed

lemma feed_publish_header:
  assumes "received d \<and> (\<forall>a \<in> set ds. arrives a)" "granted mem" "c div 16 = 3" "common_qos c = 0" "n \<le> 268435455"
    "length xs < 65536" "xs @ tail \<noteq> []"
    "contents d @ arriving ds = c # remaining_length_bytes n @ bytes_16 (length xs) @ xs @ tail"
  obtains t ds' e where "feed xi_mqtt_parser_execute (fresh_parse p b d st mem) ds = feed (YIELD_ON_END 327 publish_id) t ds'"
    "ready t ds'" "stream t ds' = tail" "contents e = xs" "msg_qos (message t) = 0"
    "message t = (empty_message b)\<lparr>common_value := c, remaining_length_field := of_nat n, topic_name := Some e\<rparr>"
    "remaining_length (parser t) = of_nat n" "data_length (parser t) = of_nat (4 + length xs)"
proof -
  note f = fresh_parse_ready [OF assms(1,2), of p b st]
  have S: "stream (fresh_parse p b d st mem) ds = c # remaining_length_bytes n @ bytes_16 (length xs) @ xs @ tail"
    using f(3) assms(8) by simp
  obtain t1 ds1 where t1: "feed xi_mqtt_parser_execute (fresh_parse p b d st mem) ds = feed parse_body t1 ds1" "ready t1 ds1"
    "stream t1 ds1 = bytes_16 (length xs) @ xs @ tail"
    "message t1 = (empty_message b)\<lparr>common_value := c, remaining_length_field := of_nat n\<rparr>"
    "remaining_length (parser t1) = of_nat n" "data_length (parser t1) = 2"
    by (rule feed_header [OF f(1,2) S assms(5)]) (use f(4) in simp)
  have "drop_bit 4 c = 3" using assms(3) by (simp add: drop_bit_eq_div)
  then have ty: "msg_type (message t1) = 3" by (simp add: t1(4) msg_type_def common_type_def)
  have body: "feed parse_body t1 ds1 = feed (YIELD_ON_END 322 publish_topic) t1 ds1"
    by (rule feed_cong) (simp add: parse_body_def ty parse_publish_def)
  have ne: "stream t1 ds1 \<noteq> []" using t1(3) by (simp add: bytes_16_def)
  obtain t2 ds2 where t2: "feed (YIELD_ON_END 322 publish_topic) t1 ds1 = feed publish_topic t2 ds2" "ready t2 ds2"
    "stream t2 ds2 = stream t1 ds1" "message t2 = message t1" "progress t1 t2 0"
    by (rule feed_yield [OF at_322 t1(2) ne])
  have S2: "stream t2 ds2 = bytes_16 (length xs) @ xs @ tail" using t2(3) t1(3) by simp
  have f2: "fst topic_name_field (message t2) = Some None" using t2(4) t1(4) by (simp add: field_defs empty_message_def)
  obtain t3 ds3 e where t3: "feed publish_topic t2 ds2 = feed (YIELD_ON_END 327 publish_id) t3 ds3" "ready t3 ds3"
    "stream t3 ds3 = tail" "message t3 = snd topic_name_field (Some e) (message t2)" "contents e = xs"
    "progress t2 t3 (2 + length xs)"
    unfolding publish_topic_def
    by (rule feed_string [OF resume_points(7) lenses(7) t2(2) f2 S2 assms(6,7)])
  have "progress t1 t3 (2 + length xs)" using progress_trans [OF t2(5) t3(6)] by simp
  then have "remaining_length (parser t3) = of_nat n" "data_length (parser t3) = of_nat (4 + length xs)"
    using t1(5,6) by (simp_all add: progress_def)
  moreover have "message t3 = (empty_message b)\<lparr>common_value := c, remaining_length_field := of_nat n, topic_name := Some e\<rparr>"
    using t3(4) t2(4) t1(4) by (simp add: field_defs)
  ultimately show thesis
    using that [of t3 ds3 e] t1(1) body t2(1) t3 assms(4) by (simp add: msg_qos_def)
qed

text \<open>
  C19: A PUBLISH of quality of service 0 with an empty payload is not delivered when its last
  byte arrives. The parser stops in front of the payload and asks for more input; the packet
  stays pending until the first byte of the next packet comes in.
\<close>

theorem empty_publish_stalls:
  assumes "received d \<and> (\<forall>a \<in> set ds. arrives a)" "granted mem" "c div 16 = 3" "common_qos c = 0"
    "length xs < 65536" "xs \<noteq> []"
    "contents d @ arriving ds = c # remaining_length_bytes (2 + length xs) @ bytes_16 (length xs) @ xs"
  shows "\<exists>t. feed xi_mqtt_parser_execute (fresh_parse p b d st mem) ds = Some (XI_STATE_WANT_READ, t, [])
    \<and> str (topic_name (message t)) = xs \<and> rest (input t) = []"
proof -
  have n: "2 + length xs \<le> 268435455" and ne: "xs @ [] \<noteq> []" using assms(5,6) by simp_all
  have S: "contents d @ arriving ds = c # remaining_length_bytes (2 + length xs) @ bytes_16 (length xs) @ xs @ []"
    using assms(7) by simp
  obtain t ds' e where t: "feed xi_mqtt_parser_execute (fresh_parse p b d st mem) ds = feed (YIELD_ON_END 327 publish_id) t ds'"
    "ready t ds'" "stream t ds' = []" "contents e = xs"
    "message t = (empty_message b)\<lparr>common_value := c, remaining_length_field := of_nat (2 + length xs), topic_name := Some e\<rparr>"
    by (rule feed_publish_header [OF assms(1-4) n assms(5) ne S])
  have r: "rest (input t) = []" "arriving ds' = []" using t(3) by (simp_all add: stream_def)
  have "ds' = []"
  proof (cases ds')
    case (Cons c cs)
    then have "arrives c" using t(2) by (simp add: ready_def)
    then show ?thesis using arrivesD(2) [of c] r(2) Cons by simp
  qed
  moreover have "at_end (input t)" using at_end_iff t(2) r(1) by (simp add: ready_def)
  ultimately show ?thesis
    using t(1,4,5) r(1) by (simp add: YIELD_ON_END_def str_def)
qed

theorem empty_publish_stalls_witness:
  "\<exists>t. feed xi_mqtt_parser_execute (fresh_parse raw_parser 1 (bytes_desc 20 [0x30, 3, 0, 1, 97]) XI_STATE_OK (initial_memory [])) []
      = Some (XI_STATE_WANT_READ, t, []) \<and> str (topic_name (message t)) = [97]"
proof -
  have r: "remaining_length_bytes (2 + length [97 :: byte]) = [3]" "common_qos 0x30 = 0" "0x30 div 16 = (3 :: byte)"
    by code_simp+
  have "\<exists>t. feed xi_mqtt_parser_execute (fresh_parse raw_parser 1 (bytes_desc 20 [0x30, 3, 0, 1, 97]) XI_STATE_OK (initial_memory [])) []
      = Some (XI_STATE_WANT_READ, t, []) \<and> str (topic_name (message t)) = [97] \<and> rest (input t) = []"
    by (rule empty_publish_stalls [where c = "0x30"], unfold r)
      (simp_all add: received_bytes_desc granted_initial bytes_desc_ok bytes_16_def)
  then show ?thesis by blast
qed

text \<open>
  C20: A remaining length that is too small for the topic it announces is not noticed. The
  length of the payload wraps around to a number close to \<open>2 ^ 64\<close>, and everything that
  follows in the stream is swallowed as payload of this packet.
\<close>

theorem short_remaining_length_swallows_the_stream:
  assumes "received d \<and> (\<forall>a \<in> set ds. arrives a)" "granted mem" "c div 16 = 3" "common_qos c = 0" "length xs < 65536"
    "n < 2 + length xs" "junk \<noteq> []" "length junk \<le> 2 ^ 31"
    "contents d @ arriving ds = c # remaining_length_bytes n @ bytes_16 (length xs) @ xs @ junk"
  shows "\<exists>t. feed xi_mqtt_parser_execute (fresh_parse p b d st mem) ds = Some (XI_STATE_WANT_READ, t, [])
    \<and> str (publish_content (message t)) = junk \<and> rest (input t) = []
    \<and> unat (str_length (parser t)) = 2 ^ 64 - (2 + length xs - n)"
proof -
  have n: "n \<le> 268435455" and ne: "xs @ junk \<noteq> []" using assms(5,6,7) by simp_all
  obtain t ds' e where t: "feed xi_mqtt_parser_execute (fresh_parse p b d st mem) ds = feed (YIELD_ON_END 327 publish_id) t ds'"
    "ready t ds'" "stream t ds' = junk" "contents e = xs" "msg_qos (message t) = 0"
    "message t = (empty_message b)\<lparr>common_value := c, remaining_length_field := of_nat n, topic_name := Some e\<rparr>"
    "remaining_length (parser t) = of_nat n" "data_length (parser t) = of_nat (4 + length xs)"
    by (rule feed_publish_header [OF assms(1-4) n assms(5) ne assms(9)])
  have ne2: "stream t ds' \<noteq> []" using t(3) assms(7) by simp
  obtain u ds2 where u: "feed (YIELD_ON_END 327 publish_id) t ds' = feed publish_id u ds2" "ready u ds2"
    "stream u ds2 = stream t ds'" "message u = message t" "progress t u 0"
    by (rule feed_yield [OF at_327 t(2) ne2])
  let ?n = "2 ^ 64 - (2 + length xs - n)"
  have wrap: "(remaining_length (parser u) + 2) - data_length (parser u) = of_nat ?n"
  proof -
    have "of_nat ?n = (of_nat (2 ^ 64) - of_nat (2 + length xs - n) :: 64 word)"
      using assms(5) by (intro of_nat_diff) simp
    also have "\<dots> = - of_nat (2 + length xs - n)" by simp
    also have "\<dots> = of_nat n - of_nat (2 + length xs)" using assms(6) by (simp add: of_nat_diff)
    finally show ?thesis using u(5) t(7,8) by (simp add: progress_def)
  qed
  have un: "unat (of_nat ?n :: 64 word) = ?n" by (rule unat_of_nat_64) (use assms(6) in simp)
  have big: "length junk < ?n" "?n < 2 ^ 64" using assms(5,6,8) by simp_all
  let ?u = "u\<lparr>parser := (parser u)\<lparr>str_length := of_nat ?n\<rparr>\<rparr>"
  have "(0 :: 64 word) < of_nat ?n" using un big(1) by (simp only: word_less_nat_alt) simp
  then have "publish_id u = READ_DATA 348 content_field (CR_EXIT XI_STATE_OK) ?u"
    using t(5) u(4) wrap by (simp add: publish_id_def publish_payload_def Let_def)
  then have step: "feed publish_id u ds2 = feed (READ_DATA 348 content_field (CR_EXIT XI_STATE_OK)) ?u ds2"
    by (rule feed_cong)
  have U: "ready ?u ds2" "stream ?u ds2 = junk" "fst content_field (message ?u) = Some None"
    using u(2-4) t(3,6) by (simp_all add: ready_def stream_def field_defs empty_message_def)
  have S: "stream ?u ds2 \<noteq> []" "length (stream ?u ds2) < ?n" "length (stream ?u ds2) \<le> 2 ^ 31"
    unfolding U(2) using assms(7,8) big(1) by simp_all
  obtain v e' where v: "feed (READ_DATA 348 content_field (CR_EXIT XI_STATE_OK)) ?u ds2 = Some (XI_STATE_WANT_READ, v, [])"
    "message v = snd content_field (Some e') (message ?u)" "contents e' = stream ?u ds2" "rest (input v) = []"
    "str_length (parser v) = of_nat ?n"
    by (rule feed_data_starved [OF resume_points(9) lenses(8) U(1,3) _ big(2) S]) simp
  show ?thesis
    using t(1) u(1) step v U(2) un by (auto simp: field_defs str_def)
qed

theorem short_remaining_length_swallows_the_stream_witness:
  "\<exists>t. feed xi_mqtt_parser_execute
        (fresh_parse raw_parser 1 (bytes_desc 20 [0x30, 2, 0, 1, 97, 0xD0, 0]) XI_STATE_OK (initial_memory [])) []
      = Some (XI_STATE_WANT_READ, t, []) \<and> str (publish_content (message t)) = [0xD0, 0]"
proof -
  have r: "remaining_length_bytes 2 = [2]" "common_qos 0x30 = 0" "0x30 div 16 = (3 :: byte)" by code_simp+
  have "\<exists>t. feed xi_mqtt_parser_execute
        (fresh_parse raw_parser 1 (bytes_desc 20 [0x30, 2, 0, 1, 97, 0xD0, 0]) XI_STATE_OK (initial_memory [])) []
      = Some (XI_STATE_WANT_READ, t, []) \<and> str (publish_content (message t)) = [0xD0, 0] \<and> rest (input t) = []
    \<and> unat (str_length (parser t)) = 2 ^ 64 - (2 + length [97 :: byte] - 2)"
    by (rule short_remaining_length_swallows_the_stream [where c = "0x30" and xs = "[97]"], unfold r)
      (simp_all add: received_bytes_desc granted_initial bytes_desc_ok bytes_16_def)
  then show ?thesis by blast
qed

text \<open>
  The \<open>static\<close> variable of the parser is shared by all parsers of the program. When a
  second parser is started while a first one waits for the rest of a topic, the first one is
  resumed behind the topic: it takes the rest of the topic for what follows it. On its own it
  would go on reading the topic.
\<close>

lemma interleaved_parsers_lose_the_topic:
  assumes "cs (parser s) = 325" "cs (parser s2) = 0" "at_end (input s2)" "local_state s = XI_STATE_WANT_READ"
  shows "xi_mqtt_parser_execute s = READ_STRING 325 topic_name_field (YIELD_ON_END 327 publish_id) s
    \<and> (\<exists>t2. xi_mqtt_parser_execute s2 = Some (XI_STATE_WANT_READ, t2)
         \<and> xi_mqtt_parser_execute (s\<lparr>local_state := local_state t2\<rparr>)
           = YIELD_ON_END 327 publish_id (s\<lparr>local_state := local_state t2\<rparr>))"
  using assms
  by (simp add: xi_mqtt_parser_execute_def RESUME_INTO_def parser_start_def YIELD_ON_END_def)

end
