(* ===== verification/Mqtt_Logic_Messages.thy ===== *)
theory Mqtt_Logic_Messages
  imports Mqtt_Round_Trip "HOL-Library.Sublist"
begin

unbundle bit_operations_syntax

text \<open>
  \<open>src/libxively/mqtt/logic/xi_mqtt_logic_layer_data_helpers.h\<close>: how the logic layer fills the
  packets it sends, and how it looks a topic up. A C string argument is the object from its
  pointer on, with the pointer where it is shared; \<open>None\<close> is \<open>NULL\<close>.
\<close>

section \<open>Bit fields\<close>

text \<open>An assignment to the bit field of \<open>width\<close> bits at \<open>pos\<close>.\<close>

definition bits_put :: "nat \<Rightarrow> nat \<Rightarrow> nat \<Rightarrow> byte \<Rightarrow> byte" where
  "bits_put pos width v b = (b AND NOT (push_bit pos (mask width))) OR push_bit pos (of_nat v AND mask width)"

definition put_retain :: "nat \<Rightarrow> xi_mqtt_message \<Rightarrow> xi_mqtt_message" where
  "put_retain v m = m\<lparr>common_value := bits_put 0 1 v (common_value m)\<rparr>"
definition put_qos :: "nat \<Rightarrow> xi_mqtt_message \<Rightarrow> xi_mqtt_message" where
  "put_qos v m = m\<lparr>common_value := bits_put 1 2 v (common_value m)\<rparr>"
definition put_dup :: "nat \<Rightarrow> xi_mqtt_message \<Rightarrow> xi_mqtt_message" where
  "put_dup v m = m\<lparr>common_value := bits_put 3 1 v (common_value m)\<rparr>"
definition put_type :: "nat \<Rightarrow> xi_mqtt_message \<Rightarrow> xi_mqtt_message" where
  "put_type v m = m\<lparr>common_value := bits_put 4 4 v (common_value m)\<rparr>"

definition put_flag :: "nat \<Rightarrow> nat \<Rightarrow> nat \<Rightarrow> xi_mqtt_message \<Rightarrow> xi_mqtt_message" where
  "put_flag pos width v m = m\<lparr>flags_value := bits_put pos width v (flags_value m)\<rparr>"

text \<open>The values of the enumerations.\<close>

fun qos_value :: "xi_mqtt_qos \<Rightarrow> nat" where
  "qos_value XI_MQTT_QOS_AT_MOST_ONCE = 0" | "qos_value XI_MQTT_QOS_AT_LEAST_ONCE = 1"
| "qos_value XI_MQTT_QOS_EXACTLY_ONCE = 2"

fun dup_value :: "xi_mqtt_dup \<Rightarrow> nat" where
  "dup_value XI_MQTT_DUP_FALSE = 0" | "dup_value XI_MQTT_DUP_TRUE = 1"

fun retain_value :: "xi_mqtt_retain \<Rightarrow> nat" where
  "retain_value XI_MQTT_RETAIN_FALSE = 0" | "retain_value XI_MQTT_RETAIN_TRUE = 1"

datatype xi_session_type = XI_SESSION_CLEAN | XI_SESSION_CONTINUE

section \<open>Filling packets\<close>

text \<open>
  \<open>XI_CHECK_MEMORY( msg->field = ..., local_state )\<close>: the result is stored, and when it is
  \<open>NULL\<close> the function returns \<open>XI_OUT_OF_MEMORY\<close> with what it has filled in so far.
\<close>

type_synonym filled = "(xi_state \<times> xi_mqtt_message \<times> xi_memory) option"

definition store_desc ::
    "(xi_data_desc option \<Rightarrow> xi_mqtt_message \<Rightarrow> xi_mqtt_message)
       \<Rightarrow> (xi_memory \<Rightarrow> (xi_data_desc option \<times> xi_memory) option)
       \<Rightarrow> (xi_mqtt_message \<Rightarrow> xi_memory \<Rightarrow> filled) \<Rightarrow> xi_mqtt_message \<Rightarrow> xi_memory \<Rightarrow> filled" where
  "store_desc put mk k msg m = do {
     (d, m1) \<leftarrow> mk m;
     if d = None then Some (XI_OUT_OF_MEMORY, put d msg, m1) else k (put d msg) m1 }"

text \<open>\<open>memset\<close> clears the packet.\<close>

definition cleared :: "xi_mqtt_message \<Rightarrow> xi_mqtt_message" where
  "cleared msg = empty_message (message_block msg)"

definition fill_with_pingreq_data :: "xi_mqtt_message \<Rightarrow> xi_state \<times> xi_mqtt_message" where
  "fill_with_pingreq_data msg = (XI_STATE_OK, put_type XI_MQTT_TYPE_PINGREQ (cleared msg))"

definition fill_with_puback_data :: "xi_mqtt_message \<Rightarrow> 16 word \<Rightarrow> xi_state \<times> xi_mqtt_message" where
  "fill_with_puback_data msg msg_id =
     (XI_STATE_OK, (put_type XI_MQTT_TYPE_PUBACK (cleared msg))\<lparr>message_id := msg_id\<rparr>)"

definition fill_with_connack_data :: "xi_mqtt_message \<Rightarrow> byte \<Rightarrow> xi_state \<times> xi_mqtt_message" where
  "fill_with_connack_data msg code =
     (XI_STATE_OK, (put_type XI_MQTT_TYPE_CONNACK (cleared msg))\<lparr>connack_unused := 0, return_code := code\<rparr>)"

definition fill_with_disconnect_data :: "xi_mqtt_message \<Rightarrow> xi_state \<times> xi_mqtt_message" where
  "fill_with_disconnect_data msg = (XI_STATE_OK, put_type XI_MQTT_TYPE_DISCONNECT (cleared msg))"

text \<open>The bytes of the literal \<open>"MQTT"\<close>.\<close>

definition MQTT_name :: "byte list" where
  "MQTT_name = c_string [0x4D, 0x51, 0x54, 0x54]"

definition fill_with_connect_data ::
    "xi_mqtt_message \<Rightarrow> byte list option \<Rightarrow> byte list option \<Rightarrow> 16 word \<Rightarrow> xi_session_type
       \<Rightarrow> byte list option \<Rightarrow> byte list option \<Rightarrow> xi_mqtt_qos \<Rightarrow> xi_mqtt_retain \<Rightarrow> xi_memory \<Rightarrow> filled" where
  "fill_with_connect_data msg user pass keepalive_timeout session_type wtopic wmessage wqos wretain m =
     (let msg = put_type XI_MQTT_TYPE_CONNECT (put_dup (dup_value XI_MQTT_DUP_FALSE)
            (put_qos (qos_value XI_MQTT_QOS_AT_MOST_ONCE)
              (put_retain (retain_value XI_MQTT_RETAIN_FALSE) (cleared msg))));
          msg = msg\<lparr>remaining_length_field := 0, will_topic := None, will_message := None\<rparr>;
          msg = put_flag 3 2 0 (put_flag 5 1 0 (put_flag 2 1 0 msg));
          client = user
      in store_desc (\<lambda>d. protocol_name_update (\<lambda>_. d)) (xi_make_desc_from_string_copy (Some MQTT_name)) (\<lambda>msg m.
          let msg = msg\<lparr>protocol_version := 4\<rparr>;
              finish = (\<lambda>msg m.
                (let msg = put_flag 1 1 (if session_type = XI_SESSION_CLEAN then 1 else 0) msg
                 in Some (XI_STATE_OK, msg\<lparr>keepalive := keepalive_timeout\<rparr>, m)));
              lastwill = (\<lambda>msg m.
                if wmessage = None \<and> wtopic \<noteq> None then Some (XI_NULL_WILL_MESSAGE, msg, m)
                else if wmessage \<noteq> None \<and> wtopic = None then Some (XI_NULL_WILL_TOPIC, msg, m)
                else if wmessage \<noteq> None \<and> wtopic \<noteq> None
                then store_desc (\<lambda>d. will_topic_update (\<lambda>_. d)) (xi_make_desc_from_string_copy wtopic)
                      (store_desc (\<lambda>d. will_message_update (\<lambda>_. d)) (xi_make_desc_from_string_copy wmessage)
                        (\<lambda>msg m. finish (put_flag 3 2 (qos_value wqos) (put_flag 5 1 (retain_value wretain)
                            (put_flag 2 1 1 msg))) m)) msg m
                else finish msg m);
              passwd = (\<lambda>msg m.
                if flag_username_follows msg \<and> pass \<noteq> None
                then store_desc (\<lambda>d. password_update (\<lambda>_. d)) (xi_make_desc_from_string_copy pass) lastwill
                       (put_flag 6 1 1 msg) m
                else lastwill (put_flag 6 1 0 msg) m);
              usernm = (\<lambda>msg m.
                if user \<noteq> None
                then store_desc (\<lambda>d. username_update (\<lambda>_. d)) (xi_make_desc_from_string_copy user) passwd
                       (put_flag 7 1 1 msg) m
                else passwd (put_flag 7 1 0 msg) m)
          in if client \<noteq> None
             then store_desc (\<lambda>d. client_id_update (\<lambda>_. d)) (xi_make_desc_from_string_copy client) usernm msg m
             else usernm msg m) msg m)"

definition XI_MQTT_MAX_PAYLOAD_SIZE :: nat where "XI_MQTT_MAX_PAYLOAD_SIZE = 1024 * 128"

text \<open>\<open>topic\<close> is shared: its address and its contents; \<open>cnt\<close> is shared by its \<open>data_ptr\<close>.\<close>

definition fill_with_publish_data ::
    "xi_mqtt_message \<Rightarrow> addr \<times> byte list \<Rightarrow> xi_data_desc \<Rightarrow> xi_mqtt_qos \<Rightarrow> xi_mqtt_retain \<Rightarrow> xi_mqtt_dup
       \<Rightarrow> 16 word \<Rightarrow> xi_memory \<Rightarrow> filled" where
  "fill_with_publish_data msg topic cnt qos retain dup ident m =
     (if unat (desc_length cnt) > XI_MQTT_MAX_PAYLOAD_SIZE
      then Some (XI_MQTT_PAYLOAD_SIZE_TOO_LARGE, msg, m)
      else
        let msg = put_type XI_MQTT_TYPE_PUBLISH (put_dup (dup_value dup) (put_qos (qos_value qos)
              (put_retain (retain_value retain) (cleared msg))))
        in store_desc (\<lambda>d. topic_name_update (\<lambda>_. d)) (xi_make_desc_from_string_share (fst topic) (snd topic))
            (store_desc (\<lambda>d. publish_content_update (\<lambda>_. d))
              (xi_make_desc_from_buffer_share (data_ptr cnt) (data_bytes cnt) (unat (desc_length cnt)))
              (\<lambda>msg m. Some (XI_STATE_OK, msg\<lparr>message_id := ident\<rparr>, m)))
            (msg\<lparr>remaining_length_field := 0\<rparr>) m)"

definition sizeof_xi_mqtt_topicpair :: nat where "sizeof_xi_mqtt_topicpair = 24"

definition fill_with_subscribe_data ::
    "xi_mqtt_message \<Rightarrow> byte list option \<Rightarrow> 16 word \<Rightarrow> xi_mqtt_qos \<Rightarrow> xi_mqtt_dup \<Rightarrow> xi_memory \<Rightarrow> filled"
where
  "fill_with_subscribe_data msg topic msg_id qos dup m =
     (let msg = put_type XI_MQTT_TYPE_SUBSCRIBE (put_dup (dup_value dup)
            (put_qos (qos_value XI_MQTT_QOS_AT_LEAST_ONCE)
              (put_retain (retain_value XI_MQTT_RETAIN_FALSE) (cleared msg))));
          msg = msg\<lparr>remaining_length_field := 0\<rparr>;
          (pair, m1) = xi_alloc sizeof_xi_mqtt_topicpair m
      in if pair = NULL then Some (XI_OUT_OF_MEMORY, msg\<lparr>topics := None\<rparr>, m1)
         else let t = \<lparr>topicpair_block = pair, topic_filter = None, payload_byte = 0\<rparr>
              in store_desc (\<lambda>d. topics_update (\<lambda>_. Some (t\<lparr>topic_filter := d\<rparr>)))
                  (xi_make_desc_from_string_copy topic)
                  (\<lambda>msg m. Some (XI_STATE_OK, msg\<lparr>message_id := msg_id,
                      topics := map_option (\<lambda>t. t\<lparr>payload_byte := of_nat (qos_value qos)\<rparr>) (topics msg)\<rparr>, m))
                  msg m1)"

definition get_error_from_connack :: "int \<Rightarrow> xi_state" where
  "get_error_from_connack code =
     (if code = 0x01 then XI_MQTT_UNACCEPTABLE_PROTOCOL_VERSION
      else if code = 0x02 then XI_MQTT_IDENTIFIER_REJECTED
      else if code = 0x03 then XI_MQTT_SERVER_UNAVAILIBLE
      else if code = 0x04 then XI_MQTT_BAD_USERNAME_OR_PASSWORD
      else if code = 0x05 then XI_MQTT_NOT_AUTHORIZED
      else XI_MQTT_CONNECT_UNKNOWN_RETURN_CODE)"

text \<open>
  \<open>memcmp\<close> of the subscribed topic, a C string object, and the first \<open>length\<close> bytes of the
  received one; bytes are compared up to the first difference, and past the end of either object
  there is nothing to compare.
\<close>

fun c_memcmp :: "nat \<Rightarrow> byte list \<Rightarrow> byte list \<Rightarrow> bool option" where
  "c_memcmp 0 xs ys = Some True"
| "c_memcmp (Suc n) (x # xs) (y # ys) = (if x = y then c_memcmp n xs ys else Some False)"
| "c_memcmp (Suc n) xs ys = None"

definition cmp_topics :: "byte list \<Rightarrow> xi_data_desc \<Rightarrow> int option" where
  "cmp_topics topic cb =
     map_option (\<lambda>eq. if eq then 0 else 1) (c_memcmp (unat (desc_length cb)) topic (data_bytes cb))"

section \<open>The filled packets\<close>

text \<open>The bit fields of the first byte read back what was put, for every value that fits.\<close>

lemma common_table:
  "\<forall>ty \<in> set [0..<16]. \<forall>q \<in> set [0..<4]. \<forall>d \<in> set [0..<2]. \<forall>r \<in> set [0..<2].
     let b = bits_put 4 4 ty (bits_put 3 1 d (bits_put 1 2 q (bits_put 0 1 r 0)))
     in common_type b = ty \<and> common_qos b = q \<and> common_dup b = d \<and> common_retain b = r"
  by code_simp

lemma common_fields:
  assumes "common_value m = bits_put 4 4 ty (bits_put 3 1 d (bits_put 1 2 q (bits_put 0 1 r 0)))"
    "ty < 16" "d < 2" "q < 4" "r < 2"
  shows "msg_type m = ty" "msg_qos m = q" "common_dup (common_value m) = d" "common_retain (common_value m) = r"
  using common_table [THEN bspec [of _ _ ty], THEN bspec [of _ _ q], THEN bspec [of _ _ d], THEN bspec [of _ _ r]]
    assms by (simp_all add: msg_type_def msg_qos_def Let_def)

lemma enum_values [simp]: "qos_value q < 4" "dup_value d < 2" "retain_value r < 2"
proof -
  show "qos_value q < 4" by (cases q) simp_all
  show "dup_value d < 2" by (cases d) simp_all
  show "retain_value r < 2" by (cases r) simp_all
qed

lemma bits_put_zero [simp]: "bits_put 0 1 0 0 = 0" "bits_put 1 2 0 0 = 0" "bits_put 3 1 0 0 = 0"
  by code_simp+

lemma type_alone: "msg_type (put_type ty (cleared m)) = ty" if "ty < 16"
  by (rule common_fields(1) [of _ ty 0 0 0])
    (use that in \<open>simp_all add: put_type_def cleared_def empty_message_def del: One_nat_def\<close>)

lemma flag_bits:
  "flag_will (put_flag pos w v m) = (if pos \<le> 2 \<and> 2 < pos + w then bit v (2 - pos) else flag_will m)"
  "flag_password_follows (put_flag pos w v m) = (if pos \<le> 6 \<and> 6 < pos + w then bit v (6 - pos) else flag_password_follows m)"
  "flag_username_follows (put_flag pos w v m) = (if pos \<le> 7 \<and> 7 < pos + w then bit v (7 - pos) else flag_username_follows m)"
  by (auto simp: flag_will_def flag_password_follows_def flag_username_follows_def put_flag_def bits_put_def bit_simps)

text \<open>The descriptors the constructors make.\<close>

lemma of_nat_len: "n < 2 ^ 32 \<Longrightarrow> unat (of_nat n :: 32 word) = n"
  by (rule of_nat_inverse) simp_all

lemma c_strlen_le:
  assumes "c_strlen s = Some n"
  shows "n < length s"
proof -
  have "length (takeWhile (\<lambda>c. c \<noteq> 0) s) < length s" if "0 \<in> set s"
    using that by (induct s) auto
  then show ?thesis using assms by (auto simp: c_strlen_def split: if_splits)
qed

lemma string_copy_spec:
  assumes "xi_make_desc_from_string_copy (Some s) m = Some (Some d, m')" "length s < 2 ^ 32"
  shows "desc_ok d" "contents d = takeWhile (\<lambda>c. c \<noteq> 0) s"
proof -
  obtain n where n: "c_strlen s = Some n" "data_bytes d = take n s" "desc_capacity d = of_nat n"
    "desc_length d = of_nat n" "desc_memory_type d = XI_MEMORY_TYPE_MANAGED"
    using assms(1) by (auto simp: xi_make_desc_from_string_copy_def Let_def split: bind_splits if_splits prod.splits)
  have lt: "n < length s" using n(1) by (rule c_strlen_le)
  then have u: "unat (of_nat n :: 32 word) = n" using assms(2) by (intro of_nat_len) simp
  show "desc_ok d" using n lt u by (simp add: desc_ok_def)
  have "takeWhile (\<lambda>c. c \<noteq> 0) s = take n s"
    using n(1) takeWhile_eq_take [of "\<lambda>c. c \<noteq> 0" s] by (simp add: c_strlen_def split: if_splits)
  then show "contents d = takeWhile (\<lambda>c. c \<noteq> 0) s" using n u by (simp add: contents_def)
qed

lemma c_string_bytes: "take (length xs) (c_string xs) = xs" "length (c_string xs) = Suc (length xs)"
  by (simp_all add: c_string_def)

lemma string_share_spec:
  assumes "0 \<notin> set xs" "length xs < 2 ^ 32" "p \<noteq> NULL" "granted m"
  obtains d m' where "xi_make_desc_from_string_share p (c_string xs) m = Some (Some d, m')" "granted m'"
    "desc_ok d" "contents d = xs"
proof -
  obtain q m1 where a: "xi_alloc sizeof_xi_data_desc m = (q, m1)" by fastforce
  have q: "q \<noteq> NULL" "granted m1"
    using a assms(4) xi_alloc_mem_ok [OF a]
    by (auto simp: granted_def xi_alloc_def sizeof_xi_data_desc_def PTRDIFF_MAX_def mem_ok_def split: if_splits)
  have u: "unat (of_nat (length xs) :: 32 word) = length xs" using assms(2) by (rule of_nat_len)
  show thesis
    using that [of "(zero_desc q)\<lparr>data_ptr := p, data_bytes := c_string xs,
        desc_capacity := of_nat (length xs), desc_length := of_nat (length xs),
        desc_memory_type := XI_MEMORY_TYPE_UNMANAGED\<rparr>" m1] a q u assms(1,3)
    by (simp add: xi_make_desc_from_string_share_def desc_ok_def contents_def c_string_bytes)
qed

lemma buffer_share_spec:
  assumes "desc_ok cnt" "data_ptr cnt \<noteq> NULL" "granted m"
  obtains d m' where "xi_make_desc_from_buffer_share (data_ptr cnt) (data_bytes cnt) (unat (desc_length cnt)) m
      = Some (Some d, m')" "granted m'" "desc_ok d" "contents d = contents cnt"
proof -
  obtain q m1 where a: "xi_alloc sizeof_xi_data_desc m = (q, m1)" by fastforce
  have q: "q \<noteq> NULL" "granted m1"
    using a assms(3) xi_alloc_mem_ok [OF a]
    by (auto simp: granted_def xi_alloc_def sizeof_xi_data_desc_def PTRDIFF_MAX_def mem_ok_def split: if_splits)
  have "unat (desc_length cnt) \<le> length (data_bytes cnt)"
    using assms(1) by (auto simp: desc_ok_def word_le_nat_alt)
  then show thesis
    using that [of "(zero_desc q)\<lparr>desc_capacity := desc_length cnt, desc_length := desc_length cnt,
        data_ptr := data_ptr cnt, data_bytes := data_bytes cnt,
        desc_memory_type := XI_MEMORY_TYPE_UNMANAGED\<rparr>" m1] a q assms(2)
    by (simp add: xi_make_desc_from_buffer_share_def desc_ok_def contents_def)
qed

text \<open>A packet whose fields are those of the given one, with other first byte.\<close>

lemma fill_publish_spec:
  assumes "0 \<notin> set topic" "length topic < 2 ^ 32" "tp \<noteq> NULL" "desc_ok cnt" "data_ptr cnt \<noteq> NULL"
    "unat (desc_length cnt) \<le> XI_MQTT_MAX_PAYLOAD_SIZE" "granted m"
  obtains msg mem where "fill_with_publish_data msg0 (tp, c_string topic) cnt qos retain dup ident m
      = Some (XI_STATE_OK, msg, mem)" "granted mem"
    "msg_type msg = XI_MQTT_TYPE_PUBLISH" "msg_qos msg = qos_value qos"
    "common_dup (common_value msg) = dup_value dup" "common_retain (common_value msg) = retain_value retain"
    "str (topic_name msg) = topic" "str (publish_content msg) = contents cnt" "message_id msg = ident"
    "fields_ok msg" "fields_present msg" "known_type (msg_type msg)"
    "length topic < 65536 \<Longrightarrow> parsable msg" "message_block msg = message_block msg0"
proof -
  let ?m0 = "(put_type XI_MQTT_TYPE_PUBLISH (put_dup (dup_value dup) (put_qos (qos_value qos)
              (put_retain (retain_value retain) (cleared msg0)))))\<lparr>remaining_length_field := 0\<rparr>"
  obtain d m1 where d: "xi_make_desc_from_string_share tp (c_string topic) m = Some (Some d, m1)" "granted m1"
    "desc_ok d" "contents d = topic"
    using assms(1,2,3,7) by (rule string_share_spec)
  obtain c m2 where c: "xi_make_desc_from_buffer_share (data_ptr cnt) (data_bytes cnt) (unat (desc_length cnt)) m1
      = Some (Some c, m2)" "granted m2" "desc_ok c" "contents c = contents cnt"
    using assms(4,5) d(2) by (rule buffer_share_spec)
  let ?msg = "?m0\<lparr>topic_name := Some d, publish_content := Some c, message_id := ident\<rparr>"
  have cv: "common_value ?msg = bits_put 4 4 XI_MQTT_TYPE_PUBLISH (bits_put 3 1 (dup_value dup)
      (bits_put 1 2 (qos_value qos) (bits_put 0 1 (retain_value retain) 0)))"
    by (simp add: put_type_def put_dup_def put_qos_def put_retain_def cleared_def empty_message_def)
  note f = common_fields [OF cv, simplified]
  have rest: "protocol_name ?msg = None" "client_id ?msg = None" "will_topic ?msg = None" "will_message ?msg = None"
    "username ?msg = None" "password ?msg = None" "topics ?msg = None" "message_block ?msg = message_block msg0"
    by (simp_all add: put_type_def put_dup_def put_qos_def put_retain_def cleared_def empty_message_def)
  have ok: "fields_ok ?msg" "fields_present ?msg" "known_type (msg_type ?msg)"
    using d(3) c(3) f(1) rest by (simp_all add: fields_ok_def fields_present_def known_type_def str_ok_def)
  have par: "parsable ?msg" if "length topic < 65536"
    using that f(1) rest d(4) by (simp add: parsable_def str_def)
  have "fill_with_publish_data msg0 (tp, c_string topic) cnt qos retain dup ident m = Some (XI_STATE_OK, ?msg, m2)"
    using d(1) c(1) assms(6) by (simp add: fill_with_publish_data_def store_desc_def)
  from this c(2) show thesis
    by (rule that) (use f ok par rest d(4) c(4) in \<open>simp_all add: str_def\<close>)
qed

text \<open>A serialisable packet: the serialiser's lemmas apply to it.\<close>

definition serialisable :: "xi_mqtt_message \<Rightarrow> bool" where
  "serialisable m \<longleftrightarrow> known_type (msg_type m) \<and> fields_ok m \<and> fields_present m"

definition short :: "byte list option \<Rightarrow> bool" where
  "short s \<longleftrightarrow> (\<forall>xs. s = Some xs \<longrightarrow> length xs < 2 ^ 32)"

definition text_of :: "byte list option \<Rightarrow> byte list" where
  "text_of s = takeWhile (\<lambda>c. c \<noteq> 0) (the s)"

lemma store_desc_OK:
  assumes "store_desc put mk k msg m = Some (XI_STATE_OK, r)"
  obtains d m1 where "mk m = Some (Some d, m1)" "k (put (Some d) msg) m1 = Some (XI_STATE_OK, r)"
  using assms by (auto simp: store_desc_def split: bind_splits if_splits prod.splits)

lemma store_copy_OK:
  assumes "store_desc put (xi_make_desc_from_string_copy s) k msg m = Some (XI_STATE_OK, r)" "short s"
  obtains d m1 xs where "s = Some xs" "desc_ok d" "contents d = text_of s" "k (put (Some d) msg) m1 = Some (XI_STATE_OK, r)"
proof -
  obtain d m1 where d: "xi_make_desc_from_string_copy s m = Some (Some d, m1)" "k (put (Some d) msg) m1 = Some (XI_STATE_OK, r)"
    using assms(1) by (rule store_desc_OK)
  moreover from d(1) obtain xs where "s = Some xs"
    by (cases s) (auto simp: xi_make_desc_from_string_copy_def Let_def split: bind_splits if_splits prod.splits)
  ultimately show thesis using that string_copy_spec [of xs m d m1] assms(2) by (auto simp: short_def text_of_def)
qed

lemma bit_bits_put: "n < 8 \<Longrightarrow> bit (bits_put pos w v b) n = (if pos \<le> n \<and> n < pos + w then bit v (n - pos) else bit b n)"
  by (auto simp: bits_put_def bit_simps)

lemmas fill_defs = put_type_def put_dup_def put_qos_def put_retain_def put_flag_def cleared_def empty_message_def
lemmas packet_defs = serialisable_def known_type_def fields_ok_def fields_present_def str_ok_def desc_len_def
  flag_will_def flag_password_follows_def flag_username_follows_def bit_bits_put

lemma desc_length_contents: "desc_ok d \<Longrightarrow> unat (desc_length d) = length (contents d)"
  by (simp add: length_contents)

lemma MQTT_name_text [simp]: "text_of (Some MQTT_name) = [0x4D, 0x51, 0x54, 0x54]" "short (Some MQTT_name)"
  by (simp_all add: text_of_def MQTT_name_def c_string_def short_def)

text \<open>What a CONNECT packet says: user name and client id are the same string.\<close>

definition says_connect ::
    "xi_mqtt_message \<Rightarrow> byte list option \<Rightarrow> byte list option \<Rightarrow> 16 word \<Rightarrow> byte list option
       \<Rightarrow> byte list option \<Rightarrow> xi_mqtt_message \<Rightarrow> bool" where
  "says_connect msg0 user pass kt wt wm msg \<longleftrightarrow>
     serialisable msg \<and> msg_type msg = XI_MQTT_TYPE_CONNECT \<and> keepalive msg = kt
   \<and> message_block msg = message_block msg0 \<and> protocol_version msg = 4
   \<and> str (client_id msg) = (if user = None then [] else text_of user)
   \<and> (flag_username_follows msg \<longleftrightarrow> user \<noteq> None) \<and> (user \<noteq> None \<longrightarrow> str (username msg) = text_of user)
   \<and> (flag_password_follows msg \<longleftrightarrow> user \<noteq> None \<and> pass \<noteq> None)
   \<and> (user \<noteq> None \<and> pass \<noteq> None \<longrightarrow> str (password msg) = text_of pass)
   \<and> (flag_will msg \<longleftrightarrow> wt \<noteq> None) \<and> (wt = None) = (wm = None)
   \<and> (wt \<noteq> None \<longrightarrow> str (will_topic msg) = text_of wt \<and> str (will_message msg) = text_of wm)"

lemma connect_type [simp]:
  "msg_type m = Suc 0" if "common_value m = bits_put 4 4 (Suc 0) (bits_put 3 (Suc 0) 0 (bits_put (Suc 0) 2 0 (bits_put 0 (Suc 0) 0 0)))"
  by (rule common_fields(1) [of _ _ 0 0 0]) (use that in simp_all)

lemma fill_connect_spec:
  assumes "fill_with_connect_data msg0 user pass kt session wt wm wq wr m = Some (XI_STATE_OK, msg, m')"
    "short user" "short pass" "short wt" "short wm"
  shows "says_connect msg0 user pass kt wt wm msg"
  using assms
  by (cases user; cases pass; cases wt; cases wm;
      simp add: fill_with_connect_data_def Let_def fill_defs flag_username_follows_def bit_bits_put;
      elim store_copy_OK; clarsimp simp: says_connect_def fill_defs packet_defs str_def desc_length_contents bit_0;
      (elim store_copy_OK; clarsimp simp: fill_defs packet_defs desc_length_contents bit_0)?)

lemma fill_subscribe_spec:
  assumes "fill_with_subscribe_data msg0 topic ident qos dup m = Some (XI_STATE_OK, msg, m')" "short topic"
  shows "serialisable msg" "msg_type msg = XI_MQTT_TYPE_SUBSCRIBE" "message_id msg = ident" "msg_qos msg = 1"
    "common_dup (common_value msg) = dup_value dup"
    "str (topic_filter (the (topics msg))) = text_of topic" "payload_byte (the (topics msg)) = of_nat (qos_value qos)"
proof -
  have cv: "common_value msg = bits_put 4 4 XI_MQTT_TYPE_SUBSCRIBE (bits_put 3 1 (dup_value dup) (bits_put 1 2 1 (bits_put 0 1 0 0)))"
    and fields: "message_id msg = ident" "\<exists>b d. topics msg = Some \<lparr>topicpair_block = b, topic_filter = Some d,
       payload_byte = of_nat (qos_value qos)\<rparr> \<and> desc_ok d \<and> contents d = text_of topic"
    "protocol_name msg = None" "client_id msg = None" "will_topic msg = None" "will_message msg = None"
    "username msg = None" "password msg = None" "topic_name msg = None" "publish_content msg = None"
    using assms
    by (auto simp: fill_with_subscribe_data_def Let_def fill_defs split: prod.splits if_splits elim!: store_copy_OK)
  note f = common_fields [OF cv, simplified]
  show "serialisable msg" using f fields by (auto simp: packet_defs)
  show "msg_type msg = XI_MQTT_TYPE_SUBSCRIBE" "message_id msg = ident" "msg_qos msg = 1"
    "common_dup (common_value msg) = dup_value dup"
    "str (topic_filter (the (topics msg))) = text_of topic" "payload_byte (the (topics msg)) = of_nat (qos_value qos)"
    using f fields by (auto simp: str_def)
qed

lemma fill_fixed_spec:
  "serialisable (snd (fill_with_pingreq_data msg0))" "serialisable (snd (fill_with_puback_data msg0 ident))"
  "serialisable (snd (fill_with_disconnect_data msg0))" "serialisable (snd (fill_with_connack_data msg0 code))"
  using type_alone [of XI_MQTT_TYPE_PINGREQ msg0] type_alone [of XI_MQTT_TYPE_PUBACK msg0]
    type_alone [of XI_MQTT_TYPE_DISCONNECT msg0] type_alone [of XI_MQTT_TYPE_CONNACK msg0]
  by (simp_all add: fill_with_pingreq_data_def fill_with_puback_data_def fill_with_disconnect_data_def
      fill_with_connack_data_def packet_defs msg_type_def fill_defs)

section \<open>Topics\<close>

lemma c_memcmp_prefix:
  "n \<le> length ys \<Longrightarrow> c_memcmp n xs ys =
     (if prefix (take n ys) xs then Some True else if strict_prefix xs (take n ys) then None else Some False)"
  by (induct n xs ys rule: c_memcmp.induct) (auto simp: strict_prefix_def)

text \<open>
  \<open>cmp_topics\<close> reports a match exactly when the received topic is a prefix of the subscribed
  one together with its terminator, so a handler for \<open>"ab"\<close> is given messages for \<open>"a"\<close>; it reads
  past the subscribed string exactly when that string with its terminator is a proper prefix of
  the received topic; every other pair is reported as different.
\<close>

lemma cmp_topics_outcomes:
  assumes "desc_ok d"
  shows "cmp_topics (c_string xs) d = (if prefix (contents d) (c_string xs) then Some 0
     else if strict_prefix (c_string xs) (contents d) then None else Some 1)"
proof -
  have "unat (desc_length d) \<le> length (data_bytes d)" using assms by (auto simp: desc_ok_def word_le_nat_alt)
  then show ?thesis by (simp add: cmp_topics_def c_memcmp_prefix contents_def)
qed

text \<open>
  C23: Every packet the logic layer fills in successfully is one the serialiser can write: a
  CONNECT with the user name as client id, the password only next to a user name and the will
  as a pair; a SUBSCRIBE; a PUBLISH; and the packets without variable parts.
\<close>

theorem filled_packets_are_serialisable:
  assumes "short user" "short pass" "short wt" "short wm" "short topic"
    "0 \<notin> set name" "length name < 2 ^ 32" "tp \<noteq> NULL" "desc_ok cnt" "data_ptr cnt \<noteq> NULL"
    "unat (desc_length cnt) \<le> XI_MQTT_MAX_PAYLOAD_SIZE" "granted m"
  shows "(\<forall>msg m'. fill_with_connect_data msg0 user pass kt session wt wm wq wr m = Some (XI_STATE_OK, msg, m')
        \<longrightarrow> serialisable msg \<and> says_connect msg0 user pass kt wt wm msg)
    \<and> (\<forall>msg m'. fill_with_subscribe_data msg0 topic ident qos dup m = Some (XI_STATE_OK, msg, m')
        \<longrightarrow> serialisable msg \<and> str (topic_filter (the (topics msg))) = text_of topic \<and> msg_qos msg = 1)
    \<and> (\<exists>msg m'. fill_with_publish_data msg0 (tp, c_string name) cnt qos retain dup ident m = Some (XI_STATE_OK, msg, m')
        \<and> serialisable msg \<and> str (topic_name msg) = name \<and> str (publish_content msg) = contents cnt)
    \<and> serialisable (snd (fill_with_pingreq_data msg0)) \<and> serialisable (snd (fill_with_puback_data msg0 ident))
    \<and> serialisable (snd (fill_with_disconnect_data msg0)) \<and> serialisable (snd (fill_with_connack_data msg0 code))"
proof -
  have "serialisable msg \<and> says_connect msg0 user pass kt wt wm msg"
    if "fill_with_connect_data msg0 user pass kt session wt wm wq wr m = Some (XI_STATE_OK, msg, m')" for msg m'
    using fill_connect_spec [OF that assms(1-4)] unfolding says_connect_def by blast
  moreover have "serialisable msg \<and> str (topic_filter (the (topics msg))) = text_of topic \<and> msg_qos msg = 1"
    if "fill_with_subscribe_data msg0 topic ident qos dup m = Some (XI_STATE_OK, msg, m')" for msg m'
    using fill_subscribe_spec [OF that assms(5)] by simp
  moreover have "\<exists>msg m'. fill_with_publish_data msg0 (tp, c_string name) cnt qos retain dup ident m = Some (XI_STATE_OK, msg, m')
        \<and> serialisable msg \<and> str (topic_name msg) = name \<and> str (publish_content msg) = contents cnt"
  proof -
    obtain msg m' where "fill_with_publish_data msg0 (tp, c_string name) cnt qos retain dup ident m = Some (XI_STATE_OK, msg, m')"
      "str (topic_name msg) = name" "str (publish_content msg) = contents cnt"
      "fields_ok msg" "fields_present msg" "known_type (msg_type msg)"
      by (rule fill_publish_spec [OF assms(6-12), of msg0 qos retain dup ident], rule that)
    then show ?thesis by (auto simp: serialisable_def)
  qed
  ultimately show ?thesis using fill_fixed_spec [of msg0] by blast
qed

theorem filled_packets_are_serialisable_witness:
  "\<exists>msg m'. fill_with_connect_data (empty_message 1) (Some (c_string [117])) None 5 XI_SESSION_CLEAN None None
       XI_MQTT_QOS_AT_MOST_ONCE XI_MQTT_RETAIN_FALSE (initial_memory []) = Some (XI_STATE_OK, msg, m')
     \<and> serialisable msg \<and> str (client_id msg) = [117] \<and> str (username msg) = [117] \<and> \<not> flag_password_follows msg"
proof -
  let ?r = "fill_with_connect_data (empty_message 1) (Some (c_string [117])) None 5 XI_SESSION_CLEAN None None
       XI_MQTT_QOS_AT_MOST_ONCE XI_MQTT_RETAIN_FALSE (initial_memory [])"
  have ok: "map_option fst ?r = Some XI_STATE_OK"
    by (simp add: fill_with_connect_data_def store_desc_def xi_make_desc_from_string_copy_def c_string_def c_strlen_def
        MQTT_name_def xi_alloc_def initial_memory_def sizeof_xi_data_desc_def PTRDIFF_MAX_def fill_defs
        flag_username_follows_def bit_bits_put bit_0)
  then obtain msg m' where r: "?r = Some (XI_STATE_OK, msg, m')" by (cases ?r) auto
  have s: "short (Some (c_string [117]))" "short None" by (simp_all add: short_def c_string_def)
  have "text_of (Some (c_string [117])) = [117]" by (simp add: text_of_def c_string_def)
  moreover have "serialisable msg \<and> says_connect (empty_message 1) (Some (c_string [117])) None 5 None None msg"
    by (rule filled_packets_are_serialisable [THEN conjunct1, rule_format, OF s(1) s(2) s(2) s(2) s(2) _ _ _
          bytes_desc_ok(1) _ _ granted_initial r, of "[97]" 1 "[1]" 2])
      (simp_all add: bytes_desc_ok bytes_desc_def XI_MQTT_MAX_PAYLOAD_SIZE_def)
  ultimately show ?thesis using r by (simp add: says_connect_def)
qed

section \<open>From the application to the peer\<close>

lemma publish_length:
  assumes "msg_type msg = XI_MQTT_TYPE_PUBLISH" "str_ok (topic_name msg)"
  shows "length (body_bytes msg) \<le> 4 + length (str (topic_name msg))"
  using assms by (simp add: body_bytes_def string_bytes_str length_bytes_16)

text \<open>
  A message handed to the library arrives. Filling in the packet succeeds for every payload
  within the limit; written into a buffer of the size the serialiser computes, followed by the
  payload and anything else, and cut into buffers in any way, it is parsed back to a packet
  with the topic, the payload, the quality of service and, above quality of service 0, the
  identifier it was sent with, and the parser stops behind it.
\<close>

lemma published_message_arrives:
  assumes "0 \<notin> set topic" "length topic < 65536" "tp \<noteq> NULL" "desc_ok cnt" "data_ptr cnt \<noteq> NULL"
    "unat (desc_length cnt) \<le> XI_MQTT_MAX_PAYLOAD_SIZE" "granted m" "granted mem"
    "desc_ok buffer" "desc_length buffer = 0"
    "qos \<noteq> XI_MQTT_QOS_AT_MOST_ONCE \<or> contents cnt \<noteq> [] \<or> tail \<noteq> []"
  shows "\<exists>msg m' size rem. fill_with_publish_data msg0 (tp, c_string topic) cnt qos retain dup ident m
        = Some (XI_STATE_OK, msg, m')
    \<and> xi_mqtt_serialiser_size True msg = Some (XI_STATE_OK, size, rem, length (contents cnt))
    \<and> (unat (desc_capacity buffer) = size - length (contents cnt) \<longrightarrow>
        (\<exists>w. xi_mqtt_serialiser_write err msg buffer rem = Some (XI_MQTT_SERIALISER_RC_SUCCESS, err, w)
          \<and> (\<forall>d ds. (received d \<and> (\<forall>a \<in> set ds. arrives a))
              \<longrightarrow> contents d @ arriving ds = contents w @ contents cnt @ tail
              \<longrightarrow> (\<exists>t ds'. feed xi_mqtt_parser_execute (fresh_parse p b d st mem) ds = Some (XI_STATE_OK, t, ds')
                   \<and> str (topic_name (message t)) = topic \<and> str (publish_content (message t)) = contents cnt
                   \<and> msg_qos (message t) = qos_value qos \<and> common_dup (common_value (message t)) = dup_value dup
                   \<and> common_retain (common_value (message t)) = retain_value retain
                   \<and> (qos \<noteq> XI_MQTT_QOS_AT_MOST_ONCE \<longrightarrow> message_id (message t) = ident)
                   \<and> stream t ds' = tail))))"
proof -
  have len: "length topic < 2 ^ 32" using assms(2) by simp
  obtain msg m' where fill: "fill_with_publish_data msg0 (tp, c_string topic) cnt qos retain dup ident m = Some (XI_STATE_OK, msg, m')"
    and f: "msg_type msg = XI_MQTT_TYPE_PUBLISH" "msg_qos msg = qos_value qos"
      "common_dup (common_value msg) = dup_value dup" "common_retain (common_value msg) = retain_value retain"
      "str (topic_name msg) = topic" "str (publish_content msg) = contents cnt" "message_id msg = ident"
    and ok: "fields_ok msg" "fields_present msg" "known_type (msg_type msg)" "parsable msg"
    by (rule fill_publish_spec [OF assms(1) len assms(3-7), of msg0 qos retain dup ident], rule that) (use assms(2) in blast)+
  have pl: "payload msg = contents cnt" "payload_length msg = length (contents cnt)"
    using f(1,6) ok(2) by (auto simp: payload_def payload_length_def str_def fields_present_def)
  let ?n = "length (body_bytes msg) + length (contents cnt)"
  have "length (contents cnt) \<le> 131072"
    using assms(4,6) by (simp add: length_contents XI_MQTT_MAX_PAYLOAD_SIZE_def)
  moreover have "length (body_bytes msg) \<le> 4 + length topic"
    using publish_length [OF f(1)] ok(1) f(5) by (simp add: fields_ok_def)
  ultimately have n: "?n \<le> 268435455" using assms(2) by simp
  have size: "xi_mqtt_serialiser_size True msg = Some (XI_STATE_OK, length (packet_bytes msg ?n) + length (contents cnt), ?n,
      length (contents cnt))"
    using serialiser_size_spec [OF ok(3,1,2)] n pl by (simp add: packet_bytes_def)
  have ends: "ends_in_bytes msg \<or> tail \<noteq> []"
    using assms(11) f(1,2,6) by (cases qos) (auto simp: ends_in_bytes_def)
  have arrives: "\<exists>t ds'. feed xi_mqtt_parser_execute (fresh_parse p b d st mem) ds = Some (XI_STATE_OK, t, ds')
      \<and> str (topic_name (message t)) = topic \<and> str (publish_content (message t)) = contents cnt
      \<and> msg_qos (message t) = qos_value qos \<and> common_dup (common_value (message t)) = dup_value dup
      \<and> common_retain (common_value (message t)) = retain_value retain
      \<and> (qos \<noteq> XI_MQTT_QOS_AT_MOST_ONCE \<longrightarrow> message_id (message t) = ident) \<and> stream t ds' = tail"
    if d: "received d \<and> (\<forall>a \<in> set ds. arrives a)" "contents d @ arriving ds = packet_bytes msg ?n @ contents cnt @ tail" for d ds
  proof -
    obtain t ds' where t: "feed xi_mqtt_parser_execute (fresh_parse p b d st mem) ds = Some (XI_STATE_OK, t, ds')"
      "packet_of (message t) = packet_of msg" "common_value (message t) = common_value msg" "stream t ds' = tail"
      using parser_round_trip [OF ok(1,2,4) ends _ n d(1) assms(8), of p b st] pl(1) d(2) by auto
    from t(3) have c: "msg_type (message t) = msg_type msg" "msg_qos (message t) = msg_qos msg"
      by (simp_all add: msg_type_def msg_qos_def)
    show ?thesis using t c f by (cases qos) (auto simp: packet_of_def Let_def)
  qed
  have "\<exists>w. xi_mqtt_serialiser_write err msg buffer ?n = Some (XI_MQTT_SERIALISER_RC_SUCCESS, err, w)
        \<and> contents w = packet_bytes msg ?n"
    if "unat (desc_capacity buffer) = length (packet_bytes msg ?n)"
    using serialiser_write_spec [OF ok(3,1,2) assms(9), of ?n err] assms(10) that
    by (auto simp: contents_def)
  with fill size arrives show ?thesis
    by (intro exI [of _ msg] exI [of _ m'] exI [of _ "length (packet_bytes msg ?n) + length (contents cnt)"] exI [of _ ?n])
      fastforce
qed

end
