(* ===== verification/Mqtt_Logic_Data.thy ===== *)
theory Mqtt_Logic_Data
  imports Xi_Layer Xi_Backoff Mqtt_Logic_Messages
begin

text \<open>
  \<open>src/libxively/mqtt/logic/xi_mqtt_logic_layer_data.h\<close> and \<open>xi_mqtt_logic_layer_data.c\<close>: the
  state of the MQTT logic layer and its tasks. A task stands for one thing the client does (it
  publishes, subscribes, connects, pings, acknowledges or disconnects) and is a coroutine; it is
  resumed through its handle \<open>logic\<close>.

  The state extends the global dispatcher by the layer, its context and the stores of the
  objects that are passed around by pointer. The handle cell \<open>timeout\<close> of a task has the task's
  address and \<open>keepalive_event\<close> the address of the layer's data; the contents of both are in the
  dispatcher's \<open>handles\<close>. A queue of tasks is the list of their addresses along \<open>__next\<close>.
\<close>

section \<open>State\<close>

datatype 'f logic_fn =
    Prev_Layer xi_layer_op | This_Layer xi_layer_op | Next_Layer xi_layer_op
  | Do_Mqtt_Connect | Do_Mqtt_Connect_Timeout | Do_Mqtt_Publish_Q0 | Do_Mqtt_Publish_Q1
  | Do_Mqtt_Subscribe | Do_Mqtt_Keepalive_Once | Do_Mqtt_Keepalive_Task | On_Keepalive_Timeout_Expiry
  | Do_Shutdown | On_Publish_Q1_Recieved | User_Fn 'f

type_synonym 'f logic_handle = "'f logic_fn global_fn xi_event_handle"

datatype xi_scenario =
    XI_MQTT_CONNECT | XI_MQTT_PUBLISH | XI_MQTT_PUBACK | XI_MQTT_SUBSCRIBE | XI_MQTT_KEEPALIVE
  | XI_MQTT_SHUTDOWN

datatype xi_mqtt_logic_task_priority = XI_MQTT_LOGIC_TASK_NORMAL | XI_MQTT_LOGIC_TASK_IMMEDIATE

datatype xi_mqtt_logic_task_session_state =
    XI_MQTT_LOGIC_TASK_SESSION_UNSET | XI_MQTT_LOGIC_TASK_SESSION_DO_NOT_STORE
  | XI_MQTT_LOGIC_TASK_SESSION_STORE

text \<open>The members of the union that are used; a string is its address and its contents.\<close>

datatype 'f xi_mqtt_task_specific_data =
    Publish_Data (publish_topic: "(addr \<times> byte list) option") (publish_data: "xi_data_desc option")
      (publish_retain: xi_mqtt_retain)
  | Subscribe_Data (subscribe_topic: "(addr \<times> byte list) option") (subscribe_handler: "'f logic_handle")
      (subscribe_qos: xi_mqtt_qos)

record 'f xi_mqtt_logic_task =
  logic :: "'f logic_handle"
  callback :: "'f logic_handle"
  scenario :: xi_scenario
  task_qos :: xi_mqtt_qos
  data_u :: addr
  priority :: xi_mqtt_logic_task_priority
  session_state :: xi_mqtt_logic_task_session_state
  task_cs :: nat
  msg_id :: "16 word"

record xi_mqtt_logic_layer_data =
  q12_tasks_queue :: "addr list"
  q12_recv_tasks_queue :: "addr list"
  q0_tasks_queue :: "addr list"
  current_q0_task :: addr
  handlers_for_topics :: "addr xi_vector option"
  last_msg_id :: "16 word"

datatype xi_connection_state =
    XI_CONNECTION_STATE_UNINITIALIZED | XI_CONNECTION_STATE_OPENING | XI_CONNECTION_STATE_OPENED
  | XI_CONNECTION_STATE_CLOSING | XI_CONNECTION_STATE_CLOSED | XI_CONNECTION_STATE_OPEN_FAILED

text \<open>The fields of the connection data that the layer reads; \<open>None\<close> is a \<open>NULL\<close> string.\<close>

record xi_connection_data =
  conn_username :: "byte list option"
  conn_password :: "byte list option"
  connection_timeout :: "16 word"
  keepalive_timeout :: "16 word"
  connection_state :: xi_connection_state
  session_type :: xi_session_type
  conn_will_topic :: "byte list option"
  conn_will_message :: "byte list option"
  will_qos :: xi_mqtt_qos
  will_retain :: xi_mqtt_retain

text \<open>
  \<open>layer_context\<close> is the address of the layer's connectivity, \<open>prev_context\<close> and \<open>next_context\<close>
  those of its neighbours; \<open>user_data\<close> is the address of \<open>layer_data\<close>, \<open>NULL\<close> while the layer
  has none.
\<close>

record 'f xi_logic = "'f logic_fn xi_globals" +
  layer_context :: addr
  prev_context :: addr
  next_context :: addr
  layer_state :: xi_layer_state
  user_data :: addr
  layer_data :: xi_mqtt_logic_layer_data
  io_timeouts :: "addr xi_vector"
  connection_data :: xi_connection_data
  copy_of_handlers_for_topics :: "addr xi_vector option"
  copy_of_q12_unacked_messages_queue :: "addr list"
  copy_of_last_msg_id :: "16 word"
  logic_tasks :: "addr \<Rightarrow> 'f xi_mqtt_logic_task"
  task_data :: "addr \<Rightarrow> 'f xi_mqtt_task_specific_data"
  mqtt_messages :: "addr \<Rightarrow> xi_mqtt_message"
  written_data :: "addr \<Rightarrow> 16 word \<times> nat"

type_synonym ('f, 'z) logic_environment = "('f logic_fn global_fn, ('f, 'z) xi_logic_scheme) xi_environment"

definition sizeof_xi_mqtt_logic_task :: nat where "sizeof_xi_mqtt_logic_task = 192"
definition sizeof_xi_mqtt_task_specific_data :: nat where "sizeof_xi_mqtt_task_specific_data = 88"
definition sizeof_xi_mqtt_message :: nat where "sizeof_xi_mqtt_message = 80"
definition sizeof_xi_mqtt_logic_layer_data :: nat where "sizeof_xi_mqtt_logic_layer_data = 64"

text \<open>\<open>xi_make_handle\<close> of a function of this layer.\<close>

definition logic_handle4 :: "'f logic_fn \<Rightarrow> addr \<Rightarrow> addr \<Rightarrow> xi_state \<Rightarrow> addr \<Rightarrow> 'f logic_handle" where
  "logic_handle4 fn context task st msg = xi_make_handle_argc4 0 (Other_Fn fn) context task st msg"

text \<open>
  Stores through the union of a handle: the structures of all arities begin with the same
  members, so the store reaches the argument if the handle has it.
\<close>

fun put_a1 :: "addr \<Rightarrow> 'f xi_handlers \<Rightarrow> 'f xi_handlers" where
  "put_a1 a1 (XI_EVENT_HANDLE_ARGC1 fn _) = XI_EVENT_HANDLE_ARGC1 fn a1"
| "put_a1 a1 (XI_EVENT_HANDLE_ARGC2 fn _ a2) = XI_EVENT_HANDLE_ARGC2 fn a1 a2"
| "put_a1 a1 (XI_EVENT_HANDLE_ARGC3 fn _ a2 a3) = XI_EVENT_HANDLE_ARGC3 fn a1 a2 a3"
| "put_a1 a1 (XI_EVENT_HANDLE_ARGC4 fn _ a2 a3 a4) = XI_EVENT_HANDLE_ARGC4 fn a1 a2 a3 a4"
| "put_a1 a1 (XI_EVENT_HANDLE_ARGC5 fn _ a2 a3 a4 a5) = XI_EVENT_HANDLE_ARGC5 fn a1 a2 a3 a4 a5"
| "put_a1 a1 (XI_EVENT_HANDLE_ARGC6 fn _ a2 a3 a4 a5 a6) = XI_EVENT_HANDLE_ARGC6 fn a1 a2 a3 a4 a5 a6"
| "put_a1 a1 h = h"

fun put_a2 :: "addr \<Rightarrow> 'f xi_handlers \<Rightarrow> 'f xi_handlers" where
  "put_a2 a2 (XI_EVENT_HANDLE_ARGC2 fn a1 _) = XI_EVENT_HANDLE_ARGC2 fn a1 a2"
| "put_a2 a2 (XI_EVENT_HANDLE_ARGC3 fn a1 _ a3) = XI_EVENT_HANDLE_ARGC3 fn a1 a2 a3"
| "put_a2 a2 (XI_EVENT_HANDLE_ARGC4 fn a1 _ a3 a4) = XI_EVENT_HANDLE_ARGC4 fn a1 a2 a3 a4"
| "put_a2 a2 (XI_EVENT_HANDLE_ARGC5 fn a1 _ a3 a4 a5) = XI_EVENT_HANDLE_ARGC5 fn a1 a2 a3 a4 a5"
| "put_a2 a2 (XI_EVENT_HANDLE_ARGC6 fn a1 _ a3 a4 a5 a6) = XI_EVENT_HANDLE_ARGC6 fn a1 a2 a3 a4 a5 a6"
| "put_a2 a2 h = h"

fun put_a3 :: "xi_state \<Rightarrow> 'f xi_handlers \<Rightarrow> 'f xi_handlers" where
  "put_a3 a3 (XI_EVENT_HANDLE_ARGC3 fn a1 a2 _) = XI_EVENT_HANDLE_ARGC3 fn a1 a2 a3"
| "put_a3 a3 (XI_EVENT_HANDLE_ARGC4 fn a1 a2 _ a4) = XI_EVENT_HANDLE_ARGC4 fn a1 a2 a3 a4"
| "put_a3 a3 (XI_EVENT_HANDLE_ARGC5 fn a1 a2 _ a4 a5) = XI_EVENT_HANDLE_ARGC5 fn a1 a2 a3 a4 a5"
| "put_a3 a3 (XI_EVENT_HANDLE_ARGC6 fn a1 a2 _ a4 a5 a6) = XI_EVENT_HANDLE_ARGC6 fn a1 a2 a3 a4 a5 a6"
| "put_a3 a3 h = h"

fun put_a4 :: "addr \<Rightarrow> 'f xi_handlers \<Rightarrow> 'f xi_handlers" where
  "put_a4 a4 (XI_EVENT_HANDLE_ARGC4 fn a1 a2 a3 _) = XI_EVENT_HANDLE_ARGC4 fn a1 a2 a3 a4"
| "put_a4 a4 (XI_EVENT_HANDLE_ARGC5 fn a1 a2 a3 _ a5) = XI_EVENT_HANDLE_ARGC5 fn a1 a2 a3 a4 a5"
| "put_a4 a4 (XI_EVENT_HANDLE_ARGC6 fn a1 a2 a3 _ a5 a6) = XI_EVENT_HANDLE_ARGC6 fn a1 a2 a3 a4 a5 a6"
| "put_a4 a4 h = h"

section \<open>Objects behind pointers\<close>

definition live :: "('f, 'z) xi_logic_scheme \<Rightarrow> addr \<Rightarrow> bool" where
  "live s p \<longleftrightarrow> p \<noteq> NULL \<and> p \<in> live_blocks (tmem s)"

definition deref_task :: "('f, 'z) xi_logic_scheme \<Rightarrow> addr \<Rightarrow> 'f xi_mqtt_logic_task option" where
  "deref_task s p = (if live s p then Some (logic_tasks s p) else None)"

definition update_task ::
    "addr \<Rightarrow> ('f xi_mqtt_logic_task \<Rightarrow> 'f xi_mqtt_logic_task) \<Rightarrow> ('f, 'z) xi_logic_scheme
       \<Rightarrow> ('f, 'z) xi_logic_scheme option" where
  "update_task p f s = (if live s p then Some (s\<lparr>logic_tasks := (logic_tasks s)(p := f (logic_tasks s p))\<rparr>) else None)"

definition deref_data :: "('f, 'z) xi_logic_scheme \<Rightarrow> addr \<Rightarrow> 'f xi_mqtt_task_specific_data option" where
  "deref_data s p = (if live s p then Some (task_data s p) else None)"

definition deref_message :: "('f, 'z) xi_logic_scheme \<Rightarrow> addr \<Rightarrow> xi_mqtt_message option" where
  "deref_message s p = (if live s p then Some (mqtt_messages s p) else None)"

text \<open>The contexts a handle carries are the layer's own one, or \<open>NULL\<close> in a stored task.\<close>

definition xi_context :: "('f, 'z) xi_logic_scheme \<Rightarrow> addr \<Rightarrow> unit option" where
  "xi_context s context = (if context \<noteq> NULL \<and> context = layer_context s then Some () else None)"

text \<open>\<open>xi_mqtt_message_free\<close> of a pointer, and the allocation of a cleared message.\<close>

definition free_message :: "addr \<Rightarrow> ('f, 'z) xi_logic_scheme \<Rightarrow> ('f, 'z) xi_logic_scheme option" where
  "free_message p s =
     (if p = NULL then Some s
      else do {
        msg \<leftarrow> deref_message s p;
        m \<leftarrow> xi_mqtt_message_free (Some msg) (tmem s);
        Some (s\<lparr>tmem := m\<rparr>) })"

definition alloc_message :: "('f, 'z) xi_logic_scheme \<Rightarrow> addr \<times> ('f, 'z) xi_logic_scheme" where
  "alloc_message s =
     (let (p, m) = xi_alloc sizeof_xi_mqtt_message (tmem s)
      in (p, s\<lparr>tmem := m, mqtt_messages := (if p = NULL then mqtt_messages s
                 else (mqtt_messages s)(p := empty_message p))\<rparr>))"

text \<open>The result of filling a message in, stored at its address.\<close>

definition fill_message ::
    "addr \<Rightarrow> (xi_mqtt_message \<Rightarrow> xi_memory \<Rightarrow> filled) \<Rightarrow> ('f, 'z) xi_logic_scheme
       \<Rightarrow> (xi_state \<times> ('f, 'z) xi_logic_scheme) option" where
  "fill_message p fill s = do {
     msg \<leftarrow> deref_message s p;
     (st, msg1, m) \<leftarrow> fill msg (tmem s);
     Some (st, s\<lparr>tmem := m, mqtt_messages := (mqtt_messages s)(p := msg1)\<rparr>) }"

section \<open>Pseudo constructors\<close>

definition zero_task :: "'f xi_mqtt_logic_task" where
  "zero_task = \<lparr>logic = xi_make_empty_handle_impl 0, callback = xi_make_empty_handle_impl 0,
     scenario = XI_MQTT_CONNECT, task_qos = XI_MQTT_QOS_AT_MOST_ONCE, data_u = NULL,
     priority = XI_MQTT_LOGIC_TASK_NORMAL, session_state = XI_MQTT_LOGIC_TASK_SESSION_UNSET,
     task_cs = 0, msg_id = 0\<rparr>"

text \<open>\<open>XI_ALLOC( xi_mqtt_logic_task_t, task, state )\<close> clears the block with its handle cell.\<close>

definition alloc_task :: "('f, 'z) xi_logic_scheme \<Rightarrow> addr \<times> ('f, 'z) xi_logic_scheme" where
  "alloc_task s =
     (let (p, m) = xi_alloc sizeof_xi_mqtt_logic_task (tmem s)
      in if p = NULL then (NULL, s\<lparr>tmem := m\<rparr>)
         else (p, s\<lparr>handles := (handles s)(p := NULL), tmem := m,
                   logic_tasks := (logic_tasks s)(p := zero_task)\<rparr>))"

text \<open>The address of a shared string.\<close>

definition string_block :: "(addr \<times> byte list) option \<Rightarrow> addr" where
  "string_block sp = (case sp of None \<Rightarrow> NULL | Some (p, _) \<Rightarrow> p)"

definition xi_mqtt_task_spec_data_free_publish_data ::
    "addr \<Rightarrow> ('f, 'z) xi_logic_scheme \<Rightarrow> ('f, 'z) xi_logic_scheme option" where
  "xi_mqtt_task_spec_data_free_publish_data p s = do {
     xi_assert (p \<noteq> NULL);
     d \<leftarrow> deref_data s p;
     (case d of
        Publish_Data topic content retain \<Rightarrow> do {
          m1 \<leftarrow> xi_free_desc content (tmem s);
          Some (s\<lparr>tmem := xi_free p (xi_free (string_block topic) m1)\<rparr>) }
      | _ \<Rightarrow> None) }"

definition xi_mqtt_task_spec_data_free_subscribe_data ::
    "addr \<Rightarrow> ('f, 'z) xi_logic_scheme \<Rightarrow> ('f, 'z) xi_logic_scheme option" where
  "xi_mqtt_task_spec_data_free_subscribe_data p s = do {
     xi_assert (p \<noteq> NULL);
     d \<leftarrow> deref_data s p;
     (case d of
        Subscribe_Data topic handler qos \<Rightarrow>
          Some (s\<lparr>tmem := xi_free p (xi_free (string_block topic) (tmem s))\<rparr>)
      | _ \<Rightarrow> None) }"

text \<open>
  The destructors clear the task's pointer through \<open>&task->data.data_u\<close>; a task of another
  scenario must not have data.
\<close>

definition xi_mqtt_logic_free_task_data ::
    "addr \<Rightarrow> ('f, 'z) xi_logic_scheme \<Rightarrow> ('f, 'z) xi_logic_scheme option" where
  "xi_mqtt_logic_free_task_data p s = do {
     task \<leftarrow> deref_task s p;
     xi_assert (data_u task \<noteq> NULL);
     xi_assert (handles s p = NULL);
     s1 \<leftarrow> (case scenario task of
              XI_MQTT_PUBLISH \<Rightarrow> do {
                s1 \<leftarrow> xi_mqtt_task_spec_data_free_publish_data (data_u task) s;
                update_task p (\<lambda>t. t\<lparr>data_u := NULL\<rparr>) s1 }
            | XI_MQTT_SUBSCRIBE \<Rightarrow> do {
                s1 \<leftarrow> xi_mqtt_task_spec_data_free_subscribe_data (data_u task) s;
                update_task p (\<lambda>t. t\<lparr>data_u := NULL\<rparr>) s1 }
            | _ \<Rightarrow> Some s);
     task1 \<leftarrow> deref_task s1 p;
     xi_assert (data_u task1 = NULL);
     Some s1 }"

definition xi_mqtt_logic_free_task ::
    "addr \<Rightarrow> ('f, 'z) xi_logic_scheme \<Rightarrow> ('f, 'z) xi_logic_scheme option" where
  "xi_mqtt_logic_free_task p s =
     (if p = NULL then Some s
      else do {
        task \<leftarrow> deref_task s p;
        s1 \<leftarrow> (if data_u task \<noteq> NULL then xi_mqtt_logic_free_task_data p s else Some s);
        Some (s1\<lparr>tmem := xi_free p (tmem s1)\<rparr>) })"

text \<open>
  A constructor whose second allocation fails frees the task again. The result of
  \<open>xi_str_dup\<close> is stored without a check.
\<close>

definition alloc_task_data :: "('f, 'z) xi_logic_scheme \<Rightarrow> addr \<times> ('f, 'z) xi_logic_scheme" where
  "alloc_task_data s =
     (let (p, m) = xi_alloc sizeof_xi_mqtt_task_specific_data (tmem s) in (p, s\<lparr>tmem := m\<rparr>))"

definition xi_mqtt_logic_make_publish_task ::
    "byte list \<Rightarrow> xi_data_desc \<Rightarrow> xi_mqtt_qos \<Rightarrow> xi_mqtt_retain \<Rightarrow> 'f logic_handle
       \<Rightarrow> ('f, 'z) xi_logic_scheme \<Rightarrow> (addr \<times> ('f, 'z) xi_logic_scheme) option" where
  "xi_mqtt_logic_make_publish_task topic content qos retain cb s =
     (let (task, s1) = alloc_task s
      in if task = NULL then Some (NULL, s1)
         else do {
           s2 \<leftarrow> update_task task (\<lambda>t. t\<lparr>scenario := XI_MQTT_PUBLISH, task_qos := qos, callback := cb\<rparr>) s1;
           let (d, s3) = alloc_task_data s2;
           if d = NULL then do { s4 \<leftarrow> xi_mqtt_logic_free_task task s3; Some (NULL, s4) }
           else do {
             (copy, m) \<leftarrow> xi_str_dup topic (tmem s3);
             s4 \<leftarrow> update_task task (\<lambda>t. t\<lparr>data_u := d\<rparr>) (s3\<lparr>tmem := m,
                 task_data := (task_data s3)(d := Publish_Data copy (Some content) retain)\<rparr>);
             Some (task, s4) } })"

definition xi_mqtt_logic_make_subscribe_task ::
    "addr \<times> byte list \<Rightarrow> xi_mqtt_qos \<Rightarrow> 'f logic_handle
       \<Rightarrow> ('f, 'z) xi_logic_scheme \<Rightarrow> (addr \<times> ('f, 'z) xi_logic_scheme) option" where
  "xi_mqtt_logic_make_subscribe_task topic qos handler s =
     (let (task, s1) = alloc_task s
      in if task = NULL then Some (NULL, s1)
         else do {
           s2 \<leftarrow> update_task task
                   (\<lambda>t. t\<lparr>scenario := XI_MQTT_SUBSCRIBE, task_qos := XI_MQTT_QOS_AT_LEAST_ONCE\<rparr>) s1;
           let (d, s3) = alloc_task_data s2;
           if d = NULL then do { s4 \<leftarrow> xi_mqtt_logic_free_task task s3; Some (NULL, s4) }
           else do {
             s4 \<leftarrow> update_task task (\<lambda>t. t\<lparr>data_u := d\<rparr>) (s3\<lparr>
                 task_data := (task_data s3)(d := Subscribe_Data (Some topic) handler qos)\<rparr>);
             Some (task, s4) } })"

definition xi_mqtt_logic_make_shutdown_task ::
    "('f, 'z) xi_logic_scheme \<Rightarrow> (addr \<times> ('f, 'z) xi_logic_scheme) option" where
  "xi_mqtt_logic_make_shutdown_task s =
     (let (task, s1) = alloc_task s
      in if task = NULL then Some (NULL, s1)
         else do {
           s2 \<leftarrow> update_task task
                   (\<lambda>t. t\<lparr>scenario := XI_MQTT_SHUTDOWN, priority := XI_MQTT_LOGIC_TASK_IMMEDIATE\<rparr>) s1;
           Some (task, s2) })"

end
