(* ===== verification/Xi_Io_Timeouts.thy ===== *)
theory Xi_Io_Timeouts
  imports Xi_Event_Dispatcher_Invariant
begin

text \<open>
  \<open>src/libxively/xi_io_timeouts.c\<close>: timed calls whose handle cells are kept in a vector, so
  that all of them can be moved together. The vector holds the addresses of the cells.
\<close>

text \<open>Comparing two pointers.\<close>

definition xi_io_timeouts_compare_pointers :: "addr \<Rightarrow> addr \<Rightarrow> int option" where
  "xi_io_timeouts_compare_pointers e0 e1 = Some (if e0 = e1 then 0 else 1)"

definition xi_io_timeouts_create ::
    "('f, 'z) xi_evtd_instance_scheme \<Rightarrow> 'f xi_event_handle \<Rightarrow> int \<Rightarrow> addr xi_vector \<Rightarrow> addr
       \<Rightarrow> (xi_state \<times> addr xi_vector \<times> ('f, 'z) xi_evtd_instance_scheme) option" where
  "xi_io_timeouts_create s h time_diff timeouts cell = do {
     xi_assert (cell \<noteq> NULL \<and> handles s cell = NULL);
     (ret_state, s1) \<leftarrow> xi_evtd_execute_in s h time_diff cell;
     if ret_state \<noteq> XI_STATE_OK then Some (ret_state, timeouts, s1)
     else do {
       (elem, v, m) \<leftarrow> xi_vector_push timeouts cell (tmem s1);
       Some (if elem = None then XI_OUT_OF_MEMORY else ret_state, v, s1\<lparr>tmem := m\<rparr>) } }"

definition xi_io_timeouts_remove :: "addr \<Rightarrow> addr xi_vector \<Rightarrow> addr xi_vector option" where
  "xi_io_timeouts_remove cell timeouts = do {
     xi_assert (cell \<noteq> NULL);
     event_index \<leftarrow> xi_vector_find timeouts cell xi_io_timeouts_compare_pointers;
     if event_index > -1 then xi_vector_del timeouts event_index else Some timeouts }"

definition xi_io_timeouts_cancel ::
    "('f, 'z) xi_evtd_instance_scheme \<Rightarrow> addr \<Rightarrow> addr xi_vector
       \<Rightarrow> (addr xi_vector \<times> ('f, 'z) xi_evtd_instance_scheme) option" where
  "xi_io_timeouts_cancel s cell timeouts = do {
     xi_assert (cell \<noteq> NULL \<and> handles s cell \<noteq> NULL);
     v \<leftarrow> xi_io_timeouts_remove cell timeouts;
     (local_state, s1) \<leftarrow> xi_evtd_cancel s cell;
     xi_assert (local_state = XI_STATE_OK);
     Some (v, s1) }"

text \<open>The index is an \<open>int8_t\<close> that counts up to \<open>elem_no\<close>.\<close>

function xi_io_timeouts_restart_from ::
    "int \<Rightarrow> addr xi_vector \<Rightarrow> int \<Rightarrow> ('f, 'z) xi_evtd_instance_scheme \<Rightarrow> ('f, 'z) xi_evtd_instance_scheme option"
where
  "xi_io_timeouts_restart_from index timeouts new_time s =
     (if index < elem_no timeouts
      then do {
        cell \<leftarrow> arr_get (array timeouts) index;
        xi_assert (cell \<noteq> NULL \<and> handles s cell \<noteq> NULL);
        (local_state, s1) \<leftarrow> xi_evtd_restart s cell new_time;
        xi_assert (local_state = XI_STATE_OK);
        xi_io_timeouts_restart_from (index + 1) timeouts new_time s1 }
      else Some s)"
  by pat_completeness auto
termination by (relation "measure (\<lambda>(index, timeouts, _, _). nat (elem_no timeouts - index))") auto

definition xi_io_timeouts_restart ::
    "('f, 'z) xi_evtd_instance_scheme \<Rightarrow> int \<Rightarrow> addr xi_vector \<Rightarrow> ('f, 'z) xi_evtd_instance_scheme option"
where
  "xi_io_timeouts_restart s new_time timeouts = xi_io_timeouts_restart_from 0 timeouts new_time s"

end
