(* ===== verification/Mqtt_Logic_Tasks.thy ===== *)
theory Mqtt_Logic_Tasks
  imports Mqtt_Logic_Data Xi_Io_Timeouts
begin

text \<open>
  \<open>src/libxively/mqtt/logic/\<close>: the helpers that start, finish and signal tasks
  (\<open>xi_mqtt_logic_layer_task_helpers.h\<close> and \<open>.c\<close>) and the coroutines of the tasks. A coroutine
  is a function of its handle's four arguments that goes on behind the yield whose label is in
  \<open>task->cs\<close>. A handle is executed by the environment \<open>env\<close>.
\<close>

section \<open>Neighbours\<close>

text \<open>\<open>XI_PROCESS_\<close>op\<open>_ON_PREV_LAYER\<close>, \<open>_THIS_LAYER\<close> and \<open>_NEXT_LAYER\<close>.\<close>

definition process_on ::
    "addr \<Rightarrow> 'f logic_fn \<Rightarrow> xi_layer_op \<Rightarrow> addr \<Rightarrow> xi_state \<Rightarrow> ('f, 'z) xi_logic_scheme
       \<Rightarrow> xi_state \<times> ('f, 'z) xi_logic_scheme" where
  "process_on target fn op dat st s =
     (let (local_state, next_state, s1) =
        xi_layer_continue_with_impl (if target = NULL then None else Some (Other_Fn fn)) op
          (layer_state s) target dat st s
      in (local_state, s1\<lparr>layer_state := next_state\<rparr>))"

definition process_on_prev ::
    "xi_layer_op \<Rightarrow> addr \<Rightarrow> xi_state \<Rightarrow> ('f, 'z) xi_logic_scheme \<Rightarrow> xi_state \<times> ('f, 'z) xi_logic_scheme"
where
  "process_on_prev op dat st s = process_on (prev_context s) (Prev_Layer op) op dat st s"

definition process_on_this ::
    "xi_layer_op \<Rightarrow> addr \<Rightarrow> xi_state \<Rightarrow> ('f, 'z) xi_logic_scheme \<Rightarrow> xi_state \<times> ('f, 'z) xi_logic_scheme"
where
  "process_on_this op dat st s = process_on (layer_context s) (This_Layer op) op dat st s"

definition process_on_next ::
    "xi_layer_op \<Rightarrow> addr \<Rightarrow> xi_state \<Rightarrow> ('f, 'z) xi_logic_scheme \<Rightarrow> xi_state \<times> ('f, 'z) xi_logic_scheme"
where
  "process_on_next op dat st s = process_on (next_context s) (Next_Layer op) op dat st s"

section \<open>Helpers of the tasks\<close>

definition cancel_task_timeout :: "addr \<Rightarrow> ('f, 'z) xi_logic_scheme \<Rightarrow> ('f, 'z) xi_logic_scheme option" where
  "cancel_task_timeout p s = do {
     _ \<leftarrow> deref_task s p;
     if handles s p \<noteq> NULL
     then do {
       v \<leftarrow> xi_io_timeouts_remove p (io_timeouts s);
       (local_state, s1) \<leftarrow> xi_evtd_cancel (s\<lparr>io_timeouts := v\<rparr>) p;
       xi_assert (local_state = XI_STATE_OK);
       xi_assert (handles s1 p = NULL);
       Some s1 }
     else Some s }"

definition execute_task ::
    "('f, 'z) logic_environment \<Rightarrow> addr \<Rightarrow> ('f, 'z) xi_logic_scheme
       \<Rightarrow> (xi_state \<times> ('f, 'z) xi_logic_scheme) option" where
  "execute_task env p s = do { task \<leftarrow> deref_task s p; xi_evtd_execute_handle env (logic task) s }"

definition put_logic :: "('f logic_fn global_fn xi_handlers \<Rightarrow> 'f logic_fn global_fn xi_handlers)
       \<Rightarrow> 'f xi_mqtt_logic_task \<Rightarrow> 'f xi_mqtt_logic_task" where
  "put_logic f t = t\<lparr>logic := (logic t)\<lparr>handlers := f (handlers (logic t))\<rparr>\<rparr>"

definition signal_task ::
    "('f, 'z) logic_environment \<Rightarrow> addr \<Rightarrow> xi_state \<Rightarrow> ('f, 'z) xi_logic_scheme
       \<Rightarrow> ('f, 'z) xi_logic_scheme option" where
  "signal_task env p st s = do {
     s1 \<leftarrow> update_task p (put_logic (put_a3 st)) s;
     (_, s2) \<leftarrow> execute_task env p s1;
     Some s2 }"

definition abort_task where "abort_task env p s = signal_task env p XI_STATE_OK s"
definition resend_task where "resend_task env p s = signal_task env p XI_STATE_RESEND s"
definition timeout_task where "timeout_task env p s = signal_task env p XI_STATE_TIMEOUT s"

definition set_new_context_and_call_resend ::
    "('f, 'z) logic_environment \<Rightarrow> addr \<Rightarrow> addr \<Rightarrow> ('f, 'z) xi_logic_scheme
       \<Rightarrow> ('f, 'z) xi_logic_scheme option" where
  "set_new_context_and_call_resend env context p s = do {
     task \<leftarrow> deref_task s p;
     if session_state task = XI_MQTT_LOGIC_TASK_SESSION_STORE
     then update_task p (put_logic (put_a1 context)) s \<bind> resend_task env p
     else Some s }"

definition xi_mqtt_logic_layer_run_next_q0_task ::
    "('f, 'z) logic_environment \<Rightarrow> ('f, 'z) xi_logic_scheme
       \<Rightarrow> (xi_state \<times> ('f, 'z) xi_logic_scheme) option" where
  "xi_mqtt_logic_layer_run_next_q0_task env s = do {
     xi_assert (user_data s \<noteq> NULL);
     s1 \<leftarrow> (if current_q0_task (layer_data s) \<noteq> NULL
            then do {
              s1 \<leftarrow> (if handles s (current_q0_task (layer_data s)) \<noteq> NULL
                     then cancel_task_timeout (current_q0_task (layer_data s)) s else Some s);
              s2 \<leftarrow> xi_mqtt_logic_free_task (current_q0_task (layer_data s)) s1;
              Some (s2\<lparr>layer_data := (layer_data s2)\<lparr>current_q0_task := NULL\<rparr>\<rparr>) }
            else Some s);
     (case q0_tasks_queue (layer_data s1) of
        [] \<Rightarrow> Some (XI_STATE_OK, s1)
      | p # q \<Rightarrow> do {
          task \<leftarrow> deref_task s1 p;
          if connection_state (connection_data s1) = XI_CONNECTION_STATE_OPENING
             \<and> scenario task \<noteq> XI_MQTT_CONNECT
          then Some (XI_STATE_OK, s1\<lparr>layer_data := (layer_data s1)\<lparr>q0_tasks_queue := q @ [p]\<rparr>\<rparr>)
          else execute_task env p
                 (s1\<lparr>layer_data := (layer_data s1)\<lparr>q0_tasks_queue := q, current_q0_task := p\<rparr>\<rparr>) }) }"

definition xi_mqtt_logic_task_defer_users_callback ::
    "addr \<Rightarrow> xi_state \<Rightarrow> ('f, 'z) xi_logic_scheme \<Rightarrow> ('f, 'z) xi_logic_scheme option" where
  "xi_mqtt_logic_task_defer_users_callback p st s = do {
     task \<leftarrow> deref_task s p;
     if xi_handle_disposed (callback task) = 0
     then Some (snd (xi_evtd_execute s ((callback task)\<lparr>handlers := put_a3 st (handlers (callback task))\<rparr>)))
     else Some s }"

definition xi_mqtt_logic_layer_finalize_task ::
    "('f, 'z) logic_environment \<Rightarrow> addr \<Rightarrow> ('f, 'z) xi_logic_scheme
       \<Rightarrow> (xi_state \<times> ('f, 'z) xi_logic_scheme) option" where
  "xi_mqtt_logic_layer_finalize_task env p s = do {
     task \<leftarrow> deref_task s p;
     xi_assert (handles s p = NULL);
     if task_qos task = XI_MQTT_QOS_AT_MOST_ONCE then xi_mqtt_logic_layer_run_next_q0_task env s
     else do {
       s1 \<leftarrow> xi_mqtt_logic_free_task p
               (s\<lparr>layer_data := (layer_data s)\<lparr>q12_tasks_queue := remove1 p (q12_tasks_queue (layer_data s))\<rparr>\<rparr>);
       Some (XI_STATE_OK, s1) } }"

text \<open>
  \<open>XI_LIST_FIND\<close> with \<open>CMP_TASK_MSG_ID\<close>. The search for a task with the identifier just
  generated is compiled in debug builds and ends in an assertion.
\<close>

fun find_task :: "('f, 'z) xi_logic_scheme \<Rightarrow> addr list \<Rightarrow> 16 word \<Rightarrow> addr option" where
  "find_task s [] ident = Some NULL"
| "find_task s (p # ps) ident = do {
     task \<leftarrow> deref_task s p;
     if msg_id task = ident then Some p else find_task s ps ident }"

definition run_task ::
    "('f, 'z) logic_environment \<Rightarrow> addr \<Rightarrow> ('f, 'z) xi_logic_scheme
       \<Rightarrow> (xi_state \<times> ('f, 'z) xi_logic_scheme) option" where
  "run_task env p s = do {
     task \<leftarrow> deref_task s p;
     if task_qos task = XI_MQTT_QOS_AT_MOST_ONCE
     then do {
       let s1 = s\<lparr>layer_data := (layer_data s)\<lparr>q0_tasks_queue :=
             (case priority task of
                XI_MQTT_LOGIC_TASK_NORMAL \<Rightarrow> q0_tasks_queue (layer_data s) @ [p]
              | XI_MQTT_LOGIC_TASK_IMMEDIATE \<Rightarrow> p # q0_tasks_queue (layer_data s))\<rparr>\<rparr>;
       if current_q0_task (layer_data s1) = NULL then xi_mqtt_logic_layer_run_next_q0_task env s1
       else Some (XI_STATE_OK, s1) }
     else do {
       let ident = last_msg_id (layer_data s) + 1;
       s1 \<leftarrow> update_task p (\<lambda>t. t\<lparr>msg_id := ident\<rparr>) (s\<lparr>layer_data := (layer_data s)\<lparr>last_msg_id := ident\<rparr>\<rparr>);
       needle \<leftarrow> find_task s1 (q12_tasks_queue (layer_data s1)) ident;
       xi_assert (needle = NULL);
       let s2 = s1\<lparr>layer_data := (layer_data s1)\<lparr>q12_tasks_queue := q12_tasks_queue (layer_data s1) @ [p]\<rparr>\<rparr>;
       if connection_state (connection_data s2) = XI_CONNECTION_STATE_OPENED
       then execute_task env p s2
       else Some (XI_STATE_OK, s2) } }"

end
