(* ===== verification/Mqtt_Logic_Coroutines.thy ===== *)
theory Mqtt_Logic_Coroutines
  imports Mqtt_Logic_Tasks
begin

text \<open>
  The coroutines of the tasks, one header or source file of \<open>src/libxively/mqtt/logic/\<close> each.
  The label of a yield is its line; any other value of \<open>task->cs\<close> starts the coroutine from its
  beginning, \<open>1\<close> (\<open>XI_CR_EXIT\<close>) and \<open>2\<close> (\<open>XI_CR_RESET\<close>) included. The parts between the labels
  are definitions of their own.
\<close>

type_synonym ('f, 'z) logic_result = "(xi_state \<times> ('f, 'z) xi_logic_scheme) option"

section \<open>Yields and what leads to them\<close>

definition set_task_cs :: "nat \<Rightarrow> addr \<Rightarrow> ('f, 'z) xi_logic_scheme \<Rightarrow> ('f, 'z) xi_logic_scheme option" where
  "set_task_cs label p s = update_task p (\<lambda>t. t\<lparr>task_cs := label\<rparr>) s"

text \<open>\<open>XI_CR_EXIT( task->cs, xi_mqtt_logic_layer_finalize_task( context, task ) )\<close>.\<close>

definition exit_and_finalize ::
    "('f, 'z) logic_environment \<Rightarrow> addr \<Rightarrow> ('f, 'z) xi_logic_scheme \<Rightarrow> ('f, 'z) logic_result" where
  "exit_and_finalize env p s = set_task_cs 1 p s \<bind> xi_mqtt_logic_layer_finalize_task env p"

text \<open>
  How every packet goes out: the message is allocated and filled in, something may follow
  (\<open>mid\<close>), and the coroutine yields at \<open>label\<close> with the message on its way to the previous
  layer. \<open>err\<close> is what stands at \<open>err_handling\<close>, with the state and \<open>msg_memory\<close> there.
\<close>

definition send_message ::
    "(xi_mqtt_message \<Rightarrow> xi_memory \<Rightarrow> filled)
       \<Rightarrow> (('f, 'z) xi_logic_scheme \<Rightarrow> ('f, 'z) logic_result)
       \<Rightarrow> (xi_state \<Rightarrow> addr \<Rightarrow> ('f, 'z) xi_logic_scheme \<Rightarrow> ('f, 'z) logic_result)
       \<Rightarrow> nat \<Rightarrow> addr \<Rightarrow> ('f, 'z) xi_logic_scheme \<Rightarrow> ('f, 'z) logic_result" where
  "send_message fill mid err label p s =
     (let (msg, s1) = alloc_message s
      in if msg = NULL then err XI_OUT_OF_MEMORY NULL s1
         else do {
           (st, s2) \<leftarrow> fill_message msg fill s1;
           if st \<noteq> XI_STATE_OK then err st msg s2
           else do {
             (st1, s3) \<leftarrow> mid s2;
             if st1 \<noteq> XI_STATE_OK then err st1 msg s3
             else do {
               s4 \<leftarrow> set_task_cs label p s3;
               Some (process_on_prev Push msg XI_STATE_OK s4) } } })"

text \<open>Between filling in and yielding there is nothing to do.\<close>

definition no_mid :: "('f, 'z) xi_logic_scheme \<Rightarrow> ('f, 'z) logic_result" where
  "no_mid s = Some (XI_STATE_OK, s)"

text \<open>The call of a fill function that does not allocate.\<close>

definition plain_fill :: "(xi_mqtt_message \<Rightarrow> xi_state \<times> xi_mqtt_message) \<Rightarrow> xi_mqtt_message \<Rightarrow> xi_memory \<Rightarrow> filled" where
  "plain_fill f msg m = (case f msg of (st, msg1) \<Rightarrow> Some (st, msg1, m))"

text \<open>The call of \<open>fill_with_publish_data\<close> for the data of a task.\<close>

definition publish_fill ::
    "('f, 'z) xi_logic_scheme \<Rightarrow> addr \<Rightarrow> xi_mqtt_qos \<Rightarrow> xi_mqtt_dup \<Rightarrow> 16 word
       \<Rightarrow> xi_mqtt_message \<Rightarrow> xi_memory \<Rightarrow> filled" where
  "publish_fill s p qos dup ident msg m = do {
     task \<leftarrow> deref_task s p;
     d \<leftarrow> deref_data s (data_u task);
     (case d of
        Publish_Data topic content retain \<Rightarrow> do {
          cnt \<leftarrow> content;
          fill_with_publish_data msg (case topic of None \<Rightarrow> (NULL, []) | Some t \<Rightarrow> t) cnt qos retain dup ident m }
      | _ \<Rightarrow> None) }"

definition shut_down :: "('f, 'z) xi_logic_scheme \<Rightarrow> bool" where
  "shut_down s \<longleftrightarrow> XI_THIS_LAYER_NOT_OPERATIONAL (layer_state s) \<or> user_data s = NULL"

section \<open>Publishing with quality of service 0\<close>

definition publish_q0_err ::
    "('f, 'z) logic_environment \<Rightarrow> addr \<Rightarrow> xi_state \<Rightarrow> addr \<Rightarrow> ('f, 'z) xi_logic_scheme \<Rightarrow> ('f, 'z) logic_result"
where
  "publish_q0_err env p st msg s = do {
     s1 \<leftarrow> xi_mqtt_logic_task_defer_users_callback p st s;
     s2 \<leftarrow> xi_mqtt_logic_free_task_data p s1;
     exit_and_finalize env p s2 }"

definition do_mqtt_publish_q0 ::
    "('f, 'z) logic_environment \<Rightarrow> addr \<Rightarrow> addr \<Rightarrow> xi_state \<Rightarrow> addr \<Rightarrow> ('f, 'z) xi_logic_scheme
       \<Rightarrow> ('f, 'z) logic_result" where
  "do_mqtt_publish_q0 env ctx p st msg_data s = do {
     xi_assert (msg_data = NULL);
     xi_assert (p \<noteq> NULL);
     _ \<leftarrow> xi_context s ctx;
     if shut_down s then Some (XI_STATE_OK, s)
     else do {
       task \<leftarrow> deref_task s p;
       if task_cs task = 66
       then do {
         s1 \<leftarrow> xi_mqtt_logic_free_task_data p s;
         s2 \<leftarrow> xi_mqtt_logic_task_defer_users_callback p
                 (if st = XI_STATE_WRITTEN then XI_STATE_OK else st) s1;
         exit_and_finalize env p s2 }
       else send_message (publish_fill s p XI_MQTT_QOS_AT_MOST_ONCE XI_MQTT_DUP_FALSE 0) no_mid
              (publish_q0_err env p) 66 p s } }"

section \<open>Publishing with quality of service 1\<close>

definition publish_q1_err ::
    "('f, 'z) logic_environment \<Rightarrow> addr \<Rightarrow> xi_state \<Rightarrow> addr \<Rightarrow> ('f, 'z) xi_logic_scheme \<Rightarrow> ('f, 'z) logic_result"
where
  "publish_q1_err env p st msg s = do {
     s1 \<leftarrow> xi_mqtt_logic_task_defer_users_callback p st s;
     s2 \<leftarrow> free_message msg s1;
     task \<leftarrow> deref_task s2 p;
     s3 \<leftarrow> (if data_u task \<noteq> NULL then xi_mqtt_logic_free_task_data p s2 else Some s2);
     s4 \<leftarrow> set_task_cs 2 p s3;
     (_, s5) \<leftarrow> xi_mqtt_logic_layer_finalize_task env p s4;
     Some (st, s5) }"

text \<open>The loop's body up to its first yield; only a resent message is marked as a duplicate.\<close>

definition publish_q1_send ::
    "('f, 'z) logic_environment \<Rightarrow> addr \<Rightarrow> xi_state \<Rightarrow> ('f, 'z) xi_logic_scheme \<Rightarrow> ('f, 'z) logic_result"
where
  "publish_q1_send env p st s = do {
     task \<leftarrow> deref_task s p;
     send_message (publish_fill s p XI_MQTT_QOS_AT_LEAST_ONCE
         (if st = XI_STATE_RESEND then XI_MQTT_DUP_TRUE else XI_MQTT_DUP_FALSE) (msg_id task)) no_mid
       (publish_q1_err env p) 73 p s }"

definition mark_stored :: "'f xi_mqtt_logic_task \<Rightarrow> 'f xi_mqtt_logic_task" where
  "mark_stored t = t\<lparr>session_state :=
     (if session_state t = XI_MQTT_LOGIC_TASK_SESSION_UNSET then XI_MQTT_LOGIC_TASK_SESSION_STORE
      else session_state t)\<rparr>"

text \<open>Behind the first yield: the message has been sent or not.\<close>

definition publish_q1_written ::
    "('f, 'z) logic_environment \<Rightarrow> addr \<Rightarrow> addr \<Rightarrow> xi_state \<Rightarrow> addr \<Rightarrow> ('f, 'z) xi_logic_scheme
       \<Rightarrow> ('f, 'z) logic_result" where
  "publish_q1_written env ctx p st msg s =
     (if st = XI_STATE_WRITTEN
      then do {
        s1 \<leftarrow> update_task p mark_stored s;
        xi_assert (handles s1 p = NULL);
        (st1, s2) \<leftarrow> (if keepalive_timeout (connection_data s1) > 0
                     then xi_evtd_execute_in s1 (logic_handle4 Do_Mqtt_Publish_Q1 ctx p XI_STATE_TIMEOUT NULL)
                            (uint (keepalive_timeout (connection_data s1))) p
                     else Some (XI_STATE_OK, s1));
        if st1 \<noteq> XI_STATE_OK then publish_q1_err env p st1 msg s2
        else do { s3 \<leftarrow> set_task_cs 105 p s2; Some (XI_STATE_OK, s3) } }
      else publish_q1_send env p XI_STATE_RESEND s)"

text \<open>Behind the second yield: a confirmation, the timeout, or a new connection.\<close>

definition publish_q1_confirmed ::
    "('f, 'z) logic_environment \<Rightarrow> addr \<Rightarrow> xi_state \<Rightarrow> addr \<Rightarrow> ('f, 'z) xi_logic_scheme \<Rightarrow> ('f, 'z) logic_result"
where
  "publish_q1_confirmed env p st msg s = do {
     (st1, s1) \<leftarrow> (if st = XI_STATE_TIMEOUT
                  then do { xi_assert (handles s p = NULL); Some (XI_STATE_RESEND, s) }
                  else do { s1 \<leftarrow> cancel_task_timeout p s; Some (st, s1) });
     xi_assert (handles s1 p = NULL);
     if st1 = XI_STATE_RESEND then publish_q1_send env p st1 s1
     else if st1 \<noteq> XI_STATE_OK then publish_q1_err env p st1 msg s1
     else do {
       m \<leftarrow> deref_message s1 msg;
       if msg_type m \<noteq> XI_MQTT_TYPE_PUBACK
       then publish_q1_err env p XI_MQTT_LOGIC_WRONG_MESSAGE_RECEIVED msg s1
       else do {
         s2 \<leftarrow> xi_mqtt_logic_task_defer_users_callback p st1 s1;
         s3 \<leftarrow> free_message msg s2;
         s4 \<leftarrow> xi_mqtt_logic_free_task_data p s3;
         exit_and_finalize env p s4 } } }"

definition do_mqtt_publish_q1 ::
    "('f, 'z) logic_environment \<Rightarrow> addr \<Rightarrow> addr \<Rightarrow> xi_state \<Rightarrow> addr \<Rightarrow> ('f, 'z) xi_logic_scheme
       \<Rightarrow> ('f, 'z) logic_result" where
  "do_mqtt_publish_q1 env ctx p st msg_data s = do {
     xi_assert (p \<noteq> NULL);
     _ \<leftarrow> xi_context s ctx;
     if shut_down s
     then do {
       s1 \<leftarrow> cancel_task_timeout p s;
       s2 \<leftarrow> free_message msg_data s1;
       s3 \<leftarrow> set_task_cs 2 p s2;
       Some (XI_STATE_OK, s3) }
     else do {
       task \<leftarrow> deref_task s p;
       if task_cs task = 73 then publish_q1_written env ctx p st msg_data s
       else if task_cs task = 105 then publish_q1_confirmed env p st msg_data s
       else do {
         xi_assert (handles s p = NULL);
         publish_q1_send env p st s } } }"

section \<open>Subscribing\<close>

text \<open>
  At \<open>err_handling\<close> the task is finalised before \<open>task->cs\<close> is reset: the store goes to a block
  that has been freed.
\<close>

definition subscribe_err ::
    "('f, 'z) logic_environment \<Rightarrow> addr \<Rightarrow> xi_state \<Rightarrow> addr \<Rightarrow> ('f, 'z) xi_logic_scheme \<Rightarrow> ('f, 'z) logic_result"
where
  "subscribe_err env p st msg s = do {
     s1 \<leftarrow> free_message msg s;
     (_, s2) \<leftarrow> xi_mqtt_logic_layer_finalize_task env p s1;
     s3 \<leftarrow> set_task_cs 2 p s2;
     Some (st, s3) }"

definition subscribe_fill ::
    "('f, 'z) xi_logic_scheme \<Rightarrow> addr \<Rightarrow> xi_state \<Rightarrow> xi_mqtt_message \<Rightarrow> xi_memory \<Rightarrow> filled" where
  "subscribe_fill s p st msg m = do {
     task \<leftarrow> deref_task s p;
     d \<leftarrow> deref_data s (data_u task);
     (case d of
        Subscribe_Data topic handler qos \<Rightarrow>
          fill_with_subscribe_data msg (map_option snd topic) (msg_id task) qos
            (if st = XI_STATE_RESEND then XI_MQTT_DUP_TRUE else XI_MQTT_DUP_FALSE) m
      | _ \<Rightarrow> None) }"

definition subscribe_send ::
    "('f, 'z) logic_environment \<Rightarrow> addr \<Rightarrow> xi_state \<Rightarrow> ('f, 'z) xi_logic_scheme \<Rightarrow> ('f, 'z) logic_result"
where
  "subscribe_send env p st s = send_message (subscribe_fill s p st) no_mid (subscribe_err env p) 63 p s"

definition subscribe_written ::
    "('f, 'z) logic_environment \<Rightarrow> addr \<Rightarrow> addr \<Rightarrow> xi_state \<Rightarrow> addr \<Rightarrow> ('f, 'z) xi_logic_scheme
       \<Rightarrow> ('f, 'z) logic_result" where
  "subscribe_written env ctx p st msg s = do {
     xi_assert (handles s p = NULL);
     if st = XI_STATE_WRITTEN
     then do {
       s1 \<leftarrow> update_task p mark_stored s;
       (st1, s2) \<leftarrow> (if keepalive_timeout (connection_data s1) > 0
                    then xi_evtd_execute_in s1 (logic_handle4 Do_Mqtt_Subscribe ctx p XI_STATE_TIMEOUT NULL)
                           (uint (keepalive_timeout (connection_data s1))) p
                    else Some (XI_STATE_OK, s1));
       if st1 \<noteq> XI_STATE_OK then subscribe_err env p st msg s2
       else do { s3 \<leftarrow> set_task_cs 111 p s2; Some (XI_STATE_OK, s3) } }
     else do {
       (st1, s2) \<leftarrow> xi_evtd_execute_in s (logic_handle4 Do_Mqtt_Subscribe ctx p XI_STATE_RESEND NULL) 1 p;
       if st1 \<noteq> XI_STATE_OK then subscribe_err env p st msg s2
       else do { s3 \<leftarrow> set_task_cs 87 p s2; Some (XI_STATE_OK, s3) } } }"

definition XI_MQTT_SUBACK_FAILED :: byte where "XI_MQTT_SUBACK_FAILED = 0x80"

text \<open>The SUBACK has been received: its status goes to the subscription's handler.\<close>

definition subscribe_acknowledged ::
    "('f, 'z) logic_environment \<Rightarrow> addr \<Rightarrow> addr \<Rightarrow> ('f, 'z) xi_logic_scheme \<Rightarrow> ('f, 'z) logic_result" where
  "subscribe_acknowledged env p msg s = do {
     m \<leftarrow> deref_message s msg;
     t \<leftarrow> topics m;
     let status = payload_byte t;
     s1 \<leftarrow> free_message msg s;
     task \<leftarrow> deref_task s1 p;
     d \<leftarrow> deref_data s1 (data_u task);
     (case d of
        Subscribe_Data topic handler qos \<Rightarrow> do {
          let handler1 = handler\<lparr>handlers := put_a3 (if status = XI_MQTT_SUBACK_FAILED
                 then XI_MQTT_SUBSCRIPTION_FAILED else XI_MQTT_SUBSCRIPTION_SUCCESSFULL)
               (put_a2 (unat status) (handlers handler))\<rparr>;
          let s2 = s1\<lparr>task_data := (task_data s1)(data_u task := Subscribe_Data topic handler1 qos)\<rparr>;
          (ok, s3) \<leftarrow> (if status \<noteq> XI_MQTT_SUBACK_FAILED
                     then do {
                       v \<leftarrow> handlers_for_topics (layer_data s2);
                       (elem, v1, mem) \<leftarrow> xi_vector_push v (data_u task) (tmem s2);
                       Some (elem \<noteq> None, s2\<lparr>tmem := mem,
                           layer_data := (layer_data s2)\<lparr>handlers_for_topics := Some v1\<rparr>\<rparr>) }
                     else Some (True, s2));
          if \<not> ok then subscribe_err env p XI_OUT_OF_MEMORY NULL s3
          else do {
            let (e_ptr, s4) = xi_evtd_execute s3 handler1;
            if e_ptr = NULL then subscribe_err env p XI_OUT_OF_MEMORY NULL s4
            else do {
              s5 \<leftarrow> update_task p (\<lambda>t. t\<lparr>data_u := NULL\<rparr>) s4;
              exit_and_finalize env p s5 } } }
      | _ \<Rightarrow> None) }"

definition subscribe_confirmed ::
    "('f, 'z) logic_environment \<Rightarrow> addr \<Rightarrow> xi_state \<Rightarrow> addr \<Rightarrow> ('f, 'z) xi_logic_scheme \<Rightarrow> ('f, 'z) logic_result"
where
  "subscribe_confirmed env p st msg s = do {
     (st1, s1) \<leftarrow> (if st = XI_STATE_TIMEOUT
                  then do { xi_assert (handles s p = NULL); Some (XI_STATE_RESEND, s) }
                  else do { s1 \<leftarrow> cancel_task_timeout p s; Some (st, s1) });
     xi_assert (handles s1 p = NULL);
     if st1 = XI_STATE_RESEND then subscribe_send env p st1 s1
     else if st1 \<noteq> XI_STATE_OK then subscribe_err env p st1 msg s1
     else do {
       m \<leftarrow> deref_message s1 msg;
       if msg_type m \<noteq> XI_MQTT_TYPE_SUBACK
       then subscribe_err env p XI_MQTT_LOGIC_WRONG_MESSAGE_RECEIVED msg s1
       else subscribe_acknowledged env p msg s1 } }"

definition do_mqtt_subscribe ::
    "('f, 'z) logic_environment \<Rightarrow> addr \<Rightarrow> addr \<Rightarrow> xi_state \<Rightarrow> addr \<Rightarrow> ('f, 'z) xi_logic_scheme
       \<Rightarrow> ('f, 'z) logic_result" where
  "do_mqtt_subscribe env ctx p st msg s = do {
     xi_assert (p \<noteq> NULL);
     _ \<leftarrow> xi_context s ctx;
     if user_data s = NULL
     then do {
       s1 \<leftarrow> cancel_task_timeout p s;
       s2 \<leftarrow> free_message msg s1;
       Some (XI_STATE_OK, s2) }
     else do {
       task \<leftarrow> deref_task s p;
       if task_cs task = 63 then subscribe_written env ctx p st msg s
       else if task_cs task = 87
       then do {
         xi_assert (handles s p = NULL);
         xi_assert (st = XI_STATE_RESEND);
         subscribe_send env p st s }
       else if task_cs task = 111 then subscribe_confirmed env p st msg s
       else subscribe_send env p st s } }"

section \<open>Keeping the connection alive\<close>

definition keepalive_err ::
    "('f, 'z) logic_environment \<Rightarrow> addr \<Rightarrow> xi_state \<Rightarrow> addr \<Rightarrow> ('f, 'z) xi_logic_scheme \<Rightarrow> ('f, 'z) logic_result"
where
  "keepalive_err env p st msg s = do {
     s1 \<leftarrow> free_message msg s;
     s2 \<leftarrow> set_task_cs 2 p s1;
     (_, s3) \<leftarrow> xi_mqtt_logic_layer_finalize_task env p s2;
     Some (st, s3) }"

definition do_reconnect :: "addr \<Rightarrow> xi_state \<Rightarrow> ('f, 'z) xi_logic_scheme \<Rightarrow> xi_state \<times> ('f, 'z) xi_logic_scheme"
where
  "do_reconnect dat st s = process_on_prev Close dat st s"

text \<open>The wait for the answer; the timer calls \<open>do_mqtt_keepalive_once\<close> with the layer's context.\<close>

definition start_keepalive_timer ::
    "addr \<Rightarrow> ('f, 'z) xi_logic_scheme \<Rightarrow> ('f, 'z) logic_result" where
  "start_keepalive_timer ctx s =
     xi_evtd_execute_in s (xi_make_handle_argc1 0 (Other_Fn Do_Mqtt_Keepalive_Once) ctx)
       (uint (keepalive_timeout (connection_data s))) (user_data s)"

definition keepalive_answered ::
    "('f, 'z) logic_environment \<Rightarrow> addr \<Rightarrow> addr \<Rightarrow> xi_state \<Rightarrow> addr \<Rightarrow> ('f, 'z) xi_logic_scheme
       \<Rightarrow> ('f, 'z) logic_result" where
  "keepalive_answered env ctx p st msg s =
     (if st = XI_STATE_TIMEOUT
      then do {
        xi_assert (handles s p = NULL);
        s1 \<leftarrow> set_task_cs 1 p s;
        Some (do_reconnect NULL XI_STATE_TIMEOUT s1) }
      else if st \<noteq> XI_STATE_OK then cancel_task_timeout p s \<bind> exit_and_finalize env p
      else do {
        s1 \<leftarrow> cancel_task_timeout p s;
        m \<leftarrow> deref_message s1 msg;
        if msg_type m \<noteq> XI_MQTT_TYPE_PINGRESP
        then keepalive_err env p XI_MQTT_LOGIC_WRONG_MESSAGE_RECEIVED msg s1
        else do {
          (st1, s2) \<leftarrow> (if connection_state (connection_data s1) = XI_CONNECTION_STATE_OPENED
                       then start_keepalive_timer ctx s1 else Some (st, s1));
          if st1 \<noteq> XI_STATE_OK then keepalive_err env p st1 msg s2
          else do {
            s3 \<leftarrow> free_message msg s2;
            exit_and_finalize env p s3 } } })"

definition do_mqtt_keepalive_task ::
    "('f, 'z) logic_environment \<Rightarrow> addr \<Rightarrow> addr \<Rightarrow> xi_state \<Rightarrow> addr \<Rightarrow> ('f, 'z) xi_logic_scheme
       \<Rightarrow> ('f, 'z) logic_result" where
  "do_mqtt_keepalive_task env ctx p st msg s = do {
     _ \<leftarrow> xi_context s ctx;
     if user_data s = NULL then do { s1 \<leftarrow> free_message msg s; Some (XI_STATE_OK, s1) }
     else do {
       task \<leftarrow> deref_task s p;
       if task_cs task = 75
       then do {
         xi_assert (handles s p = NULL);
         (st1, s1) \<leftarrow> xi_evtd_execute_in s (logic_handle4 On_Keepalive_Timeout_Expiry ctx p st msg)
                       (uint (keepalive_timeout (connection_data s))) p;
         if st1 \<noteq> XI_STATE_OK then keepalive_err env p st1 msg s1
         else do { s2 \<leftarrow> set_task_cs 100 p s1; Some (XI_STATE_OK, s2) } }
       else if task_cs task = 100 then keepalive_answered env ctx p st msg s
       else send_message (plain_fill fill_with_pingreq_data) no_mid (keepalive_err env p) 75 p s } }"

definition on_keepalive_timeout_expiry ::
    "('f, 'z) logic_environment \<Rightarrow> addr \<Rightarrow> addr \<Rightarrow> xi_state \<Rightarrow> addr \<Rightarrow> ('f, 'z) xi_logic_scheme
       \<Rightarrow> ('f, 'z) logic_result" where
  "on_keepalive_timeout_expiry env ctx p st msg s = do {
     (_, s1) \<leftarrow> do_mqtt_keepalive_task env ctx p XI_STATE_TIMEOUT msg s;
     Some (XI_STATE_OK, s1) }"

section \<open>Shutting down\<close>

definition xi_mqtt_logic_layer_close ::
    "addr \<Rightarrow> addr \<Rightarrow> xi_state \<Rightarrow> ('f, 'z) xi_logic_scheme \<Rightarrow> ('f, 'z) logic_result" where
  "xi_mqtt_logic_layer_close ctx dat st s = do {
     _ \<leftarrow> xi_context s ctx;
     Some (if user_data s = NULL then process_on_this Close_Externally dat st s
           else process_on_prev Close dat st s) }"

definition do_shutdown ::
    "('f, 'z) logic_environment \<Rightarrow> addr \<Rightarrow> addr \<Rightarrow> xi_state \<Rightarrow> addr \<Rightarrow> ('f, 'z) xi_logic_scheme
       \<Rightarrow> ('f, 'z) logic_result" where
  "do_shutdown env ctx p st msg s = do {
     _ \<leftarrow> xi_context s ctx;
     if user_data s = NULL then do { s1 \<leftarrow> free_message msg s; Some (XI_STATE_OK, s1) }
     else do {
       task \<leftarrow> deref_task s p;
       if task_cs task = 56
       then do {
         s1 \<leftarrow> update_task p (\<lambda>t. t\<lparr>data_u := NULL\<rparr>) (s\<lparr>tmem := xi_free (data_u task) (tmem s)\<rparr>);
         (_, s2) \<leftarrow> xi_mqtt_logic_layer_close ctx NULL XI_STATE_OK s1;
         exit_and_finalize env p s2 }
       else send_message (plain_fill fill_with_disconnect_data) no_mid (\<lambda>st _ s. Some (st, s)) 56 p s } }"

end
