(* ===== verification/Mqtt_Logic_Layer.thy ===== *)
theory Mqtt_Logic_Layer
  imports Mqtt_Logic_Coroutines
begin

text \<open>
  \<open>src/libxively/mqtt/logic/\<close>: connecting (\<open>xi_mqtt_logic_layer_connect_command.h\<close>), received
  publications (\<open>xi_mqtt_logic_layer_publish_handler.h\<close>), the functions of the layer
  (\<open>xi_mqtt_logic_layer.c\<close>) and the environment in which its handles run.
\<close>

section \<open>Connecting\<close>

definition cancel_io_timeout :: "addr \<Rightarrow> ('f, 'z) xi_logic_scheme \<Rightarrow> ('f, 'z) xi_logic_scheme option" where
  "cancel_io_timeout p s =
     (if handles s p \<noteq> NULL
      then do {
        (v, s1) \<leftarrow> xi_io_timeouts_cancel s p (io_timeouts s);
        let s2 = s1\<lparr>io_timeouts := v\<rparr>;
        xi_assert (handles s2 p = NULL);
        Some s2 }
      else Some s)"

definition connect_err ::
    "('f, 'z) logic_environment \<Rightarrow> addr \<Rightarrow> xi_state \<Rightarrow> addr \<Rightarrow> ('f, 'z) xi_logic_scheme \<Rightarrow> ('f, 'z) logic_result"
where
  "connect_err env p st msg s = free_message msg s \<bind> cancel_io_timeout p \<bind> exit_and_finalize env p"

definition connect_fill :: "xi_connection_data \<Rightarrow> xi_mqtt_message \<Rightarrow> xi_memory \<Rightarrow> filled" where
  "connect_fill c msg m = fill_with_connect_data msg (conn_username c) (conn_password c) (keepalive_timeout c)
     (session_type c) (conn_will_topic c) (conn_will_message c) (will_qos c) (will_retain c) m"

definition connect_timer :: "addr \<Rightarrow> addr \<Rightarrow> ('f, 'z) xi_logic_scheme \<Rightarrow> ('f, 'z) logic_result" where
  "connect_timer ctx p s =
     (if connection_timeout (connection_data s) > 0
      then do {
        (st, v, s1) \<leftarrow> xi_io_timeouts_create s (xi_make_handle_argc2 0 (Other_Fn Do_Mqtt_Connect_Timeout) ctx p)
                        (uint (connection_timeout (connection_data s))) (io_timeouts s) p;
        Some (st, s1\<lparr>io_timeouts := v\<rparr>) }
      else do { xi_assert (handles s p = NULL); Some (XI_STATE_OK, s) })"

definition connect_answered ::
    "('f, 'z) logic_environment \<Rightarrow> addr \<Rightarrow> addr \<Rightarrow> xi_state \<Rightarrow> addr \<Rightarrow> ('f, 'z) xi_logic_scheme
       \<Rightarrow> ('f, 'z) logic_result" where
  "connect_answered env ctx p st msg s = do {
     m \<leftarrow> deref_message s msg;
     if msg_type m = XI_MQTT_TYPE_CONNACK
     then do {
       s1 \<leftarrow> cancel_io_timeout p s;
       if return_code m = 0
       then do {
         s2 \<leftarrow> free_message msg s1;
         (st1, s3) \<leftarrow> (if keepalive_timeout (connection_data s2) > 0 then start_keepalive_timer ctx s2
                      else Some (st, s2));
         if keepalive_timeout (connection_data s2) > 0 \<and> st1 \<noteq> XI_STATE_OK then connect_err env p st1 NULL s3
         else do {
           let s4 = s3\<lparr>connection_data := (connection_data s3)\<lparr>connection_state := XI_CONNECTION_STATE_OPENED\<rparr>\<rparr>;
           exit_and_finalize env p (snd (process_on_next Connect_Layer p st1 s4)) } }
       else do {
         let s2 = snd (process_on_next Connect_Layer p (get_error_from_connack (uint (return_code m))) s1);
         s3 \<leftarrow> free_message msg s2;
         s4 \<leftarrow> cancel_io_timeout p s3;
         exit_and_finalize env p s4 } }
     else connect_err env p st msg s }"

definition do_mqtt_connect ::
    "('f, 'z) logic_environment \<Rightarrow> addr \<Rightarrow> addr \<Rightarrow> xi_state \<Rightarrow> addr \<Rightarrow> ('f, 'z) xi_logic_scheme
       \<Rightarrow> ('f, 'z) logic_result" where
  "do_mqtt_connect env ctx p st msg s = do {
     _ \<leftarrow> xi_context s ctx;
     if shut_down s
     then do {
       s1 \<leftarrow> free_message msg s;
       s2 \<leftarrow> cancel_task_timeout p s1;
       s3 \<leftarrow> set_task_cs 1 p s2;
       Some (XI_STATE_OK, s3) }
     else do {
       task \<leftarrow> deref_task s p;
       if task_cs task = 121
       then
         if st = XI_STATE_WRITTEN then do { s1 \<leftarrow> set_task_cs 137 p s; Some (XI_STATE_OK, s1) }
         else connect_err env p st msg (snd (process_on_next Connect_Layer p st s))
       else if task_cs task = 137 then connect_answered env ctx p st msg s
       else send_message (connect_fill (connection_data s)) (connect_timer ctx p) (connect_err env p) 121 p s } }"

definition do_mqtt_connect_timeout ::
    "('f, 'z) logic_environment \<Rightarrow> addr \<Rightarrow> addr \<Rightarrow> ('f, 'z) xi_logic_scheme \<Rightarrow> ('f, 'z) logic_result" where
  "do_mqtt_connect_timeout env ctx p s = do {
     _ \<leftarrow> xi_context s ctx;
     _ \<leftarrow> deref_task s p;
     v \<leftarrow> xi_io_timeouts_remove p (io_timeouts s);
     xi_assert (handles s p = NULL);
     exit_and_finalize env p (snd (process_on_next Connect_Layer p XI_STATE_TIMEOUT (s\<lparr>io_timeouts := v\<rparr>))) }"

section \<open>Received publications\<close>

definition compare_subscription :: "('f, 'z) xi_logic_scheme \<Rightarrow> addr \<Rightarrow> xi_data_desc \<Rightarrow> int option" where
  "compare_subscription s e name = do {
     d \<leftarrow> deref_data s e;
     (case d of
        Subscribe_Data topic handler qos \<Rightarrow> do { t \<leftarrow> topic; cmp_topics (snd t) name }
      | _ \<Rightarrow> None) }"

text \<open>The handler is executed through the dispatcher; a failure to post it is not noticed.\<close>

definition call_topic_handler :: "addr \<Rightarrow> ('f, 'z) xi_logic_scheme \<Rightarrow> ('f, 'z) xi_logic_scheme option" where
  "call_topic_handler msg s = do {
     m \<leftarrow> deref_message s msg;
     v \<leftarrow> handlers_for_topics (layer_data s);
     name \<leftarrow> topic_name m;
     index \<leftarrow> xi_vector_find v name (compare_subscription s);
     if index \<noteq> -1
     then do {
       e \<leftarrow> arr_get (array v) index;
       d \<leftarrow> deref_data s e;
       (case d of
          Subscribe_Data topic handler qos \<Rightarrow> do {
            let handler1 = handler\<lparr>handlers := put_a3 XI_STATE_OK (put_a2 msg (handlers handler))\<rparr>;
            Some (snd (xi_evtd_execute (s\<lparr>task_data := (task_data s)(e := Subscribe_Data topic handler1 qos)\<rparr>) handler1)) }
        | _ \<Rightarrow> None) }
     else free_message msg s }"

definition on_publish_q0_recieved ::
    "addr \<Rightarrow> addr \<Rightarrow> ('f, 'z) xi_logic_scheme \<Rightarrow> ('f, 'z) logic_result" where
  "on_publish_q0_recieved ctx msg s = do {
     _ \<leftarrow> xi_context s ctx;
     s1 \<leftarrow> (if user_data s = NULL then free_message msg s else call_topic_handler msg s);
     Some (XI_STATE_OK, s1) }"

text \<open>
  The acknowledgement of a received message: it is sent again until it is written, then the
  message, the handle's fourth argument, goes to the topic's handler.
\<close>

definition puback_err :: "addr \<Rightarrow> xi_state \<Rightarrow> addr \<Rightarrow> ('f, 'z) xi_logic_scheme \<Rightarrow> ('f, 'z) logic_result" where
  "puback_err p st msg s = do {
     s1 \<leftarrow> free_message msg s;
     s2 \<leftarrow> (if p \<noteq> NULL then set_task_cs 2 p s1 else Some s1);
     Some (st, s2) }"

definition puback_send :: "addr \<Rightarrow> ('f, 'z) xi_logic_scheme \<Rightarrow> ('f, 'z) logic_result" where
  "puback_send p s = do {
     task \<leftarrow> deref_task s p;
     send_message (plain_fill (\<lambda>m. fill_with_puback_data m (msg_id task))) no_mid (puback_err p) 162 p s }"

definition register_puback_task ::
    "addr \<Rightarrow> addr \<Rightarrow> ('f, 'z) xi_logic_scheme \<Rightarrow> (addr \<times> ('f, 'z) xi_logic_scheme) option" where
  "register_puback_task ctx msg s = do {
     m \<leftarrow> deref_message s msg;
     let (p, s1) = alloc_task s;
     if p = NULL then Some (NULL, s1)
     else do {
       s2 \<leftarrow> update_task p (\<lambda>t. t\<lparr>scenario := XI_MQTT_PUBACK, task_qos := XI_MQTT_QOS_AT_LEAST_ONCE,
               logic := logic_handle4 On_Publish_Q1_Recieved ctx p XI_STATE_OK msg, msg_id := message_id m\<rparr>) s1;
       test_task \<leftarrow> find_task s2 (q12_recv_tasks_queue (layer_data s2)) (message_id m);
       xi_assert (test_task = NULL);
       Some (p, s2\<lparr>layer_data := (layer_data s2)\<lparr>q12_recv_tasks_queue :=
           q12_recv_tasks_queue (layer_data s2) @ [p]\<rparr>\<rparr>) } }"

definition on_publish_q1_recieved ::
    "addr \<Rightarrow> addr \<Rightarrow> xi_state \<Rightarrow> addr \<Rightarrow> ('f, 'z) xi_logic_scheme \<Rightarrow> ('f, 'z) logic_result" where
  "on_publish_q1_recieved ctx p0 st msg s = do {
     _ \<leftarrow> xi_context s ctx;
     if shut_down s then puback_err p0 st msg s
     else do {
       (p, s1) \<leftarrow> (if p0 = NULL then register_puback_task ctx msg s else Some (p0, s));
       if p = NULL then puback_err NULL XI_OUT_OF_MEMORY msg s1
       else do {
         task \<leftarrow> deref_task s1 p;
         if task_cs task = 162
         then
           if st \<noteq> XI_STATE_WRITTEN then puback_send p s1
           else do {
             s2 \<leftarrow> xi_mqtt_logic_free_task p (s1\<lparr>layer_data := (layer_data s1)\<lparr>q12_recv_tasks_queue :=
                     remove1 p (q12_recv_tasks_queue (layer_data s1))\<rparr>\<rparr>);
             s3 \<leftarrow> call_topic_handler msg s2;
             Some (XI_STATE_OK, s3) }
         else do { xi_assert (msg \<noteq> NULL); puback_send p s1 } } } }"

definition on_publish_recieved ::
    "addr \<Rightarrow> addr \<Rightarrow> xi_state \<Rightarrow> ('f, 'z) xi_logic_scheme \<Rightarrow> ('f, 'z) logic_result" where
  "on_publish_recieved ctx msg st s = do {
     _ \<leftarrow> xi_context s ctx;
     if user_data s = NULL then do { s1 \<leftarrow> free_message msg s; Some (XI_STATE_OK, s1) }
     else do {
       m \<leftarrow> deref_message s msg;
       if msg_qos m = 0 then on_publish_q0_recieved ctx msg s
       else if msg_qos m = 1 then on_publish_q1_recieved ctx NULL st msg s
       else Some (XI_STATE_OK, s) } }"

section \<open>Pushing and pulling\<close>

text \<open>
  What is pushed is a task of the application or, from the codec layer, the confirmation that
  a packet was written or not: its identifier and its type.
\<close>

definition push_err :: "addr \<Rightarrow> xi_state \<Rightarrow> ('f, 'z) xi_logic_scheme \<Rightarrow> ('f, 'z) logic_result" where
  "push_err dat st s =
     (if st = XI_STATE_WRITTEN \<or> st = XI_STATE_FAILED_WRITING
      then Some (st, s\<lparr>tmem := xi_free dat (tmem s)\<rparr>)
      else do { s1 \<leftarrow> xi_mqtt_logic_free_task dat s; Some (st, s1) })"

definition deref_written :: "('f, 'z) xi_logic_scheme \<Rightarrow> addr \<Rightarrow> (16 word \<times> nat) option" where
  "deref_written s p = (if live s p then Some (written_data s p) else None)"

text \<open>
  The tuple is freed before the task is looked up. Where the code jumps to \<open>err_handling\<close> from
  here it frees the tuple again, or takes it for a task: such a jump has no defined result.
\<close>

definition push_confirmation ::
    "('f, 'z) logic_environment \<Rightarrow> addr \<Rightarrow> xi_state \<Rightarrow> ('f, 'z) xi_logic_scheme \<Rightarrow> ('f, 'z) logic_result" where
  "push_confirmation env dat st s = do {
     (ident, ty) \<leftarrow> deref_written s dat;
     let s1 = s\<lparr>tmem := xi_free dat (tmem s)\<rparr>;
     p \<leftarrow> (if ident = 0 then Some (current_q0_task (layer_data s1))
           else case xi_mqtt_class_msg_type_sending ty of
                  XI_MQTT_MESSAGE_CLASS_FROM_SERVER \<Rightarrow> find_task s1 (q12_recv_tasks_queue (layer_data s1)) ident
                | XI_MQTT_MESSAGE_CLASS_TO_SERVER \<Rightarrow> find_task s1 (q12_tasks_queue (layer_data s1)) ident
                | XI_MQTT_MESSAGE_CLASS_UNKNOWN \<Rightarrow> None);
     s2 \<leftarrow> (if st = XI_STATE_WRITTEN \<and> handles s1 (user_data s1) \<noteq> NULL
            then do {
              (local_state, s2) \<leftarrow> xi_evtd_restart s1 (user_data s1)
                                   (uint (keepalive_timeout (connection_data s1)));
              xi_assert (local_state = XI_STATE_OK);
              Some s2 }
            else Some s1);
     if p \<noteq> NULL then update_task p (put_logic (put_a3 st)) s2 \<bind> execute_task env p
     else Some (XI_MQTT_LOGIC_UNKNOWN_TASK_ID, s2) }"

definition xi_mqtt_logic_layer_push ::
    "('f, 'z) logic_environment \<Rightarrow> addr \<Rightarrow> addr \<Rightarrow> xi_state \<Rightarrow> ('f, 'z) xi_logic_scheme
       \<Rightarrow> ('f, 'z) logic_result" where
  "xi_mqtt_logic_layer_push env ctx dat st s = do {
     _ \<leftarrow> xi_context s ctx;
     if shut_down s then push_err dat st s
     else if xi_backoff_classify_state st = XI_BACKOFF_CLASS_TERMINAL
     then push_err dat st (snd (process_on_this Close NULL XI_BACKOFF_TERMINAL s))
     else if st = XI_STATE_WRITTEN \<or> st = XI_STATE_FAILED_WRITING then push_confirmation env dat st s
     else do {
       task \<leftarrow> deref_task s dat;
       let run = (\<lambda>fn. do {
             s1 \<leftarrow> update_task dat (\<lambda>t. t\<lparr>logic := logic_handle4 fn ctx dat XI_STATE_OK NULL\<rparr>) s;
             (_, s2) \<leftarrow> run_task env dat s1;
             Some (XI_STATE_OK, s2) });
       (case scenario task of
          XI_MQTT_CONNECT \<Rightarrow> run Do_Mqtt_Connect
        | XI_MQTT_PUBLISH \<Rightarrow>
            (case task_qos task of
               XI_MQTT_QOS_AT_MOST_ONCE \<Rightarrow> run Do_Mqtt_Publish_Q0
             | XI_MQTT_QOS_AT_LEAST_ONCE \<Rightarrow> run Do_Mqtt_Publish_Q1
             | XI_MQTT_QOS_EXACTLY_ONCE \<Rightarrow> do {
                 s1 \<leftarrow> (if data_u task \<noteq> NULL then xi_mqtt_logic_free_task_data dat s else Some s);
                 (_, s2) \<leftarrow> run_task env dat s1;
                 Some (XI_STATE_OK, s2) })
        | XI_MQTT_SUBSCRIBE \<Rightarrow> run Do_Mqtt_Subscribe
        | XI_MQTT_KEEPALIVE \<Rightarrow> run Do_Mqtt_Keepalive_Task
        | XI_MQTT_SHUTDOWN \<Rightarrow> do {
            shutting_down \<leftarrow> (if current_q0_task (layer_data s) \<noteq> NULL
               then map_option (\<lambda>t. scenario t = XI_MQTT_SHUTDOWN) (deref_task s (current_q0_task (layer_data s)))
               else Some False);
            if shutting_down then do { s1 \<leftarrow> xi_mqtt_logic_free_task dat s; Some (XI_STATE_OK, s1) }
            else run Do_Shutdown }
        | XI_MQTT_PUBACK \<Rightarrow> Some (XI_MQTT_LOGIC_WRONG_SCENARIO_TYPE, s)) } }"

definition pull_err :: "addr \<Rightarrow> xi_state \<Rightarrow> ('f, 'z) xi_logic_scheme \<Rightarrow> ('f, 'z) logic_result" where
  "pull_err msg st s = do { s1 \<leftarrow> free_message msg s; Some (st, s1) }"

text \<open>A message other than a publication resumes the task it belongs to.\<close>

definition resume_with_message ::
    "('f, 'z) logic_environment \<Rightarrow> addr \<Rightarrow> addr \<Rightarrow> xi_state \<Rightarrow> ('f, 'z) xi_logic_scheme \<Rightarrow> ('f, 'z) logic_result"
where
  "resume_with_message env p msg st s =
     update_task p (put_logic (\<lambda>h. put_a4 msg (put_a3 st h))) s \<bind> execute_task env p"

definition xi_mqtt_logic_layer_pull ::
    "('f, 'z) logic_environment \<Rightarrow> addr \<Rightarrow> addr \<Rightarrow> xi_state \<Rightarrow> ('f, 'z) xi_logic_scheme
       \<Rightarrow> ('f, 'z) logic_result" where
  "xi_mqtt_logic_layer_pull env ctx msg st s = do {
     _ \<leftarrow> xi_context s ctx;
     if shut_down s then pull_err msg st s
     else do {
       (cls, s1) \<leftarrow> xi_update_backoff_penalty s st;
       if cls = XI_BACKOFF_CLASS_TERMINAL
       then pull_err msg st (snd (process_on_this Close NULL XI_BACKOFF_TERMINAL s1))
       else if st \<noteq> XI_STATE_OK then pull_err msg st s1
       else do {
         m \<leftarrow> deref_message s1 msg;
         let ident = xi_mqtt_get_message_id m;
         if msg_type m = XI_MQTT_TYPE_PUBLISH then on_publish_recieved ctx msg XI_STATE_OK s1
         else if ident > 0
         then
           (case xi_mqtt_class_msg_type_receiving (msg_type m) of
              XI_MQTT_MESSAGE_CLASS_UNKNOWN \<Rightarrow> pull_err msg XI_MQTT_MESSAGE_CLASS_UNKNOWN_ERROR s1
            | cls \<Rightarrow> do {
                p \<leftarrow> find_task s1 (if cls = XI_MQTT_MESSAGE_CLASS_FROM_SERVER
                       then q12_recv_tasks_queue (layer_data s1) else q12_tasks_queue (layer_data s1)) ident;
                if p \<noteq> NULL then resume_with_message env p msg st s1
                else pull_err msg XI_MQTT_UNKNOWN_MESSAGE_ID s1 })
         else do {
           task \<leftarrow> deref_task s1 (current_q0_task (layer_data s1));
           xi_assert (handlers (logic task) \<noteq> XI_EVENT_HANDLE_UNSET);
           resume_with_message env (current_q0_task (layer_data s1)) msg st s1 } } } }"

section \<open>Opening and closing\<close>

definition xi_mqtt_logic_task_queue_shutdown ::
    "addr list \<Rightarrow> ('f, 'z) xi_logic_scheme \<Rightarrow> ('f, 'z) xi_logic_scheme option" where
  "xi_mqtt_logic_task_queue_shutdown =
     fold_option (\<lambda>p s. do {
       xi_assert (p \<noteq> NULL);
       xi_assert (handles s p = NULL);
       xi_mqtt_logic_free_task p s })"

text \<open>\<open>xi_vector_for_each\<close> with the destructor of subscriptions, then \<open>xi_vector_destroy\<close>.\<close>

definition free_subscriptions ::
    "addr xi_vector \<Rightarrow> ('f, 'z) xi_logic_scheme \<Rightarrow> ('f, 'z) xi_logic_scheme option" where
  "free_subscriptions v s = do {
     s1 \<leftarrow> xi_vector_for_each v xi_mqtt_task_spec_data_free_subscribe_data 0 s;
     m \<leftarrow> xi_vector_destroy v (tmem s1);
     Some (s1\<lparr>tmem := m\<rparr>) }"

definition zero_layer_data :: xi_mqtt_logic_layer_data where
  "zero_layer_data = \<lparr>q12_tasks_queue = [], q12_recv_tasks_queue = [], q0_tasks_queue = [],
     current_q0_task = NULL, handlers_for_topics = None, last_msg_id = 0\<rparr>"

definition alloc_layer_data :: "('f, 'z) xi_logic_scheme \<Rightarrow> addr \<times> ('f, 'z) xi_logic_scheme" where
  "alloc_layer_data s =
     (let (p, m) = xi_alloc sizeof_xi_mqtt_logic_layer_data (tmem s)
      in if p = NULL then (NULL, s\<lparr>tmem := m, user_data := NULL\<rparr>)
         else (p, s\<lparr>handles := (handles s)(p := NULL), tmem := m, user_data := p, layer_data := zero_layer_data\<rparr>))"

text \<open>What a continued session gets back, and what a clean one throws away.\<close>

definition restore_session :: "('f, 'z) xi_logic_scheme \<Rightarrow> ('f, 'z) xi_logic_scheme" where
  "restore_session s = s\<lparr>
     layer_data := (layer_data s)\<lparr>handlers_for_topics := copy_of_handlers_for_topics s,
       q12_tasks_queue := copy_of_q12_unacked_messages_queue s, last_msg_id := copy_of_last_msg_id s\<rparr>,
     copy_of_handlers_for_topics := None, copy_of_q12_unacked_messages_queue := [],
     copy_of_last_msg_id := 0\<rparr>"

definition discard_session :: "('f, 'z) xi_logic_scheme \<Rightarrow> ('f, 'z) xi_logic_scheme option" where
  "discard_session s = do {
     s1 \<leftarrow> (case copy_of_handlers_for_topics s of
              None \<Rightarrow> Some s
            | Some v \<Rightarrow> do {
                s1 \<leftarrow> free_subscriptions v s;
                Some (s1\<lparr>copy_of_handlers_for_topics := None\<rparr>) });
     s2 \<leftarrow> xi_mqtt_logic_task_queue_shutdown (copy_of_q12_unacked_messages_queue s1) s1;
     Some (s2\<lparr>copy_of_q12_unacked_messages_queue := []\<rparr>) }"

definition xi_mqtt_logic_layer_init ::
    "addr \<Rightarrow> addr \<Rightarrow> xi_state \<Rightarrow> ('f, 'z) xi_logic_scheme \<Rightarrow> ('f, 'z) logic_result" where
  "xi_mqtt_logic_layer_init ctx dat st s = do {
     _ \<leftarrow> xi_context s ctx;
     let (p, s1) = (if user_data s = NULL then alloc_layer_data s else (user_data s, s));
     if p = NULL then Some (XI_OUT_OF_MEMORY, s1)
     else do {
       s2 \<leftarrow> (if session_type (connection_data s1) = XI_SESSION_CONTINUE then Some (restore_session s1)
              else discard_session s1);
       (s3, ok) \<leftarrow> (case handlers_for_topics (layer_data s2) of
                     Some _ \<Rightarrow> Some (s2, True)
                   | None \<Rightarrow> do {
                       (v, m) \<leftarrow> xi_vector_create (tmem s2);
                       Some (s2\<lparr>tmem := m, layer_data := (layer_data s2)\<lparr>handlers_for_topics := v\<rparr>\<rparr>, v \<noteq> None) });
       if ok
       then Some (process_on_prev Init dat st
              (s3\<lparr>connection_data := (connection_data s3)\<lparr>connection_state := XI_CONNECTION_STATE_OPENING\<rparr>\<rparr>))
       else Some (XI_OUT_OF_MEMORY, s3\<lparr>tmem := xi_free (user_data s3) (tmem s3), user_data := NULL\<rparr>) } }"

definition xi_mqtt_logic_layer_connect ::
    "('f, 'z) logic_environment \<Rightarrow> addr \<Rightarrow> addr \<Rightarrow> xi_state \<Rightarrow> ('f, 'z) xi_logic_scheme
       \<Rightarrow> ('f, 'z) logic_result" where
  "xi_mqtt_logic_layer_connect env ctx dat st s = do {
     _ \<leftarrow> xi_context s ctx;
     if st \<noteq> XI_STATE_OK then Some (process_on_next Connect_Layer dat st s)
     else do {
       let (p, s1) = alloc_task s;
       if p = NULL then Some (XI_OUT_OF_MEMORY, s1)
       else do {
         s2 \<leftarrow> update_task p (\<lambda>t. t\<lparr>scenario := XI_MQTT_CONNECT, task_qos := XI_MQTT_QOS_AT_MOST_ONCE,
                 priority := XI_MQTT_LOGIC_TASK_IMMEDIATE\<rparr>) s1;
         xi_mqtt_logic_layer_push env ctx p XI_STATE_OK s2 } } }"

definition do_mqtt_keepalive_once ::
    "('f, 'z) logic_environment \<Rightarrow> addr \<Rightarrow> ('f, 'z) xi_logic_scheme \<Rightarrow> ('f, 'z) logic_result" where
  "do_mqtt_keepalive_once env ctx s = do {
     _ \<leftarrow> xi_context s ctx;
     if user_data s = NULL then Some (XI_STATE_OK, s)
     else do {
       let (p, s1) = alloc_task (s\<lparr>handles := (handles s)(user_data s := NULL)\<rparr>);
       if p = NULL then Some (XI_OUT_OF_MEMORY, s1)
       else do {
         s2 \<leftarrow> update_task p (\<lambda>t. t\<lparr>scenario := XI_MQTT_KEEPALIVE, task_qos := XI_MQTT_QOS_AT_MOST_ONCE\<rparr>) s1;
         xi_mqtt_logic_layer_push env ctx p XI_STATE_OK s2 } } }"

definition xi_layer_default_post_connect ::
    "addr \<Rightarrow> xi_state \<Rightarrow> ('f, 'z) xi_logic_scheme \<Rightarrow> xi_state \<times> ('f, 'z) xi_logic_scheme" where
  "xi_layer_default_post_connect dat st s =
     (if user_data s = NULL then (st, s) else (st, snd (process_on_prev Post_Connect dat st s)))"

definition xi_mqtt_logic_layer_post_connect ::
    "('f, 'z) logic_environment \<Rightarrow> addr \<Rightarrow> addr \<Rightarrow> xi_state \<Rightarrow> ('f, 'z) xi_logic_scheme
       \<Rightarrow> ('f, 'z) logic_result" where
  "xi_mqtt_logic_layer_post_connect env ctx dat st s = do {
     _ \<leftarrow> xi_context s ctx;
     if user_data s = NULL then Some (st, s)
     else do {
       s1 \<leftarrow> fold_option (set_new_context_and_call_resend env ctx) (q12_tasks_queue (layer_data s)) s;
       Some (xi_layer_default_post_connect dat st s1) } }"

definition xi_mqtt_logic_layer_task_should_be_stored_predicate :: "('f, 'z) xi_logic_scheme \<Rightarrow> addr \<Rightarrow> bool" where
  "xi_mqtt_logic_layer_task_should_be_stored_predicate s p \<longleftrightarrow>
     session_state (logic_tasks s p) = XI_MQTT_LOGIC_TASK_SESSION_STORE"

text \<open>What a continued session keeps: the identifiers, the subscriptions and the unacknowledged tasks.\<close>

definition store_session :: "('f, 'z) xi_logic_scheme \<Rightarrow> ('f, 'z) xi_logic_scheme option" where
  "store_session s = do {
     let s1 = s\<lparr>copy_of_last_msg_id := last_msg_id (layer_data s)\<rparr>;
     s2 \<leftarrow> (case handlers_for_topics (layer_data s1) of
              None \<Rightarrow> Some s1
            | Some v \<Rightarrow>
                if elem_no v > 0
                then do {
                  xi_assert (copy_of_handlers_for_topics s1 = None);
                  Some (s1\<lparr>copy_of_handlers_for_topics := Some v,
                          layer_data := (layer_data s1)\<lparr>handlers_for_topics := None\<rparr>\<rparr>) }
                else Some s1);
     _ \<leftarrow> fold_option (\<lambda>p _. map_option (\<lambda>_. ()) (deref_task s2 p)) (q12_tasks_queue (layer_data s2)) ();
     let keep = xi_mqtt_logic_layer_task_should_be_stored_predicate s2;
     let unacked = filter keep (q12_tasks_queue (layer_data s2));
     fold_option (\<lambda>p. update_task p (put_logic (put_a1 NULL))) unacked
       (s2\<lparr>layer_data := (layer_data s2)\<lparr>q12_tasks_queue := filter (\<lambda>p. \<not> keep p) (q12_tasks_queue (layer_data s2))\<rparr>,
           copy_of_q12_unacked_messages_queue := unacked\<rparr>) }"

text \<open>
  The current task of quality of service 0 is resumed with \<open>XI_STATE_TIMEOUT\<close>; whatever task is
  the current one afterwards is freed.
\<close>

definition stop_current_q0 ::
    "('f, 'z) logic_environment \<Rightarrow> ('f, 'z) xi_logic_scheme \<Rightarrow> ('f, 'z) xi_logic_scheme option" where
  "stop_current_q0 env s =
     (if current_q0_task (layer_data s) \<noteq> NULL
      then do {
        s1 \<leftarrow> timeout_task env (current_q0_task (layer_data s)) s;
        s2 \<leftarrow> xi_mqtt_logic_free_task (current_q0_task (layer_data s1)) s1;
        Some (s2\<lparr>layer_data := (layer_data s2)\<lparr>current_q0_task := NULL\<rparr>\<rparr>) }
      else Some s)"

text \<open>The layer's data is freed before the tasks that are left.\<close>

definition free_layer_data ::
    "('f, 'z) xi_logic_scheme \<Rightarrow> ('f, 'z) xi_logic_scheme option" where
  "free_layer_data s = do {
     let d = layer_data s;
     let s1 = s\<lparr>tmem := xi_free (user_data s) (tmem s), user_data := NULL\<rparr>;
     s2 \<leftarrow> xi_mqtt_logic_task_queue_shutdown (q12_tasks_queue d) s1;
     s3 \<leftarrow> xi_mqtt_logic_task_queue_shutdown (q12_recv_tasks_queue d) s2;
     xi_mqtt_logic_task_queue_shutdown (q0_tasks_queue d) s3 }"

definition xi_mqtt_logic_layer_close_externally ::
    "('f, 'z) logic_environment \<Rightarrow> addr \<Rightarrow> addr \<Rightarrow> xi_state \<Rightarrow> ('f, 'z) xi_logic_scheme
       \<Rightarrow> ('f, 'z) logic_result" where
  "xi_mqtt_logic_layer_close_externally env ctx dat st s = do {
     _ \<leftarrow> xi_context s ctx;
     if st \<noteq> XI_STATE_OK \<and> layer_state s = XI_LAYER_STATE_CONNECTING
     then Some (process_on_this Connect_Layer dat st s)
     else if user_data s = NULL then Some (process_on_next Close_Externally dat st s)
     else do {
       (_, s1) \<leftarrow> xi_update_backoff_penalty s st;
       s2 \<leftarrow> fold_option cancel_task_timeout (q12_tasks_queue (layer_data s1)) s1;
       s3 \<leftarrow> fold_option cancel_task_timeout (q12_recv_tasks_queue (layer_data s2)) s2;
       s4 \<leftarrow> (if session_type (connection_data s3) = XI_SESSION_CONTINUE then store_session s3 else Some s3);
       s5 \<leftarrow> (case handlers_for_topics (layer_data s4) of None \<Rightarrow> Some s4 | Some v \<Rightarrow> free_subscriptions v s4);
       s6 \<leftarrow> stop_current_q0 env s5;
       s7 \<leftarrow> (if handles s6 (user_data s6) \<noteq> NULL
              then map_option snd (xi_evtd_cancel s6 (user_data s6)) else Some s6);
       s8 \<leftarrow> free_layer_data s7;
       Some (process_on_next Close_Externally dat st s8) } }"

section \<open>The environment\<close>

text \<open>
  What the dispatcher and \<open>xi_evtd_execute_handle\<close> find behind the function pointers. The tasks
  execute each other's handles, one level for each task that is waiting; \<open>fuel\<close> bounds this depth.
  \<open>outer\<close> is the code behind the pointers to other layers and to the application.
\<close>

definition with_args2 :: "(addr \<Rightarrow> addr \<Rightarrow> 'r option) \<Rightarrow> xi_argument list \<Rightarrow> 'r option" where
  "with_args2 f args = (case args of [Pointer c, Pointer p] \<Rightarrow> f c p | _ \<Rightarrow> None)"

definition with_args3 :: "(addr \<Rightarrow> addr \<Rightarrow> xi_state \<Rightarrow> 'r option) \<Rightarrow> xi_argument list \<Rightarrow> 'r option" where
  "with_args3 f args = (case args of [Pointer c, Pointer p, State st] \<Rightarrow> f c p st | _ \<Rightarrow> None)"

definition with_args4 ::
    "(addr \<Rightarrow> addr \<Rightarrow> xi_state \<Rightarrow> addr \<Rightarrow> 'r option) \<Rightarrow> xi_argument list \<Rightarrow> 'r option" where
  "with_args4 f args = (case args of [Pointer c, Pointer p, State st, Pointer m] \<Rightarrow> f c p st m | _ \<Rightarrow> None)"

definition this_layer_call ::
    "('f, 'z) logic_environment \<Rightarrow> xi_layer_op \<Rightarrow> addr \<Rightarrow> addr \<Rightarrow> xi_state \<Rightarrow> ('f, 'z) xi_logic_scheme
       \<Rightarrow> ('f, 'z) logic_result" where
  "this_layer_call env op c d st s = (case op of
     Push \<Rightarrow> xi_mqtt_logic_layer_push env c d st s
   | Pull \<Rightarrow> xi_mqtt_logic_layer_pull env c d st s
   | Close \<Rightarrow> xi_mqtt_logic_layer_close c d st s
   | Close_Externally \<Rightarrow> xi_mqtt_logic_layer_close_externally env c d st s
   | Init \<Rightarrow> xi_mqtt_logic_layer_init c d st s
   | Connect_Layer \<Rightarrow> xi_mqtt_logic_layer_connect env c d st s
   | Post_Connect \<Rightarrow> xi_mqtt_logic_layer_post_connect env c d st s)"

definition logic_call ::
    "('f, 'z) logic_environment \<Rightarrow> ('f, 'z) logic_environment \<Rightarrow> ('f, 'z) logic_environment" where
  "logic_call env outer fn args s = (case fn of
     Apply_Cooldown \<Rightarrow> xi_apply_cooldown s
   | Other_Fn f \<Rightarrow> (case f of
         Do_Mqtt_Connect \<Rightarrow> with_args4 (\<lambda>c p st m. do_mqtt_connect env c p st m s) args
       | Do_Mqtt_Connect_Timeout \<Rightarrow> with_args2 (\<lambda>c p. do_mqtt_connect_timeout env c p s) args
       | Do_Mqtt_Publish_Q0 \<Rightarrow> with_args4 (\<lambda>c p st m. do_mqtt_publish_q0 env c p st m s) args
       | Do_Mqtt_Publish_Q1 \<Rightarrow> with_args4 (\<lambda>c p st m. do_mqtt_publish_q1 env c p st m s) args
       | Do_Mqtt_Subscribe \<Rightarrow> with_args4 (\<lambda>c p st m. do_mqtt_subscribe env c p st m s) args
       | Do_Mqtt_Keepalive_Once \<Rightarrow> (case args of [Pointer c] \<Rightarrow> do_mqtt_keepalive_once env c s | _ \<Rightarrow> None)
       | Do_Mqtt_Keepalive_Task \<Rightarrow> with_args4 (\<lambda>c p st m. do_mqtt_keepalive_task env c p st m s) args
       | On_Keepalive_Timeout_Expiry \<Rightarrow> with_args4 (\<lambda>c p st m. on_keepalive_timeout_expiry env c p st m s) args
       | Do_Shutdown \<Rightarrow> with_args4 (\<lambda>c p st m. do_shutdown env c p st m s) args
       | On_Publish_Q1_Recieved \<Rightarrow> with_args4 (\<lambda>c p st m. on_publish_q1_recieved c p st m s) args
       | This_Layer op \<Rightarrow> with_args3 (\<lambda>c d st. this_layer_call env op c d st s) args
       | _ \<Rightarrow> outer fn args s))"

fun logic_env :: "nat \<Rightarrow> ('f, 'z) logic_environment \<Rightarrow> ('f, 'z) logic_environment" where
  "logic_env 0 outer fn args s = None"
| "logic_env (Suc fuel) outer fn args s = logic_call (logic_env fuel outer) outer fn args s"

end
