(* ===== verification/Mqtt_Logic_Heap.thy ===== *)
theory Mqtt_Logic_Heap
  imports Mqtt_Logic_Layer
begin

text \<open>
  What the operations of the MQTT logic layer do to its heap: which blocks belong to a message,
  to a task and to its data, what is released with them, and that the dispatcher's invariant
  does not mind.
\<close>

section \<open>The layer's fields and the dispatcher\<close>

lemma tev_ok_logic [simp]:
  fixes s :: "('f, 'z) xi_logic_scheme"
  shows "tev_ok (s\<lparr>layer_context := a\<rparr>) = tev_ok s" "tev_ok (s\<lparr>prev_context := a\<rparr>) = tev_ok s"
    "tev_ok (s\<lparr>next_context := a\<rparr>) = tev_ok s" "tev_ok (s\<lparr>layer_state := ls\<rparr>) = tev_ok s"
    "tev_ok (s\<lparr>user_data := a\<rparr>) = tev_ok s" "tev_ok (s\<lparr>layer_data := ld\<rparr>) = tev_ok s"
    "tev_ok (s\<lparr>io_timeouts := io\<rparr>) = tev_ok s" "tev_ok (s\<lparr>connection_data := cd\<rparr>) = tev_ok s"
    "tev_ok (s\<lparr>copy_of_handlers_for_topics := ch\<rparr>) = tev_ok s" "tev_ok (s\<lparr>copy_of_q12_unacked_messages_queue := cq\<rparr>) = tev_ok s"
    "tev_ok (s\<lparr>copy_of_last_msg_id := cl\<rparr>) = tev_ok s" "tev_ok (s\<lparr>logic_tasks := lt\<rparr>) = tev_ok s"
    "tev_ok (s\<lparr>task_data := td\<rparr>) = tev_ok s" "tev_ok (s\<lparr>mqtt_messages := mm\<rparr>) = tev_ok s"
    "tev_ok (s\<lparr>written_data := wd\<rparr>) = tev_ok s"
  by (rule tev_ok_cong; simp)+

lemma evtd_ok_logic [simp]:
  fixes s :: "('f, 'z) xi_logic_scheme"
  shows "evtd_ok (s\<lparr>layer_context := a\<rparr>) = evtd_ok s" "evtd_ok (s\<lparr>prev_context := a\<rparr>) = evtd_ok s"
    "evtd_ok (s\<lparr>next_context := a\<rparr>) = evtd_ok s" "evtd_ok (s\<lparr>layer_state := ls\<rparr>) = evtd_ok s"
    "evtd_ok (s\<lparr>user_data := a\<rparr>) = evtd_ok s" "evtd_ok (s\<lparr>layer_data := ld\<rparr>) = evtd_ok s"
    "evtd_ok (s\<lparr>io_timeouts := io\<rparr>) = evtd_ok s" "evtd_ok (s\<lparr>connection_data := cd\<rparr>) = evtd_ok s"
    "evtd_ok (s\<lparr>copy_of_handlers_for_topics := ch\<rparr>) = evtd_ok s" "evtd_ok (s\<lparr>copy_of_q12_unacked_messages_queue := cq\<rparr>) = evtd_ok s"
    "evtd_ok (s\<lparr>copy_of_last_msg_id := cl\<rparr>) = evtd_ok s" "evtd_ok (s\<lparr>logic_tasks := lt\<rparr>) = evtd_ok s"
    "evtd_ok (s\<lparr>task_data := td\<rparr>) = evtd_ok s" "evtd_ok (s\<lparr>mqtt_messages := mm\<rparr>) = evtd_ok s"
    "evtd_ok (s\<lparr>written_data := wd\<rparr>) = evtd_ok s"
  by (simp_all add: evtd_ok_def other_blocks_def timer_blocks_def registrations_ok_def
      container_def cong: xi_evtd_fd_type.case_cong)

lemma evtd_blocks_logic [simp]:
  fixes s :: "('f, 'z) xi_logic_scheme"
  shows "evtd_blocks (s\<lparr>layer_state := ls\<rparr>) = evtd_blocks s" "evtd_blocks (s\<lparr>layer_data := ld\<rparr>) = evtd_blocks s"
    "evtd_blocks (s\<lparr>io_timeouts := io\<rparr>) = evtd_blocks s" "evtd_blocks (s\<lparr>connection_data := cd\<rparr>) = evtd_blocks s"
    "evtd_blocks (s\<lparr>logic_tasks := lt\<rparr>) = evtd_blocks s" "evtd_blocks (s\<lparr>task_data := td\<rparr>) = evtd_blocks s"
    "evtd_blocks (s\<lparr>mqtt_messages := mm\<rparr>) = evtd_blocks s"
  by (simp_all add: evtd_blocks_def other_blocks_def timer_blocks_def)

text \<open>Updates of different fields commute; the order of the record is the normal form.\<close>

lemma logic_updates [simp]:
  fixes s :: "('f, 'z) xi_logic_scheme"
  shows "s\<lparr>call_queue := cq, tv := v\<rparr> = s\<lparr>tv := v, call_queue := cq\<rparr>"
    "s\<lparr>call_queue := cq, tevs := e\<rparr> = s\<lparr>tevs := e, call_queue := cq\<rparr>"
    "s\<lparr>call_queue := cq, handles := hs\<rparr> = s\<lparr>handles := hs, call_queue := cq\<rparr>"
    "s\<lparr>call_queue := cq, tmem := m\<rparr> = s\<lparr>tmem := m, call_queue := cq\<rparr>"
    "s\<lparr>layer_state := ls, tv := v\<rparr> = s\<lparr>tv := v, layer_state := ls\<rparr>"
    "s\<lparr>layer_state := ls, tevs := e\<rparr> = s\<lparr>tevs := e, layer_state := ls\<rparr>"
    "s\<lparr>layer_state := ls, handles := hs\<rparr> = s\<lparr>handles := hs, layer_state := ls\<rparr>"
    "s\<lparr>layer_state := ls, tmem := m\<rparr> = s\<lparr>tmem := m, layer_state := ls\<rparr>"
    "s\<lparr>layer_state := ls, call_queue := cq\<rparr> = s\<lparr>call_queue := cq, layer_state := ls\<rparr>"
    "s\<lparr>layer_data := ld, tv := v\<rparr> = s\<lparr>tv := v, layer_data := ld\<rparr>"
    "s\<lparr>layer_data := ld, tevs := e\<rparr> = s\<lparr>tevs := e, layer_data := ld\<rparr>"
    "s\<lparr>layer_data := ld, handles := hs\<rparr> = s\<lparr>handles := hs, layer_data := ld\<rparr>"
    "s\<lparr>layer_data := ld, tmem := m\<rparr> = s\<lparr>tmem := m, layer_data := ld\<rparr>"
    "s\<lparr>layer_data := ld, call_queue := cq\<rparr> = s\<lparr>call_queue := cq, layer_data := ld\<rparr>"
    "s\<lparr>layer_data := ld, layer_state := ls\<rparr> = s\<lparr>layer_state := ls, layer_data := ld\<rparr>"
    "s\<lparr>io_timeouts := io, tv := v\<rparr> = s\<lparr>tv := v, io_timeouts := io\<rparr>"
    "s\<lparr>io_timeouts := io, tevs := e\<rparr> = s\<lparr>tevs := e, io_timeouts := io\<rparr>"
    "s\<lparr>io_timeouts := io, handles := hs\<rparr> = s\<lparr>handles := hs, io_timeouts := io\<rparr>"
    "s\<lparr>io_timeouts := io, tmem := m\<rparr> = s\<lparr>tmem := m, io_timeouts := io\<rparr>"
    "s\<lparr>io_timeouts := io, call_queue := cq\<rparr> = s\<lparr>call_queue := cq, io_timeouts := io\<rparr>"
    "s\<lparr>io_timeouts := io, layer_state := ls\<rparr> = s\<lparr>layer_state := ls, io_timeouts := io\<rparr>"
    "s\<lparr>io_timeouts := io, layer_data := ld\<rparr> = s\<lparr>layer_data := ld, io_timeouts := io\<rparr>"
    "s\<lparr>logic_tasks := lt, tv := v\<rparr> = s\<lparr>tv := v, logic_tasks := lt\<rparr>"
    "s\<lparr>logic_tasks := lt, tevs := e\<rparr> = s\<lparr>tevs := e, logic_tasks := lt\<rparr>"
    "s\<lparr>logic_tasks := lt, handles := hs\<rparr> = s\<lparr>handles := hs, logic_tasks := lt\<rparr>"
    "s\<lparr>logic_tasks := lt, tmem := m\<rparr> = s\<lparr>tmem := m, logic_tasks := lt\<rparr>"
    "s\<lparr>logic_tasks := lt, call_queue := cq\<rparr> = s\<lparr>call_queue := cq, logic_tasks := lt\<rparr>"
    "s\<lparr>logic_tasks := lt, layer_state := ls\<rparr> = s\<lparr>layer_state := ls, logic_tasks := lt\<rparr>"
    "s\<lparr>logic_tasks := lt, layer_data := ld\<rparr> = s\<lparr>layer_data := ld, logic_tasks := lt\<rparr>"
    "s\<lparr>logic_tasks := lt, io_timeouts := io\<rparr> = s\<lparr>io_timeouts := io, logic_tasks := lt\<rparr>"
    "s\<lparr>mqtt_messages := mm, tv := v\<rparr> = s\<lparr>tv := v, mqtt_messages := mm\<rparr>"
    "s\<lparr>mqtt_messages := mm, tevs := e\<rparr> = s\<lparr>tevs := e, mqtt_messages := mm\<rparr>"
    "s\<lparr>mqtt_messages := mm, handles := hs\<rparr> = s\<lparr>handles := hs, mqtt_messages := mm\<rparr>"
    "s\<lparr>mqtt_messages := mm, tmem := m\<rparr> = s\<lparr>tmem := m, mqtt_messages := mm\<rparr>"
    "s\<lparr>mqtt_messages := mm, call_queue := cq\<rparr> = s\<lparr>call_queue := cq, mqtt_messages := mm\<rparr>"
    "s\<lparr>mqtt_messages := mm, layer_state := ls\<rparr> = s\<lparr>layer_state := ls, mqtt_messages := mm\<rparr>"
    "s\<lparr>mqtt_messages := mm, layer_data := ld\<rparr> = s\<lparr>layer_data := ld, mqtt_messages := mm\<rparr>"
    "s\<lparr>mqtt_messages := mm, io_timeouts := io\<rparr> = s\<lparr>io_timeouts := io, mqtt_messages := mm\<rparr>"
    "s\<lparr>mqtt_messages := mm, logic_tasks := lt\<rparr> = s\<lparr>logic_tasks := lt, mqtt_messages := mm\<rparr>"
  by simp_all

text \<open>Operations on timers change the four fields of the container.\<close>

lemma same_logic:
  fixes s t :: "('f, 'z) xi_logic_scheme"
  assumes "time_events.more t = time_events.more s"
  obtains v e h m where "t = s\<lparr>tv := v, tevs := e, handles := h, tmem := m\<rparr>"
proof
  show "t = s\<lparr>tv := tv t, tevs := tevs t, handles := handles t, tmem := tmem t\<rparr>"
    using assms by (intro time_events.equality) simp_all
qed

lemma evtd_ok_mem:
  assumes s: "evtd_ok s" and m: "mem_ok m" "evtd_blocks s \<subseteq> live_blocks m"
  shows "evtd_ok (s\<lparr>tmem := m\<rparr>)"
proof -
  have "tev_ok (s\<lparr>tmem := m\<rparr>)"
    using s m by (intro tev_ok_mem) (auto simp: evtd_ok_def evtd_blocks_def)
  then show ?thesis
    using s m by (auto simp: evtd_ok_def evtd_blocks_def registrations_ok_def)
qed

section \<open>Releasing blocks\<close>

definition release :: "addr set \<Rightarrow> xi_memory \<Rightarrow> xi_memory" where
  "release B m = m\<lparr>live_blocks := live_blocks m - B\<rparr>"

lemma release_simps [simp]:
  "live_blocks (release B m) = live_blocks m - B" "next_block (release B m) = next_block m"
  "alloc_script (release B m) = alloc_script m" "release A (release B m) = release (B \<union> A) m"
  by (simp_all add: release_def Diff_eq Int_assoc)

lemma mem_ok_release [simp]: "mem_ok m \<Longrightarrow> mem_ok (release B m)"
  by (simp add: mem_ok_def)

lemma release_empty [simp]: "release {} m = m"
  by (simp add: release_def)

lemma xi_free_release: "xi_free p m = release ({p} - {NULL}) m"
  by (simp add: xi_free_def release_def)

definition desc_blocks :: "xi_data_desc option \<Rightarrow> addr set" where
  "desc_blocks d = (case d of None \<Rightarrow> {}
     | Some c \<Rightarrow> insert (desc_block c) (if desc_memory_type c = XI_MEMORY_TYPE_MANAGED then {data_ptr c} else {}) - {NULL})"

lemma desc_blocks_None [simp]: "desc_blocks None = {}"
  by (simp add: desc_blocks_def)

definition desc_known :: "xi_data_desc option \<Rightarrow> bool" where
  "desc_known d \<longleftrightarrow> (\<forall>c. d = Some c \<longrightarrow> desc_memory_type c \<noteq> XI_MEMORY_TYPE_UNKNOWN)"

lemma free_desc_release: "desc_known d \<Longrightarrow> xi_free_desc d m = Some (release (desc_blocks d) m)"
  by (cases d) (auto simp: xi_free_desc_def desc_known_def desc_blocks_def xi_free_release xi_assert_def
      intro!: arg_cong [where f = "\<lambda>B. release B m"])

lemma free_if_release: "desc_known d \<Longrightarrow> free_if d m = Some (release (desc_blocks d) m)"
  by (cases d) (simp_all add: free_if_def free_desc_release desc_blocks_def)

text \<open>The parts of a message that its type makes the destructor look at.\<close>

definition message_descs :: "xi_mqtt_message \<Rightarrow> xi_data_desc option list" where
  "message_descs msg =
     (if msg_type msg = XI_MQTT_TYPE_CONNECT
      then [client_id msg, password msg, username msg, protocol_name msg, will_message msg, will_topic msg]
      else if msg_type msg = XI_MQTT_TYPE_PUBLISH then [publish_content msg, topic_name msg]
      else if msg_type msg = XI_MQTT_TYPE_SUBSCRIBE \<or> msg_type msg = XI_MQTT_TYPE_SUBACK
      then (case topics msg of None \<Rightarrow> [] | Some t \<Rightarrow> [topic_filter t])
      else [])"

definition message_pair :: "xi_mqtt_message \<Rightarrow> addr set" where
  "message_pair msg =
     (if msg_type msg = XI_MQTT_TYPE_SUBSCRIBE \<or> msg_type msg = XI_MQTT_TYPE_SUBACK
      then (case topics msg of None \<Rightarrow> {} | Some t \<Rightarrow> {topicpair_block t} - {NULL}) else {})"

definition message_blocks :: "xi_mqtt_message \<Rightarrow> addr set" where
  "message_blocks msg = ({message_block msg} - {NULL}) \<union> message_pair msg \<union> (\<Union>d \<in> set (message_descs msg). desc_blocks d)"

definition message_known :: "xi_mqtt_message \<Rightarrow> bool" where
  "message_known msg \<longleftrightarrow> (\<forall>d \<in> set (message_descs msg). desc_known d)"

lemma message_free_release:
  assumes "message_known msg"
  shows "xi_mqtt_message_free (Some msg) m = Some (release (message_blocks msg) m)"
proof -
  have B: "release A m = release B m" if "A = B" for A B using that by simp
  note defs = xi_mqtt_message_free_def message_known_def message_blocks_def message_pair_def message_descs_def
  note frees = free_if_release free_desc_release xi_free_release
  consider "msg_type msg = 1" | "msg_type msg = 3" | "msg_type msg = 8" | "msg_type msg = 9"
    | "msg_type msg \<notin> {1, 3, 8, 9}" by auto
  then show ?thesis
  proof cases
    case 1
    then show ?thesis using assms by (simp add: defs frees; (intro B)?; blast?)
  next
    case 2
    then show ?thesis using assms by (simp add: defs frees; (intro B)?; blast?)
  next
    case 3
    then show ?thesis using assms by (cases "topics msg"; simp add: defs frees; (intro B)?; blast?)
  next
    case 4
    then show ?thesis using assms by (cases "topics msg"; simp add: defs frees; (intro B)?; blast?)
  next
    case 5
    then show ?thesis using assms by (simp add: defs frees; (intro B)?; blast?)
  qed
qed


text \<open>What a memory may grow by.\<close>

definition grows :: "xi_memory \<Rightarrow> xi_memory \<Rightarrow> bool" where
  "grows m m' \<longleftrightarrow> mem_ok m' \<and> live_blocks m \<subseteq> live_blocks m' \<and> next_block m \<le> next_block m'
     \<and> live_blocks m' \<subseteq> live_blocks m \<union> {a. next_block m \<le> a} \<and> (alloc_script m = [] \<longrightarrow> alloc_script m' = [])"

lemma grows_refl: "mem_ok m \<Longrightarrow> grows m m"
  by (simp add: grows_def)

lemma grows_trans: "grows a b \<Longrightarrow> grows b c \<Longrightarrow> grows a c"
  by (fastforce simp: grows_def)

lemma grows_alloc:
  assumes "xi_alloc n m = (p, m')" "mem_ok m"
  shows "grows m m'" "p = NULL \<or> next_block m \<le> p \<and> p \<in> live_blocks m' \<and> p \<notin> live_blocks m"
    "n \<le> PTRDIFF_MAX \<Longrightarrow> alloc_script m = [] \<Longrightarrow> p \<noteq> NULL"
proof -
  have ok: "mem_ok m'" using assms by (rule xi_alloc_mem_ok)
  from assms(1) show "grows m m'" using ok
    by (cases rule: xi_alloc_cases) (use xi_alloc_unscripted [OF _ assms(1)] in \<open>auto simp: grows_def\<close>)
  from assms(1) show "p = NULL \<or> next_block m \<le> p \<and> p \<in> live_blocks m' \<and> p \<notin> live_blocks m"
    by (cases rule: xi_alloc_cases) (use assms(2) in \<open>auto simp: mem_ok_def\<close>)
  assume "n \<le> PTRDIFF_MAX" "alloc_script m = []"
  then show "p \<noteq> NULL" using assms by (auto simp: xi_alloc_def mem_ok_def split: if_splits)
qed

lemma share_string_cases:
  assumes "mem_ok m" "tp \<noteq> NULL \<longrightarrow> c_strlen c \<noteq> None"
  obtains (ok) d m' where "xi_make_desc_from_string_share tp c m = Some (Some d, m')" "grows m m'"
      "data_bytes d = c" "desc_length d = of_nat (the (c_strlen c))" "desc_known (Some d)"
      "desc_blocks (Some d) \<subseteq> live_blocks m' - live_blocks m"
  | (fail) m' where "xi_make_desc_from_string_share tp c m = Some (None, m')" "grows m m'"
      "tp = NULL \<or> alloc_script m \<noteq> []"
proof -
  obtain q m1 where a: "xi_alloc sizeof_xi_data_desc m = (q, m1)" by fastforce
  note g = grows_alloc [OF a assms(1)]
  show thesis
  proof (cases "tp = NULL")
    case True
    then show thesis using fail [of m] assms(1) by (simp add: xi_make_desc_from_string_share_def grows_refl)
  next
    case tp: False
    then obtain n where n: "c_strlen c = Some n" using assms(2) by auto
    show thesis
    proof (cases "q = NULL")
      case True
      then show thesis using fail [of m1] g tp n a
        by (auto simp: xi_make_desc_from_string_share_def xi_free_desc_def sizeof_xi_data_desc_def PTRDIFF_MAX_def)
    next
      case False
      then show thesis
        using ok [of "(zero_desc q)\<lparr>data_ptr := tp, data_bytes := c, desc_capacity := of_nat n,
            desc_length := of_nat n, desc_memory_type := XI_MEMORY_TYPE_UNMANAGED\<rparr>" m1] g tp n a
        by (auto simp: xi_make_desc_from_string_share_def desc_known_def desc_blocks_def zero_desc_def)
    qed
  qed
qed

lemma share_buffer_cases:
  assumes "mem_ok m" "bp \<noteq> NULL"
  obtains (ok) d m' where "xi_make_desc_from_buffer_share bp bs n m = Some (Some d, m')" "grows m m'"
      "data_bytes d = bs" "desc_length d = of_nat n" "desc_known (Some d)"
      "desc_blocks (Some d) \<subseteq> live_blocks m' - live_blocks m"
  | (fail) m' where "xi_make_desc_from_buffer_share bp bs n m = Some (None, m')" "grows m m'"
      "alloc_script m \<noteq> []"
proof -
  obtain q m1 where a: "xi_alloc sizeof_xi_data_desc m = (q, m1)" by fastforce
  note g = grows_alloc [OF a assms(1)]
  show thesis
  proof (cases "q = NULL")
    case True
    then show thesis using fail [of m1] g a assms
      by (auto simp: xi_make_desc_from_buffer_share_def xi_free_desc_def sizeof_xi_data_desc_def PTRDIFF_MAX_def)
  next
    case False
    then show thesis
      using ok [of "(zero_desc q)\<lparr>desc_capacity := of_nat n, desc_length := of_nat n, data_ptr := bp,
          data_bytes := bs, desc_memory_type := XI_MEMORY_TYPE_UNMANAGED\<rparr>" m1] g a assms
      by (auto simp: xi_make_desc_from_buffer_share_def desc_known_def desc_blocks_def zero_desc_def)
  qed
qed


section \<open>The packet of a publication\<close>

text \<open>What a packet says that has been filled in with the arguments of \<open>fill_with_publish_data\<close>.\<close>

definition says_publish ::
    "byte list \<Rightarrow> byte list \<Rightarrow> xi_mqtt_qos \<Rightarrow> xi_mqtt_retain \<Rightarrow> xi_mqtt_dup \<Rightarrow> 16 word \<Rightarrow> xi_mqtt_message \<Rightarrow> bool"
where
  "says_publish topic content qos retain dup ident msg \<longleftrightarrow>
     msg_type msg = XI_MQTT_TYPE_PUBLISH \<and> msg_qos msg = qos_value qos
   \<and> common_dup (common_value msg) = dup_value dup \<and> common_retain (common_value msg) = retain_value retain
   \<and> message_id msg = ident \<and> str (topic_name msg) = topic \<and> str (publish_content msg) = content"

definition c_text :: "byte list \<Rightarrow> byte list" where
  "c_text c = takeWhile (\<lambda>b. b \<noteq> 0) c"

lemma c_strlen_text: "c_strlen c = (if 0 \<in> set c then Some (length (c_text c)) else None)"
  by (simp add: c_strlen_def c_text_def)

lemma take_c_text: "take (length (c_text c)) c = c_text c"
  unfolding c_text_def by (metis takeWhile_eq_take)

lemma length_c_text: "length (c_text c) \<le> length c"
  by (simp add: c_text_def length_takeWhile_le)

lemma publish_common:
  assumes "common_value msg = bits_put 4 4 XI_MQTT_TYPE_PUBLISH (bits_put 3 1 (dup_value dup) (bits_put 1 2 (qos_value qos)
      (bits_put 0 1 (retain_value retain) 0)))"
  shows "msg_type msg = XI_MQTT_TYPE_PUBLISH" "msg_qos msg = qos_value qos"
    "common_dup (common_value msg) = dup_value dup" "common_retain (common_value msg) = retain_value retain"
  using common_fields [OF assms] by simp_all

lemma fill_publish_cases:
  assumes m: "mem_ok m" and tp: "tp \<noteq> NULL \<longrightarrow> 0 \<in> set c \<and> length c < 2 ^ 32"
    and cnt: "desc_ok cnt" "data_ptr cnt \<noteq> NULL"
  obtains (ok) msg m' where "fill_with_publish_data (empty_message b) (tp, c) cnt qos retain dup ident m
      = Some (XI_STATE_OK, msg, m')" "grows m m'" "says_publish (c_text c) (contents cnt) qos retain dup ident msg"
      "message_known msg" "message_blocks msg \<subseteq> insert b (live_blocks m' - live_blocks m)" "tp \<noteq> NULL"
  | (fail) e msg m' where "fill_with_publish_data (empty_message b) (tp, c) cnt qos retain dup ident m
      = Some (e, msg, m')" "grows m m'" "e = XI_OUT_OF_MEMORY \<or> e = XI_MQTT_PAYLOAD_SIZE_TOO_LARGE"
      "message_known msg" "message_blocks msg \<subseteq> insert b (live_blocks m' - live_blocks m)"
      "tp = NULL \<or> alloc_script m \<noteq> [] \<or> XI_MQTT_MAX_PAYLOAD_SIZE < unat (desc_length cnt)"
proof (cases "XI_MQTT_MAX_PAYLOAD_SIZE < unat (desc_length cnt)")
  case True
  moreover have "message_known (empty_message b)" "message_blocks (empty_message b) \<subseteq> {b}"
    by (auto simp: message_known_def message_descs_def message_blocks_def message_pair_def msg_type_def empty_message_def
        common_type_def)
  ultimately show thesis
    using m by (intro fail [of XI_MQTT_PAYLOAD_SIZE_TOO_LARGE "empty_message b" m])
      (auto simp: fill_with_publish_data_def grows_refl)
next
  case small: False
  define m0 where "m0 = (put_type XI_MQTT_TYPE_PUBLISH (put_dup (dup_value dup) (put_qos (qos_value qos)
      (put_retain (retain_value retain) (cleared (empty_message b))))))\<lparr>remaining_length_field := 0\<rparr>"
  have cv: "common_value m0 = bits_put 4 4 XI_MQTT_TYPE_PUBLISH (bits_put 3 1 (dup_value dup) (bits_put 1 2 (qos_value qos)
      (bits_put 0 1 (retain_value retain) 0)))"
    and f0: "topic_name m0 = None" "publish_content m0 = None" "message_block m0 = b"
    by (simp_all add: m0_def fill_defs)
  note defs = message_known_def message_descs_def message_blocks_def message_pair_def desc_known_def
  have fill: "fill_with_publish_data (empty_message b) (tp, c) cnt qos retain dup ident m =
      store_desc (\<lambda>d. topic_name_update (\<lambda>_. d)) (xi_make_desc_from_string_share tp c)
        (store_desc (\<lambda>d. publish_content_update (\<lambda>_. d))
          (xi_make_desc_from_buffer_share (data_ptr cnt) (data_bytes cnt) (unat (desc_length cnt)))
          (\<lambda>msg m. Some (XI_STATE_OK, msg\<lparr>message_id := ident\<rparr>, m))) m0 m"
    using small by (simp add: fill_with_publish_data_def m0_def)
  have tp0: "tp \<noteq> NULL \<longrightarrow> c_strlen c \<noteq> None" using tp by (simp add: c_strlen_def)
  from m tp0 show thesis
  proof (cases rule: share_string_cases [of m tp c])
    case (fail m')
    have t: "msg_type (topic_name_update (\<lambda>_. None) m0) = XI_MQTT_TYPE_PUBLISH"
      by (rule publish_common) (simp add: cv)
    show thesis
      by (rule that(2) [of XI_OUT_OF_MEMORY "topic_name_update (\<lambda>_. None) m0" m'])
        (use fail t f0 in \<open>auto simp: fill store_desc_def defs\<close>)
  next
    case (ok d m1)
    have m1: "mem_ok m1" using ok(2) by (simp add: grows_def)
    have tpn: "tp \<noteq> NULL" using ok(1) by (auto split: if_splits simp: xi_make_desc_from_string_share_def)
    have un: "unat (of_nat (length (c_text c)) :: 32 word) = length (c_text c)"
      using tp tpn length_c_text [of c] by (intro of_nat_len) simp
    have topic: "contents d = c_text c"
      using ok(3,4) tp tpn un by (simp add: contents_def c_strlen_text take_c_text)
    from m1 cnt(2) show thesis
    proof (cases rule: share_buffer_cases [of m1 "data_ptr cnt" "data_bytes cnt" "unat (desc_length cnt)"])
      case f: (fail m')
      let ?msg = "publish_content_update (\<lambda>_. None) (topic_name_update (\<lambda>_. Some d) m0)"
      have t: "msg_type ?msg = XI_MQTT_TYPE_PUBLISH" by (rule publish_common) (simp add: cv)
      show thesis
        by (rule that(2) [of XI_OUT_OF_MEMORY ?msg m'])
          (use ok f t f0 grows_trans [OF ok(2) f(2)] in \<open>auto simp: fill store_desc_def defs grows_def\<close>)
    next
      case g: (ok d' m')
      let ?msg = "(publish_content_update (\<lambda>_. Some d') (topic_name_update (\<lambda>_. Some d) m0))\<lparr>message_id := ident\<rparr>"
      have t: "msg_type ?msg = XI_MQTT_TYPE_PUBLISH" "msg_qos ?msg = qos_value qos"
        "common_dup (common_value ?msg) = dup_value dup" "common_retain (common_value ?msg) = retain_value retain"
        by (rule publish_common; simp add: cv)+
      have "contents d' = contents cnt" using g(3,4) by (simp add: contents_def)
      then have "says_publish (c_text c) (contents cnt) qos retain dup ident ?msg"
        using t topic by (simp add: says_publish_def str_def)
      moreover have "live_blocks m \<subseteq> live_blocks m1" "live_blocks m1 \<subseteq> live_blocks m'"
        using ok(2) g(2) by (simp_all add: grows_def)
      ultimately show thesis
        by (intro that(1) [of ?msg m'])
          (use ok g t f0 tpn grows_trans [OF ok(2) g(2)] in \<open>auto simp: fill store_desc_def defs\<close>)
    qed
  qed
qed


section \<open>Tasks\<close>

definition data_blocks :: "'f xi_mqtt_task_specific_data \<Rightarrow> addr set" where
  "data_blocks d = (case d of
     Publish_Data topic content retain \<Rightarrow> ({string_block topic} - {NULL}) \<union> desc_blocks content
   | Subscribe_Data topic handler qos \<Rightarrow> {string_block topic} - {NULL})"

text \<open>The blocks of a task's data, as long as it has any.\<close>

definition task_owns :: "('f, 'z) xi_logic_scheme \<Rightarrow> addr \<Rightarrow> addr set" where
  "task_owns s p = (if data_u (logic_tasks s p) = NULL then {}
     else insert (data_u (logic_tasks s p)) (data_blocks (task_data s (data_u (logic_tasks s p)))))"

definition data_fits :: "'f xi_mqtt_logic_task \<Rightarrow> 'f xi_mqtt_task_specific_data \<Rightarrow> bool" where
  "data_fits task d \<longleftrightarrow> (case d of
     Publish_Data topic content retain \<Rightarrow> scenario task = XI_MQTT_PUBLISH \<and> desc_known content
   | Subscribe_Data topic handler qos \<Rightarrow> scenario task = XI_MQTT_SUBSCRIBE)"

text \<open>A task that can be freed: it is live, and its data is live, of its kind and not part of it.\<close>

definition task_wf :: "('f, 'z) xi_logic_scheme \<Rightarrow> addr \<Rightarrow> bool" where
  "task_wf s p \<longleftrightarrow> live s p \<and> p \<notin> task_owns s p \<and> task_owns s p \<subseteq> live_blocks (tmem s)
     \<and> (data_u (logic_tasks s p) \<noteq> NULL \<longrightarrow>
          data_fits (logic_tasks s p) (task_data s (data_u (logic_tasks s p))))"

lemma live_simps [simp]:
  "live (s\<lparr>logic_tasks := lt\<rparr>) = live s" "live (s\<lparr>mqtt_messages := mm\<rparr>) = live s"
  "live (s\<lparr>layer_data := ld\<rparr>) = live s" "live (s\<lparr>call_queue := cq\<rparr>) = live s"
  by (simp_all add: live_def fun_eq_iff)

lemma task_owns_simps [simp]:
  "task_owns (s\<lparr>mqtt_messages := mm\<rparr>) = task_owns s" "task_owns (s\<lparr>layer_data := ld\<rparr>) = task_owns s"
  "task_owns (s\<lparr>call_queue := cq\<rparr>) = task_owns s" "task_owns (s\<lparr>tmem := m\<rparr>) = task_owns s"
  by (simp_all add: task_owns_def fun_eq_iff)

lemma task_wf_simps [simp]:
  "task_wf (s\<lparr>mqtt_messages := mm\<rparr>) = task_wf s" "task_wf (s\<lparr>layer_data := ld\<rparr>) = task_wf s"
  "task_wf (s\<lparr>call_queue := cq\<rparr>) = task_wf s"
  by (simp_all add: task_wf_def fun_eq_iff)

lemma free_task_data_release:
  assumes w: "task_wf s p" and d: "data_u (logic_tasks s p) \<noteq> NULL" and h: "handles s p = NULL"
  shows "xi_mqtt_logic_free_task_data p s =
    Some (s\<lparr>tmem := release (task_owns s p) (tmem s),
            logic_tasks := (logic_tasks s)(p := (logic_tasks s p)\<lparr>data_u := NULL\<rparr>)\<rparr>)"
proof -
  let ?d = "data_u (logic_tasks s p)"
  have live: "live s p" "live s ?d" "p \<notin> task_owns s p"
    using w d by (auto simp: task_wf_def task_owns_def live_def)
  have B: "release A m = release B m" if "A = B" for A B m using that by simp
  have "p \<in> live_blocks (tmem s) - task_owns s p" "p \<noteq> NULL" using live by (auto simp: live_def)
  then have up: "live (s\<lparr>tmem := release (task_owns s p) (tmem s)\<rparr>) p" by (simp add: live_def)
  show ?thesis
  proof (cases "task_data s ?d")
    case (Publish_Data topic content retain)
    then have k: "scenario (logic_tasks s p) = XI_MQTT_PUBLISH" "desc_known content"
      using w d by (simp_all add: task_wf_def data_fits_def)
    have "xi_mqtt_task_spec_data_free_publish_data ?d s = Some (s\<lparr>tmem := release (task_owns s p) (tmem s)\<rparr>)"
      using d live Publish_Data k
      by (auto simp: xi_mqtt_task_spec_data_free_publish_data_def deref_data_def free_desc_release xi_free_release
          task_owns_def data_blocks_def intro!: arg_cong [where f = "\<lambda>m. s\<lparr>tmem := m\<rparr>"] B)
    then show ?thesis
      using live d h k up
      by (simp add: xi_mqtt_logic_free_task_data_def deref_task_def update_task_def)
  next
    case (Subscribe_Data topic handler qos)
    then have k: "scenario (logic_tasks s p) = XI_MQTT_SUBSCRIBE"
      using w d by (simp add: task_wf_def data_fits_def)
    have "xi_mqtt_task_spec_data_free_subscribe_data ?d s = Some (s\<lparr>tmem := release (task_owns s p) (tmem s)\<rparr>)"
      using d live Subscribe_Data k
      by (auto simp: xi_mqtt_task_spec_data_free_subscribe_data_def deref_data_def xi_free_release
          task_owns_def data_blocks_def intro!: arg_cong [where f = "\<lambda>m. s\<lparr>tmem := m\<rparr>"] B)
    then show ?thesis
      using live d h k up
      by (simp add: xi_mqtt_logic_free_task_data_def deref_task_def update_task_def)
  qed
qed

lemma free_task_release:
  assumes w: "task_wf s p" and h: "data_u (logic_tasks s p) \<noteq> NULL \<longrightarrow> handles s p = NULL"
  obtains t where "xi_mqtt_logic_free_task p s = Some t"
    "t = s\<lparr>tmem := release (insert p (task_owns s p)) (tmem s), logic_tasks := logic_tasks t\<rparr>"
    "\<And>q. q \<noteq> p \<Longrightarrow> logic_tasks t q = logic_tasks s q"
proof (cases "data_u (logic_tasks s p) = NULL")
  case True
  then show thesis
    using w by (intro that [of "s\<lparr>tmem := release (insert p (task_owns s p)) (tmem s)\<rparr>"])
      (auto simp: task_wf_def live_def xi_mqtt_logic_free_task_def deref_task_def task_owns_def xi_free_release)
next
  case False
  have "live s p" using w by (simp add: task_wf_def)
  with False show thesis
    using free_task_data_release [OF w False] h
    by (intro that [of "s\<lparr>tmem := release (insert p (task_owns s p)) (tmem s),
          logic_tasks := (logic_tasks s)(p := (logic_tasks s p)\<lparr>data_u := NULL\<rparr>)\<rparr>"])
      (auto simp: xi_mqtt_logic_free_task_def deref_task_def live_def xi_free_release)
qed

lemma execute_cases:
  fixes s :: "('f, 'z) xi_logic_scheme"
  assumes "evtd_ok s"
  obtains q m where "xi_evtd_execute s h
      = (q, s\<lparr>tmem := m, call_queue := call_queue s @ (if q = NULL then [] else [(q, h)])\<rparr>)"
    "grows (tmem s) m" "alloc_script (tmem s) = [] \<Longrightarrow> q \<noteq> NULL"
    "evtd_ok (s\<lparr>tmem := m, call_queue := call_queue s @ (if q = NULL then [] else [(q, h)])\<rparr>)"
    "evtd_blocks (s\<lparr>tmem := m, call_queue := call_queue s @ (if q = NULL then [] else [(q, h)])\<rparr>)
       \<subseteq> evtd_blocks s \<union> {a. next_block (tmem s) \<le> a}"
proof -
  obtain q m where a: "xi_alloc sizeof_xi_event_handle_queue (tmem s) = (q, m)" by fastforce
  have m: "mem_ok (tmem s)" using assms by (rule evtd_okD)
  define t where "t = s\<lparr>tmem := m, call_queue := call_queue s @ (if q = NULL then [] else [(q, h)])\<rparr>"
  have e: "xi_evtd_execute s h = (q, t)"
    using a by (simp add: xi_evtd_execute_def t_def)
  have "evtd_frame s t"
    using e by (cases rule: xi_evtd_execute_spec [OF assms, of h]) auto
  then show thesis
    using that [of q m] e grows_alloc [OF a m]
    by (simp add: t_def evtd_frame_def sizeof_xi_event_handle_queue_def PTRDIFF_MAX_def)
qed

end
