(* ===== verification/Mqtt_Logic_Publish.thy ===== *)
theory Mqtt_Logic_Publish
  imports Mqtt_Logic_Heap
begin

text \<open>
  Publishing with quality of service 1, \<open>xi_mqtt_logic_layer_publish_q1_command.h\<close>: what the parts
  of the coroutine do, on every pattern of failing allocations.
\<close>

section \<open>What a resumption leaves alone\<close>

text \<open>The fields that a task for a packet to the server does not write.\<close>

definition touches :: "('f, 'z) xi_logic_scheme \<Rightarrow> ('f, 'z) xi_logic_scheme \<Rightarrow> bool" where
  "touches s t \<longleftrightarrow> evtd_block t = evtd_block s \<and> current_step t = current_step s
     \<and> handles_and_socket_fd t = handles_and_socket_fd s
     \<and> handles_and_file_fd t = handles_and_file_fd s \<and> fd_tuples t = fd_tuples s
     \<and> on_empty t = on_empty s \<and> stop t = stop s \<and> next_update t = next_update s
     \<and> backoff_lut t = backoff_lut s \<and> decay_lut t = decay_lut s
     \<and> backoff_class t = backoff_class s \<and> backoff_lut_i t = backoff_lut_i s
     \<and> layer_context t = layer_context s \<and> prev_context t = prev_context s
     \<and> next_context t = next_context s \<and> layer_state t = layer_state s
     \<and> user_data t = user_data s \<and> io_timeouts t = io_timeouts s
     \<and> connection_data t = connection_data s
     \<and> copy_of_handlers_for_topics t = copy_of_handlers_for_topics s
     \<and> copy_of_q12_unacked_messages_queue t = copy_of_q12_unacked_messages_queue s
     \<and> copy_of_last_msg_id t = copy_of_last_msg_id s \<and> task_data t = task_data s
     \<and> written_data t = written_data s \<and> xi_logic.more t = xi_logic.more s
     \<and> q12_recv_tasks_queue (layer_data t) = q12_recv_tasks_queue (layer_data s)
     \<and> q0_tasks_queue (layer_data t) = q0_tasks_queue (layer_data s)
     \<and> current_q0_task (layer_data t) = current_q0_task (layer_data s)
     \<and> handlers_for_topics (layer_data t) = handlers_for_topics (layer_data s)
     \<and> last_msg_id (layer_data t) = last_msg_id (layer_data s)"

text \<open>
  Nothing of another task or another block of the dispatcher is touched, and no block is released
  except those in \<open>B\<close>.
\<close>

definition quiet :: "addr \<Rightarrow> addr set \<Rightarrow> ('f, 'z) xi_logic_scheme \<Rightarrow> ('f, 'z) xi_logic_scheme \<Rightarrow> bool" where
  "quiet p B s t \<longleftrightarrow> touches s t \<and> evtd_ok s \<and> evtd_ok t \<and> next_block (tmem s) \<le> next_block (tmem t)
     \<and> evtd_blocks t \<subseteq> evtd_blocks s \<union> {a. next_block (tmem s) \<le> a}
     \<and> (\<forall>q. q \<noteq> p \<longrightarrow> logic_tasks t q = logic_tasks s q \<and> handles t q = handles s q)
     \<and> live_blocks (tmem s) - evtd_blocks s - B \<subseteq> live_blocks (tmem t)
     \<and> (\<forall>a < next_block (tmem s). mqtt_messages t a = mqtt_messages s a)
     \<and> (alloc_script (tmem s) = [] \<longrightarrow> alloc_script (tmem t) = [])"

lemma touches_refl [simp]: "touches s s"
  by (simp add: touches_def)

lemma touches_trans: "touches s t \<Longrightarrow> touches t u \<Longrightarrow> touches s u"
  by (simp only: touches_def)

lemma quiet_refl: "evtd_ok s \<Longrightarrow> quiet p B s s"
  by (auto simp: quiet_def)

lemma quiet_trans:
  assumes "quiet p A s t" "quiet p B t u"
  shows "quiet p (A \<union> B) s u"
proof -
  have m: "mem_ok (tmem s)" using assms(1) evtd_okD(2) [of s] by (simp add: quiet_def)
  have "touches s u" using assms touches_trans by (auto simp: quiet_def)
  moreover have e: "evtd_blocks t \<subseteq> evtd_blocks s \<union> {a. next_block (tmem s) \<le> a}"
    "evtd_blocks u \<subseteq> evtd_blocks t \<union> {a. next_block (tmem t) \<le> a}"
    "next_block (tmem s) \<le> next_block (tmem t)"
    "live_blocks (tmem s) - evtd_blocks s - A \<subseteq> live_blocks (tmem t)"
    "live_blocks (tmem t) - evtd_blocks t - B \<subseteq> live_blocks (tmem u)"
    using assms by (simp_all add: quiet_def)
  then have "evtd_blocks u \<subseteq> evtd_blocks s \<union> {a. next_block (tmem s) \<le> a}" by fastforce
  moreover have "live_blocks (tmem s) - evtd_blocks s - (A \<union> B) \<subseteq> live_blocks (tmem u)"
  proof
    fix a assume a: "a \<in> live_blocks (tmem s) - evtd_blocks s - (A \<union> B)"
    then have "a < next_block (tmem s)" using m by (simp add: mem_ok_def)
    then show "a \<in> live_blocks (tmem u)" using a e by fastforce
  qed
  ultimately show ?thesis using assms by (simp add: quiet_def)
qed

lemma quiet_mono: "quiet p A s t \<Longrightarrow> A \<subseteq> B \<Longrightarrow> quiet p B s t"
  by (auto simp: quiet_def)


lemma quiet_tasks:
  "evtd_ok s \<Longrightarrow> (\<And>q. q \<noteq> p \<Longrightarrow> lt q = logic_tasks s q) \<Longrightarrow> quiet p B s (s\<lparr>logic_tasks := lt\<rparr>)"
  by (auto simp: quiet_def touches_def)

lemma quiet_task: "evtd_ok s \<Longrightarrow> quiet p B s (s\<lparr>logic_tasks := (logic_tasks s)(p := x)\<rparr>)"
  by (rule quiet_tasks) simp_all

lemma quiet_release:
  assumes "evtd_ok s" "B \<inter> evtd_blocks s = {}"
  shows "quiet p B s (s\<lparr>tmem := release B (tmem s)\<rparr>)"
proof -
  have "evtd_blocks s \<subseteq> live_blocks (tmem s)" "mem_ok (tmem s)" using assms(1) by (rule evtd_okD)+
  then have "evtd_ok (s\<lparr>tmem := release B (tmem s)\<rparr>)"
    using assms by (intro evtd_ok_mem) auto
  then show ?thesis using assms(1) by (auto simp: quiet_def touches_def)
qed

lemma quiet_mem:
  assumes "evtd_ok s" "grows (tmem s) m"
  shows "quiet p {} s (s\<lparr>tmem := m\<rparr>)"
proof -
  have "evtd_ok (s\<lparr>tmem := m\<rparr>)"
    using assms evtd_okD(3) [OF assms(1)] by (intro evtd_ok_mem) (auto simp: grows_def)
  then show ?thesis using assms by (auto simp: quiet_def touches_def grows_def)
qed

lemma quiet_message:
  "evtd_ok s \<Longrightarrow> next_block (tmem s) \<le> a \<Longrightarrow> quiet p B s (s\<lparr>mqtt_messages := (mqtt_messages s)(a := x)\<rparr>)"
  by (auto simp: quiet_def touches_def)

lemma quiet_execute:
  assumes "evtd_ok s"
  obtains q t where "xi_evtd_execute s h = (q, t)" "quiet p {} s t" "logic_tasks t = logic_tasks s"
    "mqtt_messages t = mqtt_messages s" "layer_data t = layer_data s" "handles t = handles s"
    "call_queue t = call_queue s @ (if q = NULL then [] else [(q, h)])"
    "alloc_script (tmem s) = [] \<Longrightarrow> q \<noteq> NULL" "live_blocks (tmem s) \<subseteq> live_blocks (tmem t)"
  using assms
proof (cases rule: execute_cases [of s h])
  case (1 q m)
  let ?t = "s\<lparr>tmem := m, call_queue := call_queue s @ (if q = NULL then [] else [(q, h)])\<rparr>"
  have "quiet p {} s ?t"
    using 1 assms by (auto simp: quiet_def touches_def grows_def)
  then show thesis using 1 that [of q ?t] by (simp add: grows_def)
qed

text \<open>A message that comes with a resumption belongs to the task.\<close>

definition arg_blocks :: "('f, 'z) xi_logic_scheme \<Rightarrow> addr \<Rightarrow> addr set" where
  "arg_blocks s msg = (if msg = NULL then {} else message_blocks (mqtt_messages s msg))"

definition arg_ok :: "('f, 'z) xi_logic_scheme \<Rightarrow> addr \<Rightarrow> addr \<Rightarrow> bool" where
  "arg_ok s p msg \<longleftrightarrow> msg \<noteq> NULL \<longrightarrow> live s msg \<and> message_known (mqtt_messages s msg)
     \<and> arg_blocks s msg \<subseteq> live_blocks (tmem s) - evtd_blocks s - insert p (task_owns s p)"

lemma arg_NULL [simp]: "arg_ok s p NULL" "arg_blocks s NULL = {}"
  by (simp_all add: arg_ok_def arg_blocks_def)

lemma arg_okD:
  assumes "arg_ok s p msg"
  shows "arg_blocks s msg \<subseteq> live_blocks (tmem s)" "arg_blocks s msg \<inter> evtd_blocks s = {}"
    "arg_blocks s msg \<inter> insert p (task_owns s p) = {}"
  using assms by (auto simp: arg_ok_def arg_blocks_def split: if_splits)

lemma free_message_release:
  "msg \<noteq> NULL \<Longrightarrow> live s msg \<Longrightarrow> message_known (mqtt_messages s msg) \<Longrightarrow>
     free_message msg s = Some (s\<lparr>tmem := release (arg_blocks s msg) (tmem s)\<rparr>)"
  by (simp add: free_message_def deref_message_def message_free_release arg_blocks_def)

lemma finalize_q12:
  assumes w: "task_wf s p" and s: "evtd_ok s" and q: "task_qos (logic_tasks s p) \<noteq> XI_MQTT_QOS_AT_MOST_ONCE"
    and h: "handles s p = NULL" and d: "insert p (task_owns s p) \<inter> evtd_blocks s = {}"
  obtains t where "xi_mqtt_logic_layer_finalize_task env p s = Some (XI_STATE_OK, t)"
    "quiet p (insert p (task_owns s p)) s t" "call_queue t = call_queue s"
    "q12_tasks_queue (layer_data t) = remove1 p (q12_tasks_queue (layer_data s))"
    "live_blocks (tmem t) = live_blocks (tmem s) - insert p (task_owns s p)" "handles t = handles s"
    "mqtt_messages t = mqtt_messages s"
proof -
  let ?s = "s\<lparr>layer_data := (layer_data s)\<lparr>q12_tasks_queue := remove1 p (q12_tasks_queue (layer_data s))\<rparr>\<rparr>"
  have w': "task_wf ?s p" "task_owns ?s p = task_owns s p"
    using w by simp_all
  obtain t where t: "xi_mqtt_logic_free_task p ?s = Some t"
    "t = ?s\<lparr>tmem := release (insert p (task_owns s p)) (tmem s), logic_tasks := logic_tasks t\<rparr>"
    "\<And>q. q \<noteq> p \<Longrightarrow> logic_tasks t q = logic_tasks s q"
    by (rule free_task_release [OF w'(1)]) (use h w' in auto)
  define lt where "lt = logic_tasks t"
  have t2: "t = ?s\<lparr>tmem := release (insert p (task_owns s p)) (tmem s), logic_tasks := lt\<rparr>"
    unfolding lt_def by (rule t(2))
  have "quiet p (insert p (task_owns s p)) s (s\<lparr>tmem := release (insert p (task_owns s p)) (tmem s)\<rparr>)"
    using s d by (rule quiet_release)
  then have "quiet p (insert p (task_owns s p)) s t"
    using t(3) unfolding lt_def [symmetric] t2 by (simp add: quiet_def touches_def)
  moreover have "xi_mqtt_logic_layer_finalize_task env p s = Some (XI_STATE_OK, t)"
    using t(1) w q h by (simp add: xi_mqtt_logic_layer_finalize_task_def deref_task_def task_wf_def)
  ultimately show thesis by (intro that [of t]) (simp_all add: t2)
qed


section \<open>The task\<close>

text \<open>The data of a publication that can be sent.\<close>

definition publishable :: "'f xi_mqtt_task_specific_data \<Rightarrow> bool" where
  "publishable d \<longleftrightarrow> (case d of
     Publish_Data topic content retain \<Rightarrow>
       (\<forall>tp c. topic = Some (tp, c) \<longrightarrow> tp \<noteq> NULL \<longrightarrow> 0 \<in> set c \<and> length c < 2 ^ 32)
       \<and> (\<exists>cnt. content = Some cnt \<and> desc_ok cnt \<and> data_ptr cnt \<noteq> NULL)
   | _ \<Rightarrow> False)"

definition packet_of ::
    "('f, 'z) xi_logic_scheme \<Rightarrow> addr \<Rightarrow> xi_mqtt_dup \<Rightarrow> xi_mqtt_message \<Rightarrow> bool" where
  "packet_of s p dup msg \<longleftrightarrow> (case task_data s (data_u (logic_tasks s p)) of
     Publish_Data topic content retain \<Rightarrow>
       says_publish (c_text (snd (the topic))) (contents (the content)) XI_MQTT_QOS_AT_LEAST_ONCE retain dup
         (msg_id (logic_tasks s p)) msg
   | _ \<Rightarrow> False)"

text \<open>Every allocation succeeds, and the data is there and not too large.\<close>

definition sendable :: "('f, 'z) xi_logic_scheme \<Rightarrow> addr \<Rightarrow> bool" where
  "sendable s p \<longleftrightarrow> alloc_script (tmem s) = []
     \<and> (case task_data s (data_u (logic_tasks s p)) of
          Publish_Data topic content retain \<Rightarrow>
            topic \<noteq> None \<and> fst (the topic) \<noteq> NULL \<and> unat (desc_length (the content)) \<le> XI_MQTT_MAX_PAYLOAD_SIZE
        | _ \<Rightarrow> False)"

text \<open>The timer is armed at most while the task waits for the confirmation.\<close>

definition q1_task :: "('f, 'z) xi_logic_scheme \<Rightarrow> addr \<Rightarrow> bool" where
  "q1_task s p \<longleftrightarrow> evtd_ok s \<and> - (2 ^ 62) \<le> current_step s \<and> current_step s < 2 ^ 62
     \<and> task_wf s p \<and> insert p (task_owns s p) \<inter> evtd_blocks s = {}
     \<and> task_qos (logic_tasks s p) = XI_MQTT_QOS_AT_LEAST_ONCE
     \<and> data_u (logic_tasks s p) \<noteq> NULL \<and> publishable (task_data s (data_u (logic_tasks s p)))
     \<and> vec_ok (io_timeouts s) \<and> p \<notin> set (elems (io_timeouts s))
     \<and> (task_cs (logic_tasks s p) \<noteq> 105 \<longrightarrow> handles s p = NULL)"

lemma q1_taskD:
  assumes "q1_task s p"
  shows "evtd_ok s" "task_wf s p" "live s p" "p \<noteq> NULL" "insert p (task_owns s p) \<inter> evtd_blocks s = {}"
    "insert p (task_owns s p) \<subseteq> live_blocks (tmem s)" "data_u (logic_tasks s p) \<noteq> NULL"
    "task_qos (logic_tasks s p) = XI_MQTT_QOS_AT_LEAST_ONCE" "live s (data_u (logic_tasks s p))"
    "mem_ok (tmem s)" "evtd_blocks s \<subseteq> live_blocks (tmem s)"
proof -
  show s: "evtd_ok s" and w: "task_wf s p" using assms by (simp_all add: q1_task_def)
  show d: "data_u (logic_tasks s p) \<noteq> NULL" using assms by (simp add: q1_task_def)
  show "live s p" "p \<noteq> NULL" "insert p (task_owns s p) \<subseteq> live_blocks (tmem s)"
    using w by (auto simp: task_wf_def live_def)
  show "insert p (task_owns s p) \<inter> evtd_blocks s = {}"
    "task_qos (logic_tasks s p) = XI_MQTT_QOS_AT_LEAST_ONCE" using assms by (simp_all add: q1_task_def)
  show "live s (data_u (logic_tasks s p))" using w d by (auto simp: task_wf_def live_def task_owns_def)
  show "mem_ok (tmem s)" "evtd_blocks s \<subseteq> live_blocks (tmem s)" using s by (rule evtd_okD)+
qed

lemma quiet_evtd_disjoint:
  assumes "quiet p B s t" "mem_ok (tmem s)" "A \<subseteq> live_blocks (tmem s)" "A \<inter> evtd_blocks s = {}"
  shows "A \<inter> evtd_blocks t = {}"
proof -
  have "a < next_block (tmem s)" if "a \<in> A" for a using assms(2,3) that by (auto simp: mem_ok_def)
  moreover have "evtd_blocks t \<subseteq> evtd_blocks s \<union> {a. next_block (tmem s) \<le> a}" using assms(1) by (simp add: quiet_def)
  ultimately show ?thesis using assms(4) by fastforce
qed

text \<open>What a resumption of \<open>p\<close> that does not finish it keeps.\<close>

lemma q1_task_quiet:
  assumes s: "q1_task s p" and r: "quiet p B s t" and b: "B \<inter> insert p (task_owns s p) = {}"
    and lt: "task_qos (logic_tasks t p) = task_qos (logic_tasks s p)" "data_u (logic_tasks t p) = data_u (logic_tasks s p)"
      "scenario (logic_tasks t p) = scenario (logic_tasks s p)"
    and h: "task_cs (logic_tasks t p) \<noteq> 105 \<longrightarrow> handles t p = NULL"
  shows "q1_task t p" "task_owns t p = task_owns s p" "insert p (task_owns s p) \<subseteq> live_blocks (tmem t)"
proof -
  note d = q1_taskD [OF s]
  have same: "task_data t = task_data s" "io_timeouts t = io_timeouts s" "current_step t = current_step s"
    and l: "live_blocks (tmem s) - evtd_blocks s - B \<subseteq> live_blocks (tmem t)"
    and e: "evtd_ok t" "evtd_blocks t \<subseteq> evtd_blocks s \<union> {a. next_block (tmem s) \<le> a}"
    using r unfolding quiet_def touches_def by blast+
  show o: "task_owns t p = task_owns s p" using lt same by (simp add: task_owns_def)
  show live: "insert p (task_owns s p) \<subseteq> live_blocks (tmem t)" using d(5,6) b l by blast
  have "insert p (task_owns s p) \<inter> evtd_blocks t = {}" using r d(10,6,5) by (rule quiet_evtd_disjoint)
  moreover have "task_wf t p"
    using d(2,4) live o lt same by (auto simp: task_wf_def live_def data_fits_def split: xi_mqtt_task_specific_data.splits)
  ultimately show "q1_task t p" using s same o lt h e by (simp add: q1_task_def)
qed

section \<open>Finishing\<close>

text \<open>The call that tells the application, if it wants to be told.\<close>

definition note_calls :: "('f, 'z) xi_logic_scheme \<Rightarrow> addr \<Rightarrow> xi_state \<Rightarrow> 'f logic_handle list" where
  "note_calls s p st = (let cb = callback (logic_tasks s p)
     in if xi_handle_disposed cb = 0 then [cb\<lparr>handlers := put_a3 st (handlers cb)\<rparr>] else [])"

text \<open>
  The task and its data are gone, the application has been told \<open>st\<close>, unless the call could not
  be posted.
\<close>

definition q1_finished :: "('f, 'z) xi_logic_scheme \<Rightarrow> ('f, 'z) xi_logic_scheme \<Rightarrow> addr \<Rightarrow> xi_state \<Rightarrow> bool" where
  "q1_finished s t p st \<longleftrightarrow>
     (\<exists>calls. call_queue t = call_queue s @ calls
        \<and> (map snd calls = note_calls s p st \<or> calls = [] \<and> alloc_script (tmem s) \<noteq> []))
     \<and> q12_tasks_queue (layer_data t) = remove1 p (q12_tasks_queue (layer_data s))
     \<and> insert p (task_owns s p) \<inter> live_blocks (tmem t) = {}"

lemma defer_callback:
  assumes s: "evtd_ok s" and p: "live s p"
  obtains t calls where "xi_mqtt_logic_task_defer_users_callback p st s = Some t" "quiet p {} s t"
    "logic_tasks t = logic_tasks s" "mqtt_messages t = mqtt_messages s" "layer_data t = layer_data s"
    "handles t = handles s" "call_queue t = call_queue s @ calls"
    "map snd calls = note_calls s p st \<or> calls = [] \<and> alloc_script (tmem s) \<noteq> []"
    "live_blocks (tmem s) \<subseteq> live_blocks (tmem t)"
proof (cases "xi_handle_disposed (callback (logic_tasks s p)) = 0")
  case True
  let ?h = "(callback (logic_tasks s p))\<lparr>handlers := put_a3 st (handlers (callback (logic_tasks s p)))\<rparr>"
  from s show thesis
  proof (cases rule: quiet_execute [of s ?h p])
    case (1 q t)
    then show thesis
      using True p that [of t "if q = NULL then [] else [(q, ?h)]"]
      by (cases "q = NULL")
        (auto simp: xi_mqtt_logic_task_defer_users_callback_def deref_task_def note_calls_def Let_def)
  qed
next
  case False
  then show thesis
    using p that [of s "[]"] quiet_refl [OF s]
    by (simp add: xi_mqtt_logic_task_defer_users_callback_def deref_task_def note_calls_def)
qed


lemma set_task_cs_eq:
  "live s p \<Longrightarrow> set_task_cs label p s =
     Some (s\<lparr>logic_tasks := (logic_tasks s)(p := (logic_tasks s p)\<lparr>task_cs := label\<rparr>)\<rparr>)"
  by (simp add: set_task_cs_def update_task_def)

text \<open>How both the confirmed and the failed coroutine end.\<close>

definition finish_q1 ::
    "('f, 'z) logic_environment \<Rightarrow> nat \<Rightarrow> addr \<Rightarrow> xi_state \<Rightarrow> addr \<Rightarrow> ('f, 'z) xi_logic_scheme \<Rightarrow> ('f, 'z) logic_result"
where
  "finish_q1 env label p st msg s =
     xi_mqtt_logic_task_defer_users_callback p st s \<bind> free_message msg \<bind> xi_mqtt_logic_free_task_data p
       \<bind> set_task_cs label p \<bind> xi_mqtt_logic_layer_finalize_task env p"

lemma free_arg:
  assumes "arg_ok s p msg"
  shows "free_message msg s = Some (s\<lparr>tmem := release (arg_blocks s msg) (tmem s)\<rparr>)"
  using assms free_message_release [of msg s] by (cases "msg = NULL") (auto simp: arg_ok_def free_message_def arg_blocks_def)

lemma finish_q1_spec:
  assumes s: "q1_task s p" and h: "handles s p = NULL" and a: "arg_ok s p msg"
  obtains t where "finish_q1 env label p st msg s = Some (XI_STATE_OK, t)" "q1_finished s t p st"
    "quiet p (insert p (task_owns s p) \<union> arg_blocks s msg) s t"
proof -
  note d = q1_taskD [OF s]
  obtain s1 calls where s1: "xi_mqtt_logic_task_defer_users_callback p st s = Some s1" "quiet p {} s s1"
    "logic_tasks s1 = logic_tasks s" "mqtt_messages s1 = mqtt_messages s" "layer_data s1 = layer_data s"
    "handles s1 = handles s" "call_queue s1 = call_queue s @ calls"
    "map snd calls = note_calls s p st \<or> calls = [] \<and> alloc_script (tmem s) \<noteq> []"
    "live_blocks (tmem s) \<subseteq> live_blocks (tmem s1)"
    by (rule defer_callback [OF d(1,3)])
  have q1: "q1_task s1 p" "task_owns s1 p = task_owns s p"
    using q1_task_quiet [OF s s1(2)] s1 h by simp_all
  note d1 = q1_taskD [OF q1(1)]
  have ab: "arg_blocks s1 msg = arg_blocks s msg" using s1 by (simp add: arg_blocks_def)
  note ad = arg_okD [OF a]
  have disj: "arg_blocks s msg \<inter> evtd_blocks s1 = {}" "arg_blocks s msg \<inter> insert p (task_owns s p) = {}"
    using quiet_evtd_disjoint [OF s1(2) d(10) ad(1,2)] ad(3) by simp_all
  have a1: "arg_ok s1 p msg"
    using a s1(4,9) disj q1(2) ad(1) by (auto simp: arg_ok_def ab live_def)
  let ?s2 = "s1\<lparr>tmem := release (arg_blocks s msg) (tmem s1)\<rparr>"
  have f2: "free_message msg s1 = Some ?s2" using free_arg [OF a1] by (simp add: ab)
  have r2: "quiet p (arg_blocks s msg) s1 ?s2" using d1(1) disj(1) by (rule quiet_release)
  have q2: "q1_task ?s2 p" "task_owns ?s2 p = task_owns s p"
    using q1_task_quiet [OF q1(1) r2] disj(2) q1(2) s1(6) h by simp_all
  note d2 = q1_taskD [OF q2(1)]
  let ?s3 = "?s2\<lparr>tmem := release (task_owns s p) (tmem ?s2),
      logic_tasks := (logic_tasks ?s2)(p := (logic_tasks ?s2 p)\<lparr>data_u := NULL\<rparr>)\<rparr>"
  have f3: "xi_mqtt_logic_free_task_data p ?s2 = Some ?s3"
    using free_task_data_release [OF d2(2,7)] s1(6) h q2(2) by simp
  have r3a: "quiet p (task_owns s p) ?s2 (?s2\<lparr>tmem := release (task_owns s p) (tmem ?s2)\<rparr>)"
    using d2(1) by (rule quiet_release) (use d2(5) q2(2) in auto)
  have e3a: "evtd_ok (?s2\<lparr>tmem := release (task_owns s p) (tmem ?s2)\<rparr>)" using r3a unfolding quiet_def by blast
  have r3: "quiet p (task_owns s p \<union> {}) ?s2 ?s3"
    by (rule quiet_trans [OF r3a quiet_tasks [OF e3a]]) simp
  let ?s4 = "?s3\<lparr>logic_tasks := (logic_tasks ?s3)(p := (logic_tasks ?s3 p)\<lparr>task_cs := label\<rparr>)\<rparr>"
  have live3: "live ?s3 p" using d2(3) d2(2) q2(2) by (auto simp: live_def task_wf_def)
  then have f4: "set_task_cs label p ?s3 = Some ?s4" by (rule set_task_cs_eq)
  have e3: "evtd_ok ?s3" using r3 by (simp add: quiet_def)
  have r4: "quiet p {} ?s3 ?s4" using e3 by (rule quiet_task)
  have e4: "evtd_ok ?s4" using r4 by (simp add: quiet_def)
  have o4: "task_owns ?s4 p = {}" by (simp add: task_owns_def)
  then have w4: "task_wf ?s4 p" using live3 by (simp add: task_wf_def live_def)
  have b4: "insert p (task_owns ?s4 p) \<inter> evtd_blocks ?s4 = {}" using o4 d2(5) by simp
  have qos4: "task_qos (logic_tasks ?s4 p) \<noteq> XI_MQTT_QOS_AT_MOST_ONCE" using d2(8) by simp
  have h4: "handles ?s4 p = NULL" using s1(6) h by simp
  obtain t where t: "xi_mqtt_logic_layer_finalize_task env p ?s4 = Some (XI_STATE_OK, t)"
    "quiet p (insert p (task_owns ?s4 p)) ?s4 t" "call_queue t = call_queue ?s4"
    "q12_tasks_queue (layer_data t) = remove1 p (q12_tasks_queue (layer_data ?s4))"
    "live_blocks (tmem t) = live_blocks (tmem ?s4) - insert p (task_owns ?s4 p)" "handles t = handles ?s4"
    "mqtt_messages t = mqtt_messages ?s4"
    by (rule finalize_q12 [OF w4 e4 qos4 h4 b4])
  have "quiet p (({} \<union> arg_blocks s msg \<union> (task_owns s p \<union> {}) \<union> {}) \<union> insert p (task_owns ?s4 p)) s t"
    by (intro quiet_trans [OF _ t(2)] quiet_trans [OF _ r4] quiet_trans [OF _ r3] quiet_trans [OF s1(2) r2])
  then have "quiet p (insert p (task_owns s p) \<union> arg_blocks s msg) s t"
    by (rule quiet_mono) (use o4 in auto)
  moreover have "q1_finished s t p st"
    using t s1 o4 unfolding q1_finished_def by (intro conjI exI [of _ calls]) auto
  moreover have "finish_q1 env label p st msg s = Some (XI_STATE_OK, t)"
    using s1(1) f2 f3 f4 t(1) by (simp add: finish_q1_def)
  ultimately show thesis using that by blast
qed


lemma publish_q1_err_finish:
  "finish_q1 env 2 p st msg s = Some (r, t) \<Longrightarrow> publish_q1_err env p st msg s = Some (st, t)"
proof -
  assume "finish_q1 env 2 p st msg s = Some (r, t)"
  then obtain s1 s2 s3 s4 where f: "xi_mqtt_logic_task_defer_users_callback p st s = Some s1" "free_message msg s1 = Some s2"
    "xi_mqtt_logic_free_task_data p s2 = Some s3" "set_task_cs 2 p s3 = Some s4"
    "xi_mqtt_logic_layer_finalize_task env p s4 = Some (r, t)"
    by (auto simp: finish_q1_def bind_eq_Some_conv)
  moreover obtain task where "deref_task s2 p = Some task" "data_u task \<noteq> NULL"
    using f(3) by (cases "deref_task s2 p"; cases "data_u (the (deref_task s2 p)) = NULL")
      (simp_all add: xi_mqtt_logic_free_task_data_def)
  ultimately show "publish_q1_err env p st msg s = Some (st, t)" by (simp add: publish_q1_err_def)
qed

section \<open>Sending\<close>

definition push_handle :: "('f, 'z) xi_logic_scheme \<Rightarrow> addr \<Rightarrow> 'f logic_handle" where
  "push_handle s msg = xi_make_handle_argc3 0 (Other_Fn (Prev_Layer Push)) (prev_context s) msg XI_STATE_OK"

lemma process_push:
  assumes s: "evtd_ok s" and c: "prev_context s \<noteq> NULL"
  obtains q t where "process_on_prev Push msg XI_STATE_OK s = (if q = NULL then XI_OUT_OF_MEMORY else XI_STATE_OK, t)"
    "quiet p {} s t" "logic_tasks t = logic_tasks s" "mqtt_messages t = mqtt_messages s"
    "layer_data t = layer_data s" "handles t = handles s" "live_blocks (tmem s) \<subseteq> live_blocks (tmem t)"
    "call_queue t = call_queue s @ (if q = NULL then [] else [(q, push_handle s msg)])"
    "alloc_script (tmem s) = [] \<Longrightarrow> q \<noteq> NULL"
proof -
  obtain q t where t: "xi_evtd_execute s (push_handle s msg) = (q, t)" "quiet p {} s t" "logic_tasks t = logic_tasks s"
    "mqtt_messages t = mqtt_messages s" "layer_data t = layer_data s" "handles t = handles s"
    "call_queue t = call_queue s @ (if q = NULL then [] else [(q, push_handle s msg)])"
    "alloc_script (tmem s) = [] \<Longrightarrow> q \<noteq> NULL" "live_blocks (tmem s) \<subseteq> live_blocks (tmem t)"
    using quiet_execute [OF s] by metis
  have "layer_state t = layer_state s" using t(2) by (simp add: quiet_def touches_def)
  then have "t\<lparr>layer_state := layer_state s\<rparr> = t" by simp
  then have "process_on_prev Push msg XI_STATE_OK s = (if q = NULL then XI_OUT_OF_MEMORY else XI_STATE_OK, t)"
    using t(1) c by (simp add: process_on_prev_def process_on_def xi_layer_continue_with_impl_def push_handle_def)
  then show thesis using t that by blast
qed

text \<open>The message of a publication: allocated, filled in, not yet on its way.\<close>

lemma publish_fill_eq:
  assumes "task_data s (data_u (logic_tasks s p)) = Publish_Data topic (Some cnt) retain"
    "live s p" "live s (data_u (logic_tasks s p))"
  shows "publish_fill s p qos dup ident = (\<lambda>msg m. fill_with_publish_data msg
      (case topic of None \<Rightarrow> (NULL, []) | Some t \<Rightarrow> t) cnt qos retain dup ident m)"
  using assms by (intro ext) (simp add: publish_fill_def deref_task_def deref_data_def)

lemma alloc_message_cases:
  assumes s: "evtd_ok s"
  obtains (fail) t where "alloc_message s = (NULL, t)" "quiet p {} s t" "logic_tasks t = logic_tasks s"
      "mqtt_messages t = mqtt_messages s" "layer_data t = layer_data s" "handles t = handles s"
      "call_queue t = call_queue s" "live_blocks (tmem s) \<subseteq> live_blocks (tmem t)" "alloc_script (tmem s) \<noteq> []"
  | (ok) b t where "alloc_message s = (b, t)" "quiet p {} s t" "logic_tasks t = logic_tasks s"
      "mqtt_messages t b = empty_message b" "layer_data t = layer_data s" "handles t = handles s"
      "call_queue t = call_queue s" "live_blocks (tmem s) \<subseteq> live_blocks (tmem t)" "live t b"
      "next_block (tmem s) \<le> b" "b \<noteq> NULL" "b \<notin> evtd_blocks t" "b \<notin> live_blocks (tmem s)"
proof -
  obtain b m where a: "xi_alloc sizeof_xi_mqtt_message (tmem s) = (b, m)" by fastforce
  have m: "mem_ok (tmem s)" using s by (rule evtd_okD)
  note g = grows_alloc [OF a m]
  show thesis
  proof (cases "b = NULL")
    case True
    then show thesis
      using fail [of "s\<lparr>tmem := m\<rparr>"] quiet_mem [OF s g(1)] a g
      by (auto simp: alloc_message_def grows_def sizeof_xi_mqtt_message_def PTRDIFF_MAX_def)
  next
    case False
    let ?t = "s\<lparr>tmem := m, mqtt_messages := (mqtt_messages s)(b := empty_message b)\<rparr>"
    have e: "evtd_ok (s\<lparr>tmem := m\<rparr>)" using quiet_mem [OF s g(1)] by (auto simp: quiet_def)
    have "quiet p ({} \<union> {}) s ?t"
      using quiet_mem [OF s g(1), of p] g False e by (auto simp: quiet_def touches_def)
    moreover have "b \<notin> evtd_blocks s"
      using evtd_okD(3) [OF s] g(2) False by auto
    ultimately show thesis
      using ok [of b ?t] a g False by (auto simp: alloc_message_def grows_def live_def Let_def)
  qed
qed


lemma message_filled:
  assumes "quiet p {} s u" "next_block (tmem s) \<le> b" "grows (tmem u) m"
  shows "quiet p {} s (u\<lparr>tmem := m, mqtt_messages := (mqtt_messages u)(b := msg)\<rparr>)"
proof -
  have eu: "evtd_ok u" using assms(1) by (simp add: quiet_def)
  have "quiet p ({} \<union> {}) s (u\<lparr>tmem := m\<rparr>)" by (rule quiet_trans [OF assms(1) quiet_mem [OF eu assms(3)]])
  then show ?thesis using assms(2) by (simp add: quiet_def touches_def)
qed

lemma q1_finished_from:
  assumes "quiet p B s s2" "call_queue s2 = call_queue s"
    "q12_tasks_queue (layer_data s2) = q12_tasks_queue (layer_data s)"
    "callback (logic_tasks s2 p) = callback (logic_tasks s p)" "task_owns s2 p = task_owns s p" "q1_finished s2 t p st"
  shows "q1_finished s t p st"
proof -
  have "alloc_script (tmem s2) \<noteq> [] \<Longrightarrow> alloc_script (tmem s) \<noteq> []" using assms(1) by (auto simp: quiet_def)
  moreover have "note_calls s2 p st = note_calls s p st" using assms(4) by (simp add: note_calls_def)
  ultimately show ?thesis using assms(2,3,5,6) unfolding q1_finished_def by auto
qed

lemma q1_err_spec:
  assumes s: "q1_task s p" and q: "quiet p {} s u" and u: "call_queue u = call_queue s" "layer_data u = layer_data s"
    "logic_tasks u = logic_tasks s" and h: "handles u p = NULL" and a: "arg_ok u p msg"
  obtains t where "publish_q1_err env p st msg u = Some (st, t)" "q1_finished s t p st"
    "quiet p (insert p (task_owns s p) \<union> arg_blocks u msg) s t"
proof -
  have k: "q1_task u p" "task_owns u p = task_owns s p" using q1_task_quiet [OF s q] u h by simp_all
  obtain t where t: "finish_q1 env 2 p st msg u = Some (XI_STATE_OK, t)" "q1_finished u t p st"
    "quiet p (insert p (task_owns u p) \<union> arg_blocks u msg) u t"
    by (rule finish_q1_spec [OF k(1) h a])
  show thesis
  proof (rule that)
    show "publish_q1_err env p st msg u = Some (st, t)" using t(1) by (rule publish_q1_err_finish)
    show "q1_finished s t p st" by (rule q1_finished_from [OF q _ _ _ k(2) t(2)]) (simp_all add: u)
    show "quiet p (insert p (task_owns s p) \<union> arg_blocks u msg) s t"
      using quiet_trans [OF q t(3)] k(2) by simp
  qed
qed

text \<open>
  Sending either puts exactly one packet on its way and waits for it to be written, or loses it
  because the call could not be posted, or gives the task up with an error.
\<close>

definition dup_of :: "xi_state \<Rightarrow> xi_mqtt_dup" where
  "dup_of st = (if st = XI_STATE_RESEND then XI_MQTT_DUP_TRUE else XI_MQTT_DUP_FALSE)"

lemma q1_send_cases:
  assumes s: "q1_task s p" and h: "handles s p = NULL" and c: "prev_context s \<noteq> NULL"
  obtains (sent) q msg t where "publish_q1_send env p st s = Some (XI_STATE_OK, t)" "quiet p {} s t"
      "call_queue t = call_queue s @ [(q, push_handle s msg)]" "packet_of s p (dup_of st) (mqtt_messages t msg)"
      "live t msg" "msg \<notin> live_blocks (tmem s)" "logic_tasks t p = (logic_tasks s p)\<lparr>task_cs := 73\<rparr>"
      "handles t p = NULL" "layer_data t = layer_data s"
  | (lost) t where "publish_q1_send env p st s = Some (XI_OUT_OF_MEMORY, t)" "quiet p {} s t"
      "call_queue t = call_queue s" "logic_tasks t p = (logic_tasks s p)\<lparr>task_cs := 73\<rparr>"
      "handles t p = NULL" "layer_data t = layer_data s" "\<not> sendable s p"
  | (failed) e B t where "publish_q1_send env p st s = Some (e, t)" "e \<noteq> XI_STATE_OK" "q1_finished s t p e"
      "quiet p (insert p (task_owns s p) \<union> B) s t" "B \<inter> live_blocks (tmem s) = {}" "\<not> sendable s p"
proof -
  note d = q1_taskD [OF s]
  let ?d = "data_u (logic_tasks s p)"
  let ?ident = "msg_id (logic_tasks s p)"
  have "publishable (task_data s ?d)" using s by (simp add: q1_task_def)
  then obtain topic cnt retain where td: "task_data s ?d = Publish_Data topic (Some cnt) retain"
    and pub: "\<forall>tp c. topic = Some (tp, c) \<longrightarrow> tp \<noteq> NULL \<longrightarrow> 0 \<in> set c \<and> length c < 2 ^ 32"
      "desc_ok cnt" "data_ptr cnt \<noteq> NULL"
    by (auto simp: publishable_def split: xi_mqtt_task_specific_data.splits)
  obtain tp c where tc: "(case topic of None \<Rightarrow> (NULL, []) | Some t \<Rightarrow> t) = (tp, c)"
    "tp \<noteq> NULL \<longrightarrow> 0 \<in> set c \<and> length c < 2 ^ 32" "tp \<noteq> NULL \<Longrightarrow> topic = Some (tp, c)"
    using pub(1) by (cases topic) auto
  let ?fill = "\<lambda>msg m. fill_with_publish_data msg (tp, c) cnt XI_MQTT_QOS_AT_LEAST_ONCE retain (dup_of st) ?ident m"
  have send: "publish_q1_send env p st s = send_message ?fill no_mid (publish_q1_err env p) 73 p s"
    using publish_fill_eq [OF td d(3,9)] d(3) by (simp add: publish_q1_send_def deref_task_def dup_of_def tc(1))
  have ns: "\<not> sendable s p"
    if "tp = NULL \<or> alloc_script (tmem s) \<noteq> [] \<or> XI_MQTT_MAX_PAYLOAD_SIZE < unat (desc_length cnt)"
    using that tc(1) td by (cases topic) (auto simp: sendable_def)
  from d(1) show thesis
  proof (cases rule: alloc_message_cases [of s p])
    case (fail u)
    obtain t where t: "publish_q1_err env p XI_OUT_OF_MEMORY NULL u = Some (XI_OUT_OF_MEMORY, t)"
      "q1_finished s t p XI_OUT_OF_MEMORY" "quiet p (insert p (task_owns s p) \<union> arg_blocks u NULL) s t"
      by (rule q1_err_spec [OF s fail(2,7,5,3) _ arg_NULL(1)]) (use fail h in simp_all)
    then show thesis
      using ns fail(1,9) by (intro failed [of XI_OUT_OF_MEMORY t "{}"])
        (simp_all add: send send_message_def arg_blocks_def)
  next
    case u: (ok b u)
    have eu: "evtd_ok u" and mu: "mem_ok (tmem u)"
      and su: "alloc_script (tmem s) = [] \<longrightarrow> alloc_script (tmem u) = []"
      using u(2) evtd_okD(2) by (auto simp: quiet_def)
    from mu tc(2) pub(2,3) show thesis
    proof (cases rule: fill_publish_cases [of "tmem u" tp c cnt b XI_MQTT_QOS_AT_LEAST_ONCE retain "dup_of st" ?ident])
      case (fail e msg m)
      let ?v = "u\<lparr>tmem := m, mqtt_messages := (mqtt_messages u)(b := msg)\<rparr>"
      have em: "evtd_ok (u\<lparr>tmem := m\<rparr>)" using quiet_mem [OF eu fail(2), of p] unfolding quiet_def by blast
      have v: "quiet p {} s ?v" by (rule message_filled [OF u(2,10) fail(2)])
      have lm: "live_blocks (tmem u) \<subseteq> live_blocks m" using fail(2) by (simp add: grows_def)
      have eb: "evtd_blocks u \<subseteq> live_blocks (tmem u)" using eu by (rule evtd_okD)
      have o: "insert p (task_owns s p) \<subseteq> live_blocks (tmem s)" "task_owns ?v p = task_owns s p"
        using d(6) u(2,3) by (auto simp: task_owns_def quiet_def touches_def)
      have lb: "b \<in> live_blocks (tmem u)" using u(9) by (simp add: live_def)
      have "message_blocks msg \<subseteq> live_blocks m - evtd_blocks u - insert p (task_owns s p)"
        using fail(5) u(8,12,13) lm eb o(1) lb by blast
      then have arg: "arg_ok ?v p b"
        using u(9,11) lm fail(4) o(2) by (auto simp: arg_ok_def arg_blocks_def live_def)
      obtain t where t: "publish_q1_err env p e b ?v = Some (e, t)" "q1_finished s t p e"
        "quiet p (insert p (task_owns s p) \<union> arg_blocks ?v b) s t"
        by (rule q1_err_spec [OF s v _ _ _ _ arg]) (use u h in simp_all)
      have e: "e \<noteq> XI_STATE_OK" using fail(3) by auto
      have "publish_q1_send env p st s = Some (e, t)"
        using u(1,4,9,11) fail(1) e t(1)
        by (simp add: send send_message_def fill_message_def deref_message_def)
      moreover have "arg_blocks ?v b \<inter> live_blocks (tmem s) = {}"
        using fail(5) u(8,11,13) by (auto simp: arg_blocks_def)
      moreover have "\<not> sendable s p" using ns fail(6) su by auto
      ultimately show thesis using failed [OF _ e t(2,3)] by blast
    next
      case (ok msg m)
      let ?v = "u\<lparr>tmem := m, mqtt_messages := (mqtt_messages u)(b := msg)\<rparr>"
      let ?w = "?v\<lparr>logic_tasks := (logic_tasks ?v)(p := (logic_tasks ?v p)\<lparr>task_cs := 73\<rparr>)\<rparr>"
      have v: "quiet p {} s ?v" by (rule message_filled [OF u(2,10) ok(2)])
      have lm: "live_blocks (tmem u) \<subseteq> live_blocks m" using ok(2) by (simp add: grows_def)
      have ev: "evtd_ok ?v" using v unfolding quiet_def by blast
      have w: "quiet p ({} \<union> {}) s ?w" using quiet_trans [OF v quiet_task [OF ev]] by simp
      have ew: "evtd_ok ?w" using w unfolding quiet_def by blast
      have cw: "prev_context ?w = prev_context s" using w by (simp add: quiet_def touches_def)
      then have cw0: "prev_context ?w \<noteq> NULL" using c by simp
      have livep: "live ?v p" using d(3) u(8) lm by (auto simp: live_def)
      obtain q t where t: "process_on_prev Push b XI_STATE_OK ?w = (if q = NULL then XI_OUT_OF_MEMORY else XI_STATE_OK, t)"
        "quiet p {} ?w t" "logic_tasks t = logic_tasks ?w" "mqtt_messages t = mqtt_messages ?w"
        "layer_data t = layer_data ?w" "handles t = handles ?w" "live_blocks (tmem ?w) \<subseteq> live_blocks (tmem t)"
        "call_queue t = call_queue ?w @ (if q = NULL then [] else [(q, push_handle ?w b)])"
        "alloc_script (tmem ?w) = [] \<Longrightarrow> q \<noteq> NULL"
        by (rule process_push [OF ew cw0], rule that)
      have r: "publish_q1_send env p st s = Some (if q = NULL then XI_OUT_OF_MEMORY else XI_STATE_OK, t)"
        using u(1,4,9,11) ok(1) t(1) set_task_cs_eq [OF livep]
        by (simp add: send send_message_def fill_message_def deref_message_def no_mid_def)
      have qt: "quiet p {} s t" using quiet_trans [OF w t(2)] by simp
      have ph: "push_handle ?w b = push_handle s b" using cw by (simp add: push_handle_def)
      have lt: "logic_tasks t p = (logic_tasks s p)\<lparr>task_cs := 73\<rparr>" "handles t p = NULL" "layer_data t = layer_data s"
        using t u h by simp_all
      show thesis
      proof (cases "q = NULL")
        case True
        have "alloc_script (tmem ?w) \<noteq> []" using t(9) True by blast
        then have "alloc_script (tmem s) \<noteq> []" using w by (auto simp: quiet_def)
        then have "\<not> sendable s p" using ns by blast
        then show thesis using lost [of t] r qt lt True t(8) u(7) by simp
      next
        case False
        have "packet_of s p (dup_of st) (mqtt_messages t b)"
          using t(4) ok(3) tc(3) [OF ok(6)] td by (simp add: packet_of_def)
        moreover have "live t b" using t(7) u(9,11) lm by (auto simp: live_def)
        ultimately show thesis
          using sent [of t q b] r qt lt False t(8) u(7,13) ph by simp
      qed
    qed
  qed
qed


section \<open>Timers\<close>

lemma move_loop_tmem: "xi_time_event_move_loop s i n = Some t \<Longrightarrow> tmem t = tmem s"
proof (induction s i n rule: xi_time_event_move_loop.induct)
  case (1 s i n)
  show ?case
  proof (cases "i < n")
    case True
    then obtain u where u: "xi_swap_time_events s i (i + 1) = Some u" "xi_time_event_move_loop u (i + 1) n = Some t"
      using "1.prems" by (subst (asm) xi_time_event_move_loop.simps) (auto split: bind_splits)
    then show ?thesis using "1.IH" [OF True u] xi_swap_time_events_tmem [OF u(1)] by simp
  next
    case False
    then show ?thesis using "1.prems" by (subst (asm) xi_time_event_move_loop.simps) simp
  qed
qed

lemma xi_evtd_cancel_script:
  assumes "xi_evtd_cancel s h = Some (r, t)"
  shows "alloc_script (tmem t) = alloc_script (tmem s)"
proof -
  obtain p u where c: "xi_time_event_cancel s h = Some (r, p, u)" and t: "alloc_script (tmem t) = alloc_script (tmem u)"
    using assms by (auto simp: xi_evtd_cancel_def split: bind_splits option.splits)
  have "tmem u = tmem s"
    using c by (auto simp: xi_time_event_cancel_def xi_time_event_move_to_the_end_def xi_time_event_dispose_time_event_def
        split: bind_splits if_splits dest: move_loop_tmem)
  then show ?thesis using t by simp
qed

lemma timeouts_find_absent:
  assumes "vec_ok v" "p \<notin> set (elems v)"
  shows "xi_vector_find v p xi_io_timeouts_compare_pointers = Some (-1)"
proof -
  show ?thesis
  proof (rule xi_vector_find_spec [of v xi_io_timeouts_compare_pointers p "\<lambda>x. if x = p then 0 else 1"])
    show "vec_ok v" by (rule assms)
    show "xi_io_timeouts_compare_pointers x p = Some (if x = p then 0 else 1)" if "x \<in> set (elems v)" for x
      by (simp add: xi_io_timeouts_compare_pointers_def)
  next
    fix r
    assume r: "0 \<le> r" "r < elem_no v" "(if elems v ! nat r = p then 0 else 1) = (0::int)"
    then have "nat r < length (elems v)" using assms(1) by (auto simp: vec_ok_def elems_def)
    then have "elems v ! nat r \<in> set (elems v)" by (rule nth_mem)
    then show ?thesis using assms(2) r(3) by (auto split: if_splits)
  qed
qed

lemma same_logic_touches:
  fixes s t :: "('f, 'z) xi_logic_scheme"
  assumes "time_events.more t = time_events.more s"
  shows "touches s t" "logic_tasks t = logic_tasks s" "mqtt_messages t = mqtt_messages s"
    "layer_data t = layer_data s" "call_queue t = call_queue s" "connection_data t = connection_data s"
proof -
  obtain v e h m where t: "t = s\<lparr>tv := v, tevs := e, handles := h, tmem := m\<rparr>" by (rule same_logic [OF assms])
  show "touches s t" by (simp add: t touches_def)
  show "logic_tasks t = logic_tasks s" "mqtt_messages t = mqtt_messages s" "layer_data t = layer_data s"
    "call_queue t = call_queue s" "connection_data t = connection_data s" by (simp_all add: t)
qed

lemma cancel_timeout_quiet:
  assumes s: "q1_task s p"
  obtains t where "cancel_task_timeout p s = Some t" "quiet p {handles s p} s t" "handles t p = NULL"
    "logic_tasks t = logic_tasks s" "mqtt_messages t = mqtt_messages s" "layer_data t = layer_data s"
    "call_queue t = call_queue s" "handles s p \<notin> insert p (task_owns s p)"
    "live_blocks (tmem t) = live_blocks (tmem s) - {handles s p}"
proof (cases "handles s p = NULL")
  case True
  have "0 \<notin> live_blocks (tmem s)" using q1_taskD(10) [OF s] by (auto simp: mem_ok_def)
  then have "0 \<notin> task_owns s p" using q1_taskD(6) [OF s] by blast
  then show thesis
    using True that [of s] q1_taskD(1,3,4) [OF s] quiet_refl [of s p "{NULL}"] \<open>0 \<notin> live_blocks (tmem s)\<close>
    by (simp add: cancel_task_timeout_def deref_task_def)
next
  case False
  note d = q1_taskD [OF s]
  have io: "vec_ok (io_timeouts s)" "p \<notin> set (elems (io_timeouts s))" using s by (simp_all add: q1_task_def)
  have rm: "xi_io_timeouts_remove p (io_timeouts s) = Some (io_timeouts s)"
    using timeouts_find_absent [OF io] d(4) by (simp add: xi_io_timeouts_remove_def)
  obtain t where t: "xi_evtd_cancel s p = Some (XI_STATE_OK, t)" "evtd_frame s t"
    "handles t = (handles s)(p := NULL)"
    "live_blocks (tmem t) = live_blocks (tmem s) - {handles s p}"
    "time_events.more t = time_events.more s"
    by (rule xi_evtd_cancel_spec [OF d(1) False], rule that)
  have m: "touches s t" "logic_tasks t = logic_tasks s" "mqtt_messages t = mqtt_messages s"
    "layer_data t = layer_data s" "call_queue t = call_queue s" "connection_data t = connection_data s"
    by (rule same_logic_touches [OF t(5)])+
  have "quiet p {handles s p} s t"
    using m t(2-4) xi_evtd_cancel_script [OF t(1)] by (auto simp: quiet_def evtd_frame_def d(1))
  moreover have "handles s p \<in> evtd_blocks s"
  proof -
    have "queue_handles s" using d(1) by (simp add: evtd_ok_def tev_ok_def tev_struct_def)
    then have "handles s p \<in> set (queue s)" using False by (rule queue_handlesD(3))
    then show ?thesis by (simp add: evtd_blocks_def timer_blocks_def)
  qed
  then have "handles s p \<notin> insert p (task_owns s p)" using d(5) by auto
  moreover have "cancel_task_timeout p s = Some t"
    using d(3) False rm t(1,3) by (simp add: cancel_task_timeout_def deref_task_def)
  ultimately show thesis using that m t(3,4) by simp
qed


lemma xi_vector_push_memory:
  assumes "xi_vector_push v x m = Some (r, v', m')"
  shows "alloc_script m = [] \<longrightarrow> alloc_script m' = []" "live_blocks m - {array_block v} \<subseteq> live_blocks m'"
  using assms
  by (auto simp: xi_vector_push_def xi_vector_realloc_def Let_def xi_alloc_def split: bind_splits if_splits prod.splits)

lemma xi_evtd_execute_in_memory:
  assumes r: "xi_evtd_execute_in s h d c = Some (st, t)"
  shows "alloc_script (tmem s) = [] \<longrightarrow> alloc_script (tmem t) = []"
    "live_blocks (tmem s) - {array_block (tv s)} \<subseteq> live_blocks (tmem t)"
proof -
  obtain p m1 where a: "xi_alloc sizeof_xi_time_event (tmem s) = (p, m1)" by fastforce
  have m1: "alloc_script (tmem s) = [] \<longrightarrow> alloc_script m1 = []" "live_blocks (tmem s) \<subseteq> live_blocks m1"
    using a by (auto simp: xi_alloc_def split: if_splits)
  have add: "(alloc_script (tmem u) = [] \<longrightarrow> alloc_script (tmem t) = [])
      \<and> live_blocks (tmem u) - {array_block (tv u)} \<subseteq> live_blocks (tmem t)"
    if "xi_time_event_add u p c = Some (st, t)" for u
  proof -
    have "xi_insert_time_event u p \<noteq> None" using that by (auto simp: xi_time_event_add_def bind_eq_Some_conv)
    then obtain r1 s1 where i: "xi_insert_time_event u p = Some (r1, s1)" by auto
    have e: "tmem t = tmem s1"
      using that i by (cases r1)
        (auto simp: xi_time_event_add_def update_event_def bind_eq_Some_conv split: if_splits)
    obtain r2 v m2 where v: "xi_vector_push (tv u) p (tmem u) = Some (r2, v, m2)" "tmem s1 = m2"
      using i by (auto simp: xi_insert_time_event_def xi_time_event_bubble_and_sort_down_def xi_time_event_bubble_core_def
          update_event_def split: bind_splits if_splits dest!: bubble_loop_tmem)
    show ?thesis using xi_vector_push_memory [OF v(1)] v(2) e by simp
  qed
  have "(alloc_script (tmem s) = [] \<longrightarrow> alloc_script (tmem t) = [])
      \<and> live_blocks (tmem s) - {array_block (tv s)} \<subseteq> live_blocks (tmem t)"
  proof (cases "p = NULL")
    case True
    then show ?thesis using r a m1 by (auto simp: xi_evtd_execute_in_def)
  next
    case False
    then obtain x where "xi_time_event_add (s\<lparr>tmem := m1, tevs := (tevs s)(p :=
        \<lparr>event_handle = h, time_of_execution = x, position = 0, time_event_handle = NULL\<rparr>)\<rparr>) p c = Some (st, t)"
      using r a by (auto simp: xi_evtd_execute_in_def split: bind_splits)
    from add [OF this] m1 show ?thesis by auto
  qed
  then show "alloc_script (tmem s) = [] \<longrightarrow> alloc_script (tmem t) = []"
    "live_blocks (tmem s) - {array_block (tv s)} \<subseteq> live_blocks (tmem t)" by auto
qed

definition timer_room :: "('f, 'z) xi_logic_scheme \<Rightarrow> bool" where
  "timer_room s \<longleftrightarrow> alloc_script (tmem s) = [] \<and> elem_no (tv s) < capacity (tv s)"

lemma arm_timer:
  assumes s: "q1_task s p" and h: "handles s p = NULL"
  obtains (armed) t where "xi_evtd_execute_in s fn (uint (k::16 word)) p = Some (XI_STATE_OK, t)" "quiet p {} s t"
      "handles t p \<noteq> NULL" "event_key t (handles t p) = current_step s + uint k"
      "event_handle (tevs t (handles t p)) = fn" "logic_tasks t = logic_tasks s"
      "mqtt_messages t = mqtt_messages s" "layer_data t = layer_data s" "call_queue t = call_queue s"
  | (unarmed) t where "xi_evtd_execute_in s fn (uint k) p = Some (XI_OUT_OF_MEMORY, t)" "quiet p {} s t"
      "handles t = handles s" "logic_tasks t = logic_tasks s"
      "mqtt_messages t = mqtt_messages s" "layer_data t = layer_data s" "call_queue t = call_queue s"
      "\<not> timer_room s"
proof -
  note d = q1_taskD [OF s]
  have "uint k < 2 ^ 32" using uint_lt2p [of k] by simp
  then have la: "long_add (current_step s) (uint k) = Some (current_step s + uint k)"
    using s by (intro long_add_ok) (simp_all add: q1_task_def)
  have room: False if "timer_room s" "xi_evtd_execute_in s fn (uint k) p = Some (XI_OUT_OF_MEMORY, t)" for t
    using xi_evtd_execute_in_room [OF d(1) _ _ that(2)] that(1) by (simp add: timer_room_def)
  note un = xi_evtd_execute_in_memory(1)
  have unarm: thesis
    if t: "xi_evtd_execute_in s fn (uint k) p = Some (XI_OUT_OF_MEMORY, t)" "evtd_frame s t" "handles t = handles s"
      "live_blocks (tmem s) \<subseteq> live_blocks (tmem t)" "time_events.more t = time_events.more s" for t
  proof -
    note m = same_logic_touches [OF t(5)]
    have "quiet p {} s t"
      using m(1-3) t(2-4) un [OF t(1)] by (auto simp: quiet_def evtd_frame_def d(1))
    moreover have "\<not> timer_room s" using room t(1) by blast
    ultimately show thesis using unarmed [of t] t(1,3) m by simp
  qed
  show thesis
  proof (rule xi_evtd_execute_in_spec [OF d(1) _ la, of p fn])
    show "handles s p = NULL" by (rule h)
  next
    fix t
    assume t: "xi_evtd_execute_in s fn (uint k) p = Some (XI_OUT_OF_MEMORY, t)" "evtd_frame s t"
      "t = s\<lparr>tmem := tmem t\<rparr>" "live_blocks (tmem t) = live_blocks (tmem s)"
    have "handles t = handles s" "time_events.more t = time_events.more s"
      by (subst t(3), simp)+
    then show thesis using unarm [OF t(1,2)] t(4) by simp
  next
    fix t q
    assume t: "xi_evtd_execute_in s fn (uint k) p = Some (XI_OUT_OF_MEMORY, t)" "evtd_frame s t"
      "live_blocks (tmem t) = insert q (live_blocks (tmem s))" "handles t = handles s"
      "time_events.more t = time_events.more s"
    then show thesis using unarm [OF t(1,2,4) _ t(5)] by auto
  next
    fix t q
    assume t: "xi_evtd_execute_in s fn (uint k) p = Some (XI_STATE_OK, t)" "evtd_frame s t"
      "queue t = takeWhile (\<lambda>y. event_key s y \<le> current_step s + uint k) (queue s) @ q
         # dropWhile (\<lambda>y. event_key s y \<le> current_step s + uint k) (queue s)"
      "event_key t = (event_key s)(q := current_step s + uint k)" "event_handle (tevs t q) = fn"
      "handles t = (if p = NULL then handles s else (handles s)(p := q))" "time_events.more t = time_events.more s"
    note m = same_logic_touches [OF t(7)]
    have et: "evtd_ok t" using t(2) by (simp add: evtd_frame_def)
    have "q \<in> set (queue t)" using t(3) by simp
    then have q: "q \<noteq> NULL" using evtd_okD(4) [OF et] by (auto simp: evtd_blocks_def timer_blocks_def)
    have "live_blocks (tmem s) - evtd_blocks s \<subseteq> live_blocks (tmem t)"
      using xi_evtd_execute_in_memory(2) [OF t(1)] by (auto simp: evtd_blocks_def timer_blocks_def)
    then have "quiet p {} s t"
      using m(1-3) t(2,6) d(4) un [OF t(1)] by (auto simp: quiet_def evtd_frame_def d(1))
    then show thesis using armed [of t] t q d(4) m by simp
  qed
qed

end
