(* ===== verification/Mqtt_Logic_Example.thy ===== *)
theory Mqtt_Logic_Example
  imports Mqtt_Logic_Heap
begin

text \<open>
  A state of the MQTT logic layer in which a publication of quality of service 1 (the task 40,
  topic \<open>"a"\<close>, payload \<open>7 8\<close>) waits for its confirmation, and a PUBACK (the message 45) that has
  come in; an idle publication of quality of service 0 (the task 50) waits in its queue.
\<close>

definition example_callback :: "nat logic_handle" where
  "example_callback = xi_make_handle_argc3 0 (Other_Fn (User_Fn 7)) 70 71 XI_STATE_OK"

definition example_task :: "nat xi_mqtt_logic_task" where
  "example_task = \<lparr>logic = logic_handle4 Do_Mqtt_Publish_Q1 60 40 XI_STATE_OK NULL, callback = example_callback,
     scenario = XI_MQTT_PUBLISH, task_qos = XI_MQTT_QOS_AT_LEAST_ONCE, data_u = 41,
     priority = XI_MQTT_LOGIC_TASK_NORMAL, session_state = XI_MQTT_LOGIC_TASK_SESSION_STORE,
     task_cs = 105, msg_id = 258\<rparr>"

definition example_q0_task :: "nat xi_mqtt_logic_task" where
  "example_q0_task = example_task\<lparr>logic := logic_handle4 Do_Mqtt_Publish_Q0 60 50 XI_STATE_OK NULL,
     task_qos := XI_MQTT_QOS_AT_MOST_ONCE, data_u := 51, session_state := XI_MQTT_LOGIC_TASK_SESSION_UNSET,
     task_cs := 0, msg_id := 0\<rparr>"

definition example_data :: "addr \<Rightarrow> addr \<Rightarrow> nat xi_mqtt_task_specific_data" where
  "example_data tp dp = Publish_Data (Some (tp, c_string [97])) (Some (bytes_desc dp [7, 8])) XI_MQTT_RETAIN_FALSE"

definition logic_example :: "nat xi_logic" where
  "logic_example = \<lparr>
     tv = \<lparr>vec_block = 1, array_block = 2, array = [0, 0], elem_no = 0, capacity = 2,
           memory_type = XI_MEMORY_TYPE_MANAGED\<rparr>,
     tevs = (\<lambda>p. \<lparr>event_handle = xi_make_empty_handle_impl 0, time_of_execution = 0, position = 0,
        time_event_handle = 0\<rparr>),
     handles = (\<lambda>c. NULL),
     tmem = \<lparr>alloc_script = [], next_block = 80,
        live_blocks = {1, 2, 6, 7, 8, 10, 11, 40, 41, 42, 43, 44, 45, 50, 51, 52, 53, 54}\<rparr>,
     evtd_block = 6, current_step = 1000, call_queue = [],
     handles_and_socket_fd = \<lparr>vec_block = 7, array_block = 8, array = [0, 0], elem_no = 0, capacity = 2,
           memory_type = XI_MEMORY_TYPE_MANAGED\<rparr>,
     handles_and_file_fd = \<lparr>vec_block = 10, array_block = 11, array = [0, 0], elem_no = 0, capacity = 2,
           memory_type = XI_MEMORY_TYPE_MANAGED\<rparr>,
     fd_tuples = (\<lambda>_. \<lparr>fd = 5, handle = xi_make_empty_handle_impl 0, read_handle = xi_make_empty_handle_impl 0,
           event_type = XI_EVENT_WANT_READ, fd_type = XI_EVTD_FD_TYPE_SOCKET\<rparr>),
     on_empty = xi_make_empty_handle_impl 0, stop = 0,
     next_update = 100, backoff_lut = None, decay_lut = None, backoff_class = XI_BACKOFF_CLASS_NONE,
     backoff_lut_i = 0,
     layer_context = 60, prev_context = 61, next_context = 62, layer_state = XI_LAYER_STATE_CONNECTED,
     user_data = 63,
     layer_data = \<lparr>q12_tasks_queue = [40], q12_recv_tasks_queue = [], q0_tasks_queue = [50],
        current_q0_task = NULL, handlers_for_topics = None, last_msg_id = 258\<rparr>,
     io_timeouts = \<lparr>vec_block = 64, array_block = 65, array = [0, 0], elem_no = 0, capacity = 2,
           memory_type = XI_MEMORY_TYPE_MANAGED\<rparr>,
     connection_data = \<lparr>conn_username = None, conn_password = None, connection_timeout = 30,
        keepalive_timeout = 20, connection_state = XI_CONNECTION_STATE_OPENED,
        session_type = XI_SESSION_CONTINUE, conn_will_topic = None, conn_will_message = None,
        will_qos = XI_MQTT_QOS_AT_MOST_ONCE, will_retain = XI_MQTT_RETAIN_FALSE\<rparr>,
     copy_of_handlers_for_topics = None, copy_of_q12_unacked_messages_queue = [], copy_of_last_msg_id = 0,
     logic_tasks = (\<lambda>p. if p = 40 then example_task else example_q0_task),
     task_data = (\<lambda>p. if p = 41 then example_data 42 43 else example_data 52 53),
     mqtt_messages = (\<lambda>p. snd (fill_with_puback_data (empty_message p) 258)),
     written_data = (\<lambda>_. (0, 0))\<rparr>"

lemma logic_example_evtd_ok: "evtd_ok logic_example"
proof -
  have "tev_ok logic_example"
    by (auto simp: logic_example_def tev_ok_def tev_struct_def vec_ok_def vec_owned_def
        mem_ok_def queue_live_def queue_positions_def queue_handles_def elems_def event_key_def)
  moreover have "registrations_ok logic_example ty" for ty
    by (cases ty) (simp_all add: registrations_ok_def container_def logic_example_def vec_ok_def elems_def)
  ultimately show ?thesis
    by (simp add: evtd_ok_def other_blocks_def timer_blocks_def logic_example_def elems_def)
qed

lemma logic_example_evtd_blocks: "evtd_blocks logic_example = {1, 2, 6, 7, 8, 10, 11}"
  by (auto simp: evtd_blocks_def other_blocks_def timer_blocks_def logic_example_def elems_def)

lemma example_data_blocks: "tp \<noteq> NULL \<Longrightarrow> dp \<noteq> NULL \<Longrightarrow> data_blocks (example_data tp dp) = {tp, dp, Suc dp}"
  by (auto simp: data_blocks_def example_data_def string_block_def desc_blocks_def bytes_desc_def)

lemma example_owns:
  "task_owns logic_example 40 = {41, 42, 43, 44}" "p \<noteq> 40 \<Longrightarrow> task_owns logic_example p = {51, 52, 53, 54}"
  by (simp_all add: task_owns_def logic_example_def example_task_def example_q0_task_def example_data_blocks)

lemma example_task_wf: "task_wf logic_example 40" "task_wf logic_example 50"
  by (simp_all add: task_wf_def example_owns live_def)
    (simp_all add: logic_example_def example_task_def example_q0_task_def data_fits_def example_data_def
      desc_known_def bytes_desc_def)

end
