(* ===== verification/Mqtt_Logic_Publish_Protocol.thy ===== *)
theory Mqtt_Logic_Publish_Protocol
  imports Mqtt_Logic_Publish Mqtt_Logic_Example
begin

text \<open>
  The coroutine of a publication of quality of service 1 refines a protocol of three phases, and
  the protocol reports a message's fate at most once and success only after an acknowledgement.
\<close>

lemma arg_ok_quiet:
  assumes a: "arg_ok s p msg" and q: "quiet p B s t" and b: "B \<inter> arg_blocks s msg = {}" "B \<inter> {msg} = {}"
    and o: "task_owns t p = task_owns s p" and m: "mem_ok (tmem s)" and e: "msg \<notin> evtd_blocks s"
  shows "arg_ok t p msg" "arg_blocks t msg = arg_blocks s msg"
proof -
  have same: "mqtt_messages t msg = mqtt_messages s msg" if "live s msg"
    using q m that by (auto simp: quiet_def live_def mem_ok_def)
  show ab: "arg_blocks t msg = arg_blocks s msg"
    using a same by (auto simp: arg_blocks_def arg_ok_def)
  note d = arg_okD [OF a]
  have "arg_blocks s msg \<inter> evtd_blocks t = {}" by (rule quiet_evtd_disjoint [OF q m d(1,2)])
  moreover have "arg_blocks s msg \<subseteq> live_blocks (tmem t)"
    using d(1,2) b q unfolding quiet_def by blast
  moreover have "live t msg" if "msg \<noteq> NULL"
    using a that b(2) e q unfolding quiet_def arg_ok_def live_def by blast
  ultimately show "arg_ok t p msg" using a d(3) same by (auto simp: arg_ok_def ab o)
qed

section \<open>The protocol\<close>

datatype q1_phase = Q1_Start | Q1_Sending | Q1_Waiting | Q1_Done

datatype q1_output = Q1_Send xi_mqtt_dup | Q1_Notify xi_state

text \<open>
  A resumption that makes the task send its packet: the first one, a failed attempt, a lost
  confirmation, a new connection.
\<close>

definition resends :: "q1_phase \<Rightarrow> xi_state \<Rightarrow> bool" where
  "resends ph st \<longleftrightarrow> ph = Q1_Start \<or> ph = Q1_Sending \<and> st \<noteq> XI_STATE_WRITTEN
     \<or> ph = Q1_Waiting \<and> (st = XI_STATE_TIMEOUT \<or> st = XI_STATE_RESEND)"

text \<open>Only the packet of the first attempt is not marked as a duplicate.\<close>

definition q1_dup :: "q1_phase \<Rightarrow> xi_state \<Rightarrow> xi_mqtt_dup" where
  "q1_dup ph st = (if ph = Q1_Start then dup_of st else XI_MQTT_DUP_TRUE)"

text \<open>
  The steps of a task that is resumed with \<open>st\<close> and, if \<open>ack\<close>, a PUBACK. Each step is the intended
  one, or one in which a call could not be posted or memory was missing.
\<close>

inductive q1_step :: "q1_phase \<Rightarrow> xi_state \<Rightarrow> bool \<Rightarrow> q1_output list \<Rightarrow> q1_phase \<Rightarrow> bool" where
  q1_send: "resends ph st \<Longrightarrow> q1_step ph st ack [Q1_Send (q1_dup ph st)] Q1_Sending"
| q1_lost: "resends ph st \<Longrightarrow> q1_step ph st ack [] Q1_Sending"
| q1_unsendable: "resends ph st \<Longrightarrow> e \<noteq> XI_STATE_OK \<Longrightarrow> notes = [] \<or> notes = [Q1_Notify e]
    \<Longrightarrow> q1_step ph st ack notes Q1_Done"
| q1_written: "q1_step Q1_Sending XI_STATE_WRITTEN ack [] Q1_Waiting"
| q1_no_timer: "notes = [] \<or> notes = [Q1_Notify XI_OUT_OF_MEMORY]
    \<Longrightarrow> q1_step Q1_Sending XI_STATE_WRITTEN ack notes Q1_Done"
| q1_acknowledged: "notes = [] \<or> notes = [Q1_Notify XI_STATE_OK]
    \<Longrightarrow> q1_step Q1_Waiting XI_STATE_OK True notes Q1_Done"
| q1_wrong: "notes = [] \<or> notes = [Q1_Notify XI_MQTT_LOGIC_WRONG_MESSAGE_RECEIVED]
    \<Longrightarrow> q1_step Q1_Waiting XI_STATE_OK False notes Q1_Done"
| q1_failed: "st \<notin> {XI_STATE_OK, XI_STATE_TIMEOUT, XI_STATE_RESEND} \<Longrightarrow> notes = [] \<or> notes = [Q1_Notify st]
    \<Longrightarrow> q1_step Q1_Waiting st ack notes Q1_Done"

text \<open>The intended step; \<open>told\<close> says whether there is a callback.\<close>

fun q1_nominal :: "bool \<Rightarrow> q1_phase \<Rightarrow> xi_state \<Rightarrow> bool \<Rightarrow> q1_output list \<times> q1_phase" where
  "q1_nominal told Q1_Start st ack = ([Q1_Send (dup_of st)], Q1_Sending)"
| "q1_nominal told Q1_Sending st ack =
     (if st = XI_STATE_WRITTEN then ([], Q1_Waiting) else ([Q1_Send XI_MQTT_DUP_TRUE], Q1_Sending))"
| "q1_nominal told Q1_Waiting st ack =
     (if st = XI_STATE_TIMEOUT \<or> st = XI_STATE_RESEND then ([Q1_Send XI_MQTT_DUP_TRUE], Q1_Sending)
      else (if told then [Q1_Notify (if st = XI_STATE_OK \<and> \<not> ack then XI_MQTT_LOGIC_WRONG_MESSAGE_RECEIVED else st)]
            else [], Q1_Done))"
| "q1_nominal told Q1_Done st ack = ([], Q1_Done)"

section \<open>Refinement\<close>

definition phase_of :: "('f, 'z) xi_logic_scheme \<Rightarrow> addr \<Rightarrow> q1_phase" where
  "phase_of s p = (if \<not> live s p then Q1_Done
     else if task_cs (logic_tasks s p) = 73 then Q1_Sending
     else if task_cs (logic_tasks s p) = 105 then Q1_Waiting else Q1_Start)"

text \<open>\<open>emits s t p h out\<close>: the call \<open>h\<close>, posted between \<open>s\<close> and \<open>t\<close>, is the output \<open>out\<close>.\<close>

definition emits ::
    "('f, 'z) xi_logic_scheme \<Rightarrow> ('f, 'z) xi_logic_scheme \<Rightarrow> addr \<Rightarrow> 'f logic_handle \<Rightarrow> q1_output \<Rightarrow> bool" where
  "emits s t p h out \<longleftrightarrow> (case out of
     Q1_Send dup \<Rightarrow> \<exists>msg. h = push_handle s msg \<and> live t msg \<and> packet_of s p dup (mqtt_messages t msg)
   | Q1_Notify st \<Rightarrow> note_calls s p st = [h])"

text \<open>
  What a resumption brings: the expiry of the timer has cleared the handle cell, a state that
  reports success comes with a message, and a message belongs to the task.
\<close>

definition q1_input :: "('f, 'z) xi_logic_scheme \<Rightarrow> addr \<Rightarrow> xi_state \<Rightarrow> addr \<Rightarrow> bool" where
  "q1_input s p st msg \<longleftrightarrow> arg_ok s p msg \<and> msg \<notin> evtd_blocks s
     \<and> (phase_of s p = Q1_Waiting \<longrightarrow> (st = XI_STATE_TIMEOUT \<longrightarrow> handles s p = NULL)
          \<and> (st = XI_STATE_OK \<longrightarrow> msg \<noteq> NULL))"

definition is_puback :: "('f, 'z) xi_logic_scheme \<Rightarrow> addr \<Rightarrow> bool" where
  "is_puback s msg \<longleftrightarrow> msg_type (mqtt_messages s msg) = XI_MQTT_TYPE_PUBACK"

text \<open>Only the confirmation that the packet was written arms a timer.\<close>

definition room_for :: "xi_state \<Rightarrow> ('f, 'z) xi_logic_scheme \<Rightarrow> bool" where
  "room_for st s \<longleftrightarrow> st = XI_STATE_WRITTEN \<longrightarrow> timer_room s"

definition q1_outcome ::
    "('f, 'z) xi_logic_scheme \<Rightarrow> addr \<Rightarrow> xi_state \<Rightarrow> addr \<Rightarrow> ('f, 'z) xi_logic_scheme \<Rightarrow> bool" where
  "q1_outcome s p st msg t \<longleftrightarrow> (\<exists>calls outs ph. call_queue t = call_queue s @ calls
     \<and> list_all2 (emits s t p) (map snd calls) outs \<and> q1_step (phase_of s p) st (is_puback s msg) outs ph
     \<and> phase_of t p = ph \<and> quiet p (insert p (task_owns s p) \<union> arg_blocks s msg) s t
     \<and> (if ph = Q1_Done then q12_tasks_queue (layer_data t) = remove1 p (q12_tasks_queue (layer_data s))
             \<and> insert p (task_owns s p) \<inter> live_blocks (tmem t) = {}
        else q12_tasks_queue (layer_data t) = q12_tasks_queue (layer_data s) \<and> q1_task t p
             \<and> data_u (logic_tasks t p) = data_u (logic_tasks s p))
     \<and> (ph = Q1_Waiting \<longrightarrow> session_state (logic_tasks t p) \<noteq> XI_MQTT_LOGIC_TASK_SESSION_UNSET
           \<and> (keepalive_timeout (connection_data s) > 0 \<longrightarrow> handles t p \<noteq> NULL
               \<and> event_key t (handles t p) = current_step s + uint (keepalive_timeout (connection_data s))
               \<and> event_handle (tevs t (handles t p)) = logic_handle4 Do_Mqtt_Publish_Q1 (layer_context s) p XI_STATE_TIMEOUT NULL))
     \<and> (sendable s p \<and> room_for st s \<longrightarrow>
          (outs, ph) = q1_nominal (xi_handle_disposed (callback (logic_tasks s p)) = 0) (phase_of s p) st (is_puback s msg)))"

lemma quiet_restrict:
  "quiet p B s t \<Longrightarrow> B \<inter> live_blocks (tmem s) \<subseteq> C \<union> evtd_blocks s \<Longrightarrow> quiet p C s t"
  unfolding quiet_def by blast

lemma quiet_script: "quiet p B s t \<Longrightarrow> alloc_script (tmem s) = [] \<Longrightarrow> alloc_script (tmem t) = []"
  by (simp add: quiet_def)

lemma finished_outcome:
  assumes s: "q1_task s p" and f: "q1_finished s t p e"
    and q: "quiet p (insert p (task_owns s p) \<union> arg_blocks s msg) s t"
    and st: "\<And>notes. notes = [] \<or> notes = [Q1_Notify e] \<Longrightarrow> q1_step (phase_of s p) st (is_puback s msg) notes Q1_Done"
    and n: "sendable s p \<Longrightarrow> room_for st s \<Longrightarrow>
      q1_nominal told (phase_of s p) st (is_puback s msg) = (if told then [Q1_Notify e] else [], Q1_Done)"
    and told: "told = (xi_handle_disposed (callback (logic_tasks s p)) = 0)"
  shows "q1_outcome s p st msg t"
proof -
  obtain calls where c: "call_queue t = call_queue s @ calls"
      "map snd calls = note_calls s p e \<or> calls = [] \<and> alloc_script (tmem s) \<noteq> []"
    and g: "q12_tasks_queue (layer_data t) = remove1 p (q12_tasks_queue (layer_data s))"
      "insert p (task_owns s p) \<inter> live_blocks (tmem t) = {}"
    using f by (auto simp: q1_finished_def)
  have ph: "phase_of t p = Q1_Done" using g(2) by (auto simp: phase_of_def live_def)
  define outs where "outs = (if calls = [] then [] else [Q1_Notify e])"
  have "outs = [] \<or> outs = [Q1_Notify e]" by (simp add: outs_def)
  then have step: "q1_step (phase_of s p) st (is_puback s msg) outs Q1_Done" by (rule st)
  have em: "list_all2 (emits s t p) (map snd calls) outs"
    using c(2) by (auto simp: outs_def note_calls_def Let_def emits_def split: if_splits)
  have nom: "(outs, Q1_Done) = q1_nominal told (phase_of s p) st (is_puback s msg)"
    if "sendable s p" "room_for st s"
    using n [OF that] c(2) that(1)
    by (auto simp: outs_def told note_calls_def Let_def sendable_def split: if_splits)
  show ?thesis
    unfolding q1_outcome_def
    by (intro exI [of _ calls] exI [of _ outs] exI [of _ Q1_Done])
      (use c(1) g ph step em nom q told in simp)
qed

lemma send_outcome:
  assumes s: "q1_task s p" and c: "prev_context s \<noteq> NULL"
    and u: "quiet p A s u" "A \<subseteq> evtd_blocks s" "call_queue u = call_queue s" "logic_tasks u p = logic_tasks s p"
      "layer_data u = layer_data s" "handles u p = NULL"
    and r: "resends (phase_of s p) st" and d: "dup_of st' = q1_dup (phase_of s p) st"
  shows "\<exists>r t. publish_q1_send env p st' u = Some (r, t) \<and> q1_outcome s p st msg t"
proof -
  have dis: "A \<inter> insert p (task_owns s p) = {}" using u(2) q1_taskD(5) [OF s] by blast
  have tu: "q1_task u p" and ou: "task_owns u p = task_owns s p"
    using q1_task_quiet [OF s u(1) dis] u(4,6) by simp_all
  have same: "task_data u = task_data s" "prev_context u = prev_context s" "connection_data u = connection_data s"
    using u(1) by (simp_all add: quiet_def touches_def)
  have cu: "prev_context u \<noteq> NULL" using c same by simp
  have su: "sendable s p \<Longrightarrow> sendable u p"
    using u(1,4) same by (simp add: sendable_def quiet_def)
  have pu: "packet_of u p dup m = packet_of s p dup m" for dup m
    by (simp only: packet_of_def same u(4))
  have ph: "push_handle u m = push_handle s m" for m using same by (simp add: push_handle_def)
  have nom: "q1_nominal told (phase_of s p) st ack = ([Q1_Send (q1_dup (phase_of s p) st)], Q1_Sending)" for told ack
    using r by (auto simp: resends_def q1_dup_def)
  have qs: "quiet p (insert p (task_owns s p) \<union> arg_blocks s msg) s t" if "quiet p B u t"
      "B \<inter> live_blocks (tmem u) \<subseteq> insert p (task_owns s p)" for B t
  proof -
    have "quiet p (A \<union> B) s t" by (rule quiet_trans [OF u(1) that(1)])
    then have "quiet p (A \<union> (B \<inter> live_blocks (tmem s))) s t" by (rule quiet_restrict) blast
    moreover have "B \<inter> live_blocks (tmem s) - evtd_blocks s \<subseteq> insert p (task_owns s p)"
      using that(2) u(1,2) unfolding quiet_def by blast
    ultimately show ?thesis using u(2) by (elim quiet_restrict) blast
  qed
  from tu u(6) cu show ?thesis
  proof (cases rule: q1_send_cases [of u p env st'])
    case (sent q m t)
    have "q1_task t p"
      by (rule q1_task_quiet(1) [OF tu sent(2)]) (simp_all add: sent)
    moreover have "phase_of t p = Q1_Sending"
      using q1_taskD(3) [OF \<open>q1_task t p\<close>] sent(7) by (simp add: phase_of_def)
    moreover have "q1_step (phase_of s p) st (is_puback s msg) [Q1_Send (q1_dup (phase_of s p) st)] Q1_Sending"
      using r by (rule q1_send)
    moreover have "emits s t p (push_handle s m) (Q1_Send (q1_dup (phase_of s p) st))"
      using sent(4,5) pu d by (auto simp: emits_def)
    ultimately have "q1_outcome s p st msg t"
      unfolding q1_outcome_def
      by (intro exI [of _ "[(q, push_handle s m)]"] exI [of _ "[Q1_Send (q1_dup (phase_of s p) st)]"] exI [of _ Q1_Sending])
        (use sent u qs [OF sent(2)] ph nom in simp)
    then show ?thesis using sent(1) by blast
  next
    case (lost t)
    have "q1_task t p"
      by (rule q1_task_quiet(1) [OF tu lost(2)]) (simp_all add: lost)
    moreover have "phase_of t p = Q1_Sending"
      using q1_taskD(3) [OF \<open>q1_task t p\<close>] lost(4) by (simp add: phase_of_def)
    moreover have "q1_step (phase_of s p) st (is_puback s msg) [] Q1_Sending" using r by (rule q1_lost)
    ultimately have "q1_outcome s p st msg t"
      unfolding q1_outcome_def
      by (intro exI [of _ "[]"] exI [of _ "[]"] exI [of _ Q1_Sending])
        (use lost u qs [OF lost(2)] su in auto)
    then show ?thesis using lost(1) by blast
  next
    case (failed e B t)
    have fin: "q1_finished s t p e"
      by (rule q1_finished_from [OF u(1,3) _ _ ou failed(3)]) (simp_all add: u)
    have "quiet p (insert p (task_owns s p) \<union> arg_blocks s msg) s t"
      using failed(4,5) ou by (intro qs) auto
    moreover have "\<not> sendable s p" using failed(6) su by blast
    ultimately have "q1_outcome s p st msg t"
      using q1_unsendable [OF r failed(2)]
      by (intro finished_outcome [OF s fin _ _ _ refl]) auto
    then show ?thesis using failed(1) by blast
  qed
qed


lemma finish_outcome:
  assumes s: "q1_task s p" and u: "quiet p {} s u" "call_queue u = call_queue s" "layer_data u = layer_data s"
      "logic_tasks u = logic_tasks s" "handles u p = NULL" and a: "arg_ok u p msg" "arg_blocks u msg = arg_blocks s msg"
    and st: "\<And>notes. notes = [] \<or> notes = [Q1_Notify e] \<Longrightarrow> q1_step (phase_of s p) st (is_puback s msg) notes Q1_Done"
    and n: "sendable s p \<Longrightarrow> room_for st s \<Longrightarrow>
      q1_nominal (xi_handle_disposed (callback (logic_tasks s p)) = 0) (phase_of s p) st (is_puback s msg)
        = (if xi_handle_disposed (callback (logic_tasks s p)) = 0 then [Q1_Notify e] else [], Q1_Done)"
  shows "\<exists>t. publish_q1_err env p e msg u = Some (e, t) \<and> q1_outcome s p st msg t"
    and "\<exists>t. finish_q1 env label p e msg u = Some (XI_STATE_OK, t) \<and> q1_outcome s p st msg t"
proof -
  obtain t where t: "publish_q1_err env p e msg u = Some (e, t)" "q1_finished s t p e"
    "quiet p (insert p (task_owns s p) \<union> arg_blocks u msg) s t"
    by (rule q1_err_spec [OF s u a(1)], rule that)
  have "q1_outcome s p st msg t"
    by (rule finished_outcome [OF s t(2) _ st n refl]) (use t(3) a(2) in simp_all)
  then show "\<exists>t. publish_q1_err env p e msg u = Some (e, t) \<and> q1_outcome s p st msg t" using t(1) by blast
next
  have k: "q1_task u p" "task_owns u p = task_owns s p" using q1_task_quiet [OF s u(1)] u by simp_all
  obtain t where t: "finish_q1 env label p e msg u = Some (XI_STATE_OK, t)" "q1_finished u t p e"
    "quiet p (insert p (task_owns u p) \<union> arg_blocks u msg) u t"
    by (rule finish_q1_spec [OF k(1) u(5) a(1)], rule that)
  have f: "q1_finished s t p e" by (rule q1_finished_from [OF u(1,2) _ _ k(2) t(2)]) (simp_all add: u)
  have "quiet p ({} \<union> (insert p (task_owns u p) \<union> arg_blocks u msg)) s t" by (rule quiet_trans [OF u(1) t(3)])
  then have "q1_outcome s p st msg t"
    by (intro finished_outcome [OF s f _ st n refl]) (use a(2) k(2) in simp_all)
  then show "\<exists>t. finish_q1 env label p e msg u = Some (XI_STATE_OK, t) \<and> q1_outcome s p st msg t" using t(1) by blast
qed

lemma timer_block: "q1_task s p \<Longrightarrow> handles s p \<noteq> NULL \<Longrightarrow> handles s p \<in> evtd_blocks s"
  using queue_handlesD(3) [of s p]
  by (auto simp: q1_task_def evtd_ok_def tev_ok_def tev_struct_def evtd_blocks_def timer_blocks_def)

lemma written_outcome:
  assumes s: "q1_task s p" and c: "ctx = layer_context s" "prev_context s \<noteq> NULL"
    and ph: "phase_of s p = Q1_Sending" and i: "q1_input s p st msg"
  shows "\<exists>r t. publish_q1_written env ctx p st msg s = Some (r, t) \<and> q1_outcome s p st msg t"
proof (cases "st = XI_STATE_WRITTEN")
  case False
  have cs: "task_cs (logic_tasks s p) = 73" using ph by (auto simp: phase_of_def split: if_splits)
  then have h: "handles s p = NULL" using s by (simp add: q1_task_def)
  have "resends (phase_of s p) st" "dup_of XI_STATE_RESEND = q1_dup (phase_of s p) st"
    using False ph by (simp_all add: resends_def q1_dup_def dup_of_def)
  then show ?thesis
    using send_outcome [OF s c(2) quiet_refl [OF q1_taskD(1) [OF s], of p "{}"]] h False
    by (simp add: publish_q1_written_def)
next
  case True
  note d = q1_taskD [OF s]
  have cs: "task_cs (logic_tasks s p) = 73" using ph by (auto simp: phase_of_def split: if_splits)
  then have h: "handles s p = NULL" using s by (simp add: q1_task_def)
  have a: "arg_ok s p msg" "msg \<notin> evtd_blocks s" using i by (simp_all add: q1_input_def)
  let ?s1 = "s\<lparr>logic_tasks := (logic_tasks s)(p := mark_stored (logic_tasks s p))\<rparr>"
  have up: "update_task p mark_stored s = Some ?s1" using d(3) by (simp add: update_task_def)
  have q1: "quiet p {} s ?s1" using d(1) by (rule quiet_task)
  have t1: "q1_task ?s1 p" and o1: "task_owns ?s1 p = task_owns s p"
    by (rule q1_task_quiet [OF s q1]; simp add: mark_stored_def h)+
  have a1: "arg_ok ?s1 p msg" "arg_blocks ?s1 msg = arg_blocks s msg"
    by (rule arg_ok_quiet [OF a(1) q1 _ _ o1 d(10) a(2)]; simp)+
  have stored: "session_state (mark_stored (logic_tasks s p)) \<noteq> XI_MQTT_LOGIC_TASK_SESSION_UNSET"
      "data_u (mark_stored (logic_tasks s p)) = data_u (logic_tasks s p)"
    by (simp_all add: mark_stored_def)
  have waiting: "q1_outcome s p st msg t" "set_task_cs 105 p u = Some t"
    if u: "quiet p {} ?s1 u" "logic_tasks u = logic_tasks ?s1" "layer_data u = layer_data s"
      "call_queue u = call_queue s"
      "keepalive_timeout (connection_data s) > 0 \<Longrightarrow> handles u p \<noteq> NULL
        \<and> event_key u (handles u p) = current_step s + uint (keepalive_timeout (connection_data s))
        \<and> event_handle (tevs u (handles u p)) = logic_handle4 Do_Mqtt_Publish_Q1 (layer_context s) p XI_STATE_TIMEOUT NULL"
      and t: "t = u\<lparr>logic_tasks := (logic_tasks u)(p := (logic_tasks u p)\<lparr>task_cs := 105\<rparr>)\<rparr>" for u t
  proof -
    have eu: "evtd_ok u" using u(1) by (simp add: quiet_def)
    have qt: "quiet p ({} \<union> ({} \<union> {})) s t"
      unfolding t by (rule quiet_trans [OF q1 quiet_trans [OF u(1) quiet_task [OF eu]]])
    have tt: "q1_task t p"
      by (rule q1_task_quiet(1) [OF s, of "{}" t]) (use qt in \<open>simp_all add: t u(2) mark_stored_def\<close>)
    have pt: "phase_of t p = Q1_Waiting" using q1_taskD(3) [OF tt] by (simp add: phase_of_def t)
    have "quiet p (insert p (task_owns s p) \<union> arg_blocks s msg) s t" using qt by (rule quiet_mono) simp
    then show "q1_outcome s p st msg t"
      unfolding q1_outcome_def
      by (intro exI [of _ "[]"] exI [of _ "[]"] exI [of _ Q1_Waiting])
        (use tt pt u stored ph True q1_written in \<open>simp add: t event_key_def\<close>)
    have "live u p" using u(1) d(3,5) unfolding quiet_def live_def by auto
    then show "set_task_cs 105 p u = Some t" by (simp add: set_task_cs_eq t)
  qed
  have eq: "publish_q1_written env ctx p st msg s = do {
      (st1, s2) \<leftarrow> (if keepalive_timeout (connection_data s) > 0
                   then xi_evtd_execute_in ?s1 (logic_handle4 Do_Mqtt_Publish_Q1 ctx p XI_STATE_TIMEOUT NULL)
                          (uint (keepalive_timeout (connection_data s))) p
                   else Some (XI_STATE_OK, ?s1));
      if st1 \<noteq> XI_STATE_OK then publish_q1_err env p st1 msg s2
      else do { s3 \<leftarrow> set_task_cs 105 p s2; Some (XI_STATE_OK, s3) } }"
    using True up h by (simp add: publish_q1_written_def)
  show ?thesis
  proof (cases "keepalive_timeout (connection_data s) > 0")
    case False
    let ?t = "?s1\<lparr>logic_tasks := (logic_tasks ?s1)(p := (logic_tasks ?s1 p)\<lparr>task_cs := 105\<rparr>)\<rparr>"
    have e1: "evtd_ok ?s1" using d(1) by simp
    have "q1_outcome s p st msg ?t" "set_task_cs 105 p ?s1 = Some ?t"
      by (rule waiting [OF quiet_refl [OF e1]]; use False in simp)+
    then show ?thesis using False unfolding eq by auto
  next
    case ka: True
    let ?fn = "logic_handle4 Do_Mqtt_Publish_Q1 ctx p XI_STATE_TIMEOUT NULL"
    have h1: "handles ?s1 p = NULL" using h by simp
    from t1 h1 show ?thesis
    proof (cases rule: arm_timer [of ?s1 p ?fn "keepalive_timeout (connection_data s)"])
      case (armed u)
      let ?t = "u\<lparr>logic_tasks := (logic_tasks u)(p := (logic_tasks u p)\<lparr>task_cs := 105\<rparr>)\<rparr>"
      have "q1_outcome s p st msg ?t" "set_task_cs 105 p u = Some ?t"
        by (rule waiting [OF armed(2)]; use armed c(1) in simp)+
      then show ?thesis using ka armed(1) unfolding eq by simp
    next
      case (unarmed u)
      have hu: "handles u p = NULL" using unarmed(3) h by simp
      have ou: "task_owns u p = task_owns ?s1 p"
        using unarmed(2,4) by (simp add: task_owns_def quiet_def touches_def)
      have m1: "mem_ok (tmem ?s1)" "msg \<notin> evtd_blocks ?s1" using d(10) a(2) by simp_all
      have au: "arg_ok u p msg" "arg_blocks u msg = arg_blocks ?s1 msg"
        by (rule arg_ok_quiet [OF a1(1) unarmed(2) _ _ ou m1]; simp)+
      obtain t where t: "publish_q1_err env p XI_OUT_OF_MEMORY msg u = Some (XI_OUT_OF_MEMORY, t)"
        "q1_finished ?s1 t p XI_OUT_OF_MEMORY" "quiet p (insert p (task_owns ?s1 p) \<union> arg_blocks u msg) ?s1 t"
        by (rule q1_err_spec [OF t1 unarmed(2,7,6,4) hu au(1)], rule that)
      have f: "q1_finished s t p XI_OUT_OF_MEMORY"
        by (rule q1_finished_from [OF q1 _ _ _ o1 t(2)]) (simp_all add: mark_stored_def)
      have "quiet p ({} \<union> (insert p (task_owns ?s1 p) \<union> arg_blocks u msg)) s t" by (rule quiet_trans [OF q1 t(3)])
      then have "q1_outcome s p st msg t"
        using unarmed(8) True ph
        by (intro finished_outcome [OF s f _ _ _ refl])
          (auto simp: o1 au(2) a1(2) room_for_def timer_room_def intro: q1_no_timer)
      then show ?thesis using ka unarmed(1) t(1) unfolding eq by simp
    qed
  qed
qed


lemma finish_q1_fold:
  "do { s2 \<leftarrow> xi_mqtt_logic_task_defer_users_callback p st s; s3 \<leftarrow> free_message msg s2;
        s4 \<leftarrow> xi_mqtt_logic_free_task_data p s3; exit_and_finalize env p s4 } = finish_q1 env 1 p st msg s"
  by (simp add: finish_q1_def exit_and_finalize_def [abs_def])

lemma confirmed_outcome:
  assumes s: "q1_task s p" and c: "prev_context s \<noteq> NULL"
    and ph: "phase_of s p = Q1_Waiting" and i: "q1_input s p st msg"
  shows "\<exists>r t. publish_q1_confirmed env p st msg s = Some (r, t) \<and> q1_outcome s p st msg t"
proof (cases "st = XI_STATE_TIMEOUT")
  case True
  have h: "handles s p = NULL" using i ph True by (simp add: q1_input_def)
  have "resends (phase_of s p) st" "dup_of XI_STATE_RESEND = q1_dup (phase_of s p) st"
    using True ph by (simp_all add: resends_def q1_dup_def dup_of_def)
  then show ?thesis
    using send_outcome [OF s c quiet_refl [OF q1_taskD(1) [OF s], of p "{}"]] h True
    by (simp add: publish_q1_confirmed_def)
next
  case False
  note d = q1_taskD [OF s]
  have a: "arg_ok s p msg" "msg \<notin> evtd_blocks s" and ok: "st = XI_STATE_OK \<longrightarrow> msg \<noteq> NULL"
    using i ph by (simp_all add: q1_input_def)
  obtain u where u: "cancel_task_timeout p s = Some u" "quiet p {handles s p} s u" "handles u p = NULL"
    "logic_tasks u = logic_tasks s" "mqtt_messages u = mqtt_messages s" "layer_data u = layer_data s"
    "call_queue u = call_queue s" "live_blocks (tmem u) = live_blocks (tmem s) - {handles s p}"
    by (rule cancel_timeout_quiet [OF s], rule that)
  have "0 \<notin> live_blocks (tmem s)" using d(10) by (auto simp: mem_ok_def)
  then have "{handles s p} \<inter> live_blocks (tmem s) \<subseteq> {} \<union> evtd_blocks s"
    using timer_block [OF s] by (cases "handles s p = NULL") auto
  then have q: "quiet p {} s u" by (rule quiet_restrict [OF u(2)])
  have ou: "task_owns u p = task_owns s p" using q u(4) by (simp add: task_owns_def quiet_def touches_def)
  have au: "arg_ok u p msg" "arg_blocks u msg = arg_blocks s msg"
    by (rule arg_ok_quiet [OF a(1) q _ _ ou d(10) a(2)]; simp)+
  have eq: "publish_q1_confirmed env p st msg s =
     (if st = XI_STATE_RESEND then publish_q1_send env p st u
      else if st \<noteq> XI_STATE_OK then publish_q1_err env p st msg u
      else do {
        m \<leftarrow> deref_message u msg;
        if msg_type m \<noteq> XI_MQTT_TYPE_PUBACK
        then publish_q1_err env p XI_MQTT_LOGIC_WRONG_MESSAGE_RECEIVED msg u
        else finish_q1 env 1 p st msg u })"
    using False u(1,3) by (cases "deref_message u msg") (simp_all add: publish_q1_confirmed_def finish_q1_fold)
  consider "st = XI_STATE_RESEND" | "st \<notin> {XI_STATE_OK, XI_STATE_TIMEOUT, XI_STATE_RESEND}"
    | "st = XI_STATE_OK" "\<not> is_puback s msg" | "st = XI_STATE_OK" "is_puback s msg"
    using False by auto
  then show ?thesis
  proof cases
    case 1
    have "resends (phase_of s p) st" "dup_of st = q1_dup (phase_of s p) st"
      using 1 ph by (simp_all add: resends_def q1_dup_def dup_of_def)
    then show ?thesis
      using send_outcome [OF s c q _ u(7) _ u(6,3)] u(4) 1 unfolding eq by simp
  next
    case 2
    then have "\<exists>t. publish_q1_err env p st msg u = Some (st, t) \<and> q1_outcome s p st msg t"
      by (intro finish_outcome(1) [OF s q u(7,6,4,3) au]) (auto simp: ph intro: q1_failed)
    then show ?thesis using 2 unfolding eq by auto
  next
    case 3
    have m: "deref_message u msg = Some (mqtt_messages s msg)"
      using ok 3 au(1) u(5) by (simp add: arg_ok_def deref_message_def)
    have "\<exists>t. publish_q1_err env p XI_MQTT_LOGIC_WRONG_MESSAGE_RECEIVED msg u
        = Some (XI_MQTT_LOGIC_WRONG_MESSAGE_RECEIVED, t) \<and> q1_outcome s p st msg t"
      using 3 by (intro finish_outcome(1) [OF s q u(7,6,4,3) au]) (auto simp: ph intro: q1_wrong)
    then show ?thesis using 3 m unfolding eq by (auto simp: is_puback_def)
  next
    case 4
    have m: "deref_message u msg = Some (mqtt_messages s msg)"
      using ok 4 au(1) u(5) by (simp add: arg_ok_def deref_message_def)
    have "\<exists>t. finish_q1 env 1 p st msg u = Some (XI_STATE_OK, t) \<and> q1_outcome s p st msg t"
      using 4 by (intro finish_outcome(2) [OF s q u(7,6,4,3) au]) (auto simp: ph intro: q1_acknowledged)
    then show ?thesis using 4 m unfolding eq by (auto simp: is_puback_def)
  qed
qed

lemma publish_q1_step:
  assumes "q1_task s p" "layer_context s \<noteq> NULL" "prev_context s \<noteq> NULL" "\<not> shut_down s" "q1_input s p st msg"
  shows "\<exists>r t. do_mqtt_publish_q1 env (layer_context s) p st msg s = Some (r, t) \<and> q1_outcome s p st msg t"
proof -
  note d = q1_taskD [OF assms(1)]
  consider "phase_of s p = Q1_Start" | "phase_of s p = Q1_Sending" | "phase_of s p = Q1_Waiting"
    using d(3) by (cases "phase_of s p") (auto simp: phase_of_def split: if_splits)
  then show ?thesis
  proof cases
    case 1
    then have cs: "task_cs (logic_tasks s p) \<noteq> 73" "task_cs (logic_tasks s p) \<noteq> 105"
      using d(3) by (auto simp: phase_of_def split: if_splits)
    then have h: "handles s p = NULL" using assms(1) by (simp add: q1_task_def)
    have "resends (phase_of s p) st" "dup_of st = q1_dup (phase_of s p) st"
      using 1 by (simp_all add: resends_def q1_dup_def)
    then show ?thesis
      using send_outcome [OF assms(1,3) quiet_refl [OF d(1), of p "{}"]] h cs assms(2,4) d(3,4)
      by (simp add: do_mqtt_publish_q1_def xi_context_def deref_task_def)
  next
    case 2
    then have cs: "task_cs (logic_tasks s p) = 73" by (auto simp: phase_of_def split: if_splits)
    then show ?thesis
      using written_outcome [OF assms(1) refl assms(3) 2 assms(5)] assms(2,4) d(3,4)
      by (simp add: do_mqtt_publish_q1_def xi_context_def deref_task_def)
  next
    case 3
    then have cs: "task_cs (logic_tasks s p) = 105" by (auto simp: phase_of_def split: if_splits)
    then show ?thesis
      using confirmed_outcome [OF assms(1,3) 3 assms(5)] assms(2,4) d(3,4)
      by (simp add: do_mqtt_publish_q1_def xi_context_def deref_task_def)
  qed
qed

text \<open>
  C6: A resumption of a publication of quality of service 1 always returns, and what it does is a
  step of the protocol. Whatever allocations fail, it sends at most one packet, with the task's
  topic, payload and identifier, marked as a duplicate unless it is the first, or tells the
  application once; it waits for the confirmation only with the task marked for storage and the
  timer armed; when it is done the task is out of the queue and all of its blocks are released;
  and no other task, no other timer and no foreign block is touched. With memory and room for a
  timer it takes the intended step.
\<close>

theorem publish_q1_refines_protocol:
  assumes "q1_task s p" "layer_context s \<noteq> NULL" "prev_context s \<noteq> NULL" "\<not> shut_down s" "q1_input s p st msg"
  shows "\<exists>r t. do_mqtt_publish_q1 env (layer_context s) p st msg s = Some (r, t) \<and> q1_outcome s p st msg t"
  using assms by (rule publish_q1_step)


lemma example_q1: "q1_task logic_example 40" "q1_input logic_example 40 XI_STATE_OK 45"
    "phase_of logic_example 40 = Q1_Waiting" "is_puback logic_example 45"
    "sendable logic_example 40" "timer_room logic_example" "room_for st logic_example"
    "xi_handle_disposed (callback (logic_tasks logic_example 40)) = 0"
proof -
  have pub: "msg_type (mqtt_messages logic_example 45) = XI_MQTT_TYPE_PUBACK"
    using type_alone [of XI_MQTT_TYPE_PUBACK "empty_message 45"]
    by (simp add: logic_example_def fill_with_puback_data_def msg_type_def)
  then have mb: "message_blocks (mqtt_messages logic_example 45) = {45}" "message_known (mqtt_messages logic_example 45)"
    by (simp_all add: message_blocks_def message_known_def message_pair_def message_descs_def)
      (simp add: logic_example_def fill_with_puback_data_def fill_defs)
  show "q1_task logic_example 40"
    unfolding q1_task_def
    by (simp add: logic_example_evtd_ok example_task_wf logic_example_evtd_blocks example_owns)
      (simp add: logic_example_def example_task_def publishable_def example_data_def vec_ok_def elems_def c_string_def
        desc_ok_def bytes_desc_def)
  show "phase_of logic_example 40 = Q1_Waiting"
    by (simp add: phase_of_def live_def logic_example_def example_task_def)
  show "is_puback logic_example 45" using pub by (simp add: is_puback_def)
  show "q1_input logic_example 40 XI_STATE_OK 45"
    using mb by (simp add: q1_input_def arg_ok_def arg_blocks_def example_owns logic_example_evtd_blocks)
      (simp add: live_def logic_example_def)
  show "sendable logic_example 40"
    by (simp add: sendable_def logic_example_def example_task_def example_data_def bytes_desc_def XI_MQTT_MAX_PAYLOAD_SIZE_def)
  show "timer_room logic_example" by (simp add: timer_room_def logic_example_def)
  then show "room_for st logic_example" by (simp add: room_for_def)
  show "xi_handle_disposed (callback (logic_tasks logic_example 40)) = 0"
    by (simp add: logic_example_def example_task_def example_callback_def xi_make_handle_argc3_def xi_handle_disposed_def)
qed

theorem publish_q1_refines_protocol_witness:
  "\<exists>r t. do_mqtt_publish_q1 (\<lambda>_ _ _. None) 60 40 XI_STATE_OK 45 logic_example = Some (r, t)
     \<and> phase_of t 40 = Q1_Done \<and> q12_tasks_queue (layer_data t) = []
     \<and> map snd (call_queue t) = [example_callback] \<and> 41 \<notin> live_blocks (tmem t)"
proof -
  have f: "layer_context logic_example = 60" "layer_context logic_example \<noteq> NULL" "prev_context logic_example \<noteq> NULL"
    "\<not> shut_down logic_example" "call_queue logic_example = []" "q12_tasks_queue (layer_data logic_example) = [40]"
    by (simp_all add: logic_example_def shut_down_def XI_THIS_LAYER_NOT_OPERATIONAL_def)
  obtain r t where t: "do_mqtt_publish_q1 (\<lambda>_ _ _. None) 60 40 XI_STATE_OK 45 logic_example = Some (r, t)"
    "q1_outcome logic_example 40 XI_STATE_OK 45 t"
    using publish_q1_refines_protocol [OF example_q1(1) f(2-4) example_q1(2), of "\<lambda>_ _ _. None"] f(1) by auto
  obtain calls outs ph where o: "call_queue t = calls" "list_all2 (emits logic_example t 40) (map snd calls) outs"
    "phase_of t 40 = ph" "(outs, ph) = q1_nominal True Q1_Waiting XI_STATE_OK True"
    "ph = Q1_Done \<Longrightarrow> q12_tasks_queue (layer_data t) = [] \<and> insert 40 (task_owns logic_example 40) \<inter> live_blocks (tmem t) = {}"
    using t(2) example_q1(3-8) unfolding q1_outcome_def by (auto simp: f)
  have cb: "note_calls logic_example 40 XI_STATE_OK = [example_callback]"
    by (simp add: note_calls_def logic_example_def example_task_def example_callback_def xi_make_handle_argc3_def
        xi_handle_disposed_def)
  have "map snd calls = [example_callback]"
    using o(2,4) cb by (auto simp: list_all2_Cons2 emits_def)
  then show ?thesis using t(1) o by (auto simp: example_owns)
qed


section \<open>The life of a message\<close>

text \<open>
  The resumptions of the task \<open>p\<close>, each with its state, its message and the states of the layer
  before and after it. Between them the rest of the program may do what leaves the task alone.
\<close>

type_synonym ('f, 'z) q1_resumption = "xi_state \<times> addr \<times> ('f, 'z) xi_logic_scheme \<times> ('f, 'z) xi_logic_scheme"

inductive q1_history ::
    "('f, 'z) logic_environment \<Rightarrow> addr \<Rightarrow> ('f, 'z) xi_logic_scheme \<Rightarrow> ('f, 'z) q1_resumption list
       \<Rightarrow> ('f, 'z) xi_logic_scheme \<Rightarrow> bool" for env p s where
  q1_begin: "q1_task s p \<Longrightarrow> q1_history env p s [] s"
| q1_other: "q1_history env p s hs t \<Longrightarrow> phase_of t p \<noteq> Q1_Done \<Longrightarrow> q1_task t' p
    \<Longrightarrow> phase_of t' p = phase_of t p \<Longrightarrow> q1_history env p s hs t'"
| q1_resume: "q1_history env p s hs t \<Longrightarrow> phase_of t p \<noteq> Q1_Done \<Longrightarrow> q1_input t p st msg
    \<Longrightarrow> layer_context t \<noteq> NULL \<Longrightarrow> prev_context t \<noteq> NULL \<Longrightarrow> \<not> shut_down t
    \<Longrightarrow> do_mqtt_publish_q1 env (layer_context t) p st msg t = Some (r, u)
    \<Longrightarrow> q1_history env p s (hs @ [(st, msg, t, u)]) u"

text \<open>The calls a resumption has posted are the outputs.\<close>

fun produced :: "addr \<Rightarrow> ('f, 'z) q1_resumption \<Rightarrow> q1_output list \<Rightarrow> bool" where
  "produced p (st, msg, t, u) outs \<longleftrightarrow>
     (\<exists>calls. call_queue u = call_queue t @ calls \<and> list_all2 (emits t u p) (map snd calls) outs)"

fun is_notice :: "q1_output \<Rightarrow> bool" where
  "is_notice (Q1_Notify st) = True"
| "is_notice (Q1_Send dup) = False"

text \<open>A confirmation: the task had been written, waited, and got a PUBACK.\<close>

fun acknowledges :: "addr \<Rightarrow> ('f, 'z) q1_resumption \<Rightarrow> bool" where
  "acknowledges p (st, msg, t, u) \<longleftrightarrow> st = XI_STATE_OK \<and> phase_of t p = Q1_Waiting \<and> is_puback t msg"

fun was_written :: "addr \<Rightarrow> ('f, 'z) q1_resumption \<Rightarrow> bool" where
  "was_written p (st, msg, t, u) \<longleftrightarrow> st = XI_STATE_WRITTEN \<and> phase_of t p = Q1_Sending"

definition q1_safe :: "addr \<Rightarrow> ('f, 'z) q1_resumption list \<Rightarrow> q1_output list list \<Rightarrow> q1_phase \<Rightarrow> bool" where
  "q1_safe p hs os ph \<longleftrightarrow>
     length (filter is_notice (concat os)) \<le> 1
   \<and> (ph \<noteq> Q1_Done \<longrightarrow> filter is_notice (concat os) = [])
   \<and> (Q1_Notify XI_STATE_OK \<in> set (concat os) \<longrightarrow>
        (\<exists>h \<in> set hs. acknowledges p h) \<and> (\<exists>h \<in> set hs. was_written p h))
   \<and> (\<forall>i < length os. Q1_Send XI_MQTT_DUP_FALSE \<in> set (os ! i) \<longrightarrow> i = 0)"

lemma q1_step_cases:
  assumes "q1_step ph st ack outs ph'"
  shows "ph \<noteq> Q1_Done" "ph' \<noteq> Q1_Start" "length (filter is_notice outs) \<le> 1"
    "ph' \<noteq> Q1_Done \<Longrightarrow> filter is_notice outs = []"
    "Q1_Notify XI_STATE_OK \<in> set outs \<Longrightarrow> ph = Q1_Waiting \<and> st = XI_STATE_OK \<and> ack"
    "Q1_Send XI_MQTT_DUP_FALSE \<in> set outs \<Longrightarrow> ph = Q1_Start"
    "ph' = Q1_Waiting \<Longrightarrow> ph = Q1_Sending \<and> st = XI_STATE_WRITTEN"
  using assms
  by (cases, auto simp: resends_def q1_dup_def split: if_splits)+

lemma q1_history_invariant:
  assumes "q1_history env p s hs t" "phase_of s p = Q1_Start"
  shows "(phase_of t p \<noteq> Q1_Done \<longrightarrow> q1_task t p) \<and> (phase_of t p = Q1_Start \<longrightarrow> hs = [])
    \<and> (phase_of t p = Q1_Waiting \<longrightarrow> (\<exists>h \<in> set hs. was_written p h))
    \<and> (\<exists>os. list_all2 (produced p) hs os \<and> q1_safe p hs os (phase_of t p))"
  using assms
proof (induction rule: q1_history.induct)
  case q1_begin
  then show ?case by (auto simp: q1_safe_def intro!: exI [of _ "[]"])
next
  case (q1_other hs t t')
  then show ?case by simp
next
  case (q1_resume hs t st msg r u)
  then have t: "q1_task t p" and ih: "phase_of t p = Q1_Start \<longrightarrow> hs = []"
    "phase_of t p = Q1_Waiting \<longrightarrow> (\<exists>h \<in> set hs. was_written p h)" by simp_all
  obtain os where os: "list_all2 (produced p) hs os" "q1_safe p hs os (phase_of t p)" using q1_resume by blast
  obtain r' u' where "do_mqtt_publish_q1 env (layer_context t) p st msg t = Some (r', u')" "q1_outcome t p st msg u'"
    using publish_q1_step [OF t q1_resume.hyps(4-6,3)] by blast
  then have "q1_outcome t p st msg u" using q1_resume.hyps(7) by simp
  then obtain calls outs ph where o: "call_queue u = call_queue t @ calls"
    "list_all2 (emits t u p) (map snd calls) outs" "q1_step (phase_of t p) st (is_puback t msg) outs (phase_of u p)"
    "phase_of u p \<noteq> Q1_Done \<Longrightarrow> q1_task u p"
    unfolding q1_outcome_def by (auto split: if_splits)
  note c = q1_step_cases [OF o(3)]
  have "produced p (st, msg, t, u) outs" using o(1,2) by auto
  then have "list_all2 (produced p) (hs @ [(st, msg, t, u)]) (os @ [outs])"
    using os(1) by (intro list_all2_appendI) simp_all
  moreover have "q1_safe p (hs @ [(st, msg, t, u)]) (os @ [outs]) (phase_of u p)"
  proof -
    have none: "filter is_notice (concat os) = []" using os(2) c(1) by (simp add: q1_safe_def)
    then have old: "Q1_Notify XI_STATE_OK \<notin> set (concat os)" by (fastforce simp: filter_empty_conv)
    have len: "length os = length hs" using os(1) by (simp add: list_all2_lengthD)
    have first: "\<forall>i < length (os @ [outs]). Q1_Send XI_MQTT_DUP_FALSE \<in> set ((os @ [outs]) ! i) \<longrightarrow> i = 0"
      using os(2) c(6) ih(1) len by (auto simp: q1_safe_def nth_append less_Suc_eq)
    have ack: "(\<exists>h \<in> set (hs @ [(st, msg, t, u)]). acknowledges p h) \<and> (\<exists>h \<in> set (hs @ [(st, msg, t, u)]). was_written p h)"
      if "Q1_Notify XI_STATE_OK \<in> set outs"
      using c(5) [OF that] ih(2) by auto
    show ?thesis using none old first ack c(3,4) by (auto simp: q1_safe_def)
  qed
  ultimately show ?case using c(2,7) o(4) by auto
qed


text \<open>
  C7: Whatever happens to a publication of quality of service 1, in every order of resumptions,
  with every pattern of failing allocations and whatever the rest of the program does in between:
  the application is told at most once, and then the task is gone; it is told that the message has
  been delivered only after the packet was written and its PUBACK came in; and only the packet of
  the first attempt is not marked as a duplicate.
\<close>

theorem publication_reported_once:
  assumes "q1_history env p s hs t" "phase_of s p = Q1_Start"
  shows "\<exists>os. list_all2 (produced p) hs os \<and> q1_safe p hs os (phase_of t p)"
  using q1_history_invariant [OF assms] by blast

text \<open>The example's task before its first resumption.\<close>

definition fresh_example :: "nat xi_logic" where
  "fresh_example = logic_example\<lparr>logic_tasks := (logic_tasks logic_example)(40 := example_task\<lparr>task_cs := 0\<rparr>)\<rparr>"

lemma fresh_example_facts:
  "q1_task fresh_example 40" "phase_of fresh_example 40 = Q1_Start" "layer_context fresh_example \<noteq> NULL"
  "prev_context fresh_example \<noteq> NULL" "\<not> shut_down fresh_example" "q1_input fresh_example 40 st NULL"
  "sendable fresh_example 40" "room_for st fresh_example"
proof -
  have q: "quiet 40 {} logic_example fresh_example"
    unfolding fresh_example_def by (rule quiet_task [OF logic_example_evtd_ok])
  show t: "q1_task fresh_example 40"
    by (rule q1_task_quiet [OF example_q1(1) q])
      (simp_all add: fresh_example_def logic_example_def example_task_def)
  show ph: "phase_of fresh_example 40 = Q1_Start"
    by (simp add: phase_of_def live_def fresh_example_def logic_example_def)
  show "layer_context fresh_example \<noteq> NULL" "prev_context fresh_example \<noteq> NULL" "\<not> shut_down fresh_example"
    by (simp_all add: fresh_example_def logic_example_def shut_down_def XI_THIS_LAYER_NOT_OPERATIONAL_def)
  have "0 \<notin> evtd_blocks fresh_example" using evtd_okD(4) [OF q1_taskD(1) [OF t]] by blast
  then show "q1_input fresh_example 40 st NULL" by (simp add: q1_input_def ph)
  show "sendable fresh_example 40" "room_for st fresh_example"
    using example_q1(5,6) by (simp_all add: sendable_def room_for_def timer_room_def fresh_example_def)
      (simp add: logic_example_def example_task_def)
qed

theorem publication_reported_once_witness:
  "\<exists>(hs :: (nat, unit) q1_resumption list) (t :: nat xi_logic) os. length hs = 2 \<and> phase_of t 40 \<in> {Q1_Waiting, Q1_Done}
     \<and> list_all2 (produced 40) hs os \<and> q1_safe 40 hs os (phase_of t 40)"
proof -
  note f = fresh_example_facts
  let ?env = "\<lambda>_ _ _. None"
  obtain r u where u: "do_mqtt_publish_q1 ?env (layer_context fresh_example) 40 XI_STATE_OK NULL fresh_example = Some (r, u)"
    "q1_outcome fresh_example 40 XI_STATE_OK NULL u"
    using publish_q1_step [OF f(1,3-6)] by blast
  then obtain calls outs where o: "call_queue u = call_queue fresh_example @ calls"
    "list_all2 (emits fresh_example u 40) (map snd calls) outs" "outs = [Q1_Send XI_MQTT_DUP_FALSE]"
    "phase_of u 40 = Q1_Sending" "q1_task u 40"
    "quiet 40 (insert 40 (task_owns fresh_example 40) \<union> arg_blocks fresh_example NULL) fresh_example u"
    using f(2,7,8) unfolding q1_outcome_def by (auto simp: dup_of_def)
  have h1: "q1_history ?env 40 fresh_example [(XI_STATE_OK, NULL, fresh_example, u)] u"
    using q1_resume [OF q1_begin [OF f(1)] _ f(6) f(3-5) u(1)] f(2) by simp
  have "0 \<notin> evtd_blocks u" using evtd_okD(4) [OF q1_taskD(1) [OF o(5)]] by blast
  then have i: "q1_input u 40 XI_STATE_WRITTEN NULL" by (simp add: q1_input_def o(4))
  have g: "layer_context u \<noteq> NULL" "prev_context u \<noteq> NULL" "\<not> shut_down u"
    using o(6) f(3-5) by (simp_all add: quiet_def touches_def shut_down_def)
  obtain r' t where t: "do_mqtt_publish_q1 ?env (layer_context u) 40 XI_STATE_WRITTEN NULL u = Some (r', t)"
    "q1_outcome u 40 XI_STATE_WRITTEN NULL t"
    using publish_q1_step [OF o(5) g i] by blast
  have h2: "q1_history ?env 40 fresh_example
      ([(XI_STATE_OK, NULL, fresh_example, u)] @ [(XI_STATE_WRITTEN, NULL, u, t)]) t"
    using q1_resume [OF h1 _ i g t(1)] o(4) by simp
  obtain os where os: "list_all2 (produced 40) ([(XI_STATE_OK, NULL, fresh_example, u)] @ [(XI_STATE_WRITTEN, NULL, u, t)]) os"
    "q1_safe 40 ([(XI_STATE_OK, NULL, fresh_example, u)] @ [(XI_STATE_WRITTEN, NULL, u, t)]) os (phase_of t 40)"
    using publication_reported_once [OF h2 f(2)] by blast
  have ph: "phase_of t 40 \<in> {Q1_Waiting, Q1_Done}"
    using t(2) o(4) unfolding q1_outcome_def by (auto elim!: q1_step.cases simp: resends_def)
  show ?thesis
    by (intro exI [of _ "[(XI_STATE_OK, NULL, fresh_example, u)] @ [(XI_STATE_WRITTEN, NULL, u, t)]"]
        exI [of _ t] exI [of _ os]) (use ph os in simp)
qed

end
