(* ===== verification/Mqtt_Logic_Session.thy ===== *)
theory Mqtt_Logic_Session
  imports Mqtt_Logic_Publish_Protocol
begin

text \<open>
  Sessions: what \<open>xi_mqtt_logic_layer_close_externally\<close> keeps of the unacknowledged tasks, what
  \<open>xi_mqtt_logic_layer_init\<close> gives back, and how \<open>xi_mqtt_logic_layer_post_connect\<close> resumes them.
\<close>

section \<open>Storing\<close>

lemma fold_option_pure:
  "(\<And>x. x \<in> set xs \<Longrightarrow> f x () = Some ()) \<Longrightarrow> fold_option f xs () = Some ()"
  by (induct xs) auto

text \<open>A store to a number of tasks; doing it twice is doing it once.\<close>

lemma fold_update_tasks:
  assumes "\<And>x. f (f x) = f x" "\<And>p. p \<in> set ps \<Longrightarrow> live s p"
  shows "fold_option (\<lambda>p. update_task p f) ps s =
    Some (s\<lparr>logic_tasks := \<lambda>p. if p \<in> set ps then f (logic_tasks s p) else logic_tasks s p\<rparr>)"
  using assms(2)
proof (induct ps arbitrary: s)
  case Nil
  then show ?case by simp
next
  case (Cons p ps)
  let ?s = "s\<lparr>logic_tasks := (logic_tasks s)(p := f (logic_tasks s p))\<rparr>"
  have "fold_option (\<lambda>p. update_task p f) ps ?s =
    Some (?s\<lparr>logic_tasks := \<lambda>q. if q \<in> set ps then f (logic_tasks ?s q) else logic_tasks ?s q\<rparr>)"
    using Cons by (intro Cons.hyps) simp
  moreover have "(\<lambda>q. if q \<in> set ps then f (logic_tasks ?s q) else logic_tasks ?s q)
      = (\<lambda>q. if q \<in> set (p # ps) then f (logic_tasks s q) else logic_tasks s q)"
    using assms(1) by auto
  moreover have "update_task p f s = Some ?s" using Cons.prems by (simp add: update_task_def)
  ultimately show ?case by simp
qed

lemma put_logic_again: "put_logic (put_a1 c) (put_logic (put_a1 c) x) = put_logic (put_a1 c) x"
  by (cases "handlers (logic x)") (simp_all add: put_logic_def)

text \<open>The tasks and subscriptions a session keeps.\<close>

definition kept_tasks :: "('f, 'z) xi_logic_scheme \<Rightarrow> addr list" where
  "kept_tasks s = filter (xi_mqtt_logic_layer_task_should_be_stored_predicate s) (q12_tasks_queue (layer_data s))"

definition kept_subscriptions :: "('f, 'z) xi_logic_scheme \<Rightarrow> addr xi_vector option" where
  "kept_subscriptions s = (case handlers_for_topics (layer_data s) of
     Some v \<Rightarrow> if elem_no v > 0 then Some v else copy_of_handlers_for_topics s
   | None \<Rightarrow> copy_of_handlers_for_topics s)"

lemma store_session_eq:
  assumes "\<And>p. p \<in> set (q12_tasks_queue (layer_data s)) \<Longrightarrow> live s p"
    "copy_of_handlers_for_topics s = None"
  obtains t where "store_session s = Some t"
    "copy_of_q12_unacked_messages_queue t = kept_tasks s" "copy_of_last_msg_id t = last_msg_id (layer_data s)"
    "copy_of_handlers_for_topics t = kept_subscriptions s"
    "q12_tasks_queue (layer_data t) = filter (\<lambda>p. p \<notin> set (kept_tasks s)) (q12_tasks_queue (layer_data s))"
    "\<And>p. p \<in> set (kept_tasks s) \<Longrightarrow> logic_tasks t p = put_logic (put_a1 NULL) (logic_tasks s p)"
    "\<And>p. p \<notin> set (kept_tasks s) \<Longrightarrow> logic_tasks t p = logic_tasks s p"
    "tmem t = tmem s" "task_data t = task_data s" "user_data t = user_data s" "handles t = handles s"
    "handlers_for_topics (layer_data t) = None \<or> handlers_for_topics (layer_data t) = handlers_for_topics (layer_data s)
       \<and> copy_of_handlers_for_topics t = None"
    "layer_context t = layer_context s" "connection_data t = connection_data s"
proof -
  define s2 where "s2 = (case handlers_for_topics (layer_data s) of
      None \<Rightarrow> s\<lparr>copy_of_last_msg_id := last_msg_id (layer_data s)\<rparr>
    | Some v \<Rightarrow> if elem_no v > 0
        then s\<lparr>copy_of_last_msg_id := last_msg_id (layer_data s), copy_of_handlers_for_topics := Some v,
               layer_data := (layer_data s)\<lparr>handlers_for_topics := None\<rparr>\<rparr>
        else s\<lparr>copy_of_last_msg_id := last_msg_id (layer_data s)\<rparr>)"
  have s2: "logic_tasks s2 = logic_tasks s" "tmem s2 = tmem s" "q12_tasks_queue (layer_data s2) = q12_tasks_queue (layer_data s)"
    "copy_of_last_msg_id s2 = last_msg_id (layer_data s)" "copy_of_handlers_for_topics s2 = kept_subscriptions s"
    "task_data s2 = task_data s" "user_data s2 = user_data s" "handles s2 = handles s"
    "handlers_for_topics (layer_data s2) = None \<or> handlers_for_topics (layer_data s2) = handlers_for_topics (layer_data s)
       \<and> copy_of_handlers_for_topics s2 = None"
    "layer_context s2 = layer_context s" "connection_data s2 = connection_data s"
    using assms(2) by (auto simp: s2_def kept_subscriptions_def split: option.splits)
  have keep: "xi_mqtt_logic_layer_task_should_be_stored_predicate s2 = xi_mqtt_logic_layer_task_should_be_stored_predicate s"
    by (simp add: xi_mqtt_logic_layer_task_should_be_stored_predicate_def fun_eq_iff s2)
  have deref: "fold_option (\<lambda>p _. map_option (\<lambda>_. ()) (deref_task s2 p)) (q12_tasks_queue (layer_data s2)) () = Some ()"
    using assms(1) by (intro fold_option_pure) (simp add: deref_task_def live_def s2)
  let ?u = "s2\<lparr>layer_data := (layer_data s2)\<lparr>q12_tasks_queue := filter (\<lambda>p. \<not> xi_mqtt_logic_layer_task_should_be_stored_predicate s p) (q12_tasks_queue (layer_data s2))\<rparr>,
           copy_of_q12_unacked_messages_queue := kept_tasks s\<rparr>"
  have live: "live ?u p" if "p \<in> set (kept_tasks s)" for p
    using that assms(1) by (auto simp: live_def s2 kept_tasks_def)
  have "store_session s = fold_option (\<lambda>p. update_task p (put_logic (put_a1 NULL))) (kept_tasks s) ?u"
    using deref assms(2)
    by (simp add: store_session_def s2_def keep [symmetric] kept_tasks_def split: option.splits)
      (auto simp: Let_def)
  also have "\<dots> = Some (?u\<lparr>logic_tasks := \<lambda>p. if p \<in> set (kept_tasks s)
      then put_logic (put_a1 NULL) (logic_tasks ?u p) else logic_tasks ?u p\<rparr>)"
    by (rule fold_update_tasks [OF put_logic_again live])
  finally show thesis
    by (rule that) (use s2 in \<open>auto simp: kept_tasks_def intro!: filter_cong\<close>)
qed


section \<open>Restoring\<close>

text \<open>Posting a call to a neighbour leaves the layer's data alone.\<close>

lemma process_on_prev_layer [simp]:
  "layer_data (snd (process_on_prev op d st s)) = layer_data s" "user_data (snd (process_on_prev op d st s)) = user_data s"
  "logic_tasks (snd (process_on_prev op d st s)) = logic_tasks s" "task_data (snd (process_on_prev op d st s)) = task_data s"
  "copy_of_q12_unacked_messages_queue (snd (process_on_prev op d st s)) = copy_of_q12_unacked_messages_queue s"
  "copy_of_handlers_for_topics (snd (process_on_prev op d st s)) = copy_of_handlers_for_topics s"
  "connection_data (snd (process_on_prev op d st s)) = connection_data s"
  by (simp_all add: process_on_prev_def process_on_def xi_layer_continue_with_impl_def xi_evtd_execute_def
      split: prod.splits option.splits)

text \<open>What the layer looks like after a session has been restored into fresh data.\<close>

definition restored ::
    "addr list \<Rightarrow> 16 word \<Rightarrow> addr xi_vector option \<Rightarrow> ('f, 'z) xi_logic_scheme \<Rightarrow> bool" where
  "restored tasks ident subs v \<longleftrightarrow> user_data v \<noteq> NULL \<and> q12_tasks_queue (layer_data v) = tasks
     \<and> last_msg_id (layer_data v) = ident \<and> handlers_for_topics (layer_data v) \<noteq> None
     \<and> (subs \<noteq> None \<longrightarrow> handlers_for_topics (layer_data v) = subs)
     \<and> (subs = None \<longrightarrow> (\<exists>w. handlers_for_topics (layer_data v) = Some w \<and> elem_no w = 0))
     \<and> q0_tasks_queue (layer_data v) = [] \<and> q12_recv_tasks_queue (layer_data v) = []
     \<and> current_q0_task (layer_data v) = NULL
     \<and> copy_of_q12_unacked_messages_queue v = [] \<and> copy_of_handlers_for_topics v = None
     \<and> connection_state (connection_data v) = XI_CONNECTION_STATE_OPENING"

lemma xi_vector_create_empty:
  "\<exists>v m'. xi_vector_create m = Some (v, m') \<and> (\<forall>w. v = Some w \<longrightarrow> elem_no w = 0)
     \<and> (mem_ok m \<longrightarrow> alloc_script m = [] \<longrightarrow> v \<noteq> None)"
  by (auto simp: xi_vector_create_def xi_vector_realloc_def Let_def xi_alloc_def mem_ok_def PTRDIFF_MAX_def
      sizeof_xi_vector_def XI_VECTOR_DEFAULT_CAPACITY_def sizeof_xi_vector_elem_def split: prod.splits)

lemma init_continue_outcomes:
  assumes u: "user_data u = NULL" "layer_context u \<noteq> NULL" "session_type (connection_data u) = XI_SESSION_CONTINUE"
    and mem: "mem_ok (tmem u)"
  obtains (out_of_memory) v where "xi_mqtt_logic_layer_init (layer_context u) dat st u = Some (XI_OUT_OF_MEMORY, v)"
      "user_data v = NULL" "copy_of_q12_unacked_messages_queue v = copy_of_q12_unacked_messages_queue u"
      "copy_of_handlers_for_topics v = copy_of_handlers_for_topics u" "copy_of_last_msg_id v = copy_of_last_msg_id u"
      "\<not> granted (tmem u)" "layer_context v = layer_context u" "connection_data v = connection_data u" "mem_ok (tmem v)"
  | (lost) v where "xi_mqtt_logic_layer_init (layer_context u) dat st u = Some (XI_OUT_OF_MEMORY, v)"
      "user_data v = NULL" "copy_of_q12_unacked_messages_queue v = []" "copy_of_handlers_for_topics u = None"
      "live_blocks (tmem u) \<subseteq> live_blocks (tmem v)" "\<not> granted (tmem u)"
  | (restored) r v where "xi_mqtt_logic_layer_init (layer_context u) dat st u = Some (r, v)"
      "restored (copy_of_q12_unacked_messages_queue u) (copy_of_last_msg_id u) (copy_of_handlers_for_topics u) v"
      "logic_tasks v = logic_tasks u" "task_data v = task_data u"
proof -
  obtain p m where a: "xi_alloc sizeof_xi_mqtt_logic_layer_data (tmem u) = (p, m)" by fastforce
  note g = grows_alloc [OF a mem]
  define s1 where "s1 = u\<lparr>handles := (handles u)(p := NULL), tmem := m, user_data := p, layer_data := zero_layer_data\<rparr>"
  have ctx: "xi_context u (layer_context u) = Some ()" using u(2) by (simp add: xi_context_def)
  show thesis
  proof (cases "p = NULL")
    case True
    have "\<not> granted (tmem u)"
      using g(3) True by (auto simp: granted_def sizeof_xi_mqtt_logic_layer_data_def PTRDIFF_MAX_def)
    then show thesis
      using a True u ctx g(1) by (intro out_of_memory [of "u\<lparr>tmem := m, user_data := NULL\<rparr>"])
        (simp_all add: xi_mqtt_logic_layer_init_def alloc_layer_data_def grows_def)
  next
    case p: False
    have al: "alloc_layer_data u = (p, s1)" using a p by (simp add: alloc_layer_data_def s1_def)
    have s1: "session_type (connection_data s1) = XI_SESSION_CONTINUE" using u(3) by (simp add: s1_def)
    define s2 where "s2 = restore_session s1"
    have s2_fields: "q12_tasks_queue (layer_data s2) = copy_of_q12_unacked_messages_queue u"
      "last_msg_id (layer_data s2) = copy_of_last_msg_id u"
      "handlers_for_topics (layer_data s2) = copy_of_handlers_for_topics u" "q0_tasks_queue (layer_data s2) = []"
      "q12_recv_tasks_queue (layer_data s2) = []" "current_q0_task (layer_data s2) = NULL"
      "copy_of_q12_unacked_messages_queue s2 = []" "copy_of_handlers_for_topics s2 = None" "user_data s2 = p"
      "tmem s2 = m" "logic_tasks s2 = logic_tasks u" "task_data s2 = task_data u"
      by (simp_all add: s2_def restore_session_def s1_def zero_layer_data_def)
    let ?open = "\<lambda>s3. process_on_prev Init dat st
        (s3\<lparr>connection_data := (connection_data s3)\<lparr>connection_state := XI_CONNECTION_STATE_OPENING\<rparr>\<rparr>)"
    define rest where "rest = (\<lambda>(s3 :: ('a, 'b) xi_logic_scheme, ok).
        if ok then Some (?open s3)
        else Some (XI_OUT_OF_MEMORY, s3\<lparr>tmem := xi_free (user_data s3) (tmem s3), user_data := NULL\<rparr>))"
    have init: "xi_mqtt_logic_layer_init (layer_context u) dat st u =
       (case handlers_for_topics (layer_data s2) of
          Some _ \<Rightarrow> Some (s2, True)
        | None \<Rightarrow> do {
            (v, m) \<leftarrow> xi_vector_create (tmem s2);
            Some (s2\<lparr>tmem := m, layer_data := (layer_data s2)\<lparr>handlers_for_topics := v\<rparr>\<rparr>, v \<noteq> None) }) \<bind> rest"
      unfolding xi_mqtt_logic_layer_init_def ctx u(1) if_P [OF refl] al Let_def
      using p s1 by (simp add: s2_def rest_def cong del: option.case_cong)
    show thesis
    proof (cases "copy_of_handlers_for_topics u")
      case (Some subs)
      obtain r v where o: "?open s2 = (r, v)" by fastforce
      have v: "v = snd (?open s2)" using o by simp
      have "restored (copy_of_q12_unacked_messages_queue u) (copy_of_last_msg_id u) (copy_of_handlers_for_topics u) v"
        using p Some by (simp add: v restored_def s2_fields)
      moreover have "xi_mqtt_logic_layer_init (layer_context u) dat st u = Some (r, v)"
        by (simp add: init Some s2_fields rest_def o)
      moreover have "logic_tasks v = logic_tasks u" "task_data v = task_data u" by (simp_all add: v s2_fields)
      ultimately show thesis using restored by blast
    next
      case None
      have mm: "mem_ok m" using g(1) by (simp add: grows_def)
      from mm show thesis
      proof (cases rule: xi_vector_create_spec [where 'a = addr])
        case (fail m')
        have fresh: "p \<notin> live_blocks (tmem u)" using g(2) p by auto
        let ?v = "s2\<lparr>tmem := xi_free p m', layer_data := (layer_data s2)\<lparr>handlers_for_topics := None\<rparr>, user_data := NULL\<rparr>"
        have "\<not> granted (tmem u)"
          using xi_vector_create_empty [of m, where 'a = addr] fail(1) mm xi_alloc_unscripted [OF _ a]
          by (auto simp: granted_def)
        moreover have "live_blocks (tmem u) \<subseteq> live_blocks (xi_free p m')"
          using fail(2) g(1) fresh by (auto simp: grows_def)
        ultimately show thesis
          using init None fail(1) by (intro lost [of ?v]) (simp_all add: s2_fields rest_def)
      next
        case (success w m')
        let ?s3 = "s2\<lparr>tmem := m', layer_data := (layer_data s2)\<lparr>handlers_for_topics := Some w\<rparr>\<rparr>"
        obtain r v where o: "?open ?s3 = (r, v)" by fastforce
        have v: "v = snd (?open ?s3)" using o by simp
        have "elem_no w = 0"
          using xi_vector_create_empty [of m, where 'a = addr] success(1) by auto
        then have "restored (copy_of_q12_unacked_messages_queue u) (copy_of_last_msg_id u) (copy_of_handlers_for_topics u) v"
          using p None by (simp add: v restored_def s2_fields)
        moreover have "xi_mqtt_logic_layer_init (layer_context u) dat st u = Some (r, v)"
          using o by (simp add: init None s2_fields success(1) rest_def)
        moreover have "logic_tasks v = logic_tasks u" "task_data v = task_data u" by (simp_all add: v s2_fields)
        ultimately show thesis using restored by blast
      qed
    qed
  qed
qed


section \<open>Resuming\<close>

lemma q1_task_other:
  assumes q: "q1_task s q" and k: "quiet p B s t" and n: "q \<noteq> p" "B \<inter> insert q (task_owns s q) = {}"
  shows "q1_task t q" "task_owns t q = task_owns s q" "logic_tasks t q = logic_tasks s q" "task_data t = task_data s"
proof -
  note d = q1_taskD [OF q]
  have same: "task_data t = task_data s" "io_timeouts t = io_timeouts s" "current_step t = current_step s"
      "logic_tasks t q = logic_tasks s q" "handles t q = handles s q" "evtd_ok t"
    and l: "live_blocks (tmem s) - evtd_blocks s - B \<subseteq> live_blocks (tmem t)"
    using k n(1) unfolding quiet_def touches_def by blast+
  show "logic_tasks t q = logic_tasks s q" "task_data t = task_data s" by (rule same)+
  show o: "task_owns t q = task_owns s q" using same by (simp add: task_owns_def)
  have live: "insert q (task_owns s q) \<subseteq> live_blocks (tmem t)" using d(5,6) n(2) l by blast
  have "insert q (task_owns s q) \<inter> evtd_blocks t = {}" using k d(10,6,5) by (rule quiet_evtd_disjoint)
  moreover have "task_wf t q" using d(2,4) live o same by (simp add: task_wf_def live_def)
  ultimately show "q1_task t q" using q same o by (simp add: q1_task_def)
qed

text \<open>A stored publication, as \<open>store_session\<close> and the resumptions before it left it.\<close>

definition resendable :: "('f, 'z) xi_logic_scheme \<Rightarrow> addr \<Rightarrow> bool" where
  "resendable s p \<longleftrightarrow> q1_task s p \<and> sendable s p
     \<and> session_state (logic_tasks s p) = XI_MQTT_LOGIC_TASK_SESSION_STORE
     \<and> (\<exists>c st. logic (logic_tasks s p) = logic_handle4 Do_Mqtt_Publish_Q1 c p st NULL)"

lemma resend_step:
  assumes r: "resendable s p" and c: "layer_context s \<noteq> NULL" "prev_context s \<noteq> NULL" "\<not> shut_down s"
  obtains u q msg where
    "set_new_context_and_call_resend (logic_env (Suc n) outer) (layer_context s) p s = Some u"
    "quiet p (insert p (task_owns s p)) s u" "call_queue u = call_queue s @ [(q, push_handle s msg)]"
    "packet_of s p XI_MQTT_DUP_TRUE (mqtt_messages u msg)" "live u msg" "q1_task u p" "phase_of u p = Q1_Sending"
    "q12_tasks_queue (layer_data u) = q12_tasks_queue (layer_data s)" "data_u (logic_tasks u p) = data_u (logic_tasks s p)"
proof -
  have t: "q1_task s p" "sendable s p" and st: "session_state (logic_tasks s p) = XI_MQTT_LOGIC_TASK_SESSION_STORE"
    using r by (simp_all add: resendable_def)
  obtain c0 st0 where lg: "logic (logic_tasks s p) = logic_handle4 Do_Mqtt_Publish_Q1 c0 p st0 NULL"
    using r by (auto simp: resendable_def)
  note d = q1_taskD [OF t(1)]
  let ?h = "logic_handle4 Do_Mqtt_Publish_Q1 (layer_context s) p XI_STATE_RESEND NULL :: 'a logic_handle"
  let ?v = "s\<lparr>logic_tasks := (logic_tasks s)(p := (logic_tasks s p)\<lparr>logic := ?h\<rparr>)\<rparr>"
  have call: "set_new_context_and_call_resend (logic_env (Suc n) outer) (layer_context s) p s
      = map_option snd (do_mqtt_publish_q1 (logic_env n outer) (layer_context s) p XI_STATE_RESEND NULL ?v)"
    using d(3) st lg
    by (cases "do_mqtt_publish_q1 (logic_env n outer) (layer_context s) p XI_STATE_RESEND NULL ?v")
      (simp_all add: set_new_context_and_call_resend_def resend_task_def signal_task_def execute_task_def deref_task_def
        update_task_def put_logic_def logic_handle4_def xi_make_handle_argc4_def xi_evtd_execute_handle_def
        logic_call_def with_args4_def case_prod_unfold)
  have q: "quiet p {} s ?v" using d(1) by (rule quiet_task)
  have tv: "q1_task ?v p" and ov: "task_owns ?v p = task_owns s p"
    by (rule q1_task_quiet [OF t(1) q]; use t(1) in \<open>simp add: q1_task_def\<close>)+
  have cv: "layer_context ?v \<noteq> NULL" "prev_context ?v \<noteq> NULL" "\<not> shut_down ?v" "layer_context ?v = layer_context s"
    using c by (simp_all add: shut_down_def)
  have "0 \<notin> evtd_blocks ?v" using evtd_okD(4) [OF q1_taskD(1) [OF tv]] by blast
  then have i: "q1_input ?v p XI_STATE_RESEND NULL" by (simp add: q1_input_def)
  have sv: "sendable ?v p" "room_for XI_STATE_RESEND ?v" using t(2) by (simp_all add: sendable_def room_for_def)
  have live_phase: "phase_of ?v p \<noteq> Q1_Done" using q1_taskD(3) [OF tv] by (simp add: phase_of_def)
  then have nom: "q1_nominal told (phase_of ?v p) XI_STATE_RESEND ack = ([Q1_Send XI_MQTT_DUP_TRUE], Q1_Sending)" for told ack
    by (cases "phase_of ?v p") (simp_all add: dup_of_def)
  obtain r u where u: "do_mqtt_publish_q1 (logic_env n outer) (layer_context s) p XI_STATE_RESEND NULL ?v = Some (r, u)"
    "q1_outcome ?v p XI_STATE_RESEND NULL u"
    using publish_q1_step [OF tv cv(1-3) i, of "logic_env n outer"] cv(4) by auto
  obtain calls where o: "call_queue u = call_queue ?v @ calls"
    "list_all2 (emits ?v u p) (map snd calls) [Q1_Send XI_MQTT_DUP_TRUE]" "phase_of u p = Q1_Sending" "q1_task u p"
    "quiet p (insert p (task_owns ?v p) \<union> arg_blocks ?v NULL) ?v u"
    "q12_tasks_queue (layer_data u) = q12_tasks_queue (layer_data ?v)" "data_u (logic_tasks u p) = data_u (logic_tasks ?v p)"
    using u(2) sv unfolding q1_outcome_def by (auto simp: nom)
  then obtain q0 msg where m: "calls = [(q0, push_handle ?v msg)]" "live u msg"
    "packet_of ?v p XI_MQTT_DUP_TRUE (mqtt_messages u msg)"
    by (auto simp: list_all2_Cons2 emits_def)
  have "quiet p ({} \<union> (insert p (task_owns ?v p) \<union> arg_blocks ?v NULL)) s u" by (rule quiet_trans [OF q o(5)])
  then have "quiet p (insert p (task_owns s p)) s u" using ov by simp
  moreover have "packet_of s p XI_MQTT_DUP_TRUE (mqtt_messages u msg)"
    using m(3) by (simp add: packet_of_def cong: xi_mqtt_task_specific_data.case_cong)
  ultimately show thesis
    using call u(1) o m by (intro that [of u q0 msg]) (simp_all add: push_handle_def)
qed


text \<open>No block belongs to two of the tasks.\<close>

fun apart :: "('f, 'z) xi_logic_scheme \<Rightarrow> addr list \<Rightarrow> bool" where
  "apart s [] \<longleftrightarrow> True"
| "apart s (p # ps) \<longleftrightarrow> (\<forall>q \<in> set ps. p \<noteq> q \<and> insert p (task_owns s p) \<inter> insert q (task_owns s q) = {}) \<and> apart s ps"

lemma apart_cong: "(\<And>p. p \<in> set ps \<Longrightarrow> task_owns t p = task_owns s p) \<Longrightarrow> apart t ps = apart s ps"
  by (induct ps) auto

text \<open>The call that sends the stored publication \<open>p\<close> of \<open>s\<close> again; \<open>t\<close> has the message.\<close>

definition sends_again ::
    "('f, 'z) xi_logic_scheme \<Rightarrow> ('f, 'z) xi_logic_scheme \<Rightarrow> addr \<Rightarrow> 'f logic_handle \<Rightarrow> bool" where
  "sends_again s t p h \<longleftrightarrow> (\<exists>msg. h = push_handle s msg \<and> msg < next_block (tmem t)
     \<and> packet_of s p XI_MQTT_DUP_TRUE (mqtt_messages t msg))"

definition layer_up :: "('f, 'z) xi_logic_scheme \<Rightarrow> bool" where
  "layer_up s \<longleftrightarrow> layer_context s \<noteq> NULL \<and> prev_context s \<noteq> NULL \<and> \<not> shut_down s"

lemma resend_all:
  assumes "\<forall>p \<in> set ps. resendable s p" "apart s ps" "layer_up s" "evtd_ok s"
  shows "\<exists>t calls. fold_option (set_new_context_and_call_resend (logic_env (Suc n) outer) (layer_context s)) ps s = Some t
    \<and> call_queue t = call_queue s @ calls \<and> list_all2 (sends_again s t) ps (map snd calls)
    \<and> touches s t \<and> evtd_ok t \<and> next_block (tmem s) \<le> next_block (tmem t)
    \<and> (alloc_script (tmem s) = [] \<longrightarrow> alloc_script (tmem t) = [])
    \<and> (\<forall>a < next_block (tmem s). mqtt_messages t a = mqtt_messages s a)
    \<and> (\<forall>p. p \<notin> set ps \<longrightarrow> q1_task s p \<longrightarrow> (\<forall>q \<in> set ps. insert p (task_owns s p) \<inter> insert q (task_owns s q) = {})
          \<longrightarrow> q1_task t p \<and> phase_of t p = phase_of s p)
    \<and> (\<forall>p \<in> set ps. q1_task t p \<and> phase_of t p = Q1_Sending)
    \<and> q12_tasks_queue (layer_data t) = q12_tasks_queue (layer_data s)"
  using assms
proof (induct ps arbitrary: s)
  case Nil
  then show ?case by auto
next
  case (Cons p ps)
  have r: "resendable s p" and up: "layer_context s \<noteq> NULL" "prev_context s \<noteq> NULL" "\<not> shut_down s"
    using Cons.prems by (simp_all add: layer_up_def)
  obtain u q0 msg where u: "set_new_context_and_call_resend (logic_env (Suc n) outer) (layer_context s) p s = Some u"
    "quiet p (insert p (task_owns s p)) s u" "call_queue u = call_queue s @ [(q0, push_handle s msg)]"
    "packet_of s p XI_MQTT_DUP_TRUE (mqtt_messages u msg)" "live u msg" "q1_task u p" "phase_of u p = Q1_Sending"
    "q12_tasks_queue (layer_data u) = q12_tasks_queue (layer_data s)" "data_u (logic_tasks u p) = data_u (logic_tasks s p)"
    by (rule resend_step [OF r up], rule that)
  have tu: "touches s u" "evtd_ok u" "next_block (tmem s) \<le> next_block (tmem u)"
      "\<forall>a < next_block (tmem s). mqtt_messages u a = mqtt_messages s a"
      "alloc_script (tmem s) = [] \<Longrightarrow> alloc_script (tmem u) = []"
    using u(2) unfolding quiet_def by blast+
  have same: "layer_context u = layer_context s" "prev_context u = prev_context s" "layer_up u"
    using tu(1) Cons.prems(3) by (simp_all add: touches_def layer_up_def shut_down_def)
  have other: "q1_task u q \<and> task_owns u q = task_owns s q \<and> logic_tasks u q = logic_tasks s q \<and> task_data u = task_data s"
    if "q1_task s q" "q \<noteq> p" "insert q (task_owns s q) \<inter> insert p (task_owns s p) = {}" for q
    using q1_task_other [OF that(1) u(2) that(2)] that(3) by blast
  have rest: "q1_task u q \<and> task_owns u q = task_owns s q \<and> logic_tasks u q = logic_tasks s q \<and> task_data u = task_data s
      \<and> resendable u q" if "q \<in> set ps" for q
  proof -
    have rq: "q1_task s q" "sendable s q" "session_state (logic_tasks s q) = XI_MQTT_LOGIC_TASK_SESSION_STORE"
      "\<exists>c st. logic (logic_tasks s q) = logic_handle4 Do_Mqtt_Publish_Q1 c q st NULL"
      using Cons.prems(1) that by (simp_all add: resendable_def)
    have o: "q1_task u q \<and> task_owns u q = task_owns s q \<and> logic_tasks u q = logic_tasks s q \<and> task_data u = task_data s"
      using Cons.prems(2) that by (intro other [OF rq(1)]) auto
    then have "sendable u q" using rq(2) tu(5) by (simp add: sendable_def)
    then show ?thesis using o rq(3,4) by (simp add: resendable_def)
  qed
  have "apart u ps" using Cons.prems(2) rest apart_cong [of ps u s] by simp
  then obtain t calls where t:
    "fold_option (set_new_context_and_call_resend (logic_env (Suc n) outer) (layer_context u)) ps u = Some t"
    "call_queue t = call_queue u @ calls" "list_all2 (sends_again u t) ps (map snd calls)"
    "touches u t" "evtd_ok t" "next_block (tmem u) \<le> next_block (tmem t)"
    "\<And>q. q \<notin> set ps \<Longrightarrow> q1_task u q \<Longrightarrow> \<forall>r \<in> set ps. insert q (task_owns u q) \<inter> insert r (task_owns u r) = {}
          \<Longrightarrow> q1_task t q \<and> phase_of t q = phase_of u q"
    "\<And>q. q \<in> set ps \<Longrightarrow> q1_task t q \<and> phase_of t q = Q1_Sending"
    "q12_tasks_queue (layer_data t) = q12_tasks_queue (layer_data u)"
    "alloc_script (tmem u) = [] \<longrightarrow> alloc_script (tmem t) = []"
    "\<forall>a < next_block (tmem u). mqtt_messages t a = mqtt_messages u a"
    using Cons.hyps [of u] rest same(3) tu(2) by metis
  have p: "p \<notin> set ps" using Cons.prems(2) by auto
  have ou: "task_owns u p = task_owns s p"
  proof -
    have "task_data u = task_data s" using tu(1) by (simp add: touches_def)
    then show ?thesis using u(9) by (simp add: task_owns_def)
  qed
  have pt: "q1_task t p \<and> phase_of t p = Q1_Sending"
    using t(7) [OF p u(6)] u(7) rest Cons.prems(2) ou by auto
  have msg: "msg < next_block (tmem u)"
    using u(5) evtd_okD(2) [OF tu(2)] by (auto simp: live_def mem_ok_def)
  have "sends_again s t p (push_handle s msg)"
    unfolding sends_again_def using msg t(6,11) u(4) by (intro exI [of _ msg]) auto
  moreover have "list_all2 (sends_again s t) ps (map snd calls)"
    using t(3)
  proof (rule list.rel_mono_strong)
    fix q h assume "q \<in> set ps" "h \<in> set (map snd calls)" "sends_again u t q h"
    then show "sends_again s t q h"
      using rest [of q] same(2) unfolding sends_again_def push_handle_def packet_of_def by metis
  qed
  ultimately have "list_all2 (sends_again s t) (p # ps) (map snd ((q0, push_handle s msg) # calls))" by simp
  moreover have "q1_task t q \<and> phase_of t q = phase_of s q"
    if "q \<notin> set (p # ps)" "q1_task s q" "\<forall>r \<in> set (p # ps). insert q (task_owns s q) \<inter> insert r (task_owns s r) = {}" for q
  proof -
    have "q1_task u q \<and> task_owns u q = task_owns s q \<and> logic_tasks u q = logic_tasks s q"
      using other [OF that(2)] that by auto
    moreover from this have "phase_of u q = phase_of s q"
      using q1_taskD(3) [OF that(2)] q1_taskD(3) [of u q] by (simp add: phase_of_def)
    ultimately show ?thesis using t(7) [of q] that rest by auto
  qed
  ultimately show ?case
    using u(1,3,8) t same tu pt touches_trans [OF tu(1) t(4)]
    by (intro exI [of _ t] exI [of _ "(q0, push_handle s msg) # calls"]) (auto simp del: logic_env.simps)
qed

text \<open>The tasks themselves are not held by the layer's data while it is being resumed.\<close>

definition post_connect_handle :: "('f, 'z) xi_logic_scheme \<Rightarrow> addr \<Rightarrow> xi_state \<Rightarrow> 'f logic_handle" where
  "post_connect_handle s dat st = xi_make_handle_argc3 0 (Other_Fn (Prev_Layer Post_Connect)) (prev_context s) dat st"

lemma process_post_connect:
  assumes s: "evtd_ok s" and c: "prev_context s \<noteq> NULL" and a: "alloc_script (tmem s) = []"
  obtains q t where "process_on_prev Post_Connect dat st s = (XI_STATE_OK, t)" "quiet p {} s t"
    "logic_tasks t = logic_tasks s" "mqtt_messages t = mqtt_messages s" "layer_data t = layer_data s"
    "handles t = handles s" "call_queue t = call_queue s @ [(q, post_connect_handle s dat st)]"
proof -
  obtain q t where t: "xi_evtd_execute s (post_connect_handle s dat st) = (q, t)" "quiet p {} s t" "logic_tasks t = logic_tasks s"
    "mqtt_messages t = mqtt_messages s" "layer_data t = layer_data s" "handles t = handles s"
    "call_queue t = call_queue s @ (if q = NULL then [] else [(q, post_connect_handle s dat st)])" "q \<noteq> NULL"
    using quiet_execute [OF s] a by metis
  have "layer_state t = layer_state s" using t(2) by (simp add: quiet_def touches_def)
  then have "t\<lparr>layer_state := layer_state s\<rparr> = t" by simp
  then have "process_on_prev Post_Connect dat st s = (XI_STATE_OK, t)"
    using t(1,8) c by (simp add: process_on_prev_def process_on_def xi_layer_continue_with_impl_def post_connect_handle_def)
  then show thesis using t that by simp
qed

text \<open>What stays as it was from the end of one connection to the beginning of the next.\<close>

definition keeps_session :: "('f, 'z) xi_logic_scheme \<Rightarrow> ('f, 'z) xi_logic_scheme \<Rightarrow> bool" where
  "keeps_session t u \<longleftrightarrow> copy_of_q12_unacked_messages_queue u = copy_of_q12_unacked_messages_queue t
     \<and> copy_of_handlers_for_topics u = copy_of_handlers_for_topics t \<and> copy_of_last_msg_id u = copy_of_last_msg_id t
     \<and> user_data u = NULL \<and> layer_context u \<noteq> NULL \<and> session_type (connection_data u) = XI_SESSION_CONTINUE
     \<and> mem_ok (tmem u)"

text \<open>
  C10: storing and restoring a session. \<open>store_session\<close> takes exactly the tasks marked for storing
  out of the queue (in order, their context cleared) and leaves the others; the \<open>init\<close> of the next
  connection that continues the session gives the tasks, the subscriptions and the last message
  identifier back, in fresh data. When memory runs out, it fails with the copies intact, except
  when there are no subscriptions: then it can fail after the tasks have been taken out of the
  copies, and they are lost, with nothing freed.
\<close>
theorem session_round_trip:
  fixes s :: "('f, 'z) xi_logic_scheme"
  assumes "\<forall>p \<in> set (q12_tasks_queue (layer_data s)). live s p" "copy_of_handlers_for_topics s = None"
  shows "\<exists>t. store_session s = Some t
    \<and> q12_tasks_queue (layer_data t) = filter (\<lambda>p. p \<notin> set (kept_tasks s)) (q12_tasks_queue (layer_data s))
    \<and> (\<forall>p. logic_tasks t p =
          (if p \<in> set (kept_tasks s) then put_logic (put_a1 NULL) (logic_tasks s p) else logic_tasks s p))
    \<and> (\<forall>u dat st. keeps_session t u \<longrightarrow> (\<exists>r v. xi_mqtt_logic_layer_init (layer_context u) dat st u = Some (r, v)
        \<and> (restored (kept_tasks s) (last_msg_id (layer_data s)) (kept_subscriptions s) v
             \<and> logic_tasks v = logic_tasks u \<and> task_data v = task_data u
           \<or> r = XI_OUT_OF_MEMORY \<and> \<not> granted (tmem u) \<and> keeps_session t v
           \<or> r = XI_OUT_OF_MEMORY \<and> \<not> granted (tmem u) \<and> kept_subscriptions s = None
             \<and> user_data v = NULL \<and> copy_of_q12_unacked_messages_queue v = []
             \<and> live_blocks (tmem u) \<subseteq> live_blocks (tmem v))))"
proof -
  have live: "\<And>p. p \<in> set (q12_tasks_queue (layer_data s)) \<Longrightarrow> live s p" using assms(1) by blast
  obtain t where t: "store_session s = Some t"
    "copy_of_q12_unacked_messages_queue t = kept_tasks s" "copy_of_last_msg_id t = last_msg_id (layer_data s)"
    "copy_of_handlers_for_topics t = kept_subscriptions s"
    "q12_tasks_queue (layer_data t) = filter (\<lambda>p. p \<notin> set (kept_tasks s)) (q12_tasks_queue (layer_data s))"
    "\<And>p. p \<in> set (kept_tasks s) \<Longrightarrow> logic_tasks t p = put_logic (put_a1 NULL) (logic_tasks s p)"
    "\<And>p. p \<notin> set (kept_tasks s) \<Longrightarrow> logic_tasks t p = logic_tasks s p"
    by (rule store_session_eq [OF live assms(2)], assumption, rule that)
  have "\<exists>r v. xi_mqtt_logic_layer_init (layer_context u) dat st u = Some (r, v)
        \<and> (restored (kept_tasks s) (last_msg_id (layer_data s)) (kept_subscriptions s) v
             \<and> logic_tasks v = logic_tasks u \<and> task_data v = task_data u
           \<or> r = XI_OUT_OF_MEMORY \<and> \<not> granted (tmem u) \<and> keeps_session t v
           \<or> r = XI_OUT_OF_MEMORY \<and> \<not> granted (tmem u) \<and> kept_subscriptions s = None
             \<and> user_data v = NULL \<and> copy_of_q12_unacked_messages_queue v = []
             \<and> live_blocks (tmem u) \<subseteq> live_blocks (tmem v))" if k: "keeps_session t u" for u dat st
  proof -
    have u: "user_data u = NULL" "layer_context u \<noteq> NULL" "session_type (connection_data u) = XI_SESSION_CONTINUE"
      "mem_ok (tmem u)" and c: "copy_of_q12_unacked_messages_queue u = kept_tasks s"
      "copy_of_last_msg_id u = last_msg_id (layer_data s)" "copy_of_handlers_for_topics u = kept_subscriptions s"
      using k t(2-4) by (simp_all add: keeps_session_def)
    from u show ?thesis
    proof (cases rule: init_continue_outcomes [of u dat st])
      case (out_of_memory v)
      then have "keeps_session t v" using k by (simp add: keeps_session_def)
      then show ?thesis using out_of_memory(1,6) by blast
    next
      case (lost v)
      then show ?thesis using c(3) by auto
    next
      case (restored r v)
      then show ?thesis using c by auto
    qed
  qed
  then show ?thesis using t(1,5-7) by (intro exI [of _ t]) simp
qed

theorem session_round_trip_witness:
  "\<exists>(t :: nat xi_logic) r v. store_session logic_example = Some t
     \<and> xi_mqtt_logic_layer_init 60 NULL XI_STATE_OK (t\<lparr>user_data := NULL\<rparr>) = Some (r, v)
     \<and> q12_tasks_queue (layer_data t) = [] \<and> q12_tasks_queue (layer_data v) = [40] \<and> last_msg_id (layer_data v) = 258
     \<and> logic (logic_tasks v 40) = logic_handle4 Do_Mqtt_Publish_Q1 NULL 40 XI_STATE_OK NULL"
proof -
  let ?s = "logic_example :: nat xi_logic"
  have kept: "kept_tasks ?s = [40]"
    by (simp add: kept_tasks_def xi_mqtt_logic_layer_task_should_be_stored_predicate_def logic_example_def example_task_def)
  have s: "\<forall>p \<in> set (q12_tasks_queue (layer_data ?s)). live ?s p" "copy_of_handlers_for_topics ?s = None"
    "q12_tasks_queue (layer_data ?s) = [40]" "last_msg_id (layer_data ?s) = 258"
    by (simp_all add: logic_example_def live_def)
  obtain t where t: "store_session ?s = Some t" "q12_tasks_queue (layer_data t) = []"
    "logic_tasks t 40 = put_logic (put_a1 NULL) (logic_tasks ?s 40)"
    and init: "\<And>u dat st. keeps_session t u \<Longrightarrow> \<exists>r v. xi_mqtt_logic_layer_init (layer_context u) dat st u = Some (r, v)
        \<and> (restored [40] 258 (kept_subscriptions ?s) v \<and> logic_tasks v = logic_tasks u \<and> task_data v = task_data u
           \<or> \<not> granted (tmem u))"
    using session_round_trip [OF s(1,2)] unfolding kept s(3,4) by fastforce
  obtain t' where t': "store_session ?s = Some t'" "tmem t' = tmem ?s"
    "layer_context t' = layer_context ?s" "connection_data t' = connection_data ?s"
    by (rule store_session_eq [of ?s]) (use s in auto)
  let ?u = "t\<lparr>user_data := NULL\<rparr>"
  have same: "tmem t = tmem ?s" "layer_context t = 60" "session_type (connection_data t) = XI_SESSION_CONTINUE"
    using t(1) t' by (simp_all add: logic_example_def)
  have g: "mem_ok (tmem ?s)" "granted (tmem ?s)"
    using evtd_okD(2) [OF logic_example_evtd_ok] by (simp_all add: granted_def logic_example_def)
  then have "keeps_session t ?u" using same by (simp add: keeps_session_def)
  then obtain r v where v: "xi_mqtt_logic_layer_init 60 NULL XI_STATE_OK ?u = Some (r, v)"
    "restored [40] 258 (kept_subscriptions ?s) v" "logic_tasks v = logic_tasks t"
    using init [of ?u NULL XI_STATE_OK] g(2) same by auto
  have "logic (logic_tasks v 40) = logic_handle4 Do_Mqtt_Publish_Q1 NULL 40 XI_STATE_OK NULL"
    by (simp add: v(3) t(3)) (simp add: logic_example_def example_task_def put_logic_def logic_handle4_def
        xi_make_handle_argc4_def)
  then show ?thesis using t(1,2) v(1,2) by (intro exI [of _ t] exI [of _ r] exI [of _ v]) (simp add: restored_def)
qed

text \<open>
  C11: when the connection is up again, the layer sends every publication of the restored session
  again: once each, in the order in which they were queued, marked as a duplicate; then the call
  goes on to the previous layer. No task is lost or finished by this, and each then waits for its
  packet to be written. One level of \<open>logic_env\<close> is enough. The queue holds only stored publications
  of QoS 1 (\<open>resendable\<close>, with blocks of their own): the SUBSCRIBE tasks that the library keeps in
  the same queue are not covered. Memory is granted throughout; where it is refused, a publication may
  not be sent again.
\<close>
theorem post_connect_resends:
  fixes s :: "('f, 'z) xi_logic_scheme" and outer :: "('f, 'z) logic_environment"
  assumes "layer_up s" "user_data s \<noteq> NULL" "evtd_ok s" "alloc_script (tmem s) = []"
    and "\<forall>p \<in> set (q12_tasks_queue (layer_data s)). resendable s p" "apart s (q12_tasks_queue (layer_data s))"
  shows "\<exists>t calls q. xi_mqtt_logic_layer_post_connect (logic_env (Suc n) outer) (layer_context s) dat st s = Some (st, t)
    \<and> call_queue t = call_queue s @ calls @ [(q, post_connect_handle s dat st)]
    \<and> list_all2 (sends_again s t) (q12_tasks_queue (layer_data s)) (map snd calls)
    \<and> q12_tasks_queue (layer_data t) = q12_tasks_queue (layer_data s)
    \<and> (\<forall>p \<in> set (q12_tasks_queue (layer_data s)). q1_task t p \<and> phase_of t p = Q1_Sending)"
proof -
  let ?ps = "q12_tasks_queue (layer_data s)"
  obtain u calls where u:
    "fold_option (set_new_context_and_call_resend (logic_env (Suc n) outer) (layer_context s)) ?ps s = Some u"
    "call_queue u = call_queue s @ calls" "list_all2 (sends_again s u) ?ps (map snd calls)"
    "touches s u" "evtd_ok u" "alloc_script (tmem u) = []"
    "\<forall>p \<in> set ?ps. q1_task u p \<and> phase_of u p = Q1_Sending"
    "q12_tasks_queue (layer_data u) = ?ps"
    using resend_all [OF assms(5,6,1,3)] assms(4) by blast
  have pc: "prev_context u = prev_context s" "prev_context u \<noteq> NULL" "user_data u \<noteq> NULL"
    using u(4) assms(1,2) by (simp_all add: touches_def layer_up_def)
  obtain q t where t: "process_on_prev Post_Connect dat st u = (XI_STATE_OK, t)" "quiet NULL {} u t"
    "logic_tasks t = logic_tasks u" "mqtt_messages t = mqtt_messages u" "layer_data t = layer_data u"
    "handles t = handles u" "call_queue t = call_queue u @ [(q, post_connect_handle u dat st)]"
    using process_post_connect [OF u(5) pc(2) u(6)] by metis
  have "xi_mqtt_logic_layer_post_connect (logic_env (Suc n) outer) (layer_context s) dat st s = Some (st, t)"
    using u(1) t(1) assms(1,2) pc(3)
    by (simp add: xi_mqtt_logic_layer_post_connect_def xi_context_def layer_up_def xi_layer_default_post_connect_def
        del: logic_env.simps)
  moreover have "next_block (tmem u) \<le> next_block (tmem t)" using t(2) by (simp add: quiet_def)
  then have "list_all2 (sends_again s t) ?ps (map snd calls)"
    unfolding sends_again_def t(4)
    by (intro list.rel_mono_strong [OF u(3)]) (auto simp: sends_again_def)
  moreover have "q1_task t p \<and> phase_of t p = Q1_Sending" if "p \<in> set ?ps" for p
  proof -
    have "q1_task u p" "phase_of u p = Q1_Sending" using u(7) that by simp_all
    moreover from this(1) have "p \<noteq> NULL" by (rule q1_taskD(4))
    ultimately have "q1_task t p" using q1_task_other(1) [OF _ t(2)] by simp
    then show ?thesis
      using q1_taskD(3) [of t p] q1_taskD(3) [of u p] \<open>phase_of u p = Q1_Sending\<close> \<open>q1_task u p\<close> t(3)
      by (simp add: phase_of_def split: if_splits)
  qed
  ultimately show ?thesis
    using u(2,8) t(5,7) pc(1) by (intro exI [of _ t] exI [of _ calls] exI [of _ q])
      (simp add: post_connect_handle_def del: logic_env.simps)
qed

theorem post_connect_resends_witness:
  "\<exists>(t :: nat xi_logic) q msg q'. xi_mqtt_logic_layer_post_connect (logic_env 1 (\<lambda>_ _ _. None)) 60 NULL XI_STATE_OK logic_example
       = Some (XI_STATE_OK, t)
     \<and> call_queue t = [(q, push_handle logic_example msg), (q', post_connect_handle logic_example NULL XI_STATE_OK)]
     \<and> packet_of logic_example 40 XI_MQTT_DUP_TRUE (mqtt_messages t msg) \<and> phase_of t 40 = Q1_Sending"
proof -
  let ?outer = "\<lambda>_ _ _. None" and ?s = "logic_example :: nat xi_logic"
  have up: "layer_up ?s" "user_data ?s \<noteq> NULL" "alloc_script (tmem ?s) = []" "q12_tasks_queue (layer_data ?s) = [40]"
    "layer_context ?s = 60" "call_queue ?s = []"
    by (simp_all add: logic_example_def layer_up_def shut_down_def XI_THIS_LAYER_NOT_OPERATIONAL_def)
  have "session_state (logic_tasks ?s 40) = XI_MQTT_LOGIC_TASK_SESSION_STORE"
    "logic (logic_tasks ?s 40) = logic_handle4 Do_Mqtt_Publish_Q1 60 40 XI_STATE_OK NULL"
    by (simp_all add: logic_example_def example_task_def)
  then have "resendable ?s 40" using example_q1(1,5) by (auto simp: resendable_def)
  then obtain t calls q where t:
    "xi_mqtt_logic_layer_post_connect (logic_env 1 ?outer) 60 NULL XI_STATE_OK ?s = Some (XI_STATE_OK, t)"
    "call_queue t = calls @ [(q, post_connect_handle ?s NULL XI_STATE_OK)]"
    "list_all2 (sends_again ?s t) [40] (map snd calls)" "phase_of t 40 = Q1_Sending"
    using post_connect_resends [OF up(1,2) logic_example_evtd_ok up(3), of 0 ?outer NULL XI_STATE_OK] up(4-6)
    by (auto simp del: logic_env.simps)
  obtain q' h where c: "calls = [(q', h)]" "sends_again ?s t 40 h" using t(3) by (auto simp: list_all2_Cons1)
  then show ?thesis using t(1,2,4) unfolding sends_again_def by (auto simp del: logic_env.simps)
qed

end
