(* ===== verification/Mqtt_Codec_Layer.thy ===== *)
theory Mqtt_Codec_Layer
  imports Mqtt_Logic_Layer Mqtt_Parser Mqtt_Serialiser
begin

text \<open>
  \<open>src/libxively/mqtt/codec/xi_mqtt_codec_layer.c\<close> and \<open>xi_mqtt_codec_layer_data.c\<close>: the layer
  between the MQTT logic layer, which deals in messages, and the layers below, which deal in
  bytes. Messages that are pushed while another one is being sent wait in a queue; a message is
  sent as one buffer, and a publication's payload as a second one.

  The state extends that of the MQTT logic layer, since the layers share the dispatcher and pass
  messages and confirmations by pointer. The layer's own context is the previous one of the
  logic layer (\<open>prev_context\<close>), its next layer is the logic layer (\<open>layer_context\<close>), and its
  previous layer, which reads and writes, is at \<open>io_context\<close>.
\<close>

section \<open>State\<close>

datatype 'g stack_fn = Io_Layer xi_layer_op | App_Fn 'g

record xi_mqtt_codec_layer_task =
  task_msg :: addr
  task_msg_id :: "16 word"
  task_msg_type :: nat

record xi_mqtt_codec_layer_data =
  codec_msg :: addr
  task_queue :: "addr list"
  codec_parser :: xi_mqtt_parser
  codec_local_state :: xi_state
  codec_msg_id :: "16 word"
  codec_msg_type :: nat
  pull_cs :: nat
  push_cs :: nat

text \<open>\<open>parser_static\<close> is the static \<open>local_state\<close> of \<open>xi_mqtt_parser.c\<close>.\<close>

record 'g xi_mqtt_stack = "'g stack_fn xi_logic" +
  io_context :: addr
  codec_layer_state :: xi_layer_state
  codec_user_data :: addr
  codec_data :: xi_mqtt_codec_layer_data
  codec_tasks :: "addr \<Rightarrow> xi_mqtt_codec_layer_task"
  data_descs :: "addr \<Rightarrow> xi_data_desc"
  parser_static :: xi_state

type_synonym ('g, 'z) stack_result = "(xi_state \<times> ('g, 'z) xi_mqtt_stack_scheme) option"

definition sizeof_xi_mqtt_codec_layer_task :: nat where "sizeof_xi_mqtt_codec_layer_task = 24"
definition sizeof_xi_mqtt_codec_layer_data :: nat where "sizeof_xi_mqtt_codec_layer_data = 112"
definition sizeof_xi_mqtt_written_data :: nat where "sizeof_xi_mqtt_written_data = 8"

text \<open>The status codes by their values, for \<open>XI_MAX\<close>.\<close>

definition xi_states :: "xi_state list" where
  "xi_states = [XI_STATE_OK, XI_STATE_TIMEOUT, XI_STATE_WANT_READ, XI_STATE_WANT_WRITE,
     XI_STATE_WRITTEN, XI_STATE_FAILED_WRITING, XI_BACKOFF_TERMINAL, XI_OUT_OF_MEMORY,
     XI_SOCKET_INITIALIZATION_ERROR, XI_SOCKET_GETHOSTBYNAME_ERROR,
     XI_SOCKET_GETSOCKOPT_ERROR, XI_SOCKET_ERROR, XI_SOCKET_CONNECTION_ERROR,
     XI_SOCKET_SHUTDOWN_ERROR, XI_SOCKET_WRITE_ERROR, XI_SOCKET_READ_ERROR,
     XI_SOCKET_NO_ACTIVE_CONNECTION_ERROR, XI_CONNECTION_RESET_BY_PEER_ERROR,
     XI_FD_HANDLER_NOT_FOUND, XI_TLS_INITALIZATION_ERROR,
     XI_TLS_FAILED_LOADING_CERTIFICATE, XI_TLS_CONNECT_ERROR, XI_TLS_WRITE_ERROR,
     XI_TLS_READ_ERROR, XI_MQTT_SERIALIZER_ERROR, XI_MQTT_PARSER_ERROR,
     XI_MQTT_UNKNOWN_MESSAGE_ID, XI_MQTT_LOGIC_UNKNOWN_TASK_ID,
     XI_MQTT_LOGIC_WRONG_SCENARIO_TYPE, XI_MQTT_LOGIC_WRONG_MESSAGE_RECEIVED,
     XI_MQTT_UNACCEPTABLE_PROTOCOL_VERSION, XI_MQTT_IDENTIFIER_REJECTED,
     XI_MQTT_SERVER_UNAVAILIBLE, XI_MQTT_BAD_USERNAME_OR_PASSWORD, XI_MQTT_NOT_AUTHORIZED,
     XI_MQTT_CONNECT_UNKNOWN_RETURN_CODE, XI_MQTT_MESSAGE_CLASS_UNKNOWN_ERROR,
     XI_MQTT_PAYLOAD_SIZE_TOO_LARGE, XI_MQTT_SUBSCRIPTION_FAILED,
     XI_MQTT_SUBSCRIPTION_SUCCESSFULL, XI_INTERNAL_ERROR, XI_NOT_INITIALIZED,
     XI_FAILED_INITIALIZATION, XI_ALREADY_INITIALIZED, XI_INVALID_PARAMETER,
     XI_UNSET_HANDLER_ERROR, XI_NOT_IMPLEMENTED, XI_ELEMENT_NOT_FOUND,
     XI_SERIALIZATION_ERROR, XI_TRUNCATION_WARNING, XI_BUFFER_OVERFLOW, XI_THREAD_ERROR,
     XI_NULL_CONTEXT, XI_NULL_WILL_TOPIC, XI_NULL_WILL_MESSAGE,
     XI_NO_MORE_RESOURCE_AVAILABLE, XI_FS_RESOURCE_NOT_AVAILABLE, XI_FS_ERROR,
     XI_NOT_SUPPORTED, XI_EVENT_PROCESS_STOPPED, XI_STATE_RESEND, XI_NULL_HOST,
     XI_TLS_FAILED_CERT_ERROR, XI_FS_OPEN_ERROR, XI_FS_OPEN_READ_ONLY, XI_FS_READ_ERROR,
     XI_FS_WRITE_ERROR, XI_FS_CLOSE_ERROR, XI_FS_REMOVE_ERROR]"

definition xi_state_value :: "xi_state \<Rightarrow> nat" where
  "xi_state_value st = length (takeWhile (\<lambda>x. x \<noteq> st) xi_states)"

definition xi_state_max :: "xi_state \<Rightarrow> xi_state \<Rightarrow> xi_state" where
  "xi_state_max a b = (if xi_state_value a > xi_state_value b then a else b)"

section \<open>Neighbours\<close>

text \<open>Posting a call moves the state of the calling layer on.\<close>

definition codec_process ::
    "addr \<Rightarrow> 'g stack_fn logic_fn \<Rightarrow> xi_layer_op \<Rightarrow> addr \<Rightarrow> xi_state \<Rightarrow> ('g, 'z) xi_mqtt_stack_scheme
       \<Rightarrow> xi_state \<times> ('g, 'z) xi_mqtt_stack_scheme" where
  "codec_process target fn op dat st s =
     (let (local_state, next_state, s1) =
        xi_layer_continue_with_impl (if target = NULL then None else Some (Other_Fn fn)) op
          (codec_layer_state s) target dat st s
      in (local_state, s1\<lparr>codec_layer_state := next_state\<rparr>))"

definition codec_process_on_prev ::
    "xi_layer_op \<Rightarrow> addr \<Rightarrow> xi_state \<Rightarrow> ('g, 'z) xi_mqtt_stack_scheme \<Rightarrow> xi_state \<times> ('g, 'z) xi_mqtt_stack_scheme"
where
  "codec_process_on_prev op dat st s = codec_process (io_context s) (User_Fn (Io_Layer op)) op dat st s"

definition codec_process_on_this ::
    "xi_layer_op \<Rightarrow> addr \<Rightarrow> xi_state \<Rightarrow> ('g, 'z) xi_mqtt_stack_scheme \<Rightarrow> xi_state \<times> ('g, 'z) xi_mqtt_stack_scheme"
where
  "codec_process_on_this op dat st s = codec_process (prev_context s) (Prev_Layer op) op dat st s"

definition codec_process_on_next ::
    "xi_layer_op \<Rightarrow> addr \<Rightarrow> xi_state \<Rightarrow> ('g, 'z) xi_mqtt_stack_scheme \<Rightarrow> xi_state \<times> ('g, 'z) xi_mqtt_stack_scheme"
where
  "codec_process_on_next op dat st s = codec_process (layer_context s) (This_Layer op) op dat st s"

definition codec_context :: "('g, 'z) xi_mqtt_stack_scheme \<Rightarrow> addr \<Rightarrow> unit option" where
  "codec_context s context = (if context \<noteq> NULL \<and> context = prev_context s then Some () else None)"

definition codec_shut_down :: "('g, 'z) xi_mqtt_stack_scheme \<Rightarrow> bool" where
  "codec_shut_down s \<longleftrightarrow> XI_THIS_LAYER_NOT_OPERATIONAL (codec_layer_state s) \<or> codec_user_data s = NULL"

section \<open>Tasks\<close>

definition deref_codec_task ::
    "('g, 'z) xi_mqtt_stack_scheme \<Rightarrow> addr \<Rightarrow> xi_mqtt_codec_layer_task option" where
  "deref_codec_task s p = (if live s p then Some (codec_tasks s p) else None)"

definition put_task_msg :: "addr \<Rightarrow> addr \<Rightarrow> ('g, 'z) xi_mqtt_stack_scheme \<Rightarrow> ('g, 'z) xi_mqtt_stack_scheme" where
  "put_task_msg p msg s = s\<lparr>codec_tasks := (codec_tasks s)(p := (codec_tasks s p)\<lparr>task_msg := msg\<rparr>)\<rparr>"

text \<open>A failed allocation gives \<open>NULL\<close>.\<close>

definition xi_mqtt_codec_layer_make_task ::
    "addr \<Rightarrow> ('g, 'z) xi_mqtt_stack_scheme \<Rightarrow> (addr \<times> ('g, 'z) xi_mqtt_stack_scheme) option" where
  "xi_mqtt_codec_layer_make_task msg s = do {
     xi_assert (msg \<noteq> NULL);
     let (p, m) = xi_alloc sizeof_xi_mqtt_codec_layer_task (tmem s);
     if p = NULL then Some (NULL, s\<lparr>tmem := m\<rparr>)
     else do {
       m1 \<leftarrow> deref_message (s\<lparr>tmem := m\<rparr>) msg;
       Some (p, s\<lparr>tmem := m, codec_tasks := (codec_tasks s)(p :=
           \<lparr>task_msg = msg, task_msg_id = xi_mqtt_get_message_id m1, task_msg_type = msg_type m1\<rparr>)\<rparr>) } }"

definition xi_mqtt_codec_layer_activate_task ::
    "addr \<Rightarrow> ('g, 'z) xi_mqtt_stack_scheme \<Rightarrow> (addr \<times> ('g, 'z) xi_mqtt_stack_scheme) option" where
  "xi_mqtt_codec_layer_activate_task p s = do {
     task \<leftarrow> deref_codec_task s p;
     xi_assert (task_msg task \<noteq> NULL);
     Some (task_msg task, put_task_msg p NULL s) }"

definition xi_mqtt_codec_layer_continue_task ::
    "addr \<Rightarrow> addr \<Rightarrow> ('g, 'z) xi_mqtt_stack_scheme \<Rightarrow> ('g, 'z) xi_mqtt_stack_scheme option" where
  "xi_mqtt_codec_layer_continue_task p msg s = do {
     task \<leftarrow> deref_codec_task s p;
     xi_assert (msg \<noteq> NULL);
     xi_assert (task_msg task = NULL);
     Some (put_task_msg p msg s) }"

definition xi_mqtt_codec_layer_free_task ::
    "addr \<Rightarrow> ('g, 'z) xi_mqtt_stack_scheme \<Rightarrow> ('g, 'z) xi_mqtt_stack_scheme option" where
  "xi_mqtt_codec_layer_free_task p s =
     (if p = NULL then Some s
      else do {
        task \<leftarrow> deref_codec_task s p;
        s1 \<leftarrow> free_message (task_msg task) s;
        Some ((put_task_msg p NULL s1)\<lparr>tmem := xi_free p (tmem s1)\<rparr>) })"

text \<open>\<open>xi_alloc_make_tuple( xi_mqtt_written_data_t, id, type )\<close>.\<close>

definition make_written_data ::
    "16 word \<Rightarrow> nat \<Rightarrow> ('g, 'z) xi_mqtt_stack_scheme \<Rightarrow> addr \<times> ('g, 'z) xi_mqtt_stack_scheme" where
  "make_written_data ident ty s =
     (let (p, m) = xi_alloc sizeof_xi_mqtt_written_data (tmem s)
      in (p, s\<lparr>tmem := m, written_data := (if p = NULL then written_data s
                 else (written_data s)(p := (ident, ty)))\<rparr>))"

text \<open>Every task of the queue is reported as not written; neither result is looked at.\<close>

fun clear_tasks :: "addr list \<Rightarrow> ('g, 'z) xi_mqtt_stack_scheme \<Rightarrow> ('g, 'z) xi_mqtt_stack_scheme option" where
  "clear_tasks [] s = Some s"
| "clear_tasks (p # ps) s = do {
     task \<leftarrow> deref_codec_task s p;
     let (w, s1) = make_written_data (task_msg_id task) (task_msg_type task) s;
     let (_, s2) = codec_process_on_next Push w XI_STATE_FAILED_WRITING s1;
     s3 \<leftarrow> xi_mqtt_codec_layer_free_task p s2;
     clear_tasks ps s3 }"

definition clear_task_queue :: "('g, 'z) xi_mqtt_stack_scheme \<Rightarrow> ('g, 'z) xi_mqtt_stack_scheme option" where
  "clear_task_queue s =
     clear_tasks (task_queue (codec_data s)) (s\<lparr>codec_data := (codec_data s)\<lparr>task_queue := []\<rparr>\<rparr>)"

section \<open>Pushing\<close>

text \<open>
  \<open>data\<close> is what the call was made with, \<open>desc\<close> the descriptor that was being filled in: the
  structure is freed and not its buffer.
\<close>

definition push_error ::
    "addr \<Rightarrow> addr \<Rightarrow> ('g, 'z) xi_mqtt_stack_scheme \<Rightarrow> ('g, 'z) stack_result" where
  "push_error dat desc s = do {
     s1 \<leftarrow> clear_task_queue (s\<lparr>tmem := xi_free desc (tmem s)\<rparr>);
     let s2 = s1\<lparr>codec_data := (codec_data s1)\<lparr>push_cs := 2\<rparr>\<rparr>;
     Some (codec_process_on_next Push dat XI_STATE_FAILED_WRITING s2) }"

text \<open>A descriptor that was made is stored at its address.\<close>

definition keep_desc ::
    "xi_data_desc option \<times> xi_memory \<Rightarrow> ('g, 'z) xi_mqtt_stack_scheme \<Rightarrow> addr \<times> ('g, 'z) xi_mqtt_stack_scheme" where
  "keep_desc r s = (case r of
     (None, m) \<Rightarrow> (NULL, s\<lparr>tmem := m\<rparr>)
   | (Some d, m) \<Rightarrow> (desc_block d, s\<lparr>tmem := m, data_descs := (data_descs s)(desc_block d := d)\<rparr>))"

definition yield_push ::
    "nat \<Rightarrow> addr \<Rightarrow> xi_state \<Rightarrow> ('g, 'z) xi_mqtt_stack_scheme \<Rightarrow> xi_state \<times> ('g, 'z) xi_mqtt_stack_scheme" where
  "yield_push l desc st s = codec_process_on_prev Push desc st (s\<lparr>codec_data := (codec_data s)\<lparr>push_cs := l\<rparr>\<rparr>)"

text \<open>The beginning of the coroutine up to its first yield (label 149).\<close>

definition push_send :: "addr \<Rightarrow> ('g, 'z) xi_mqtt_stack_scheme \<Rightarrow> ('g, 'z) stack_result" where
  "push_send msg s =
     (if msg = NULL then push_error msg NULL s
      else do {
        m \<leftarrow> deref_message s msg;
        let s1 = s\<lparr>codec_data := (codec_data s)\<lparr>codec_msg_id := xi_mqtt_get_message_id m, codec_msg_type := msg_type m\<rparr>\<rparr>;
        (st, msg_len, remaining_len, payload_len) \<leftarrow> xi_mqtt_serialiser_size True m;
        if st \<noteq> XI_STATE_OK then push_error msg NULL s1
        else do {
          r \<leftarrow> xi_make_empty_desc_alloc (msg_len - payload_len) (tmem s1);
          let (p, s2) = keep_desc r s1;
          if p = NULL then push_error msg NULL s2
          else do {
            (rc, _, d) \<leftarrow> xi_mqtt_serialiser_write XI_MQTT_ERROR_NONE m (data_descs s2 p) remaining_len;
            let s3 = s2\<lparr>data_descs := (data_descs s2)(p := d)\<rparr>;
            if rc = XI_MQTT_SERIALISER_RC_ERROR then push_error msg p s3
            else Some (yield_push 149 p st s3) } } })"

text \<open>A message that waits in the queue becomes the current one.\<close>

definition push_want_write :: "addr \<Rightarrow> ('g, 'z) xi_mqtt_stack_scheme \<Rightarrow> ('g, 'z) stack_result" where
  "push_want_write msg s = do {
     xi_assert (push_cs (codec_data s) \<le> 2);
     s1 \<leftarrow> (case task_queue (codec_data s) of
              [] \<Rightarrow> None
            | p # _ \<Rightarrow> xi_mqtt_codec_layer_continue_task p msg s);
     push_send msg s1 }"

text \<open>
  The common end: the message is freed, the logic layer is told and the next message of the
  queue is sent.
\<close>

definition push_finalise ::
    "addr \<Rightarrow> addr \<Rightarrow> xi_state \<Rightarrow> ('g, 'z) xi_mqtt_stack_scheme \<Rightarrow> ('g, 'z) stack_result" where
  "push_finalise ctx dat st s = (case task_queue (codec_data s) of
     [] \<Rightarrow> None
   | p # ps \<Rightarrow> do {
       task \<leftarrow> deref_codec_task s p;
       xi_assert (task_msg task \<noteq> NULL);
       s1 \<leftarrow> free_message (task_msg task) s;
       let s2 = put_task_msg p NULL s1;
       xi_assert (st = XI_STATE_WRITTEN \<or> st = XI_STATE_FAILED_WRITING);
       let (w, s3) = make_written_data (codec_msg_id (codec_data s2)) (codec_msg_type (codec_data s2)) s2;
       if w = NULL then push_error dat NULL s3
       else do {
         let (_, s4) = codec_process_on_next Push w st s3;
         s5 \<leftarrow> xi_mqtt_codec_layer_free_task p (s4\<lparr>codec_data := (codec_data s4)\<lparr>task_queue := ps\<rparr>\<rparr>);
         (case ps of
            [] \<Rightarrow> Some (XI_STATE_OK, s5\<lparr>codec_data := (codec_data s5)\<lparr>push_cs := 1\<rparr>\<rparr>)
          | q # _ \<Rightarrow> do {
              (msg, s6) \<leftarrow> xi_mqtt_codec_layer_activate_task q s5;
              let s7 = s6\<lparr>codec_data := (codec_data s6)\<lparr>push_cs := 1\<rparr>\<rparr>;
              if codec_shut_down s7 then do { s8 \<leftarrow> free_message msg s7; Some (XI_STATE_OK, s8) }
              else push_want_write msg s7 }) } })"

text \<open>After the header has been written or not: a payload that is not empty follows (label 182).\<close>

definition push_header_written ::
    "addr \<Rightarrow> addr \<Rightarrow> xi_state \<Rightarrow> ('g, 'z) xi_mqtt_stack_scheme \<Rightarrow> ('g, 'z) stack_result" where
  "push_header_written ctx dat st s = do {
     xi_assert (st = XI_STATE_WRITTEN \<or> st = XI_STATE_FAILED_WRITING);
     (case task_queue (codec_data s) of
        [] \<Rightarrow> None
      | p # _ \<Rightarrow> do {
          task \<leftarrow> deref_codec_task s p;
          xi_assert (task_msg task \<noteq> NULL);
          if st \<noteq> XI_STATE_WRITTEN then push_finalise ctx dat st s
          else do {
            m \<leftarrow> deref_message s (task_msg task);
            if msg_type m = XI_MQTT_TYPE_PUBLISH
            then do {
              c \<leftarrow> publish_content m;
              if desc_length c > 0
              then do {
                r \<leftarrow> xi_make_desc_from_buffer_share (data_ptr c) (data_bytes c) (unat (desc_length c)) (tmem s);
                let (d, s1) = keep_desc r s;
                if d = NULL then push_error dat NULL s1
                else Some (yield_push 182 d XI_STATE_OK s1) }
              else push_finalise ctx dat st s }
            else push_finalise ctx dat st s } }) }"

text \<open>\<open>XI_CR_START( layer_data->push_cs )\<close>.\<close>

definition push_resume ::
    "addr \<Rightarrow> addr \<Rightarrow> xi_state \<Rightarrow> ('g, 'z) xi_mqtt_stack_scheme \<Rightarrow> ('g, 'z) stack_result" where
  "push_resume ctx dat st s =
     (if push_cs (codec_data s) = 149 then push_header_written ctx dat st s
      else if push_cs (codec_data s) = 182 then push_finalise ctx dat st s
      else push_send dat s)"

definition xi_mqtt_codec_layer_push ::
    "addr \<Rightarrow> addr \<Rightarrow> xi_state \<Rightarrow> ('g, 'z) xi_mqtt_stack_scheme \<Rightarrow> ('g, 'z) stack_result" where
  "xi_mqtt_codec_layer_push ctx dat st s = do {
     _ \<leftarrow> codec_context s ctx;
     if codec_shut_down s then do { s1 \<leftarrow> free_message dat s; Some (XI_STATE_OK, s1) }
     else if st = XI_STATE_OK \<and> dat \<noteq> NULL
     then do {
       (p, s1) \<leftarrow> xi_mqtt_codec_layer_make_task dat s;
       if p = NULL then push_error dat NULL s1
       else do {
         let s2 = s1\<lparr>codec_data := (codec_data s1)\<lparr>task_queue := task_queue (codec_data s1) @ [p]\<rparr>\<rparr>;
         if push_cs (codec_data s2) > 2 then Some (XI_STATE_OK, s2)
         else push_resume ctx dat st s2 } }
     else if st = XI_STATE_WANT_WRITE then push_want_write dat s
     else push_resume ctx dat st s }"

section \<open>Pulling\<close>

definition deref_desc :: "('g, 'z) xi_mqtt_stack_scheme \<Rightarrow> addr \<Rightarrow> xi_data_desc option" where
  "deref_desc s p = (if live s p then Some (data_descs s p) else None)"

definition free_desc_at ::
    "addr \<Rightarrow> ('g, 'z) xi_mqtt_stack_scheme \<Rightarrow> ('g, 'z) xi_mqtt_stack_scheme option" where
  "free_desc_at p s =
     (if p = NULL then Some s
      else do {
        d \<leftarrow> deref_desc s p;
        m \<leftarrow> xi_free_desc (Some d) (tmem s);
        Some (s\<lparr>tmem := m\<rparr>) })"

text \<open>The message read so far and the buffer are freed, and the connection is closed.\<close>

definition pull_error ::
    "addr \<Rightarrow> xi_state \<Rightarrow> ('g, 'z) xi_mqtt_stack_scheme \<Rightarrow> ('g, 'z) stack_result" where
  "pull_error desc st s = do {
     s1 \<leftarrow> free_message (codec_msg (codec_data s)) s;
     s2 \<leftarrow> free_desc_at desc (s1\<lparr>codec_data := (codec_data s1)\<lparr>codec_msg := NULL\<rparr>\<rparr>);
     s3 \<leftarrow> clear_task_queue (s2\<lparr>codec_data := (codec_data s2)\<lparr>pull_cs := 2\<rparr>\<rparr>);
     Some (codec_process_on_prev Close NULL (xi_state_max st (codec_local_state (codec_data s3))) s3) }"

text \<open>One call of the parser, on the message and the buffer behind their pointers.\<close>

definition execute_parser ::
    "addr \<Rightarrow> ('g, 'z) xi_mqtt_stack_scheme \<Rightarrow> ('g, 'z) xi_mqtt_stack_scheme option" where
  "execute_parser desc s = do {
     let p = codec_msg (codec_data s);
     m \<leftarrow> deref_message s p;
     d \<leftarrow> deref_desc s desc;
     (st, t) \<leftarrow> xi_mqtt_parser_execute \<lparr>parser = codec_parser (codec_data s), message = m, input = d,
                  local_state = parser_static s, memory = tmem s\<rparr>;
     Some (s\<lparr>tmem := memory t, mqtt_messages := (mqtt_messages s)(p := message t),
             codec_data := (codec_data s)\<lparr>codec_parser := parser t, codec_local_state := st\<rparr>,
             data_descs := (data_descs s)(desc := input t), parser_static := local_state t\<rparr>) }"

definition alloc_codec_msg ::
    "('g, 'z) xi_mqtt_stack_scheme \<Rightarrow> bool \<times> ('g, 'z) xi_mqtt_stack_scheme" where
  "alloc_codec_msg s =
     (let (p, s1) = alloc_message s;
          s2 = s1\<lparr>codec_data := (codec_data s1)\<lparr>codec_msg := p\<rparr>\<rparr>
      in (p \<noteq> NULL, s2))"

text \<open>
  A call ends with a result (\<open>Inl\<close>) or, behind a complete message, with the recursive call for
  the rest of the buffer (\<open>Inr\<close>).
\<close>

type_synonym ('g, 'z) pull_result =
  "((xi_state \<times> ('g, 'z) xi_mqtt_stack_scheme) + ('g, 'z) xi_mqtt_stack_scheme) option"

text \<open>Behind the loop around the parser.\<close>

definition pull_decoded :: "addr \<Rightarrow> xi_state \<Rightarrow> ('g, 'z) xi_mqtt_stack_scheme \<Rightarrow> ('g, 'z) pull_result" where
  "pull_decoded desc st s =
     (if codec_local_state (codec_data s) \<noteq> XI_STATE_OK then map_option Inl (pull_error desc st s)
      else do {
        let s1 = s\<lparr>codec_data := (codec_data s)\<lparr>codec_msg := NULL\<rparr>\<rparr>;
        let (_, s2) = codec_process_on_next Pull (codec_msg (codec_data s)) XI_STATE_OK s1;
        let s3 = s2\<lparr>codec_data := (codec_data s2)\<lparr>pull_cs := 2\<rparr>\<rparr>;
        d \<leftarrow> deref_desc s3 desc;
        if curr_pos d = desc_length d
        then do {
          s4 \<leftarrow> free_desc_at desc s3;
          Some (Inl (XI_STATE_OK, s4\<lparr>codec_data := (codec_data s4)\<lparr>pull_cs := 1\<rparr>\<rparr>)) }
        else Some (Inr s3) })"

text \<open>
  The loop yields (label 290) when the buffer is used up, and is resumed in its test; so a call
  makes one iteration.
\<close>

definition pull_parse :: "addr \<Rightarrow> xi_state \<Rightarrow> ('g, 'z) xi_mqtt_stack_scheme \<Rightarrow> ('g, 'z) pull_result" where
  "pull_parse desc st s = do {
     s1 \<leftarrow> execute_parser desc s;
     if codec_local_state (codec_data s1) = XI_STATE_WANT_READ
     then do {
       s2 \<leftarrow> free_desc_at desc s1;
       Some (Inl (XI_STATE_OK, s2\<lparr>codec_data := (codec_data s2)\<lparr>pull_cs := 290\<rparr>\<rparr>)) }
     else pull_decoded desc st s1 }"

definition pull_one :: "addr \<Rightarrow> xi_state \<Rightarrow> ('g, 'z) xi_mqtt_stack_scheme \<Rightarrow> ('g, 'z) pull_result" where
  "pull_one desc st s =
     (if pull_cs (codec_data s) = 290
      then (if codec_local_state (codec_data s) = XI_STATE_WANT_READ then pull_parse desc st s
            else pull_decoded desc st s)
      else do {
        xi_assert (codec_msg (codec_data s) = NULL);
        let (ok, s1) = alloc_codec_msg s;
        if ok
        then pull_parse desc st
               (s1\<lparr>codec_data := (codec_data s1)\<lparr>codec_parser := xi_mqtt_parser_init (codec_parser (codec_data s1))\<rparr>\<rparr>)
        else map_option Inl (pull_error desc XI_OUT_OF_MEMORY s1) })"

partial_function (option) xi_mqtt_codec_layer_pull ::
    "addr \<Rightarrow> addr \<Rightarrow> xi_state \<Rightarrow> ('g, 'z) xi_mqtt_stack_scheme \<Rightarrow> ('g, 'z) stack_result" where
  "xi_mqtt_codec_layer_pull ctx desc st s =
     (case codec_context s ctx of None \<Rightarrow> None | Some _ \<Rightarrow>
      if codec_shut_down s then map_option (\<lambda>s1. (XI_STATE_OK, s1)) (free_desc_at desc s)
      else if st \<noteq> XI_STATE_OK then pull_error desc st s
      else (case pull_one desc st s of
              None \<Rightarrow> None
            | Some (Inl r) \<Rightarrow> Some r
            | Some (Inr s1) \<Rightarrow> xi_mqtt_codec_layer_pull ctx desc st s1))"

section \<open>Opening and closing\<close>

definition zero_codec_data :: xi_mqtt_codec_layer_data where
  "zero_codec_data = \<lparr>codec_msg = NULL, task_queue = [], codec_parser = \<lparr>parser_error = XI_MQTT_ERROR_NONE, cs = 0, read_cs = 0,
     buffer_pending = False, parser_buffer = NULL, parser_buffer_length = 0, digit_bytes = 0, multiplier = 0,
     remaining_length = 0, str_length = 0, data_length = 0\<rparr>,
     codec_local_state = XI_STATE_OK, codec_msg_id = 0, codec_msg_type = 0, pull_cs = 0, push_cs = 0\<rparr>"

definition xi_mqtt_codec_layer_init ::
    "addr \<Rightarrow> addr \<Rightarrow> xi_state \<Rightarrow> ('g, 'z) xi_mqtt_stack_scheme \<Rightarrow> ('g, 'z) stack_result" where
  "xi_mqtt_codec_layer_init ctx dat st s = do {
     _ \<leftarrow> codec_context s ctx;
     xi_assert (codec_user_data s = NULL);
     let (p, m) = xi_alloc sizeof_xi_mqtt_codec_layer_data (tmem s);
     if p = NULL then Some (codec_process_on_prev Init dat XI_OUT_OF_MEMORY (s\<lparr>tmem := m\<rparr>))
     else Some (codec_process_on_prev Init dat st
                  (s\<lparr>tmem := m, codec_user_data := p, codec_data := zero_codec_data\<rparr>)) }"

definition xi_mqtt_codec_layer_connect ::
    "addr \<Rightarrow> addr \<Rightarrow> xi_state \<Rightarrow> ('g, 'z) xi_mqtt_stack_scheme \<Rightarrow> ('g, 'z) stack_result" where
  "xi_mqtt_codec_layer_connect ctx dat st s = do {
     _ \<leftarrow> codec_context s ctx;
     Some (codec_process_on_next Connect_Layer dat st s) }"

definition xi_mqtt_codec_layer_close ::
    "addr \<Rightarrow> addr \<Rightarrow> xi_state \<Rightarrow> ('g, 'z) xi_mqtt_stack_scheme \<Rightarrow> ('g, 'z) stack_result" where
  "xi_mqtt_codec_layer_close ctx dat st s = do {
     _ \<leftarrow> codec_context s ctx;
     Some (if codec_user_data s = NULL then codec_process_on_this Close_Externally dat st s
           else codec_process_on_prev Close dat st s) }"

definition xi_mqtt_codec_layer_close_externally ::
    "addr \<Rightarrow> addr \<Rightarrow> xi_state \<Rightarrow> ('g, 'z) xi_mqtt_stack_scheme \<Rightarrow> ('g, 'z) stack_result" where
  "xi_mqtt_codec_layer_close_externally ctx dat st s = do {
     _ \<leftarrow> codec_context s ctx;
     s1 \<leftarrow> (if codec_user_data s = NULL then Some s
            else do {
              s1 \<leftarrow> clear_task_queue s;
              let s2 = s1\<lparr>codec_data := (codec_data s1)\<lparr>push_cs := 2\<rparr>\<rparr>;
              s3 \<leftarrow> free_message (codec_msg (codec_data s2)) s2;
              Some (s3\<lparr>tmem := xi_free (codec_user_data s3) (tmem s3), codec_user_data := NULL,
                       codec_data := (codec_data s3)\<lparr>codec_msg := NULL\<rparr>\<rparr>) });
     Some (codec_process_on_next Close_Externally dat st s1) }"

section \<open>The layers together\<close>

text \<open>The table of the layer; \<open>post_connect\<close> is the default function.\<close>

definition codec_layer_call ::
    "xi_layer_op \<Rightarrow> addr \<Rightarrow> addr \<Rightarrow> xi_state \<Rightarrow> ('g, 'z) xi_mqtt_stack_scheme \<Rightarrow> ('g, 'z) stack_result" where
  "codec_layer_call op c d st s = (case op of
     Push \<Rightarrow> xi_mqtt_codec_layer_push c d st s
   | Pull \<Rightarrow> xi_mqtt_codec_layer_pull c d st s
   | Close \<Rightarrow> xi_mqtt_codec_layer_close c d st s
   | Close_Externally \<Rightarrow> xi_mqtt_codec_layer_close_externally c d st s
   | Init \<Rightarrow> xi_mqtt_codec_layer_init c d st s
   | Connect_Layer \<Rightarrow> xi_mqtt_codec_layer_connect c d st s
   | Post_Connect \<Rightarrow> do {
       _ \<leftarrow> codec_context s c;
       Some (if codec_user_data s = NULL then (st, s) else (st, snd (codec_process_on_prev Post_Connect d st s))) })"

text \<open>
  What the dispatcher calls with both layers in place; \<open>outer\<close> is the code behind the pointers of
  the layers below and of the application.
\<close>

definition stack_env ::
    "nat \<Rightarrow> ('g stack_fn logic_fn global_fn, ('g, 'z) xi_mqtt_stack_scheme) xi_environment
       \<Rightarrow> ('g stack_fn logic_fn global_fn, ('g, 'z) xi_mqtt_stack_scheme) xi_environment" where
  "stack_env fuel outer = logic_env fuel (\<lambda>fn args s. case fn of
     Other_Fn (Prev_Layer op) \<Rightarrow> with_args3 (\<lambda>c d st. codec_layer_call op c d st s) args
   | _ \<Rightarrow> outer fn args s)"

end
