(* ===== verification/Mqtt_Parser_Frame.thy ===== *)
theory Mqtt_Parser_Frame
  imports Mqtt_Parser
begin

text \<open>
  What the parser leaves alone. A block that is in use and does not belong to the message that is
  being read is still in use afterwards, the input buffer is only advanced, and every descriptor
  the parser makes can be freed.
\<close>

section \<open>Protected blocks\<close>

definition foreign :: "addr set \<Rightarrow> xi_data_desc option \<Rightarrow> bool" where
  "foreign X d \<longleftrightarrow> (\<forall>e. d = Some e \<longrightarrow> data_ptr e \<notin> X \<and> desc_block e \<notin> X \<and> desc_memory_type e \<noteq> XI_MEMORY_TYPE_UNKNOWN)"

definition foreign_message :: "addr set \<Rightarrow> xi_mqtt_message \<Rightarrow> bool" where
  "foreign_message X m \<longleftrightarrow> foreign X (protocol_name m) \<and> foreign X (client_id m) \<and> foreign X (will_topic m)
     \<and> foreign X (will_message m) \<and> foreign X (username m) \<and> foreign X (password m) \<and> foreign X (topic_name m)
     \<and> foreign X (publish_content m)
     \<and> (\<forall>t. topics m = Some t \<longrightarrow> topicpair_block t \<notin> X \<and> foreign X (topic_filter t))"

lemma foreign_None [simp]: "foreign X None" "foreign_message X (empty_message b)"
  by (simp_all add: foreign_def foreign_message_def empty_message_def)

definition holds :: "addr set \<Rightarrow> xi_memory \<Rightarrow> bool" where
  "holds X m \<longleftrightarrow> mem_ok m \<and> X \<subseteq> live_blocks m"

definition same_buffer :: "xi_data_desc \<Rightarrow> xi_data_desc \<Rightarrow> bool" where
  "same_buffer d e \<longleftrightarrow> (\<exists>c. e = d\<lparr>curr_pos := c\<rparr>)"

lemma same_buffer_simps [simp]: "same_buffer d d" "same_buffer d (skip n e) = same_buffer d e"
  "same_buffer (skip n d) e = same_buffer d e"
proof -
  show "same_buffer d d" by (auto simp: same_buffer_def intro: exI [of _ "curr_pos d"])
  show "same_buffer d (skip n e) = same_buffer d e"
    unfolding same_buffer_def skip_def
  proof
    assume "\<exists>c. e\<lparr>curr_pos := curr_pos e + n\<rparr> = d\<lparr>curr_pos := c\<rparr>"
    then obtain c where "e\<lparr>curr_pos := curr_pos e + n\<rparr> = d\<lparr>curr_pos := c\<rparr>" by blast
    then have "e = d\<lparr>curr_pos := curr_pos e\<rparr>" by (cases d, cases e) simp
    then show "\<exists>c. e = d\<lparr>curr_pos := c\<rparr>" by blast
  qed auto
  show "same_buffer (skip n d) e = same_buffer d e" by (simp add: same_buffer_def skip_def)
qed

lemma same_buffer_trans: "same_buffer d e \<Longrightarrow> same_buffer e f \<Longrightarrow> same_buffer d f"
  by (auto simp: same_buffer_def)

text \<open>A step of a reader, on the memory and on the descriptor it fills.\<close>

definition fills :: "xi_memory \<Rightarrow> xi_data_desc option \<Rightarrow> xi_memory \<Rightarrow> xi_data_desc option \<Rightarrow> bool" where
  "fills m d m' d' \<longleftrightarrow> (\<forall>X. holds X m \<and> foreign X d \<longrightarrow> holds X m' \<and> foreign X d')
     \<and> (alloc_script m = [] \<longrightarrow> alloc_script m' = [])"

lemma fills_refl [simp]: "fills m d m d" by (simp add: fills_def)

lemma fills_trans: "fills m d m1 d1 \<Longrightarrow> fills m1 d1 m2 d2 \<Longrightarrow> fills m d m2 d2"
  by (simp add: fills_def)

lemma holds_alloc:
  assumes "xi_alloc n m = (p, m')" "holds X m"
  shows "holds X m'" "p \<notin> X"
  using assms xi_alloc_mem_ok [OF assms(1)] by (auto simp: holds_def xi_alloc_def mem_ok_def split: if_splits)

lemma alloc_script_alloc: "xi_alloc n m = (p, m') \<Longrightarrow> alloc_script m = [] \<Longrightarrow> alloc_script m' = []"
  by (auto simp: xi_alloc_def split: if_splits)

lemma alloc_script_free [simp]: "alloc_script (xi_free p m) = alloc_script m"
  by (simp add: xi_free_def)

lemma holds_free: "holds X m \<Longrightarrow> p \<notin> X \<Longrightarrow> holds X (xi_free p m)"
  by (auto simp: holds_def)

section \<open>Readers\<close>

lemma fills_realloc:
  assumes "xi_data_desc_realloc d n f m = Some (st, d', m')"
  shows "fills m (Some d) m' (Some d')"
proof (cases f)
  case None
  then show ?thesis using assms by (auto simp: xi_data_desc_realloc_def bind_eq_Some_conv)
next
  case (Some g)
  obtain q m1 where a: "xi_alloc (unat (g (desc_capacity d) n)) m = (q, m1)" by fastforce
  have "fills m (Some d) m1 (Some d)" using holds_alloc(1) [OF a] alloc_script_alloc [OF a] by (simp add: fills_def)
  moreover have "fills m (Some d) m' (Some d')" if "q \<noteq> NULL"
  proof -
    have r: "desc_memory_type d \<noteq> XI_MEMORY_TYPE_UNKNOWN" "data_ptr d' = q" "desc_block d' = desc_block d"
      "desc_memory_type d' = XI_MEMORY_TYPE_MANAGED"
      "m' = (if desc_memory_type d = XI_MEMORY_TYPE_MANAGED then xi_free (data_ptr d) m1 else m1)"
      using assms Some a that by (auto simp: xi_data_desc_realloc_def bind_eq_Some_conv Let_def)
    then show ?thesis
      using holds_alloc [OF a] alloc_script_alloc [OF a] by (auto simp: fills_def foreign_def intro: holds_free)
  qed
  moreover have "d' = d \<and> m' = m1" if "q = NULL"
    using assms Some a that by (auto simp: xi_data_desc_realloc_def bind_eq_Some_conv)
  ultimately show ?thesis by (cases "q = NULL") auto
qed

lemma append_memcpy_fields:
  assumes "append_memcpy d xs n = Some d'"
  shows "data_ptr d' = data_ptr d" "desc_block d' = desc_block d" "desc_memory_type d' = desc_memory_type d"
  using assms by (auto simp: append_memcpy_def Let_def bind_eq_Some_conv split: if_splits)

lemma fills_append_resize:
  assumes "xi_data_desc_append_data_resize d xs n m = Some (st, d', m')"
  shows "fills m d m' d'"
proof (cases "d = None \<or> xs = None")
  case True
  then show ?thesis using assms by (auto simp: xi_data_desc_append_data_resize_def)
next
  case False
  then obtain d0 bs where d: "d = Some d0" "xs = Some bs" by auto
  obtain st1 d1 m1 where r: "xi_data_desc_assure_buf_len d0 n m = Some (st1, d1, m1)"
    using assms d by (auto simp: xi_data_desc_append_data_resize_def bind_eq_Some_conv)
  have f: "fills m (Some d0) m1 (Some d1)"
    using r fills_realloc by (auto simp: xi_data_desc_assure_buf_len_def split: if_splits)
  show ?thesis
  proof (cases "st1 = XI_STATE_OK")
    case True
    then obtain d2 where "append_memcpy d1 bs n = Some d2" "d' = Some d2" "m' = m1"
      using assms d r by (auto simp: xi_data_desc_append_data_resize_def bind_eq_Some_conv)
    then show ?thesis using f append_memcpy_fields [of d1 bs n d2] d unfolding fills_def foreign_def by auto
  next
    case False
    then show ?thesis using assms d r f by (auto simp: xi_data_desc_append_data_resize_def)
  qed
qed

lemma fills_make_empty:
  assumes "xi_make_empty_desc_alloc n m = Some (d', m')"
  shows "fills m None m' d'"
proof -
  obtain q m1 where a: "xi_alloc sizeof_xi_data_desc m = (q, m1)" by fastforce
  obtain q2 m2 where b: "xi_alloc n m1 = (q2, m2)" by fastforce
  have 1: "fills m None m1 None" using holds_alloc [OF a] alloc_script_alloc [OF a] by (simp add: fills_def)
  have 2: "fills m1 None m2 None" using holds_alloc [OF b] alloc_script_alloc [OF b] by (simp add: fills_def)
  have n: "n > 0" using assms by (auto simp: xi_make_empty_desc_alloc_def bind_eq_Some_conv)
  show ?thesis
  proof (cases "q = NULL \<or> q2 = NULL")
    case True
    then have "d' = None" "m' = (if q = NULL then m1 else m2)"
      using assms a b by (auto simp: xi_make_empty_desc_alloc_def xi_free_desc_def zero_desc_def bind_eq_Some_conv
          split: if_splits)
    then show ?thesis using 1 fills_trans [OF 1 2] by simp
  next
    case False
    then obtain e where e: "d' = Some e" "m' = m2" "data_ptr e = q2" "desc_block e = q"
      "desc_memory_type e = XI_MEMORY_TYPE_MANAGED"
      using assms a b n by (auto simp: xi_make_empty_desc_alloc_def zero_desc_def)
    then show ?thesis
      using fills_trans [OF 1 2] holds_alloc [OF a] holds_alloc [OF b] by (auto simp: fills_def foreign_def)
  qed
qed

definition reader :: "(read_state \<Rightarrow> (xi_state \<times> read_state) option) \<Rightarrow> bool" where
  "reader rd \<longleftrightarrow> (\<forall>p d b m st p' d' b' m'. rd (p, d, b, m) = Some (st, p', d', b', m') \<longrightarrow>
     fills m d m' d' \<and> same_buffer b b')"

lemma readerD:
  "reader rd \<Longrightarrow> rd (p, d, b, m) = Some (st, p', d', b', m') \<Longrightarrow> fills m d m' d' \<and> same_buffer b b'"
  unfolding reader_def by blast

lemma reader_loop: "reader (read_loop_of l counted d)"
  unfolding reader_def read_loop_of_def read_loop_def
  by (auto simp: Let_def bind_eq_Some_conv split: if_splits dest: fills_append_resize)

lemma reader_destination:
  assumes k: "\<And>e. reader (k e)"
  shows "reader (with_destination k)"
  unfolding reader_def with_destination_def
proof (intro allI impI)
  fix p d b m st p' d' b' m'
  assume r: "(\<lambda>(p, dst, src, m). case dst of
     Some d \<Rightarrow> k d (p, dst, src, m)
   | None \<Rightarrow> xi_make_empty_desc_alloc 4 m \<bind> (\<lambda>(dst1, m1).
       case dst1 of
         None \<Rightarrow> Some (XI_OUT_OF_MEMORY, p\<lparr>read_cs := 1\<rparr>, None, src, m1)
       | Some d \<Rightarrow> k d (p, Some d, src, m1))) (p, d, b, m) = Some (st, p', d', b', m')"
  show "fills m d m' d' \<and> same_buffer b b'"
  proof (cases d)
    case (Some e)
    then have "k e (p, d, b, m) = Some (st, p', d', b', m')" using r by simp
    then show ?thesis using k [of e] unfolding reader_def by blast
  next
    case None
    then obtain d1 m1 where a: "xi_make_empty_desc_alloc 4 m = Some (d1, m1)"
      using r by (auto simp: bind_eq_Some_conv)
    have f: "fills m None m1 d1" by (rule fills_make_empty [OF a])
    show ?thesis
    proof (cases d1)
      case None
      then show ?thesis using r a f \<open>d = None\<close> by auto
    next
      case (Some e)
      then have "k e (p, d1, b, m1) = Some (st, p', d', b', m')" using r a None by simp
      then show ?thesis using k [of e] f fills_trans None unfolding reader_def by blast
    qed
  qed
qed

lemma reader_string: "reader read_string"
proof -
  have low: "reader (read_string_low e)" for e
    unfolding reader_def read_string_low_def
    by (auto simp: Let_def bind_eq_Some_conv split: if_splits dest: readerD [OF reader_loop])
  have high: "reader (read_string_high e)" for e
    unfolding reader_def read_string_high_def
    by (auto simp: Let_def bind_eq_Some_conv split: if_splits dest: readerD [OF low])
  show ?thesis
    unfolding read_string_def
    by (rule reader_destination)
      (auto simp: reader_def split: if_splits dest: readerD [OF low] readerD [OF high] readerD [OF reader_loop])
qed

lemma reader_data: "reader read_data"
  unfolding read_data_def
  by (rule reader_destination) (auto simp: reader_def split: if_splits dest: readerD [OF reader_loop])

section \<open>The coroutine\<close>

definition frame :: "parse_state \<Rightarrow> parse_state \<Rightarrow> bool" where
  "frame s t \<longleftrightarrow> (\<forall>X. holds X (memory s) \<and> foreign_message X (message s)
        \<longrightarrow> holds X (memory t) \<and> foreign_message X (message t))
     \<and> same_buffer (input s) (input t) \<and> message_block (message t) = message_block (message s)
     \<and> (alloc_script (memory s) = [] \<longrightarrow> alloc_script (memory t) = [])"

lemma frame_refl [simp]: "frame s s" by (simp add: frame_def)

lemma frame_trans: "frame s t \<Longrightarrow> frame t u \<Longrightarrow> frame s u"
  unfolding frame_def using same_buffer_trans by metis

definition frames :: "parse \<Rightarrow> bool" where
  "frames k \<longleftrightarrow> (\<forall>s st t. k s = Some (st, t) \<longrightarrow> frame s t)"

lemma framesD: "frames k \<Longrightarrow> k s = Some (st, t) \<Longrightarrow> frame s t"
  by (simp add: frames_def)

lemma frames_after: "frames k \<Longrightarrow> frame s s1 \<Longrightarrow> k s1 = Some (st, t) \<Longrightarrow> frame s t"
  using frame_trans framesD by blast

named_theorems frames_intros

lemma frame_fields [simp]:
  "frame s (s\<lparr>parser := p\<rparr>)" "frame s (set_cs l s)" "frame s (s\<lparr>local_state := st\<rparr>)"
  "frame s (s\<lparr>input := skip n (input s)\<rparr>)"
  by (simp_all add: frame_def set_cs_def)

lemma frames_exit [frames_intros]: "frames (CR_EXIT r)"
  by (simp add: frames_def CR_EXIT_def)

lemma frames_yield [frames_intros]: "frames k \<Longrightarrow> frames (YIELD_ON_END l k)"
  by (auto simp: frames_def YIELD_ON_END_def)

lemma frames_if [frames_intros]: "frames j \<Longrightarrow> frames k \<Longrightarrow> frames (\<lambda>s. if c s then j s else k s)"
  by (simp add: frames_def)

lemma frames_before:
  assumes "frames k" "\<And>s. frame s (f s)"
  shows "frames (\<lambda>s. k (f s))"
  using frames_after [OF assms(1) assms(2)] unfolding frames_def by blast

definition harmless :: "(xi_mqtt_message \<Rightarrow> xi_mqtt_message) \<Rightarrow> bool" where
  "harmless f \<longleftrightarrow> (\<forall>m X. foreign_message X m \<longrightarrow> foreign_message X (f m)) \<and> (\<forall>m. message_block (f m) = message_block m)"

lemma frames_take [frames_intros]:
  assumes "\<And>b. harmless (put b)" "frames k"
  shows "frames (take_byte put k)"
  unfolding frames_def
proof (intro allI impI)
  fix s st t assume t: "take_byte put k s = Some (st, t)"
  then obtain b where "k (s\<lparr>message := put b (message s), input := skip 1 (input s),
         parser := (parser s)\<lparr>data_length := data_length (parser s) + 1\<rparr>\<rparr>) = Some (st, t)"
    by (auto simp: take_byte_def bind_eq_Some_conv)
  then show "frame s t"
    using assms(1) [of b] by (elim frames_after [OF assms(2), rotated]) (simp add: frame_def harmless_def)
qed

definition proper_field :: "field \<Rightarrow> bool" where
  "proper_field into \<longleftrightarrow> (\<forall>m X d. fst into m = Some d \<longrightarrow> foreign_message X m \<longrightarrow> foreign X d)
     \<and> (\<forall>m X d. foreign_message X m \<longrightarrow> foreign X d \<longrightarrow> foreign_message X (snd into d m))
     \<and> (\<forall>m d. message_block (snd into d m) = message_block m)"

lemma proper_fields [frames_intros]:
  "proper_field protocol_name_field" "proper_field client_id_field" "proper_field will_topic_field"
  "proper_field will_message_field" "proper_field username_field" "proper_field password_field"
  "proper_field topic_name_field" "proper_field content_field" "proper_field topic_filter_field"
  by (auto simp: proper_field_def protocol_name_field_def client_id_field_def will_topic_field_def
      will_message_field_def username_field_def password_field_def topic_name_field_def content_field_def
      topic_filter_field_def foreign_message_def split: option.splits)

lemma frames_read [frames_intros]:
  assumes "reader rd" "proper_field into" "frames k"
  shows "frames (READ_INTO rd l into k)"
  unfolding frames_def
proof (intro allI impI)
  fix s st t assume t: "READ_INTO rd l into k s = Some (st, t)"
  obtain d where d: "fst into (message s) = Some d" using t by (auto simp: READ_INTO_def bind_eq_Some_conv)
  then obtain st1 p1 d1 b1 m1 where r: "rd (parser s, d, input s, memory s) = Some (st1, p1, d1, b1, m1)"
    using t by (auto simp: READ_INTO_def bind_eq_Some_conv)
  define u where "u = s\<lparr>parser := p1, message := snd into d1 (message s), input := b1, local_state := st1, memory := m1\<rparr>"
  have f: "fills (memory s) d m1 d1" "same_buffer (input s) b1" using assms(1) r unfolding reader_def by blast+
  have "frame s u"
    using f d assms(2) unfolding frame_def fills_def proper_field_def u_def by auto
  moreover have "(if st1 = XI_STATE_WANT_READ then Some (XI_STATE_WANT_READ, set_cs l u)
      else if st1 \<noteq> XI_STATE_OK then CR_EXIT st1 u else k u) = Some (st, t)"
    using t d r by (simp add: READ_INTO_def u_def Let_def cong: if_cong)
  then have "frame u t"
    using framesD [OF frames_exit, of st1 u st t] framesD [OF assms(3), of u st t] by (auto split: if_splits)
  ultimately show "frame s t" by (rule frame_trans)
qed

lemma frames_resume [frames_intros]:
  assumes "reader rd" "proper_field into" "frames k"
  shows "frames (RESUME_INTO rd l into k)"
  using frames_read [OF assms] assms(3) by (simp add: frames_def RESUME_INTO_def)

lemma frames_topics [frames_intros]:
  assumes "frames k"
  shows "frames (ALLOC_TOPICS k)"
  unfolding frames_def
proof (intro allI impI)
  fix s st t assume t: "ALLOC_TOPICS k s = Some (st, t)"
  obtain p m1 where a: "xi_alloc Mqtt_Parser.sizeof_xi_mqtt_topicpair (memory s) = (p, m1)" by fastforce
  define u where "u = (if p = NULL
      then s\<lparr>message := (message s)\<lparr>topics := None\<rparr>, local_state := XI_OUT_OF_MEMORY, memory := m1\<rparr>
      else s\<lparr>message := (message s)\<lparr>topics := Some \<lparr>topicpair_block = p, topic_filter = None, payload_byte = 0\<rparr>\<rparr>,
             memory := m1\<rparr>)"
  have "frame s u"
    using holds_alloc [OF a] alloc_script_alloc [OF a] by (auto simp: frame_def u_def foreign_message_def)
  moreover have "frame u t"
    using t a framesD [OF frames_exit, of XI_OUT_OF_MEMORY u st t] framesD [OF assms, of u st t]
    by (auto simp: ALLOC_TOPICS_def u_def split: if_splits)
  ultimately show "frame s t" by (rule frame_trans)
qed

lemmas readers [frames_intros] = reader_string reader_data

section \<open>The packets\<close>

lemma harmless_puts [frames_intros]:
  "harmless (\<lambda>m. m\<lparr>keepalive := f m\<rparr>)" "harmless (\<lambda>m. m\<lparr>flags_value := b\<rparr>)"
  "harmless (\<lambda>m. m\<lparr>protocol_version := b\<rparr>)" "harmless (\<lambda>m. m\<lparr>return_code := b\<rparr>)"
  "harmless (\<lambda>m. m\<lparr>connack_unused := b\<rparr>)" "harmless (put_id_high b)" "harmless (put_id_low b)"
  by (simp_all add: harmless_def foreign_message_def put_id_high_def put_id_low_def)

lemma frames_connect [frames_intros]:
  "frames connect_password" "frames connect_username" "frames connect_will_message" "frames connect_will_topic"
  "frames connect_client_id" "frames connect_keepalive_low" "frames connect_keepalive_high" "frames connect_flags"
  "frames connect_version" "frames parse_connect"
proof -
  show 1: "frames connect_password" unfolding connect_password_def [abs_def] by (intro frames_intros)
  show 2: "frames connect_username" unfolding connect_username_def [abs_def] by (intro frames_intros 1)
  show 3: "frames connect_will_message" unfolding connect_will_message_def [abs_def] by (intro frames_intros 2)
  show 4: "frames connect_will_topic" unfolding connect_will_topic_def [abs_def] by (intro frames_intros 3)
  show 5: "frames connect_client_id" unfolding connect_client_id_def by (intro frames_intros 4)
  show 6: "frames connect_keepalive_low" unfolding connect_keepalive_low_def by (intro frames_intros 5)
  show 7: "frames connect_keepalive_high" unfolding connect_keepalive_high_def by (intro frames_intros 6)
  show 8: "frames connect_flags" unfolding connect_flags_def by (intro frames_intros 7)
  show 9: "frames connect_version" unfolding connect_version_def by (intro frames_intros 8)
  show "frames parse_connect" unfolding parse_connect_def by (intro frames_intros 9)
qed

lemma frames_connack [frames_intros]: "frames connack_code" "frames connack_unused_byte" "frames parse_connack"
  by (simp_all add: connack_code_def connack_unused_byte_def parse_connack_def frames_intros)

lemma frames_ident [frames_intros]:
  "frames ident_low" "frames (ident_high l)" "frames parse_puback" "frames parse_pubrec" "frames parse_pubrel"
  "frames parse_pubcomp"
  by (simp_all add: ident_low_def ident_high_def parse_puback_def parse_pubrec_def parse_pubrel_def
      parse_pubcomp_def frames_intros)

lemma frames_publish [frames_intros]:
  "frames publish_payload" "frames publish_id_low" "frames publish_id" "frames publish_topic" "frames parse_publish"
proof -
  let ?p = "\<lambda>s. s\<lparr>parser := (parser s)\<lparr>str_length := (remaining_length (parser s) + 2) - data_length (parser s)\<rparr>\<rparr>"
  have "frames (\<lambda>s. (\<lambda>s. if str_length (parser s) > 0 then READ_DATA 348 content_field (CR_EXIT XI_STATE_OK) s
      else CR_EXIT XI_STATE_OK s) (?p s))"
    by (rule frames_before) (intro frames_intros, simp)
  then show 1: "frames publish_payload" unfolding publish_payload_def [abs_def] Let_def by simp
  show 2: "frames publish_id_low" unfolding publish_id_low_def by (intro frames_intros 1)
  show 3: "frames publish_id" unfolding publish_id_def [abs_def] by (intro frames_intros 1 2)
  show 4: "frames publish_topic" unfolding publish_topic_def by (intro frames_intros 3)
  show "frames parse_publish" unfolding parse_publish_def by (intro frames_intros 4)
qed

text \<open>The status byte goes into the topic pair that is there.\<close>

lemma frames_put_topic:
  assumes "topics (message s) = Some t0" "take_byte (\<lambda>b m. m\<lparr>topics := Some (t0\<lparr>payload_byte := f b\<rparr>)\<rparr>) (CR_EXIT r) s = Some (st, t)"
  shows "frame s t"
  using assms by (auto simp: take_byte_def bind_eq_Some_conv CR_EXIT_def set_cs_def frame_def foreign_message_def)

lemma frames_subscribe [frames_intros]:
  "frames subscribe_qos" "frames subscribe_topic" "frames subscribe_id_low" "frames subscribe_id_high" "frames parse_subscribe"
proof -
  show 1: "frames subscribe_qos"
    unfolding frames_def subscribe_qos_def by (auto simp: bind_eq_Some_conv intro: frames_put_topic)
  show 2: "frames subscribe_topic" unfolding subscribe_topic_def by (intro frames_intros 1)
  show 3: "frames subscribe_id_low" unfolding subscribe_id_low_def by (intro frames_intros 2)
  show 4: "frames subscribe_id_high" unfolding subscribe_id_high_def by (intro frames_intros 3)
  show "frames parse_subscribe" unfolding parse_subscribe_def by (intro frames_intros 4)
qed

lemma frames_suback [frames_intros]:
  "frames suback_status" "frames suback_id_low" "frames suback_id_high" "frames parse_suback"
proof -
  have "frame s t"
    if q: "(do {
     b \<leftarrow> byte_at (input s);
     t \<leftarrow> topics (message s);
     case xi_mqtt_parse_suback_response b of
       (st, None) \<Rightarrow> CR_EXIT st (s\<lparr>local_state := st\<rparr>)
     | (st, Some v) \<Rightarrow>
         take_byte (\<lambda>_ m. m\<lparr>topics := Some (t\<lparr>payload_byte := v\<rparr>)\<rparr>) (CR_EXIT XI_STATE_OK)
           (s\<lparr>local_state := st\<rparr>) }) = Some (st, t)" for s st t
  proof -
    obtain b t0 where b: "byte_at (input s) = Some b" "topics (message s) = Some t0"
      using q by (cases "byte_at (input s)"; cases "topics (message s)") auto
    obtain st' v where v: "xi_mqtt_parse_suback_response b = (st', v)" by fastforce
    have f: "frame s (s\<lparr>local_state := st'\<rparr>)" by simp
    show ?thesis
    proof (cases v)
      case None
      then show ?thesis using q b v frames_after [OF frames_exit f] by simp
    next
      case (Some w)
      then have "take_byte (\<lambda>_ m. m\<lparr>topics := Some (t0\<lparr>payload_byte := w\<rparr>)\<rparr>) (CR_EXIT XI_STATE_OK)
           (s\<lparr>local_state := st'\<rparr>) = Some (st, t)" using q b v by simp
      then have "frame (s\<lparr>local_state := st'\<rparr>) t"
        using frames_put_topic [of "s\<lparr>local_state := st'\<rparr>" t0 "\<lambda>_. w"] b(2) by simp
      with f show ?thesis by (rule frame_trans)
    qed
  qed
  then have "frames (\<lambda>s. do {
     b \<leftarrow> byte_at (input s);
     t \<leftarrow> topics (message s);
     case xi_mqtt_parse_suback_response b of
       (st, None) \<Rightarrow> CR_EXIT st (s\<lparr>local_state := st\<rparr>)
     | (st, Some v) \<Rightarrow>
         take_byte (\<lambda>_ m. m\<lparr>topics := Some (t\<lparr>payload_byte := v\<rparr>)\<rparr>) (CR_EXIT XI_STATE_OK)
           (s\<lparr>local_state := st\<rparr>) })" unfolding frames_def by blast
  then show 1: "frames suback_status" unfolding suback_status_def by (rule frames_topics)
  show 2: "frames suback_id_low" unfolding suback_id_low_def by (intro frames_intros 1)
  show 3: "frames suback_id_high" unfolding suback_id_high_def by (intro frames_intros 2)
  show "frames parse_suback" unfolding parse_suback_def by (intro frames_intros 3)
qed

section \<open>The header and the dispatch\<close>

lemma frames_body: "frames parse_body"
  unfolding parse_body_def [abs_def] Let_def parse_unknown_def [abs_def]
  by (intro frames_intros frames_before [OF frames_exit]) simp

lemma frame_header_done:
  assumes "header_done b s = Some (st, t)"
  shows "frame s t"
proof (cases "b \<ge> 0x80")
  case True
  then have "CR_EXIT XI_MQTT_PARSER_ERROR
      (s\<lparr>parser := (parser s)\<lparr>parser_error := XI_MQTT_ERROR_PARSER_INVALID_REMAINING_LENGTH\<rparr>\<rparr>) = Some (st, t)"
    using assms by (simp add: header_done_def)
  then show ?thesis by (elim frames_after [OF frames_exit, rotated]) simp
next
  case False
  then have "parse_body (s\<lparr>message := (message s)\<lparr>remaining_length_field := ucast (remaining_length (parser s))\<rparr>,
      input := skip 1 (input s), parser := (parser s)\<lparr>data_length := data_length (parser s) + 1\<rparr>\<rparr>) = Some (st, t)"
    using assms by (simp add: header_done_def)
  then show ?thesis by (elim frames_after [OF frames_body, rotated]) (simp add: frame_def foreign_message_def)
qed

lemma frames_digits [frames_intros]: "frames remaining_length_digit"
proof -
  have "remaining_length_digit s = Some (st, t) \<Longrightarrow> frame s t" for s st t
  proof (induct s rule: remaining_length_digit.induct)
    case (1 s)
    obtain b where b: "byte_at (input s) = Some b"
      using "1.prems" by (subst (asm) remaining_length_digit.simps) (auto split: option.splits)
    let ?s1 = "s\<lparr>parser := (parser s)\<lparr>remaining_length := remaining_length (parser s) + ucast (b AND 0x7f) * multiplier (parser s),
                            multiplier := multiplier (parser s) * 128\<rparr>\<rparr>"
    let ?s2 = "?s1\<lparr>input := skip 1 (input ?s1), parser := (parser ?s1)\<lparr>digit_bytes := digit_bytes (parser s) + 1\<rparr>\<rparr>"
    have f: "frame s ?s1" "frame s ?s2" by (simp_all add: frame_def)
    show ?case
    proof (cases "b AND 0x80 \<noteq> 0 \<and> digit_bytes (parser s) < 4")
      case True
      show ?thesis
      proof (cases "at_end (input ?s2)")
        case at: True
        then have "t = set_cs 223 ?s2"
          using "1.prems" b True by (subst (asm) remaining_length_digit.simps) (simp add: Let_def)
        then show ?thesis using f(2) frame_trans [OF f(2)] by simp
      next
        case False
        then have "remaining_length_digit ?s2 = Some (st, t)"
          using "1.prems" b True by (subst (asm) remaining_length_digit.simps) (simp add: Let_def)
        then have "frame ?s2 t"
          by (intro "1.hyps" [OF b refl refl True refl False])
        with f(2) show ?thesis by (rule frame_trans)
      qed
    next
      case False
      then have "header_done b ?s1 = Some (st, t)"
        using "1.prems" b by (subst (asm) remaining_length_digit.simps) (simp add: Let_def split: if_splits)
      then show ?thesis using frame_header_done f(1) frame_trans by blast
    qed
  qed
  then show ?thesis unfolding frames_def by blast
qed

lemma frames_first [frames_intros]: "frames first_byte"
  unfolding frames_def
proof (intro allI impI)
  fix s st t assume "first_byte s = Some (st, t)"
  then obtain b where "YIELD_ON_END 223 remaining_length_digit (s\<lparr>message := (message s)\<lparr>common_value := b\<rparr>,
      input := skip 1 (input s),
      parser := (parser s)\<lparr>multiplier := 1, remaining_length := 0, data_length := 1, digit_bytes := 1\<rparr>\<rparr>) = Some (st, t)"
    by (auto simp: first_byte_def bind_eq_Some_conv)
  then show "frame s t"
    by (rule frames_after [OF frames_yield [OF frames_digits], rotated]) (simp add: frame_def foreign_message_def)
qed

lemma parser_frame:
  assumes "xi_mqtt_parser_execute s = Some (st, t)"
  shows "frame s t"
proof -
  have start: "frames parser_start"
    unfolding parser_start_def [abs_def] by (rule frames_before) (intro frames_intros, simp)
  have "frames xi_mqtt_parser_execute"
    unfolding xi_mqtt_parser_execute_def [abs_def] Let_def by (intro frames_intros start)
  then show ?thesis using assms by (rule framesD)
qed

end
