(* ===== verification/Mqtt_Codec_Pull.thy ===== *)
theory Mqtt_Codec_Pull
  imports Mqtt_Codec_Layer Mqtt_Parser_Frame Mqtt_Round_Trip Mqtt_Logic_Heap
    "HOL-Library.Sublist"
begin

text \<open>
  What the codec layer makes of the bytes it receives: every complete packet is handed to the
  logic layer, once and in order, however the bytes are cut into buffers.
\<close>

section \<open>A parser in the middle of a packet\<close>

text \<open>The bytes of a packet on the wire, and the packets that arrive at once when they are complete.\<close>

definition wire :: "xi_mqtt_message \<Rightarrow> byte list" where
  "wire m = packet_bytes m (length (body_bytes m) + length (payload m)) @ payload m"

definition deliverable :: "xi_mqtt_message \<Rightarrow> bool" where
  "deliverable m \<longleftrightarrow> fields_ok m \<and> fields_present m \<and> parsable m \<and> ends_in_bytes m
     \<and> length (body_bytes m) + length (payload m) \<le> 268435455"

text \<open>
  \<open>will_read ps r m\<close>: whatever buffers the bytes \<open>r\<close> arrive in and whatever becomes of the memory,
  the parser that is now in the state \<open>ps\<close> ends up with the packet \<open>m\<close>, right behind \<open>r\<close>.
\<close>

definition will_read :: "parse_state \<Rightarrow> byte list \<Rightarrow> xi_mqtt_message \<Rightarrow> bool" where
  "will_read ps r m \<longleftrightarrow> (\<forall>d ds mem tail. src_ok d \<longrightarrow> rest d \<noteq> [] \<longrightarrow> (\<forall>a \<in> set ds. arrives a) \<longrightarrow> granted mem
     \<longrightarrow> rest d @ arriving ds = r @ tail
     \<longrightarrow> (\<exists>t ds'. feed xi_mqtt_parser_execute (ps\<lparr>input := d, memory := mem\<rparr>) ds = Some (XI_STATE_OK, t, ds')
           \<and> packet_of (message t) = packet_of m \<and> stream t ds' = tail \<and> ready t ds'))"

lemma will_readD:
  assumes "will_read ps r m" "src_ok d" "rest d \<noteq> []" "\<forall>a \<in> set ds. arrives a" "granted mem"
    "rest d @ arriving ds = r @ tail"
  shows "\<exists>t ds'. feed xi_mqtt_parser_execute (ps\<lparr>input := d, memory := mem\<rparr>) ds = Some (XI_STATE_OK, t, ds')
    \<and> packet_of (message t) = packet_of m \<and> stream t ds' = tail \<and> ready t ds'"
  using assms(1) unfolding will_read_def using assms(2-6) by blast

lemma wire_length: "deliverable m \<Longrightarrow> 0 < length (wire m) \<and> length (wire m) < 2 ^ 32"
  using length_remaining_length_bytes [of "length (body_bytes m) + length (payload m)"]
  by (auto simp: wire_def packet_bytes_def deliverable_def xi_mqtt_get_remaining_length_bytes_def split: if_splits)

lemma fresh_will_read: "deliverable m \<Longrightarrow> will_read (fresh_parse p b d st mem) (wire m) m"
  unfolding will_read_def
proof (intro allI impI)
  fix d' ds mem' tail
  assume m: "deliverable m" and d: "src_ok d'" "\<forall>a \<in> set ds. arrives a" "granted mem'"
    "rest d' @ arriving ds = wire m @ tail"
  have "(fresh_parse p b d st mem)\<lparr>input := d', memory := mem'\<rparr> = fresh_parse p b d' st mem'"
    by (simp add: fresh_parse_def)
  then show "\<exists>t ds'. feed xi_mqtt_parser_execute ((fresh_parse p b d st mem)\<lparr>input := d', memory := mem'\<rparr>) ds
      = Some (XI_STATE_OK, t, ds') \<and> packet_of (message t) = packet_of m \<and> stream t ds' = tail \<and> ready t ds'"
    using m d parser_reads_on [of m tail "length (body_bytes m) + length (payload m)" d' ds mem' p b st]
    by (auto simp: deliverable_def wire_def)
qed

text \<open>The buffer ends in the packet.\<close>

lemma will_read_on:
  assumes w: "will_read ps r m" and d: "src_ok d" "rest d \<noteq> []" "granted mem" and r: "r = rest d @ r'" "r' \<noteq> []"
    and short: "length r < 2 ^ 32"
  obtains t where "xi_mqtt_parser_execute (ps\<lparr>input := d, memory := mem\<rparr>) = Some (XI_STATE_WANT_READ, t)"
    "will_read t r' m"
proof -
  let ?ps = "ps\<lparr>input := d, memory := mem\<rparr>"
  let ?c = "(bytes_desc 1 r', id)"
  have c: "arrives ?c" "rest (fst ?c) = r'"
    using bytes_desc_arrives [of r' 1] r short by (simp_all add: arrives_def)
  obtain t0 ds0 where f: "feed xi_mqtt_parser_execute ?ps [?c] = Some (XI_STATE_OK, t0, ds0)" "stream t0 ds0 = []"
    using w [unfolded will_read_def, rule_format, of d "[?c]" mem "[]"] c d r by auto
  obtain st t where e: "xi_mqtt_parser_execute ?ps = Some (st, t)" using f(1) by (auto split: option.splits)
  have st: "st = XI_STATE_WANT_READ"
  proof (rule ccontr)
    assume "st \<noteq> XI_STATE_WANT_READ"
    then have "ds0 = [?c]" "t0 = t" using f(1) e by auto
    then show False using f(2) c(2) r(2) by (simp add: stream_def)
  qed
  have "will_read t r' m"
    unfolding will_read_def
  proof (intro allI impI)
    fix d' ds' mem' tail
    assume a: "src_ok d'" "rest d' \<noteq> []" "\<forall>a \<in> set ds'. arrives a" "granted mem'" "rest d' @ arriving ds' = r' @ tail"
    show "\<exists>u ds''. feed xi_mqtt_parser_execute (t\<lparr>input := d', memory := mem'\<rparr>) ds' = Some (XI_STATE_OK, u, ds'')
        \<and> packet_of (message u) = packet_of m \<and> stream u ds'' = tail \<and> ready u ds''"
    proof -
      have "\<forall>x \<in> set ((d', \<lambda>_. mem') # ds'). arrives x" using a by (simp add: arrives_def)
      then have "\<exists>u ds''. feed xi_mqtt_parser_execute (ps\<lparr>input := d, memory := mem\<rparr>) ((d', \<lambda>_. mem') # ds') = Some (XI_STATE_OK, u, ds'')
          \<and> packet_of (message u) = packet_of m \<and> stream u ds'' = tail \<and> ready u ds''"
        by (intro will_readD [OF w d(1,2) _ d(3)]) (use a r in simp_all)
      then show ?thesis using e st by (simp add: arrive_def)
    qed
  qed
  then show thesis using that e st by simp
qed

text \<open>The buffer reaches the end of the packet.\<close>

lemma will_read_done:
  assumes w: "will_read ps r m" and d: "src_ok d" "rest d \<noteq> []" "granted mem" "rest d = r @ tail"
  obtains t where "xi_mqtt_parser_execute (ps\<lparr>input := d, memory := mem\<rparr>) = Some (XI_STATE_OK, t)"
    "packet_of (message t) = packet_of m" "src_ok (input t)" "rest (input t) = tail" "granted (memory t)"
proof -
  obtain t ds' where "feed xi_mqtt_parser_execute (ps\<lparr>input := d, memory := mem\<rparr>) [] = Some (XI_STATE_OK, t, ds')"
    "packet_of (message t) = packet_of m" "stream t ds' = tail" "ready t ds'"
    using w [unfolded will_read_def, rule_format, of d "[]" mem tail] d by auto
  then show thesis by (intro that [of t]) (auto simp: stream_def ready_def)
qed

section \<open>The layer between two buffers\<close>

text \<open>Posting a call when there is memory.\<close>

definition posts ::
    "('g, 'z) xi_mqtt_stack_scheme \<Rightarrow> 'g stack_fn logic_handle list \<Rightarrow> ('g, 'z) xi_mqtt_stack_scheme \<Rightarrow> bool" where
  "posts s hs t \<longleftrightarrow> (\<exists>calls. call_queue t = call_queue s @ calls \<and> map snd calls = hs)"

lemma codec_process_granted:
  assumes "granted (tmem s)" "target \<noteq> NULL"
  obtains q m where "codec_process target fn op dat st s = (XI_STATE_OK, s\<lparr>tmem := m,
      call_queue := call_queue s @ [(q, xi_make_handle_argc3 0 (Other_Fn fn) target dat st)],
      codec_layer_state := get_next_layer_state op (codec_layer_state s) st\<rparr>)"
    "granted m" "live_blocks m = insert q (live_blocks (tmem s))" "q \<notin> live_blocks (tmem s)"
proof -
  obtain q m where a: "xi_alloc sizeof_xi_event_handle_queue (tmem s) = (q, m)" by fastforce
  have q: "q \<noteq> NULL" "live_blocks m = insert q (live_blocks (tmem s))" "q \<notin> live_blocks (tmem s)" "granted m"
    using a assms(1) xi_alloc_mem_ok [OF a]
    by (auto simp: granted_def xi_alloc_def sizeof_xi_event_handle_queue_def PTRDIFF_MAX_def mem_ok_def split: if_splits)
  then show thesis
    using a assms(2) by (intro that [of q m])
      (simp_all add: codec_process_def xi_layer_continue_with_impl_def xi_evtd_execute_def)
qed

text \<open>The layer is in operation and allocations are granted.\<close>

definition codec_up :: "('g, 'z) xi_mqtt_stack_scheme \<Rightarrow> bool" where
  "codec_up s \<longleftrightarrow> prev_context s \<noteq> NULL \<and> layer_context s \<noteq> NULL \<and> \<not> codec_shut_down s \<and> granted (tmem s)"

definition parser_of :: "('g, 'z) xi_mqtt_stack_scheme \<Rightarrow> xi_data_desc \<Rightarrow> parse_state" where
  "parser_of s d = \<lparr>parser = codec_parser (codec_data s), message = mqtt_messages s (codec_msg (codec_data s)),
     input = d, local_state = parser_static s, memory = tmem s\<rparr>"

definition between_packets :: "('g, 'z) xi_mqtt_stack_scheme \<Rightarrow> bool" where
  "between_packets s \<longleftrightarrow> pull_cs (codec_data s) \<noteq> 290 \<and> codec_msg (codec_data s) = NULL"

definition in_packet :: "('g, 'z) xi_mqtt_stack_scheme \<Rightarrow> byte list \<Rightarrow> xi_mqtt_message \<Rightarrow> bool" where
  "in_packet s r m \<longleftrightarrow> pull_cs (codec_data s) = 290 \<and> codec_local_state (codec_data s) = XI_STATE_WANT_READ
     \<and> live s (codec_msg (codec_data s)) \<and> r \<noteq> [] \<and> length r < length (wire m)
     \<and> foreign_message {codec_msg (codec_data s)} (mqtt_messages s (codec_msg (codec_data s)))
     \<and> (\<forall>d. will_read (parser_of s d) r m)"

text \<open>The packets \<open>ms\<close> are still to come, and the bytes \<open>bs\<close> of them.\<close>

definition awaits :: "('g, 'z) xi_mqtt_stack_scheme \<Rightarrow> byte list \<Rightarrow> xi_mqtt_message list \<Rightarrow> bool" where
  "awaits s bs ms \<longleftrightarrow> between_packets s \<and> bs = concat (map wire ms)
     \<or> (\<exists>r. ms \<noteq> [] \<and> in_packet s r (hd ms) \<and> bs = r @ concat (map wire (tl ms)))"

text \<open>A buffer: its own object, not a part of the message that is being read.\<close>

definition buffer_at :: "('g, 'z) xi_mqtt_stack_scheme \<Rightarrow> addr \<Rightarrow> bool" where
  "buffer_at s b \<longleftrightarrow> live s b \<and> desc_block (data_descs s b) = b \<and> src_ok (data_descs s b)
     \<and> rest (data_descs s b) \<noteq> [] \<and> desc_memory_type (data_descs s b) \<noteq> XI_MEMORY_TYPE_UNKNOWN
     \<and> desc_blocks (Some (data_descs s b)) \<subseteq> live_blocks (tmem s)
     \<and> (codec_msg (codec_data s) \<noteq> NULL \<longrightarrow> codec_msg (codec_data s) \<notin> desc_blocks (Some (data_descs s b))
          \<and> foreign_message (desc_blocks (Some (data_descs s b))) (mqtt_messages s (codec_msg (codec_data s))))"

lemma buffer_block: "buffer_at s b \<Longrightarrow> b \<in> desc_blocks (Some (data_descs s b))"
  by (auto simp: buffer_at_def desc_blocks_def live_def)

text \<open>What a call of \<open>pull\<close> with the buffer \<open>b\<close> leaves alone.\<close>

definition spared :: "('g, 'z) xi_mqtt_stack_scheme \<Rightarrow> addr \<Rightarrow> addr \<Rightarrow> bool" where
  "spared s b a \<longleftrightarrow> live s a \<and> a \<notin> desc_blocks (Some (data_descs s b))
     \<and> (codec_msg (codec_data s) \<noteq> NULL \<longrightarrow> a \<noteq> codec_msg (codec_data s)
          \<and> foreign_message {a} (mqtt_messages s (codec_msg (codec_data s))))"

definition spares :: "('g, 'z) xi_mqtt_stack_scheme \<Rightarrow> addr \<Rightarrow> ('g, 'z) xi_mqtt_stack_scheme \<Rightarrow> bool" where
  "spares s b t \<longleftrightarrow> (\<forall>a. spared s b a \<longrightarrow> live t a \<and> mqtt_messages t a = mqtt_messages s a)
     \<and> layer_context t = layer_context s \<and> prev_context t = prev_context s \<and> io_context t = io_context s
     \<and> codec_layer_state t = codec_layer_state s \<and> codec_user_data t = codec_user_data s
     \<and> task_queue (codec_data t) = task_queue (codec_data s) \<and> push_cs (codec_data t) = push_cs (codec_data s)"

text \<open>The call of the logic layer that hands a message over.\<close>

definition pull_handle :: "('g, 'z) xi_mqtt_stack_scheme \<Rightarrow> addr \<Rightarrow> 'g stack_fn logic_handle" where
  "pull_handle s msg = xi_make_handle_argc3 0 (Other_Fn (This_Layer Pull)) (layer_context s) msg XI_STATE_OK"

definition hands_over ::
    "('g, 'z) xi_mqtt_stack_scheme \<Rightarrow> xi_mqtt_message \<Rightarrow> 'g stack_fn logic_handle \<Rightarrow> bool" where
  "hands_over t m h \<longleftrightarrow> (\<exists>p. h = pull_handle t p \<and> live t p \<and> packet_of (mqtt_messages t p) = packet_of m)"

text \<open>The state in which the parser is called, and the state after the call.\<close>

definition reading :: "('g, 'z) xi_mqtt_stack_scheme \<Rightarrow> addr \<Rightarrow> byte list \<Rightarrow> xi_mqtt_message \<Rightarrow> bool" where
  "reading s b r m \<longleftrightarrow> codec_up s \<and> buffer_at s b \<and> live s (codec_msg (codec_data s)) \<and> r \<noteq> []
     \<and> length r \<le> length (wire m) \<and> length r < 2 ^ 32
     \<and> foreign_message {codec_msg (codec_data s)} (mqtt_messages s (codec_msg (codec_data s)))
     \<and> (\<forall>d. will_read (parser_of s d) r m)"

definition parsed_state ::
    "('g, 'z) xi_mqtt_stack_scheme \<Rightarrow> addr \<Rightarrow> xi_state \<Rightarrow> parse_state \<Rightarrow> ('g, 'z) xi_mqtt_stack_scheme" where
  "parsed_state s b st t = s\<lparr>tmem := memory t, mqtt_messages := (mqtt_messages s)(codec_msg (codec_data s) := message t),
     codec_data := (codec_data s)\<lparr>codec_parser := parser t, codec_local_state := st\<rparr>,
     data_descs := (data_descs s)(b := input t), parser_static := local_state t\<rparr>"

lemma parsed_state_fields [simp]:
  "tmem (parsed_state s b st t) = memory t" "data_descs (parsed_state s b st t) = (data_descs s)(b := input t)"
  "mqtt_messages (parsed_state s b st t) = (mqtt_messages s)(codec_msg (codec_data s) := message t)"
  "codec_data (parsed_state s b st t) = (codec_data s)\<lparr>codec_parser := parser t, codec_local_state := st\<rparr>"
  "parser_static (parsed_state s b st t) = local_state t" "layer_context (parsed_state s b st t) = layer_context s"
  "prev_context (parsed_state s b st t) = prev_context s" "io_context (parsed_state s b st t) = io_context s"
  "codec_layer_state (parsed_state s b st t) = codec_layer_state s"
  "codec_user_data (parsed_state s b st t) = codec_user_data s" "call_queue (parsed_state s b st t) = call_queue s"
  by (simp_all add: parsed_state_def)

lemma parser_step:
  assumes r: "reading s b r m" and e: "xi_mqtt_parser_execute (parser_of s (data_descs s b)) = Some (st, t)"
  shows "execute_parser b s = Some (parsed_state s b st t)" "granted (memory t)"
    "live (parsed_state s b st t) (codec_msg (codec_data s))" "live (parsed_state s b st t) b"
    "same_buffer (data_descs s b) (input t)"
    "foreign_message {codec_msg (codec_data s)} (message t)" "desc_blocks (Some (data_descs s b)) \<subseteq> live_blocks (memory t)"
    "\<And>a. spared s b a \<Longrightarrow> live (parsed_state s b st t) a \<and> foreign_message {a} (message t) \<and> a \<noteq> codec_msg (codec_data s)"
proof -
  let ?p = "codec_msg (codec_data s)"
  let ?B = "desc_blocks (Some (data_descs s b))"
  have p: "live s ?p" "live s b" "?p \<notin> ?B" "granted (tmem s)" "foreign_message {?p} (mqtt_messages s ?p)"
    "foreign_message ?B (mqtt_messages s ?p)" "?p \<noteq> NULL" "?B \<subseteq> live_blocks (tmem s)" and b: "b \<in> ?B"
    using r buffer_block [of s b] by (auto simp: reading_def buffer_at_def codec_up_def live_def)
  have "frame (parser_of s (data_descs s b)) t" using e by (rule parser_frame)
  then have f: "holds X (tmem s) \<and> foreign_message X (mqtt_messages s ?p) \<longrightarrow> holds X (memory t) \<and> foreign_message X (message t)"
    "same_buffer (data_descs s b) (input t)" "alloc_script (tmem s) = [] \<longrightarrow> alloc_script (memory t) = []" for X
    unfolding frame_def by (simp_all add: parser_of_def)
  have one: "live (parsed_state s b st t) a \<and> foreign_message {a} (message t)"
    if "live s a" "foreign_message {a} (mqtt_messages s ?p)" for a
    using f(1) [of "{a}"] that p(4) by (simp add: holds_def live_def granted_def)
  show "execute_parser b s = Some (parsed_state s b st t)"
    using p(1,2) e by (simp add: execute_parser_def deref_message_def deref_desc_def parser_of_def parsed_state_def Let_def)
  show "granted (memory t)" using f(1) [of "{?p}"] f(3) p by (simp add: granted_def holds_def live_def)
  show "live (parsed_state s b st t) ?p" "foreign_message {?p} (message t)" using one [OF p(1,5)] by simp_all
  show B: "?B \<subseteq> live_blocks (memory t)" using f(1) [of ?B] p by (simp add: holds_def granted_def)
  show "live (parsed_state s b st t) b" using B b p(2) by (auto simp: live_def)
  show "same_buffer (data_descs s b) (input t)" by (rule f(2))
  show "live (parsed_state s b st t) a \<and> foreign_message {a} (message t) \<and> a \<noteq> ?p" if "spared s b a" for a
    using one [of a] that p(7) by (simp add: spared_def)
qed

lemma will_read_state [simp]: "will_read (ps\<lparr>input := d, memory := mem\<rparr>) r m = will_read ps r m"
  by (simp add: will_read_def)

lemma free_buffer:
  assumes "live s b" "desc_memory_type (data_descs s b) \<noteq> XI_MEMORY_TYPE_UNKNOWN"
  shows "free_desc_at b s = Some (s\<lparr>tmem := release (desc_blocks (Some (data_descs s b))) (tmem s)\<rparr>)"
proof -
  have "desc_known (Some (data_descs s b))" using assms(2) by (simp add: desc_known_def)
  then show ?thesis
    using assms(1) by (simp add: free_desc_at_def deref_desc_def free_desc_release) (simp add: live_def)
qed

lemma same_buffer_blocks:
  assumes "same_buffer d e"
  shows "desc_blocks (Some e) = desc_blocks (Some d)" "desc_block e = desc_block d"
    "desc_memory_type e = desc_memory_type d" "desc_length e = desc_length d"
  using assms by (auto simp: same_buffer_def desc_blocks_def)

lemma granted_release [simp]: "granted (release B m) = (mem_ok (release B m) \<and> alloc_script m = [])"
  by (simp add: granted_def)

lemma pull_parse_on:
  assumes r: "reading s b r m" "r = rest (data_descs s b) @ r'" "r' \<noteq> []"
  obtains v where "pull_parse b st s = Some (Inl (XI_STATE_OK, v))" "in_packet v r' m" "codec_up v" "posts s [] v"
    "spares s b v"
proof -
  let ?d = "data_descs s b"
  let ?p = "codec_msg (codec_data s)"
  have b: "src_ok ?d" "rest ?d \<noteq> []" "desc_memory_type ?d \<noteq> XI_MEMORY_TYPE_UNKNOWN" "granted (tmem s)"
    "?p \<notin> desc_blocks (Some ?d)"
    and w: "will_read (parser_of s ?d) r m" "length r < 2 ^ 32" "length r \<le> length (wire m)"
    using r(1) by (auto simp: reading_def buffer_at_def codec_up_def live_def)
  have ps: "(parser_of s ?d)\<lparr>input := ?d, memory := tmem s\<rparr> = parser_of s ?d" by (simp add: parser_of_def)
  obtain t where t: "xi_mqtt_parser_execute (parser_of s ?d) = Some (XI_STATE_WANT_READ, t)" "will_read t r' m"
    using will_read_on [OF w(1) b(1,2,4) r(2,3) w(2)] ps by metis
  let ?u = "parsed_state s b XI_STATE_WANT_READ t"
  note step = parser_step [OF r(1) t(1)]
  note same = same_buffer_blocks [OF step(5)]
  have free: "free_desc_at b ?u = Some (?u\<lparr>tmem := release (desc_blocks (Some ?d)) (memory t)\<rparr>)"
    using free_buffer [of ?u b] step(4) b(3) same by simp
  define v where "v = ?u\<lparr>tmem := release (desc_blocks (Some ?d)) (memory t),
      codec_data := (codec_data ?u)\<lparr>pull_cs := 290\<rparr>\<rparr>"
  have v: "tmem v = release (desc_blocks (Some ?d)) (memory t)" "mqtt_messages v = (mqtt_messages s)(?p := message t)"
    "codec_data v = (codec_data s)\<lparr>codec_parser := parser t, codec_local_state := XI_STATE_WANT_READ, pull_cs := 290\<rparr>"
    "parser_static v = local_state t" "layer_context v = layer_context s"
    "prev_context v = prev_context s" "io_context v = io_context s" "codec_layer_state v = codec_layer_state s"
    "codec_user_data v = codec_user_data s" "call_queue v = call_queue s"
    by (simp_all add: v_def)
  have "pull_parse b st s = Some (Inl (XI_STATE_OK, v))"
    using step(1) free by (simp add: pull_parse_def v_def)
  moreover have "codec_up v"
    using r(1) step(2) v by (simp add: reading_def codec_up_def codec_shut_down_def granted_def mem_ok_release)
  moreover have "in_packet v r' m"
  proof -
    have "parser_of v d = t\<lparr>input := d, memory := tmem v\<rparr>" for d
      using v by (cases t) (simp add: parser_of_def)
    then have "will_read (parser_of v d) r' m" for d using t(2) by simp
    moreover have "live v ?p" using step(3) b(5) v(1) by (simp add: live_def)
    moreover have "length r' < length (wire m)" using w(3) r(2) b(2) by (cases "rest ?d") auto
    ultimately show ?thesis using step(6) r(3) v by (simp add: in_packet_def)
  qed
  moreover have "posts s [] v" using v by (simp add: posts_def)
  moreover have "live v a \<and> mqtt_messages v a = mqtt_messages s a" if "spared s b a" for a
    using step(8) [OF that] that v by (simp add: live_def spared_def)
  then have "spares s b v" using v by (simp add: spares_def)
  ultimately show thesis using that by blast
qed

lemma pull_parse_done:
  assumes r: "reading s b r m" "rest (data_descs s b) = r @ tail"
  obtains (last) v h where "tail = []" "pull_parse b XI_STATE_OK s = Some (Inl (XI_STATE_OK, v))" "between_packets v"
      "codec_up v" "posts s [h] v" "hands_over v m h" "spares s b v"
  | (more) v h where "tail \<noteq> []" "pull_parse b XI_STATE_OK s = Some (Inr v)" "between_packets v" "codec_up v"
      "posts s [h] v" "hands_over v m h" "spares s b v" "buffer_at v b" "rest (data_descs v b) = tail"
      "same_buffer (data_descs s b) (data_descs v b)" "h = pull_handle v (codec_msg (codec_data s))"
      "spared v b (codec_msg (codec_data s))" "packet_of (mqtt_messages v (codec_msg (codec_data s))) = packet_of m"
proof -
  let ?d = "data_descs s b"
  let ?p = "codec_msg (codec_data s)"
  have b: "src_ok ?d" "rest ?d \<noteq> []" "desc_memory_type ?d \<noteq> XI_MEMORY_TYPE_UNKNOWN" "granted (tmem s)"
    "?p \<notin> desc_blocks (Some ?d)" "desc_block ?d = b" "layer_context s \<noteq> NULL"
    and w: "will_read (parser_of s ?d) r m"
    using r(1) by (auto simp: reading_def buffer_at_def codec_up_def live_def)
  have ps: "(parser_of s ?d)\<lparr>input := ?d, memory := tmem s\<rparr> = parser_of s ?d" by (simp add: parser_of_def)
  obtain t where t: "xi_mqtt_parser_execute (parser_of s ?d) = Some (XI_STATE_OK, t)"
    "packet_of (message t) = packet_of m" "src_ok (input t)" "rest (input t) = tail"
    using will_read_done [OF w b(1,2,4) r(2)] ps by metis
  let ?u = "parsed_state s b XI_STATE_OK t"
  let ?u1 = "?u\<lparr>codec_data := (codec_data ?u)\<lparr>codec_msg := NULL\<rparr>\<rparr>"
  note step = parser_step [OF r(1) t(1)]
  note same = same_buffer_blocks [OF step(5)]
  have g: "granted (tmem ?u1)" "layer_context ?u1 \<noteq> NULL" using step(2) b(7) by simp_all
  obtain q m' where post: "codec_process (layer_context ?u1) (This_Layer Pull) Pull ?p XI_STATE_OK ?u1
      = (XI_STATE_OK, ?u1\<lparr>tmem := m',
      call_queue := call_queue ?u1 @ [(q, xi_make_handle_argc3 0 (Other_Fn (This_Layer Pull)) (layer_context ?u1) ?p XI_STATE_OK)],
      codec_layer_state := get_next_layer_state Pull (codec_layer_state ?u1) XI_STATE_OK\<rparr>)"
    "granted m'" "live_blocks m' = insert q (live_blocks (tmem ?u1))"
    by (rule codec_process_granted [OF g, of "This_Layer Pull" Pull ?p XI_STATE_OK])
  define x where "x = ?u1\<lparr>tmem := m',
      call_queue := call_queue ?u1 @ [(q, xi_make_handle_argc3 0 (Other_Fn (This_Layer Pull)) (layer_context ?u1) ?p XI_STATE_OK)],
      codec_layer_state := get_next_layer_state Pull (codec_layer_state ?u1) XI_STATE_OK,
      codec_data := (codec_data ?u1)\<lparr>pull_cs := 2\<rparr>\<rparr>"
  let ?h = "pull_handle s ?p"
  have x: "tmem x = m'" "mqtt_messages x = (mqtt_messages s)(?p := message t)"
    "codec_data x = (codec_data s)\<lparr>codec_parser := parser t, codec_local_state := XI_STATE_OK, codec_msg := NULL, pull_cs := 2\<rparr>"
    "parser_static x = local_state t" "layer_context x = layer_context s" "data_descs x = (data_descs s)(b := input t)"
    "prev_context x = prev_context s" "io_context x = io_context s" "codec_layer_state x = codec_layer_state s"
    "codec_user_data x = codec_user_data s" "call_queue x = call_queue s @ [(q, ?h)]"
    by (simp_all add: x_def pull_handle_def)
  have handle: "pull_handle y ?p = ?h" if "layer_context y = layer_context s" for y :: "('a, 'b) xi_mqtt_stack_scheme"
    using that by (simp add: pull_handle_def)
  have lx: "live x a" if "live ?u a" for a using that post(3) x(1) by (simp add: live_def)
  have bx: "desc_blocks (Some ?d) \<subseteq> live_blocks (tmem x)" using step(7) post(3) x(1) by auto
  have db: "deref_desc x b = Some (input t)" using lx [OF step(4)] x(6) by (simp add: deref_desc_def)
  have at_end: "curr_pos (input t) = desc_length (input t) \<longleftrightarrow> tail = []"
    using at_end_iff [OF t(3)] t(4) by (simp add: at_end_def)
  have parse: "pull_parse b XI_STATE_OK s = (if tail = []
      then do { s4 \<leftarrow> free_desc_at b x; Some (Inl (XI_STATE_OK, s4\<lparr>codec_data := (codec_data s4)\<lparr>pull_cs := 1\<rparr>\<rparr>)) }
      else Some (Inr x))"
    using step(1) post(1) db at_end
    by (simp add: pull_parse_def pull_decoded_def codec_process_on_next_def x_def Let_def)
  have keep: "live x a \<and> mqtt_messages x a = mqtt_messages s a" if "spared s b a" for a
    using step(8) [OF that] lx x by simp
  have sp: "spares s b x" using keep x by (simp add: spares_def)
  have up: "codec_up x" using r(1) post(2) x by (simp add: reading_def codec_up_def codec_shut_down_def)
  show thesis
  proof (cases "tail = []")
    case True
    have free: "free_desc_at b x = Some (x\<lparr>tmem := release (desc_blocks (Some ?d)) m'\<rparr>)"
      using free_buffer [of x b] lx [OF step(4)] b(3) same x by simp
    define v where "v = x\<lparr>tmem := release (desc_blocks (Some ?d)) m', codec_data := (codec_data x)\<lparr>pull_cs := 1\<rparr>\<rparr>"
    have v: "tmem v = release (desc_blocks (Some ?d)) m'" "mqtt_messages v = mqtt_messages x" "codec_data v = (codec_data x)\<lparr>pull_cs := 1\<rparr>"
      "layer_context v = layer_context s" "prev_context v = prev_context s" "io_context v = io_context s"
      "codec_layer_state v = codec_layer_state s" "codec_user_data v = codec_user_data s" "call_queue v = call_queue x"
      by (simp_all add: v_def x)
    have "pull_parse b XI_STATE_OK s = Some (Inl (XI_STATE_OK, v))" using parse True free by (simp add: v_def)
    moreover have "between_packets v" using x v by (simp add: between_packets_def)
    moreover have "codec_up v" using up v x by (simp add: codec_up_def codec_shut_down_def granted_def mem_ok_release)
    moreover have "posts s [?h] v" using x v by (simp add: posts_def)
    moreover have "live v ?p" using lx [OF step(3)] b(5) v(1) x(1) by (simp add: live_def)
    then have "hands_over v m ?h" using handle [of v] t(2) x v by (simp add: hands_over_def) metis
    moreover have "live v a \<and> mqtt_messages v a = mqtt_messages s a" if "spared s b a" for a
      using keep [OF that] that v x(1) by (simp add: live_def spared_def)
    then have "spares s b v" using x v by (simp add: spares_def)
    ultimately show thesis using last True by blast
  next
    case False
    have "pull_parse b XI_STATE_OK s = Some (Inr x)" using parse False by simp
    moreover have "between_packets x" using x by (simp add: between_packets_def)
    moreover have "posts s [?h] x" using x by (simp add: posts_def)
    moreover have lp: "live x ?p" using lx [OF step(3)] .
    then have "hands_over x m ?h" using handle [of x] t(2) x by (simp add: hands_over_def) metis
    moreover have "buffer_at x b"
      using lx [OF step(4)] bx same b(3,6) t(3,4) False x by (simp add: buffer_at_def)
    moreover have "rest (data_descs x b) = tail" "same_buffer ?d (data_descs x b)" "?h = pull_handle x ?p"
      "packet_of (mqtt_messages x ?p) = packet_of m"
      using t(2,4) step(5) handle [of x] x by simp_all
    moreover have "spared x b ?p" using lp b(5) same x by (simp add: spared_def)
    ultimately show thesis using more False up sp by blast
  qed
qed

text \<open>A new message is begun.\<close>

lemma pull_start:
  assumes s: "between_packets s" "codec_up s" "buffer_at s b" "deliverable m"
  obtains s1 where "pull_one b XI_STATE_OK s = pull_parse b XI_STATE_OK s1" "reading s1 b (wire m) m"
    "data_descs s1 = data_descs s" "posts s [] s1" "spares s b s1" "\<And>a. spared s b a \<Longrightarrow> spared s1 b a"
proof -
  obtain p m1 where a: "xi_alloc sizeof_xi_mqtt_message (tmem s) = (p, m1)" by fastforce
  have g: "granted (tmem s)" using s(2) by (simp add: codec_up_def)
  then have p: "p \<noteq> NULL" "p \<notin> live_blocks (tmem s)" "live_blocks m1 = insert p (live_blocks (tmem s))" "granted m1"
    using a xi_alloc_mem_ok [OF a]
    by (auto simp: granted_def xi_alloc_def sizeof_xi_mqtt_message_def PTRDIFF_MAX_def mem_ok_def split: if_splits)
  define s1 where "s1 = s\<lparr>tmem := m1, mqtt_messages := (mqtt_messages s)(p := empty_message p),
      codec_data := (codec_data s)\<lparr>codec_msg := p, codec_parser := xi_mqtt_parser_init (codec_parser (codec_data s))\<rparr>\<rparr>"
  have s1: "tmem s1 = m1" "mqtt_messages s1 = (mqtt_messages s)(p := empty_message p)" "data_descs s1 = data_descs s"
    "codec_data s1 = (codec_data s)\<lparr>codec_msg := p, codec_parser := xi_mqtt_parser_init (codec_parser (codec_data s))\<rparr>"
    "parser_static s1 = parser_static s" "layer_context s1 = layer_context s" "prev_context s1 = prev_context s"
    "io_context s1 = io_context s" "codec_layer_state s1 = codec_layer_state s" "codec_user_data s1 = codec_user_data s"
    "call_queue s1 = call_queue s"
    by (simp_all add: s1_def)
  let ?B = "desc_blocks (Some (data_descs s b))"
  have B: "?B \<subseteq> live_blocks (tmem s)" using s(3) by (simp add: buffer_at_def)
  have lv: "live s1 a" if "live s a" for a using that p(3) s1 by (simp add: live_def)
  have "pull_one b XI_STATE_OK s = pull_parse b XI_STATE_OK s1"
    using s(1) a p(1) by (simp add: pull_one_def between_packets_def alloc_codec_msg_def alloc_message_def s1_def)
  moreover have "parser_of s1 d = fresh_parse (codec_parser (codec_data s)) p d (parser_static s) m1" for d
    using s1 by (simp add: parser_of_def fresh_parse_def)
  then have "\<forall>d. will_read (parser_of s1 d) (wire m) m" using fresh_will_read [OF s(4)] by simp
  then have "reading s1 b (wire m) m"
    using s(2,3) wire_length [OF s(4)] lv p B s1
    by (auto simp: reading_def codec_up_def codec_shut_down_def buffer_at_def live_def)
  moreover have "spared s1 b a" "mqtt_messages s1 a = mqtt_messages s a" if "spared s b a" for a
    using that p(2) lv [of a] s1 by (auto simp: spared_def live_def)
  moreover from this have "spares s b s1" using s1 by (simp add: spares_def spared_def)
  moreover have "posts s [] s1" using s1 by (simp add: posts_def)
  ultimately show thesis using that [of s1] s1(3) by blast
qed

lemma posts_trans: "posts s hs t \<Longrightarrow> posts t ks u \<Longrightarrow> posts s (hs @ ks) u"
  unfolding posts_def by (metis append.assoc map_append)

lemma in_packet_reading:
  assumes "in_packet s r m" "codec_up s" "buffer_at s b" "deliverable m"
  shows "pull_one b XI_STATE_OK s = pull_parse b XI_STATE_OK s" "reading s b r m"
  using assms wire_length [of m] by (auto simp: in_packet_def reading_def pull_one_def)

text \<open>
  One call of \<open>pull\<close>. The packets that are complete with this buffer are handed over, the state
  after it waits for the others.
\<close>

lemma pull_calls:
  assumes up: "codec_up s"
  shows "xi_mqtt_codec_layer_pull (prev_context s) b XI_STATE_OK s =
    (case pull_one b XI_STATE_OK s of None \<Rightarrow> None | Some (Inl r) \<Rightarrow> Some r
     | Some (Inr s1) \<Rightarrow> xi_mqtt_codec_layer_pull (prev_context s) b XI_STATE_OK s1)"
  using up by (subst xi_mqtt_codec_layer_pull.simps)
    (simp add: codec_up_def codec_context_def split: option.splits sum.splits)

lemma spares_trans:
  assumes "spares s b t" "spares t b u" "\<And>a. spared s b a \<Longrightarrow> spared t b a"
  shows "spares s b u"
  using assms unfolding spares_def by auto

definition pulled ::
    "('g, 'z) xi_mqtt_stack_scheme \<Rightarrow> addr \<Rightarrow> byte list \<Rightarrow> xi_mqtt_message list \<Rightarrow> ('g, 'z) xi_mqtt_stack_scheme \<Rightarrow> nat
       \<Rightarrow> 'g stack_fn logic_handle list \<Rightarrow> bool" where
  "pulled s b bs ms v k hs \<longleftrightarrow> xi_mqtt_codec_layer_pull (prev_context s) b XI_STATE_OK s = Some (XI_STATE_OK, v)
     \<and> awaits v bs (drop k ms) \<and> k \<le> length ms \<and> posts s hs v \<and> list_all2 (hands_over v) (take k ms) hs
     \<and> codec_up v \<and> spares s b v"

lemma pull_reading:
  fixes s s1 :: "('g, 'z) xi_mqtt_stack_scheme"
  assumes one: "pull_one b XI_STATE_OK s = pull_parse b XI_STATE_OK s1" "codec_up s" and r: "reading s1 b r m"
    and same: "posts s [] s1" "spares s b s1" "\<And>a. spared s b a \<Longrightarrow> spared s1 b a"
    and bytes: "rest (data_descs s1 b) @ bs = r @ concat (map wire ms)"
    and IH: "\<And>t :: ('g, 'z) xi_mqtt_stack_scheme. awaits t (rest (data_descs t b) @ bs) ms \<Longrightarrow> codec_up t \<Longrightarrow> buffer_at t b \<Longrightarrow> \<exists>v k hs. pulled t b bs ms v k hs"
  shows "\<exists>v k hs. pulled s b bs (m # ms) v k hs"
proof -
  consider (on) r' where "r = rest (data_descs s1 b) @ r'" "r' \<noteq> []" "bs = r' @ concat (map wire ms)"
    | (past) tail where "rest (data_descs s1 b) = r @ tail" "tail @ bs = concat (map wire ms)"
  proof -
    obtain us where "rest (data_descs s1 b) = r @ us \<and> us @ bs = concat (map wire ms)
        \<or> rest (data_descs s1 b) @ us = r \<and> bs = us @ concat (map wire ms)"
      using bytes by (auto simp: append_eq_append_conv2)
    then show thesis using on [of us] past [of us] past [of "[]"] by (cases "us = []") auto
  qed
  then show ?thesis
  proof cases
    case on
    obtain v where v: "pull_parse b XI_STATE_OK s1 = Some (Inl (XI_STATE_OK, v))" "in_packet v r' m" "codec_up v" "posts s1 [] v"
      "spares s1 b v"
      by (rule pull_parse_on [OF r on(1,2)], rule that)
    have "xi_mqtt_codec_layer_pull (prev_context s) b XI_STATE_OK s = Some (XI_STATE_OK, v)"
      by (simp add: pull_calls [OF one(2)] one(1) v(1))
    moreover have "awaits v bs (m # ms)" using v(2) on(3) by (auto simp: awaits_def)
    moreover have "posts s [] v" using posts_trans [OF same(1) v(4)] by simp
    moreover have "spares s b v" using same(2) v(5) same(3) by (rule spares_trans)
    ultimately have "pulled s b bs (m # ms) v 0 []" using v(3) by (simp add: pulled_def)
    then show ?thesis by blast
  next
    case (past tail)
    from r past(1) show ?thesis
    proof (cases rule: pull_parse_done)
      case (last v h)
      have "xi_mqtt_codec_layer_pull (prev_context s) b XI_STATE_OK s = Some (XI_STATE_OK, v)"
        by (simp add: pull_calls [OF one(2)] one(1) last(2))
      moreover have "awaits v bs ms" using last(1,3) past(2) by (simp add: awaits_def)
      moreover have "posts s [h] v" using posts_trans [OF same(1) last(5)] by simp
      moreover have "spares s b v" using same(2) last(7) same(3) by (rule spares_trans)
      ultimately have "pulled s b bs (m # ms) v 1 [h]" using last(4,6) by (simp add: pulled_def)
      then show ?thesis by blast
    next
      case (more t h)
      let ?p = "codec_msg (codec_data s1)"
      have "awaits t (rest (data_descs t b) @ bs) ms" using more(3,9) past(2) by (simp add: awaits_def)
      then obtain v k hs where v: "pulled t b bs ms v k hs" using IH more(4,8) by blast
      have blocks: "desc_blocks (Some (data_descs t b)) = desc_blocks (Some (data_descs s1 b))"
        using same_buffer_blocks [OF more(10)] by simp
      have st: "spared t b a" if "spared s1 b a" for a
        using more(7) that blocks more(3) unfolding spares_def by (auto simp: spared_def between_packets_def)
      have ctx: "prev_context t = prev_context s" using same(2) more(7) by (simp add: spares_def)
      have tv: "spares t b v" using v by (simp add: pulled_def)
      have "live v ?p \<and> mqtt_messages v ?p = mqtt_messages t ?p" "layer_context v = layer_context t"
        using tv more(12) unfolding spares_def by blast+
      then have "hands_over v m h"
        using more(11,13) unfolding hands_over_def by (intro exI [of _ ?p]) (simp add: pull_handle_def)
      moreover have "xi_mqtt_codec_layer_pull (prev_context s) b XI_STATE_OK s = Some (XI_STATE_OK, v)"
        using v ctx by (simp add: pull_calls [OF one(2)] one(1) more(2) pulled_def)
      moreover have "posts s (h # hs) v"
        using posts_trans [OF posts_trans [OF same(1) more(5)], of hs v] v by (simp add: pulled_def)
      moreover have "spares s b v" using same(2) spares_trans [OF more(7) tv st] same(3) by (rule spares_trans)
      ultimately have "pulled s b bs (m # ms) v (Suc k) (h # hs)" using v by (simp add: pulled_def)
      then show ?thesis by blast
    qed
  qed
qed

lemma pull_buffer:
  fixes s :: "('g, 'z) xi_mqtt_stack_scheme"
  assumes "awaits s (rest (data_descs s b) @ bs) ms" "codec_up s" "buffer_at s b" "\<forall>m \<in> set ms. deliverable m"
  shows "\<exists>v k hs. pulled s b bs ms v k hs"
  using assms
proof (induct ms arbitrary: s)
  case Nil
  then show ?case by (auto simp: awaits_def buffer_at_def)
next
  case (Cons m ms)
  have m: "deliverable m" and IH: "\<And>t :: ('g, 'z) xi_mqtt_stack_scheme. awaits t (rest (data_descs t b) @ bs) ms \<Longrightarrow> codec_up t \<Longrightarrow> buffer_at t b
      \<Longrightarrow> \<exists>v k hs. pulled t b bs ms v k hs"
    using Cons.prems(4) Cons.hyps by auto
  consider (between) "between_packets s" "rest (data_descs s b) @ bs = wire m @ concat (map wire ms)"
    | (within) r where "in_packet s r m" "rest (data_descs s b) @ bs = r @ concat (map wire ms)"
    using Cons.prems(1) by (auto simp: awaits_def)
  then show ?case
  proof cases
    case between
    obtain s1 where s1: "pull_one b XI_STATE_OK s = pull_parse b XI_STATE_OK s1" "reading s1 b (wire m) m"
      "data_descs s1 = data_descs s" "posts s [] s1" "spares s b s1" "\<And>a. spared s b a \<Longrightarrow> spared s1 b a"
      by (rule pull_start [OF between(1) Cons.prems(2,3) m], rule that)
    show ?thesis
      by (rule pull_reading [OF s1(1) Cons.prems(2) s1(2,4-6) _ IH]) (use between(2) s1(3) in simp_all)
  next
    case within
    note r = in_packet_reading [OF within(1) Cons.prems(2,3) m]
    show ?thesis
      by (rule pull_reading [OF r(1) Cons.prems(2) r(2) _ _ _ within(2) IH])
        (simp_all add: posts_def spares_def spared_def)
  qed
qed

section \<open>A connection\<close>

text \<open>The rest of the program, the sending half of the layer included, leaves the receiving half alone.\<close>

definition undisturbed :: "('g, 'z) xi_mqtt_stack_scheme \<Rightarrow> ('g, 'z) xi_mqtt_stack_scheme \<Rightarrow> bool" where
  "undisturbed t u \<longleftrightarrow> codec_msg (codec_data u) = codec_msg (codec_data t)
     \<and> codec_parser (codec_data u) = codec_parser (codec_data t)
     \<and> codec_local_state (codec_data u) = codec_local_state (codec_data t)
     \<and> pull_cs (codec_data u) = pull_cs (codec_data t) \<and> parser_static u = parser_static t
     \<and> (codec_msg (codec_data t) \<noteq> NULL \<longrightarrow> live u (codec_msg (codec_data t))
          \<and> mqtt_messages u (codec_msg (codec_data t)) = mqtt_messages t (codec_msg (codec_data t)))"

lemma awaits_undisturbed:
  assumes a: "awaits t bs ms" and k: "undisturbed t u"
  shows "awaits u bs ms"
proof -
  have "in_packet u r m" if p: "in_packet t r m" for r m
  proof -
    have "codec_msg (codec_data t) \<noteq> NULL" using p by (simp add: in_packet_def live_def)
    then have same: "live u (codec_msg (codec_data t))"
      "mqtt_messages u (codec_msg (codec_data t)) = mqtt_messages t (codec_msg (codec_data t))"
      using k by (simp_all add: undisturbed_def)
    have "parser_of u d = (parser_of t d)\<lparr>input := d, memory := tmem u\<rparr>" for d
      using k same(2) by (simp add: parser_of_def undisturbed_def)
    then show ?thesis using p k same by (simp add: in_packet_def undisturbed_def)
  qed
  moreover have "between_packets t \<Longrightarrow> between_packets u" using k by (simp add: between_packets_def undisturbed_def)
  ultimately show ?thesis using a unfolding awaits_def by blast
qed

text \<open>The calls of \<open>pull\<close> on a connection, each with the state before it, its buffer and the state after it.\<close>

inductive pull_history ::
    "('g, 'z) xi_mqtt_stack_scheme
       \<Rightarrow> (('g, 'z) xi_mqtt_stack_scheme \<times> addr \<times> ('g, 'z) xi_mqtt_stack_scheme) list
       \<Rightarrow> ('g, 'z) xi_mqtt_stack_scheme \<Rightarrow> bool" where
  pull_begin: "pull_history s [] s"
| pull_next: "pull_history s h t \<Longrightarrow> undisturbed t u \<Longrightarrow> codec_up u \<Longrightarrow> buffer_at u b
    \<Longrightarrow> xi_mqtt_codec_layer_pull (prev_context u) b XI_STATE_OK u = Some (r, v)
    \<Longrightarrow> pull_history s (h @ [(u, b, v)]) v"

definition received_bytes ::
    "(('g, 'z) xi_mqtt_stack_scheme \<times> addr \<times> ('g, 'z) xi_mqtt_stack_scheme) list \<Rightarrow> byte list" where
  "received_bytes h = concat (map (\<lambda>(u, b, v). rest (data_descs u b)) h)"

text \<open>The number of packets that are complete after \<open>n\<close> bytes.\<close>

fun complete :: "xi_mqtt_message list \<Rightarrow> nat \<Rightarrow> nat" where
  "complete [] n = 0"
| "complete (m # ms) n = (if length (wire m) \<le> n then Suc (complete ms (n - length (wire m))) else 0)"

text \<open>What one call delivers.\<close>

definition delivers ::
    "('g, 'z) xi_mqtt_stack_scheme \<times> addr \<times> ('g, 'z) xi_mqtt_stack_scheme \<Rightarrow> xi_mqtt_message list \<Rightarrow> bool" where
  "delivers c ms \<longleftrightarrow> (case c of (u, b, v) \<Rightarrow> \<exists>hs. posts u hs v \<and> list_all2 (hands_over v) ms hs)"

lemma complete_awaits:
  assumes "awaits t bs (drop k ms)" "k \<le> length ms" "xs @ bs = concat (map wire ms)" "\<forall>m \<in> set ms. deliverable m"
  shows "complete ms (length xs) = k"
proof -
  have len: "length xs + length bs = length (concat (map wire ms))" using assms(3) by (metis length_append)
  have "complete ms n = k"
    if "k \<le> length ms" "n + r = length (concat (map wire ms))" "\<forall>m \<in> set ms. deliverable m"
      "drop k ms = [] \<and> r = 0 \<or> (\<exists>m ms'. drop k ms = m # ms' \<and> (\<exists>l. 0 < l \<and> l \<le> length (wire m) \<and> r = l + length (concat (map wire ms'))))"
    for n r
    using that
  proof (induct ms arbitrary: k n)
    case Nil
    then show ?case by simp
  next
    case (Cons m ms)
    show ?case
    proof (cases k)
      case 0
      then have "n < length (wire m)" using Cons.prems(2,4) by auto
      then show ?thesis using 0 by simp
    next
      case (Suc j)
      have "length (concat (map wire ms)) \<ge> r"
      proof -
        have "length (concat (map wire (drop j ms))) \<le> length (concat (map wire ms))"
          by (metis append_take_drop_id concat_append length_append le_add2 map_append)
        moreover have "r \<le> length (concat (map wire (drop j ms)))" using Cons.prems(4) Suc by auto
        ultimately show ?thesis by simp
      qed
      then have le: "length (wire m) \<le> n" using Cons.prems(2) by simp
      have "complete ms (n - length (wire m)) = j"
        using Cons.prems Suc le by (intro Cons.hyps) auto
      then show ?thesis using le Suc by simp
    qed
  qed
  note count = this [OF assms(2) len assms(4)]
  show ?thesis
    using assms(1) unfolding awaits_def
  proof (elim disjE conjE exE)
    assume "bs = concat (map wire (drop k ms))"
    moreover have "\<forall>m \<in> set (drop k ms). wire m \<noteq> []"
      using wire_length assms(4) by (auto dest!: in_set_dropD)
    ultimately show ?thesis by (intro count) (cases "drop k ms", auto)
  next
    fix r
    assume "drop k ms \<noteq> []" "in_packet t r (hd (drop k ms))" "bs = r @ concat (map wire (tl (drop k ms)))"
    then show ?thesis
      by (intro count) (cases "drop k ms", auto simp: in_packet_def)
  qed
qed

lemma history_awaits:
  assumes "pull_history s h t" "between_packets s" "\<forall>m \<in> set ms. deliverable m"
  shows "received_bytes h @ bs = concat (map wire ms) \<Longrightarrow>
    \<exists>k mss. k \<le> length ms \<and> awaits t bs (drop k ms) \<and> concat mss = take k ms \<and> list_all2 delivers h mss"
  using assms
proof (induct arbitrary: bs rule: pull_history.induct)
  case (pull_begin s)
  then show ?case by (intro exI [of _ 0] exI [of _ "[]"]) (simp add: received_bytes_def awaits_def)
next
  case (pull_next s h t u b r v)
  let ?x = "rest (data_descs u b)"
  have "received_bytes h @ (?x @ bs) = concat (map wire ms)" using pull_next.prems(1) by (simp add: received_bytes_def)
  then obtain k mss where k: "k \<le> length ms" "awaits t (?x @ bs) (drop k ms)" "concat mss = take k ms" "list_all2 delivers h mss"
    using pull_next.hyps(2) pull_next.prems(2,3) by blast
  have "\<forall>m \<in> set (drop k ms). deliverable m" using pull_next.prems(3) by (meson in_set_dropD)
  then obtain v' j hs where p: "pulled u b bs (drop k ms) v' j hs"
    using pull_buffer [OF awaits_undisturbed [OF k(2) pull_next.hyps(3)] pull_next.hyps(4,5)] by blast
  then have v: "v' = v" using pull_next.hyps(6) by (simp add: pulled_def)
  have "delivers (u, b, v) (take j (drop k ms))" using p v by (auto simp: delivers_def pulled_def)
  then have "list_all2 delivers (h @ [(u, b, v)]) (mss @ [take j (drop k ms)])"
    using k(4) by (simp add: list_all2_appendI)
  moreover have "concat (mss @ [take j (drop k ms)]) = take (k + j) ms" using k(3) by (simp add: take_add)
  moreover have "awaits v bs (drop (k + j) ms)" "j \<le> length ms - k"
    using p v by (simp_all add: pulled_def add.commute)
  moreover from this(2) have "k + j \<le> length ms" using k(1) by linarith
  ultimately show ?case by blast
qed


text \<open>A CONNACK and the beginning of a PUBACK in one buffer.\<close>

definition connack_example :: xi_mqtt_message where
  "connack_example = (empty_message 1)\<lparr>common_value := 0x20\<rparr>"

definition puback_example :: xi_mqtt_message where
  "puback_example = (empty_message 1)\<lparr>common_value := 0x40, message_id := 258\<rparr>"

definition codec_example :: "nat xi_mqtt_stack" where
  "codec_example = \<lparr>
     tv = \<lparr>vec_block = 1, array_block = 2, array = [0, 0], elem_no = 0, capacity = 2,
           memory_type = XI_MEMORY_TYPE_MANAGED\<rparr>,
     tevs = (\<lambda>p. \<lparr>event_handle = xi_make_empty_handle_impl 0, time_of_execution = 0, position = 0,
        time_event_handle = 0\<rparr>),
     handles = (\<lambda>c. NULL),
     tmem = \<lparr>alloc_script = [], next_block = 80, live_blocks = {1, 2, 6, 7, 8, 10, 11, 70, 71}\<rparr>,
     evtd_block = 6, current_step = 1000, call_queue = [],
     handles_and_socket_fd = \<lparr>vec_block = 7, array_block = 8, array = [0, 0], elem_no = 0, capacity = 2,
           memory_type = XI_MEMORY_TYPE_MANAGED\<rparr>,
     handles_and_file_fd = \<lparr>vec_block = 10, array_block = 11, array = [0, 0], elem_no = 0, capacity = 2,
           memory_type = XI_MEMORY_TYPE_MANAGED\<rparr>,
     fd_tuples = (\<lambda>_. \<lparr>fd = 5, handle = xi_make_empty_handle_impl 0, read_handle = xi_make_empty_handle_impl 0,
           event_type = XI_EVENT_WANT_READ, fd_type = XI_EVTD_FD_TYPE_SOCKET\<rparr>),
     on_empty = xi_make_empty_handle_impl 0, stop = 0,
     next_update = 100, backoff_lut = None, decay_lut = None, backoff_class = XI_BACKOFF_CLASS_NONE,
     backoff_lut_i = 0,
     layer_context = 60, prev_context = 61, next_context = 62, layer_state = XI_LAYER_STATE_CONNECTED,
     user_data = 63,
     layer_data = \<lparr>q12_tasks_queue = [], q12_recv_tasks_queue = [], q0_tasks_queue = [],
        current_q0_task = NULL, handlers_for_topics = None, last_msg_id = 0\<rparr>,
     io_timeouts = \<lparr>vec_block = 64, array_block = 65, array = [0, 0], elem_no = 0, capacity = 2,
           memory_type = XI_MEMORY_TYPE_MANAGED\<rparr>,
     connection_data = \<lparr>conn_username = None, conn_password = None, connection_timeout = 30,
        keepalive_timeout = 20, connection_state = XI_CONNECTION_STATE_OPENED,
        session_type = XI_SESSION_CONTINUE, conn_will_topic = None, conn_will_message = None,
        will_qos = XI_MQTT_QOS_AT_MOST_ONCE, will_retain = XI_MQTT_RETAIN_FALSE\<rparr>,
     copy_of_handlers_for_topics = None, copy_of_q12_unacked_messages_queue = [], copy_of_last_msg_id = 0,
     logic_tasks = (\<lambda>p. zero_task), task_data = (\<lambda>p. Publish_Data None None XI_MQTT_RETAIN_FALSE),
     mqtt_messages = (\<lambda>p. empty_message p), written_data = (\<lambda>_. (0, 0)),
     io_context = 66, codec_layer_state = XI_LAYER_STATE_CONNECTED, codec_user_data = 67,
     codec_data = zero_codec_data,
     codec_tasks = (\<lambda>p. \<lparr>task_msg = NULL, task_msg_id = 0, task_msg_type = 0\<rparr>),
     data_descs = (\<lambda>p. bytes_desc p [0x20, 2, 0, 0, 0x40]), parser_static = XI_STATE_OK\<rparr>"

lemma deliverable_short:
  assumes "msg_type m = ty" "length (body_bytes m) + length (payload m) \<le> 268435455"
    "ty = 2 \<or> ty = 4"
    "protocol_name m = None" "client_id m = None" "will_topic m = None" "will_message m = None" "username m = None"
    "password m = None" "topic_name m = None" "publish_content m = None" "topics m = None"
  shows "deliverable m"
proof -
  have "str None = []" by (simp add: str_def)
  then show ?thesis
    using assms by (auto simp: deliverable_def fields_ok_def str_ok_def fields_present_def parsable_def ends_in_bytes_def)
qed

lemma codec_example_facts:
  "between_packets codec_example" "codec_up codec_example" "buffer_at codec_example 70"
  "\<forall>m \<in> set [connack_example, puback_example]. deliverable m"
  "rest (data_descs codec_example 70) = [0x20, 2, 0, 0, 0x40]"
  "wire connack_example = [0x20, 2, 0, 0]" "wire puback_example = [0x40, 2, 1, 2]" "prev_context codec_example = 61"
proof -
  show "between_packets codec_example" by (simp add: between_packets_def codec_example_def zero_codec_data_def)
  show "codec_up codec_example"
    by (simp add: codec_up_def codec_example_def codec_shut_down_def XI_THIS_LAYER_NOT_OPERATIONAL_def granted_def mem_ok_def)
  show r: "rest (data_descs codec_example 70) = [0x20, 2, 0, 0, 0x40]"
    using bytes_desc_arrives [of "[0x20, 2, 0, 0, 0x40]" 70] by (simp add: codec_example_def)
  have "src_ok (data_descs codec_example 70)"
    using bytes_desc_arrives [of "[0x20, 2, 0, 0, 0x40]" 70] by (simp add: codec_example_def)
  then show "buffer_at codec_example 70"
    using r by (simp add: buffer_at_def) (simp add: codec_example_def live_def bytes_desc_def desc_blocks_def zero_codec_data_def)
  show "wire connack_example = [0x20, 2, 0, 0]" "wire puback_example = [0x40, 2, 1, 2]" by code_simp+
  have t: "msg_type connack_example = 2" "msg_type puback_example = 4"
    "length (body_bytes connack_example) + length (payload connack_example) = 2"
    "length (body_bytes puback_example) + length (payload puback_example) = 2" by code_simp+
  have "deliverable connack_example"
    by (rule deliverable_short [OF t(1)]) (simp_all add: t(3), simp_all add: connack_example_def empty_message_def)
  moreover have "deliverable puback_example"
    by (rule deliverable_short [OF t(2)]) (simp_all add: t(4), simp_all add: puback_example_def empty_message_def)
  ultimately show "\<forall>m \<in> set [connack_example, puback_example]. deliverable m" by simp
  show "prev_context codec_example = 61" by (simp add: codec_example_def)
qed


end
