(* ===== verification/Mqtt_Codec_Push.thy ===== *)
theory Mqtt_Codec_Push
  imports Mqtt_Codec_Pull
begin

text \<open>
  The sending half of the MQTT codec layer. Against a sender with a queue of packets: a message
  that is pushed is sent at once when nothing is being sent, and waits otherwise; it is sent as
  one buffer, and the payload of a publication as a second one; when the last of its buffers has
  been written, or one of them could not be, the message is freed, the logic layer is told, and
  the next message is sent.
\<close>

section \<open>The sender\<close>

datatype sending = Idle | Header | Payload

text \<open>What is posted: a buffer to the layer below, a confirmation to the logic layer.\<close>

datatype posted = Buffer "byte list" | Told "16 word" nat xi_state

type_synonym sender = "sending \<times> xi_mqtt_message list"

definition header_bytes :: "xi_mqtt_message \<Rightarrow> byte list" where
  "header_bytes m = packet_bytes m (length (body_bytes m) + length (payload m))"

lemma wire_header: "wire m = header_bytes m @ payload m"
  by (simp add: wire_def header_bytes_def)

fun sender_next :: "xi_mqtt_message list \<Rightarrow> sending \<times> posted list" where
  "sender_next [] = (Idle, [])"
| "sender_next (m # ms) = (Header, [Buffer (header_bytes m)])"

datatype sender_event = Push_Message xi_mqtt_message | Confirm xi_state

fun sender_step :: "sender_event \<Rightarrow> sender \<Rightarrow> (sender \<times> posted list) option" where
  "sender_step (Push_Message m) (ph, ms) =
     (if ph = Idle then Some ((Header, [m]), [Buffer (header_bytes m)]) else Some ((ph, ms @ [m]), []))"
| "sender_step (Confirm st) (ph, []) = None"
| "sender_step (Confirm st) (ph, m # ms) =
     (if ph = Header \<and> st = XI_STATE_WRITTEN \<and> payload m \<noteq> []
      then Some ((Payload, m # ms), [Buffer (payload m)])
      else let (ph', out) = sender_next ms
           in Some ((ph', ms), Told (xi_mqtt_get_message_id m) (msg_type m) st # out))"

section \<open>The layer\<close>

definition codec_sendable :: "xi_mqtt_message \<Rightarrow> bool" where
  "codec_sendable m \<longleftrightarrow> known_type (msg_type m) \<and> fields_ok m \<and> fields_present m \<and> message_known m
     \<and> length (body_bytes m) + length (payload m) \<le> 268435455
     \<and> (payload m \<noteq> [] \<longrightarrow> data_ptr (the (publish_content m)) \<noteq> NULL)"

definition sender_up :: "('g, 'z) xi_mqtt_stack_scheme \<Rightarrow> bool" where
  "sender_up s \<longleftrightarrow> codec_up s \<and> io_context s \<noteq> NULL"

text \<open>The blocks of a task, and what a task that waits is.\<close>

definition codec_task_blocks :: "('g, 'z) xi_mqtt_stack_scheme \<Rightarrow> addr \<Rightarrow> addr set" where
  "codec_task_blocks s p = insert p (message_blocks (mqtt_messages s (task_msg (codec_tasks s p))))"

definition waits :: "('g, 'z) xi_mqtt_stack_scheme \<Rightarrow> addr \<Rightarrow> xi_mqtt_message \<Rightarrow> bool" where
  "waits s p m \<longleftrightarrow> live s p \<and> live s (task_msg (codec_tasks s p))
     \<and> mqtt_messages s (task_msg (codec_tasks s p)) = m \<and> message_block m = task_msg (codec_tasks s p)
     \<and> task_msg_id (codec_tasks s p) = xi_mqtt_get_message_id m \<and> task_msg_type (codec_tasks s p) = msg_type m
     \<and> codec_sendable m \<and> codec_task_blocks s p \<subseteq> live_blocks (tmem s) \<and> p \<notin> message_blocks m"

fun tasks_apart :: "('a \<Rightarrow> addr set) \<Rightarrow> 'a list \<Rightarrow> bool" where
  "tasks_apart f [] = True"
| "tasks_apart f (p # ps) = ((\<forall>q \<in> set ps. f p \<inter> f q = {}) \<and> tasks_apart f ps)"

fun phase_ok :: "sending \<Rightarrow> nat \<Rightarrow> bool" where
  "phase_ok Idle c = (c \<le> 2)"
| "phase_ok Header c = (c = 149)"
| "phase_ok Payload c = (c = 182)"

text \<open>The layer's state stands for that of the sender.\<close>

fun sends :: "('g, 'z) xi_mqtt_stack_scheme \<Rightarrow> sender \<Rightarrow> bool" where
  "sends s (ph, ms) \<longleftrightarrow> phase_ok ph (push_cs (codec_data s)) \<and> (ph = Idle \<longleftrightarrow> ms = [])
     \<and> (ms \<noteq> [] \<longrightarrow> codec_msg_id (codec_data s) = xi_mqtt_get_message_id (hd ms)
          \<and> codec_msg_type (codec_data s) = msg_type (hd ms))
     \<and> list_all2 (waits s) (task_queue (codec_data s)) ms
     \<and> tasks_apart (codec_task_blocks s) (task_queue (codec_data s))"

text \<open>A posted call with its object.\<close>

definition io_push :: "('g, 'z) xi_mqtt_stack_scheme \<Rightarrow> addr \<Rightarrow> 'g stack_fn logic_handle" where
  "io_push s d = xi_make_handle_argc3 0 (Other_Fn (User_Fn (Io_Layer Push))) (io_context s) d XI_STATE_OK"

definition logic_push :: "('g, 'z) xi_mqtt_stack_scheme \<Rightarrow> addr \<Rightarrow> xi_state \<Rightarrow> 'g stack_fn logic_handle" where
  "logic_push s w st = xi_make_handle_argc3 0 (Other_Fn (This_Layer Push)) (layer_context s) w st"

fun carries :: "('g, 'z) xi_mqtt_stack_scheme \<Rightarrow> posted \<Rightarrow> 'g stack_fn logic_handle \<Rightarrow> bool" where
  "carries s (Buffer bs) h \<longleftrightarrow> (\<exists>d. h = io_push s d \<and> live s d \<and> desc_ok (data_descs s d) \<and> contents (data_descs s d) = bs)"
| "carries s (Told i ty st) h \<longleftrightarrow> (\<exists>w. h = logic_push s w st \<and> live s w \<and> written_data s w = (i, ty))"

definition posts_out ::
    "('g, 'z) xi_mqtt_stack_scheme \<Rightarrow> posted list \<Rightarrow> ('g, 'z) xi_mqtt_stack_scheme \<Rightarrow> bool" where
  "posts_out s out t \<longleftrightarrow> (\<exists>hs. posts s hs t \<and> list_all2 (carries t) out hs)"

text \<open>
  \<open>leaves B s t\<close>: of what there was in \<open>s\<close> only the blocks \<open>B\<close> have been touched, and neither the
  messages nor the receiving half.
\<close>

definition leaves :: "addr set \<Rightarrow> ('g, 'z) xi_mqtt_stack_scheme \<Rightarrow> ('g, 'z) xi_mqtt_stack_scheme \<Rightarrow> bool" where
  "leaves B s t \<longleftrightarrow> granted (tmem t) \<and> live_blocks (tmem s) - B \<subseteq> live_blocks (tmem t)
     \<and> mqtt_messages t = mqtt_messages s
     \<and> (\<forall>q \<in> live_blocks (tmem s) - B. codec_tasks t q = codec_tasks s q \<and> data_descs t q = data_descs s q
          \<and> written_data t q = written_data s q)
     \<and> layer_context t = layer_context s \<and> prev_context t = prev_context s \<and> io_context t = io_context s
     \<and> codec_layer_state t = codec_layer_state s \<and> codec_user_data t = codec_user_data s
     \<and> codec_msg (codec_data t) = codec_msg (codec_data s) \<and> codec_parser (codec_data t) = codec_parser (codec_data s)
     \<and> codec_local_state (codec_data t) = codec_local_state (codec_data s)
     \<and> pull_cs (codec_data t) = pull_cs (codec_data s) \<and> parser_static t = parser_static s"

lemma leaves_trans:
  assumes "leaves B s t" "leaves C t u"
  shows "leaves (B \<union> C) s u"
proof -
  have "q \<in> live_blocks (tmem t)" if "q \<in> live_blocks (tmem s) - (B \<union> C)" for q
    using assms(1) that by (auto simp: leaves_def)
  then show ?thesis using assms by (auto simp: leaves_def)
qed

lemma leaves_live: "leaves B s t \<Longrightarrow> live s q \<Longrightarrow> q \<notin> B \<Longrightarrow> live t q"
  by (auto simp: leaves_def live_def)

lemma leaves_up: "leaves B s t \<Longrightarrow> sender_up s \<Longrightarrow> sender_up t"
  by (auto simp: leaves_def sender_up_def codec_up_def codec_shut_down_def)

lemma leaves_waits:
  assumes "leaves B s t" "waits s p m" "codec_task_blocks s p \<inter> B = {}"
  shows "waits t p m" "codec_task_blocks t p = codec_task_blocks s p"
proof -
  have b: "p \<in> codec_task_blocks s p" "task_msg (codec_tasks s p) \<in> codec_task_blocks s p"
    using assms(2) by (auto simp: waits_def codec_task_blocks_def message_blocks_def live_def)
  then have t: "codec_tasks t p = codec_tasks s p" using assms by (auto simp: leaves_def waits_def live_def)
  then show c: "codec_task_blocks t p = codec_task_blocks s p"
    using assms(1) by (simp add: codec_task_blocks_def leaves_def)
  have "live t p" "live t (task_msg (codec_tasks s p))"
    using leaves_live [OF assms(1)] assms(2,3) b by (auto simp: waits_def)
  moreover have "codec_task_blocks s p \<subseteq> live_blocks (tmem t)" using assms by (auto simp: leaves_def waits_def)
  ultimately show "waits t p m" using assms(1,2) t c by (simp add: waits_def leaves_def)
qed

lemma leaves_waiting:
  assumes l: "leaves B s t" and w: "list_all2 (waits s) ps ms" "tasks_apart (codec_task_blocks s) ps"
    and d: "\<forall>p \<in> set ps. codec_task_blocks s p \<inter> B = {}"
  shows "list_all2 (waits t) ps ms" "tasks_apart (codec_task_blocks t) ps"
proof -
  have "list_all2 (waits t) ps ms \<and> tasks_apart (codec_task_blocks t) ps \<and> (\<forall>p \<in> set ps. codec_task_blocks t p = codec_task_blocks s p)"
    using w d by (induct rule: list_all2_induct) (auto simp: leaves_waits [OF l])
  then show "list_all2 (waits t) ps ms" "tasks_apart (codec_task_blocks t) ps" by simp_all
qed

lemma carries_leaves:
  assumes "leaves B s t"
  shows "live s w \<Longrightarrow> written_data s w = (i, ty) \<Longrightarrow> w \<notin> B \<Longrightarrow> carries t (Told i ty st) (logic_push s w st)"
  using assms leaves_live [OF assms, of w] by (auto simp: leaves_def logic_push_def live_def)

section \<open>Steps when memory is granted\<close>

lemma alloc_granted:
  assumes "granted m" "n \<le> PTRDIFF_MAX"
  obtains p m' where "xi_alloc n m = (p, m')" "p \<noteq> NULL" "p \<notin> live_blocks m" "granted m'"
    "live_blocks m' = insert p (live_blocks m)"
proof -
  obtain p m' where a: "xi_alloc n m = (p, m')" by fastforce
  show thesis
    using a assms xi_alloc_mem_ok [OF a]
    by (intro that [OF a]) (auto simp: granted_def xi_alloc_def mem_ok_def split: if_splits)
qed

lemma free_message_granted:
  assumes "live s q" "message_known (mqtt_messages s q)"
  shows "free_message q s = Some (s\<lparr>tmem := release (message_blocks (mqtt_messages s q)) (tmem s)\<rparr>)"
  using assms by (simp add: free_message_def deref_message_def message_free_release) (simp add: live_def)

lemma make_written_granted:
  assumes "granted (tmem s)"
  obtains w m where "make_written_data i ty s = (w, s\<lparr>tmem := m, written_data := (written_data s)(w := (i, ty))\<rparr>)"
    "w \<noteq> NULL" "w \<notin> live_blocks (tmem s)" "granted m" "live_blocks m = insert w (live_blocks (tmem s))"
proof -
  obtain w m where "xi_alloc sizeof_xi_mqtt_written_data (tmem s) = (w, m)" "w \<noteq> NULL" "w \<notin> live_blocks (tmem s)"
    "granted m" "live_blocks m = insert w (live_blocks (tmem s))"
    by (rule alloc_granted [OF assms, of sizeof_xi_mqtt_written_data])
      (simp add: sizeof_xi_mqtt_written_data_def PTRDIFF_MAX_def)
  then show thesis by (intro that [of w m]) (simp_all add: make_written_data_def)
qed

lemma make_empty_desc_fresh:
  assumes m: "granted m" and cap: "0 < cap" "cap < 2 ^ 32"
  obtains d m' where "xi_make_empty_desc_alloc cap m = Some (Some d, m')" "desc_ok d" "contents d = []"
    "desc_length d = 0" "unat (desc_capacity d) = cap" "granted m'" "live_blocks m \<subseteq> live_blocks m'"
    "desc_block d \<noteq> NULL" "desc_block d \<notin> live_blocks m" "desc_block d \<in> live_blocks m'"
proof -
  have c: "unat (of_nat cap :: 32 word) = cap" using cap(2) by (intro of_nat_inverse) simp_all
  have big: "\<not> PTRDIFF_MAX < cap" "\<not> PTRDIFF_MAX < sizeof_xi_data_desc"
    using cap(2) by (simp_all add: PTRDIFF_MAX_def sizeof_xi_data_desc_def)
  let ?d = "(zero_desc (next_block m))\<lparr>data_ptr := Suc (next_block m), data_bytes := replicate cap 0,
              desc_length := 0, desc_capacity := of_nat cap, desc_memory_type := XI_MEMORY_TYPE_MANAGED\<rparr>"
  let ?m = "m\<lparr>next_block := Suc (Suc (next_block m)),
                live_blocks := insert (Suc (next_block m)) (insert (next_block m) (live_blocks m))\<rparr>"
  have nb: "next_block m \<noteq> 0" "next_block m \<notin> live_blocks m" "granted ?m"
    using m by (auto simp: granted_def mem_ok_def)
  have "xi_make_empty_desc_alloc cap m = Some (Some ?d, ?m)"
    using m cap big nb by (simp add: xi_make_empty_desc_alloc_def xi_alloc_def granted_def)
  moreover have "desc_ok ?d" "contents ?d = []" using c by (simp_all add: desc_ok_def contents_def)
  ultimately show thesis using that [of ?d ?m] nb c by (simp add: subset_insertI2 zero_desc_def)
qed

lemma share_buffer_granted:
  assumes "granted m" "bp \<noteq> NULL" "n < 2 ^ 32" "n \<le> length bs"
  obtains d m' where "xi_make_desc_from_buffer_share bp bs n m = Some (Some d, m')" "desc_ok d"
    "contents d = take n bs" "granted m'" "live_blocks m \<subseteq> live_blocks m'"
    "desc_block d \<noteq> NULL" "desc_block d \<notin> live_blocks m" "desc_block d \<in> live_blocks m'"
proof -
  have c: "unat (of_nat n :: 32 word) = n" using assms(3) by (intro of_nat_inverse) simp_all
  obtain q m1 where a: "xi_alloc sizeof_xi_data_desc m = (q, m1)" "q \<noteq> NULL" "q \<notin> live_blocks m" "granted m1"
    "live_blocks m1 = insert q (live_blocks m)"
    by (rule alloc_granted [OF assms(1), of sizeof_xi_data_desc]) (simp add: sizeof_xi_data_desc_def PTRDIFF_MAX_def)
  let ?d = "(zero_desc q)\<lparr>desc_capacity := of_nat n, desc_length := of_nat n, data_ptr := bp,
          data_bytes := bs, desc_memory_type := XI_MEMORY_TYPE_UNMANAGED\<rparr>"
  have "xi_make_desc_from_buffer_share bp bs n m = Some (Some ?d, m1)"
    using a assms(2) by (simp add: xi_make_desc_from_buffer_share_def)
  moreover have "desc_ok ?d" "contents ?d = take n bs" using c assms(4) by (simp_all add: desc_ok_def contents_def)
  ultimately show thesis using that [of ?d m1] a by (auto simp: zero_desc_def)
qed

section \<open>Sending a buffer\<close>

lemma leavesI:
  assumes "granted (tmem t)" "live_blocks (tmem s) - B \<subseteq> live_blocks (tmem t)" "mqtt_messages t = mqtt_messages s"
    "\<And>q. q \<in> live_blocks (tmem s) \<Longrightarrow> q \<notin> B \<Longrightarrow> codec_tasks t q = codec_tasks s q"
    "\<And>q. q \<in> live_blocks (tmem s) \<Longrightarrow> q \<notin> B \<Longrightarrow> data_descs t q = data_descs s q"
    "\<And>q. q \<in> live_blocks (tmem s) \<Longrightarrow> q \<notin> B \<Longrightarrow> written_data t q = written_data s q"
    "layer_context t = layer_context s" "prev_context t = prev_context s" "io_context t = io_context s"
    "codec_layer_state t = codec_layer_state s" "codec_user_data t = codec_user_data s"
    "codec_msg (codec_data t) = codec_msg (codec_data s)" "codec_parser (codec_data t) = codec_parser (codec_data s)"
    "codec_local_state (codec_data t) = codec_local_state (codec_data s)"
    "pull_cs (codec_data t) = pull_cs (codec_data s)" "parser_static t = parser_static s"
  shows "leaves B s t"
  using assms by (simp add: leaves_def)

text \<open>A descriptor that was made is posted to the layer below.\<close>

lemma yield_push_granted:
  assumes d: "granted (tmem s)" "io_context s \<noteq> NULL" "live s p" "desc_ok (data_descs s p)"
  obtains v where "yield_push l p XI_STATE_OK s = (XI_STATE_OK, v)" "leaves {} s v"
    "posts_out s [Buffer (contents (data_descs s p))] v" "codec_data v = (codec_data s)\<lparr>push_cs := l\<rparr>"
    "codec_tasks v = codec_tasks s"
proof -
  let ?s = "s\<lparr>codec_data := (codec_data s)\<lparr>push_cs := l\<rparr>\<rparr>"
  have g: "granted (tmem ?s)" "io_context ?s \<noteq> NULL" using d(1,2) by simp_all
  obtain q m where post: "codec_process (io_context ?s) (User_Fn (Io_Layer Push)) Push p XI_STATE_OK ?s
      = (XI_STATE_OK, ?s\<lparr>tmem := m,
      call_queue := call_queue ?s @ [(q, xi_make_handle_argc3 0 (Other_Fn (User_Fn (Io_Layer Push))) (io_context ?s) p XI_STATE_OK)],
      codec_layer_state := get_next_layer_state Push (codec_layer_state ?s) XI_STATE_OK\<rparr>)"
    "granted m" "live_blocks m = insert q (live_blocks (tmem ?s))"
    by (rule codec_process_granted [OF g, of "User_Fn (Io_Layer Push)" Push p XI_STATE_OK])
  define v where "v = ?s\<lparr>tmem := m, call_queue := call_queue s @ [(q, io_push s p)]\<rparr>"
  have v: "tmem v = m" "call_queue v = call_queue s @ [(q, io_push s p)]" "codec_data v = (codec_data s)\<lparr>push_cs := l\<rparr>"
    "codec_tasks v = codec_tasks s" "data_descs v = data_descs s" "written_data v = written_data s" "mqtt_messages v = mqtt_messages s"
    "layer_context v = layer_context s" "prev_context v = prev_context s" "io_context v = io_context s"
    "codec_layer_state v = codec_layer_state s" "codec_user_data v = codec_user_data s" "parser_static v = parser_static s"
    by (simp_all add: v_def)
  have "yield_push l p XI_STATE_OK s = (XI_STATE_OK, v)"
    using post(1) by (simp add: yield_push_def codec_process_on_prev_def v_def io_push_def)
  moreover have "leaves {} s v" using v post(2,3) by (intro leavesI) auto
  moreover have "carries v (Buffer (contents (data_descs s p))) (io_push s p)"
    using v post(3) d(3,4) by (auto simp: io_push_def live_def intro!: exI [of _ p])
  then have "posts_out s [Buffer (contents (data_descs s p))] v" using v(2) by (auto simp: posts_out_def posts_def intro!: exI [of _ "[io_push s p]"])
  ultimately show thesis using that v by blast
qed

lemma payload_length_eq: "codec_sendable m \<Longrightarrow> payload_length m = length (payload m)"
  by (auto simp: codec_sendable_def payload_length_def payload_def str_def fields_present_def)

text \<open>The beginning of the coroutine: the header of the packet.\<close>

lemma push_send_granted:
  assumes up: "sender_up s" and m: "live s q" "mqtt_messages s q = m" "codec_sendable m"
  obtains v where "push_send q s = Some (XI_STATE_OK, v)" "leaves {} s v" "posts_out s [Buffer (header_bytes m)] v"
    "codec_data v = (codec_data s)\<lparr>codec_msg_id := xi_mqtt_get_message_id m, codec_msg_type := msg_type m, push_cs := 149\<rparr>"
    "codec_tasks v = codec_tasks s"
proof -
  let ?n = "length (body_bytes m) + length (payload m)"
  let ?cap = "length (header_bytes m)"
  have g: "granted (tmem s)" "io_context s \<noteq> NULL" "q \<noteq> NULL" using up m(1) by (simp_all add: sender_up_def codec_up_def live_def)
  have k: "known_type (msg_type m)" "fields_ok m" "fields_present m" "?n \<le> 268435455" using m(3) by (simp_all add: codec_sendable_def)
  note pl = payload_length_eq [OF m(3)]
  have size: "xi_mqtt_serialiser_size True m = Some (XI_STATE_OK, ?cap + length (payload m), ?n, length (payload m))"
    using serialiser_size_spec [OF k(1-3)] k(4) pl by (simp add: header_bytes_def packet_bytes_def)
  have cap: "0 < ?cap" "?cap < 2 ^ 32"
    using length_remaining_length_bytes [OF k(4)] k(4)
    by (auto simp: header_bytes_def packet_bytes_def xi_mqtt_get_remaining_length_bytes_def split: if_splits)
  let ?s1 = "s\<lparr>codec_data := (codec_data s)\<lparr>codec_msg_id := xi_mqtt_get_message_id m, codec_msg_type := msg_type m\<rparr>\<rparr>"
  obtain d m' where d: "xi_make_empty_desc_alloc ?cap (tmem s) = Some (Some d, m')" "desc_ok d" "contents d = []"
    "desc_length d = 0" "unat (desc_capacity d) = ?cap" "granted m'" "live_blocks (tmem s) \<subseteq> live_blocks m'"
    "desc_block d \<noteq> NULL" "desc_block d \<notin> live_blocks (tmem s)" "desc_block d \<in> live_blocks m'"
    by (rule make_empty_desc_fresh [OF g(1) cap])
  obtain e where e: "xi_mqtt_serialiser_write XI_MQTT_ERROR_NONE m d ?n = Some (XI_MQTT_SERIALISER_RC_SUCCESS, XI_MQTT_ERROR_NONE, e)"
    "desc_ok e" "contents e = header_bytes m"
    using serialiser_write_spec [OF k(1-3) d(2), of ?n XI_MQTT_ERROR_NONE] d(3-5) by (auto simp: header_bytes_def)
  define s3 where "s3 = ?s1\<lparr>tmem := m', data_descs := (data_descs s)(desc_block d := e)\<rparr>"
  have s3: "tmem s3 = m'" "data_descs s3 = (data_descs s)(desc_block d := e)" "io_context s3 = io_context s"
    "codec_data s3 = (codec_data s)\<lparr>codec_msg_id := xi_mqtt_get_message_id m, codec_msg_type := msg_type m\<rparr>"
    "codec_tasks s3 = codec_tasks s" "call_queue s3 = call_queue s" "written_data s3 = written_data s"
    "mqtt_messages s3 = mqtt_messages s"
    "layer_context s3 = layer_context s" "prev_context s3 = prev_context s"
    "codec_layer_state s3 = codec_layer_state s" "codec_user_data s3 = codec_user_data s" "parser_static s3 = parser_static s"
    by (simp_all add: s3_def)
  have l: "leaves {} s s3" using s3 d(6-10) by (intro leavesI) auto
  have y: "granted (tmem s3)" "io_context s3 \<noteq> NULL" "live s3 (desc_block d)" "desc_ok (data_descs s3 (desc_block d))"
    using s3 d e g by (simp_all add: live_def)
  obtain v where v: "yield_push 149 (desc_block d) XI_STATE_OK s3 = (XI_STATE_OK, v)" "leaves {} s3 v"
    "posts_out s3 [Buffer (contents (data_descs s3 (desc_block d)))] v" "codec_data v = (codec_data s3)\<lparr>push_cs := 149\<rparr>"
    "codec_tasks v = codec_tasks s3"
    by (rule yield_push_granted [OF y])
  have "push_send q s = Some (XI_STATE_OK, v)"
    using m(1,2) g(3) size d(1,8) e(1) v(1)
    by (simp add: push_send_def deref_message_def keep_desc_def s3_def Let_def)
  moreover have "leaves {} s v" using leaves_trans [OF l v(2)] by simp
  moreover have "posts_out s [Buffer (header_bytes m)] v" using v(3) s3(2,6) e(3) by (simp add: posts_out_def posts_def)
  ultimately show thesis using that v(4,5) s3(4,5) by simp
qed

section \<open>The end of a message\<close>

lemma free_emptied_task:
  assumes "live s p" "task_msg (codec_tasks s p) = NULL"
  shows "xi_mqtt_codec_layer_free_task p s = Some ((put_task_msg p NULL s)\<lparr>tmem := release {p} (tmem s)\<rparr>)"
  using assms by (simp add: xi_mqtt_codec_layer_free_task_def deref_codec_task_def free_message_def put_task_msg_def
      xi_free_release live_def)

lemma put_task_msg_fields [simp]:
  "tmem (put_task_msg p q s) = tmem s" "codec_tasks (put_task_msg p q s) = (codec_tasks s)(p := (codec_tasks s p)\<lparr>task_msg := q\<rparr>)"
  "codec_data (put_task_msg p q s) = codec_data s" "mqtt_messages (put_task_msg p q s) = mqtt_messages s"
  "data_descs (put_task_msg p q s) = data_descs s" "written_data (put_task_msg p q s) = written_data s"
  "layer_context (put_task_msg p q s) = layer_context s" "prev_context (put_task_msg p q s) = prev_context s"
  "io_context (put_task_msg p q s) = io_context s" "codec_layer_state (put_task_msg p q s) = codec_layer_state s"
  "codec_user_data (put_task_msg p q s) = codec_user_data s" "parser_static (put_task_msg p q s) = parser_static s"
  "call_queue (put_task_msg p q s) = call_queue s"
  by (simp_all add: put_task_msg_def)

lemma reattach:
  fixes s :: "('g, 'z) xi_mqtt_stack_scheme"
  assumes "waits s p m"
  shows "xi_mqtt_codec_layer_activate_task p s = Some (task_msg (codec_tasks s p), put_task_msg p NULL s)"
    "xi_mqtt_codec_layer_continue_task p (task_msg (codec_tasks s p))
       ((put_task_msg p NULL s)\<lparr>codec_data := cd\<rparr>) = Some (s\<lparr>codec_data := cd\<rparr>)"
  using assms by (simp_all add: waits_def live_def xi_mqtt_codec_layer_activate_task_def deref_codec_task_def
      xi_mqtt_codec_layer_continue_task_def put_task_msg_def xi_assert_def)

text \<open>The confirmation, with the task freed: the part of \<open>push_finalise\<close> up to the next message.\<close>

lemma confirm_granted:
  assumes up: "sender_up s" and w: "waits s p m"
    and ids: "codec_msg_id (codec_data s) = xi_mqtt_get_message_id m" "codec_msg_type (codec_data s) = msg_type m"
    and st: "st = XI_STATE_WRITTEN \<or> st = XI_STATE_FAILED_WRITING"
  obtains t where "leaves (codec_task_blocks s p) s t" "posts_out s [Told (xi_mqtt_get_message_id m) (msg_type m) st] t"
    "codec_data t = (codec_data s)\<lparr>task_queue := ps\<rparr>"
    "\<And>ctx dat. task_queue (codec_data s) = p # ps \<Longrightarrow> push_finalise ctx dat st s = (case ps of
            [] \<Rightarrow> Some (XI_STATE_OK, t\<lparr>codec_data := (codec_data t)\<lparr>push_cs := 1\<rparr>\<rparr>)
          | q # _ \<Rightarrow> do {
              (msg, s6) \<leftarrow> xi_mqtt_codec_layer_activate_task q t;
              let s7 = s6\<lparr>codec_data := (codec_data s6)\<lparr>push_cs := 1\<rparr>\<rparr>;
              if codec_shut_down s7 then do { s8 \<leftarrow> free_message msg s7; Some (XI_STATE_OK, s8) }
              else push_want_write msg s7 })"
proof -
  let ?q = "task_msg (codec_tasks s p)"
  have g: "granted (tmem s)" "layer_context s \<noteq> NULL" using up by (simp_all add: sender_up_def codec_up_def)
  have q: "live s p" "live s ?q" "mqtt_messages s ?q = m" "codec_sendable m" "p \<notin> message_blocks m" "?q \<noteq> NULL"
    "message_known m" and blk: "codec_task_blocks s p = insert p (message_blocks m)"
    using w by (auto simp: waits_def codec_task_blocks_def live_def codec_sendable_def)
  define s2 where "s2 = put_task_msg p NULL (s\<lparr>tmem := release (message_blocks m) (tmem s)\<rparr>)"
  have free: "free_message ?q s = Some (s\<lparr>tmem := release (message_blocks m) (tmem s)\<rparr>)"
    using free_message_granted [OF q(2)] q(3,7) by simp
  have g2: "granted (tmem s2)" using g(1) by (simp add: s2_def granted_def)
  obtain w m3 where wr: "make_written_data (xi_mqtt_get_message_id m) (msg_type m) s2
      = (w, s2\<lparr>tmem := m3, written_data := (written_data s2)(w := (xi_mqtt_get_message_id m, msg_type m))\<rparr>)"
    "w \<noteq> NULL" "w \<notin> live_blocks (tmem s2)" "granted m3" "live_blocks m3 = insert w (live_blocks (tmem s2))"
    by (rule make_written_granted [OF g2])
  define s3 where "s3 = s2\<lparr>tmem := m3, written_data := (written_data s2)(w := (xi_mqtt_get_message_id m, msg_type m))\<rparr>"
  have g3: "granted (tmem s3)" "layer_context s3 \<noteq> NULL" using wr(4) g(2) by (simp_all add: s3_def s2_def)
  obtain x m4 where post: "codec_process (layer_context s3) (This_Layer Push) Push w st s3 = (XI_STATE_OK, s3\<lparr>tmem := m4,
      call_queue := call_queue s3 @ [(x, xi_make_handle_argc3 0 (Other_Fn (This_Layer Push)) (layer_context s3) w st)],
      codec_layer_state := get_next_layer_state Push (codec_layer_state s3) st\<rparr>)"
    "granted m4" "live_blocks m4 = insert x (live_blocks (tmem s3))"
    by (rule codec_process_granted [OF g3, of "This_Layer Push" Push w st])
  define s4 where "s4 = s3\<lparr>tmem := m4, call_queue := call_queue s3 @ [(x, logic_push s w st)],
      codec_layer_state := codec_layer_state s3, codec_data := (codec_data s3)\<lparr>task_queue := ps\<rparr>\<rparr>"
  define t where "t = (put_task_msg p NULL s4)\<lparr>tmem := release {p} m4\<rparr>"
  have t: "tmem t = release {p} m4" "call_queue t = call_queue s @ [(x, logic_push s w st)]"
    "codec_data t = (codec_data s)\<lparr>task_queue := ps\<rparr>" "data_descs t = data_descs s"
    "written_data t = (written_data s)(w := (xi_mqtt_get_message_id m, msg_type m))" "mqtt_messages t = mqtt_messages s"
    "codec_tasks t = (codec_tasks s)(p := (codec_tasks s p)\<lparr>task_msg := NULL\<rparr>)"
    "layer_context t = layer_context s" "prev_context t = prev_context s" "io_context t = io_context s"
    "codec_layer_state t = codec_layer_state s" "codec_user_data t = codec_user_data s" "parser_static t = parser_static s"
    by (simp_all add: t_def s4_def s3_def s2_def)
  have lb: "live_blocks m4 = insert x (insert w (live_blocks (tmem s) - message_blocks m))"
    using post(3) wr(5) by (simp add: s3_def s2_def)
  have wp: "w \<noteq> p" using wr(3) q(1,5) by (auto simp: s2_def live_def)
  have "leaves (codec_task_blocks s p) s t"
    using t lb blk post(2) wr(3) by (intro leavesI) (auto simp: s2_def granted_def)
  moreover have "carries t (Told (xi_mqtt_get_message_id m) (msg_type m) st) (logic_push s w st)"
    using t lb wr(2) wp by (auto simp: logic_push_def live_def intro!: exI [of _ w])
  then have "posts_out s [Told (xi_mqtt_get_message_id m) (msg_type m) st] t"
    using t(2) by (auto simp: posts_out_def posts_def intro!: exI [of _ "[logic_push s w st]"])
  moreover have "xi_mqtt_codec_layer_free_task p s4 = Some t"
    unfolding t_def using q(1,5) lb
    by (subst free_emptied_task) (simp_all add: s4_def s3_def s2_def live_def)
  then have "push_finalise ctx dat st s = (case ps of
            [] \<Rightarrow> Some (XI_STATE_OK, t\<lparr>codec_data := (codec_data t)\<lparr>push_cs := 1\<rparr>\<rparr>)
          | q # _ \<Rightarrow> do {
              (msg, s6) \<leftarrow> xi_mqtt_codec_layer_activate_task q t;
              let s7 = s6\<lparr>codec_data := (codec_data s6)\<lparr>push_cs := 1\<rparr>\<rparr>;
              if codec_shut_down s7 then do { s8 \<leftarrow> free_message msg s7; Some (XI_STATE_OK, s8) }
              else push_want_write msg s7 })" if "task_queue (codec_data s) = p # ps" for ctx dat
    using that q(1,6) free st wr(1,2) post(1) ids
    unfolding push_finalise_def
    by (simp add: deref_codec_task_def codec_process_on_next_def s2_def s3_def s4_def logic_push_def Let_def)
  ultimately show thesis using that t(3) by blast
qed

lemma posts_out_trans:
  assumes "posts_out s a t" "posts_out t b u" "leaves {} t u"
  shows "posts_out s (a @ b) u"
proof -
  have c: "carries t it h \<Longrightarrow> carries u it h" for it h
    using leaves_live [OF assms(3)] assms(3)
    by (cases it) (fastforce simp: leaves_def io_push_def logic_push_def live_def)+
  have k: "list_all2 (carries u) a hs" if "list_all2 (carries t) a hs" for hs
    by (rule list_all2_mono [OF that c])
  obtain hs ks where "posts s hs t" "list_all2 (carries t) a hs" "posts t ks u" "list_all2 (carries u) b ks"
    using assms(1,2) by (auto simp: posts_out_def)
  then show ?thesis
    unfolding posts_out_def by (intro exI [of _ "hs @ ks"]) (simp add: posts_trans k list_all2_appendI)
qed

text \<open>Changing the coroutine's label only.\<close>

lemma relabel:
  "granted (tmem s) \<Longrightarrow> leaves {} s (s\<lparr>codec_data := (codec_data s)\<lparr>push_cs := c\<rparr>\<rparr>)"
  "posts_out s [] (s\<lparr>codec_data := (codec_data s)\<lparr>push_cs := c\<rparr>\<rparr>)"
  by (simp_all add: leaves_def posts_out_def posts_def)

lemma waits_not_down: "sender_up s \<Longrightarrow> \<not> codec_shut_down (s\<lparr>codec_data := cd, codec_tasks := ct\<rparr>)"
  by (simp add: sender_up_def codec_up_def codec_shut_down_def)

text \<open>The next message of the queue, from \<open>push_finalise\<close>.\<close>

lemma next_message:
  assumes up: "sender_up t" and w: "waits t q m" and tq: "task_queue (codec_data t) = q # qs"
  obtains v where "(do {
              (msg, s6) \<leftarrow> xi_mqtt_codec_layer_activate_task q t;
              let s7 = s6\<lparr>codec_data := (codec_data s6)\<lparr>push_cs := 1\<rparr>\<rparr>;
              if codec_shut_down s7 then do { s8 \<leftarrow> free_message msg s7; Some (XI_STATE_OK, s8) }
              else push_want_write msg s7 }) = Some (XI_STATE_OK, v)"
    "leaves {} t v" "posts_out t [Buffer (header_bytes m)] v"
    "codec_data v = (codec_data t)\<lparr>codec_msg_id := xi_mqtt_get_message_id m, codec_msg_type := msg_type m, push_cs := 149\<rparr>"
    "codec_tasks v = codec_tasks t"
proof -
  let ?q = "task_msg (codec_tasks t q)"
  define u where "u = t\<lparr>codec_data := (codec_data t)\<lparr>push_cs := 1\<rparr>\<rparr>"
  have u: "leaves {} t u" "posts_out t [] u" "codec_data u = (codec_data t)\<lparr>push_cs := 1\<rparr>" "codec_tasks u = codec_tasks t"
    using up relabel [of t 1] by (simp_all add: u_def sender_up_def codec_up_def)
  have q: "live u ?q" "mqtt_messages u ?q = m" "codec_sendable m"
    using w by (simp_all add: waits_def u_def live_def)
  obtain v where v: "push_send ?q u = Some (XI_STATE_OK, v)" "leaves {} u v" "posts_out u [Buffer (header_bytes m)] v"
    "codec_data v = (codec_data u)\<lparr>codec_msg_id := xi_mqtt_get_message_id m, codec_msg_type := msg_type m, push_cs := 149\<rparr>"
    "codec_tasks v = codec_tasks u"
    by (rule push_send_granted [OF leaves_up [OF u(1) up] q])
  have "push_want_write ?q ((put_task_msg q NULL t)\<lparr>codec_data := (codec_data t)\<lparr>push_cs := 1\<rparr>\<rparr>) = push_send ?q u"
    using reattach(2) [OF w, of "(codec_data t)\<lparr>push_cs := 1\<rparr>"] tq by (simp add: push_want_write_def u_def)
  then have "(do {
              (msg, s6) \<leftarrow> xi_mqtt_codec_layer_activate_task q t;
              let s7 = s6\<lparr>codec_data := (codec_data s6)\<lparr>push_cs := 1\<rparr>\<rparr>;
              if codec_shut_down s7 then do { s8 \<leftarrow> free_message msg s7; Some (XI_STATE_OK, s8) }
              else push_want_write msg s7 }) = Some (XI_STATE_OK, v)"
    using reattach(1) [OF w] up v(1)
    by (simp add: Let_def codec_shut_down_def sender_up_def codec_up_def)
  moreover have "leaves {} t v" using leaves_trans [OF u(1) v(2)] by simp
  moreover have "posts_out t [Buffer (header_bytes m)] v" using posts_out_trans [OF u(2) v(3,2)] by simp
  ultimately show thesis using that v(4,5) u(3,4) by simp
qed

lemma task_apart_Cons: "tasks_apart f (p # ps) \<longleftrightarrow> (\<forall>q \<in> set ps. f q \<inter> f p = {}) \<and> tasks_apart f ps"
  by (auto simp: Int_commute)

lemma task_apart_snoc: "tasks_apart f (ps @ [p]) \<longleftrightarrow> tasks_apart f ps \<and> (\<forall>q \<in> set ps. f q \<inter> f p = {})"
  by (induct ps) auto

lemma push_finalise_granted:
  assumes up: "sender_up s" and s: "sends s (ph, m # ms)" and tq: "task_queue (codec_data s) = p # ps"
    and st: "st = XI_STATE_WRITTEN \<or> st = XI_STATE_FAILED_WRITING"
  obtains v where "push_finalise ctx dat st s = Some (XI_STATE_OK, v)" "leaves (codec_task_blocks s p) s v"
    "posts_out s (Told (xi_mqtt_get_message_id m) (msg_type m) st # snd (sender_next ms)) v"
    "sends v (fst (sender_next ms), ms)" "task_queue (codec_data v) = ps"
proof -
  have w: "waits s p m" "list_all2 (waits s) ps ms" "tasks_apart (codec_task_blocks s) ps"
    "\<forall>q \<in> set ps. codec_task_blocks s q \<inter> codec_task_blocks s p = {}"
    and ids: "codec_msg_id (codec_data s) = xi_mqtt_get_message_id m" "codec_msg_type (codec_data s) = msg_type m"
    using s tq by (simp_all add: task_apart_Cons del: tasks_apart.simps(2))
  obtain t where t: "leaves (codec_task_blocks s p) s t" "posts_out s [Told (xi_mqtt_get_message_id m) (msg_type m) st] t"
    "codec_data t = (codec_data s)\<lparr>task_queue := ps\<rparr>"
    and fin: "\<And>ctx dat. push_finalise ctx dat st s = (case ps of
            [] \<Rightarrow> Some (XI_STATE_OK, t\<lparr>codec_data := (codec_data t)\<lparr>push_cs := 1\<rparr>\<rparr>)
          | q # _ \<Rightarrow> do {
              (msg, s6) \<leftarrow> xi_mqtt_codec_layer_activate_task q t;
              let s7 = s6\<lparr>codec_data := (codec_data s6)\<lparr>push_cs := 1\<rparr>\<rparr>;
              if codec_shut_down s7 then do { s8 \<leftarrow> free_message msg s7; Some (XI_STATE_OK, s8) }
              else push_want_write msg s7 })"
    by (rule confirm_granted [OF up w(1) ids st, of ps]) (use tq in blast)
  note wt = leaves_waiting [OF t(1) w(2-4)]
  have upt: "sender_up t" by (rule leaves_up [OF t(1) up])
  show thesis
  proof (cases ps)
    case Nil
    let ?v = "t\<lparr>codec_data := (codec_data t)\<lparr>push_cs := 1\<rparr>\<rparr>"
    have g: "granted (tmem t)" using t(1) by (simp add: leaves_def)
    have "leaves (codec_task_blocks s p) s ?v" using leaves_trans [OF t(1) relabel(1) [OF g]] by simp
    moreover have "posts_out s [Told (xi_mqtt_get_message_id m) (msg_type m) st] ?v"
      using posts_out_trans [OF t(2) relabel(2) relabel(1) [OF g], of 1] by simp
    moreover have "ms = []" using w(2) Nil by simp
    ultimately show thesis using that [of ?v] fin t(3) Nil by simp
  next
    case (Cons q qs)
    then obtain m2 ms2 where ms: "ms = m2 # ms2" "waits t q m2" "list_all2 (waits t) qs ms2"
      using wt(1) by (auto simp: list_all2_Cons1)
    have tq': "task_queue (codec_data t) = q # qs" using t(3) Cons by simp
    obtain v where v: "(do {
              (msg, s6) \<leftarrow> xi_mqtt_codec_layer_activate_task q t;
              let s7 = s6\<lparr>codec_data := (codec_data s6)\<lparr>push_cs := 1\<rparr>\<rparr>;
              if codec_shut_down s7 then do { s8 \<leftarrow> free_message msg s7; Some (XI_STATE_OK, s8) }
              else push_want_write msg s7 }) = Some (XI_STATE_OK, v)"
      "leaves {} t v" "posts_out t [Buffer (header_bytes m2)] v"
      "codec_data v = (codec_data t)\<lparr>codec_msg_id := xi_mqtt_get_message_id m2, codec_msg_type := msg_type m2, push_cs := 149\<rparr>"
      by (rule next_message [OF upt ms(2) tq'])
    have "sends v (Header, ms)"
      using leaves_waiting [OF v(2) wt] v(4) ms(1) t(3) by simp
    moreover have "leaves (codec_task_blocks s p) s v" using leaves_trans [OF t(1) v(2)] by simp
    moreover have "posts_out s (Told (xi_mqtt_get_message_id m) (msg_type m) st # [Buffer (header_bytes m2)]) v"
      using posts_out_trans [OF t(2) v(3,2)] by simp
    ultimately show thesis using that [of v] fin [of ctx dat] v(1,4) t(3) Cons ms(1) by simp
  qed
qed

section \<open>Events\<close>

text \<open>The calls that reach the layer: a message from the logic layer, a confirmation from below.\<close>

fun codec_event ::
    "sender_event \<Rightarrow> addr \<Rightarrow> ('g, 'z) xi_mqtt_stack_scheme \<Rightarrow> ('g, 'z) stack_result" where
  "codec_event (Push_Message m) q s = xi_mqtt_codec_layer_push (prev_context s) q XI_STATE_OK s"
| "codec_event (Confirm st) q s = xi_mqtt_codec_layer_push (prev_context s) NULL st s"

fun codec_offers :: "sender_event \<Rightarrow> addr \<Rightarrow> ('g, 'z) xi_mqtt_stack_scheme \<Rightarrow> bool" where
  "codec_offers (Push_Message m) q s \<longleftrightarrow> live s q \<and> mqtt_messages s q = m \<and> message_block m = q \<and> codec_sendable m
     \<and> message_blocks m \<subseteq> live_blocks (tmem s)
     \<and> (\<forall>p \<in> set (task_queue (codec_data s)). codec_task_blocks s p \<inter> message_blocks m = {})"
| "codec_offers (Confirm st) q s \<longleftrightarrow> (st = XI_STATE_WRITTEN \<or> st = XI_STATE_FAILED_WRITING) \<and> 2 < push_cs (codec_data s)"

text \<open>The blocks an event frees: those of the task whose end it reports.\<close>

fun freed_by :: "posted list \<Rightarrow> ('g, 'z) xi_mqtt_stack_scheme \<Rightarrow> addr set" where
  "freed_by (Told _ _ _ # out) s = codec_task_blocks s (hd (task_queue (codec_data s)))"
| "freed_by out s = {}"

lemma phase_running: "phase_ok ph c \<Longrightarrow> ph \<noteq> Idle \<longleftrightarrow> 2 < c"
  by (cases ph) auto

text \<open>The new task at the end of the queue.\<close>

lemma make_task_granted:
  assumes up: "sender_up s" and s: "sends s (ph, ms)" and m: "codec_offers (Push_Message m) q s"
  obtains p t where "xi_mqtt_codec_layer_make_task q s = Some (p, t)" "p \<noteq> NULL" "leaves {} s t" "call_queue t = call_queue s"
    "codec_data t = codec_data s"
    "list_all2 (waits t) (task_queue (codec_data t) @ [p]) (ms @ [m])" "tasks_apart (codec_task_blocks t) (task_queue (codec_data t) @ [p])"
proof -
  have g: "granted (tmem s)" using up by (simp add: sender_up_def codec_up_def)
  obtain p m' where a: "xi_alloc sizeof_xi_mqtt_codec_layer_task (tmem s) = (p, m')" "p \<noteq> NULL" "p \<notin> live_blocks (tmem s)"
    "granted m'" "live_blocks m' = insert p (live_blocks (tmem s))"
    by (rule alloc_granted [OF g, of sizeof_xi_mqtt_codec_layer_task])
      (simp add: sizeof_xi_mqtt_codec_layer_task_def PTRDIFF_MAX_def)
  define t where "t = s\<lparr>tmem := m', codec_tasks := (codec_tasks s)(p :=
           \<lparr>task_msg = q, task_msg_id = xi_mqtt_get_message_id m, task_msg_type = msg_type m\<rparr>)\<rparr>"
  have t: "tmem t = m'" "codec_data t = codec_data s" "mqtt_messages t = mqtt_messages s"
    "codec_tasks t p = \<lparr>task_msg = q, task_msg_id = xi_mqtt_get_message_id m, task_msg_type = msg_type m\<rparr>"
    by (simp_all add: t_def)
  have "xi_mqtt_codec_layer_make_task q s = Some (p, t)"
    using m a(1,2,5) by (simp add: xi_mqtt_codec_layer_make_task_def deref_message_def live_def t_def xi_assert_def)
  moreover have l: "leaves {} s t" unfolding t_def using a by (intro leavesI) auto
  moreover have blk: "codec_task_blocks t p = insert p (message_blocks m)" using m t by (simp add: codec_task_blocks_def)
  moreover have "waits t p m" using m a blk t by (auto simp: waits_def live_def)
  moreover have wt: "list_all2 (waits t) (task_queue (codec_data t)) ms" "tasks_apart (codec_task_blocks t) (task_queue (codec_data t))"
    using leaves_waiting [OF l, of "task_queue (codec_data s)" ms] s t(2) by simp_all
  moreover have "codec_task_blocks t r \<inter> codec_task_blocks t p = {}" if r: "r \<in> set (task_queue (codec_data t))" for r
  proof -
    obtain mr where "waits s r mr" using s r t(2) by (auto simp: list_all2_conv_all_nth in_set_conv_nth)
    then have "codec_task_blocks t r = codec_task_blocks s r" "codec_task_blocks s r \<subseteq> live_blocks (tmem s)"
      using leaves_waits [OF l] by (auto simp: waits_def)
    then show ?thesis using m r a(3) t(2) blk by auto
  qed
  then have "tasks_apart (codec_task_blocks t) (task_queue (codec_data t) @ [p])"
    using wt(2) by (simp add: task_apart_snoc)
  moreover have "call_queue t = call_queue s" by (simp add: t_def)
  ultimately show thesis using that [of p t] a(2) t(2) by (simp add: list_all2_appendI)
qed

text \<open>The payload of a publication, behind its header.\<close>

lemma payload_granted:
  assumes up: "sender_up s" and s: "sends s (Header, m # ms)" and pay: "payload m \<noteq> []"
  obtains v where "push_header_written ctx dat XI_STATE_WRITTEN s = Some (XI_STATE_OK, v)" "leaves {} s v"
    "posts_out s [Buffer (payload m)] v" "sends v (Payload, m # ms)"
proof -
  obtain p ps where tq: "task_queue (codec_data s) = p # ps" and w: "waits s p m"
    using s by (auto simp: list_all2_Cons2)
  let ?q = "task_msg (codec_tasks s p)"
  have g: "granted (tmem s)" "io_context s \<noteq> NULL" using up by (simp_all add: sender_up_def codec_up_def)
  have m: "live s p" "live s ?q" "mqtt_messages s ?q = m" "codec_sendable m" "?q \<noteq> NULL" using w by (auto simp: waits_def live_def)
  have pub: "msg_type m = XI_MQTT_TYPE_PUBLISH" using pay by (auto simp: payload_def split: if_splits)
  then obtain c where c: "publish_content m = Some c" "desc_ok c" "data_ptr c \<noteq> NULL" "payload m = contents c"
    using m(4) pay by (auto simp: codec_sendable_def payload_def str_def fields_ok_def str_ok_def fields_present_def)
  have len: "0 < desc_length c" "unat (desc_length c) < 2 ^ 32" "unat (desc_length c) \<le> length (data_bytes c)"
    using c(2,4) pay unsigned_less [of "desc_length c", where ?'a = nat]
    by (auto simp: contents_def desc_ok_def word_le_nat_alt word_gt_0)
  obtain d m' where d: "xi_make_desc_from_buffer_share (data_ptr c) (data_bytes c) (unat (desc_length c)) (tmem s) = Some (Some d, m')"
    "desc_ok d" "contents d = take (unat (desc_length c)) (data_bytes c)" "granted m'" "live_blocks (tmem s) \<subseteq> live_blocks m'"
    "desc_block d \<noteq> NULL" "desc_block d \<notin> live_blocks (tmem s)" "desc_block d \<in> live_blocks m'"
    by (rule share_buffer_granted [OF g(1) c(3) len(2,3)])
  define s1 where "s1 = s\<lparr>tmem := m', data_descs := (data_descs s)(desc_block d := d)\<rparr>"
  have s1: "tmem s1 = m'" "data_descs s1 = (data_descs s)(desc_block d := d)" "io_context s1 = io_context s"
    "codec_data s1 = codec_data s" "call_queue s1 = call_queue s" by (simp_all add: s1_def)
  have l: "leaves {} s s1" unfolding s1_def using d(4-8) by (intro leavesI) auto
  have y: "granted (tmem s1)" "io_context s1 \<noteq> NULL" "live s1 (desc_block d)" "desc_ok (data_descs s1 (desc_block d))"
    using s1 d g by (simp_all add: live_def)
  obtain v where v: "yield_push 182 (desc_block d) XI_STATE_OK s1 = (XI_STATE_OK, v)" "leaves {} s1 v"
    "posts_out s1 [Buffer (contents (data_descs s1 (desc_block d)))] v" "codec_data v = (codec_data s1)\<lparr>push_cs := 182\<rparr>"
    by (rule yield_push_granted [OF y])
  have lv: "leaves {} s v" using leaves_trans [OF l v(2)] by simp
  have "push_header_written ctx dat XI_STATE_WRITTEN s = Some (XI_STATE_OK, v)"
    using tq m pub c(1) len(1) d(1,6) v(1)
    by (simp add: push_header_written_def deref_codec_task_def deref_message_def keep_desc_def s1_def Let_def)
  moreover have "posts_out s [Buffer (payload m)] v"
    using v(3) s1 d(3) c(4) by (simp add: posts_out_def posts_def contents_def)
  moreover have "sends v (Payload, m # ms)"
    using leaves_waiting [OF lv, of "task_queue (codec_data s)" "m # ms"] s v(4) s1(4) by simp
  ultimately show thesis using that lv by blast
qed

lemma codec_step_push:
  assumes up: "sender_up s" and s: "sends s (ph, ms)" and ev: "codec_offers (Push_Message m) q s"
  shows "\<exists>v x' out. sender_step (Push_Message m) (ph, ms) = Some (x', out)
    \<and> codec_event (Push_Message m) q s = Some (XI_STATE_OK, v) \<and> sends v x' \<and> posts_out s out v \<and> leaves (freed_by out s) s v"
proof -
  have c: "codec_context s (prev_context s) = Some ()" "\<not> codec_shut_down s" "q \<noteq> NULL"
    using up ev by (simp_all add: sender_up_def codec_up_def codec_context_def live_def)
  obtain p t where t: "xi_mqtt_codec_layer_make_task q s = Some (p, t)" "p \<noteq> NULL" "leaves {} s t" "call_queue t = call_queue s"
    "codec_data t = codec_data s"
    "list_all2 (waits t) (task_queue (codec_data t) @ [p]) (ms @ [m])" "tasks_apart (codec_task_blocks t) (task_queue (codec_data t) @ [p])"
    by (rule make_task_granted [OF up s ev])
  define u where "u = t\<lparr>codec_data := (codec_data t)\<lparr>task_queue := task_queue (codec_data t) @ [p]\<rparr>\<rparr>"
  have u: "leaves {} t u" "codec_data u = (codec_data t)\<lparr>task_queue := task_queue (codec_data t) @ [p]\<rparr>" "call_queue u = call_queue s"
    using t(3,4) by (auto simp: u_def leaves_def)
  have su: "leaves {} s u" using leaves_trans [OF t(3) u(1)] by simp
  have wu: "list_all2 (waits u) (task_queue (codec_data u)) (ms @ [m])" "tasks_apart (codec_task_blocks u) (task_queue (codec_data u))"
    using leaves_waiting [OF u(1) t(6,7)] u(2) by simp_all
  have call: "codec_event (Push_Message m) q s = (if 2 < push_cs (codec_data s) then Some (XI_STATE_OK, u)
      else push_resume (prev_context s) q XI_STATE_OK u)"
    using c t(1,2,5) by (simp add: xi_mqtt_codec_layer_push_def u_def Let_def)
  show ?thesis
  proof (cases "ph = Idle")
    case False
    then have "ms \<noteq> []" "2 < push_cs (codec_data s)" using s phase_running [of ph] by auto
    then have "sends u (ph, ms @ [m])" using s wu u(2) t(5) False by simp
    moreover have "posts_out s [] u" using u(3) by (simp add: posts_out_def posts_def)
    ultimately show ?thesis using call su False \<open>2 < push_cs (codec_data s)\<close> by simp
  next
    case True
    then have i: "ms = []" "push_cs (codec_data s) \<le> 2" using s by simp_all
    have mu: "live u q" "mqtt_messages u q = m" "codec_sendable m"
      using ev su leaves_live [OF su] by (simp_all add: leaves_def)
    obtain v where v: "push_send q u = Some (XI_STATE_OK, v)" "leaves {} u v" "posts_out u [Buffer (header_bytes m)] v"
      "codec_data v = (codec_data u)\<lparr>codec_msg_id := xi_mqtt_get_message_id m, codec_msg_type := msg_type m, push_cs := 149\<rparr>"
      "codec_tasks v = codec_tasks u"
      by (rule push_send_granted [OF leaves_up [OF su up] mu])
    have "codec_event (Push_Message m) q s = Some (XI_STATE_OK, v)"
      using call i(2) v(1) u(2) t(5) by (simp add: push_resume_def)
    moreover have "sends v (Header, [m])" using leaves_waiting [OF v(2) wu] v(4) i(1) by simp
    moreover have "leaves {} s v" using leaves_trans [OF su v(2)] by simp
    moreover have "posts_out s [Buffer (header_bytes m)] v" using v(3) u(3) by (simp add: posts_out_def posts_def)
    ultimately show ?thesis using True by simp
  qed
qed

lemma resume_finalise:
  assumes s: "sends s (ph, m # ms)" and tq: "task_queue (codec_data s) = p # ps"
    and st: "st = XI_STATE_WRITTEN \<or> st = XI_STATE_FAILED_WRITING"
    and ph: "ph \<noteq> Idle" "\<not> (ph = Header \<and> st = XI_STATE_WRITTEN \<and> payload m \<noteq> [])"
  shows "push_resume ctx dat st s = push_finalise ctx dat st s"
proof (cases "ph = Header")
  case False
  then show ?thesis using s ph(1) by (cases ph) (simp_all add: push_resume_def)
next
  case True
  let ?q = "task_msg (codec_tasks s p)"
  have m: "live s p" "live s ?q" "mqtt_messages s ?q = m" "?q \<noteq> NULL" "codec_sendable m"
    using s tq by (auto simp: waits_def live_def)
  have c: "\<exists>c. publish_content m = Some c \<and> (st = XI_STATE_WRITTEN \<longrightarrow> desc_length c = 0)"
    if "msg_type m = XI_MQTT_TYPE_PUBLISH"
    using m(5) that ph(2) True
    by (auto simp: codec_sendable_def payload_def str_def fields_present_def fields_ok_def str_ok_def
        contents_def desc_ok_def unat_eq_0 word_le_nat_alt)
  have "push_header_written ctx dat st s = push_finalise ctx dat st s"
    using tq m(1-4) st c
    by (cases "msg_type m = XI_MQTT_TYPE_PUBLISH")
      (auto simp: push_header_written_def deref_codec_task_def deref_message_def xi_assert_def)
  then show ?thesis using s True by (simp add: push_resume_def)
qed

lemma codec_step_confirm:
  assumes up: "sender_up s" and s: "sends s (ph, ms)" and ev: "codec_offers (Confirm st) q s"
  shows "\<exists>v x' out. sender_step (Confirm st) (ph, ms) = Some (x', out)
    \<and> codec_event (Confirm st) q s = Some (XI_STATE_OK, v) \<and> sends v x' \<and> posts_out s out v \<and> leaves (freed_by out s) s v"
proof -
  have c: "codec_context s (prev_context s) = Some ()" "\<not> codec_shut_down s"
    using up by (simp_all add: sender_up_def codec_up_def codec_context_def)
  have st: "st = XI_STATE_WRITTEN \<or> st = XI_STATE_FAILED_WRITING" "ph \<noteq> Idle" using ev s phase_running [of ph] by auto
  then obtain m ms' where ms: "ms = m # ms'" using s by (cases ms) auto
  obtain p ps where tq: "task_queue (codec_data s) = p # ps" and w: "waits s p m"
    using s ms by (auto simp: list_all2_Cons2)
  have call: "codec_event (Confirm st) q s = push_resume (prev_context s) NULL st s"
    using c st(1) by (auto simp: xi_mqtt_codec_layer_push_def)
  obtain v where v: "push_finalise (prev_context s) NULL st s = Some (XI_STATE_OK, v)" "leaves (codec_task_blocks s p) s v"
    "posts_out s (Told (xi_mqtt_get_message_id m) (msg_type m) st # snd (sender_next ms')) v"
    "sends v (fst (sender_next ms'), ms')"
    by (rule push_finalise_granted [OF up s [unfolded ms] tq st(1)])
  show ?thesis
  proof (cases "ph = Header \<and> st = XI_STATE_WRITTEN \<and> payload m \<noteq> []")
    case True
    then obtain u where "push_header_written (prev_context s) NULL XI_STATE_WRITTEN s = Some (XI_STATE_OK, u)" "leaves {} s u"
      "posts_out s [Buffer (payload m)] u" "sends u (Payload, m # ms')"
      using payload_granted [OF up, of m ms'] s ms by metis
    then show ?thesis using call True ms s by (simp add: push_resume_def del: sends.simps) (simp add: phase_ok.simps)
  next
    case False
    have "push_resume (prev_context s) NULL st s = push_finalise (prev_context s) NULL st s"
      using resume_finalise [OF s [unfolded ms] tq st(1)] False st(2) by blast
    then show ?thesis using call v False ms tq by (auto simp: case_prod_beta Let_def simp del: sends.simps)
  qed
qed

lemma codec_step:
  assumes "sender_up s" "sends s x" "codec_offers ev q s"
  shows "\<exists>v x' out. sender_step ev x = Some (x', out) \<and> codec_event ev q s = Some (XI_STATE_OK, v)
    \<and> sends v x' \<and> posts_out s out v \<and> leaves (freed_by out s) s v"
proof -
  obtain ph ms where x: "x = (ph, ms)" by (cases x)
  show ?thesis
    using codec_step_push [OF assms(1)] codec_step_confirm [OF assms(1)] assms(2,3) unfolding x
    by (cases ev) blast+
qed

text \<open>A publication on \<open>ab\<close> with three bytes, on a layer that has nothing to send.\<close>

definition offered_example :: xi_mqtt_message where
  "offered_example = (empty_message 80)\<lparr>common_value := 0x32, topic_name := Some (bytes_desc 81 [97, 98]),
     publish_content := Some (bytes_desc 83 [1, 2, 3]), message_id := 258\<rparr>"

definition sender_example :: "nat xi_mqtt_stack" where
  "sender_example = codec_example\<lparr>mqtt_messages := (\<lambda>p. offered_example),
     tmem := \<lparr>alloc_script = [], next_block = 90, live_blocks = {80, 81, 82, 83, 84}\<rparr>\<rparr>"

lemma sender_example_facts:
  "sender_up sender_example" "sends sender_example (Idle, [])" "codec_offers (Push_Message offered_example) 80 sender_example"
  "header_bytes offered_example = [0x32, 9, 0, 2, 97, 98, 1, 2]" "payload offered_example = [1, 2, 3]"
  "xi_mqtt_get_message_id offered_example = 258" "msg_type offered_example = 3"
proof -
  show "header_bytes offered_example = [0x32, 9, 0, 2, 97, 98, 1, 2]" "payload offered_example = [1, 2, 3]"
    "xi_mqtt_get_message_id offered_example = 258" and ty: "msg_type offered_example = 3" by code_simp+
  show "sender_up sender_example" "sends sender_example (Idle, [])"
    by (simp_all add: sender_up_def codec_up_def sender_example_def codec_example_def codec_shut_down_def
        XI_THIS_LAYER_NOT_OPERATIONAL_def granted_def mem_ok_def zero_codec_data_def)
  have blocks: "message_blocks offered_example = {80, 81, 82, 83, 84}"
    using ty by (simp add: message_blocks_def message_pair_def message_descs_def desc_blocks_def)
      (auto simp: offered_example_def empty_message_def bytes_desc_def)
  have k: "known_type 3" "length (body_bytes offered_example) + length (payload offered_example) = 9" by code_simp+
  have "codec_sendable offered_example"
    using ty k by (simp add: codec_sendable_def fields_present_def message_known_def message_descs_def)
      (simp add: fields_ok_def str_ok_def offered_example_def empty_message_def desc_ok_def desc_known_def bytes_desc_def)
  moreover have "message_block offered_example = 80" by (simp add: offered_example_def empty_message_def)
  ultimately show "codec_offers (Push_Message offered_example) 80 sender_example"
    using blocks by (simp add: live_def sender_example_def) (simp add: codec_example_def zero_codec_data_def)
qed

text \<open>
  C3: the layer implements the sender, while it is up and memory is granted (\<open>sender_up\<close>). A
  serialisable message that is pushed, and a confirmation that a buffer was written or was not, end
  with \<open>XI_STATE_OK\<close>, in a state that stands for the sender's next one, having posted what the sender
  posts, as calls with live buffers with these bytes and live confirmations; of what there was before
  only the task and the message are freed whose end is reported, and the receiving half of the layer
  is left alone. A push whose buffer is refused is no step of the sender: see
  \<open>refused_buffer_hands_over_freed_message\<close>.
\<close>
theorem codec_push_refines_sender:
  fixes s :: "('g, 'z) xi_mqtt_stack_scheme"
  assumes "sender_up s" "sends s x" "codec_offers ev q s"
  shows "\<exists>v x' out. sender_step ev x = Some (x', out) \<and> codec_event ev q s = Some (XI_STATE_OK, v)
    \<and> sends v x' \<and> posts_out s out v \<and> leaves (freed_by out s) s v"
  by (rule codec_step [OF assms])

theorem codec_push_refines_sender_witness:
  "\<exists>v v'. codec_event (Push_Message offered_example) 80 sender_example = Some (XI_STATE_OK, v)
     \<and> posts_out sender_example [Buffer [0x32, 9, 0, 2, 97, 98, 1, 2]] v
     \<and> codec_event (Confirm XI_STATE_WRITTEN) 0 v = Some (XI_STATE_OK, v') \<and> posts_out v [Buffer [1, 2, 3]] v'"
proof -
  note f = sender_example_facts
  obtain v where v: "codec_event (Push_Message offered_example) 80 sender_example = Some (XI_STATE_OK, v)"
    "sends v (Header, [offered_example])" "posts_out sender_example [Buffer [0x32, 9, 0, 2, 97, 98, 1, 2]] v" "leaves {} sender_example v"
    using codec_push_refines_sender [OF f(1-3)] f(4) by (auto simp del: sends.simps codec_event.simps)
  have "sender_up v" "codec_offers (Confirm XI_STATE_WRITTEN) 0 v"
    using leaves_up [OF v(4) f(1)] v(2) by simp_all
  then show ?thesis
    using codec_push_refines_sender [OF _ v(2)] v(1,3) f(5) by (fastforce simp del: sends.simps codec_event.simps codec_offers.simps)
qed

section \<open>Histories\<close>

text \<open>What the rest of the program does between two calls leaves the queue and its messages alone.\<close>

definition queue_kept :: "('g, 'z) xi_mqtt_stack_scheme \<Rightarrow> ('g, 'z) xi_mqtt_stack_scheme \<Rightarrow> bool" where
  "queue_kept t u \<longleftrightarrow> task_queue (codec_data u) = task_queue (codec_data t) \<and> push_cs (codec_data u) = push_cs (codec_data t)
     \<and> codec_msg_id (codec_data u) = codec_msg_id (codec_data t) \<and> codec_msg_type (codec_data u) = codec_msg_type (codec_data t)
     \<and> (\<forall>p \<in> set (task_queue (codec_data t)). codec_tasks u p = codec_tasks t p
          \<and> mqtt_messages u (task_msg (codec_tasks t p)) = mqtt_messages t (task_msg (codec_tasks t p))
          \<and> codec_task_blocks t p \<subseteq> live_blocks (tmem u))"

lemma task_apart_cong: "(\<And>p. p \<in> set ps \<Longrightarrow> f p = g p) \<Longrightarrow> tasks_apart f ps = tasks_apart g ps"
  by (induct ps) auto

lemma sends_kept:
  assumes "sends t x" "queue_kept t u"
  shows "sends u x"
proof -
  obtain ph ms where x: "x = (ph, ms)" by (cases x)
  have k: "codec_task_blocks u p = codec_task_blocks t p" "waits t p m \<Longrightarrow> waits u p m"
    if "p \<in> set (task_queue (codec_data t))" for p m
  proof -
    show b: "codec_task_blocks u p = codec_task_blocks t p" using assms(2) that by (simp add: queue_kept_def codec_task_blocks_def)
    assume w: "waits t p m"
    have "codec_task_blocks t p \<subseteq> live_blocks (tmem u)" "codec_tasks u p = codec_tasks t p"
      "mqtt_messages u (task_msg (codec_tasks t p)) = mqtt_messages t (task_msg (codec_tasks t p))"
      using assms(2) that by (simp_all add: queue_kept_def)
    moreover have "p \<in> codec_task_blocks t p" "task_msg (codec_tasks t p) \<in> codec_task_blocks t p"
      using w by (auto simp: waits_def codec_task_blocks_def message_blocks_def live_def)
    ultimately show "waits u p m" using w b by (auto simp: waits_def live_def)
  qed
  have "tasks_apart (codec_task_blocks u) (task_queue (codec_data t)) = tasks_apart (codec_task_blocks t) (task_queue (codec_data t))"
    by (rule task_apart_cong) (rule k(1))
  moreover have "list_all2 (waits u) (task_queue (codec_data t)) ms" if "list_all2 (waits t) (task_queue (codec_data t)) ms"
    using that by (rule list.rel_mono_strong) (rule k(2))
  ultimately show ?thesis using assms x by (simp add: queue_kept_def)
qed

text \<open>The calls on a connection, each with the state before it, what it is, and the state after it.\<close>

type_synonym ('g, 'z) send_call = "('g, 'z) xi_mqtt_stack_scheme \<times> sender_event \<times> ('g, 'z) xi_mqtt_stack_scheme"

inductive send_history ::
    "('g, 'z) xi_mqtt_stack_scheme \<Rightarrow> ('g, 'z) send_call list \<Rightarrow> ('g, 'z) xi_mqtt_stack_scheme \<Rightarrow> bool" where
  send_begin: "send_history s [] s"
| send_next: "send_history s h t \<Longrightarrow> queue_kept t u \<Longrightarrow> sender_up u \<Longrightarrow> codec_offers ev q u
    \<Longrightarrow> codec_event ev q u = Some (r, v) \<Longrightarrow> send_history s (h @ [(u, ev, v)]) v"

definition events :: "('g, 'z) send_call list \<Rightarrow> sender_event list" where
  "events h = map (\<lambda>(u, ev, v). ev) h"

definition call_emits :: "('g, 'z) send_call \<Rightarrow> posted list \<Rightarrow> bool" where
  "call_emits c out = (case c of (u, ev, v) \<Rightarrow> posts_out u out v)"

fun pushed :: "sender_event list \<Rightarrow> xi_mqtt_message list" where
  "pushed [] = []"
| "pushed (Push_Message m # evs) = m # pushed evs"
| "pushed (Confirm st # evs) = pushed evs"

fun sent :: "posted list \<Rightarrow> byte list" where
  "sent [] = []"
| "sent (Buffer bs # out) = bs @ sent out"
| "sent (Told i ty st # out) = sent out"

fun told :: "posted list \<Rightarrow> (16 word \<times> nat) list" where
  "told [] = []"
| "told (Buffer bs # out) = told out"
| "told (Told i ty st # out) = (i, ty) # told out"

definition all_written :: "sender_event list \<Rightarrow> bool" where
  "all_written evs \<longleftrightarrow> (\<forall>st. Confirm st \<in> set evs \<longrightarrow> st = XI_STATE_WRITTEN)"

lemma sender_appends [simp]:
  "pushed (a @ b) = pushed a @ pushed b" "sent (x @ y) = sent x @ sent y" "told (x @ y) = told x @ told y"
  "events (h @ k) = events h @ events k" "all_written (a @ b) \<longleftrightarrow> all_written a \<and> all_written b"
proof -
  show "pushed (a @ b) = pushed a @ pushed b" by (induct a rule: pushed.induct) simp_all
  show "sent (x @ y) = sent x @ sent y" by (induct x rule: sent.induct) simp_all
  show "told (x @ y) = told x @ told y" by (induct x rule: told.induct) simp_all
qed (auto simp: events_def all_written_def)

text \<open>What is still to be sent.\<close>

fun unsent :: "sender \<Rightarrow> byte list" where
  "unsent (Idle, ms) = []"
| "unsent (Header, ms) = payload (hd ms) @ concat (map wire (tl ms))"
| "unsent (Payload, ms) = concat (map wire (tl ms))"

definition named :: "xi_mqtt_message \<Rightarrow> 16 word \<times> nat" where
  "named m = (xi_mqtt_get_message_id m, msg_type m)"

text \<open>The account the sender keeps of what was pushed.\<close>

fun accounts :: "sender_event list \<Rightarrow> posted list \<Rightarrow> sender \<Rightarrow> bool" where
  "accounts evs out (ph, ms) \<longleftrightarrow> (ph = Idle \<longleftrightarrow> ms = []) \<and> map named (pushed evs) = told out @ map named ms
     \<and> (all_written evs \<longrightarrow> concat (map wire (pushed evs)) = sent out @ unsent (ph, ms))"

lemma sender_accounts:
  assumes a: "accounts evs out x" and s: "sender_step ev x = Some (x', out')"
  shows "accounts (evs @ [ev]) (out @ out') x'"
proof -
  obtain ph ms where x: "x = (ph, ms)" by (cases x)
  show ?thesis
  proof (cases ev)
    case (Push_Message m)
    then show ?thesis
      using a s unfolding x
      by (cases ph) (auto simp: wire_header named_def all_written_def)
  next
    case (Confirm st)
    then obtain m ms' where ms: "ms = m # ms'" using s x by (cases ms) auto
    show ?thesis
      using a s Confirm unfolding x ms
      by (cases ph; cases ms') (auto simp: wire_header named_def all_written_def split: if_splits)
  qed
qed

lemma history_accounts:
  assumes "send_history s h t" "sends s (Idle, [])"
  shows "\<exists>outs x. list_all2 call_emits h outs \<and> accounts (events h) (concat outs) x \<and> sends t x"
  using assms
proof (induct rule: send_history.induct)
  case (send_begin s)
  then show ?case by (intro exI [of _ "[]"] exI [of _ "(Idle, [])"]) (simp add: events_def)
next
  case (send_next s h t u ev q r v)
  then obtain outs x where o: "list_all2 call_emits h outs" "accounts (events h) (concat outs) x" "sends t x" by blast
  have "sends u x" using sends_kept [OF o(3) send_next.hyps(3)] .
  then obtain v' x' out where v: "sender_step ev x = Some (x', out)" "codec_event ev q u = Some (XI_STATE_OK, v')"
    "sends v' x'" "posts_out u out v'"
    using codec_step [OF send_next.hyps(4) _ send_next.hyps(5)] by blast
  have "v' = v" using v(2) send_next.hyps(6) by simp
  then have "list_all2 call_emits (h @ [(u, ev, v)]) (outs @ [out])"
    using o(1) v(4) by (simp add: list_all2_appendI call_emits_def)
  moreover have "accounts (events (h @ [(u, ev, v)])) (concat (outs @ [out])) x'"
    using sender_accounts [OF o(2) v(1)] by (simp add: events_def)
  ultimately show ?case using v(3) \<open>v' = v\<close> by blast
qed

lemma accounts_outcome:
  assumes "accounts evs out x" "sends t x"
  shows "told out = map named (take (length (told out)) (pushed evs))"
    "length (pushed evs) = length (told out) + length (task_queue (codec_data t))"
    "all_written evs \<Longrightarrow> prefix (sent out) (concat (map wire (pushed evs)))"
    "all_written evs \<Longrightarrow> task_queue (codec_data t) = [] \<Longrightarrow> sent out = concat (map wire (pushed evs))"
proof -
  obtain ph ms where x: "x = (ph, ms)" by (cases x)
  have a: "map named (pushed evs) = told out @ map named ms" "ph = Idle \<longleftrightarrow> ms = []"
    "all_written evs \<Longrightarrow> concat (map wire (pushed evs)) = sent out @ unsent (ph, ms)"
    using assms(1) x by auto
  show "told out = map named (take (length (told out)) (pushed evs))"
    using arg_cong [OF a(1), of "take (length (told out))"] by (simp add: take_map)
  have len: "length (task_queue (codec_data t)) = length ms" using assms(2) x by (auto dest: list_all2_lengthD)
  then show "length (pushed evs) = length (told out) + length (task_queue (codec_data t))"
    using arg_cong [OF a(1), of length] by simp
  show "prefix (sent out) (concat (map wire (pushed evs)))" if "all_written evs" using a(3) [OF that] by simp
  show "sent out = concat (map wire (pushed evs))" if "all_written evs" "task_queue (codec_data t) = []"
    using a(2) a(3) [OF that(1)] that(2) len by simp
qed

text \<open>
  C24: messages are sent in the order in which they were pushed. Over any history of messages and
  confirmations at each of which the layer is up and memory is granted (\<open>sender_up\<close>), with the rest of
  the program running in between but leaving the queue alone (\<open>queue_kept\<close>), every call returns; the
  logic layer is told the end of each message once and in the order of the pushes, the others wait in
  the queue; and as long as every buffer is written, the bytes that go out are those of the packets,
  one after the other, complete when the queue is empty. What happens when a buffer is refused is
  \<open>refused_buffer_hands_over_freed_message\<close>.
\<close>
theorem codec_sends_in_order:
  fixes s :: "('g, 'z) xi_mqtt_stack_scheme"
  assumes "send_history s h t" "sends s (Idle, [])"
  shows "(\<exists>outs. list_all2 call_emits h outs
      \<and> told (concat outs) = map named (take (length (told (concat outs))) (pushed (events h)))
      \<and> length (pushed (events h)) = length (told (concat outs)) + length (task_queue (codec_data t))
      \<and> (all_written (events h) \<longrightarrow> prefix (sent (concat outs)) (concat (map wire (pushed (events h))))
           \<and> (task_queue (codec_data t) = [] \<longrightarrow> sent (concat outs) = concat (map wire (pushed (events h))))))
    \<and> (\<forall>u ev q. queue_kept t u \<and> sender_up u \<and> codec_offers ev q u \<longrightarrow> (\<exists>v. codec_event ev q u = Some (XI_STATE_OK, v)))"
proof -
  obtain outs x where o: "list_all2 call_emits h outs" "accounts (events h) (concat outs) x" "sends t x"
    using history_accounts [OF assms] by blast
  have "\<exists>v. codec_event ev q u = Some (XI_STATE_OK, v)"
    if "queue_kept t u" "sender_up u" "codec_offers ev q u" for u ev q
    using codec_step [OF that(2) sends_kept [OF o(3) that(1)] that(3)] by blast
  then show ?thesis using o(1) accounts_outcome [OF o(2,3)] by blast
qed

lemma sender_example_history:
  obtains h and t :: "nat xi_mqtt_stack" where "send_history sender_example h t" "task_queue (codec_data t) = []"
    "events h = [Push_Message offered_example, Confirm XI_STATE_WRITTEN, Confirm XI_STATE_WRITTEN]"
proof -
  note f = sender_example_facts
  have kept: "queue_kept u u" if "sends u x" for u :: "nat xi_mqtt_stack" and x
  proof -
    obtain ph ms where "x = (ph, ms)" by (cases x)
    then have "codec_task_blocks u p \<subseteq> live_blocks (tmem u)" if "p \<in> set (task_queue (codec_data u))" for p
      using \<open>sends u x\<close> that by (auto simp: list_all2_conv_all_nth in_set_conv_nth waits_def)
    then show ?thesis by (simp add: queue_kept_def)
  qed
  obtain v1 where v1: "codec_event (Push_Message offered_example) 80 sender_example = Some (XI_STATE_OK, v1)"
    "sends v1 (Header, [offered_example])" "leaves {} sender_example v1"
    using codec_step [OF f(1-3)] by (auto simp del: sends.simps codec_event.simps)
  have c1: "sender_up v1" "codec_offers (Confirm XI_STATE_WRITTEN) 0 v1"
    using leaves_up [OF v1(3) f(1)] v1(2) by simp_all
  obtain v2 where v2: "codec_event (Confirm XI_STATE_WRITTEN) 0 v1 = Some (XI_STATE_OK, v2)"
    "sends v2 (Payload, [offered_example])" "leaves {} v1 v2"
    using codec_step [OF c1(1) v1(2) c1(2)] f(5) by (auto simp del: sends.simps codec_event.simps codec_offers.simps)
  have c2: "sender_up v2" "codec_offers (Confirm XI_STATE_WRITTEN) 0 v2"
    using leaves_up [OF v2(3) c1(1)] v2(2) by simp_all
  obtain v3 where v3: "codec_event (Confirm XI_STATE_WRITTEN) 0 v2 = Some (XI_STATE_OK, v3)" "sends v3 (Idle, [])"
    using codec_step [OF c2(1) v2(2) c2(2)] by (auto simp del: sends.simps codec_event.simps codec_offers.simps)
  let ?h = "[(sender_example, Push_Message offered_example, v1), (v1, Confirm XI_STATE_WRITTEN, v2), (v2, Confirm XI_STATE_WRITTEN, v3)]"
  have h: "send_history sender_example ?h v3"
    using send_next [OF send_next [OF send_next [OF send_begin kept [OF f(2)] f(1,3) v1(1)] kept [OF v1(2)] c1 v2(1)]
        kept [OF v2(2)] c2 v3(1)] by simp
  have e: "events ?h = [Push_Message offered_example, Confirm XI_STATE_WRITTEN, Confirm XI_STATE_WRITTEN]"
    "task_queue (codec_data v3) = []" using v3(2) by (simp_all add: events_def)
  show thesis by (rule that [OF h e(2,1)])
qed

theorem codec_sends_in_order_witness:
  "\<exists>h (t :: nat xi_mqtt_stack) outs. events h = [Push_Message offered_example, Confirm XI_STATE_WRITTEN, Confirm XI_STATE_WRITTEN]
     \<and> list_all2 call_emits h outs \<and> task_queue (codec_data t) = [] \<and> send_history sender_example h t
     \<and> sent (concat outs) = [0x32, 9, 0, 2, 97, 98, 1, 2, 1, 2, 3] \<and> told (concat outs) = [(258, 3)]"
proof -
  note f = sender_example_facts
  obtain h and t :: "nat xi_mqtt_stack" where h: "send_history sender_example h t" "task_queue (codec_data t) = []"
    and e: "events h = [Push_Message offered_example, Confirm XI_STATE_WRITTEN, Confirm XI_STATE_WRITTEN]"
    by (rule sender_example_history)
  have p: "pushed (events h) = [offered_example]" "wire offered_example = [0x32, 9, 0, 2, 97, 98, 1, 2, 1, 2, 3]"
    "named offered_example = (258, 3)" "all_written (events h)" using e f by (simp_all add: wire_header named_def all_written_def)
  obtain outs where "list_all2 call_emits h outs"
    "told (concat outs) = map named (take (length (told (concat outs))) (pushed (events h)))"
    "length (pushed (events h)) = length (told (concat outs))"
    "sent (concat outs) = concat (map wire (pushed (events h)))"
    using codec_sends_in_order [OF h(1) f(2)] h(2) p(4) by auto
  then show ?thesis using e h p by (intro exI [of _ h] exI [of _ t] exI [of _ outs]) simp
qed

end
