(* ===== verification/Mqtt_Codec_Stack.thy ===== *)
theory Mqtt_Codec_Stack
  imports Mqtt_Codec_Push
begin

text \<open>
  Both halves of the MQTT codec layer together: what one side pushes the other side is handed.
  And what becomes of a message when the memory for its buffer is refused.
\<close>

section \<open>From one logic layer to the other\<close>

text \<open>A posted call determines what it carries.\<close>

lemma carries_unique: "carries s a h \<Longrightarrow> carries s b h \<Longrightarrow> a = b"
  by (cases a; cases b) (auto simp: io_push_def logic_push_def xi_make_handle_argc3_def)

lemma list_all2_unique:
  assumes "list_all2 P xs ys" "list_all2 P xs zs" "\<And>x y z. P x y \<Longrightarrow> P x z \<Longrightarrow> y = z"
  shows "ys = zs"
proof (rule nth_equalityI)
  show "length ys = length zs" using assms(1,2) by (metis list_all2_lengthD)
  show "ys ! i = zs ! i" if "i < length ys" for i
    using assms(1,2) that by (intro assms(3) [of "xs ! i"]) (auto simp: list_all2_conv_all_nth)
qed

lemma posts_out_unique:
  assumes "posts_out s a t" "posts_out s b t"
  shows "a = b"
proof -
  obtain hs ks where h: "posts s hs t" "list_all2 (carries t) a hs" "posts s ks t" "list_all2 (carries t) b ks"
    using assms by (auto simp: posts_out_def)
  then have "hs = ks" by (auto simp: posts_def)
  then have "list_all2 (\<lambda>h it. carries t it h) hs a" "list_all2 (\<lambda>h it. carries t it h) hs b"
    using h(2,4) by (simp_all add: list_all2_conv_all_nth)
  then show ?thesis by (rule list_all2_unique) (rule carries_unique)
qed

lemma call_emits_unique: "call_emits c a \<Longrightarrow> call_emits c b \<Longrightarrow> a = b"
  by (auto simp: call_emits_def split: prod.splits intro: posts_out_unique)


definition receiver_example :: "nat xi_mqtt_stack" where
  "receiver_example = codec_example\<lparr>data_descs := (\<lambda>p. bytes_desc p [0x32, 9, 0, 2, 97, 98, 1, 2, 1, 2, 3])\<rparr>"


section \<open>When memory is refused\<close>

text \<open>The task is granted, the descriptor is refused.\<close>

definition refuses_descriptor :: "('g, 'z) xi_mqtt_stack_scheme \<Rightarrow> bool" where
  "refuses_descriptor s \<longleftrightarrow> mem_ok (tmem s) \<and> alloc_script (tmem s) = [True, False]
     \<and> prev_context s \<noteq> NULL \<and> layer_context s \<noteq> NULL \<and> io_context s \<noteq> NULL \<and> \<not> codec_shut_down s"

lemma refused_descriptor:
  assumes "alloc_script m = [True, False]" "mem_ok m" "n \<le> PTRDIFF_MAX" "0 < cap"
  obtains p m' where "xi_alloc n m = (p, m')" "p \<noteq> NULL" "p \<notin> live_blocks m" "live_blocks m' = insert p (live_blocks m)" "mem_ok m'"
    "\<exists>m''. xi_make_empty_desc_alloc cap m' = Some (None, m'') \<and> granted m'' \<and> live_blocks m'' = live_blocks m'"
proof -
  let ?p = "next_block m"
  let ?m = "m\<lparr>alloc_script := [False], next_block := Suc ?p, live_blocks := insert ?p (live_blocks m)\<rparr>"
  have "xi_alloc n m = (?p, ?m)" using assms(1,3) by (simp add: xi_alloc_def)
  moreover have "?p \<noteq> NULL" "?p \<notin> live_blocks m" "mem_ok ?m" using assms(2) by (auto simp: mem_ok_def)
  moreover have "xi_make_empty_desc_alloc cap ?m = Some (None, ?m\<lparr>alloc_script := []\<rparr>)"
    using assms(4) by (simp add: xi_make_empty_desc_alloc_def xi_alloc_def xi_assert_def xi_free_desc_def
        sizeof_xi_data_desc_def PTRDIFF_MAX_def)
  ultimately show thesis using that [of ?p ?m] by (simp add: granted_def mem_ok_def)
qed

lemma codec_process_grows:
  "mem_ok (tmem s) \<Longrightarrow> codec_process target fn op dat st s = (r, t) \<Longrightarrow> grows (tmem s) (tmem t)"
  by (cases "xi_alloc sizeof_xi_event_handle_queue (tmem s)")
    (auto simp: codec_process_def xi_layer_continue_with_impl_def xi_evtd_execute_def Let_def grows_refl
      dest: grows_alloc(1) split: if_splits)

lemma make_written_grows:
  "mem_ok (tmem s) \<Longrightarrow> make_written_data i ty s = (w, t) \<Longrightarrow> grows (tmem s) (tmem t)"
  by (auto simp: make_written_data_def dest: grows_alloc(1) split: prod.splits)

text \<open>A queue of one task: it is reported and freed with its message.\<close>

lemma clear_one_task:
  assumes g: "granted (tmem s)" "layer_context s \<noteq> NULL" and w: "waits s p m" "task_queue (codec_data s) = [p]"
  obtains v w where "clear_task_queue s = Some v" "posts s [logic_push v w XI_STATE_FAILED_WRITING] v" "live v w"
    "written_data v w = named m" "granted (tmem v)" "live_blocks (tmem v) \<inter> message_blocks m = {}"
    "codec_data v = (codec_data s)\<lparr>task_queue := []\<rparr>" "layer_context v = layer_context s"
    "codec_layer_state v = codec_layer_state s" "next_block (tmem s) \<le> next_block (tmem v)"
proof -
  let ?s = "s\<lparr>codec_data := (codec_data s)\<lparr>task_queue := []\<rparr>\<rparr>"
  let ?q = "task_msg (codec_tasks s p)"
  have m: "live s p" "live s ?q" "mqtt_messages s ?q = m" "message_known m" "p \<notin> message_blocks m" "?q \<noteq> NULL"
    "task_msg_id (codec_tasks s p) = xi_mqtt_get_message_id m" "task_msg_type (codec_tasks s p) = msg_type m"
    "message_blocks m \<subseteq> live_blocks (tmem s)"
    using w(1) by (auto simp: waits_def live_def codec_sendable_def codec_task_blocks_def)
  have g1: "granted (tmem ?s)" using g(1) by simp
  obtain w m1 where wr: "make_written_data (xi_mqtt_get_message_id m) (msg_type m) ?s
      = (w, ?s\<lparr>tmem := m1, written_data := (written_data ?s)(w := (xi_mqtt_get_message_id m, msg_type m))\<rparr>)"
    "w \<noteq> NULL" "w \<notin> live_blocks (tmem ?s)" "granted m1" "live_blocks m1 = insert w (live_blocks (tmem ?s))"
    by (rule make_written_granted [OF g1])
  define s1 where "s1 = ?s\<lparr>tmem := m1, written_data := (written_data ?s)(w := (xi_mqtt_get_message_id m, msg_type m))\<rparr>"
  have g2: "granted (tmem s1)" "layer_context s1 \<noteq> NULL" using wr(4) g(2) by (simp_all add: s1_def)
  obtain x m2 where post: "codec_process (layer_context s1) (This_Layer Push) Push w XI_STATE_FAILED_WRITING s1 = (XI_STATE_OK, s1\<lparr>tmem := m2,
      call_queue := call_queue s1 @ [(x, xi_make_handle_argc3 0 (Other_Fn (This_Layer Push)) (layer_context s1) w XI_STATE_FAILED_WRITING)],
      codec_layer_state := get_next_layer_state Push (codec_layer_state s1) XI_STATE_FAILED_WRITING\<rparr>)"
    "granted m2" "live_blocks m2 = insert x (live_blocks (tmem s1))" "x \<notin> live_blocks (tmem s1)"
    by (rule codec_process_granted [OF g2, of "This_Layer Push" Push w XI_STATE_FAILED_WRITING])
  define s2 where "s2 = s1\<lparr>tmem := m2, call_queue := call_queue s1 @ [(x, logic_push s w XI_STATE_FAILED_WRITING)],
      codec_layer_state := codec_layer_state s1\<rparr>"
  define v where "v = (put_task_msg p NULL s2)\<lparr>tmem := release (insert p (message_blocks m)) m2\<rparr>"
  have v: "tmem v = release (insert p (message_blocks m)) m2" "call_queue v = call_queue s @ [(x, logic_push s w XI_STATE_FAILED_WRITING)]"
    "codec_data v = (codec_data s)\<lparr>task_queue := []\<rparr>" "written_data v = (written_data s)(w := named m)"
    "layer_context v = layer_context s" "codec_layer_state v = codec_layer_state s"
    by (simp_all add: v_def s2_def s1_def named_def)
  have lb: "live_blocks m2 = insert x (insert w (live_blocks (tmem s)))" using post(3) wr(5) by (simp add: s1_def)
  have "xi_mqtt_codec_layer_free_task p s2 = Some v"
    using m lb by (simp add: xi_mqtt_codec_layer_free_task_def deref_codec_task_def live_def s2_def s1_def v_def
        free_message_granted put_task_msg_def xi_free_release Un_commute)
  then have "clear_task_queue s = Some v"
    using w(2) m(1,7,8) wr(1) post(1)
    by (simp add: clear_task_queue_def deref_codec_task_def live_def codec_process_on_next_def s1_def s2_def logic_push_def Let_def)
  moreover have "posts s [logic_push v w XI_STATE_FAILED_WRITING] v" using v(2,5) by (simp add: posts_def logic_push_def)
  moreover have "live v w" using v(1) lb wr(2,3) m(1,9) by (auto simp: live_def)
  moreover have "granted (tmem v)" using v(1) post(2) by (simp add: granted_def)
  moreover have "next_block (tmem s) \<le> next_block m2"
    using make_written_grows [OF _ wr(1)] codec_process_grows [OF _ post(1)] g(1) wr(4)
    by (simp add: granted_def grows_def s1_def)
  ultimately show thesis using that [of v w] v by auto
qed

text \<open>
  C25: when the memory for a message's buffer is refused, the message is freed and its address is
  handed to the logic layer as if it were a confirmation. A message is pushed while nothing is
  being sent; its task is granted, the descriptor of its buffer is not. The call says
  \<open>XI_STATE_OK\<close>; it frees the message and posts two calls of the logic layer: the confirmation
  that the message was not written, and a second one whose confirmation is the address of the
  freed message. As long as that address is not handed out again, the second call reads freed
  memory.
\<close>
theorem refused_buffer_hands_over_freed_message:
  fixes s :: "('g, 'z) xi_mqtt_stack_scheme" and env :: "('f, 'y) logic_environment"
  assumes "refuses_descriptor s" "sends s (Idle, [])" "codec_offers (Push_Message m) q s"
  shows "\<exists>v w. codec_event (Push_Message m) q s = Some (XI_STATE_OK, v)
    \<and> posts s [logic_push v w XI_STATE_FAILED_WRITING, logic_push v q XI_STATE_FAILED_WRITING] v
    \<and> live v w \<and> written_data v w = named m \<and> \<not> live v q \<and> task_queue (codec_data v) = []
    \<and> (\<forall>u. layer_context u = layer_context s \<and> \<not> shut_down u \<and> \<not> live u q
         \<longrightarrow> xi_mqtt_logic_layer_push env (layer_context s) q XI_STATE_FAILED_WRITING u = None)"
proof -
  have r: "mem_ok (tmem s)" "alloc_script (tmem s) = [True, False]" "prev_context s \<noteq> NULL" "layer_context s \<noteq> NULL"
    "\<not> codec_shut_down s" using assms(1) by (simp_all add: refuses_descriptor_def)
  have m: "live s q" "mqtt_messages s q = m" "message_block m = q" "codec_sendable m" "message_blocks m \<subseteq> live_blocks (tmem s)" "q \<noteq> NULL"
    using assms(3) by (auto simp: live_def)
  have i: "push_cs (codec_data s) \<le> 2" "task_queue (codec_data s) = []" using assms(2) by auto
  let ?n = "length (body_bytes m) + length (payload m)"
  have k: "known_type (msg_type m)" "fields_ok m" "fields_present m" "?n \<le> 268435455" using m(4) by (simp_all add: codec_sendable_def)
  have size: "xi_mqtt_serialiser_size True m = Some (XI_STATE_OK, length (header_bytes m) + length (payload m), ?n, length (payload m))"
    using serialiser_size_spec [OF k(1-3)] k(4) payload_length_eq [OF m(4)] by (simp add: header_bytes_def packet_bytes_def)
  have cap: "0 < length (header_bytes m)" by (simp add: header_bytes_def packet_bytes_def)
  obtain p m1 where a: "xi_alloc sizeof_xi_mqtt_codec_layer_task (tmem s) = (p, m1)" "p \<noteq> NULL" "p \<notin> live_blocks (tmem s)"
    "live_blocks m1 = insert p (live_blocks (tmem s))" "mem_ok m1"
    "\<exists>m2. xi_make_empty_desc_alloc (length (header_bytes m)) m1 = Some (None, m2) \<and> granted m2 \<and> live_blocks m2 = live_blocks m1"
    by (rule refused_descriptor [OF r(2,1) _ cap, of sizeof_xi_mqtt_codec_layer_task])
      (simp add: sizeof_xi_mqtt_codec_layer_task_def PTRDIFF_MAX_def)
  then obtain m2 where m2: "xi_make_empty_desc_alloc (length (header_bytes m)) m1 = Some (None, m2)" "granted m2"
    "live_blocks m2 = insert p (live_blocks (tmem s))" by metis
  define t where "t = s\<lparr>codec_tasks := (codec_tasks s)(p :=
       \<lparr>task_msg = q, task_msg_id = xi_mqtt_get_message_id m, task_msg_type = msg_type m\<rparr>),
     codec_data := (codec_data s)\<lparr>task_queue := [p], codec_msg_id := xi_mqtt_get_message_id m, codec_msg_type := msg_type m\<rparr>,
     tmem := m2\<rparr>"
  have t: "granted (tmem t)" "layer_context t \<noteq> NULL" "task_queue (codec_data t) = [p]" using m2(2) r(4) by (simp_all add: t_def)
  have w: "waits t p m"
    using m a(2,3) m2(3) by (auto simp: waits_def codec_task_blocks_def live_def t_def)
  obtain v w where v: "clear_task_queue t = Some v" "posts t [logic_push v w XI_STATE_FAILED_WRITING] v" "live v w"
    "written_data v w = named m" "granted (tmem v)" "live_blocks (tmem v) \<inter> message_blocks m = {}"
    "codec_data v = (codec_data t)\<lparr>task_queue := []\<rparr>" "layer_context v = layer_context t"
    "codec_layer_state v = codec_layer_state t" "next_block (tmem t) \<le> next_block (tmem v)"
    by (rule clear_one_task [OF t(1,2) w t(3)])
  let ?v = "v\<lparr>codec_data := (codec_data v)\<lparr>push_cs := 2\<rparr>\<rparr>"
  have g: "granted (tmem ?v)" "layer_context ?v \<noteq> NULL" using v(5,8) t(2) by simp_all
  obtain y m3 where post: "codec_process (layer_context ?v) (This_Layer Push) Push q XI_STATE_FAILED_WRITING ?v = (XI_STATE_OK, ?v\<lparr>tmem := m3,
      call_queue := call_queue ?v @ [(y, xi_make_handle_argc3 0 (Other_Fn (This_Layer Push)) (layer_context ?v) q XI_STATE_FAILED_WRITING)],
      codec_layer_state := get_next_layer_state Push (codec_layer_state ?v) XI_STATE_FAILED_WRITING\<rparr>)"
    "granted m3" "live_blocks m3 = insert y (live_blocks (tmem ?v))" "y \<notin> live_blocks (tmem ?v)"
    by (rule codec_process_granted [OF g, of "This_Layer Push" Push q XI_STATE_FAILED_WRITING])
  define x where "x = ?v\<lparr>tmem := m3, call_queue := call_queue v @ [(y, logic_push v q XI_STATE_FAILED_WRITING)],
      codec_layer_state := codec_layer_state v\<rparr>"
  have x: "tmem x = m3" "call_queue x = call_queue v @ [(y, logic_push v q XI_STATE_FAILED_WRITING)]" "layer_context x = layer_context v"
    "written_data x = written_data v" "task_queue (codec_data x) = []" using v(7) by (simp_all add: x_def)
  have "y \<noteq> q"
  proof -
    have "q < next_block (tmem t)" using m(1) m2(2,3) by (auto simp: t_def live_def granted_def mem_ok_def)
    moreover have "grows (tmem ?v) m3" using codec_process_grows [OF _ post(1)] v(5) by (simp add: granted_def)
    then have "next_block (tmem v) \<le> y" using post(3,4) by (auto simp: grows_def)
    ultimately show ?thesis using v(10) by simp
  qed
  moreover have "q \<notin> live_blocks (tmem v)" using v(6) m(3,6) by (auto simp: message_blocks_def)
  ultimately have dead: "\<not> live x q" using x(1) post(3) by (simp add: live_def)
  have "push_error q NULL t = Some (XI_STATE_OK, x)"
    using v(1) post(1) by (simp add: push_error_def codec_process_on_next_def x_def logic_push_def xi_free_def Let_def)
  then have "codec_event (Push_Message m) q s = Some (XI_STATE_OK, x)"
    using r(3,5) m(1,2,6) i a(1,2,4) m2 size
    by (simp add: xi_mqtt_codec_layer_push_def codec_context_def xi_mqtt_codec_layer_make_task_def deref_message_def live_def
        push_resume_def push_send_def keep_desc_def t_def Let_def)
  moreover have "posts s [logic_push x w XI_STATE_FAILED_WRITING, logic_push x q XI_STATE_FAILED_WRITING] x"
    using v(2) x by (auto simp: posts_def logic_push_def t_def)
  moreover have "live x w" using v(3) x(1) post(3) by (simp add: live_def)
  moreover have "xi_mqtt_logic_layer_push env (layer_context s) q XI_STATE_FAILED_WRITING u = None"
    if "layer_context u = layer_context s" "\<not> shut_down u" "\<not> live u q" for u :: "('f, 'y) xi_logic_scheme"
    using that r(4) by (simp add: xi_mqtt_logic_layer_push_def xi_context_def push_confirmation_def deref_written_def
        xi_backoff_classify_state.simps)
  ultimately show ?thesis using dead v(4) x(4,5) by (intro exI [of _ x] exI [of _ w]) simp
qed

theorem refused_buffer_hands_over_freed_message_witness:
  "\<exists>v w. codec_event (Push_Message offered_example) 80 (sender_example\<lparr>tmem := (tmem sender_example)\<lparr>alloc_script := [True, False]\<rparr>\<rparr>)
       = Some (XI_STATE_OK, v) \<and> live v w \<and> written_data v w = (258, 3) \<and> \<not> live v 80"
proof -
  let ?s = "sender_example\<lparr>tmem := (tmem sender_example)\<lparr>alloc_script := [True, False]\<rparr>\<rparr>"
  note f = sender_example_facts
  have "refuses_descriptor ?s"
    using f(1) by (simp add: refuses_descriptor_def sender_up_def codec_up_def codec_shut_down_def granted_def mem_ok_def)
  moreover have "sends ?s (Idle, [])" using f(2) by (simp add: list_all2_conv_all_nth)
  moreover have "codec_offers (Push_Message offered_example) 80 ?s"
    using f(3) by (simp add: live_def codec_task_blocks_def)
  ultimately obtain v w where "codec_event (Push_Message offered_example) 80 ?s = Some (XI_STATE_OK, v)" "live v w"
    "written_data v w = named offered_example" "\<not> live v 80"
    using refused_buffer_hands_over_freed_message by blast
  then show ?thesis using f(6,7) by (intro exI [of _ v] exI [of _ w]) (simp add: named_def)
qed

end
