(* ===== verification/Xi_Io_Net.thy ===== *)
theory Xi_Io_Net
  imports Mqtt_Codec_Layer Xi_Io_Timeouts
begin

text \<open>
  \<open>src/libxively/io/net/xi_io_net_layer.c\<close>: the lowest layer, which writes buffers to a socket and
  reads buffers from it, and the two functions of the POSIX board support package
  (\<open>src/bsp/platform/posix/xi_bsp_io_net_posix.c\<close>) that move the bytes. A call that would block is
  made again when the dispatcher sees the socket ready.

  The socket functions of the platform (\<open>include/bsp/xi_bsp_io_net.h\<close>) are the argument \<open>bsp\<close>, on
  a state \<open>'w\<close> of the world outside of the program.
\<close>

section \<open>The board support package\<close>

datatype xi_bsp_io_net_state =
  XI_BSP_IO_NET_STATE_OK | XI_BSP_IO_NET_STATE_ERROR | XI_BSP_IO_NET_STATE_BUSY
| XI_BSP_IO_NET_STATE_CONNECTION_RESET | XI_BSP_IO_NET_STATE_TIMEOUT

text \<open>
  The count of bytes is the out-parameter: a C \<open>int\<close>. \<open>bsp_read\<close> also gives the bytes it stored at
  the beginning of the buffer.
\<close>

record 'w bsp_io_net =
  bsp_create_socket :: "'w \<Rightarrow> xi_bsp_io_net_state \<times> int \<times> 'w"
  bsp_connect :: "int \<Rightarrow> byte list \<Rightarrow> 16 word \<Rightarrow> 'w \<Rightarrow> xi_bsp_io_net_state \<times> int \<times> 'w"
  bsp_connection_check :: "int \<Rightarrow> byte list \<Rightarrow> 16 word \<Rightarrow> 'w \<Rightarrow> xi_bsp_io_net_state \<times> 'w"
  bsp_write :: "int \<Rightarrow> byte list \<Rightarrow> 'w \<Rightarrow> xi_bsp_io_net_state \<times> int \<times> 'w"
  bsp_read :: "int \<Rightarrow> nat \<Rightarrow> 'w \<Rightarrow> xi_bsp_io_net_state \<times> int \<times> byte list \<times> 'w"
  bsp_close_socket :: "int \<Rightarrow> 'w \<Rightarrow> xi_bsp_io_net_state \<times> int \<times> 'w"

text \<open>The POSIX functions, on the system calls they make.\<close>

datatype errno = EAGAIN | ECONNRESET | EPIPE | Other_Errno nat

record 'w posix_calls =
  sys_so_error :: "int \<Rightarrow> 'w \<Rightarrow> int \<times> int \<times> 'w"
  sys_write :: "int \<Rightarrow> byte list \<Rightarrow> 'w \<Rightarrow> int \<times> errno \<times> 'w"
  sys_read :: "int \<Rightarrow> nat \<Rightarrow> 'w \<Rightarrow> int \<times> byte list \<times> errno \<times> 'w"

text \<open>The descriptor's buffer and the counter are never \<open>NULL\<close> in the calls of the library.\<close>

definition xi_bsp_io_net_write_posix ::
    "'w posix_calls \<Rightarrow> int \<Rightarrow> byte list \<Rightarrow> 'w \<Rightarrow> xi_bsp_io_net_state \<times> int \<times> 'w" where
  "xi_bsp_io_net_write_posix os socket buf w =
     (let (r, errval, w1) = sys_so_error os socket w in
      if r < 0 then (XI_BSP_IO_NET_STATE_ERROR, 0, w1)
      else if errval \<noteq> 0 then (XI_BSP_IO_NET_STATE_ERROR, 0, w1)
      else
        let (n, errno, w2) = sys_write os socket buf w1 in
        if n < 0 \<and> errno = EAGAIN then (XI_BSP_IO_NET_STATE_BUSY, n, w2)
        else if n < 0 \<and> (errno = ECONNRESET \<or> errno = EPIPE) then (XI_BSP_IO_NET_STATE_CONNECTION_RESET, n, w2)
        else (XI_BSP_IO_NET_STATE_OK, n, w2))"

definition xi_bsp_io_net_read_posix ::
    "'w posix_calls \<Rightarrow> int \<Rightarrow> nat \<Rightarrow> 'w \<Rightarrow> xi_bsp_io_net_state \<times> int \<times> byte list \<times> 'w" where
  "xi_bsp_io_net_read_posix os socket n_max w =
     (let (n, bs, errno, w1) = sys_read os socket n_max w in
      if n < 0 \<and> errno = EAGAIN then (XI_BSP_IO_NET_STATE_BUSY, n, bs, w1)
      else if n < 0 \<and> (errno = ECONNRESET \<or> errno = EPIPE) then (XI_BSP_IO_NET_STATE_CONNECTION_RESET, n, bs, w1)
      else if n = 0 then (XI_BSP_IO_NET_STATE_CONNECTION_RESET, n, bs, w1)
      else (XI_BSP_IO_NET_STATE_OK, n, bs, w1))"

section \<open>State\<close>

text \<open>
  The layer below the codec layer: its context is \<open>io_context\<close>, the codec layer is its next layer.
  \<open>io_user_data\<close> is the address of its \<open>xi_io_net_layer_state_t\<close>, the two fields after it.
\<close>

record ('g, 'w) xi_net_stack = "'g xi_mqtt_stack" +
  io_layer_state :: xi_layer_state
  io_user_data :: addr
  net_socket :: int
  layer_connect_cs :: nat
  net_host :: "byte list"
  net_port :: "16 word"
  world :: 'w

type_synonym ('g, 'w, 'z) net_result = "(xi_state \<times> ('g, 'w, 'z) xi_net_stack_scheme) option"

definition sizeof_xi_io_net_layer_state :: nat where "sizeof_xi_io_net_layer_state = 16"

definition XI_IO_BUFFER_SIZE :: nat where "XI_IO_BUFFER_SIZE = 32"

definition io_process ::
    "addr \<Rightarrow> 'g stack_fn logic_fn \<Rightarrow> xi_layer_op \<Rightarrow> addr \<Rightarrow> xi_state \<Rightarrow> ('g, 'w, 'z) xi_net_stack_scheme
       \<Rightarrow> xi_state \<times> ('g, 'w, 'z) xi_net_stack_scheme" where
  "io_process target fn op dat st s =
     (let (local_state, next_state, s1) =
        xi_layer_continue_with_impl (if target = NULL then None else Some (Other_Fn fn)) op
          (io_layer_state s) target dat st s
      in (local_state, s1\<lparr>io_layer_state := next_state\<rparr>))"

definition io_process_on_this ::
    "xi_layer_op \<Rightarrow> addr \<Rightarrow> xi_state \<Rightarrow> ('g, 'w, 'z) xi_net_stack_scheme \<Rightarrow> xi_state \<times> ('g, 'w, 'z) xi_net_stack_scheme"
where
  "io_process_on_this op dat st s = io_process (io_context s) (User_Fn (Io_Layer op)) op dat st s"

definition io_process_on_next ::
    "xi_layer_op \<Rightarrow> addr \<Rightarrow> xi_state \<Rightarrow> ('g, 'w, 'z) xi_net_stack_scheme \<Rightarrow> xi_state \<times> ('g, 'w, 'z) xi_net_stack_scheme"
where
  "io_process_on_next op dat st s = io_process (prev_context s) (Prev_Layer op) op dat st s"

definition net_context :: "('g, 'w, 'z) xi_net_stack_scheme \<Rightarrow> addr \<Rightarrow> unit option" where
  "net_context s context = (if context \<noteq> NULL \<and> context = io_context s then Some () else None)"

definition net_shut_down :: "('g, 'w, 'z) xi_net_stack_scheme \<Rightarrow> bool" where
  "net_shut_down s \<longleftrightarrow> XI_THIS_LAYER_NOT_OPERATIONAL (io_layer_state s) \<or> io_user_data s = NULL"

text \<open>The handle of a function of this layer.\<close>

definition net_handle ::
    "xi_layer_op \<Rightarrow> addr \<Rightarrow> addr \<Rightarrow> xi_state \<Rightarrow> 'g stack_fn logic_handle" where
  "net_handle op ctx dat st = xi_make_handle_argc3 0 (Other_Fn (User_Fn (Io_Layer op))) ctx dat st"

section \<open>Writing\<close>

text \<open>
  The loop around \<open>xi_bsp_io_net_write\<close>: it writes up to the capacity of the buffer. A position
  behind the buffer is an access outside of it.
\<close>

partial_function (option) net_write ::
    "'w bsp_io_net \<Rightarrow> int \<Rightarrow> xi_data_desc \<Rightarrow> 'w \<Rightarrow> (xi_bsp_io_net_state \<times> xi_data_desc \<times> 'w) option" where
  "net_write bsp socket d w =
     (if curr_pos d \<le> desc_capacity d \<and> unat (desc_capacity d) \<le> length (data_bytes d)
      then (case bsp_write bsp socket (drop (unat (curr_pos d)) (take (unat (desc_capacity d)) (data_bytes d))) w of
              (st, len, w1) \<Rightarrow>
                if st \<noteq> XI_BSP_IO_NET_STATE_OK then Some (st, d, w1)
                else if desc_capacity d - (curr_pos d + of_int len) > 0
                then net_write bsp socket (d\<lparr>curr_pos := curr_pos d + of_int len\<rparr>) w1
                else Some (XI_BSP_IO_NET_STATE_OK, d\<lparr>curr_pos := curr_pos d + of_int len\<rparr>, w1))
      else None)"

definition net_store ::
    "addr \<Rightarrow> xi_data_desc \<Rightarrow> 'w \<Rightarrow> ('g, 'w, 'z) xi_net_stack_scheme \<Rightarrow> ('g, 'w, 'z) xi_net_stack_scheme" where
  "net_store p d w s = s\<lparr>data_descs := (data_descs s)(p := d), world := w\<rparr>"

text \<open>Everything has been written.\<close>

definition net_written :: "addr \<Rightarrow> ('g, 'w, 'z) xi_net_stack_scheme \<Rightarrow> ('g, 'w, 'z) net_result" where
  "net_written dat s = do {
     s1 \<leftarrow> free_desc_at dat s;
     Some (io_process_on_next Push NULL XI_STATE_WRITTEN s1) }"

text \<open>The write would block: it goes on when the socket can be written to.\<close>

definition net_write_busy ::
    "addr \<Rightarrow> addr \<Rightarrow> ('g, 'w, 'z) xi_net_stack_scheme \<Rightarrow> ('g, 'w, 'z) net_result" where
  "net_write_busy ctx dat s = do {
     (r, s1) \<leftarrow> xi_evtd_continue_when_evt_on_socket s XI_EVENT_WANT_WRITE
                  (net_handle Push ctx dat XI_STATE_WANT_WRITE) (net_socket s);
     if 0 > r then Some (io_process_on_this Close_Externally NULL XI_INTERNAL_ERROR s1)
     else Some (XI_STATE_OK, s1) }"

definition xi_io_net_layer_push ::
    "'w bsp_io_net \<Rightarrow> addr \<Rightarrow> addr \<Rightarrow> xi_state \<Rightarrow> ('g, 'w, 'z) xi_net_stack_scheme \<Rightarrow> ('g, 'w, 'z) net_result" where
  "xi_io_net_layer_push bsp ctx dat st s = do {
     _ \<leftarrow> net_context s ctx;
     if net_shut_down s then do { s1 \<leftarrow> free_desc_at dat s; Some (XI_STATE_OK, s1) }
     else if dat = NULL then net_written dat s
     else do {
       d \<leftarrow> deref_desc s dat;
       if desc_capacity d > 0
       then do {
         (bsp_state, d1, w) \<leftarrow> net_write bsp (net_socket s) d (world s);
         let s1 = net_store dat d1 w s;
         if bsp_state = XI_BSP_IO_NET_STATE_OK then net_written dat s1
         else if bsp_state = XI_BSP_IO_NET_STATE_BUSY then net_write_busy ctx dat s1
         else do {
           s2 \<leftarrow> free_desc_at dat s1;
           if bsp_state = XI_BSP_IO_NET_STATE_CONNECTION_RESET
           then Some (io_process_on_this Close_Externally NULL XI_CONNECTION_RESET_BY_PEER_ERROR s2)
           else Some (io_process_on_this Close_Externally dat XI_SOCKET_WRITE_ERROR s2) } }
       else net_written dat s } }"

section \<open>Reading\<close>

text \<open>A buffer that a read which had to wait has left, cleared.\<close>

definition net_reuse_buffer ::
    "addr \<Rightarrow> ('g, 'w, 'z) xi_net_stack_scheme \<Rightarrow> ('g, 'w, 'z) xi_net_stack_scheme option" where
  "net_reuse_buffer p s = do {
     d \<leftarrow> deref_desc s p;
     xi_assert (XI_IO_BUFFER_SIZE \<le> length (data_bytes d));
     xi_assert (desc_capacity d = of_nat XI_IO_BUFFER_SIZE);
     Some (s\<lparr>data_descs := (data_descs s)(p :=
        d\<lparr>data_bytes := replicate XI_IO_BUFFER_SIZE 0 @ drop XI_IO_BUFFER_SIZE (data_bytes d),
          curr_pos := 0, desc_length := 0\<rparr>)\<rparr>) }"

definition net_pull_error ::
    "addr \<Rightarrow> xi_state \<Rightarrow> ('g, 'w, 'z) xi_net_stack_scheme \<Rightarrow> ('g, 'w, 'z) net_result" where
  "net_pull_error p st s = do {
     s1 \<leftarrow> free_desc_at p s;
     Some (io_process_on_this Close_Externally NULL st s1) }"

text \<open>The bytes that were read go to the codec layer.\<close>

definition net_received ::
    "addr \<Rightarrow> int \<Rightarrow> ('g, 'w, 'z) xi_net_stack_scheme \<Rightarrow> ('g, 'w, 'z) net_result" where
  "net_received p len s = do {
     s1 \<leftarrow> (if elem_no (io_timeouts s) > 0 \<and> connection_timeout (connection_data s) > 0
            then xi_io_timeouts_restart s (uint (connection_timeout (connection_data s))) (io_timeouts s)
            else Some s);
     let s2 = s1\<lparr>data_descs := (data_descs s1)(p := (data_descs s1 p)\<lparr>desc_length := of_int len, curr_pos := 0\<rparr>)\<rparr>;
     Some (io_process_on_next Pull p XI_STATE_OK s2) }"

definition net_read ::
    "'w bsp_io_net \<Rightarrow> addr \<Rightarrow> addr \<Rightarrow> xi_state \<Rightarrow> ('g, 'w, 'z) xi_net_stack_scheme \<Rightarrow> ('g, 'w, 'z) net_result" where
  "net_read bsp ctx p st s = do {
     d \<leftarrow> deref_desc s p;
     let (bsp_state, len, bs, w) = bsp_read bsp (net_socket s) (unat (desc_capacity d)) (world s);
     xi_assert (length bs \<le> length (data_bytes d));
     let s1 = net_store p (d\<lparr>data_bytes := bs @ drop (length bs) (data_bytes d)\<rparr>) w s;
     if bsp_state = XI_BSP_IO_NET_STATE_OK then net_received p len s1
     else if bsp_state = XI_BSP_IO_NET_STATE_BUSY
     then do {
       (_, s2) \<leftarrow> xi_evtd_continue_when_evt_on_socket s1 XI_EVENT_WANT_READ (net_handle Pull ctx p st) (net_socket s1);
       Some (XI_STATE_WANT_READ, s2) }
     else if bsp_state = XI_BSP_IO_NET_STATE_CONNECTION_RESET
     then net_pull_error p XI_CONNECTION_RESET_BY_PEER_ERROR s1
     else net_pull_error p XI_SOCKET_READ_ERROR s1 }"

definition xi_io_net_layer_pull ::
    "'w bsp_io_net \<Rightarrow> addr \<Rightarrow> addr \<Rightarrow> xi_state \<Rightarrow> ('g, 'w, 'z) xi_net_stack_scheme \<Rightarrow> ('g, 'w, 'z) net_result" where
  "xi_io_net_layer_pull bsp ctx dat st s = do {
     _ \<leftarrow> net_context s ctx;
     if net_shut_down s then do { s1 \<leftarrow> free_desc_at dat s; Some (XI_STATE_OK, s1) }
     else if dat \<noteq> NULL then do { s1 \<leftarrow> net_reuse_buffer dat s; net_read bsp ctx dat st s1 }
     else do {
       r \<leftarrow> xi_make_empty_desc_alloc XI_IO_BUFFER_SIZE (tmem s);
       let (p, s1) = keep_desc r s;
       if p = NULL then net_pull_error NULL XI_OUT_OF_MEMORY s1
       else net_read bsp ctx p st s1 } }"

section \<open>Opening and closing\<close>

text \<open>
  \<open>connect\<close> is a coroutine with one yield (label 70), behind the start of the connection. It is
  called with the connection data.
\<close>

definition net_connect_next ::
    "addr \<Rightarrow> xi_state \<Rightarrow> ('g, 'w, 'z) xi_net_stack_scheme \<Rightarrow> ('g, 'w, 'z) net_result" where
  "net_connect_next dat st s = Some (io_process_on_next Connect_Layer dat st (s\<lparr>layer_connect_cs := 1\<rparr>))"

definition net_connect_start ::
    "'w bsp_io_net \<Rightarrow> addr \<Rightarrow> addr \<Rightarrow> ('g, 'w, 'z) xi_net_stack_scheme \<Rightarrow> ('g, 'w, 'z) net_result" where
  "net_connect_start bsp ctx dat s = do {
     (_, s1) \<leftarrow> xi_evtd_register_socket_fd s (net_socket s) (net_handle Pull ctx NULL XI_STATE_OK);
     (_, s2) \<leftarrow> xi_evtd_continue_when_evt_on_socket s1 XI_EVENT_WANT_CONNECT
                  (net_handle Connect_Layer ctx dat XI_STATE_OK) (net_socket s1);
     xi_assert (dat \<noteq> NULL);
     let (bsp_state, sock, w) = bsp_connect bsp (net_socket s2) (net_host s2) (net_port s2) (world s2);
     let s3 = s2\<lparr>net_socket := sock, world := w\<rparr>;
     if bsp_state \<noteq> XI_BSP_IO_NET_STATE_OK then net_connect_next dat XI_SOCKET_CONNECTION_ERROR s3
     else Some (XI_STATE_OK, s3\<lparr>layer_connect_cs := 70\<rparr>) }"

definition net_connect_check ::
    "'w bsp_io_net \<Rightarrow> addr \<Rightarrow> ('g, 'w, 'z) xi_net_stack_scheme \<Rightarrow> ('g, 'w, 'z) net_result" where
  "net_connect_check bsp dat s = do {
     xi_assert (dat \<noteq> NULL);
     let (bsp_state, w) = bsp_connection_check bsp (net_socket s) (net_host s) (net_port s) (world s);
     let s1 = s\<lparr>world := w\<rparr>;
     if bsp_state \<noteq> XI_BSP_IO_NET_STATE_OK then net_connect_next dat XI_SOCKET_GETSOCKOPT_ERROR s1
     else net_connect_next NULL XI_STATE_OK s1 }"

definition xi_io_net_layer_connect ::
    "'w bsp_io_net \<Rightarrow> addr \<Rightarrow> addr \<Rightarrow> xi_state \<Rightarrow> ('g, 'w, 'z) xi_net_stack_scheme \<Rightarrow> ('g, 'w, 'z) net_result" where
  "xi_io_net_layer_connect bsp ctx dat st s = do {
     _ \<leftarrow> net_context s ctx;
     if st \<noteq> XI_STATE_OK then Some (io_process_on_next Connect_Layer NULL st s)
     else if io_user_data s = NULL then Some (io_process_on_next Connect_Layer NULL XI_INTERNAL_ERROR s)
     else if layer_connect_cs s = 70 then net_connect_check bsp dat s
     else net_connect_start bsp ctx dat s }"

text \<open>
  Without memory for its data the code calls \<open>xi_bsp_io_net_close_socket\<close> with the address of the
  first field of a \<open>NULL\<close> structure. As in the POSIX function, that is an error without effect, which
  the code ignores.
\<close>

definition xi_io_net_layer_init ::
    "'w bsp_io_net \<Rightarrow> addr \<Rightarrow> addr \<Rightarrow> xi_state \<Rightarrow> ('g, 'w, 'z) xi_net_stack_scheme \<Rightarrow> ('g, 'w, 'z) net_result" where
  "xi_io_net_layer_init bsp ctx dat st s =
     (if ctx = NULL then Some (XI_INVALID_PARAMETER, s)
      else do {
        _ \<leftarrow> net_context s ctx;
        if io_user_data s \<noteq> NULL then Some (XI_FAILED_INITIALIZATION, s)
        else do {
          let (p, m) = xi_alloc sizeof_xi_io_net_layer_state (tmem s);
          if p = NULL then Some (io_process_on_this Connect_Layer dat XI_OUT_OF_MEMORY (s\<lparr>tmem := m\<rparr>))
          else do {
          let (bsp_state, sock, w) = bsp_create_socket bsp (world s);
          let s1 = s\<lparr>tmem := m, io_user_data := p, net_socket := sock, layer_connect_cs := 0, world := w\<rparr>;
          if bsp_state = XI_BSP_IO_NET_STATE_OK then Some (io_process_on_this Connect_Layer dat XI_STATE_OK s1)
          else do {
            let (_, sock2, w2) = bsp_close_socket bsp sock w;
            Some (io_process_on_this Connect_Layer dat XI_SOCKET_INITIALIZATION_ERROR
              (s1\<lparr>tmem := xi_free p m, io_user_data := NULL, net_socket := sock2, world := w2\<rparr>)) } } } })"

definition xi_io_net_layer_close ::
    "addr \<Rightarrow> addr \<Rightarrow> xi_state \<Rightarrow> ('g, 'w, 'z) xi_net_stack_scheme \<Rightarrow> ('g, 'w, 'z) net_result" where
  "xi_io_net_layer_close ctx dat st s = do {
     _ \<leftarrow> net_context s ctx;
     Some (io_process_on_this Close_Externally dat st s) }"

definition xi_io_net_layer_close_externally ::
    "'w bsp_io_net \<Rightarrow> addr \<Rightarrow> addr \<Rightarrow> xi_state \<Rightarrow> ('g, 'w, 'z) xi_net_stack_scheme \<Rightarrow> ('g, 'w, 'z) net_result" where
  "xi_io_net_layer_close_externally bsp ctx dat st s = do {
     _ \<leftarrow> net_context s ctx;
     if io_user_data s = NULL then Some (io_process_on_next Close_Externally dat st s)
     else do {
       (_, s1) \<leftarrow> xi_evtd_unregister_socket_fd s (net_socket s);
       let (_, sock, w) = bsp_close_socket bsp (net_socket s1) (world s1);
       Some (io_process_on_next Close_Externally dat st
         (s1\<lparr>net_socket := sock, world := w, tmem := xi_free (io_user_data s1) (tmem s1), io_user_data := NULL\<rparr>)) } }"

text \<open>The table of the layer; \<open>post_connect\<close> is the default function, which has no layer below.\<close>

definition net_layer_call ::
    "'w bsp_io_net \<Rightarrow> xi_layer_op \<Rightarrow> addr \<Rightarrow> addr \<Rightarrow> xi_state \<Rightarrow> ('g, 'w, 'z) xi_net_stack_scheme
       \<Rightarrow> ('g, 'w, 'z) net_result" where
  "net_layer_call bsp op c d st s = (case op of
     Push \<Rightarrow> xi_io_net_layer_push bsp c d st s
   | Pull \<Rightarrow> xi_io_net_layer_pull bsp c d st s
   | Close \<Rightarrow> xi_io_net_layer_close c d st s
   | Close_Externally \<Rightarrow> xi_io_net_layer_close_externally bsp c d st s
   | Init \<Rightarrow> xi_io_net_layer_init bsp c d st s
   | Connect_Layer \<Rightarrow> xi_io_net_layer_connect bsp c d st s
   | Post_Connect \<Rightarrow> do { _ \<leftarrow> net_context s c; Some (st, s) })"

end
