(* ===== verification/Xi_Io_Net_Stream.thy ===== *)
theory Xi_Io_Net_Stream
  imports Xi_Io_Net Mqtt_Codec_Pull
begin

text \<open>
  What the network layer does with a stream of bytes: a buffer is written to the socket byte by
  byte in order, however often the socket is busy, as long as the platform reports what it took;
  the bytes that are read reach the codec layer. And two ways in which the platform's reports and
  the layer misunderstand each other.
\<close>

section \<open>Posting\<close>

lemma io_process_granted:
  assumes "granted (tmem s)" "target \<noteq> NULL"
  obtains q m where "io_process target fn op dat st s = (XI_STATE_OK, s\<lparr>tmem := m,
      call_queue := call_queue s @ [(q, xi_make_handle_argc3 0 (Other_Fn fn) target dat st)],
      io_layer_state := get_next_layer_state op (io_layer_state s) st\<rparr>)"
    "granted m" "live_blocks m = insert q (live_blocks (tmem s))" "q \<notin> live_blocks (tmem s)"
proof -
  obtain q m where a: "xi_alloc sizeof_xi_event_handle_queue (tmem s) = (q, m)" by fastforce
  have q: "q \<noteq> NULL" "live_blocks m = insert q (live_blocks (tmem s))" "q \<notin> live_blocks (tmem s)" "granted m"
    using a assms(1) xi_alloc_mem_ok [OF a]
    by (auto simp: granted_def xi_alloc_def sizeof_xi_event_handle_queue_def PTRDIFF_MAX_def mem_ok_def split: if_splits)
  then show thesis
    using a assms(2) by (intro that [of q m])
      (simp_all add: io_process_def xi_layer_continue_with_impl_def xi_evtd_execute_def)
qed

definition net_up :: "('g, 'w, 'z) xi_net_stack_scheme \<Rightarrow> bool" where
  "net_up s \<longleftrightarrow> io_context s \<noteq> NULL \<and> prev_context s \<noteq> NULL \<and> \<not> net_shut_down s \<and> granted (tmem s)"

text \<open>The socket's registration with the dispatcher.\<close>

definition socket_registered :: "('g, 'w, 'z) xi_net_stack_scheme \<Rightarrow> addr \<Rightarrow> bool" where
  "socket_registered s tp \<longleftrightarrow> live s tp \<and> fd_type (fd_tuples s tp) = XI_EVTD_FD_TYPE_SOCKET
     \<and> (\<exists>i. xi_vector_find (handles_and_socket_fd s) (net_socket s) (xi_evtd_cmp_fd s) = Some i \<and> i \<noteq> -1
          \<and> arr_get (array (handles_and_socket_fd s)) i = Some tp)"

lemma socket_continue:
  assumes "socket_registered s tp"
  shows "xi_evtd_continue_when_evt_on_socket s etype h (net_socket s)
    = Some (1, s\<lparr>fd_tuples := (fd_tuples s)(tp := (fd_tuples s tp)\<lparr>event_type := etype, handle := h\<rparr>)\<rparr>)"
  using assms by (auto simp: socket_registered_def xi_evtd_continue_when_evt_on_socket_def deref_tuple_def live_def xi_assert_def)

section \<open>What the platform promises\<close>

text \<open>
  \<open>taken w\<close> are the bytes the socket has taken. A write that succeeds takes a part of the bytes, at
  least one, and says how many; any other takes none. The header file of the board support package
  would also let a write that is \<open>BUSY\<close> take some: the layer does not cope with that, see
  \<open>partial_busy_write_is_repeated\<close>; the POSIX function never does it.
\<close>

definition takes_bytes :: "'w bsp_io_net \<Rightarrow> ('w \<Rightarrow> byte list) \<Rightarrow> bool" where
  "takes_bytes bsp taken \<longleftrightarrow> (\<forall>socket bs w. bs \<noteq> [] \<longrightarrow> (case bsp_write bsp socket bs w of
     (st, n, w1) \<Rightarrow> if st = XI_BSP_IO_NET_STATE_OK then 0 < n \<and> n \<le> int (length bs) \<and> taken w1 = taken w @ take (nat n) bs
                    else taken w1 = taken w))"

text \<open>The POSIX function keeps that promise when the system calls fail only for the reasons it knows.\<close>

definition posix_takes_bytes :: "'w posix_calls \<Rightarrow> ('w \<Rightarrow> byte list) \<Rightarrow> bool" where
  "posix_takes_bytes os taken \<longleftrightarrow> (\<forall>socket bs w. bs \<noteq> [] \<longrightarrow>
     (case sys_so_error os socket w of (r, e, w1) \<Rightarrow> taken w1 = taken w
        \<and> (case sys_write os socket bs w1 of (n, errno, w2) \<Rightarrow>
             if n < 0 then errno \<in> {EAGAIN, ECONNRESET, EPIPE} \<and> taken w2 = taken w1
             else 0 < n \<and> n \<le> int (length bs) \<and> taken w2 = taken w1 @ take (nat n) bs)))"

lemma posix_write_takes_bytes:
  assumes "posix_takes_bytes os taken" "bsp_write bsp = xi_bsp_io_net_write_posix os"
  shows "takes_bytes bsp taken"
  unfolding takes_bytes_def
proof (intro allI impI)
  fix socket :: int and bs :: "byte list" and w
  assume bs: "bs \<noteq> []"
  obtain r e w1 where a: "sys_so_error os socket w = (r, e, w1)" by (cases "sys_so_error os socket w")
  obtain n errno w2 where b: "sys_write os socket bs w1 = (n, errno, w2)" by (cases "sys_write os socket bs w1")
  show "case bsp_write bsp socket bs w of
     (st, n, w1) \<Rightarrow> if st = XI_BSP_IO_NET_STATE_OK then 0 < n \<and> n \<le> int (length bs) \<and> taken w1 = taken w @ take (nat n) bs
                    else taken w1 = taken w"
    using assms(1) [unfolded posix_takes_bytes_def, rule_format, OF bs, where socket = socket and w = w] a b
    by (auto simp: assms(2) xi_bsp_io_net_write_posix_def Let_def split: if_splits)
qed

section \<open>Writing a buffer\<close>

text \<open>A buffer that is to be written up to its end: its capacity is what it holds.\<close>

definition full :: "xi_data_desc \<Rightarrow> bool" where
  "full d \<longleftrightarrow> src_ok d \<and> desc_capacity d = desc_length d"

lemma full_rest:
  "full d \<Longrightarrow> drop (unat (curr_pos d)) (take (unat (desc_capacity d)) (data_bytes d)) = rest d"
  "full d \<Longrightarrow> curr_pos d \<le> desc_capacity d \<and> unat (desc_capacity d) \<le> length (data_bytes d)"
  by (auto simp: full_def rest_def contents_def src_ok_def desc_ok_def)

lemma rest_words: "src_ok d \<Longrightarrow> length (rest d) = unat (desc_length d - curr_pos d)"
  by (auto simp: rest_def src_ok_def length_contents unat_sub)

text \<open>The position moved on by \<open>k\<close> bytes.\<close>

definition advance :: "nat \<Rightarrow> xi_data_desc \<Rightarrow> xi_data_desc" where
  "advance k d = d\<lparr>curr_pos := curr_pos d + of_nat k\<rparr>"

lemma advance_simps [simp]:
  "advance 0 d = d" "advance j (advance k d) = advance (k + j) d"
  "desc_capacity (advance k d) = desc_capacity d" "desc_length (advance k d) = desc_length d"
  "data_bytes (advance k d) = data_bytes d" "desc_block (advance k d) = desc_block d"
  "desc_memory_type (advance k d) = desc_memory_type d" "data_ptr (advance k d) = data_ptr d"
  "desc_blocks (Some (advance k d)) = desc_blocks (Some d)"
  by (simp_all add: advance_def desc_blocks_def ac_simps)

lemma advance_rest:
  assumes "full d" "k \<le> length (rest d)"
  shows "full (advance k d)" "rest (advance k d) = drop k (rest d)"
proof -
  have p: "unat (curr_pos d) + k \<le> unat (desc_length d)"
    using assms by (simp add: full_def rest_def src_ok_def length_contents word_le_nat_alt) linarith
  moreover have l: "unat (desc_length d) < 2 ^ 32" using unsigned_less [of "desc_length d", where ?'a = nat] by simp
  ultimately have u: "unat (curr_pos d + of_nat k) = unat (curr_pos d) + k"
    by (simp add: unat_word_ariths unat_of_nat)
  then show "full (advance k d)"
    using assms(1) p by (simp add: full_def src_ok_def desc_ok_def word_le_nat_alt advance_def)
  show "rest (advance k d) = drop k (rest d)"
    using u by (simp add: rest_def advance_def contents_def add.commute)
qed

lemma net_write_takes:
  assumes b: "takes_bytes bsp taken" and d: "full d" "rest d \<noteq> []"
  shows "\<exists>st k w1. net_write bsp socket d w = Some (st, advance k d, w1) \<and> k \<le> length (rest d)
    \<and> taken w1 = taken w @ take k (rest d) \<and> (st = XI_BSP_IO_NET_STATE_OK \<longleftrightarrow> k = length (rest d))"
  using d
proof (induct "length (rest d)" arbitrary: d w rule: less_induct)
  case less
  obtain st n w1 where w: "bsp_write bsp socket (rest d) w = (st, n, w1)" by (cases "bsp_write bsp socket (rest d) w")
  note p = b [unfolded takes_bytes_def, rule_format, OF less.prems(2), where socket = socket and w = w] w
  have loop: "net_write bsp socket d w = (if st \<noteq> XI_BSP_IO_NET_STATE_OK then Some (st, d, w1)
      else if desc_capacity d - (curr_pos d + of_int n) > 0
      then net_write bsp socket (d\<lparr>curr_pos := curr_pos d + of_int n\<rparr>) w1
      else Some (XI_BSP_IO_NET_STATE_OK, d\<lparr>curr_pos := curr_pos d + of_int n\<rparr>, w1))"
    by (subst net_write.simps) (simp add: full_rest [OF less.prems(1)] w)
  show ?case
  proof (cases "st = XI_BSP_IO_NET_STATE_OK")
    case False
    then show ?thesis using loop p less.prems(2) by (intro exI [of _ st] exI [of _ 0] exI [of _ w1]) simp
  next
    case True
    define k where "k = nat n"
    have k: "0 < k" "k \<le> length (rest d)" "taken w1 = taken w @ take k (rest d)" using p True by (auto simp: k_def)
    have n: "of_int n = (of_nat k :: 32 word)" using p True by (simp add: k_def)
    have dk: "d\<lparr>curr_pos := curr_pos d + of_int n\<rparr> = advance k d" by (simp add: advance_def n)
    note adv = advance_rest [OF less.prems(1) k(2)]
    have left: "desc_capacity d - (curr_pos d + of_int n) > 0 \<longleftrightarrow> rest (advance k d) \<noteq> []"
      using rest_words [of "advance k d"] adv(1) less.prems(1)
      by (cases "rest (advance k d)") (auto simp: full_def word_gt_0 advance_def n unat_eq_0)
    show ?thesis
    proof (cases "rest (advance k d) = []")
      case True
      then have "k = length (rest d)" using adv(2) k(2) by simp
      then show ?thesis using loop left True \<open>st = XI_BSP_IO_NET_STATE_OK\<close> k(3) dk
        by (intro exI [of _ st] exI [of _ k] exI [of _ w1]) simp
    next
      case False
      have "length (rest (advance k d)) < length (rest d)" using adv(2) k(1,2) by simp
      from less.hyps [OF this adv(1) False]
      obtain st' j w2 where j: "net_write bsp socket (advance k d) w1 = Some (st', advance j (advance k d), w2)"
        "j \<le> length (rest (advance k d))" "taken w2 = taken w1 @ take j (rest (advance k d))"
        "st' = XI_BSP_IO_NET_STATE_OK \<longleftrightarrow> j = length (rest (advance k d))" by blast
      then show ?thesis
        using loop left False \<open>st = XI_BSP_IO_NET_STATE_OK\<close> k dk adv(2)
        by (intro exI [of _ st'] exI [of _ "k + j"] exI [of _ w2]) (auto simp: take_add)
    qed
  qed
qed

text \<open>A buffer at its address.\<close>

definition net_buffer :: "('g, 'w, 'z) xi_net_stack_scheme \<Rightarrow> addr \<Rightarrow> bool" where
  "net_buffer s b \<longleftrightarrow> live s b \<and> full (data_descs s b) \<and> rest (data_descs s b) \<noteq> []"

text \<open>The three ends of a call: written, waiting for the socket, given up.\<close>

definition says_written :: "('g, 'w, 'z) xi_net_stack_scheme \<Rightarrow> ('g, 'w, 'z) xi_net_stack_scheme \<Rightarrow> bool" where
  "says_written u v \<longleftrightarrow> posts u [xi_make_handle_argc3 0 (Other_Fn (Prev_Layer Push)) (prev_context u) NULL XI_STATE_WRITTEN] v"

definition gives_up :: "('g, 'w, 'z) xi_net_stack_scheme \<Rightarrow> ('g, 'w, 'z) xi_net_stack_scheme \<Rightarrow> bool" where
  "gives_up u v \<longleftrightarrow> (\<exists>dat st. st \<noteq> XI_STATE_OK \<and> posts u [net_handle Close_Externally (io_context u) dat st] v)"

definition waits_to_write :: "('g, 'w, 'z) xi_net_stack_scheme \<Rightarrow> addr \<Rightarrow> addr \<Rightarrow> bool" where
  "waits_to_write v tp b \<longleftrightarrow> event_type (fd_tuples v tp) = XI_EVENT_WANT_WRITE
     \<and> handle (fd_tuples v tp) = net_handle Push (io_context v) b XI_STATE_WANT_WRITE \<and> net_buffer v b"

lemma net_push_step:
  assumes b: "takes_bytes bsp taken" and up: "net_up u" and d: "net_buffer u b" and r: "socket_registered u tp"
  obtains (written) v where "xi_io_net_layer_push bsp (io_context u) b st u = Some (XI_STATE_OK, v)" "says_written u v"
      "taken (world v) = taken (world u) @ rest (data_descs u b)"
  | (waiting) v k where "xi_io_net_layer_push bsp (io_context u) b st u = Some (XI_STATE_OK, v)" "posts u [] v"
      "waits_to_write v tp b" "k < length (rest (data_descs u b))" "data_descs v b = advance k (data_descs u b)"
      "taken (world v) = taken (world u) @ take k (rest (data_descs u b))"
  | (lost) v k where "xi_io_net_layer_push bsp (io_context u) b st u = Some (XI_STATE_OK, v)" "gives_up u v"
      "k < length (rest (data_descs u b))" "taken (world v) = taken (world u) @ take k (rest (data_descs u b))"
proof -
  let ?d = "data_descs u b"
  have up': "io_context u \<noteq> NULL" "prev_context u \<noteq> NULL" "\<not> net_shut_down u" "granted (tmem u)"
    "net_context u (io_context u) = Some ()" using up by (simp_all add: net_up_def net_context_def)
  have d': "live u b" "full ?d" "rest ?d \<noteq> []" "b \<noteq> NULL" "desc_memory_type ?d \<noteq> XI_MEMORY_TYPE_UNKNOWN"
    using d by (auto simp: net_buffer_def live_def full_def src_ok_def desc_ok_def)
  have cap: "desc_capacity ?d > 0"
    using rest_words [of ?d] d'(2,3) by (cases "rest ?d") (auto simp: full_def src_ok_def word_gt_0)
  obtain bst k w where wr: "net_write bsp (net_socket u) ?d (world u) = Some (bst, advance k ?d, w)" "k \<le> length (rest ?d)"
    "taken w = taken (world u) @ take k (rest ?d)" "bst = XI_BSP_IO_NET_STATE_OK \<longleftrightarrow> k = length (rest ?d)"
    using net_write_takes [OF b d'(2,3)] by blast
  define s1 where "s1 = net_store b (advance k ?d) w u"
  have s1: "tmem s1 = tmem u" "data_descs s1 = (data_descs u)(b := advance k ?d)" "world s1 = w" "io_context s1 = io_context u"
    "prev_context s1 = prev_context u" "call_queue s1 = call_queue u" "net_socket s1 = net_socket u" "fd_tuples s1 = fd_tuples u"
    "handles_and_socket_fd s1 = handles_and_socket_fd u" by (simp_all add: s1_def net_store_def)
  have live1: "live s1 a \<longleftrightarrow> live u a" for a using s1(1) by (simp add: live_def)
  let ?s2 = "s1\<lparr>tmem := release (desc_blocks (Some ?d)) (tmem s1)\<rparr>"
  have free: "free_desc_at b s1 = Some ?s2"
    using free_buffer [of s1 b] live1 d'(1,5) s1(2) by simp
  have g2: "granted (tmem ?s2)" using up'(4) s1(1) by (simp add: granted_def)
  have push: "xi_io_net_layer_push bsp (io_context u) b st u = (
         if bst = XI_BSP_IO_NET_STATE_OK then net_written b s1
         else if bst = XI_BSP_IO_NET_STATE_BUSY then net_write_busy (io_context u) b s1
         else Some (io_process_on_this Close_Externally (if bst = XI_BSP_IO_NET_STATE_CONNECTION_RESET then NULL else b)
             (if bst = XI_BSP_IO_NET_STATE_CONNECTION_RESET then XI_CONNECTION_RESET_BY_PEER_ERROR else XI_SOCKET_WRITE_ERROR) ?s2))"
    using up' d' cap wr(1) free
    by (simp add: xi_io_net_layer_push_def deref_desc_def s1_def [symmetric])
  have lost_case: thesis if "bst \<noteq> XI_BSP_IO_NET_STATE_OK" "bst \<noteq> XI_BSP_IO_NET_STATE_BUSY"
  proof -
    let ?dat = "if bst = XI_BSP_IO_NET_STATE_CONNECTION_RESET then NULL else b"
    let ?st = "if bst = XI_BSP_IO_NET_STATE_CONNECTION_RESET then XI_CONNECTION_RESET_BY_PEER_ERROR else XI_SOCKET_WRITE_ERROR"
    have t: "io_context ?s2 \<noteq> NULL" using up'(1) s1(4) by simp
    obtain q m where post: "io_process (io_context ?s2) (User_Fn (Io_Layer Close_Externally)) Close_Externally ?dat ?st ?s2
        = (XI_STATE_OK, ?s2\<lparr>tmem := m,
      call_queue := call_queue ?s2 @ [(q, xi_make_handle_argc3 0 (Other_Fn (User_Fn (Io_Layer Close_Externally))) (io_context ?s2) ?dat ?st)],
      io_layer_state := get_next_layer_state Close_Externally (io_layer_state ?s2) ?st\<rparr>)"
      by (rule io_process_granted [OF g2 t, of "User_Fn (Io_Layer Close_Externally)" Close_Externally ?dat ?st])
    define v where "v = ?s2\<lparr>tmem := m, call_queue := call_queue u @ [(q, net_handle Close_Externally (io_context u) ?dat ?st)],
      io_layer_state := XI_LAYER_STATE_CLOSED\<rparr>"
    have "xi_io_net_layer_push bsp (io_context u) b st u = Some (XI_STATE_OK, v)"
      using push post that s1 by (simp add: io_process_on_this_def v_def net_handle_def)
    moreover have "gives_up u v" unfolding gives_up_def
      by (intro exI [of _ ?dat] exI [of _ ?st]) (simp add: posts_def v_def)
    moreover have "k < length (rest ?d)" using wr(2,4) that by auto
    moreover have "taken (world v) = taken (world u) @ take k (rest ?d)" using wr(3) s1 by (simp add: v_def)
    ultimately show thesis by (rule lost)
  qed
  show thesis
  proof (cases bst)
    case XI_BSP_IO_NET_STATE_OK
    have t: "prev_context ?s2 \<noteq> NULL" using up'(2) s1(5) by simp
    obtain q m where post: "io_process (prev_context ?s2) (Prev_Layer Push) Push NULL XI_STATE_WRITTEN ?s2
        = (XI_STATE_OK, ?s2\<lparr>tmem := m,
      call_queue := call_queue ?s2 @ [(q, xi_make_handle_argc3 0 (Other_Fn (Prev_Layer Push)) (prev_context ?s2) NULL XI_STATE_WRITTEN)],
      io_layer_state := get_next_layer_state Push (io_layer_state ?s2) XI_STATE_WRITTEN\<rparr>)"
      by (rule io_process_granted [OF g2 t, of "Prev_Layer Push" Push NULL XI_STATE_WRITTEN])
    then show thesis
      using written push free XI_BSP_IO_NET_STATE_OK wr(3,4) s1
      by (simp add: net_written_def io_process_on_next_def says_written_def posts_def)
  next
    case XI_BSP_IO_NET_STATE_BUSY
    have "socket_registered s1 tp"
    proof -
      have "xi_evtd_cmp_fd s1 = xi_evtd_cmp_fd u" by (simp add: fun_eq_iff xi_evtd_cmp_fd_def deref_tuple_def s1)
      then show ?thesis using r by (simp add: socket_registered_def live1 s1)
    qed
    note c = socket_continue [OF this, of XI_EVENT_WANT_WRITE "net_handle Push (io_context u) b XI_STATE_WANT_WRITE"]
    let ?v = "s1\<lparr>fd_tuples := (fd_tuples s1)(tp := (fd_tuples s1 tp)\<lparr>event_type := XI_EVENT_WANT_WRITE,
        handle := net_handle Push (io_context u) b XI_STATE_WANT_WRITE\<rparr>)\<rparr>"
    have k: "k < length (rest ?d)" using wr(2,4) XI_BSP_IO_NET_STATE_BUSY by auto
    have "net_buffer ?v b" using advance_rest [OF d'(2) wr(2)] k d'(1) s1(1,2) by (simp add: net_buffer_def live_def)
    then have "waits_to_write ?v tp b" using s1 by (simp add: waits_to_write_def)
    moreover have "xi_io_net_layer_push bsp (io_context u) b st u = Some (XI_STATE_OK, ?v)"
      using push c XI_BSP_IO_NET_STATE_BUSY by (simp add: net_write_busy_def)
    ultimately show thesis using waiting [of ?v k] k wr(3) s1 by (simp add: posts_def)
  next
    case XI_BSP_IO_NET_STATE_ERROR
    show thesis by (rule lost_case) (simp_all add: XI_BSP_IO_NET_STATE_ERROR)
  next
    case XI_BSP_IO_NET_STATE_CONNECTION_RESET
    show thesis by (rule lost_case) (simp_all add: XI_BSP_IO_NET_STATE_CONNECTION_RESET)
  next
    case XI_BSP_IO_NET_STATE_TIMEOUT
    show thesis by (rule lost_case) (simp_all add: XI_BSP_IO_NET_STATE_TIMEOUT)
  qed
qed

text \<open>
  The calls that write one buffer: the first one, and one more each time the dispatcher sees the
  socket ready after a call that left it waiting. \<open>u\<close> is the state before the last call.
\<close>

definition still_waiting ::
    "('w \<Rightarrow> byte list) \<Rightarrow> addr \<Rightarrow> ('g, 'w, 'z) xi_net_stack_scheme \<Rightarrow> ('g, 'w, 'z) xi_net_stack_scheme \<Rightarrow> bool" where
  "still_waiting taken b t u \<longleftrightarrow> taken (world u) = taken (world t) \<and> data_descs u b = data_descs t b \<and> live u b"

inductive write_run ::
    "'w bsp_io_net \<Rightarrow> ('w \<Rightarrow> byte list) \<Rightarrow> addr \<Rightarrow> addr \<Rightarrow> ('g, 'w, 'z) xi_net_stack_scheme
       \<Rightarrow> ('g, 'w, 'z) xi_net_stack_scheme \<Rightarrow> ('g, 'w, 'z) xi_net_stack_scheme \<Rightarrow> bool"
  for bsp taken tp b s where
  write_first: "xi_io_net_layer_push bsp (io_context s) b st s = Some (r, v) \<Longrightarrow> write_run bsp taken tp b s s v"
| write_again: "write_run bsp taken tp b s u t \<Longrightarrow> posts u [] t \<Longrightarrow> waits_to_write t tp b \<Longrightarrow> still_waiting taken b t u'
    \<Longrightarrow> net_up u' \<Longrightarrow> socket_registered u' tp
    \<Longrightarrow> xi_io_net_layer_push bsp (io_context u') b XI_STATE_WANT_WRITE u' = Some (r, v) \<Longrightarrow> write_run bsp taken tp b s u' v"

text \<open>How far a run has got: \<open>k\<close> of the bytes \<open>bs\<close> are out.\<close>

definition written_so_far ::
    "('w \<Rightarrow> byte list) \<Rightarrow> addr \<Rightarrow> addr \<Rightarrow> ('g, 'w, 'z) xi_net_stack_scheme \<Rightarrow> ('g, 'w, 'z) xi_net_stack_scheme
       \<Rightarrow> ('g, 'w, 'z) xi_net_stack_scheme \<Rightarrow> nat \<Rightarrow> bool" where
  "written_so_far taken tp b s u v k \<longleftrightarrow> k \<le> length (rest (data_descs s b))
     \<and> taken (world v) = taken (world s) @ take k (rest (data_descs s b))
     \<and> (says_written u v \<and> k = length (rest (data_descs s b))
        \<or> posts u [] v \<and> waits_to_write v tp b \<and> k < length (rest (data_descs s b)) \<and> data_descs v b = advance k (data_descs s b)
        \<or> gives_up u v \<and> k < length (rest (data_descs s b)))"

lemma posts_nothing: "posts u [] v \<Longrightarrow> \<not> says_written u v \<and> \<not> gives_up u v"
  by (auto simp: says_written_def gives_up_def posts_def)

lemma written_push:
  assumes b: "takes_bytes bsp taken" and up: "net_up u" "socket_registered u tp" "net_buffer u b"
    and s: "full (data_descs s b)" "data_descs u b = advance k (data_descs s b)" "k < length (rest (data_descs s b))"
      "taken (world u) = taken (world s) @ take k (rest (data_descs s b))"
  shows "\<exists>v j. xi_io_net_layer_push bsp (io_context u) b st u = Some (XI_STATE_OK, v) \<and> written_so_far taken tp b s u v j"
proof -
  let ?r = "rest (data_descs s b)"
  have r: "rest (data_descs u b) = drop k ?r" using advance_rest(2) [OF s(1)] s(2,3) by simp
  from b up(1,3,2) show ?thesis
  proof (cases rule: net_push_step [where st = st])
    case (written v)
    then show ?thesis using s(4) r by (intro exI [of _ v] exI [of _ "length ?r"]) (simp add: written_so_far_def)
  next
    case (waiting v j)
    then show ?thesis using s r
      by (intro exI [of _ v] exI [of _ "k + j"]) (auto simp: written_so_far_def take_add)
  next
    case (lost v j)
    then show ?thesis using s r
      by (intro exI [of _ v] exI [of _ "k + j"]) (auto simp: written_so_far_def take_add)
  qed
qed

lemma write_run_so_far:
  assumes "write_run bsp taken tp b s u v" "takes_bytes bsp taken" "net_up s" "net_buffer s b" "socket_registered s tp"
  shows "\<exists>k. written_so_far taken tp b s u v k"
  using assms
proof (induct rule: write_run.induct)
  case (write_first st r v)
  then show ?case using written_push [of bsp taken s tp b s 0 st] by (auto simp: net_buffer_def)
next
  case (write_again u t u' r v)
  then obtain k where k: "written_so_far taken tp b s u t k" by blast
  then have w: "k < length (rest (data_descs s b))" "data_descs t b = advance k (data_descs s b)"
    "taken (world t) = taken (world s) @ take k (rest (data_descs s b))"
    using posts_nothing [OF write_again.hyps(3)] by (auto simp: written_so_far_def)
  have f: "full (data_descs s b)" using write_again.prems(3) by (simp add: net_buffer_def)
  have u': "data_descs u' b = advance k (data_descs s b)" "taken (world u') = taken (world s) @ take k (rest (data_descs s b))"
    using write_again.hyps(5) w by (simp_all add: still_waiting_def)
  then have "net_buffer u' b" using write_again.hyps(5) advance_rest [OF f, of k] w(1) by (simp add: net_buffer_def still_waiting_def)
  then show ?case
    using written_push [OF write_again.prems(1) write_again.hyps(6,7) _ f u'(1) w(1) u'(2), of XI_STATE_WANT_WRITE]
      write_again.hyps(8) by auto
qed

text \<open>
  After every call the socket has taken the beginning of the buffer's bytes. This is for a platform
  that takes nothing when it does not say \<open>OK\<close>; the properties below have it for the POSIX functions.
\<close>

lemma writes_in_order:
  fixes s :: "('g, 'w, 'z) xi_net_stack_scheme"
  assumes "takes_bytes bsp taken" "net_up s" "net_buffer s b" "socket_registered s tp" "write_run bsp taken tp b s u v"
  shows "(\<exists>k. taken (world v) = taken (world s) @ take k (rest (data_descs s b))
      \<and> (says_written u v \<and> k = length (rest (data_descs s b))
         \<or> posts u [] v \<and> waits_to_write v tp b \<and> rest (data_descs v b) = drop k (rest (data_descs s b)) \<and> k < length (rest (data_descs s b))
         \<or> gives_up u v \<and> k < length (rest (data_descs s b))))
    \<and> (posts u [] v \<longrightarrow> (\<forall>u'. still_waiting taken b v u' \<and> net_up u' \<and> socket_registered u' tp
         \<longrightarrow> (\<exists>v'. xi_io_net_layer_push bsp (io_context u') b XI_STATE_WANT_WRITE u' = Some (XI_STATE_OK, v'))))"
proof -
  obtain k where k: "written_so_far taken tp b s u v k" using write_run_so_far [OF assms(5,1-4)] by blast
  have f: "full (data_descs s b)" using assms(3) by (simp add: net_buffer_def)
  have r: "rest (advance k (data_descs s b)) = drop k (rest (data_descs s b))" if "k < length (rest (data_descs s b))"
    using advance_rest(2) [OF f] that by simp
  have "\<exists>v'. xi_io_net_layer_push bsp (io_context u') b XI_STATE_WANT_WRITE u' = Some (XI_STATE_OK, v')"
    if "posts u [] v" "still_waiting taken b v u'" "net_up u'" "socket_registered u' tp" for u'
  proof -
    have w: "k < length (rest (data_descs s b))" "data_descs v b = advance k (data_descs s b)"
      "taken (world v) = taken (world s) @ take k (rest (data_descs s b))"
      using k posts_nothing [OF that(1)] by (auto simp: written_so_far_def)
    have u': "data_descs u' b = advance k (data_descs s b)" "taken (world u') = taken (world s) @ take k (rest (data_descs s b))"
      using that(2) w by (simp_all add: still_waiting_def)
    have "net_buffer u' b" using that(2) advance_rest [OF f, of k] w u'(1) by (simp add: net_buffer_def still_waiting_def)
    then show ?thesis using written_push [OF assms(1) that(3,4) _ f u'(1) w(1) u'(2)] by blast
  qed
  moreover have "taken (world v) = taken (world s) @ take k (rest (data_descs s b))
      \<and> (says_written u v \<and> k = length (rest (data_descs s b))
         \<or> posts u [] v \<and> waits_to_write v tp b \<and> rest (data_descs v b) = drop k (rest (data_descs s b)) \<and> k < length (rest (data_descs s b))
         \<or> gives_up u v \<and> k < length (rest (data_descs s b)))"
    using k r by (auto simp: written_so_far_def)
  ultimately show ?thesis by blast
qed

text \<open>A socket that takes one byte, then is busy, then takes everything; two bytes wait to be read.\<close>

definition bsp_example :: "(nat \<times> byte list) bsp_io_net" where
  "bsp_example = \<lparr>bsp_create_socket = (\<lambda>w. (XI_BSP_IO_NET_STATE_OK, 5, w)),
     bsp_connect = (\<lambda>s h p w. (XI_BSP_IO_NET_STATE_OK, s, w)), bsp_connection_check = (\<lambda>s h p w. (XI_BSP_IO_NET_STATE_OK, w)),
     bsp_write = (\<lambda>s bs (n, out).
        if n = 0 then (XI_BSP_IO_NET_STATE_OK, 1, (1, out @ take 1 bs))
        else if n = 1 then (XI_BSP_IO_NET_STATE_BUSY, 0, (2, out))
        else (XI_BSP_IO_NET_STATE_OK, int (length bs), (n, out @ bs))),
     bsp_read = (\<lambda>s m w. (XI_BSP_IO_NET_STATE_OK, 2, [7, 8], w)),
     bsp_close_socket = (\<lambda>s w. (XI_BSP_IO_NET_STATE_OK, 0, w))\<rparr>"

definition net_example :: "(nat, 'w) xi_net_stack" where
  "net_example = xi_mqtt_stack.extend
     (codec_example\<lparr>tmem := \<lparr>alloc_script = [], next_block = 80, live_blocks = {5, 6, 7, 8, 70, 71}\<rparr>,
        handles_and_socket_fd := \<lparr>vec_block = 7, array_block = 8, array = [5, 0], elem_no = 1, capacity = 2,
           memory_type = XI_MEMORY_TYPE_MANAGED\<rparr>\<rparr>)
     (xi_net_stack.fields XI_LAYER_STATE_CONNECTED 6 5 1 [] 0 undefined)"

lemma net_example_facts:
  fixes w :: 'w
  defines "s \<equiv> net_example\<lparr>world := w\<rparr>"
  shows "net_up s" "net_buffer s 70" "socket_registered s 5" "rest (data_descs s 70) = [0x20, 2, 0, 0, 0x40]" "world s = w"
    "io_context s = 66" "net_socket s = 5" "curr_pos (data_descs s 70) = 0" "elem_no (io_timeouts s) = 0"
    "codec_msg (codec_data s) = NULL" "desc_length (data_descs s 70) = 5"
proof -
  have d: "data_descs s 70 = bytes_desc 70 [0x20, 2, 0, 0, 0x40]"
    by (simp add: s_def net_example_def xi_mqtt_stack.defs xi_net_stack.defs codec_example_def)
  have b: "src_ok (bytes_desc 70 [0x20, 2, 0, 0, 0x40])" "rest (bytes_desc 70 [0x20, 2, 0, 0, 0x40]) = [0x20, 2, 0, 0, 0x40]"
    using bytes_desc_arrives [of "[0x20, 2, 0, 0, 0x40]" 70] by simp_all
  show "rest (data_descs s 70) = [0x20, 2, 0, 0, 0x40]" using d b by simp
  have "desc_capacity (bytes_desc 70 [0x20, 2, 0, 0, 0x40]) = desc_length (bytes_desc 70 [0x20, 2, 0, 0, 0x40])"
    by (simp add: bytes_desc_def)
  then show "net_buffer s 70" using d b
    by (simp add: net_buffer_def full_def)
      (simp add: live_def s_def net_example_def xi_mqtt_stack.defs xi_net_stack.defs codec_example_def)
  show "net_up s" "world s = w" "io_context s = 66" "net_socket s = 5" "curr_pos (data_descs s 70) = 0" "elem_no (io_timeouts s) = 0"
    "codec_msg (codec_data s) = NULL" "desc_length (data_descs s 70) = 5"
    by (simp_all add: net_up_def net_shut_down_def s_def net_example_def xi_mqtt_stack.defs xi_net_stack.defs codec_example_def
        XI_THIS_LAYER_NOT_OPERATIONAL_def granted_def mem_ok_def bytes_desc_def zero_codec_data_def)
  have "xi_vector_find (handles_and_socket_fd s) (net_socket s) (xi_evtd_cmp_fd s) = Some 0"
    by (simp add: xi_vector_find_def xi_vector_find_from.simps xi_evtd_cmp_fd_def deref_tuple_def arr_get_def
        s_def net_example_def xi_mqtt_stack.defs xi_net_stack.defs codec_example_def)
  then show "socket_registered s 5"
    by (simp add: socket_registered_def arr_get_def live_def)
      (simp add: s_def net_example_def xi_mqtt_stack.defs xi_net_stack.defs codec_example_def)
qed

section \<open>A single write\<close>

lemma net_write_once:
  assumes "full d" "bsp_write bsp socket (rest d) w = (st, n, w1)"
    "st \<noteq> XI_BSP_IO_NET_STATE_OK \<or> n = int (length (rest d))"
  shows "net_write bsp socket d w = Some (st, if st = XI_BSP_IO_NET_STATE_OK then advance (length (rest d)) d else d, w1)"
proof -
  have "desc_capacity d - (curr_pos d + of_nat (length (rest d))) = 0"
    using rest_words [of d] assms(1) by (simp add: full_def)
  moreover have "net_write bsp socket d w = (if st \<noteq> XI_BSP_IO_NET_STATE_OK then Some (st, d, w1)
      else if desc_capacity d - (curr_pos d + of_int n) > 0
      then net_write bsp socket (d\<lparr>curr_pos := curr_pos d + of_int n\<rparr>) w1
      else Some (XI_BSP_IO_NET_STATE_OK, d\<lparr>curr_pos := curr_pos d + of_int n\<rparr>, w1))"
    by (subst net_write.simps) (simp add: full_rest [OF assms(1)] assms(2))
  ultimately show ?thesis using assms(3) by (auto simp: advance_def)
qed

text \<open>A call whose single write is answered with \<open>BUSY\<close>, and one whose single write is answered with \<open>OK\<close>.\<close>

lemma busy_push:
  assumes up: "net_up u" "net_buffer u b" "socket_registered u tp"
    and w: "bsp_write bsp (net_socket u) (rest (data_descs u b)) (world u) = (XI_BSP_IO_NET_STATE_BUSY, n, w1)"
  obtains v where "xi_io_net_layer_push bsp (io_context u) b st u = Some (XI_STATE_OK, v)" "world v = w1"
    "data_descs v = data_descs u" "net_up v" "net_buffer v b" "socket_registered v tp" "io_context v = io_context u" "net_socket v = net_socket u"
    "waits_to_write v tp b" "posts u [] v"
proof -
  let ?d = "data_descs u b"
  have f: "full ?d" "rest ?d \<noteq> []" "live u b" using up(2) by (simp_all add: net_buffer_def)
  have cap: "desc_capacity ?d > 0"
    using rest_words [of ?d] f(1,2) by (cases "rest ?d") (auto simp: full_def src_ok_def word_gt_0)
  have wr: "net_write bsp (net_socket u) ?d (world u) = Some (XI_BSP_IO_NET_STATE_BUSY, ?d, w1)"
    using net_write_once [OF f(1) w] by simp
  define s1 where "s1 = net_store b ?d w1 u"
  have s1: "tmem s1 = tmem u" "data_descs s1 = data_descs u" "world s1 = w1" "io_context s1 = io_context u"
    "prev_context s1 = prev_context u" "net_socket s1 = net_socket u" "fd_tuples s1 = fd_tuples u" "io_layer_state s1 = io_layer_state u"
    "io_user_data s1 = io_user_data u" "handles_and_socket_fd s1 = handles_and_socket_fd u" by (simp_all add: s1_def net_store_def)
  have cmp: "xi_evtd_cmp_fd s1 = xi_evtd_cmp_fd u" by (simp add: fun_eq_iff xi_evtd_cmp_fd_def deref_tuple_def s1)
  then have reg: "socket_registered s1 tp" using up(3) by (simp add: socket_registered_def live_def s1)
  let ?h = "net_handle Push (io_context u) b XI_STATE_WANT_WRITE"
  let ?t = "(fd_tuples s1 tp)\<lparr>event_type := XI_EVENT_WANT_WRITE, handle := ?h\<rparr>"
  define v where "v = s1\<lparr>fd_tuples := (fd_tuples s1)(tp := ?t)\<rparr>"
  have v: "tmem v = tmem u" "data_descs v = data_descs u" "world v = w1" "io_context v = io_context u"
    "prev_context v = prev_context u" "net_socket v = net_socket u" "io_layer_state v = io_layer_state u"
    "io_user_data v = io_user_data u" "handles_and_socket_fd v = handles_and_socket_fd u" "fd_tuples v = (fd_tuples u)(tp := ?t)"
    by (simp_all add: v_def s1)
  have "xi_evtd_cmp_fd v = xi_evtd_cmp_fd u"
    by (auto simp: fun_eq_iff xi_evtd_cmp_fd_def deref_tuple_def v s1 split: if_splits)
  then have "socket_registered v tp" using up(3) s1(7) by (simp add: socket_registered_def live_def v)
  moreover have "xi_io_net_layer_push bsp (io_context u) b st u = Some (XI_STATE_OK, v)"
    using up(1) f(3) cap wr socket_continue [OF reg, of XI_EVENT_WANT_WRITE ?h] s1(6)
    by (simp add: xi_io_net_layer_push_def deref_desc_def net_up_def net_context_def live_def net_write_busy_def
        s1_def [symmetric] v_def)
  moreover have "net_up v" "net_buffer v b" using up(1,2) by (simp_all add: net_up_def net_shut_down_def net_buffer_def live_def v)
  moreover from this(2) have "waits_to_write v tp b" by (simp add: waits_to_write_def v)
  moreover have "posts u [] v" by (simp add: posts_def v_def s1_def net_store_def)
  ultimately show thesis using that v by blast
qed

lemma final_push:
  fixes v :: "('g, 'w, 'z) xi_net_stack_scheme"
  assumes up: "net_up v" "net_buffer v b"
    and w: "bsp_write bsp (net_socket v) (rest (data_descs v b)) (world v) = (XI_BSP_IO_NET_STATE_OK, int (length (rest (data_descs v b))), wb)"
  obtains x where "xi_io_net_layer_push bsp (io_context v) b st v = Some (XI_STATE_OK, x)" "says_written v x" "world x = wb"
proof -
  let ?d = "data_descs v b"
  have f: "full ?d" "rest ?d \<noteq> []" "live v b" "desc_memory_type ?d \<noteq> XI_MEMORY_TYPE_UNKNOWN"
    using up(2) by (auto simp: net_buffer_def full_def src_ok_def desc_ok_def)
  have cap: "desc_capacity ?d > 0"
    using rest_words [of ?d] f(1,2) by (cases "rest ?d") (auto simp: full_def src_ok_def word_gt_0)
  have wr: "net_write bsp (net_socket v) ?d (world v) = Some (XI_BSP_IO_NET_STATE_OK, advance (length (rest ?d)) ?d, wb)"
    using net_write_once [OF f(1), of bsp "net_socket v" "world v"] w by simp
  define s1 where "s1 = net_store b (advance (length (rest ?d)) ?d) wb v"
  let ?s2 = "s1\<lparr>tmem := release (desc_blocks (Some ?d)) (tmem s1)\<rparr>"
  have free: "free_desc_at b s1 = Some ?s2"
    using free_buffer [of s1 b] f(3,4) by (simp add: s1_def net_store_def live_def)
  have g: "granted (tmem ?s2)" "prev_context ?s2 \<noteq> NULL"
    using up(1) by (simp_all add: net_up_def granted_def s1_def net_store_def)
  obtain q m where post: "io_process (prev_context ?s2) (Prev_Layer Push) Push NULL XI_STATE_WRITTEN ?s2
        = (XI_STATE_OK, ?s2\<lparr>tmem := m,
      call_queue := call_queue ?s2 @ [(q, xi_make_handle_argc3 0 (Other_Fn (Prev_Layer Push)) (prev_context ?s2) NULL XI_STATE_WRITTEN)],
      io_layer_state := get_next_layer_state Push (io_layer_state ?s2) XI_STATE_WRITTEN\<rparr>)"
    by (rule io_process_granted [OF g, of "Prev_Layer Push" Push NULL XI_STATE_WRITTEN])
  define x where "x = ?s2\<lparr>tmem := m,
      call_queue := call_queue ?s2 @ [(q, xi_make_handle_argc3 0 (Other_Fn (Prev_Layer Push)) (prev_context ?s2) NULL XI_STATE_WRITTEN)],
      io_layer_state := get_next_layer_state Push (io_layer_state ?s2) XI_STATE_WRITTEN\<rparr>"
  have "xi_io_net_layer_push bsp (io_context v) b st v = Some (XI_STATE_OK, x)"
    using up(1) f(3) cap wr free post
    by (simp add: xi_io_net_layer_push_def deref_desc_def net_up_def net_context_def live_def net_written_def
        io_process_on_next_def s1_def [symmetric] x_def)
  moreover have "says_written v x" by (simp add: says_written_def posts_def x_def s1_def net_store_def)
  moreover have "world x = wb" by (simp add: x_def s1_def net_store_def)
  ultimately show thesis using that by blast
qed

section \<open>The POSIX functions write each byte once\<close>

text \<open>
  C26: over the POSIX functions of the repository the network layer writes every byte of a buffer once
  and in order, as long as the system calls fail only for the reasons these functions know (\<open>EAGAIN\<close>,
  \<open>ECONNRESET\<close>, \<open>EPIPE\<close>; others are \<open>posix_errors_taken_for_success\<close>), a successful \<open>write\<close> takes at
  least one byte, the layer is up, its socket registered, and memory is granted. However often the
  socket is busy, and however \<open>write\<close> cuts the bytes, after each call the socket has taken the
  beginning of the buffer's bytes, and the layer says that the buffer is written exactly when it
  has taken all of them; otherwise the layer has registered itself to go on at the first byte that
  is left, or has given up and closes. The call that goes on returns.
\<close>
theorem net_writes_each_byte_once:
  fixes s :: "('g, 'w, 'z) xi_net_stack_scheme"
  assumes "bsp_write bsp = xi_bsp_io_net_write_posix os" "posix_takes_bytes os taken"
    and "net_up s" "net_buffer s b" "socket_registered s tp" "write_run bsp taken tp b s u v"
  shows "(\<exists>k. taken (world v) = taken (world s) @ take k (rest (data_descs s b))
      \<and> (says_written u v \<and> k = length (rest (data_descs s b))
         \<or> posts u [] v \<and> waits_to_write v tp b \<and> rest (data_descs v b) = drop k (rest (data_descs s b)) \<and> k < length (rest (data_descs s b))
         \<or> gives_up u v \<and> k < length (rest (data_descs s b))))
    \<and> (posts u [] v \<longrightarrow> (\<forall>u'. still_waiting taken b v u' \<and> net_up u' \<and> socket_registered u' tp
         \<longrightarrow> (\<exists>v'. xi_io_net_layer_push bsp (io_context u') b XI_STATE_WANT_WRITE u' = Some (XI_STATE_OK, v'))))"
  by (rule writes_in_order [OF posix_write_takes_bytes [OF assms(2,1)] assms(3-6)])

text \<open>A \<open>write\<close> that would block once and then takes everything.\<close>

definition busy_once :: "(nat \<times> byte list) posix_calls" where
  "busy_once = \<lparr>sys_so_error = (\<lambda>s w. (0, 0, w)),
     sys_write = (\<lambda>s bs (n, out). if n = 0 then (-1, EAGAIN, (1, out)) else (int (length bs), EAGAIN, (n, out @ bs))),
     sys_read = (\<lambda>s m w. (-1, [], EAGAIN, w))\<rparr>"

definition busy_once_bsp :: "(nat \<times> byte list) bsp_io_net" where
  "busy_once_bsp = bsp_example\<lparr>bsp_write := xi_bsp_io_net_write_posix busy_once\<rparr>"

theorem net_writes_each_byte_once_witness:
  "\<exists>(v :: (nat, nat \<times> byte list) xi_net_stack) x. xi_io_net_layer_push busy_once_bsp 66 70 XI_STATE_OK (net_example\<lparr>world := (0, [])\<rparr>) = Some (XI_STATE_OK, v)
     \<and> waits_to_write v 5 70 \<and> snd (world v) = []
     \<and> xi_io_net_layer_push busy_once_bsp (io_context v) 70 XI_STATE_WANT_WRITE v = Some (XI_STATE_OK, x)
     \<and> says_written v x \<and> snd (world x) = [0x20, 2, 0, 0, 0x40]"
proof -
  let ?s = "net_example\<lparr>world := (0, [])\<rparr> :: (nat, nat \<times> byte list) xi_net_stack" and ?bs = "[0x20, 2, 0, 0, 0x40] :: byte list"
  note f = net_example_facts [of "(0 :: nat, [] :: byte list)"]
  have b: "bsp_write busy_once_bsp = xi_bsp_io_net_write_posix busy_once" "posix_takes_bytes busy_once snd"
    by (auto simp: busy_once_bsp_def posix_takes_bytes_def busy_once_def Suc_le_eq split: prod.splits)
  have w: "bsp_write busy_once_bsp socket bs (0, out) = (XI_BSP_IO_NET_STATE_BUSY, -1, (1, out))"
    "bsp_write busy_once_bsp socket bs (1, out) = (XI_BSP_IO_NET_STATE_OK, int (length bs), (1, out @ bs))" for socket bs out
    by (simp_all add: b(1) xi_bsp_io_net_write_posix_def busy_once_def)
  obtain v where v: "xi_io_net_layer_push busy_once_bsp (io_context ?s) 70 XI_STATE_OK ?s = Some (XI_STATE_OK, v)" "world v = (1, [])"
    "data_descs v = data_descs ?s" "net_up v" "net_buffer v 70" "socket_registered v 5" "io_context v = io_context ?s" "waits_to_write v 5 70"
    "posts ?s [] v"
    by (rule busy_push [OF f(1-3), of busy_once_bsp "-1" "(1, [])" XI_STATE_OK]) (use w(1) f(5) in auto)
  obtain x where x: "xi_io_net_layer_push busy_once_bsp (io_context v) 70 XI_STATE_WANT_WRITE v = Some (XI_STATE_OK, x)" "says_written v x"
    by (rule final_push [OF v(4,5), of busy_once_bsp "(1, ?bs)" XI_STATE_WANT_WRITE]) (use w(2) v(2,3) f(4) in auto)
  have first: "write_run busy_once_bsp snd 5 70 ?s ?s v" using v(1) by (rule write_first)
  have "write_run busy_once_bsp snd 5 70 ?s v x"
    by (rule write_again [OF first v(9,8) _ v(4,6) x(1)]) (use v(5) in \<open>simp add: still_waiting_def net_buffer_def\<close>)
  from net_writes_each_byte_once [OF b f(1-3) this] obtain k where k: "snd (world x) = snd (world ?s) @ take k (rest (data_descs ?s 70))"
    "says_written v x \<and> k = length (rest (data_descs ?s 70)) \<or> posts v [] x \<or> gives_up v x" by blast
  moreover have "\<not> (says_written v x \<and> gives_up v x)"
    by (auto simp: says_written_def gives_up_def posts_def net_handle_def xi_make_handle_argc3_def)
  ultimately have "snd (world x) = ?bs" using x(2) posts_nothing [of v x] f(4,5) by auto
  then show ?thesis using v x f(6) by auto
qed

section \<open>Misunderstandings\<close>

text \<open>
  C28: a platform that reports a partial write the way the header asks for makes the layer send
  bytes twice. \<open>xi_bsp_io_net.h\<close> says that a write which could not take everything returns \<open>BUSY\<close>
  with the number of bytes it took, and that it will be called again with the remaining data. The
  layer does not look at that number: it is called again with all of the bytes, so the first \<open>n\<close>
  go out twice, and the buffer is reported as written.
\<close>
theorem partial_busy_write_is_repeated:
  fixes s :: "('g, 'w, 'z) xi_net_stack_scheme"
  assumes "net_up s" "net_buffer s b" "socket_registered s tp"
    and "bsp_write bsp (net_socket s) (rest (data_descs s b)) (world s) = (XI_BSP_IO_NET_STATE_BUSY, int n, wa)"
      "taken wa = taken (world s) @ take n (rest (data_descs s b))"
    and "bsp_write bsp (net_socket s) (rest (data_descs s b)) wa = (XI_BSP_IO_NET_STATE_OK, int (length (rest (data_descs s b))), wb)"
      "taken wb = taken wa @ rest (data_descs s b)"
  shows "\<exists>v v'. xi_io_net_layer_push bsp (io_context s) b XI_STATE_OK s = Some (XI_STATE_OK, v) \<and> waits_to_write v tp b
    \<and> xi_io_net_layer_push bsp (io_context v) b XI_STATE_WANT_WRITE v = Some (XI_STATE_OK, v') \<and> says_written v v'
    \<and> taken (world v') = taken (world s) @ take n (rest (data_descs s b)) @ rest (data_descs s b)"
proof -
  obtain v where v: "xi_io_net_layer_push bsp (io_context s) b XI_STATE_OK s = Some (XI_STATE_OK, v)" "world v = wa"
    "data_descs v = data_descs s" "net_up v" "net_buffer v b" "socket_registered v tp" "io_context v = io_context s" "net_socket v = net_socket s"
    "waits_to_write v tp b"
    by (rule busy_push [OF assms(1-4)])
  obtain x where "xi_io_net_layer_push bsp (io_context v) b XI_STATE_WANT_WRITE v = Some (XI_STATE_OK, x)" "says_written v x" "world x = wb"
    using final_push [OF v(4,5), of bsp wb XI_STATE_WANT_WRITE] assms(6) v(2,3,8) by auto
  then show ?thesis using v(1,3,9) assms(5,7) by (intro exI [of _ v] exI [of _ x]) simp
qed

definition busy_example :: "(nat \<times> byte list) bsp_io_net" where
  "busy_example = bsp_example\<lparr>bsp_write := (\<lambda>s bs (n, out).
     if n = 0 then (XI_BSP_IO_NET_STATE_BUSY, 2, (1, out @ take 2 bs))
     else (XI_BSP_IO_NET_STATE_OK, int (length bs), (n, out @ bs)))\<rparr>"

theorem partial_busy_write_is_repeated_witness:
  "\<exists>(v :: (nat, nat \<times> byte list) xi_net_stack) v'. xi_io_net_layer_push busy_example 66 70 XI_STATE_OK (net_example\<lparr>world := (0, [])\<rparr>) = Some (XI_STATE_OK, v)
     \<and> xi_io_net_layer_push busy_example (io_context v) 70 XI_STATE_WANT_WRITE v = Some (XI_STATE_OK, v')
     \<and> says_written v v' \<and> snd (world v') = [0x20, 2, 0x20, 2, 0, 0, 0x40]"
proof -
  let ?s = "net_example\<lparr>world := (0, [])\<rparr> :: (nat, nat \<times> byte list) xi_net_stack"
  note f = net_example_facts [of "(0 :: nat, [] :: byte list)"]
  have "\<exists>v v'. xi_io_net_layer_push busy_example (io_context ?s) 70 XI_STATE_OK ?s = Some (XI_STATE_OK, v) \<and> waits_to_write v 5 70
    \<and> xi_io_net_layer_push busy_example (io_context v) 70 XI_STATE_WANT_WRITE v = Some (XI_STATE_OK, v') \<and> says_written v v'
    \<and> snd (world v') = snd (world ?s) @ take 2 (rest (data_descs ?s 70)) @ rest (data_descs ?s 70)"
    by (rule partial_busy_write_is_repeated [OF f(1-3), where wa = "(1, [0x20, 2])" and wb = "(1, [0x20, 2, 0x20, 2, 0, 0, 0x40])"])
      (simp_all only: f(4,5), simp_all add: busy_example_def)
  then show ?thesis using f(4-6) by auto
qed

lemma posix_failed_write:
  assumes d: "full d" "rest d \<noteq> []" "curr_pos d = 0" "desc_length d \<noteq> -1"
    and os: "bsp_write bsp = xi_bsp_io_net_write_posix os" "sys_so_error os socket w = (0, 0, w1)"
      "sys_write os socket (rest d) w1 = (-1, Other_Errno e, w2)"
  shows "net_write bsp socket d w = None"
proof -
  have w: "bsp_write bsp socket (rest d) w = (XI_BSP_IO_NET_STATE_OK, -1, w2)"
    using os by (simp add: xi_bsp_io_net_write_posix_def)
  have c: "desc_capacity d \<noteq> -1" "desc_capacity d + 1 \<noteq> 0" using d(1,4) by (simp_all add: full_def eq_neg_iff_add_eq_0 [symmetric])
  have "net_write bsp socket d w = (if desc_capacity d - (curr_pos d + of_int (-1)) > 0
      then net_write bsp socket (d\<lparr>curr_pos := curr_pos d + of_int (-1)\<rparr>) w2
      else Some (XI_BSP_IO_NET_STATE_OK, d\<lparr>curr_pos := curr_pos d + of_int (-1)\<rparr>, w2))"
    by (subst net_write.simps) (simp add: full_rest [OF d(1)] w)
  then have "net_write bsp socket d w = net_write bsp socket (d\<lparr>curr_pos := -1\<rparr>) w2"
    using c(2) by (simp add: d(3) word_gt_0)
  also have "\<dots> = None"
    using c(1) by (subst net_write.simps) (simp add: word_order.extremum_unique)
  finally show ?thesis .
qed

section \<open>Reading\<close>

text \<open>The message that the codec layer is reading lives in blocks that are allocated.\<close>

definition codec_msg_held :: "('g, 'z) xi_mqtt_stack_scheme \<Rightarrow> bool" where
  "codec_msg_held s \<longleftrightarrow> (codec_msg (codec_data s) \<noteq> NULL \<longrightarrow> live s (codec_msg (codec_data s))
     \<and> foreign_message (- live_blocks (tmem s)) (mqtt_messages s (codec_msg (codec_data s))))"

lemma foreign_message_mono: "foreign_message X m \<Longrightarrow> Y \<subseteq> X \<Longrightarrow> foreign_message Y m"
  by (auto simp: foreign_message_def foreign_def)

text \<open>A new buffer for reading.\<close>

lemma new_buffer:
  assumes "granted (tmem s)"
  obtains p m d where "xi_make_empty_desc_alloc XI_IO_BUFFER_SIZE (tmem s) = Some (Some d, m)"
    "desc_block d = p" "p \<noteq> NULL" "granted m" "d = (zero_desc p)\<lparr>data_ptr := Suc p, data_bytes := replicate 32 0,
      desc_length := 0, desc_capacity := 32, desc_memory_type := XI_MEMORY_TYPE_MANAGED\<rparr>"
    "live_blocks m = {p, Suc p} \<union> live_blocks (tmem s)" "{p, Suc p} \<inter> live_blocks (tmem s) = {}"
proof -
  let ?p = "next_block (tmem s)"
  let ?d = "(zero_desc ?p)\<lparr>data_ptr := Suc ?p, data_bytes := replicate 32 0,
      desc_length := 0, desc_capacity := 32, desc_memory_type := XI_MEMORY_TYPE_MANAGED\<rparr>"
  let ?m = "(tmem s)\<lparr>next_block := Suc (Suc ?p), live_blocks := insert (Suc ?p) (insert ?p (live_blocks (tmem s)))\<rparr>"
  have ok: "mem_ok (tmem s)" "alloc_script (tmem s) = []" using assms by (simp_all add: granted_def)
  have nb: "?p \<noteq> 0" "{?p, Suc ?p} \<inter> live_blocks (tmem s) = {}" "granted ?m" using ok by (auto simp: granted_def mem_ok_def)
  have "xi_make_empty_desc_alloc XI_IO_BUFFER_SIZE (tmem s) = Some (Some ?d, ?m)"
    using ok nb(1) by (simp add: xi_make_empty_desc_alloc_def xi_alloc_def XI_IO_BUFFER_SIZE_def sizeof_xi_data_desc_def
        PTRDIFF_MAX_def xi_assert_def)
  then show thesis using nb by (intro that [of ?d ?m ?p]) (auto simp: zero_desc_def)
qed

lemma net_pull_new:
  assumes up: "net_up s" and t: "elem_no (io_timeouts s) \<le> 0 \<or> connection_timeout (connection_data s) = 0"
    and r: "bsp_read bsp (net_socket s) 32 (world s) = (XI_BSP_IO_NET_STATE_OK, len, bs, w1)" "length bs \<le> 32"
  obtains v b where "xi_io_net_layer_pull bsp (io_context s) NULL st s = Some (XI_STATE_OK, v)"
    "posts s [xi_make_handle_argc3 0 (Other_Fn (Prev_Layer Pull)) (prev_context s) b XI_STATE_OK] v" "world v = w1"
    "live v b" "desc_block (data_descs v b) = b" "data_bytes (data_descs v b) = bs @ replicate (32 - length bs) 0"
    "desc_length (data_descs v b) = of_int len" "curr_pos (data_descs v b) = 0" "desc_capacity (data_descs v b) = 32"
    "desc_memory_type (data_descs v b) = XI_MEMORY_TYPE_MANAGED" "desc_blocks (Some (data_descs v b)) \<subseteq> live_blocks (tmem v)"
    "desc_blocks (Some (data_descs v b)) \<inter> live_blocks (tmem s) = {}"
    "codec_data v = codec_data s" "mqtt_messages v = mqtt_messages s" "live_blocks (tmem s) \<subseteq> live_blocks (tmem v)"
    "data_ptr (data_descs v b) \<notin> live_blocks (tmem s)" "b \<notin> live_blocks (tmem s)" "parser_static v = parser_static s"
proof -
  have u: "io_context s \<noteq> NULL" "prev_context s \<noteq> NULL" "\<not> net_shut_down s" "granted (tmem s)"
    using up by (simp_all add: net_up_def)
  obtain p m d where d: "xi_make_empty_desc_alloc XI_IO_BUFFER_SIZE (tmem s) = Some (Some d, m)"
    "desc_block d = p" "p \<noteq> NULL" "granted m" "d = (zero_desc p)\<lparr>data_ptr := Suc p, data_bytes := replicate 32 0,
      desc_length := 0, desc_capacity := 32, desc_memory_type := XI_MEMORY_TYPE_MANAGED\<rparr>"
    "live_blocks m = {p, Suc p} \<union> live_blocks (tmem s)" "{p, Suc p} \<inter> live_blocks (tmem s) = {}"
    by (rule new_buffer [OF u(4)])
  let ?e = "d\<lparr>data_bytes := bs @ drop (length bs) (data_bytes d), desc_length := of_int len, curr_pos := 0\<rparr>"
  define s1 where "s1 = s\<lparr>tmem := m, world := w1, data_descs := (data_descs s)(p := ?e)\<rparr>"
  have g: "granted (tmem s1)" "prev_context s1 \<noteq> NULL" using d(4) u(2) by (simp_all add: s1_def)
  obtain q m' where post: "io_process (prev_context s1) (Prev_Layer Pull) Pull p XI_STATE_OK s1
        = (XI_STATE_OK, s1\<lparr>tmem := m',
      call_queue := call_queue s1 @ [(q, xi_make_handle_argc3 0 (Other_Fn (Prev_Layer Pull)) (prev_context s1) p XI_STATE_OK)],
      io_layer_state := get_next_layer_state Pull (io_layer_state s1) XI_STATE_OK\<rparr>)"
    "granted m'" "live_blocks m' = insert q (live_blocks (tmem s1))"
    by (rule io_process_granted [OF g, of "Prev_Layer Pull" Pull p XI_STATE_OK])
  define v where "v = s1\<lparr>tmem := m',
      call_queue := call_queue s @ [(q, xi_make_handle_argc3 0 (Other_Fn (Prev_Layer Pull)) (prev_context s) p XI_STATE_OK)],
      io_layer_state := io_layer_state s\<rparr>"
  have nt: "\<not> (elem_no (io_timeouts s) > 0 \<and> connection_timeout (connection_data s) > 0)" using t by (auto simp: word_gt_0)
  have dd: "desc_capacity d = 32" "data_bytes d = replicate 32 0" "desc_memory_type d = XI_MEMORY_TYPE_MANAGED" "data_ptr d = Suc p"
    using d(5) by simp_all
  have blocks: "desc_blocks (Some ?e) = {p, Suc p}" using d(2,3) dd by (auto simp: desc_blocks_def)
  have "xi_io_net_layer_pull bsp (io_context s) NULL st s = Some (XI_STATE_OK, v)"
    using u d(1-3,6) r dd nt post(1)
    by (cases "elem_no (io_timeouts s) > 0")
      (simp_all add: xi_io_net_layer_pull_def net_context_def keep_desc_def net_read_def deref_desc_def live_def
        net_store_def net_received_def io_process_on_next_def s1_def v_def Let_def)
  moreover have "posts s [xi_make_handle_argc3 0 (Other_Fn (Prev_Layer Pull)) (prev_context s) p XI_STATE_OK] v"
    by (simp add: posts_def v_def)
  moreover have "live v p" using d(3,6) post(3) by (simp add: live_def v_def s1_def)
  ultimately show thesis
    using d(2,6,7) dd blocks post(3) by (intro that [of v p]) (auto simp: v_def s1_def)
qed

text \<open>
  C27: what is read reaches the codec layer. When the platform reads bytes, the layer posts the codec
  layer's \<open>pull\<close> with a new buffer that holds exactly these bytes and that the codec layer may
  take over: it is allocated, and no part of the message being read. The layer is up, memory is
  granted, the call is a fresh one (no buffer is left from a call before), and no connection timeout
  is running, so that none is restarted.
\<close>
theorem net_read_reaches_codec:
  fixes s :: "('g, 'w, 'z) xi_net_stack_scheme"
  assumes "net_up s" "elem_no (io_timeouts s) \<le> 0 \<or> connection_timeout (connection_data s) = 0"
    and "bsp_read bsp (net_socket s) 32 (world s) = (XI_BSP_IO_NET_STATE_OK, int (length bs), bs, w1)" "bs \<noteq> []" "length bs \<le> 32"
    and "codec_msg_held s"
  shows "\<exists>v b. xi_io_net_layer_pull bsp (io_context s) NULL st s = Some (XI_STATE_OK, v)
    \<and> posts s [xi_make_handle_argc3 0 (Other_Fn (Prev_Layer Pull)) (prev_context s) b XI_STATE_OK] v
    \<and> buffer_at v b \<and> rest (data_descs v b) = bs \<and> undisturbed s v \<and> world v = w1"
proof -
  obtain v b where v: "xi_io_net_layer_pull bsp (io_context s) NULL st s = Some (XI_STATE_OK, v)"
    "posts s [xi_make_handle_argc3 0 (Other_Fn (Prev_Layer Pull)) (prev_context s) b XI_STATE_OK] v" "world v = w1"
    "live v b" "desc_block (data_descs v b) = b" "data_bytes (data_descs v b) = bs @ replicate (32 - length bs) 0"
    "desc_length (data_descs v b) = of_int (int (length bs))" "curr_pos (data_descs v b) = 0" "desc_capacity (data_descs v b) = 32"
    "desc_memory_type (data_descs v b) = XI_MEMORY_TYPE_MANAGED" "desc_blocks (Some (data_descs v b)) \<subseteq> live_blocks (tmem v)"
    "desc_blocks (Some (data_descs v b)) \<inter> live_blocks (tmem s) = {}"
    "codec_data v = codec_data s" "mqtt_messages v = mqtt_messages s" "live_blocks (tmem s) \<subseteq> live_blocks (tmem v)"
    "data_ptr (data_descs v b) \<notin> live_blocks (tmem s)" "b \<notin> live_blocks (tmem s)" "parser_static v = parser_static s"
    by (rule net_pull_new [OF assms(1-3,5)])
  have len: "unat (of_nat (length bs) :: 32 word) = length bs" using assms(5) by (intro of_nat_inverse) simp_all
  have r: "src_ok (data_descs v b)" "rest (data_descs v b) = bs"
    using v(6-10) len assms(5) by (simp_all add: src_ok_def desc_ok_def rest_def contents_def word_le_nat_alt)
  have held: "codec_msg (codec_data v) \<notin> desc_blocks (Some (data_descs v b))
      \<and> foreign_message (desc_blocks (Some (data_descs v b))) (mqtt_messages v (codec_msg (codec_data v)))"
    if "codec_msg (codec_data v) \<noteq> NULL"
    using assms(6) that v(12-14) by (auto simp: codec_msg_held_def live_def intro: foreign_message_mono)
  have "buffer_at v b" using v(4,5,10,11) r held assms(4) by (simp add: buffer_at_def)
  moreover have "undisturbed s v" using v(13-15,18) assms(6) by (auto simp: undisturbed_def codec_msg_held_def live_def)
  ultimately show ?thesis using v(1-3) r(2) by blast
qed

theorem net_read_reaches_codec_witness:
  "\<exists>(v :: (nat, nat \<times> byte list) xi_net_stack) b. xi_io_net_layer_pull bsp_example 66 NULL XI_STATE_OK (net_example\<lparr>world := (0, [])\<rparr>) = Some (XI_STATE_OK, v)
     \<and> buffer_at v b \<and> rest (data_descs v b) = [7, 8]"
proof -
  let ?s = "net_example\<lparr>world := (0, [])\<rparr> :: (nat, nat \<times> byte list) xi_net_stack"
  note f = net_example_facts [of "(0 :: nat, [] :: byte list)"]
  have "bsp_read bsp_example (net_socket ?s) 32 (world ?s) = (XI_BSP_IO_NET_STATE_OK, int (length [7, 8 :: byte]), [7, 8], world ?s)"
    by (simp add: bsp_example_def)
  then show ?thesis
    using net_read_reaches_codec [OF f(1) _ _ _ _, of bsp_example "[7, 8]" "world ?s" XI_STATE_OK] f(6,9,10)
    by (auto simp: codec_msg_held_def)
qed

text \<open>
  C29: the POSIX functions take errors for successes. A system call that fails for another reason
  than the three they know (\<open>ETIMEDOUT\<close>, \<open>EINTR\<close>, \<open>ENOBUFS\<close>, \<open>EBADF\<close>, and so on) is reported as \<open>OK\<close>
  with the count \<open>-1\<close>. A failed \<open>write\<close> makes the layer move the position of the buffer to
  \<open>2 ^ 32 - 1\<close> and read memory that does not belong to it, so that the call has no result; a failed
  \<open>read\<close> makes it hand over a buffer of 32 bytes that claims to hold \<open>2 ^ 32 - 1\<close>.
\<close>
theorem posix_errors_taken_for_success:
  fixes s :: "('g, 'w, 'z) xi_net_stack_scheme"
  assumes "net_up s" "bsp_write bsp = xi_bsp_io_net_write_posix os" "bsp_read bsp = xi_bsp_io_net_read_posix os"
    and "net_buffer s b" "curr_pos (data_descs s b) = 0" "desc_length (data_descs s b) \<noteq> -1"
    and "sys_so_error os (net_socket s) (world s) = (0, 0, w1)"
      "sys_write os (net_socket s) (rest (data_descs s b)) w1 = (-1, Other_Errno e, w2)"
    and "elem_no (io_timeouts s) \<le> 0 \<or> connection_timeout (connection_data s) = 0"
      "sys_read os (net_socket s) 32 (world s) = (-1, [], Other_Errno e', w3)"
  shows "xi_io_net_layer_push bsp (io_context s) b st s = None
    \<and> (\<exists>v c. xi_io_net_layer_pull bsp (io_context s) NULL st s = Some (XI_STATE_OK, v)
       \<and> posts s [xi_make_handle_argc3 0 (Other_Fn (Prev_Layer Pull)) (prev_context s) c XI_STATE_OK] v
       \<and> length (data_bytes (data_descs v c)) = 32 \<and> unat (desc_length (data_descs v c)) = 2 ^ 32 - 1)"
proof (rule conjI)
  have d: "full (data_descs s b)" "rest (data_descs s b) \<noteq> []" "live s b"
    using assms(4) by (simp_all add: net_buffer_def)
  have cap: "desc_capacity (data_descs s b) > 0"
    using rest_words [of "data_descs s b"] d(1,2) by (cases "rest (data_descs s b)") (auto simp: full_def src_ok_def word_gt_0)
  show "xi_io_net_layer_push bsp (io_context s) b st s = None"
    using posix_failed_write [OF d(1,2) assms(5,6,2,7,8)] assms(1) d(3) cap
    by (simp add: xi_io_net_layer_push_def deref_desc_def net_up_def net_context_def live_def)
  have r: "bsp_read bsp (net_socket s) 32 (world s) = (XI_BSP_IO_NET_STATE_OK, -1, [], w3)"
    using assms(3,10) by (simp add: xi_bsp_io_net_read_posix_def)
  obtain v c where v: "xi_io_net_layer_pull bsp (io_context s) NULL st s = Some (XI_STATE_OK, v)"
    "posts s [xi_make_handle_argc3 0 (Other_Fn (Prev_Layer Pull)) (prev_context s) c XI_STATE_OK] v"
    "data_bytes (data_descs v c) = [] @ replicate (32 - length []) 0" "desc_length (data_descs v c) = of_int (-1)"
    by (rule net_pull_new [OF assms(1,9) r]) simp_all
  moreover have "unat (-1 :: 32 word) = 2 ^ 32 - 1" by (simp add: unsigned_minus_1_eq_mask mask_eq_exp_minus_1)
  ultimately show "\<exists>v c. xi_io_net_layer_pull bsp (io_context s) NULL st s = Some (XI_STATE_OK, v)
       \<and> posts s [xi_make_handle_argc3 0 (Other_Fn (Prev_Layer Pull)) (prev_context s) c XI_STATE_OK] v
       \<and> length (data_bytes (data_descs v c)) = 32 \<and> unat (desc_length (data_descs v c)) = 2 ^ 32 - 1"
    by (intro exI [of _ v] exI [of _ c]) simp
qed

definition posix_example :: "nat posix_calls" where
  "posix_example = \<lparr>sys_so_error = (\<lambda>s w. (0, 0, w)), sys_write = (\<lambda>s bs w. (-1, Other_Errno 4, w)),
     sys_read = (\<lambda>s n w. (-1, [], Other_Errno 4, w))\<rparr>"

definition posix_bsp :: "nat bsp_io_net" where
  "posix_bsp = \<lparr>bsp_create_socket = (\<lambda>w. (XI_BSP_IO_NET_STATE_OK, 5, w)),
     bsp_connect = (\<lambda>s h p w. (XI_BSP_IO_NET_STATE_OK, s, w)), bsp_connection_check = (\<lambda>s h p w. (XI_BSP_IO_NET_STATE_OK, w)),
     bsp_write = xi_bsp_io_net_write_posix posix_example, bsp_read = xi_bsp_io_net_read_posix posix_example,
     bsp_close_socket = (\<lambda>s w. (XI_BSP_IO_NET_STATE_OK, 0, w))\<rparr>"

theorem posix_errors_taken_for_success_witness:
  "xi_io_net_layer_push posix_bsp 66 70 XI_STATE_OK (net_example\<lparr>world := 0\<rparr> :: (nat, nat) xi_net_stack) = None
   \<and> (\<exists>(v :: (nat, nat) xi_net_stack) c. xi_io_net_layer_pull posix_bsp 66 NULL XI_STATE_OK (net_example\<lparr>world := 0\<rparr>) = Some (XI_STATE_OK, v)
       \<and> unat (desc_length (data_descs v c)) = 2 ^ 32 - 1)"
proof -
  let ?s = "net_example\<lparr>world := 0\<rparr> :: (nat, nat) xi_net_stack"
  note f = net_example_facts [of "0 :: nat"]
  have d: "bsp_write posix_bsp = xi_bsp_io_net_write_posix posix_example" "bsp_read posix_bsp = xi_bsp_io_net_read_posix posix_example"
    by (simp_all add: posix_bsp_def)
  have l: "desc_length (data_descs ?s 70) \<noteq> -1" using f(11) by simp
  have o: "sys_so_error posix_example (net_socket ?s) (world ?s) = (0, 0, 0)"
    "sys_write posix_example (net_socket ?s) (rest (data_descs ?s 70)) 0 = (-1, Other_Errno 4, 0)"
    "sys_read posix_example (net_socket ?s) 32 (world ?s) = (-1, [], Other_Errno 4, 0)"
    by (simp_all add: posix_example_def)
  have t: "elem_no (io_timeouts ?s) \<le> 0 \<or> connection_timeout (connection_data ?s) = 0" using f(9) by simp
  note p = posix_errors_taken_for_success [OF f(1) d f(2,8) l o(1,2) t o(3), of XI_STATE_OK]
  show ?thesis using p f(6) by auto
qed

end
