(* ===== verification/Xi_List.thy ===== *)
theory Xi_List
  imports Prelude
begin

text \<open>
  \<open>src/libxively/datastructures/xi_list.h\<close>: the macros for linked lists whose link is the
  field \<open>__next\<close> of the elements. The heap of links is a function from addresses to addresses;
  a macro that assigns to its argument \<open>list\<close> returns the new head beside the new heap. The
  loops are partial functions, as on a cyclic list they do not end. The last section relates
  them to lists: the queues of the layers are kept as lists by the theories that use them.
\<close>

type_synonym links = "addr \<Rightarrow> addr"

section \<open>The macros\<close>

text \<open>
  The loop of \<open>XI_LIST_PUSH_BACK\<close> and of \<open>XI_LIST_DROP\<close>: it ends at \<open>NULL\<close> or where
  \<open>stop\<close> holds, and gives the last two pointers.
\<close>

partial_function (option) list_seek ::
    "(addr \<Rightarrow> bool) \<Rightarrow> links \<Rightarrow> addr \<Rightarrow> addr \<Rightarrow> (addr \<times> addr) option" where
  "list_seek stop lnk prev cur =
     (if cur \<noteq> NULL \<and> \<not> stop cur then list_seek stop lnk cur (lnk cur) else Some (prev, cur))"

definition XI_LIST_PUSH_BACK :: "links \<Rightarrow> addr \<Rightarrow> addr \<Rightarrow> (addr \<times> links) option" where
  "XI_LIST_PUSH_BACK lnk list elem = do {
     (prev, cur) \<leftarrow> list_seek (\<lambda>_. False) lnk list list;
     if prev = cur then Some (elem, lnk) else Some (list, lnk(prev := elem)) }"

definition XI_LIST_PUSH_FRONT :: "links \<Rightarrow> addr \<Rightarrow> addr \<Rightarrow> addr \<times> links" where
  "XI_LIST_PUSH_FRONT lnk list elem =
     (if list \<noteq> NULL then (elem, lnk(elem := list)) else (elem, lnk))"

partial_function (option) XI_LIST_FIND :: "links \<Rightarrow> addr \<Rightarrow> (addr \<Rightarrow> bool) \<Rightarrow> addr option" where
  "XI_LIST_FIND lnk out cnd =
     (if out \<noteq> NULL \<and> \<not> cnd out then XI_LIST_FIND lnk (lnk out) cnd else Some out)"

definition XI_LIST_DROP :: "links \<Rightarrow> addr \<Rightarrow> addr \<Rightarrow> (addr \<times> links) option" where
  "XI_LIST_DROP lnk list elem = do {
     (prev, cur) \<leftarrow> list_seek (\<lambda>c. c = elem) lnk list list;
     if cur = elem
     then do {
       xi_assert (cur \<noteq> NULL);
       if prev = cur then Some (lnk cur, lnk(elem := NULL))
       else Some (list, lnk(prev := lnk cur, elem := NULL)) }
     else Some (list, lnk) }"

text \<open>The result is the element, the new head and the new heap; an empty list is dereferenced.\<close>

definition XI_LIST_POP :: "links \<Rightarrow> addr \<Rightarrow> (addr \<times> addr \<times> links) option" where
  "XI_LIST_POP lnk list = do {
     xi_assert (list \<noteq> NULL);
     if lnk list = NULL then Some (list, NULL, lnk)
     else Some (list, lnk list, lnk(list := NULL)) }"

definition XI_LIST_EMPTY :: "addr \<Rightarrow> bool" where
  "XI_LIST_EMPTY list = (NULL = list)"

text \<open>The function of the loop works on a state \<open>get\<close> reads the links of.\<close>

partial_function (option) XI_LIST_FOREACH ::
    "('s \<Rightarrow> addr \<Rightarrow> addr option) \<Rightarrow> (addr \<Rightarrow> 's \<Rightarrow> 's option) \<Rightarrow> addr \<Rightarrow> 's \<Rightarrow> 's option" where
  "XI_LIST_FOREACH get fn cur s =
     (if cur \<noteq> NULL
      then do { tmp \<leftarrow> get s cur; s1 \<leftarrow> fn cur s; XI_LIST_FOREACH get fn tmp s1 }
      else Some s)"

definition XI_LIST_FOREACH_WITH_ARG ::
    "('s \<Rightarrow> addr \<Rightarrow> addr option) \<Rightarrow> (addr \<Rightarrow> 'a \<Rightarrow> 's \<Rightarrow> 's option) \<Rightarrow> 'a \<Rightarrow> addr \<Rightarrow> 's \<Rightarrow> 's option"
where
  "XI_LIST_FOREACH_WITH_ARG get fn arg list s = XI_LIST_FOREACH get (\<lambda>e. fn e arg) list s"

text \<open>The search by index leaves \<open>out\<close> as it was when nothing is found.\<close>

partial_function (option) list_find_i ::
    "links \<Rightarrow> (addr \<Rightarrow> nat \<Rightarrow> bool) \<Rightarrow> addr \<Rightarrow> nat \<Rightarrow> addr \<Rightarrow> addr option" where
  "list_find_i lnk pred out i cur =
     (if cur \<noteq> NULL
      then if pred cur i then Some cur else list_find_i lnk pred out (i + 1) (lnk cur)
      else Some out)"

definition XI_LIST_NTH :: "links \<Rightarrow> addr \<Rightarrow> nat \<Rightarrow> addr \<Rightarrow> addr option" where
  "XI_LIST_NTH lnk list n out = list_find_i lnk (\<lambda>_ i. i = n) out 0 list"

definition XI_LIST_FIND_I :: "links \<Rightarrow> addr \<Rightarrow> (addr \<Rightarrow> nat \<Rightarrow> bool) \<Rightarrow> addr \<Rightarrow> addr option" where
  "XI_LIST_FIND_I lnk list pred out = list_find_i lnk pred out 0 list"

partial_function (option) list_split_i ::
    "(addr \<Rightarrow> nat \<Rightarrow> bool) \<Rightarrow> links \<Rightarrow> addr \<Rightarrow> addr \<Rightarrow> addr \<Rightarrow> addr \<Rightarrow> addr \<Rightarrow> nat
       \<Rightarrow> (addr \<times> addr \<times> links) option" where
  "list_split_i pred lnk list out out_cur prev cur i =
     (if cur = NULL then Some (list, out, lnk)
      else if pred cur i
      then let (list1, lnk1) = (if prev \<noteq> NULL then (list, lnk(prev := lnk cur)) else (lnk cur, lnk));
               (out1, lnk2) = (if out_cur \<noteq> NULL then (out, lnk1(out_cur := cur)) else (cur, lnk1))
           in list_split_i pred (lnk2(cur := NULL)) list1 out1 cur prev (lnk2 cur) (i + 1)
      else list_split_i pred lnk list out out_cur cur (lnk cur) (i + 1))"

definition XI_LIST_SPLIT_I ::
    "links \<Rightarrow> addr \<Rightarrow> (addr \<Rightarrow> nat \<Rightarrow> bool) \<Rightarrow> addr \<Rightarrow> (addr \<times> addr \<times> links) option" where
  "XI_LIST_SPLIT_I lnk list pred out = list_split_i pred lnk list out out NULL list 0"

section \<open>Lists in the heap\<close>

text \<open>\<open>path lnk p xs q\<close>: following the links from \<open>p\<close> visits \<open>xs\<close> and arrives at \<open>q\<close>.\<close>

primrec path :: "links \<Rightarrow> addr \<Rightarrow> addr list \<Rightarrow> addr \<Rightarrow> bool" where
  "path lnk p [] q \<longleftrightarrow> p = q"
| "path lnk p (x # xs) q \<longleftrightarrow> p = x \<and> x \<noteq> NULL \<and> path lnk (lnk x) xs q"

abbreviation is_list :: "links \<Rightarrow> addr \<Rightarrow> addr list \<Rightarrow> bool" where
  "is_list lnk p xs \<equiv> path lnk p xs NULL"

lemma path_append: "path lnk p (xs @ ys) q \<longleftrightarrow> (\<exists>r. path lnk p xs r \<and> path lnk r ys q)"
  by (induction xs arbitrary: p) auto

lemma path_update: "a \<notin> set xs \<Longrightarrow> path (lnk(a := b)) p xs q = path lnk p xs q"
  by (induction xs arbitrary: p) auto

lemma path_cong: "(\<And>a. a \<in> set xs \<Longrightarrow> lnk' a = lnk a) \<Longrightarrow> path lnk' p xs q = path lnk p xs q"
  by (induction xs arbitrary: p) auto

lemma path_not_NULL: "path lnk p xs q \<Longrightarrow> a \<in> set xs \<Longrightarrow> a \<noteq> NULL"
  by (induction xs arbitrary: p) auto

lemma is_list_NULL [simp]: "is_list lnk NULL xs \<longleftrightarrow> xs = []"
  by (cases xs) auto

lemma is_list_unique: "is_list lnk p xs \<Longrightarrow> is_list lnk p ys \<Longrightarrow> xs = ys"
  by (induction xs arbitrary: p ys) (case_tac ys; auto)+

lemma is_list_distinct: "is_list lnk p xs \<Longrightarrow> distinct xs"
proof (induction xs arbitrary: p)
  case (Cons x xs)
  have "x \<notin> set xs"
  proof
    assume "x \<in> set xs"
    then obtain ys zs where xs: "xs = ys @ x # zs" by (auto dest: split_list)
    then have "is_list lnk x (x # zs)" using Cons.prems by (auto simp: path_append)
    moreover have "is_list lnk x (x # xs)" using Cons.prems by simp
    ultimately have "x # zs = x # xs" by (rule is_list_unique)
    then show False using xs by (auto dest: arg_cong [of _ _ length])
  qed
  then show ?case using Cons by auto
qed simp

text \<open>The end of a path moves when its last link does.\<close>

lemma path_redirect:
  assumes "path lnk p xs q" "xs \<noteq> []" "distinct xs"
  shows "path (lnk(last xs := r)) p xs r"
proof -
  obtain ys x where xs: "xs = ys @ [x]" using assms(2) by (cases xs rule: rev_cases) auto
  then show ?thesis using assms(1,3) by (auto simp: path_append path_update)
qed

section \<open>The macros work on lists\<close>

lemma list_seek_path:
  "is_list lnk p xs \<Longrightarrow> list_seek stop lnk prev p =
     Some (last (prev # takeWhile (\<lambda>a. \<not> stop a) xs),
           (case dropWhile (\<lambda>a. \<not> stop a) xs of [] \<Rightarrow> NULL | x # _ \<Rightarrow> x))"
proof (induction xs arbitrary: p prev)
  case Nil
  then show ?case by (subst list_seek.simps) simp
next
  case (Cons x xs)
  then show ?case by (subst list_seek.simps) auto
qed

lemma takeWhile_all [simp]: "takeWhile (\<lambda>_. True) xs = xs" "dropWhile (\<lambda>_. True) xs = []"
  by (induction xs) auto

lemma push_back_refines:
  assumes "is_list lnk p xs" "e \<noteq> NULL" "e \<notin> set xs" "lnk e = NULL"
  obtains p' lnk' where "XI_LIST_PUSH_BACK lnk p e = Some (p', lnk')" "is_list lnk' p' (xs @ [e])"
    "\<And>a. a \<notin> set xs \<Longrightarrow> lnk' a = lnk a"
proof (cases "xs = []")
  case True
  then show thesis
    using assms that [of e lnk] list_seek_path [OF assms(1), of "\<lambda>_. False" p]
    by (simp add: XI_LIST_PUSH_BACK_def)
next
  case False
  have "path (lnk(last xs := e)) p xs e"
    using assms(1) False is_list_distinct [OF assms(1)] by (rule path_redirect)
  moreover have "last xs \<noteq> NULL" "last xs \<noteq> e" using False assms(1,3) path_not_NULL by fastforce+
  moreover have "(lnk(last xs := e)) a = lnk a" if "a \<notin> set xs" for a using that False by auto
  ultimately show thesis
    using assms(2,4) False that [of p "lnk(last xs := e)"] list_seek_path [OF assms(1), of "\<lambda>_. False" p]
    by (simp add: XI_LIST_PUSH_BACK_def path_append)
qed

lemma push_front_refines:
  assumes "is_list lnk p xs" "e \<noteq> NULL" "e \<notin> set xs" "lnk e = NULL"
  shows "case XI_LIST_PUSH_FRONT lnk p e of (p', lnk') \<Rightarrow>
    is_list lnk' p' (e # xs) \<and> (\<forall>a. a \<noteq> e \<longrightarrow> lnk' a = lnk a)"
  using assms by (cases xs) (auto simp: XI_LIST_PUSH_FRONT_def path_update)

lemma find_refines:
  "is_list lnk p xs \<Longrightarrow>
     XI_LIST_FIND lnk p cnd = Some (case dropWhile (\<lambda>a. \<not> cnd a) xs of [] \<Rightarrow> NULL | x # _ \<Rightarrow> x)"
proof (induction xs arbitrary: p)
  case Nil
  then show ?case by (subst XI_LIST_FIND.simps) simp
next
  case (Cons x xs)
  then show ?case by (subst XI_LIST_FIND.simps) simp
qed

lemma drop_refines:
  assumes "is_list lnk p xs" "e \<noteq> NULL"
  obtains p' lnk' where "XI_LIST_DROP lnk p e = Some (p', lnk')" "is_list lnk' p' (remove1 e xs)"
    "\<And>a. a \<notin> set xs \<Longrightarrow> lnk' a = lnk a" "e \<in> set xs \<Longrightarrow> lnk' e = NULL"
proof (cases "e \<in> set xs")
  case False
  have "dropWhile (\<lambda>c. c \<noteq> e) xs = []" "takeWhile (\<lambda>c. c \<noteq> e) xs = xs"
    using False by (auto simp: dropWhile_eq_Nil_conv takeWhile_eq_all_conv)
  from this have "list_seek (\<lambda>c. c = e) lnk p p = Some (last (p # xs), NULL)"
    using list_seek_path [OF assms(1), of "\<lambda>c. c = e" p] by (simp del: dropWhile_eq_Nil_conv takeWhile_eq_all_conv)
  then show thesis
    using assms False that [of p lnk] by (simp add: XI_LIST_DROP_def remove1_idem)
next
  case True
  then obtain ys zs where xs: "xs = ys @ e # zs" "e \<notin> set ys" by (auto dest: split_list_first)
  have d: "distinct xs" using assms(1) by (rule is_list_distinct)
  have "takeWhile (\<lambda>c. c \<noteq> e) (ys @ e # zs) = ys \<and> dropWhile (\<lambda>c. c \<noteq> e) (ys @ e # zs) = e # zs"
    using xs(2) by (induction ys) auto
  then have seek: "list_seek (\<lambda>c. c = e) lnk p p = Some (last (p # ys), e)"
    using list_seek_path [OF assms(1), of "\<lambda>c. c = e" p] by (simp add: xs(1))
  have p: "path lnk p ys e" "is_list lnk (lnk e) zs" using assms(1) xs by (auto simp: path_append)
  show thesis
  proof (cases "ys = []")
    case True
    then show thesis
      using that [of "lnk e" "lnk(e := NULL)"] seek p xs d assms(2)
      by (simp add: XI_LIST_DROP_def path_update)
  next
    case False
    have "path (lnk(last ys := lnk e)) p ys (lnk e)" using p(1) False d xs by (intro path_redirect) auto
    moreover have "last ys \<in> set ys" using False by simp
    moreover from this have neq: "last ys \<noteq> e" "last ys \<notin> set zs" "e \<notin> set zs" using d xs by auto
    ultimately have l: "is_list (lnk(last ys := lnk e, e := NULL)) p (ys @ zs)"
      and fr: "\<And>a. a \<notin> set xs \<Longrightarrow> (lnk(last ys := lnk e, e := NULL)) a = lnk a"
      using p xs by (auto simp: path_append path_update)
    have "XI_LIST_DROP lnk p e = Some (p, lnk(last ys := lnk e, e := NULL))"
      using seek False xs assms(2) neq(1) by (simp add: XI_LIST_DROP_def)
    moreover have "remove1 e xs = ys @ zs" using xs by (simp add: remove1_append)
    ultimately show thesis using that [of p "lnk(last ys := lnk e, e := NULL)"] l fr by simp
  qed
qed

lemma pop_refines:
  assumes "is_list lnk p (x # xs)"
  obtains p' lnk' where "XI_LIST_POP lnk p = Some (x, p', lnk')" "is_list lnk' p' xs"
    "\<And>a. a \<noteq> x \<Longrightarrow> lnk' a = lnk a" "lnk' x = NULL"
proof -
  have "x \<notin> set xs" using is_list_distinct [OF assms] by simp
  then show thesis
    using assms that [of NULL lnk] that [of "lnk x" "lnk(x := NULL)"]
    by (cases "lnk x = NULL") (auto simp: XI_LIST_POP_def path_update)
qed

text \<open>What \<open>XI_LIST_SPLIT_I\<close> selects, and what it leaves.\<close>

definition selected :: "(addr \<Rightarrow> nat \<Rightarrow> bool) \<Rightarrow> nat \<Rightarrow> addr list \<Rightarrow> addr list" where
  "selected pred i xs = map snd (filter (\<lambda>(i, x). pred x i) (enumerate i xs))"

lemma selected_simps [simp]:
  "selected pred i [] = []"
  "selected pred i (x # xs) = (if pred x i then x # selected pred (Suc i) xs else selected pred (Suc i) xs)"
  by (simp_all add: selected_def)

definition last_or_NULL :: "addr list \<Rightarrow> addr" where
  "last_or_NULL xs = (if xs = [] then NULL else last xs)"

lemma split_loop_refines:
  assumes "is_list lnk cur rest" "path lnk l kept cur" "is_list lnk o1 os" "distinct (kept @ os @ rest)"
  shows "\<exists>l' o' lnk'. list_split_i pred lnk l o1 (last_or_NULL os) (last_or_NULL kept) cur i = Some (l', o', lnk')
    \<and> is_list lnk' l' (kept @ selected (\<lambda>x j. \<not> pred x j) i rest)
    \<and> is_list lnk' o' (os @ selected pred i rest)
    \<and> (\<forall>a. a \<notin> set (kept @ os @ rest) \<longrightarrow> lnk' a = lnk a)"
  using assms
proof (induction rest arbitrary: lnk cur l kept o1 os i)
  case Nil
  then show ?case by (subst list_split_i.simps) (auto simp: path_append)
next
  case (Cons x rest)
  have x: "cur = x" "x \<noteq> NULL" "is_list lnk (lnk x) rest" using Cons.prems(1) by auto
  have nn: "\<And>a. a \<in> set kept \<Longrightarrow> a \<noteq> NULL" "\<And>a. a \<in> set os \<Longrightarrow> a \<noteq> NULL"
    using Cons.prems(2,3) path_not_NULL by blast+
  show ?case
  proof (cases "pred x i")
    case False
    have step: "list_split_i pred lnk l o1 (last_or_NULL os) (last_or_NULL kept) cur i
        = list_split_i pred lnk l o1 (last_or_NULL os) (last_or_NULL (kept @ [x])) (lnk x) (i + 1)"
      using False x by (subst list_split_i.simps) (simp add: last_or_NULL_def)
    have "path lnk l (kept @ [x]) (lnk x)" using Cons.prems(2) x by (auto simp: path_append)
    moreover have "distinct ((kept @ [x]) @ os @ rest)" using Cons.prems(4) by auto
    ultimately show ?thesis
      using Cons.IH [OF x(3) _ Cons.prems(3), of l "kept @ [x]" "i + 1"] False unfolding step by auto
  next
    case True
    define lnk1 where "lnk1 = (if kept = [] then lnk else lnk(last kept := lnk x))"
    define lnk2 where "lnk2 = (if os = [] then lnk1 else lnk1(last os := x))"
    define l1 where "l1 = (if kept = [] then lnk x else l)"
    define oo where "oo = (if os = [] then x else o1)"
    have lk: "kept \<noteq> [] \<Longrightarrow> last kept \<in> set kept" "os \<noteq> [] \<Longrightarrow> last os \<in> set os" by auto
    have nx: "lnk2 x = lnk x" "lnk1 x = lnk x"
      using Cons.prems(4) lk by (auto simp: lnk2_def lnk1_def)
    have step: "list_split_i pred lnk l o1 (last_or_NULL os) (last_or_NULL kept) cur i
        = list_split_i pred (lnk2(x := NULL)) l1 oo (last_or_NULL (os @ [x])) (last_or_NULL kept) (lnk x) (i + 1)"
      using True x nn lk nx
      by (subst list_split_i.simps)
        (cases "kept = []"; cases "os = []"; simp add: last_or_NULL_def lnk1_def lnk2_def l1_def oo_def)
    have d: "distinct (kept @ (os @ [x]) @ rest)" using Cons.prems(4) by auto
    have keep: "path (lnk2(x := NULL)) l1 kept (lnk x)"
    proof (cases "kept = []")
      case False
      have "path lnk1 l kept (lnk x)"
        using path_redirect [OF Cons.prems(2) False, of "lnk x"] d False by (simp add: lnk1_def)
      moreover have "last os \<notin> set kept" if "os \<noteq> []" using d lk(2) [OF that] by auto
      ultimately have "path lnk2 l kept (lnk x)" by (simp add: lnk2_def path_update)
      moreover have "x \<notin> set kept" using d by auto
      ultimately show ?thesis using False by (simp add: l1_def path_update)
    qed (simp add: l1_def)
    have os1: "is_list lnk1 o1 os"
    proof (cases "kept = []")
      case False
      then have "last kept \<in> set kept" by simp
      then have "last kept \<notin> set os" using d by auto
      then show ?thesis using Cons.prems(3) by (simp add: lnk1_def path_update)
    qed (simp add: lnk1_def Cons.prems(3))
    have out: "is_list (lnk2(x := NULL)) oo (os @ [x])"
    proof (cases "os = []")
      case False
      have "path lnk2 o1 os x" using path_redirect [OF os1 False, of x] d False by (simp add: lnk2_def)
      moreover have "x \<notin> set os" using d by auto
      ultimately show ?thesis using False x by (auto simp: oo_def path_append path_update)
    qed (use x in \<open>simp add: oo_def\<close>)
    have frame: "(lnk2(x := NULL)) a = lnk a" if "a \<notin> set kept" "a \<notin> set os" "a \<noteq> x" for a
    proof -
      have "kept = [] \<or> a \<noteq> last kept" "os = [] \<or> a \<noteq> last os" using that(1,2) by auto
      then show ?thesis using that(3) by (cases "kept = []"; cases "os = []"; simp add: lnk2_def lnk1_def)
    qed
    have rest: "is_list (lnk2(x := NULL)) (lnk x) rest"
    proof -
      have "(lnk2(x := NULL)) a = lnk a" if "a \<in> set rest" for a
        using d that by (intro frame) auto
      then show ?thesis using x(3) path_cong [of rest "lnk2(x := NULL)" lnk] by blast
    qed
    have framed: "\<forall>a. a \<notin> set (kept @ os @ x # rest) \<longrightarrow> (lnk2(x := NULL)) a = lnk a"
      using frame by simp
    obtain l' o' lnk' where r: "list_split_i pred (lnk2(x := NULL)) l1 oo (last_or_NULL (os @ [x]))
        (last_or_NULL kept) (lnk x) (i + 1) = Some (l', o', lnk')"
      "is_list lnk' l' (kept @ selected (\<lambda>x j. \<not> pred x j) (i + 1) rest)"
      "is_list lnk' o' ((os @ [x]) @ selected pred (i + 1) rest)"
      "\<forall>a. a \<notin> set (kept @ (os @ [x]) @ rest) \<longrightarrow> lnk' a = (lnk2(x := NULL)) a"
      using Cons.IH [OF rest keep out d, of "i + 1"] by blast
    have "\<forall>a. a \<notin> set (kept @ os @ x # rest) \<longrightarrow> lnk' a = lnk a" using r(4) framed by simp
    then show ?thesis using r(1-3) True unfolding step by simp
  qed
qed

lemma split_refines:
  assumes "is_list lnk p xs"
  obtains p' o' lnk' where "XI_LIST_SPLIT_I lnk p pred NULL = Some (p', o', lnk')"
    "is_list lnk' p' (selected (\<lambda>x j. \<not> pred x j) 0 xs)" "is_list lnk' o' (selected pred 0 xs)"
    "\<And>a. a \<notin> set xs \<Longrightarrow> lnk' a = lnk a"
  using split_loop_refines [OF assms, of p "[]" NULL "[]" pred 0] is_list_distinct [OF assms] that
  by (auto simp: XI_LIST_SPLIT_I_def last_or_NULL_def)

lemma find_i_refines:
  "is_list lnk p xs \<Longrightarrow> list_find_i lnk pred out i p
     = Some (case selected pred i xs of [] \<Rightarrow> out | x # _ \<Rightarrow> x)"
proof (induction xs arbitrary: p i)
  case Nil
  then show ?case by (subst list_find_i.simps) simp
next
  case (Cons x xs)
  then show ?case by (subst list_find_i.simps) simp
qed

text \<open>A loop whose function leaves the links alone visits the elements in order.\<close>

lemma foreach_refines:
  assumes "is_list lnk p xs" "\<And>s a. good s \<Longrightarrow> a \<in> set xs \<Longrightarrow> get s a = Some (lnk a)"
    "\<And>s t a. good s \<Longrightarrow> a \<in> set xs \<Longrightarrow> fn a s = Some t \<Longrightarrow> good t" "good s"
  shows "XI_LIST_FOREACH get fn p s = fold_option fn xs s"
  using assms
proof (induction xs arbitrary: p s)
  case Nil
  then show ?case by (subst XI_LIST_FOREACH.simps) simp
next
  case (Cons x xs)
  have "XI_LIST_FOREACH get fn (lnk x) t = fold_option fn xs t" if "fn x s = Some t" for t
  proof (rule Cons.IH)
    show "good t" using Cons.prems(3) [OF Cons.prems(4) _ that] by simp
    show "good u" if "good s'" "a \<in> set xs" "fn a s' = Some u" for s' a u
      using Cons.prems(3) [OF that(1) _ that(3)] that(2) by simp
  qed (use Cons.prems in auto)
  then show ?case
    using Cons.prems by (subst XI_LIST_FOREACH.simps) (cases "fn x s"; auto)
qed

text \<open>
  C22: On a heap in which the links from \<open>p\<close> form the list \<open>xs\<close>, the macros behave as the
  operations on lists: appending and prepending a new element that is not linked, dropping an
  element, popping the first one, finding the first that satisfies a condition, and splitting the
  selected elements off in order. Links of elements outside the list and the argument are left
  alone, and an element that is taken out is unlinked, so that it can be inserted again.
\<close>

theorem list_macros_refine_lists:
  assumes "is_list lnk p xs" "e \<noteq> NULL" "lnk e = NULL"
  shows "(e \<notin> set xs \<longrightarrow> (\<exists>p' lnk'. XI_LIST_PUSH_BACK lnk p e = Some (p', lnk')
             \<and> is_list lnk' p' (xs @ [e]) \<and> (\<forall>a. a \<notin> set xs \<longrightarrow> lnk' a = lnk a)))
    \<and> (e \<notin> set xs \<longrightarrow> (\<exists>p' lnk'. XI_LIST_PUSH_FRONT lnk p e = (p', lnk')
             \<and> is_list lnk' p' (e # xs) \<and> (\<forall>a. a \<noteq> e \<longrightarrow> lnk' a = lnk a)))
    \<and> (\<forall>d. d \<noteq> NULL \<longrightarrow> (\<exists>p' lnk'. XI_LIST_DROP lnk p d = Some (p', lnk')
             \<and> is_list lnk' p' (remove1 d xs) \<and> (d \<in> set xs \<longrightarrow> lnk' d = NULL)
             \<and> (\<forall>a. a \<notin> set xs \<longrightarrow> lnk' a = lnk a)))
    \<and> (xs \<noteq> [] \<longrightarrow> (\<exists>p' lnk'. XI_LIST_POP lnk p = Some (hd xs, p', lnk')
             \<and> is_list lnk' p' (tl xs) \<and> lnk' (hd xs) = NULL \<and> (\<forall>a. a \<noteq> hd xs \<longrightarrow> lnk' a = lnk a)))
    \<and> XI_LIST_FIND lnk p cnd = Some (case filter cnd xs of [] \<Rightarrow> NULL | x # _ \<Rightarrow> x)
    \<and> (\<exists>p' o' lnk'. XI_LIST_SPLIT_I lnk p pred NULL = Some (p', o', lnk')
             \<and> is_list lnk' p' (selected (\<lambda>x j. \<not> pred x j) 0 xs) \<and> is_list lnk' o' (selected pred 0 xs)
             \<and> (\<forall>a. a \<notin> set xs \<longrightarrow> lnk' a = lnk a))"
proof (intro conjI impI allI)
  show "\<exists>p' lnk'. XI_LIST_PUSH_BACK lnk p e = Some (p', lnk')
      \<and> is_list lnk' p' (xs @ [e]) \<and> (\<forall>a. a \<notin> set xs \<longrightarrow> lnk' a = lnk a)" if "e \<notin> set xs"
    using push_back_refines [OF assms(1,2) that assms(3)] by metis
  show "\<exists>p' lnk'. XI_LIST_PUSH_FRONT lnk p e = (p', lnk')
      \<and> is_list lnk' p' (e # xs) \<and> (\<forall>a. a \<noteq> e \<longrightarrow> lnk' a = lnk a)" if "e \<notin> set xs"
    using push_front_refines [OF assms(1,2) that assms(3)] by (auto split: prod.splits)
  show "\<exists>p' lnk'. XI_LIST_DROP lnk p d = Some (p', lnk')
      \<and> is_list lnk' p' (remove1 d xs) \<and> (d \<in> set xs \<longrightarrow> lnk' d = NULL)
      \<and> (\<forall>a. a \<notin> set xs \<longrightarrow> lnk' a = lnk a)" if "d \<noteq> NULL" for d
    using drop_refines [OF assms(1) that] by metis
  show "\<exists>p' lnk'. XI_LIST_POP lnk p = Some (hd xs, p', lnk')
      \<and> is_list lnk' p' (tl xs) \<and> lnk' (hd xs) = NULL \<and> (\<forall>a. a \<noteq> hd xs \<longrightarrow> lnk' a = lnk a)" if "xs \<noteq> []"
    using pop_refines [of lnk p "hd xs" "tl xs"] assms(1) that by (metis list.collapse)
  have "(case dropWhile (\<lambda>a. \<not> cnd a) xs of [] \<Rightarrow> NULL | x # _ \<Rightarrow> x) = (case filter cnd xs of [] \<Rightarrow> NULL | x # _ \<Rightarrow> x)"
    by (induction xs) auto
  then show "XI_LIST_FIND lnk p cnd = Some (case filter cnd xs of [] \<Rightarrow> NULL | x # _ \<Rightarrow> x)"
    using find_refines [OF assms(1), of cnd] by simp
  show "\<exists>p' o' lnk'. XI_LIST_SPLIT_I lnk p pred NULL = Some (p', o', lnk')
      \<and> is_list lnk' p' (selected (\<lambda>x j. \<not> pred x j) 0 xs) \<and> is_list lnk' o' (selected pred 0 xs)
      \<and> (\<forall>a. a \<notin> set xs \<longrightarrow> lnk' a = lnk a)"
    using split_refines [OF assms(1), of pred] by metis
qed

theorem list_macros_refine_lists_witness:
  "\<exists>p' lnk'. XI_LIST_PUSH_BACK (\<lambda>a. if a = 5 then 7 else NULL) 5 9 = Some (p', lnk') \<and> is_list lnk' p' [5, 7, 9]"
  by (rule list_macros_refine_lists [of "\<lambda>a. if a = 5 then 7 else NULL" 5 "[5, 7]" 9, THEN conjunct1,
        THEN mp, THEN ex_forward, THEN ex_forward]) auto

end
