(* ===== verification/Xi_Senml.thy ===== *)
theory Xi_Senml
  imports Xi_Data_Desc
begin

text \<open>
  \<open>src/libxively/senml/xi_senml.c\<close> and \<open>xi_senml_json_serializer.c\<close>: measurements in the SenML
  format. The application builds a structure from entries (\<open>xi_create_senml_struct\<close>,
  \<open>xi_add_senml_entry\<close>) and renders it as JSON into a buffer that grows.

  A \<open>char *\<close> is the address of a block and the bytes from there to its end, or \<open>NULL\<close>. The list of
  entries, whose macros \<open>Xi_List\<close> has, is a list here. A \<open>float\<close> is the word of its bits (IEEE
  single precision).
\<close>

section \<open>Numbers as text\<close>

text \<open>What the library prints with \<open>snprintf\<close>: \<open>%d\<close> of an \<open>int\<close> and \<open>%.5g\<close> of a \<open>float\<close>.\<close>

definition ascii :: "string \<Rightarrow> byte list" where "ascii s = map of_char s"

definition digit :: "int \<Rightarrow> byte" where "digit n = of_int (48 + n mod 10)"

function decimal :: "int \<Rightarrow> byte list" where
  "decimal n = (if n < 10 then [digit n] else decimal (n div 10) @ [digit n])"
  by auto
termination by (relation "measure nat") simp_all

declare decimal.simps [simp del]

definition format_d :: "int \<Rightarrow> byte list" where
  "format_d i = (if i < 0 then 45 # decimal (- i) else decimal i)"

text \<open>
  A finite \<open>float\<close> that is not zero is \<open>num / den\<close>. The decimal exponent \<open>X\<close> and the five digits are
  those of the value rounded to five digits, half to even. With an exponent from \<open>-4\<close> to \<open>4\<close> the
  style is that of \<open>%f\<close>, otherwise that of \<open>%e\<close>; zeros at the end are removed.
\<close>

definition float_num_den :: "32 word \<Rightarrow> int \<times> int" where
  "float_num_den v =
     (let e = uint (drop_bit 23 v AND 255); f = uint (v AND 0x7fffff);
          m = (if e = 0 then f else f + 2 ^ 23);
          x = (if e = 0 then -149 else e - 150)
      in if x \<ge> 0 then (m * 2 ^ nat x, 1) else (m, 2 ^ nat (- x)))"

definition ten_to_le :: "int \<Rightarrow> int \<Rightarrow> int \<Rightarrow> bool" where
  "ten_to_le k num den = (if k \<ge> 0 then 10 ^ nat k * den \<le> num else den \<le> num * 10 ^ nat (- k))"

definition decimal_exponent :: "int \<Rightarrow> int \<Rightarrow> int" where
  "decimal_exponent num den = last (-45 # filter (\<lambda>k. ten_to_le k num den) [-45..38])"

definition five_digits :: "int \<Rightarrow> int \<Rightarrow> int \<times> int" where
  "five_digits num den =
     (let x = decimal_exponent num den;
          a = (if x \<le> 4 then num * 10 ^ nat (4 - x) else num);
          b = (if x \<le> 4 then den else den * 10 ^ nat (x - 4));
          q = a div b; r = a mod b;
          n = (if 2 * r > b \<or> 2 * r = b \<and> odd q then q + 1 else q)
      in if n = 100000 then (10000, x + 1) else (n, x))"

definition strip_zeros :: "byte list \<Rightarrow> byte list" where
  "strip_zeros ds = rev (dropWhile (\<lambda>d. d = 48) (rev ds))"

definition with_fraction :: "byte list \<Rightarrow> byte list \<Rightarrow> byte list" where
  "with_fraction ds fs = ds @ (if strip_zeros fs = [] then [] else 46 # strip_zeros fs)"

definition format_digits :: "int \<Rightarrow> int \<Rightarrow> byte list" where
  "format_digits n x =
     (let ds = map (\<lambda>k. digit (n div 10 ^ k)) [4, 3, 2, 1, 0]
      in if -4 \<le> x \<and> x < 0 then with_fraction [48] (replicate (nat (- x) - 1) 48 @ ds)
         else if 0 \<le> x \<and> x < 5 then with_fraction (take (nat x + 1) ds) (drop (nat x + 1) ds)
         else with_fraction (take 1 ds) (drop 1 ds) @ [101, if x < 0 then 45 else 43,
                digit (\<bar>x\<bar> div 10), digit \<bar>x\<bar>])"

definition format_g5 :: "32 word \<Rightarrow> byte list" where
  "format_g5 v =
     (if bit v 31 then [45] else []) @
     (if drop_bit 23 v AND 255 = 255 then (if v AND 0x7fffff = 0 then ascii ''inf'' else ascii ''nan'')
      else case float_num_den v of (num, den) \<Rightarrow>
        if num = 0 then [48] else case five_digits num den of (n, x) \<Rightarrow> format_digits n x)"

text \<open>\<open>snprintf\<close> into a zeroed \<open>char buf[32]\<close>.\<close>

definition snprintf_buf :: "byte list \<Rightarrow> byte list" where
  "snprintf_buf t = take 31 t @ replicate (32 - min 31 (length t)) 0"

section \<open>Structures\<close>

type_synonym char_ptr = "(addr \<times> byte list) option"

datatype xi_senml_value =
  XI_SENML_VALUE_TYPE_FLOAT (float_value: "32 word")
| XI_SENML_VALUE_TYPE_STRING (string_value: char_ptr)
| XI_SENML_VALUE_TYPE_BOOLEAN (boolean_value: byte)
| Unknown_Value_Type nat

text \<open>A flag of \<open>set\<close> is a field of one bit.\<close>

record xi_senml_entry =
  entry_block :: addr
  entry_name :: char_ptr
  entry_units :: char_ptr
  value_cnt :: xi_senml_value
  entry_time :: "32 word"
  entry_update_time :: "32 word"
  name_set :: bool
  units_set :: bool
  value_set :: bool
  time_set :: bool
  update_time_set :: bool

record xi_senml =
  senml_block :: addr
  base_name :: char_ptr
  base_time :: "32 word"
  base_units :: char_ptr
  base_name_set :: bool
  base_time_set :: bool
  base_units_set :: bool
  entries_list :: "xi_senml_entry list"

definition sizeof_xi_senml_entry :: nat where "sizeof_xi_senml_entry = 56"

definition sizeof_xi_senml :: nat where "sizeof_xi_senml = 40"

definition zero_entry :: "addr \<Rightarrow> xi_senml_entry" where
  "zero_entry p = \<lparr>entry_block = p, entry_name = None, entry_units = None, value_cnt = XI_SENML_VALUE_TYPE_FLOAT 0,
     entry_time = 0, entry_update_time = 0, name_set = False, units_set = False, value_set = False,
     time_set = False, update_time_set = False\<rparr>"

definition zero_senml :: "addr \<Rightarrow> xi_senml" where
  "zero_senml p = \<lparr>senml_block = p, base_name = None, base_time = 0, base_units = None,
     base_name_set = False, base_time_set = False, base_units_set = False, entries_list = []\<rparr>"

section \<open>The serialiser\<close>

type_synonym senml_result = "(xi_state \<times> xi_data_desc \<times> xi_memory) option"

text \<open>\<open>XI_CHECK_STATE\<close>: go on when the state is \<open>XI_STATE_OK\<close>.\<close>

definition senml_check_state ::
    "senml_result \<Rightarrow> (xi_data_desc \<Rightarrow> xi_memory \<Rightarrow> senml_result) \<Rightarrow> senml_result" where
  "senml_check_state r f = do { (st, d, m) \<leftarrow> r; if st \<noteq> XI_STATE_OK then Some (st, d, m) else f d m }"

definition append_data :: "xi_data_desc \<Rightarrow> byte list \<Rightarrow> nat \<Rightarrow> xi_memory \<Rightarrow> senml_result" where
  "append_data out bs len m = do {
     (st, out1, m1) \<leftarrow> xi_data_desc_append_data_resize (Some out) (Some bs) len m;
     Some (st, the out1, m1) }"

text \<open>A static pattern, without its terminator.\<close>

definition append_pattern :: "xi_data_desc \<Rightarrow> string \<Rightarrow> xi_memory \<Rightarrow> senml_result" where
  "append_pattern out pat m = append_data out (ascii pat) (length pat) m"

definition xi_senml_json_serialize_init :: "xi_data_desc \<Rightarrow> xi_memory \<Rightarrow> senml_result" where
  "xi_senml_json_serialize_init out m = append_pattern out ''{\"e\":['' m"

definition xi_senml_json_serialize_key ::
    "xi_data_desc \<Rightarrow> byte list \<Rightarrow> 16 word \<Rightarrow> xi_memory \<Rightarrow> senml_result" where
  "xi_senml_json_serialize_key out key elem_count m =
     senml_check_state (if elem_count > 0 then append_pattern out '','' m else Some (XI_STATE_OK, out, m)) (\<lambda>out m. do {
       len \<leftarrow> c_strlen key;
       append_data out key len m })"

definition xi_senml_json_serialize_string :: "xi_data_desc \<Rightarrow> char_ptr \<Rightarrow> xi_memory \<Rightarrow> senml_result" where
  "xi_senml_json_serialize_string out string m = do {
     (_, s) \<leftarrow> string;
     senml_check_state (append_pattern out ''\"'' m) (\<lambda>out m.
     senml_check_state (do { len \<leftarrow> c_strlen s; append_data out s len m }) (\<lambda>out m.
     append_pattern out ''\"'' m)) }"

definition append_text :: "xi_data_desc \<Rightarrow> byte list \<Rightarrow> xi_memory \<Rightarrow> senml_result" where
  "append_text out t m =
     (if t = [] then Some (XI_SERIALIZATION_ERROR, out, m)
      else append_data out (snprintf_buf t) (length t) m)"

definition xi_senml_json_serialize_float :: "xi_data_desc \<Rightarrow> 32 word \<Rightarrow> xi_memory \<Rightarrow> senml_result" where
  "xi_senml_json_serialize_float out val m = append_text out (format_g5 val) m"

definition xi_senml_json_serialize_int :: "xi_data_desc \<Rightarrow> 32 word \<Rightarrow> xi_memory \<Rightarrow> senml_result" where
  "xi_senml_json_serialize_int out val m = append_text out (format_d (sint val)) m"

definition xi_senml_json_serialize_boolean :: "xi_data_desc \<Rightarrow> byte \<Rightarrow> xi_memory \<Rightarrow> senml_result" where
  "xi_senml_json_serialize_boolean out b m =
     (if b > 0 then append_pattern out ''true'' m else append_pattern out ''false'' m)"

definition xi_senml_json_serialize_name :: "xi_data_desc \<Rightarrow> char_ptr \<Rightarrow> 16 word \<Rightarrow> xi_memory \<Rightarrow> senml_result" where
  "xi_senml_json_serialize_name out name elem_count m = do {
     xi_assert (name \<noteq> None);
     senml_check_state (xi_senml_json_serialize_key out (c_string (ascii ''\"n\":'')) elem_count m)
       (\<lambda>out m. xi_senml_json_serialize_string out name m) }"

definition xi_senml_json_serialize_float_value ::
    "xi_data_desc \<Rightarrow> 32 word \<Rightarrow> 16 word \<Rightarrow> xi_memory \<Rightarrow> senml_result" where
  "xi_senml_json_serialize_float_value out val elem_count m =
     senml_check_state (xi_senml_json_serialize_key out (c_string (ascii ''\"v\":'')) elem_count m)
       (\<lambda>out m. xi_senml_json_serialize_float out val m)"

definition xi_senml_json_serialize_string_value ::
    "xi_data_desc \<Rightarrow> char_ptr \<Rightarrow> 16 word \<Rightarrow> xi_memory \<Rightarrow> senml_result" where
  "xi_senml_json_serialize_string_value out string elem_count m = do {
     xi_assert (string \<noteq> None);
     senml_check_state (xi_senml_json_serialize_key out (c_string (ascii ''\"sv\":'')) elem_count m)
       (\<lambda>out m. xi_senml_json_serialize_string out string m) }"

definition xi_senml_json_serialize_boolean_value ::
    "xi_data_desc \<Rightarrow> byte \<Rightarrow> 16 word \<Rightarrow> xi_memory \<Rightarrow> senml_result" where
  "xi_senml_json_serialize_boolean_value out b elem_count m =
     senml_check_state (xi_senml_json_serialize_key out (c_string (ascii ''\"bv\":'')) elem_count m)
       (\<lambda>out m. xi_senml_json_serialize_boolean out b m)"

definition xi_senml_json_serialize_units :: "xi_data_desc \<Rightarrow> char_ptr \<Rightarrow> 16 word \<Rightarrow> xi_memory \<Rightarrow> senml_result" where
  "xi_senml_json_serialize_units out units elem_count m = do {
     xi_assert (units \<noteq> None);
     senml_check_state (xi_senml_json_serialize_key out (c_string (ascii ''\"u\":'')) elem_count m)
       (\<lambda>out m. xi_senml_json_serialize_string out units m) }"

definition xi_senml_json_serialize_time :: "xi_data_desc \<Rightarrow> 32 word \<Rightarrow> 16 word \<Rightarrow> xi_memory \<Rightarrow> senml_result" where
  "xi_senml_json_serialize_time out t elem_count m =
     senml_check_state (xi_senml_json_serialize_key out (c_string (ascii ''\"t\":'')) elem_count m)
       (\<lambda>out m. xi_senml_json_serialize_int out t m)"

definition xi_senml_json_serialize_update_time ::
    "xi_data_desc \<Rightarrow> 32 word \<Rightarrow> 16 word \<Rightarrow> xi_memory \<Rightarrow> senml_result" where
  "xi_senml_json_serialize_update_time out t elem_count m =
     senml_check_state (xi_senml_json_serialize_key out (c_string (ascii ''\"ut\":'')) elem_count m)
       (\<lambda>out m. xi_senml_json_serialize_int out t m)"

definition xi_senml_json_serialize_base_name ::
    "xi_data_desc \<Rightarrow> char_ptr \<Rightarrow> 16 word \<Rightarrow> xi_memory \<Rightarrow> senml_result" where
  "xi_senml_json_serialize_base_name out name elem_count m = do {
     xi_assert (name \<noteq> None);
     senml_check_state (xi_senml_json_serialize_key out (c_string (ascii ''\"bn\":'')) elem_count m)
       (\<lambda>out m. xi_senml_json_serialize_string out name m) }"

definition xi_senml_json_serialize_base_units ::
    "xi_data_desc \<Rightarrow> char_ptr \<Rightarrow> 16 word \<Rightarrow> xi_memory \<Rightarrow> senml_result" where
  "xi_senml_json_serialize_base_units out units elem_count m = do {
     xi_assert (units \<noteq> None);
     senml_check_state (xi_senml_json_serialize_key out (c_string (ascii ''\"bu\":'')) elem_count m)
       (\<lambda>out m. xi_senml_json_serialize_string out units m) }"

definition xi_senml_json_serialize_base_time ::
    "xi_data_desc \<Rightarrow> 32 word \<Rightarrow> 16 word \<Rightarrow> xi_memory \<Rightarrow> senml_result" where
  "xi_senml_json_serialize_base_time out t elem_count m =
     senml_check_state (xi_senml_json_serialize_key out (c_string (ascii ''\"bt\":'')) elem_count m)
       (\<lambda>out m. xi_senml_json_serialize_int out t m)"

definition xi_senml_json_serialize_close :: "xi_data_desc \<Rightarrow> xi_memory \<Rightarrow> senml_result" where
  "xi_senml_json_serialize_close out m = append_pattern out ''}'' m"

definition xi_senml_json_serialize_close_entries :: "xi_data_desc \<Rightarrow> xi_memory \<Rightarrow> senml_result" where
  "xi_senml_json_serialize_close_entries out m = append_pattern out '']'' m"

definition xi_senml_json_serialize_value_set ::
    "xi_data_desc \<Rightarrow> xi_senml_value \<Rightarrow> 16 word \<Rightarrow> xi_memory \<Rightarrow> senml_result" where
  "xi_senml_json_serialize_value_set out val elem_count m = (case val of
     XI_SENML_VALUE_TYPE_STRING s \<Rightarrow> xi_senml_json_serialize_string_value out s elem_count m
   | XI_SENML_VALUE_TYPE_FLOAT f \<Rightarrow> xi_senml_json_serialize_float_value out f elem_count m
   | XI_SENML_VALUE_TYPE_BOOLEAN b \<Rightarrow> xi_senml_json_serialize_boolean_value out b elem_count m
   | Unknown_Value_Type _ \<Rightarrow> Some (XI_INVALID_PARAMETER, out, m))"

text \<open>A field that is written only when it is set.\<close>

definition when_set ::
    "bool \<Rightarrow> (xi_data_desc \<Rightarrow> xi_memory \<Rightarrow> senml_result) \<Rightarrow> xi_data_desc \<Rightarrow> xi_memory \<Rightarrow> senml_result" where
  "when_set b f out m = (if b then f out m else Some (XI_STATE_OK, out, m))"

definition next_count :: "bool \<Rightarrow> 16 word \<Rightarrow> 16 word" where
  "next_count b n = (if b then n + 1 else n)"

definition xi_senml_json_serialize_entry ::
    "xi_data_desc \<Rightarrow> xi_senml_entry \<Rightarrow> 32 word \<Rightarrow> xi_memory \<Rightarrow> senml_result" where
  "xi_senml_json_serialize_entry out entry entry_count m =
     senml_check_state (if entry_count > 0 then append_pattern out '',{'' m else append_pattern out ''{'' m) (\<lambda>out m.
     senml_check_state (when_set (name_set entry) (\<lambda>out. xi_senml_json_serialize_name out (entry_name entry) 0) out m) (\<lambda>out m.
     let fields_count = next_count (name_set entry) 0 in
     if value_set entry
     then
       senml_check_state (xi_senml_json_serialize_value_set out (value_cnt entry) fields_count m) (\<lambda>out m.
       let fields_count = fields_count + 1 in
       senml_check_state (when_set (time_set entry) (\<lambda>out. xi_senml_json_serialize_time out (entry_time entry) fields_count) out m)
         (\<lambda>out m.
       let fields_count = next_count (time_set entry) fields_count in
       senml_check_state (when_set (units_set entry) (\<lambda>out. xi_senml_json_serialize_units out (entry_units entry) fields_count) out m)
         (\<lambda>out m.
       let fields_count = next_count (units_set entry) fields_count in
       senml_check_state (when_set (update_time_set entry)
           (\<lambda>out. xi_senml_json_serialize_update_time out (entry_update_time entry) fields_count) out m) (\<lambda>out m.
       append_pattern out ''}'' m))))
     else Some (XI_INVALID_PARAMETER, out, m)))"

fun serialize_entries :: "xi_data_desc \<Rightarrow> xi_senml_entry list \<Rightarrow> 32 word \<Rightarrow> xi_memory \<Rightarrow> senml_result" where
  "serialize_entries out [] entries_count m = Some (XI_STATE_OK, out, m)"
| "serialize_entries out (entry # es) entries_count m =
     senml_check_state (xi_senml_json_serialize_entry out entry entries_count m)
       (\<lambda>out m. serialize_entries out es (entries_count + 1) m)"

text \<open>The results of the base elements are not looked at.\<close>

definition serialize_base ::
    "bool \<Rightarrow> (xi_data_desc \<Rightarrow> xi_memory \<Rightarrow> senml_result) \<Rightarrow> xi_data_desc \<Rightarrow> xi_memory
       \<Rightarrow> (xi_data_desc \<times> xi_memory) option" where
  "serialize_base b f out m = (if b then do { (_, out1, m1) \<leftarrow> f out m; Some (out1, m1) } else Some (out, m))"

text \<open>\<open>None\<close> for a pointer to a pointer is \<open>NULL\<close>.\<close>

definition xi_senml_json_serialize ::
    "xi_data_desc option option \<Rightarrow> xi_senml option \<Rightarrow> xi_memory
       \<Rightarrow> (xi_state \<times> xi_data_desc option \<times> xi_memory) option" where
  "xi_senml_json_serialize out_buffer senml_structure m = (case (out_buffer, senml_structure) of
     (Some old, Some senml) \<Rightarrow> do {
       (buffer, m1) \<leftarrow> xi_make_empty_desc_alloc 32 m;
       (case buffer of
          None \<Rightarrow> Some (XI_OUT_OF_MEMORY, None, m1)
        | Some dst \<Rightarrow> do {
            (st, out, m2) \<leftarrow>
              senml_check_state (xi_senml_json_serialize_init dst m1) (\<lambda>out m.
              senml_check_state (serialize_entries out (entries_list senml) 0 m) (\<lambda>out m.
              senml_check_state (xi_senml_json_serialize_close_entries out m) (\<lambda>out m. do {
                let c1 = (1 :: 16 word);
                (out, m) \<leftarrow> serialize_base (base_name_set senml)
                  (\<lambda>out. xi_senml_json_serialize_base_name out (base_name senml) c1) out m;
                let c2 = next_count (base_name_set senml) c1;
                (out, m) \<leftarrow> serialize_base (base_time_set senml)
                  (\<lambda>out. xi_senml_json_serialize_base_time out (base_time senml) c2) out m;
                let c3 = next_count (base_time_set senml) c2;
                (out, m) \<leftarrow> serialize_base (base_units_set senml)
                  (\<lambda>out. xi_senml_json_serialize_base_units out (base_units senml) c3) out m;
                xi_senml_json_serialize_close out m })));
            Some (st, Some out, m2) }) }
   | (None, _) \<Rightarrow> Some (XI_INVALID_PARAMETER, None, m)
   | (Some old, None) \<Rightarrow> Some (XI_INVALID_PARAMETER, old, m))"

text \<open>
  The bytes of the buffer go to the caller and their number, where they are written; \<open>None\<close> is a
  place that is left alone. \<open>out_buffer\<close> and \<open>out_size\<close> are the addresses of the places.
\<close>

definition xi_senml_serialize ::
    "xi_senml option \<Rightarrow> addr \<Rightarrow> addr \<Rightarrow> xi_memory
       \<Rightarrow> (xi_state \<times> (addr \<times> byte list) option \<times> 32 word option \<times> xi_memory) option" where
  "xi_senml_serialize senml_structure out_buffer out_size m =
     (if out_buffer = NULL \<or> out_size = NULL then Some (XI_INVALID_PARAMETER, None, None, m)
      else do {
        (state, buffer, m1) \<leftarrow> xi_senml_json_serialize (Some None) senml_structure m;
        if state \<noteq> XI_STATE_OK then do { m2 \<leftarrow> xi_free_desc buffer m1; Some (state, None, Some 0, m2) }
        else (case buffer of
          None \<Rightarrow> do { m2 \<leftarrow> xi_free_desc buffer m1; Some (XI_SERIALIZATION_ERROR, None, Some 0, m2) }
        | Some d \<Rightarrow> do {
            m2 \<leftarrow> xi_free_desc (Some (d\<lparr>desc_memory_type := XI_MEMORY_TYPE_UNMANAGED\<rparr>)) m1;
            Some (state, Some (data_ptr d, data_bytes d), Some (desc_length d), m2) }) })"

definition xi_senml_free_buffer :: "addr option \<Rightarrow> xi_memory \<Rightarrow> xi_state \<times> xi_memory" where
  "xi_senml_free_buffer buffer m = (case buffer of
     None \<Rightarrow> (XI_INVALID_PARAMETER, m) | Some p \<Rightarrow> (XI_STATE_OK, xi_free p m))"

section \<open>Building and destroying a structure\<close>

definition free_chars :: "char_ptr \<Rightarrow> xi_memory \<Rightarrow> xi_memory" where
  "free_chars s m = (case s of None \<Rightarrow> m | Some (p, _) \<Rightarrow> xi_free p m)"

definition free_value :: "xi_senml_value \<Rightarrow> xi_memory \<Rightarrow> xi_memory" where
  "free_value v m = (case v of XI_SENML_VALUE_TYPE_STRING s \<Rightarrow> free_chars s m | _ \<Rightarrow> m)"

definition xi_senml_entry_destroy :: "xi_senml_entry \<Rightarrow> xi_memory \<Rightarrow> xi_memory" where
  "xi_senml_entry_destroy e m =
     (let m1 = free_chars (entry_name e) m;
          m2 = free_chars (entry_units e) m1;
          m3 = (if value_set e then free_value (value_cnt e) m2 else m2)
      in xi_free (entry_block e) m3)"

definition xi_senml_destroy :: "xi_senml \<Rightarrow> xi_memory \<Rightarrow> xi_memory" where
  "xi_senml_destroy s m =
     (let m1 = foldl (\<lambda>m e. xi_senml_entry_destroy e m) m (entries_list s);
          m2 = free_chars (base_name s) m1;
          m3 = free_chars (base_units s) m2
      in xi_free (senml_block s) m3)"

text \<open>
  The variable arguments are a list. The loop counts in \<open>uint8_t\<close> up to \<open>count\<close>; reading an argument
  that was not given is \<open>None\<close>. A step gives the structure and, when it stops the loop, the error.
\<close>

definition dup_into :: "bool \<Rightarrow> char_ptr \<Rightarrow> char_ptr \<Rightarrow> xi_memory \<Rightarrow> (char_ptr \<times> xi_memory) option" where
  "dup_into was_set old new m = do {
     (_, s) \<leftarrow> new;
     xi_str_dup s (if was_set then free_chars old m else m) }"

definition create_base_name :: "xi_senml \<Rightarrow> xi_senml \<Rightarrow> xi_memory \<Rightarrow> (xi_state \<times> xi_senml \<times> xi_memory) option" where
  "create_base_name arg s m =
     (if \<not> base_name_set arg then Some (XI_STATE_OK, s, m)
      else if base_name arg = None then Some (XI_INVALID_PARAMETER, s, m)
      else do {
        (name, m1) \<leftarrow> dup_into (base_name_set s) (base_name s) (base_name arg) m;
        Some (XI_STATE_OK, s\<lparr>base_name_set := True, base_name := name\<rparr>, m1) })"

definition create_base_units :: "xi_senml \<Rightarrow> xi_senml \<Rightarrow> xi_memory \<Rightarrow> (xi_state \<times> xi_senml \<times> xi_memory) option" where
  "create_base_units arg s m =
     (if \<not> base_units_set arg then Some (XI_STATE_OK, s, m)
      else if base_units arg = None then Some (XI_INVALID_PARAMETER, s, m)
      else do {
        (units, m1) \<leftarrow> dup_into (base_units_set s) (base_units s) (base_units arg) m;
        Some (XI_STATE_OK, s\<lparr>base_units_set := True, base_units := units\<rparr>, m1) })"

definition create_base_time :: "xi_senml \<Rightarrow> xi_senml \<Rightarrow> xi_senml" where
  "create_base_time arg s = (if base_time_set arg then s\<lparr>base_time_set := True, base_time := base_time arg\<rparr> else s)"

definition create_step :: "xi_senml \<Rightarrow> xi_senml \<Rightarrow> xi_memory \<Rightarrow> (xi_state \<times> xi_senml \<times> xi_memory) option" where
  "create_step arg s m = do {
     (st, s1, m1) \<leftarrow> create_base_name arg s m;
     if st \<noteq> XI_STATE_OK then Some (st, s1, m1)
     else do {
       (st, s2, m2) \<leftarrow> create_base_units arg s1 m1;
       if st \<noteq> XI_STATE_OK then Some (st, s2, m2) else Some (st, create_base_time arg s2, m2) } }"

fun va_loop ::
    "('a \<Rightarrow> 's \<Rightarrow> xi_memory \<Rightarrow> (xi_state \<times> 's \<times> xi_memory) option) \<Rightarrow> int \<Rightarrow> 8 word \<Rightarrow> 'a list \<Rightarrow> 's \<Rightarrow> xi_memory
       \<Rightarrow> (xi_state \<times> 's \<times> xi_memory) option" where
  "va_loop step n_args i [] s m = (if int (unat i) < n_args then None else Some (XI_STATE_OK, s, m))"
| "va_loop step n_args i (arg # args) s m =
     (if int (unat i) < n_args
      then do {
        (st, s1, m1) \<leftarrow> step arg s m;
        if st \<noteq> XI_STATE_OK then Some (st, s1, m1) else va_loop step n_args (i + 1) args s1 m1 }
      else Some (XI_STATE_OK, s, m))"

text \<open>\<open>senml_ptr\<close> points to \<open>NULL\<close>; after an error it points to what there is.\<close>

definition xi_create_senml_struct ::
    "xi_senml option option \<Rightarrow> int \<Rightarrow> xi_senml list \<Rightarrow> xi_memory \<Rightarrow> (xi_state \<times> xi_senml option \<times> xi_memory) option" where
  "xi_create_senml_struct senml_ptr n_args args m = (case senml_ptr of
     None \<Rightarrow> Some (XI_INVALID_PARAMETER, None, m)
   | Some (Some s) \<Rightarrow> Some (XI_INVALID_PARAMETER, Some s, m)
   | Some None \<Rightarrow> do {
       let (p, m1) = xi_alloc sizeof_xi_senml m;
       if p = NULL then Some (XI_OUT_OF_MEMORY, None, m1)
       else do {
         (st, s, m2) \<leftarrow> va_loop create_step n_args 0 args (zero_senml p) m1;
         Some (st, Some s, m2) } })"

definition add_name :: "xi_senml_entry \<Rightarrow> xi_senml_entry \<Rightarrow> xi_memory \<Rightarrow> (xi_state \<times> xi_senml_entry \<times> xi_memory) option" where
  "add_name arg e m =
     (if \<not> name_set arg then Some (XI_STATE_OK, e, m)
      else if entry_name arg = None then Some (XI_INVALID_PARAMETER, e, m)
      else do {
        (name, m1) \<leftarrow> dup_into (name_set e) (entry_name e) (entry_name arg) m;
        Some (XI_STATE_OK, e\<lparr>name_set := True, entry_name := name\<rparr>, m1) })"

definition add_units :: "xi_senml_entry \<Rightarrow> xi_senml_entry \<Rightarrow> xi_memory \<Rightarrow> (xi_state \<times> xi_senml_entry \<times> xi_memory) option" where
  "add_units arg e m =
     (if \<not> units_set arg then Some (XI_STATE_OK, e, m)
      else if entry_units arg = None then Some (XI_INVALID_PARAMETER, e, m)
      else do {
        (units, m1) \<leftarrow> dup_into (units_set e) (entry_units e) (entry_units arg) m;
        Some (XI_STATE_OK, e\<lparr>units_set := True, entry_units := units\<rparr>, m1) })"

definition add_value :: "xi_senml_entry \<Rightarrow> xi_senml_entry \<Rightarrow> xi_memory \<Rightarrow> (xi_state \<times> xi_senml_entry \<times> xi_memory) option" where
  "add_value arg e m =
     (if \<not> value_set arg then Some (XI_STATE_OK, e, m)
      else
        let m1 = (if value_set e then free_value (value_cnt e) m else m);
            e1 = e\<lparr>value_set := True, value_cnt := value_cnt arg\<rparr>
        in case value_cnt arg of
             XI_SENML_VALUE_TYPE_STRING None \<Rightarrow> Some (XI_INVALID_PARAMETER, e1, m1)
           | XI_SENML_VALUE_TYPE_STRING (Some (_, s)) \<Rightarrow> do {
               (c, m2) \<leftarrow> xi_str_dup s m1;
               Some (XI_STATE_OK, e1\<lparr>value_cnt := XI_SENML_VALUE_TYPE_STRING c\<rparr>, m2) }
           | _ \<Rightarrow> Some (XI_STATE_OK, e1, m1))"

definition add_times :: "xi_senml_entry \<Rightarrow> xi_senml_entry \<Rightarrow> xi_senml_entry" where
  "add_times arg e =
     (let e1 = (if time_set arg then e\<lparr>time_set := True, entry_time := entry_time arg\<rparr> else e)
      in if update_time_set arg then e1\<lparr>update_time_set := True, entry_update_time := entry_update_time arg\<rparr> else e1)"

definition add_step :: "xi_senml_entry \<Rightarrow> xi_senml_entry \<Rightarrow> xi_memory \<Rightarrow> (xi_state \<times> xi_senml_entry \<times> xi_memory) option" where
  "add_step arg e m = do {
     (st, e1, m1) \<leftarrow> add_name arg e m;
     if st \<noteq> XI_STATE_OK then Some (st, e1, m1)
     else do {
       (st, e2, m2) \<leftarrow> add_units arg e1 m1;
       if st \<noteq> XI_STATE_OK then Some (st, e2, m2)
       else do {
         (st, e3, m3) \<leftarrow> add_value arg e2 m2;
         if st \<noteq> XI_STATE_OK then Some (st, e3, m3) else Some (st, add_times arg e3, m3) } } }"

definition xi_add_senml_entry ::
    "xi_senml \<Rightarrow> int \<Rightarrow> xi_senml_entry list \<Rightarrow> xi_memory \<Rightarrow> (xi_state \<times> xi_senml \<times> xi_memory) option" where
  "xi_add_senml_entry senml n_args args m = do {
     let (p, m1) = xi_alloc sizeof_xi_senml_entry m;
     if p = NULL then Some (XI_OUT_OF_MEMORY, senml, m1)
     else do {
       (st, entry, m2) \<leftarrow> va_loop add_step n_args 0 args (zero_entry p) m1;
       if st \<noteq> XI_STATE_OK then Some (st, senml, m2)
       else Some (st, senml\<lparr>entries_list := entries_list senml @ [entry]\<rparr>, m2) } }"

end
