(* ===== verification/Xi_Senml_Render.thy ===== *)
theory Xi_Senml_Render
  imports Xi_Senml
begin

text \<open>
  The SenML serialiser writes what a reference rendering of the structure as JSON says; what is lost
  when memory runs out; and how structures are built and destroyed.
\<close>

section \<open>A calculus of appenders\<close>

text \<open>A buffer that owns its bytes, and the blocks that are not its bytes.\<close>

definition buf_ok :: "xi_data_desc \<Rightarrow> xi_memory \<Rightarrow> bool" where
  "buf_ok d m \<longleftrightarrow> desc_ok d \<and> mem_ok m \<and> desc_memory_type d = XI_MEMORY_TYPE_MANAGED
     \<and> data_ptr d \<in> live_blocks m \<and> desc_block d \<in> live_blocks m \<and> desc_block d \<noteq> data_ptr d"

definition others :: "xi_data_desc \<Rightarrow> xi_memory \<Rightarrow> addr set" where
  "others d m = live_blocks m - {data_ptr d}"

text \<open>
  \<open>f\<close> appends the bytes \<open>w\<close>, or runs out of memory behind some of them; with every allocation
  granted it does not.
\<close>

definition appended :: "byte list \<Rightarrow> nat \<Rightarrow> xi_data_desc \<Rightarrow> xi_memory \<Rightarrow> xi_data_desc \<Rightarrow> xi_memory \<Rightarrow> bool" where
  "appended w k d m e m' \<longleftrightarrow> buf_ok e m' \<and> others e m' = others d m \<and> desc_block e = desc_block d
     \<and> contents e = contents d @ take k w \<and> k \<le> length w \<and> (alloc_script m = [] \<longrightarrow> alloc_script m' = [])"

definition appends :: "(xi_data_desc \<Rightarrow> xi_memory \<Rightarrow> senml_result) \<Rightarrow> byte list \<Rightarrow> bool" where
  "appends f w \<longleftrightarrow> (\<forall>d m. buf_ok d m \<and> unat (desc_length d) + length w \<le> 2 ^ 31 \<longrightarrow>
     (\<exists>st e m' k. f d m = Some (st, e, m') \<and> appended w k d m e m'
        \<and> (st = XI_STATE_OK \<and> k = length w \<or> st = XI_OUT_OF_MEMORY \<and> alloc_script m \<noteq> [])))"

lemma appended_length:
  assumes "appended w k d m e m'" "buf_ok d m"
  shows "unat (desc_length e) = unat (desc_length d) + k"
proof -
  have "unat (desc_length e) = length (contents e)" using assms(1) by (intro length_contents [symmetric]) (simp add: appended_def buf_ok_def)
  also have "\<dots> = length (contents d) + k" using assms(1) by (simp add: appended_def)
  also have "\<dots> = unat (desc_length d) + k" using assms(2) by (simp add: buf_ok_def length_contents)
  finally show ?thesis .
qed

lemma appended_trans:
  assumes "appended u (length u) d m e m1" "appended v k e m1 f m2"
  shows "appended (u @ v) (length u + k) d m f m2"
  using assms by (simp add: appended_def)

lemma appends_skip: "appends (\<lambda>d m. Some (XI_STATE_OK, d, m)) []"
  by (auto simp: appends_def appended_def)

lemma appends_check:
  assumes f: "appends f u" and g: "appends g v"
  shows "appends (\<lambda>d m. senml_check_state (f d m) g) (u @ v)"
  unfolding appends_def
proof (intro allI impI, elim conjE)
  fix d m
  assume d: "buf_ok d m" "unat (desc_length d) + length (u @ v) \<le> 2 ^ 31"
  then obtain st e m1 k where e: "f d m = Some (st, e, m1)" "appended u k d m e m1"
    "st = XI_STATE_OK \<and> k = length u \<or> st = XI_OUT_OF_MEMORY \<and> alloc_script m \<noteq> []"
    using f [unfolded appends_def, rule_format, of d m] by auto
  show "\<exists>st e m' k. senml_check_state (f d m) g = Some (st, e, m') \<and> appended (u @ v) k d m e m'
        \<and> (st = XI_STATE_OK \<and> k = length (u @ v) \<or> st = XI_OUT_OF_MEMORY \<and> alloc_script m \<noteq> [])"
  proof (cases "st = XI_STATE_OK")
    case True
    have "buf_ok e m1" "unat (desc_length e) + length v \<le> 2 ^ 31"
      using e True d appended_length [OF e(2) d(1)] by (auto simp: appended_def)
    then obtain st' h m2 j where h: "g e m1 = Some (st', h, m2)" "appended v j e m1 h m2"
      "st' = XI_STATE_OK \<and> j = length v \<or> st' = XI_OUT_OF_MEMORY \<and> alloc_script m1 \<noteq> []"
      using g [unfolded appends_def, rule_format, of e m1] by auto
    have "alloc_script m \<noteq> []" if "alloc_script m1 \<noteq> []" using e(2) that by (auto simp: appended_def)
    then show ?thesis
      using e h True appended_trans [of u d m e m1 v j h m2]
      by (intro exI [of _ st'] exI [of _ h] exI [of _ m2] exI [of _ "length u + j"]) (auto simp: senml_check_state_def)
  next
    case False
    moreover have "appended (u @ v) k d m e m1" using e(2) by (auto simp: appended_def)
    ultimately show ?thesis
      using e by (intro exI [of _ st] exI [of _ e] exI [of _ m1] exI [of _ k]) (auto simp: senml_check_state_def)
  qed
qed

lemma appends_data:
  assumes len: "len \<le> length bs"
  shows "appends (\<lambda>d. append_data d bs len) (take len bs)"
  unfolding appends_def
proof (intro allI impI, elim conjE)
  fix d m
  assume d: "buf_ok d m" "unat (desc_length d) + length (take len bs) \<le> 2 ^ 31"
  have ok: "desc_ok d" "mem_ok m" "desc_memory_type d = XI_MEMORY_TYPE_MANAGED" "data_ptr d \<in> live_blocks m"
    "desc_block d \<in> live_blocks m" "desc_block d \<noteq> data_ptr d" "data_ptr d \<noteq> NULL"
    using d(1) by (auto simp: buf_ok_def mem_ok_def)
  have l: "unat (desc_length d) + len \<le> 2 ^ 31" using d(2) len by simp
  let ?ok = "\<lambda>st k. st = XI_STATE_OK \<and> k = length (take len bs) \<or> st = XI_OUT_OF_MEMORY \<and> alloc_script m \<noteq> []"
  show "\<exists>st e m' k. append_data d bs len m = Some (st, e, m') \<and> appended (take len bs) k d m e m' \<and> ?ok st k"
  proof (cases "unat (desc_length d) + len \<le> unat (desc_capacity d)")
    case True
    obtain e where e: "append_memcpy d bs len = Some e" "desc_ok e" "contents e = contents d @ take len bs"
      "data_ptr e = data_ptr d" "desc_block e = desc_block d" "desc_memory_type e = desc_memory_type d"
      using ok(1) len True by (rule append_memcpy_spec)
    then have "append_data d bs len m = Some (XI_STATE_OK, e, m)"
      using True l will_it_fit_iff [of d len]
      by (simp add: append_data_def xi_data_desc_append_data_resize_def xi_data_desc_assure_buf_len_def)
    moreover have "appended (take len bs) len d m e m"
      using e ok len by (simp add: appended_def buf_ok_def others_def)
    ultimately show ?thesis
      using len by (intro exI [of _ XI_STATE_OK] exI [of _ e] exI [of _ m] exI [of _ len]) simp
  next
    case False
    let ?n = "of_nat (unat (desc_length d) + len) :: 32 word"
    have n: "unat ?n = unat (desc_length d) + len" "unat ?n \<le> 2 ^ 31" using l by (subst of_nat_inverse; simp)+
    have fit: "\<not> xi_data_desc_will_it_fit d len" using False l will_it_fit_iff [of d len] by simp
    have script: "alloc_script m' = []" if "alloc_script m = []" "xi_data_desc_realloc d ?n (Some xi_data_desc_pow2_realloc_strategy) m = Some (st, e, m')" for st e m'
      using that by (auto simp: xi_data_desc_realloc_def xi_alloc_def xi_free_def xi_assert_def Let_def split: if_splits bind_splits)
    have granted: "st = XI_STATE_OK" if "alloc_script m = []" "xi_data_desc_realloc d ?n (Some xi_data_desc_pow2_realloc_strategy) m = Some (st, e, m')" for st e m'
    proof -
      have "\<not> PTRDIFF_MAX < unat x" for x :: "32 word" using unsigned_less [of x, where 'a = nat] by (simp add: PTRDIFF_MAX_def)
      then show ?thesis
        using that ok(2) by (auto simp: xi_data_desc_realloc_def xi_alloc_def mem_ok_def xi_assert_def Let_def split: if_splits bind_splits)
    qed
    from ok(1) n(2) ok(2) show ?thesis
    proof (cases rule: realloc_pow2_spec)
      case (fail m')
      then have "append_data d bs len m = Some (XI_OUT_OF_MEMORY, d, m')"
        using fit by (simp add: append_data_def xi_data_desc_append_data_resize_def xi_data_desc_assure_buf_len_def)
      moreover have "appended (take len bs) 0 d m d m'"
        using ok fail script by (simp add: appended_def buf_ok_def others_def)
      moreover have "alloc_script m \<noteq> []" using granted fail(1) by fastforce
      ultimately show ?thesis
        by (intro exI [of _ XI_OUT_OF_MEMORY] exI [of _ d] exI [of _ m'] exI [of _ 0]) simp
    next
      case (success e m')
      then have "unat (desc_length e) + len \<le> unat (desc_capacity e)" using n(1) by (simp add: word_le_nat_alt)
      with success(2) len obtain h where h: "append_memcpy e bs len = Some h" "desc_ok h" "contents h = contents e @ take len bs"
        "data_ptr h = data_ptr e" "desc_block h = desc_block e" "desc_memory_type h = desc_memory_type e"
        by (rule append_memcpy_spec)
      then have "append_data d bs len m = Some (XI_STATE_OK, h, m')"
        using success fit by (simp add: append_data_def xi_data_desc_append_data_resize_def xi_data_desc_assure_buf_len_def)
      moreover have "appended (take len bs) len d m h m'"
        using ok success h len script by (auto simp: appended_def buf_ok_def others_def)
      ultimately show ?thesis
        using len by (intro exI [of _ XI_STATE_OK] exI [of _ h] exI [of _ m'] exI [of _ len]) simp
    qed
  qed
qed

lemma appends_pattern: "appends (\<lambda>d. append_pattern d pat) (ascii pat)"
  using appends_data [of "length pat" "ascii pat"] by (simp add: append_pattern_def [abs_def] ascii_def)

section \<open>The reference rendering\<close>

fun join :: "byte list \<Rightarrow> byte list list \<Rightarrow> byte list" where
  "join sep [] = []"
| "join sep [x] = x"
| "join sep (x # y # ys) = x @ sep @ join sep (y # ys)"

text \<open>The characters of a string.\<close>

definition chars :: "char_ptr \<Rightarrow> byte list" where
  "chars s = (case s of None \<Rightarrow> [] | Some (_, bs) \<Rightarrow> takeWhile (\<lambda>c. c \<noteq> 0) bs)"

definition text_ok :: "char_ptr \<Rightarrow> bool" where
  "text_ok s \<longleftrightarrow> (\<exists>p bs. s = Some (p, bs) \<and> 0 \<in> set bs)"

definition json_string :: "char_ptr \<Rightarrow> byte list" where
  "json_string s = ascii ''\"'' @ chars s @ ascii ''\"''"

definition json_field :: "string \<Rightarrow> byte list \<Rightarrow> byte list" where
  "json_field key v = ascii (''\"'' @ key @ ''\":'') @ v"

definition json_object :: "byte list list \<Rightarrow> byte list" where
  "json_object fs = ascii ''{'' @ join (ascii '','') fs @ ascii ''}''"

definition json_array :: "byte list list \<Rightarrow> byte list" where
  "json_array vs = ascii ''['' @ join (ascii '','') vs @ ascii '']''"

definition json_bool :: "bool \<Rightarrow> byte list" where
  "json_bool b = ascii (if b then ''true'' else ''false'')"

definition json_int :: "32 word \<Rightarrow> byte list" where "json_int v = format_d (sint v)"

definition field_if :: "bool \<Rightarrow> byte list \<Rightarrow> byte list list" where "field_if b f = (if b then [f] else [])"

fun value_json :: "xi_senml_value \<Rightarrow> byte list" where
  "value_json (XI_SENML_VALUE_TYPE_FLOAT f) = json_field ''v'' (format_g5 f)"
| "value_json (XI_SENML_VALUE_TYPE_STRING s) = json_field ''sv'' (json_string s)"
| "value_json (XI_SENML_VALUE_TYPE_BOOLEAN b) = json_field ''bv'' (json_bool (b \<noteq> 0))"
| "value_json (Unknown_Value_Type n) = []"

definition entry_json :: "xi_senml_entry \<Rightarrow> byte list" where
  "entry_json e = json_object (
     field_if (name_set e) (json_field ''n'' (json_string (entry_name e)))
     @ [value_json (value_cnt e)]
     @ field_if (time_set e) (json_field ''t'' (json_int (entry_time e)))
     @ field_if (units_set e) (json_field ''u'' (json_string (entry_units e)))
     @ field_if (update_time_set e) (json_field ''ut'' (json_int (entry_update_time e))))"

definition senml_json :: "xi_senml \<Rightarrow> byte list" where
  "senml_json s = json_object (
     json_field ''e'' (json_array (map entry_json (entries_list s)))
     # field_if (base_name_set s) (json_field ''bn'' (json_string (base_name s)))
     @ field_if (base_time_set s) (json_field ''bt'' (json_int (base_time s)))
     @ field_if (base_units_set s) (json_field ''bu'' (json_string (base_units s))))"

text \<open>What the serialiser asks of a structure.\<close>

definition value_ok :: "xi_senml_value \<Rightarrow> bool" where
  "value_ok v \<longleftrightarrow> (case v of XI_SENML_VALUE_TYPE_STRING s \<Rightarrow> text_ok s | Unknown_Value_Type _ \<Rightarrow> False | _ \<Rightarrow> True)"

definition entry_ok :: "xi_senml_entry \<Rightarrow> bool" where
  "entry_ok e \<longleftrightarrow> value_set e \<and> value_ok (value_cnt e) \<and> (name_set e \<longrightarrow> text_ok (entry_name e))
     \<and> (units_set e \<longrightarrow> text_ok (entry_units e))"

definition senml_ok :: "xi_senml \<Rightarrow> bool" where
  "senml_ok s \<longleftrightarrow> (\<forall>e \<in> set (entries_list s). entry_ok e) \<and> (base_name_set s \<longrightarrow> text_ok (base_name s))
     \<and> (base_units_set s \<longrightarrow> text_ok (base_units s))"

section \<open>Texts and their lengths\<close>

lemma c_strlen_chars: "text_ok s \<Longrightarrow> \<exists>p bs. s = Some (p, bs) \<and> c_strlen bs = Some (length (chars s))
    \<and> take (length (chars s)) bs = chars s \<and> length (chars s) \<le> length bs"
proof -
  assume "text_ok s"
  then obtain p bs where s: "s = Some (p, bs)" "0 \<in> set bs" by (auto simp: text_ok_def)
  then show ?thesis
    by (intro exI [of _ p] exI [of _ bs])
      (simp add: c_strlen_def chars_def takeWhile_eq_take [symmetric] length_takeWhile_le)
qed

lemma of_char_zero: "(of_char c :: byte) = 0 \<longleftrightarrow> c = CHR 0x00"
proof
  assume "(of_char c :: byte) = 0"
  then have "(of_nat (of_char c :: nat) :: byte) = 0" by (simp only: of_nat_of_char)
  then have "2 ^ 8 dvd (of_char c :: nat)" by (simp only: word_of_nat_eq_0_iff) simp
  moreover have "\<not> 256 \<le> (of_char c :: nat)" using nat_of_char_less_256 [of c] by linarith
  ultimately have "(of_char c :: nat) = 0" using dvd_imp_le [of "2 ^ 8" "of_char c :: nat"] by (cases "(of_char c :: nat) = 0") simp_all
  then have "(of_char c :: nat) = of_char (CHR 0x00)" by simp
  then show "c = CHR 0x00" by (simp only: of_char_eq_iff)
qed simp

lemma ascii_nonzero: "CHR 0x00 \<notin> set s \<Longrightarrow> 0 \<notin> set (ascii s)"
  by (induct s) (auto simp: ascii_def of_char_zero)

lemma length_decimal: "0 < k \<Longrightarrow> 0 \<le> n \<Longrightarrow> n < 10 ^ k \<Longrightarrow> length (decimal n) \<le> k"
proof (induct k arbitrary: n)
  case (Suc k)
  then show ?case
    by (subst decimal.simps) (cases "k = 0"; fastforce simp: div_less_iff_less_mult)
qed simp

lemma decimal_nonempty: "decimal n \<noteq> []" by (subst decimal.simps) simp

lemma length_json_int: "json_int v \<noteq> []" "length (json_int v) \<le> 11"
proof -
  have b: "- (2 ^ 31) \<le> sint v" "sint v < 2 ^ 31" using sint_ge [of v] sint_lt [of v] by simp_all
  show "json_int v \<noteq> []" by (simp add: json_int_def format_d_def decimal_nonempty)
  show "length (json_int v) \<le> 11"
    using b length_decimal [of 10 "sint v"] length_decimal [of 10 "- sint v"] by (auto simp: json_int_def format_d_def)
qed

lemma length_with_fraction: "length (with_fraction ds fs) \<le> length ds + 1 + length fs"
proof -
  have "length (strip_zeros fs) \<le> length fs" using length_dropWhile_le [of "\<lambda>d. d = 48" "rev fs"] by (simp add: strip_zeros_def)
  then show ?thesis by (simp add: with_fraction_def)
qed

lemma length_format_digits: "length (format_digits n x) \<le> 10" "format_digits n x \<noteq> []"
proof -
  let ?ds = "map (\<lambda>k. digit (n div 10 ^ k)) [4, 3, 2, 1, 0]"
  have "nat (- x) \<le> 4" if "-4 \<le> x" using that by simp
  then show "length (format_digits n x) \<le> 10"
    using length_with_fraction [of "[48]" "replicate (nat (- x) - 1) 48 @ ?ds"]
      length_with_fraction [of "take (nat x + 1) ?ds" "drop (nat x + 1) ?ds"]
      length_with_fraction [of "take 1 ?ds" "drop 1 ?ds"]
    by (fastforce simp: format_digits_def Let_def)
  show "format_digits n x \<noteq> []" by (auto simp: format_digits_def with_fraction_def Let_def)
qed

lemma length_format_g5: "length (format_g5 v) \<le> 11" "format_g5 v \<noteq> []"
proof -
  obtain num den where nd: "float_num_den v = (num, den)" by fastforce
  obtain n x where fx: "five_digits num den = (n, x)" by fastforce
  show "length (format_g5 v) \<le> 11" "format_g5 v \<noteq> []"
    using length_format_digits [of n x] by (auto simp: format_g5_def nd fx ascii_def)
qed

section \<open>The parts of the serialiser\<close>

lemma appends_text: "t \<noteq> [] \<Longrightarrow> length t \<le> 31 \<Longrightarrow> appends (\<lambda>d. append_text d t) t"
  using appends_data [of "length t" "snprintf_buf t"] by (simp add: append_text_def [abs_def] snprintf_buf_def)

lemma appends_string: "text_ok s \<Longrightarrow> appends (\<lambda>d. xi_senml_json_serialize_string d s) (json_string s)"
proof -
  assume "text_ok s"
  then obtain p bs where s: "s = Some (p, bs)" "c_strlen bs = Some (length (chars s))"
    "take (length (chars s)) bs = chars s" "length (chars s) \<le> length bs" using c_strlen_chars by blast
  have "appends (\<lambda>d m. senml_check_state (append_pattern d ''\"'' m) (\<lambda>out m.
     senml_check_state (append_data out bs (length (chars s)) m) (\<lambda>out m. append_pattern out ''\"'' m)))
     (ascii ''\"'' @ take (length (chars s)) bs @ ascii ''\"'')"
    by (intro appends_check appends_pattern appends_data s(4))
  then show ?thesis using s(1-3) by (simp add: xi_senml_json_serialize_string_def [abs_def] json_string_def)
qed

text \<open>A field behind the fields \<open>fs\<close>.\<close>

definition comma :: "byte list list \<Rightarrow> byte list" where "comma fs = (if fs = [] then [] else ascii '','')"

lemma join_snoc: "join (ascii '','') (fs @ [f]) = join (ascii '','') fs @ comma fs @ f"
  by (induct "ascii '',''" fs rule: join.induct) (simp_all add: comma_def)

lemma join_field_if: "join (ascii '','') (fs @ field_if b f) = join (ascii '','') fs @ (if b then comma fs @ f else [])"
  by (simp add: field_if_def join_snoc)

definition counts :: "16 word \<Rightarrow> byte list list \<Rightarrow> bool" where
  "counts n fs \<longleftrightarrow> n = of_nat (length fs) \<and> length fs < 100"

lemma counts_positive: "counts n fs \<Longrightarrow> n > 0 \<longleftrightarrow> fs \<noteq> []"
  by (auto simp: counts_def word_gt_0 word_of_nat_eq_0_iff dest: dvd_imp_le)

lemma counts_next: "counts n fs \<Longrightarrow> length fs < 50 \<Longrightarrow> counts (next_count b n) (fs @ field_if b f)"
  by (simp add: counts_def next_count_def field_if_def)

lemma appends_key:
  assumes "counts n fs" "CHR 0x00 \<notin> set key"
  shows "appends (\<lambda>d. xi_senml_json_serialize_key d (c_string (ascii key)) n) (comma fs @ ascii key)"
proof -
  have k: "c_strlen (c_string (ascii key)) = Some (length (ascii key))" using assms(2) by (simp add: ascii_nonzero)
  have "appends (\<lambda>d m. senml_check_state (if n > 0 then append_pattern d '','' m else Some (XI_STATE_OK, d, m))
      (\<lambda>out m. append_data out (c_string (ascii key)) (length (ascii key)) m)) (comma fs @ take (length (ascii key)) (c_string (ascii key)))"
    using counts_positive [OF assms(1)] appends_pattern [of "'',''"] appends_skip
    by (intro appends_check appends_data) (auto simp: comma_def c_string_def)
  then show ?thesis by (simp add: xi_senml_json_serialize_key_def [abs_def] k) (simp add: c_string_def)
qed

lemma appends_field:
  assumes "counts n fs" "CHR 0x00 \<notin> set key" "appends f v"
  shows "appends (\<lambda>d m. senml_check_state (xi_senml_json_serialize_key d (c_string (ascii (''\"'' @ key @ ''\":''))) n m) f)
    (comma fs @ json_field key v)"
  using appends_check [OF appends_key [OF assms(1), of "''\"'' @ key @ ''\":''"] assms(3)] assms(2)
  by (simp add: json_field_def)

lemma appends_json_int: "appends (\<lambda>d. xi_senml_json_serialize_int d v) (json_int v)"
  using appends_text [of "json_int v"] length_json_int [of v]
  by (simp add: xi_senml_json_serialize_int_def [abs_def] json_int_def)

lemma appends_fields:
  assumes "counts n fs"
  shows "text_ok s \<Longrightarrow> appends (\<lambda>d. xi_senml_json_serialize_name d s n) (comma fs @ json_field ''n'' (json_string s))"
    "text_ok s \<Longrightarrow> appends (\<lambda>d. xi_senml_json_serialize_string_value d s n) (comma fs @ json_field ''sv'' (json_string s))"
    "text_ok s \<Longrightarrow> appends (\<lambda>d. xi_senml_json_serialize_units d s n) (comma fs @ json_field ''u'' (json_string s))"
    "text_ok s \<Longrightarrow> appends (\<lambda>d. xi_senml_json_serialize_base_name d s n) (comma fs @ json_field ''bn'' (json_string s))"
    "text_ok s \<Longrightarrow> appends (\<lambda>d. xi_senml_json_serialize_base_units d s n) (comma fs @ json_field ''bu'' (json_string s))"
    "appends (\<lambda>d. xi_senml_json_serialize_time d t n) (comma fs @ json_field ''t'' (json_int t))"
    "appends (\<lambda>d. xi_senml_json_serialize_update_time d t n) (comma fs @ json_field ''ut'' (json_int t))"
    "appends (\<lambda>d. xi_senml_json_serialize_base_time d t n) (comma fs @ json_field ''bt'' (json_int t))"
    "appends (\<lambda>d. xi_senml_json_serialize_float_value d v n) (comma fs @ json_field ''v'' (format_g5 v))"
    "appends (\<lambda>d. xi_senml_json_serialize_boolean_value d b n) (comma fs @ json_field ''bv'' (json_bool (b \<noteq> 0)))"
proof -
  note f = appends_field [OF assms]
  have fl: "appends (\<lambda>d. xi_senml_json_serialize_float d v) (format_g5 v)"
    using appends_text [of "format_g5 v"] length_format_g5 [of v]
    by (simp add: xi_senml_json_serialize_float_def [abs_def])
  have bl: "appends (\<lambda>d. xi_senml_json_serialize_boolean d b) (json_bool (b \<noteq> 0))"
    using appends_pattern [of "''true''"] appends_pattern [of "''false''"]
    by (simp add: xi_senml_json_serialize_boolean_def [abs_def] json_bool_def word_gt_0)
  note s = appends_string
  show "text_ok s \<Longrightarrow> appends (\<lambda>d. xi_senml_json_serialize_name d s n) (comma fs @ json_field ''n'' (json_string s))"
    using f [of "''n''", OF _ s [of s]] by (simp add: xi_senml_json_serialize_name_def [abs_def] text_ok_def) (auto simp: text_ok_def)
  show "text_ok s \<Longrightarrow> appends (\<lambda>d. xi_senml_json_serialize_string_value d s n) (comma fs @ json_field ''sv'' (json_string s))"
    using f [of "''sv''", OF _ s [of s]] by (auto simp: xi_senml_json_serialize_string_value_def [abs_def] text_ok_def)
  show "text_ok s \<Longrightarrow> appends (\<lambda>d. xi_senml_json_serialize_units d s n) (comma fs @ json_field ''u'' (json_string s))"
    using f [of "''u''", OF _ s [of s]] by (auto simp: xi_senml_json_serialize_units_def [abs_def] text_ok_def)
  show "text_ok s \<Longrightarrow> appends (\<lambda>d. xi_senml_json_serialize_base_name d s n) (comma fs @ json_field ''bn'' (json_string s))"
    using f [of "''bn''", OF _ s [of s]] by (auto simp: xi_senml_json_serialize_base_name_def [abs_def] text_ok_def)
  show "text_ok s \<Longrightarrow> appends (\<lambda>d. xi_senml_json_serialize_base_units d s n) (comma fs @ json_field ''bu'' (json_string s))"
    using f [of "''bu''", OF _ s [of s]] by (auto simp: xi_senml_json_serialize_base_units_def [abs_def] text_ok_def)
  show "appends (\<lambda>d. xi_senml_json_serialize_time d t n) (comma fs @ json_field ''t'' (json_int t))"
    using f [of "''t''", OF _ appends_json_int] by (simp add: xi_senml_json_serialize_time_def [abs_def])
  show "appends (\<lambda>d. xi_senml_json_serialize_update_time d t n) (comma fs @ json_field ''ut'' (json_int t))"
    using f [of "''ut''", OF _ appends_json_int] by (simp add: xi_senml_json_serialize_update_time_def [abs_def])
  show "appends (\<lambda>d. xi_senml_json_serialize_base_time d t n) (comma fs @ json_field ''bt'' (json_int t))"
    using f [of "''bt''", OF _ appends_json_int] by (simp add: xi_senml_json_serialize_base_time_def [abs_def])
  show "appends (\<lambda>d. xi_senml_json_serialize_float_value d v n) (comma fs @ json_field ''v'' (format_g5 v))"
    using f [of "''v''", OF _ fl] by (simp add: xi_senml_json_serialize_float_value_def [abs_def])
  show "appends (\<lambda>d. xi_senml_json_serialize_boolean_value d b n) (comma fs @ json_field ''bv'' (json_bool (b \<noteq> 0)))"
    using f [of "''bv''", OF _ bl] by (simp add: xi_senml_json_serialize_boolean_value_def [abs_def])
qed

section \<open>Entries and the whole structure\<close>

lemma appends_when: "(b \<Longrightarrow> appends f w) \<Longrightarrow> appends (when_set b f) (if b then w else [])"
  using appends_skip by (cases b) (simp_all add: when_set_def [abs_def])

lemma appends_value:
  assumes "counts n fs" "value_ok v"
  shows "appends (\<lambda>d. xi_senml_json_serialize_value_set d v n) (comma fs @ value_json v)"
  using appends_fields [OF assms(1)] assms(2)
  by (cases v) (simp_all add: xi_senml_json_serialize_value_set_def [abs_def] value_ok_def)

lemma appends_entry:
  assumes e: "entry_ok e" and n: "cnt > 0 \<longleftrightarrow> pre \<noteq> []"
  shows "appends (\<lambda>d. xi_senml_json_serialize_entry d e cnt) (comma pre @ entry_json e)"
proof -
  define fa where "fa = field_if (name_set e) (json_field ''n'' (json_string (entry_name e)))"
  define fb where "fb = fa @ [value_json (value_cnt e)]"
  define fc where "fc = fb @ field_if (time_set e) (json_field ''t'' (json_int (entry_time e)))"
  define fd where "fd = fc @ field_if (units_set e) (json_field ''u'' (json_string (entry_units e)))"
  define fe where "fe = fd @ field_if (update_time_set e) (json_field ''ut'' (json_int (entry_update_time e)))"
  define ca where "ca = next_count (name_set e) 0"
  define cc where "cc = next_count (time_set e) (ca + 1)"
  define cd where "cd = next_count (units_set e) cc"
  have l: "length fa \<le> 1" "length fb \<le> 2" "length fc \<le> 3" "length fd \<le> 4"
    by (simp_all add: fa_def fb_def fc_def fd_def field_if_def)
  have c0: "counts 0 []" by (simp add: counts_def)
  have c1: "counts ca fa" using counts_next [OF c0] by (simp add: ca_def fa_def)
  have c2: "counts (ca + 1) fb" using counts_next [OF c1, of True] l by (simp add: fb_def next_count_def field_if_def)
  have c3: "counts cc fc" using counts_next [OF c2] l by (simp add: cc_def fc_def)
  have c4: "counts cd fd" using counts_next [OF c3] l by (simp add: cd_def fd_def)
  have ok: "value_set e" "value_ok (value_cnt e)" "name_set e \<Longrightarrow> text_ok (entry_name e)" "units_set e \<Longrightarrow> text_ok (entry_units e)"
    using e by (simp_all add: entry_ok_def)
  let ?w1 = "if name_set e then comma [] @ json_field ''n'' (json_string (entry_name e)) else []"
  let ?w2 = "comma fa @ value_json (value_cnt e)"
  let ?w3 = "if time_set e then comma fb @ json_field ''t'' (json_int (entry_time e)) else []"
  let ?w4 = "if units_set e then comma fc @ json_field ''u'' (json_string (entry_units e)) else []"
  let ?w5 = "if update_time_set e then comma fd @ json_field ''ut'' (json_int (entry_update_time e)) else []"
  have p: "appends (\<lambda>d m. if cnt > 0 then append_pattern d '',{'' m else append_pattern d ''{'' m) (comma pre @ ascii ''{'')"
    using n appends_pattern [of "'',{''"] appends_pattern [of "''{''"] by (simp add: comma_def ascii_def)
  have "appends (\<lambda>d. xi_senml_json_serialize_entry d e cnt) ((comma pre @ ascii ''{'') @ ?w1 @ ?w2 @ ?w3 @ ?w4 @ ?w5 @ ascii ''}'')"
    unfolding xi_senml_json_serialize_entry_def [abs_def] Let_def ca_def [symmetric] cc_def [symmetric] cd_def [symmetric] if_P [OF ok(1)]
    by (intro appends_check p appends_pattern appends_when appends_value c1 ok
        appends_fields [OF c0] appends_fields [OF c2] appends_fields [OF c3] appends_fields [OF c4])
  moreover have "join (ascii '','') fe = ?w1 @ ?w2 @ ?w3 @ ?w4 @ ?w5"
  proof -
    have "join (ascii '','') fa = ?w1" by (simp add: fa_def field_if_def comma_def)
    moreover have "join (ascii '','') fb = join (ascii '','') fa @ ?w2" by (simp only: fb_def join_snoc)
    moreover have "join (ascii '','') fc = join (ascii '','') fb @ ?w3" by (simp only: fc_def join_field_if)
    moreover have "join (ascii '','') fd = join (ascii '','') fc @ ?w4" by (simp only: fd_def join_field_if)
    moreover have "join (ascii '','') fe = join (ascii '','') fd @ ?w5" by (simp only: fe_def join_field_if)
    ultimately show ?thesis by (simp only: append_assoc)
  qed
  moreover have "entry_json e = json_object fe" by (simp add: entry_json_def fe_def fd_def fc_def fb_def fa_def)
  ultimately show ?thesis by (simp add: json_object_def)
qed

lemma appends_entries:
  assumes "\<forall>e \<in> set es. entry_ok e" "length pre + length es < 2 ^ 32" "cnt = of_nat (length pre)"
  shows "\<exists>w. appends (\<lambda>d. serialize_entries d es cnt) w
    \<and> join (ascii '','') (pre @ map entry_json es) = join (ascii '','') pre @ w"
  using assms
proof (induct es arbitrary: pre cnt)
  case Nil
  then show ?case using appends_skip by (intro exI [of _ "[]"]) simp
next
  case (Cons e es)
  have n: "cnt > 0 \<longleftrightarrow> pre \<noteq> []"
    using Cons.prems(2,3) by (auto simp: word_gt_0 word_of_nat_eq_0_iff dest: dvd_imp_le)
  obtain w where w: "appends (\<lambda>d. serialize_entries d es (cnt + 1)) w"
    "join (ascii '','') ((pre @ [entry_json e]) @ map entry_json es) = join (ascii '','') (pre @ [entry_json e]) @ w"
    using Cons.hyps [of "pre @ [entry_json e]" "cnt + 1"] Cons.prems by auto
  have "appends (\<lambda>d. serialize_entries d (e # es) cnt) ((comma pre @ entry_json e) @ w)"
    using appends_check [OF appends_entry [OF _ n, of e] w(1)] Cons.prems(1)
    unfolding serialize_entries.simps(2) [abs_def] by simp
  moreover have "join (ascii '','') (pre @ map entry_json (e # es)) = join (ascii '','') pre @ (comma pre @ entry_json e) @ w"
    using w(2) by (simp add: join_snoc)
  ultimately show ?case by blast
qed

lemma length_join: "\<forall>x \<in> set xs. x \<noteq> [] \<Longrightarrow> length xs \<le> length (join sep xs)"
proof (induct sep xs rule: join.induct)
  case (2 sep x)
  then show ?case by (cases x) simp_all
next
  case (3 sep x y ys)
  then have "length (y # ys) \<le> length (join sep (y # ys))" by simp
  moreover have "1 \<le> length x" using 3 by (cases x) simp_all
  ultimately show ?case by (simp only: join.simps length_append list.size)
qed simp

text \<open>The part that is checked, and the base elements.\<close>

definition head_json :: "xi_senml \<Rightarrow> byte list" where
  "head_json s = ascii ''{'' @ json_field ''e'' (json_array (map entry_json (entries_list s)))"

definition base_name_json :: "xi_senml \<Rightarrow> byte list" where
  "base_name_json s = (if base_name_set s then ascii '','' @ json_field ''bn'' (json_string (base_name s)) else [])"

definition base_time_json :: "xi_senml \<Rightarrow> byte list" where
  "base_time_json s = (if base_time_set s then ascii '','' @ json_field ''bt'' (json_int (base_time s)) else [])"

definition base_units_json :: "xi_senml \<Rightarrow> byte list" where
  "base_units_json s = (if base_units_set s then ascii '','' @ json_field ''bu'' (json_string (base_units s)) else [])"

lemma senml_json_parts:
  "senml_json s = head_json s @ base_name_json s @ base_time_json s @ base_units_json s @ ascii ''}''"
  by (simp add: senml_json_def json_object_def head_json_def base_name_json_def base_time_json_def base_units_json_def
      field_if_def)

lemma appends_head:
  assumes "senml_ok s" "length (senml_json s) \<le> 2 ^ 31"
  shows "appends (\<lambda>d m. senml_check_state (xi_senml_json_serialize_init d m) (\<lambda>d m.
      senml_check_state (serialize_entries d (entries_list s) 0 m) xi_senml_json_serialize_close_entries)) (head_json s)"
proof -
  let ?es = "map entry_json (entries_list s)"
  have ne: "\<forall>x \<in> set ?es. x \<noteq> []" by (simp add: entry_json_def json_object_def ascii_def)
  have "length (entries_list s) \<le> length (join (ascii '','') ?es)" using length_join [OF ne, of "ascii '',''"] by simp
  also have "\<dots> \<le> length (senml_json s)" by (simp add: senml_json_parts head_json_def json_field_def json_array_def)
  finally have "length (entries_list s) < 2 ^ 32" using assms(2) by simp
  then obtain w where w: "appends (\<lambda>d. serialize_entries d (entries_list s) 0) w" "join (ascii '','') ?es = w"
    using appends_entries [of "entries_list s" "[]" 0] assms(1) by (auto simp: senml_ok_def)
  have "appends (\<lambda>d m. senml_check_state (xi_senml_json_serialize_init d m) (\<lambda>d m.
      senml_check_state (serialize_entries d (entries_list s) 0 m) xi_senml_json_serialize_close_entries))
      (ascii ''{\"e\":['' @ w @ ascii '']'')"
    unfolding xi_senml_json_serialize_init_def xi_senml_json_serialize_close_entries_def [abs_def]
    by (intro appends_check appends_pattern w(1))
  moreover have "head_json s = ascii ''{\"e\":['' @ w @ ascii '']''"
    unfolding head_json_def json_field_def json_array_def w(2) by (simp add: ascii_def)
  ultimately show ?thesis by simp
qed

lemma base_tries:
  assumes "b \<Longrightarrow> appends f w" "\<not> b \<Longrightarrow> w = []" "buf_ok d m" "unat (desc_length d) + length w \<le> 2 ^ 31"
  obtains e m' k where "serialize_base b f d m = Some (e, m')" "appended w k d m e m'"
    "alloc_script m = [] \<longrightarrow> k = length w"
proof (cases b)
  case True
  then obtain st e m' k where "f d m = Some (st, e, m')" "appended w k d m e m'"
    "st = XI_STATE_OK \<and> k = length w \<or> st = XI_OUT_OF_MEMORY \<and> alloc_script m \<noteq> []"
    using assms unfolding appends_def by blast
  then show thesis using True by (intro that [of e m' k]) (auto simp: serialize_base_def)
next
  case False
  then show thesis using assms(2,3) by (intro that [of d m 0]) (auto simp: serialize_base_def appended_def)
qed

lemma empty_buffer:
  assumes m: "mem_ok m"
  obtains (refused) m' where "xi_make_empty_desc_alloc 32 m = Some (None, m')" "live_blocks m' = live_blocks m" "mem_ok m'"
      "alloc_script m \<noteq> []"
  | (asserts) "xi_make_empty_desc_alloc 32 m = None" "alloc_script m \<noteq> []"
  | (made) d m' where "xi_make_empty_desc_alloc 32 m = Some (Some d, m')" "buf_ok d m'" "contents d = []"
      "desc_length d = 0" "unat (desc_capacity d) = 32" "others d m' = insert (desc_block d) (live_blocks m)"
      "desc_block d \<notin> live_blocks m" "data_ptr d \<notin> live_blocks m" "alloc_script m' = drop 2 (alloc_script m)"
proof -
  obtain p m1 where a: "xi_alloc sizeof_xi_data_desc m = (p, m1)" by fastforce
  obtain q m2 where b: "xi_alloc 32 m1 = (q, m2)" by fastforce
  have big: "\<not> PTRDIFF_MAX < sizeof_xi_data_desc" "\<not> PTRDIFF_MAX < 32" by (simp_all add: PTRDIFF_MAX_def sizeof_xi_data_desc_def)
  note m1 = xi_alloc_mem_ok [OF a m]
  note m2 = xi_alloc_mem_ok [OF b m1]
  consider "p = NULL" | "p \<noteq> NULL" "q = NULL" | "p \<noteq> NULL" "q \<noteq> NULL" by blast
  then show thesis
  proof cases
    case 1
    moreover have "alloc_script m \<noteq> []" "live_blocks m1 = live_blocks m"
      using a 1 big m by (auto simp: xi_alloc_def mem_ok_def split: if_splits)
    ultimately show thesis
      using refused [of m1] a m1 by (simp add: xi_make_empty_desc_alloc_def xi_free_desc_def)
  next
    case 2
    then have "alloc_script m \<noteq> []"
      using a b big m by (auto simp: xi_alloc_def mem_ok_def split: if_splits)
    then show thesis using asserts a b 2
      by (simp add: xi_make_empty_desc_alloc_def xi_free_desc_def zero_desc_def)
  next
    case 3
    let ?d = "(zero_desc p)\<lparr>data_ptr := q, data_bytes := replicate 32 0, desc_length := 0, desc_capacity := 32,
              desc_memory_type := XI_MEMORY_TYPE_MANAGED\<rparr>"
    have "xi_make_empty_desc_alloc 32 m = Some (Some ?d, m2)" using a b 3 by (simp add: xi_make_empty_desc_alloc_def)
    moreover have "p \<notin> live_blocks m" "q \<notin> live_blocks m" "p \<noteq> q" "live_blocks m2 = {p, q} \<union> live_blocks m"
      "alloc_script m2 = drop 2 (alloc_script m)"
      using a b 3 m m1 by (auto simp: xi_alloc_def mem_ok_def drop_Suc numeral_2_eq_2 split: if_splits)
    ultimately show thesis
      using m2 by (intro made [of ?d m2]) (auto simp: buf_ok_def desc_ok_def contents_def others_def zero_desc_def)
  qed
qed

text \<open>What comes out, whatever the memory grants.\<close>

lemma json_serialize_outcomes:
  assumes s: "senml_ok s" "length (senml_json s) \<le> 2 ^ 31" and m: "mem_ok m"
  obtains (refused) m' where "xi_senml_json_serialize (Some old) (Some s) m = Some (XI_OUT_OF_MEMORY, None, m')"
      "live_blocks m' = live_blocks m" "alloc_script m \<noteq> []"
  | (asserts) "xi_senml_json_serialize (Some old) (Some s) m = None" "alloc_script m \<noteq> []"
  | (ended) st d m' i j k where "xi_senml_json_serialize (Some old) (Some s) m = Some (st, Some d, m')" "buf_ok d m'"
      "others d m' = insert (desc_block d) (live_blocks m)" "desc_block d \<notin> live_blocks m"
      "st = XI_STATE_OK \<and> contents d = head_json s @ take i (base_name_json s) @ take j (base_time_json s)
           @ take k (base_units_json s) @ ascii ''}'' \<or> st = XI_OUT_OF_MEMORY \<and> alloc_script m \<noteq> []"
      "alloc_script m = [] \<longrightarrow> i = length (base_name_json s) \<and> j = length (base_time_json s) \<and> k = length (base_units_json s)"
  using m
proof (cases rule: empty_buffer)
  case (refused m')
  then show thesis using that(1) by (simp add: xi_senml_json_serialize_def)
next
  case asserts
  then show thesis using that(2) by (simp add: xi_senml_json_serialize_def)
next
  case (made d m1)
  let ?wn = "base_name_json s" and ?wt = "base_time_json s" and ?wu = "base_units_json s"
  have len: "length (head_json s) + length ?wn + length ?wt + length ?wu + 1 \<le> 2 ^ 31"
    using s(2) by (simp add: senml_json_parts ascii_def)
  obtain st e m2 k0 where head: "senml_check_state (xi_senml_json_serialize_init d m1) (\<lambda>d m.
      senml_check_state (serialize_entries d (entries_list s) 0 m) xi_senml_json_serialize_close_entries) = Some (st, e, m2)"
    "appended (head_json s) k0 d m1 e m2"
    "st = XI_STATE_OK \<and> k0 = length (head_json s) \<or> st = XI_OUT_OF_MEMORY \<and> alloc_script m1 \<noteq> []"
    using appends_head [OF s, unfolded appends_def, rule_format, of d m1] made(2,4) len by auto
  let ?tail = "\<lambda>out m. do {
                let c1 = (1 :: 16 word);
                (out, m) \<leftarrow> serialize_base (base_name_set s)
                  (\<lambda>out. xi_senml_json_serialize_base_name out (base_name s) c1) out m;
                let c2 = next_count (base_name_set s) c1;
                (out, m) \<leftarrow> serialize_base (base_time_set s)
                  (\<lambda>out. xi_senml_json_serialize_base_time out (base_time s) c2) out m;
                let c3 = next_count (base_time_set s) c2;
                (out, m) \<leftarrow> serialize_base (base_units_set s)
                  (\<lambda>out. xi_senml_json_serialize_base_units out (base_units s) c3) out m;
                xi_senml_json_serialize_close out m }"
  have assoc: "senml_check_state (senml_check_state r f) g = senml_check_state r (\<lambda>d m. senml_check_state (f d m) g)" for r f g
    by (auto simp: senml_check_state_def split: bind_splits)
  have run: "xi_senml_json_serialize (Some old) (Some s) m = do {
      (st, out, m2) \<leftarrow> senml_check_state (Some (st, e, m2)) ?tail; Some (st, Some out, m2) }"
    using made(1) head(1) by (simp add: xi_senml_json_serialize_def assoc [symmetric] Let_def)
  have fresh: "others e m2 = insert (desc_block e) (live_blocks m)" "desc_block e \<notin> live_blocks m"
    using head(2) made(6,7) by (simp_all add: appended_def)
  have script1: "alloc_script m \<noteq> []" if "alloc_script m1 \<noteq> []" using made(9) that by auto
  show thesis
  proof (cases "st = XI_STATE_OK")
    case False
    then have "st = XI_OUT_OF_MEMORY" "alloc_script m \<noteq> []" using head(3) script1 by auto
    then show thesis using that(3) [of st e m2] run head(2) fresh by (simp add: senml_check_state_def appended_def)
  next
    case True
    have b0: "buf_ok e m2" "unat (desc_length e) = length (head_json s)" "contents e = head_json s"
      using head(2,3) True appended_length [OF head(2) made(2)] made(3,4) by (auto simp: appended_def)
    have one: "counts 1 [[]]" by (simp add: counts_def)
    let ?f2 = "[[]] @ field_if (base_name_set s) []" and ?c2 = "next_count (base_name_set s) 1"
    let ?f3 = "?f2 @ field_if (base_time_set s) []" and ?c3 = "next_count (base_time_set s) ?c2"
    have c2: "counts ?c2 ?f2" using counts_next [OF one] by simp
    have c3: "counts ?c3 ?f3" using counts_next [OF c2] by (simp add: field_if_def)
    have comma: "comma ([] # xs) = ascii '',''" for xs by (simp add: comma_def)
    have tx: "base_name_set s \<Longrightarrow> text_ok (base_name s)" "base_units_set s \<Longrightarrow> text_ok (base_units s)"
      using s(1) by (simp_all add: senml_ok_def)
    have wn: "base_name_set s \<Longrightarrow> appends (\<lambda>d. xi_senml_json_serialize_base_name d (base_name s) 1) ?wn"
      using appends_fields(4) [OF one tx(1)] by (simp add: base_name_json_def comma)
    have wt: "base_time_set s \<Longrightarrow> appends (\<lambda>d. xi_senml_json_serialize_base_time d (base_time s) ?c2) ?wt"
      using appends_fields(8) [OF c2] by (simp add: base_time_json_def comma)
    have wu: "base_units_set s \<Longrightarrow> appends (\<lambda>d. xi_senml_json_serialize_base_units d (base_units s) ?c3) ?wu"
      using appends_fields(5) [OF c3 tx(2)] by (simp add: base_units_json_def comma)
    have unset: "\<not> base_name_set s \<Longrightarrow> ?wn = []" "\<not> base_time_set s \<Longrightarrow> ?wt = []" "\<not> base_units_set s \<Longrightarrow> ?wu = []"
      by (simp_all add: base_name_json_def base_time_json_def base_units_json_def)
    have l1: "unat (desc_length e) + length ?wn \<le> 2 ^ 31" using b0(2) len by simp
    obtain d1 m3 i where n: "serialize_base (base_name_set s) (\<lambda>d. xi_senml_json_serialize_base_name d (base_name s) 1) e m2 = Some (d1, m3)"
      "appended ?wn i e m2 d1 m3" "alloc_script m2 = [] \<longrightarrow> i = length ?wn"
      by (rule base_tries [OF wn unset(1) b0(1) l1])
    have b1: "buf_ok d1 m3" "unat (desc_length d1) = length (head_json s) + i" "i \<le> length ?wn"
      using n(2) appended_length [OF n(2) b0(1)] b0(2) by (simp_all add: appended_def)
    have l2: "unat (desc_length d1) + length ?wt \<le> 2 ^ 31" using b1(2,3) len by simp
    obtain d2 m4 j where t: "serialize_base (base_time_set s) (\<lambda>d. xi_senml_json_serialize_base_time d (base_time s) ?c2) d1 m3 = Some (d2, m4)"
      "appended ?wt j d1 m3 d2 m4" "alloc_script m3 = [] \<longrightarrow> j = length ?wt"
      by (rule base_tries [OF wt unset(2) b1(1) l2])
    have b2: "buf_ok d2 m4" "unat (desc_length d2) = length (head_json s) + i + j" "j \<le> length ?wt"
      using t(2) appended_length [OF t(2) b1(1)] b1(2) by (simp_all add: appended_def)
    have l3: "unat (desc_length d2) + length ?wu \<le> 2 ^ 31" using b1(3) b2(2,3) len by simp
    obtain d3 m5 k where u: "serialize_base (base_units_set s) (\<lambda>d. xi_senml_json_serialize_base_units d (base_units s) ?c3) d2 m4 = Some (d3, m5)"
      "appended ?wu k d2 m4 d3 m5" "alloc_script m4 = [] \<longrightarrow> k = length ?wu"
      by (rule base_tries [OF wu unset(3) b2(1) l3])
    have b3: "buf_ok d3 m5" "unat (desc_length d3) = length (head_json s) + i + j + k" "k \<le> length ?wu"
      using u(2) appended_length [OF u(2) b2(1)] b2(2) by (simp_all add: appended_def)
    obtain st' d4 m6 l where c: "xi_senml_json_serialize_close d3 m5 = Some (st', d4, m6)" "appended (ascii ''}'') l d3 m5 d4 m6"
      "st' = XI_STATE_OK \<and> l = length (ascii ''}'') \<or> st' = XI_OUT_OF_MEMORY \<and> alloc_script m5 \<noteq> []"
      using appends_pattern [of "''}''", unfolded appends_def, rule_format, of d3 m5] b1(3) b2(3) b3 len
      by (auto simp: xi_senml_json_serialize_close_def ascii_def)
    have sc: "alloc_script m = [] \<Longrightarrow> alloc_script m2 = [] \<and> alloc_script m3 = [] \<and> alloc_script m4 = [] \<and> alloc_script m5 = []"
      using made(9) head(2) n(2) t(2) u(2) by (simp add: appended_def)
    have "xi_senml_json_serialize (Some old) (Some s) m = Some (st', Some d4, m6)"
      using run True n(1) t(1) u(1) c(1) by (simp add: senml_check_state_def Let_def)
    moreover have "others d4 m6 = others e m2" "desc_block d4 = desc_block e"
      using n(2) t(2) u(2) c(2) by (simp_all add: appended_def)
    moreover have "contents d4 = head_json s @ take i ?wn @ take j ?wt @ take k ?wu @ take l (ascii ''}'')"
      using n(2) t(2) u(2) c(2) b0(3) by (simp add: appended_def)
    ultimately show thesis
      using that(3) [of st' d4 m6 i j k] fresh c(2,3) sc n(3) t(3) u(3) by (auto simp: appended_def)
  qed
qed

section \<open>What the application gets\<close>

lemma serialize_ended:
  assumes "xi_senml_json_serialize (Some None) (Some s) m = Some (st, Some d, m1)" "buf_ok d m1"
    "others d m1 = insert (desc_block d) (live_blocks m)" "desc_block d \<notin> live_blocks m" "out_buffer \<noteq> NULL" "out_size \<noteq> NULL"
  shows "st = XI_STATE_OK \<Longrightarrow> \<exists>m'. xi_senml_serialize (Some s) out_buffer out_size m
      = Some (XI_STATE_OK, Some (data_ptr d, data_bytes d), Some (desc_length d), m')
    \<and> live_blocks m' = insert (data_ptr d) (live_blocks m)"
    "st \<noteq> XI_STATE_OK \<Longrightarrow> \<exists>m'. xi_senml_serialize (Some s) out_buffer out_size m = Some (st, None, Some 0, m')
    \<and> live_blocks m' = live_blocks m"
proof -
  have b: "desc_block d \<noteq> NULL" "data_ptr d \<noteq> NULL" "desc_block d \<noteq> data_ptr d" "desc_memory_type d = XI_MEMORY_TYPE_MANAGED"
    "live_blocks m1 = insert (data_ptr d) (insert (desc_block d) (live_blocks m))"
    using assms(2,3) by (auto simp: buf_ok_def mem_ok_def others_def)
  have "data_ptr d \<notin> live_blocks m" using assms(3) by (auto simp: others_def)
  then show "st = XI_STATE_OK \<Longrightarrow> \<exists>m'. xi_senml_serialize (Some s) out_buffer out_size m
      = Some (XI_STATE_OK, Some (data_ptr d, data_bytes d), Some (desc_length d), m')
    \<and> live_blocks m' = insert (data_ptr d) (live_blocks m)"
    "st \<noteq> XI_STATE_OK \<Longrightarrow> \<exists>m'. xi_senml_serialize (Some s) out_buffer out_size m = Some (st, None, Some 0, m')
    \<and> live_blocks m' = live_blocks m"
    using assms b by (auto simp: xi_senml_serialize_def xi_free_desc_def xi_free_def)
qed

lemma contents_length: "buf_ok d m \<Longrightarrow> contents d = w \<Longrightarrow> desc_length d = of_nat (length w) \<and> length w \<le> length (data_bytes d)
    \<and> take (length w) (data_bytes d) = w"
  using length_contents [of d] by (auto simp: buf_ok_def contents_def desc_ok_def word_le_nat_alt)

lemma serialize_granted:
  assumes "senml_ok s" "length (senml_json s) \<le> 2 ^ 31" "mem_ok m" "alloc_script m = []" "out_buffer \<noteq> NULL" "out_size \<noteq> NULL"
  shows "\<exists>p bs m'. xi_senml_serialize (Some s) out_buffer out_size m
      = Some (XI_STATE_OK, Some (p, senml_json s @ bs), Some (of_nat (length (senml_json s))), m')
    \<and> live_blocks m' = insert p (live_blocks m) \<and> p \<notin> live_blocks m"
  using assms(1-3)
proof (cases rule: json_serialize_outcomes [where old = None])
  case (ended st d m1 i j k)
  then have st: "st = XI_STATE_OK" "contents d = senml_json s" using assms(4) by (auto simp: senml_json_parts)
  obtain m' where m': "xi_senml_serialize (Some s) out_buffer out_size m
      = Some (XI_STATE_OK, Some (data_ptr d, data_bytes d), Some (desc_length d), m')"
    "live_blocks m' = insert (data_ptr d) (live_blocks m)"
    using serialize_ended(1) [OF ended(1-4) assms(5,6) st(1)] by blast
  note c = contents_length [OF ended(2) st(2)]
  have "data_bytes d = senml_json s @ drop (length (senml_json s)) (data_bytes d)"
    using c append_take_drop_id [of "length (senml_json s)" "data_bytes d"] by simp
  moreover have "data_ptr d \<notin> live_blocks m" using ended(3) by (auto simp: others_def)
  ultimately show ?thesis using m' c by (metis (no_types))
qed (use assms(4) in simp_all)

text \<open>
  C30: the serialiser renders the structure as the JSON that the SenML format asks for. With memory
  granted, the text the application gets is the one the reference rendering builds from objects,
  arrays and fields joined by commas; the caller owns its buffer, and nothing else stays allocated.
  The structure is well-formed (\<open>senml_ok\<close>: each entry has a value, the strings are terminated), and its
  text has at most \<open>2 ^ 31\<close> bytes.
\<close>
theorem senml_serialises_reference:
  assumes "senml_ok s" "length (senml_json s) \<le> 2 ^ 31" "mem_ok m" "alloc_script m = []"
    and "out_buffer \<noteq> NULL" "out_size \<noteq> NULL"
  shows "\<exists>p bs m'. xi_senml_serialize (Some s) out_buffer out_size m
      = Some (XI_STATE_OK, Some (p, senml_json s @ bs), Some (of_nat (length (senml_json s))), m')
    \<and> live_blocks m' = insert p (live_blocks m) \<and> p \<notin> live_blocks m"
  using assms by (rule serialize_granted)

definition senml_example :: xi_senml where
  "senml_example = (zero_senml 1)\<lparr>base_name_set := True, base_name := Some (2, c_string (ascii ''dev/'')),
     entries_list := [(zero_entry 3)\<lparr>name_set := True, entry_name := Some (4, c_string (ascii ''t'')), value_set := True,
         value_cnt := XI_SENML_VALUE_TYPE_BOOLEAN 1, time_set := True, entry_time := -5\<rparr>,
       (zero_entry 5)\<lparr>value_set := True, value_cnt := XI_SENML_VALUE_TYPE_STRING (Some (6, c_string (ascii ''on'')))\<rparr>]\<rparr>"

lemma senml_example_ok: "senml_ok senml_example" "length (senml_json senml_example) = 58"
    "senml_json senml_example = ascii ''{\"e\":[{\"n\":\"t\",\"bv\":true,\"t\":-5},{\"sv\":\"on\"}],\"bn\":\"dev/\"}''"
  by (simp_all add: senml_ok_def senml_example_def entry_ok_def value_ok_def text_ok_def c_string_def)
    (simp_all add: senml_json_def entry_json_def json_object_def json_field_def json_array_def json_string_def json_int_def
      chars_def field_if_def json_bool_def zero_senml_def zero_entry_def ascii_def format_d_def decimal.simps digit_def)

theorem senml_serialises_reference_witness:
  "\<exists>p bs m'. xi_senml_serialize (Some senml_example) 1 1 (initial_memory [])
     = Some (XI_STATE_OK, Some (p, ascii ''{\"e\":[{\"n\":\"t\",\"bv\":true,\"t\":-5},{\"sv\":\"on\"}],\"bn\":\"dev/\"}'' @ bs), Some 58, m')"
  using senml_serialises_reference [OF senml_example_ok(1), of "initial_memory []" 1 1] senml_example_ok(2,3)
  by (auto simp: initial_memory_def mem_ok_def)

text \<open>
  C31: what can happen when memory runs out, for a well-formed structure (\<open>senml_ok\<close>: each entry has
  a value) whose text has at most \<open>2 ^ 31\<close> bytes. The serialisation ends in the assertion of
  \<open>xi_make_empty_desc_alloc\<close>, or it fails with \<open>XI_OUT_OF_MEMORY\<close> and nothing stays allocated, or it
  succeeds. A success says that all of the entries are there, but each base element may be cut off
  anywhere: the results of writing them are not looked at.
\<close>
theorem senml_serialise_outcomes:
  assumes "senml_ok s" "length (senml_json s) \<le> 2 ^ 31" "mem_ok m" "out_buffer \<noteq> NULL" "out_size \<noteq> NULL"
  shows "xi_senml_serialize (Some s) out_buffer out_size m = None \<and> alloc_script m \<noteq> []
    \<or> (\<exists>m'. xi_senml_serialize (Some s) out_buffer out_size m = Some (XI_OUT_OF_MEMORY, None, Some 0, m')
         \<and> live_blocks m' = live_blocks m \<and> alloc_script m \<noteq> [])
    \<or> (\<exists>p bs m' t i j k. xi_senml_serialize (Some s) out_buffer out_size m
           = Some (XI_STATE_OK, Some (p, t @ bs), Some (of_nat (length t)), m')
         \<and> t = head_json s @ take i (base_name_json s) @ take j (base_time_json s) @ take k (base_units_json s) @ ascii ''}''
         \<and> live_blocks m' = insert p (live_blocks m))"
  using assms(1-3)
proof (cases rule: json_serialize_outcomes [where old = None])
  case (refused m')
  then show ?thesis using assms(4,5) by (simp add: xi_senml_serialize_def xi_free_desc_def)
next
  case asserts
  then show ?thesis using assms(4,5) by (simp add: xi_senml_serialize_def)
next
  case (ended st d m1 i j k)
  note e = serialize_ended [OF ended(1-4) assms(4,5)]
  show ?thesis
  proof (cases "st = XI_STATE_OK")
    case True
    let ?t = "head_json s @ take i (base_name_json s) @ take j (base_time_json s) @ take k (base_units_json s) @ ascii ''}''"
    have "contents d = ?t" using ended(5) True by simp
    note c = contents_length [OF ended(2) this]
    have "data_bytes d = ?t @ drop (length ?t) (data_bytes d)"
      using c append_take_drop_id [of "length ?t" "data_bytes d"] by simp
    then show ?thesis using e(1) [OF True] c by metis
  next
    case False
    then show ?thesis using e(2) ended(5) by auto
  qed
qed

theorem senml_serialise_outcomes_witness:
  "xi_senml_serialize (Some senml_example) 1 1 (initial_memory [True, True, False]) = None
   \<or> (\<exists>m'. xi_senml_serialize (Some senml_example) 1 1 (initial_memory [True, True, False]) = Some (XI_OUT_OF_MEMORY, None, Some 0, m')
        \<and> live_blocks m' = {})
   \<or> (\<exists>p t bs m'. xi_senml_serialize (Some senml_example) 1 1 (initial_memory [True, True, False])
          = Some (XI_STATE_OK, Some (p, t @ bs), Some (of_nat (length t)), m') \<and> live_blocks m' = {p})"
  using senml_serialise_outcomes [OF senml_example_ok(1), of "initial_memory [True, True, False]" 1 1] senml_example_ok(2)
  by (simp add: initial_memory_def mem_ok_def) blast

text \<open>A buffer of 32 bytes with the text \<open>w\<close>.\<close>

definition small_buf :: "xi_data_desc \<Rightarrow> byte list \<Rightarrow> bool" where
  "small_buf d w \<longleftrightarrow> desc_ok d \<and> contents d = w \<and> unat (desc_capacity d) = 32
     \<and> desc_memory_type d = XI_MEMORY_TYPE_MANAGED"

lemma small_append:
  assumes "small_buf d w" "length w + len \<le> 32" "len \<le> length bs"
  shows "\<exists>e. append_data d bs len m = Some (XI_STATE_OK, e, m) \<and> small_buf e (w @ take len bs)
    \<and> desc_block e = desc_block d \<and> data_ptr e = data_ptr d"
proof -
  have d: "desc_ok d" "unat (desc_length d) = length w" using assms(1) length_contents [of d] by (auto simp: small_buf_def)
  then obtain e where "append_memcpy d bs len = Some e" "desc_ok e" "contents e = contents d @ take len bs"
    "data_ptr e = data_ptr d" "desc_block e = desc_block d" "desc_capacity e = desc_capacity d" "desc_memory_type e = desc_memory_type d"
    using append_memcpy_spec [OF d(1) assms(3)] assms(1,2) by (auto simp: small_buf_def)
  then show ?thesis
    using d assms will_it_fit_iff [of d len]
    by (auto simp: append_data_def xi_data_desc_append_data_resize_def xi_data_desc_assure_buf_len_def small_buf_def)
qed

lemma small_pattern:
  assumes "small_buf d w" "length w + length pat \<le> 32"
  shows "\<exists>e. append_pattern d pat m = Some (XI_STATE_OK, e, m) \<and> small_buf e (w @ ascii pat)
    \<and> desc_block e = desc_block d \<and> data_ptr e = data_ptr d"
  using small_append [of d w "length pat" "ascii pat" m] assms by (simp add: append_pattern_def ascii_def)

lemma small_refused:
  assumes "small_buf d w" "32 < length w + len" "length w + len \<le> 2 ^ 31" "alloc_script m = [False]"
  shows "append_data d bs len m = Some (XI_OUT_OF_MEMORY, d, m\<lparr>alloc_script := []\<rparr>)"
proof -
  have d: "unat (desc_length d) = length w" using assms(1) length_contents [of d] by (auto simp: small_buf_def)
  have "\<not> PTRDIFF_MAX < unat x" for x :: "32 word" using unsigned_less [of x, where 'a = nat] by (simp add: PTRDIFF_MAX_def)
  then have "xi_alloc (unat x) m = (NULL, m\<lparr>alloc_script := []\<rparr>)" for x :: "32 word"
    using assms(4) by (simp add: xi_alloc_def)
  then show ?thesis
    using assms d will_it_fit_iff [of d len]
    by (simp add: append_data_def xi_data_desc_append_data_resize_def xi_data_desc_assure_buf_len_def
        xi_data_desc_realloc_def small_buf_def)
qed

lemma made_two:
  assumes "mem_ok m" "alloc_script m = True # True # ss"
  shows "\<exists>d m1. xi_make_empty_desc_alloc 32 m = Some (Some d, m1) \<and> small_buf d [] \<and> alloc_script m1 = ss"
  using assms
  by (auto simp: xi_make_empty_desc_alloc_def xi_alloc_def mem_ok_def PTRDIFF_MAX_def sizeof_xi_data_desc_def small_buf_def
      desc_ok_def contents_def)

text \<open>
  C32: a base name can get lost without a word. In a structure that has no entries and no other base
  field, when the buffer cannot grow for a base name of at least 19 characters, and everything else
  is granted, the serialisation succeeds, and the text it returns breaks off inside of the string of
  the base name, just before its first character, and is no JSON. (A shorter name fits the buffer; a
  failure at the comma before it would append nothing of it.)
\<close>
theorem senml_base_name_lost:
  assumes s: "entries_list s = []" "base_name_set s" "base_name s = Some (p, c_string bn)" "\<not> base_time_set s" "\<not> base_units_set s"
    and bn: "0 \<notin> set bn" "19 \<le> length bn" "length bn \<le> 2 ^ 30"
    and m: "mem_ok m" "alloc_script m = [True, True, False]" and out: "out_buffer \<noteq> NULL" "out_size \<noteq> NULL"
  shows "\<exists>q bs m'. xi_senml_serialize (Some s) out_buffer out_size m
      = Some (XI_STATE_OK, Some (q, ascii ''{\"e\":[],\"bn\":\"}'' @ bs), Some 15, m')"
proof -
  obtain d m1 where a: "xi_make_empty_desc_alloc 32 m = Some (Some d, m1)" "small_buf d []" "alloc_script m1 = [False]"
    using made_two [OF m] by auto
  obtain d1 where d1: "append_pattern d ''{\"e\":['' m1 = Some (XI_STATE_OK, d1, m1)" "small_buf d1 (ascii ''{\"e\":['')"
    using small_pattern [OF a(2), of "''{\"e\":[''" m1] by auto
  obtain d2 where d2: "append_pattern d1 '']'' m1 = Some (XI_STATE_OK, d2, m1)" "small_buf d2 (ascii ''{\"e\":[]'')"
    using small_pattern [OF d1(2), of "'']''" m1] by (auto simp: ascii_def)
  obtain d3 where d3: "append_pattern d2 '','' m1 = Some (XI_STATE_OK, d3, m1)" "small_buf d3 (ascii ''{\"e\":[],'')"
    using small_pattern [OF d2(2), of "'',''" m1] by (auto simp: ascii_def)
  let ?key = "''\"bn\":''"
  have k: "c_strlen (c_string (ascii ?key)) = Some 5" by (simp add: ascii_nonzero) (simp add: ascii_def)
  obtain d4 where d4: "append_data d3 (c_string (ascii ?key)) 5 m1 = Some (XI_STATE_OK, d4, m1)" "small_buf d4 (ascii ''{\"e\":[],\"bn\":'')"
    using small_append [OF d3(2), of 5 "c_string (ascii ?key)" m1] by (auto simp: ascii_def c_string_def)
  obtain d5 where d5: "append_pattern d4 ''\"'' m1 = Some (XI_STATE_OK, d5, m1)" "small_buf d5 (ascii ''{\"e\":[],\"bn\":\"'')"
    using small_pattern [OF d4(2), of "''\"''" m1] by (auto simp: ascii_def)
  have len5: "length (ascii ''{\"e\":[],\"bn\":\"'') = 14" by (simp add: ascii_def)
  let ?m2 = "m1\<lparr>alloc_script := []\<rparr>"
  have refused: "append_data d5 (c_string bn) (length bn) m1 = Some (XI_OUT_OF_MEMORY, d5, ?m2)"
    using small_refused [OF d5(2), of "length bn" m1] bn(2,3) a(3) len5 by simp
  have name: "xi_senml_json_serialize_base_name d2 (base_name s) 1 m1 = Some (XI_OUT_OF_MEMORY, d5, ?m2)"
    using d3(1) d4(1) d5(1) refused k bn(1)
    by (simp add: xi_senml_json_serialize_base_name_def xi_senml_json_serialize_key_def xi_senml_json_serialize_string_def
        senml_check_state_def s)
  obtain d6 where d6: "append_pattern d5 ''}'' ?m2 = Some (XI_STATE_OK, d6, ?m2)" "small_buf d6 (ascii ''{\"e\":[],\"bn\":\"}'')"
    using small_pattern [OF d5(2), of "''}''" ?m2] by (auto simp: ascii_def)
  have ser: "xi_senml_json_serialize (Some None) (Some s) m = Some (XI_STATE_OK, Some d6, ?m2)"
    using a(1) d1(1) d2(1) name d6(1) s
    by (simp add: xi_senml_json_serialize_def xi_senml_json_serialize_init_def xi_senml_json_serialize_close_entries_def
        xi_senml_json_serialize_close_def serialize_base_def senml_check_state_def)
  let ?t = "ascii ''{\"e\":[],\"bn\":\"}''"
  have t15: "length ?t = 15" by (simp add: ascii_def)
  have d6': "desc_ok d6" "contents d6 = ?t" using d6(2) by (simp_all only: small_buf_def)
  have l: "unat (desc_length d6) = 15" using length_contents [OF d6'(1)] unfolding d6'(2) t15 by simp
  then have dl: "desc_length d6 = 15" by (simp add: word_unat_eq_iff)
  have "data_bytes d6 = ?t @ drop 15 (data_bytes d6)"
    using d6'(2) l append_take_drop_id [of 15 "data_bytes d6"] by (simp only: contents_def)
  then show ?thesis using ser out dl by (simp add: xi_senml_serialize_def xi_free_desc_def) metis
qed

theorem senml_base_name_lost_witness:
  "\<exists>q bs m'. xi_senml_serialize (Some ((zero_senml 1)\<lparr>base_name_set := True,
       base_name := Some (2, c_string (replicate 20 97))\<rparr>)) 1 1 (initial_memory [True, True, False])
      = Some (XI_STATE_OK, Some (q, ascii ''{\"e\":[],\"bn\":\"}'' @ bs), Some 15, m')"
  by (rule senml_base_name_lost [where bn = "replicate 20 97"]) (simp_all add: zero_senml_def initial_memory_def mem_ok_def)

text \<open>
  strings are not escaped. A string value that contains a quote can forge fields: an entry whose
  string is \<open>a","u":"b\<close> is rendered like an entry with the string \<open>a\<close> and the unit \<open>b\<close>, so that
  the receiver cannot tell the two structures from each other.
\<close>
lemma senml_strings_not_escaped:
  assumes "senml_ok s" "entries_list s = xs @ e # ys" "\<not> units_set e" "\<not> time_set e"
    and "value_cnt e = XI_SENML_VALUE_TYPE_STRING (Some (p, c_string (a @ ascii ''\",\"u\":\"'' @ b)))" "0 \<notin> set a" "0 \<notin> set b"
    and "e' = e\<lparr>value_cnt := XI_SENML_VALUE_TYPE_STRING (Some (p, c_string a)), units_set := True, entry_units := Some (q, c_string b)\<rparr>"
    and "length (senml_json s) \<le> 2 ^ 31" "mem_ok m" "alloc_script m = []" "out_buffer \<noteq> NULL" "out_size \<noteq> NULL"
  shows "\<exists>t r bs m1 r' bs' m2. xi_senml_serialize (Some s) out_buffer out_size m = Some (XI_STATE_OK, Some (r, t @ bs), Some (of_nat (length t)), m1)
    \<and> xi_senml_serialize (Some (s\<lparr>entries_list := xs @ e' # ys\<rparr>)) out_buffer out_size m
        = Some (XI_STATE_OK, Some (r', t @ bs'), Some (of_nat (length t)), m2)"
proof -
  let ?s = "s\<lparr>entries_list := xs @ e' # ys\<rparr>"
  have cs: "chars (Some (r, c_string w)) = w" if "0 \<notin> set w" for r w
    using that takeWhile_nonzero [of w "[]"] by (simp add: chars_def c_string_def)
  have z: "0 \<notin> set (a @ ascii ''\",\"u\":\"'' @ b)" using assms(6,7) by (simp add: ascii_nonzero)
  have "entry_json e' = entry_json e"
    using assms(3-8) cs [OF z] cs [of a] cs [of b]
    by (simp add: entry_json_def json_object_def json_field_def json_string_def field_if_def ascii_def)
  then have j: "senml_json ?s = senml_json s" using assms(2) by (simp add: senml_json_def)
  have "entry_ok e" using assms(1,2) by (simp add: senml_ok_def)
  then have "entry_ok e'" using assms(8) by (simp add: entry_ok_def value_ok_def text_ok_def c_string_def)
  then have "senml_ok ?s" using assms(1,2) by (simp add: senml_ok_def)
  then show ?thesis
    using serialize_granted [OF assms(1,9-13)] serialize_granted [of ?s, OF _ _ assms(10-13)] j assms(9) by metis
qed

end
