(* ===== verification/Xi_Senml_Build.thy ===== *)
theory Xi_Senml_Build
  imports Xi_Senml_Render
begin

text \<open>
  Building a SenML structure and destroying it: an entry holds copies of what its arguments set, the
  later one where two arguments set the same field; a structure owns its blocks, and destroying it
  gives back all of them. An argument that is refused leaks the entry.
\<close>

section \<open>Copies of strings\<close>

definition ptr :: "char_ptr \<Rightarrow> addr list" where
  "ptr s = (case s of None \<Rightarrow> [] | Some (p, _) \<Rightarrow> [p])"

text \<open>A string that an application can have.\<close>

definition given :: "char_ptr \<Rightarrow> bool" where
  "given s \<longleftrightarrow> text_ok s \<and> length (chars s) < 2 ^ 62"

definition all_granted :: "xi_memory \<Rightarrow> bool" where
  "all_granted m \<longleftrightarrow> mem_ok m \<and> alloc_script m = []"

lemma senml_alloc_granted:
  assumes "all_granted m" "n \<le> 2 ^ 62"
  shows "\<exists>m'. xi_alloc n m = (next_block m, m') \<and> all_granted m' \<and> live_blocks m' = insert (next_block m) (live_blocks m)
    \<and> next_block m \<notin> live_blocks m \<and> next_block m \<noteq> NULL"
  using assms by (auto simp: all_granted_def xi_alloc_def mem_ok_def PTRDIFF_MAX_def)

lemma free_chars_live: "NULL \<notin> set (ptr s) \<Longrightarrow> live_blocks (free_chars s m) = live_blocks m - set (ptr s)"
  by (auto simp: free_chars_def ptr_def xi_free_def split: option.splits)

lemma free_chars_granted: "all_granted m \<Longrightarrow> all_granted (free_chars s m)"
  by (auto simp: free_chars_def xi_free_def all_granted_def mem_ok_def split: option.splits)

lemma str_dup_granted:
  assumes "all_granted m" "given (Some (q, s))"
  obtains p bs m' where "xi_str_dup s m = Some (Some (p, bs), m')" "text_ok (Some (p, bs))" "chars (Some (p, bs)) = chars (Some (q, s))"
    "all_granted m'" "live_blocks m' = insert p (live_blocks m)" "p \<notin> live_blocks m" "p \<noteq> NULL"
proof -
  let ?n = "length (chars (Some (q, s)))"
  have s: "0 \<in> set s" "?n < 2 ^ 62" "c_strlen s = Some ?n"
    using assms(2) by (auto simp: given_def text_ok_def c_strlen_def chars_def)
  obtain m' where a: "xi_alloc (?n + 1) m = (next_block m, m')" "all_granted m'" "live_blocks m' = insert (next_block m) (live_blocks m)"
    "next_block m \<notin> live_blocks m" "next_block m \<noteq> NULL"
    using senml_alloc_granted [OF assms(1), of "?n + 1"] s(2) by auto
  obtain xs ys where split: "s = xs @ 0 # ys" "0 \<notin> set xs" using split_list_first [OF s(1)] by blast
  then have xs: "takeWhile (\<lambda>c. c \<noteq> 0) s = xs" "takeWhile (\<lambda>c. c \<noteq> 0) (xs @ [0]) = xs"
    using takeWhile_nonzero [OF split(2)] by simp_all
  then have "chars (Some (q, s)) = xs" by (simp add: chars_def)
  then show thesis
    using that [of "next_block m" "xs @ [0]" m'] a s(3) xs(2) split(1)
    by (simp add: xi_str_dup_def text_ok_def chars_def)
qed

section \<open>Entries\<close>

definition value_ptr :: "xi_senml_value \<Rightarrow> addr list" where
  "value_ptr v = (case v of XI_SENML_VALUE_TYPE_STRING s \<Rightarrow> ptr s | _ \<Rightarrow> [])"

definition entry_blocks :: "xi_senml_entry \<Rightarrow> addr list" where
  "entry_blocks e = entry_block e # ptr (entry_name e) @ ptr (entry_units e) @ value_ptr (value_cnt e)"

text \<open>The fields that are set, with their contents.\<close>

datatype value_view = Number "32 word" | Characters "byte list" | Truth byte | No_Value

definition view_value :: "xi_senml_value \<Rightarrow> value_view" where
  "view_value v = (case v of XI_SENML_VALUE_TYPE_FLOAT f \<Rightarrow> Number f | XI_SENML_VALUE_TYPE_STRING s \<Rightarrow> Characters (chars s)
     | XI_SENML_VALUE_TYPE_BOOLEAN b \<Rightarrow> Truth b | Unknown_Value_Type _ \<Rightarrow> No_Value)"

record entry_view =
  name_of :: "byte list option"
  units_of :: "byte list option"
  value_of :: "value_view option"
  time_of :: "32 word option"
  update_time_of :: "32 word option"

definition view_entry :: "xi_senml_entry \<Rightarrow> entry_view" where
  "view_entry e = \<lparr>name_of = (if name_set e then Some (chars (entry_name e)) else None),
     units_of = (if units_set e then Some (chars (entry_units e)) else None),
     value_of = (if value_set e then Some (view_value (value_cnt e)) else None),
     time_of = (if time_set e then Some (entry_time e) else None),
     update_time_of = (if update_time_set e then Some (entry_update_time e) else None)\<rparr>"

definition no_fields :: entry_view where
  "no_fields = \<lparr>name_of = None, units_of = None, value_of = None, time_of = None, update_time_of = None\<rparr>"

definition latest :: "'a option \<Rightarrow> 'a option \<Rightarrow> 'a option" where
  "latest old new = (case new of None \<Rightarrow> old | Some _ \<Rightarrow> new)"

definition override :: "entry_view \<Rightarrow> entry_view \<Rightarrow> entry_view" where
  "override v w = \<lparr>name_of = latest (name_of v) (name_of w), units_of = latest (units_of v) (units_of w),
     value_of = latest (value_of v) (value_of w), time_of = latest (time_of v) (time_of w),
     update_time_of = latest (update_time_of v) (update_time_of w)\<rparr>"

text \<open>What an argument has to be, and an entry that owns its blocks.\<close>

definition argument_ok :: "xi_senml_entry \<Rightarrow> bool" where
  "argument_ok a \<longleftrightarrow> (name_set a \<longrightarrow> given (entry_name a)) \<and> (units_set a \<longrightarrow> given (entry_units a))
     \<and> (value_set a \<longrightarrow> (case value_cnt a of XI_SENML_VALUE_TYPE_STRING s \<Rightarrow> given s | Unknown_Value_Type _ \<Rightarrow> False | _ \<Rightarrow> True))"

definition entry_owned :: "addr set \<Rightarrow> xi_senml_entry \<Rightarrow> xi_memory \<Rightarrow> bool" where
  "entry_owned X e m \<longleftrightarrow> all_granted m \<and> live_blocks m = X \<union> set (entry_blocks e) \<and> X \<inter> set (entry_blocks e) = {}
     \<and> distinct (entry_blocks e) \<and> NULL \<notin> set (entry_blocks e)
     \<and> (name_set e \<longrightarrow> text_ok (entry_name e)) \<and> (\<not> name_set e \<longrightarrow> entry_name e = None)
     \<and> (units_set e \<longrightarrow> text_ok (entry_units e)) \<and> (\<not> units_set e \<longrightarrow> entry_units e = None)
     \<and> (if value_set e then value_ok (value_cnt e) else value_ptr (value_cnt e) = [])"

lemma text_ok_Some: "text_ok s \<Longrightarrow> \<exists>p bs. s = Some (p, bs)"
  by (auto simp: text_ok_def)

lemma dup_into_granted:
  assumes "all_granted m" "given new" "NULL \<notin> set (ptr old)"
  obtains c p m' where "dup_into b old new m = Some (c, m')" "text_ok c" "chars c = chars new" "ptr c = [p]" "all_granted m'"
    "live_blocks m' = insert p (live_blocks m - (if b then set (ptr old) else {}))"
    "p \<notin> live_blocks m - (if b then set (ptr old) else {})" "p \<noteq> NULL"
proof -
  let ?m = "if b then free_chars old m else m"
  obtain q s where new: "new = Some (q, s)" using assms(2) by (auto simp: given_def text_ok_def)
  have m: "all_granted ?m" "live_blocks ?m = live_blocks m - (if b then set (ptr old) else {})"
    using assms free_chars_granted free_chars_live by auto
  obtain p bs m' where "xi_str_dup s ?m = Some (Some (p, bs), m')" "text_ok (Some (p, bs))"
    "chars (Some (p, bs)) = chars (Some (q, s))" "all_granted m'" "live_blocks m' = insert p (live_blocks ?m)" "p \<notin> live_blocks ?m" "p \<noteq> NULL"
    by (rule str_dup_granted [OF m(1) assms(2) [unfolded new]])
  then show thesis using m(2) by (intro that [of "Some (p, bs)" m' p]) (simp_all add: dup_into_def new ptr_def)
qed

lemma add_name_step:
  assumes "entry_owned X e m" "argument_ok a"
  shows "\<exists>e' m'. add_name a e m = Some (XI_STATE_OK, e', m') \<and> entry_owned X e' m'
    \<and> view_entry e' = (view_entry e)\<lparr>name_of := latest (name_of (view_entry e)) (name_of (view_entry a))\<rparr>"
proof (cases "name_set a")
  case False
  then show ?thesis using assms(1) by (simp add: add_name_def view_entry_def latest_def)
next
  case True
  then have g: "given (entry_name a)" "entry_name a \<noteq> None" using assms(2) by (auto simp: argument_ok_def given_def text_ok_def)
  have o: "all_granted m" "NULL \<notin> set (ptr (entry_name e))" "\<not> name_set e \<Longrightarrow> ptr (entry_name e) = []"
    using assms(1) by (auto simp: entry_owned_def entry_blocks_def ptr_def)
  obtain c p m' where d: "dup_into (name_set e) (entry_name e) (entry_name a) m = Some (c, m')" "text_ok c" "chars c = chars (entry_name a)"
    "ptr c = [p]" "all_granted m'" "live_blocks m' = insert p (live_blocks m - (if name_set e then set (ptr (entry_name e)) else {}))"
    "p \<notin> live_blocks m - (if name_set e then set (ptr (entry_name e)) else {})" "p \<noteq> NULL"
    by (rule dup_into_granted [OF o(1) g(1) o(2)])
  have l: "live_blocks m' = insert p (live_blocks m - set (ptr (entry_name e)))" "p \<notin> live_blocks m - set (ptr (entry_name e))"
    using d(6,7) o(3) by (cases "name_set e"; simp)+
  let ?e = "e\<lparr>name_set := True, entry_name := c\<rparr>"
  have "entry_owned X ?e m'"
    using assms(1) d(2,4,5,8) l by (auto simp: entry_owned_def entry_blocks_def)
  moreover have "view_entry ?e = (view_entry e)\<lparr>name_of := latest (name_of (view_entry e)) (name_of (view_entry a))\<rparr>"
    using True d(3) by (simp add: view_entry_def latest_def)
  ultimately show ?thesis using True g(2) d(1) by (simp add: add_name_def)
qed

lemma add_units_step:
  assumes "entry_owned X e m" "argument_ok a"
  shows "\<exists>e' m'. add_units a e m = Some (XI_STATE_OK, e', m') \<and> entry_owned X e' m'
    \<and> view_entry e' = (view_entry e)\<lparr>units_of := latest (units_of (view_entry e)) (units_of (view_entry a))\<rparr>"
proof (cases "units_set a")
  case False
  then show ?thesis using assms(1) by (simp add: add_units_def view_entry_def latest_def)
next
  case True
  then have g: "given (entry_units a)" "entry_units a \<noteq> None" using assms(2) by (auto simp: argument_ok_def given_def text_ok_def)
  have o: "all_granted m" "NULL \<notin> set (ptr (entry_units e))" "\<not> units_set e \<Longrightarrow> ptr (entry_units e) = []"
    using assms(1) by (auto simp: entry_owned_def entry_blocks_def ptr_def)
  obtain c p m' where d: "dup_into (units_set e) (entry_units e) (entry_units a) m = Some (c, m')" "text_ok c" "chars c = chars (entry_units a)"
    "ptr c = [p]" "all_granted m'" "live_blocks m' = insert p (live_blocks m - (if units_set e then set (ptr (entry_units e)) else {}))"
    "p \<notin> live_blocks m - (if units_set e then set (ptr (entry_units e)) else {})" "p \<noteq> NULL"
    by (rule dup_into_granted [OF o(1) g(1) o(2)])
  have l: "live_blocks m' = insert p (live_blocks m - set (ptr (entry_units e)))" "p \<notin> live_blocks m - set (ptr (entry_units e))"
    using d(6,7) o(3) by (cases "units_set e"; simp)+
  let ?e = "e\<lparr>units_set := True, entry_units := c\<rparr>"
  have "entry_owned X ?e m'"
    using assms(1) d(2,4,5,8) l by (auto simp: entry_owned_def entry_blocks_def)
  moreover have "view_entry ?e = (view_entry e)\<lparr>units_of := latest (units_of (view_entry e)) (units_of (view_entry a))\<rparr>"
    using True d(3) by (simp add: view_entry_def latest_def)
  ultimately show ?thesis using True g(2) d(1) by (simp add: add_units_def)
qed

lemma free_value_live: "NULL \<notin> set (value_ptr v) \<Longrightarrow> live_blocks (free_value v m) = live_blocks m - set (value_ptr v)"
  by (cases v) (simp_all add: free_value_def value_ptr_def free_chars_live)

lemma free_value_granted: "all_granted m \<Longrightarrow> all_granted (free_value v m)"
  by (cases v) (simp_all add: free_value_def free_chars_granted)

lemma add_value_step:
  assumes "entry_owned X e m" "argument_ok a"
  shows "\<exists>e' m'. add_value a e m = Some (XI_STATE_OK, e', m') \<and> entry_owned X e' m'
    \<and> view_entry e' = (view_entry e)\<lparr>value_of := latest (value_of (view_entry e)) (value_of (view_entry a))\<rparr>"
proof (cases "value_set a")
  case False
  then show ?thesis using assms(1) by (simp add: add_value_def view_entry_def latest_def)
next
  case True
  have o: "all_granted m" "NULL \<notin> set (value_ptr (value_cnt e))" "\<not> value_set e \<Longrightarrow> value_ptr (value_cnt e) = []"
    using assms(1) by (auto simp: entry_owned_def entry_blocks_def)
  let ?m = "if value_set e then free_value (value_cnt e) m else m"
  have m: "all_granted ?m" "live_blocks ?m = live_blocks m - set (value_ptr (value_cnt e))"
    using o free_value_granted free_value_live by auto
  show ?thesis
  proof (cases "\<exists>s. value_cnt a = XI_SENML_VALUE_TYPE_STRING s")
    case False
    then have v: "value_ok (value_cnt a)" "value_ptr (value_cnt a) = []"
      using assms(2) True by (auto simp: argument_ok_def value_ok_def value_ptr_def split: xi_senml_value.splits)
    let ?e = "e\<lparr>value_set := True, value_cnt := value_cnt a\<rparr>"
    have "add_value a e m = Some (XI_STATE_OK, ?e, ?m)"
      using True False by (auto simp: add_value_def Let_def split: xi_senml_value.splits)
    moreover have "entry_owned X ?e ?m" using assms(1) m v by (auto simp: entry_owned_def entry_blocks_def)
    moreover have "view_entry ?e = (view_entry e)\<lparr>value_of := latest (value_of (view_entry e)) (value_of (view_entry a))\<rparr>"
      using True by (simp add: view_entry_def latest_def)
    ultimately show ?thesis by blast
  next
    case string: True
    then obtain s where s: "value_cnt a = XI_SENML_VALUE_TYPE_STRING s" "given s"
      using assms(2) True by (auto simp: argument_ok_def)
    then obtain q bs where qs: "s = Some (q, bs)" by (auto simp: given_def text_ok_def)
    obtain p cs m' where d: "xi_str_dup bs ?m = Some (Some (p, cs), m')" "text_ok (Some (p, cs))" "chars (Some (p, cs)) = chars (Some (q, bs))"
      "all_granted m'" "live_blocks m' = insert p (live_blocks ?m)" "p \<notin> live_blocks ?m" "p \<noteq> NULL"
      by (rule str_dup_granted [OF m(1) s(2) [unfolded qs]])
    let ?e = "e\<lparr>value_set := True, value_cnt := XI_SENML_VALUE_TYPE_STRING (Some (p, cs))\<rparr>"
    have "add_value a e m = Some (XI_STATE_OK, ?e, m')"
      using True s(1) qs d(1) by (simp add: add_value_def Let_def)
    moreover have "value_ptr (value_cnt ?e) = [p]" by (simp add: value_ptr_def ptr_def)
    then have "entry_owned X ?e m'"
      using assms(1) d(2,4-7) m(2) by (auto simp: entry_owned_def entry_blocks_def value_ok_def)
    moreover have "view_entry ?e = (view_entry e)\<lparr>value_of := latest (value_of (view_entry e)) (value_of (view_entry a))\<rparr>"
      using True s(1) qs d(3) by (simp add: view_entry_def latest_def view_value_def)
    ultimately show ?thesis by blast
  qed
qed

lemma add_times_view:
  "view_entry (add_times a e) = (view_entry e)\<lparr>time_of := latest (time_of (view_entry e)) (time_of (view_entry a)),
     update_time_of := latest (update_time_of (view_entry e)) (update_time_of (view_entry a))\<rparr>"
  "entry_owned X (add_times a e) m = entry_owned X e m"
  by (simp_all add: add_times_def view_entry_def latest_def entry_owned_def entry_blocks_def Let_def)

lemma add_step_owned:
  assumes "entry_owned X e m" "argument_ok a"
  shows "\<exists>e' m'. add_step a e m = Some (XI_STATE_OK, e', m') \<and> entry_owned X e' m'
    \<and> view_entry e' = override (view_entry e) (view_entry a)"
proof -
  obtain e1 m1 where 1: "add_name a e m = Some (XI_STATE_OK, e1, m1)" "entry_owned X e1 m1"
    "view_entry e1 = (view_entry e)\<lparr>name_of := latest (name_of (view_entry e)) (name_of (view_entry a))\<rparr>"
    using add_name_step [OF assms] by blast
  obtain e2 m2 where 2: "add_units a e1 m1 = Some (XI_STATE_OK, e2, m2)" "entry_owned X e2 m2"
    "view_entry e2 = (view_entry e1)\<lparr>units_of := latest (units_of (view_entry e1)) (units_of (view_entry a))\<rparr>"
    using add_units_step [OF 1(2) assms(2)] by blast
  obtain e3 m3 where 3: "add_value a e2 m2 = Some (XI_STATE_OK, e3, m3)" "entry_owned X e3 m3"
    "view_entry e3 = (view_entry e2)\<lparr>value_of := latest (value_of (view_entry e2)) (value_of (view_entry a))\<rparr>"
    using add_value_step [OF 2(2) assms(2)] by blast
  have "add_step a e m = Some (XI_STATE_OK, add_times a e3, m3)"
    using 1(1) 2(1) 3(1) by (simp add: add_step_def)
  then show ?thesis
    using 3(2) add_times_view 1(3) 2(3) 3(3)
    by (intro exI [of _ "add_times a e3"] exI [of _ m3]) (simp add: override_def)
qed

lemma va_loop_owned:
  assumes "entry_owned X e m" "\<forall>a \<in> set args. argument_ok a" "n = int (unat i + length args)" "unat i + length args < 256"
  shows "\<exists>e' m'. va_loop add_step n i args e m = Some (XI_STATE_OK, e', m') \<and> entry_owned X e' m'
    \<and> view_entry e' = foldl override (view_entry e) (map view_entry args)"
  using assms
proof (induct args arbitrary: i e m)
  case (Cons a args)
  obtain e1 m1 where s: "add_step a e m = Some (XI_STATE_OK, e1, m1)" "entry_owned X e1 m1"
    "view_entry e1 = override (view_entry e) (view_entry a)"
    using add_step_owned [OF Cons.prems(1), of a] Cons.prems(2) by auto
  have i: "unat (i + 1) = unat i + 1" using Cons.prems(4) by (simp add: unat_word_ariths)
  show ?case
    using Cons.hyps [OF s(2), of "i + 1"] Cons.prems(2-4) s(1,3) i by auto
qed simp

lemma zero_entry_owned:
  assumes "all_granted m" "xi_alloc sizeof_xi_senml_entry m = (p, m')" "p \<noteq> NULL" "p \<notin> live_blocks m" "all_granted m'"
    "live_blocks m' = insert p (live_blocks m)"
  shows "entry_owned (live_blocks m) (zero_entry p) m'"
  using assms by (simp add: entry_owned_def zero_entry_def entry_blocks_def ptr_def value_ptr_def)

lemma add_entry_owned:
  assumes "all_granted m" "\<forall>a \<in> set args. argument_ok a" "length args < 256"
  shows "\<exists>e m'. xi_add_senml_entry s (int (length args)) args m = Some (XI_STATE_OK, s\<lparr>entries_list := entries_list s @ [e]\<rparr>, m')
    \<and> view_entry e = foldl override no_fields (map view_entry args) \<and> entry_owned (live_blocks m) e m'"
proof -
  obtain m1 where a: "xi_alloc sizeof_xi_senml_entry m = (next_block m, m1)" "all_granted m1"
    "live_blocks m1 = insert (next_block m) (live_blocks m)" "next_block m \<notin> live_blocks m" "next_block m \<noteq> NULL"
    using senml_alloc_granted [OF assms(1), of sizeof_xi_senml_entry] by (auto simp: sizeof_xi_senml_entry_def)
  have "entry_owned (live_blocks m) (zero_entry (next_block m)) m1" by (rule zero_entry_owned [OF assms(1) a(1,5,4,2,3)])
  then obtain e m' where "va_loop add_step (int (length args)) 0 args (zero_entry (next_block m)) m1 = Some (XI_STATE_OK, e, m')"
    "entry_owned (live_blocks m) e m'" "view_entry e = foldl override (view_entry (zero_entry (next_block m))) (map view_entry args)"
    using va_loop_owned [of "live_blocks m" "zero_entry (next_block m)" m1 args "int (length args)" 0] assms(2,3) by auto
  moreover have "view_entry (zero_entry p) = no_fields" for p by (simp add: view_entry_def zero_entry_def no_fields_def)
  ultimately show ?thesis using a(1,5) by (auto simp: xi_add_senml_entry_def)
qed

lemma entry_destroyed: "entry_owned X e m \<Longrightarrow> live_blocks (xi_senml_entry_destroy e m) = X"
proof -
  assume o: "entry_owned X e m"
  then have n: "NULL \<notin> set (ptr (entry_name e))" "NULL \<notin> set (ptr (entry_units e))" "NULL \<notin> set (value_ptr (value_cnt e))"
    "entry_block e \<noteq> NULL" "\<not> value_set e \<Longrightarrow> value_ptr (value_cnt e) = []"
    by (auto simp: entry_owned_def entry_blocks_def)
  let ?m = "free_chars (entry_units e) (free_chars (entry_name e) m)"
  have "live_blocks (if value_set e then free_value (value_cnt e) ?m else ?m)
      = live_blocks m - set (ptr (entry_name e)) - set (ptr (entry_units e)) - set (value_ptr (value_cnt e))"
    using n by (auto simp: free_chars_live free_value_live)
  then show "live_blocks (xi_senml_entry_destroy e m) = X"
    using o n(4) by (auto simp: xi_senml_entry_destroy_def Let_def xi_free_def entry_owned_def entry_blocks_def)
qed

text \<open>
  C33: adding an entry. With memory granted, the entry that is appended to the list has the fields its
  arguments set, with the contents of the latest argument that sets each; the strings are copies in
  blocks of its own, and destroying the entry gives back exactly its blocks. There are fewer than 256
  arguments, and each is well-formed (\<open>argument_ok\<close>).
\<close>
theorem senml_entry_built:
  assumes "all_granted m" "\<forall>a \<in> set args. argument_ok a" "length args < 256"
  shows "\<exists>e m'. xi_add_senml_entry s (int (length args)) args m = Some (XI_STATE_OK, s\<lparr>entries_list := entries_list s @ [e]\<rparr>, m')
    \<and> view_entry e = foldl override no_fields (map view_entry args)
    \<and> live_blocks m' = live_blocks m \<union> set (entry_blocks e) \<and> live_blocks m \<inter> set (entry_blocks e) = {}
    \<and> live_blocks (xi_senml_entry_destroy e m') = live_blocks m"
proof -
  obtain e m' where e: "xi_add_senml_entry s (int (length args)) args m = Some (XI_STATE_OK, s\<lparr>entries_list := entries_list s @ [e]\<rparr>, m')"
    "view_entry e = foldl override no_fields (map view_entry args)" "entry_owned (live_blocks m) e m'"
    using add_entry_owned [OF assms] by blast
  then show ?thesis using entry_destroyed [OF e(3)] by (auto simp: entry_owned_def)
qed

theorem senml_entry_built_witness:
  "\<exists>e m'. xi_add_senml_entry (zero_senml 1) 2 [(zero_entry 0)\<lparr>name_set := True, entry_name := Some (8, c_string [97])\<rparr>,
        (zero_entry 0)\<lparr>name_set := True, entry_name := Some (9, c_string [98]), value_set := True,
           value_cnt := XI_SENML_VALUE_TYPE_BOOLEAN 1\<rparr>] (initial_memory [])
      = Some (XI_STATE_OK, (zero_senml 1)\<lparr>entries_list := [e]\<rparr>, m')
    \<and> name_of (view_entry e) = Some [98] \<and> value_of (view_entry e) = Some (Truth 1)
    \<and> live_blocks (xi_senml_entry_destroy e m') = {}"
proof -
  let ?args = "[(zero_entry 0)\<lparr>name_set := True, entry_name := Some (8, c_string [97])\<rparr>,
        (zero_entry 0)\<lparr>name_set := True, entry_name := Some (9, c_string [98]), value_set := True,
           value_cnt := XI_SENML_VALUE_TYPE_BOOLEAN 1\<rparr>]"
  have "all_granted (initial_memory [])" by (simp add: all_granted_def initial_memory_def mem_ok_def)
  moreover have "\<forall>a \<in> set ?args. argument_ok a"
    by (simp add: argument_ok_def given_def text_ok_def chars_def c_string_def zero_entry_def)
  moreover have "length ?args < 256" by simp
  ultimately obtain e m' where e: "xi_add_senml_entry (zero_senml 1) (int (length ?args)) ?args (initial_memory [])
      = Some (XI_STATE_OK, (zero_senml 1)\<lparr>entries_list := entries_list (zero_senml 1) @ [e]\<rparr>, m')"
    "view_entry e = foldl override no_fields (map view_entry ?args)"
    "live_blocks (xi_senml_entry_destroy e m') = live_blocks (initial_memory [])"
    using senml_entry_built [of "initial_memory []" ?args "zero_senml 1"] by blast
  have "name_of (view_entry e) = Some [98]" "value_of (view_entry e) = Some (Truth 1)"
    unfolding e(2) by (simp_all add: view_entry_def override_def latest_def no_fields_def chars_def c_string_def view_value_def zero_entry_def)
  then show ?thesis using e(1,3) by (intro exI [of _ e] exI [of _ m']) (simp add: zero_senml_def initial_memory_def)
qed

text \<open>
  an argument that is refused leaks the entry. When an argument says that it sets the name and
  has none, the call returns \<open>XI_INVALID_PARAMETER\<close> and leaves the structure alone, but the new
  entry stays allocated, together with all that the arguments before copied into it, and nobody has
  its address.
\<close>
lemma senml_refused_argument_leaks:
  assumes "all_granted m" "\<forall>a \<in> set args. argument_ok a" "length args < 255" "name_set bad" "entry_name bad = None"
    and "n = int (length args) + 1"
  shows "\<exists>e m'. xi_add_senml_entry s n (args @ [bad]) m = Some (XI_INVALID_PARAMETER, s, m')
    \<and> live_blocks m' = live_blocks m \<union> set (entry_blocks e) \<and> live_blocks m \<inter> set (entry_blocks e) = {}
    \<and> view_entry e = foldl override no_fields (map view_entry args)"
proof -
  obtain m1 where a: "xi_alloc sizeof_xi_senml_entry m = (next_block m, m1)" "all_granted m1"
    "live_blocks m1 = insert (next_block m) (live_blocks m)" "next_block m \<notin> live_blocks m" "next_block m \<noteq> NULL"
    using senml_alloc_granted [OF assms(1), of sizeof_xi_senml_entry] by (auto simp: sizeof_xi_senml_entry_def)
  have z: "entry_owned (live_blocks m) (zero_entry (next_block m)) m1" by (rule zero_entry_owned [OF assms(1) a(1,5,4,2,3)])
  have run: "\<exists>e m'. va_loop add_step n i (xs @ [bad]) e0 m0 = Some (XI_INVALID_PARAMETER, e, m') \<and> entry_owned X e m'
      \<and> view_entry e = foldl override (view_entry e0) (map view_entry xs)"
    if "entry_owned X e0 m0" "\<forall>a \<in> set xs. argument_ok a" "n = int (unat i + length xs) + 1" "unat i + length xs < 255" for X e0 m0 xs i
    using that
  proof (induct xs arbitrary: i e0 m0)
    case Nil
    then show ?case using assms(4,5) by (simp add: add_step_def add_name_def)
  next
    case (Cons x xs)
    obtain e1 m2 where s: "add_step x e0 m0 = Some (XI_STATE_OK, e1, m2)" "entry_owned X e1 m2"
      "view_entry e1 = override (view_entry e0) (view_entry x)"
      using add_step_owned [OF Cons.prems(1), of x] Cons.prems(2) by auto
    have i: "unat (i + 1) = unat i + 1" using Cons.prems(4) by (simp add: unat_word_ariths)
    show ?case using Cons.hyps [OF s(2), of "i + 1"] Cons.prems(2-4) s(1,3) i by auto
  qed
  obtain e m' where e: "va_loop add_step n 0 (args @ [bad]) (zero_entry (next_block m)) m1 = Some (XI_INVALID_PARAMETER, e, m')"
    "entry_owned (live_blocks m) e m'" "view_entry e = foldl override (view_entry (zero_entry (next_block m))) (map view_entry args)"
    using run [OF z assms(2), of 0] assms(3,6) by auto
  have "view_entry (zero_entry p) = no_fields" for p by (simp add: view_entry_def zero_entry_def no_fields_def)
  then show ?thesis using a(1,5) e by (auto simp: xi_add_senml_entry_def entry_owned_def)
qed

end
