(* ===== verification/Xi_Memory_Limiter.thy ===== *)
theory Xi_Memory_Limiter
  imports Xi_List
begin

text \<open>
  \<open>src/libxively/debug_extensions/memory_limiter/xi_memory_limiter.c\<close>, with \<open>XI_DEBUG_EXTRA_INFO\<close>:
  allocation within a limit. Each block starts with an entry that holds its size and the links of a
  doubly linked list of all blocks. The file, the line and the backtrace of an allocation are left
  out; the critical sections are empty. \<open>size_t\<close> is a 64-bit word.
\<close>

section \<open>State\<close>

record xi_memory_limiter_entry =
  entry_next :: addr
  entry_prev :: addr
  entry_size :: "64 word"

record xi_limiter =
  lmem :: xi_memory
  lentries :: "addr \<Rightarrow> xi_memory_limiter_entry"
  entry_list_head :: addr
  application_limit :: "64 word"
  total_limit :: "64 word"
  memory_allocated :: "64 word"

datatype xi_memory_limiter_allocation_type =
  XI_MEMORY_LIMITER_ALLOCATION_TYPE_APPLICATION | XI_MEMORY_LIMITER_ALLOCATION_TYPE_SYSTEM
| XI_MEMORY_LIMITER_ALLOCATION_TYPE_COUNT

definition sizeof_limiter_entry :: "64 word" where "sizeof_limiter_entry = 176"

definition XI_MEMORY_LIMITER_APPLICATION_MEMORY_LIMIT :: "64 word" where
  "XI_MEMORY_LIMITER_APPLICATION_MEMORY_LIMIT = 524288"

definition XI_MEMORY_LIMITER_SYSTEM_MEMORY_LIMIT :: "64 word" where
  "XI_MEMORY_LIMITER_SYSTEM_MEMORY_LIMIT = 2024"

definition initial_limiter :: "xi_memory \<Rightarrow> xi_limiter" where
  "initial_limiter m = \<lparr>lmem = m, lentries = (\<lambda>_. \<lparr>entry_next = NULL, entry_prev = NULL, entry_size = 0\<rparr>),
     entry_list_head = NULL, application_limit = XI_MEMORY_LIMITER_APPLICATION_MEMORY_LIMIT,
     total_limit = XI_MEMORY_LIMITER_APPLICATION_MEMORY_LIMIT + XI_MEMORY_LIMITER_SYSTEM_MEMORY_LIMIT,
     memory_allocated = 0\<rparr>"

definition get_ptr_from_entry :: "addr \<Rightarrow> addr" where "get_ptr_from_entry e = e + 176"

definition get_entry_from_ptr :: "addr \<Rightarrow> addr" where "get_entry_from_ptr p = p - 176"

text \<open>An access to the entry at \<open>p\<close>.\<close>

definition deref_entry :: "xi_limiter \<Rightarrow> addr \<Rightarrow> xi_memory_limiter_entry option" where
  "deref_entry s p = do { xi_assert (p \<noteq> NULL \<and> p \<in> live_blocks (lmem s)); Some (lentries s p) }"

definition set_entry ::
    "addr \<Rightarrow> (xi_memory_limiter_entry \<Rightarrow> xi_memory_limiter_entry) \<Rightarrow> xi_limiter \<Rightarrow> xi_limiter option" where
  "set_entry p f s = do { e \<leftarrow> deref_entry s p; Some (s\<lparr>lentries := (lentries s)(p := f e)\<rparr>) }"

section \<open>Limits\<close>

definition xi_memory_limiter_will_allocation_fit ::
    "xi_limiter \<Rightarrow> xi_memory_limiter_allocation_type \<Rightarrow> 64 word \<Rightarrow> xi_state" where
  "xi_memory_limiter_will_allocation_fit s memory_type size_to_alloc =
     (if memory_allocated s + size_to_alloc
         > (if memory_type = XI_MEMORY_LIMITER_ALLOCATION_TYPE_APPLICATION then application_limit s else total_limit s)
      then XI_OUT_OF_MEMORY else XI_STATE_OK)"

definition xi_memory_limiter_get_allocated_space :: "xi_limiter \<Rightarrow> 64 word" where
  "xi_memory_limiter_get_allocated_space s = memory_allocated s"

definition xi_memory_limiter_set_limit :: "64 word \<Rightarrow> xi_limiter \<Rightarrow> xi_state \<times> xi_limiter" where
  "xi_memory_limiter_set_limit new_memory_limit s =
     (let current_required_capacity = xi_memory_limiter_get_allocated_space s + XI_MEMORY_LIMITER_SYSTEM_MEMORY_LIMIT
      in if new_memory_limit < current_required_capacity then (XI_OUT_OF_MEMORY, s)
         else (XI_STATE_OK, s\<lparr>application_limit := new_memory_limit - XI_MEMORY_LIMITER_SYSTEM_MEMORY_LIMIT,
                 total_limit := new_memory_limit\<rparr>))"

text \<open>The assertion on the type admits all three values.\<close>

definition xi_memory_limiter_get_capacity :: "xi_limiter \<Rightarrow> xi_memory_limiter_allocation_type \<Rightarrow> 64 word" where
  "xi_memory_limiter_get_capacity s limit_type =
     (if limit_type = XI_MEMORY_LIMITER_ALLOCATION_TYPE_APPLICATION then application_limit s else total_limit s)"

definition xi_memory_limiter_get_current_limit :: "xi_limiter \<Rightarrow> xi_memory_limiter_allocation_type \<Rightarrow> 64 word" where
  "xi_memory_limiter_get_current_limit s limit_type =
     (let capacity = xi_memory_limiter_get_capacity s limit_type;
          allocated_space = xi_memory_limiter_get_allocated_space s
      in if allocated_space \<ge> capacity then 0 else capacity - allocated_space)"

section \<open>Allocation\<close>

definition link_entry :: "addr \<Rightarrow> xi_limiter \<Rightarrow> xi_limiter option" where
  "link_entry e s =
     (if entry_list_head s = NULL then Some (s\<lparr>entry_list_head := e\<rparr>)
      else do {
        s1 \<leftarrow> set_entry e (\<lambda>r. r\<lparr>entry_next := entry_list_head s\<rparr>) s;
        s2 \<leftarrow> set_entry (entry_list_head s) (\<lambda>r. r\<lparr>entry_prev := e\<rparr>) s1;
        Some (s2\<lparr>entry_list_head := e\<rparr>) })"

definition unlink_entry :: "addr \<Rightarrow> xi_limiter \<Rightarrow> xi_limiter option" where
  "unlink_entry e s = do {
     r \<leftarrow> deref_entry s e;
     s1 \<leftarrow> (if entry_prev r \<noteq> NULL then set_entry (entry_prev r) (\<lambda>p. p\<lparr>entry_next := entry_next r\<rparr>) s
            else Some (s\<lparr>entry_list_head := entry_next r\<rparr>));
     r1 \<leftarrow> deref_entry s1 e;
     if entry_next r1 \<noteq> NULL then set_entry (entry_next r1) (\<lambda>n. n\<lparr>entry_prev := entry_prev r1\<rparr>) s1
     else Some s1 }"

text \<open>A block that cannot hold its entry is an access outside of it: the size has wrapped around.\<close>

definition xi_memory_limiter_alloc ::
    "xi_memory_limiter_allocation_type \<Rightarrow> 64 word \<Rightarrow> xi_limiter \<Rightarrow> (addr \<times> xi_limiter) option" where
  "xi_memory_limiter_alloc limit_type size_to_alloc s = do {
     xi_assert (limit_type \<noteq> XI_MEMORY_LIMITER_ALLOCATION_TYPE_COUNT);
     let real_size_to_alloc = size_to_alloc + sizeof_limiter_entry;
     if xi_memory_limiter_will_allocation_fit s limit_type real_size_to_alloc \<noteq> XI_STATE_OK then Some (NULL, s)
     else do {
       let (entry_ptr, m) = xi_alloc (unat real_size_to_alloc) (lmem s);
       let s = s\<lparr>lmem := m\<rparr>;
       if entry_ptr = NULL then Some (NULL, s)
       else do {
         xi_assert (sizeof_limiter_entry \<le> real_size_to_alloc);
         s \<leftarrow> set_entry entry_ptr (\<lambda>_. \<lparr>entry_next = NULL, entry_prev = NULL, entry_size = 0\<rparr>) s;
         s \<leftarrow> link_entry entry_ptr s;
         s \<leftarrow> set_entry entry_ptr (\<lambda>r. r\<lparr>entry_size := real_size_to_alloc\<rparr>) s;
         Some (get_ptr_from_entry entry_ptr, s\<lparr>memory_allocated := memory_allocated s + real_size_to_alloc\<rparr>) } } }"

definition xi_memory_limiter_calloc ::
    "xi_memory_limiter_allocation_type \<Rightarrow> 64 word \<Rightarrow> 64 word \<Rightarrow> xi_limiter \<Rightarrow> (addr \<times> xi_limiter) option" where
  "xi_memory_limiter_calloc limit_type num size_to_alloc s =
     xi_memory_limiter_alloc limit_type (num * size_to_alloc) s"

text \<open>
  \<open>realloc\<close> of the platform: the block stays where it is (\<open>stays\<close>), or its contents move to a new
  block; when it is refused the block is left alone.
\<close>

definition platform_realloc :: "bool \<Rightarrow> addr \<Rightarrow> nat \<Rightarrow> xi_limiter \<Rightarrow> addr \<times> xi_limiter" where
  "platform_realloc stays p n s =
     (let (q, m) = xi_alloc n (lmem s)
      in if q = NULL then (NULL, s\<lparr>lmem := m\<rparr>)
         else if stays then (p, s\<lparr>lmem := xi_free q m\<rparr>)
         else (q, s\<lparr>lmem := xi_free p m, lentries := (lentries s)(q := lentries s p)\<rparr>))"

definition xi_memory_limiter_realloc ::
    "bool \<Rightarrow> xi_memory_limiter_allocation_type \<Rightarrow> addr \<Rightarrow> 64 word \<Rightarrow> xi_limiter \<Rightarrow> (addr \<times> xi_limiter) option" where
  "xi_memory_limiter_realloc stays limit_type ptr size_to_alloc s =
     (if ptr = NULL then Some (NULL, s)
      else do {
        xi_assert (limit_type \<noteq> XI_MEMORY_LIMITER_ALLOCATION_TYPE_COUNT);
        let entry = get_entry_from_ptr ptr;
        let real_size_to_alloc = size_to_alloc + sizeof_limiter_entry;
        r \<leftarrow> deref_entry s entry;
        let real_diff = sint (real_size_to_alloc - entry_size r);
        if xi_memory_limiter_will_allocation_fit s limit_type (of_int (max real_diff 0)) \<noteq> XI_STATE_OK then Some (NULL, s)
        else do {
          s \<leftarrow> unlink_entry entry s;
          let (r_ptr, s) = platform_realloc stays entry (unat real_size_to_alloc) s;
          if r_ptr = NULL then Some (NULL, s)
          else do {
            xi_assert (sizeof_limiter_entry \<le> real_size_to_alloc);
            s \<leftarrow> link_entry r_ptr s;
            s \<leftarrow> set_entry r_ptr (\<lambda>r. r\<lparr>entry_size := real_size_to_alloc\<rparr>) s;
            Some (get_ptr_from_entry r_ptr, s\<lparr>memory_allocated := memory_allocated s + of_int real_diff\<rparr>) } } })"

text \<open>The visitor with the predicate that compares with \<open>e\<close>.\<close>

partial_function (option) limiter_find :: "addr \<Rightarrow> xi_limiter \<Rightarrow> addr \<Rightarrow> addr option" where
  "limiter_find e s tmp =
     (if tmp = NULL then Some NULL
      else if tmp = e then Some tmp
      else do { r \<leftarrow> deref_entry s tmp; limiter_find e s (entry_next r) })"

text \<open>The new count is computed in \<open>int\<close>; a difference that does not fit is undefined.\<close>

definition int_of_size :: "64 word \<Rightarrow> int" where "int_of_size w = sint (ucast w :: 32 word)"

definition xi_memory_limiter_free :: "addr \<Rightarrow> xi_limiter \<Rightarrow> xi_limiter option" where
  "xi_memory_limiter_free ptr s =
     (if ptr = NULL then Some s
      else do {
        let entry = get_entry_from_ptr ptr;
        r \<leftarrow> deref_entry s entry;
        let size_to_free = entry_size r;
        xi_assert (xi_memory_limiter_get_allocated_space s \<ge> size_to_free);
        leg \<leftarrow> limiter_find entry s (entry_list_head s);
        xi_assert (leg \<noteq> NULL \<and> leg = entry);
        s \<leftarrow> unlink_entry entry s;
        let s = s\<lparr>lmem := xi_free entry (lmem s)\<rparr>;
        let d = int_of_size (memory_allocated s) - int_of_size size_to_free;
        xi_assert (- (2 ^ 31) \<le> d \<and> d < 2 ^ 31);
        Some (s\<lparr>memory_allocated := of_int (max d 0)\<rparr>) })"

section \<open>Facades\<close>

definition xi_memory_limiter_alloc_application :: "64 word \<Rightarrow> xi_limiter \<Rightarrow> (addr \<times> xi_limiter) option" where
  "xi_memory_limiter_alloc_application n s = xi_memory_limiter_alloc XI_MEMORY_LIMITER_ALLOCATION_TYPE_APPLICATION n s"

definition xi_memory_limiter_calloc_application :: "64 word \<Rightarrow> 64 word \<Rightarrow> xi_limiter \<Rightarrow> (addr \<times> xi_limiter) option" where
  "xi_memory_limiter_calloc_application k n s =
     xi_memory_limiter_calloc XI_MEMORY_LIMITER_ALLOCATION_TYPE_APPLICATION k n s"

definition xi_memory_limiter_realloc_application ::
    "bool \<Rightarrow> addr \<Rightarrow> 64 word \<Rightarrow> xi_limiter \<Rightarrow> (addr \<times> xi_limiter) option" where
  "xi_memory_limiter_realloc_application stays p n s =
     xi_memory_limiter_realloc stays XI_MEMORY_LIMITER_ALLOCATION_TYPE_APPLICATION p n s"

definition xi_memory_limiter_alloc_system :: "64 word \<Rightarrow> xi_limiter \<Rightarrow> (addr \<times> xi_limiter) option" where
  "xi_memory_limiter_alloc_system n s = xi_memory_limiter_alloc XI_MEMORY_LIMITER_ALLOCATION_TYPE_SYSTEM n s"

definition xi_memory_limiter_calloc_system :: "64 word \<Rightarrow> 64 word \<Rightarrow> xi_limiter \<Rightarrow> (addr \<times> xi_limiter) option" where
  "xi_memory_limiter_calloc_system k n s = xi_memory_limiter_calloc XI_MEMORY_LIMITER_ALLOCATION_TYPE_SYSTEM k n s"

definition xi_memory_limiter_realloc_system ::
    "bool \<Rightarrow> addr \<Rightarrow> 64 word \<Rightarrow> xi_limiter \<Rightarrow> (addr \<times> xi_limiter) option" where
  "xi_memory_limiter_realloc_system stays p n s =
     xi_memory_limiter_realloc stays XI_MEMORY_LIMITER_ALLOCATION_TYPE_SYSTEM p n s"

text \<open>The functions for client programs: the file they are allocated in is only noted.\<close>

definition xi_memory_limiter_alloc_application_export :: "64 word \<Rightarrow> xi_limiter \<Rightarrow> (addr \<times> xi_limiter) option" where
  "xi_memory_limiter_alloc_application_export n s = xi_memory_limiter_alloc_application n s"

definition xi_memory_limiter_calloc_application_export :: "64 word \<Rightarrow> 64 word \<Rightarrow> xi_limiter \<Rightarrow> (addr \<times> xi_limiter) option" where
  "xi_memory_limiter_calloc_application_export num n s = xi_memory_limiter_calloc_application num n s"

definition xi_memory_limiter_realloc_application_export ::
  "bool \<Rightarrow> addr \<Rightarrow> 64 word \<Rightarrow> xi_limiter \<Rightarrow> (addr \<times> xi_limiter) option" where
  "xi_memory_limiter_realloc_application_export stays p n s = xi_memory_limiter_realloc_application stays p n s"

section \<open>Leaks\<close>

partial_function (option) limiter_last :: "xi_limiter \<Rightarrow> addr \<Rightarrow> addr option" where
  "limiter_last s tmp = do {
     r \<leftarrow> deref_entry s tmp;
     if entry_next r \<noteq> NULL then limiter_last s (entry_next r) else Some tmp }"

partial_function (option) limiter_peel :: "addr \<Rightarrow> xi_limiter \<Rightarrow> xi_limiter option" where
  "limiter_peel tmp s =
     (if tmp = NULL then Some s
      else do {
        r \<leftarrow> deref_entry s tmp;
        s1 \<leftarrow> xi_memory_limiter_free (get_ptr_from_entry tmp) s;
        limiter_peel (entry_prev r) s1 })"

definition xi_memory_limiter_gc :: "xi_limiter \<Rightarrow> xi_limiter option" where
  "xi_memory_limiter_gc s =
     (if entry_list_head s = NULL then Some s
      else do { tmp \<leftarrow> limiter_last s (entry_list_head s); limiter_peel tmp s })"

text \<open>The entries in the order in which the visitor function sees them.\<close>

partial_function (option) visit_from :: "xi_limiter \<Rightarrow> addr \<Rightarrow> addr list option" where
  "visit_from s tmp = do {
     r \<leftarrow> deref_entry s tmp;
     ps \<leftarrow> (if entry_next r \<noteq> NULL then visit_from s (entry_next r) else Some []);
     Some (tmp # ps) }"

definition xi_memory_limiter_visit_memory_leaks :: "xi_limiter \<Rightarrow> addr list option" where
  "xi_memory_limiter_visit_memory_leaks s =
     (if entry_list_head s \<noteq> NULL then visit_from s (entry_list_head s) else Some [])"

end
