(* ===== verification/Xi_Memory_Limiter_List.thy ===== *)
theory Xi_Memory_Limiter_List
  imports Xi_Memory_Limiter
begin

text \<open>
  The list of the memory limiter: allocation, \<open>free\<close> and the collection of leaks keep it, and the
  limits with it; \<open>realloc\<close> does so only for the newest block.
\<close>

section \<open>Doubly linked segments\<close>

text \<open>
  \<open>dseg es b h xs r\<close>: from \<open>h\<close> the links \<open>entry_next\<close> visit \<open>xs\<close> and arrive at \<open>r\<close>, and each
  \<open>entry_prev\<close> is the entry before, \<open>b\<close> for the first one.
\<close>

primrec dseg ::
    "(addr \<Rightarrow> xi_memory_limiter_entry) \<Rightarrow> addr \<Rightarrow> addr \<Rightarrow> addr list \<Rightarrow> addr \<Rightarrow> bool" where
  "dseg es b h [] r \<longleftrightarrow> h = r"
| "dseg es b h (p # ps) r \<longleftrightarrow> h = p \<and> p \<noteq> NULL \<and> entry_prev (es p) = b \<and> dseg es p (entry_next (es p)) ps r"

definition before :: "addr \<Rightarrow> addr list \<Rightarrow> addr" where "before b xs = (if xs = [] then b else last xs)"

lemma dseg_append: "dseg es b h (xs @ ys) r \<longleftrightarrow> (\<exists>q. dseg es b h xs q \<and> dseg es (before b xs) q ys r)"
  by (induct xs arbitrary: b h) (auto simp: before_def)

lemma dseg_cong:
  "(\<And>p. p \<in> set xs \<Longrightarrow> entry_next (fs p) = entry_next (es p) \<and> entry_prev (fs p) = entry_prev (es p))
     \<Longrightarrow> dseg fs b h xs r = dseg es b h xs r"
  by (induct xs arbitrary: b h) auto

lemma dseg_update: "p \<notin> set xs \<Longrightarrow> dseg (es(p := e)) b h xs r = dseg es b h xs r"
  by (rule dseg_cong) auto

lemma dseg_redirect:
  assumes "dseg es b h (xs @ [p]) q" "distinct (xs @ [p])"
  shows "dseg (es(p := (es p)\<lparr>entry_next := r\<rparr>)) b h (xs @ [p]) r"
  using assms by (auto simp: dseg_append dseg_update)

lemma dseg_new_prev:
  assumes "dseg es b h (p # ps) r" "p \<notin> set ps"
  shows "dseg (es(p := (es p)\<lparr>entry_prev := c\<rparr>)) c h (p # ps) r"
  using assms by (simp add: dseg_update)

lemma dseg_not_NULL: "dseg es b h xs r \<Longrightarrow> NULL \<notin> set xs"
  by (induct xs arbitrary: b h) auto

section \<open>The invariant\<close>

text \<open>The blocks, newest first. The limits are small enough for the arithmetic in \<open>int\<close>.\<close>

definition limiter_ok :: "xi_limiter \<Rightarrow> addr list \<Rightarrow> bool" where
  "limiter_ok s ps \<longleftrightarrow> mem_ok (lmem s) \<and> dseg (lentries s) NULL (entry_list_head s) ps NULL \<and> distinct ps
     \<and> set ps \<subseteq> live_blocks (lmem s) \<and> (\<forall>p \<in> set ps. 176 \<le> unat (entry_size (lentries s p)))
     \<and> (\<Sum>p \<leftarrow> ps. unat (entry_size (lentries s p))) = unat (memory_allocated s)
     \<and> memory_allocated s \<le> total_limit s \<and> application_limit s \<le> total_limit s \<and> unat (total_limit s) < 2 ^ 31"

definition same_limiter :: "xi_limiter \<Rightarrow> xi_limiter \<Rightarrow> bool" where
  "same_limiter s t \<longleftrightarrow> lmem t = lmem s \<and> application_limit t = application_limit s \<and> total_limit t = total_limit s
     \<and> memory_allocated t = memory_allocated s \<and> (\<forall>p. entry_size (lentries t p) = entry_size (lentries s p))"

lemma set_entry_live: "p \<noteq> NULL \<Longrightarrow> p \<in> live_blocks (lmem s) \<Longrightarrow> set_entry p f s = Some (s\<lparr>lentries := (lentries s)(p := f (lentries s p))\<rparr>)"
  by (simp add: set_entry_def deref_entry_def)

lemma link_entry_spec:
  assumes d: "dseg (lentries s) NULL (entry_list_head s) ps NULL" "distinct ps" "set ps \<subseteq> live_blocks (lmem s)"
    and p: "p \<notin> set ps" "p \<noteq> NULL" "p \<in> live_blocks (lmem s)" "entry_prev (lentries s p) = NULL"
      "ps = [] \<Longrightarrow> entry_next (lentries s p) = NULL"
  shows "\<exists>t. link_entry p s = Some t \<and> same_limiter s t \<and> entry_list_head t = p \<and> dseg (lentries t) NULL p (p # ps) NULL"
proof (cases ps)
  case Nil
  then show ?thesis using d p by (simp add: link_entry_def same_limiter_def)
next
  case (Cons h hs)
  then have h: "entry_list_head s = h" "h \<noteq> NULL" "h \<in> live_blocks (lmem s)" "h \<noteq> p" "p \<notin> set hs" "h \<notin> set hs"
    using d p(1) by auto
  let ?es = "(lentries s)(p := (lentries s p)\<lparr>entry_next := h\<rparr>)"
  let ?fs = "?es(h := (?es h)\<lparr>entry_prev := p\<rparr>)"
  have "dseg ?es NULL h (h # hs) NULL" using d(1) h Cons p(1) by (simp add: dseg_update)
  then have "dseg ?fs p h (h # hs) NULL" using h(6) by (rule dseg_new_prev)
  then have "dseg ?fs NULL p (p # ps) NULL" using p(2,4) h(4) Cons by simp
  moreover have "link_entry p s = Some (s\<lparr>lentries := ?fs, entry_list_head := p\<rparr>)"
    using h p by (simp add: link_entry_def set_entry_live)
  ultimately show ?thesis by (simp add: same_limiter_def)
qed

lemma unlink_entry_spec:
  assumes d: "dseg (lentries s) NULL (entry_list_head s) (xs @ p # ys) NULL" "distinct (xs @ p # ys)"
    and l: "set (xs @ p # ys) \<subseteq> live_blocks (lmem s)"
  shows "\<exists>t. unlink_entry p s = Some t \<and> same_limiter s t \<and> dseg (lentries t) NULL (entry_list_head t) (xs @ ys) NULL
    \<and> lentries t p = lentries s p"
proof -
  let ?es = "lentries s"
  let ?b = "entry_prev (?es p)" and ?n = "entry_next (?es p)"
  obtain q where q: "dseg ?es NULL (entry_list_head s) xs q" "dseg ?es (before NULL xs) q (p # ys) NULL"
    using d(1) by (auto simp: dseg_append)
  have p: "q = p" "p \<noteq> NULL" "?b = before NULL xs" "dseg ?es p ?n ys NULL" "p \<notin> set xs" "p \<notin> set ys" "p \<in> live_blocks (lmem s)"
    using q(2) d(2) l by auto
  have n: "?n = (case ys of [] \<Rightarrow> NULL | y # _ \<Rightarrow> y)" using p(4) by (cases ys) auto
  have nn: "NULL \<notin> set (xs @ p # ys)" using d(1) by (rule dseg_not_NULL)
  obtain s1 where s1: "(if ?b \<noteq> NULL then set_entry ?b (\<lambda>r. r\<lparr>entry_next := ?n\<rparr>) s else Some (s\<lparr>entry_list_head := ?n\<rparr>)) = Some s1"
    "same_limiter s s1" "dseg (lentries s1) NULL (entry_list_head s1) xs ?n" "dseg (lentries s1) p ?n ys NULL" "lentries s1 p = ?es p"
  proof (cases xs rule: rev_cases)
    case Nil
    then show thesis using that [of "s\<lparr>entry_list_head := ?n\<rparr>"] p by (simp add: same_limiter_def before_def)
  next
    case (snoc zs z)
    have z: "?b = z" "z \<noteq> NULL" "z \<in> live_blocks (lmem s)" "z \<noteq> p" "z \<notin> set ys" "distinct (zs @ [z])"
      using snoc p(3) nn l d(2) by (auto simp: before_def)
    have "dseg (?es(z := (?es z)\<lparr>entry_next := ?n\<rparr>)) NULL (entry_list_head s) (zs @ [z]) ?n"
      using dseg_redirect q(1) z(6) snoc by blast
    then show thesis
      using that [of "s\<lparr>lentries := ?es(z := (?es z)\<lparr>entry_next := ?n\<rparr>)\<rparr>"] z p(4) snoc
      by (simp add: set_entry_live same_limiter_def dseg_update)
  qed
  have lm: "lmem s1 = lmem s" using s1(2) by (simp add: same_limiter_def)
  show ?thesis
  proof (cases ys)
    case Nil
    have "unlink_entry p s = Some s1" using s1(1,5) p(2,7) n Nil lm by (simp add: unlink_entry_def deref_entry_def)
    moreover have "dseg (lentries s1) NULL (entry_list_head s1) xs NULL" using s1(3) n Nil by simp
    ultimately show ?thesis using s1(2,5) Nil by auto
  next
    case (Cons y zs)
    have y: "?n = y" "y \<noteq> NULL" "y \<in> live_blocks (lmem s)" "y \<notin> set zs" "y \<notin> set xs" "y \<noteq> p"
      using Cons n nn l d(2) by auto
    let ?t = "s1\<lparr>lentries := (lentries s1)(y := (lentries s1 y)\<lparr>entry_prev := ?b\<rparr>)\<rparr>"
    have "unlink_entry p s = Some ?t" using s1(1,5) p(2,7) y lm by (simp add: unlink_entry_def deref_entry_def set_entry_live)
    moreover have "dseg (lentries ?t) ?b y (y # zs) NULL"
      using dseg_new_prev [of "lentries s1" p y y zs NULL ?b] s1(4) y(1,4) Cons by simp
    then have "dseg (lentries ?t) NULL (entry_list_head ?t) (xs @ ys) NULL"
      using s1(3) y(1,5) p(3) Cons by (auto simp: dseg_append dseg_update)
    moreover have "same_limiter s ?t" using s1(2) by (simp add: same_limiter_def)
    ultimately show ?thesis using s1(5) y(6) by auto
  qed
qed

lemma find_spec:
  assumes "dseg (lentries s) b h ps NULL" "set ps \<subseteq> live_blocks (lmem s)"
  shows "limiter_find e s h = Some (if e \<in> set ps then e else NULL)"
  using assms
proof (induct ps arbitrary: b h)
  case Nil
  then show ?case by (subst limiter_find.simps) simp
next
  case (Cons p ps)
  then show ?case by (subst limiter_find.simps) (auto simp: deref_entry_def)
qed

section \<open>The operations\<close>

lemma unat_limits:
  assumes "limiter_ok s ps" "unat n < 2 ^ 62"
  shows "unat (memory_allocated s + n) = unat (memory_allocated s) + unat n" "unat (memory_allocated s) < 2 ^ 31"
proof -
  have "unat (memory_allocated s) \<le> unat (total_limit s)" using assms(1) by (simp add: limiter_ok_def word_le_nat_alt)
  then show l: "unat (memory_allocated s) < 2 ^ 31" using assms(1) by (simp add: limiter_ok_def)
  show "unat (memory_allocated s + n) = unat (memory_allocated s) + unat n"
    using l assms(2) by (simp add: unat_word_ariths)
qed

lemma limiter_alloc_spec:
  assumes ok: "limiter_ok s ps" and t: "ty \<noteq> XI_MEMORY_LIMITER_ALLOCATION_TYPE_COUNT" and n: "unat n < 2 ^ 61"
  shows "\<exists>p s'. xi_memory_limiter_alloc ty n s = Some (p, s')
    \<and> (p = NULL \<and> limiter_ok s' ps \<and> memory_allocated s' = memory_allocated s \<and> live_blocks (lmem s') = live_blocks (lmem s)
       \<or> (\<exists>e. p = get_ptr_from_entry e \<and> e \<notin> live_blocks (lmem s) \<and> limiter_ok s' (e # ps)
            \<and> memory_allocated s' = memory_allocated s + n + 176 \<and> entry_size (lentries s' e) = n + 176
            \<and> memory_allocated s' \<le> xi_memory_limiter_get_capacity s ty))
    \<and> application_limit s' = application_limit s \<and> total_limit s' = total_limit s"
proof (cases "xi_memory_limiter_will_allocation_fit s ty (n + 176) = XI_STATE_OK")
  case False
  then show ?thesis using ok t by (simp add: xi_memory_limiter_alloc_def sizeof_limiter_entry_def)
next
  case True
  have real: "unat (n + 176) = unat n + 176" using n by (simp add: unat_word_ariths)
  obtain e m where a: "xi_alloc (unat (n + 176)) (lmem s) = (e, m)" by fastforce
  let ?s1 = "s\<lparr>lmem := m\<rparr>"
  show ?thesis
  proof (cases "e = NULL")
    case e: True
    have "mem_ok m" "live_blocks m = live_blocks (lmem s)"
      using xi_alloc_mem_ok [OF a] xi_alloc_live [OF _ a] ok e by (auto simp: limiter_ok_def)
    then have "limiter_ok ?s1 ps" using ok by (simp add: limiter_ok_def)
    then show ?thesis using True t a e \<open>live_blocks m = live_blocks (lmem s)\<close>
      by (simp add: xi_memory_limiter_alloc_def sizeof_limiter_entry_def)
  next
    case e: False
    have m: "mem_ok m" "e \<notin> live_blocks (lmem s)" "live_blocks m = insert e (live_blocks (lmem s))"
      using xi_alloc_mem_ok [OF a] xi_alloc_fresh [OF a _ e] xi_alloc_live [OF _ a] ok e by (auto simp: limiter_ok_def)
    have eps: "e \<notin> set ps" using m(2) ok by (auto simp: limiter_ok_def)
    let ?z = "\<lparr>entry_next = NULL, entry_prev = NULL, entry_size = 0\<rparr>"
    define s2 where "s2 = ?s1\<lparr>lentries := (lentries s)(e := ?z)\<rparr>"
    have s2: "dseg (lentries s2) NULL (entry_list_head s2) ps NULL" "distinct ps" "set ps \<subseteq> live_blocks (lmem s2)"
      "e \<in> live_blocks (lmem s2)" "entry_prev (lentries s2 e) = NULL" "entry_next (lentries s2 e) = NULL" "lmem s2 = m"
      "memory_allocated s2 = memory_allocated s" "application_limit s2 = application_limit s" "total_limit s2 = total_limit s"
      "\<And>p. p \<noteq> e \<Longrightarrow> entry_size (lentries s2 p) = entry_size (lentries s p)"
      using ok m eps by (auto simp: s2_def limiter_ok_def dseg_update)
    obtain s3 where s3: "link_entry e s2 = Some s3" "same_limiter s2 s3" "entry_list_head s3 = e"
      "dseg (lentries s3) NULL e (e # ps) NULL"
      using link_entry_spec [OF s2(1-3) eps e s2(4,5)] s2(6) by blast
    let ?s4 = "s3\<lparr>lentries := (lentries s3)(e := (lentries s3 e)\<lparr>entry_size := n + 176\<rparr>)\<rparr>"
    let ?s5 = "?s4\<lparr>memory_allocated := memory_allocated s + (n + 176)\<rparr>"
    have lm: "lmem s3 = m" "memory_allocated s3 = memory_allocated s" "application_limit s3 = application_limit s" "total_limit s3 = total_limit s"
      using s3(2) s2(7-10) by (simp_all add: same_limiter_def)
    have "176 \<le> n + 176" using real by (simp add: word_le_nat_alt)
    then have run: "xi_memory_limiter_alloc ty n s = Some (get_ptr_from_entry e, ?s5)"
      using True t a e m(3) s3(1) lm
      by (simp add: xi_memory_limiter_alloc_def sizeof_limiter_entry_def set_entry_live s2_def Let_def)
    have sz: "entry_size (lentries ?s5 p) = (if p = e then n + 176 else entry_size (lentries s p))" for p
      using s3(2) s2(11) by (simp add: same_limiter_def)
    have fit: "memory_allocated s + (n + 176) \<le> xi_memory_limiter_get_capacity s ty"
      using True by (auto simp: xi_memory_limiter_will_allocation_fit_def xi_memory_limiter_get_capacity_def split: if_splits)
    moreover have "xi_memory_limiter_get_capacity s ty \<le> total_limit s"
      using ok by (simp add: xi_memory_limiter_get_capacity_def limiter_ok_def)
    ultimately have le: "memory_allocated s + (n + 176) \<le> total_limit s" by (rule order_trans)
    have "unat (memory_allocated s + (n + 176)) = unat (memory_allocated s) + (unat n + 176)"
      using unat_limits(1) [OF ok, of "n + 176"] real n by simp
    moreover have "(\<Sum>p \<leftarrow> ps. unat (entry_size (lentries ?s5 p))) = (\<Sum>p \<leftarrow> ps. unat (entry_size (lentries s p)))"
      using eps sz by (intro arg_cong [of _ _ sum_list] map_cong) auto
    ultimately have "(\<Sum>p \<leftarrow> e # ps. unat (entry_size (lentries ?s5 p))) = unat (memory_allocated ?s5)"
      using sz [of e] real ok by (simp add: limiter_ok_def)
    moreover have "dseg (lentries ?s5) NULL (entry_list_head ?s5) (e # ps) NULL"
    proof -
      have "dseg (lentries ?s5) NULL e (e # ps) NULL = dseg (lentries s3) NULL e (e # ps) NULL" by (rule dseg_cong) simp
      then show ?thesis using s3(3,4) by simp
    qed
    ultimately have "limiter_ok ?s5 (e # ps)"
      using ok m(1,3) eps lm le sz real by (auto simp: limiter_ok_def)
    then show ?thesis using run m(2) sz [of e] fit lm by (intro exI [of _ "get_ptr_from_entry e"] exI [of _ ?s5]) (auto simp: add.assoc)
  qed
qed

lemma int_of_size_small: "unat w < 2 ^ 31 \<Longrightarrow> int_of_size w = int (unat w)"
proof -
  assume "unat w < 2 ^ 31"
  then have "int (unat w) < int (2 ^ 31)" by (simp only: of_nat_less_iff)
  then have b: "uint w < 2 ^ 31" by simp
  have "uint (ucast w :: 32 word) = uint w" using b by (simp add: unsigned_ucast_eq take_bit_int_eq_self)
  then have "sint (ucast w :: 32 word) = uint w"
    using b signed_take_bit_int_eq_self [of 31 "uint w"] order_trans [OF _ uint_ge_0, of "- (2 ^ 31)" w] by (simp add: sint_uint)
  then show ?thesis by (simp add: int_of_size_def)
qed

lemma limiter_free_spec:
  assumes ok: "limiter_ok s (xs @ e # ys)"
  shows "\<exists>s'. xi_memory_limiter_free (get_ptr_from_entry e) s = Some s' \<and> limiter_ok s' (xs @ ys)
    \<and> live_blocks (lmem s') = live_blocks (lmem s) - {e}
    \<and> memory_allocated s' = memory_allocated s - entry_size (lentries s e)
    \<and> application_limit s' = application_limit s \<and> total_limit s' = total_limit s
    \<and> (\<forall>p \<in> set (xs @ ys). entry_size (lentries s' p) = entry_size (lentries s p))"
proof -
  let ?ps = "xs @ e # ys"
  let ?sz = "\<lambda>p. unat (entry_size (lentries s p))"
  have d: "dseg (lentries s) NULL (entry_list_head s) ?ps NULL" "distinct ?ps" "set ?ps \<subseteq> live_blocks (lmem s)"
    using ok by (simp_all add: limiter_ok_def)
  have e: "e \<noteq> NULL" "e \<in> live_blocks (lmem s)" "get_entry_from_ptr (get_ptr_from_entry e) = e" "get_ptr_from_entry e \<noteq> NULL"
    using dseg_not_NULL [OF d(1)] d(3) by (auto simp: get_entry_from_ptr_def get_ptr_from_entry_def)
  have sum: "unat (memory_allocated s) = (\<Sum>p \<leftarrow> xs @ ys. ?sz p) + ?sz e" using ok by (simp add: limiter_ok_def)
  have small: "unat (memory_allocated s) < 2 ^ 31" using unat_limits(2) [OF ok, of 0] by simp
  have le: "entry_size (lentries s e) \<le> memory_allocated s" using sum by (simp add: word_le_nat_alt)
  obtain t where t: "unlink_entry e s = Some t" "same_limiter s t" "dseg (lentries t) NULL (entry_list_head t) (xs @ ys) NULL"
    using unlink_entry_spec [OF d] by blast
  have small_e: "?sz e < 2 ^ 31" using sum small by simp
  let ?d = "int_of_size (memory_allocated s) - int_of_size (entry_size (lentries s e))"
  have dv: "?d = int (\<Sum>p \<leftarrow> xs @ ys. ?sz p)"
    using sum small by (simp add: int_of_size_small)
  have w: "(of_int ?d :: 64 word) = memory_allocated s - entry_size (lentries s e)"
    using small small_e by (simp add: int_of_size_small)
  let ?s' = "t\<lparr>lmem := xi_free e (lmem s), memory_allocated := of_int ?d\<rparr>"
  have f: "limiter_find e s (entry_list_head s) = Some e" using find_spec [OF d(1,3)] by simp
  have b: "- (2 ^ 31) \<le> ?d" "?d < 2 ^ 31" "max ?d 0 = ?d" using dv sum small by auto
  have lm: "lmem t = lmem s" "memory_allocated t = memory_allocated s" "application_limit t = application_limit s" "total_limit t = total_limit s"
    "\<And>p. entry_size (lentries t p) = entry_size (lentries s p)"
    using t(2) by (simp_all add: same_limiter_def)
  have run: "xi_memory_limiter_free (get_ptr_from_entry e) s = Some ?s'"
    using e le f t(1) lm b
    by (simp add: xi_memory_limiter_free_def deref_entry_def xi_memory_limiter_get_allocated_space_def Let_def)
  have u: "unat (memory_allocated s - entry_size (lentries s e)) = (\<Sum>p \<leftarrow> xs @ ys. ?sz p)"
    using sum le by (simp add: unat_sub)
  have "memory_allocated s - entry_size (lentries s e) \<le> memory_allocated s" using u sum by (simp add: word_le_nat_alt)
  then have "limiter_ok ?s' (xs @ ys)"
    using ok t(3) lm w u d(2) by (auto simp: limiter_ok_def)
  then show ?thesis using run w lm e(1) by auto
qed

lemma initial_limiter_ok: "mem_ok m \<Longrightarrow> limiter_ok (initial_limiter m) []"
  by (simp add: limiter_ok_def initial_limiter_def XI_MEMORY_LIMITER_APPLICATION_MEMORY_LIMIT_def
      XI_MEMORY_LIMITER_SYSTEM_MEMORY_LIMIT_def)

text \<open>
  C34: the memory limiter keeps its books. From a consistent state (whose limits are below \<open>2 ^ 31\<close>), an
  allocation of less than \<open>2 ^ 61\<close> bytes either gives \<open>NULL\<close>
  and changes nothing, or a block that is entered at the front of the list, with the count of bytes
  (176 for the entry of each block included) within the limit of its kind; \<open>free\<close> of any block takes
  exactly this block out of the list and its bytes off the count. The state stays consistent, and no
  assertion fails.
\<close>
theorem limiter_keeps_its_books:
  assumes "limiter_ok s ps"
  shows "(\<forall>ty n. ty \<noteq> XI_MEMORY_LIMITER_ALLOCATION_TYPE_COUNT \<and> unat n < 2 ^ 61 \<longrightarrow>
      (\<exists>p s'. xi_memory_limiter_alloc ty n s = Some (p, s')
        \<and> (p = NULL \<and> limiter_ok s' ps \<and> memory_allocated s' = memory_allocated s \<and> live_blocks (lmem s') = live_blocks (lmem s)
           \<or> (\<exists>e. p = get_ptr_from_entry e \<and> e \<notin> live_blocks (lmem s) \<and> limiter_ok s' (e # ps)
                \<and> memory_allocated s' = memory_allocated s + n + 176
                \<and> memory_allocated s' \<le> xi_memory_limiter_get_capacity s ty))))
    \<and> (\<forall>e \<in> set ps. \<exists>s'. xi_memory_limiter_free (get_ptr_from_entry e) s = Some s' \<and> limiter_ok s' (remove1 e ps)
        \<and> live_blocks (lmem s') = live_blocks (lmem s) - {e}
        \<and> memory_allocated s' = memory_allocated s - entry_size (lentries s e))"
proof (intro conjI allI ballI impI)
  fix ty and n :: "64 word"
  assume "ty \<noteq> XI_MEMORY_LIMITER_ALLOCATION_TYPE_COUNT \<and> unat n < 2 ^ 61"
  then show "\<exists>p s'. xi_memory_limiter_alloc ty n s = Some (p, s')
        \<and> (p = NULL \<and> limiter_ok s' ps \<and> memory_allocated s' = memory_allocated s \<and> live_blocks (lmem s') = live_blocks (lmem s)
           \<or> (\<exists>e. p = get_ptr_from_entry e \<and> e \<notin> live_blocks (lmem s) \<and> limiter_ok s' (e # ps)
                \<and> memory_allocated s' = memory_allocated s + n + 176
                \<and> memory_allocated s' \<le> xi_memory_limiter_get_capacity s ty))"
    using limiter_alloc_spec [OF assms, of ty n] by blast
next
  fix e
  assume "e \<in> set ps"
  then obtain xs ys where ps: "ps = xs @ e # ys" "e \<notin> set xs" by (meson split_list_first)
  then show "\<exists>s'. xi_memory_limiter_free (get_ptr_from_entry e) s = Some s' \<and> limiter_ok s' (remove1 e ps)
        \<and> live_blocks (lmem s') = live_blocks (lmem s) - {e}
        \<and> memory_allocated s' = memory_allocated s - entry_size (lentries s e)"
    using limiter_free_spec [of s xs e ys] assms by (auto simp: remove1_append)
qed

theorem limiter_keeps_its_books_witness:
  "\<exists>p s'. xi_memory_limiter_alloc XI_MEMORY_LIMITER_ALLOCATION_TYPE_APPLICATION 100 (initial_limiter (initial_memory [])) = Some (p, s')
     \<and> (p = NULL \<or> memory_allocated s' = 276)"
proof -
  have "limiter_ok (initial_limiter (initial_memory [])) []" by (rule initial_limiter_ok) simp
  from limiter_keeps_its_books [OF this]
  have "\<exists>p s'. xi_memory_limiter_alloc XI_MEMORY_LIMITER_ALLOCATION_TYPE_APPLICATION 100 (initial_limiter (initial_memory [])) = Some (p, s')
     \<and> (p = NULL \<or> memory_allocated s' = memory_allocated (initial_limiter (initial_memory [])) + 100 + 176)"
    by (elim conjE allE [of _ XI_MEMORY_LIMITER_ALLOCATION_TYPE_APPLICATION] allE [of _ 100]) auto
  then show ?thesis by (simp add: initial_limiter_def)
qed

section \<open>Leaks\<close>

lemma last_spec:
  "dseg (lentries s) b h ps NULL \<Longrightarrow> ps \<noteq> [] \<Longrightarrow> set ps \<subseteq> live_blocks (lmem s) \<Longrightarrow> limiter_last s h = Some (last ps)"
proof (induct ps arbitrary: b h)
  case (Cons p ps)
  then show ?case
    by (subst limiter_last.simps) (cases ps; auto simp: deref_entry_def)
qed simp

lemma visit_spec:
  "dseg (lentries s) b h ps NULL \<Longrightarrow> ps \<noteq> [] \<Longrightarrow> set ps \<subseteq> live_blocks (lmem s) \<Longrightarrow> visit_from s h = Some ps"
proof (induct ps arbitrary: b h)
  case (Cons p ps)
  then show ?case
    by (subst visit_from.simps) (cases ps; auto simp: deref_entry_def)
qed simp

lemma peel_spec:
  assumes "limiter_ok s ps"
  shows "\<exists>s'. limiter_peel (before NULL ps) s = Some s' \<and> limiter_ok s' [] \<and> live_blocks (lmem s') = live_blocks (lmem s) - set ps"
  using assms
proof (induct ps arbitrary: s rule: rev_induct)
  case Nil
  then show ?case by (subst limiter_peel.simps) (simp add: before_def)
next
  case (snoc e xs)
  have d: "dseg (lentries s) NULL (entry_list_head s) (xs @ [e]) NULL" "e \<in> live_blocks (lmem s)" using snoc.prems by (auto simp: limiter_ok_def)
  then have e: "e \<noteq> NULL" "entry_prev (lentries s e) = before NULL xs" by (auto simp: dseg_append)
  obtain s1 where s1: "xi_memory_limiter_free (get_ptr_from_entry e) s = Some s1" "limiter_ok s1 xs"
    "live_blocks (lmem s1) = live_blocks (lmem s) - {e}"
    using limiter_free_spec [of s xs e "[]"] snoc.prems by auto
  obtain s' where s': "limiter_peel (before NULL xs) s1 = Some s'" "limiter_ok s' []" "live_blocks (lmem s') = live_blocks (lmem s1) - set xs"
    using snoc.hyps [OF s1(2)] by blast
  have "limiter_peel e s = Some s'"
    using e d(2) s1(1) s'(1) by (subst limiter_peel.simps) (simp add: deref_entry_def)
  moreover have "before NULL (xs @ [e]) = e" by (simp add: before_def)
  ultimately show ?case using s'(2,3) s1(3) by auto
qed

text \<open>
  C35: leaks are found and collected. The blocks that \<open>xi_memory_limiter_visit_memory_leaks\<close> shows are
  all blocks that have been allocated and not been freed, each once, the newest first; and
  \<open>xi_memory_limiter_gc\<close> returns and frees exactly these, after which no byte is counted.
\<close>
theorem limiter_collects_leaks:
  assumes "limiter_ok s ps"
  shows "xi_memory_limiter_visit_memory_leaks s = Some ps
    \<and> (\<exists>s'. xi_memory_limiter_gc s = Some s' \<and> limiter_ok s' [] \<and> memory_allocated s' = 0
         \<and> live_blocks (lmem s') = live_blocks (lmem s) - set ps)"
proof -
  have d: "dseg (lentries s) NULL (entry_list_head s) ps NULL" "set ps \<subseteq> live_blocks (lmem s)" using assms by (simp_all add: limiter_ok_def)
  have "xi_memory_limiter_visit_memory_leaks s = Some ps"
  proof (cases ps)
    case (Cons p qs)
    then show ?thesis using visit_spec [OF d(1) _ d(2)] d(1) by (simp add: xi_memory_limiter_visit_memory_leaks_def)
  qed (use d in \<open>simp add: xi_memory_limiter_visit_memory_leaks_def\<close>)
  moreover obtain s' where s': "limiter_peel (before NULL ps) s = Some s'" "limiter_ok s' []" "live_blocks (lmem s') = live_blocks (lmem s) - set ps"
    using peel_spec [OF assms] by blast
  have "xi_memory_limiter_gc s = Some s'"
  proof (cases ps)
    case Nil
    then show ?thesis using d(1) s'(1) by (simp add: xi_memory_limiter_gc_def before_def limiter_peel.simps)
  next
    case (Cons p qs)
    then show ?thesis using last_spec [OF d(1) _ d(2)] d(1) s'(1) by (simp add: xi_memory_limiter_gc_def before_def)
  qed
  moreover have "memory_allocated s' = 0" using s'(2) by (simp add: limiter_ok_def unat_eq_0 [symmetric])
  ultimately show ?thesis using s'(2,3) by blast
qed

text \<open>Two blocks, 2 the newer one.\<close>

definition limiter_example :: "bool list \<Rightarrow> xi_limiter" where
  "limiter_example script = (initial_limiter \<lparr>alloc_script = script, next_block = 3, live_blocks = {1, 2}\<rparr>)
     \<lparr>lentries := (\<lambda>p. if p = 2 then \<lparr>entry_next = 1, entry_prev = NULL, entry_size = 186\<rparr>
        else \<lparr>entry_next = NULL, entry_prev = 2, entry_size = 196\<rparr>), entry_list_head := 2, memory_allocated := 382\<rparr>"

lemma limiter_example_ok: "limiter_ok (limiter_example script) [2, 1]"
  by (simp add: limiter_ok_def limiter_example_def initial_limiter_def mem_ok_def
      XI_MEMORY_LIMITER_APPLICATION_MEMORY_LIMIT_def XI_MEMORY_LIMITER_SYSTEM_MEMORY_LIMIT_def)

theorem limiter_collects_leaks_witness:
  "xi_memory_limiter_visit_memory_leaks (limiter_example []) = Some [2, 1]
   \<and> (\<exists>s'. xi_memory_limiter_gc (limiter_example []) = Some s' \<and> live_blocks (lmem s') = {})"
  using limiter_collects_leaks [OF limiter_example_ok [of "[]"]] by (auto simp: limiter_example_def initial_limiter_def)

section \<open>Where \<open>realloc\<close> loses the list\<close>

lemma sint_small: "unat (w :: 64 word) < 2 ^ 62 \<Longrightarrow> sint w = uint w"
proof -
  assume "unat w < 2 ^ 62"
  then have "int (unat w) < int (2 ^ 62)" by (simp only: of_nat_less_iff)
  then have "uint w < 2 ^ 62" by simp
  then show "sint w = uint w"
    using signed_take_bit_int_eq_self [of 63 "uint w"] order_trans [OF _ uint_ge_0, of "- (2 ^ 63)" w] by (simp add: sint_uint)
qed

lemma realloc_count:
  assumes ok: "limiter_ok s (xs @ e # ys)" and n: "unat n < 2 ^ 61"
    and fit: "xi_memory_limiter_will_allocation_fit s ty (of_int (max (sint (n + 176 - entry_size (lentries s e))) 0)) = XI_STATE_OK"
  shows "memory_allocated s + of_int (sint (n + 176 - entry_size (lentries s e)))
      = memory_allocated s - entry_size (lentries s e) + (n + 176)"
    "unat (memory_allocated s - entry_size (lentries s e) + (n + 176)) < 2 ^ 31" "unat (n + 176) = unat n + 176"
    "n + 176 \<le> memory_allocated s - entry_size (lentries s e) + (n + 176)"
proof -
  let ?z = "entry_size (lentries s e)" and ?m = "memory_allocated s"
  have real: "unat (n + 176) = unat n + 176" using n by (simp add: unat_word_ariths)
  then show "unat (n + 176) = unat n + 176" .
  have small: "unat ?m < 2 ^ 31" "?z \<le> ?m" using unat_limits(2) [OF ok, of 0] ok by (simp_all add: limiter_ok_def word_le_nat_alt)
  then have z: "unat ?z < 2 ^ 31" "unat (?m - ?z) = unat ?m - unat ?z" by (simp_all add: word_le_nat_alt unat_sub)
  show "?m + of_int (sint (n + 176 - ?z)) = ?m - ?z + (n + 176)" by simp
  have sum: "unat (?m - ?z + (n + 176)) = unat ?m - unat ?z + (unat n + 176)"
    using z small real n by (simp add: unat_word_ariths)
  show "n + 176 \<le> ?m - ?z + (n + 176)" using sum real by (simp add: word_le_nat_alt)
  show "unat (?m - ?z + (n + 176)) < 2 ^ 31"
  proof (cases "unat n + 176 < unat ?z")
    case True
    then show ?thesis using sum small by (simp add: word_le_nat_alt)
  next
    case False
    have u: "unat (n + 176 - ?z) = unat n + 176 - unat ?z" using False real by (simp add: unat_sub word_le_nat_alt)
    then have "unat (n + 176 - ?z) < 2 ^ 62" using n by simp
    then have "sint (n + 176 - ?z) = uint (n + 176 - ?z)" by (rule sint_small)
    then have "of_int (max (sint (n + 176 - ?z)) 0) = n + 176 - ?z" by (simp add: max_def)
    then have "?m + (n + 176 - ?z) \<le> total_limit s"
      using fit ok by (auto simp: xi_memory_limiter_will_allocation_fit_def limiter_ok_def split: if_splits)
    then show ?thesis using ok by (simp add: limiter_ok_def word_le_nat_alt algebra_simps)
  qed
qed

lemma small_difference:
  assumes "a < 2 ^ 31" "b < (2 :: nat) ^ 31"
  shows "- (2 ^ 31) \<le> int a - int b" "int a - int b < 2 ^ 31"
  using assms by simp_all

lemma platform_realloc_granted:
  assumes m: "mem_ok (lmem t)" "alloc_script (lmem t) = []" and k: "k \<le> 2 ^ 62" and e: "e \<in> live_blocks (lmem t)" "e \<notin> set ps"
    and ps: "set ps \<subseteq> live_blocks (lmem t)"
  obtains q u where "platform_realloc stays e k t = (q, u)" "q \<noteq> NULL" "q \<in> live_blocks (lmem u)" "q \<notin> set ps"
    "set ps \<subseteq> live_blocks (lmem u)" "mem_ok (lmem u)" "alloc_script (lmem u) = []" "lentries u q = lentries t e"
    "\<forall>p \<in> set ps. lentries u p = lentries t p" "entry_list_head u = entry_list_head t" "memory_allocated u = memory_allocated t"
proof -
  let ?q = "next_block (lmem t)"
  obtain m where a: "xi_alloc k (lmem t) = (?q, m)" using assms(2,3) by (auto simp: xi_alloc_def PTRDIFF_MAX_def)
  have q: "?q \<noteq> NULL" "?q \<notin> live_blocks (lmem t)" "live_blocks m = insert ?q (live_blocks (lmem t))" "mem_ok m" "alloc_script m = []"
    using a assms(1,2) xi_alloc_mem_ok [OF a] by (auto simp: xi_alloc_def mem_ok_def split: if_splits)
  have e': "e \<noteq> NULL" "e \<noteq> ?q" "?q \<notin> set ps" using e(1) m(1) q(2) ps by (auto simp: mem_ok_def)
  then have ps': "\<forall>p \<in> set ps. p \<noteq> ?q \<and> p \<noteq> e \<and> p \<in> live_blocks (lmem t)" using e(2) ps by auto
  show thesis
  proof (cases stays)
    case True
    then show thesis using that [of e "t\<lparr>lmem := xi_free ?q m\<rparr>"] a q e e' ps by (auto simp: platform_realloc_def)
  next
    case False
    then show thesis
      using that [of ?q "t\<lparr>lmem := xi_free e m, lentries := (lentries t)(?q := lentries t e)\<rparr>"] a q e e' ps'
      by (simp add: platform_realloc_def subset_iff)
  qed
qed

text \<open>
  C36: \<open>realloc\<close> breaks the list. When a block that is not the newest one is resized, and then freed,
  its entry keeps the old \<open>prev\<close> link at the front of the list, so that \<open>free\<close> leaves the head of the
  list pointing to the freed block. The next allocation that fits writes to that block: it has no
  result.
\<close>
theorem limiter_realloc_breaks_list:
  assumes ok: "limiter_ok s (xs @ e # ys)" "xs \<noteq> []" and ty: "ty \<noteq> XI_MEMORY_LIMITER_ALLOCATION_TYPE_COUNT"
    and n: "unat n < 2 ^ 61" and m: "alloc_script (lmem s) = []"
    and fit: "xi_memory_limiter_will_allocation_fit s ty (of_int (max (sint (n + 176 - entry_size (lentries s e))) 0)) = XI_STATE_OK"
  shows "\<exists>q s1 s2. xi_memory_limiter_realloc stays ty (get_ptr_from_entry e) n s = Some (get_ptr_from_entry q, s1)
    \<and> xi_memory_limiter_free (get_ptr_from_entry q) s1 = Some s2
    \<and> entry_list_head s2 = q \<and> q \<notin> live_blocks (lmem s2)
    \<and> (\<forall>ty k. ty \<noteq> XI_MEMORY_LIMITER_ALLOCATION_TYPE_COUNT \<and> unat k < 2 ^ 61
         \<and> xi_memory_limiter_will_allocation_fit s2 ty (k + 176) = XI_STATE_OK \<longrightarrow> xi_memory_limiter_alloc ty k s2 = None)"
proof -
  let ?ps = "xs @ ys" and ?r = "n + 176" and ?z = "entry_size (lentries s e)"
  have d: "dseg (lentries s) NULL (entry_list_head s) (xs @ e # ys) NULL" "distinct (xs @ e # ys)"
    "set (xs @ e # ys) \<subseteq> live_blocks (lmem s)" "mem_ok (lmem s)" using ok(1) by (simp_all add: limiter_ok_def)
  note nn = dseg_not_NULL [OF d(1)]
  have b: "entry_prev (lentries s e) = last xs" "last xs \<in> set xs" using d(1) ok(2) by (auto simp: dseg_append before_def)
  note cnt = realloc_count [OF ok(1) n fit]
  obtain t where t: "unlink_entry e s = Some t" "same_limiter s t" "dseg (lentries t) NULL (entry_list_head t) ?ps NULL"
    "lentries t e = lentries s e" using unlink_entry_spec [OF d(1-3)] by blast
  have lt: "lmem t = lmem s" "memory_allocated t = memory_allocated s" using t(2) by (simp_all add: same_limiter_def)
  have pr: "mem_ok (lmem t)" "alloc_script (lmem t) = []" "unat ?r \<le> 2 ^ 62" "e \<in> live_blocks (lmem t)" "e \<notin> set ?ps"
    "set ?ps \<subseteq> live_blocks (lmem t)"
    using d m lt(1) cnt(3) n by auto
  obtain q u where u: "platform_realloc stays e (unat ?r) t = (q, u)" "q \<noteq> NULL" "q \<in> live_blocks (lmem u)" "q \<notin> set ?ps"
    "set ?ps \<subseteq> live_blocks (lmem u)" "mem_ok (lmem u)" "alloc_script (lmem u) = []" "lentries u q = lentries t e"
    "\<forall>p \<in> set ?ps. lentries u p = lentries t p" "entry_list_head u = entry_list_head t" "memory_allocated u = memory_allocated t"
    by (rule platform_realloc_granted [OF pr])
  obtain h hs where xs: "xs = h # hs" using ok(2) by (cases xs) auto
  have h: "entry_list_head u = h" "h \<noteq> NULL" "h \<in> live_blocks (lmem u)" "h \<noteq> q" using t(3) u(4,5,10) xs by auto
  let ?es = "(lentries u)(q := (lentries u q)\<lparr>entry_next := h\<rparr>)"
  let ?fs = "?es(h := (?es h)\<lparr>entry_prev := q\<rparr>)"
  let ?gs = "?fs(q := (?fs q)\<lparr>entry_size := ?r\<rparr>)"
  define s1 where "s1 = u\<lparr>lentries := ?gs, entry_list_head := q, memory_allocated := memory_allocated s - ?z + ?r\<rparr>"
  have e: "e \<noteq> NULL" "e \<in> live_blocks (lmem s)" "get_entry_from_ptr (get_ptr_from_entry e) = e" "get_ptr_from_entry e \<noteq> NULL"
    using nn d(3) by (auto simp: get_entry_from_ptr_def get_ptr_from_entry_def)
  have "sizeof_limiter_entry \<le> ?r" using cnt(3) by (simp add: sizeof_limiter_entry_def word_le_nat_alt)
  then have r: "xi_memory_limiter_realloc stays ty (get_ptr_from_entry e) n s = Some (get_ptr_from_entry q, s1)"
    using ty e t(1) u(1,2,3,11) h fit lt(2) cnt(1)
    by (simp add: xi_memory_limiter_realloc_def deref_entry_def link_entry_def set_entry_live sizeof_limiter_entry_def s1_def Let_def)
  have lx: "last xs \<noteq> q" "last xs \<noteq> NULL" using b(2) nn u(4) by (metis Un_iff set_append, metis Un_iff set_append)
  have q1: "lentries s1 q = \<lparr>entry_next = h, entry_prev = last xs, entry_size = ?r\<rparr>" "last xs \<noteq> q" "last xs \<noteq> NULL"
    "last xs \<in> live_blocks (lmem u)"
    using lx u(5,8) t(4) b h(4) by (auto simp: s1_def)
  have qq: "get_entry_from_ptr (get_ptr_from_entry q) = q" "get_ptr_from_entry q \<noteq> NULL"
    by (simp_all add: get_entry_from_ptr_def get_ptr_from_entry_def)
  have fnd: "limiter_find q s1 q = Some q" using u(2) by (simp add: limiter_find.simps)
  have le: "?r \<le> memory_allocated s1" using cnt(4) by (simp add: s1_def)
  have c: "unat (memory_allocated s1) < 2 ^ 31" "unat ?r < 2 ^ 31"
    using cnt(2) le by (simp_all add: s1_def word_le_nat_alt)
  let ?ds = "(lentries s1)(last xs := (lentries s1 (last xs))\<lparr>entry_next := h\<rparr>)"
  let ?ks = "?ds(h := (?ds h)\<lparr>entry_prev := last xs\<rparr>)"
  let ?d = "int_of_size (memory_allocated s1) - int_of_size ?r"
  define s2 where "s2 = s1\<lparr>lentries := ?ks, lmem := xi_free q (lmem u), memory_allocated := of_int (max ?d 0)\<rparr>"
  have un: "unlink_entry q s1 = Some (s1\<lparr>lentries := ?ks\<rparr>)"
    using q1 u(2,3) h(2,3) by (simp add: unlink_entry_def deref_entry_def set_entry_live s1_def)
  have lm: "lmem s1 = lmem u" "entry_list_head s1 = q" by (simp_all add: s1_def)
  have "?d = int (unat (memory_allocated s1)) - int (unat ?r)" using c by (simp add: int_of_size_small)
  then have "- (2 ^ 31) \<le> ?d" "?d < 2 ^ 31" using small_difference [OF c] by simp_all
  then have f: "xi_memory_limiter_free (get_ptr_from_entry q) s1 = Some s2"
    using qq u(2,3) q1(1) le fnd un lm
    by (simp add: xi_memory_limiter_free_def deref_entry_def xi_memory_limiter_get_allocated_space_def s2_def Let_def)
  have s2: "entry_list_head s2 = q" "lmem s2 = xi_free q (lmem u)" by (simp_all add: s2_def s1_def)
  have "xi_memory_limiter_alloc ty' k s2 = None"
    if k: "ty' \<noteq> XI_MEMORY_LIMITER_ALLOCATION_TYPE_COUNT" "unat k < 2 ^ 61"
      "xi_memory_limiter_will_allocation_fit s2 ty' (k + 176) = XI_STATE_OK" for ty' k
  proof -
    have "unat (k + 176) = unat k + 176" using k(2) by (simp add: unat_word_ariths)
    then obtain m' where a: "xi_alloc (unat (k + 176)) (lmem s2) = (next_block (lmem u), m')" "live_blocks m' = insert (next_block (lmem u)) (live_blocks (lmem u) - {q})"
      using u(2,7) s2(2) k(2) by (auto simp: xi_alloc_def PTRDIFF_MAX_def)
    have "next_block (lmem u) \<noteq> NULL" "next_block (lmem u) \<noteq> q" using u(3,6) by (auto simp: mem_ok_def)
    then show ?thesis
      using k a u(2) s2(1)
      by (auto simp: xi_memory_limiter_alloc_def sizeof_limiter_entry_def set_entry_def deref_entry_def link_entry_def xi_assert_def
          split: bind_splits if_splits)
  qed
  then show ?thesis using r f s2 u(2) by (intro exI [of _ q] exI [of _ s1] exI [of _ s2]) simp
qed

theorem limiter_realloc_breaks_list_witness:
  "\<exists>q s1 s2. xi_memory_limiter_realloc True XI_MEMORY_LIMITER_ALLOCATION_TYPE_APPLICATION (get_ptr_from_entry 1) 30 (limiter_example [])
        = Some (get_ptr_from_entry q, s1)
     \<and> xi_memory_limiter_free (get_ptr_from_entry q) s1 = Some s2 \<and> entry_list_head s2 \<notin> live_blocks (lmem s2)"
  using limiter_realloc_breaks_list [of "limiter_example []" "[2]" 1 "[]" XI_MEMORY_LIMITER_ALLOCATION_TYPE_APPLICATION 30 True]
    limiter_example_ok [of "[]"]
  by (auto simp: limiter_example_def initial_limiter_def xi_memory_limiter_will_allocation_fit_def
      XI_MEMORY_LIMITER_APPLICATION_MEMORY_LIMIT_def)

text \<open>
  a \<open>realloc\<close> that the platform refuses loses the block. The entry has been taken out of the
  list before the platform is asked; the caller gets \<open>NULL\<close> and still owns the old block, but
  freeing it fails the assertion that it is in the list, and the collection of leaks does not see it.
\<close>
lemma limiter_refused_realloc_loses_block:
  assumes ok: "limiter_ok s (xs @ e # ys)" and ty: "ty \<noteq> XI_MEMORY_LIMITER_ALLOCATION_TYPE_COUNT"
    and m: "alloc_script (lmem s) = [False]"
    and fit: "xi_memory_limiter_will_allocation_fit s ty (of_int (max (sint (n + 176 - entry_size (lentries s e))) 0)) = XI_STATE_OK"
  shows "\<exists>s'. xi_memory_limiter_realloc stays ty (get_ptr_from_entry e) n s = Some (NULL, s') \<and> e \<in> live_blocks (lmem s')
    \<and> xi_memory_limiter_free (get_ptr_from_entry e) s' = None \<and> xi_memory_limiter_visit_memory_leaks s' = Some (xs @ ys)"
proof -
  have d: "dseg (lentries s) NULL (entry_list_head s) (xs @ e # ys) NULL" "distinct (xs @ e # ys)"
    "set (xs @ e # ys) \<subseteq> live_blocks (lmem s)" "mem_ok (lmem s)" using ok by (simp_all add: limiter_ok_def)
  obtain t where t: "unlink_entry e s = Some t" "same_limiter s t" "dseg (lentries t) NULL (entry_list_head t) (xs @ ys) NULL"
    "lentries t e = lentries s e" using unlink_entry_spec [OF d(1-3)] by blast
  have lt: "lmem t = lmem s" using t(2) by (simp add: same_limiter_def)
  obtain m' where a: "xi_alloc (unat (n + 176)) (lmem t) = (NULL, m')" "live_blocks m' = live_blocks (lmem s)"
    using m lt by (cases "PTRDIFF_MAX < unat (n + 176)") (auto simp: xi_alloc_def)
  have e: "e \<noteq> NULL" "e \<in> live_blocks (lmem s)" "get_entry_from_ptr (get_ptr_from_entry e) = e" "get_ptr_from_entry e \<noteq> NULL" "e \<notin> set (xs @ ys)"
    using dseg_not_NULL [OF d(1)] d(2,3) by (auto simp: get_entry_from_ptr_def get_ptr_from_entry_def)
  let ?s = "t\<lparr>lmem := m'\<rparr>"
  have r: "xi_memory_limiter_realloc stays ty (get_ptr_from_entry e) n s = Some (NULL, ?s)"
    using ty e t(1) fit a(1)
    by (simp add: xi_memory_limiter_realloc_def deref_entry_def platform_realloc_def sizeof_limiter_entry_def Let_def)
  have l: "set (xs @ ys) \<subseteq> live_blocks (lmem ?s)" using a(2) d(3) by auto
  have f: "limiter_find e ?s (entry_list_head ?s) = Some NULL"
    using find_spec [of ?s NULL "entry_list_head t" "xs @ ys" e] t(3) l e(5) by simp
  then have "xi_memory_limiter_free (get_ptr_from_entry e) ?s = None"
    using e by (auto simp: xi_memory_limiter_free_def deref_entry_def xi_assert_def split: bind_splits)
  moreover have "xi_memory_limiter_visit_memory_leaks ?s = Some (xs @ ys)"
  proof (cases "xs @ ys")
    case Nil
    then show ?thesis using t(3) by (simp add: xi_memory_limiter_visit_memory_leaks_def)
  next
    case (Cons p ps)
    then show ?thesis using visit_spec [of ?s NULL "entry_list_head t" "xs @ ys"] t(3) l by (auto simp: xi_memory_limiter_visit_memory_leaks_def)
  qed
  ultimately show ?thesis using r e(2) a(2) by (intro exI [of _ ?s]) simp
qed

end
