(* ===== verification/Xi_Control_Message.thy ===== *)
theory Xi_Control_Message
  imports Xi_Event_Dispatcher Xi_Helpers
begin

text \<open>
  \<open>src/libxively/control_topic/xi_control_message.c\<close> and the constructors of
  \<open>src/libxively/sft/xi_control_message_sft.c\<close>: the messages that the client and the service exchange
  on the control topic, and the state that secure file transfer works on. A string is its address
  with the bytes of its object, \<open>None\<close> is \<open>NULL\<close>; a message is a block of the heap
  \<open>control_messages\<close>, the list of files it points to is a block of the heap \<open>file_descs\<close>, so that
  pointers to a message or to an element of its list can dangle.
\<close>

section \<open>Messages\<close>

type_synonym c_str = "(addr \<times> byte list) option"

datatype xi_control_message__sft_file_status_phase =
  XI_CONTROL_MESSAGE__SFT_FILE_STATUS_PHASE_DOWNLOADING
| XI_CONTROL_MESSAGE__SFT_FILE_STATUS_PHASE_DOWNLOADED
| XI_CONTROL_MESSAGE__SFT_FILE_STATUS_PHASE_PROCESSING
| XI_CONTROL_MESSAGE__SFT_FILE_STATUS_PHASE_FINISHED

datatype xi_control_message__sft_file_status_code =
  XI_CONTROL_MESSAGE__SFT_FILE_STATUS_CODE_ERROR__ADD_MORE_ERRORS_HERE
| XI_CONTROL_MESSAGE__SFT_FILE_STATUS_CODE_ERROR__URLDL_UNEXPECTED_FILE_NAME
| XI_CONTROL_MESSAGE__SFT_FILE_STATUS_CODE_ERROR__URLDL_FAILED
| XI_CONTROL_MESSAGE__SFT_FILE_STATUS_CODE_ERROR__URLDL_REJECTED
| XI_CONTROL_MESSAGE__SFT_FILE_STATUS_CODE_ERROR__FILE_CHECKSUM_MISMATCH
| XI_CONTROL_MESSAGE__SFT_FILE_STATUS_CODE_ERROR__FILE_CLOSE
| XI_CONTROL_MESSAGE__SFT_FILE_STATUS_CODE_ERROR__FILE_WRITE
| XI_CONTROL_MESSAGE__SFT_FILE_STATUS_CODE_ERROR__FILE_OPEN
| XI_CONTROL_MESSAGE__SFT_FILE_STATUS_CODE_ERROR__UNEXPECTED_FILE_CHUNK
| XI_CONTROL_MESSAGE__SFT_FILE_STATUS_CODE_SUCCESS

record xi_control_message_file_desc =
  desc_name :: c_str
  desc_revision :: c_str

record xi_control_message_file_desc_ext =
  file_name :: c_str
  file_revision :: c_str
  file_operation :: "8 word"
  size_in_bytes :: "32 word"
  fingerprint :: c_str
  fingerprint_len :: "16 word"
  download_link :: c_str
  flag_mqtt_download_also_supported :: "8 word"

text \<open>The union with its tag; the version is 1 in every message the client makes.\<close>

datatype xi_control_message =
  XI_CONTROL_MESSAGE_CS__SFT_FILE_INFO
    (info_list_len: "16 word") (info_list: "(addr \<times> xi_control_message_file_desc list) option")
    (flag_accept_download_link: "8 word")
| XI_CONTROL_MESSAGE_SC__SFT_FILE_UPDATE_AVAILABLE (list_len: "16 word") (list: addr)
| XI_CONTROL_MESSAGE_CS__SFT_FILE_GET_CHUNK
    (get_chunk_name: c_str) (get_chunk_revision: c_str) (get_chunk_offset: "32 word") (get_chunk_length: "32 word")
| XI_CONTROL_MESSAGE_SC__SFT_FILE_CHUNK
    (chunk_name: c_str) (chunk_revision: c_str) (chunk_offset: "32 word") (chunk_length: "32 word")
    (chunk_status: "8 word") (chunk: c_str)
| XI_CONTROL_MESSAGE_CS__SFT_FILE_STATUS
    (status_name: c_str) (status_revision: c_str) (status_phase: xi_control_message__sft_file_status_phase)
    (status_code: xi_control_message__sft_file_status_code)
| XI_CONTROL_MESSAGE_COUNT

definition sizeof_xi_control_message :: nat where "sizeof_xi_control_message = 48"
definition sizeof_xi_control_message_file_desc :: nat where "sizeof_xi_control_message_file_desc = 16"

text \<open>What the receiver of a message the client sends reads in it.\<close>

datatype control_message_view =
  File_Info "(byte list option \<times> byte list option) list" "8 word"
| Get_Chunk "byte list option" "byte list option" "32 word" "32 word"
| File_Status "byte list option" "byte list option" xi_control_message__sft_file_status_phase
    xi_control_message__sft_file_status_code
| Other_Message

definition view_message :: "xi_control_message \<Rightarrow> control_message_view" where
  "view_message msg = (case msg of
     XI_CONTROL_MESSAGE_CS__SFT_FILE_INFO n fs flag \<Rightarrow>
       File_Info (map (\<lambda>f. (map_option snd (desc_name f), map_option snd (desc_revision f)))
         (take (unat n) (case fs of None \<Rightarrow> [] | Some (_, ds) \<Rightarrow> ds))) flag
   | XI_CONTROL_MESSAGE_CS__SFT_FILE_GET_CHUNK nm rv off len \<Rightarrow>
       Get_Chunk (map_option snd nm) (map_option snd rv) off len
   | XI_CONTROL_MESSAGE_CS__SFT_FILE_STATUS nm rv ph code \<Rightarrow> File_Status (map_option snd nm) (map_option snd rv) ph code
   | _ \<Rightarrow> Other_Message)"

section \<open>State\<close>

text \<open>
  Pointers into a list of files are the block of the list with an index. The fields of the context
  that are callbacks are \<open>True\<close> where the callback is not \<open>NULL\<close>; \<open>updateable_files\<close> belongs to the
  application.
\<close>

record xi_sft_context =
  fn_send_message :: bool
  updateable_files :: "byte list option list option"
  updateable_files_count :: "16 word"
  updateable_files_download_order :: "(addr \<times> int list) option"
  update_message_fua :: addr
  update_current_file :: "(addr \<times> nat) option"
  update_firmware :: "(addr \<times> nat) option"
  update_file_handle :: int
  sft_url_handler_callback :: bool
  checksum_context :: nat

datatype 'f sft_fn = On_File_Downloaded_Task | Other_Sft_Fn 'f

text \<open>
  The dispatcher, extended by the context (at \<open>sft_block\<close>), the heaps, the world outside of the
  program, the strings of the application that are handed over by pointer, and what has been sent.
\<close>

record ('f, 'w) xi_sft = "'f sft_fn xi_evtd_instance" +
  sft_block :: addr
  sft :: xi_sft_context
  control_messages :: "addr \<Rightarrow> xi_control_message"
  file_descs :: "addr \<Rightarrow> xi_control_message_file_desc_ext list"
  sft_world :: 'w
  app_strings :: "addr \<Rightarrow> byte list option"
  sent_messages :: "control_message_view list"

definition deref_control_message :: "('f, 'w, 'z) xi_sft_scheme \<Rightarrow> addr \<Rightarrow> xi_control_message option" where
  "deref_control_message s p = (if p \<in> live_blocks (tmem s) then Some (control_messages s p) else None)"

definition deref_file :: "('f, 'w, 'z) xi_sft_scheme \<Rightarrow> addr \<times> nat \<Rightarrow> xi_control_message_file_desc_ext option" where
  "deref_file s f =
     (if fst f \<in> live_blocks (tmem s) \<and> snd f < length (file_descs s (fst f)) then Some (file_descs s (fst f) ! snd f) else None)"

definition deref_context :: "('f, 'w, 'z) xi_sft_scheme \<Rightarrow> addr \<Rightarrow> xi_sft_context option" where
  "deref_context s p = (if p = sft_block s \<and> p \<in> live_blocks (tmem s) then Some (sft s) else None)"

definition set_sft :: "(xi_sft_context \<Rightarrow> xi_sft_context) \<Rightarrow> ('f, 'w, 'z) xi_sft_scheme \<Rightarrow> ('f, 'w, 'z) xi_sft_scheme" where
  "set_sft f s = s\<lparr>sft := f (sft s)\<rparr>"

definition set_sft_mem :: "(xi_memory \<Rightarrow> xi_memory) \<Rightarrow> ('f, 'w, 'z) xi_sft_scheme \<Rightarrow> ('f, 'w, 'z) xi_sft_scheme" where
  "set_sft_mem f s = s\<lparr>tmem := f (tmem s)\<rparr>"

section \<open>Disposal\<close>

definition free_c_str :: "c_str \<Rightarrow> xi_memory \<Rightarrow> xi_memory" where
  "free_c_str p m = (case p of None \<Rightarrow> m | Some (a, _) \<Rightarrow> xi_free a m)"

definition free_file_desc :: "xi_control_message_file_desc \<Rightarrow> xi_memory \<Rightarrow> xi_memory" where
  "free_file_desc d m = free_c_str (desc_revision d) (free_c_str (desc_name d) m)"

definition free_file_desc_ext :: "xi_control_message_file_desc_ext \<Rightarrow> xi_memory \<Rightarrow> xi_memory" where
  "free_file_desc_ext d m =
     free_c_str (download_link d) (free_c_str (fingerprint d) (free_c_str (file_revision d) (free_c_str (file_name d) m)))"

text \<open>The first \<open>n\<close> elements of a list of \<open>n\<close> or more; a shorter one is read out of its bounds.\<close>

definition first_n :: "nat \<Rightarrow> 'a list \<Rightarrow> 'a list option" where
  "first_n n xs = (if n \<le> length xs then Some (take n xs) else None)"

definition xi_control_message_free :: "addr \<Rightarrow> ('f, 'w, 'z) xi_sft_scheme \<Rightarrow> ('f, 'w, 'z) xi_sft_scheme option" where
  "xi_control_message_free control_message s =
     (if control_message = NULL then Some s
      else do {
        msg \<leftarrow> deref_control_message s control_message;
        s1 \<leftarrow> (case msg of
           XI_CONTROL_MESSAGE_CS__SFT_FILE_INFO n fs _ \<Rightarrow> (case fs of
             None \<Rightarrow> if n = 0 then Some s else None
           | Some (a, ds) \<Rightarrow> do {
               ds \<leftarrow> first_n (unat n) ds;
               Some (set_sft_mem (\<lambda>m. xi_free a (fold free_file_desc ds m)) s) })
         | XI_CONTROL_MESSAGE_SC__SFT_FILE_UPDATE_AVAILABLE n a \<Rightarrow>
             if n = 0 then Some (set_sft_mem (xi_free a) s)
             else do {
               xi_assert (a \<in> live_blocks (tmem s));
               ds \<leftarrow> first_n (unat n) (file_descs s a);
               Some (set_sft_mem (\<lambda>m. xi_free a (fold free_file_desc_ext ds m)) s) }
         | XI_CONTROL_MESSAGE_CS__SFT_FILE_GET_CHUNK nm rv _ _ \<Rightarrow>
             Some (set_sft_mem (\<lambda>m. free_c_str rv (free_c_str nm m)) s)
         | XI_CONTROL_MESSAGE_SC__SFT_FILE_CHUNK nm rv _ _ _ ch \<Rightarrow>
             Some (set_sft_mem (\<lambda>m. free_c_str ch (free_c_str rv (free_c_str nm m))) s)
         | XI_CONTROL_MESSAGE_CS__SFT_FILE_STATUS nm rv _ _ \<Rightarrow>
             Some (set_sft_mem (\<lambda>m. free_c_str rv (free_c_str nm m)) s)
         | XI_CONTROL_MESSAGE_COUNT \<Rightarrow> Some s);
        Some (set_sft_mem (xi_free control_message) s1) })"

section \<open>Messages of the client\<close>

definition alloc_control_message ::
    "('f, 'w, 'z) xi_sft_scheme \<Rightarrow> addr \<times> ('f, 'w, 'z) xi_sft_scheme" where
  "alloc_control_message s = (let (p, m) = xi_alloc sizeof_xi_control_message (tmem s) in (p, s\<lparr>tmem := m\<rparr>))"

definition store_control_message :: "addr \<Rightarrow> xi_control_message \<Rightarrow> ('f, 'w, 'z) xi_sft_scheme \<Rightarrow> ('f, 'w, 'z) xi_sft_scheme" where
  "store_control_message p msg s = s\<lparr>control_messages := (control_messages s)(p := msg)\<rparr>"

text \<open>The copies that are made are not looked at: a failing one is a \<open>NULL\<close> string.\<close>

definition dup_name_and_revision ::
    "byte list \<Rightarrow> byte list \<Rightarrow> ('f, 'w, 'z) xi_sft_scheme \<Rightarrow> (c_str \<times> c_str \<times> ('f, 'w, 'z) xi_sft_scheme) option" where
  "dup_name_and_revision filename revision s = do {
     (nm, m1) \<leftarrow> xi_str_dup filename (tmem s);
     (rv, m2) \<leftarrow> xi_str_dup revision m1;
     Some (nm, rv, s\<lparr>tmem := m2\<rparr>) }"

definition xi_control_message_create_file_get_chunk ::
    "c_str \<Rightarrow> c_str \<Rightarrow> 32 word \<Rightarrow> 32 word \<Rightarrow> ('f, 'w, 'z) xi_sft_scheme
       \<Rightarrow> (addr \<times> ('f, 'w, 'z) xi_sft_scheme) option" where
  "xi_control_message_create_file_get_chunk filename revision offset len s = (case (filename, revision) of
     (Some (_, nm), Some (_, rv)) \<Rightarrow> do {
       let (p, s) = alloc_control_message s;
       if p = NULL then Some (NULL, s)
       else do {
         (nm', rv', s) \<leftarrow> dup_name_and_revision nm rv s;
         Some (p, store_control_message p (XI_CONTROL_MESSAGE_CS__SFT_FILE_GET_CHUNK nm' rv' offset len) s) } }
   | _ \<Rightarrow> Some (NULL, s))"

definition xi_control_message_create_file_status ::
    "c_str \<Rightarrow> c_str \<Rightarrow> xi_control_message__sft_file_status_phase \<Rightarrow> xi_control_message__sft_file_status_code
       \<Rightarrow> ('f, 'w, 'z) xi_sft_scheme \<Rightarrow> (addr \<times> ('f, 'w, 'z) xi_sft_scheme) option" where
  "xi_control_message_create_file_status filename revision phase code s = (case (filename, revision) of
     (Some (_, nm), Some (_, rv)) \<Rightarrow> do {
       let (p, s) = alloc_control_message s;
       if p = NULL then Some (NULL, s)
       else do {
         (nm', rv', s) \<leftarrow> dup_name_and_revision nm rv s;
         Some (p, store_control_message p (XI_CONTROL_MESSAGE_CS__SFT_FILE_STATUS nm' rv' phase code) s) } }
   | _ \<Rightarrow> Some (NULL, s))"

text \<open>
  What \<open>fn_send_message\<close> points to, for the code of this directory: the receiver (the control topic
  layer) reads the message and frees it.
\<close>

definition send_control_message :: "addr \<Rightarrow> ('f, 'w, 'z) xi_sft_scheme \<Rightarrow> ('f, 'w, 'z) xi_sft_scheme option" where
  "send_control_message p s =
     (if p = NULL then Some s
      else do {
        msg \<leftarrow> deref_control_message s p;
        xi_control_message_free p (s\<lparr>sent_messages := sent_messages s @ [view_message msg]\<rparr>) })"

end
