(* ===== verification/Xi_Sft_Revision.thy ===== *)
theory Xi_Sft_Revision
  imports Xi_Control_Message
begin

text \<open>
  \<open>src/libxively/sft/xi_sft_revision.c\<close>: the revision of a file is kept in a file of its own, and the
  revision of new firmware in a mailbox that the next run reads; and the message that tells the
  service which revisions there are. The file system and the firmware functions of the platform
  (\<open>include/bsp/xi_bsp_io_fs.h\<close>, \<open>include/bsp/xi_bsp_fwu.h\<close>) are the argument \<open>bsp\<close>, on a state
  \<open>'w\<close> of the world outside of the program.
\<close>

section \<open>The board support package\<close>

datatype xi_bsp_io_fs_state =
  XI_BSP_IO_FS_STATE_OK | XI_BSP_IO_FS_ERROR | XI_BSP_IO_FS_INVALID_PARAMETER | XI_BSP_IO_FS_RESOURCE_NOT_AVAILABLE
| XI_BSP_IO_FS_OUT_OF_MEMORY | XI_BSP_IO_FS_NOT_IMPLEMENTED | XI_BSP_IO_FS_OPEN_ERROR | XI_BSP_IO_FS_OPEN_READ_ONLY
| XI_BSP_IO_FS_REMOVE_ERROR | XI_BSP_IO_FS_WRITE_ERROR | XI_BSP_IO_FS_READ_ERROR | XI_BSP_IO_FS_CLOSE_ERROR

datatype xi_bsp_io_fs_open_flags = XI_BSP_IO_FS_OPEN_READ | XI_BSP_IO_FS_OPEN_WRITE | XI_BSP_IO_FS_OPEN_APPEND

definition XI_BSP_IO_FS_INVALID_RESOURCE_HANDLE :: int where "XI_BSP_IO_FS_INVALID_RESOURCE_HANDLE = -1"

text \<open>
  Names are the characters of the C string. \<open>fs_open\<close> is given the value of the handle and gives its
  new value; \<open>fwu_order\<close> fills in the array. A checksum context is a number, as the pointer is.
\<close>

record 'w bsp_sft =
  fs_open :: "byte list \<Rightarrow> nat \<Rightarrow> xi_bsp_io_fs_open_flags \<Rightarrow> int \<Rightarrow> 'w \<Rightarrow> xi_bsp_io_fs_state \<times> int \<times> 'w"
  fs_read :: "int \<Rightarrow> nat \<Rightarrow> 'w \<Rightarrow> xi_bsp_io_fs_state \<times> byte list \<times> 'w"
  fs_write :: "int \<Rightarrow> byte list \<Rightarrow> nat \<Rightarrow> 'w \<Rightarrow> xi_bsp_io_fs_state \<times> nat \<times> 'w"
  fs_close :: "int \<Rightarrow> 'w \<Rightarrow> xi_bsp_io_fs_state \<times> 'w"
  fs_remove :: "byte list \<Rightarrow> 'w \<Rightarrow> xi_bsp_io_fs_state \<times> 'w"
  fwu_is_this_firmware :: "byte list \<Rightarrow> 'w \<Rightarrow> 8 word \<times> 'w"
  fwu_on_new_firmware_ok :: "'w \<Rightarrow> bool \<times> 'w"
  fwu_on_new_firmware_failure :: "'w \<Rightarrow> 'w"
  fwu_on_package_download_failure :: "'w \<Rightarrow> 'w"
  fwu_on_package_download_finished :: "byte list option \<Rightarrow> 'w \<Rightarrow> 'w"
  fwu_order_resource_downloads :: "byte list option list \<Rightarrow> int list \<Rightarrow> 'w \<Rightarrow> (nat \<Rightarrow> int) \<times> 'w"
  fwu_checksum_init :: "'w \<Rightarrow> nat \<times> 'w"
  fwu_checksum_update :: "nat \<Rightarrow> byte list \<Rightarrow> 'w \<Rightarrow> 'w"
  fwu_checksum_final :: "nat \<Rightarrow> 'w \<Rightarrow> nat \<times> byte list \<times> 'w"
  url_handler :: "byte list \<Rightarrow> byte list option \<Rightarrow> byte list option \<Rightarrow> 16 word \<Rightarrow> 8 word \<Rightarrow> 'w \<Rightarrow> 8 word \<times> 'w"

definition xi_fs_bsp_io_fs_2_xi_state :: "xi_bsp_io_fs_state \<Rightarrow> xi_state" where
  "xi_fs_bsp_io_fs_2_xi_state bsp_state_value = (case bsp_state_value of
     XI_BSP_IO_FS_STATE_OK \<Rightarrow> XI_STATE_OK
   | XI_BSP_IO_FS_ERROR \<Rightarrow> XI_FS_ERROR
   | XI_BSP_IO_FS_INVALID_PARAMETER \<Rightarrow> XI_INVALID_PARAMETER
   | XI_BSP_IO_FS_RESOURCE_NOT_AVAILABLE \<Rightarrow> XI_FS_RESOURCE_NOT_AVAILABLE
   | XI_BSP_IO_FS_OUT_OF_MEMORY \<Rightarrow> XI_OUT_OF_MEMORY
   | _ \<Rightarrow> XI_INTERNAL_ERROR)"

text \<open>The characters of a C string.\<close>

definition c_chars :: "byte list \<Rightarrow> byte list option" where
  "c_chars s = (if 0 \<in> set s then Some (takeWhile (\<lambda>c. c \<noteq> 0) s) else None)"

definition chars_of :: "c_str \<Rightarrow> byte list option option" where
  "chars_of p = (case p of None \<Rightarrow> Some None | Some (_, s) \<Rightarrow> map_option Some (c_chars s))"

section \<open>Revision files\<close>

definition xirev :: "byte list" where "xirev = c_string [46, 120, 105, 114, 101, 118]"

definition XI_SFT_REVISION_RESOURCENAME :: "c_str \<Rightarrow> xi_memory \<Rightarrow> (c_str \<times> xi_memory) option" where
  "XI_SFT_REVISION_RESOURCENAME resource_name m = do { (_, s) \<leftarrow> resource_name; xi_str_cat s xirev m }"

definition xi_sft_revision_write_string_to_file ::
    "'w bsp_sft \<Rightarrow> c_str \<Rightarrow> c_str \<Rightarrow> 'w \<Rightarrow> (xi_state \<times> 'w) option" where
  "xi_sft_revision_write_string_to_file bsp resource_name string_to_write w = (case (resource_name, string_to_write) of
     (Some (_, nm), Some (_, str)) \<Rightarrow> do {
       nm \<leftarrow> c_chars nm;
       str \<leftarrow> c_chars str;
       let (r, resource_handle, w) =
         fs_open bsp nm (length str) XI_BSP_IO_FS_OPEN_WRITE XI_BSP_IO_FS_INVALID_RESOURCE_HANDLE w;
       if xi_fs_bsp_io_fs_2_xi_state r \<noteq> XI_STATE_OK then Some (xi_fs_bsp_io_fs_2_xi_state r, w)
       else do {
         let (r, _, w) = fs_write bsp resource_handle str 0 w;
         let (_, w) = fs_close bsp resource_handle w;
         Some (xi_fs_bsp_io_fs_2_xi_state r, w) } }
   | _ \<Rightarrow> Some (XI_INVALID_PARAMETER, w))"

definition xi_sft_revision_read_string_from_file ::
    "'w bsp_sft \<Rightarrow> c_str \<Rightarrow> xi_memory \<Rightarrow> 'w \<Rightarrow> (xi_state \<times> c_str \<times> xi_memory \<times> 'w) option" where
  "xi_sft_revision_read_string_from_file bsp resource_name m w = (case resource_name of
     None \<Rightarrow> Some (XI_INVALID_PARAMETER, None, m, w)
   | Some (_, nm) \<Rightarrow> do {
       nm \<leftarrow> c_chars nm;
       let (r, resource_handle, w) = fs_open bsp nm 0 XI_BSP_IO_FS_OPEN_READ XI_BSP_IO_FS_INVALID_RESOURCE_HANDLE w;
       if xi_fs_bsp_io_fs_2_xi_state r \<noteq> XI_STATE_OK
       then Some (xi_fs_bsp_io_fs_2_xi_state r, None, m, snd (fs_close bsp resource_handle w))
       else do {
         let (r, buffer, w) = fs_read bsp resource_handle 0 w;
         if xi_fs_bsp_io_fs_2_xi_state r \<noteq> XI_STATE_OK
         then Some (xi_fs_bsp_io_fs_2_xi_state r, None, m, snd (fs_close bsp resource_handle w))
         else do {
           let (p, m) = xi_alloc (length buffer + 1) m;
           let w = snd (fs_close bsp resource_handle w);
           if p = NULL then Some (XI_OUT_OF_MEMORY, None, m, w)
           else Some (XI_STATE_OK, Some (p, buffer @ [0]), m, w) } } })"

definition xi_sft_revision_set ::
    "'w bsp_sft \<Rightarrow> c_str \<Rightarrow> c_str \<Rightarrow> ('f, 'w, 'z) xi_sft_scheme \<Rightarrow> (xi_state \<times> ('f, 'w, 'z) xi_sft_scheme) option" where
  "xi_sft_revision_set bsp resource_name revision s = do {
     (resource_name_revision, m) \<leftarrow> XI_SFT_REVISION_RESOURCENAME resource_name (tmem s);
     (st, w) \<leftarrow> xi_sft_revision_write_string_to_file bsp resource_name_revision revision (sft_world s);
     Some (st, s\<lparr>tmem := free_c_str resource_name_revision m, sft_world := w\<rparr>) }"

definition xi_sft_revision_get ::
    "'w bsp_sft \<Rightarrow> c_str \<Rightarrow> ('f, 'w, 'z) xi_sft_scheme \<Rightarrow> (xi_state \<times> c_str \<times> ('f, 'w, 'z) xi_sft_scheme) option" where
  "xi_sft_revision_get bsp resource_name s = do {
     (resource_name_revision, m) \<leftarrow> XI_SFT_REVISION_RESOURCENAME resource_name (tmem s);
     (st, revision_out, m, w) \<leftarrow> xi_sft_revision_read_string_from_file bsp resource_name_revision m (sft_world s);
     Some (st, revision_out, s\<lparr>tmem := free_c_str resource_name_revision m, sft_world := w\<rparr>) }"

section \<open>The mailbox of new firmware\<close>

text \<open>\<open>firmware_update_revision.mailbox\<close>; a string constant has no block that is freed.\<close>

definition firmware_mailbox :: "byte list" where
  "firmware_mailbox = c_string (map of_char ''firmware_update_revision.mailbox'')"

definition xi_sft_revision_set_firmware_update ::
    "'w bsp_sft \<Rightarrow> c_str \<Rightarrow> c_str \<Rightarrow> ('f, 'w, 'z) xi_sft_scheme \<Rightarrow> (xi_state \<times> ('f, 'w, 'z) xi_sft_scheme) option" where
  "xi_sft_revision_set_firmware_update bsp xi_firmware_resource_name xi_firmware_revision s =
     (case (xi_firmware_resource_name, xi_firmware_revision) of
        (Some (_, nm), Some (_, rv)) \<Rightarrow> do {
          nm \<leftarrow> c_chars nm;
          rv \<leftarrow> c_chars rv;
          let (p, m) = xi_alloc (length nm + length rv + 2) (tmem s);
          if p = NULL then Some (XI_STATE_OK, s\<lparr>tmem := m\<rparr>)
          else do {
            (_, w) \<leftarrow> xi_sft_revision_write_string_to_file bsp (Some (NULL, firmware_mailbox))
              (Some (p, nm @ 10 # c_string rv)) (sft_world s);
            Some (XI_STATE_OK, s\<lparr>tmem := xi_free p m, sft_world := w\<rparr>) } }
      | _ \<Rightarrow> Some (XI_INVALID_PARAMETER, s))"

definition xi_sft_revision_firmware_ok ::
    "'w bsp_sft \<Rightarrow> ('f, 'w, 'z) xi_sft_scheme \<Rightarrow> (xi_state \<times> ('f, 'w, 'z) xi_sft_scheme) option" where
  "xi_sft_revision_firmware_ok bsp s = do {
     (st, data, m, w) \<leftarrow> xi_sft_revision_read_string_from_file bsp (Some (NULL, firmware_mailbox)) (tmem s) (sft_world s);
     let s = s\<lparr>tmem := m, sft_world := w\<rparr>;
     if st \<noteq> XI_STATE_OK then Some (st, s)
     else do {
       (p, bs) \<leftarrow> data;
       let k = length (takeWhile (\<lambda>c. c \<noteq> 10 \<and> c \<noteq> 0) bs);
       c \<leftarrow> arr_get bs (int k);
       s \<leftarrow> (if c = 10
             then map_option snd (xi_sft_revision_set bsp (Some (p, bs[k := 0])) (Some (p, drop (k + 1) bs)) s)
             else Some s);
       nm \<leftarrow> c_chars firmware_mailbox;
       let (_, w) = fs_remove bsp nm (sft_world s);
       Some (st, s\<lparr>sft_world := w, tmem := xi_free p (tmem s)\<rparr>) } }"

section \<open>Which revisions there are\<close>

definition XI_CONTROL_MESSAGE_SFT_GENERATED_REVISION :: "byte list" where
  "XI_CONTROL_MESSAGE_SFT_GENERATED_REVISION =
     c_string (map of_char ''revision is not available on the device, this is a generated revision 0'')"

fun make_file_descs ::
    "'w bsp_sft \<Rightarrow> byte list option list \<Rightarrow> nat \<Rightarrow> ('f, 'w, 'z) xi_sft_scheme
       \<Rightarrow> (xi_control_message_file_desc list \<times> ('f, 'w, 'z) xi_sft_scheme) option" where
  "make_file_descs bsp filenames 0 s = Some ([], s)"
| "make_file_descs bsp [] (Suc n) s = None"
| "make_file_descs bsp (f # filenames) (Suc n) s = do {
     nm \<leftarrow> f;
     (nm', m) \<leftarrow> xi_str_dup nm (tmem s);
     (st, revision, s) \<leftarrow> xi_sft_revision_get bsp (Some (NULL, nm)) (s\<lparr>tmem := m\<rparr>);
     (rv, s) \<leftarrow> (if st = XI_STATE_OK \<and> revision \<noteq> None then Some (revision, s)
       else do {
         (rv, m) \<leftarrow> xi_str_dup XI_CONTROL_MESSAGE_SFT_GENERATED_REVISION (tmem s);
         Some (rv, s\<lparr>tmem := m\<rparr>) });
     (ds, s) \<leftarrow> make_file_descs bsp filenames n s;
     Some (\<lparr>desc_name = nm', desc_revision = rv\<rparr> # ds, s) }"

definition xi_control_message_create_file_info ::
    "'w bsp_sft \<Rightarrow> byte list option list option \<Rightarrow> 16 word \<Rightarrow> 8 word \<Rightarrow> ('f, 'w, 'z) xi_sft_scheme
       \<Rightarrow> (addr \<times> ('f, 'w, 'z) xi_sft_scheme) option" where
  "xi_control_message_create_file_info bsp filenames n flag s = (case filenames of
     None \<Rightarrow> Some (NULL, s)
   | Some fs \<Rightarrow> do {
       f \<leftarrow> arr_get fs 0;
       if f = None \<or> n = 0 then Some (NULL, s)
       else do {
         let (p, s) = alloc_control_message s;
         if p = NULL then Some (NULL, s)
         else do {
           let (a, m) = xi_alloc (sizeof_xi_control_message_file_desc * unat n) (tmem s);
           let s = s\<lparr>tmem := m\<rparr>;
           if a = NULL
           then do {
             s \<leftarrow> xi_control_message_free p (store_control_message p (XI_CONTROL_MESSAGE_CS__SFT_FILE_INFO 0 None flag) s);
             Some (NULL, s) }
           else do {
             (ds, s) \<leftarrow> make_file_descs bsp fs (unat n) s;
             Some (p, store_control_message p (XI_CONTROL_MESSAGE_CS__SFT_FILE_INFO n (Some (a, ds)) flag) s) } } } })"

end
