(* ===== verification/Xi_Sft_Logic.thy ===== *)
theory Xi_Sft_Logic
  imports Xi_Sft_Revision
begin

text \<open>
  \<open>src/libxively/sft/xi_sft_logic.c\<close>, \<open>xi_sft_logic_internal_methods.c\<close>,
  \<open>xi_sft_logic_file_chunk_handlers.c\<close> and \<open>xi_sft_logic_application_callback.c\<close>: secure file
  transfer. The service announces a package of files; the client asks for them chunk by chunk (or has
  the application download them), writes the chunks to the file system, checks the fingerprint, notes
  the revision and goes on with the next file.
\<close>

definition sizeof_xi_sft_context :: nat where "sizeof_xi_sft_context = 88"

definition XI_SFT_FILE_CHUNK_SIZE :: "32 word" where "XI_SFT_FILE_CHUNK_SIZE = 1024"

text \<open>The bytes a function reads that is given a pointer and a length.\<close>

definition bytes_at :: "c_str \<Rightarrow> nat \<Rightarrow> byte list option" where
  "bytes_at p n = (case p of None \<Rightarrow> if n = 0 then Some [] else None | Some (_, bs) \<Rightarrow> first_n n bs)"

definition c_str_eq :: "byte list \<Rightarrow> byte list \<Rightarrow> bool option" where
  "c_str_eq a b = do { x \<leftarrow> c_chars a; y \<leftarrow> c_chars b; Some (x = y) }"

definition on_world :: "('w \<Rightarrow> 'w) \<Rightarrow> ('f, 'w, 'z) xi_sft_scheme \<Rightarrow> ('f, 'w, 'z) xi_sft_scheme" where
  "on_world f s = s\<lparr>sft_world := f (sft_world s)\<rparr>"

section \<open>Sending\<close>

definition xi_sft_send_file_status ::
    "(addr \<times> nat) option \<Rightarrow> xi_control_message__sft_file_status_phase \<Rightarrow> xi_control_message__sft_file_status_code
       \<Rightarrow> ('f, 'w, 'z) xi_sft_scheme \<Rightarrow> ('f, 'w, 'z) xi_sft_scheme option" where
  "xi_sft_send_file_status file_desc_ext phase code s =
     (if fn_send_message (sft s) \<and> (file_desc_ext \<noteq> None \<or> update_current_file (sft s) \<noteq> None)
      then do {
        f \<leftarrow> (case file_desc_ext of None \<Rightarrow> update_current_file (sft s) | Some f \<Rightarrow> Some f);
        d \<leftarrow> deref_file s f;
        (p, s) \<leftarrow> xi_control_message_create_file_status (file_name d) (file_revision d) phase code s;
        send_control_message p s }
      else Some s)"

definition xi_sft_send_file_get_chunk ::
    "32 word \<Rightarrow> 32 word \<Rightarrow> ('f, 'w, 'z) xi_sft_scheme \<Rightarrow> ('f, 'w, 'z) xi_sft_scheme option" where
  "xi_sft_send_file_get_chunk offset len s =
     (if fn_send_message (sft s) \<and> update_current_file (sft s) \<noteq> None
      then do {
        f \<leftarrow> update_current_file (sft s);
        d \<leftarrow> deref_file s f;
        (p, s) \<leftarrow> xi_control_message_create_file_get_chunk (file_name d) (file_revision d) offset
          (min XI_SFT_FILE_CHUNK_SIZE len) s;
        send_control_message p s }
      else Some s)"

section \<open>The files of a package\<close>

definition xi_sft_download_current_file ::
    "'w bsp_sft \<Rightarrow> ('f, 'w, 'z) xi_sft_scheme \<Rightarrow> ('f, 'w, 'z) xi_sft_scheme option" where
  "xi_sft_download_current_file bsp s = (case update_current_file (sft s) of
     None \<Rightarrow> Some s
   | Some f \<Rightarrow> do {
       d \<leftarrow> deref_file s f;
       (_, nm) \<leftarrow> file_name d;
       nm \<leftarrow> c_chars nm;
       let (is_firmware, w) = fwu_is_this_firmware bsp nm (sft_world s);
       let s = s\<lparr>sft_world := w\<rparr>;
       let s = (if is_firmware = 1 then set_sft (\<lambda>c. c\<lparr>update_firmware := Some f\<rparr>) s else s);
       (started, s) \<leftarrow>
         (case download_link d of
            Some (_, link) \<Rightarrow>
              if sft_url_handler_callback (sft s)
              then do {
                link \<leftarrow> c_chars link;
                let (started, w) = url_handler bsp link (Some nm) (map_option snd (fingerprint d)) (fingerprint_len d)
                  (flag_mqtt_download_also_supported d) (sft_world s);
                let s = s\<lparr>sft_world := w\<rparr>;
                if started = 0
                then do {
                  s \<leftarrow> xi_sft_send_file_status None XI_CONTROL_MESSAGE__SFT_FILE_STATUS_PHASE_DOWNLOADING
                    XI_CONTROL_MESSAGE__SFT_FILE_STATUS_CODE_ERROR__URLDL_REJECTED s;
                  Some (started, s) }
                else Some (started, s) }
              else Some (0, s)
          | None \<Rightarrow> Some (0, s));
       if started \<noteq> 0
       then xi_sft_send_file_status None XI_CONTROL_MESSAGE__SFT_FILE_STATUS_PHASE_DOWNLOADING
              XI_CONTROL_MESSAGE__SFT_FILE_STATUS_CODE_SUCCESS s
       else if download_link d = None \<or> flag_mqtt_download_also_supported d \<noteq> 0
       then xi_sft_send_file_get_chunk 0 (size_in_bytes d) s
       else Some s })"

definition xi_sft_current_file_revision_handling ::
    "'w bsp_sft \<Rightarrow> ('f, 'w, 'z) xi_sft_scheme \<Rightarrow> ('f, 'w, 'z) xi_sft_scheme option" where
  "xi_sft_current_file_revision_handling bsp s = (case update_current_file (sft s) of
     None \<Rightarrow> Some s
   | Some f \<Rightarrow>
       if update_firmware (sft s) \<noteq> Some f
       then do {
         s \<leftarrow> xi_sft_send_file_status None XI_CONTROL_MESSAGE__SFT_FILE_STATUS_PHASE_FINISHED
           XI_CONTROL_MESSAGE__SFT_FILE_STATUS_CODE_SUCCESS s;
         d \<leftarrow> deref_file s f;
         map_option snd (xi_sft_revision_set bsp (file_name d) (file_revision d) s) }
       else do {
         d \<leftarrow> deref_file s f;
         map_option snd (xi_sft_revision_set_firmware_update bsp (file_name d) (file_revision d) s) })"

text \<open>The search for the first index that is not \<open>-1\<close>; the array may be shorter than the list.\<close>

fun select_index :: "int list \<Rightarrow> nat \<Rightarrow> (int \<times> int list) option" where
  "select_index order 0 = Some (-1, order)"
| "select_index [] (Suc n) = None"
| "select_index (i # order) (Suc n) =
     (if 0 \<le> i then Some (i, -1 # order)
      else map_option (\<lambda>(j, order'). (j, i # order')) (select_index order n))"

definition xi_sft_select_next_resource_to_download ::
    "('f, 'w, 'z) xi_sft_scheme \<Rightarrow> (xi_state \<times> ('f, 'w, 'z) xi_sft_scheme) option" where
  "xi_sft_select_next_resource_to_download s = (case updateable_files_download_order (sft s) of
     None \<Rightarrow> Some (XI_INTERNAL_ERROR, s)
   | Some (a, order) \<Rightarrow>
       if update_message_fua (sft s) = NULL then Some (XI_STATE_OK, s)
       else do {
         msg \<leftarrow> deref_control_message s (update_message_fua (sft s));
         (case msg of
            XI_CONTROL_MESSAGE_SC__SFT_FILE_UPDATE_AVAILABLE n l \<Rightarrow>
              if n \<noteq> 0 \<and> l = NULL then Some (XI_STATE_OK, s)
              else do {
                (i, order) \<leftarrow> select_index order (unat n);
                Some (XI_STATE_OK, set_sft (\<lambda>c. c\<lparr>update_current_file := (if i = -1 then None else Some (l, nat i)),
                  updateable_files_download_order := Some (a, order)\<rparr>) s) }
          | _ \<Rightarrow> None) })"

definition xi_sft_continue_package_download ::
    "'w bsp_sft \<Rightarrow> ('f, 'w, 'z) xi_sft_scheme \<Rightarrow> ('f, 'w, 'z) xi_sft_scheme option" where
  "xi_sft_continue_package_download bsp s = do {
     (st, s) \<leftarrow> xi_sft_select_next_resource_to_download s;
     if st \<noteq> XI_STATE_OK then Some s
     else if update_current_file (sft s) \<noteq> None then xi_sft_download_current_file bsp s
     else do {
       s \<leftarrow> (case update_firmware (sft s) of
          None \<Rightarrow> Some s
        | Some f \<Rightarrow> xi_sft_send_file_status (Some f) XI_CONTROL_MESSAGE__SFT_FILE_STATUS_PHASE_PROCESSING
            XI_CONTROL_MESSAGE__SFT_FILE_STATUS_CODE_SUCCESS s);
       nm \<leftarrow> (case update_firmware (sft s) of None \<Rightarrow> Some None
          | Some f \<Rightarrow> do { d \<leftarrow> deref_file s f; chars_of (file_name d) });
       let s = on_world (fwu_on_package_download_finished bsp nm) s;
       s \<leftarrow> xi_control_message_free (update_message_fua (sft s)) s;
       Some (set_sft (\<lambda>c. c\<lparr>update_message_fua := NULL\<rparr>) s) } }"

definition free_order :: "('f, 'w, 'z) xi_sft_scheme \<Rightarrow> ('f, 'w, 'z) xi_sft_scheme" where
  "free_order s = (case updateable_files_download_order (sft s) of
     None \<Rightarrow> s
   | Some (a, _) \<Rightarrow> set_sft (\<lambda>c. c\<lparr>updateable_files_download_order := None\<rparr>) (set_sft_mem (xi_free a) s))"

definition xi_sft_order_resource_downloads ::
    "'w bsp_sft \<Rightarrow> ('f, 'w, 'z) xi_sft_scheme \<Rightarrow> (xi_state \<times> ('f, 'w, 'z) xi_sft_scheme) option" where
  "xi_sft_order_resource_downloads bsp s = do {
     msg \<leftarrow> deref_control_message s (update_message_fua (sft s));
     (n, l) \<leftarrow> (case msg of XI_CONTROL_MESSAGE_SC__SFT_FILE_UPDATE_AVAILABLE n l \<Rightarrow> Some (unat n, l) | _ \<Rightarrow> None);
     let (resource_names, m) = xi_alloc (8 * n) (tmem s);
     let s = s\<lparr>tmem := m\<rparr>;
     if resource_names = NULL then Some (XI_OUT_OF_MEMORY, free_order s)
     else do {
       let s = free_order s;
       let (a, m) = xi_alloc (4 * n) (tmem s);
       if a = NULL then Some (XI_OUT_OF_MEMORY, s\<lparr>tmem := xi_free resource_names m\<rparr>)
       else do {
         let s = s\<lparr>tmem := m\<rparr>;
         xi_assert (l \<in> live_blocks (tmem s));
         ds \<leftarrow> first_n n (file_descs s l);
         let (order, w) = fwu_order_resource_downloads bsp (map (\<lambda>d. map_option snd (file_name d)) ds)
           (map int [0..<n]) (sft_world s);
         let order = map order [0..<n];
         let s = s\<lparr>sft_world := w, tmem := xi_free resource_names (tmem s)\<rparr>;
         let s = set_sft (\<lambda>c. c\<lparr>updateable_files_download_order := Some (a, order)\<rparr>) s;
         if \<exists>i \<in> set order. 0 > i \<or> int n \<le> i then Some (XI_ELEMENT_NOT_FOUND, free_order s)
         else Some (XI_STATE_OK, s) } } }"

section \<open>Chunks\<close>

definition xi_sft_on_message_file_chunk_process_file_chunk ::
    "'w bsp_sft \<Rightarrow> c_str \<Rightarrow> 32 word \<Rightarrow> 32 word \<Rightarrow> c_str \<Rightarrow> ('f, 'w, 'z) xi_sft_scheme
       \<Rightarrow> (xi_control_message__sft_file_status_code \<times> ('f, 'w, 'z) xi_sft_scheme) option" where
  "xi_sft_on_message_file_chunk_process_file_chunk bsp nm offset len data s = do {
     (st, s) \<leftarrow>
       (if offset = 0
        then do {
          f \<leftarrow> update_current_file (sft s);
          d \<leftarrow> deref_file s f;
          (_, nm) \<leftarrow> nm;
          nm \<leftarrow> c_chars nm;
          let (r, h, w) = fs_open bsp nm (unat (size_in_bytes d)) XI_BSP_IO_FS_OPEN_WRITE (update_file_handle (sft s))
            (sft_world s);
          let s = set_sft (\<lambda>c. c\<lparr>update_file_handle := h\<rparr>) (s\<lparr>sft_world := w\<rparr>);
          if xi_fs_bsp_io_fs_2_xi_state r \<noteq> XI_STATE_OK
          then Some (XI_CONTROL_MESSAGE__SFT_FILE_STATUS_CODE_ERROR__FILE_OPEN, s)
          else do {
            let (k, w) = fwu_checksum_init bsp (sft_world s);
            Some (XI_CONTROL_MESSAGE__SFT_FILE_STATUS_CODE_SUCCESS,
              set_sft (\<lambda>c. c\<lparr>checksum_context := k\<rparr>) (s\<lparr>sft_world := w\<rparr>)) } }
        else Some (XI_CONTROL_MESSAGE__SFT_FILE_STATUS_CODE_SUCCESS, s));
     if st \<noteq> XI_CONTROL_MESSAGE__SFT_FILE_STATUS_CODE_SUCCESS then Some (st, s)
     else do {
       bs \<leftarrow> bytes_at data (unat len);
       let (r, _, w) = fs_write bsp (update_file_handle (sft s)) bs (unat offset) (sft_world s);
       let s = s\<lparr>sft_world := w\<rparr>;
       if xi_fs_bsp_io_fs_2_xi_state r \<noteq> XI_STATE_OK
       then Some (XI_CONTROL_MESSAGE__SFT_FILE_STATUS_CODE_ERROR__FILE_WRITE, s)
       else Some (XI_CONTROL_MESSAGE__SFT_FILE_STATUS_CODE_SUCCESS,
              on_world (fwu_checksum_update bsp (checksum_context (sft s)) bs) s) } }"

definition xi_sft_on_message_file_chunk_checksum_final ::
    "'w bsp_sft \<Rightarrow> ('f, 'w, 'z) xi_sft_scheme
       \<Rightarrow> (xi_control_message__sft_file_status_code \<times> ('f, 'w, 'z) xi_sft_scheme) option" where
  "xi_sft_on_message_file_chunk_checksum_final bsp s = (case update_current_file (sft s) of
     None \<Rightarrow> Some (XI_CONTROL_MESSAGE__SFT_FILE_STATUS_CODE_ERROR__FILE_CHECKSUM_MISMATCH, s)
   | Some f \<Rightarrow>
       if checksum_context (sft s) = NULL
       then Some (XI_CONTROL_MESSAGE__SFT_FILE_STATUS_CODE_ERROR__FILE_CHECKSUM_MISMATCH, s)
       else do {
         let (k, digest, w) = fwu_checksum_final bsp (checksum_context (sft s)) (sft_world s);
         let s = set_sft (\<lambda>c. c\<lparr>checksum_context := k\<rparr>) (s\<lparr>sft_world := w\<rparr>);
         d \<leftarrow> deref_file s f;
         if unat (fingerprint_len d) \<noteq> length digest
         then Some (XI_CONTROL_MESSAGE__SFT_FILE_STATUS_CODE_ERROR__FILE_CHECKSUM_MISMATCH, s)
         else do {
           fp \<leftarrow> bytes_at (fingerprint d) (length digest);
           Some (if fp \<noteq> digest then XI_CONTROL_MESSAGE__SFT_FILE_STATUS_CODE_ERROR__FILE_CHECKSUM_MISMATCH
                 else XI_CONTROL_MESSAGE__SFT_FILE_STATUS_CODE_SUCCESS, s) } })"

text \<open>The file is complete: checksum, close, revision, next file. The state is the function's \<open>state\<close>.\<close>

definition file_chunk_complete ::
    "'w bsp_sft \<Rightarrow> ('f, 'w, 'z) xi_sft_scheme \<Rightarrow> (xi_state \<times> ('f, 'w, 'z) xi_sft_scheme) option" where
  "file_chunk_complete bsp s = do {
     (checksum_status_code, s) \<leftarrow> xi_sft_on_message_file_chunk_checksum_final bsp s;
     s \<leftarrow> xi_sft_send_file_status None XI_CONTROL_MESSAGE__SFT_FILE_STATUS_PHASE_DOWNLOADED checksum_status_code s;
     if checksum_status_code \<noteq> XI_CONTROL_MESSAGE__SFT_FILE_STATUS_CODE_SUCCESS
     then Some (XI_STATE_OK, on_world (fwu_on_package_download_failure bsp) s)
     else do {
       let (r, w) = fs_close bsp (update_file_handle (sft s)) (sft_world s);
       let st = xi_fs_bsp_io_fs_2_xi_state r;
       let s = set_sft (\<lambda>c. c\<lparr>update_file_handle := XI_BSP_IO_FS_INVALID_RESOURCE_HANDLE\<rparr>) (s\<lparr>sft_world := w\<rparr>);
       if st \<noteq> XI_STATE_OK
       then do {
         s \<leftarrow> xi_sft_send_file_status None XI_CONTROL_MESSAGE__SFT_FILE_STATUS_PHASE_PROCESSING
           XI_CONTROL_MESSAGE__SFT_FILE_STATUS_CODE_ERROR__FILE_CLOSE s;
         Some (st, s) }
       else do {
         s \<leftarrow> xi_sft_current_file_revision_handling bsp s;
         s \<leftarrow> xi_sft_continue_package_download bsp s;
         Some (st, s) } } }"

definition on_file_chunk ::
    "'w bsp_sft \<Rightarrow> c_str \<Rightarrow> 32 word \<Rightarrow> 32 word \<Rightarrow> c_str \<Rightarrow> ('f, 'w, 'z) xi_sft_scheme
       \<Rightarrow> (xi_state \<times> ('f, 'w, 'z) xi_sft_scheme) option" where
  "on_file_chunk bsp nm offset len data s = do {
     expected \<leftarrow> (case update_current_file (sft s) of
        None \<Rightarrow> Some False
      | Some f \<Rightarrow> do {
          d \<leftarrow> deref_file s f;
          (case (file_name d, nm) of (Some (_, a), Some (_, b)) \<Rightarrow> c_str_eq a b | _ \<Rightarrow> Some False) });
     if expected
     then do {
       (code, s) \<leftarrow> xi_sft_on_message_file_chunk_process_file_chunk bsp nm offset len data s;
       if code \<noteq> XI_CONTROL_MESSAGE__SFT_FILE_STATUS_CODE_SUCCESS
       then do {
         s \<leftarrow> xi_sft_send_file_status None XI_CONTROL_MESSAGE__SFT_FILE_STATUS_PHASE_PROCESSING code s;
         Some (XI_STATE_OK, on_world (fwu_on_package_download_failure bsp) s) }
       else do {
         f \<leftarrow> update_current_file (sft s);
         d \<leftarrow> deref_file s f;
         let all_downloaded_bytes = offset + len;
         if all_downloaded_bytes < size_in_bytes d
         then do {
           s \<leftarrow> xi_sft_send_file_get_chunk all_downloaded_bytes (size_in_bytes d - all_downloaded_bytes) s;
           Some (XI_STATE_OK, s) }
         else file_chunk_complete bsp s } }
     else do {
       s \<leftarrow> xi_sft_send_file_status None XI_CONTROL_MESSAGE__SFT_FILE_STATUS_PHASE_DOWNLOADED
         XI_CONTROL_MESSAGE__SFT_FILE_STATUS_CODE_ERROR__UNEXPECTED_FILE_CHUNK s;
       Some (XI_STATE_OK, s) } }"

section \<open>Messages of the service\<close>

definition on_file_update_available ::
    "'w bsp_sft \<Rightarrow> addr \<Rightarrow> ('f, 'w, 'z) xi_sft_scheme \<Rightarrow> (xi_state \<times> ('f, 'w, 'z) xi_sft_scheme) option" where
  "on_file_update_available bsp sft_message_in s = do {
     s \<leftarrow> xi_control_message_free (update_message_fua (sft s)) s;
     let s = set_sft (\<lambda>c. c\<lparr>update_message_fua := sft_message_in\<rparr>) s;
     msg \<leftarrow> deref_control_message s sft_message_in;
     (case msg of
        XI_CONTROL_MESSAGE_SC__SFT_FILE_UPDATE_AVAILABLE n l \<Rightarrow>
          if 0 < n \<and> l \<noteq> NULL
          then do {
            (st, s) \<leftarrow> xi_sft_order_resource_downloads bsp s;
            if st \<noteq> XI_STATE_OK then Some (st, s)
            else do {
              s \<leftarrow> xi_sft_continue_package_download bsp s;
              Some (st, s) } }
          else Some (XI_STATE_OK, s)
      | _ \<Rightarrow> None) }"

definition xi_sft_on_message ::
    "'w bsp_sft \<Rightarrow> addr \<Rightarrow> addr \<Rightarrow> ('f, 'w, 'z) xi_sft_scheme \<Rightarrow> (xi_state \<times> ('f, 'w, 'z) xi_sft_scheme) option" where
  "xi_sft_on_message bsp context sft_message_in s =
     (if context = NULL \<or> sft_message_in = NULL then Some (XI_INVALID_PARAMETER, s)
      else do {
        _ \<leftarrow> deref_context s context;
        msg \<leftarrow> deref_control_message s sft_message_in;
        (case msg of
           XI_CONTROL_MESSAGE_SC__SFT_FILE_UPDATE_AVAILABLE _ _ \<Rightarrow> on_file_update_available bsp sft_message_in s
         | XI_CONTROL_MESSAGE_SC__SFT_FILE_CHUNK nm _ offset len _ data \<Rightarrow> do {
             (st, s) \<leftarrow> on_file_chunk bsp nm offset len data s;
             s \<leftarrow> xi_control_message_free sft_message_in s;
             Some (st, s) }
         | _ \<Rightarrow> do {
             s \<leftarrow> xi_control_message_free sft_message_in s;
             Some (XI_STATE_OK, s) }) })"

section \<open>The context\<close>

definition xi_sft_make_context ::
    "bool \<Rightarrow> addr \<Rightarrow> byte list option list option \<Rightarrow> 16 word \<Rightarrow> bool \<Rightarrow> bool \<Rightarrow> ('f, 'w, 'z) xi_sft_scheme
       \<Rightarrow> xi_state \<times> addr \<times> ('f, 'w, 'z) xi_sft_scheme" where
  "xi_sft_make_context given context files n send_fn url_fn s =
     (if \<not> given then (XI_INVALID_PARAMETER, context, s)
      else if context \<noteq> NULL then (XI_INVALID_PARAMETER, context, s)
      else
        let (p, m) = xi_alloc sizeof_xi_sft_context (tmem s) in
        if p = NULL then (XI_OUT_OF_MEMORY, NULL, s\<lparr>tmem := m\<rparr>)
        else (XI_STATE_OK, p, s\<lparr>tmem := m, sft_block := p,
          sft := \<lparr>fn_send_message = send_fn, updateable_files = files, updateable_files_count = n,
            updateable_files_download_order = None, update_message_fua = NULL, update_current_file = None,
            update_firmware = None, update_file_handle = XI_BSP_IO_FS_INVALID_RESOURCE_HANDLE,
            sft_url_handler_callback = url_fn, checksum_context = NULL\<rparr>\<rparr>))"

definition xi_sft_free_context ::
    "'w bsp_sft \<Rightarrow> addr \<Rightarrow> ('f, 'w, 'z) xi_sft_scheme \<Rightarrow> (xi_state \<times> ('f, 'w, 'z) xi_sft_scheme) option" where
  "xi_sft_free_context bsp context s =
     (if context = NULL then Some (XI_STATE_OK, s)
      else do {
        _ \<leftarrow> deref_context s context;
        (_, s) \<leftarrow> xi_sft_on_message_file_chunk_checksum_final bsp s;
        let (_, w) = fs_close bsp (update_file_handle (sft s)) (sft_world s);
        s \<leftarrow> xi_control_message_free (update_message_fua (sft s)) (s\<lparr>sft_world := w\<rparr>);
        let s = free_order (set_sft (\<lambda>c. c\<lparr>update_message_fua := NULL\<rparr>) s);
        Some (XI_STATE_OK, set_sft_mem (xi_free context) s) })"

definition xi_sft_on_connected ::
    "'w bsp_sft \<Rightarrow> addr \<Rightarrow> ('f, 'w, 'z) xi_sft_scheme \<Rightarrow> (xi_state \<times> ('f, 'w, 'z) xi_sft_scheme) option" where
  "xi_sft_on_connected bsp context s = do {
     let (committed, w) = fwu_on_new_firmware_ok bsp (sft_world s);
     let s = s\<lparr>sft_world := w\<rparr>;
     s \<leftarrow> (if committed then map_option snd (xi_sft_revision_firmware_ok bsp s) else Some s);
     if context = NULL then Some (XI_INVALID_PARAMETER, s)
     else do {
       c \<leftarrow> deref_context s context;
       if fn_send_message c
       then do {
         (p, s) \<leftarrow> xi_control_message_create_file_info bsp (updateable_files c) (updateable_files_count c)
           (if sft_url_handler_callback c then 1 else 0) s;
         s \<leftarrow> send_control_message p s;
         Some (XI_STATE_OK, s) }
       else Some (XI_STATE_OK, s) } }"

definition xi_sft_on_connection_failed ::
    "'w bsp_sft \<Rightarrow> ('f, 'w, 'z) xi_sft_scheme \<Rightarrow> xi_state \<times> ('f, 'w, 'z) xi_sft_scheme" where
  "xi_sft_on_connection_failed bsp s = (XI_STATE_OK, on_world (fwu_on_new_firmware_failure bsp) s)"

section \<open>Downloads by the application\<close>

definition xi_sft_on_file_downloaded_task ::
    "'w bsp_sft \<Rightarrow> addr \<Rightarrow> addr \<Rightarrow> addr \<Rightarrow> ('f, 'w, 'z) xi_sft_scheme \<Rightarrow> (xi_state \<times> ('f, 'w, 'z) xi_sft_scheme) option"
where
  "xi_sft_on_file_downloaded_task bsp sft_context filename flag_void s = do {
     c \<leftarrow> deref_context s sft_context;
     let successfully = (of_nat flag_void :: 8 word);
     s \<leftarrow>
       (if successfully \<noteq> 0
        then do {
          expected \<leftarrow> (case update_current_file c of
             None \<Rightarrow> Some False
           | Some f \<Rightarrow> do {
               d \<leftarrow> deref_file s f;
               (case file_name d of
                  None \<Rightarrow> Some False
                | Some (_, a) \<Rightarrow> if filename = NULL then Some False else do { b \<leftarrow> app_strings s filename; c_str_eq a b }) });
          if expected
          then do {
            s \<leftarrow> xi_sft_send_file_status None XI_CONTROL_MESSAGE__SFT_FILE_STATUS_PHASE_DOWNLOADED
              XI_CONTROL_MESSAGE__SFT_FILE_STATUS_CODE_SUCCESS s;
            s \<leftarrow> xi_sft_current_file_revision_handling bsp s;
            xi_sft_continue_package_download bsp s }
          else
            xi_sft_send_file_status None XI_CONTROL_MESSAGE__SFT_FILE_STATUS_PHASE_DOWNLOADED
              XI_CONTROL_MESSAGE__SFT_FILE_STATUS_CODE_ERROR__URLDL_UNEXPECTED_FILE_NAME s }
        else do {
          s \<leftarrow> xi_sft_send_file_status None XI_CONTROL_MESSAGE__SFT_FILE_STATUS_PHASE_DOWNLOADED
            XI_CONTROL_MESSAGE__SFT_FILE_STATUS_CODE_ERROR__URLDL_FAILED s;
          f \<leftarrow> update_current_file (sft s);
          d \<leftarrow> deref_file s f;
          if flag_mqtt_download_also_supported d \<noteq> 0 then xi_sft_send_file_get_chunk 0 (size_in_bytes d) s else Some s });
     Some (XI_STATE_OK, s) }"

definition xi_sft_on_file_downloaded_application_callback ::
    "addr \<Rightarrow> addr \<Rightarrow> 8 word \<Rightarrow> ('f, 'w, 'z) xi_sft_scheme \<Rightarrow> ('f, 'w, 'z) xi_sft_scheme" where
  "xi_sft_on_file_downloaded_application_callback sft_context filename flag s =
     snd (xi_evtd_execute s (xi_make_handle_argc4 0 On_File_Downloaded_Task sft_context filename XI_STATE_OK (unat flag)))"

end
