(* ===== verification/Xi_Sft_Download.thy ===== *)
theory Xi_Sft_Download
  imports Xi_Sft_Logic
begin

text \<open>
  What secure file transfer does on a platform that stores what it is given: the package ends up in
  the file system, file by file, with a dialogue that is determined by the package and by how the
  service cuts the files into chunks.
\<close>

section \<open>Memory\<close>

definition granting :: "('f, 'w, 'z) xi_sft_scheme \<Rightarrow> bool" where
  "granting s \<longleftrightarrow> mem_ok (tmem s) \<and> alloc_script (tmem s) = []"

text \<open>\<open>talks msgs s t\<close>: from \<open>s\<close> to \<open>t\<close> the messages \<open>msgs\<close> were sent; no block came or went.\<close>

definition talks :: "control_message_view list \<Rightarrow> ('f, 'w, 'z) xi_sft_scheme \<Rightarrow> ('f, 'w, 'z) xi_sft_scheme \<Rightarrow> bool" where
  "talks msgs s t \<longleftrightarrow> granting t \<and> live_blocks (tmem t) = live_blocks (tmem s)
     \<and> (\<forall>p \<in> live_blocks (tmem s). control_messages t p = control_messages s p)
     \<and> file_descs t = file_descs s \<and> sft_block t = sft_block s \<and> sent_messages t = sent_messages s @ msgs"

lemma talks_refl: "granting s \<Longrightarrow> talks [] s s"
  by (simp add: talks_def)

lemma talks_trans: "talks xs s t \<Longrightarrow> talks ys t u \<Longrightarrow> talks (xs @ ys) s u"
  by (simp add: talks_def)

lemma talks_granting: "talks xs s t \<Longrightarrow> granting t"
  by (simp add: talks_def)

lemma talks_deref:
  assumes "talks xs s t"
  shows "deref_file t f = deref_file s f" "deref_control_message t p = deref_control_message s p"
  using assms by (auto simp: talks_def deref_file_def deref_control_message_def)

lemma granting_alloc:
  assumes "granting s" "n \<le> PTRDIFF_MAX"
  obtains p m where "xi_alloc n (tmem s) = (p, m)" "p \<noteq> NULL" "p \<notin> live_blocks (tmem s)" "live_blocks m = insert p (live_blocks (tmem s))"
    "mem_ok m" "alloc_script m = []"
  using assms xi_alloc_mem_ok [of n "tmem s" "next_block (tmem s)"]
  by (force simp: granting_def xi_alloc_def mem_ok_def)

definition short_string :: "byte list \<Rightarrow> bool" where
  "short_string cs \<longleftrightarrow> 0 \<notin> set cs \<and> length cs < 2 ^ 31"

lemma short_string_chars [simp]: "short_string cs \<Longrightarrow> c_chars (c_string cs) = Some cs"
  using takeWhile_nonzero [of cs "[]"] by (simp add: c_chars_def c_string_def short_string_def)

lemma str_dup_grants:
  assumes "mem_ok m" "alloc_script m = []" "short_string cs"
  obtains p m' where "xi_str_dup (c_string cs) m = Some (Some (p, c_string cs), m')" "p \<noteq> NULL" "p \<notin> live_blocks m"
    "live_blocks m' = insert p (live_blocks m)" "mem_ok m'" "alloc_script m' = []"
proof -
  have l: "length cs + 1 \<le> PTRDIFF_MAX" using assms(3) by (simp add: short_string_def PTRDIFF_MAX_def)
  obtain p m' where a: "xi_alloc (length cs + 1) m = (p, m')" by fastforce
  have p: "p \<noteq> NULL" "p \<notin> live_blocks m" "live_blocks m' = insert p (live_blocks m)" "alloc_script m' = []"
    using a assms(1,2) l by (auto simp: xi_alloc_def mem_ok_def split: if_splits)
  show thesis
    using that [of p m'] a p xi_alloc_mem_ok [OF a assms(1)] assms(3)
    by (simp add: xi_str_dup_def c_strlen_c_string_nil short_string_def) (simp add: c_string_def)
qed

section \<open>Sending\<close>

definition names :: "xi_control_message_file_desc_ext \<Rightarrow> byte list \<Rightarrow> byte list \<Rightarrow> bool" where
  "names d nm rv \<longleftrightarrow> (\<exists>a b. file_name d = Some (a, c_string nm) \<and> file_revision d = Some (b, c_string rv))
     \<and> short_string nm \<and> short_string rv"

lemma message_sent:
  fixes s :: "('f, 'w, 'z) xi_sft_scheme"
  assumes "granting s" "short_string nm" "short_string rv"
    and v: "\<And>x y. view_message (mk x y) = View (map_option snd x) (map_option snd y)"
    and fr: "\<And>x y p (t :: ('f, 'w, 'z) xi_sft_scheme). control_messages t p = mk x y \<Longrightarrow> p \<in> live_blocks (tmem t) \<Longrightarrow> p \<noteq> NULL
      \<Longrightarrow> xi_control_message_free p t = Some (set_sft_mem (xi_free p) (set_sft_mem (\<lambda>m. free_c_str y (free_c_str x m)) t))"
  obtains p t u where "alloc_control_message s = (p, t)" "p \<noteq> NULL"
    "\<exists>x y t'. dup_name_and_revision (c_string nm) (c_string rv) t = Some (x, y, t')
       \<and> send_control_message p (store_control_message p (mk x y) t') = Some u"
    "talks [View (Some (c_string nm)) (Some (c_string rv))] s u" "sft u = sft s" "sft_world u = sft_world s"
proof -
  have "sizeof_xi_control_message \<le> PTRDIFF_MAX" by (simp add: sizeof_xi_control_message_def PTRDIFF_MAX_def)
  then obtain p m where p: "xi_alloc sizeof_xi_control_message (tmem s) = (p, m)" "p \<noteq> NULL" "p \<notin> live_blocks (tmem s)"
    "live_blocks m = insert p (live_blocks (tmem s))" "mem_ok m" "alloc_script m = []"
    using granting_alloc [OF assms(1)] by metis
  obtain a m1 where a: "xi_str_dup (c_string nm) m = Some (Some (a, c_string nm), m1)" "a \<noteq> NULL" "a \<notin> live_blocks m"
    "live_blocks m1 = insert a (live_blocks m)" "mem_ok m1" "alloc_script m1 = []"
    using str_dup_grants [OF p(5,6) assms(2)] by metis
  obtain b m2 where b: "xi_str_dup (c_string rv) m1 = Some (Some (b, c_string rv), m2)" "b \<noteq> NULL" "b \<notin> live_blocks m1"
    "live_blocks m2 = insert b (live_blocks m1)" "mem_ok m2" "alloc_script m2 = []"
    using str_dup_grants [OF a(5,6) assms(3)] by metis
  let ?msg = "mk (Some (a, c_string nm)) (Some (b, c_string rv))"
  let ?t = "store_control_message p ?msg (s\<lparr>tmem := m2\<rparr>)"
  let ?t' = "?t\<lparr>sent_messages := sent_messages s @ [view_message ?msg]\<rparr>"
  define u where "u = set_sft_mem (xi_free p) (set_sft_mem (\<lambda>m. free_c_str (Some (b, c_string rv)) (free_c_str (Some (a, c_string nm)) m)) ?t')"
  have lv: "p \<in> live_blocks m2" using p(4) a(4) b(4) by simp
  have "xi_control_message_free p ?t' = Some u"
    unfolding u_def using lv p(2) by (intro fr) (simp_all add: store_control_message_def)
  then have "send_control_message p ?t = Some u"
    using lv p(2) by (simp add: send_control_message_def deref_control_message_def store_control_message_def)
  moreover have "talks [View (Some (c_string nm)) (Some (c_string rv))] s u"
  proof -
    have "live_blocks (tmem u) = live_blocks (tmem s)"
      using p(2-4) a(2-4) b(2-4) by (auto simp: u_def set_sft_mem_def store_control_message_def free_c_str_def)
    moreover have "granting u"
      using b(5,6) by (simp add: granting_def u_def set_sft_mem_def store_control_message_def free_c_str_def)
    ultimately show ?thesis
      using p(3) v by (auto simp: talks_def u_def set_sft_mem_def store_control_message_def)
  qed
  moreover have "sft u = sft s" "sft_world u = sft_world s" by (simp_all add: u_def set_sft_mem_def store_control_message_def)
  moreover have "alloc_control_message s = (p, s\<lparr>tmem := m\<rparr>)" using p(1) by (simp add: alloc_control_message_def)
  moreover have "dup_name_and_revision (c_string nm) (c_string rv) (s\<lparr>tmem := m\<rparr>)
      = Some (Some (a, c_string nm), Some (b, c_string rv), s\<lparr>tmem := m2\<rparr>)"
    using a(1) b(1) by (simp add: dup_name_and_revision_def)
  ultimately show thesis using that [of p "s\<lparr>tmem := m\<rparr>" u] p(2) by blast
qed

text \<open>A status and a request for a chunk, of a file that is there.\<close>

lemma status_sent:
  fixes s :: "('f, 'w, 'z) xi_sft_scheme"
  assumes "granting s" "fn_send_message (sft s)" "fo \<noteq> None \<or> update_current_file (sft s) \<noteq> None"
    and "f = (case fo of None \<Rightarrow> the (update_current_file (sft s)) | Some g \<Rightarrow> g)" "deref_file s f = Some d" "names d nm rv"
  obtains u where "xi_sft_send_file_status fo ph code s = Some u"
    "talks [File_Status (Some (c_string nm)) (Some (c_string rv)) ph code] s u" "sft u = sft s" "sft_world u = sft_world s"
proof -
  have ss: "short_string nm" "short_string rv" using assms(6) by (simp_all add: names_def)
  obtain p t u where u: "alloc_control_message s = (p, t)" "p \<noteq> NULL"
    "\<exists>x y t'. dup_name_and_revision (c_string nm) (c_string rv) t = Some (x, y, t')
       \<and> send_control_message p (store_control_message p (XI_CONTROL_MESSAGE_CS__SFT_FILE_STATUS x y ph code) t') = Some u"
    "talks [File_Status (Some (c_string nm)) (Some (c_string rv)) ph code] s u" "sft u = sft s" "sft_world u = sft_world s"
    by (rule message_sent [OF assms(1) ss, where mk = "\<lambda>x y. XI_CONTROL_MESSAGE_CS__SFT_FILE_STATUS x y ph code"
          and View = "\<lambda>x y. File_Status x y ph code"])
      (auto simp: view_message_def xi_control_message_free_def deref_control_message_def)
  have "(case fo of None \<Rightarrow> update_current_file (sft s) | Some g \<Rightarrow> Some g) = Some f" using assms(3,4) by (cases fo) auto
  then have "xi_sft_send_file_status fo ph code s = Some u"
    using u(1-3) assms(2,3,5,6)
    by (auto simp: xi_sft_send_file_status_def xi_control_message_create_file_status_def names_def)
  then show thesis using that u(4-6) by blast
qed

lemma get_chunk_sent:
  fixes s :: "('f, 'w, 'z) xi_sft_scheme"
  assumes "granting s" "fn_send_message (sft s)" "update_current_file (sft s) = Some f" "deref_file s f = Some d" "names d nm rv"
  obtains u where "xi_sft_send_file_get_chunk off len s = Some u"
    "talks [Get_Chunk (Some (c_string nm)) (Some (c_string rv)) off (min XI_SFT_FILE_CHUNK_SIZE len)] s u"
    "sft u = sft s" "sft_world u = sft_world s"
proof -
  have ss: "short_string nm" "short_string rv" using assms(5) by (simp_all add: names_def)
  let ?len = "min XI_SFT_FILE_CHUNK_SIZE len"
  obtain p t u where u: "alloc_control_message s = (p, t)" "p \<noteq> NULL"
    "\<exists>x y t'. dup_name_and_revision (c_string nm) (c_string rv) t = Some (x, y, t')
       \<and> send_control_message p (store_control_message p (XI_CONTROL_MESSAGE_CS__SFT_FILE_GET_CHUNK x y off ?len) t') = Some u"
    "talks [Get_Chunk (Some (c_string nm)) (Some (c_string rv)) off ?len] s u" "sft u = sft s" "sft_world u = sft_world s"
    by (rule message_sent [OF assms(1) ss, where mk = "\<lambda>x y. XI_CONTROL_MESSAGE_CS__SFT_FILE_GET_CHUNK x y off ?len"
          and View = "\<lambda>x y. Get_Chunk x y off ?len"])
      (auto simp: view_message_def xi_control_message_free_def deref_control_message_def)
  have "xi_sft_send_file_get_chunk off len s = Some u"
    using u(1-3) assms(2-5)
    by (auto simp: xi_sft_send_file_get_chunk_def xi_control_message_create_file_get_chunk_def names_def)
  then show thesis using that u(4-6) by blast
qed

lemma word_of_length:
  "n < 2 ^ 32 \<Longrightarrow> unat (of_nat n :: 32 word) = n" "n < 2 ^ 16 \<Longrightarrow> unat (of_nat n :: 16 word) = n"
  by (simp_all add: unat_of_nat take_bit_nat_eq_self)

section \<open>A platform that stores what it is given\<close>

text \<open>
  What the header files of the board support package promise, as far as downloads need it: the files
  by name, the names of the open handles, the bytes that went into a checksum context, and the
  packages that were reported as finished.
\<close>

record file_store =
  stored :: "byte list \<Rightarrow> byte list option"
  opened :: "int \<Rightarrow> byte list option"
  digests :: "nat \<Rightarrow> byte list option"
  finished :: "byte list option list"

definition stores_files :: "'w bsp_sft \<Rightarrow> ('w \<Rightarrow> file_store) \<Rightarrow> bool" where
  "stores_files bsp view \<longleftrightarrow>
     (\<forall>nm n h w. \<exists>h' w'. fs_open bsp nm n XI_BSP_IO_FS_OPEN_WRITE h w = (XI_BSP_IO_FS_STATE_OK, h', w')
        \<and> view w' = (view w)\<lparr>stored := (stored (view w))(nm \<mapsto> []), opened := (opened (view w))(h' \<mapsto> nm)\<rparr>)
   \<and> (\<forall>nm h c bs w. opened (view w) h = Some nm \<and> stored (view w) nm = Some c \<longrightarrow>
        (\<exists>n w'. fs_write bsp h bs (length c) w = (XI_BSP_IO_FS_STATE_OK, n, w')
           \<and> view w' = (view w)\<lparr>stored := (stored (view w))(nm \<mapsto> c @ bs)\<rparr>))
   \<and> (\<forall>nm h w. opened (view w) h = Some nm \<longrightarrow>
        (\<exists>w'. fs_close bsp h w = (XI_BSP_IO_FS_STATE_OK, w') \<and> view w' = (view w)\<lparr>opened := (opened (view w))(h := None)\<rparr>))"

definition checksums :: "'w bsp_sft \<Rightarrow> ('w \<Rightarrow> file_store) \<Rightarrow> (byte list \<Rightarrow> byte list) \<Rightarrow> bool" where
  "checksums bsp view hash \<longleftrightarrow>
     (\<forall>w. \<exists>k w'. fwu_checksum_init bsp w = (k, w') \<and> k \<noteq> NULL \<and> view w' = (view w)\<lparr>digests := (digests (view w))(k \<mapsto> [])\<rparr>)
   \<and> (\<forall>k c bs w. digests (view w) k = Some c \<longrightarrow>
        view (fwu_checksum_update bsp k bs w) = (view w)\<lparr>digests := (digests (view w))(k \<mapsto> c @ bs)\<rparr>)
   \<and> (\<forall>k c w. digests (view w) k = Some c \<longrightarrow>
        (\<exists>k' w'. fwu_checksum_final bsp k w = (k', hash c, w') \<and> view w' = (view w)\<lparr>digests := (digests (view w))(k := None)\<rparr>))"

definition firmware_functions ::
    "'w bsp_sft \<Rightarrow> ('w \<Rightarrow> file_store) \<Rightarrow> (byte list \<Rightarrow> bool) \<Rightarrow> (byte list option list \<Rightarrow> nat list) \<Rightarrow> bool" where
  "firmware_functions bsp view is_fw ord \<longleftrightarrow>
     (\<forall>nm w. \<exists>w'. fwu_is_this_firmware bsp nm w = (if is_fw nm then 1 else 0, w') \<and> view w' = view w)
   \<and> (\<forall>ns w. \<exists>f w'. fwu_order_resource_downloads bsp ns (map int [0..<length ns]) w = (f, w') \<and> view w' = view w
        \<and> map f [0..<length ns] = map int (ord ns))
   \<and> (\<forall>nm w. view (fwu_on_package_download_finished bsp nm w) = (view w)\<lparr>finished := finished (view w) @ [nm]\<rparr>)"

lemma opens:
  assumes "stores_files bsp view"
  obtains h' w' where "fs_open bsp nm n XI_BSP_IO_FS_OPEN_WRITE h w = (XI_BSP_IO_FS_STATE_OK, h', w')"
    "view w' = (view w)\<lparr>stored := (stored (view w))(nm \<mapsto> []), opened := (opened (view w))(h' \<mapsto> nm)\<rparr>"
  using assms unfolding stores_files_def by blast

lemma writes_on:
  assumes "stores_files bsp view" "opened (view w) h = Some nm" "stored (view w) nm = Some c"
  obtains n w' where "fs_write bsp h bs (length c) w = (XI_BSP_IO_FS_STATE_OK, n, w')"
    "view w' = (view w)\<lparr>stored := (stored (view w))(nm \<mapsto> c @ bs)\<rparr>"
  using assms unfolding stores_files_def by blast

lemma closes:
  assumes "stores_files bsp view" "opened (view w) h = Some nm"
  obtains w' where "fs_close bsp h w = (XI_BSP_IO_FS_STATE_OK, w')" "view w' = (view w)\<lparr>opened := (opened (view w))(h := None)\<rparr>"
  using assms unfolding stores_files_def by blast

text \<open>A string that is written to a file of its own.\<close>

lemma string_written:
  assumes "stores_files bsp view" "short_string nm" "short_string str"
  obtains w' where "xi_sft_revision_write_string_to_file bsp (Some (a, c_string nm)) (Some (b, c_string str)) w = Some (XI_STATE_OK, w')"
    "stored (view w') = (stored (view w))(nm \<mapsto> str)" "finished (view w') = finished (view w)"
proof -
  obtain h w1 where w1: "fs_open bsp nm (length str) XI_BSP_IO_FS_OPEN_WRITE XI_BSP_IO_FS_INVALID_RESOURCE_HANDLE w = (XI_BSP_IO_FS_STATE_OK, h, w1)"
    "view w1 = (view w)\<lparr>stored := (stored (view w))(nm \<mapsto> []), opened := (opened (view w))(h \<mapsto> nm)\<rparr>"
    using opens [OF assms(1)] by metis
  obtain n w2 where w2: "fs_write bsp h str 0 w1 = (XI_BSP_IO_FS_STATE_OK, n, w2)"
    "view w2 = (view w1)\<lparr>stored := (stored (view w1))(nm \<mapsto> str)\<rparr>"
    using writes_on [OF assms(1), of w1 h nm "[]" str] w1(2) by auto
  obtain w3 where w3: "fs_close bsp h w2 = (XI_BSP_IO_FS_STATE_OK, w3)" "view w3 = (view w2)\<lparr>opened := (opened (view w2))(h := None)\<rparr>"
    using closes [OF assms(1), of w2 h nm] w1(2) w2(2) by auto
  show thesis
    using that [of w3] w1 w2 w3 assms(2,3) by (simp add: xi_sft_revision_write_string_to_file_def xi_fs_bsp_io_fs_2_xi_state_def)
qed

section \<open>One file\<close>

definition xirev_chars :: "byte list" where "xirev_chars = [46, 120, 105, 114, 101, 118]"

definition mailbox_chars :: "byte list" where "mailbox_chars = map of_char ''firmware_update_revision.mailbox''"

lemma mailbox: "firmware_mailbox = c_string mailbox_chars" "short_string mailbox_chars"
  by (simp_all add: firmware_mailbox_def mailbox_chars_def short_string_def)

text \<open>\<open>t\<close> is \<open>s\<close> but for the memory and the world; the blocks \<open>X\<close> are new.\<close>

definition file_access :: "addr set \<Rightarrow> ('f, 'w, 'z) xi_sft_scheme \<Rightarrow> ('f, 'w, 'z) xi_sft_scheme \<Rightarrow> bool" where
  "file_access X s t \<longleftrightarrow> (\<exists>m w. t = s\<lparr>tmem := m, sft_world := w\<rparr>) \<and> granting t
     \<and> live_blocks (tmem t) = live_blocks (tmem s) \<union> X \<and> live_blocks (tmem s) \<inter> X = {}"

lemma file_access_trans: "file_access X s t \<Longrightarrow> file_access Y t u \<Longrightarrow> file_access (X \<union> Y) s u"
  unfolding file_access_def by (elim conjE exE) (intro conjI exI, simp_all, auto)

lemma file_access_refl: "granting s \<Longrightarrow> file_access {} s s"
  unfolding file_access_def by (auto intro!: exI [of _ "tmem s"] exI [of _ "sft_world s"])

lemma revision_resourcename:
  assumes "mem_ok m" "alloc_script m = []" "short_string nm" "length nm < 2 ^ 30"
  obtains p m' where "XI_SFT_REVISION_RESOURCENAME (Some (a, nm @ 0 # z)) m = Some (Some (p, c_string (nm @ xirev_chars)), m')"
    "p \<noteq> NULL" "p \<notin> live_blocks m" "live_blocks m' = insert p (live_blocks m)" "mem_ok m'" "alloc_script m' = []"
    "short_string (nm @ xirev_chars)"
proof -
  have x: "xirev = c_string xirev_chars" "short_string xirev_chars" "length xirev_chars = 6"
    by (simp_all add: xirev_def xirev_chars_def short_string_def)
  have cl: "c_strlen xirev = Some (length xirev_chars)" unfolding x(1) using x(2) by (simp add: short_string_def)
  have cn: "c_strlen (nm @ 0 # z) = Some (length nm)"
    using c_strlen_c_string [of nm z] assms(3) by (simp add: short_string_def c_string_def)
  have l: "length nm + length xirev_chars + 1 \<le> PTRDIFF_MAX" using assms(4) x by (simp add: PTRDIFF_MAX_def)
  obtain p m' where p: "xi_alloc (length nm + length xirev_chars + 1) m = (p, m')" by fastforce
  have q: "p \<noteq> NULL" "p \<notin> live_blocks m" "live_blocks m' = insert p (live_blocks m)" "alloc_script m' = []"
    using p assms(1,2) l by (auto simp: xi_alloc_def mem_ok_def split: if_splits)
  have "xi_str_cat (nm @ 0 # z) xirev m = Some (Some (p, c_string (nm @ xirev_chars)), m')"
    using p q(1) cl cn by (simp add: xi_str_cat_def) (simp add: c_string_def x(1))
  moreover have "short_string (nm @ xirev_chars)" using assms(3,4) x by (auto simp: short_string_def)
  ultimately show thesis using that [of p m'] q xi_alloc_mem_ok [OF p assms(1)] by (simp add: XI_SFT_REVISION_RESOURCENAME_def)
qed

lemma revision_noted:
  fixes s :: "('f, 'w, 'z) xi_sft_scheme"
  assumes b: "stores_files bsp view" and s: "granting s" and n: "short_string nm" "length nm < 2 ^ 30" "short_string rv"
  obtains t where "xi_sft_revision_set bsp (Some (a, nm @ 0 # z)) (Some (b, c_string rv)) s = Some (XI_STATE_OK, t)" "file_access {} s t"
    "stored (view (sft_world t)) = (stored (view (sft_world s)))(nm @ xirev_chars \<mapsto> rv)"
    "finished (view (sft_world t)) = finished (view (sft_world s))"
proof -
  obtain q m where q: "XI_SFT_REVISION_RESOURCENAME (Some (a, nm @ 0 # z)) (tmem s) = Some (Some (q, c_string (nm @ xirev_chars)), m)"
    "q \<noteq> NULL" "q \<notin> live_blocks (tmem s)" "live_blocks m = insert q (live_blocks (tmem s))" "mem_ok m" "alloc_script m = []"
    "short_string (nm @ xirev_chars)"
    using revision_resourcename [of "tmem s" nm a z] s n(1,2) unfolding granting_def by metis
  obtain w where w: "xi_sft_revision_write_string_to_file bsp (Some (q, c_string (nm @ xirev_chars))) (Some (b, c_string rv)) (sft_world s)
      = Some (XI_STATE_OK, w)" "stored (view w) = (stored (view (sft_world s)))(nm @ xirev_chars \<mapsto> rv)" "finished (view w) = finished (view (sft_world s))"
    using string_written [OF b q(7) n(3)] by metis
  let ?t = "s\<lparr>tmem := xi_free q m, sft_world := w\<rparr>"
  have "file_access {} s ?t"
    using q(2-6) unfolding file_access_def by (auto simp: granting_def intro!: exI [of _ "xi_free q m"] exI [of _ w])
  then show thesis using that [of ?t] q(1) w by (simp add: xi_sft_revision_set_def free_c_str_def)
qed

lemma file_access_talks: "file_access {} s t \<Longrightarrow> talks [] s t \<and> sft t = sft s"
  by (auto simp: file_access_def talks_def)

lemma revision_set:
  fixes s :: "('f, 'w, 'z) xi_sft_scheme"
  assumes "stores_files bsp view" "granting s" "names d nm rv" "length nm < 2 ^ 30"
  obtains t where "xi_sft_revision_set bsp (file_name d) (file_revision d) s = Some (XI_STATE_OK, t)" "talks [] s t" "sft t = sft s"
    "stored (view (sft_world t)) = (stored (view (sft_world s)))(nm @ xirev_chars \<mapsto> rv)"
    "finished (view (sft_world t)) = finished (view (sft_world s))"
proof -
  obtain a b where n: "file_name d = Some (a, nm @ 0 # [])" "file_revision d = Some (b, c_string rv)" "short_string nm" "short_string rv"
    using assms(3) by (auto simp: names_def c_string_def)
  show thesis
    unfolding n(1,2) by (rule revision_noted [OF assms(1,2) n(3) assms(4) n(4), of a "[]" b]) (use that n file_access_talks in auto)
qed

lemma firmware_revision_set:
  fixes s :: "('f, 'w, 'z) xi_sft_scheme"
  assumes "stores_files bsp view" "granting s" "names d nm rv" "length nm < 2 ^ 30" "length rv < 2 ^ 30"
  obtains t where "xi_sft_revision_set_firmware_update bsp (file_name d) (file_revision d) s = Some (XI_STATE_OK, t)"
    "talks [] s t" "sft t = sft s"
    "stored (view (sft_world t)) = (stored (view (sft_world s)))(mailbox_chars \<mapsto> nm @ 10 # rv)"
    "finished (view (sft_world t)) = finished (view (sft_world s))"
proof -
  obtain a b where n: "file_name d = Some (a, c_string nm)" "file_revision d = Some (b, c_string rv)" "short_string nm" "short_string rv"
    using assms(3) by (auto simp: names_def)
  have ss: "short_string (nm @ 10 # rv)" using n(3,4) assms(4,5) by (auto simp: short_string_def)
  have "length nm + length rv + 2 \<le> PTRDIFF_MAX" using assms(4,5) by (simp add: PTRDIFF_MAX_def)
  then obtain p m where p: "xi_alloc (length nm + length rv + 2) (tmem s) = (p, m)" "p \<noteq> NULL" "p \<notin> live_blocks (tmem s)"
    "live_blocks m = insert p (live_blocks (tmem s))" "mem_ok m" "alloc_script m = []"
    using granting_alloc [OF assms(2)] by metis
  have e: "nm @ 10 # c_string rv = c_string (nm @ 10 # rv)" by (simp add: c_string_def)
  obtain w where w: "xi_sft_revision_write_string_to_file bsp (Some (NULL, firmware_mailbox)) (Some (p, c_string (nm @ 10 # rv))) (sft_world s)
      = Some (XI_STATE_OK, w)" "stored (view w) = (stored (view (sft_world s)))(mailbox_chars \<mapsto> nm @ 10 # rv)"
    "finished (view w) = finished (view (sft_world s))"
    using string_written [OF assms(1) mailbox(2) ss] mailbox(1) by metis
  show thesis
    using that [of "s\<lparr>tmem := xi_free p m, sft_world := w\<rparr>"] p(1-6) w n e
    by (auto simp: xi_sft_revision_set_firmware_update_def talks_def granting_def)
qed

definition describes :: "(byte list \<Rightarrow> byte list) \<Rightarrow> xi_control_message_file_desc_ext \<Rightarrow> byte list \<times> byte list \<times> byte list \<Rightarrow> bool" where
  "describes hash d = (\<lambda>(nm, rv, content). names d nm rv \<and> length nm < 2 ^ 30 \<and> length rv < 2 ^ 30
     \<and> length content < 2 ^ 32 \<and> size_in_bytes d = of_nat (length content) \<and> download_link d = None
     \<and> length (hash content) < 2 ^ 16 \<and> fingerprint_len d = of_nat (length (hash content))
     \<and> (\<exists>a. fingerprint d = Some (a, hash content)))"

text \<open>The open file and the checksum context have seen \<open>bs\<close>.\<close>

definition receiving :: "('w \<Rightarrow> file_store) \<Rightarrow> byte list \<Rightarrow> byte list \<Rightarrow> ('f, 'w, 'z) xi_sft_scheme \<Rightarrow> bool" where
  "receiving view nm bs s \<longleftrightarrow> opened (view (sft_world s)) (update_file_handle (sft s)) = Some nm
     \<and> stored (view (sft_world s)) nm = Some bs \<and> checksum_context (sft s) \<noteq> NULL
     \<and> digests (view (sft_world s)) (checksum_context (sft s)) = Some bs"

text \<open>\<open>t\<close> is \<open>s\<close> but for the world, the file handle and the checksum context.\<close>

definition file_step :: "('f, 'w, 'z) xi_sft_scheme \<Rightarrow> ('f, 'w, 'z) xi_sft_scheme \<Rightarrow> bool" where
  "file_step s t \<longleftrightarrow> (\<exists>h k w. t = s\<lparr>sft := (sft s)\<lparr>update_file_handle := h, checksum_context := k\<rparr>, sft_world := w\<rparr>)"

lemma file_step_talks: "file_step s t \<Longrightarrow> granting s \<Longrightarrow> talks [] s t"
  by (auto simp: file_step_def talks_def granting_def)

lemma chunk_opened:
  fixes s :: "('f, 'w, 'z) xi_sft_scheme"
  assumes b: "stores_files bsp view" "checksums bsp view hash"
  obtains h w k w' t where "fs_open bsp nm n XI_BSP_IO_FS_OPEN_WRITE (update_file_handle (sft s)) (sft_world s) = (XI_BSP_IO_FS_STATE_OK, h, w)"
    "fwu_checksum_init bsp w = (k, w')"
    "t = s\<lparr>sft := (sft s)\<lparr>update_file_handle := h, checksum_context := k\<rparr>, sft_world := w'\<rparr>"
    "receiving view nm [] t" "stored (view w') = (stored (view (sft_world s)))(nm \<mapsto> [])" "finished (view w') = finished (view (sft_world s))"
proof -
  obtain h w where h: "fs_open bsp nm n XI_BSP_IO_FS_OPEN_WRITE (update_file_handle (sft s)) (sft_world s) = (XI_BSP_IO_FS_STATE_OK, h, w)"
    "view w = (view (sft_world s))\<lparr>stored := (stored (view (sft_world s)))(nm \<mapsto> []), opened := (opened (view (sft_world s)))(h \<mapsto> nm)\<rparr>"
    using opens [OF b(1)] by metis
  obtain k w' where k: "fwu_checksum_init bsp w = (k, w')" "k \<noteq> NULL" "view w' = (view w)\<lparr>digests := (digests (view w))(k \<mapsto> [])\<rparr>"
    using b(2) unfolding checksums_def by blast
  show thesis using that [OF h(1) k(1) refl] h(2) k(2,3) by (simp add: receiving_def)
qed

lemma chunk_written:
  fixes s :: "('f, 'w, 'z) xi_sft_scheme"
  assumes b: "stores_files bsp view" "checksums bsp view hash" and r: "receiving view nm got s"
  obtains n w t where "fs_write bsp (update_file_handle (sft s)) bs (length got) (sft_world s) = (XI_BSP_IO_FS_STATE_OK, n, w)"
    "t = on_world (fwu_checksum_update bsp (checksum_context (sft s)) bs) (s\<lparr>sft_world := w\<rparr>)"
    "receiving view nm (got @ bs) t" "file_step s t" "stored (view (sft_world t)) = (stored (view (sft_world s)))(nm \<mapsto> got @ bs)"
    "finished (view (sft_world t)) = finished (view (sft_world s))"
proof -
  obtain n w where w: "fs_write bsp (update_file_handle (sft s)) bs (length got) (sft_world s) = (XI_BSP_IO_FS_STATE_OK, n, w)"
    "view w = (view (sft_world s))\<lparr>stored := (stored (view (sft_world s)))(nm \<mapsto> got @ bs)\<rparr>"
    using writes_on [OF b(1)] r unfolding receiving_def by metis
  let ?k = "checksum_context (sft s)"
  have v: "view (fwu_checksum_update bsp ?k bs w) = (view w)\<lparr>digests := (digests (view w))(?k \<mapsto> got @ bs)\<rparr>"
    using b(2) r w(2) unfolding checksums_def receiving_def by simp
  have "file_step s (on_world (fwu_checksum_update bsp ?k bs) (s\<lparr>sft_world := w\<rparr>))"
    unfolding file_step_def on_world_def
    by (intro exI [of _ "update_file_handle (sft s)"] exI [of _ ?k] exI [of _ "fwu_checksum_update bsp ?k bs w"]) simp
  then show thesis using that [OF w(1) refl] w(2) v r by (simp add: receiving_def on_world_def)
qed

lemma chunk_processed:
  fixes s :: "('f, 'w, 'z) xi_sft_scheme"
  assumes b: "stores_files bsp view" "checksums bsp view hash" and f: "update_current_file (sft s) = Some f" "deref_file s f = Some d"
    and n: "short_string nm" and r: "got = [] \<or> receiving view nm got s" and len: "length got + length bs < 2 ^ 32"
  obtains t where "xi_sft_on_message_file_chunk_process_file_chunk bsp (Some (a, c_string nm)) (of_nat (length got)) (of_nat (length bs)) (Some (c, bs)) s
      = Some (XI_CONTROL_MESSAGE__SFT_FILE_STATUS_CODE_SUCCESS, t)"
    "receiving view nm (got @ bs) t" "file_step s t" "stored (view (sft_world t)) = (stored (view (sft_world s)))(nm \<mapsto> got @ bs)"
    "finished (view (sft_world t)) = finished (view (sft_world s))"
proof -
  have u: "unat (of_nat (length got) :: 32 word) = length got" "unat (of_nat (length bs) :: 32 word) = length bs"
    "(of_nat (length got) :: 32 word) = 0 \<longleftrightarrow> got = []"
    using len by (simp_all add: word_of_length word_unat_eq_iff)
  have data: "bytes_at (Some (c, bs)) (unat (of_nat (length bs) :: 32 word)) = Some bs" using u by (simp add: bytes_at_def first_n_def)
  show thesis
  proof (cases "got = []")
    case True
    obtain h w k w' s1 where s1: "fs_open bsp nm (unat (size_in_bytes d)) XI_BSP_IO_FS_OPEN_WRITE (update_file_handle (sft s)) (sft_world s) = (XI_BSP_IO_FS_STATE_OK, h, w)"
      "fwu_checksum_init bsp w = (k, w')" "s1 = s\<lparr>sft := (sft s)\<lparr>update_file_handle := h, checksum_context := k\<rparr>, sft_world := w'\<rparr>"
      "receiving view nm [] s1" "stored (view w') = (stored (view (sft_world s)))(nm \<mapsto> [])" "finished (view w') = finished (view (sft_world s))"
      by (rule chunk_opened [OF b])
    obtain n w2 t where t: "fs_write bsp (update_file_handle (sft s1)) bs (length ([] :: byte list)) (sft_world s1) = (XI_BSP_IO_FS_STATE_OK, n, w2)"
      "t = on_world (fwu_checksum_update bsp (checksum_context (sft s1)) bs) (s1\<lparr>sft_world := w2\<rparr>)"
      "receiving view nm ([] @ bs) t" "file_step s1 t" "stored (view (sft_world t)) = (stored (view (sft_world s1)))(nm \<mapsto> [] @ bs)"
      "finished (view (sft_world t)) = finished (view (sft_world s1))"
      by (rule chunk_written [OF b s1(4), where bs = bs])
    have "file_step s t" using t(4) s1(3) by (auto simp: file_step_def)
    then show thesis
      using that [of t] True u(3) n f s1(1-3,5,6) t(1-3,5,6) data
      by (simp add: xi_sft_on_message_file_chunk_process_file_chunk_def xi_fs_bsp_io_fs_2_xi_state_def set_sft_def)
  next
    case False
    obtain n w t where t: "fs_write bsp (update_file_handle (sft s)) bs (length got) (sft_world s) = (XI_BSP_IO_FS_STATE_OK, n, w)"
      "t = on_world (fwu_checksum_update bsp (checksum_context (sft s)) bs) (s\<lparr>sft_world := w\<rparr>)"
      "receiving view nm (got @ bs) t" "file_step s t" "stored (view (sft_world t)) = (stored (view (sft_world s)))(nm \<mapsto> got @ bs)"
      "finished (view (sft_world t)) = finished (view (sft_world s))"
      using chunk_written [OF b] r False by metis
    show thesis
      using that [of t] False u t data
      by (simp add: xi_sft_on_message_file_chunk_process_file_chunk_def xi_fs_bsp_io_fs_2_xi_state_def)
  qed
qed

lemma checksum_checked:
  fixes s :: "('f, 'w, 'z) xi_sft_scheme"
  assumes b: "stores_files bsp view" "checksums bsp view hash" and f: "update_current_file (sft s) = Some f" "deref_file s f = Some d"
    and d: "describes hash d (nm, rv, content)" and r: "receiving view nm content s"
  obtains t where "xi_sft_on_message_file_chunk_checksum_final bsp s = Some (XI_CONTROL_MESSAGE__SFT_FILE_STATUS_CODE_SUCCESS, t)"
    "file_step s t" "opened (view (sft_world t)) (update_file_handle (sft t)) = Some nm" "stored (view (sft_world t)) = stored (view (sft_world s))"
    "finished (view (sft_world t)) = finished (view (sft_world s))"
proof -
  obtain k w where k: "fwu_checksum_final bsp (checksum_context (sft s)) (sft_world s) = (k, hash content, w)"
    "view w = (view (sft_world s))\<lparr>digests := (digests (view (sft_world s)))(checksum_context (sft s) := None)\<rparr>"
    using b(2) r unfolding checksums_def receiving_def by blast
  let ?t = "s\<lparr>sft_world := w, sft := (sft s)\<lparr>checksum_context := k\<rparr>\<rparr>"
  have fp: "\<exists>a. fingerprint d = Some (a, hash content)" "unat (fingerprint_len d) = length (hash content)"
    using d by (simp_all add: describes_def word_of_length)
  have "file_step s ?t" unfolding file_step_def by (intro exI [of _ "update_file_handle (sft s)"] exI [of _ k] exI [of _ w]) simp
  moreover have "deref_file ?t f = Some d" using f(2) by (simp add: deref_file_def split: if_splits)
  ultimately show thesis
    using that [of ?t] k f(1) r fp
    by (auto simp: xi_sft_on_message_file_chunk_checksum_final_def receiving_def set_sft_def bytes_at_def first_n_def Let_def)
qed

section \<open>The package\<close>

definition c_str_block :: "c_str \<Rightarrow> addr set" where
  "c_str_block p = (case p of None \<Rightarrow> {} | Some (a, _) \<Rightarrow> {a})"

definition file_desc_ext_blocks :: "xi_control_message_file_desc_ext \<Rightarrow> addr set" where
  "file_desc_ext_blocks d = c_str_block (file_name d) \<union> c_str_block (file_revision d) \<union> c_str_block (fingerprint d) \<union> c_str_block (download_link d)"

definition package_blocks :: "addr \<Rightarrow> addr \<Rightarrow> xi_control_message_file_desc_ext list \<Rightarrow> addr set" where
  "package_blocks p l ds = insert p (insert l (\<Union> (file_desc_ext_blocks ` set ds)))"

text \<open>
  The package \<open>p\<close> with the files \<open>ds\<close> is being downloaded: \<open>k\<close> files have been selected, \<open>rest\<close> are
  to come, and \<open>fw\<close> is the firmware seen so far.
\<close>

definition package_here ::
    "addr \<Rightarrow> addr \<Rightarrow> xi_control_message_file_desc_ext list \<Rightarrow> addr \<Rightarrow> nat \<Rightarrow> nat list \<Rightarrow> (addr \<times> nat) option
       \<Rightarrow> ('f, 'w, 'z) xi_sft_scheme \<Rightarrow> bool" where
  "package_here p l ds a k rest fw s \<longleftrightarrow>
     update_message_fua (sft s) = p \<and> p \<noteq> NULL \<and> l \<noteq> NULL
     \<and> deref_control_message s p = Some (XI_CONTROL_MESSAGE_SC__SFT_FILE_UPDATE_AVAILABLE (of_nat (length ds)) l)
     \<and> l \<in> live_blocks (tmem s) \<and> file_descs s l = ds \<and> 0 < length ds \<and> length ds < 2 ^ 16
     \<and> updateable_files_download_order (sft s) = Some (a, replicate k (-1) @ map int rest) \<and> k + length rest = length ds
     \<and> (\<forall>i \<in> set rest. i < length ds) \<and> update_firmware (sft s) = fw \<and> fn_send_message (sft s) \<and> granting s"

lemma package_kept:
  assumes "package_here p l ds a k rest fw s" "talks xs s t" "sft t = sft s"
  shows "package_here p l ds a k rest fw t"
  using assms talks_deref [OF assms(2)] by (auto simp: package_here_def talks_def)

lemma package_file: "package_here p l ds a k rest fw s \<Longrightarrow> i < length ds \<Longrightarrow> deref_file s (l, i) = Some (ds ! i)"
  by (auto simp: package_here_def deref_file_def)

lemma select_index_next:
  "k + Suc (length rest) = n \<Longrightarrow> select_index (replicate k (-1) @ map int (i # rest)) n = Some (int i, replicate (Suc k) (-1) @ map int rest)"
proof (induction k arbitrary: n)
  case (Suc k)
  then show ?case by (cases n) simp_all
qed auto

lemma select_index_none: "select_index (replicate n (-1)) n = Some (-1, replicate n (-1))"
  by (induction n) simp_all

lemma next_selected:
  fixes s :: "('f, 'w, 'z) xi_sft_scheme"
  assumes "package_here p l ds a k (i # rest) fw s"
  obtains t where "xi_sft_select_next_resource_to_download s = Some (XI_STATE_OK, t)"
    "package_here p l ds a (Suc k) rest fw t" "update_current_file (sft t) = Some (l, i)" "talks [] s t" "sft_world t = sft_world s"
proof -
  let ?t = "set_sft (\<lambda>c. c\<lparr>update_current_file := Some (l, i),
    updateable_files_download_order := Some (a, replicate (Suc k) (-1) @ map int rest)\<rparr>) s"
  have n: "unat (of_nat (length ds) :: 16 word) = length ds" "k + Suc (length rest) = length ds"
    using assms by (simp_all add: package_here_def word_of_length)
  note sel = select_index_next [OF n(2), of i]
  have "xi_sft_select_next_resource_to_download s = Some (XI_STATE_OK, ?t)"
    using assms n(1) sel by (simp add: xi_sft_select_next_resource_to_download_def package_here_def del: replicate_Suc)
  moreover have "package_here p l ds a (Suc k) rest fw ?t"
    using assms by (auto simp: package_here_def set_sft_def deref_control_message_def granting_def split: if_split_asm)
  moreover have "talks [] s ?t" using assms by (simp add: talks_def granting_def package_here_def set_sft_def)
  ultimately show thesis using that [of ?t] by (simp add: set_sft_def)
qed

lemma next_started:
  fixes s :: "('f, 'w, 'z) xi_sft_scheme"
  assumes b: "firmware_functions bsp view is_fw ord" and s: "package_here p l ds a k (i # rest) fw s"
    and d: "describes hash (ds ! i) (nm, rv, content)"
  obtains t where "xi_sft_continue_package_download bsp s = Some t"
    "package_here p l ds a (Suc k) rest (if is_fw nm then Some (l, i) else fw) t" "update_current_file (sft t) = Some (l, i)"
    "talks [Get_Chunk (Some (c_string nm)) (Some (c_string rv)) 0 (min XI_SFT_FILE_CHUNK_SIZE (of_nat (length content)))] s t"
    "view (sft_world t) = view (sft_world s)"
proof -
  obtain t where t: "xi_sft_select_next_resource_to_download s = Some (XI_STATE_OK, t)"
    "package_here p l ds a (Suc k) rest fw t" "update_current_file (sft t) = Some (l, i)" "talks [] s t" "sft_world t = sft_world s"
    by (rule next_selected [OF s])
  have i: "i < length ds" using s by (simp add: package_here_def)
  have f: "deref_file t (l, i) = Some (ds ! i)" by (rule package_file [OF t(2) i])
  obtain x y where n: "names (ds ! i) nm rv" "file_name (ds ! i) = Some (x, c_string nm)" "short_string nm" "download_link (ds ! i) = None"
    "size_in_bytes (ds ! i) = of_nat (length content)"
    using d by (auto simp: describes_def names_def)
  obtain w where w: "fwu_is_this_firmware bsp nm (sft_world t) = (if is_fw nm then 1 else 0, w)" "view w = view (sft_world t)"
    using b unfolding firmware_functions_def by blast
  let ?fw = "if is_fw nm then Some (l, i) else fw"
  let ?u = "t\<lparr>sft_world := w, sft := (sft t)\<lparr>update_firmware := ?fw\<rparr>\<rparr>"
  have fwt: "update_firmware (sft t) = fw" using t(2) by (simp add: package_here_def)
  have u: "package_here p l ds a (Suc k) rest ?fw ?u" "talks [] t ?u"
    using t(2) by (auto simp: package_here_def deref_control_message_def granting_def talks_def split: if_split_asm)
  have "granting ?u" "fn_send_message (sft ?u)" using u(1) by (simp_all add: package_here_def)
  moreover have "update_current_file (sft ?u) = Some (l, i)" "deref_file ?u (l, i) = Some (ds ! i)"
    using t(3) talks_deref(1) [OF u(2)] f by simp_all
  ultimately obtain v where v: "xi_sft_send_file_get_chunk 0 (of_nat (length content)) ?u = Some v"
    "talks [Get_Chunk (Some (c_string nm)) (Some (c_string rv)) 0 (min XI_SFT_FILE_CHUNK_SIZE (of_nat (length content)))] ?u v"
    "sft v = sft ?u" "sft_world v = sft_world ?u"
    using get_chunk_sent n(1) by metis
  have e: "(if is_fw nm then set_sft (\<lambda>c. c\<lparr>update_firmware := Some (l, i)\<rparr>) (t\<lparr>sft_world := w\<rparr>) else t\<lparr>sft_world := w\<rparr>) = ?u"
    using fwt by (simp add: set_sft_def)
  have "xi_sft_download_current_file bsp t = Some v"
    using t(3) f n(2-5) w(1) v(1) e by (auto simp: xi_sft_download_current_file_def Let_def split: if_splits)
  then have "xi_sft_continue_package_download bsp s = Some v"
    using t(1,3) by (simp add: xi_sft_continue_package_download_def)
  moreover have "package_here p l ds a (Suc k) rest ?fw v" by (rule package_kept [OF u(1) v(2,3)])
  moreover have "talks [Get_Chunk (Some (c_string nm)) (Some (c_string rv)) 0 (min XI_SFT_FILE_CHUNK_SIZE (of_nat (length content)))] s v"
    using talks_trans [OF talks_trans [OF t(4) u(2)] v(2)] by simp
  moreover have "update_current_file (sft v) = Some (l, i)" "view (sft_world v) = view (sft_world s)"
    using v(3,4) t(3,5) w(2) by simp_all
  ultimately show thesis using that by blast
qed

section \<open>A chunk\<close>

lemma package_file_step:
  assumes "package_here p l ds a k rest fw s" "file_step s t"
  shows "package_here p l ds a k rest fw t"
  using assms by (auto simp: package_here_def file_step_def deref_control_message_def granting_def split: if_split_asm)

lemma c_str_eq_self [simp]: "short_string cs \<Longrightarrow> c_str_eq (c_string cs) (c_string cs) = Some True"
  by (simp add: c_str_eq_def)

lemma chunk_continued:
  fixes s :: "('f, 'w, 'z) xi_sft_scheme"
  assumes b: "stores_files bsp view" "checksums bsp view hash" and s: "package_here p l ds a k rest fw s"
    and i: "update_current_file (sft s) = Some (l, i)" "i < length ds" "describes hash (ds ! i) (nm, rv, content)"
    and r: "got = [] \<or> receiving view nm got s" and c: "content = got @ bs @ later" "later \<noteq> []"
  obtains t where "on_file_chunk bsp (Some (x, c_string nm)) (of_nat (length got)) (of_nat (length bs)) (Some (y, bs)) s = Some (XI_STATE_OK, t)"
    "package_here p l ds a k rest fw t" "update_current_file (sft t) = Some (l, i)" "receiving view nm (got @ bs) t"
    "talks [Get_Chunk (Some (c_string nm)) (Some (c_string rv)) (of_nat (length (got @ bs))) (min XI_SFT_FILE_CHUNK_SIZE (of_nat (length later)))] s t"
    "stored (view (sft_world t)) = (stored (view (sft_world s)))(nm \<mapsto> got @ bs)" "finished (view (sft_world t)) = finished (view (sft_world s))"
proof -
  have len: "length content < 2 ^ 32" "size_in_bytes (ds ! i) = of_nat (length content)" using i(3) by (simp_all add: describes_def)
  obtain z where n: "names (ds ! i) nm rv" "file_name (ds ! i) = Some (z, c_string nm)" "short_string nm"
    using i(3) by (auto simp: describes_def names_def)
  have f: "deref_file s (l, i) = Some (ds ! i)" by (rule package_file [OF s i(2)])
  have l2: "length got + length bs < 2 ^ 32" using len(1) c(1) by simp
  obtain t where t: "xi_sft_on_message_file_chunk_process_file_chunk bsp (Some (x, c_string nm)) (of_nat (length got)) (of_nat (length bs)) (Some (y, bs)) s
      = Some (XI_CONTROL_MESSAGE__SFT_FILE_STATUS_CODE_SUCCESS, t)"
    "receiving view nm (got @ bs) t" "file_step s t" "stored (view (sft_world t)) = (stored (view (sft_world s)))(nm \<mapsto> got @ bs)"
    "finished (view (sft_world t)) = finished (view (sft_world s))"
    by (rule chunk_processed [OF b i(1) f n(3) r l2])
  have pt: "package_here p l ds a k rest fw t" by (rule package_file_step [OF s t(3)])
  have ct: "update_current_file (sft t) = Some (l, i)" using t(3) i(1) by (auto simp: file_step_def)
  note ft = package_file [OF pt i(2)]
  have tt: "talks [] s t" using file_step_talks [OF t(3)] s by (simp add: package_here_def)
  have w: "of_nat (length got) + of_nat (length bs) = (of_nat (length (got @ bs)) :: 32 word)" by simp
  have lt: "(of_nat (length (got @ bs)) :: 32 word) < of_nat (length content)"
    using len(1) c by (simp add: word_less_nat_alt word_of_length del: of_nat_add)
  have m: "of_nat (length content) - of_nat (length (got @ bs)) = (of_nat (length later) :: 32 word)" using c(1) by simp
  obtain u where u: "xi_sft_send_file_get_chunk (of_nat (length (got @ bs))) (of_nat (length later)) t = Some u"
    "talks [Get_Chunk (Some (c_string nm)) (Some (c_string rv)) (of_nat (length (got @ bs))) (min XI_SFT_FILE_CHUNK_SIZE (of_nat (length later)))] t u"
    "sft u = sft t" "sft_world u = sft_world t"
    using get_chunk_sent [OF _ _ ct ft n(1)] pt unfolding package_here_def by metis
  have "on_file_chunk bsp (Some (x, c_string nm)) (of_nat (length got)) (of_nat (length bs)) (Some (y, bs)) s = Some (XI_STATE_OK, u)"
    using i(1) f n(2,3) t(1) ct ft len(2) lt m u(1) unfolding on_file_chunk_def by (simp add: w [symmetric] Let_def del: length_append)
  moreover have "package_here p l ds a k rest fw u" by (rule package_kept [OF pt u(2,3)])
  moreover have "receiving view nm (got @ bs) u" using t(2) u(3,4) by (simp add: receiving_def)
  ultimately show thesis using that [of u] talks_trans [OF tt u(2)] u(3,4) ct t(4,5) by simp
qed

definition note_revision :: "(byte list \<Rightarrow> bool) \<Rightarrow> byte list \<Rightarrow> byte list \<Rightarrow> (byte list \<Rightarrow> byte list option) \<Rightarrow> byte list \<Rightarrow> byte list option" where
  "note_revision is_fw nm rv st = (if is_fw nm then st(mailbox_chars \<mapsto> nm @ 10 # rv) else st(nm @ xirev_chars \<mapsto> rv))"

definition install :: "(byte list \<Rightarrow> bool) \<Rightarrow> byte list \<times> byte list \<times> byte list \<Rightarrow> (byte list \<Rightarrow> byte list option) \<Rightarrow> byte list \<Rightarrow> byte list option" where
  "install is_fw = (\<lambda>(nm, rv, content) st. note_revision is_fw nm rv (st(nm \<mapsto> content)))"

definition completion :: "(byte list \<Rightarrow> bool) \<Rightarrow> byte list \<Rightarrow> byte list \<Rightarrow> control_message_view list" where
  "completion is_fw nm rv =
     File_Status (Some (c_string nm)) (Some (c_string rv)) XI_CONTROL_MESSAGE__SFT_FILE_STATUS_PHASE_DOWNLOADED
       XI_CONTROL_MESSAGE__SFT_FILE_STATUS_CODE_SUCCESS #
     (if is_fw nm then []
      else [File_Status (Some (c_string nm)) (Some (c_string rv)) XI_CONTROL_MESSAGE__SFT_FILE_STATUS_PHASE_FINISHED
        XI_CONTROL_MESSAGE__SFT_FILE_STATUS_CODE_SUCCESS])"

lemma revision_handled:
  fixes s :: "('f, 'w, 'z) xi_sft_scheme"
  assumes b: "stores_files bsp view" and s: "package_here p l ds a k rest fw s"
    and i: "update_current_file (sft s) = Some (l, i)" "i < length ds" "describes hash (ds ! i) (nm, rv, content)"
    and fw: "is_fw nm \<longleftrightarrow> fw = Some (l, i)"
  obtains t where "xi_sft_current_file_revision_handling bsp s = Some t" "package_here p l ds a k rest fw t" "talks (tl (completion is_fw nm rv)) s t"
    "stored (view (sft_world t)) = note_revision is_fw nm rv (stored (view (sft_world s)))"
    "finished (view (sft_world t)) = finished (view (sft_world s))"
proof -
  have d: "names (ds ! i) nm rv" "length nm < 2 ^ 30" "length rv < 2 ^ 30" using i(3) by (simp_all add: describes_def)
  have g: "granting s" "fn_send_message (sft s)" "update_firmware (sft s) = fw" using s by (simp_all add: package_here_def)
  note f = package_file [OF s i(2)]
  show thesis
  proof (cases "is_fw nm")
    case True
    obtain t where t: "xi_sft_revision_set_firmware_update bsp (file_name (ds ! i)) (file_revision (ds ! i)) s = Some (XI_STATE_OK, t)"
      "talks [] s t" "sft t = sft s" "stored (view (sft_world t)) = (stored (view (sft_world s)))(mailbox_chars \<mapsto> nm @ 10 # rv)"
      "finished (view (sft_world t)) = finished (view (sft_world s))"
      by (rule firmware_revision_set [OF b g(1) d])
    show thesis
      using that [of t] t True fw i(1) g(3) f package_kept [OF s t(2,3)]
      by (simp add: xi_sft_current_file_revision_handling_def completion_def note_revision_def)
  next
    case False
    obtain u where u: "xi_sft_send_file_status None XI_CONTROL_MESSAGE__SFT_FILE_STATUS_PHASE_FINISHED
        XI_CONTROL_MESSAGE__SFT_FILE_STATUS_CODE_SUCCESS s = Some u"
      "talks [File_Status (Some (c_string nm)) (Some (c_string rv)) XI_CONTROL_MESSAGE__SFT_FILE_STATUS_PHASE_FINISHED
        XI_CONTROL_MESSAGE__SFT_FILE_STATUS_CODE_SUCCESS] s u" "sft u = sft s" "sft_world u = sft_world s"
      by (rule status_sent [OF g(1,2), of None "(l, i)"]) (use i(1) f d(1) in auto)
    obtain t where t: "xi_sft_revision_set bsp (file_name (ds ! i)) (file_revision (ds ! i)) u = Some (XI_STATE_OK, t)" "talks [] u t" "sft t = sft u"
      "stored (view (sft_world t)) = (stored (view (sft_world u)))(nm @ xirev_chars \<mapsto> rv)"
      "finished (view (sft_world t)) = finished (view (sft_world u))"
      by (rule revision_set [OF b talks_granting [OF u(2)] d(1,2)])
    have "talks (tl (completion is_fw nm rv)) s t" using talks_trans [OF u(2) t(2)] False by (simp add: completion_def)
    then show thesis
      using that [of t] t u(1,3,4) False fw i(1) g(3) f talks_deref(1) [OF u(2)] package_kept [OF package_kept [OF s u(2,3)] t(2,3)]
      by (simp add: xi_sft_current_file_revision_handling_def note_revision_def)
  qed
qed

lemma file_completed:
  fixes s :: "('f, 'w, 'z) xi_sft_scheme"
  assumes b: "stores_files bsp view" "checksums bsp view hash" and s: "package_here p l ds a k rest fw s"
    and i: "update_current_file (sft s) = Some (l, i)" "i < length ds" "describes hash (ds ! i) (nm, rv, content)"
    and fw: "is_fw nm \<longleftrightarrow> fw = Some (l, i)" and r: "got = [] \<or> receiving view nm got s" and c: "content = got @ bs"
  obtains t where "on_file_chunk bsp (Some (x, c_string nm)) (of_nat (length got)) (of_nat (length bs)) (Some (y, bs)) s
      = do { u \<leftarrow> xi_sft_continue_package_download bsp t; Some (XI_STATE_OK, u) }"
    "package_here p l ds a k rest fw t" "talks (completion is_fw nm rv) s t"
    "stored (view (sft_world t)) = install is_fw (nm, rv, content) (stored (view (sft_world s)))"
    "finished (view (sft_world t)) = finished (view (sft_world s))"
proof -
  have len: "length content < 2 ^ 32" "size_in_bytes (ds ! i) = of_nat (length content)" using i(3) by (simp_all add: describes_def)
  obtain z where n: "names (ds ! i) nm rv" "file_name (ds ! i) = Some (z, c_string nm)" "short_string nm"
    using i(3) by (auto simp: describes_def names_def)
  have f: "deref_file s (l, i) = Some (ds ! i)" by (rule package_file [OF s i(2)])
  have l2: "length got + length bs < 2 ^ 32" using len(1) c by simp
  obtain t where t: "xi_sft_on_message_file_chunk_process_file_chunk bsp (Some (x, c_string nm)) (of_nat (length got)) (of_nat (length bs)) (Some (y, bs)) s
      = Some (XI_CONTROL_MESSAGE__SFT_FILE_STATUS_CODE_SUCCESS, t)"
    "receiving view nm (got @ bs) t" "file_step s t" "stored (view (sft_world t)) = (stored (view (sft_world s)))(nm \<mapsto> got @ bs)"
    "finished (view (sft_world t)) = finished (view (sft_world s))"
    by (rule chunk_processed [OF b i(1) f n(3) r l2])
  have pt: "package_here p l ds a k rest fw t" by (rule package_file_step [OF s t(3)])
  have ct: "update_current_file (sft t) = Some (l, i)" using t(3) i(1) by (auto simp: file_step_def)
  note ft = package_file [OF pt i(2)]
  obtain u where u: "xi_sft_on_message_file_chunk_checksum_final bsp t = Some (XI_CONTROL_MESSAGE__SFT_FILE_STATUS_CODE_SUCCESS, u)"
    "file_step t u" "opened (view (sft_world u)) (update_file_handle (sft u)) = Some nm" "stored (view (sft_world u)) = stored (view (sft_world t))"
    "finished (view (sft_world u)) = finished (view (sft_world t))"
    by (rule checksum_checked [OF b ct ft i(3)]) (use t(2) c in simp)
  have pu: "package_here p l ds a k rest fw u" by (rule package_file_step [OF pt u(2)])
  have cu: "update_current_file (sft u) = Some (l, i)" using u(2) ct by (auto simp: file_step_def)
  have gu: "granting u" "fn_send_message (sft u)" using pu by (simp_all add: package_here_def)
  have tu: "talks [] s u"
    using talks_trans [OF file_step_talks [OF t(3)] file_step_talks [OF u(2)]] s pt by (simp add: package_here_def)
  obtain v where v: "xi_sft_send_file_status None XI_CONTROL_MESSAGE__SFT_FILE_STATUS_PHASE_DOWNLOADED XI_CONTROL_MESSAGE__SFT_FILE_STATUS_CODE_SUCCESS u = Some v"
    "talks [hd (completion is_fw nm rv)] u v" "sft v = sft u" "sft_world v = sft_world u"
    by (rule status_sent [OF gu, of None "(l, i)" _ nm rv]) (use cu package_file [OF pu i(2)] n(1) in \<open>auto simp: completion_def\<close>)
  obtain w where w: "fs_close bsp (update_file_handle (sft v)) (sft_world v) = (XI_BSP_IO_FS_STATE_OK, w)"
    "view w = (view (sft_world v))\<lparr>opened := (opened (view (sft_world v)))(update_file_handle (sft v) := None)\<rparr>"
    using closes [OF b(1), of "sft_world v" "update_file_handle (sft v)" nm] u(3) v(3,4) by metis
  let ?x = "set_sft (\<lambda>c. c\<lparr>update_file_handle := XI_BSP_IO_FS_INVALID_RESOURCE_HANDLE\<rparr>) (v\<lparr>sft_world := w\<rparr>)"
  have fx: "file_step v ?x" unfolding file_step_def set_sft_def
    by (intro exI [of _ XI_BSP_IO_FS_INVALID_RESOURCE_HANDLE] exI [of _ "checksum_context (sft v)"] exI [of _ w]) simp
  have px: "package_here p l ds a k rest fw ?x" by (rule package_file_step [OF package_kept [OF pu v(2,3)] fx])
  have cx: "update_current_file (sft ?x) = Some (l, i)" using cu v(3) by (simp add: set_sft_def)
  obtain z where z: "xi_sft_current_file_revision_handling bsp ?x = Some z" "package_here p l ds a k rest fw z" "talks (tl (completion is_fw nm rv)) ?x z"
    "stored (view (sft_world z)) = note_revision is_fw nm rv (stored (view (sft_world ?x)))"
    "finished (view (sft_world z)) = finished (view (sft_world ?x))"
    by (rule revision_handled [where is_fw = is_fw and nm = nm, OF b(1) px cx i(2,3) fw])
  have w1: "of_nat (length got) + of_nat (length bs) = (of_nat (length content) :: 32 word)" using c by simp
  have fc: "file_chunk_complete bsp t = do { u \<leftarrow> xi_sft_continue_package_download bsp z; Some (XI_STATE_OK, u) }"
    using u(1) v(1) w(1) z(1) by (simp add: file_chunk_complete_def xi_fs_bsp_io_fs_2_xi_state_def)
  have "on_file_chunk bsp (Some (x, c_string nm)) (of_nat (length got)) (of_nat (length bs)) (Some (y, bs)) s
      = do { u \<leftarrow> xi_sft_continue_package_download bsp z; Some (XI_STATE_OK, u) }"
    using i(1) f n(2,3) t(1) ct ft len(2) fc w1 by (simp add: on_file_chunk_def)
  moreover have "talks (completion is_fw nm rv) s z"
  proof -
    have "talks ([hd (completion is_fw nm rv)] @ [] @ tl (completion is_fw nm rv)) u z"
      using talks_trans [OF v(2) talks_trans [OF file_step_talks [OF fx talks_granting [OF v(2)]] z(3)]] .
    moreover have "[hd (completion is_fw nm rv)] @ [] @ tl (completion is_fw nm rv) = completion is_fw nm rv" by (simp add: completion_def)
    ultimately show ?thesis using talks_trans [OF tu] by fastforce
  qed
  moreover have "stored (view (sft_world z)) = install is_fw (nm, rv, content) (stored (view (sft_world s)))"
    using z(4) w(2) v(4) u(4) t(4) c by (simp add: set_sft_def install_def)
  moreover have "finished (view (sft_world z)) = finished (view (sft_world s))"
    using z(5) w(2) v(4) u(5) t(5) by (simp add: set_sft_def)
  ultimately show thesis using that z(2) by blast
qed

section \<open>The end of a package\<close>

lemma free_c_str_live: "NULL \<notin> live_blocks m \<Longrightarrow> live_blocks (free_c_str p m) = live_blocks m - c_str_block p"
  by (auto simp: free_c_str_def c_str_block_def split: option.splits)

lemma free_desc_live: "NULL \<notin> live_blocks m \<Longrightarrow> live_blocks (free_file_desc_ext d m) = live_blocks m - file_desc_ext_blocks d"
  by (auto simp: free_file_desc_ext_def file_desc_ext_blocks_def free_c_str_live)

lemma free_c_str_kept: "mem_ok m \<Longrightarrow> mem_ok (free_c_str p m)" "alloc_script (free_c_str p m) = alloc_script m"
  by (simp_all add: free_c_str_def split: option.splits)

lemma free_descs_live:
  "mem_ok m \<Longrightarrow> live_blocks (fold free_file_desc_ext ds m) = live_blocks m - \<Union> (file_desc_ext_blocks ` set ds)
     \<and> mem_ok (fold free_file_desc_ext ds m) \<and> alloc_script (fold free_file_desc_ext ds m) = alloc_script m"
proof (induction ds arbitrary: m)
  case (Cons d ds)
  have "NULL \<notin> live_blocks m" using Cons.prems by (auto simp: mem_ok_def)
  moreover have "mem_ok (free_file_desc_ext d m)" "alloc_script (free_file_desc_ext d m) = alloc_script m"
    using Cons.prems by (simp_all add: free_file_desc_ext_def free_c_str_kept)
  ultimately show ?case using Cons.IH [of "free_file_desc_ext d m"] by (auto simp: free_desc_live)
qed simp

text \<open>\<open>closes_package X msgs s t\<close>: as \<open>talks\<close>, but the blocks \<open>X\<close> were freed.\<close>

definition closes_package :: "addr set \<Rightarrow> control_message_view list \<Rightarrow> ('f, 'w, 'z) xi_sft_scheme \<Rightarrow> ('f, 'w, 'z) xi_sft_scheme \<Rightarrow> bool" where
  "closes_package X msgs s t \<longleftrightarrow> granting t \<and> live_blocks (tmem t) = live_blocks (tmem s) - X
     \<and> (\<forall>p \<in> live_blocks (tmem t). control_messages t p = control_messages s p)
     \<and> sft_block t = sft_block s \<and> sent_messages t = sent_messages s @ msgs
     \<and> update_message_fua (sft t) = NULL \<and> update_current_file (sft t) = None"

lemma talks_closes: "talks xs s t \<Longrightarrow> closes_package X ys t u \<Longrightarrow> closes_package X (xs @ ys) s u"
  by (auto simp: talks_def closes_package_def)

text \<open>The name and the revision of the firmware \<open>fw\<close> points to.\<close>

definition firmware_named ::
    "addr \<Rightarrow> xi_control_message_file_desc_ext list \<Rightarrow> (addr \<times> nat) option \<Rightarrow> (byte list \<times> byte list) option \<Rightarrow> bool" where
  "firmware_named l ds fw F \<longleftrightarrow> (case F of None \<Rightarrow> fw = None
     | Some (nm, rv) \<Rightarrow> \<exists>j < length ds. fw = Some (l, j) \<and> names (ds ! j) nm rv)"

definition farewell :: "(byte list \<times> byte list) option \<Rightarrow> control_message_view list" where
  "farewell F = (case F of None \<Rightarrow> []
     | Some (nm, rv) \<Rightarrow> [File_Status (Some (c_string nm)) (Some (c_string rv)) XI_CONTROL_MESSAGE__SFT_FILE_STATUS_PHASE_PROCESSING
         XI_CONTROL_MESSAGE__SFT_FILE_STATUS_CODE_SUCCESS])"

lemma package_freed:
  fixes s :: "('f, 'w, 'z) xi_sft_scheme"
  assumes "package_here p l ds a k rest fw s" "update_current_file (sft s) = None"
  obtains t where "xi_control_message_free p s = Some t" "sft t = sft s" "sft_world t = sft_world s"
    "closes_package (package_blocks p l ds) [] s (set_sft (\<lambda>c. c\<lparr>update_message_fua := NULL\<rparr>) t)"
proof -
  have n: "unat (of_nat (length ds) :: 16 word) = length ds" "(of_nat (length ds) :: 16 word) \<noteq> 0" "p \<noteq> NULL" "l \<noteq> NULL"
    "deref_control_message s p = Some (XI_CONTROL_MESSAGE_SC__SFT_FILE_UPDATE_AVAILABLE (of_nat (length ds)) l)" "l \<in> live_blocks (tmem s)"
    "file_descs s l = ds" "granting s"
    using assms(1) by (simp_all add: package_here_def word_of_length word_unat_eq_iff)
  let ?m = "xi_free p (xi_free l (fold free_file_desc_ext ds (tmem s)))"
  note fd = free_descs_live [of "tmem s" ds]
  have "xi_control_message_free p s = Some (s\<lparr>tmem := ?m\<rparr>)"
    using n by (simp add: xi_control_message_free_def first_n_def set_sft_mem_def)
  moreover have "closes_package (package_blocks p l ds) [] s (set_sft (\<lambda>c. c\<lparr>update_message_fua := NULL\<rparr>) (s\<lparr>tmem := ?m\<rparr>))"
    using fd n(3,4,8) assms(2) by (auto simp: closes_package_def package_blocks_def set_sft_def granting_def)
  ultimately show thesis using that [of "s\<lparr>tmem := ?m\<rparr>"] by simp
qed

lemma package_finished:
  fixes s :: "('f, 'w, 'z) xi_sft_scheme"
  assumes b: "firmware_functions bsp view is_fw ord" and s: "package_here p l ds a k [] fw s" and fw: "firmware_named l ds fw F"
  obtains t where "xi_sft_continue_package_download bsp s = Some t" "closes_package (package_blocks p l ds) (farewell F) s t"
    "stored (view (sft_world t)) = stored (view (sft_world s))"
    "finished (view (sft_world t)) = finished (view (sft_world s)) @ [map_option fst F]" "update_firmware (sft t) = fw"
proof -
  let ?t = "set_sft (\<lambda>c. c\<lparr>update_current_file := None, updateable_files_download_order := Some (a, replicate k (-1))\<rparr>) s"
  have n: "unat (of_nat (length ds) :: 16 word) = length ds" "k = length ds" using s by (simp_all add: package_here_def word_of_length)
  have sel: "xi_sft_select_next_resource_to_download s = Some (XI_STATE_OK, ?t)"
    using s n(1) select_index_none [of k] by (simp add: xi_sft_select_next_resource_to_download_def package_here_def n(2) [symmetric])
  have t: "package_here p l ds a k [] fw ?t" "talks [] s ?t"
    using s by (auto simp: package_here_def set_sft_def deref_control_message_def granting_def talks_def split: if_split_asm)
  have tc: "update_current_file (sft ?t) = None" "sft_world ?t = sft_world s" "fn_send_message (sft ?t)" "granting ?t" "update_firmware (sft ?t) = fw"
    using t(1) by (simp_all add: set_sft_def package_here_def granting_def)
  obtain u nm where u: "(case fw of None \<Rightarrow> Some ?t
        | Some f \<Rightarrow> xi_sft_send_file_status (Some f) XI_CONTROL_MESSAGE__SFT_FILE_STATUS_PHASE_PROCESSING
            XI_CONTROL_MESSAGE__SFT_FILE_STATUS_CODE_SUCCESS ?t) = Some u"
    "(case fw of None \<Rightarrow> Some None | Some f \<Rightarrow> do { d \<leftarrow> deref_file u f; chars_of (file_name d) }) = Some (map_option fst F)"
    "talks (farewell F) ?t u" "sft u = sft ?t" "sft_world u = sft_world ?t"
  proof (cases F)
    case None
    then show thesis using that [of ?t] fw talks_refl [OF tc(4)] by (simp add: firmware_named_def farewell_def)
  next
    case (Some G)
    obtain nm rv where G: "F = Some (nm, rv)" using Some by (cases G) auto
    obtain j where j: "j < length ds" "fw = Some (l, j)" "names (ds ! j) nm rv" using fw G by (auto simp: firmware_named_def)
    note f = package_file [OF t(1) j(1)]
    obtain u where u: "xi_sft_send_file_status (Some (l, j)) XI_CONTROL_MESSAGE__SFT_FILE_STATUS_PHASE_PROCESSING
        XI_CONTROL_MESSAGE__SFT_FILE_STATUS_CODE_SUCCESS ?t = Some u"
      "talks [File_Status (Some (c_string nm)) (Some (c_string rv)) XI_CONTROL_MESSAGE__SFT_FILE_STATUS_PHASE_PROCESSING
        XI_CONTROL_MESSAGE__SFT_FILE_STATUS_CODE_SUCCESS] ?t u" "sft u = sft ?t" "sft_world u = sft_world ?t"
      by (rule status_sent [OF tc(4,3), of "Some (l, j)" "(l, j)" "ds ! j" nm rv]) (use f j(3) in auto)
    have "\<exists>x. file_name (ds ! j) = Some (x, c_string nm)" "short_string nm" using j(3) by (auto simp: names_def)
    then show thesis
      using that [of u] u G j(2) f talks_deref(1) [OF u(2)] by (auto simp: farewell_def chars_of_def)
  qed
  let ?v = "on_world (fwu_on_package_download_finished bsp (map_option fst F)) u"
  have v: "package_here p l ds a k [] fw ?v" "talks [] u ?v"
    using package_kept [OF t(1) u(3,4)] talks_granting [OF u(3)]
    by (auto simp: package_here_def on_world_def deref_control_message_def granting_def talks_def split: if_split_asm)
  have vw: "view (sft_world ?v) = (view (sft_world s))\<lparr>finished := finished (view (sft_world s)) @ [map_option fst F]\<rparr>"
    using b u(5) tc(2) by (simp add: on_world_def firmware_functions_def)
  have vc: "update_current_file (sft ?v) = None" using u(4) tc(1) by (simp add: on_world_def)
  obtain x where x: "xi_control_message_free p ?v = Some x" "sft x = sft ?v" "sft_world x = sft_world ?v"
    "closes_package (package_blocks p l ds) [] ?v (set_sft (\<lambda>c. c\<lparr>update_message_fua := NULL\<rparr>) x)"
    by (rule package_freed [OF v(1) vc])
  let ?y = "set_sft (\<lambda>c. c\<lparr>update_message_fua := NULL\<rparr>) x"
  have "update_message_fua (sft ?v) = p" using v(1) by (simp add: package_here_def)
  then have "xi_sft_continue_package_download bsp s = Some ?y"
    using sel tc(1,5) u(1,2,4) x(1) by (simp add: xi_sft_continue_package_download_def Let_def)
  moreover have "closes_package (package_blocks p l ds) (farewell F) s ?y"
    using talks_closes [OF talks_trans [OF talks_trans [OF t(2) u(3)] v(2)] x(4)] by simp
  moreover have "view (sft_world ?y) = view (sft_world ?v)" using x(3) by (simp add: set_sft_def)
  moreover have "update_firmware (sft ?y) = fw" using x(2) v(1) by (simp add: set_sft_def package_here_def)
  ultimately show thesis using that [of ?y] vw by simp
qed

section \<open>Delivery\<close>

text \<open>
  A chunk arrives: what the decoder makes of it. The service cuts the content of a file into chunks
  as it likes; an empty chunk is the whole of an empty file, or is followed by others.
\<close>

definition chunk_arrives :: "byte list \<Rightarrow> nat \<Rightarrow> byte list \<Rightarrow> ('f, 'w, 'z) xi_sft_scheme \<Rightarrow> addr \<times> ('f, 'w, 'z) xi_sft_scheme" where
  "chunk_arrives nm off bs s =
     (let (p, m) = xi_alloc sizeof_xi_control_message (tmem s);
          (a, m) = xi_alloc (length nm + 1) m;
          (b, m) = xi_alloc (length bs) m
      in (p, store_control_message p (XI_CONTROL_MESSAGE_SC__SFT_FILE_CHUNK (Some (a, c_string nm)) None (of_nat off)
           (of_nat (length bs)) 0 (Some (b, bs))) (s\<lparr>tmem := m\<rparr>)))"

definition deliver_chunk ::
    "'w bsp_sft \<Rightarrow> byte list \<Rightarrow> nat \<Rightarrow> byte list \<Rightarrow> ('f, 'w, 'z) xi_sft_scheme \<Rightarrow> ('f, 'w, 'z) xi_sft_scheme option" where
  "deliver_chunk bsp nm off bs s = do {
     let (p, t) = chunk_arrives nm off bs s;
     (st, u) \<leftarrow> xi_sft_on_message bsp (sft_block t) p t;
     xi_assert (st = XI_STATE_OK);
     Some u }"

primrec deliver_file ::
    "'w bsp_sft \<Rightarrow> byte list \<Rightarrow> nat \<Rightarrow> byte list list \<Rightarrow> ('f, 'w, 'z) xi_sft_scheme \<Rightarrow> ('f, 'w, 'z) xi_sft_scheme option" where
  "deliver_file bsp nm off [] s = Some s"
| "deliver_file bsp nm off (bs # cs) s = deliver_chunk bsp nm off bs s \<bind> deliver_file bsp nm (off + length bs) cs"

lemma deliver_file_append:
  "deliver_file bsp nm off (xs @ ys) s = deliver_file bsp nm off xs s \<bind> deliver_file bsp nm (off + length (concat xs)) ys"
proof (induction xs arbitrary: off s)
  case (Cons bs xs)
  show ?case by (cases "deliver_chunk bsp nm off bs s") (simp_all add: Cons.IH add.assoc)
qed simp

lemma alloc_at:
  "alloc_script m = [] \<Longrightarrow> n \<le> PTRDIFF_MAX \<Longrightarrow> \<exists>m'. xi_alloc n m = (next_block m, m') \<and> next_block m' = Suc (next_block m)
     \<and> live_blocks m' = insert (next_block m) (live_blocks m) \<and> alloc_script m' = []"
  by (simp add: xi_alloc_def)

lemma chunk_arrived:
  fixes s :: "('f, 'w, 'z) xi_sft_scheme"
  assumes "granting s" "short_string nm" "length bs < 2 ^ 32"
  obtains p a b t where "chunk_arrives nm off bs s = (p, t)"
    "deref_control_message t p = Some (XI_CONTROL_MESSAGE_SC__SFT_FILE_CHUNK (Some (a, c_string nm)) None (of_nat off) (of_nat (length bs)) 0 (Some (b, bs)))"
    "NULL \<notin> {p, a, b}" "{p, a, b} \<inter> live_blocks (tmem s) = {}" "\<exists>m cm. t = s\<lparr>tmem := m, control_messages := cm\<rparr>"
    "live_blocks (tmem t) = live_blocks (tmem s) \<union> {p, a, b}" "granting t"
    "\<forall>q \<in> live_blocks (tmem s). control_messages t q = control_messages s q"
proof -
  have n: "sizeof_xi_control_message \<le> PTRDIFF_MAX" "length nm + 1 \<le> PTRDIFF_MAX" "length bs \<le> PTRDIFF_MAX"
    using assms(2,3) by (simp_all add: sizeof_xi_control_message_def short_string_def PTRDIFF_MAX_def)
  let ?p = "next_block (tmem s)"
  obtain m1 where m1: "xi_alloc sizeof_xi_control_message (tmem s) = (?p, m1)" "next_block m1 = Suc ?p"
    "live_blocks m1 = insert ?p (live_blocks (tmem s))" "alloc_script m1 = []"
    using alloc_at [OF _ n(1), of "tmem s"] assms(1) by (auto simp: granting_def)
  obtain m2 where m2: "xi_alloc (length nm + 1) m1 = (Suc ?p, m2)" "next_block m2 = Suc (Suc ?p)"
    "live_blocks m2 = insert (Suc ?p) (live_blocks m1)" "alloc_script m2 = []"
    using alloc_at [OF m1(4) n(2)] m1(2) by auto
  obtain m3 where m3: "xi_alloc (length bs) m2 = (Suc (Suc ?p), m3)"
    "live_blocks m3 = insert (Suc (Suc ?p)) (live_blocks m2)" "alloc_script m3 = []"
    using alloc_at [OF m2(4) n(3)] m2(2) by auto
  note m = m1(1) m2(1) m3(1)
  have ok: "mem_ok m3" using xi_alloc_mem_ok [OF m(3) xi_alloc_mem_ok [OF m(2) xi_alloc_mem_ok [OF m(1)]]] assms(1) by (simp add: granting_def)
  let ?msg = "XI_CONTROL_MESSAGE_SC__SFT_FILE_CHUNK (Some (Suc ?p, c_string nm)) None (of_nat off) (of_nat (length bs)) 0 (Some (Suc (Suc ?p), bs))"
  let ?t = "s\<lparr>tmem := m3, control_messages := (control_messages s)(?p := ?msg)\<rparr>"
  have lv: "live_blocks m3 = live_blocks (tmem s) \<union> {?p, Suc ?p, Suc (Suc ?p)}" using m1(3) m2(3) m3(2) by auto
  have fresh: "?p \<noteq> NULL" "q \<in> live_blocks (tmem s) \<Longrightarrow> q < ?p" for q using assms(1) by (auto simp: granting_def mem_ok_def)
  show thesis
  proof (rule that)
    show "chunk_arrives nm off bs s = (?p, ?t)" using m by (simp add: chunk_arrives_def store_control_message_def)
    show "deref_control_message ?t ?p = Some ?msg" using lv by (simp add: deref_control_message_def)
    show "NULL \<notin> {?p, Suc ?p, Suc (Suc ?p)}" using fresh(1) by simp
    show "{?p, Suc ?p, Suc (Suc ?p)} \<inter> live_blocks (tmem s) = {}" using fresh(2) by fastforce
    show "\<exists>m cm. ?t = s\<lparr>tmem := m, control_messages := cm\<rparr>" by blast
    show "live_blocks (tmem ?t) = live_blocks (tmem s) \<union> {?p, Suc ?p, Suc (Suc ?p)}" using lv by simp
    show "granting ?t" using ok m3(3) by (simp add: granting_def)
    show "\<forall>q \<in> live_blocks (tmem s). control_messages ?t q = control_messages s q" using fresh(2) by auto
  qed
qed

text \<open>The arrived message is freed at the end of the function.\<close>

lemma chunk_message_freed:
  fixes u :: "('f, 'w, 'z) xi_sft_scheme"
  assumes "deref_control_message u p = Some (XI_CONTROL_MESSAGE_SC__SFT_FILE_CHUNK (Some (a, x)) None off len st (Some (b, y)))"
    "NULL \<notin> {p, a, b}" "granting u"
  obtains m where "xi_control_message_free p u = Some (u\<lparr>tmem := m\<rparr>)" "live_blocks m = live_blocks (tmem u) - {p, a, b}"
    "mem_ok m" "alloc_script m = []"
proof (rule that)
  let ?m = "xi_free p (xi_free b (xi_free a (tmem u)))"
  show "xi_control_message_free p u = Some (u\<lparr>tmem := ?m\<rparr>)"
    using assms(1,2) by (simp add: xi_control_message_free_def free_c_str_def set_sft_mem_def)
  show "live_blocks ?m = live_blocks (tmem u) - {p, a, b}" "mem_ok ?m" "alloc_script ?m = []"
    using assms(2,3) by (auto simp: granting_def)
qed

lemma package_arrival:
  assumes "package_here p l ds a k rest fw s" "t = s\<lparr>tmem := m, control_messages := cm\<rparr>" "live_blocks (tmem s) \<subseteq> live_blocks m"
    "\<forall>q \<in> live_blocks (tmem s). cm q = control_messages s q" "granting t"
  shows "package_here p l ds a k rest fw t"
  using assms by (auto simp: package_here_def deref_control_message_def split: if_split_asm)

text \<open>From \<open>s\<close> through the arrival (\<open>t\<close>) and the handling (\<open>y\<close>) of a chunk to the end of the function.\<close>

lemma delivered:
  fixes s :: "('f, 'w, 'z) xi_sft_scheme"
  assumes s: "granting s" "sft_block s \<in> live_blocks (tmem s)" "short_string nm" "length bs < 2 ^ 32"
    and h: "\<And>t x y m cm. t = s\<lparr>tmem := m, control_messages := cm\<rparr> \<Longrightarrow> live_blocks (tmem s) \<subseteq> live_blocks m
      \<Longrightarrow> \<forall>q \<in> live_blocks (tmem s). cm q = control_messages s q \<Longrightarrow> granting t
      \<Longrightarrow> \<exists>u. on_file_chunk bsp (Some (x, c_string nm)) (of_nat off) (of_nat (length bs)) (Some (y, bs)) t = Some (XI_STATE_OK, u)
        \<and> granting u \<and> live_blocks (tmem u) = live_blocks m - X \<and> (\<forall>q \<in> live_blocks (tmem u). control_messages u q = cm q)
        \<and> sent_messages u = sent_messages s @ msgs \<and> sft_block u = sft_block s \<and> P u"
    and X: "X \<subseteq> live_blocks (tmem s)"
  obtains v u where "deliver_chunk bsp nm off bs s = Some v" "granting v" "live_blocks (tmem v) = live_blocks (tmem s) - X"
    "\<forall>q \<in> live_blocks (tmem v). control_messages v q = control_messages s q" "sent_messages v = sent_messages s @ msgs"
    "sft_block v = sft_block s" "P u" "sft v = sft u" "file_descs v = file_descs u" "sft_world v = sft_world u"
proof -
  obtain p a b t where t: "chunk_arrives nm off bs s = (p, t)"
    "deref_control_message t p = Some (XI_CONTROL_MESSAGE_SC__SFT_FILE_CHUNK (Some (a, c_string nm)) None (of_nat off) (of_nat (length bs)) 0 (Some (b, bs)))"
    "NULL \<notin> {p, a, b}" "{p, a, b} \<inter> live_blocks (tmem s) = {}" "\<exists>m cm. t = s\<lparr>tmem := m, control_messages := cm\<rparr>"
    "live_blocks (tmem t) = live_blocks (tmem s) \<union> {p, a, b}" "granting t"
    "\<forall>q \<in> live_blocks (tmem s). control_messages t q = control_messages s q"
    by (rule chunk_arrived [OF s(1,3,4)])
  obtain m cm where m: "t = s\<lparr>tmem := m, control_messages := cm\<rparr>" using t(5) by blast
  have "\<exists>u. on_file_chunk bsp (Some (a, c_string nm)) (of_nat off) (of_nat (length bs)) (Some (b, bs)) t = Some (XI_STATE_OK, u)
      \<and> granting u \<and> live_blocks (tmem u) = live_blocks m - X \<and> (\<forall>q \<in> live_blocks (tmem u). control_messages u q = cm q)
      \<and> sent_messages u = sent_messages s @ msgs \<and> sft_block u = sft_block s \<and> P u"
    by (rule h [OF m]) (use t(6-8) m in auto)
  then obtain u where u: "on_file_chunk bsp (Some (a, c_string nm)) (of_nat off) (of_nat (length bs)) (Some (b, bs)) t = Some (XI_STATE_OK, u)"
    "granting u" "live_blocks (tmem u) = live_blocks m - X" "\<forall>q \<in> live_blocks (tmem u). control_messages u q = cm q"
    "sent_messages u = sent_messages s @ msgs" "sft_block u = sft_block s" "P u"
    by blast
  have pl: "p \<in> live_blocks (tmem u)" "live_blocks m = live_blocks (tmem s) \<union> {p, a, b}" using u(3) t(4,6) m X by auto
  then have "deref_control_message u p = deref_control_message t p" using u(4) m by (simp add: deref_control_message_def)
  then obtain m' where m': "xi_control_message_free p u = Some (u\<lparr>tmem := m'\<rparr>)" "live_blocks m' = live_blocks (tmem u) - {p, a, b}"
    "mem_ok m'" "alloc_script m' = []"
    using chunk_message_freed [OF _ t(3) u(2)] t(2) by metis
  have "sft_block t \<noteq> NULL" "deref_context t (sft_block t) = Some (sft t)" "p \<noteq> NULL"
    using s(1,2) t(3,6) m by (auto simp: deref_context_def granting_def mem_ok_def)
  then have "deliver_chunk bsp nm off bs s = Some (u\<lparr>tmem := m'\<rparr>)"
    using t(1,2) u(1) m'(1) by (simp add: deliver_chunk_def xi_sft_on_message_def)
  moreover have "live_blocks m' = live_blocks (tmem s) - X" using m'(2) u(3) pl(2) t(4) X by auto
  moreover have "\<forall>q \<in> live_blocks m'. control_messages u q = control_messages s q" using m'(2) u(3,4) pl(2) t(8) m by auto
  ultimately show thesis using that [of "u\<lparr>tmem := m'\<rparr>" u] m'(3,4) u(5-7) by (simp add: granting_def)
qed

section \<open>The dialogue\<close>

text \<open>What the client sends: a request for each chunk, and the statuses of each file that is complete.\<close>

definition request :: "byte list \<Rightarrow> byte list \<Rightarrow> nat \<Rightarrow> nat \<Rightarrow> control_message_view" where
  "request nm rv off left =
     Get_Chunk (Some (c_string nm)) (Some (c_string rv)) (of_nat off) (min XI_SFT_FILE_CHUNK_SIZE (of_nat left))"

fun requests :: "byte list \<Rightarrow> byte list \<Rightarrow> nat \<Rightarrow> byte list list \<Rightarrow> control_message_view list" where
  "requests nm rv off [] = []"
| "requests nm rv off (bs # cs) = request nm rv off (length (bs @ concat cs)) # requests nm rv (off + length bs) cs"

text \<open>Every chunk but the last leaves something to come.\<close>

definition cuts :: "byte list list \<Rightarrow> byte list \<Rightarrow> bool" where
  "cuts cs content \<longleftrightarrow> concat cs = content \<and> (length cs = 1 \<or> cs \<noteq> [] \<and> last cs \<noteq> [])"

lemma cuts_split:
  assumes "cuts cs content"
  obtains xs b where "cs = xs @ [b]" "content = concat xs @ b" "xs = [] \<or> b \<noteq> []"
  using assms that by (cases cs rule: rev_cases) (auto simp: cuts_def)

lemma package_after:
  assumes s: "package_here p l ds a k rest fw s" and u: "package_here p l ds a k' rest' fw' u"
    and v: "granting v" "live_blocks (tmem v) = live_blocks (tmem s)" "\<forall>q \<in> live_blocks (tmem v). control_messages v q = control_messages s q"
    "sft v = sft u" "file_descs v = file_descs u"
  shows "package_here p l ds a k' rest' fw' v"
  using s u v by (auto simp: package_here_def deref_control_message_def split: if_split_asm)

lemma arrived_talks:
  assumes "t = s\<lparr>tmem := m, control_messages := cm\<rparr>" "talks msgs t u"
  shows "granting u \<and> live_blocks (tmem u) = live_blocks m - {} \<and> (\<forall>q \<in> live_blocks (tmem u). control_messages u q = cm q)
    \<and> sent_messages u = sent_messages s @ msgs \<and> sft_block u = sft_block s"
  using assms by (simp add: talks_def)

lemma chunk_delivered:
  fixes s :: "('f, 'w, 'z) xi_sft_scheme"
  assumes b: "stores_files bsp view" "checksums bsp view hash" and s: "package_here p l ds a k rest fw s" "sft_block s \<in> live_blocks (tmem s)"
    and i: "update_current_file (sft s) = Some (l, i)" "i < length ds" "describes hash (ds ! i) (nm, rv, content)"
    and r: "got = [] \<or> receiving view nm got s" and c: "content = got @ bs @ later" "later \<noteq> []"
  obtains v where "deliver_chunk bsp nm (length got) bs s = Some v"
    "package_here p l ds a k rest fw v" "update_current_file (sft v) = Some (l, i)" "receiving view nm (got @ bs) v"
    "talks [request nm rv (length (got @ bs)) (length later)] s v"
    "stored (view (sft_world v)) = (stored (view (sft_world s)))(nm \<mapsto> got @ bs)" "finished (view (sft_world v)) = finished (view (sft_world s))"
proof -
  have n: "short_string nm" "length bs < 2 ^ 32" "granting s" using i(3) c(1) s(1) by (simp_all add: describes_def names_def package_here_def)
  let ?P = "\<lambda>u :: ('f, 'w, 'z) xi_sft_scheme. package_here p l ds a k rest fw u \<and> update_current_file (sft u) = Some (l, i) \<and> receiving view nm (got @ bs) u
    \<and> stored (view (sft_world u)) = (stored (view (sft_world s)))(nm \<mapsto> got @ bs) \<and> finished (view (sft_world u)) = finished (view (sft_world s))
    \<and> file_descs u = file_descs s"
  have h: "\<exists>u. on_file_chunk bsp (Some (x, c_string nm)) (of_nat (length got)) (of_nat (length bs)) (Some (y, bs)) t = Some (XI_STATE_OK, u)
        \<and> granting u \<and> live_blocks (tmem u) = live_blocks m - {} \<and> (\<forall>q \<in> live_blocks (tmem u). control_messages u q = cm q)
        \<and> sent_messages u = sent_messages s @ [request nm rv (length (got @ bs)) (length later)] \<and> sft_block u = sft_block s \<and> ?P u"
    if t: "t = s\<lparr>tmem := m, control_messages := cm\<rparr>" "live_blocks (tmem s) \<subseteq> live_blocks m"
      "\<forall>q \<in> live_blocks (tmem s). cm q = control_messages s q" "granting t" for t x y m cm
  proof -
    have pt: "package_here p l ds a k rest fw t" by (rule package_arrival [OF s(1) t])
    have it: "update_current_file (sft t) = Some (l, i)" "got = [] \<or> receiving view nm got t" using i(1) r t(1) by (simp_all add: receiving_def)
    obtain u where u: "on_file_chunk bsp (Some (x, c_string nm)) (of_nat (length got)) (of_nat (length bs)) (Some (y, bs)) t = Some (XI_STATE_OK, u)"
      "package_here p l ds a k rest fw u" "update_current_file (sft u) = Some (l, i)" "receiving view nm (got @ bs) u"
      "talks [Get_Chunk (Some (c_string nm)) (Some (c_string rv)) (of_nat (length (got @ bs))) (min XI_SFT_FILE_CHUNK_SIZE (of_nat (length later)))] t u"
      "stored (view (sft_world u)) = (stored (view (sft_world t)))(nm \<mapsto> got @ bs)" "finished (view (sft_world u)) = finished (view (sft_world t))"
      by (rule chunk_continued [OF b pt it(1) i(2,3) it(2) c])
    have "file_descs u = file_descs s" using u(5) t(1) by (simp add: talks_def)
    then show ?thesis
      using u arrived_talks [OF t(1) u(5)] t(1) by (intro exI [of _ u]) (simp add: request_def)
  qed
  obtain v and u :: "('f, 'w, 'z) xi_sft_scheme" where v: "deliver_chunk bsp nm (length got) bs s = Some v" "granting v" "live_blocks (tmem v) = live_blocks (tmem s) - {}"
    "\<forall>q \<in> live_blocks (tmem v). control_messages v q = control_messages s q"
    "sent_messages v = sent_messages s @ [request nm rv (length (got @ bs)) (length later)]" "sft_block v = sft_block s"
    "?P u" "sft v = sft u" "file_descs v = file_descs u" "sft_world v = sft_world u"
    by (rule delivered [OF n(3) s(2) n(1,2) h empty_subsetI])
  have "package_here p l ds a k rest fw v" by (rule package_after [OF s(1) conjunct1 [OF v(7)] v(2)]) (use v(3,4,8,9) in auto)
  moreover have "talks [request nm rv (length (got @ bs)) (length later)] s v" using v by (simp add: talks_def)
  ultimately show thesis using that v(1,7,8,10) by (simp add: receiving_def)
qed

lemma chunks_delivered:
  fixes s :: "('f, 'w, 'z) xi_sft_scheme"
  assumes b: "stores_files bsp view" "checksums bsp view hash" and s: "package_here p l ds a k rest fw s" "sft_block s \<in> live_blocks (tmem s)"
    and i: "update_current_file (sft s) = Some (l, i)" "i < length ds" "describes hash (ds ! i) (nm, rv, content)"
    and r: "got = [] \<or> receiving view nm got s" and c: "content = got @ concat cs @ later" "later \<noteq> []"
  shows "\<exists>v. deliver_file bsp nm (length got) cs s = Some v
    \<and> package_here p l ds a k rest fw v \<and> update_current_file (sft v) = Some (l, i) \<and> (got @ concat cs = [] \<or> receiving view nm (got @ concat cs) v)
    \<and> talks (tl (requests nm rv (length got) (cs @ [later]))) s v
    \<and> (stored (view (sft_world v))) (nm := None) = (stored (view (sft_world s))) (nm := None)
    \<and> finished (view (sft_world v)) = finished (view (sft_world s))"
  using s i(1) r c(1)
proof (induction cs arbitrary: got s)
  case Nil
  then show ?case using talks_refl [of s] by (auto simp: package_here_def)
next
  case (Cons bs cs)
  have c': "content = got @ bs @ (concat cs @ later)" "concat cs @ later \<noteq> []" using Cons.prems(5) c(2) by simp_all
  obtain u where u: "deliver_chunk bsp nm (length got) bs s = Some u"
    "package_here p l ds a k rest fw u" "update_current_file (sft u) = Some (l, i)" "receiving view nm (got @ bs) u"
    "talks [request nm rv (length (got @ bs)) (length (concat cs @ later))] s u"
    "stored (view (sft_world u)) = (stored (view (sft_world s)))(nm \<mapsto> got @ bs)" "finished (view (sft_world u)) = finished (view (sft_world s))"
    by (rule chunk_delivered [OF b Cons.prems(1,2,3) i(2,3) Cons.prems(4) c'])
  have sb: "sft_block u \<in> live_blocks (tmem u)" using u(5) Cons.prems(2) by (simp add: talks_def)
  have c2: "content = (got @ bs) @ concat cs @ later" using Cons.prems(5) by simp
  obtain v where v: "deliver_file bsp nm (length (got @ bs)) cs u = Some v"
    "package_here p l ds a k rest fw v" "update_current_file (sft v) = Some (l, i)" "(got @ bs) @ concat cs = [] \<or> receiving view nm ((got @ bs) @ concat cs) v"
    "talks (tl (requests nm rv (length (got @ bs)) (cs @ [later]))) u v"
    "(stored (view (sft_world v))) (nm := None) = (stored (view (sft_world u))) (nm := None)"
    "finished (view (sft_world v)) = finished (view (sft_world u))"
    using Cons.IH [OF u(2) sb u(3) disjI2 [OF u(4)] c2] by blast
  have q: "tl (requests nm rv (length got) ((bs # cs) @ [later]))
      = [request nm rv (length (got @ bs)) (length (concat cs @ later))] @ tl (requests nm rv (length (got @ bs)) (cs @ [later]))"
    by (cases cs) simp_all
  have "talks (tl (requests nm rv (length got) ((bs # cs) @ [later]))) s v" unfolding q by (rule talks_trans [OF u(5) v(5)])
  moreover have "deliver_file bsp nm (length got) (bs # cs) s = Some v" using u(1) v(1) by simp
  moreover have "got @ concat (bs # cs) = [] \<or> receiving view nm (got @ concat (bs # cs)) v" using v(4) by simp
  moreover have "(stored (view (sft_world v))) (nm := None) = (stored (view (sft_world s))) (nm := None)"
    using v(6) u(6) by (metis fun_upd_upd)
  moreover have "finished (view (sft_world v)) = finished (view (sft_world s))" using v(7) u(7) by simp
  ultimately show ?case using v(2,3) by blast
qed

lemma install_cong: "st (nm := None) = st' (nm := None) \<Longrightarrow> install is_fw (nm, rv, content) st = install is_fw (nm, rv, content) st'"
proof -
  assume "st (nm := None) = st' (nm := None)"
  then have "st(nm \<mapsto> content) = st'(nm \<mapsto> content)" by (metis fun_upd_upd)
  then show ?thesis by (simp add: install_def)
qed

text \<open>The last chunk of a file that others follow.\<close>

lemma file_handed_on:
  fixes s :: "('f, 'w, 'z) xi_sft_scheme"
  assumes b: "stores_files bsp view" "checksums bsp view hash" "firmware_functions bsp view is_fw ord"
    and s: "package_here p l ds a k (j # rest) fw s" "sft_block s \<in> live_blocks (tmem s)"
    and i: "update_current_file (sft s) = Some (l, i)" "i < length ds" "describes hash (ds ! i) (nm, rv, content)"
    and fw: "is_fw nm \<longleftrightarrow> fw = Some (l, i)" and r: "got = [] \<or> receiving view nm got s" and c: "content = got @ bs"
    and j: "describes hash (ds ! j) (nm', rv', content')"
  obtains v where "deliver_chunk bsp nm (length got) bs s = Some v"
    "package_here p l ds a (Suc k) rest (if is_fw nm' then Some (l, j) else fw) v" "update_current_file (sft v) = Some (l, j)"
    "talks (completion is_fw nm rv @ [request nm' rv' 0 (length content')]) s v"
    "stored (view (sft_world v)) = install is_fw (nm, rv, content) (stored (view (sft_world s)))"
    "finished (view (sft_world v)) = finished (view (sft_world s))"
proof -
  have n: "short_string nm" "length bs < 2 ^ 32" "granting s" using i(3) c(1) s(1) by (simp_all add: describes_def names_def package_here_def)
  let ?fw = "if is_fw nm' then Some (l, j) else fw"
  let ?msgs = "completion is_fw nm rv @ [request nm' rv' 0 (length content')]"
  let ?P = "\<lambda>u :: ('f, 'w, 'z) xi_sft_scheme. package_here p l ds a (Suc k) rest ?fw u \<and> update_current_file (sft u) = Some (l, j)
    \<and> stored (view (sft_world u)) = install is_fw (nm, rv, content) (stored (view (sft_world s)))
    \<and> finished (view (sft_world u)) = finished (view (sft_world s)) \<and> file_descs u = file_descs s"
  have h: "\<exists>u. on_file_chunk bsp (Some (x, c_string nm)) (of_nat (length got)) (of_nat (length bs)) (Some (y, bs)) t = Some (XI_STATE_OK, u)
        \<and> granting u \<and> live_blocks (tmem u) = live_blocks m - {} \<and> (\<forall>q \<in> live_blocks (tmem u). control_messages u q = cm q)
        \<and> sent_messages u = sent_messages s @ ?msgs \<and> sft_block u = sft_block s \<and> ?P u"
    if t: "t = s\<lparr>tmem := m, control_messages := cm\<rparr>" "live_blocks (tmem s) \<subseteq> live_blocks m"
      "\<forall>q \<in> live_blocks (tmem s). cm q = control_messages s q" "granting t" for t x y m cm
  proof -
    have pt: "package_here p l ds a k (j # rest) fw t" by (rule package_arrival [OF s(1) t])
    have it: "update_current_file (sft t) = Some (l, i)" "got = [] \<or> receiving view nm got t" using i(1) r t(1) by (simp_all add: receiving_def)
    obtain z where z: "on_file_chunk bsp (Some (x, c_string nm)) (of_nat (length got)) (of_nat (length bs)) (Some (y, bs)) t
        = do { u \<leftarrow> xi_sft_continue_package_download bsp z; Some (XI_STATE_OK, u) }"
      "package_here p l ds a k (j # rest) fw z" "talks (completion is_fw nm rv) t z"
      "stored (view (sft_world z)) = install is_fw (nm, rv, content) (stored (view (sft_world t)))"
      "finished (view (sft_world z)) = finished (view (sft_world t))"
      by (rule file_completed [where is_fw = is_fw and nm = nm, OF b(1,2) pt it(1) i(2,3) fw it(2) c])
    obtain u where u: "xi_sft_continue_package_download bsp z = Some u"
      "package_here p l ds a (Suc k) rest ?fw u" "update_current_file (sft u) = Some (l, j)"
      "talks [Get_Chunk (Some (c_string nm')) (Some (c_string rv')) 0 (min XI_SFT_FILE_CHUNK_SIZE (of_nat (length content')))] z u"
      "view (sft_world u) = view (sft_world z)"
      by (rule next_started [OF b(3) z(2) j])
    have tu: "talks ?msgs t u" using talks_trans [OF z(3) u(4)] by (simp add: request_def)
    have "file_descs u = file_descs s" using tu t(1) by (simp add: talks_def)
    then show ?thesis using z u arrived_talks [OF t(1) tu] t(1) by (intro exI [of _ u]) simp
  qed
  obtain v and u :: "('f, 'w, 'z) xi_sft_scheme" where v: "deliver_chunk bsp nm (length got) bs s = Some v" "granting v"
    "live_blocks (tmem v) = live_blocks (tmem s) - {}" "\<forall>q \<in> live_blocks (tmem v). control_messages v q = control_messages s q"
    "sent_messages v = sent_messages s @ ?msgs" "sft_block v = sft_block s"
    "?P u" "sft v = sft u" "file_descs v = file_descs u" "sft_world v = sft_world u"
    by (rule delivered [OF n(3) s(2) n(1,2) h empty_subsetI])
  have "package_here p l ds a (Suc k) rest ?fw v"
    by (rule package_after [OF s(1) conjunct1 [OF v(7)] v(2)]) (use v(3,4,8,9) in auto)
  moreover have "talks ?msgs s v" using v by (simp add: talks_def)
  ultimately show thesis using that v(1,7,8,10) by simp
qed

text \<open>The last chunk of the last file.\<close>

lemma package_completed:
  fixes s :: "('f, 'w, 'z) xi_sft_scheme"
  assumes b: "stores_files bsp view" "checksums bsp view hash" "firmware_functions bsp view is_fw ord"
    and s: "package_here p l ds a k [] fw s" "sft_block s \<in> live_blocks (tmem s)" "package_blocks p l ds \<subseteq> live_blocks (tmem s)"
    and i: "update_current_file (sft s) = Some (l, i)" "i < length ds" "describes hash (ds ! i) (nm, rv, content)"
    and fw: "is_fw nm \<longleftrightarrow> fw = Some (l, i)" and r: "got = [] \<or> receiving view nm got s" and c: "content = got @ bs"
    and F: "firmware_named l ds fw F"
  obtains v where "deliver_chunk bsp nm (length got) bs s = Some v"
    "closes_package (package_blocks p l ds) (completion is_fw nm rv @ farewell F) s v"
    "stored (view (sft_world v)) = install is_fw (nm, rv, content) (stored (view (sft_world s)))"
    "finished (view (sft_world v)) = finished (view (sft_world s)) @ [map_option fst F]" "update_firmware (sft v) = fw"
proof -
  have n: "short_string nm" "length bs < 2 ^ 32" "granting s" using i(3) c(1) s(1) by (simp_all add: describes_def names_def package_here_def)
  let ?msgs = "completion is_fw nm rv @ farewell F" and ?X = "package_blocks p l ds"
  let ?P = "\<lambda>u :: ('f, 'w, 'z) xi_sft_scheme. update_message_fua (sft u) = NULL \<and> update_current_file (sft u) = None
    \<and> update_firmware (sft u) = fw \<and> stored (view (sft_world u)) = install is_fw (nm, rv, content) (stored (view (sft_world s)))
    \<and> finished (view (sft_world u)) = finished (view (sft_world s)) @ [map_option fst F]"
  have h: "\<exists>u. on_file_chunk bsp (Some (x, c_string nm)) (of_nat (length got)) (of_nat (length bs)) (Some (y, bs)) t = Some (XI_STATE_OK, u)
        \<and> granting u \<and> live_blocks (tmem u) = live_blocks m - ?X \<and> (\<forall>q \<in> live_blocks (tmem u). control_messages u q = cm q)
        \<and> sent_messages u = sent_messages s @ ?msgs \<and> sft_block u = sft_block s \<and> ?P u"
    if t: "t = s\<lparr>tmem := m, control_messages := cm\<rparr>" "live_blocks (tmem s) \<subseteq> live_blocks m"
      "\<forall>q \<in> live_blocks (tmem s). cm q = control_messages s q" "granting t" for t x y m cm
  proof -
    have pt: "package_here p l ds a k [] fw t" by (rule package_arrival [OF s(1) t])
    have it: "update_current_file (sft t) = Some (l, i)" "got = [] \<or> receiving view nm got t" using i(1) r t(1) by (simp_all add: receiving_def)
    obtain z where z: "on_file_chunk bsp (Some (x, c_string nm)) (of_nat (length got)) (of_nat (length bs)) (Some (y, bs)) t
        = do { u \<leftarrow> xi_sft_continue_package_download bsp z; Some (XI_STATE_OK, u) }"
      "package_here p l ds a k [] fw z" "talks (completion is_fw nm rv) t z"
      "stored (view (sft_world z)) = install is_fw (nm, rv, content) (stored (view (sft_world t)))"
      "finished (view (sft_world z)) = finished (view (sft_world t))"
      by (rule file_completed [where is_fw = is_fw and nm = nm, OF b(1,2) pt it(1) i(2,3) fw it(2) c])
    obtain u where u: "xi_sft_continue_package_download bsp z = Some u" "closes_package ?X (farewell F) z u"
      "stored (view (sft_world u)) = stored (view (sft_world z))"
      "finished (view (sft_world u)) = finished (view (sft_world z)) @ [map_option fst F]" "update_firmware (sft u) = fw"
      by (rule package_finished [OF b(3) z(2) F])
    have "closes_package ?X ?msgs t u" by (rule talks_closes [OF z(3) u(2)])
    then show ?thesis using z u t(1) by (intro exI [of _ u]) (simp add: closes_package_def)
  qed
  obtain v and u :: "('f, 'w, 'z) xi_sft_scheme" where v: "deliver_chunk bsp nm (length got) bs s = Some v" "granting v"
    "live_blocks (tmem v) = live_blocks (tmem s) - ?X" "\<forall>q \<in> live_blocks (tmem v). control_messages v q = control_messages s q"
    "sent_messages v = sent_messages s @ ?msgs" "sft_block v = sft_block s"
    "?P u" "sft v = sft u" "file_descs v = file_descs u" "sft_world v = sft_world u"
    by (rule delivered [OF n(3) s(2) n(1,2) h s(3)])
  then have "closes_package ?X ?msgs s v" by (simp add: closes_package_def)
  then show thesis using that v(1,7,8,10) by simp
qed

section \<open>The whole package\<close>

lemma file_prefix_delivered:
  fixes s :: "('f, 'w, 'z) xi_sft_scheme"
  assumes b: "stores_files bsp view" "checksums bsp view hash" and s: "package_here p l ds a k rest fw s" "sft_block s \<in> live_blocks (tmem s)"
    and i: "update_current_file (sft s) = Some (l, i)" "i < length ds" "describes hash (ds ! i) (nm, rv, content)" and c: "cuts cs content"
  obtains xs bs u where "cs = xs @ [bs]" "content = concat xs @ bs" "deliver_file bsp nm 0 xs s = Some u" "package_here p l ds a k rest fw u"
    "update_current_file (sft u) = Some (l, i)" "concat xs = [] \<or> receiving view nm (concat xs) u" "talks (tl (requests nm rv 0 cs)) s u"
    "(stored (view (sft_world u))) (nm := None) = (stored (view (sft_world s))) (nm := None)"
    "finished (view (sft_world u)) = finished (view (sft_world s))"
proof -
  obtain xs bs where x: "cs = xs @ [bs]" "content = concat xs @ bs" "xs = [] \<or> bs \<noteq> []" by (rule cuts_split [OF c])
  show thesis
  proof (cases "xs = []")
    case True
    then show thesis using that [OF x(1,2), of s] s i(1) x(1) talks_refl [of s] by (simp add: package_here_def)
  next
    case False
    then have "bs \<noteq> []" using x(3) by simp
    then show thesis using chunks_delivered [OF b s i, of "[]" xs bs] x(1,2) that [OF x(1,2)] by auto
  qed
qed

definition deliver_package ::
    "'w bsp_sft \<Rightarrow> ((byte list \<times> byte list \<times> byte list) \<times> byte list list) list \<Rightarrow> ('f, 'w, 'z) xi_sft_scheme
       \<Rightarrow> ('f, 'w, 'z) xi_sft_scheme option" where
  "deliver_package bsp = fold_option (\<lambda>((nm, rv, content), cs). deliver_file bsp nm 0 cs)"

definition file_dialogue :: "(byte list \<Rightarrow> bool) \<Rightarrow> (byte list \<times> byte list \<times> byte list) \<times> byte list list \<Rightarrow> control_message_view list" where
  "file_dialogue is_fw = (\<lambda>((nm, rv, content), cs). requests nm rv 0 cs @ completion is_fw nm rv)"

definition firmware_of :: "(byte list \<Rightarrow> bool) \<Rightarrow> (byte list \<times> byte list \<times> byte list) list \<Rightarrow> (byte list \<times> byte list) option \<Rightarrow> (byte list \<times> byte list) option" where
  "firmware_of is_fw = fold (\<lambda>(nm, rv, content) F. if is_fw nm then Some (nm, rv) else F)"

lemma requests_first: "cuts cs content \<Longrightarrow> requests nm rv 0 cs = request nm rv 0 (length content) # tl (requests nm rv 0 cs)"
  by (cases cs) (auto simp: cuts_def)

lemma tl_joined: "r = x # tl r \<Longrightarrow> d = y # tl d \<Longrightarrow> tl (r @ c @ d) = (tl r @ c @ [y]) @ tl d"
  by (cases r; cases d) simp_all

lemma package_delivered:
  fixes s :: "('f, 'w, 'z) xi_sft_scheme"
  assumes b: "stores_files bsp view" "checksums bsp view hash" "firmware_functions bsp view is_fw ord"
    and fs: "list_all2 (describes hash) ds files"
    and s: "package_here p l ds a k rest fw s" "sft_block s \<in> live_blocks (tmem s)" "package_blocks p l ds \<subseteq> live_blocks (tmem s)"
    and i: "update_current_file (sft s) = Some (l, i)" "i < length ds" "distinct (i # rest)"
    and fw: "is_fw (fst (files ! i)) \<longleftrightarrow> fw = Some (l, i)" "\<forall>j \<in> set rest. fw \<noteq> Some (l, j)" "firmware_named l ds fw F"
    and c: "cuts cs (snd (snd (files ! i)))" "list_all2 (\<lambda>j cs. cuts cs (snd (snd (files ! j)))) rest css"
  shows "\<exists>v. deliver_package bsp (zip (map ((!) files) (i # rest)) (cs # css)) s = Some v
    \<and> closes_package (package_blocks p l ds) (tl (concat (map (file_dialogue is_fw) (zip (map ((!) files) (i # rest)) (cs # css))))
        @ farewell (firmware_of is_fw (map ((!) files) rest) F)) s v
    \<and> stored (view (sft_world v)) = fold (install is_fw) (map ((!) files) (i # rest)) (stored (view (sft_world s)))
    \<and> finished (view (sft_world v)) = finished (view (sft_world s)) @ [map_option fst (firmware_of is_fw (map ((!) files) rest) F)]"
  using s i fw c
proof (induction rest arbitrary: k i fw F s cs css)
  case Nil
  obtain nm rv content where f: "files ! i = (nm, rv, content)" by (cases "files ! i")
  have d: "describes hash (ds ! i) (nm, rv, content)" using fs Nil.prems(5) f by (metis list_all2_nthD)
  have cs: "cuts cs content" using Nil.prems(10) f by simp
  obtain xs bs u where u: "cs = xs @ [bs]" "content = concat xs @ bs" "deliver_file bsp nm 0 xs s = Some u" "package_here p l ds a k [] fw u"
    "update_current_file (sft u) = Some (l, i)" "concat xs = [] \<or> receiving view nm (concat xs) u" "talks (tl (requests nm rv 0 cs)) s u"
    "(stored (view (sft_world u))) (nm := None) = (stored (view (sft_world s))) (nm := None)"
    "finished (view (sft_world u)) = finished (view (sft_world s))"
    by (rule file_prefix_delivered [OF b(1,2) Nil.prems(1,2,4,5) d cs])
  have ub: "sft_block u \<in> live_blocks (tmem u)" "package_blocks p l ds \<subseteq> live_blocks (tmem u)" "is_fw nm \<longleftrightarrow> fw = Some (l, i)"
    using u(7) Nil.prems(2,3,7) f by (simp_all add: talks_def)
  obtain v where v: "deliver_chunk bsp nm (length (concat xs)) bs u = Some v"
    "closes_package (package_blocks p l ds) (completion is_fw nm rv @ farewell F) u v"
    "stored (view (sft_world v)) = install is_fw (nm, rv, content) (stored (view (sft_world u)))"
    "finished (view (sft_world v)) = finished (view (sft_world u)) @ [map_option fst F]" "update_firmware (sft v) = fw"
    by (rule package_completed [where is_fw = is_fw and nm = nm, OF b u(4) ub(1,2) u(5) Nil.prems(5) d ub(3) u(6,2) Nil.prems(9)])
  have "css = []" using Nil.prems(11) by simp
  moreover have "deliver_file bsp nm 0 cs s = Some v" using u(1,3) v(1) by (simp add: deliver_file_append)
  moreover have "closes_package (package_blocks p l ds) (tl (requests nm rv 0 cs @ completion is_fw nm rv) @ farewell F) s v"
    using talks_closes [OF u(7) v(2)] requests_first [OF cs, of nm rv] by (metis append.assoc list.distinct(1) tl_append2)
  moreover note install_cong [OF u(8), of is_fw rv content]
  ultimately show ?case using v(3,4) u(9) f by (simp add: deliver_package_def file_dialogue_def firmware_of_def)
next
  case (Cons j rest)
  obtain nm rv content where f: "files ! i = (nm, rv, content)" by (cases "files ! i")
  obtain nm' rv' content' where f': "files ! j = (nm', rv', content')" by (cases "files ! j")
  have lt: "j < length ds" using Cons.prems(1) by (simp add: package_here_def)
  have d: "describes hash (ds ! i) (nm, rv, content)" "describes hash (ds ! j) (nm', rv', content')"
    using fs Cons.prems(5) lt f f' by (metis list_all2_nthD)+
  have cs: "cuts cs content" using Cons.prems(10) f by simp
  obtain cs' css' where css: "css = cs' # css'" "cuts cs' (snd (snd (files ! j)))" "list_all2 (\<lambda>j cs. cuts cs (snd (snd (files ! j)))) rest css'"
    using Cons.prems(11) by (auto simp: list_all2_Cons1)
  obtain xs bs u where u: "cs = xs @ [bs]" "content = concat xs @ bs" "deliver_file bsp nm 0 xs s = Some u" "package_here p l ds a k (j # rest) fw u"
    "update_current_file (sft u) = Some (l, i)" "concat xs = [] \<or> receiving view nm (concat xs) u" "talks (tl (requests nm rv 0 cs)) s u"
    "(stored (view (sft_world u))) (nm := None) = (stored (view (sft_world s))) (nm := None)"
    "finished (view (sft_world u)) = finished (view (sft_world s))"
    by (rule file_prefix_delivered [OF b(1,2) Cons.prems(1,2,4,5) d(1) cs])
  have ub: "sft_block u \<in> live_blocks (tmem u)" "is_fw nm \<longleftrightarrow> fw = Some (l, i)" using u(7) Cons.prems(2,7) f by (simp_all add: talks_def)
  let ?fw = "if is_fw nm' then Some (l, j) else fw" and ?F = "if is_fw nm' then Some (nm', rv') else F"
  obtain v where v: "deliver_chunk bsp nm (length (concat xs)) bs u = Some v" "package_here p l ds a (Suc k) rest ?fw v"
    "update_current_file (sft v) = Some (l, j)" "talks (completion is_fw nm rv @ [request nm' rv' 0 (length content')]) u v"
    "stored (view (sft_world v)) = install is_fw (nm, rv, content) (stored (view (sft_world u)))"
    "finished (view (sft_world v)) = finished (view (sft_world u))"
    by (rule file_handed_on [where is_fw = is_fw and nm = nm, OF b u(4) ub(1) u(5) Cons.prems(5) d(1) ub(2) u(6,2) d(2)])
  have tv: "talks (tl (requests nm rv 0 cs) @ completion is_fw nm rv @ [request nm' rv' 0 (length content')]) s v"
    using talks_trans [OF u(7) v(4)] .
  have vb: "sft_block v \<in> live_blocks (tmem v)" "package_blocks p l ds \<subseteq> live_blocks (tmem v)" using tv Cons.prems(2,3) by (simp_all add: talks_def)
  have dj: "distinct (j # rest)" "is_fw (fst (files ! j)) \<longleftrightarrow> ?fw = Some (l, j)" "\<forall>q \<in> set rest. ?fw \<noteq> Some (l, q)"
    using Cons.prems(6,8) f' by auto
  have "names (ds ! j) nm' rv'" using d(2) by (simp add: describes_def)
  then have fj: "firmware_named l ds ?fw ?F" using Cons.prems(9) lt by (auto simp: firmware_named_def)
  obtain w where w: "deliver_package bsp (zip (map ((!) files) (j # rest)) (cs' # css')) v = Some w"
    "closes_package (package_blocks p l ds) (tl (concat (map (file_dialogue is_fw) (zip (map ((!) files) (j # rest)) (cs' # css'))))
        @ farewell (firmware_of is_fw (map ((!) files) rest) ?F)) v w"
    "stored (view (sft_world w)) = fold (install is_fw) (map ((!) files) (j # rest)) (stored (view (sft_world v)))"
    "finished (view (sft_world w)) = finished (view (sft_world v)) @ [map_option fst (firmware_of is_fw (map ((!) files) rest) ?F)]"
    using Cons.IH [OF v(2) vb v(3) lt dj fj css(2,3)] by blast
  have del: "deliver_file bsp nm 0 cs s = Some v" using u(1,3) v(1) by (simp add: deliver_file_append)
  have rq: "requests nm' rv' 0 cs' = request nm' rv' 0 (length content') # tl (requests nm' rv' 0 cs')"
    using requests_first css(2) f' by simp
  let ?d = "concat (map (file_dialogue is_fw) (zip (map ((!) files) (j # rest)) (cs' # css')))"
  have "?d = requests nm' rv' 0 cs' @ completion is_fw nm' rv' @ concat (map (file_dialogue is_fw) (zip (map ((!) files) rest) css'))"
    using f' by (simp add: file_dialogue_def)
  then have hd: "?d = request nm' rv' 0 (length content') # tl ?d" using rq by (metis append_Cons list.sel(3))
  have "tl (requests nm rv 0 cs @ completion is_fw nm rv @ ?d) = (tl (requests nm rv 0 cs) @ completion is_fw nm rv @ [request nm' rv' 0 (length content')]) @ tl ?d"
    by (rule tl_joined [OF requests_first [OF cs] hd])
  then have cl: "closes_package (package_blocks p l ds) (tl (requests nm rv 0 cs @ completion is_fw nm rv @ ?d) @ farewell (firmware_of is_fw (map ((!) files) rest) ?F)) s w"
    using talks_closes [OF tv w(2)] by simp
  have e: "concat (map (file_dialogue is_fw) (zip (map ((!) files) (i # j # rest)) (cs # css))) = requests nm rv 0 cs @ completion is_fw nm rv @ ?d"
    using f css(1) by (simp add: file_dialogue_def)
  have ff: "firmware_of is_fw (map ((!) files) (j # rest)) F = firmware_of is_fw (map ((!) files) rest) ?F" using f' by (simp add: firmware_of_def)
  have dp: "deliver_package bsp (zip (map ((!) files) (i # j # rest)) (cs # css)) s = Some w"
    using del w(1) f css(1) by (simp add: deliver_package_def)
  have st: "stored (view (sft_world w)) = fold (install is_fw) (map ((!) files) (i # j # rest)) (stored (view (sft_world s)))"
    using w(3) v(5) install_cong [OF u(8), of is_fw rv content] f by simp
  show ?case unfolding e ff using dp cl st w(4) v(6) u(9) by (intro exI [of _ w]) simp
qed

end
