(* ===== verification/Xi_Sft_Example.thy ===== *)
theory Xi_Sft_Example
  imports Xi_Sft_Download
begin

text \<open>
  A platform whose files, checksum contexts and reports are a \<open>file_store\<close>: it keeps what the laws
  of \<open>Xi_Sft_Download\<close> ask for. And a client on it, with a package of two files in its memory.
\<close>

section \<open>A platform in memory\<close>

definition ram_open :: "byte list \<Rightarrow> nat \<Rightarrow> xi_bsp_io_fs_open_flags \<Rightarrow> int \<Rightarrow> file_store \<Rightarrow> xi_bsp_io_fs_state \<times> int \<times> file_store" where
  "ram_open nm n flags h w =
     (if flags = XI_BSP_IO_FS_OPEN_WRITE
      then (XI_BSP_IO_FS_STATE_OK, 5, w\<lparr>stored := (stored w)(nm \<mapsto> []), opened := (opened w)(5 \<mapsto> nm)\<rparr>)
      else if stored w nm = None then (XI_BSP_IO_FS_RESOURCE_NOT_AVAILABLE, h, w)
      else (XI_BSP_IO_FS_STATE_OK, 5, w\<lparr>opened := (opened w)(5 \<mapsto> nm)\<rparr>))"

text \<open>A read gives at most 1024 bytes, as on the platforms of the repository.\<close>

definition ram_read :: "int \<Rightarrow> nat \<Rightarrow> file_store \<Rightarrow> xi_bsp_io_fs_state \<times> byte list \<times> file_store" where
  "ram_read h off w = (case Option.bind (opened w h) (stored w) of
     None \<Rightarrow> (XI_BSP_IO_FS_READ_ERROR, [], w)
   | Some c \<Rightarrow> (XI_BSP_IO_FS_STATE_OK, take 1024 (drop off c), w))"

definition ram_write :: "int \<Rightarrow> byte list \<Rightarrow> nat \<Rightarrow> file_store \<Rightarrow> xi_bsp_io_fs_state \<times> nat \<times> file_store" where
  "ram_write h bs off w = (case opened w h of
     None \<Rightarrow> (XI_BSP_IO_FS_WRITE_ERROR, 0, w)
   | Some nm \<Rightarrow> (case stored w nm of
       None \<Rightarrow> (XI_BSP_IO_FS_WRITE_ERROR, 0, w)
     | Some c \<Rightarrow> (XI_BSP_IO_FS_STATE_OK, length bs, w\<lparr>stored := (stored w)(nm \<mapsto> take off c @ bs)\<rparr>)))"

definition ram_bsp :: "(byte list \<Rightarrow> byte list) \<Rightarrow> (byte list \<Rightarrow> bool) \<Rightarrow> file_store bsp_sft" where
  "ram_bsp hash is_fw = \<lparr>
     fs_open = ram_open, fs_read = ram_read, fs_write = ram_write,
     fs_close = (\<lambda>h w. (if opened w h = None then XI_BSP_IO_FS_CLOSE_ERROR else XI_BSP_IO_FS_STATE_OK,
       w\<lparr>opened := (opened w)(h := None)\<rparr>)),
     fs_remove = (\<lambda>nm w. (XI_BSP_IO_FS_STATE_OK, w\<lparr>stored := (stored w)(nm := None)\<rparr>)),
     fwu_is_this_firmware = (\<lambda>nm w. (if is_fw nm then 1 else 0, w)),
     fwu_on_new_firmware_ok = (\<lambda>w. (True, w)), fwu_on_new_firmware_failure = (\<lambda>w. w),
     fwu_on_package_download_failure = (\<lambda>w. w),
     fwu_on_package_download_finished = (\<lambda>nm w. w\<lparr>finished := finished w @ [nm]\<rparr>),
     fwu_order_resource_downloads = (\<lambda>ns _ w. (\<lambda>i. int (length ns - Suc i), w)),
     fwu_checksum_init = (\<lambda>w. (1, w\<lparr>digests := (digests w)(1 \<mapsto> [])\<rparr>)),
     fwu_checksum_update = (\<lambda>k bs w. case digests w k of None \<Rightarrow> w | Some c \<Rightarrow> w\<lparr>digests := (digests w)(k \<mapsto> c @ bs)\<rparr>),
     fwu_checksum_final = (\<lambda>k w. (NULL, case digests w k of None \<Rightarrow> [] | Some c \<Rightarrow> hash c, w\<lparr>digests := (digests w)(k := None)\<rparr>)),
     url_handler = (\<lambda>link nm fp n also_mqtt w. (0, w))\<rparr>"

lemma ram_stores_files: "stores_files (ram_bsp hash is_fw) (\<lambda>w. w)"
  by (simp add: stores_files_def ram_bsp_def ram_open_def ram_write_def)

lemma ram_checksums: "checksums (ram_bsp hash is_fw) (\<lambda>w. w) hash"
  by (simp add: checksums_def ram_bsp_def)

lemma ram_firmware_functions: "firmware_functions (ram_bsp hash is_fw) (\<lambda>w. w) is_fw (\<lambda>ns. rev [0..<length ns])"
proof -
  have "map (\<lambda>i. int (n - Suc i)) [0..<n] = map int (rev [0..<n])" for n
    by (rule nth_equalityI) (simp_all add: rev_nth)
  then show ?thesis by (simp add: firmware_functions_def ram_bsp_def del: map_map)
qed

section \<open>A client\<close>

definition example_hash :: "byte list \<Rightarrow> byte list" where "example_hash c = [sum_list c, of_nat (length c)]"

definition is_f :: "byte list \<Rightarrow> bool" where "is_f nm \<longleftrightarrow> nm = [102]"

definition example_files :: "(byte list \<times> byte list \<times> byte list) list" where
  "example_files = [([102], [50], [1, 2, 3]), ([97], [49], [4])]"

definition example_desc :: "addr \<Rightarrow> byte list \<times> byte list \<times> byte list \<Rightarrow> xi_control_message_file_desc_ext" where
  "example_desc a = (\<lambda>(nm, rv, content). \<lparr>file_name = Some (a, c_string nm), file_revision = Some (a + 1, c_string rv),
     file_operation = 0, size_in_bytes = of_nat (length content),
     fingerprint = Some (a + 2, example_hash content), fingerprint_len = of_nat (length (example_hash content)),
     download_link = None, flag_mqtt_download_also_supported = 0\<rparr>)"

definition example_descs :: "xi_control_message_file_desc_ext list" where
  "example_descs = [example_desc 32 (example_files ! 0), example_desc 35 (example_files ! 1)]"

definition empty_store :: file_store where
  "empty_store = \<lparr>stored = (\<lambda>_. None), opened = (\<lambda>_. None), digests = (\<lambda>_. None), finished = []\<rparr>"

definition sft_example :: "(nat, file_store) xi_sft" where
  "sft_example = \<lparr>
     tv = \<lparr>vec_block = 1, array_block = 2, array = [0, 0], elem_no = 0, capacity = 2,
           memory_type = XI_MEMORY_TYPE_MANAGED\<rparr>,
     tevs = (\<lambda>p. \<lparr>event_handle = xi_make_empty_handle_impl 0, time_of_execution = 0, position = 0,
        time_event_handle = 0\<rparr>),
     handles = (\<lambda>c. NULL),
     tmem = \<lparr>alloc_script = [], next_block = 80,
        live_blocks = {1, 2, 6, 7, 8, 10, 11, 20, 30, 31, 32, 33, 34, 35, 36, 37}\<rparr>,
     evtd_block = 6, current_step = 1000, call_queue = [],
     handles_and_socket_fd = \<lparr>vec_block = 7, array_block = 8, array = [0, 0], elem_no = 0, capacity = 2,
           memory_type = XI_MEMORY_TYPE_MANAGED\<rparr>,
     handles_and_file_fd = \<lparr>vec_block = 10, array_block = 11, array = [0, 0], elem_no = 0, capacity = 2,
           memory_type = XI_MEMORY_TYPE_MANAGED\<rparr>,
     fd_tuples = (\<lambda>_. \<lparr>fd = 5, handle = xi_make_empty_handle_impl 0, read_handle = xi_make_empty_handle_impl 0,
           event_type = XI_EVENT_WANT_READ, fd_type = XI_EVTD_FD_TYPE_SOCKET\<rparr>),
     on_empty = xi_make_empty_handle_impl 0, stop = 0,
     sft_block = 20,
     sft = \<lparr>fn_send_message = True, updateable_files = Some [Some (c_string [102]), Some (c_string [97])],
        updateable_files_count = 2, updateable_files_download_order = None, update_message_fua = NULL,
        update_current_file = None, update_firmware = None,
        update_file_handle = XI_BSP_IO_FS_INVALID_RESOURCE_HANDLE, sft_url_handler_callback = False,
        checksum_context = NULL\<rparr>,
     control_messages = (\<lambda>_. XI_CONTROL_MESSAGE_SC__SFT_FILE_UPDATE_AVAILABLE 2 31),
     file_descs = (\<lambda>_. example_descs), sft_world = empty_store, app_strings = (\<lambda>_. None), sent_messages = []\<rparr>"

text \<open>The client while it receives the file \<open>a\<close>; and when it has received both files.\<close>

definition receiving_example :: "(nat, file_store) xi_sft" where
  "receiving_example = set_sft (\<lambda>c. c\<lparr>update_message_fua := 30, update_current_file := Some (31, 1), checksum_context := 1\<rparr>) sft_example"

definition complete_example :: "(nat, file_store) xi_sft" where
  "complete_example = set_sft (\<lambda>c. c\<lparr>update_message_fua := 30, update_current_file := Some (31, 0), update_firmware := Some (31, 0),
     updateable_files_download_order := Some (37, [-1, -1])\<rparr>) sft_example"

lemma sft_example_granting: "granting sft_example"
  by (simp add: granting_def mem_ok_def sft_example_def)

lemma example_described: "list_all2 (describes example_hash) example_descs example_files"
  by (simp add: example_descs_def example_files_def describes_def names_def example_desc_def short_string_def example_hash_def)

end
