(* ===== verification/Xi_Sft_Report.thy ===== *)
theory Xi_Sft_Report
  imports Xi_Sft_Example
begin

text \<open>
  What the client reports when it has connected: the revision of each of its files, read from the
  file that notes it; the revision of new firmware, that the mailbox carries over the restart, once
  the platform has confirmed the firmware. The code reads a file with one call, which on most
  platforms gives no more than the first \<open>lim = 1024\<close> bytes; what is behind them is lost.
\<close>

section \<open>Reading\<close>

definition same_files :: "('w \<Rightarrow> file_store) \<Rightarrow> 'w \<Rightarrow> 'w \<Rightarrow> bool" where
  "same_files view w w' \<longleftrightarrow> stored (view w') = stored (view w) \<and> finished (view w') = finished (view w)"

text \<open>
  What \<open>xi_bsp_io_fs.h\<close> promises of reading: a file that is there can be opened, one that is not
  cannot; a read gives a part of the file, here the first \<open>lim\<close> bytes; a file can be removed.
\<close>

definition reads_files :: "'w bsp_sft \<Rightarrow> ('w \<Rightarrow> file_store) \<Rightarrow> nat \<Rightarrow> bool" where
  "reads_files bsp view lim \<longleftrightarrow>
     (\<forall>nm n h w. \<exists>r h' w'. fs_open bsp nm n XI_BSP_IO_FS_OPEN_READ h w = (r, h', w')
        \<and> (if stored (view w) nm = None
           then xi_fs_bsp_io_fs_2_xi_state r \<noteq> XI_STATE_OK \<and> same_files view w (snd (fs_close bsp h' w'))
           else r = XI_BSP_IO_FS_STATE_OK \<and> same_files view w w' \<and> opened (view w') h' = Some nm))
   \<and> (\<forall>nm h c w. opened (view w) h = Some nm \<and> stored (view w) nm = Some c \<longrightarrow>
        (\<exists>w'. fs_read bsp h 0 w = (XI_BSP_IO_FS_STATE_OK, take lim c, w') \<and> view w' = view w))
   \<and> (\<forall>nm w. \<exists>r w'. fs_remove bsp nm w = (r, w') \<and> view w' = (view w)\<lparr>stored := (stored (view w))(nm := None)\<rparr>)"

lemma ram_reads_files: "reads_files (ram_bsp hash is_fw) (\<lambda>w. w) 1024"
  by (auto simp: reads_files_def ram_bsp_def ram_open_def ram_read_def same_files_def xi_fs_bsp_io_fs_2_xi_state_def)

lemma string_missing:
  assumes "reads_files bsp view lim" "short_string nm" "stored (view w) nm = None"
  obtains st w' where "xi_sft_revision_read_string_from_file bsp (Some (a, c_string nm)) m w = Some (st, None, m, w')"
    "st \<noteq> XI_STATE_OK" "same_files view w w'"
proof -
  obtain r h' w' where o: "fs_open bsp nm 0 XI_BSP_IO_FS_OPEN_READ XI_BSP_IO_FS_INVALID_RESOURCE_HANDLE w = (r, h', w')"
    "xi_fs_bsp_io_fs_2_xi_state r \<noteq> XI_STATE_OK" "same_files view w (snd (fs_close bsp h' w'))"
    using assms(1,3) unfolding reads_files_def by metis
  then show thesis using that assms(2) by (simp add: xi_sft_revision_read_string_from_file_def)
qed

lemma string_read:
  assumes b: "stores_files bsp view" "reads_files bsp view lim" and m: "mem_ok m" "alloc_script m = []"
    and c: "short_string nm" "stored (view w) nm = Some c" "length (take lim c) < 2 ^ 31"
  obtains p m' w' where "xi_sft_revision_read_string_from_file bsp (Some (a, c_string nm)) m w = Some (XI_STATE_OK, Some (p, take lim c @ [0]), m', w')"
    "p \<noteq> NULL" "p \<notin> live_blocks m" "live_blocks m' = insert p (live_blocks m)" "mem_ok m'" "alloc_script m' = []" "same_files view w w'"
proof -
  obtain h w1 where o: "fs_open bsp nm 0 XI_BSP_IO_FS_OPEN_READ XI_BSP_IO_FS_INVALID_RESOURCE_HANDLE w = (XI_BSP_IO_FS_STATE_OK, h, w1)"
    "same_files view w w1" "opened (view w1) h = Some nm"
    using b(2) c(2) unfolding reads_files_def by (metis option.distinct(1))
  obtain w2 where r: "fs_read bsp h 0 w1 = (XI_BSP_IO_FS_STATE_OK, take lim c, w2)" "view w2 = view w1"
    using b(2) c(2) o(2,3) unfolding reads_files_def same_files_def by metis
  obtain w3 where w3: "fs_close bsp h w2 = (XI_BSP_IO_FS_STATE_OK, w3)" "view w3 = (view w2)\<lparr>opened := (opened (view w2))(h := None)\<rparr>"
    using closes [OF b(1), of w2 h nm] o(3) r(2) by auto
  have l: "length (take lim c) + 1 \<le> PTRDIFF_MAX" using c(3) by (simp add: PTRDIFF_MAX_def del: length_take)
  obtain p m' where p: "xi_alloc (length (take lim c) + 1) m = (p, m')" by fastforce
  have "p \<noteq> NULL" "p \<notin> live_blocks m" "live_blocks m' = insert p (live_blocks m)" "alloc_script m' = []"
    using p m l by (auto simp: xi_alloc_def mem_ok_def simp del: length_take split: if_splits)
  moreover have "same_files view w w3" using o(2) r(2) w3(2) by (simp add: same_files_def)
  ultimately show thesis
    using that [of p m' w3] o(1) r(1) w3(1) p xi_alloc_mem_ok [OF p m(1)] c(1)
    by (simp add: xi_sft_revision_read_string_from_file_def xi_fs_bsp_io_fs_2_xi_state_def Let_def del: length_take)
qed

lemma revision_got:
  fixes s :: "('f, 'w, 'z) xi_sft_scheme"
  assumes b: "stores_files bsp view" "reads_files bsp view lim" and s: "granting s" and n: "short_string nm" "length nm < 2 ^ 30"
    and c: "stored (view (sft_world s)) (nm @ xirev_chars) = Some rv" "length (take lim rv) < 2 ^ 31"
  obtains p t where "xi_sft_revision_get bsp (Some (a, c_string nm)) s = Some (XI_STATE_OK, Some (p, c_string (take lim rv)), t)"
    "file_access {p} s t" "same_files view (sft_world s) (sft_world t)"
proof -
  obtain q m where q: "XI_SFT_REVISION_RESOURCENAME (Some (a, c_string nm)) (tmem s) = Some (Some (q, c_string (nm @ xirev_chars)), m)"
    "q \<noteq> NULL" "q \<notin> live_blocks (tmem s)" "live_blocks m = insert q (live_blocks (tmem s))" "mem_ok m" "alloc_script m = []"
    "short_string (nm @ xirev_chars)"
    using revision_resourcename [of "tmem s" nm a "[]"] s n unfolding granting_def c_string_def by metis
  obtain p m' w where r: "xi_sft_revision_read_string_from_file bsp (Some (q, c_string (nm @ xirev_chars))) m (sft_world s)
      = Some (XI_STATE_OK, Some (p, take lim rv @ [0]), m', w)" "p \<noteq> NULL" "p \<notin> live_blocks m" "live_blocks m' = insert p (live_blocks m)" "mem_ok m'"
    "alloc_script m' = []" "same_files view (sft_world s) w"
    using string_read [OF b q(5-7) c] by metis
  let ?t = "s\<lparr>tmem := xi_free q m', sft_world := w\<rparr>"
  have "file_access {p} s ?t"
    using q(2-4) r(2-6) unfolding file_access_def by (auto simp: granting_def intro!: exI [of _ "xi_free q m'"] exI [of _ w])
  then show thesis using that [of p ?t] q(1) r(1,7) by (simp add: xi_sft_revision_get_def free_c_str_def c_string_def)
qed

lemma revision_missing:
  fixes s :: "('f, 'w, 'z) xi_sft_scheme"
  assumes b: "reads_files bsp view lim" and s: "granting s" and n: "short_string nm" "length nm < 2 ^ 30"
    and c: "stored (view (sft_world s)) (nm @ xirev_chars) = None"
  obtains st t where "xi_sft_revision_get bsp (Some (a, c_string nm)) s = Some (st, None, t)" "st \<noteq> XI_STATE_OK"
    "file_access {} s t" "same_files view (sft_world s) (sft_world t)"
proof -
  obtain q m where q: "XI_SFT_REVISION_RESOURCENAME (Some (a, c_string nm)) (tmem s) = Some (Some (q, c_string (nm @ xirev_chars)), m)"
    "q \<noteq> NULL" "q \<notin> live_blocks (tmem s)" "live_blocks m = insert q (live_blocks (tmem s))" "mem_ok m" "alloc_script m = []"
    "short_string (nm @ xirev_chars)"
    using revision_resourcename [of "tmem s" nm a "[]"] s n unfolding granting_def c_string_def by metis
  obtain st w where r: "xi_sft_revision_read_string_from_file bsp (Some (q, c_string (nm @ xirev_chars))) m (sft_world s) = Some (st, None, m, w)"
    "st \<noteq> XI_STATE_OK" "same_files view (sft_world s) w"
    using string_missing [OF b q(7) c] by metis
  let ?t = "s\<lparr>tmem := xi_free q m, sft_world := w\<rparr>"
  have "file_access {} s ?t"
    using q(2-6) unfolding file_access_def by (auto simp: granting_def intro!: exI [of _ "xi_free q m"] exI [of _ w])
  then show thesis using that [of st ?t] q(1) r by (simp add: xi_sft_revision_get_def free_c_str_def)
qed

section \<open>The list of files\<close>

definition generated_revision :: "byte list" where
  "generated_revision = map of_char ''revision is not available on the device, this is a generated revision 0''"

lemma generated_revision_string: "XI_CONTROL_MESSAGE_SFT_GENERATED_REVISION = c_string generated_revision" "short_string generated_revision"
  by (simp_all add: XI_CONTROL_MESSAGE_SFT_GENERATED_REVISION_def generated_revision_def short_string_def)

text \<open>
  The revision that one read finds noted for a file in the file system \<open>st\<close>, or the generated one.
\<close>

definition noted :: "nat \<Rightarrow> (byte list \<Rightarrow> byte list option) \<Rightarrow> byte list \<Rightarrow> byte list" where
  "noted lim st nm = (case st (nm @ xirev_chars) of None \<Rightarrow> generated_revision | Some rv \<Rightarrow> take lim rv)"

definition readable :: "nat \<Rightarrow> (byte list \<Rightarrow> byte list option) \<Rightarrow> byte list \<Rightarrow> bool" where
  "readable lim st nm \<longleftrightarrow> short_string nm \<and> length nm < 2 ^ 30 \<and> short_string (noted lim st nm)"

definition file_desc_blocks :: "xi_control_message_file_desc \<Rightarrow> addr set" where
  "file_desc_blocks d = c_str_block (desc_name d) \<union> c_str_block (desc_revision d)"

definition view_desc :: "xi_control_message_file_desc \<Rightarrow> byte list option \<times> byte list option" where
  "view_desc d = (map_option snd (desc_name d), map_option snd (desc_revision d))"

lemma string_duplicated:
  fixes s :: "('f, 'w, 'z) xi_sft_scheme"
  assumes "granting s" "short_string cs"
  obtains p m where "xi_str_dup (c_string cs) (tmem s) = Some (Some (p, c_string cs), m)" "file_access {p} s (s\<lparr>tmem := m\<rparr>)"
proof -
  obtain p m where p: "xi_str_dup (c_string cs) (tmem s) = Some (Some (p, c_string cs), m)" "p \<noteq> NULL" "p \<notin> live_blocks (tmem s)"
    "live_blocks m = insert p (live_blocks (tmem s))" "mem_ok m" "alloc_script m = []"
    using str_dup_grants [of "tmem s" cs] assms by (auto simp: granting_def)
  then have "file_access {p} s (s\<lparr>tmem := m\<rparr>)"
    unfolding file_access_def by (auto simp: granting_def intro!: exI [of _ m] exI [of _ "sft_world s"])
  then show thesis using that p(1) by blast
qed

lemma revision_of_file:
  fixes s :: "('f, 'w, 'z) xi_sft_scheme"
  assumes b: "stores_files bsp view" "reads_files bsp view lim" and s: "granting s" and n: "readable lim (stored (view (sft_world s))) nm"
  obtains st p r t q u where "xi_sft_revision_get bsp (Some (a, c_string nm)) s = Some (st, r, t)"
    "(if st = XI_STATE_OK \<and> r \<noteq> None then Some (r, t)
      else do { (rv, m) \<leftarrow> xi_str_dup XI_CONTROL_MESSAGE_SFT_GENERATED_REVISION (tmem t); Some (rv, t\<lparr>tmem := m\<rparr>) })
     = Some (Some (p, c_string (noted lim (stored (view (sft_world s))) nm)), u)"
    "file_access {p} s u" "same_files view (sft_world s) (sft_world u)"
proof (cases "stored (view (sft_world s)) (nm @ xirev_chars)")
  case None
  have nm: "short_string nm" "length nm < 2 ^ 30" using n by (simp_all add: readable_def)
  obtain st t where t: "xi_sft_revision_get bsp (Some (a, c_string nm)) s = Some (st, None, t)" "st \<noteq> XI_STATE_OK"
    "file_access {} s t" "same_files view (sft_world s) (sft_world t)"
    using revision_missing [OF b(2) s nm None] by metis
  have "granting t" using t(3) by (simp add: file_access_def)
  then obtain p m where p: "xi_str_dup (c_string generated_revision) (tmem t) = Some (Some (p, c_string generated_revision), m)"
    "file_access {p} t (t\<lparr>tmem := m\<rparr>)"
    using string_duplicated generated_revision_string(2) by metis
  show thesis
    using that [OF t(1), of p "t\<lparr>tmem := m\<rparr>"] t(2,4) p(1) file_access_trans [OF t(3) p(2)] None
    by (simp add: noted_def generated_revision_string(1))
next
  case (Some rv)
  have nm: "short_string nm" "length nm < 2 ^ 30" "length (take lim rv) < 2 ^ 31"
    using n Some by (simp_all add: readable_def noted_def short_string_def del: length_take)
  obtain p t where "xi_sft_revision_get bsp (Some (a, c_string nm)) s = Some (XI_STATE_OK, Some (p, c_string (take lim rv)), t)"
    "file_access {p} s t" "same_files view (sft_world s) (sft_world t)"
    using revision_got [OF b s nm(1,2) Some nm(3)] by metis
  then show thesis using that [of XI_STATE_OK "Some (p, c_string (take lim rv))" t p t] Some by (simp add: noted_def)
qed

lemma descs_made:
  fixes s :: "('f, 'w, 'z) xi_sft_scheme"
  assumes b: "stores_files bsp view" "reads_files bsp view lim"
  shows "granting s \<Longrightarrow> \<forall>nm \<in> set nms. readable lim (stored (view (sft_world s))) nm \<Longrightarrow>
    \<exists>ds t. make_file_descs bsp (map (\<lambda>nm. Some (c_string nm)) nms) (length nms) s = Some (ds, t)
      \<and> file_access (\<Union> (file_desc_blocks ` set ds)) s t \<and> same_files view (sft_world s) (sft_world t) \<and> length ds = length nms
      \<and> map view_desc ds = map (\<lambda>nm. (Some (c_string nm), Some (c_string (noted lim (stored (view (sft_world s))) nm)))) nms"
proof (induction nms arbitrary: s)
  case Nil
  then show ?case using file_access_refl [of s] by (simp add: same_files_def)
next
  case (Cons nm nms)
  have r: "readable lim (stored (view (sft_world s))) nm" using Cons.prems(2) by simp
  then have "short_string nm" by (simp add: readable_def)
  then obtain p m where p: "xi_str_dup (c_string nm) (tmem s) = Some (Some (p, c_string nm), m)" "file_access {p} s (s\<lparr>tmem := m\<rparr>)"
    using string_duplicated Cons.prems(1) by metis
  have g: "granting (s\<lparr>tmem := m\<rparr>)" using p(2) by (simp add: file_access_def)
  obtain st r t q u where u: "xi_sft_revision_get bsp (Some (NULL, c_string nm)) (s\<lparr>tmem := m\<rparr>) = Some (st, r, t)"
    "(if st = XI_STATE_OK \<and> r \<noteq> None then Some (r, t)
      else do { (rv, m) \<leftarrow> xi_str_dup XI_CONTROL_MESSAGE_SFT_GENERATED_REVISION (tmem t); Some (rv, t\<lparr>tmem := m\<rparr>) })
     = Some (Some (q, c_string (noted lim (stored (view (sft_world (s\<lparr>tmem := m\<rparr>)))) nm)), u)"
    "file_access {q} (s\<lparr>tmem := m\<rparr>) u" "same_files view (sft_world (s\<lparr>tmem := m\<rparr>)) (sft_world u)"
    by (rule revision_of_file [OF b g, of nm NULL]) (use r in simp_all)
  have gu: "granting u" "\<forall>nm \<in> set nms. readable lim (stored (view (sft_world u))) nm"
    using u(3,4) Cons.prems(2) by (simp_all add: file_access_def same_files_def)
  obtain ds v where v: "make_file_descs bsp (map (\<lambda>nm. Some (c_string nm)) nms) (length nms) u = Some (ds, v)"
    "file_access (\<Union> (file_desc_blocks ` set ds)) u v" "same_files view (sft_world u) (sft_world v)" "length ds = length nms"
    "map view_desc ds = map (\<lambda>nm. (Some (c_string nm), Some (c_string (noted lim (stored (view (sft_world u))) nm)))) nms"
    using Cons.IH [OF gu] by blast
  let ?d = "\<lparr>desc_name = Some (p, c_string nm), desc_revision = Some (q, c_string (noted lim (stored (view (sft_world s))) nm))\<rparr>"
  have "file_access (\<Union> (file_desc_blocks ` set (?d # ds))) s v"
    using file_access_trans [OF file_access_trans [OF p(2) u(3)] v(2)] by (simp add: file_desc_blocks_def c_str_block_def insert_commute)
  moreover have "make_file_descs bsp (map (\<lambda>nm. Some (c_string nm)) (nm # nms)) (length (nm # nms)) s = Some (?d # ds, v)"
    using p(1) u(1,2) v(1) by simp
  moreover have "view_desc ?d = (Some (c_string nm), Some (c_string (noted lim (stored (view (sft_world s))) nm)))"
    by (simp add: view_desc_def)
  ultimately show ?case using u(4) v(3-5)
    by (intro exI [of _ "?d # ds"] exI [of _ v]) (simp add: same_files_def del: make_file_descs.simps)
qed

lemma free_file_descs_live:
  "mem_ok m \<Longrightarrow> live_blocks (fold free_file_desc ds m) = live_blocks m - \<Union> (file_desc_blocks ` set ds)
     \<and> mem_ok (fold free_file_desc ds m) \<and> alloc_script (fold free_file_desc ds m) = alloc_script m"
proof (induction ds arbitrary: m)
  case (Cons d ds)
  have n: "NULL \<notin> live_blocks m" using Cons.prems by (auto simp: mem_ok_def)
  then have "live_blocks (free_file_desc d m) = live_blocks m - file_desc_blocks d"
    by (auto simp: free_file_desc_def file_desc_blocks_def free_c_str_live)
  moreover have "mem_ok (free_file_desc d m)" "alloc_script (free_file_desc d m) = alloc_script m"
    using Cons.prems by (simp_all add: free_file_desc_def free_c_str_kept)
  ultimately show ?case using Cons.IH [of "free_file_desc d m"] by auto
qed simp

definition report :: "nat \<Rightarrow> (byte list \<Rightarrow> byte list option) \<Rightarrow> byte list list \<Rightarrow> 8 word \<Rightarrow> control_message_view" where
  "report lim st nms flag = File_Info (map (\<lambda>nm. (Some (c_string nm), Some (c_string (noted lim st nm)))) nms) flag"

lemma file_info_sent:
  fixes t :: "('f, 'w, 'z) xi_sft_scheme"
  assumes t: "granting t" "p \<noteq> NULL" "a \<noteq> NULL" "p \<noteq> a" "p \<in> live_blocks (tmem t)" "a \<in> live_blocks (tmem t)"
    and ds: "length ds = n" "n < 2 ^ 16" "p \<notin> \<Union> (file_desc_blocks ` set ds)"
  obtains u where "send_control_message p (store_control_message p (XI_CONTROL_MESSAGE_CS__SFT_FILE_INFO (of_nat n) (Some (a, ds)) flag) t) = Some u"
    "granting u" "live_blocks (tmem u) = live_blocks (tmem t) - \<Union> (file_desc_blocks ` set ds) - {a, p}"
    "u = t\<lparr>tmem := tmem u, control_messages := (control_messages t)(p := XI_CONTROL_MESSAGE_CS__SFT_FILE_INFO (of_nat n) (Some (a, ds)) flag),
      sent_messages := sent_messages t @ [File_Info (map view_desc ds) flag]\<rparr>"
proof -
  let ?msg = "XI_CONTROL_MESSAGE_CS__SFT_FILE_INFO (of_nat n) (Some (a, ds)) flag"
  let ?m = "xi_free p (xi_free a (fold free_file_desc ds (tmem t)))"
  let ?u = "t\<lparr>tmem := ?m, control_messages := (control_messages t)(p := ?msg), sent_messages := sent_messages t @ [File_Info (map view_desc ds) flag]\<rparr>"
  have n: "unat (of_nat n :: 16 word) = n" using ds(2) by (rule word_of_length(2))
  have m: "mem_ok (tmem t)" "alloc_script (tmem t) = []" using t(1) by (simp_all add: granting_def)
  note f = free_file_descs_live [OF m(1), of ds]
  have v: "view_message ?msg = File_Info (map view_desc ds) flag"
    using n ds(1) by (simp add: view_message_def view_desc_def)
  have "send_control_message p (store_control_message p ?msg t) = Some ?u"
    using t(2,5) n ds(1) v by (simp add: send_control_message_def deref_control_message_def store_control_message_def xi_control_message_free_def
      first_n_def set_sft_mem_def)
  moreover have "granting ?u" using f m by (simp add: granting_def)
  moreover have "live_blocks (tmem ?u) = live_blocks (tmem t) - \<Union> (file_desc_blocks ` set ds) - {a, p}" using f t(2,3) by auto
  ultimately show thesis using that [of ?u] by simp
qed

lemma blocks_returned: "L - X - {a, p} = K" if "L = M \<union> X" "M \<inter> X = {}" "M = insert a (insert p K)" "p \<notin> K" "a \<notin> K"
  using that by auto

lemma report_sent:
  fixes s :: "('f, 'w, 'z) xi_sft_scheme"
  assumes b: "stores_files bsp view" "reads_files bsp view lim" and s: "granting s"
    and n: "\<forall>nm \<in> set nms. readable lim (stored (view (sft_world s))) nm" "nms \<noteq> []" "length nms < 2 ^ 16"
  obtains p t u where "xi_control_message_create_file_info bsp (Some (map (\<lambda>nm. Some (c_string nm)) nms)) (of_nat (length nms)) flag s = Some (p, t)"
    "send_control_message p t = Some u" "talks [report lim (stored (view (sft_world s))) nms flag] s u" "sft u = sft s"
    "same_files view (sft_world s) (sft_world u)"
proof -
  let ?n = "length nms"
  have n': "unat (of_nat ?n :: 16 word) = ?n" "(of_nat ?n :: 16 word) \<noteq> 0"
    using n(2) word_of_length(2) [OF n(3)] by (auto simp: unat_eq_0 [symmetric] simp del: unat_eq_0)
  have sz: "sizeof_xi_control_message \<le> PTRDIFF_MAX" "sizeof_xi_control_message_file_desc * ?n \<le> PTRDIFF_MAX"
    using n(3) by (simp_all add: sizeof_xi_control_message_def sizeof_xi_control_message_file_desc_def PTRDIFF_MAX_def)
  obtain p m1 where p: "xi_alloc sizeof_xi_control_message (tmem s) = (p, m1)" "p \<noteq> NULL" "p \<notin> live_blocks (tmem s)"
    "live_blocks m1 = insert p (live_blocks (tmem s))" "mem_ok m1" "alloc_script m1 = []"
    using granting_alloc [OF s sz(1)] by metis
  have g1: "granting (s\<lparr>tmem := m1\<rparr>)" using p(5,6) by (simp add: granting_def)
  obtain a m2 where a: "xi_alloc (sizeof_xi_control_message_file_desc * ?n) m1 = (a, m2)" "a \<noteq> NULL" "a \<notin> live_blocks m1"
    "live_blocks m2 = insert a (live_blocks m1)" "mem_ok m2" "alloc_script m2 = []"
    using granting_alloc [OF g1 sz(2)] by auto
  let ?s = "s\<lparr>tmem := m2\<rparr>"
  have g2: "granting ?s" using a(5,6) by (simp add: granting_def)
  obtain ds t where t: "make_file_descs bsp (map (\<lambda>nm. Some (c_string nm)) nms) ?n ?s = Some (ds, t)"
    "file_access (\<Union> (file_desc_blocks ` set ds)) ?s t" "same_files view (sft_world ?s) (sft_world t)" "length ds = ?n"
    "map view_desc ds = map (\<lambda>nm. (Some (c_string nm), Some (c_string (noted lim (stored (view (sft_world ?s))) nm)))) nms"
    using descs_made [OF b g2, of nms] n(1) by auto
  let ?msg = "XI_CONTROL_MESSAGE_CS__SFT_FILE_INFO (of_nat ?n) (Some (a, ds)) flag"
  have tl: "granting t" "live_blocks (tmem t) = live_blocks m2 \<union> \<Union> (file_desc_blocks ` set ds)" "live_blocks m2 \<inter> \<Union> (file_desc_blocks ` set ds) = {}"
    "t = s\<lparr>tmem := tmem t, sft_world := sft_world t\<rparr>"
    using t(2) by (auto simp: file_access_def)
  have pa: "p \<noteq> a" "p \<in> live_blocks (tmem t)" "a \<in> live_blocks (tmem t)" "p \<notin> \<Union> (file_desc_blocks ` set ds)"
    using p(4) a(3,4) tl(2,3) by auto
  obtain u where u: "send_control_message p (store_control_message p ?msg t) = Some u" "granting u"
    "live_blocks (tmem u) = live_blocks (tmem t) - \<Union> (file_desc_blocks ` set ds) - {a, p}"
    "u = t\<lparr>tmem := tmem u, control_messages := (control_messages t)(p := ?msg), sent_messages := sent_messages t @ [File_Info (map view_desc ds) flag]\<rparr>"
    by (rule file_info_sent [OF tl(1) p(2) a(2) pa(1-3) t(4) n(3) pa(4)])
  have "arr_get (map (\<lambda>nm. Some (c_string nm)) nms) 0 = Some (Some (c_string (hd nms)))"
    using n(2) by (simp add: arr_get_def hd_conv_nth)
  then have "xi_control_message_create_file_info bsp (Some (map (\<lambda>nm. Some (c_string nm)) nms)) (of_nat ?n) flag s = Some (p, store_control_message p ?msg t)"
    using p(1,2) a(1,2) t(1) n' by (simp add: xi_control_message_create_file_info_def alloc_control_message_def)
  moreover have "live_blocks (tmem u) = live_blocks (tmem s)" 
    unfolding u(3) by (rule blocks_returned) (use tl(2,3) p(3,4) a(3,4) in simp_all)
  moreover have "control_messages t = control_messages s" "file_descs t = file_descs s" "sft_block t = sft_block s" "sft t = sft s"
    "sent_messages t = sent_messages s" by (subst tl(4), simp)+
  moreover have "control_messages u = (control_messages t)(p := ?msg)" "file_descs u = file_descs t" "sft_block u = sft_block t" "sft u = sft t"
    "sent_messages u = sent_messages t @ [File_Info (map view_desc ds) flag]" "sft_world u = sft_world t" by (subst u(4), simp)+
  ultimately show thesis
    using that [of p "store_control_message p ?msg t" u] u(1,2) t(3,5) p(3) by (auto simp: talks_def report_def)
qed

section \<open>The mailbox\<close>

lemma split_mailbox: "10 \<notin> set nm \<Longrightarrow> takeWhile (\<lambda>b. b \<noteq> 10) (nm @ 10 # rv) = (nm :: byte list)"
  by (induction nm) auto

lemma split_mailbox_string:
  "10 \<notin> set nm \<Longrightarrow> 0 \<notin> set nm \<Longrightarrow> takeWhile (\<lambda>b. b \<noteq> 10 \<and> b \<noteq> 0) ((nm :: byte list) @ c # z) = nm" if "c = 10 \<or> c = 0"
  using that by (induction nm) auto

text \<open>
  What the file system is when the new firmware has been confirmed: one read of the mailbox is split
  at its first newline.
\<close>

definition commit :: "nat \<Rightarrow> (byte list \<Rightarrow> byte list option) \<Rightarrow> byte list \<Rightarrow> byte list option" where
  "commit lim st = (case st mailbox_chars of
     None \<Rightarrow> st
   | Some c \<Rightarrow>
       let c = take lim c; nm = takeWhile (\<lambda>b. b \<noteq> 10) c
       in (if 10 \<in> set c then st(nm @ xirev_chars \<mapsto> drop (length nm + 1) c) else st)(mailbox_chars := None))"

lemma mailbox_read: "c_chars firmware_mailbox = Some mailbox_chars"
  by (metis mailbox short_string_chars)

definition mailbox_readable :: "nat \<Rightarrow> (byte list \<Rightarrow> byte list option) \<Rightarrow> bool" where
  "mailbox_readable lim st \<longleftrightarrow> (\<forall>c. st mailbox_chars = Some c \<longrightarrow> 0 \<notin> set (take lim c) \<and> length (take lim c) < 2 ^ 30)"

lemma take_mailbox: "length nm < lim \<Longrightarrow> take lim (nm @ 10 # rv) = nm @ 10 # take (lim - length nm - 1) rv"
  by (simp add: take_Cons')

lemma commit_mailbox:
  "10 \<notin> set nm \<Longrightarrow> length nm < lim \<Longrightarrow> commit lim (st(mailbox_chars \<mapsto> nm @ 10 # rv))
     = (st(nm @ xirev_chars \<mapsto> take (lim - length nm - 1) rv))(mailbox_chars := None)"
  by (simp add: commit_def take_mailbox split_mailbox Let_def del: take_append)

text \<open>No file that notes a revision is the mailbox.\<close>

lemma xirev_no_mailbox: "nm @ xirev_chars \<noteq> mailbox_chars"
proof
  assume "nm @ xirev_chars = mailbox_chars"
  then have "last (nm @ xirev_chars) = last mailbox_chars" by (rule arg_cong)
  then show False by (simp add: xirev_chars_def mailbox_chars_def)
qed

lemma mailbox_committed:
  fixes s :: "('f, 'w, 'z) xi_sft_scheme"
  assumes b: "stores_files bsp view" "reads_files bsp view lim" and s: "granting s" and c: "mailbox_readable lim (stored (view (sft_world s)))"
  obtains st t where "xi_sft_revision_firmware_ok bsp s = Some (st, t)" "file_access {} s t"
    "stored (view (sft_world t)) = commit lim (stored (view (sft_world s)))" "finished (view (sft_world t)) = finished (view (sft_world s))"
proof (cases "stored (view (sft_world s)) mailbox_chars")
  case None
  obtain st w where w: "xi_sft_revision_read_string_from_file bsp (Some (NULL, c_string mailbox_chars)) (tmem s) (sft_world s) = Some (st, None, tmem s, w)"
    "st \<noteq> XI_STATE_OK" "same_files view (sft_world s) w"
    using string_missing [OF b(2) mailbox(2) None] by metis
  have "file_access {} s (s\<lparr>tmem := tmem s, sft_world := w\<rparr>)" 
    unfolding file_access_def using s by (auto simp: granting_def intro!: exI [of _ "tmem s"] exI [of _ w])
  then show thesis
    using that [of st "s\<lparr>sft_world := w\<rparr>"] w None by (simp add: xi_sft_revision_firmware_ok_def mailbox(1) same_files_def commit_def)
next
  case (Some c')
  define c where "c = take lim c'"
  have c0: "0 \<notin> set c" "length c < 2 ^ 30" using assms(4) Some unfolding c_def mailbox_readable_def by blast+
  have m: "mem_ok (tmem s)" "alloc_script (tmem s) = []" using s by (simp_all add: granting_def)
  obtain p m' w where r: "xi_sft_revision_read_string_from_file bsp (Some (NULL, c_string mailbox_chars)) (tmem s) (sft_world s)
      = Some (XI_STATE_OK, Some (p, c @ [0]), m', w)" "p \<noteq> NULL" "p \<notin> live_blocks (tmem s)" "live_blocks m' = insert p (live_blocks (tmem s))"
    "mem_ok m'" "alloc_script m' = []" "same_files view (sft_world s) w"
    unfolding c_def by (rule string_read [OF b m mailbox(2) Some]) (use c0(2) in \<open>simp add: c_def\<close>)
  let ?s = "s\<lparr>tmem := m', sft_world := w\<rparr>" and ?k = "length (takeWhile (\<lambda>b. b \<noteq> 10 \<and> b \<noteq> 0) (c @ [0]))"
  have g: "granting ?s" using r(5,6) by (simp add: granting_def)
  have "\<exists>x t. arr_get (c @ [0]) (int ?k) = Some x
    \<and> (if x = 10 then map_option snd (xi_sft_revision_set bsp (Some (p, (c @ [0])[?k := 0])) (Some (p, drop (?k + 1) (c @ [0]))) ?s) else Some ?s) = Some t
    \<and> file_access {} ?s t \<and> (stored (view (sft_world t)))(mailbox_chars := None) = commit lim (stored (view (sft_world s)))
    \<and> finished (view (sft_world t)) = finished (view (sft_world s))"
  proof (cases "10 \<in> set c")
    case True
    then obtain nm rv where nm: "c = nm @ 10 # rv" "10 \<notin> set nm" using split_list_first by metis
    have k: "?k = length nm" using split_mailbox_string [of 10 nm "rv @ [0]"] nm c0(1) by simp
    have n: "short_string nm" "length nm < 2 ^ 30" "short_string rv" using nm c0 by (simp_all add: short_string_def)
    obtain t where "xi_sft_revision_set bsp (Some (p, nm @ 0 # rv @ [0])) (Some (p, c_string rv)) ?s = Some (XI_STATE_OK, t)" "file_access {} ?s t"
      "stored (view (sft_world t)) = (stored (view (sft_world ?s)))(nm @ xirev_chars \<mapsto> rv)"
      "finished (view (sft_world t)) = finished (view (sft_world ?s))"
      by (rule revision_noted [OF b(1) g n])
    then show ?thesis
      unfolding k using nm r(7) Some by (intro exI [of _ 10] exI [of _ t]) (simp add: arr_get_def c_string_def same_files_def commit_def split_mailbox Let_def c_def [symmetric])
  next
    case False
    then have k: "?k = length c" using split_mailbox_string [of 0 c "[]"] c0(1) by simp
    show ?thesis unfolding k using False r(7) Some file_access_refl [OF g]
      by (intro exI [of _ 0] exI [of _ ?s]) (simp add: arr_get_def same_files_def commit_def Let_def c_def [symmetric])
  qed
  then obtain x t where t: "arr_get (c @ [0]) (int ?k) = Some x"
    "(if x = 10 then map_option snd (xi_sft_revision_set bsp (Some (p, (c @ [0])[?k := 0])) (Some (p, drop (?k + 1) (c @ [0]))) ?s) else Some ?s) = Some t"
    "file_access {} ?s t" "(stored (view (sft_world t)))(mailbox_chars := None) = commit lim (stored (view (sft_world s)))"
    "finished (view (sft_world t)) = finished (view (sft_world s))" by blast
  obtain y w' where w: "fs_remove bsp mailbox_chars (sft_world t) = (y, w')"
    "view w' = (view (sft_world t))\<lparr>stored := (stored (view (sft_world t)))(mailbox_chars := None)\<rparr>"
    using b(2) unfolding reads_files_def by metis
  let ?t = "t\<lparr>sft_world := w', tmem := xi_free p (tmem t)\<rparr>"
  have "file_access {} s ?t"
    using t(3) r(2-4) by (auto simp: file_access_def granting_def intro!: exI [of _ "xi_free p (tmem t)"] exI [of _ w'])
  moreover have "xi_sft_revision_firmware_ok bsp s = Some (XI_STATE_OK, ?t)"
    using r(1) t(1,2) w(1) mailbox(2) unfolding mailbox(1) [symmetric]
    by (simp add: xi_sft_revision_firmware_ok_def Let_def mailbox_read)
  ultimately show thesis using that [of XI_STATE_OK ?t] t(4,5) w(2) by simp
qed

section \<open>The client has connected\<close>

text \<open>The platform says whether the firmware that runs is good, and leaves the files alone.\<close>

definition confirms :: "'w bsp_sft \<Rightarrow> ('w \<Rightarrow> file_store) \<Rightarrow> bool \<Rightarrow> bool" where
  "confirms bsp view ok \<longleftrightarrow> (\<forall>w. \<exists>w'. fwu_on_new_firmware_ok bsp w = (ok, w') \<and> view w' = view w)"

lemma ram_confirms: "confirms (ram_bsp hash is_fw) (\<lambda>w. w) True"
  by (simp add: confirms_def ram_bsp_def)

lemma connected_reports:
  fixes s :: "('f, 'w, 'z) xi_sft_scheme"
  assumes b: "stores_files bsp view" "reads_files bsp view lim" "confirms bsp view ok"
    and s: "granting s" "sft_block s \<in> live_blocks (tmem s)" "fn_send_message (sft s)"
    and f: "updateable_files (sft s) = Some (map (\<lambda>nm. Some (c_string nm)) nms)" "updateable_files_count (sft s) = of_nat (length nms)"
      "nms \<noteq> []" "length nms < 2 ^ 16"
    and st: "st = (if ok then commit lim (stored (view (sft_world s))) else stored (view (sft_world s)))"
    and n: "mailbox_readable lim (stored (view (sft_world s)))" "\<forall>nm \<in> set nms. readable lim st nm"
  obtains t where "xi_sft_on_connected bsp (sft_block s) s = Some (XI_STATE_OK, t)"
    "talks [report lim st nms (if sft_url_handler_callback (sft s) then 1 else 0)] s t" "sft t = sft s"
    "stored (view (sft_world t)) = st" "finished (view (sft_world t)) = finished (view (sft_world s))"
proof -
  obtain w where w: "fwu_on_new_firmware_ok bsp (sft_world s) = (ok, w)" "view w = view (sft_world s)" using b(3) unfolding confirms_def by metis
  let ?s = "s\<lparr>sft_world := w\<rparr>"
  have g: "granting ?s" "mailbox_readable lim (stored (view (sft_world ?s)))" using s(1) n(1) w(2) by (simp_all add: granting_def)
  obtain t where t: "(if ok then map_option snd (xi_sft_revision_firmware_ok bsp ?s) else Some ?s) = Some t" "file_access {} ?s t"
    "stored (view (sft_world t)) = st" "finished (view (sft_world t)) = finished (view (sft_world s))"
  proof (cases ok)
    case True
    obtain z t where "xi_sft_revision_firmware_ok bsp ?s = Some (z, t)" "file_access {} ?s t"
      "stored (view (sft_world t)) = commit lim (stored (view (sft_world ?s)))" "finished (view (sft_world t)) = finished (view (sft_world ?s))"
      by (rule mailbox_committed [OF b(1,2) g])
    then show thesis using that [of t] True w(2) st by simp
  next
    case False
    then show thesis using that [of ?s] file_access_refl [OF g(1)] w(2) st by simp
  qed
  have t': "granting t" "sft t = sft s" "sft_block t = sft_block s" "live_blocks (tmem t) = live_blocks (tmem s)"
    "control_messages t = control_messages s" "file_descs t = file_descs s" "sent_messages t = sent_messages s"
    using t(2) by (auto simp: file_access_def)
  have "\<forall>nm \<in> set nms. readable lim (stored (view (sft_world t))) nm" using n(2) t(3) by simp
  then obtain p v u where u: "xi_control_message_create_file_info bsp (Some (map (\<lambda>nm. Some (c_string nm)) nms)) (of_nat (length nms))
      (if sft_url_handler_callback (sft s) then 1 else 0) t = Some (p, v)"
    "send_control_message p v = Some u" "talks [report lim (stored (view (sft_world t))) nms (if sft_url_handler_callback (sft s) then 1 else 0)] t u"
    "sft u = sft t" "same_files view (sft_world t) (sft_world u)"
    by (rule report_sent [OF b(1,2) t'(1) _ f(3,4)])
  have "NULL \<notin> live_blocks (tmem s)" using s(1) by (auto simp: granting_def mem_ok_def)
  then have nz: "sft_block s \<noteq> NULL" using s(2) by metis
  have "xi_sft_on_connected bsp (sft_block s) s = Some (XI_STATE_OK, u)"
    using w(1) t(1) t'(2-4) s(2,3) f(1,2) u(1,2) nz by (simp add: xi_sft_on_connected_def deref_context_def)
  moreover have "talks [report lim st nms (if sft_url_handler_callback (sft s) then 1 else 0)] s u"
    using u(3) t' t(3) by (simp add: talks_def)
  ultimately show thesis using that [of u] u(4,5) t'(2) t(3,4) by (simp add: same_files_def)
qed

text \<open>A client that finds new firmware in the mailbox, and a revision noted for the other file.\<close>

definition noted_client :: "(nat, file_store) xi_sft" where
  "noted_client = sft_example\<lparr>sft_world := empty_store\<lparr>stored := [mailbox_chars \<mapsto> [102, 10, 50], [97] @ xirev_chars \<mapsto> [49]]\<rparr>\<rparr>"

text \<open>
  C38: when the client has connected it tells the service, in one message, the revision of each file the
  application registered: the one that is noted in the file system, or the generated one. Before
  that, if the platform confirms the firmware that runs, the revision in the mailbox becomes the
  noted one and the mailbox is emptied. The code reads each of these files with one call: of a
  revision, and of the mailbox, only the first \<open>lim\<close> bytes count (\<open>noted lim\<close>, \<open>commit lim\<close>). Memory is
  granted throughout, what is read has no zero bytes, and no block is left allocated.
\<close>
theorem sft_connected_reports_revisions:
  fixes s :: "('f, 'w, 'z) xi_sft_scheme"
  assumes "stores_files bsp view" "reads_files bsp view lim" "confirms bsp view ok"
    and "granting s" "sft_block s \<in> live_blocks (tmem s)" "fn_send_message (sft s)"
    and "updateable_files (sft s) = Some (map (\<lambda>nm. Some (c_string nm)) nms)" "updateable_files_count (sft s) = of_nat (length nms)"
      "nms \<noteq> []" "length nms < 2 ^ 16"
    and "st = (if ok then commit lim (stored (view (sft_world s))) else stored (view (sft_world s)))"
    and "mailbox_readable lim (stored (view (sft_world s)))" "\<forall>nm \<in> set nms. readable lim st nm"
  shows "\<exists>t. xi_sft_on_connected bsp (sft_block s) s = Some (XI_STATE_OK, t)
    \<and> sent_messages t = sent_messages s @ [report lim st nms (if sft_url_handler_callback (sft s) then 1 else 0)]
    \<and> live_blocks (tmem t) = live_blocks (tmem s) \<and> sft t = sft s \<and> stored (view (sft_world t)) = st"
  using connected_reports [OF assms] unfolding talks_def by metis

theorem sft_connected_reports_revisions_witness:
  "\<exists>t. xi_sft_on_connected (ram_bsp example_hash is_f) (sft_block noted_client) noted_client = Some (XI_STATE_OK, t)
    \<and> sent_messages t = sent_messages noted_client @ [File_Info [(Some (c_string [102]), Some (c_string [50])), (Some (c_string [97]), Some (c_string [49]))]
        (if sft_url_handler_callback (sft noted_client) then 1 else 0)]
    \<and> live_blocks (tmem t) = live_blocks (tmem noted_client) \<and> sft t = sft noted_client
    \<and> stored (sft_world t) = [[97] @ xirev_chars \<mapsto> [49], [102] @ xirev_chars \<mapsto> [50]]"
proof -
  let ?st = "[[97] @ xirev_chars \<mapsto> [49 :: byte], [102] @ xirev_chars \<mapsto> [50]]"
  have w: "stored (sft_world noted_client) = [mailbox_chars \<mapsto> [102, 10, 50], [97] @ xirev_chars \<mapsto> [49]]" "granting noted_client"
    using sft_example_granting by (simp_all add: noted_client_def granting_def)
  have ne: "n @ xirev_chars \<noteq> mailbox_chars" "mailbox_chars \<noteq> n @ xirev_chars" for n using xirev_no_mailbox by metis+
  have c: "?st = commit 1024 (stored (sft_world noted_client))"
    unfolding w(1) commit_def Let_def using ne [of "[97]"] ne [of "[102]"] by (auto simp: fun_eq_iff)
  have c': "?st = (if True then commit 1024 (stored (sft_world noted_client)) else stored (sft_world noted_client))" unfolding c by simp
  have n: "noted 1024 ?st [102] = [50]" "noted 1024 ?st [97] = [49]" by (simp_all add: noted_def xirev_chars_def)
  have r: "\<forall>nm \<in> set [[102], [97]]. readable 1024 ?st nm" unfolding readable_def using n by (simp add: short_string_def)
  have m: "mailbox_readable 1024 (stored (sft_world noted_client))"
    unfolding w(1) mailbox_readable_def using ne [of "[97]"] by simp
  have "\<exists>t. xi_sft_on_connected (ram_bsp example_hash is_f) (sft_block noted_client) noted_client = Some (XI_STATE_OK, t)
    \<and> sent_messages t = sent_messages noted_client @ [report 1024 ?st [[102], [97]] (if sft_url_handler_callback (sft noted_client) then 1 else 0)]
    \<and> live_blocks (tmem t) = live_blocks (tmem noted_client) \<and> sft t = sft noted_client \<and> stored (sft_world t) = ?st"
    by (rule sft_connected_reports_revisions [OF ram_stores_files ram_reads_files ram_confirms w(2) _ _ _ _ _ _ c' m r])
      (simp_all add: noted_client_def sft_example_def)
  then show ?thesis unfolding report_def using n by simp
qed

text \<open>
  C37: the revision of new firmware survives the restart. It goes into the mailbox when the firmware
  has been downloaded; the next run of the client, whatever its own state, reports it for the
  firmware file (next to the noted revisions of the other files that are registered) once it has
  connected and the platform has confirmed the firmware, and from then on it is noted like the
  revision of any file. The mailbox is read with one call: what is reported and noted is as much
  of the revision as fits, with the name and a newline, into the \<open>lim\<close> bytes of one read, hence all of
  it when \<open>length nm + length rv < lim\<close>. The name has no newline; memory is granted in both runs.
\<close>
theorem sft_firmware_revision_reported:
  fixes s s' :: "('f, 'w, 'z) xi_sft_scheme"
  assumes "stores_files bsp view" "reads_files bsp view lim" "confirms bsp view True"
    and "granting s" "names d nm rv" "length nm + length rv < 2 ^ 29" "10 \<notin> set nm" "length nm < lim"
    and "granting s'" "sft_block s' \<in> live_blocks (tmem s')" "fn_send_message (sft s')"
      "updateable_files (sft s') = Some (map (\<lambda>nm. Some (c_string nm)) nms)" "updateable_files_count (sft s') = of_nat (length nms)"
      "nms \<noteq> []" "length nms < 2 ^ 16" "\<forall>n \<in> set nms. n \<noteq> nm \<longrightarrow> readable lim (stored (view (sft_world s))) n"
  shows "\<exists>t. xi_sft_revision_set_firmware_update bsp (file_name d) (file_revision d) s = Some (XI_STATE_OK, t)
    \<and> (\<exists>u. xi_sft_on_connected bsp (sft_block s') (s'\<lparr>sft_world := sft_world t\<rparr>) = Some (XI_STATE_OK, u)
      \<and> sent_messages u = sent_messages s' @ [File_Info
          (map (\<lambda>n. (Some (c_string n), Some (c_string (if n = nm then take (lim - length nm - 1) rv else noted lim (stored (view (sft_world s))) n)))) nms)
          (if sft_url_handler_callback (sft s') then 1 else 0)]
      \<and> stored (view (sft_world u)) = (stored (view (sft_world s)))(nm @ xirev_chars \<mapsto> take (lim - length nm - 1) rv, mailbox_chars := None))"
proof -
  let ?rv = "take (lim - length nm - 1) rv"
  have l: "length nm < 2 ^ 30" "length rv < 2 ^ 30" "short_string nm" "short_string rv" using assms(5,6) by (simp_all add: names_def)
  obtain t where t: "xi_sft_revision_set_firmware_update bsp (file_name d) (file_revision d) s = Some (XI_STATE_OK, t)"
    "stored (view (sft_world t)) = (stored (view (sft_world s)))(mailbox_chars \<mapsto> nm @ 10 # rv)"
    by (rule firmware_revision_set [OF assms(1,4,5) l(1,2)])
  let ?s = "s'\<lparr>sft_world := sft_world t\<rparr>"
  define st where "st = (stored (view (sft_world s)))(nm @ xirev_chars \<mapsto> ?rv, mailbox_chars := None)"
  have st: "st = (if True then commit lim (stored (view (sft_world ?s))) else stored (view (sft_world ?s)))"
    using t(2) assms(7,8) by (simp add: commit_mailbox st_def)
  have n: "noted lim st n = (if n = nm then ?rv else noted lim (stored (view (sft_world s))) n)" for n
    using xirev_no_mailbox [of n] by (simp add: noted_def st_def)
  have "short_string ?rv" using l(4) set_take_subset [of "lim - length nm - 1" rv] by (auto simp: short_string_def)
  then have r: "\<forall>n \<in> set nms. readable lim st n" using l(1,3) assms(16) unfolding readable_def n by simp
  have g: "granting ?s" "mailbox_readable lim (stored (view (sft_world ?s)))"
    using assms(6-9) l(3,4) t(2) set_take_subset [of "lim - length nm - 1" rv]
    by (auto simp: granting_def mailbox_readable_def short_string_def take_mailbox simp del: take_append)
  obtain u where u: "xi_sft_on_connected bsp (sft_block ?s) ?s = Some (XI_STATE_OK, u)"
    "talks [report lim st nms (if sft_url_handler_callback (sft ?s) then 1 else 0)] ?s u" "stored (view (sft_world u)) = st"
    by (rule connected_reports [OF assms(1-3) g(1) _ _ _ _ assms(14,15) st g(2) r]) (use assms(10-13) in simp_all)
  then have "sent_messages u = sent_messages s' @ [File_Info
      (map (\<lambda>n. (Some (c_string n), Some (c_string (if n = nm then ?rv else noted lim (stored (view (sft_world s))) n)))) nms)
      (if sft_url_handler_callback (sft s') then 1 else 0)]"
    by (simp add: talks_def report_def n)
  then show ?thesis using t(1) u(1,3) unfolding st_def by (intro exI [of _ t] conjI exI [of _ u]) simp_all
qed

theorem sft_firmware_revision_reported_witness:
  "\<exists>t. xi_sft_revision_set_firmware_update (ram_bsp example_hash is_f) (file_name (example_descs ! 0)) (file_revision (example_descs ! 0)) sft_example
      = Some (XI_STATE_OK, t)
    \<and> (\<exists>u. xi_sft_on_connected (ram_bsp example_hash is_f) (sft_block sft_example) (sft_example\<lparr>sft_world := sft_world t\<rparr>) = Some (XI_STATE_OK, u)
      \<and> sent_messages u = [File_Info [(Some (c_string [102]), Some (c_string [50])), (Some (c_string [97]), Some (c_string generated_revision))] 0]
      \<and> stored (sft_world u) = (stored (sft_world sft_example))([102] @ xirev_chars \<mapsto> [50], mailbox_chars := None))"
proof -
  have e: "stored (sft_world sft_example) = Map.empty" "sent_messages sft_example = []" "\<not> sft_url_handler_callback (sft sft_example)"
    by (simp_all add: sft_example_def empty_store_def)
  have l: "length generated_revision = 71" by (simp add: generated_revision_def)
  then have n: "noted 1024 Map.empty [97] = generated_revision" by (simp add: noted_def)
  have "readable 1024 (stored (sft_world sft_example)) [97]"
    unfolding readable_def e n using generated_revision_string(2) by (simp add: short_string_def)
  then have r: "\<forall>n \<in> set [[102], [97]]. n \<noteq> [102] \<longrightarrow> readable 1024 (stored (sft_world sft_example)) n" by simp
  have d: "names (example_descs ! 0) [102] [50]" by (simp add: names_def example_descs_def example_desc_def example_files_def short_string_def)
  have x: "take (1024 - length [102 :: byte] - 1) [50 :: byte] = [50]" by simp
  show ?thesis
    using sft_firmware_revision_reported [OF ram_stores_files ram_reads_files ram_confirms sft_example_granting d _ _ _ sft_example_granting
      _ _ _ _ _ _ r] n
    unfolding x e by (simp add: sft_example_def)
qed

end
