(* ===== verification/Xi_Sft_Package.thy ===== *)
theory Xi_Sft_Package
  imports Xi_Sft_Report
begin

text \<open>
  The properties of secure file transfer: a package that is announced is downloaded into the file
  system; a revision that is noted is read back, the one of new firmware after the next start; and
  where the code does not keep these promises.
\<close>

section \<open>A package is announced\<close>

definition order_block :: "(addr \<times> int list) option \<Rightarrow> addr set" where
  "order_block order = (case order of None \<Rightarrow> {} | Some (a, _) \<Rightarrow> {a})"

lemma free_order_result:
  "\<exists>m. free_order s = s\<lparr>tmem := m, sft := (sft s)\<lparr>updateable_files_download_order := None\<rparr>\<rparr>
     \<and> live_blocks m = live_blocks (tmem s) - order_block (updateable_files_download_order (sft s))
     \<and> next_block m = next_block (tmem s) \<and> alloc_script m = alloc_script (tmem s) \<and> mem_ok m" if "granting s"
proof (cases "updateable_files_download_order (sft s)")
  case None
  then show ?thesis using that by (intro exI [of _ "tmem s"]) (simp add: free_order_def order_block_def granting_def)
next
  case (Some ao)
  obtain a order where ao: "ao = (a, order)" by (cases ao)
  have "NULL \<notin> live_blocks (tmem s)" "mem_ok (tmem s)" using that by (auto simp: granting_def mem_ok_def)
  then show ?thesis using Some ao
    by (intro exI [of _ "xi_free a (tmem s)"]) (auto simp: free_order_def order_block_def set_sft_def set_sft_mem_def)
qed

lemma package_ordered:
  fixes s :: "('f, 'w, 'z) xi_sft_scheme"
  assumes b: "firmware_functions bsp view is_fw ord" and g: "granting s" "updateable_files_download_order (sft s) = order"
    and msg: "deref_control_message s (update_message_fua (sft s)) = Some (XI_CONTROL_MESSAGE_SC__SFT_FILE_UPDATE_AVAILABLE (of_nat (length ds)) l)"
    and l: "l \<in> live_blocks (tmem s) - order_block order" "file_descs s l = ds" "length ds < 2 ^ 16"
    and o: "ord (map (\<lambda>d. map_option snd (file_name d)) ds) = is" "set is \<subseteq> {..<length ds}"
  obtains a t where "xi_sft_order_resource_downloads bsp s = Some (XI_STATE_OK, t)" "a \<notin> live_blocks (tmem s)"
    "live_blocks (tmem t) = insert a (live_blocks (tmem s) - order_block order)" "granting t" "control_messages t = control_messages s" "file_descs t = file_descs s"
    "sft t = (sft s)\<lparr>updateable_files_download_order := Some (a, map int is)\<rparr>" "view (sft_world t) = view (sft_world s)"
    "sft_block t = sft_block s" "sent_messages t = sent_messages s"
proof -
  let ?n = "length ds"
  have n: "8 * ?n \<le> PTRDIFF_MAX" "4 * ?n \<le> PTRDIFF_MAX" "unat (of_nat ?n :: 16 word) = ?n"
    using l(3) by (simp_all add: PTRDIFF_MAX_def word_of_length)
  obtain q m1 where q: "xi_alloc (8 * ?n) (tmem s) = (q, m1)" "q \<noteq> NULL" "q \<notin> live_blocks (tmem s)"
    "live_blocks m1 = insert q (live_blocks (tmem s))" "mem_ok m1" "alloc_script m1 = []"
    by (rule granting_alloc [OF g(1) n(1)])
  have g1: "granting (s\<lparr>tmem := m1\<rparr>)" using q(5,6) by (simp add: granting_def)
  obtain m1' where f1: "free_order (s\<lparr>tmem := m1\<rparr>) = s\<lparr>tmem := m1', sft := (sft s)\<lparr>updateable_files_download_order := None\<rparr>\<rparr>"
    "live_blocks m1' = live_blocks m1 - order_block order" "next_block m1' = next_block m1" "alloc_script m1' = []" "mem_ok m1'"
    using free_order_result [OF g1] g(2) q(6) by auto
  obtain a m2 where a: "xi_alloc (4 * ?n) m1' = (a, m2)" "a \<noteq> NULL" "a \<notin> live_blocks m1'"
    "live_blocks m2 = insert a (live_blocks m1')" "mem_ok m2" "alloc_script m2 = []"
    using granting_alloc [of "s\<lparr>tmem := m1'\<rparr>", OF _ n(2)] f1(4,5) by (auto simp: granting_def)
  have "a = next_block m1" using xi_alloc_fresh [OF a(1) f1(5) a(2)] f1(3) by simp
  then have an: "a \<notin> live_blocks m1" using q(5) by (auto simp: mem_ok_def)
  let ?ns = "map (\<lambda>d. map_option snd (file_name d)) ds"
  obtain f w where f: "fwu_order_resource_downloads bsp ?ns (map int [0..<?n]) (sft_world s) = (f, w)" "view w = view (sft_world s)"
    "map f [0..<?n] = map int is"
    using b o(1) unfolding firmware_functions_def by (metis length_map)
  let ?t = "s\<lparr>tmem := xi_free q m2, sft_world := w, sft := (sft s)\<lparr>updateable_files_download_order := Some (a, map int is)\<rparr>\<rparr>"
  have "\<forall>i \<in> set (map f [0..<?n]). \<not> i < 0 \<and> \<not> int ?n \<le> i" unfolding f(3) using o(2) by auto
  then have inr: "\<forall>i \<in> {0..<?n}. \<not> f i < 0 \<and> \<not> int ?n \<le> f i" by simp
  have "xi_sft_order_resource_downloads bsp s = Some (XI_STATE_OK, ?t)"
    using msg n(3) q(1,2) a(1,2) f1(1,2) l(1,2) q(4) a(4) f(1,3) inr
    by (simp add: xi_sft_order_resource_downloads_def first_n_def set_sft_def Let_def del: map_map)
  moreover have "live_blocks (tmem ?t) = insert a (live_blocks (tmem s) - order_block order)" using q(2-4) a(4) an f1(2) by auto
  moreover have "granting ?t" using a(5,6) by (simp add: granting_def)
  moreover have "a \<notin> live_blocks (tmem s)" using an q(4) by simp
  ultimately show thesis using that [of ?t a] f(2) by simp
qed

lemma package_announced:
  fixes s :: "('f, 'w, 'z) xi_sft_scheme"
  assumes b: "firmware_functions bsp view is_fw ord"
    and c: "granting s" "sft_block s \<in> live_blocks (tmem s)" "fn_send_message (sft s)" "update_message_fua (sft s) = NULL"
      "update_firmware (sft s) = fw" "updateable_files_download_order (sft s) = order"
    and p: "deref_control_message s p = Some (XI_CONTROL_MESSAGE_SC__SFT_FILE_UPDATE_AVAILABLE (of_nat (length ds)) l)" "file_descs s l = ds"
      "package_blocks p l ds \<subseteq> live_blocks (tmem s) - order_block order" "length ds < 2 ^ 16"
    and d: "describes hash (ds ! i) (nm, rv, content)"
    and o: "ord (map (\<lambda>d. map_option snd (file_name d)) ds) = i # rest" "set (i # rest) \<subseteq> {..<length ds}" "length ds = Suc (length rest)"
  obtains a t where "xi_sft_on_message bsp (sft_block s) p s = Some (XI_STATE_OK, t)" "a \<notin> live_blocks (tmem s)"
    "live_blocks (tmem t) = insert a (live_blocks (tmem s) - order_block order)" "package_here p l ds a (Suc 0) rest (if is_fw nm then Some (l, i) else fw) t"
    "update_current_file (sft t) = Some (l, i)" "sent_messages t = sent_messages s @ [request nm rv 0 (length content)]"
    "sft_block t = sft_block s" "view (sft_world t) = view (sft_world s)"
proof -
  let ?s = "set_sft (\<lambda>c. c\<lparr>update_message_fua := p\<rparr>) s"
  have pl: "p \<in> live_blocks (tmem s) - order_block order" "l \<in> live_blocks (tmem s) - order_block order" using p(3) by (simp_all add: package_blocks_def)
  have nn: "NULL \<notin> live_blocks (tmem s)" using c(1) by (auto simp: granting_def mem_ok_def)
  then have pn: "p \<noteq> NULL" "l \<noteq> NULL" "sft_block s \<noteq> NULL" using pl c(2) nn by (metis DiffD1)+
  have dm: "deref_control_message ?s p = Some (XI_CONTROL_MESSAGE_SC__SFT_FILE_UPDATE_AVAILABLE (of_nat (length ds)) l)"
    using p(1) by (simp add: deref_control_message_def set_sft_def split: if_splits)
  obtain a t where t: "xi_sft_order_resource_downloads bsp ?s = Some (XI_STATE_OK, t)" "a \<notin> live_blocks (tmem ?s)"
    "live_blocks (tmem t) = insert a (live_blocks (tmem ?s) - order_block order)" "granting t" "control_messages t = control_messages ?s" "file_descs t = file_descs ?s"
    "sft t = (sft ?s)\<lparr>updateable_files_download_order := Some (a, map int (i # rest))\<rparr>" "view (sft_world t) = view (sft_world ?s)"
    "sft_block t = sft_block ?s" "sent_messages t = sent_messages ?s"
    by (rule package_ordered [OF b, of ?s order ds l]) (use c(1,6) dm pl(2) p(2,4) o(1,2) in \<open>auto simp: set_sft_def granting_def\<close>)
  have pt: "package_here p l ds a 0 (i # rest) fw t"
    using t(3-7) p(1,2,4) pn(1,2) pl(1,2) o(2,3) c(3,5) by (auto simp: package_here_def deref_control_message_def set_sft_def)
  obtain u where u: "xi_sft_continue_package_download bsp t = Some u"
    "package_here p l ds a (Suc 0) rest (if is_fw nm then Some (l, i) else fw) u" "update_current_file (sft u) = Some (l, i)"
    "talks [Get_Chunk (Some (c_string nm)) (Some (c_string rv)) 0 (min XI_SFT_FILE_CHUNK_SIZE (of_nat (length content)))] t u"
    "view (sft_world u) = view (sft_world t)"
    by (rule next_started [OF b pt d])
  have n0: "(of_nat (length ds) :: 16 word) \<noteq> 0" using word_of_length(2) [OF p(4)] o(3) by (metis Zero_not_Suc unat_0)
  then have "0 < (of_nat (length ds) :: 16 word)" by (simp add: word_neq_0_conv)
  then have "on_file_update_available bsp p s = Some (XI_STATE_OK, u)"
    using c(4) dm pn(2) t(1) u(1) by (simp add: on_file_update_available_def xi_control_message_free_def)
  then have "xi_sft_on_message bsp (sft_block s) p s = Some (XI_STATE_OK, u)"
    using pn(1,3) c(2) p(1) by (simp add: xi_sft_on_message_def deref_context_def)
  moreover have "sent_messages u = sent_messages s @ [request nm rv 0 (length content)]" "live_blocks (tmem u) = insert a (live_blocks (tmem s) - order_block order)"
    "sft_block u = sft_block s"
    using u(4) t(3,9,10) by (simp_all add: talks_def request_def set_sft_def)
  ultimately show thesis using that [of u a] u(2,3,5) t(2,8) by (simp add: set_sft_def)
qed

text \<open>
  C2: a package is downloaded. On a platform that keeps what it is given, when the service announces
  a package and then sends the contents of its files, in the order the platform chose and cut into
  chunks in any way, then every file is in the file system with its content and with its revision
  noted (the one of firmware in the mailbox for the next run); the platform is told that the package
  is complete, and of which firmware it has; the client has asked for each chunk at the offset that
  follows from those it got, and reported each file; and of the memory of the package nothing is
  left but the array of the order, as of the package before it nothing is.
  Memory is granted throughout; the files come over the file transfer itself (no \<open>download_link\<close>);
  no firmware of an earlier package is pending (\<open>update_firmware\<close> is \<open>NULL\<close>, otherwise
  \<open>sft_firmware_pointer_dangles\<close>); the platform takes every write, one of no bytes included.
\<close>
theorem sft_downloads_package:
  fixes s :: "('f, 'w, 'z) xi_sft_scheme"
  assumes platform: "stores_files bsp view" "checksums bsp view hash" "firmware_functions bsp view is_fw ord"
    and ctx: "granting s" "sft_block s \<in> live_blocks (tmem s)" "fn_send_message (sft s)" "update_message_fua (sft s) = NULL"
      "update_firmware (sft s) = None" "updateable_files_download_order (sft s) = old" "sft_block s \<notin> order_block old"
    and package: "deref_control_message s p = Some (XI_CONTROL_MESSAGE_SC__SFT_FILE_UPDATE_AVAILABLE (of_nat (length ds)) l)" "file_descs s l = ds"
      "package_blocks p l ds \<subseteq> live_blocks (tmem s) - order_block old" "0 < length ds" "length ds < 2 ^ 16" "list_all2 (describes hash) ds files"
    and order: "ord (map (\<lambda>d. map_option snd (file_name d)) ds) = is" "distinct is" "set is = {..<length ds}"
    and chunks: "list_all2 (\<lambda>i cs. cuts cs (snd (snd (files ! i)))) is css"
  shows "\<exists>t u a. xi_sft_on_message bsp (sft_block s) p s = Some (XI_STATE_OK, t)
    \<and> deliver_package bsp (zip (map ((!) files) is) css) t = Some u
    \<and> stored (view (sft_world u)) = fold (install is_fw) (map ((!) files) is) (stored (view (sft_world s)))
    \<and> finished (view (sft_world u)) = finished (view (sft_world s)) @ [map_option fst (firmware_of is_fw (map ((!) files) is) None)]
    \<and> sent_messages u = sent_messages s @ concat (map (file_dialogue is_fw) (zip (map ((!) files) is) css))
        @ farewell (firmware_of is_fw (map ((!) files) is) None)
    \<and> a \<notin> live_blocks (tmem s)
    \<and> live_blocks (tmem u) = insert a (live_blocks (tmem s) - package_blocks p l ds - order_block old)"
proof -
  have "length is = length ds" using order(2,3) distinct_card [of "is"] by simp
  then obtain i rest where "is": "is = i # rest" "length ds = Suc (length rest)" using package(4) by (cases "is") auto
  obtain cs css' where c: "css = cs # css'" "cuts cs (snd (snd (files ! i)))" "list_all2 (\<lambda>i cs. cuts cs (snd (snd (files ! i)))) rest css'"
    using chunks "is"(1) by (auto simp: list_all2_Cons1)
  obtain nm rv content where f: "files ! i = (nm, rv, content)" by (cases "files ! i")
  have i: "i < length ds" "set (i # rest) \<subseteq> {..<length ds}" using order(3) "is"(1) by auto
  have d: "describes hash (ds ! i) (nm, rv, content)" using package(6) i(1) f by (metis list_all2_nthD)
  obtain a t where t: "xi_sft_on_message bsp (sft_block s) p s = Some (XI_STATE_OK, t)" "a \<notin> live_blocks (tmem s)"
    "live_blocks (tmem t) = insert a (live_blocks (tmem s) - order_block old)" "package_here p l ds a (Suc 0) rest (if is_fw nm then Some (l, i) else None) t"
    "update_current_file (sft t) = Some (l, i)" "sent_messages t = sent_messages s @ [request nm rv 0 (length content)]"
    "sft_block t = sft_block s" "view (sft_world t) = view (sft_world s)"
    by (rule package_announced [OF platform(3) ctx(1-6) package(1,2) _ package(5) d _ i(2) "is"(2)])
      (use order(1) "is"(1) package(3) in \<open>simp_all\<close>)
  let ?fw = "if is_fw nm then Some (l, i) else None" and ?F = "if is_fw nm then Some (nm, rv) else None"
  have "names (ds ! i) nm rv" using d by (simp add: describes_def)
  then have fw: "is_fw (fst (files ! i)) \<longleftrightarrow> ?fw = Some (l, i)" "\<forall>j \<in> set rest. ?fw \<noteq> Some (l, j)" "firmware_named l ds ?fw ?F"
    using f order(2) "is"(1) i(1) by (auto simp: firmware_named_def)
  have sub: "sft_block t \<in> live_blocks (tmem t)" "package_blocks p l ds \<subseteq> live_blocks (tmem t)" "distinct (i # rest)"
    using t(3,7) ctx(2,7) package(3) order(2) "is"(1) by auto
  obtain u where u: "deliver_package bsp (zip (map ((!) files) (i # rest)) (cs # css')) t = Some u"
    "closes_package (package_blocks p l ds) (tl (concat (map (file_dialogue is_fw) (zip (map ((!) files) (i # rest)) (cs # css'))))
        @ farewell (firmware_of is_fw (map ((!) files) rest) ?F)) t u"
    "stored (view (sft_world u)) = fold (install is_fw) (map ((!) files) (i # rest)) (stored (view (sft_world t)))"
    "finished (view (sft_world u)) = finished (view (sft_world t)) @ [map_option fst (firmware_of is_fw (map ((!) files) rest) ?F)]"
    using package_delivered [OF platform package(6) t(4) sub(1,2) t(5) i(1) sub(3) fw c(2,3)] by blast
  have F: "firmware_of is_fw (map ((!) files) is) None = firmware_of is_fw (map ((!) files) rest) ?F"
    using "is"(1) f by (simp add: firmware_of_def)
  have "concat (map (file_dialogue is_fw) (zip (map ((!) files) is) css)) = request nm rv 0 (length content)
      # tl (concat (map (file_dialogue is_fw) (zip (map ((!) files) (i # rest)) (cs # css'))))"
    using requests_first [of cs content nm rv] c(1,2) f "is"(1) by (cases "requests nm rv 0 cs") (auto simp: file_dialogue_def)
  then have "sent_messages u = sent_messages s @ concat (map (file_dialogue is_fw) (zip (map ((!) files) is) css))
        @ farewell (firmware_of is_fw (map ((!) files) is) None)"
    using u(2) t(6) F by (simp add: closes_package_def)
  moreover have "live_blocks (tmem u) = insert a (live_blocks (tmem s) - package_blocks p l ds - order_block old)"
    using u(2) t(2,3) package(3) by (auto simp: closes_package_def)
  ultimately show ?thesis using t(1,2,8) u(1,3,4) F "is"(1) c(1) by (intro exI [of _ t] exI [of _ u] exI [of _ a]) simp
qed

theorem sft_downloads_package_witness:
  "\<exists>t u a. xi_sft_on_message (ram_bsp example_hash is_f) (sft_block sft_example) 30 sft_example = Some (XI_STATE_OK, t)
    \<and> deliver_package (ram_bsp example_hash is_f) (zip (map ((!) example_files) [1, 0]) [[[4]], [[1], [2, 3]]]) t = Some u
    \<and> stored (sft_world u) = fold (install is_f) (map ((!) example_files) [1, 0]) (stored (sft_world sft_example))
    \<and> finished (sft_world u) = finished (sft_world sft_example)
        @ [map_option fst (firmware_of is_f (map ((!) example_files) [1, 0]) None)]
    \<and> sent_messages u = sent_messages sft_example
        @ concat (map (file_dialogue is_f) (zip (map ((!) example_files) [1, 0]) [[[4]], [[1], [2, 3]]]))
        @ farewell (firmware_of is_f (map ((!) example_files) [1, 0]) None)
    \<and> a \<notin> live_blocks (tmem sft_example)
    \<and> live_blocks (tmem u) = insert a (live_blocks (tmem sft_example) - package_blocks 30 31 example_descs - order_block None)"
proof (rule sft_downloads_package [OF ram_stores_files ram_checksums ram_firmware_functions sft_example_granting,
      where files = example_files])
  show "list_all2 (describes example_hash) example_descs example_files" by (rule example_described)
  show "rev [0..<length (map (\<lambda>d. map_option snd (file_name d)) example_descs)] = [1, 0]"
    by (simp add: example_descs_def upt_rec)
qed (auto simp: sft_example_def example_descs_def example_desc_def example_files_def deref_control_message_def
  package_blocks_def file_desc_ext_blocks_def c_str_block_def order_block_def cuts_def)

section \<open>A file that is not what was announced\<close>

text \<open>
  C39: the fingerprint is what counts, on any platform. When the last chunk of a file has been written
  and the digest of what was received is not the fingerprint of the file, the service gets the status
  of a checksum mismatch and the application is told that the package has failed; no revision is noted
  and no other file is asked for. The handle of the file stays open and in the context, as do the
  file and the package, and the handler returns success. Memory is granted for the message.
\<close>
theorem sft_wrong_fingerprint_fails_package:
  fixes s :: "('f, 'w, 'z) xi_sft_scheme"
  assumes "granting s" "fn_send_message (sft s)" "update_current_file (sft s) = Some f" "deref_file s f = Some d" "names d nm rv"
    and "checksum_context (sft s) \<noteq> NULL" "fwu_checksum_final bsp (checksum_context (sft s)) (sft_world s) = (k, digest, w)"
    and "fingerprint d = Some (a, fp)" "unat (fingerprint_len d) = length fp" "digest \<noteq> fp"
  shows "\<exists>t. file_chunk_complete bsp s = Some (XI_STATE_OK, t) \<and> sft t = (sft s)\<lparr>checksum_context := k\<rparr>
    \<and> sft_world t = fwu_on_package_download_failure bsp w \<and> live_blocks (tmem t) = live_blocks (tmem s)
    \<and> sent_messages t = sent_messages s @ [File_Status (Some (c_string nm)) (Some (c_string rv))
        XI_CONTROL_MESSAGE__SFT_FILE_STATUS_PHASE_DOWNLOADED XI_CONTROL_MESSAGE__SFT_FILE_STATUS_CODE_ERROR__FILE_CHECKSUM_MISMATCH]"
proof -
  let ?s = "set_sft (\<lambda>c. c\<lparr>checksum_context := k\<rparr>) (s\<lparr>sft_world := w\<rparr>)"
  have d: "deref_file ?s f = Some d" "granting ?s" using assms(1,4) by (simp_all add: deref_file_def set_sft_def granting_def split: if_splits)
  have c: "xi_sft_on_message_file_chunk_checksum_final bsp s = Some (XI_CONTROL_MESSAGE__SFT_FILE_STATUS_CODE_ERROR__FILE_CHECKSUM_MISMATCH, ?s)"
    using assms(3,6-10) d(1) by (simp add: xi_sft_on_message_file_chunk_checksum_final_def bytes_at_def first_n_def Let_def)
  obtain u where u: "xi_sft_send_file_status None XI_CONTROL_MESSAGE__SFT_FILE_STATUS_PHASE_DOWNLOADED
      XI_CONTROL_MESSAGE__SFT_FILE_STATUS_CODE_ERROR__FILE_CHECKSUM_MISMATCH ?s = Some u"
    "talks [File_Status (Some (c_string nm)) (Some (c_string rv)) XI_CONTROL_MESSAGE__SFT_FILE_STATUS_PHASE_DOWNLOADED
      XI_CONTROL_MESSAGE__SFT_FILE_STATUS_CODE_ERROR__FILE_CHECKSUM_MISMATCH] ?s u" "sft u = sft ?s" "sft_world u = sft_world ?s"
    by (rule status_sent [OF d(2) _ _ _ d(1) assms(5), of None]) (use assms(2,3) in \<open>simp_all add: set_sft_def\<close>)
  then show ?thesis
    using c by (intro exI [of _ "on_world (fwu_on_package_download_failure bsp) u"])
      (simp add: file_chunk_complete_def talks_def on_world_def set_sft_def)
qed

theorem sft_wrong_fingerprint_fails_package_witness:
  "\<exists>t. file_chunk_complete (ram_bsp example_hash is_f) receiving_example = Some (XI_STATE_OK, t)
    \<and> sft t = (sft receiving_example)\<lparr>checksum_context := NULL\<rparr>
    \<and> sft_world t = fwu_on_package_download_failure (ram_bsp example_hash is_f) empty_store \<and> live_blocks (tmem t) = live_blocks (tmem receiving_example)
    \<and> sent_messages t = sent_messages receiving_example @ [File_Status (Some (c_string [97])) (Some (c_string [49]))
        XI_CONTROL_MESSAGE__SFT_FILE_STATUS_PHASE_DOWNLOADED XI_CONTROL_MESSAGE__SFT_FILE_STATUS_CODE_ERROR__FILE_CHECKSUM_MISMATCH]"
proof (rule sft_wrong_fingerprint_fails_package [where f = "(31, 1)" and d = "example_descs ! 1" and digest = "[]" and a = 37 and fp = "example_hash [4]"])
  show "granting receiving_example" using sft_example_granting by (simp add: receiving_example_def set_sft_def granting_def)
qed (auto simp: receiving_example_def set_sft_def sft_example_def deref_file_def names_def short_string_def example_descs_def
  example_desc_def example_files_def example_hash_def ram_bsp_def empty_store_def)

section \<open>The firmware of the package before\<close>

lemma stale_firmware_read:
  fixes s :: "('f, 'w, 'z) xi_sft_scheme"
  assumes "package_here p l ds a k [] (Some (l', i)) s" "l' \<notin> live_blocks (tmem s)"
  shows "xi_sft_continue_package_download bsp s = None"
proof -
  let ?t = "set_sft (\<lambda>c. c\<lparr>update_current_file := None, updateable_files_download_order := Some (a, replicate k (-1))\<rparr>) s"
  have n: "unat (of_nat (length ds) :: 16 word) = length ds" "k = length ds" using assms(1) by (simp_all add: package_here_def word_of_length)
  have "xi_sft_select_next_resource_to_download s = Some (XI_STATE_OK, ?t)"
    using assms(1) n(1) select_index_none [of k] by (simp add: xi_sft_select_next_resource_to_download_def package_here_def n(2) [symmetric])
  moreover have "xi_sft_send_file_status (Some (l', i)) XI_CONTROL_MESSAGE__SFT_FILE_STATUS_PHASE_PROCESSING
      XI_CONTROL_MESSAGE__SFT_FILE_STATUS_CODE_SUCCESS ?t = None"
    using assms by (simp add: xi_sft_send_file_status_def package_here_def set_sft_def deref_file_def)
  ultimately show ?thesis
    using assms(1) by (simp add: xi_sft_continue_package_download_def package_here_def set_sft_def)
qed

text \<open>
  C40: after a package with firmware, \<open>update_firmware\<close> is a dangling pointer. The last file of a
  package with firmware is complete: the code reports the firmware and frees the package, but keeps
  the pointer to the firmware in it. Whenever a later package, in which no firmware has replaced the
  pointer, is complete and that block has not been given out again, the code reads the freed block.
\<close>
theorem sft_firmware_pointer_dangles:
  fixes s :: "('f, 'w, 'z) xi_sft_scheme"
  assumes "firmware_functions bsp view is_fw ord" "package_here p l ds a k [] (Some (l, i)) s" "i < length ds" "names (ds ! i) nm rv"
  shows "\<exists>t. xi_sft_continue_package_download bsp s = Some t \<and> update_message_fua (sft t) = NULL
    \<and> update_firmware (sft t) = Some (l, i) \<and> l \<notin> live_blocks (tmem t)
    \<and> (\<forall>(t' :: ('f, 'w, 'z) xi_sft_scheme) p' l' ds' a' k'. package_here p' l' ds' a' k' [] (update_firmware (sft t)) t'
         \<and> l \<notin> live_blocks (tmem t') \<longrightarrow> xi_sft_continue_package_download bsp t' = None)"
proof -
  have "firmware_named l ds (Some (l, i)) (Some (nm, rv))" using assms(3,4) by (simp add: firmware_named_def)
  then obtain t where t: "xi_sft_continue_package_download bsp s = Some t" "closes_package (package_blocks p l ds) (farewell (Some (nm, rv))) s t"
    "update_firmware (sft t) = Some (l, i)"
    by (rule package_finished [OF assms(1,2)])
  then have "l \<notin> live_blocks (tmem t)" "update_message_fua (sft t) = NULL" by (auto simp: closes_package_def package_blocks_def)
  then show ?thesis using t(1,3) stale_firmware_read by (intro exI [of _ t]) auto
qed

theorem sft_firmware_pointer_dangles_witness:
  "\<exists>t. xi_sft_continue_package_download (ram_bsp example_hash is_f) complete_example = Some t \<and> update_message_fua (sft t) = NULL
    \<and> update_firmware (sft t) = Some (31, 0) \<and> 31 \<notin> live_blocks (tmem t)
    \<and> (\<forall>(t' :: (nat, file_store) xi_sft) p' l' ds' a' k'. package_here p' l' ds' a' k' [] (update_firmware (sft t)) t'
         \<and> 31 \<notin> live_blocks (tmem t') \<longrightarrow> xi_sft_continue_package_download (ram_bsp example_hash is_f) t' = None)"
proof (rule sft_firmware_pointer_dangles [OF ram_firmware_functions, where p = 30 and ds = example_descs and a = 37 and k = "Suc (Suc 0)" and nm = "[102]" and rv = "[50]"])
  show "package_here 30 31 example_descs 37 (Suc (Suc 0)) [] (Some (31, 0)) complete_example"
    using sft_example_granting
    by (simp add: package_here_def complete_example_def set_sft_def granting_def deref_control_message_def example_descs_def) (simp add: sft_example_def example_descs_def)
qed (auto simp: names_def short_string_def example_descs_def example_desc_def example_files_def)

end
