(* ===== verification/Spec2Isabelle.thy ===== *)
theory Spec2Isabelle
  imports Mqtt_Logic_Session Mqtt_Codec_Stack Xi_Io_Net_Stream Xi_List Xi_Senml_Build Xi_Memory_Limiter_List Xi_Sft_Package
begin

section \<open>The Xively C client\<close>

text \<open>
  The Xively C client is a library for devices that talk MQTT to a broker. It is single
  threaded: an application creates a context, asks for a connection, for subscriptions and for
  publications, and then runs the event loop. A context owns a chain of layers (network, TLS,
  MQTT codec, MQTT logic, control topic); a layer hands data to its neighbours by posting calls on
  the event dispatcher, and every wait (for a socket, for a timer, for a confirmation) is a call
  that the dispatcher makes later.

  This development models the parts below \<open>src/src/libxively/\<close> that carry the library's own
  algorithms, function by function, and proves what they promise. Where the code does something
  else than it means to, the theorem states what it does; the manifest lists these places as
  findings.

  \<^bold>\<open>Conventions.\<close> A C function that can run into an assertion, a dereference of a dangling or null
  pointer or an access outside of an object is a HOL function into \<open>option\<close>; \<open>None\<close> is such
  an execution (and, for loops that may run for ever, an execution that does not end), and every
  return, error codes included, is \<open>Some\<close>. A pointer is a natural number, \<open>NULL\<close> is 0. The
  allocator hands out addresses that were never used before, keeps the set of live blocks, and
  fails where its script says so (a request for 0 bytes is served like any other); a theorem about all memories is therefore a theorem about every
  pattern of failing allocations. Integers keep the width they have in the code wherever it
  matters: \<open>int8_t\<close> counters wrap, lengths are 32-bit words, the arithmetic of \<open>size_t\<close> is
  modulo \<open>2 ^ 64\<close>; the platform is one with 64-bit pointers. Assertions are those of the debug
  build. Logging, dumps and the fields that only serve them are left out.

  \<^bold>\<open>Hypotheses.\<close> Many theorems are about a part in operation: the layer is up and memory is granted at
  every call (\<open>codec_up\<close>, \<open>sender_up\<close>, \<open>net_up\<close>, \<open>granting\<close>, \<open>all_granted\<close>), and the rest of the program
  leaves the part's own data alone (\<open>undisturbed\<close>, \<open>queue_kept\<close>). What refused memory does is stated
  where it is more than an error code: \<open>refused_buffer_hands_over_freed_message\<close>, \<open>session_round_trip\<close>,
  \<open>publish_q1_refines_protocol\<close>, \<open>senml_serialise_outcomes\<close>, \<open>limiter_keeps_its_books\<close>. The theorems on
  the stream of packets are about \<open>deliverable\<close> packets; what becomes of one that ends in an empty field
  is \<open>empty_publish_stalls\<close>.

  \<^bold>\<open>The parts and their theories.\<close>

  \<^item> \<open>Xi_Error\<close>, \<open>Prelude\<close>: the status codes of \<open>include/xively_error.h\<close>, narrowing
    conversions, the allocator (\<open>memory/xi_allocator.c\<close>), array accesses, and the lemmas on lists
    that the other theories share.
  \<^item> \<open>Xi_Vector\<close>: \<open>datastructures/xi_vector.c\<close>, the growable array. The lemmas give each
    operation on every branch; the properties are that a push appends or fails without effect,
    that conditional removal filters, and what a failing shrink loses; a lemma shows that the
    capacity ends at 64 because it doubles in \<open>int8_t\<close>.
  \<^item> \<open>Xi_List\<close>: \<open>datastructures/xi_list.h\<close>, the macros for linked lists, over a heap of links; they
    refine the operations on lists.
  \<^item> \<open>Xi_Helpers\<close>: the string helpers and the bit filter of \<open>xi_helpers.c\<close>.
  \<^item> \<open>Xi_Data_Desc\<close>: \<open>xi_data_desc.c\<close>, the byte buffers: growth, appending with and without
    growth, and where the 32-bit growth strategy wraps.
  \<^item> \<open>Xi_Time_Event\<close>: \<open>event_dispatcher/xi_time_event.c\<close>, the sorted container of timers with
    handles that point into it. The store is explicit, because restarting and cancelling work
    through pointers into the events. The invariant \<open>tev_ok\<close> says that the queue is sorted, that
    every event knows its index and that handles and events agree.
  \<^item> \<open>Xi_Event_Handle\<close>, \<open>Xi_Event_Dispatcher\<close>: \<open>event_dispatcher/xi_event_handle.c\<close> and
    \<open>xi_event_dispatcher.c\<close>. \<open>Xi_Event_Dispatcher_Invariant\<close> has the invariant of an instance and
    its preservation by every operation; \<open>Xi_Event_Dispatcher_Step\<close> the step with the handlers it
    calls. The locale \<open>handler_environment\<close> is the contract of a handler (it keeps the invariant
    and takes no foreign block); it is interpreted for handlers composed of the library's
    operations, for handlers on the application's state and, in \<open>Xi_Backoff\<close>, for the cooldown.
  \<^item> \<open>Xi_Backoff\<close>: \<open>xi_backoff_status_api.c\<close>, the penalty before a reconnection, on the global
    dispatcher; its fields extend the record of the dispatcher.
  \<^item> \<open>Mqtt_Message\<close>, \<open>Mqtt_Serialiser\<close>: \<open>mqtt/codec/xi_mqtt_message.c\<close> and
    \<open>xi_mqtt_serialiser.c\<close>. The relation \<open>writes\<close> is a small calculus of writers; the computed size is
    the size that is written, in every state of the buffer.
  \<^item> \<open>Mqtt_Parser\<close>, \<open>Mqtt_Parser_Stream\<close>: \<open>mqtt/codec/xi_mqtt_parser.c\<close>, a coroutine that is resumed
    at the label its state holds, and the loop of \<open>xi_mqtt_codec_layer_pull\<close> that feeds it. The
    locale \<open>chunked_reader\<close> is what both of its readers (of strings and of raw data) promise under
    any cutting of the input. Between two buffers the rest of the program may allocate and free:
    \<open>feed\<close> takes a list of arrivals, a buffer with the change of the memory before it.
  \<^item> \<open>Mqtt_Round_Trip\<close>: the parser reads back what the serialiser writes, however the bytes are cut
    into buffers, and the inputs on which the parser loses its way.
  \<^item> \<open>Mqtt_Logic_Messages\<close>: \<open>mqtt/logic/xi_mqtt_logic_layer_data_helpers.h\<close>, how the logic layer fills
    in packets and compares topics; what it fills in can be written and arrives.
  \<^item> \<open>Xi_Layer\<close>, \<open>Xi_Io_Timeouts\<close>: \<open>xi_layer_api.c\<close>, how a layer posts a call of its neighbour, and
    \<open>xi_io_timeouts.c\<close>, timers that are kept in a vector.
  \<^item> \<open>Mqtt_Logic_Data\<close>, \<open>Mqtt_Logic_Tasks\<close>, \<open>Mqtt_Logic_Coroutines\<close>, \<open>Mqtt_Logic_Layer\<close>: the MQTT
    logic layer, \<open>mqtt/logic/\<close>. Its state (the queues of tasks and the objects behind pointers)
    extends that of the global dispatcher; a task is a coroutine that is resumed at the label in
    \<open>task->cs\<close>; the layer's seven functions start, resume, store and free tasks. \<open>logic_env\<close> is what
    the dispatcher calls.
  \<^item> \<open>Mqtt_Logic_Heap\<close>, \<open>Mqtt_Logic_Publish\<close>: what the operations of the logic layer do to the
    heap. \<open>quiet p B s t\<close> says that between \<open>s\<close> and \<open>t\<close> only the task \<open>p\<close> and the blocks \<open>B\<close> were
    touched; it composes, so the steps of a coroutine are followed one by one.
  \<^item> \<open>Mqtt_Logic_Publish_Protocol\<close>: publications of quality of service 1 refine the protocol
    \<open>q1_step\<close> (send, wait to be written, wait for the confirmation, resend, give up), in which every
    failing allocation is a step of its own; a history of resumptions reports its result once.
    \<open>Mqtt_Logic_Example\<close> is the concrete state of its witnesses.
  \<^item> \<open>Mqtt_Logic_Session\<close>: unacknowledged publications across connections: stored by
    \<open>xi_mqtt_logic_layer_close_externally\<close>, given back by \<open>xi_mqtt_logic_layer_init\<close>, sent again by
    \<open>xi_mqtt_logic_layer_post_connect\<close>.

  \<^item> \<open>Mqtt_Codec_Layer\<close>: \<open>mqtt/codec/xi_mqtt_codec_layer.c\<close> and \<open>xi_mqtt_codec_layer_data.c\<close>, on a
    state that extends that of the logic layer, because the two layers pass messages and
    confirmations to each other by pointer. \<open>stack_env\<close> is what the dispatcher calls with both
    layers in place.
  \<^item> \<open>Mqtt_Parser_Frame\<close>, \<open>Mqtt_Codec_Pull\<close>: what a call of the parser may change (its message, its
    buffer, blocks that did not exist before), and with that the receiving half of the codec layer:
    however the bytes of a sequence of packets arrive, the packets are handed to the logic layer,
    once each and in order, as soon as they are complete.

  \<^item> \<open>Mqtt_Codec_Push\<close>: the sending half refines a sender with a queue (\<open>sender_step\<close>): its relation
    \<open>sends\<close> ties the queue of tasks to a list of packets, and \<open>leaves B\<close> says that a call touches
    only the blocks \<open>B\<close> and nothing of the receiving half. \<open>Mqtt_Codec_Stack\<close> puts both halves
    together, end to end, and shows what happens when a buffer is refused.
  \<^item> \<open>Xi_Io_Net\<close>, \<open>Xi_Io_Net_Stream\<close>: \<open>io/net/xi_io_net_layer.c\<close>, the layer of the sockets, whose
    platform functions are the argument \<open>bsp\<close>, and the two POSIX functions that write and read
    (\<open>src/bsp/platform/posix/xi_bsp_io_net_posix.c\<close>). Over these functions every byte of a buffer is
    written once and in order, over any number of calls; over platforms that report what they took of
    a busy write, or on errors the functions do not know, it is not, and this is stated too; what is read is what \<open>Mqtt_Codec_Pull\<close> expects of a buffer.

  \<^item> \<open>Xi_Senml\<close>, \<open>Xi_Senml_Render\<close>, \<open>Xi_Senml_Build\<close>: \<open>senml/\<close>, measurements in SenML. The serialiser
    appends to a byte buffer and counts fields to place its commas; \<open>senml_json\<close> renders the same
    structure from nested lists of fields, and \<open>appends f t\<close> says that a step of the serialiser
    appends \<open>t\<close>. What is lost when memory fails is stated too. \<open>entry_owned\<close> is the ownership of the
    copies an entry is built from.
  \<^item> \<open>Xi_Memory_Limiter\<close>, \<open>Xi_Memory_Limiter_List\<close>: \<open>debug_extensions/memory_limiter/\<close>, the allocator that
    counts bytes and keeps its blocks in a list linked both ways. \<open>dseg\<close> is a segment of such a list,
    \<open>limiter_ok\<close> the invariant; \<open>realloc\<close> does not keep it, with the consequences stated.
  \<^item> \<open>Xi_Control_Message\<close>, \<open>Xi_Sft_Revision\<close>, \<open>Xi_Sft_Logic\<close>: \<open>control_topic/xi_control_message.c\<close> and
    \<open>sft/\<close>, secure file transfer: the messages on the control topic, the files that note revisions,
    and the download of packages. Messages and lists of files are heaps, so that a pointer into a
    package can dangle; file system, checksums and firmware functions are the argument \<open>bsp\<close>, on a
    state of the outside world. \<open>Xi_Sft_Download\<close> states what a platform promises (\<open>stores_files\<close>,
    \<open>checksums\<close>, \<open>firmware_functions\<close>, over a view of the world as a \<open>file_store\<close>) and follows a
    package chunk by chunk: \<open>talks\<close> says which messages were sent between two states. \<open>Xi_Sft_Example\<close>
    has a platform that keeps the promises. \<open>Xi_Sft_Report\<close> is the report of revisions after a
    connection, where the code reads each file with one call and gets no more than its first bytes
    (\<open>reads_files\<close>; 1024 on the platforms of the repository); \<open>Xi_Sft_Package\<close> has the package as a whole and where the code does not keep up.

  \<^bold>\<open>Bounds.\<close> Loops of the code that end are functions with a measure. Loops that may not end (the
  loops of the dispatcher's step, whose handlers may keep posting; the traversal of a linked
  list; the feeding of the parser) are partial functions, and the theorems say where they return.
  Only the environment of the logic layer has fuel: a task that finishes starts the next one
  from within, so the depth of its calls is at most the number of waiting tasks, and every use of
  \<open>logic_env\<close> is for any fuel that is large enough.

  \<^bold>\<open>Not modelled.\<close> The layer of the control topic and its CBOR codec, the
  resource manager, the timed tasks, the event loop, the functions on connection data, the
  assembly of layers and the public functions of \<open>xively.c\<close>. The TLS layer, the
  file systems and the rest of the board support packages are input and output. The generated
  protobuf code, the vendored libraries (cmocka, cn-cbor, protobuf-c, tinytest, the TLS
  libraries), the tests and the examples are not the program. Of the threads only the single-
  threaded configuration is modelled, in which critical sections are empty.
\<close>

end
